(* ===== verification/UA_Prelude.thy ===== *)
theory UA_Prelude
  imports Complex_Main "HOL-Library.AList" "HOL-Library.List_Lexorder" "HOL-Library.Char_ord"
    "HOL-Library.Product_Lexorder"
begin

text \<open>
  Shared vocabulary of the development: Python strings and their \<open>strip\<close>, decimal
  numerals, dictionaries in insertion order, times and durations, operations that may
  change the state and raise, and the two generic contracts (a system with an invariant,
  a store whose entries expire) that several components meet.

  Python dictionaries keep insertion order, and the code iterates over them, so a
  dictionary is an association list: \<open>AList.update\<close> overwrites in place or appends,
  \<open>AList.delete\<close> removes, \<open>map_of\<close> looks up.
\<close>

named_theorems dict_simps "how look-ups, keys and values of a dictionary change"
named_theorems op_defs "definitions of the operations of a component"

type_synonym ('k, 'v) dict = "('k \<times> 'v) list"

abbreviation dict_values :: "('k, 'v) dict \<Rightarrow> 'v list" where
  "dict_values d \<equiv> map snd d"

abbreviation dict_keys :: "('k, 'v) dict \<Rightarrow> 'k list" where
  "dict_keys d \<equiv> map fst d"

abbreviation dict_wf :: "('k, 'v) dict \<Rightarrow> bool" where
  "dict_wf d \<equiv> distinct (map fst d)"

text \<open>\<open>d.get(k, default)\<close>\<close>

definition dict_get :: "('k, 'v) dict \<Rightarrow> 'k \<Rightarrow> 'v \<Rightarrow> 'v" where
  "dict_get d k v = (case map_of d k of None \<Rightarrow> v | Some w \<Rightarrow> w)"

lemma map_of_update [dict_simps]:
  "map_of (AList.update k v d) k' = (if k' = k then Some v else map_of d k')"
  by (simp add: update_conv')

lemma map_of_del [dict_simps]:
  "map_of (AList.delete k d) k' = (if k' = k then None else map_of d k')"
  by (simp add: delete_conv')

lemma dict_get_update [dict_simps]:
  "dict_get (AList.update k v d) k' w = (if k' = k then v else dict_get d k' w)"
  by (simp add: dict_get_def map_of_update)

lemma dict_get_delete [dict_simps]:
  "dict_get (AList.delete k d) k' w = (if k' = k then w else dict_get d k' w)"
  by (simp add: dict_get_def map_of_del)

lemma dict_wf_update [simp]: "dict_wf d \<Longrightarrow> dict_wf (AList.update k v d)"
  by (rule distinct_update)

lemma dict_wf_delete [simp]: "dict_wf d \<Longrightarrow> dict_wf (AList.delete k d)"
  by (rule distinct_delete)

lemma in_set_dict: "dict_wf d \<Longrightarrow> (k, v) \<in> set d \<longleftrightarrow> map_of d k = Some v"
  by (metis map_of_eq_Some_iff)

lemma set_update_dict [dict_simps]:
  "dict_wf d \<Longrightarrow> set (AList.update k v d) = insert (k, v) {p \<in> set d. fst p \<noteq> k}"
  by (induction d) (auto simp: image_iff)

lemma set_delete_dict [dict_simps]:
  "set (AList.delete k d) = {p \<in> set d. fst p \<noteq> k}"
  by (induction d) auto

lemma find_dict_value:
  assumes "dict_wf d" and "find P (dict_values d) = Some v"
  shows "\<exists>k. map_of d k = Some v \<and> P v"
proof -
  from assms(2) have "P v" and "v \<in> set (dict_values d)"
    unfolding find_Some_iff by (metis nth_mem)+
  then obtain k where "(k, v) \<in> set d" by auto
  with assms(1) \<open>P v\<close> show ?thesis by auto
qed

text \<open>\<open>sorted(xs, key=f)[0]\<close>: a first element is one of the list with a least key.\<close>

lemma hd_sort_key:
  fixes f :: "'a \<Rightarrow> 'b::linorder"
  assumes "xs \<noteq> []"
  shows "hd (sort_key f xs) \<in> set xs" and "y \<in> set xs \<Longrightarrow> f (hd (sort_key f xs)) \<le> f y"
proof -
  have "sort_key f xs \<noteq> []" using assms by (metis length_0_conv length_sort)
  then obtain z zs where z: "sort_key f xs = z # zs" by (cases "sort_key f xs") auto
  then show "hd (sort_key f xs) \<in> set xs"
    by (metis list.sel(1) list.set_intros(1) set_sort)
  have "sorted (map f (z # zs))" using sorted_sort_key [of f xs] z by simp
  moreover have "y \<in> set (z # zs)" if "y \<in> set xs" using that z by (metis set_sort)
  ultimately show "y \<in> set xs \<Longrightarrow> f (hd (sort_key f xs)) \<le> f y" using z by auto
qed

subsection \<open>Python strings\<close>

text \<open>
  A \<open>char\<close> is a code point below 256; these are the ones \<open>str.isspace\<close> accepts there.
\<close>

definition py_isspace :: "char \<Rightarrow> bool" where
  "py_isspace c = (let n = of_char c :: nat in
     (9 \<le> n \<and> n \<le> 13) \<or> (28 \<le> n \<and> n \<le> 32) \<or> n = 133 \<or> n = 160)"

definition py_strip :: "string \<Rightarrow> string" where
  "py_strip s = rev (dropWhile py_isspace (rev (dropWhile py_isspace s)))"

definition blank :: "string \<Rightarrow> bool" where
  "blank s \<longleftrightarrow> list_all py_isspace s"

lemma py_strip_Nil_iff [simp]: "py_strip s = [] \<longleftrightarrow> blank s"
proof -
  have "py_strip s = [] \<longleftrightarrow> (\<forall>c \<in> set (dropWhile py_isspace s). py_isspace c)"
    by (simp add: py_strip_def)
  also have "\<dots> \<longleftrightarrow> dropWhile py_isspace s = []"
    by (metis dropWhile_eq_Nil_conv dropWhile_idem list.set_cases list.set_intros(1) empty_iff list.set(1))
  also have "\<dots> \<longleftrightarrow> blank s"
    by (simp add: blank_def list_all_iff)
  finally show ?thesis .
qed

lemma blank_Nil [simp]: "blank []"
  by (simp add: blank_def)

text \<open>\<open>if x\<close> and \<open>x or y\<close> on an optional string: \<open>None\<close> and the empty string are false.\<close>

definition truthy :: "string option \<Rightarrow> bool" where
  "truthy x = (case x of None \<Rightarrow> False | Some s \<Rightarrow> s \<noteq> [])"

text \<open>
  \<open>parse_non_empty_string\<close> and the numeric parsers, on values that already have the
  declared type: the result is the value itself, or the message of the \<open>ValueError\<close>.
\<close>

definition parse_non_empty_string :: "string \<Rightarrow> string \<Rightarrow> string + string" where
  "parse_non_empty_string v field =
     (if py_strip v = [] then Inl (field @ '' must not be empty'') else Inr v)"

definition parse_positive_int :: "int \<Rightarrow> string \<Rightarrow> string + int" where
  "parse_positive_int v field = (if v > 0 then Inr v else Inl (field @ '' must be positive''))"

definition parse_non_negative_int :: "int \<Rightarrow> string \<Rightarrow> string + int" where
  "parse_non_negative_int v field =
     (if v \<ge> 0 then Inr v else Inl (field @ '' must be non-negative''))"

definition parse_positive_float :: "rat \<Rightarrow> string \<Rightarrow> string + rat" where
  "parse_positive_float v field = (if v > 0 then Inr v else Inl (field @ '' must be positive''))"

definition parse_non_negative_float :: "rat \<Rightarrow> string \<Rightarrow> string + rat" where
  "parse_non_negative_float v field =
     (if v \<ge> 0 then Inr v else Inl (field @ '' must be non-negative''))"

lemmas parse_defs = parse_non_negative_float_def parse_non_empty_string_def parse_positive_int_def
  parse_non_negative_int_def parse_positive_float_def

subsection \<open>Decimal numerals\<close>

definition digit_char :: "nat \<Rightarrow> char" where
  "digit_char n = char_of (48 + n)"

definition digit_val :: "char \<Rightarrow> nat" where
  "digit_val c = of_char c - 48"

fun show_nat :: "nat \<Rightarrow> string" where
  "show_nat n = (if n < 10 then [digit_char n] else show_nat (n div 10) @ [digit_char (n mod 10)])"

declare show_nat.simps [simp del]

definition read_nat :: "string \<Rightarrow> nat" where
  "read_nat s = foldl (\<lambda>a c. 10 * a + digit_val c) 0 s"

text \<open>\<open>str.isdecimal\<close>: non-empty and only decimal digits.\<close>

definition is_decimal :: "string \<Rightarrow> bool" where
  "is_decimal s \<longleftrightarrow> s \<noteq> [] \<and> list_all (\<lambda>c. 48 \<le> (of_char c :: nat) \<and> of_char c \<le> (57 :: nat)) s"

lemma digit_val_char [simp]: "n < 10 \<Longrightarrow> digit_val (digit_char n) = n"
  by (simp add: digit_val_def digit_char_def)

lemma read_show_nat [simp]: "read_nat (show_nat n) = n"
proof (induction n rule: show_nat.induct)
  case (1 n)
  then show ?case
    by (subst show_nat.simps) (auto simp: read_nat_def)
qed

lemma show_nat_inject [simp]: "show_nat m = show_nat n \<longleftrightarrow> m = n"
  by (metis read_show_nat)

lemma of_digit_char [simp]: "n < 10 \<Longrightarrow> (of_char (digit_char n) :: nat) = 48 + n"
  by (simp add: digit_char_def)

lemma is_decimal_show_nat [simp]: "is_decimal (show_nat n)"
proof (induction n rule: show_nat.induct)
  case (1 n)
  then show ?case
    by (subst show_nat.simps) (auto simp: is_decimal_def)
qed

lemma show_nat_no_dash: "CHR ''-'' \<notin> set (show_nat n)"
  using is_decimal_show_nat [of n] by (fastforce simp: is_decimal_def list_all_iff)

text \<open>\<open>str\<close> of an \<open>int\<close>\<close>

definition show_int :: "int \<Rightarrow> string" where
  "show_int z = (if z < 0 then CHR ''-'' # show_nat (nat (- z)) else show_nat (nat z))"

text \<open>\<open>sep.join(xs)\<close>\<close>

fun join_str :: "string \<Rightarrow> string list \<Rightarrow> string" where
  "join_str sep [] = []"
| "join_str sep [x] = x"
| "join_str sep (x # y # ys) = x @ sep @ join_str sep (y # ys)"

text \<open>A separator that does not occur in what follows it splits a string uniquely.\<close>

lemma split_last_sep:
  assumes "xs @ c # ys = xs' @ c # ys'" and "c \<notin> set ys" and "c \<notin> set ys'"
  shows "xs = xs' \<and> ys = ys'"
  using assms by (auto simp: append_eq_append_conv2 Cons_eq_append_conv append_eq_Cons_conv)

lemma split_first_sep:
  assumes "xs @ c # ys = xs' @ c # ys'" and "c \<notin> set xs" and "c \<notin> set xs'"
  shows "xs = xs' \<and> ys = ys'"
  using assms by (auto simp: append_eq_append_conv2 Cons_eq_append_conv append_eq_Cons_conv)

subsection \<open>Times and durations\<close>

text \<open>
  A \<open>datetime\<close> is its number of microseconds (aware UTC values, so the order is the order
  of the integers). A \<open>float\<close> number of seconds is a rational; \<open>timedelta(seconds=x)\<close>
  rounds to the nearest microsecond, ties to even.
\<close>

type_synonym time = int

definition round_half_even :: "rat \<Rightarrow> int" where
  "round_half_even x =
     (let f = \<lfloor>x\<rfloor>; d = x - of_int f in
      if d < 1 / 2 then f else if d > 1 / 2 then f + 1 else if even f then f else f + 1)"

definition timedelta :: "rat \<Rightarrow> int" where
  "timedelta s = round_half_even (s * 1000000)"

lemma round_half_even_nonneg: "0 \<le> x \<Longrightarrow> 0 \<le> round_half_even x"
  by (auto simp: round_half_even_def Let_def)

lemma timedelta_nonneg: "0 < s \<Longrightarrow> 0 \<le> timedelta s"
  unfolding timedelta_def by (rule round_half_even_nonneg) simp

lemma round_half_even_of_int [simp]: "round_half_even (of_int n) = n"
  by (simp add: round_half_even_def)

lemma timedelta_of_int [simp]: "timedelta (of_int n) = n * 1000000"
proof -
  have "(of_int n :: rat) * 1000000 = of_int (n * 1000000)" by simp
  then show ?thesis unfolding timedelta_def by (simp only: round_half_even_of_int)
qed

lemma timedelta_numeral [simp]: "timedelta (numeral k) = numeral k * 1000000"
  using timedelta_of_int [of "numeral k"] by simp

subsection \<open>Operations that change the state and may raise\<close>

text \<open>
  An operation maps a state to an outcome and a state. The state is there on an error as
  well: an exception does not undo the assignments made before it.
\<close>

type_synonym ('s, 'e, 'a) outcome = "('e + 'a) \<times> 's"

definition bind_op :: "('s, 'e, 'a) outcome \<Rightarrow> ('a \<Rightarrow> 's \<Rightarrow> ('s, 'e, 'b) outcome)
    \<Rightarrow> ('s, 'e, 'b) outcome" where
  "bind_op r f = (case r of (Inl e, s) \<Rightarrow> (Inl e, s) | (Inr a, s) \<Rightarrow> f a s)"

text \<open>A pure check that may raise, in a given state.\<close>

definition check_op :: "'e + 'a \<Rightarrow> 's \<Rightarrow> ('a \<Rightarrow> ('s, 'e, 'b) outcome) \<Rightarrow> ('s, 'e, 'b) outcome" where
  "check_op r s f = (case r of Inl e \<Rightarrow> (Inl e, s) | Inr a \<Rightarrow> f a)"

definition map_error :: "('e \<Rightarrow> 'f) \<Rightarrow> 'e + 'a \<Rightarrow> 'f + 'a" where
  "map_error f r = (case r of Inl e \<Rightarrow> Inl (f e) | Inr a \<Rightarrow> Inr a)"

lemma bind_op_simps [simp]:
  "bind_op (Inl e, s) f = (Inl e, s)" "bind_op (Inr a, s) f = f a s"
  by (simp_all add: bind_op_def)

lemma check_op_simps [simp]:
  "check_op (Inl e) s f = (Inl e, s)" "check_op (Inr a) s f = f a"
  by (simp_all add: check_op_def)

lemma map_error_simps [simp]:
  "map_error g (Inl e) = Inl (g e)" "map_error g (Inr a) = Inr a"
  by (simp_all add: map_error_def)

lemma bind_op_split:
  "P (bind_op r f) \<longleftrightarrow> (\<forall>e s. r = (Inl e, s) \<longrightarrow> P (Inl e, s)) \<and> (\<forall>a s. r = (Inr a, s) \<longrightarrow> P (f a s))"
  by (cases r; cases "fst r") auto

lemma check_op_split:
  "P (check_op r s f) \<longleftrightarrow> (\<forall>e. r = Inl e \<longrightarrow> P (Inl e, s)) \<and> (\<forall>a. r = Inr a \<longrightarrow> P (f a))"
  by (cases r) auto

lemma map_error_Inr_iff [simp]: "map_error f r = Inr a \<longleftrightarrow> r = Inr a"
  by (cases r) auto

text \<open>The value and the state of an operation that did not raise.\<close>

definition value_of :: "('s, 'e, 'a) outcome \<Rightarrow> 'a" where
  "value_of r = projr (fst r)"

lemma outcome_ok: "\<not> isl (fst r) \<Longrightarrow> r = (Inr (value_of r), snd r)"
  by (cases r; cases "fst r") (auto simp: value_of_def)

lemma some_the: "\<not> Option.is_none x \<Longrightarrow> x = Some (the x)"
  by (cases x) auto

subsection \<open>Systems with an invariant\<close>

inductive reachable_from :: "('s \<Rightarrow> 'e \<Rightarrow> 's) \<Rightarrow> 's \<Rightarrow> 's \<Rightarrow> bool" for step s0 where
  start: "reachable_from step s0 s0"
| move: "reachable_from step s0 s \<Longrightarrow> reachable_from step s0 (step s e)"

fun run_events :: "('s \<Rightarrow> 'e \<Rightarrow> 's) \<Rightarrow> 's \<Rightarrow> 'e list \<Rightarrow> 's" where
  "run_events step s [] = s"
| "run_events step s (e # es) = run_events step (step s e) es"

lemma run_events_append: "run_events step s (es @ fs) = run_events step (run_events step s es) fs"
  by (induction es arbitrary: s) auto

lemma reachable_run: "reachable_from step s0 s \<Longrightarrow> reachable_from step s0 (run_events step s es)"
  by (induction es arbitrary: s) (auto intro: reachable_from.move)

text \<open>
  The contract of a component with state: what it starts in, its operations as events, and
  an invariant that the start satisfies and each event keeps.
\<close>

locale invariant_system =
  fixes step :: "'s \<Rightarrow> 'e \<Rightarrow> 's" and init :: 's and inv :: "'s \<Rightarrow> bool"
  assumes inv_init: "inv init"
    and inv_step: "inv s \<Longrightarrow> inv (step s e)"
begin

lemma inv_reachable: "reachable_from step init s \<Longrightarrow> inv s"
  by (induction rule: reachable_from.induct) (auto intro: inv_init inv_step)

lemma inv_run: "inv s \<Longrightarrow> inv (run_events step s es)"
  by (induction es arbitrary: s) (auto intro: inv_step)

lemma inv_run_init: "inv (run_events step init es)"
  by (rule inv_run [OF inv_init])

text \<open>A quantity that no event lets shrink does not shrink over a run.\<close>

lemma run_mono:
  fixes f :: "'s \<Rightarrow> 'b::preorder"
  assumes "\<And>s e. inv s \<Longrightarrow> e \<in> E \<Longrightarrow> f s \<le> f (step s e)" and "inv s" and "set es \<subseteq> E"
  shows "f s \<le> f (run_events step s es)"
  using assms(2,3)
proof (induction es arbitrary: s)
  case (Cons e es)
  then have "f s \<le> f (step s e)" and "f (step s e) \<le> f (run_events step (step s e) es)"
    by (auto intro: assms(1) inv_step)
  then show ?case using order_trans by auto
qed simp

text \<open>A property of states that every event keeps (under the invariant) holds after a run.\<close>

lemma run_stable:
  assumes "\<And>s e. inv s \<Longrightarrow> e \<in> E \<Longrightarrow> P s \<Longrightarrow> P (step s e)" and "inv s" and "P s" and "set es \<subseteq> E"
  shows "P (run_events step s es)"
  using assms(2-4)
  by (induction es arbitrary: s) (auto intro: assms(1) inv_step)

end

subsection \<open>Stores whose entries expire\<close>

text \<open>
  The sweep contract shared by the work queue, the lock registry and the worker registry: a
  sweep at time \<open>t\<close> keeps exactly the live entries whose deadline is after \<open>t\<close>.
\<close>

locale expiring_store =
  fixes sweep :: "time \<Rightarrow> 's \<Rightarrow> 's" and live :: "'s \<Rightarrow> ('k \<times> time) set" and inv :: "'s \<Rightarrow> bool"
  assumes inv_sweep: "inv s \<Longrightarrow> inv (sweep t s)"
    and live_sweep: "inv s \<Longrightarrow> live (sweep t s) = {p \<in> live s. t < snd p}"
begin

lemma sweep_fresh: "inv s \<Longrightarrow> (k, d) \<in> live (sweep t s) \<Longrightarrow> t < d"
  by (simp add: live_sweep)

lemma sweep_keeps: "inv s \<Longrightarrow> (k, d) \<in> live s \<Longrightarrow> t < d \<Longrightarrow> (k, d) \<in> live (sweep t s)"
  by (simp add: live_sweep)

lemma sweep_no_new: "inv s \<Longrightarrow> live (sweep t s) \<subseteq> live s"
  by (auto simp: live_sweep)

lemma sweep_sweep: "inv s \<Longrightarrow> live (sweep t' (sweep t s)) = live (sweep (max t t') s)"
  by (auto simp: live_sweep inv_sweep)

lemma sweep_idem: "inv s \<Longrightarrow> live (sweep t (sweep t s)) = live (sweep t s)"
  by (simp add: sweep_sweep)

lemma sweep_antimono: "inv s \<Longrightarrow> t \<le> t' \<Longrightarrow> live (sweep t' s) \<subseteq> live (sweep t s)"
  by (auto simp: live_sweep)

end

end
