(* ===== verification/Core_Models.thy ===== *)
theory Core_Models
  imports UA_Prelude
begin

text \<open>
  The data model of \<open>core/models.py\<close>: JSON values, the status enumerations and the
  dataclasses that the runtime and the distributed packages exchange. An enumeration is a
  datatype with the members in the source's order, a dataclass a record with the source's
  fields; identifiers (\<open>NewType\<close>s of \<open>str\<close>) are strings.
\<close>

datatype json =
    JNull
  | JBool bool
  | JInt int
  | JFloat rat
  | JStr string
  | JList "json list"
  | JObj "(string \<times> json) list"

type_synonym json_mapping = "(string, json) dict"

subsection \<open>Enumerations\<close>

datatype goal_status = GoalPending | GoalRunning | GoalWaiting | GoalCompleted | GoalFailed
  | GoalCancelled

datatype task_status = TaskPending | TaskRunning | TaskWaiting | TaskCompleted | TaskFailed
  | TaskCancelled

datatype decision_type = Execute | Wait | AskUser | Finish

datatype observation_status = ObsSucceeded | ObsFailed | ObsTimedOut | ObsUnknown

datatype execution_status = ExecCompleted | ExecWaiting | ExecCancelled | ExecFailed

datatype capability_category = CatObservation | CatMutation

datatype risk_level = RiskLow | RiskMedium | RiskHigh

datatype side_effect = EffNone | EffReversible | EffDestructive

datatype policy_effect = Allow | RequireConfirmation | Deny

datatype evaluation_status = EvalIncomplete | EvalCompleted | EvalFailed

datatype error_code =
    VALIDATION_ERROR | UNKNOWN_CAPABILITY | NO_CAPABILITY_TOOL | UNKNOWN_TOOL | TOOL_FAILURE
  | UNKNOWN_EXECUTION | TIMEOUT | INVALID_STATE | ITERATION_LIMIT | MODEL_FAILURE
  | POLICY_DENIED | CONFIRMATION_REJECTED | EVALUATION_FAILED | DOMAIN_VALIDATION_FAILED
  | RESOURCE_CONFLICT | COST_LIMIT_EXCEEDED | TRANSIENT | PERMISSION_DENIED
  | DEPENDENCY_MISSING | USER_REQUIRED

text \<open>\<open>RISK_RANK\<close> of \<open>runtime/controls.py\<close> orders the risk levels.\<close>

fun risk_rank :: "risk_level \<Rightarrow> nat" where
  "risk_rank RiskLow = 0"
| "risk_rank RiskMedium = 1"
| "risk_rank RiskHigh = 2"

lemma risk_rank_inject: "risk_rank a = risk_rank b \<longleftrightarrow> a = b"
  by (cases a; cases b) auto

instantiation risk_level :: linorder
begin

definition less_eq_risk_level :: "risk_level \<Rightarrow> risk_level \<Rightarrow> bool" where
  "less_eq_risk_level a b \<longleftrightarrow> risk_rank a \<le> risk_rank b"

definition less_risk_level :: "risk_level \<Rightarrow> risk_level \<Rightarrow> bool" where
  "less_risk_level a b \<longleftrightarrow> risk_rank a < risk_rank b"

instance
  by standard (auto simp: less_eq_risk_level_def less_risk_level_def risk_rank_inject)

end

subsection \<open>Goals, tasks, decisions\<close>

record success_criterion =
  sc_key :: string
  sc_expected :: json

record goal =
  g_description :: string
  g_success_criteria :: "success_criterion list"
  g_id :: string
  g_status :: goal_status
  g_created_at :: time

record task =
  t_description :: string
  t_required_criteria :: "string list"
  t_id :: string
  t_status :: task_status
  t_created_at :: time

record decision =
  d_type :: decision_type
  d_reason :: string
  d_capability :: "string option"
  d_target :: "string option"
  d_arguments :: json_mapping
  d_expected_observations :: "string list"
  d_message :: "string option"

fun decision_type_value :: "decision_type \<Rightarrow> string" where
  "decision_type_value Execute = ''execute''"
| "decision_type_value Wait = ''wait''"
| "decision_type_value AskUser = ''ask_user''"
| "decision_type_value Finish = ''finish''"

text \<open>\<open>Decision.validate\<close>: \<open>None\<close>, or the message of the \<open>ValueError\<close>.\<close>

definition decision_validate :: "decision \<Rightarrow> string option" where
  "decision_validate d =
     (if blank (d_reason d) then Some ''decision reason must not be empty''
      else if d_type d = Execute then
        (if \<not> truthy (d_capability d) then Some ''execute decision requires capability''
         else if d_expected_observations d = [] then
           Some ''execute decision requires expected_observations''
         else None)
      else if d_capability d \<noteq> None \<or> d_arguments d \<noteq> [] \<or> d_target d \<noteq> None then
        Some (decision_type_value (d_type d) @ '' decision cannot include an action'')
      else if d_type d = AskUser \<and> \<not> truthy (d_message d) then
        Some ''ask_user decision requires message''
      else None)"

subsection \<open>Capabilities, tools, actions, observations\<close>

record capability_definition =
  cap_name :: string
  cap_description :: string
  cap_category :: capability_category
  cap_risk :: risk_level

record tool_definition =
  tool_name :: string
  tool_description :: string
  tool_capabilities :: "string list"
  tool_required_arguments :: "string list"
  tool_side_effect :: side_effect
  tool_risk :: risk_level
  tool_timeout_seconds :: rat
  tool_priority :: int
  tool_argument_schema :: json_mapping

record capability_input_contract =
  cic_capability :: string
  cic_required_arguments :: "string list"
  cic_argument_schema :: json_mapping

record tool_call =
  tc_action_id :: string
  tc_tool_name :: string
  tc_capability :: string
  tc_arguments :: json_mapping
  tc_target :: "string option"
  tc_domain_name :: string
  tc_domain_version :: string
  tc_idempotency_key :: string
  tc_parameters_hash :: string
  tc_attempt :: int
  tc_resource_key :: string
  tc_resource_version :: "string option"

record tool_result =
  tr_status :: observation_status
  tr_output :: json_mapping
  tr_error :: "string option"
  tr_error_code :: "error_code option"

record observation =
  ob_id :: string
  ob_action_id :: string
  ob_task_id :: string
  ob_source :: string
  ob_status :: observation_status
  ob_data :: json_mapping
  ob_observed_at :: time
  ob_error :: "string option"
  ob_error_code :: "error_code option"

record pending_action =
  pa_action_id :: string
  pa_capability :: string
  pa_tool_name :: string
  pa_target :: "string option"
  pa_arguments :: json_mapping
  pa_domain_name :: string
  pa_domain_version :: string
  pa_idempotency_key :: string
  pa_parameters_hash :: string
  pa_attempt :: int
  pa_resource_key :: string
  pa_resource_version :: "string option"

subsection \<open>Policy and evaluation values\<close>

record policy_context =
  pc_session_id :: string
  pc_goal_id :: string
  pc_task_id :: string
  pc_action_id :: string
  pc_capability :: capability_definition
  pc_tool :: tool_definition
  pc_target :: "string option"
  pc_arguments :: json_mapping
  pc_environment :: json_mapping
  pc_confirmed :: bool
  pc_goal_success_criteria :: "success_criterion list"
  pc_task_required_criteria :: "string list"

record policy_result =
  pr_effect :: policy_effect
  pr_reason :: string
  pr_policy_name :: string

record evaluation_result =
  er_status :: evaluation_status
  er_reason :: string
  er_evaluator_name :: string
  er_matched_criteria :: json_mapping
  er_task_completed :: bool
  er_goal_completed :: bool

record domain_identity =
  dom_name :: string
  dom_version :: string

subsection \<open>The agent state and the results of a run\<close>

record agent_state =
  as_session_id :: string
  as_goal :: goal
  as_current_task :: task
  as_read_only :: bool
  as_iteration :: nat
  as_satisfied_criteria :: json_mapping
  as_observations :: "observation list"
  as_latest_evaluation :: "evaluation_result option"
  as_pending_action :: "pending_action option"
  as_approved_fingerprints :: "string list"
  as_tasks :: "task list"
  as_recovery_attempts :: "(string, nat) dict"
  as_termination_reason :: "string option"
  as_error_code :: "error_code option"
  as_tenant_id :: "string option"
  as_cumulative_cost_micros :: int
  as_cumulative_tokens :: int
  as_is_continuation :: bool

record execution_result =
  xr_status :: execution_status
  xr_session_id :: string
  xr_goal_id :: string
  xr_task_id :: string
  xr_iterations :: nat
  xr_reason :: string
  xr_error_code :: "error_code option"
  xr_user_message :: "string option"

text \<open>\<open>AgentState.latest_observation\<close>\<close>

definition latest_observation :: "agent_state \<Rightarrow> observation option" where
  "latest_observation s = (if as_observations s = [] then None else Some (last (as_observations s)))"

text \<open>The statuses that the runtime calls terminal.\<close>

definition goal_terminal :: "goal_status \<Rightarrow> bool" where
  "goal_terminal g \<longleftrightarrow> g \<in> {GoalCompleted, GoalFailed, GoalCancelled}"

definition task_terminal :: "task_status \<Rightarrow> bool" where
  "task_terminal t \<longleftrightarrow> t \<in> {TaskCompleted, TaskFailed, TaskCancelled}"

end
