(* ===== verification/Work_Queue.thy ===== *)
theory Work_Queue
  imports Core_Models
begin

text \<open>
  The leased work queue: \<open>distributed/queue_models.py\<close> and \<open>distributed/queue_memory.py\<close>.
  \<open>InMemoryWorkQueue\<close> is the record \<open>work_queue\<close>; each method is the operation of the same
  name, from the state to its outcome and the new state. The \<open>now\<close> of a method is its
  resolved time stamp (\<open>now or utc_now()\<close>); \<open>clk\<close> is what \<open>utc_now()\<close> returns.

  A \<open>replace\<close> of a frozen dataclass runs \<open>__post_init__\<close> again, so every construction
  goes through \<open>work_item_checked\<close> and \<open>worker_lease_checked\<close> and may raise; that it
  does not, in a queue the operations built, is a theorem (\<open>Queue_Inv\<close>), not a
  simplification of the model.
\<close>

subsection \<open>queue_models.py\<close>

datatype work_item_status = WQueued | WLeased | WCompleted | WFailed | WCancelled

datatype queue_error =
    ValueErr string
  | NoWorkAvailable string
  | WorkItemNotFound string
  | LeaseLost string

record worker_lease =
  wl_lease_id :: string
  wl_worker_id :: string
  wl_leased_at :: time
  wl_lease_expires_at :: time
  wl_heartbeat_at :: time
  wl_fencing_token :: int

text \<open>\<open>WorkerLease.__post_init__\<close>\<close>

definition worker_lease_checked :: "worker_lease \<Rightarrow> queue_error + worker_lease" where
  "worker_lease_checked l =
     (case parse_non_negative_int (wl_fencing_token l) ''fencing_token'' of
        Inl m \<Rightarrow> Inl (ValueErr m) | Inr _ \<Rightarrow> Inr l)"

record work_item =
  wi_work_item_id :: string
  wi_kind :: string
  wi_payload :: json_mapping
  wi_session_id :: "string option"
  wi_task_id :: "string option"
  wi_action_id :: "string option"
  wi_priority :: int
  wi_max_attempts :: int
  wi_attempts :: int
  wi_status :: work_item_status
  wi_created_at :: time
  wi_available_at :: time
  wi_lease :: "worker_lease option"
  wi_idempotency_key :: "string option"
  wi_completed_at :: "time option"
  wi_failed_at :: "time option"
  wi_cancelled_at :: "time option"
  wi_last_error :: "string option"

text \<open>\<open>WorkItem.__post_init__\<close>: the message of the first check that fails.\<close>

definition work_item_problem :: "work_item \<Rightarrow> string option" where
  "work_item_problem i =
     (case parse_non_empty_string (wi_work_item_id i) ''work_item_id'' of Inl m \<Rightarrow> Some m | Inr _ \<Rightarrow>
      case parse_non_empty_string (wi_kind i) ''work item kind'' of Inl m \<Rightarrow> Some m | Inr _ \<Rightarrow>
      case parse_positive_int (wi_max_attempts i) ''max_attempts'' of Inl m \<Rightarrow> Some m | Inr _ \<Rightarrow>
      case parse_non_negative_int (wi_attempts i) ''attempts'' of Inl m \<Rightarrow> Some m | Inr _ \<Rightarrow>
      if wi_attempts i > wi_max_attempts i then Some ''attempts must not exceed max_attempts''
      else if wi_status i = WLeased \<and> wi_lease i = None then
        Some ''leased work items require a lease''
      else if wi_status i \<noteq> WLeased \<and> wi_lease i \<noteq> None then
        Some ''only leased work items may carry a lease''
      else None)"

definition work_item_checked :: "work_item \<Rightarrow> queue_error + work_item" where
  "work_item_checked i =
     (case work_item_problem i of Some m \<Rightarrow> Inl (ValueErr m) | None \<Rightarrow> Inr i)"

subsection \<open>State and helpers of queue_memory.py\<close>

record work_queue =
  wq_items :: "(string, work_item) dict"
  wq_sequence :: nat
  wq_fencing_sequences :: "(string, int) dict"

type_synonym 'a queue_outcome = "(work_queue, queue_error, 'a) outcome"

definition empty_queue :: work_queue where
  "empty_queue = \<lparr>wq_items = [], wq_sequence = 0, wq_fencing_sequences = []\<rparr>"

text \<open>\<open>self._items[item.work_item_id] = item\<close>\<close>

definition put_item :: "work_item \<Rightarrow> work_queue \<Rightarrow> work_queue" where
  "put_item i q = q\<lparr>wq_items := AList.update (wi_work_item_id i) i (wq_items q)\<rparr>"

definition is_terminal :: "work_item \<Rightarrow> bool" where
  "is_terminal i \<longleftrightarrow> wi_status i \<in> {WCompleted, WFailed, WCancelled}"

definition terminal_at :: "work_item \<Rightarrow> time option" where
  "terminal_at i =
     (case wi_status i of WCompleted \<Rightarrow> wi_completed_at i | WFailed \<Rightarrow> wi_failed_at i
      | WCancelled \<Rightarrow> wi_cancelled_at i | _ \<Rightarrow> None)"

definition is_prunable_terminal :: "time option \<Rightarrow> work_item \<Rightarrow> bool" where
  "is_prunable_terminal before i =
     (if \<not> is_terminal i then False
      else case before of None \<Rightarrow> True
        | Some b \<Rightarrow> (case terminal_at i of None \<Rightarrow> False | Some t \<Rightarrow> t \<le> b))"

definition item_sort_key :: "work_item \<Rightarrow> int \<times> time \<times> string" where
  "item_sort_key i = (- wi_priority i, wi_available_at i, wi_work_item_id i)"

definition lease_deadline :: "time \<Rightarrow> rat \<Rightarrow> queue_error + time" where
  "lease_deadline now ttl =
     (case parse_positive_float ttl ''ttl_seconds'' of
        Inl m \<Rightarrow> Inl (ValueErr m) | Inr _ \<Rightarrow> Inr (now + timedelta ttl))"

text \<open>\<open>_normalize_accepted_kinds\<close>: the frozenset is the list of the stripped kinds.\<close>

definition normalize_accepted_kinds :: "string list option \<Rightarrow> queue_error + string list option" where
  "normalize_accepted_kinds ks =
     (case ks of None \<Rightarrow> Inr None
      | Some xs \<Rightarrow>
          if list_ex (\<lambda>k. py_strip k = []) xs
          then Inl (ValueErr ''accepted_kinds must not include empty kinds'')
          else Inr (Some (map py_strip xs)))"

definition next_work_item_id :: "work_queue \<Rightarrow> string \<times> work_queue" where
  "next_work_item_id q =
     (let n = wq_sequence q + 1 in (''work-'' @ show_nat n, q\<lparr>wq_sequence := n\<rparr>))"

text \<open>\<open>f"lease-{item.work_item_id}-{item.attempts + 1}"\<close>; attempts are not negative.\<close>

definition lease_name :: "string \<Rightarrow> nat \<Rightarrow> string" where
  "lease_name k n = ''lease-'' @ k @ CHR ''-'' # show_nat n"

definition next_lease_id :: "work_item \<Rightarrow> string" where
  "next_lease_id i = lease_name (wi_work_item_id i) (nat (wi_attempts i + 1))"

definition sequence_from_work_item_id :: "string \<Rightarrow> nat" where
  "sequence_from_work_item_id v =
     (if take 5 v \<noteq> ''work-'' then 0
      else if \<not> is_decimal (drop 5 v) then 0
      else read_nat (drop 5 v))"

definition next_fencing_token :: "string \<Rightarrow> work_queue \<Rightarrow> int \<times> work_queue" where
  "next_fencing_token k q =
     (let n = dict_get (wq_fencing_sequences q) k 0 + 1
      in (n, q\<lparr>wq_fencing_sequences := AList.update k n (wq_fencing_sequences q)\<rparr>))"

definition restore_fencing_sequence :: "string \<Rightarrow> int \<Rightarrow> work_queue \<Rightarrow> work_queue" where
  "restore_fencing_sequence k token q =
     (if token > dict_get (wq_fencing_sequences q) k 0
      then q\<lparr>wq_fencing_sequences := AList.update k token (wq_fencing_sequences q)\<rparr> else q)"

definition find_idempotent :: "string \<Rightarrow> work_queue \<Rightarrow> work_item option" where
  "find_idempotent key q =
     find (\<lambda>i. wi_idempotency_key i = Some key \<and> \<not> is_terminal i) (dict_values (wq_items q))"

subsection \<open>enqueue\<close>

text \<open>The keyword arguments of \<open>enqueue\<close>, with the defaults of its signature.\<close>

record enqueue_args =
  eq_kind :: string
  eq_payload :: json_mapping
  eq_session_id :: "string option"
  eq_task_id :: "string option"
  eq_action_id :: "string option"
  eq_priority :: int
  eq_max_attempts :: int
  eq_available_at :: "time option"
  eq_idempotency_key :: "string option"
  eq_work_item_id :: "string option"

definition enqueue_defaults :: "string \<Rightarrow> enqueue_args" where
  "enqueue_defaults kind =
     \<lparr>eq_kind = kind, eq_payload = [], eq_session_id = None, eq_task_id = None,
      eq_action_id = None, eq_priority = 0, eq_max_attempts = 3, eq_available_at = None,
      eq_idempotency_key = None, eq_work_item_id = None\<rparr>"

definition new_work_item :: "enqueue_args \<Rightarrow> time \<Rightarrow> string \<Rightarrow> work_item" where
  "new_work_item a clk k =
     \<lparr>wi_work_item_id = k, wi_kind = eq_kind a, wi_payload = eq_payload a,
      wi_session_id = eq_session_id a, wi_task_id = eq_task_id a, wi_action_id = eq_action_id a,
      wi_priority = eq_priority a, wi_max_attempts = eq_max_attempts a, wi_attempts = 0,
      wi_status = WQueued, wi_created_at = clk,
      wi_available_at = (case eq_available_at a of Some t \<Rightarrow> t | None \<Rightarrow> clk),
      wi_lease = None, wi_idempotency_key = eq_idempotency_key a, wi_completed_at = None,
      wi_failed_at = None, wi_cancelled_at = None, wi_last_error = None\<rparr>"

definition enqueue_new :: "enqueue_args \<Rightarrow> time \<Rightarrow> work_queue \<Rightarrow> work_item queue_outcome" where
  "enqueue_new a clk q =
     (let (k, q1) = (if truthy (eq_work_item_id a) then (the (eq_work_item_id a), q)
                     else next_work_item_id q)
      in check_op (work_item_checked (new_work_item a clk k)) q1 (\<lambda>i.
           if map_of (wq_items q1) (wi_work_item_id i) \<noteq> None
           then (Inl (ValueErr (''work item already exists: '' @ wi_work_item_id i)), q1)
           else (Inr i, put_item i q1)))"

definition enqueue :: "enqueue_args \<Rightarrow> time \<Rightarrow> work_queue \<Rightarrow> work_item queue_outcome" where
  "enqueue a clk q =
     (case (case eq_idempotency_key a of None \<Rightarrow> None | Some key \<Rightarrow> find_idempotent key q) of
        Some existing \<Rightarrow> (Inr existing, q)
      | None \<Rightarrow> enqueue_new a clk q)"

subsection \<open>expire\<close>

text \<open>The replacement of an item whose lease has passed its deadline.\<close>

definition expired_item :: "time \<Rightarrow> work_item \<Rightarrow> worker_lease \<Rightarrow> work_item" where
  "expired_item now i l =
     (if wi_attempts i < wi_max_attempts i then
        i\<lparr>wi_status := WQueued, wi_lease := None, wi_available_at := now,
          wi_last_error := Some (''lease expired: '' @ wl_lease_id l)\<rparr>
      else
        i\<lparr>wi_status := WFailed, wi_lease := None, wi_failed_at := Some now,
          wi_last_error := Some (''lease expired: '' @ wl_lease_id l)\<rparr>)"

fun expire_loop :: "time \<Rightarrow> work_item list \<Rightarrow> work_queue \<Rightarrow> work_item list queue_outcome" where
  "expire_loop now [] q = (Inr [], q)"
| "expire_loop now (i # is) q =
     (case wi_lease i of
        None \<Rightarrow> expire_loop now is q
      | Some l \<Rightarrow>
          if wi_status i \<noteq> WLeased then expire_loop now is q
          else if wl_lease_expires_at l > now then expire_loop now is q
          else check_op (work_item_checked (expired_item now i l)) q (\<lambda>r.
                 bind_op (expire_loop now is (put_item r q)) (\<lambda>rs q'. (Inr (r # rs), q'))))"

definition expire :: "time \<Rightarrow> work_queue \<Rightarrow> work_item list queue_outcome" where
  "expire now q = expire_loop now (dict_values (wq_items q)) q"

subsection \<open>lease\<close>

definition leaseable :: "time \<Rightarrow> string list option \<Rightarrow> work_item \<Rightarrow> bool" where
  "leaseable now kinds i \<longleftrightarrow> wi_status i = WQueued \<and> wi_available_at i \<le> now
     \<and> (case kinds of None \<Rightarrow> True | Some ks \<Rightarrow> wi_kind i \<in> set ks)"

definition next_leaseable :: "time \<Rightarrow> string list option \<Rightarrow> work_queue \<Rightarrow> work_item option" where
  "next_leaseable now kinds q =
     (let candidates = filter (leaseable now kinds) (dict_values (wq_items q))
      in if candidates = [] then None else Some (hd (sort_key item_sort_key candidates)))"

definition granted_item :: "worker_lease \<Rightarrow> work_item \<Rightarrow> work_item" where
  "granted_item l i = i\<lparr>wi_status := WLeased, wi_attempts := wi_attempts i + 1,
     wi_lease := Some l, wi_last_error := None\<rparr>"

definition lease_item :: "string \<Rightarrow> rat \<Rightarrow> time \<Rightarrow> work_item \<Rightarrow> work_queue \<Rightarrow> work_item queue_outcome" where
  "lease_item worker ttl now i q =
     check_op (lease_deadline now ttl) q (\<lambda>deadline.
       let (token, q1) = next_fencing_token (wi_work_item_id i) q
       in check_op (worker_lease_checked
              \<lparr>wl_lease_id = next_lease_id i, wl_worker_id = worker, wl_leased_at = now,
               wl_lease_expires_at = deadline, wl_heartbeat_at = now,
               wl_fencing_token = token\<rparr>) q1 (\<lambda>l.
          check_op (work_item_checked (granted_item l i)) q1 (\<lambda>leased.
            (Inr leased, put_item leased q1))))"

definition lease :: "string \<Rightarrow> rat \<Rightarrow> time \<Rightarrow> string list option \<Rightarrow> work_queue \<Rightarrow> work_item queue_outcome" where
  "lease worker ttl now accepted q =
     check_op (normalize_accepted_kinds accepted) q (\<lambda>kinds.
       bind_op (expire now q) (\<lambda>_ q1.
         case next_leaseable now kinds q1 of
           None \<Rightarrow> (Inl (NoWorkAvailable ''no work available''), q1)
         | Some i \<Rightarrow> lease_item worker ttl now i q1))"

subsection \<open>heartbeat, complete, fail, cancel\<close>

definition holds_lease :: "string \<Rightarrow> work_item \<Rightarrow> bool" where
  "holds_lease lid i \<longleftrightarrow> wi_status i = WLeased \<and>
     (case wi_lease i of None \<Rightarrow> False | Some l \<Rightarrow> wl_lease_id l = lid)"

definition leased_item :: "string \<Rightarrow> string \<Rightarrow> time \<Rightarrow> work_queue
    \<Rightarrow> (work_item \<times> worker_lease) queue_outcome" where
  "leased_item lid worker now q =
     (case find (holds_lease lid) (dict_values (wq_items q)) of
        None \<Rightarrow> (Inl (LeaseLost (''lease not found: '' @ lid)), q)
      | Some i \<Rightarrow>
          (case wi_lease i of
             None \<Rightarrow> (Inl (LeaseLost (''lease not found: '' @ lid)), q)
           | Some l \<Rightarrow>
               if wl_worker_id l \<noteq> worker
               then (Inl (LeaseLost (''lease is owned by another worker: '' @ lid)), q)
               else if wl_lease_expires_at l \<le> now
               then bind_op (expire now q)
                      (\<lambda>_ q1. (Inl (LeaseLost (''lease expired: '' @ lid)), q1))
               else (Inr (i, l), q)))"

text \<open>The items that the holder of a lease, or a caller of \<open>cancel\<close>, writes back.\<close>

definition renewed_lease :: "time \<Rightarrow> time \<Rightarrow> worker_lease \<Rightarrow> worker_lease" where
  "renewed_lease now deadline l = l\<lparr>wl_heartbeat_at := now, wl_lease_expires_at := deadline\<rparr>"

definition completed_item :: "time \<Rightarrow> work_item \<Rightarrow> work_item" where
  "completed_item now i =
     i\<lparr>wi_status := WCompleted, wi_lease := None, wi_completed_at := Some now\<rparr>"

definition failed_item :: "string \<Rightarrow> bool \<Rightarrow> time \<Rightarrow> work_item \<Rightarrow> work_item" where
  "failed_item reason retry now i =
     (if retry \<and> wi_attempts i < wi_max_attempts i
      then i\<lparr>wi_status := WQueued, wi_lease := None, wi_available_at := now,
             wi_last_error := Some reason\<rparr>
      else i\<lparr>wi_status := WFailed, wi_lease := None, wi_failed_at := Some now,
             wi_last_error := Some reason\<rparr>)"

definition cancelled_item :: "string \<Rightarrow> time \<Rightarrow> work_item \<Rightarrow> work_item" where
  "cancelled_item reason now i =
     i\<lparr>wi_status := WCancelled, wi_lease := None, wi_cancelled_at := Some now,
       wi_last_error := Some reason\<rparr>"

definition heartbeat :: "string \<Rightarrow> string \<Rightarrow> rat \<Rightarrow> time \<Rightarrow> work_queue \<Rightarrow> work_item queue_outcome" where
  "heartbeat lid worker ttl now q =
     bind_op (leased_item lid worker now q) (\<lambda>(i, l) q1.
       check_op (lease_deadline now ttl) q1 (\<lambda>deadline.
         check_op (worker_lease_checked (renewed_lease now deadline l)) q1 (\<lambda>l'.
           check_op (work_item_checked (i\<lparr>wi_lease := Some l'\<rparr>)) q1 (\<lambda>renewed.
             (Inr renewed, put_item renewed q1)))))"

definition complete_work :: "string \<Rightarrow> string \<Rightarrow> time \<Rightarrow> work_queue \<Rightarrow> work_item queue_outcome" where
  "complete_work lid worker now q =
     bind_op (leased_item lid worker now q) (\<lambda>(i, _) q1.
       check_op (work_item_checked (completed_item now i)) q1
         (\<lambda>completed. (Inr completed, put_item completed q1)))"

definition fail_work :: "string \<Rightarrow> string \<Rightarrow> string \<Rightarrow> bool \<Rightarrow> time \<Rightarrow> work_queue \<Rightarrow> work_item queue_outcome" where
  "fail_work lid worker reason retry now q =
     check_op (map_error ValueErr (parse_non_empty_string reason ''failure reason'')) q (\<lambda>_.
       bind_op (leased_item lid worker now q) (\<lambda>(i, _) q1.
         check_op (work_item_checked (failed_item reason retry now i)) q1
           (\<lambda>failed. (Inr failed, put_item failed q1))))"

definition get_item :: "string \<Rightarrow> work_queue \<Rightarrow> queue_error + work_item" where
  "get_item k q = (case map_of (wq_items q) k of
     None \<Rightarrow> Inl (WorkItemNotFound (''work item not found: '' @ k)) | Some i \<Rightarrow> Inr i)"

definition cancel_work :: "string \<Rightarrow> string \<Rightarrow> time \<Rightarrow> work_queue \<Rightarrow> work_item queue_outcome" where
  "cancel_work k reason now q =
     check_op (map_error ValueErr (parse_non_empty_string reason ''cancellation reason'')) q (\<lambda>_.
       check_op (get_item k q) q (\<lambda>i.
         if wi_status i \<in> {WCompleted, WFailed, WCancelled} then (Inr i, q)
         else check_op (work_item_checked (cancelled_item reason now i)) q
                (\<lambda>cancelled. (Inr cancelled,
                   q\<lparr>wq_items := AList.update k cancelled (wq_items q)\<rparr>))))"

subsection \<open>prune_terminal, list\<close>

fun prune_loop :: "work_item list \<Rightarrow> work_queue \<Rightarrow> work_queue" where
  "prune_loop [] q = q"
| "prune_loop (i # is) q =
     prune_loop is (q\<lparr>wq_items := AList.delete (wi_work_item_id i) (wq_items q),
       wq_fencing_sequences := AList.delete (wi_work_item_id i) (wq_fencing_sequences q)\<rparr>)"

definition prune_terminal :: "time option \<Rightarrow> work_queue \<Rightarrow> work_item list queue_outcome" where
  "prune_terminal before q =
     (let pruned = sort_key item_sort_key
                     (filter (is_prunable_terminal before) (dict_values (wq_items q)))
      in (Inr pruned, prune_loop pruned q))"

definition list_items :: "work_item_status option \<Rightarrow> work_queue \<Rightarrow> work_item list" where
  "list_items status q =
     (let items = dict_values (wq_items q);
          items' = (case status of None \<Rightarrow> items
                    | Some s \<Rightarrow> filter (\<lambda>i. wi_status i = s) items)
      in sort_key item_sort_key items')"

definition queued_items :: "work_queue \<Rightarrow> work_item list" where
  "queued_items q = list_items (Some WQueued) q"

definition leased_items :: "work_queue \<Rightarrow> work_item list" where
  "leased_items q = list_items (Some WLeased) q"

subsection \<open>The queue as a system\<close>

text \<open>Every public operation that changes the queue, as an event.\<close>

datatype queue_event =
    is_Enqueue: Enqueue enqueue_args time
  | Lease string rat time "string list option"
  | Heartbeat string string rat time
  | Complete string string time
  | Fail string string string bool time
  | Cancel string string time
  | Expire time
  | is_Prune: Prune "time option"

fun queue_step :: "work_queue \<Rightarrow> queue_event \<Rightarrow> work_queue" where
  "queue_step q (Enqueue a clk) = snd (enqueue a clk q)"
| "queue_step q (Lease w ttl now ks) = snd (lease w ttl now ks q)"
| "queue_step q (Heartbeat lid w ttl now) = snd (heartbeat lid w ttl now q)"
| "queue_step q (Complete lid w now) = snd (complete_work lid w now q)"
| "queue_step q (Fail lid w r b now) = snd (fail_work lid w r b now q)"
| "queue_step q (Cancel k r now) = snd (cancel_work k r now q)"
| "queue_step q (Expire now) = snd (expire now q)"
| "queue_step q (Prune b) = snd (prune_terminal b q)"

end
