(* ===== verification/Queue_Inv.thy ===== *)
theory Queue_Inv
  imports Work_Queue
begin

text \<open>
  The invariant of the work queue and its preservation by every operation. An item is well
  formed when its key is its id, \<open>__post_init__\<close> accepts it, a queued item has an attempt
  left, the fencing counter of its key is its number of attempts, its lease (if any) carries
  that number as token and in its id, and a terminal item records when it ended. Across
  items, a live idempotency key is unique.
\<close>

definition item_ok :: "(string, int) dict \<Rightarrow> string \<Rightarrow> work_item \<Rightarrow> bool" where
  "item_ok f k i \<longleftrightarrow> wi_work_item_id i = k \<and> work_item_problem i = None
     \<and> (wi_status i = WQueued \<longrightarrow> wi_attempts i < wi_max_attempts i)
     \<and> dict_get f k 0 = wi_attempts i
     \<and> (\<forall>l. wi_lease i = Some l \<longrightarrow> wl_lease_id l = lease_name k (nat (wi_attempts i))
          \<and> wl_fencing_token l = wi_attempts i \<and> 1 \<le> wi_attempts i)
     \<and> (is_terminal i \<longrightarrow> terminal_at i \<noteq> None)"

definition keys_unique :: "work_queue \<Rightarrow> bool" where
  "keys_unique q \<longleftrightarrow> (\<forall>k k' i i' key. map_of (wq_items q) k = Some i \<longrightarrow>
     map_of (wq_items q) k' = Some i' \<longrightarrow> wi_idempotency_key i = Some key \<longrightarrow>
     wi_idempotency_key i' = Some key \<longrightarrow> \<not> is_terminal i \<longrightarrow> \<not> is_terminal i' \<longrightarrow> k = k')"

definition queue_inv :: "work_queue \<Rightarrow> bool" where
  "queue_inv q \<longleftrightarrow> dict_wf (wq_items q) \<and> dict_wf (wq_fencing_sequences q)
     \<and> (\<forall>k i. map_of (wq_items q) k = Some i \<longrightarrow> item_ok (wq_fencing_sequences q) k i)
     \<and> set (dict_keys (wq_fencing_sequences q)) \<subseteq> set (dict_keys (wq_items q))
     \<and> keys_unique q"

lemma queue_inv_empty: "queue_inv empty_queue"
  by (simp add: queue_inv_def empty_queue_def keys_unique_def)

lemma queue_inv_item: "queue_inv q \<Longrightarrow> map_of (wq_items q) k = Some i \<Longrightarrow>
    item_ok (wq_fencing_sequences q) k i"
  by (simp add: queue_inv_def)

lemma queue_inv_wf: "queue_inv q \<Longrightarrow> dict_wf (wq_items q)"
  "queue_inv q \<Longrightarrow> dict_wf (wq_fencing_sequences q)"
  by (simp_all add: queue_inv_def)

lemma work_item_problem_None: "work_item_problem i = None \<longleftrightarrow>
    \<not> blank (wi_work_item_id i) \<and> \<not> blank (wi_kind i) \<and> 0 < wi_max_attempts i
    \<and> 0 \<le> wi_attempts i \<and> wi_attempts i \<le> wi_max_attempts i
    \<and> (wi_status i = WLeased \<longleftrightarrow> wi_lease i \<noteq> None)"
  by (auto simp: work_item_problem_def parse_defs not_less)

lemma work_item_checked_ok: "work_item_problem i = None \<Longrightarrow> work_item_checked i = Inr i"
  by (simp add: work_item_checked_def)

lemma work_item_checked_Inr: "work_item_checked i = Inr j \<longleftrightarrow> work_item_problem i = None \<and> j = i"
  by (auto simp: work_item_checked_def split: option.splits)

lemma worker_lease_checked_ok: "0 \<le> wl_fencing_token l \<Longrightarrow> worker_lease_checked l = Inr l"
  by (simp add: worker_lease_checked_def parse_non_negative_int_def)

lemma lease_deadline_cases:
  "lease_deadline now ttl = (if 0 < ttl then Inr (now + timedelta ttl)
     else Inl (ValueErr ''ttl_seconds must be positive''))"
  by (simp add: lease_deadline_def parse_positive_float_def)

lemma lease_name_inject: "lease_name k m = lease_name k' n \<longleftrightarrow> k = k' \<and> m = n"
proof
  assume "lease_name k m = lease_name k' n"
  then have "k @ CHR ''-'' # show_nat m = k' @ CHR ''-'' # show_nat n"
    by (simp add: lease_name_def)
  then have "k = k' \<and> show_nat m = show_nat n"
    by (rule split_last_sep) (simp_all add: show_nat_no_dash)
  then show "k = k' \<and> m = n" by simp
qed simp

lemma is_terminal_simps [simp]:
  "wi_status i = WQueued \<Longrightarrow> \<not> is_terminal i" "wi_status i = WLeased \<Longrightarrow> \<not> is_terminal i"
  by (simp_all add: is_terminal_def)

subsection \<open>Writing one item\<close>

lemma queue_inv_write:
  assumes inv: "queue_inv q" and old: "map_of (wq_items q) k = Some i"
    and same: "wi_idempotency_key j = wi_idempotency_key i"
    and live: "\<not> is_terminal j \<Longrightarrow> \<not> is_terminal i"
    and ok: "item_ok f k j" and wf: "dict_wf f"
    and other: "\<And>k'. k' \<noteq> k \<Longrightarrow> dict_get f k' 0 = dict_get (wq_fencing_sequences q) k' 0"
    and dom: "set (dict_keys f) \<subseteq> insert k (set (dict_keys (wq_fencing_sequences q)))"
  shows "queue_inv (q\<lparr>wq_items := AList.update k j (wq_items q), wq_fencing_sequences := f\<rparr>)"
proof -
  have "item_ok f k' i'" if "map_of (AList.update k j (wq_items q)) k' = Some i'" for k' i'
  proof (cases "k' = k")
    case True
    with that ok show ?thesis by (simp add: dict_simps)
  next
    case False
    with that inv have "item_ok (wq_fencing_sequences q) k' i'"
      by (simp add: dict_simps queue_inv_item)
    with other [OF False] show ?thesis by (simp add: item_ok_def)
  qed
  moreover have "keys_unique (q\<lparr>wq_items := AList.update k j (wq_items q),
      wq_fencing_sequences := f\<rparr>)"
  proof -
    have "keys_unique q" using inv by (simp add: queue_inv_def)
    then show ?thesis
      unfolding keys_unique_def by (simp add: map_of_update) (metis old same live)
  qed
  moreover have "set (dict_keys f) \<subseteq> set (dict_keys (AList.update k j (wq_items q)))"
  proof -
    have "set (dict_keys (AList.update k j (wq_items q))) = insert k (set (dict_keys (wq_items q)))"
      by (simp add: dom_update)
    with inv dom show ?thesis unfolding queue_inv_def by blast
  qed
  ultimately show ?thesis
    using inv wf by (simp add: queue_inv_def)
qed

lemma queue_inv_put:
  assumes "queue_inv q" and "map_of (wq_items q) k = Some i"
    and "wi_idempotency_key j = wi_idempotency_key i"
    and "\<not> is_terminal j \<Longrightarrow> \<not> is_terminal i" and "item_ok (wq_fencing_sequences q) k j"
  shows "queue_inv (put_item j q)"
proof -
  have "wi_work_item_id j = k" using assms(5) by (simp add: item_ok_def)
  then have "put_item j q = q\<lparr>wq_items := AList.update k j (wq_items q),
      wq_fencing_sequences := wq_fencing_sequences q\<rparr>" by (simp add: put_item_def)
  moreover have "queue_inv (q\<lparr>wq_items := AList.update k j (wq_items q),
      wq_fencing_sequences := wq_fencing_sequences q\<rparr>)"
    using assms by (rule queue_inv_write) (auto simp: queue_inv_wf assms)
  ultimately show ?thesis by simp
qed

subsection \<open>expire\<close>

definition overdue :: "time \<Rightarrow> work_item \<Rightarrow> bool" where
  "overdue now i \<longleftrightarrow> wi_status i = WLeased \<and>
     (case wi_lease i of None \<Rightarrow> False | Some l \<Rightarrow> wl_lease_expires_at l \<le> now)"

definition sweep_item :: "time \<Rightarrow> work_item \<Rightarrow> work_item" where
  "sweep_item now i = (if overdue now i then expired_item now i (the (wi_lease i)) else i)"

definition sweep_queue :: "time \<Rightarrow> work_queue \<Rightarrow> work_queue" where
  "sweep_queue now q = q\<lparr>wq_items := map_ran (\<lambda>_. sweep_item now) (wq_items q)\<rparr>"

lemma expired_item_same [simp]:
  "wi_work_item_id (expired_item now i l) = wi_work_item_id i"
  "wi_idempotency_key (expired_item now i l) = wi_idempotency_key i"
  "wi_attempts (expired_item now i l) = wi_attempts i"
  "wi_max_attempts (expired_item now i l) = wi_max_attempts i"
  "wi_kind (expired_item now i l) = wi_kind i"
  "wi_lease (expired_item now i l) = None"
  by (simp_all add: expired_item_def)

lemma sweep_item_same [simp]:
  "wi_work_item_id (sweep_item now i) = wi_work_item_id i"
  "wi_idempotency_key (sweep_item now i) = wi_idempotency_key i"
  "wi_attempts (sweep_item now i) = wi_attempts i"
  "wi_max_attempts (sweep_item now i) = wi_max_attempts i"
  "wi_kind (sweep_item now i) = wi_kind i"
  by (simp_all add: sweep_item_def)

lemma sweep_item_status: "wi_status (sweep_item now i) =
    (if overdue now i then if wi_attempts i < wi_max_attempts i then WQueued else WFailed
     else wi_status i)"
  by (simp add: sweep_item_def expired_item_def)

lemma expired_item_problem: "work_item_problem i = None \<Longrightarrow>
    work_item_problem (expired_item now i l) = None"
  by (simp add: work_item_problem_None) (simp add: expired_item_def)

lemma expire_loop_eq:
  assumes "\<forall>i \<in> set is. work_item_problem i = None"
  shows "expire_loop now is q = (Inr (map (sweep_item now) (filter (overdue now) is)),
    q\<lparr>wq_items := fold (\<lambda>i d. if overdue now i
        then AList.update (wi_work_item_id i) (sweep_item now i) d else d) is (wq_items q)\<rparr>)"
  using assms
proof (induction "is" arbitrary: q)
  case (Cons i "is")
  then show ?case
  proof (cases "overdue now i")
    case True
    then obtain l where l: "wi_lease i = Some l" "wi_status i = WLeased"
        "wl_lease_expires_at l \<le> now"
      by (auto simp: overdue_def split: option.splits)
    then have "work_item_checked (expired_item now i l) = Inr (sweep_item now i)"
      using Cons.prems True by (simp add: work_item_checked_ok expired_item_problem sweep_item_def)
    with True l Cons show ?thesis by (simp add: put_item_def)
  next
    case False
    then have "expire_loop now (i # is) q = expire_loop now is q"
      by (auto simp: overdue_def not_le split: option.splits)
    with False Cons show ?thesis by simp
  qed
qed simp

lemma fold_sweep:
  assumes "dict_wf (d1 @ d2)" and "\<forall>(k, i) \<in> set d2. wi_work_item_id i = k"
  shows "fold (\<lambda>i d. if P i then AList.update (wi_work_item_id i) (g i) d else d)
      (dict_values d2) (d1 @ d2)
    = d1 @ map_ran (\<lambda>_ i. if P i then g i else i) d2"
  using assms
proof (induction d2 arbitrary: d1)
  case (Cons p d2)
  obtain k i where p: "p = (k, i)" by (cases p)
  have upd: "AList.update k v (d1 @ (k, i) # d2) = d1 @ (k, v) # d2" for v
    using Cons.prems(1) by (induction d1) (auto simp: p)
  have "wi_work_item_id i = k" using Cons.prems(2) by (simp add: p)
  then show ?case
    using Cons.IH [of "d1 @ [(k, if P i then g i else i)]"] Cons.prems
    by (auto simp: p upd)
qed simp

lemma expire_eq:
  assumes inv: "queue_inv q"
  shows "expire now q = (Inr (map (sweep_item now) (filter (overdue now) (dict_values (wq_items q)))),
    sweep_queue now q)"
proof -
  have ok: "item_ok (wq_fencing_sequences q) k i" if "(k, i) \<in> set (wq_items q)" for k i
    using queue_inv_item [OF inv] in_set_dict [OF queue_inv_wf(1) [OF inv]] that by blast
  have "\<forall>i \<in> set (dict_values (wq_items q)). work_item_problem i = None"
    using ok by (auto simp: item_ok_def)
  moreover have "fold (\<lambda>i d. if overdue now i
        then AList.update (wi_work_item_id i) (sweep_item now i) d else d)
      (dict_values (wq_items q)) (wq_items q) = map_ran (\<lambda>_. sweep_item now) (wq_items q)"
  proof -
    have eq: "(\<lambda>_ i. if overdue now i then sweep_item now i else i) = (\<lambda>_. sweep_item now)"
      by (simp add: fun_eq_iff sweep_item_def)
    have "\<forall>(k, i) \<in> set (wq_items q). wi_work_item_id i = k"
      using ok by (auto simp: item_ok_def)
    then show ?thesis
      using fold_sweep [of "[]" "wq_items q" "overdue now" "sweep_item now"]
        queue_inv_wf(1) [OF inv] by (simp add: eq)
  qed
  ultimately show ?thesis
    by (simp add: expire_def expire_loop_eq sweep_queue_def)
qed

lemma sweep_queue_lookup [dict_simps]:
  "map_of (wq_items (sweep_queue now q)) k = map_option (sweep_item now) (map_of (wq_items q) k)"
  by (simp add: sweep_queue_def map_ran_conv)

lemma sweep_queue_same [simp]:
  "wq_fencing_sequences (sweep_queue now q) = wq_fencing_sequences q"
  "wq_sequence (sweep_queue now q) = wq_sequence q"
  "dict_keys (wq_items (sweep_queue now q)) = dict_keys (wq_items q)"
  by (simp_all add: sweep_queue_def)

lemma expired_item_terminal: "is_terminal (expired_item now i l) \<Longrightarrow>
    terminal_at (expired_item now i l) \<noteq> None"
  by (auto simp: expired_item_def terminal_at_def split: if_splits)

lemma expired_item_queued: "wi_status (expired_item now i l) = WQueued \<Longrightarrow>
    wi_attempts i < wi_max_attempts i"
  by (auto simp: expired_item_def split: if_splits)

lemma sweep_item_ok: "item_ok f k i \<Longrightarrow> item_ok f k (sweep_item now i)"
  by (cases "overdue now i")
    (simp_all add: item_ok_def sweep_item_def expired_item_problem expired_item_terminal
      expired_item_queued)

lemma sweep_item_live: "\<not> is_terminal (sweep_item now i) \<Longrightarrow> \<not> is_terminal i"
  by (auto simp: sweep_item_def overdue_def split: if_splits)

lemma keys_unique_sweep: "keys_unique q \<Longrightarrow> keys_unique (sweep_queue now q)"
  unfolding keys_unique_def sweep_queue_lookup
  by (smt (verit) map_option_eq_Some sweep_item_live sweep_item_same(2))

lemma queue_inv_sweep:
  assumes "queue_inv q"
  shows "queue_inv (sweep_queue now q)"
  unfolding queue_inv_def
proof (intro conjI allI impI)
  fix k i
  assume "map_of (wq_items (sweep_queue now q)) k = Some i"
  then obtain i0 where "map_of (wq_items q) k = Some i0" and "i = sweep_item now i0"
    by (auto simp: sweep_queue_lookup)
  with assms show "item_ok (wq_fencing_sequences (sweep_queue now q)) k i"
    by (simp add: queue_inv_item sweep_item_ok)
qed (use assms in \<open>simp_all add: queue_inv_def keys_unique_sweep\<close>)

subsection \<open>Holding a lease\<close>

lemma leased_item_cases [consumes 1]:
  assumes inv: "queue_inv q"
  obtains (held) k i l where "leased_item lid w now q = (Inr (i, l), q)"
      and "map_of (wq_items q) k = Some i" and "item_ok (wq_fencing_sequences q) k i"
      and "wi_status i = WLeased" and "wi_lease i = Some l" and "wl_lease_id l = lid"
      and "wl_worker_id l = w" and "now < wl_lease_expires_at l"
  | (lost) m q' where "leased_item lid w now q = (Inl (LeaseLost m), q')"
      and "q' = q \<or> q' = sweep_queue now q"
proof (cases "find (holds_lease lid) (dict_values (wq_items q))")
  case None
  then show ?thesis by (intro lost [of "''lease not found: '' @ lid" q]) (simp_all add: leased_item_def)
next
  case (Some i)
  then obtain k where k: "map_of (wq_items q) k = Some i" and h: "holds_lease lid i"
    using find_dict_value [OF queue_inv_wf(1) [OF inv]] by blast
  from h obtain l where l: "wi_status i = WLeased" "wi_lease i = Some l" "wl_lease_id l = lid"
    by (auto simp: holds_lease_def split: option.splits)
  consider "wl_worker_id l \<noteq> w" | "wl_worker_id l = w" "wl_lease_expires_at l \<le> now"
    | "wl_worker_id l = w" "now < wl_lease_expires_at l" by fastforce
  then show ?thesis
  proof cases
    case 1
    then show ?thesis
      by (intro lost [of "''lease is owned by another worker: '' @ lid" q])
        (simp_all add: leased_item_def Some l)
  next
    case 2
    then show ?thesis
      by (intro lost [of "''lease expired: '' @ lid" "sweep_queue now q"])
        (simp_all add: leased_item_def Some l expire_eq [OF inv])
  next
    case 3
    then show ?thesis
      by (intro held [of i l k]) (simp_all add: leased_item_def Some l k queue_inv_item [OF inv])
  qed
qed

text \<open>The items the lease holder writes are well formed.\<close>

lemma renewed_ok:
  "item_ok f k i \<Longrightarrow> wi_lease i = Some l \<Longrightarrow>
    item_ok f k (i\<lparr>wi_lease := Some (renewed_lease t d l)\<rparr>)"
  by (auto simp: renewed_lease_def item_ok_def work_item_problem_None is_terminal_def terminal_at_def)

lemma completed_ok:
  "item_ok f k i \<Longrightarrow> item_ok f k (completed_item t i)"
  by (auto simp: completed_item_def item_ok_def work_item_problem_None is_terminal_def terminal_at_def)

lemma cancelled_ok:
  "item_ok f k i \<Longrightarrow> item_ok f k (cancelled_item r t i)"
  by (auto simp: cancelled_item_def item_ok_def work_item_problem_None is_terminal_def terminal_at_def)

lemma failed_ok: "item_ok f k i \<Longrightarrow> item_ok f k (failed_item r b t i)"
  by (auto simp: item_ok_def work_item_problem_None is_terminal_def terminal_at_def failed_item_def)

lemma leased_ok:
  assumes "item_ok f k i" and "wi_status i = WQueued" and "wl_lease_id l = next_lease_id i"
    and "wl_fencing_token l = wi_attempts i + 1"
  shows "item_ok (AList.update k (wi_attempts i + 1) f) k
    (granted_item l i)"
  using assms
  by (auto simp: granted_item_def item_ok_def work_item_problem_None dict_simps next_lease_id_def is_terminal_def)

lemma written_item_same [simp]:
  "wi_work_item_id (completed_item t i) = wi_work_item_id i"
  "wi_idempotency_key (completed_item t i) = wi_idempotency_key i"
  "wi_work_item_id (cancelled_item r t i) = wi_work_item_id i"
  "wi_idempotency_key (cancelled_item r t i) = wi_idempotency_key i"
  "wi_work_item_id (granted_item l i) = wi_work_item_id i"
  "wi_idempotency_key (granted_item l i) = wi_idempotency_key i"
  by (simp_all add: completed_item_def cancelled_item_def granted_item_def)

lemmas item_problem_of_ok = item_ok_def [THEN iffD1, THEN conjunct2, THEN conjunct1]

lemma failed_item_same [simp]:
  "wi_idempotency_key (failed_item r b t i) = wi_idempotency_key i"
  "wi_work_item_id (failed_item r b t i) = wi_work_item_id i"
  "wi_attempts (failed_item r b t i) = wi_attempts i"
  "wi_max_attempts (failed_item r b t i) = wi_max_attempts i"
  by (simp_all add: failed_item_def)

subsection \<open>What each operation does\<close>

text \<open>
  Under the invariant every operation is one of a few writes, or an error that leaves the
  queue as it was or swept.
\<close>

lemma heartbeat_cases [consumes 1]:
  assumes inv: "queue_inv q"
  obtains (renewed) k i l where "map_of (wq_items q) k = Some i" and "wi_status i = WLeased"
      and "item_ok (wq_fencing_sequences q) k i"
      and "wi_lease i = Some l" and "wl_lease_id l = lid" and "wl_worker_id l = w"
      and "now < wl_lease_expires_at l" and "0 < ttl"
      and "heartbeat lid w ttl now q =
        (let j = i\<lparr>wi_lease := Some (renewed_lease now (now + timedelta ttl) l)\<rparr>
         in (Inr j, put_item j q))"
  | (error) e q' where "heartbeat lid w ttl now q = (Inl e, q')"
      and "q' = q \<or> q' = sweep_queue now q"
using inv
proof (cases rule: leased_item_cases [of q lid w now])
  case h: (held k i l)
  show ?thesis
  proof (cases "0 < ttl")
    case True
    let ?l = "renewed_lease now (now + timedelta ttl) l"
    have "0 \<le> wl_fencing_token ?l" using h by (simp add: item_ok_def renewed_lease_def)
    moreover have "work_item_problem (i\<lparr>wi_lease := Some ?l\<rparr>) = None"
      by (rule item_problem_of_ok [OF renewed_ok [OF h(3,5)]])
    ultimately have "heartbeat lid w ttl now q =
        (let j = i\<lparr>wi_lease := Some ?l\<rparr> in (Inr j, put_item j q))"
      using h True by (simp add: heartbeat_def lease_deadline_cases worker_lease_checked_ok
        work_item_checked_ok Let_def)
    with h True show ?thesis by (intro renewed) 
  next
    case False
    with h show ?thesis
      by (intro error [of "ValueErr ''ttl_seconds must be positive''" q])
        (simp_all add: heartbeat_def lease_deadline_cases)
  qed
next
  case h: (lost m q')
  then show ?thesis by (intro error [of "LeaseLost m" q']) (simp_all add: heartbeat_def)
qed

lemma complete_cases [consumes 1]:
  assumes inv: "queue_inv q"
  obtains (completed) k i l where "map_of (wq_items q) k = Some i" and "wi_status i = WLeased"
      and "item_ok (wq_fencing_sequences q) k i"
      and "wi_lease i = Some l" and "wl_lease_id l = lid" and "wl_worker_id l = w"
      and "now < wl_lease_expires_at l"
      and "complete_work lid w now q =
        (Inr (completed_item now i), put_item (completed_item now i) q)"
  | (lost) m q' where "complete_work lid w now q = (Inl (LeaseLost m), q')"
      and "q' = q \<or> q' = sweep_queue now q"
using inv
proof (cases rule: leased_item_cases [of q lid w now])
  case h: (held k i l)
  then show ?thesis
    by (intro completed [of k i l])
      (simp_all add: complete_work_def work_item_checked_ok item_problem_of_ok [OF completed_ok [OF h(3)]])
next
  case h: (lost m q')
  then show ?thesis by (intro lost [of m q']) (simp_all add: complete_work_def)
qed

lemma fail_work_cases [consumes 1]:
  assumes inv: "queue_inv q"
  obtains (failed) k i l where "map_of (wq_items q) k = Some i" and "wi_status i = WLeased"
      and "item_ok (wq_fencing_sequences q) k i"
      and "wi_lease i = Some l" and "wl_lease_id l = lid" and "wl_worker_id l = w"
      and "now < wl_lease_expires_at l" and "\<not> blank reason"
      and "fail_work lid w reason retry now q =
        (Inr (failed_item reason retry now i), put_item (failed_item reason retry now i) q)"
  | (lost) m q' where "fail_work lid w reason retry now q = (Inl (LeaseLost m), q')"
      and "q' = q \<or> q' = sweep_queue now q" and "\<not> blank reason"
  | (bad_reason) "fail_work lid w reason retry now q =
        (Inl (ValueErr ''failure reason must not be empty''), q)" and "blank reason"
proof (cases "blank reason")
  case True
  then show ?thesis by (intro bad_reason) (simp_all add: fail_work_def parse_defs)
next
  case r: False
  show ?thesis
  using inv
proof (cases rule: leased_item_cases [of q lid w now])
    case h: (held k i l)
    with r show ?thesis
      by (intro failed [of k i l]) (simp_all add: fail_work_def parse_defs work_item_checked_ok
        item_problem_of_ok [OF failed_ok [OF h(3)]])
  next
    case h: (lost m q')
    with r show ?thesis by (intro lost [of m q']) (simp_all add: fail_work_def parse_defs)
  qed
qed

lemma cancel_work_cases [consumes 1]:
  assumes inv: "queue_inv q"
  obtains (cancelled) i where "map_of (wq_items q) k = Some i" and "\<not> is_terminal i"
      and "item_ok (wq_fencing_sequences q) k i"
      and "cancel_work k reason now q =
        (Inr (cancelled_item reason now i), put_item (cancelled_item reason now i) q)"
  | (kept) r where "cancel_work k reason now q = (r, q)"
      and "\<And>i. r = Inr i \<Longrightarrow> map_of (wq_items q) k = Some i \<and> is_terminal i"
proof (cases "blank reason \<or> map_of (wq_items q) k = None")
  case True
  then show ?thesis
    by (cases "blank reason") (auto intro!: kept simp: cancel_work_def get_item_def parse_defs)
next
  case False
  then obtain i where i: "map_of (wq_items q) k = Some i" and r: "\<not> blank reason" by auto
  have ok: "item_ok (wq_fencing_sequences q) k i" using inv i by (rule queue_inv_item)
  show ?thesis
  proof (cases "is_terminal i")
    case True
    with i r show ?thesis
      by (intro kept [of "Inr i"]) (auto simp: cancel_work_def get_item_def parse_defs is_terminal_def)
  next
    case False
    have chk: "work_item_checked (cancelled_item reason now i) = Inr (cancelled_item reason now i)"
      by (rule work_item_checked_ok [OF item_problem_of_ok [OF cancelled_ok [OF ok]]])
    have "wi_work_item_id i = k" using ok by (simp add: item_ok_def)
    with False i r ok chk show ?thesis
      by (intro cancelled [of i])
        (simp_all add: cancel_work_def get_item_def parse_defs is_terminal_def put_item_def)
  qed
qed

lemma next_leaseable_Some:
  assumes wf: "dict_wf (wq_items q)" and "next_leaseable now ks q = Some i"
  shows "\<exists>k. map_of (wq_items q) k = Some i" and "leaseable now ks i"
    and "map_of (wq_items q) k' = Some j \<Longrightarrow> leaseable now ks j \<Longrightarrow> item_sort_key i \<le> item_sort_key j"
proof -
  let ?c = "filter (leaseable now ks) (dict_values (wq_items q))"
  from assms(2) have ne: "?c \<noteq> []" and i: "i = hd (sort_key item_sort_key ?c)"
    by (auto simp: next_leaseable_def Let_def split: if_splits)
  from hd_sort_key(1) [OF ne, of item_sort_key] have "i \<in> set ?c" by (simp add: i)
  then show "leaseable now ks i" by simp
  from \<open>i \<in> set ?c\<close> obtain k where "(k, i) \<in> set (wq_items q)" by auto
  with wf show "\<exists>k. map_of (wq_items q) k = Some i" by auto
  show "item_sort_key i \<le> item_sort_key j"
    if "map_of (wq_items q) k' = Some j" and "leaseable now ks j"
  proof -
    have "j \<in> snd ` set (wq_items q)"
      using that(1) by (metis map_of_SomeD image_eqI snd_conv)
    with that(2) have "j \<in> set ?c" by simp
    then show ?thesis unfolding i by (rule hd_sort_key(2) [OF ne])
  qed
qed

lemma next_leaseable_None:
  assumes "next_leaseable now ks q = None" and "map_of (wq_items q) k = Some i"
  shows "\<not> leaseable now ks i"
proof -
  have "i \<in> snd ` set (wq_items q)"
    using assms(2) by (metis map_of_SomeD image_eqI snd_conv)
  with assms(1) show ?thesis
    by (auto simp: next_leaseable_def Let_def filter_empty_conv split: if_splits)
qed

definition granted_lease :: "string \<Rightarrow> rat \<Rightarrow> time \<Rightarrow> work_item \<Rightarrow> worker_lease" where
  "granted_lease worker ttl now i =
     \<lparr>wl_lease_id = next_lease_id i, wl_worker_id = worker, wl_leased_at = now,
      wl_lease_expires_at = now + timedelta ttl, wl_heartbeat_at = now,
      wl_fencing_token = wi_attempts i + 1\<rparr>"

definition grant :: "worker_lease \<Rightarrow> work_item \<Rightarrow> work_queue \<Rightarrow> work_queue" where
  "grant l i q = q\<lparr>wq_items := AList.update (wi_work_item_id i) (granted_item l i) (wq_items q),
     wq_fencing_sequences := AList.update (wi_work_item_id i) (wi_attempts i + 1)
       (wq_fencing_sequences q)\<rparr>"

lemma lease_item_eq:
  assumes ok: "item_ok (wq_fencing_sequences q) k i" and "wi_status i = WQueued" and "0 < ttl"
  shows "lease_item w ttl now i q =
    (Inr (granted_item (granted_lease w ttl now i) i), grant (granted_lease w ttl now i) i q)"
proof -
  let ?l = "granted_lease w ttl now i"
  have k: "wi_work_item_id i = k" and n: "0 \<le> wi_attempts i"
    and f: "dict_get (wq_fencing_sequences q) k 0 = wi_attempts i"
    using ok by (auto simp: item_ok_def work_item_problem_None)
  have "item_ok (AList.update k (wi_attempts i + 1) (wq_fencing_sequences q)) k (granted_item ?l i)"
    using ok assms(2) by (rule leased_ok) (simp_all add: granted_lease_def)
  then have "work_item_checked (granted_item ?l i) = Inr (granted_item ?l i)"
    by (intro work_item_checked_ok item_problem_of_ok)
  moreover have "worker_lease_checked ?l = Inr ?l"
    using n by (intro worker_lease_checked_ok) (simp add: granted_lease_def)
  ultimately show ?thesis
    using assms(3) k f
    by (simp add: lease_item_def lease_deadline_cases next_fencing_token_def granted_lease_def
      grant_def put_item_def Let_def)
qed

lemma lease_cases [consumes 1]:
  assumes inv: "queue_inv q"
  obtains (granted) k i kinds where "normalize_accepted_kinds accepted = Inr kinds"
      and "map_of (wq_items (sweep_queue now q)) k = Some i" and "leaseable now kinds i"
      and "item_ok (wq_fencing_sequences q) k i" and "0 < ttl"
      and "\<And>k' j. map_of (wq_items (sweep_queue now q)) k' = Some j \<Longrightarrow> leaseable now kinds j
             \<Longrightarrow> item_sort_key i \<le> item_sort_key j"
      and "lease w ttl now accepted q = (Inr (granted_item (granted_lease w ttl now i) i),
             grant (granted_lease w ttl now i) i (sweep_queue now q))"
  | (no_work) kinds where "normalize_accepted_kinds accepted = Inr kinds"
      and "\<And>k i. map_of (wq_items (sweep_queue now q)) k = Some i \<Longrightarrow> \<not> leaseable now kinds i"
      and "lease w ttl now accepted q =
             (Inl (NoWorkAvailable ''no work available''), sweep_queue now q)"
  | (rejected) m q' where "lease w ttl now accepted q = (Inl (ValueErr m), q')"
      and "q' = q \<or> q' = sweep_queue now q"
proof (cases "normalize_accepted_kinds accepted")
  case (Inl e)
  then obtain m where "e = ValueErr m"
    by (auto simp: normalize_accepted_kinds_def split: option.splits if_splits)
  with Inl show ?thesis by (intro rejected [of m q]) (simp_all add: lease_def)
next
  case (Inr kinds)
  let ?q = "sweep_queue now q"
  have inv': "queue_inv ?q" using inv by (rule queue_inv_sweep)
  show ?thesis
  proof (cases "next_leaseable now kinds ?q")
    case None
    then show ?thesis
      using Inr by (intro no_work [of kinds]) (simp_all add: lease_def expire_eq [OF inv]
        next_leaseable_None)
  next
    case (Some i)
    note nl = next_leaseable_Some [OF queue_inv_wf(1) [OF inv'] Some]
    obtain k where k: "map_of (wq_items ?q) k = Some i" using nl(1) by blast
    have ok: "item_ok (wq_fencing_sequences ?q) k i" using inv' k by (rule queue_inv_item)
    have st: "wi_status i = WQueued" using nl(2) by (simp add: leaseable_def)
    show ?thesis
    proof (cases "0 < ttl")
      case True
      show ?thesis
      proof (rule granted [OF Inr k nl(2) _ True nl(3)])
        show "item_ok (wq_fencing_sequences q) k i" using ok by simp
        show "lease w ttl now accepted q = (Inr (granted_item (granted_lease w ttl now i) i),
            grant (granted_lease w ttl now i) i ?q)"
          by (simp add: lease_def Inr expire_eq [OF inv] Some lease_item_eq [OF ok st True])
      qed
    next
      case False
      then show ?thesis
        by (intro rejected [of "''ttl_seconds must be positive''" ?q])
          (simp_all add: lease_def Inr expire_eq [OF inv] Some lease_item_def lease_deadline_cases)
    qed
  qed
qed

lemma enqueue_cases:
  obtains (existing) i key k where "eq_idempotency_key a = Some key"
      and "dict_wf (wq_items q) \<Longrightarrow> map_of (wq_items q) k = Some i"
      and "wi_idempotency_key i = Some key" and "\<not> is_terminal i" and "enqueue a clk q = (Inr i, q)"
  | (created) k q1 where "q1 = q \<or> q1 = q\<lparr>wq_sequence := wq_sequence q + 1\<rparr>"
      and "map_of (wq_items q) k = None" and "work_item_problem (new_work_item a clk k) = None"
      and "\<And>k' j key. map_of (wq_items q) k' = Some j \<Longrightarrow> wi_idempotency_key j = Some key
             \<Longrightarrow> eq_idempotency_key a = Some key \<Longrightarrow> is_terminal j"
      and "enqueue a clk q = (Inr (new_work_item a clk k), put_item (new_work_item a clk k) q1)"
  | (rejected) m q1 where "enqueue a clk q = (Inl (ValueErr m), q1)"
      and "q1 = q \<or> q1 = q\<lparr>wq_sequence := wq_sequence q + 1\<rparr>"
proof (cases "case eq_idempotency_key a of None \<Rightarrow> None | Some key \<Rightarrow> find_idempotent key q")
  case (Some i)
  then obtain key where key: "eq_idempotency_key a = Some key" and f: "find_idempotent key q = Some i"
    by (auto split: option.splits)
  from f have p: "wi_idempotency_key i = Some key \<and> \<not> is_terminal i"
    unfolding find_idempotent_def find_Some_iff by blast
  have "\<exists>k. dict_wf (wq_items q) \<longrightarrow> map_of (wq_items q) k = Some i"
    using f unfolding find_idempotent_def by (meson find_dict_value)
  with key p Some show ?thesis by (auto intro!: existing simp: enqueue_def)
next
  case None
  let ?kq = "if truthy (eq_work_item_id a) then (the (eq_work_item_id a), q) else next_work_item_id q"
  obtain k q1 where kq: "?kq = (k, q1)" by (cases ?kq)
  have q1: "q1 = q \<or> q1 = q\<lparr>wq_sequence := wq_sequence q + 1\<rparr>"
    using kq by (auto simp: next_work_item_id_def Let_def split: if_splits)
  then have items: "wq_items q1 = wq_items q" by auto
  have id: "wi_work_item_id (new_work_item a clk k) = k" by (simp add: new_work_item_def)
  have free: "is_terminal j" if j: "map_of (wq_items q) k' = Some j" "wi_idempotency_key j = Some key"
    "eq_idempotency_key a = Some key" for k' j key
  proof -
    have "j \<in> snd ` set (wq_items q)"
      using j(1) by (metis map_of_SomeD image_eqI snd_conv)
    moreover have "find_idempotent key q = None" using None j(3) by simp
    ultimately show ?thesis using j(2) by (auto simp: find_idempotent_def find_None_iff)
  qed
  have e: "enqueue a clk q = check_op (work_item_checked (new_work_item a clk k)) q1 (\<lambda>i.
      if map_of (wq_items q1) (wi_work_item_id i) \<noteq> None
      then (Inl (ValueErr (''work item already exists: '' @ wi_work_item_id i)), q1)
      else (Inr i, put_item i q1))"
    unfolding enqueue_def None enqueue_new_def kq by (simp add: Let_def)
  show ?thesis
  proof (cases "work_item_problem (new_work_item a clk k)")
    case (Some m)
    then have "enqueue a clk q = (Inl (ValueErr m), q1)"
      unfolding e by (simp add: work_item_checked_def)
    then show ?thesis using q1 by (rule rejected)
  next
    case ok: None
    show ?thesis
    proof (cases "map_of (wq_items q) k")
      case None
      then have "enqueue a clk q = (Inr (new_work_item a clk k), put_item (new_work_item a clk k) q1)"
        unfolding e by (simp add: work_item_checked_ok [OF ok] id items)
      with q1 None ok free show ?thesis by (intro created)
    next
      case (Some j)
      then have "enqueue a clk q = (Inl (ValueErr (''work item already exists: '' @ k)), q1)"
        unfolding e by (simp add: work_item_checked_ok [OF ok] id items)
      then show ?thesis using q1 by (rule rejected)
    qed
  qed
qed

subsection \<open>Pruning\<close>

lemma prune_loop_lookup [dict_simps]:
  "map_of (wq_items (prune_loop is q)) k =
     (if k \<in> wi_work_item_id ` set is then None else map_of (wq_items q) k)"
  "dict_get (wq_fencing_sequences (prune_loop is q)) k d =
     (if k \<in> wi_work_item_id ` set is then d else dict_get (wq_fencing_sequences q) k d)"
  by (induction "is" arbitrary: q) (auto simp: map_of_del dict_get_delete)

lemma queue_inv_delete:
  assumes "queue_inv q"
  shows "queue_inv (q\<lparr>wq_items := AList.delete k (wq_items q),
    wq_fencing_sequences := AList.delete k (wq_fencing_sequences q)\<rparr>)"
  unfolding queue_inv_def
proof (intro conjI allI impI)
  let ?q = "q\<lparr>wq_items := AList.delete k (wq_items q),
    wq_fencing_sequences := AList.delete k (wq_fencing_sequences q)\<rparr>"
  fix k' i
  assume "map_of (wq_items ?q) k' = Some i"
  then have "k' \<noteq> k" and "map_of (wq_items q) k' = Some i"
    by (auto simp: map_of_del split: if_splits)
  with assms show "item_ok (wq_fencing_sequences ?q) k' i"
    using queue_inv_item [OF assms] by (simp add: item_ok_def dict_get_delete)
next
  have "keys_unique q" using assms by (simp add: queue_inv_def)
  then show "keys_unique (q\<lparr>wq_items := AList.delete k (wq_items q),
      wq_fencing_sequences := AList.delete k (wq_fencing_sequences q)\<rparr>)"
    unfolding keys_unique_def by (simp add: map_of_del)
next
  have "set (dict_keys (wq_fencing_sequences q)) \<subseteq> set (dict_keys (wq_items q))"
    using assms by (simp add: queue_inv_def)
  then show "set (dict_keys (wq_fencing_sequences (q\<lparr>wq_items := AList.delete k (wq_items q),
      wq_fencing_sequences := AList.delete k (wq_fencing_sequences q)\<rparr>)))
    \<subseteq> set (dict_keys (wq_items (q\<lparr>wq_items := AList.delete k (wq_items q),
      wq_fencing_sequences := AList.delete k (wq_fencing_sequences q)\<rparr>)))"
    by (auto simp: delete_keys)
qed (use assms in \<open>simp_all add: queue_inv_wf\<close>)

lemma queue_inv_prune: "queue_inv q \<Longrightarrow> queue_inv (prune_loop is q)"
  by (induction "is" arbitrary: q) (simp_all add: queue_inv_delete)

subsection \<open>Every operation keeps the invariant\<close>

lemma queue_inv_sequence [simp]: "queue_inv (q\<lparr>wq_sequence := n\<rparr>) = queue_inv q"
  by (simp add: queue_inv_def keys_unique_def)

lemma queue_inv_insert:
  assumes inv: "queue_inv q" and new: "map_of (wq_items q) k = None"
    and ok: "work_item_problem (new_work_item a clk k) = None"
    and free: "\<And>k' j key. map_of (wq_items q) k' = Some j \<Longrightarrow> wi_idempotency_key j = Some key
             \<Longrightarrow> eq_idempotency_key a = Some key \<Longrightarrow> is_terminal j"
  shows "queue_inv (put_item (new_work_item a clk k) q)"
proof -
  let ?i = "new_work_item a clk k"
  have "k \<notin> set (dict_keys (wq_items q))"
    using new by (simp add: map_of_eq_None_iff)
  then have "k \<notin> set (dict_keys (wq_fencing_sequences q))"
    using inv by (auto simp: queue_inv_def)
  then have "map_of (wq_fencing_sequences q) k = None" by (simp add: map_of_eq_None_iff)
  then have f: "dict_get (wq_fencing_sequences q) k 0 = 0" by (simp add: dict_get_def)
  have "item_ok (wq_fencing_sequences q) k ?i"
    using ok f by (simp add: item_ok_def work_item_problem_None is_terminal_def) (simp add: new_work_item_def)
  moreover have "keys_unique (put_item ?i q)"
  proof -
    have "keys_unique q" using inv by (simp add: queue_inv_def)
    moreover have "wi_idempotency_key ?i = eq_idempotency_key a" "wi_work_item_id ?i = k"
      by (simp_all add: new_work_item_def)
    ultimately show ?thesis
      unfolding keys_unique_def put_item_def by (simp add: map_of_update) (metis free)
  qed
  moreover have "wi_work_item_id ?i = k" by (simp add: new_work_item_def)
  moreover have "set (dict_keys (wq_fencing_sequences q)) \<subseteq> insert k (set (dict_keys (wq_items q)))"
    using inv unfolding queue_inv_def by blast
  moreover have "set (dict_keys (AList.update k ?i (wq_items q))) = insert k (set (dict_keys (wq_items q)))"
    by (simp add: dom_update)
  ultimately show ?thesis
    using inv unfolding queue_inv_def put_item_def
    by (simp add: map_of_update del: map_of_eq_Some_iff)
qed

lemma queue_inv_grant:
  assumes inv: "queue_inv q" and i: "map_of (wq_items q) k = Some i" and st: "wi_status i = WQueued"
  shows "queue_inv (grant (granted_lease w ttl now i) i q)"
proof -
  have ok: "item_ok (wq_fencing_sequences q) k i" using inv i by (rule queue_inv_item)
  then have k: "wi_work_item_id i = k" by (simp add: item_ok_def)
  show ?thesis unfolding grant_def k
  proof (rule queue_inv_write [OF inv i])
    show "item_ok (AList.update k (wi_attempts i + 1) (wq_fencing_sequences q)) k
        (granted_item (granted_lease w ttl now i) i)"
      using ok st by (rule leased_ok) (simp_all add: granted_lease_def)
  qed (use st inv in \<open>simp_all add: queue_inv_wf dict_get_update dom_update\<close>)
qed

lemma queue_inv_lost: "queue_inv q \<Longrightarrow> q' = q \<or> q' = sweep_queue now q \<Longrightarrow> queue_inv q'"
  by (auto simp: queue_inv_sweep)

lemma queue_inv_enqueue: "queue_inv q \<Longrightarrow> queue_inv (snd (enqueue a clk q))"
proof (cases rule: enqueue_cases [of a q clk])
  case (created k q1)
  assume inv: "queue_inv q"
  have q1: "queue_inv q1" and items: "wq_items q1 = wq_items q" using created(1) inv by auto
  show ?thesis using queue_inv_insert [OF q1, of k a clk] created by (simp add: items)
qed auto

lemma queue_inv_lease:
  assumes inv: "queue_inv q"
  shows "queue_inv (snd (lease w ttl now ks q))"
using inv
proof (cases rule: lease_cases [of q ks now ttl w])
  case (granted k i kinds)
  then show ?thesis
    using queue_inv_grant [OF queue_inv_sweep [OF inv] granted(2)] by (simp add: leaseable_def)
qed (use inv in \<open>auto simp: queue_inv_sweep\<close>)

lemma queue_inv_heartbeat:
  assumes inv: "queue_inv q"
  shows "queue_inv (snd (heartbeat lid w ttl now q))"
using inv
proof (cases rule: heartbeat_cases [of q lid w now ttl])
  case (renewed k i l)
  have "queue_inv (put_item (i\<lparr>wi_lease := Some (renewed_lease now (now + timedelta ttl) l)\<rparr>) q)"
    by (rule queue_inv_put [OF inv renewed(1)])
      (simp_all add: is_terminal_def renewed_ok [OF renewed(3,4)])
  with renewed show ?thesis by (simp add: Let_def)
qed (use inv in \<open>auto simp: queue_inv_sweep\<close>)

lemma queue_inv_complete:
  assumes inv: "queue_inv q"
  shows "queue_inv (snd (complete_work lid w now q))"
using inv
proof (cases rule: complete_cases [of q lid w now])
  case (completed k i l)
  have "queue_inv (put_item (completed_item now i) q)"
    by (rule queue_inv_put [OF inv completed(1)])
      (simp_all add: completed(2) completed_ok [OF completed(3)])
  with completed show ?thesis by simp
qed (use inv in \<open>auto simp: queue_inv_sweep\<close>)

lemma queue_inv_fail:
  assumes inv: "queue_inv q"
  shows "queue_inv (snd (fail_work lid w r b now q))"
using inv
proof (cases rule: fail_work_cases [of q lid w now r b])
  case (failed k i l)
  have "queue_inv (put_item (failed_item r b now i) q)"
    by (rule queue_inv_put [OF inv failed(1)])
      (simp_all add: failed(2) failed_ok [OF failed(3)])
  with failed show ?thesis by simp
qed (use inv in \<open>auto simp: queue_inv_sweep\<close>)

lemma queue_inv_cancel:
  assumes inv: "queue_inv q"
  shows "queue_inv (snd (cancel_work k r now q))"
using inv
proof (cases rule: cancel_work_cases [of q k r now])
  case (cancelled i)
  have "queue_inv (put_item (cancelled_item r now i) q)"
    by (rule queue_inv_put [OF inv cancelled(1)])
      (simp_all add: cancelled(2) cancelled_ok [OF cancelled(3)])
  with cancelled show ?thesis by simp
qed (use inv in simp)

lemma queue_inv_step: "queue_inv q \<Longrightarrow> queue_inv (queue_step q e)"
  by (cases e) (simp_all add: queue_inv_enqueue queue_inv_lease queue_inv_heartbeat
    queue_inv_complete queue_inv_fail queue_inv_cancel expire_eq queue_inv_sweep
    prune_terminal_def Let_def queue_inv_prune)

interpretation wq: invariant_system queue_step empty_queue queue_inv
  by unfold_locales (simp_all add: queue_inv_empty queue_inv_step)

text \<open>The leases of the queue expire: the entry of a leased item is its key and deadline.\<close>

definition live_leases :: "work_queue \<Rightarrow> (string \<times> time) set" where
  "live_leases q = {(k, d). \<exists>i l. map_of (wq_items q) k = Some i \<and> wi_status i = WLeased
     \<and> wi_lease i = Some l \<and> wl_lease_expires_at l = d}"

lemma sweep_item_leased:
  "wi_status (sweep_item now i) = WLeased \<and> wi_lease (sweep_item now i) = Some l \<longleftrightarrow>
   wi_status i = WLeased \<and> wi_lease i = Some l \<and> now < wl_lease_expires_at l"
  by (cases "wi_lease i") (auto simp: sweep_item_def overdue_def expired_item_def)

lemma live_leases_sweep: "live_leases (sweep_queue now q) = {p \<in> live_leases q. now < snd p}"
proof -
  have "(k, d) \<in> live_leases (sweep_queue now q) \<longleftrightarrow> (k, d) \<in> live_leases q \<and> now < d" for k d
  proof -
    have "(\<exists>l. wi_status (sweep_item now i) = WLeased \<and> wi_lease (sweep_item now i) = Some l
          \<and> wl_lease_expires_at l = d)
        \<longleftrightarrow> (\<exists>l. wi_status i = WLeased \<and> wi_lease i = Some l \<and> wl_lease_expires_at l = d) \<and> now < d" for i
      using sweep_item_leased [of now i] by blast
    then show ?thesis
      unfolding live_leases_def sweep_queue_lookup by (cases "map_of (wq_items q) k") auto
  qed
  then show ?thesis by auto
qed

interpretation wq_leases: expiring_store "\<lambda>now q. snd (expire now q)" live_leases queue_inv
  by unfold_locales (simp_all add: expire_eq queue_inv_sweep live_leases_sweep)

end
