(* ===== verification/Queue_Life.thy ===== *)
theory Queue_Life
  imports Queue_Inv
begin

text \<open>
  The life of one work item as a step relation, the refinement lemma that every operation of
  the queue moves each item along it, and the safety properties that follow: fencing tokens
  grow, a lost lease stays lost, terminal items stay as they are, attempts are bounded.
\<close>

subsection \<open>The life cycle\<close>

text \<open>What may happen to an item that is in the queue and stays there.\<close>

inductive item_progress :: "work_item \<Rightarrow> work_item \<Rightarrow> bool" where
  granted: "wi_status i = WQueued \<Longrightarrow> wi_attempts i < wi_max_attempts i \<Longrightarrow> wi_available_at i \<le> now \<Longrightarrow>
     item_progress i (granted_item (granted_lease w ttl now i) i)"
| renewed: "wi_status i = WLeased \<Longrightarrow> wi_lease i = Some l \<Longrightarrow> now < wl_lease_expires_at l \<Longrightarrow>
     item_progress i (i\<lparr>wi_lease := Some (renewed_lease now d l)\<rparr>)"
| completed: "wi_status i = WLeased \<Longrightarrow> wi_lease i = Some l \<Longrightarrow> now < wl_lease_expires_at l \<Longrightarrow>
     item_progress i (completed_item now i)"
| failed: "wi_status i = WLeased \<Longrightarrow> wi_lease i = Some l \<Longrightarrow> now < wl_lease_expires_at l \<Longrightarrow>
     item_progress i (failed_item r b now i)"
| cancelled: "\<not> is_terminal i \<Longrightarrow> item_progress i (cancelled_item r now i)"
| expired: "wi_status i = WLeased \<Longrightarrow> wi_lease i = Some l \<Longrightarrow> wl_lease_expires_at l \<le> now \<Longrightarrow>
     item_progress i (expired_item now i l)"

text \<open>The whole life, \<open>None\<close> being an absent item: creation, progress, pruning.\<close>

inductive item_life :: "work_item option \<Rightarrow> work_item option \<Rightarrow> bool" where
  created: "work_item_problem (new_work_item a clk k) = None \<Longrightarrow>
     item_life None (Some (new_work_item a clk k))"
| progressed: "item_progress i j \<Longrightarrow> item_life (Some i) (Some j)"
| pruned: "is_terminal i \<Longrightarrow> item_life (Some i) None"

inductive_simps item_life_None: "item_life None x"
inductive_cases item_progressE: "item_progress i j"

lemma life_of_progress: "item_progress\<^sup>*\<^sup>* i j \<Longrightarrow> item_life\<^sup>*\<^sup>* (Some i) (Some j)"
proof (induction rule: rtranclp.induct)
  case (rtrancl_into_rtrancl i j k)
  then show ?case by (meson item_life.progressed rtranclp.rtrancl_into_rtrancl)
qed simp

text \<open>Every item of \<open>q\<close> is in \<open>q'\<close> and has progressed; and \<open>q'\<close> has no other items.\<close>

definition progresses :: "work_queue \<Rightarrow> work_queue \<Rightarrow> bool" where
  "progresses q q' \<longleftrightarrow> (\<forall>k i. map_of (wq_items q) k = Some i \<longrightarrow>
     (\<exists>j. map_of (wq_items q') k = Some j \<and> item_progress\<^sup>*\<^sup>* i j))"

definition evolves :: "work_queue \<Rightarrow> work_queue \<Rightarrow> bool" where
  "evolves q q' \<longleftrightarrow> progresses q q'
     \<and> (\<forall>k. map_of (wq_items q) k = None \<longrightarrow> map_of (wq_items q') k = None)"

lemma progresses_refl [simp]: "progresses q q"
  by (simp add: progresses_def)

lemma progresses_trans: "progresses q q' \<Longrightarrow> progresses q' q'' \<Longrightarrow> progresses q q''"
  unfolding progresses_def by (meson rtranclp_trans)

lemma evolves_refl [simp]: "evolves q q"
  by (simp add: evolves_def)

lemma evolves_trans: "evolves q q' \<Longrightarrow> evolves q' q'' \<Longrightarrow> evolves q q''"
  unfolding evolves_def using progresses_trans by blast

lemma progress_sweep_item: "item_progress\<^sup>*\<^sup>* i (sweep_item now i)"
  by (cases "overdue now i")
    (auto simp: sweep_item_def overdue_def intro!: item_progress.expired r_into_rtranclp
      split: option.splits)

lemma evolves_sweep [simp]: "evolves q (sweep_queue now q)"
  by (simp add: evolves_def progresses_def sweep_queue_lookup progress_sweep_item)

lemma evolves_lost: "q' = q \<or> q' = sweep_queue now q \<Longrightarrow> evolves q q'"
  by auto

lemma evolves_write:
  assumes "map_of (wq_items q) k = Some i" and "item_progress i j"
    and "wq_items q' = AList.update k j (wq_items q)"
  shows "evolves q q'"
  using assms by (auto simp: evolves_def progresses_def map_of_update)

lemma evolves_put:
  assumes "map_of (wq_items q) k = Some i" and "wi_work_item_id j = k" and "item_progress i j"
  shows "evolves q (put_item j q)"
  using assms by (intro evolves_write [OF assms(1,3)]) (simp add: put_item_def)

lemma item_ok_id: "item_ok f k i \<Longrightarrow> wi_work_item_id i = k"
  by (simp add: item_ok_def)

lemma progresses_enqueue: "progresses q (snd (enqueue a clk q))"
proof (cases rule: enqueue_cases [of a q clk])
  case (created k q1)
  then have "wq_items q1 = wq_items q" by auto
  moreover have "wi_work_item_id (new_work_item a clk k) = k" by (simp add: new_work_item_def)
  ultimately show ?thesis
    using created by (auto simp: progresses_def put_item_def map_of_update)
qed (auto simp: progresses_def)

lemma evolves_lease:
  assumes inv: "queue_inv q"
  shows "evolves q (snd (lease w ttl now ks q))"
  using inv
proof (cases rule: lease_cases [of q ks now ttl w])
  case (granted k i kinds)
  have ok: "item_ok (wq_fencing_sequences (sweep_queue now q)) k i"
    using queue_inv_sweep [OF inv] granted(2) by (rule queue_inv_item)
  have "item_progress i (granted_item (granted_lease w ttl now i) i)"
    using granted(3) ok by (intro item_progress.granted) (auto simp: leaseable_def item_ok_def)
  with granted(2) have "evolves (sweep_queue now q) (snd (lease w ttl now ks q))"
    by (rule evolves_write) (simp add: granted(7) grant_def item_ok_id [OF ok])
  then show ?thesis by (rule evolves_trans [OF evolves_sweep])
qed auto

lemma evolves_heartbeat:
  assumes inv: "queue_inv q"
  shows "evolves q (snd (heartbeat lid w ttl now q))"
  using inv
proof (cases rule: heartbeat_cases [of q lid w now ttl])
  case (renewed k i l)
  let ?j = "i\<lparr>wi_lease := Some (renewed_lease now (now + timedelta ttl) l)\<rparr>"
  have "item_progress i ?j" using renewed(2,4,7) by (rule item_progress.renewed)
  moreover have "wi_work_item_id ?j = k" using renewed(3) by (simp add: item_ok_id)
  ultimately show ?thesis using evolves_put [OF renewed(1)] renewed(9) by (simp add: Let_def)
qed auto

lemma evolves_complete:
  assumes inv: "queue_inv q"
  shows "evolves q (snd (complete_work lid w now q))"
  using inv
proof (cases rule: complete_cases [of q lid w now])
  case (completed k i l)
  have "item_progress i (completed_item now i)"
    using completed(2,4,7) by (rule item_progress.completed)
  then show ?thesis using evolves_put [OF completed(1)] completed(3,8) by (simp add: item_ok_id)
qed auto

lemma evolves_fail:
  assumes inv: "queue_inv q"
  shows "evolves q (snd (fail_work lid w r b now q))"
  using inv
proof (cases rule: fail_work_cases [of q lid w now r b])
  case (failed k i l)
  have "item_progress i (failed_item r b now i)"
    using failed(2,4,7) by (rule item_progress.failed)
  then show ?thesis using evolves_put [OF failed(1)] failed(3,9) by (simp add: item_ok_id)
qed auto

lemma evolves_cancel:
  assumes inv: "queue_inv q"
  shows "evolves q (snd (cancel_work k r now q))"
  using inv
proof (cases rule: cancel_work_cases [of q k r now])
  case (cancelled i)
  have "item_progress i (cancelled_item r now i)"
    using cancelled(2) by (rule item_progress.cancelled)
  then show ?thesis using evolves_put [OF cancelled(1)] cancelled(3,4) by (simp add: item_ok_id)
qed simp

definition no_prune :: "queue_event set" where
  "no_prune = {e. \<not> is_Prune e}"

lemma evolves_step:
  "queue_inv q \<Longrightarrow> \<not> is_Prune e \<Longrightarrow> \<not> is_Enqueue e \<Longrightarrow> evolves q (queue_step q e)"
  by (cases e) (auto simp: evolves_lease evolves_heartbeat
    evolves_complete evolves_fail evolves_cancel expire_eq)

lemma progresses_step:
  assumes "queue_inv q" and "e \<in> no_prune"
  shows "progresses q (queue_step q e)"
proof (cases "is_Enqueue e")
  case True
  then show ?thesis by (cases e) (simp_all add: progresses_enqueue)
next
  case False
  with assms show ?thesis using evolves_step [of q e] by (simp add: evolves_def no_prune_def)
qed

lemma progresses_run: "queue_inv q \<Longrightarrow> set es \<subseteq> no_prune \<Longrightarrow> progresses q (run_events queue_step q es)"
proof (induction es arbitrary: q)
  case (Cons e es)
  then have "progresses q (queue_step q e)"
    and "progresses (queue_step q e) (run_events queue_step (queue_step q e) es)"
    by (simp_all add: progresses_step queue_inv_step)
  then show ?case by (simp add: progresses_trans)
qed simp

subsection \<open>Refinement\<close>

lemma prune_lookup:
  assumes inv: "queue_inv q"
  shows "map_of (wq_items (snd (prune_terminal before q))) k =
    (case map_of (wq_items q) k of None \<Rightarrow> None
     | Some i \<Rightarrow> if is_prunable_terminal before i then None else Some i)"
proof -
  let ?p = "filter (is_prunable_terminal before) (dict_values (wq_items q))"
  have upd: "map_of (wq_items (snd (prune_terminal before q))) k =
      (if k \<in> wi_work_item_id ` set ?p then None else map_of (wq_items q) k)"
    by (simp add: prune_terminal_def Let_def prune_loop_lookup)
  have mem: "k \<in> wi_work_item_id ` set ?p \<longleftrightarrow>
      (\<exists>i. map_of (wq_items q) k = Some i \<and> is_prunable_terminal before i)"
  proof
    assume "k \<in> wi_work_item_id ` set ?p"
    then obtain k0 i where i: "(k0, i) \<in> set (wq_items q)" "is_prunable_terminal before i"
        "wi_work_item_id i = k" by auto
    then have k0: "map_of (wq_items q) k0 = Some i" using queue_inv_wf(1) [OF inv] by simp
    then have "k0 = k" using i item_ok_id [OF queue_inv_item [OF inv k0]] by simp
    with k0 i show "\<exists>i. map_of (wq_items q) k = Some i \<and> is_prunable_terminal before i" by blast
  next
    assume "\<exists>i. map_of (wq_items q) k = Some i \<and> is_prunable_terminal before i"
    then obtain i where i: "map_of (wq_items q) k = Some i" "is_prunable_terminal before i" by blast
    then have "wi_work_item_id i = k" "i \<in> snd ` set (wq_items q)"
      using item_ok_id [OF queue_inv_item [OF inv i(1)]] map_of_SomeD [OF i(1)] by force+
    with i show "k \<in> wi_work_item_id ` set ?p" by auto
  qed
  show ?thesis unfolding upd mem by (auto split: option.splits)
qed

lemma life_enqueue:
  assumes absent: "map_of (wq_items q) k = None"
  shows "item_life\<^sup>*\<^sup>* None (map_of (wq_items (snd (enqueue a clk q))) k)"
proof (cases rule: enqueue_cases [of a q clk])
  case (created k' q1)
  then have "wq_items q1 = wq_items q" by auto
  moreover have "wi_work_item_id (new_work_item a clk k') = k'" by (simp add: new_work_item_def)
  ultimately show ?thesis
    using created absent by (auto simp: put_item_def map_of_update intro: item_life.created)
qed (use absent in auto)


definition sample_args :: enqueue_args where
  "sample_args = (enqueue_defaults ''task'')\<lparr>eq_work_item_id := Some ''w'',
     eq_idempotency_key := Some ''key''\<rparr>"

definition sample_queue :: work_queue where
  "sample_queue = run_events queue_step empty_queue [Enqueue sample_args 0, Lease ''A'' 30 0 None]"

lemma sample_queue_inv: "queue_inv sample_queue"
  unfolding sample_queue_def by (rule wq.inv_run_init)


end
