(* ===== verification/Queue_Safety.thy ===== *)
theory Queue_Safety
  imports Queue_Life
begin

text \<open>
  The safety properties of the work queue, over runs of its operations: what progress keeps
  of an item, fencing tokens, lost leases, terminal items, the bound on grants, idempotent
  submission, and the order in which items are leased.
\<close>

subsection \<open>What progress keeps\<close>

lemma progress_same:
  assumes "item_progress i j"
  shows "wi_work_item_id j = wi_work_item_id i" and "wi_max_attempts j = wi_max_attempts i"
    and "wi_idempotency_key j = wi_idempotency_key i" and "wi_kind j = wi_kind i"
    and "wi_payload j = wi_payload i" and "wi_priority j = wi_priority i"
    and "wi_attempts i \<le> wi_attempts j" and "\<not> is_terminal i"
  using assms
  by (cases rule: item_progress.cases;
      simp add: granted_item_def completed_item_def failed_item_def cancelled_item_def
        expired_item_def)+

lemma progresses_same:
  assumes "item_progress\<^sup>*\<^sup>* i j"
  shows "wi_work_item_id j = wi_work_item_id i \<and> wi_max_attempts j = wi_max_attempts i
    \<and> wi_idempotency_key j = wi_idempotency_key i \<and> wi_attempts i \<le> wi_attempts j"
  using assms
proof (induction rule: rtranclp.induct)
  case (rtrancl_into_rtrancl i j k)
  then show ?case using progress_same [of j k] by auto
qed simp

lemma terminal_progress: "item_progress\<^sup>*\<^sup>* i j \<Longrightarrow> is_terminal i \<Longrightarrow> j = i"
  by (metis converse_rtranclpE progress_same(8))

text \<open>A lease number of an item that is used up: passed, or current and no longer held.\<close>

definition lease_dead :: "nat \<Rightarrow> work_item \<Rightarrow> bool" where
  "lease_dead n i \<longleftrightarrow> int n \<le> wi_attempts i \<and> \<not> holds_lease (lease_name (wi_work_item_id i) n) i"

lemma progress_lease_dead:
  assumes "item_progress i j" and "lease_dead n i"
  shows "lease_dead n j"
  using assms
  by (cases rule: item_progress.cases)
    (auto simp: lease_dead_def holds_lease_def granted_item_def granted_lease_def next_lease_id_def
      lease_name_inject renewed_lease_def completed_item_def failed_item_def cancelled_item_def
      expired_item_def split: option.splits)

lemma progresses_lease_dead: "item_progress\<^sup>*\<^sup>* i j \<Longrightarrow> lease_dead n i \<Longrightarrow> lease_dead n j"
  by (induction rule: rtranclp.induct) (auto intro: progress_lease_dead)

lemma run_item:
  assumes "queue_inv q" and "set es \<subseteq> no_prune" and "map_of (wq_items q) k = Some i"
  obtains j where "map_of (wq_items (run_events queue_step q es)) k = Some j"
    and "item_progress\<^sup>*\<^sup>* i j"
  using progresses_run [OF assms(1,2)] assms(3) by (auto simp: progresses_def)

text \<open>
  How often a run removes the item \<open>k\<close>, which only \<open>prune_terminal\<close> does; an item that no step removes
  progresses all along the run, whatever else is pruned.
\<close>

definition removes_item :: "string \<Rightarrow> work_queue \<Rightarrow> queue_event \<Rightarrow> nat" where
  "removes_item k q e =
     (if map_of (wq_items q) k \<noteq> None \<and> map_of (wq_items (queue_step q e)) k = None then 1 else 0)"

fun removals :: "string \<Rightarrow> work_queue \<Rightarrow> queue_event list \<Rightarrow> nat" where
  "removals k q [] = 0"
| "removals k q (e # es) = removes_item k q e + removals k (queue_step q e) es"

lemma kept_step:
  assumes inv: "queue_inv q" and i: "map_of (wq_items q) k = Some i" and kept: "removes_item k q e = 0"
  obtains j where "map_of (wq_items (queue_step q e)) k = Some j" and "item_progress\<^sup>*\<^sup>* i j"
proof (cases "is_Prune e")
  case True
  then have "map_of (wq_items (queue_step q e)) k = Some i"
    using i kept by (cases e) (auto simp: removes_item_def prune_lookup [OF inv] split: if_splits)
  then show ?thesis using that by blast
next
  case False
  then show ?thesis using progresses_step [OF inv, of e] i that
    by (auto simp: no_prune_def progresses_def)
qed

lemma kept_run:
  assumes "queue_inv q" and "map_of (wq_items q) k = Some i" and "removals k q es = 0"
  shows "\<exists>j. map_of (wq_items (run_events queue_step q es)) k = Some j \<and> item_progress\<^sup>*\<^sup>* i j"
  using assms
proof (induction es arbitrary: q i)
  case (Cons e es)
  from Cons.prems obtain j where j: "map_of (wq_items (queue_step q e)) k = Some j" "item_progress\<^sup>*\<^sup>* i j"
    by (auto elim: kept_step)
  then show ?case using Cons.IH [OF queue_inv_step [OF Cons.prems(1)] j(1)] Cons.prems(3)
    by (auto intro: rtranclp_trans)
qed simp

text \<open>The token of the lease that an item carries.\<close>

definition token_of :: "work_item \<Rightarrow> int" where
  "token_of i = (case wi_lease i of None \<Rightarrow> 0 | Some l \<Rightarrow> wl_fencing_token l)"

lemma lease_result:
  assumes inv: "queue_inv q" and res: "lease w ttl now ks q = (Inr j, q')"
  obtains i where "map_of (wq_items q) (wi_work_item_id j) = Some i"
    and "map_of (wq_items q') (wi_work_item_id j) = Some j"
    and "wi_attempts j = wi_attempts i + 1" and "token_of j = wi_attempts j"
    and "wi_status j = WLeased" and "holds_lease (lease_name (wi_work_item_id j) (nat (wi_attempts j))) j"
  using inv
proof (cases rule: lease_cases [of q ks now ttl w])
  case (granted k i kinds)
  let ?l = "granted_lease w ttl now i"
  have k: "wi_work_item_id i = k" using granted(4) by (rule item_ok_id)
  have j: "j = granted_item ?l i" and q': "q' = grant ?l i (sweep_queue now q)"
    using granted(7) res by simp_all
  obtain i0 where i0: "map_of (wq_items q) k = Some i0" "i = sweep_item now i0"
    using granted(2) by (auto simp: sweep_queue_lookup)
  show ?thesis
  proof (rule that)
    show "map_of (wq_items q) (wi_work_item_id j) = Some i0" using i0(1) j k by simp
    show "map_of (wq_items q') (wi_work_item_id j) = Some j"
      using j k by (simp add: q' grant_def map_of_update)
    show "wi_attempts j = wi_attempts i0 + 1" by (simp add: j i0(2) granted_item_def)
    show "token_of j = wi_attempts j" "wi_status j = WLeased"
      "holds_lease (lease_name (wi_work_item_id j) (nat (wi_attempts j))) j"
      by (simp_all add: j token_of_def granted_item_def granted_lease_def holds_lease_def
        next_lease_id_def)
  qed
qed (use res in auto)

lemma lease_inv: "queue_inv q \<Longrightarrow> lease w ttl now ks q = (r, q') \<Longrightarrow> queue_inv q'"
  using queue_inv_lease [of q w ttl now ks] by simp

subsection \<open>Fencing tokens\<close>


text \<open>A queue with one item, leased by worker A, whose lease then lapses and is granted to B.\<close>

definition queue_a :: work_queue where
  "queue_a = snd (enqueue sample_args 0 empty_queue)"

definition queue_b :: work_queue where
  "queue_b = snd (lease ''A'' 30 0 None queue_a)"

definition queue_c :: work_queue where
  "queue_c = run_events queue_step queue_b [Expire 40000000]"

lemma queue_a_inv: "queue_inv queue_a"
  unfolding queue_a_def by (rule queue_inv_enqueue [OF queue_inv_empty])

lemma queue_b_inv: "queue_inv queue_b"
  unfolding queue_b_def by (rule queue_inv_lease [OF queue_a_inv])

lemma queue_c_inv: "queue_inv queue_c"
  unfolding queue_c_def by (rule wq.inv_run [OF queue_b_inv])


subsection \<open>Lost leases\<close>

lemma dead_lease_not_found:
  assumes inv: "queue_inv q" and i: "map_of (wq_items q) k = Some i" and dead: "lease_dead n i"
  shows "leased_item (lease_name k n) w now q =
    (Inl (LeaseLost (''lease not found: '' @ lease_name k n)), q)"
proof -
  have "find (holds_lease (lease_name k n)) (dict_values (wq_items q)) = None"
  proof (rule ccontr)
    assume "find (holds_lease (lease_name k n)) (dict_values (wq_items q)) \<noteq> None"
    then obtain j where "find (holds_lease (lease_name k n)) (dict_values (wq_items q)) = Some j"
      by auto
    from find_dict_value [OF queue_inv_wf(1) [OF inv] this]
    obtain k' where k': "map_of (wq_items q) k' = Some j" and h: "holds_lease (lease_name k n) j"
      by blast
    have ok: "item_ok (wq_fencing_sequences q) k' j" using inv k' by (rule queue_inv_item)
    with h have "k' = k" and "nat (wi_attempts j) = n"
      by (auto simp: holds_lease_def item_ok_def lease_name_inject split: option.splits)
    with k' i dead h item_ok_id [OF ok] show False by (simp add: lease_dead_def)
  qed
  then show ?thesis by (simp add: leased_item_def)
qed

lemma dead_lease_refused:
  assumes inv: "queue_inv q" and i: "map_of (wq_items q) k = Some i" and dead: "lease_dead n i"
    and es: "removals k q es = 0"
  defines "q' \<equiv> run_events queue_step q es"
  shows "leased_item (lease_name k n) w now q' = (Inl (LeaseLost (''lease not found: '' @ lease_name k n)), q')"
proof -
  obtain j where j: "map_of (wq_items q') k = Some j" "item_progress\<^sup>*\<^sup>* i j"
    unfolding q'_def using kept_run [OF inv i es] by blast
  have "queue_inv q'" unfolding q'_def using inv by (rule wq.inv_run)
  then show ?thesis using j(1) progresses_lease_dead [OF j(2) dead] by (rule dead_lease_not_found)
qed


definition item_c :: work_item where
  "item_c = the (map_of (wq_items queue_c) ''w'')"


text \<open>At most one holder: in every reachable queue, two leased items with the same lease id
  are the same item, so a lease id names one item and one attempt at it.\<close>

theorem lease_id_names_one_item:
  assumes "reachable_from queue_step empty_queue q"
    and "map_of (wq_items q) k = Some i" and "holds_lease lid i"
    and "map_of (wq_items q) k' = Some j" and "holds_lease lid j"
  shows "k = k' \<and> i = j"
proof -
  have inv: "queue_inv q" using assms(1) by (rule wq.inv_reachable)
  have "lid = lease_name k (nat (wi_attempts i))" "lid = lease_name k' (nat (wi_attempts j))"
    using queue_inv_item [OF inv assms(2)] queue_inv_item [OF inv assms(4)] assms(3,5)
    by (auto simp: holds_lease_def item_ok_def split: option.splits)
  then show ?thesis using assms(2,4) by (simp add: lease_name_inject)
qed

theorem lease_id_names_one_item_witness:
  "{k. \<exists>j. map_of (wq_items sample_queue) k = Some j \<and> holds_lease ''lease-w-1'' j} = {''w''}"
proof -
  have 1: "reachable_from queue_step empty_queue sample_queue"
    unfolding sample_queue_def by (intro reachable_run reachable_from.start)
  have 2: "map_of (wq_items sample_queue) ''w'' = Some (the (map_of (wq_items sample_queue) ''w''))"
    by (rule some_the) code_simp
  have 3: "holds_lease ''lease-w-1'' (the (map_of (wq_items sample_queue) ''w''))" by code_simp
  show ?thesis using 2 3 lease_id_names_one_item [OF 1 _ _ 2 3] by blast
qed

subsection \<open>Terminal items\<close>

text \<open>A terminal item is final: no operation changes a completed, failed or cancelled item,
  and only a prune whose cut-off covers it removes it.\<close>

theorem terminal_item_is_final:
  assumes inv: "queue_inv q" and i: "map_of (wq_items q) k = Some i" and t: "is_terminal i"
  shows "map_of (wq_items (queue_step q e)) k = Some i
    \<or> (\<exists>b. e = Prune b \<and> is_prunable_terminal b i \<and> map_of (wq_items (queue_step q e)) k = None)"
proof (cases "is_Prune e")
  case True
  then show ?thesis using i by (cases e) (simp_all add: prune_lookup [OF inv])
next
  case False
  then have "progresses q (queue_step q e)" by (intro progresses_step [OF inv]) (simp add: no_prune_def)
  then show ?thesis using i terminal_progress [OF _ t] unfolding progresses_def by metis
qed

definition queue_d :: work_queue where
  "queue_d = snd (complete_work ''lease-w-1'' ''A'' 7 queue_b)"

theorem terminal_item_is_final_witness:
  "is_terminal (the (map_of (wq_items queue_d) ''w'')) \<and>
   map_of (wq_items (queue_step queue_d (Cancel ''w'' ''late'' 9))) ''w'' = map_of (wq_items queue_d) ''w''"
proof -
  have 1: "map_of (wq_items queue_d) ''w'' = Some (the (map_of (wq_items queue_d) ''w''))"
    by (rule some_the) code_simp
  have 2: "is_terminal (the (map_of (wq_items queue_d) ''w''))" by code_simp
  have 3: "queue_inv queue_d" unfolding queue_d_def by (rule queue_inv_complete [OF queue_b_inv])
  show ?thesis using 2 1 terminal_item_is_final [OF 3 1 2, of "Cancel ''w'' ''late'' 9"] by auto
qed

subsection \<open>Completions\<close>

text \<open>How often a run completes the item \<open>k\<close>: the \<open>complete\<close> operations that answer with it.\<close>

definition completes_item :: "string \<Rightarrow> work_queue \<Rightarrow> queue_event \<Rightarrow> nat" where
  "completes_item k q e = (case e of
     Complete lid w now \<Rightarrow> (case fst (complete_work lid w now q) of
       Inr j \<Rightarrow> if wi_work_item_id j = k then 1 else 0 | Inl _ \<Rightarrow> 0)
   | _ \<Rightarrow> 0)"

fun completions :: "string \<Rightarrow> work_queue \<Rightarrow> queue_event list \<Rightarrow> nat" where
  "completions k q [] = 0"
| "completions k q (e # es) = completes_item k q e + completions k (queue_step q e) es"

text \<open>How often the stored item can still be completed.\<close>

definition to_complete :: "string \<Rightarrow> work_queue \<Rightarrow> nat" where
  "to_complete k q = (case map_of (wq_items q) k of None \<Rightarrow> 1 | Some i \<Rightarrow> if is_terminal i then 0 else 1)"

lemma completes_live:
  assumes inv: "queue_inv q" and c: "completes_item k q e \<noteq> 0"
  shows "completes_item k q e = 1 \<and> to_complete k q = 1 \<and> to_complete k (queue_step q e) = 0"
proof -
  obtain lid w now where e: "e = Complete lid w now"
    using c by (cases e) (auto simp: completes_item_def)
  from inv show ?thesis
  proof (cases rule: complete_cases [of q lid w now])
    case (completed k' i l)
    have "wi_work_item_id (completed_item now i) = k'"
      using item_ok_id [OF completed(3)] by (simp add: completed_item_def)
    moreover from this have "k' = k" using c completed(8) by (simp add: e completes_item_def split: if_splits)
    moreover have "\<not> is_terminal i" "is_terminal (completed_item now i)"
      using completed(2) by (simp_all add: completed_item_def is_terminal_def)
    ultimately show ?thesis using completed(1,8)
      by (simp add: e completes_item_def to_complete_def put_item_def map_of_update)
  qed (use c in \<open>auto simp: e completes_item_def\<close>)
qed

lemma completion_step:
  assumes inv: "queue_inv q"
  shows "completes_item k q e + to_complete k (queue_step q e) \<le> to_complete k q + removes_item k q e"
proof (cases "completes_item k q e = 0")
  case False
  then show ?thesis using completes_live [OF inv False] by simp
next
  case True
  show ?thesis
  proof (cases "\<exists>i. map_of (wq_items q) k = Some i \<and> is_terminal i")
    case ended: True
    then show ?thesis using True terminal_item_is_final [OF inv, of k _ e]
      by (auto simp: to_complete_def removes_item_def)
  next
    case False
    then have "to_complete k q = 1" by (auto simp: to_complete_def split: option.splits)
    then show ?thesis using True by (simp add: to_complete_def split: option.splits)
  qed
qed

text \<open>C1. A work item is completed at most once each time it is submitted. Over any run of operations,
  by any workers under any leases, the successful \<open>complete\<close> operations on an id number at most one more than
  the times \<open>prune_terminal\<close> removes the ended item (after which its id may be submitted afresh), and one
  less if the item has already ended at the start. While the item is not pruned it is completed at most
  once, and never after it has failed or been cancelled.\<close>

theorem completed_at_most_once:
  assumes "queue_inv q"
  shows "completions k q es \<le> removals k q es
    + (case map_of (wq_items q) k of None \<Rightarrow> 1 | Some i \<Rightarrow> if is_terminal i then 0 else 1)"
proof -
  have "completions k q es \<le> removals k q es + to_complete k q"
    using assms
  proof (induction es arbitrary: q)
    case (Cons e es)
    then show ?case using Cons.IH [OF queue_inv_step [OF Cons.prems], of e] completion_step [OF Cons.prems, of k e]
      by simp
  qed simp
  then show ?thesis by (simp add: to_complete_def)
qed

theorem completed_at_most_once_witness:
  "let es = [Complete ''lease-w-1'' ''A'' 7, Complete ''lease-w-1'' ''A'' 8, Lease ''B'' 30 9 None,
       Complete ''lease-w-2'' ''B'' 10]
   in completions ''w'' queue_b es = 1 \<and> removals ''w'' queue_b es = 0 \<and> completions ''w'' queue_b es \<le> 1"
proof -
  let ?es = "[Complete ''lease-w-1'' ''A'' 7, Complete ''lease-w-1'' ''A'' 8, Lease ''B'' 30 9 None,
       Complete ''lease-w-2'' ''B'' 10]"
  have 1: "completions ''w'' queue_b ?es = 1" by code_simp
  have 2: "removals ''w'' queue_b ?es = 0" by code_simp
  have "completions ''w'' queue_b ?es \<le> 1"
    using completed_at_most_once [OF queue_b_inv, of "''w''" ?es] 2 by (auto split: option.splits if_splits)
  with 1 2 show ?thesis by (simp add: Let_def)
qed

subsection \<open>Bounded attempts\<close>

text \<open>How often a run leases the item \<open>k\<close>.\<close>

definition grants_item :: "string \<Rightarrow> work_queue \<Rightarrow> queue_event \<Rightarrow> nat" where
  "grants_item k q e = (case e of
     Lease w ttl now ks \<Rightarrow> (case fst (lease w ttl now ks q) of
       Inr j \<Rightarrow> if wi_work_item_id j = k then 1 else 0 | Inl _ \<Rightarrow> 0)
   | _ \<Rightarrow> 0)"

fun grants :: "string \<Rightarrow> work_queue \<Rightarrow> queue_event list \<Rightarrow> nat" where
  "grants k q [] = 0"
| "grants k q (e # es) = grants_item k q e + grants k (queue_step q e) es"

lemma step_attempts:
  assumes inv: "queue_inv q" and e: "removes_item k q e = 0" and i: "map_of (wq_items q) k = Some i"
  obtains j where "map_of (wq_items (queue_step q e)) k = Some j"
    and "wi_attempts i + int (grants_item k q e) \<le> wi_attempts j"
    and "wi_max_attempts j = wi_max_attempts i"
proof -
  obtain j where j: "map_of (wq_items (queue_step q e)) k = Some j" "item_progress\<^sup>*\<^sup>* i j"
    using inv i e by (rule kept_step)
  have "wi_attempts i + int (grants_item k q e) \<le> wi_attempts j"
  proof (cases "grants_item k q e = 0")
    case True
    then show ?thesis using progresses_same [OF j(2)] by simp
  next
    case False
    then obtain w ttl now ks j' where e': "e = Lease w ttl now ks"
        and r: "lease w ttl now ks q = (Inr j', queue_step q e)"
        and k: "wi_work_item_id j' = k" "grants_item k q e = 1"
      by (cases e; cases "fst (lease (case e of Lease w _ _ _ \<Rightarrow> w) (case e of Lease _ t _ _ \<Rightarrow> t)
          (case e of Lease _ _ n _ \<Rightarrow> n) (case e of Lease _ _ _ s \<Rightarrow> s) q)")
        (auto simp: grants_item_def prod_eq_iff split: if_splits)
    from inv r obtain i' where "map_of (wq_items q) k = Some i'"
        and "map_of (wq_items (queue_step q e)) k = Some j'" and "wi_attempts j' = wi_attempts i' + 1"
      by (rule lease_result) (auto simp: k)
    with i j k show ?thesis by simp
  qed
  then show ?thesis using that [OF j(1)] progresses_same [OF j(2)] by simp
qed

text \<open>C6. Attempts are bounded: over any run that does not prune this very item, it is granted at most as
  many times as it has attempts left, so at most \<open>max_attempts\<close> times from its submission on. An item whose
  workers keep crashing is not retried for ever. (An ended item that is pruned may be submitted again under
  its id, with fresh attempts.)\<close>

theorem grants_bounded:
  assumes "queue_inv q" and "removals k q es = 0" and "map_of (wq_items q) k = Some i"
  shows "wi_attempts i + int (grants k q es) \<le> wi_max_attempts i"
  using assms
proof (induction es arbitrary: q i)
  case Nil
  then show ?case using queue_inv_item [OF Nil(1,3)] by (simp add: item_ok_def work_item_problem_None)
next
  case (Cons e es)
  obtain j where j: "map_of (wq_items (queue_step q e)) k = Some j"
      "wi_attempts i + int (grants_item k q e) \<le> wi_attempts j" "wi_max_attempts j = wi_max_attempts i"
    using step_attempts [OF Cons.prems(1) _ Cons.prems(3)] Cons.prems(2) by auto
  have "wi_attempts j + int (grants k (queue_step q e) es) \<le> wi_max_attempts j"
    using Cons.prems j(1) by (intro Cons.IH) (simp_all add: queue_inv_step)
  with j show ?case by simp
qed

definition retry_run :: "queue_event list" where
  "retry_run = [Lease ''A'' 30 0 None, Expire 40000000, Lease ''A'' 30 40000000 None,
     Expire 80000000, Lease ''A'' 30 80000000 None, Expire 120000000, Lease ''A'' 30 120000000 None]"

theorem grants_bounded_witness:
  "grants ''w'' queue_a retry_run = 3 \<and>
   wi_attempts (the (map_of (wq_items queue_a) ''w'')) + int (grants ''w'' queue_a retry_run)
     \<le> wi_max_attempts (the (map_of (wq_items queue_a) ''w''))"
proof -
  have 1: "removals ''w'' queue_a retry_run = 0" by code_simp
  have 2: "map_of (wq_items queue_a) ''w'' = Some (the (map_of (wq_items queue_a) ''w''))"
    by (rule some_the) code_simp
  have 3: "grants ''w'' queue_a retry_run = 3" by code_simp
  show ?thesis using 3 grants_bounded [OF queue_a_inv 1 2] by simp
qed

subsection \<open>Which item is leased\<close>

text \<open>\<open>lease\<close> is exact: with a positive time to live and no blank accepted kind, it first
  sweeps; then, if some queued item is available now and of an accepted kind, it grants one
  with the least key (highest priority, then earliest availability, then least id) to the
  caller, until \<open>now + ttl\<close>; otherwise it raises \<open>NoWorkAvailable\<close>, and only then.\<close>

theorem lease_grants_first_in_order:
  assumes inv: "queue_inv q" and ttl: "0 < ttl" and kinds: "normalize_accepted_kinds ks = Inr kinds"
  shows "let q0 = snd (expire now q) in case lease w ttl now ks q of
      (Inr j, q') \<Rightarrow> (\<exists>i. map_of (wq_items q0) (wi_work_item_id j) = Some i \<and> leaseable now kinds i
        \<and> (\<forall>k i'. map_of (wq_items q0) k = Some i' \<longrightarrow> leaseable now kinds i' \<longrightarrow>
             item_sort_key i \<le> item_sort_key i')
        \<and> j = granted_item (granted_lease w ttl now i) i
        \<and> map_of (wq_items q') (wi_work_item_id j) = Some j)
    | (Inl e, q') \<Rightarrow> e = NoWorkAvailable ''no work available'' \<and> q' = q0
        \<and> (\<forall>k i. map_of (wq_items q0) k = Some i \<longrightarrow> \<not> leaseable now kinds i)"
proof -
  have q0: "snd (expire now q) = sweep_queue now q" by (simp add: expire_eq [OF inv])
  from inv show ?thesis
  proof (cases rule: lease_cases [of q ks now ttl w])
    case (granted k i kinds')
    then have k: "wi_work_item_id i = k" and kk: "kinds' = kinds" using kinds
      by (simp_all add: item_ok_id)
    show ?thesis unfolding granted(7) q0 Let_def
      using granted(2,3,6) by (auto simp: k kk grant_def map_of_update)
  next
    case (no_work kinds')
    with kinds show ?thesis by (simp add: q0 no_work(3))
  next
    case (rejected m q')
    have "fst (lease w ttl now ks q) \<noteq> Inl (ValueErr m)"
    proof (cases "next_leaseable now kinds (sweep_queue now q)")
      case None
      then show ?thesis by (simp add: lease_def kinds expire_eq [OF inv])
    next
      case (Some i)
      obtain k where k: "map_of (wq_items (sweep_queue now q)) k = Some i" and l: "leaseable now kinds i"
        using next_leaseable_Some [OF queue_inv_wf(1) [OF queue_inv_sweep [OF inv]] Some] by blast
      then show ?thesis
        using lease_item_eq [OF queue_inv_item [OF queue_inv_sweep [OF inv] k] _ ttl]
        by (simp add: lease_def kinds expire_eq [OF inv] Some leaseable_def)
    qed
    with rejected show ?thesis by simp
  qed
qed

theorem lease_grants_first_in_order_witness:
  "fst (lease ''B'' 30 50000000 (Some [''other'']) queue_c) = Inl (NoWorkAvailable ''no work available'')
   \<and> (\<exists>i. map_of (wq_items (snd (expire 50000000 queue_c))) ''w'' = Some i \<and> leaseable 50000000 None i)"
proof -
  have 1: "normalize_accepted_kinds None = Inr None" by code_simp
  have 2: "lease ''B'' 30 50000000 None queue_c = (Inr (value_of (lease ''B'' 30 50000000 None queue_c)),
      snd (lease ''B'' 30 50000000 None queue_c))"
    by (rule outcome_ok) code_simp
  have "wi_work_item_id (value_of (lease ''B'' 30 50000000 None queue_c)) = ''w''" by code_simp
  with 2 obtain j q' where j: "lease ''B'' 30 50000000 None queue_c = (Inr j, q')"
      "wi_work_item_id j = ''w''" by blast
  have 3: "fst (lease ''B'' 30 50000000 (Some [''other'']) queue_c) = Inl (NoWorkAvailable ''no work available'')"
    by code_simp
  show ?thesis using 3 lease_grants_first_in_order [OF queue_c_inv _ 1, of 30 50000000 "''B''"]
    by (auto simp: j Let_def)
qed

end
