(* ===== verification/Queue_Submit.thy ===== *)
theory Queue_Submit
  imports Queue_Safety
begin

text \<open>
  Submission, holding, sweeping and pruning: idempotent \<open>enqueue\<close>, exactly when the holder's
  operations succeed, what \<open>expire\<close> and \<open>prune_terminal\<close> change, and what a pruned id means
  for fencing.
\<close>

subsection \<open>Idempotent submission\<close>

lemma find_live_key:
  assumes inv: "queue_inv q" and i: "map_of (wq_items q) k = Some i"
    and key: "wi_idempotency_key i = Some key" and live: "\<not> is_terminal i"
  shows "find_idempotent key q = Some i"
proof (cases "find_idempotent key q")
  case None
  moreover have "i \<in> snd ` set (wq_items q)" using map_of_SomeD [OF i] by force
  ultimately show ?thesis using key live by (auto simp: find_idempotent_def find_None_iff)
next
  case (Some j)
  from find_dict_value [OF queue_inv_wf(1) [OF inv] Some [unfolded find_idempotent_def]]
  obtain k' where k': "map_of (wq_items q) k' = Some j" "wi_idempotency_key j = Some key" "\<not> is_terminal j"
    by blast
  moreover have "keys_unique q" using inv by (simp add: queue_inv_def)
  ultimately have "k' = k" unfolding keys_unique_def using i key live by blast
  with k' i Some show ?thesis by simp
qed

lemma enqueue_key:
  assumes inv: "queue_inv q" and res: "enqueue a clk q = (Inr i, q1)"
    and key: "eq_idempotency_key a = Some key"
  shows "map_of (wq_items q1) (wi_work_item_id i) = Some i \<and> wi_idempotency_key i = Some key"
proof (cases rule: enqueue_cases [of a q clk])
  case (existing i' key' k)
  then have "map_of (wq_items q) k = Some i'" using queue_inv_wf(1) [OF inv] by blast
  with existing key res show ?thesis using queue_inv_item [OF inv, of k i'] by (auto simp: item_ok_def)
next
  case (created k q')
  have "wi_work_item_id (new_work_item a clk k) = k" "wi_idempotency_key (new_work_item a clk k) = Some key"
    by (simp_all add: new_work_item_def key)
  with created res show ?thesis by (auto simp: put_item_def map_of_update)
qed (use res in auto)

text \<open>Submission with an idempotency key is idempotent: once an item was accepted under a
  key, then after any run of other operations without pruning, submitting under the same key
  again returns the item as it is now and leaves the queue unchanged, as long as the item has
  not ended, whatever else the second submission asks for.\<close>

theorem enqueue_idempotent:
  assumes inv: "queue_inv q" and res: "enqueue a clk q = (Inr i, q1)"
    and key: "eq_idempotency_key a = Some key" "eq_idempotency_key b = Some key"
    and es: "set es \<subseteq> no_prune"
  shows "\<exists>j. map_of (wq_items (run_events queue_step q1 es)) (wi_work_item_id i) = Some j
    \<and> (is_terminal j \<or> enqueue b clk' (run_events queue_step q1 es) = (Inr j, run_events queue_step q1 es))"
proof -
  let ?q = "run_events queue_step q1 es"
  have inv1: "queue_inv q1" using queue_inv_enqueue [OF inv, of a clk] res by simp
  have i: "map_of (wq_items q1) (wi_work_item_id i) = Some i" "wi_idempotency_key i = Some key"
    using enqueue_key [OF inv res key(1)] by simp_all
  obtain j where j: "map_of (wq_items ?q) (wi_work_item_id i) = Some j" "item_progress\<^sup>*\<^sup>* i j"
    using inv1 es i(1) by (rule run_item)
  have "wi_idempotency_key j = Some key" using progresses_same [OF j(2)] i(2) by simp
  then have "is_terminal j \<or> find_idempotent key ?q = Some j"
    using find_live_key [OF wq.inv_run [OF inv1] j(1)] by blast
  with j(1) key(2) show ?thesis by (auto simp: enqueue_def)
qed

theorem enqueue_idempotent_witness:
  "wi_status (value_of (enqueue (sample_args\<lparr>eq_work_item_id := Some ''other''\<rparr>) 9 queue_b)) = WLeased \<and>
   (\<exists>j. map_of (wq_items (run_events queue_step queue_a [Lease ''A'' 30 0 None])) ''w'' = Some j
      \<and> (is_terminal j \<or>
         enqueue (sample_args\<lparr>eq_work_item_id := Some ''other''\<rparr>) 9
             (run_events queue_step queue_a [Lease ''A'' 30 0 None])
           = (Inr j, run_events queue_step queue_a [Lease ''A'' 30 0 None])))"
proof -
  have 1: "enqueue sample_args 0 empty_queue = (Inr (value_of (enqueue sample_args 0 empty_queue)), queue_a)"
    unfolding queue_a_def by (rule outcome_ok) code_simp
  have 2: "eq_idempotency_key sample_args = Some ''key''"
    "eq_idempotency_key (sample_args\<lparr>eq_work_item_id := Some ''other''\<rparr>) = Some ''key''" by code_simp+
  have 3: "wi_work_item_id (value_of (enqueue sample_args 0 empty_queue)) = ''w''" by code_simp
  have 4: "set [Lease ''A'' 30 0 None] \<subseteq> no_prune" by (simp add: no_prune_def)
  have 5: "wi_status (value_of (enqueue (sample_args\<lparr>eq_work_item_id := Some ''other''\<rparr>) 9 queue_b)) = WLeased"
    by code_simp
  show ?thesis using 5 enqueue_idempotent [OF queue_inv_empty 1 2 4, of 9] unfolding 3 by blast
qed

subsection \<open>Exactly the live holder\<close>

definition live_holder :: "string \<Rightarrow> string \<Rightarrow> time \<Rightarrow> work_queue \<Rightarrow> work_item \<Rightarrow> bool" where
  "live_holder lid w now q i \<longleftrightarrow> (\<exists>k l. map_of (wq_items q) k = Some i \<and> wi_status i = WLeased
     \<and> wi_lease i = Some l \<and> wl_lease_id l = lid \<and> wl_worker_id l = w \<and> now < wl_lease_expires_at l)"

lemma holder_unique:
  assumes inv: "queue_inv q" and "map_of (wq_items q) k = Some i" "holds_lease lid i"
    and "map_of (wq_items q) k' = Some j" "holds_lease lid j"
  shows "j = i"
proof -
  have "lid = lease_name k (nat (wi_attempts i))" "lid = lease_name k' (nat (wi_attempts j))"
    using queue_inv_item [OF inv assms(2)] queue_inv_item [OF inv assms(4)] assms(3,5)
    by (auto simp: holds_lease_def item_ok_def split: option.splits)
  then show ?thesis using assms(2,4) by (simp add: lease_name_inject)
qed

lemma leased_item_live:
  assumes inv: "queue_inv q" and h: "live_holder lid w now q i"
  shows "leased_item lid w now q = (Inr (i, the (wi_lease i)), q)"
proof -
  from h obtain k l where i: "map_of (wq_items q) k = Some i" "holds_lease lid i" and l:
      "wi_lease i = Some l" "wl_worker_id l = w" "now < wl_lease_expires_at l"
    by (auto simp: live_holder_def holds_lease_def)
  have "i \<in> snd ` set (wq_items q)" using map_of_SomeD [OF i(1)] by force
  with i(2) obtain j where f: "find (holds_lease lid) (dict_values (wq_items q)) = Some j"
    by (cases "find (holds_lease lid) (dict_values (wq_items q))") (auto simp: find_None_iff)
  from find_dict_value [OF queue_inv_wf(1) [OF inv] f] have "j = i"
    using holder_unique [OF inv i] by blast
  with f l show ?thesis by (simp add: leased_item_def)
qed

lemma live_holder_iff:
  assumes inv: "queue_inv q"
  shows "(\<exists>i l q'. leased_item lid w now q = (Inr (i, l), q')) \<longleftrightarrow> (\<exists>i. live_holder lid w now q i)"
  using inv
proof (cases rule: leased_item_cases [of q lid w now])
  case (held k i l)
  then have "live_holder lid w now q i" unfolding live_holder_def by blast
  with held show ?thesis by blast
next
  case (lost m q')
  then show ?thesis using leased_item_live [OF inv] by fastforce
qed

text \<open>C7. Exactly the live holder may finish: \<open>complete\<close> with a lease id succeeds if and only if
  some item is leased under that id to the calling worker and its deadline lies after \<open>now\<close>;
  then that item, and no other, becomes completed. Every refusal is a \<open>LeaseLostError\<close> that
  changes at most the leases that were already overdue.\<close>

theorem complete_iff_live_holder:
  assumes inv: "queue_inv q"
  shows "case complete_work lid w now q of
      (Inr j, q') \<Rightarrow> (\<exists>i. live_holder lid w now q i \<and> j = completed_item now i \<and> q' = put_item j q)
    | (Inl e, q') \<Rightarrow> (\<exists>m. e = LeaseLost m) \<and> (\<nexists>i. live_holder lid w now q i)
        \<and> (q' = q \<or> q' = snd (expire now q))"
  using inv
proof (cases rule: leased_item_cases [of q lid w now])
  case (held k i l)
  then have h: "live_holder lid w now q i" unfolding live_holder_def by blast
  have "work_item_checked (completed_item now i) = Inr (completed_item now i)"
    by (rule work_item_checked_ok [OF item_problem_of_ok [OF completed_ok [OF held(3)]]])
  with held h show ?thesis by (auto simp: complete_work_def)
next
  case (lost m q')
  then have "\<nexists>i. live_holder lid w now q i" using live_holder_iff [OF inv, of lid w now] by simp
  with lost show ?thesis by (auto simp: complete_work_def expire_eq [OF inv])
qed

theorem complete_iff_live_holder_witness:
  "(\<exists>i. live_holder ''lease-w-1'' ''A'' 7 queue_b i) \<and>
   (\<nexists>i. live_holder ''lease-w-1'' ''B'' 7 queue_b i)"
proof -
  have "complete_work ''lease-w-1'' ''A'' 7 queue_b =
      (Inr (value_of (complete_work ''lease-w-1'' ''A'' 7 queue_b)), snd (complete_work ''lease-w-1'' ''A'' 7 queue_b))"
    by (rule outcome_ok) code_simp
  then obtain j q' where 1: "complete_work ''lease-w-1'' ''A'' 7 queue_b = (Inr j, q')" by blast
  have "isl (fst (complete_work ''lease-w-1'' ''B'' 7 queue_b))" by code_simp
  then obtain e q'' where 2: "complete_work ''lease-w-1'' ''B'' 7 queue_b = (Inl e, q'')"
    by (metis isl_def prod.collapse)
  show ?thesis
    using complete_iff_live_holder [OF queue_b_inv, of "''lease-w-1''" "''A''" 7]
      complete_iff_live_holder [OF queue_b_inv, of "''lease-w-1''" "''B''" 7]
    by (auto simp: 1 2)
qed

subsection \<open>Sweeping and pruning\<close>

text \<open>The sweep is exact: \<open>expire\<close> at \<open>now\<close> does not raise, keeps precisely the live leases
  whose deadline is after \<open>now\<close>, and a second sweep at any earlier or equal time changes no
  live lease.\<close>

theorem expire_releases_exactly_overdue:
  assumes "queue_inv q" and "t \<le> now"
  shows "\<not> isl (fst (expire now q))
    \<and> live_leases (snd (expire now q)) = {p \<in> live_leases q. now < snd p}
    \<and> live_leases (snd (expire t (snd (expire now q)))) = live_leases (snd (expire now q))"
proof -
  have "max now t = now" using assms(2) by simp
  then show ?thesis
    using wq_leases.live_sweep [OF assms(1), of now] wq_leases.sweep_sweep [OF assms(1), of t now]
      expire_eq [OF assms(1), of now] by simp
qed

theorem expire_releases_exactly_overdue_witness:
  "live_leases (snd (expire 40000000 queue_b)) = {p \<in> live_leases queue_b. 40000000 < snd p}"
  using expire_releases_exactly_overdue [OF queue_b_inv, of 0 40000000] by simp

text \<open>Pruning removes exactly the items that have ended, at or before the cut-off if there is
  one: every other item is kept unchanged, none is added, and the removed items are returned.\<close>

theorem prune_removes_exactly_ended:
  assumes inv: "queue_inv q"
  shows "\<exists>is. prune_terminal before q = (Inr is, snd (prune_terminal before q))
    \<and> set is = {i. \<exists>k. map_of (wq_items q) k = Some i \<and> is_prunable_terminal before i}
    \<and> (\<forall>k i. map_of (wq_items (snd (prune_terminal before q))) k = Some i \<longleftrightarrow>
         map_of (wq_items q) k = Some i \<and> \<not> is_prunable_terminal before i)"
proof -
  have "(\<exists>k. map_of (wq_items q) k = Some i) \<longleftrightarrow> i \<in> set (dict_values (wq_items q))" for i
    using queue_inv_wf(1) [OF inv] by force
  then show ?thesis
    by (auto simp: prune_lookup [OF inv] split: option.splits) (auto simp: prune_terminal_def Let_def)
qed

theorem prune_removes_exactly_ended_witness:
  "map_of (wq_items (snd (prune_terminal (Some 7) queue_d))) ''w'' = None \<and>
   (\<forall>k i. map_of (wq_items (snd (prune_terminal (Some 7) queue_d))) k = Some i \<longleftrightarrow>
      map_of (wq_items queue_d) k = Some i \<and> \<not> is_prunable_terminal (Some 7) i)"
proof -
  have 1: "queue_inv queue_d" unfolding queue_d_def by (rule queue_inv_complete [OF queue_b_inv])
  have "Option.is_none (map_of (wq_items (snd (prune_terminal (Some 7) queue_d))) ''w'')" by code_simp
  then show ?thesis using prune_removes_exactly_ended [OF 1, of "Some 7"] by (auto simp: Option.is_none_def)
qed

subsection \<open>Ids that come back\<close>

text \<open>The fencing tokens of an id start over when the id comes back: an item enqueued under an
  id that the queue does not hold (never used, or pruned) and then leased gets the token 1 and
  the lease id of a first attempt, whatever tokens were given out under that id before the
  prune. Tokens are thus monotonic only between two prunes of an id.\<close>

theorem reused_id_restarts_tokens:
  assumes inv: "queue_inv q" and absent: "map_of (wq_items q) k = None"
    and enq: "enqueue a clk q = (Inr i, q1)" "wi_work_item_id i = k"
    and res: "lease w ttl now ks q1 = (Inr j, q2)" "wi_work_item_id j = k"
  shows "token_of j = 1 \<and> holds_lease (lease_name k 1) j"
proof -
  have inv1: "queue_inv q1" using queue_inv_enqueue [OF inv, of a clk] enq by simp
  have i: "map_of (wq_items q1) k = Some i \<and> wi_attempts i = 0"
  proof (cases rule: enqueue_cases [of a q clk])
    case (existing i' key k')
    then have "map_of (wq_items q) k' = Some i'" using queue_inv_wf(1) [OF inv] by blast
    with existing enq absent show ?thesis using queue_inv_item [OF inv, of k' i'] by (auto simp: item_ok_def)
  next
    case (created k' q')
    have "wi_work_item_id (new_work_item a clk k') = k'" "wi_attempts (new_work_item a clk k') = 0"
      by (simp_all add: new_work_item_def)
    with created enq show ?thesis by (auto simp: put_item_def map_of_update)
  qed (use enq in auto)
  from inv1 res(1) show ?thesis
    by (rule lease_result) (use i res(2) in auto)
qed

definition queue_e :: work_queue where
  "queue_e = run_events queue_step queue_d [Prune None]"

theorem reused_id_restarts_tokens_witness:
  "token_of (value_of (lease ''A'' 30 0 None queue_a)) = 1 \<and>
   token_of (value_of (lease ''B'' 30 9 None (snd (enqueue sample_args 8 queue_e)))) = 1"
proof -
  have 1: "queue_inv queue_e" unfolding queue_e_def queue_d_def
    by (rule wq.inv_run [OF queue_inv_complete [OF queue_b_inv]])
  have "Option.is_none (map_of (wq_items queue_e) ''w'')" by code_simp
  then have 2: "map_of (wq_items queue_e) ''w'' = None" by (simp add: Option.is_none_def)
  have 3: "enqueue sample_args 8 queue_e = (Inr (value_of (enqueue sample_args 8 queue_e)),
      snd (enqueue sample_args 8 queue_e))" by (rule outcome_ok) code_simp
  have 4: "wi_work_item_id (value_of (enqueue sample_args 8 queue_e)) = ''w''" by code_simp
  let ?l = "lease ''B'' 30 9 None (snd (enqueue sample_args 8 queue_e))"
  have 5: "?l = (Inr (value_of ?l), snd ?l)" by (rule outcome_ok) code_simp
  have 6: "wi_work_item_id (value_of ?l) = ''w''" by code_simp
  have 7: "token_of (value_of (lease ''A'' 30 0 None queue_a)) = 1" by code_simp
  show ?thesis using 7 reused_id_restarts_tokens [OF 1 2 3 4 5 6] by blast
qed

end
