(* ===== verification/Scheduler.thy ===== *)
theory Scheduler
  imports Queue_Submit
begin

text \<open>
  The scheduler facade, \<open>distributed/scheduler.py\<close>: work for sessions, goals, tasks and
  actions, each under an idempotency key made from its ids, and the cancellation of the work
  of a session or a task. The contract it needs of a queue is the locale
  \<open>idempotent_queue\<close>, interpreted on the model of the work queue.
\<close>

subsection \<open>The contract of a queue with idempotent submission\<close>

locale idempotent_queue =
  fixes submit :: "enqueue_args \<Rightarrow> time \<Rightarrow> 's \<Rightarrow> ('s, 'e, work_item) outcome"
    and stored :: "'s \<Rightarrow> string \<Rightarrow> work_item option"
    and later :: "'s \<Rightarrow> 's \<Rightarrow> bool"
    and inv :: "'s \<Rightarrow> bool"
  assumes submit_inv: "inv s \<Longrightarrow> submit a t s = (Inr i, s') \<Longrightarrow> inv s'"
    and submit_stored: "inv s \<Longrightarrow> submit a t s = (Inr i, s') \<Longrightarrow> eq_idempotency_key a = Some key
      \<Longrightarrow> stored s' (wi_work_item_id i) = Some i \<and> wi_idempotency_key i = Some key"
    and later_inv: "inv s \<Longrightarrow> later s s' \<Longrightarrow> inv s'"
    and later_stored: "inv s \<Longrightarrow> later s s' \<Longrightarrow> stored s k = Some i
      \<Longrightarrow> \<exists>j. stored s' k = Some j \<and> wi_idempotency_key j = wi_idempotency_key i"
    and submit_live: "inv s \<Longrightarrow> stored s k = Some j \<Longrightarrow> wi_idempotency_key j = Some key \<Longrightarrow> \<not> is_terminal j
      \<Longrightarrow> eq_idempotency_key a = Some key \<Longrightarrow> submit a t s = (Inr j, s)"
begin

lemma resubmit:
  assumes "inv s" and "submit a t s = (Inr i, s1)" and "later s1 s2"
    and "eq_idempotency_key a = Some key" and "eq_idempotency_key b = Some key"
  shows "\<exists>j. stored s2 (wi_work_item_id i) = Some j \<and> (is_terminal j \<or> submit b t' s2 = (Inr j, s2))"
  using submit_stored [OF assms(1,2,4)] submit_inv [OF assms(1,2)] later_inv [OF _ assms(3)]
    later_stored [OF _ assms(3)] submit_live [OF _ _ _ _ assms(5)] by metis

end

definition later_queue :: "work_queue \<Rightarrow> work_queue \<Rightarrow> bool" where
  "later_queue q q' \<longleftrightarrow> (\<exists>es. set es \<subseteq> no_prune \<and> q' = run_events queue_step q es)"

interpretation sq: idempotent_queue enqueue "\<lambda>q k. map_of (wq_items q) k" later_queue queue_inv
proof
  fix q a t i q' key k j
  show "queue_inv q \<Longrightarrow> enqueue a t q = (Inr i, q') \<Longrightarrow> queue_inv q'"
    using queue_inv_enqueue [of q a t] by simp
  show "queue_inv q \<Longrightarrow> enqueue a t q = (Inr i, q') \<Longrightarrow> eq_idempotency_key a = Some key
      \<Longrightarrow> map_of (wq_items q') (wi_work_item_id i) = Some i \<and> wi_idempotency_key i = Some key"
    by (rule enqueue_key)
  show "queue_inv q \<Longrightarrow> later_queue q q' \<Longrightarrow> queue_inv q'"
    by (auto simp: later_queue_def wq.inv_run)
  show "queue_inv q \<Longrightarrow> later_queue q q' \<Longrightarrow> map_of (wq_items q) k = Some i
      \<Longrightarrow> \<exists>j. map_of (wq_items q') k = Some j \<and> wi_idempotency_key j = wi_idempotency_key i"
    unfolding later_queue_def by (metis run_item progresses_same)
  show "queue_inv q \<Longrightarrow> map_of (wq_items q) k = Some j \<Longrightarrow> wi_idempotency_key j = Some key
      \<Longrightarrow> \<not> is_terminal j \<Longrightarrow> eq_idempotency_key a = Some key \<Longrightarrow> enqueue a t q = (Inr j, q)"
    by (simp add: enqueue_def find_live_key del: map_of_eq_Some_iff)
qed

subsection \<open>Keys\<close>

definition session_key :: "string \<Rightarrow> string" where
  "session_key s = ''session:'' @ s"

definition task_key :: "string \<Rightarrow> string \<Rightarrow> string" where
  "task_key s t = ''task:'' @ s @ CHR '':'' # t"

definition action_key :: "string \<Rightarrow> string \<Rightarrow> string \<Rightarrow> string" where
  "action_key s t a = ''action:'' @ s @ CHR '':'' # t @ CHR '':'' # a"

lemma session_key_inject [simp]: "session_key s = session_key s' \<longleftrightarrow> s = s'"
  by (simp add: session_key_def)

lemma task_key_inject:
  "CHR '':'' \<notin> set s \<Longrightarrow> CHR '':'' \<notin> set s' \<Longrightarrow> task_key s t = task_key s' t' \<longleftrightarrow> s = s' \<and> t = t'"
  using split_first_sep [of s "CHR '':''" t s' t'] by (auto simp: task_key_def)

lemma action_key_inject:
  assumes "CHR '':'' \<notin> set s" "CHR '':'' \<notin> set s'" "CHR '':'' \<notin> set t" "CHR '':'' \<notin> set t'"
  shows "action_key s t a = action_key s' t' a' \<longleftrightarrow> s = s' \<and> t = t' \<and> a = a'"
  using split_first_sep [of s "CHR '':''" "t @ CHR '':'' # a" s' "t' @ CHR '':'' # a'"]
    split_first_sep [of t "CHR '':''" a t' a'] assms by (auto simp: action_key_def)

lemma keys_differ [simp]:
  "session_key s \<noteq> task_key s' t" "session_key s \<noteq> action_key s' t a" "task_key s t \<noteq> action_key s' t' a"
  "task_key s' t \<noteq> session_key s" "action_key s' t a \<noteq> session_key s" "action_key s' t' a \<noteq> task_key s t"
  by (simp_all add: session_key_def task_key_def action_key_def)

subsection \<open>Operations\<close>

datatype work_kind = KindAgentSession | KindAgentGoal | KindTask | KindToolAction

fun work_kind_value :: "work_kind \<Rightarrow> string" where
  "work_kind_value KindAgentSession = ''agent_session''"
| "work_kind_value KindAgentGoal = ''agent_goal''"
| "work_kind_value KindTask = ''task''"
| "work_kind_value KindToolAction = ''tool_action''"

definition require_id :: "string \<Rightarrow> string \<Rightarrow> queue_error + string" where
  "require_id v name = map_error ValueErr (parse_non_empty_string v name)"

text \<open>The keyword arguments that every \<open>schedule\<close> method passes through.\<close>

record schedule_options =
  so_payload :: json_mapping
  so_priority :: int
  so_max_attempts :: int
  so_available_at :: "time option"

definition default_options :: schedule_options where
  "default_options = \<lparr>so_payload = [], so_priority = 0, so_max_attempts = 3, so_available_at = None\<rparr>"

definition scheduled_args :: "work_kind \<Rightarrow> string option \<Rightarrow> string option \<Rightarrow> string option \<Rightarrow> string
    \<Rightarrow> schedule_options \<Rightarrow> enqueue_args" where
  "scheduled_args kind sid tid aid key o1 =
     (enqueue_defaults (work_kind_value kind))\<lparr>eq_payload := so_payload o1, eq_session_id := sid,
        eq_task_id := tid, eq_action_id := aid, eq_priority := so_priority o1,
        eq_max_attempts := so_max_attempts o1, eq_available_at := so_available_at o1,
        eq_idempotency_key := Some key\<rparr>"

definition schedule_session :: "string \<Rightarrow> schedule_options \<Rightarrow> time \<Rightarrow> work_queue \<Rightarrow> work_item queue_outcome" where
  "schedule_session sid o1 clk q =
     check_op (require_id sid ''session_id'') q (\<lambda>_.
       enqueue (scheduled_args KindAgentSession (Some sid) None None (session_key sid) o1) clk q)"

definition schedule_goal :: "string \<Rightarrow> schedule_options \<Rightarrow> time \<Rightarrow> work_queue \<Rightarrow> work_item queue_outcome" where
  "schedule_goal key o1 clk q =
     check_op (require_id key ''idempotency_key'') q (\<lambda>_.
       enqueue (scheduled_args KindAgentGoal None None None key o1) clk q)"

definition schedule_task :: "string \<Rightarrow> string \<Rightarrow> schedule_options \<Rightarrow> time \<Rightarrow> work_queue
    \<Rightarrow> work_item queue_outcome" where
  "schedule_task sid tid o1 clk q =
     check_op (require_id sid ''session_id'') q (\<lambda>_. check_op (require_id tid ''task_id'') q (\<lambda>_.
       enqueue (scheduled_args KindTask (Some sid) (Some tid) None (task_key sid tid) o1) clk q))"

definition schedule_action :: "string \<Rightarrow> string \<Rightarrow> string \<Rightarrow> schedule_options \<Rightarrow> time \<Rightarrow> work_queue
    \<Rightarrow> work_item queue_outcome" where
  "schedule_action sid tid aid o1 clk q =
     check_op (require_id sid ''session_id'') q (\<lambda>_. check_op (require_id tid ''task_id'') q (\<lambda>_.
       check_op (require_id aid ''action_id'') q (\<lambda>_.
         enqueue (scheduled_args KindToolAction (Some sid) (Some tid) (Some aid)
           (action_key sid tid aid) o1) clk q)))"

definition can_cancel :: "work_item \<Rightarrow> bool" where
  "can_cancel i \<longleftrightarrow> wi_status i \<notin> {WCompleted, WFailed, WCancelled}"

text \<open>The comprehension over \<open>list()\<close>: the items are those of the queue before the first
  cancellation; \<open>clk n\<close> is what the \<open>n\<close>-th call of \<open>cancel\<close> reads as the time.\<close>

fun cancel_items :: "string \<Rightarrow> (nat \<Rightarrow> time) \<Rightarrow> nat \<Rightarrow> work_item list \<Rightarrow> work_queue
    \<Rightarrow> work_item list queue_outcome" where
  "cancel_items reason clk n [] q = (Inr [], q)"
| "cancel_items reason clk n (i # is) q =
     bind_op (cancel_work (wi_work_item_id i) reason (clk n) q) (\<lambda>c q1.
       bind_op (cancel_items reason clk (Suc n) is q1) (\<lambda>cs q2. (Inr (c # cs), q2)))"

definition cancel_session :: "string \<Rightarrow> string \<Rightarrow> (nat \<Rightarrow> time) \<Rightarrow> work_queue \<Rightarrow> work_item list queue_outcome" where
  "cancel_session sid reason clk q =
     check_op (require_id sid ''session_id'') q (\<lambda>_.
       cancel_items reason clk 0
         (filter (\<lambda>i. wi_session_id i = Some sid \<and> can_cancel i) (list_items None q)) q)"

definition cancel_task :: "string \<Rightarrow> string \<Rightarrow> string \<Rightarrow> (nat \<Rightarrow> time) \<Rightarrow> work_queue
    \<Rightarrow> work_item list queue_outcome" where
  "cancel_task sid tid reason clk q =
     check_op (require_id sid ''session_id'') q (\<lambda>_. check_op (require_id tid ''task_id'') q (\<lambda>_.
       cancel_items reason clk 0
         (filter (\<lambda>i. wi_session_id i = Some sid \<and> wi_task_id i = Some tid \<and> can_cancel i)
           (list_items None q)) q))"

subsection \<open>Cancellation\<close>

lemma can_cancel_iff: "can_cancel i \<longleftrightarrow> \<not> is_terminal i"
  by (simp add: can_cancel_def is_terminal_def)

lemma cancel_work_eq:
  assumes inv: "queue_inv q" and i: "map_of (wq_items q) k = Some i" "\<not> is_terminal i"
    and r: "\<not> blank reason"
  shows "cancel_work k reason now q = (Inr (cancelled_item reason now i), put_item (cancelled_item reason now i) q)"
  using inv
proof (cases rule: cancel_work_cases [of q k reason now])
  case (kept x)
  have "cancel_work k reason now q \<noteq> (Inl e, q)" for e
    using i r work_item_checked_ok [OF item_problem_of_ok [OF cancelled_ok [OF queue_inv_item [OF inv i(1)]]]]
    by (simp add: cancel_work_def get_item_def parse_defs is_terminal_def)
  with kept i show ?thesis by (cases x) auto
qed (use i in simp)

text \<open>Writing back a batch of items, each under its id.\<close>

lemma cancel_items_eq:
  assumes "queue_inv q" and "\<not> blank reason" and "distinct (map wi_work_item_id is)"
    and "\<forall>i \<in> set is. map_of (wq_items q) (wi_work_item_id i) = Some i \<and> \<not> is_terminal i"
  shows "\<exists>cs q'. cancel_items reason clk n is q = (Inr cs, q')
    \<and> map wi_work_item_id cs = map wi_work_item_id is \<and> queue_inv q'
    \<and> (\<forall>k. map_of (wq_items q') k =
        (if k \<in> wi_work_item_id ` set is then find (\<lambda>c. wi_work_item_id c = k) cs else map_of (wq_items q) k))
    \<and> (\<forall>c \<in> set cs. \<exists>i \<in> set is. \<exists>t. c = cancelled_item reason t i)"
  using assms
proof (induction "is" arbitrary: q n)
  case Nil
  then show ?case by simp
next
  case (Cons i "is")
  let ?c = "cancelled_item reason (clk n) i"
  let ?q = "put_item ?c q"
  have e: "cancel_work (wi_work_item_id i) reason (clk n) q = (Inr ?c, ?q)"
    using Cons.prems by (intro cancel_work_eq) auto
  have inv: "queue_inv ?q"
    using queue_inv_cancel [OF Cons.prems(1), of "wi_work_item_id i" reason "clk n"] e by simp
  have "\<forall>j \<in> set is. map_of (wq_items ?q) (wi_work_item_id j) = Some j \<and> \<not> is_terminal j"
  proof
    fix j
    assume j: "j \<in> set is"
    then have "wi_work_item_id j \<noteq> wi_work_item_id i" using Cons.prems(3) by (auto simp: image_iff)
    then show "map_of (wq_items ?q) (wi_work_item_id j) = Some j \<and> \<not> is_terminal j"
      using Cons.prems(4) j by (simp add: put_item_def map_of_update del: map_of_eq_Some_iff)
  qed
  with Cons.IH [OF inv Cons.prems(2), of "Suc n"] Cons.prems(3)
  obtain cs q' where h: "cancel_items reason clk (Suc n) is ?q = (Inr cs, q')"
      "map wi_work_item_id cs = map wi_work_item_id is" "queue_inv q'"
      "\<forall>k. map_of (wq_items q') k =
        (if k \<in> wi_work_item_id ` set is then find (\<lambda>c. wi_work_item_id c = k) cs else map_of (wq_items ?q) k)"
      "\<forall>c \<in> set cs. \<exists>i \<in> set is. \<exists>t. c = cancelled_item reason t i"
    by auto
  have "cancel_items reason clk n (i # is) q = (Inr (?c # cs), q')" by (simp add: e h(1))
  moreover have "\<forall>k. map_of (wq_items q') k =
      (if k \<in> wi_work_item_id ` set (i # is) then find (\<lambda>c. wi_work_item_id c = k) (?c # cs)
       else map_of (wq_items q) k)"
    using h(4) Cons.prems(3) by (auto simp: put_item_def map_of_update)
  ultimately show ?case using h by (intro exI [of _ "?c # cs"] exI [of _ q']) auto
qed

lemma list_items_None: "set (list_items None q) = set (dict_values (wq_items q))"
  "distinct (map wi_work_item_id (list_items None q)) \<longleftrightarrow> distinct (map wi_work_item_id (dict_values (wq_items q)))"
proof -
  show "set (list_items None q) = set (dict_values (wq_items q))" by (simp add: list_items_def)
  show "distinct (map wi_work_item_id (list_items None q)) \<longleftrightarrow>
      distinct (map wi_work_item_id (dict_values (wq_items q)))"
    by (simp only: list_items_def Let_def option.case distinct_map set_sort distinct_sort)
qed

lemma item_ids_eq:
  assumes "queue_inv q"
  shows "map wi_work_item_id (dict_values (wq_items q)) = dict_keys (wq_items q)"
  using queue_inv_item [OF assms] queue_inv_wf(1) [OF assms] by (force simp: item_ok_def)

text \<open>Cancelling a session ends all of its work and nothing else: with a non-blank id and
  reason, \<open>cancel_session\<close> does not raise; afterwards every item of the session is terminal,
  the ones it returns are exactly the items of the session that had not ended, each cancelled
  with the reason, and every other item is as it was.\<close>

theorem cancel_session_exact:
  assumes inv: "queue_inv q" and "\<not> blank sid" and "\<not> blank reason"
  shows "\<exists>cs q'. cancel_session sid reason clk q = (Inr cs, q') \<and> queue_inv q'
    \<and> (\<forall>k. case map_of (wq_items q) k of
          None \<Rightarrow> map_of (wq_items q') k = None
        | Some i \<Rightarrow> if wi_session_id i = Some sid \<and> \<not> is_terminal i
            then (\<exists>t. map_of (wq_items q') k = Some (cancelled_item reason t i)
                    \<and> cancelled_item reason t i \<in> set cs)
            else map_of (wq_items q') k = Some i)"
proof -
  let ?is = "filter (\<lambda>i. wi_session_id i = Some sid \<and> can_cancel i) (list_items None q)"
  have d: "distinct (map wi_work_item_id ?is)"
    using list_items_None(2) [of q] queue_inv_wf(1) [OF inv] unfolding item_ids_eq [OF inv]
    by (intro distinct_map_filter) blast
  have m: "i \<in> set ?is \<longleftrightarrow> map_of (wq_items q) (wi_work_item_id i) = Some i
      \<and> wi_session_id i = Some sid \<and> \<not> is_terminal i" for i
  proof -
    have "i \<in> set (dict_values (wq_items q)) \<longleftrightarrow> map_of (wq_items q) (wi_work_item_id i) = Some i"
    proof
      assume "i \<in> set (dict_values (wq_items q))"
      then obtain k where "map_of (wq_items q) k = Some i" using queue_inv_wf(1) [OF inv] by auto
      then show "map_of (wq_items q) (wi_work_item_id i) = Some i"
        using queue_inv_item [OF inv] item_ok_id by metis
    next
      assume "map_of (wq_items q) (wi_work_item_id i) = Some i"
      from map_of_SomeD [OF this] show "i \<in> set (dict_values (wq_items q))" by force
    qed
    then show ?thesis by (auto simp: list_items_None(1) can_cancel_iff simp del: map_of_eq_Some_iff)
  qed
  obtain cs q' where h: "cancel_items reason clk 0 ?is q = (Inr cs, q')"
      "map wi_work_item_id cs = map wi_work_item_id ?is" "queue_inv q'"
      "\<forall>k. map_of (wq_items q') k =
        (if k \<in> wi_work_item_id ` set ?is then find (\<lambda>c. wi_work_item_id c = k) cs else map_of (wq_items q) k)"
      "\<forall>c \<in> set cs. \<exists>i \<in> set ?is. \<exists>t. c = cancelled_item reason t i"
    using cancel_items_eq [OF inv assms(3) d, of clk 0] m by blast
  have e: "cancel_session sid reason clk q = (Inr cs, q')"
    using h(1) assms(2) by (simp add: cancel_session_def require_id_def parse_defs)
  have "case map_of (wq_items q) k of
          None \<Rightarrow> map_of (wq_items q') k = None
        | Some i \<Rightarrow> if wi_session_id i = Some sid \<and> \<not> is_terminal i
            then (\<exists>t. map_of (wq_items q') k = Some (cancelled_item reason t i)
                    \<and> cancelled_item reason t i \<in> set cs)
            else map_of (wq_items q') k = Some i" for k
  proof (cases "k \<in> wi_work_item_id ` set ?is")
    case True
    then obtain i where i: "i \<in> set ?is" "k = wi_work_item_id i" by blast
    have "k \<in> set (map wi_work_item_id cs)" unfolding h(2) using i by force
    then have "find (\<lambda>c. wi_work_item_id c = k) cs \<noteq> None" by (auto simp: find_None_iff)
    then obtain c where c: "find (\<lambda>c. wi_work_item_id c = k) cs = Some c" by auto
    then have cs: "c \<in> set cs" "wi_work_item_id c = k" unfolding find_Some_iff by (metis nth_mem)+
    then obtain j t where j: "j \<in> set ?is" "c = cancelled_item reason t j" using h(5) by blast
    then have "map_of (wq_items q) k = Some j" using m [of j] cs(2) by simp
    moreover have "map_of (wq_items q) k = Some i" using m [of i] i by simp
    ultimately have "j = i" by simp
    moreover have "map_of (wq_items q') k = Some c" using h(4) True c by simp
    ultimately show ?thesis using m [of i] i cs j by auto
  next
    case False
    then have "\<not> (wi_session_id i = Some sid \<and> \<not> is_terminal i)" if "map_of (wq_items q) k = Some i" for i
      using that m [of i] queue_inv_item [OF inv that] by (force simp: item_ok_def)
    moreover have "map_of (wq_items q') k = map_of (wq_items q) k" using h(4) False by simp
    ultimately show ?thesis by (auto split: option.splits simp del: map_of_eq_Some_iff)
  qed
  with e h(3) show ?thesis by blast
qed

definition sched_q :: work_queue where
  "sched_q = snd (schedule_task ''s2'' ''t'' default_options 1
     (snd (schedule_task ''s1'' ''t'' default_options 0 empty_queue)))"

lemma schedule_task_inv: "queue_inv q \<Longrightarrow> queue_inv (snd (schedule_task sid tid o1 clk q))"
  by (auto simp: schedule_task_def check_op_def queue_inv_enqueue split: sum.splits)

lemma sched_q_inv: "queue_inv sched_q"
  unfolding sched_q_def by (intro schedule_task_inv queue_inv_empty)

theorem cancel_session_exact_witness:
  "map_of (wq_items (snd (cancel_session ''s1'' ''stop'' (\<lambda>n. 5) sched_q))) ''work-2''
     = map_of (wq_items sched_q) ''work-2''
   \<and> wi_status (the (map_of (wq_items (snd (cancel_session ''s1'' ''stop'' (\<lambda>n. 5) sched_q))) ''work-1''))
     = WCancelled"
proof -
  have 1: "\<not> blank ''s1''" "\<not> blank ''stop''" by code_simp+
  have 2: "map_of (wq_items sched_q) ''work-1'' = Some (the (map_of (wq_items sched_q) ''work-1''))"
    "map_of (wq_items sched_q) ''work-2'' = Some (the (map_of (wq_items sched_q) ''work-2''))"
    by (rule some_the, code_simp)+
  obtain i1 i2 where i: "map_of (wq_items sched_q) ''work-1'' = Some i1"
      "map_of (wq_items sched_q) ''work-2'' = Some i2" using 2 by blast
  have 3: "wi_session_id (the (map_of (wq_items sched_q) ''work-1'')) = Some ''s1''"
    "\<not> is_terminal (the (map_of (wq_items sched_q) ''work-1''))"
    "wi_session_id (the (map_of (wq_items sched_q) ''work-2'')) = Some ''s2''" by code_simp+
  obtain q' where q': "q' = snd (cancel_session ''s1'' ''stop'' (\<lambda>n. 5) sched_q)" by blast
  with cancel_session_exact [OF sched_q_inv 1, of "\<lambda>n. 5"]
  have all: "case map_of (wq_items sched_q) k of
          None \<Rightarrow> map_of (wq_items q') k = None
        | Some i \<Rightarrow> if wi_session_id i = Some ''s1'' \<and> \<not> is_terminal i
            then (\<exists>t. map_of (wq_items q') k = Some (cancelled_item ''stop'' t i))
            else map_of (wq_items q') k = Some i" for k
    by (auto split: option.splits if_splits dest!: spec [of _ k])
  show ?thesis unfolding q' [symmetric]
    using all [of "''work-1''"] all [of "''work-2''"] 3 by (auto simp: i cancelled_item_def)
qed

subsection \<open>Identity\<close>

text \<open>The key of an item is made from the ids it carries, with no separator in all but the last
  of them; a goal's key is not of the form of another kind's.\<close>

definition own_key :: "work_item \<Rightarrow> bool" where
  "own_key i \<longleftrightarrow> (\<forall>key. wi_idempotency_key i = Some key \<longrightarrow>
     (\<exists>s. key = session_key s \<and> wi_kind i = work_kind_value KindAgentSession \<and> wi_session_id i = Some s)
   \<or> (\<exists>s t. key = task_key s t \<and> CHR '':'' \<notin> set s \<and> wi_kind i = work_kind_value KindTask
        \<and> wi_session_id i = Some s \<and> wi_task_id i = Some t)
   \<or> (\<exists>s t a. key = action_key s t a \<and> CHR '':'' \<notin> set s \<and> CHR '':'' \<notin> set t
        \<and> wi_kind i = work_kind_value KindToolAction
        \<and> wi_session_id i = Some s \<and> wi_task_id i = Some t \<and> wi_action_id i = Some a)
   \<or> ((\<forall>s. key \<noteq> session_key s) \<and> (\<forall>s t. key \<noteq> task_key s t) \<and> (\<forall>s t a. key \<noteq> action_key s t a)))"

definition keys_owned :: "work_queue \<Rightarrow> bool" where
  "keys_owned q \<longleftrightarrow> (\<forall>k i. map_of (wq_items q) k = Some i \<longrightarrow> own_key i)"

lemma keys_owned_empty: "keys_owned empty_queue"
  by (simp add: keys_owned_def empty_queue_def)

lemma enqueue_owned:
  assumes inv: "queue_inv q" and own: "keys_owned q" and res: "enqueue a clk q = (Inr i, q')"
    and key: "eq_idempotency_key a = Some key" and new: "\<And>k. own_key (new_work_item a clk k)"
  shows "own_key i \<and> wi_idempotency_key i = Some key \<and> \<not> is_terminal i \<and> keys_owned q'"
proof (cases rule: enqueue_cases [of a q clk])
  case (existing i' key' k)
  then have "map_of (wq_items q) k = Some i'" using queue_inv_wf(1) [OF inv] by blast
  with existing res own key show ?thesis by (auto simp: keys_owned_def simp del: map_of_eq_Some_iff)
next
  case (created k q1)
  then have q1: "wq_items q1 = wq_items q" by auto
  have "wi_idempotency_key (new_work_item a clk k) = Some key" "\<not> is_terminal (new_work_item a clk k)"
    "wi_work_item_id (new_work_item a clk k) = k"
    by (simp_all add: new_work_item_def key is_terminal_def)
  with created res own new [of k] q1 show ?thesis
    by (auto simp: keys_owned_def put_item_def map_of_update split: if_splits simp del: map_of_eq_Some_iff)
qed (use res in auto)

lemma new_item_fields [simp]:
  "wi_kind (new_work_item (scheduled_args kind sid tid aid key o1) clk k) = work_kind_value kind"
  "wi_session_id (new_work_item (scheduled_args kind sid tid aid key o1) clk k) = sid"
  "wi_task_id (new_work_item (scheduled_args kind sid tid aid key o1) clk k) = tid"
  "wi_action_id (new_work_item (scheduled_args kind sid tid aid key o1) clk k) = aid"
  "wi_idempotency_key (new_work_item (scheduled_args kind sid tid aid key o1) clk k) = Some key"
  "eq_idempotency_key (scheduled_args kind sid tid aid key o1) = Some key"
  by (simp_all add: new_work_item_def scheduled_args_def enqueue_defaults_def)

text \<open>Scheduling preserves identity: in a queue whose keys are those of the scheduler, with ids
  that do not contain the separator, \<open>schedule_task\<close> returns a live item of exactly this session
  and task, of kind task, be it new or already there, and keeps the keys of the queue that way.\<close>

theorem schedule_task_identity:
  assumes inv: "queue_inv q" and own: "keys_owned q" and sep: "CHR '':'' \<notin> set sid"
    and res: "schedule_task sid tid o1 clk q = (Inr i, q')"
  shows "wi_kind i = ''task'' \<and> wi_session_id i = Some sid \<and> wi_task_id i = Some tid \<and> \<not> is_terminal i
    \<and> keys_owned q'"
proof -
  let ?a = "scheduled_args KindTask (Some sid) (Some tid) None (task_key sid tid) o1"
  have e: "enqueue ?a clk q = (Inr i, q')"
    using res by (auto simp: schedule_task_def require_id_def parse_defs split: if_splits)
  have "own_key (new_work_item ?a clk k)" for k
    using sep unfolding own_key_def by (auto simp del: work_kind_value.simps)
  from enqueue_owned [OF inv own e _ this]
  have o: "own_key i" "wi_idempotency_key i = Some (task_key sid tid)" "\<not> is_terminal i" "keys_owned q'"
    by simp_all
  then show ?thesis using sep by (auto simp: own_key_def task_key_inject)
qed

theorem schedule_task_identity_witness:
  "wi_session_id (value_of (schedule_task ''s1'' ''t'' default_options 0 empty_queue)) = Some ''s1'' \<and>
   keys_owned (snd (schedule_task ''s1'' ''t'' default_options 0 empty_queue))"
proof -
  let ?r = "schedule_task ''s1'' ''t'' default_options 0 empty_queue"
  have 1: "?r = (Inr (value_of ?r), snd ?r)" by (rule outcome_ok) code_simp
  show ?thesis using schedule_task_identity [OF queue_inv_empty keys_owned_empty _ 1] by simp
qed

text \<open>Scheduling twice is scheduling once: after \<open>schedule_action\<close> accepted an action, any run of
  queue operations without pruning and a second \<open>schedule_action\<close> of the same ids, whatever its
  payload, priority and time, the second call returns the item of the first as it is now and
  changes nothing, unless that item has ended.\<close>

theorem schedule_action_idempotent:
  assumes inv: "queue_inv q" and res: "schedule_action sid tid aid o1 clk q = (Inr i, q1)"
    and es: "set es \<subseteq> no_prune"
  shows "\<exists>j. map_of (wq_items (run_events queue_step q1 es)) (wi_work_item_id i) = Some j
    \<and> (is_terminal j \<or> schedule_action sid tid aid o2 clk' (run_events queue_step q1 es)
                       = (Inr j, run_events queue_step q1 es))"
proof -
  let ?a = "\<lambda>o1. scheduled_args KindToolAction (Some sid) (Some tid) (Some aid) (action_key sid tid aid) o1"
  have ids: "\<not> blank sid" "\<not> blank tid" "\<not> blank aid" and e: "enqueue (?a o1) clk q = (Inr i, q1)"
    using res by (auto simp: schedule_action_def require_id_def parse_defs split: if_splits)
  have "later_queue q1 (run_events queue_step q1 es)" using es by (auto simp: later_queue_def)
  from sq.resubmit [OF inv e this, of "action_key sid tid aid" "?a o2" clk'] ids
  show ?thesis by (simp add: schedule_action_def require_id_def parse_defs del: map_of_eq_Some_iff)
qed

definition action_q :: work_queue where
  "action_q = snd (schedule_action ''s'' ''t'' ''a'' default_options 0 empty_queue)"

theorem schedule_action_idempotent_witness:
  "\<exists>j. map_of (wq_items action_q) ''work-1'' = Some j
    \<and> schedule_action ''s'' ''t'' ''a'' (default_options\<lparr>so_priority := 9\<rparr>) 7 action_q = (Inr j, action_q)"
proof -
  let ?r = "schedule_action ''s'' ''t'' ''a'' default_options 0 empty_queue"
  have 1: "?r = (Inr (value_of ?r), action_q)" unfolding action_q_def by (rule outcome_ok) code_simp
  have 2: "wi_work_item_id (value_of ?r) = ''work-1''" by code_simp
  have 3: "\<not> is_terminal (the (map_of (wq_items action_q) ''work-1''))" by code_simp
  show ?thesis
    using schedule_action_idempotent [OF queue_inv_empty 1, of "[]" "default_options\<lparr>so_priority := 9\<rparr>" 7] 3
    unfolding 2 by auto
qed

text \<open>With the separator in a session id, two tasks share a key: scheduling task \<open>b:c\<close> of session
  \<open>a\<close> after task \<open>c\<close> of session \<open>a:b\<close> enqueues nothing and returns the other session's item.\<close>

theorem task_keys_collide:
  "let q = snd (schedule_task ''a:b'' ''c'' default_options 0 empty_queue);
       (r, q') = schedule_task ''a'' ''b:c'' default_options 1 q
   in q' = q \<and> wi_session_id (projr r) = Some ''a:b'' \<and> wi_task_id (projr r) = Some ''c''"
  by code_simp

end
