(* ===== verification/Dist_Locks.thy ===== *)
theory Dist_Locks
  imports Core_Models
begin

text \<open>
  The leased lock registry, \<open>InMemoryDistributedLockRegistry\<close> of \<open>distributed/locks.py\<close>: its
  state and operations, its invariant, mutual exclusion of owners, and the fencing tokens.
  As in the work queue, \<open>now\<close> is the resolved time stamp of a call.
\<close>

subsection \<open>State and operations\<close>

datatype lock_error = LockValueErr string | LockConflict string | LockLeaseLost string

record lock_lease =
  dl_lock_key :: string
  dl_owner_id :: string
  dl_lease_id :: string
  dl_acquired_at :: time
  dl_lease_expires_at :: time
  dl_heartbeat_at :: time
  dl_fencing_token :: int
  dl_metadata :: json_mapping

text \<open>\<open>DistributedLockLease.__post_init__\<close>\<close>

definition lock_lease_checked :: "lock_lease \<Rightarrow> lock_error + lock_lease" where
  "lock_lease_checked l =
     (case parse_non_negative_int (dl_fencing_token l) ''fencing_token'' of
        Inl m \<Rightarrow> Inl (LockValueErr m) | Inr _ \<Rightarrow> Inr l)"

record lock_registry =
  lr_leases :: "(string, lock_lease) dict"
  lr_sequence :: nat

type_synonym 'a lock_outcome = "(lock_registry, lock_error, 'a) outcome"

definition empty_locks :: lock_registry where
  "empty_locks = \<lparr>lr_leases = [], lr_sequence = 0\<rparr>"

definition require_lock_key :: "string \<Rightarrow> lock_error + string" where
  "require_lock_key k = map_error LockValueErr (parse_non_empty_string k ''lock_key'')"

definition require_owner_id :: "string \<Rightarrow> lock_error + string" where
  "require_owner_id w = map_error LockValueErr (parse_non_empty_string w ''owner_id'')"

definition lock_deadline :: "time \<Rightarrow> rat \<Rightarrow> lock_error + time" where
  "lock_deadline now ttl =
     (case parse_positive_float ttl ''ttl_seconds'' of
        Inl m \<Rightarrow> Inl (LockValueErr m) | Inr _ \<Rightarrow> Inr (now + timedelta ttl))"

definition lock_lease_name :: "nat \<Rightarrow> string" where
  "lock_lease_name n = ''lock-lease-'' @ show_nat n"

text \<open>\<open>_next_lease_id\<close>: the counter moves before anything else can fail.\<close>

definition next_lock_lease_id :: "lock_registry \<Rightarrow> string \<times> lock_registry" where
  "next_lock_lease_id s =
     (let n = lr_sequence s + 1 in (lock_lease_name n, s\<lparr>lr_sequence := n\<rparr>))"

fun expire_locks_loop :: "time \<Rightarrow> (string \<times> lock_lease) list \<Rightarrow> lock_registry
    \<Rightarrow> lock_lease list \<times> lock_registry" where
  "expire_locks_loop now [] s = ([], s)"
| "expire_locks_loop now ((k, l) # ls) s =
     (if dl_lease_expires_at l > now then expire_locks_loop now ls s
      else (let (expired, s') = expire_locks_loop now ls
                  (s\<lparr>lr_leases := AList.delete k (lr_leases s)\<rparr>)
            in (l # expired, s')))"

definition expire_locks :: "time \<Rightarrow> lock_registry \<Rightarrow> lock_lease list lock_outcome" where
  "expire_locks now s =
     (let (expired, s') = expire_locks_loop now (lr_leases s) s
      in (Inr (sort_key dl_lock_key expired), s'))"

definition new_lock_lease :: "string \<Rightarrow> string \<Rightarrow> string \<Rightarrow> time \<Rightarrow> time \<Rightarrow> nat \<Rightarrow> json_mapping
    \<Rightarrow> lock_lease" where
  "new_lock_lease key owner lid now deadline n md =
     \<lparr>dl_lock_key = key, dl_owner_id = owner, dl_lease_id = lid, dl_acquired_at = now,
      dl_lease_expires_at = deadline, dl_heartbeat_at = now, dl_fencing_token = int n,
      dl_metadata = md\<rparr>"

definition acquire :: "string \<Rightarrow> string \<Rightarrow> rat \<Rightarrow> json_mapping \<Rightarrow> time \<Rightarrow> lock_registry
    \<Rightarrow> lock_lease lock_outcome" where
  "acquire key owner ttl md now s =
     check_op (require_lock_key key) s (\<lambda>_. check_op (require_owner_id owner) s (\<lambda>_.
       bind_op (expire_locks now s) (\<lambda>_ s1.
         case map_of (lr_leases s1) key of
           Some existing \<Rightarrow>
             if dl_owner_id existing = owner then (Inr existing, s1)
             else (Inl (LockConflict
                    (''lock is owned by '' @ dl_owner_id existing @ '': '' @ key)), s1)
         | None \<Rightarrow>
             let (lid, s2) = next_lock_lease_id s1
             in check_op (lock_deadline now ttl) s2 (\<lambda>deadline.
                  check_op (lock_lease_checked
                      (new_lock_lease key owner lid now deadline (lr_sequence s2) md)) s2 (\<lambda>l.
                    (Inr l, s2\<lparr>lr_leases := AList.update key l (lr_leases s2)\<rparr>))))))"

text \<open>\<open>_active_lease\<close>: the loop stops at the first lease with the id.\<close>

definition active_lease :: "string \<Rightarrow> string \<Rightarrow> time \<Rightarrow> lock_registry \<Rightarrow> lock_lease lock_outcome" where
  "active_lease lid owner now s =
     check_op (require_owner_id owner) s (\<lambda>_.
       case find (\<lambda>l. dl_lease_id l = lid) (dict_values (lr_leases s)) of
         None \<Rightarrow> (Inl (LockLeaseLost (''lock lease not found: '' @ lid)), s)
       | Some l \<Rightarrow>
           if dl_owner_id l \<noteq> owner
           then (Inl (LockLeaseLost (''lock lease is owned by another owner: '' @ lid)), s)
           else if dl_lease_expires_at l \<le> now
           then bind_op (expire_locks now s)
                  (\<lambda>_ s1. (Inl (LockLeaseLost (''lock lease expired: '' @ lid)), s1))
           else (Inr l, s))"

definition heartbeat_lock :: "string \<Rightarrow> string \<Rightarrow> rat \<Rightarrow> time \<Rightarrow> lock_registry
    \<Rightarrow> lock_lease lock_outcome" where
  "heartbeat_lock lid owner ttl now s =
     bind_op (active_lease lid owner now s) (\<lambda>l s1.
       check_op (lock_deadline now ttl) s1 (\<lambda>deadline.
         check_op (lock_lease_checked
             (l\<lparr>dl_heartbeat_at := now, dl_lease_expires_at := deadline\<rparr>)) s1 (\<lambda>renewed.
           (Inr renewed, s1\<lparr>lr_leases := AList.update (dl_lock_key l) renewed (lr_leases s1)\<rparr>))))"

definition release :: "string \<Rightarrow> string \<Rightarrow> time \<Rightarrow> lock_registry \<Rightarrow> lock_lease lock_outcome" where
  "release lid owner now s =
     bind_op (active_lease lid owner now s) (\<lambda>l s1.
       (Inr l, s1\<lparr>lr_leases := AList.delete (dl_lock_key l) (lr_leases s1)\<rparr>))"

text \<open>\<open>active\<close>: the leases in the order of their keys.\<close>

definition active_locks :: "lock_registry \<Rightarrow> lock_lease list" where
  "active_locks s = map (\<lambda>k. the (map_of (lr_leases s) k)) (sort (dict_keys (lr_leases s)))"

datatype lock_event =
    Acquire string string rat json_mapping time
  | HeartbeatLock string string rat time
  | Release string string time
  | ExpireLocks time

fun lock_step :: "lock_registry \<Rightarrow> lock_event \<Rightarrow> lock_registry" where
  "lock_step s (Acquire key owner ttl md now) = snd (acquire key owner ttl md now s)"
| "lock_step s (HeartbeatLock lid owner ttl now) = snd (heartbeat_lock lid owner ttl now s)"
| "lock_step s (Release lid owner now) = snd (release lid owner now s)"
| "lock_step s (ExpireLocks now) = snd (expire_locks now s)"

subsection \<open>Invariant\<close>

text \<open>A lease is filed under its key, its id names its token, the token is one the counter
  has given out, and no two leases share a token.\<close>

definition lock_inv :: "lock_registry \<Rightarrow> bool" where
  "lock_inv s \<longleftrightarrow> dict_wf (lr_leases s)
     \<and> (\<forall>k l. map_of (lr_leases s) k = Some l \<longrightarrow> dl_lock_key l = k
          \<and> 1 \<le> dl_fencing_token l \<and> dl_fencing_token l \<le> int (lr_sequence s)
          \<and> dl_lease_id l = lock_lease_name (nat (dl_fencing_token l)))
     \<and> (\<forall>k l k' l'. map_of (lr_leases s) k = Some l \<longrightarrow> map_of (lr_leases s) k' = Some l'
          \<longrightarrow> dl_fencing_token l = dl_fencing_token l' \<longrightarrow> k = k')"

lemma lock_inv_empty: "lock_inv empty_locks"
  by (simp add: lock_inv_def empty_locks_def)

lemma lock_inv_wf: "lock_inv s \<Longrightarrow> dict_wf (lr_leases s)"
  by (simp add: lock_inv_def)

lemma lock_inv_lease: "lock_inv s \<Longrightarrow> map_of (lr_leases s) k = Some l \<Longrightarrow> dl_lock_key l = k
    \<and> 1 \<le> dl_fencing_token l \<and> dl_fencing_token l \<le> int (lr_sequence s)
    \<and> dl_lease_id l = lock_lease_name (nat (dl_fencing_token l))"
  by (simp add: lock_inv_def)

lemma lock_invI:
  assumes "dict_wf (lr_leases s)"
    and "\<And>k l. map_of (lr_leases s) k = Some l \<Longrightarrow> dl_lock_key l = k
      \<and> 1 \<le> dl_fencing_token l \<and> dl_fencing_token l \<le> int (lr_sequence s)
      \<and> dl_lease_id l = lock_lease_name (nat (dl_fencing_token l))"
    and "\<And>k l k' l'. map_of (lr_leases s) k = Some l \<Longrightarrow> map_of (lr_leases s) k' = Some l'
      \<Longrightarrow> dl_fencing_token l = dl_fencing_token l' \<Longrightarrow> k = k'"
  shows "lock_inv s"
  unfolding lock_inv_def using assms by blast

lemma lock_inv_token: "lock_inv s \<Longrightarrow> map_of (lr_leases s) k = Some l \<Longrightarrow>
    map_of (lr_leases s) k' = Some l' \<Longrightarrow> dl_fencing_token l = dl_fencing_token l' \<Longrightarrow> k = k'"
  unfolding lock_inv_def by blast

lemma lock_lease_name_inject [simp]: "lock_lease_name m = lock_lease_name n \<longleftrightarrow> m = n"
  by (simp add: lock_lease_name_def)

lemma lock_inv_same_id:
  assumes inv: "lock_inv s" and l: "map_of (lr_leases s) k = Some l"
    and l': "map_of (lr_leases s) k' = Some l'" and "dl_lease_id l = dl_lease_id l'"
  shows "k = k' \<and> l = l'"
proof -
  have "nat (dl_fencing_token l) = nat (dl_fencing_token l')"
    using lock_inv_lease [OF inv l] lock_inv_lease [OF inv l'] assms(4) by simp
  then have "dl_fencing_token l = dl_fencing_token l'"
    using lock_inv_lease [OF inv l] lock_inv_lease [OF inv l'] by linarith
  with inv l l' have "k = k'" unfolding lock_inv_def by blast
  with l l' show ?thesis by simp
qed

text \<open>The sweep keeps the leases whose deadline is still ahead.\<close>

definition sweep_locks :: "time \<Rightarrow> lock_registry \<Rightarrow> lock_registry" where
  "sweep_locks now s = s\<lparr>lr_leases := filter (\<lambda>(_, l). now < dl_lease_expires_at l) (lr_leases s)\<rparr>"

lemma delete_notin: "k \<notin> fst ` set d \<Longrightarrow> AList.delete k d = d"
  by (induction d) auto

lemma expire_locks_loop_eq:
  assumes "dict_wf (d1 @ d2)" and "lr_leases s = d1 @ d2"
  shows "expire_locks_loop now d2 s =
    (map snd (filter (\<lambda>(_, l). dl_lease_expires_at l \<le> now) d2),
     s\<lparr>lr_leases := d1 @ filter (\<lambda>(_, l). now < dl_lease_expires_at l) d2\<rparr>)"
  using assms
proof (induction d2 arbitrary: d1 s)
  case (Cons p d2)
  obtain k l where p: "p = (k, l)" by (cases p)
  have "AList.delete k (d1 @ (k, l) # d2) = d1 @ d2"
    using Cons.prems(1) by (induction d1) (auto simp: p delete_notin)
  then show ?case
    using Cons.IH [of "d1 @ [(k, l)]" s] Cons.IH [of d1 "s\<lparr>lr_leases := d1 @ d2\<rparr>"] Cons.prems
    by (auto simp: p not_less)
qed simp

lemma expire_locks_eq:
  assumes "lock_inv s"
  shows "expire_locks now s =
    (Inr (sort_key dl_lock_key (map snd (filter (\<lambda>(_, l). dl_lease_expires_at l \<le> now) (lr_leases s)))),
     sweep_locks now s)"
  using expire_locks_loop_eq [of "[]" "lr_leases s" s now] lock_inv_wf [OF assms]
  by (simp add: expire_locks_def sweep_locks_def)

lemma map_of_filter:
  assumes "dict_wf d"
  shows "map_of (filter (\<lambda>(_, v). P v) d) k =
    (case map_of d k of None \<Rightarrow> None | Some v \<Rightarrow> if P v then Some v else None)"
  using assms
proof (induction d)
  case (Cons p d)
  obtain k' v where p: "p = (k', v)" by (cases p)
  then have "map_of d k' = None" using Cons.prems by (simp add: map_of_eq_None_iff)
  with Cons p show ?case by (auto split: option.splits)
qed simp

lemma sweep_locks_lookup [dict_simps]:
  "lock_inv s \<Longrightarrow> map_of (lr_leases (sweep_locks now s)) k = Some l \<longleftrightarrow>
     map_of (lr_leases s) k = Some l \<and> now < dl_lease_expires_at l"
  using map_of_filter [OF lock_inv_wf, of s "\<lambda>l. now < dl_lease_expires_at l" k]
  by (auto simp: sweep_locks_def split: option.splits if_splits)

lemma sweep_locks_sequence [simp]: "lr_sequence (sweep_locks now s) = lr_sequence s"
  by (simp add: sweep_locks_def)

lemma lock_inv_sweep:
  assumes inv: "lock_inv s"
  shows "lock_inv (sweep_locks now s)"
proof (rule lock_invI)
  show "dict_wf (lr_leases (sweep_locks now s))"
    using lock_inv_wf [OF inv] by (simp add: sweep_locks_def distinct_map_filter)
qed (use lock_inv_lease [OF inv] lock_inv_token [OF inv] in
  \<open>auto simp only: sweep_locks_lookup [OF inv] sweep_locks_sequence\<close>)

lemma lock_inv_delete:
  assumes inv: "lock_inv s"
  shows "lock_inv (s\<lparr>lr_leases := AList.delete k (lr_leases s)\<rparr>)"
proof (rule lock_invI)
  fix k' l k'' l''
  let ?s = "s\<lparr>lr_leases := AList.delete k (lr_leases s)\<rparr>"
  assume l: "map_of (lr_leases ?s) k' = Some l"
  then have l: "map_of (lr_leases s) k' = Some l" by (auto simp: map_of_del split: if_splits)
  then show "dl_lock_key l = k' \<and> 1 \<le> dl_fencing_token l \<and> dl_fencing_token l \<le> int (lr_sequence ?s)
      \<and> dl_lease_id l = lock_lease_name (nat (dl_fencing_token l))"
    using lock_inv_lease [OF inv] by simp
  assume "map_of (lr_leases ?s) k'' = Some l''"
  then have "map_of (lr_leases s) k'' = Some l''" by (auto simp: map_of_del split: if_splits)
  then show "dl_fencing_token l = dl_fencing_token l'' \<Longrightarrow> k' = k''"
    by (rule lock_inv_token [OF inv l])
qed (use lock_inv_wf [OF inv] in simp)

lemma lock_inv_put:
  assumes inv: "lock_inv s" and n: "lr_sequence s \<le> n"
    and m: "dl_lock_key m = k" "1 \<le> dl_fencing_token m" "dl_fencing_token m \<le> int n"
      "dl_lease_id m = lock_lease_name (nat (dl_fencing_token m))"
    and new: "\<And>k' l. map_of (lr_leases s) k' = Some l \<Longrightarrow> dl_fencing_token l = dl_fencing_token m \<Longrightarrow> k' = k"
  shows "lock_inv \<lparr>lr_leases = AList.update k m (lr_leases s), lr_sequence = n\<rparr>"
proof (rule lock_invI)
  fix k' l k'' l''
  let ?s = "\<lparr>lr_leases = AList.update k m (lr_leases s), lr_sequence = n\<rparr>"
  assume "map_of (lr_leases ?s) k' = Some l"
  then have l: "k' = k \<and> l = m \<or> k' \<noteq> k \<and> map_of (lr_leases s) k' = Some l"
    by (auto simp: map_of_update split: if_splits)
  then show "dl_lock_key l = k' \<and> 1 \<le> dl_fencing_token l \<and> dl_fencing_token l \<le> int (lr_sequence ?s)
      \<and> dl_lease_id l = lock_lease_name (nat (dl_fencing_token l))"
    using m n lock_inv_lease [OF inv, of k' l] by auto
  assume "map_of (lr_leases ?s) k'' = Some l''"
  then have "k'' = k \<and> l'' = m \<or> k'' \<noteq> k \<and> map_of (lr_leases s) k'' = Some l''"
    by (auto simp: map_of_update split: if_splits)
  with l show "dl_fencing_token l = dl_fencing_token l'' \<Longrightarrow> k' = k''"
    using new lock_inv_token [OF inv] by metis
qed (use lock_inv_wf [OF inv] in simp)

lemma lock_inv_update:
  assumes inv: "lock_inv s" and old: "map_of (lr_leases s) k = Some l"
    and same: "dl_lock_key m = k" "dl_fencing_token m = dl_fencing_token l" "dl_lease_id m = dl_lease_id l"
  shows "lock_inv (s\<lparr>lr_leases := AList.update k m (lr_leases s)\<rparr>)"
proof -
  have "lock_inv \<lparr>lr_leases = AList.update k m (lr_leases s), lr_sequence = lr_sequence s\<rparr>"
    using lock_inv_lease [OF inv old] same lock_inv_token [OF inv _ old]
    by (intro lock_inv_put [OF inv]) auto
  then show ?thesis by (cases s) simp
qed

text \<open>What a successful new acquisition leaves behind.\<close>

definition lock_granted :: "string \<Rightarrow> string \<Rightarrow> time \<Rightarrow> time \<Rightarrow> json_mapping \<Rightarrow> lock_registry
    \<Rightarrow> lock_lease \<times> lock_registry" where
  "lock_granted key owner now deadline md s =
     (let n = lr_sequence s + 1; l = new_lock_lease key owner (lock_lease_name n) now deadline n md
      in (l, \<lparr>lr_leases = AList.update key l (lr_leases s), lr_sequence = n\<rparr>))"

lemma lock_inv_granted:
  assumes inv: "lock_inv s"
  shows "lock_inv (snd (lock_granted key owner now d md s))"
  using lock_inv_lease [OF inv]
  by (fastforce simp: lock_granted_def Let_def new_lock_lease_def intro!: lock_inv_put [OF inv])

lemma acquire_cases [consumes 1]:
  assumes inv: "lock_inv s"
  obtains (kept) l where "acquire key owner ttl md now s = (Inr l, sweep_locks now s)"
      and "map_of (lr_leases s) key = Some l" and "dl_owner_id l = owner"
      and "now < dl_lease_expires_at l"
  | (granted) "acquire key owner ttl md now s =
        (let (l, s') = lock_granted key owner now (now + timedelta ttl) md (sweep_locks now s) in (Inr l, s'))"
      and "\<And>l. map_of (lr_leases s) key = Some l \<Longrightarrow> dl_lease_expires_at l \<le> now" and "0 < ttl"
      and "\<not> blank key" and "\<not> blank owner"
  | (conflict) l where "acquire key owner ttl md now s =
        (Inl (LockConflict (''lock is owned by '' @ dl_owner_id l @ '': '' @ key)), sweep_locks now s)"
      and "map_of (lr_leases s) key = Some l" and "dl_owner_id l \<noteq> owner"
      and "now < dl_lease_expires_at l"
  | (invalid) m s' where "acquire key owner ttl md now s = (Inl (LockValueErr m), s')"
      and "lr_leases s' = lr_leases s \<or> lr_leases s' = lr_leases (sweep_locks now s)"
      and "lr_sequence s \<le> lr_sequence s'"
      and "blank key \<or> blank owner \<or> \<not> 0 < ttl"
proof (cases "blank key \<or> blank owner")
  case True
  then have "\<exists>m. acquire key owner ttl md now s = (Inl (LockValueErr m), s)"
    by (auto simp: acquire_def require_lock_key_def require_owner_id_def parse_defs)
  with True show ?thesis using invalid [of _ s] by auto
next
  case False
  then have e: "acquire key owner ttl md now s = (case map_of (lr_leases (sweep_locks now s)) key of
      Some l \<Rightarrow> if dl_owner_id l = owner then (Inr l, sweep_locks now s)
        else (Inl (LockConflict (''lock is owned by '' @ dl_owner_id l @ '': '' @ key)), sweep_locks now s)
    | None \<Rightarrow> let (lid, s2) = next_lock_lease_id (sweep_locks now s)
             in check_op (lock_deadline now ttl) s2 (\<lambda>deadline.
                  check_op (lock_lease_checked
                      (new_lock_lease key owner lid now deadline (lr_sequence s2) md)) s2 (\<lambda>l.
                    (Inr l, s2\<lparr>lr_leases := AList.update key l (lr_leases s2)\<rparr>))))"
    by (simp add: acquire_def require_lock_key_def require_owner_id_def parse_defs expire_locks_eq [OF inv]
      split: option.splits)
  show ?thesis
  proof (cases "map_of (lr_leases (sweep_locks now s)) key")
    case (Some l)
    then have l: "map_of (lr_leases s) key = Some l" "now < dl_lease_expires_at l"
      by (simp_all only: sweep_locks_lookup [OF inv])
    show ?thesis
      by (cases "dl_owner_id l = owner") (use l Some e in \<open>simp_all add: kept conflict del: map_of_eq_Some_iff\<close>)
  next
    case None
    then have old: "dl_lease_expires_at l \<le> now" if "map_of (lr_leases s) key = Some l" for l
      using sweep_locks_lookup [OF inv, of now key l] that by force
    show ?thesis
    proof (cases "0 < ttl")
      case True
      have "acquire key owner ttl md now s =
        (let (l, s') = lock_granted key owner now (now + timedelta ttl) md (sweep_locks now s) in (Inr l, s'))"
        using True by (simp add: e None next_lock_lease_id_def lock_deadline_def parse_defs lock_granted_def
          lock_lease_checked_def Let_def new_lock_lease_def)
      with False True old show ?thesis by (intro granted) auto
    next
      case f: False
      with e None have "acquire key owner ttl md now s = (Inl (LockValueErr ''ttl_seconds must be positive''),
          (sweep_locks now s)\<lparr>lr_sequence := lr_sequence s + 1\<rparr>)"
        by (simp add: next_lock_lease_id_def lock_deadline_def parse_defs Let_def)
      with f show ?thesis by (intro invalid) auto
    qed
  qed
qed

lemma active_lease_cases [consumes 1]:
  assumes inv: "lock_inv s"
  obtains (held) l where "active_lease lid owner now s = (Inr l, s)"
      and "map_of (lr_leases s) (dl_lock_key l) = Some l" and "dl_lease_id l = lid"
      and "dl_owner_id l = owner" and "now < dl_lease_expires_at l"
  | (lost) e s' where "active_lease lid owner now s = (Inl e, s')" and "s' = s \<or> s' = sweep_locks now s"
proof (cases "blank owner")
  case True
  then show ?thesis
    by (intro lost [of "LockValueErr ''owner_id must not be empty''" s])
      (simp_all add: active_lease_def require_owner_id_def parse_defs)
next
  case False
  then have req: "require_owner_id owner = Inr owner" by (simp add: require_owner_id_def parse_defs)
  show ?thesis
  proof (cases "find (\<lambda>l. dl_lease_id l = lid) (dict_values (lr_leases s))")
    case None
    then show ?thesis
      by (intro lost [of "LockLeaseLost (''lock lease not found: '' @ lid)" s])
        (simp_all add: active_lease_def req)
  next
    case (Some l)
    then obtain k where k: "map_of (lr_leases s) k = Some l" and id: "dl_lease_id l = lid"
      using find_dict_value [OF lock_inv_wf [OF inv]] by blast
    then have kk: "k = dl_lock_key l" using lock_inv_lease [OF inv k] by simp
    consider "dl_owner_id l \<noteq> owner" | "dl_owner_id l = owner" "dl_lease_expires_at l \<le> now"
      | "dl_owner_id l = owner" "now < dl_lease_expires_at l" by fastforce
    then show ?thesis
    proof cases
      case 1
      then show ?thesis
        by (intro lost [of "LockLeaseLost (''lock lease is owned by another owner: '' @ lid)" s])
          (simp_all add: active_lease_def req Some)
    next
      case 2
      then show ?thesis
        by (intro lost [of "LockLeaseLost (''lock lease expired: '' @ lid)" "sweep_locks now s"])
          (simp_all add: active_lease_def req Some expire_locks_eq [OF inv])
    next
      case 3
      then show ?thesis
        using k kk id by (intro held [of l]) (simp_all add: active_lease_def req Some del: map_of_eq_Some_iff)
    qed
  qed
qed

end
