(* ===== verification/Lock_Safety.thy ===== *)
theory Lock_Safety
  imports Dist_Locks
begin

text \<open>
  The lock registry as a system: the invariant is kept by every operation, a lease survives
  every event that is not its holder's and comes before its deadline, and tokens grow.
\<close>

lemma heartbeat_lock_cases [consumes 1]:
  assumes inv: "lock_inv s"
  obtains (renewed) l where "map_of (lr_leases s) (dl_lock_key l) = Some l" and "dl_lease_id l = lid"
      and "dl_owner_id l = owner" and "now < dl_lease_expires_at l" and "0 < ttl"
      and "heartbeat_lock lid owner ttl now s =
        (let m = l\<lparr>dl_heartbeat_at := now, dl_lease_expires_at := now + timedelta ttl\<rparr>
         in (Inr m, s\<lparr>lr_leases := AList.update (dl_lock_key l) m (lr_leases s)\<rparr>))"
  | (error) e s' where "heartbeat_lock lid owner ttl now s = (Inl e, s')"
      and "s' = s \<or> s' = sweep_locks now s"
  using inv
proof (cases rule: active_lease_cases [of s lid owner now])
  case h: (held l)
  show ?thesis
  proof (cases "0 < ttl")
    case True
    have "0 \<le> dl_fencing_token l" using lock_inv_lease [OF inv h(2)] by simp
    with h True show ?thesis
      by (intro renewed [of l]) (simp_all add: heartbeat_lock_def lock_deadline_def parse_defs
        lock_lease_checked_def Let_def del: map_of_eq_Some_iff)
  next
    case False
    with h show ?thesis
      by (intro error [of "LockValueErr ''ttl_seconds must be positive''" s])
        (simp_all add: heartbeat_lock_def lock_deadline_def parse_defs)
  qed
next
  case h: (lost e s')
  then show ?thesis by (intro error [of e s']) (simp_all add: heartbeat_lock_def)
qed

lemma release_cases [consumes 1]:
  assumes inv: "lock_inv s"
  obtains (released) l where "map_of (lr_leases s) (dl_lock_key l) = Some l" and "dl_lease_id l = lid"
      and "dl_owner_id l = owner" and "now < dl_lease_expires_at l"
      and "release lid owner now s =
        (Inr l, s\<lparr>lr_leases := AList.delete (dl_lock_key l) (lr_leases s)\<rparr>)"
  | (error) e s' where "release lid owner now s = (Inl e, s')" and "s' = s \<or> s' = sweep_locks now s"
  using inv
proof (cases rule: active_lease_cases [of s lid owner now])
  case (held l)
  then show ?thesis by (intro released [of l]) (simp_all add: release_def del: map_of_eq_Some_iff)
next
  case (lost e s')
  then show ?thesis by (intro error [of e s']) (simp_all add: release_def)
qed

subsection \<open>Every operation keeps the invariant\<close>

lemma lock_inv_same_leases:
  assumes "lock_inv s" and "lr_leases s' = lr_leases s" and "lr_sequence s \<le> lr_sequence s'"
  shows "lock_inv s'"
  using lock_inv_wf [OF assms(1)] lock_inv_lease [OF assms(1)] lock_inv_token [OF assms(1)] assms(2,3)
  by (intro lock_invI) (fastforce simp del: map_of_eq_Some_iff)+

lemma lock_inv_acquire:
  assumes inv: "lock_inv s"
  shows "lock_inv (snd (acquire key owner ttl md now s))"
  using inv
proof (cases rule: acquire_cases [of s key owner ttl md now])
  case granted
  then show ?thesis
    using lock_inv_granted [OF lock_inv_sweep [OF inv], of key owner now "now + timedelta ttl" md now]
    by (simp add: split_beta)
next
  case (invalid m s')
  then show ?thesis
    using lock_inv_same_leases [OF inv, of s'] lock_inv_same_leases [OF lock_inv_sweep [OF inv], of s' now]
    by auto
qed (simp_all add: lock_inv_sweep [OF inv])

lemma lock_inv_heartbeat:
  assumes inv: "lock_inv s"
  shows "lock_inv (snd (heartbeat_lock lid owner ttl now s))"
  using inv
proof (cases rule: heartbeat_lock_cases [of s lid owner now ttl])
  case (renewed l)
  then show ?thesis using lock_inv_update [OF inv renewed(1)] by (simp add: Let_def)
qed (use lock_inv_sweep [OF inv] inv in auto)

lemma lock_inv_release:
  assumes inv: "lock_inv s"
  shows "lock_inv (snd (release lid owner now s))"
  using inv
proof (cases rule: release_cases [of s lid owner now])
  case (released l)
  then show ?thesis by (simp add: lock_inv_delete [OF inv])
qed (use lock_inv_sweep [OF inv] inv in auto)

lemma lock_inv_step: "lock_inv s \<Longrightarrow> lock_inv (lock_step s e)"
  by (cases e) (simp_all add: lock_inv_acquire lock_inv_heartbeat lock_inv_release
    expire_locks_eq lock_inv_sweep)

interpretation lk: invariant_system lock_step empty_locks lock_inv
  by unfold_locales (simp_all add: lock_inv_empty lock_inv_step)

definition live_locks :: "lock_registry \<Rightarrow> (string \<times> time) set" where
  "live_locks s = {(k, d). \<exists>l. map_of (lr_leases s) k = Some l \<and> dl_lease_expires_at l = d}"

interpretation lk_leases: expiring_store "\<lambda>now s. snd (expire_locks now s)" live_locks lock_inv
proof
  show "lock_inv (snd (expire_locks t s))" if "lock_inv s" for s t
    using that by (simp add: expire_locks_eq lock_inv_sweep)
  show "live_locks (snd (expire_locks t s)) = {p \<in> live_locks s. t < snd p}" if inv: "lock_inv s" for s t
    unfolding expire_locks_eq [OF inv] live_locks_def snd_conv sweep_locks_lookup [OF inv] by auto
qed

subsection \<open>What one event may do to a lease\<close>

fun event_now :: "lock_event \<Rightarrow> time" where
  "event_now (Acquire key owner ttl md now) = now"
| "event_now (HeartbeatLock lid owner ttl now) = now"
| "event_now (Release lid owner now) = now"
| "event_now (ExpireLocks now) = now"

text \<open>The operations that only the holder of \<open>l\<close> can perform on it.\<close>

fun by_holder :: "lock_lease \<Rightarrow> lock_event \<Rightarrow> bool" where
  "by_holder l (HeartbeatLock lid owner ttl now) = (lid = dl_lease_id l \<and> owner = dl_owner_id l)"
| "by_holder l (Release lid owner now) = (lid = dl_lease_id l \<and> owner = dl_owner_id l)"
| "by_holder l _ = False"

lemma lost_keeps:
  assumes "lock_inv s" and "map_of (lr_leases s) k = Some l" and "now < dl_lease_expires_at l"
    and "s' = s \<or> s' = sweep_locks now s"
  shows "map_of (lr_leases s') k = Some l"
  using assms sweep_locks_lookup [OF assms(1)] by blast

lemma step_keeps_lease:
  assumes inv: "lock_inv s" and l: "map_of (lr_leases s) k = Some l"
    and now: "event_now e < dl_lease_expires_at l" and other: "\<not> by_holder l e"
  shows "map_of (lr_leases (lock_step s e)) k = Some l"
proof (cases e)
  case e: (Acquire key owner ttl md now)
  have sw: "map_of (lr_leases (sweep_locks now s)) k = Some l"
    using lost_keeps [OF inv l] assms(3) by (simp add: e)
  from inv show ?thesis
  proof (cases rule: acquire_cases [of s key owner ttl md now])
    case granted
    have "k \<noteq> key" using granted(2) [of l] l now e by auto
    with granted(1) sw e show ?thesis
      by (simp add: lock_granted_def Let_def map_of_update del: map_of_eq_Some_iff)
  qed (use l sw e in \<open>auto simp del: map_of_eq_Some_iff\<close>)
next
  case e: (HeartbeatLock lid owner ttl now)
  from inv show ?thesis
  proof (cases rule: heartbeat_lock_cases [of s lid owner now ttl])
    case (renewed m)
    then have "m \<noteq> l" using other e by auto
    then have "dl_lock_key m \<noteq> k" using renewed(1) l by auto
    with renewed(6) l e show ?thesis by (simp add: Let_def map_of_update del: map_of_eq_Some_iff)
  next
    case (error m s')
    then show ?thesis using lost_keeps [OF inv l] now e by simp
  qed
next
  case e: (Release lid owner now)
  from inv show ?thesis
  proof (cases rule: release_cases [of s lid owner now])
    case (released m)
    then have "m \<noteq> l" using other e by auto
    then have "dl_lock_key m \<noteq> k" using released(1) l by auto
    with released(5) l e show ?thesis by (simp add: map_of_del del: map_of_eq_Some_iff)
  next
    case (error m s')
    then show ?thesis using lost_keeps [OF inv l] now e by simp
  qed
next
  case e: (ExpireLocks now)
  then show ?thesis using lost_keeps [OF inv l] assms(3) by (simp add: expire_locks_eq [OF inv])
qed

lemma run_keeps_lease:
  assumes "lock_inv s" and "map_of (lr_leases s) k = Some l"
    and "\<forall>e \<in> set es. event_now e < dl_lease_expires_at l \<and> \<not> by_holder l e"
  shows "map_of (lr_leases (run_events lock_step s es)) k = Some l"
proof (rule lk.run_stable [where E = "{e. event_now e < dl_lease_expires_at l \<and> \<not> by_holder l e}"])
  fix s e
  assume "lock_inv s" "map_of (lr_leases s) k = Some l"
    and "e \<in> {e. event_now e < dl_lease_expires_at l \<and> \<not> by_holder l e}"
  then show "map_of (lr_leases (lock_step s e)) k = Some l" by (simp add: step_keeps_lease del: map_of_eq_Some_iff)
qed (use assms in auto)

text \<open>A lease after an event is one from before, as far as its identity goes, or newer than
  every lease from before.\<close>

definition lease_since :: "lock_registry \<Rightarrow> string \<Rightarrow> lock_lease \<Rightarrow> bool" where
  "lease_since s k l \<longleftrightarrow> int (lr_sequence s) < dl_fencing_token l
     \<or> (\<exists>l0. map_of (lr_leases s) k = Some l0 \<and> dl_lease_id l0 = dl_lease_id l
          \<and> dl_owner_id l0 = dl_owner_id l \<and> dl_fencing_token l0 = dl_fencing_token l)"

lemma lease_since_kept: "map_of (lr_leases s) k = Some l \<Longrightarrow> lease_since s k l"
  by (auto simp: lease_since_def)

lemma lease_since_lost:
  assumes "lock_inv s" and "s' = s \<or> s' = sweep_locks now s" and "map_of (lr_leases s') k = Some l"
  shows "lease_since s k l"
proof -
  have "map_of (lr_leases s) k = Some l" using assms sweep_locks_lookup [OF assms(1)] by blast
  then show ?thesis by (rule lease_since_kept)
qed

lemma step_lease_since:
  assumes inv: "lock_inv s" and l: "map_of (lr_leases (lock_step s e)) k = Some l"
  shows "lease_since s k l \<and> lr_sequence s \<le> lr_sequence (lock_step s e)"
proof (cases e)
  case e: (Acquire key owner ttl md now)
  from inv show ?thesis
  proof (cases rule: acquire_cases [of s key owner ttl md now])
    case granted
    show ?thesis
    proof (cases "k = key")
      case True
      with granted(1) l e show ?thesis
        by (auto simp: lock_granted_def Let_def map_of_update lease_since_def new_lock_lease_def)
    next
      case False
      with granted(1) l e have "map_of (lr_leases (sweep_locks now s)) k = Some l"
        by (simp add: lock_granted_def Let_def map_of_update del: map_of_eq_Some_iff)
      then have "lease_since s k l" by (intro lease_since_lost [OF inv]) auto
      with granted(1) e show ?thesis by (simp add: lock_granted_def Let_def)
    qed
  next
    case (invalid m s')
    then have "lease_since s k l"
      using lease_since_lost [OF inv, of s] lease_since_lost [OF inv, of "sweep_locks now s" now] l e
      by (auto simp del: map_of_eq_Some_iff)
    with invalid e show ?thesis by simp
  qed (use l e lease_since_lost [OF inv, of "sweep_locks now s"] in \<open>auto simp del: map_of_eq_Some_iff\<close>)
next
  case e: (HeartbeatLock lid owner ttl now)
  from inv show ?thesis
  proof (cases rule: heartbeat_lock_cases [of s lid owner now ttl])
    case (renewed m)
    then show ?thesis using l e
      by (cases "k = dl_lock_key m")
        (auto simp: Let_def map_of_update lease_since_def simp del: map_of_eq_Some_iff)
  next
    case (error m s')
    then show ?thesis using lease_since_lost [OF inv error(2)] l e by auto
  qed
next
  case e: (Release lid owner now)
  from inv show ?thesis
  proof (cases rule: release_cases [of s lid owner now])
    case (released m)
    then show ?thesis using l e
      by (cases "k = dl_lock_key m") (auto simp: map_of_del lease_since_def simp del: map_of_eq_Some_iff)
  next
    case (error m s')
    then show ?thesis using lease_since_lost [OF inv error(2)] l e by auto
  qed
next
  case e: (ExpireLocks now)
  then show ?thesis using l lease_since_lost [OF inv, of "sweep_locks now s" now]
    by (simp add: expire_locks_eq [OF inv])
qed

lemma step_sequence: "lock_inv s \<Longrightarrow> lr_sequence s \<le> lr_sequence (lock_step s e)"
proof (cases e)
  case e: (Acquire key owner ttl md now)
  assume inv: "lock_inv s"
  then show ?thesis
    by (cases rule: acquire_cases [of s key owner ttl md now]) (simp_all add: e lock_granted_def Let_def)
next
  case e: (HeartbeatLock lid owner ttl now)
  assume inv: "lock_inv s"
  then show ?thesis
    by (cases rule: heartbeat_lock_cases [of s lid owner now ttl]) (auto simp: e Let_def)
next
  case e: (Release lid owner now)
  assume inv: "lock_inv s"
  then show ?thesis by (cases rule: release_cases [of s lid owner now]) (auto simp: e)
qed (simp add: expire_locks_eq)

lemma run_sequence: "lock_inv s \<Longrightarrow> lr_sequence s \<le> lr_sequence (run_events lock_step s es)"
  by (rule lk.run_mono [where E = UNIV]) (simp_all add: step_sequence)

lemma run_lease_since:
  assumes "lock_inv s" and "map_of (lr_leases (run_events lock_step s es)) k = Some l"
  shows "lease_since s k l"
  using assms
proof (induction es arbitrary: s)
  case Nil
  then show ?case by (simp add: lease_since_kept del: map_of_eq_Some_iff)
next
  case (Cons e es)
  then have "lease_since (lock_step s e) k l" by (simp add: lock_inv_step del: map_of_eq_Some_iff)
  then consider "int (lr_sequence (lock_step s e)) < dl_fencing_token l"
    | l0 where "map_of (lr_leases (lock_step s e)) k = Some l0" "dl_lease_id l0 = dl_lease_id l"
        "dl_owner_id l0 = dl_owner_id l" "dl_fencing_token l0 = dl_fencing_token l"
    unfolding lease_since_def by blast
  then show ?case
  proof cases
    case 1
    then show ?thesis using step_sequence [OF Cons.prems(1), of e] by (simp add: lease_since_def)
  next
    case 2
    then show ?thesis using step_lease_since [OF Cons.prems(1) 2(1)] by (simp add: lease_since_def)
  qed
qed

subsection \<open>Properties\<close>

text \<open>C5. Locks exclude: while a lease of a key is live, that is, over any run of operations that
  come before its deadline and are not its holder's own heartbeat or release (by lease id and
  owner), the key stays with the holder under the same lease, and every attempt of another
  owner to acquire it before the deadline is refused.\<close>

theorem lock_mutual_exclusion:
  assumes inv: "lock_inv s" and l: "map_of (lr_leases s) k = Some l"
    and es: "\<forall>e \<in> set es. event_now e < dl_lease_expires_at l \<and> \<not> by_holder l e"
    and now: "now < dl_lease_expires_at l" and owner: "owner \<noteq> dl_owner_id l"
  shows "map_of (lr_leases (run_events lock_step s es)) k = Some l
    \<and> isl (fst (acquire k owner ttl md now (run_events lock_step s es)))"
proof -
  let ?s = "run_events lock_step s es"
  have k: "map_of (lr_leases ?s) k = Some l" using inv l es by (rule run_keeps_lease)
  from lk.inv_run [OF inv] have "isl (fst (acquire k owner ttl md now ?s))"
  proof (cases rule: acquire_cases [of ?s k owner ttl md now])
    case granted
    then show ?thesis using k now by fastforce
  qed (use k owner in auto)
  with k show ?thesis by blast
qed

definition locks_a :: lock_registry where
  "locks_a = snd (acquire ''db'' ''A'' 30 [] 0 empty_locks)"

lemma locks_a_inv: "lock_inv locks_a"
  unfolding locks_a_def by (rule lock_inv_acquire [OF lock_inv_empty])

theorem lock_mutual_exclusion_witness:
  "isl (fst (acquire ''db'' ''B'' 30 [] 20000000
      (run_events lock_step locks_a [ExpireLocks 10000000, Release ''lock-lease-1'' ''B'' 15000000])))"
proof -
  have 1: "map_of (lr_leases locks_a) ''db'' = Some (the (map_of (lr_leases locks_a) ''db''))"
    by (rule some_the) code_simp
  have 2: "dl_lease_expires_at (the (map_of (lr_leases locks_a) ''db'')) = 30000000"
    "dl_owner_id (the (map_of (lr_leases locks_a) ''db'')) = ''A''" by code_simp+
  show ?thesis by (rule conjunct2 [OF lock_mutual_exclusion [OF locks_a_inv 1]]) (simp_all add: 2)
qed

text \<open>Fencing tokens of a lock grow: if a key is held under a lease now, then after any run
  of operations it is free, or held under the same lease by the same owner, or held under a
  lease with a strictly larger token. The counter is shared by all keys and never runs back,
  so no lease id is used twice.\<close>

theorem lock_fencing_increases:
  assumes inv: "lock_inv s" and l: "map_of (lr_leases s) k = Some l"
    and l': "map_of (lr_leases (run_events lock_step s es)) k = Some l'"
  shows "dl_fencing_token l < dl_fencing_token l'
    \<or> dl_lease_id l' = dl_lease_id l \<and> dl_owner_id l' = dl_owner_id l
      \<and> dl_fencing_token l' = dl_fencing_token l"
  using run_lease_since [OF inv l'] lock_inv_lease [OF inv l] l
  by (auto simp: lease_since_def simp del: map_of_eq_Some_iff)

definition locks_b :: lock_registry where
  "locks_b = run_events lock_step locks_a [Acquire ''db'' ''B'' 30 [] 40000000]"

theorem lock_fencing_increases_witness:
  "dl_owner_id (the (map_of (lr_leases locks_b) ''db'')) = ''B'' \<and>
   dl_fencing_token (the (map_of (lr_leases locks_a) ''db''))
     < dl_fencing_token (the (map_of (lr_leases locks_b) ''db''))"
proof -
  have 1: "map_of (lr_leases locks_a) ''db'' = Some (the (map_of (lr_leases locks_a) ''db''))"
    by (rule some_the) code_simp
  have 2: "map_of (lr_leases locks_b) ''db'' = Some (the (map_of (lr_leases locks_b) ''db''))"
    by (rule some_the) code_simp
  have 3: "dl_owner_id (the (map_of (lr_leases locks_b) ''db'')) = ''B''"
    "dl_owner_id (the (map_of (lr_leases locks_a) ''db'')) = ''A''" by code_simp+
  show ?thesis using lock_fencing_increases [OF locks_a_inv 1 2 [unfolded locks_b_def]]
    unfolding locks_b_def [symmetric] using 3 by simp
qed

text \<open>A lock is handed over: once its holder released it, or once its deadline has passed
  without a release, any owner that asks for the key with a positive time to live gets it,
  under a new lease until \<open>now + ttl\<close> and with a larger token than the lease before.\<close>

theorem lock_hand_over:
  assumes inv: "lock_inv s"
    and free: "release lid w now s = (Inr l, s') \<and> dl_lock_key l = k
      \<or> s' = s \<and> map_of (lr_leases s) k = Some l \<and> dl_lease_expires_at l \<le> now'"
    and req: "0 < ttl" "\<not> blank k" "\<not> blank owner"
  shows "\<exists>l' s''. acquire k owner ttl md now' s' = (Inr l', s'') \<and> map_of (lr_leases s'') k = Some l'
    \<and> dl_owner_id l' = owner \<and> dl_lease_expires_at l' = now' + timedelta ttl
    \<and> dl_fencing_token l < dl_fencing_token l'"
proof -
  have s': "lock_inv s' \<and> lr_sequence s' = lr_sequence s \<and> dl_fencing_token l \<le> int (lr_sequence s)
      \<and> (\<forall>m. map_of (lr_leases s') k = Some m \<longrightarrow> dl_lease_expires_at m \<le> now')"
    using free
  proof
    assume r: "release lid w now s = (Inr l, s') \<and> dl_lock_key l = k"
    from inv show ?thesis
    proof (cases rule: release_cases [of s lid w now])
      case (released m)
      then have "s' = s\<lparr>lr_leases := AList.delete k (lr_leases s)\<rparr>" "map_of (lr_leases s) k = Some l"
        using r by auto
      then show ?thesis using lock_inv_delete [OF inv, of k] lock_inv_lease [OF inv, of k l]
        by (simp add: map_of_del del: map_of_eq_Some_iff)
    qed (use r in auto)
  next
    assume "s' = s \<and> map_of (lr_leases s) k = Some l \<and> dl_lease_expires_at l \<le> now'"
    then show ?thesis using inv lock_inv_lease [OF inv, of k l] by auto
  qed
  then have "lock_inv s'" by simp
  then show ?thesis
  proof (cases rule: acquire_cases [of s' k owner ttl md now'])
    case granted
    with s' show ?thesis
      by (auto simp: lock_granted_def Let_def new_lock_lease_def map_of_update)
  qed (use s' req in force)+
qed

theorem lock_hand_over_witness:
  "\<exists>l' s''. acquire ''db'' ''B'' 10 [] 5 (snd (release ''lock-lease-1'' ''A'' 3 locks_a)) = (Inr l', s'')
    \<and> dl_owner_id l' = ''B'' \<and> dl_lease_expires_at l' = 5 + 10000000"
proof -
  let ?r = "release ''lock-lease-1'' ''A'' 3 locks_a"
  have 1: "?r = (Inr (value_of ?r), snd ?r)" by (rule outcome_ok) code_simp
  have 2: "dl_lock_key (value_of ?r) = ''db''" by code_simp
  have "\<not> blank ''db''" "\<not> blank ''B''" by code_simp+
  with 1 2 lock_hand_over [OF locks_a_inv, of "''lock-lease-1''" "''A''" 3 "value_of ?r" "snd ?r" "''db''" 5 10 "''B''" "[]"]
  show ?thesis by auto
qed

end
