(* ===== verification/Worker_Registry.thy ===== *)
theory Worker_Registry
  imports Core_Models
begin

text \<open>
  The worker registry, \<open>InMemoryWorkerRegistry\<close> of \<open>distributed/worker_state.py\<close>: records
  with a heartbeat lease, their statuses, and what the operations keep.
\<close>

subsection \<open>State and operations\<close>

datatype worker_status = Online | Draining | Offline | Lost

datatype worker_error = WorkerValueErr string | WorkerNotFound string

record worker_record =
  wr_worker_id :: string
  wr_status :: worker_status
  wr_registered_at :: time
  wr_heartbeat_at :: time
  wr_lease_expires_at :: time
  wr_capabilities :: "string list"
  wr_metadata :: json_mapping
  wr_last_error :: "string option"

type_synonym worker_registry = "(string, worker_record) dict"
type_synonym 'a worker_outcome = "(worker_registry, worker_error, 'a) outcome"

definition empty_workers :: worker_registry where
  "empty_workers = []"

definition require_worker_id :: "string \<Rightarrow> worker_error + string" where
  "require_worker_id w = map_error WorkerValueErr (parse_non_empty_string w ''worker_id'')"

definition validate_ttl :: "rat \<Rightarrow> worker_error + rat" where
  "validate_ttl ttl = map_error WorkerValueErr (parse_positive_float ttl ''ttl_seconds'')"

definition worker_deadline :: "time \<Rightarrow> rat \<Rightarrow> time" where
  "worker_deadline now ttl = now + timedelta ttl"

definition registered_record :: "string \<Rightarrow> string list \<Rightarrow> json_mapping \<Rightarrow> rat \<Rightarrow> time
    \<Rightarrow> worker_record option \<Rightarrow> worker_record" where
  "registered_record w caps md ttl now old =
     (case old of
        Some r \<Rightarrow> r\<lparr>wr_status := Online, wr_heartbeat_at := now,
          wr_lease_expires_at := worker_deadline now ttl, wr_capabilities := caps,
          wr_metadata := md, wr_last_error := None\<rparr>
      | None \<Rightarrow> \<lparr>wr_worker_id = w, wr_status = Online, wr_registered_at = now,
          wr_heartbeat_at = now, wr_lease_expires_at = worker_deadline now ttl,
          wr_capabilities = caps, wr_metadata = md, wr_last_error = None\<rparr>)"

definition register_worker :: "string \<Rightarrow> string list \<Rightarrow> json_mapping \<Rightarrow> rat \<Rightarrow> time \<Rightarrow> worker_registry
    \<Rightarrow> worker_record worker_outcome" where
  "register_worker w caps md ttl now s =
     check_op (require_worker_id w) s (\<lambda>_. check_op (validate_ttl ttl) s (\<lambda>_.
       let r = registered_record w caps md ttl now (map_of s w)
       in (Inr r, AList.update w r s)))"

definition get_worker :: "string \<Rightarrow> worker_registry \<Rightarrow> worker_error + worker_record" where
  "get_worker w s =
     (case require_worker_id w of Inl e \<Rightarrow> Inl e | Inr _ \<Rightarrow>
        (case map_of s w of
           None \<Rightarrow> Inl (WorkerNotFound (''worker not found: '' @ w)) | Some r \<Rightarrow> Inr r))"

definition lost_record :: "string \<Rightarrow> time \<Rightarrow> worker_record \<Rightarrow> worker_record" where
  "lost_record w now r = r\<lparr>wr_status := Lost, wr_heartbeat_at := now,
     wr_last_error := Some (''worker heartbeat expired: '' @ w)\<rparr>"

fun expire_workers_loop :: "time \<Rightarrow> (string \<times> worker_record) list \<Rightarrow> worker_registry
    \<Rightarrow> worker_record list \<times> worker_registry" where
  "expire_workers_loop now [] s = ([], s)"
| "expire_workers_loop now ((w, r) # rs) s =
     (if wr_status r \<in> {Offline, Lost} then expire_workers_loop now rs s
      else if wr_lease_expires_at r > now then expire_workers_loop now rs s
      else (let r' = lost_record w now r;
                (expired, s') = expire_workers_loop now rs (AList.update w r' s)
            in (r' # expired, s')))"

definition expire_workers :: "time \<Rightarrow> worker_registry \<Rightarrow> worker_record list worker_outcome" where
  "expire_workers now s =
     (let (expired, s') = expire_workers_loop now s s
      in (Inr (sort_key wr_worker_id expired), s'))"

definition heartbeat_worker :: "string \<Rightarrow> rat \<Rightarrow> time \<Rightarrow> worker_registry
    \<Rightarrow> worker_record worker_outcome" where
  "heartbeat_worker w ttl now s =
     check_op (validate_ttl ttl) s (\<lambda>_. check_op (get_worker w s) s (\<lambda>r.
       if wr_lease_expires_at r \<le> now
       then bind_op (expire_workers now s)
              (\<lambda>_ s1. (Inl (WorkerNotFound (''worker lease expired: '' @ w)), s1))
       else (let r' = r\<lparr>wr_heartbeat_at := now, wr_lease_expires_at := worker_deadline now ttl,
                wr_status := (if wr_status r = Lost then Online else wr_status r)\<rparr>
             in (Inr r', AList.update w r' s))))"

text \<open>\<open>drain\<close> and \<open>mark_offline\<close> do not look at the status they overwrite.\<close>

definition drain_worker :: "string \<Rightarrow> string \<Rightarrow> time \<Rightarrow> worker_registry
    \<Rightarrow> worker_record worker_outcome" where
  "drain_worker w reason now s =
     check_op (map_error WorkerValueErr (parse_non_empty_string reason ''drain reason'')) s (\<lambda>_.
       check_op (get_worker w s) s (\<lambda>r.
         let r' = r\<lparr>wr_status := Draining, wr_heartbeat_at := now, wr_last_error := Some reason\<rparr>
         in (Inr r', AList.update w r' s)))"

definition mark_offline :: "string \<Rightarrow> string \<Rightarrow> time \<Rightarrow> worker_registry
    \<Rightarrow> worker_record worker_outcome" where
  "mark_offline w reason now s =
     check_op (map_error WorkerValueErr (parse_non_empty_string reason ''offline reason'')) s (\<lambda>_.
       check_op (get_worker w s) s (\<lambda>r.
         let r' = r\<lparr>wr_status := Offline, wr_heartbeat_at := now, wr_last_error := Some reason\<rparr>
         in (Inr r', AList.update w r' s)))"

definition is_active :: "worker_record \<Rightarrow> bool" where
  "is_active r \<longleftrightarrow> wr_status r \<in> {Online, Draining}"

definition active_workers :: "worker_registry \<Rightarrow> worker_record list" where
  "active_workers s = sort_key wr_worker_id (filter is_active (dict_values s))"

definition list_workers :: "worker_status option \<Rightarrow> worker_registry \<Rightarrow> worker_record list" where
  "list_workers status s =
     (let records = sort_key wr_worker_id (dict_values s)
      in case status of None \<Rightarrow> records | Some st \<Rightarrow> filter (\<lambda>r. wr_status r = st) records)"

datatype worker_event =
    Register string "string list" json_mapping rat time
  | WorkerHeartbeat string rat time
  | Drain string string time
  | MarkOffline string string time
  | ExpireWorkers time

fun worker_step :: "worker_registry \<Rightarrow> worker_event \<Rightarrow> worker_registry" where
  "worker_step s (Register w caps md ttl now) = snd (register_worker w caps md ttl now s)"
| "worker_step s (WorkerHeartbeat w ttl now) = snd (heartbeat_worker w ttl now s)"
| "worker_step s (Drain w reason now) = snd (drain_worker w reason now s)"
| "worker_step s (MarkOffline w reason now) = snd (mark_offline w reason now s)"
| "worker_step s (ExpireWorkers now) = snd (expire_workers now s)"

subsection \<open>Invariant\<close>

text \<open>A record is filed under its id, and a lost worker's lease had lapsed when it was marked.\<close>

definition worker_inv :: "worker_registry \<Rightarrow> bool" where
  "worker_inv s \<longleftrightarrow> dict_wf s \<and> (\<forall>w r. map_of s w = Some r \<longrightarrow> wr_worker_id r = w
     \<and> (wr_status r = Lost \<longrightarrow> wr_lease_expires_at r \<le> wr_heartbeat_at r))"

lemma worker_inv_empty: "worker_inv empty_workers"
  by (simp add: worker_inv_def empty_workers_def)

lemma worker_inv_wf: "worker_inv s \<Longrightarrow> dict_wf s"
  by (simp add: worker_inv_def)

lemma worker_inv_record: "worker_inv s \<Longrightarrow> map_of s w = Some r \<Longrightarrow> wr_worker_id r = w
     \<and> (wr_status r = Lost \<longrightarrow> wr_lease_expires_at r \<le> wr_heartbeat_at r)"
  by (simp add: worker_inv_def)

lemma worker_inv_update:
  assumes "worker_inv s" and "wr_worker_id r = w"
    and "wr_status r = Lost \<Longrightarrow> wr_lease_expires_at r \<le> wr_heartbeat_at r"
  shows "worker_inv (AList.update w r s)"
  using assms dict_wf_update [OF worker_inv_wf [OF assms(1)], of w r]
  by (auto simp: worker_inv_def map_of_update simp del: map_of_eq_Some_iff)

lemma lost_record_same [simp]:
  "\<not> is_active (lost_record w now r)" "wr_lease_expires_at (lost_record w now r) = wr_lease_expires_at r"
  "wr_worker_id (lost_record w now r) = wr_worker_id r" "wr_heartbeat_at (lost_record w now r) = now"
  "wr_status (lost_record w now r) = Lost"
  by (simp_all add: lost_record_def is_active_def)

definition worker_overdue :: "time \<Rightarrow> worker_record \<Rightarrow> bool" where
  "worker_overdue now r \<longleftrightarrow> is_active r \<and> wr_lease_expires_at r \<le> now"

definition sweep_workers :: "time \<Rightarrow> worker_registry \<Rightarrow> worker_registry" where
  "sweep_workers now s = map_ran (\<lambda>w r. if worker_overdue now r then lost_record w now r else r) s"

lemma expire_workers_loop_snd:
  assumes "dict_wf (d1 @ d2)"
  shows "snd (expire_workers_loop now d2 (d1 @ d2)) = d1 @ sweep_workers now d2"
  using assms
proof (induction d2 arbitrary: d1)
  case Nil
  then show ?case by (simp add: sweep_workers_def)
next
  case (Cons p d2)
  obtain w r where p: "p = (w, r)" by (cases p)
  have upd: "AList.update w v (d1 @ (w, r) # d2) = d1 @ (w, v) # d2" for v
    using Cons.prems by (induction d1) (auto simp: p)
  have step: "snd (expire_workers_loop now ((w, r) # d2) t) =
      snd (expire_workers_loop now d2 (if worker_overdue now r then AList.update w (lost_record w now r) t else t))" for t
    by (cases "wr_status r") (auto simp: worker_overdue_def is_active_def Let_def split_beta)
  have IH: "snd (expire_workers_loop now d2 (d1 @ (w, v) # d2)) = d1 @ (w, v) # sweep_workers now d2" for v
    using Cons.IH [of "d1 @ [(w, v)]"] Cons.prems by (simp add: p)
  show ?case unfolding p step by (simp add: upd IH) (simp add: sweep_workers_def)
qed

lemma expire_workers_eq:
  "dict_wf s \<Longrightarrow> \<exists>rs. expire_workers now s = (Inr rs, sweep_workers now s)"
  using expire_workers_loop_snd [of "[]" s now] by (simp add: expire_workers_def split_beta)

lemma sweep_workers_lookup [dict_simps]:
  "map_of (sweep_workers now s) w =
     map_option (\<lambda>r. if worker_overdue now r then lost_record w now r else r) (map_of s w)"
  by (simp add: sweep_workers_def map_ran_conv)

lemma worker_inv_sweep:
  assumes inv: "worker_inv s"
  shows "worker_inv (sweep_workers now s)"
proof -
  have "dict_wf (sweep_workers now s)" using worker_inv_wf [OF inv] by (simp add: sweep_workers_def)
  then show ?thesis unfolding worker_inv_def
    using worker_inv_record [OF inv]
    by (auto simp: sweep_workers_lookup worker_overdue_def split: if_splits
      simp del: map_of_eq_Some_iff)
qed

subsection \<open>Outcomes of the operations\<close>

lemma register_worker_cases:
  obtains (registered) "register_worker w caps md ttl now s =
      (let r = registered_record w caps md ttl now (map_of s w) in (Inr r, AList.update w r s))"
    and "\<not> blank w" and "0 < ttl"
  | (invalid) m where "register_worker w caps md ttl now s = (Inl (WorkerValueErr m), s)"
    and "blank w \<or> \<not> 0 < ttl"
  by (cases "blank w"; cases "0 < ttl")
    (auto simp: register_worker_def require_worker_id_def validate_ttl_def parse_defs)

lemma get_worker_cases:
  obtains (found) r where "get_worker w s = Inr r" and "map_of s w = Some r" and "\<not> blank w"
  | (missing) e where "get_worker w s = Inl e" and "blank w \<or> map_of s w = None"
  by (cases "blank w"; cases "map_of s w") (auto simp: get_worker_def require_worker_id_def parse_defs)

lemma heartbeat_worker_cases [consumes 1]:
  assumes wf: "dict_wf s"
  obtains (renewed) r where "map_of s w = Some r" and "now < wr_lease_expires_at r"
      and "0 < ttl" and "\<not> blank w"
      and "heartbeat_worker w ttl now s =
        (let r' = r\<lparr>wr_heartbeat_at := now, wr_lease_expires_at := now + timedelta ttl,
             wr_status := (if wr_status r = Lost then Online else wr_status r)\<rparr>
         in (Inr r', AList.update w r' s))"
  | (lapsed) r where "map_of s w = Some r" and "wr_lease_expires_at r \<le> now"
      and "heartbeat_worker w ttl now s =
        (Inl (WorkerNotFound (''worker lease expired: '' @ w)), sweep_workers now s)"
  | (refused) e where "heartbeat_worker w ttl now s = (Inl e, s)"
proof (cases "0 < ttl")
  case False
  then show ?thesis
    by (intro refused [of "WorkerValueErr ''ttl_seconds must be positive''"])
      (simp add: heartbeat_worker_def validate_ttl_def parse_defs)
next
  case True
  then have ttl: "validate_ttl ttl = Inr ttl" by (simp add: validate_ttl_def parse_defs)
  show ?thesis
  proof (cases rule: get_worker_cases [of w s])
    case (found r)
    show ?thesis
    proof (cases "wr_lease_expires_at r \<le> now")
      case late: True
      obtain rs where "expire_workers now s = (Inr rs, sweep_workers now s)"
        using expire_workers_eq [OF wf] by blast
      with found late ttl show ?thesis
        by (intro lapsed [of r]) (simp_all add: heartbeat_worker_def del: map_of_eq_Some_iff)
    next
      case False
      with found True ttl show ?thesis
        by (intro renewed [of r]) (simp_all add: heartbeat_worker_def worker_deadline_def del: map_of_eq_Some_iff)
    qed
  next
    case (missing e)
    then show ?thesis by (intro refused [of e]) (simp add: heartbeat_worker_def ttl)
  qed
qed

lemma drain_worker_cases:
  obtains (drained) r where "map_of s w = Some r" and "drain_worker w reason now s =
      (let r' = r\<lparr>wr_status := Draining, wr_heartbeat_at := now, wr_last_error := Some reason\<rparr>
       in (Inr r', AList.update w r' s))"
  | (refused) e where "drain_worker w reason now s = (Inl e, s)"
proof (cases "blank reason")
  case False
  then show ?thesis
    by (cases rule: get_worker_cases [of w s]) (auto simp: drain_worker_def parse_defs intro: that)
qed (auto simp: drain_worker_def parse_defs intro: that)

lemma mark_offline_cases:
  obtains (marked) r where "map_of s w = Some r" and "mark_offline w reason now s =
      (let r' = r\<lparr>wr_status := Offline, wr_heartbeat_at := now, wr_last_error := Some reason\<rparr>
       in (Inr r', AList.update w r' s))"
  | (refused) e where "mark_offline w reason now s = (Inl e, s)"
proof (cases "blank reason")
  case False
  then show ?thesis
    by (cases rule: get_worker_cases [of w s]) (auto simp: mark_offline_def parse_defs intro: that)
qed (auto simp: mark_offline_def parse_defs intro: that)

lemma worker_inv_step:
  assumes inv: "worker_inv s"
  shows "worker_inv (worker_step s e)"
proof (cases e)
  case (Register w caps md ttl now)
  have "wr_worker_id (registered_record w caps md ttl now (map_of s w)) = w"
    using worker_inv_record [OF inv, of w] by (simp add: registered_record_def split: option.splits)
  moreover have "wr_status (registered_record w caps md ttl now (map_of s w)) = Online"
    by (simp add: registered_record_def split: option.splits)
  ultimately show ?thesis
    by (cases rule: register_worker_cases [of w caps md ttl now s])
      (auto simp: Register Let_def inv intro!: worker_inv_update [OF inv])
next
  case (WorkerHeartbeat w ttl now)
  from worker_inv_wf [OF inv] show ?thesis
  proof (cases rule: heartbeat_worker_cases [of s w now ttl])
    case (renewed r)
    then show ?thesis
      using worker_inv_record [OF inv renewed(1)]
      by (auto simp: WorkerHeartbeat Let_def simp del: map_of_eq_Some_iff intro!: worker_inv_update [OF inv])
  qed (simp_all add: WorkerHeartbeat inv worker_inv_sweep)
next
  case (Drain w reason now)
  then show ?thesis using worker_inv_record [OF inv]
    by (cases rule: drain_worker_cases [of s w reason now])
      (auto simp: Let_def inv intro!: worker_inv_update [OF inv])
next
  case (MarkOffline w reason now)
  then show ?thesis using worker_inv_record [OF inv]
    by (cases rule: mark_offline_cases [of s w reason now])
      (auto simp: Let_def inv intro!: worker_inv_update [OF inv])
next
  case (ExpireWorkers now)
  then show ?thesis using expire_workers_eq [OF worker_inv_wf [OF inv], of now] worker_inv_sweep [OF inv, of now]
    by auto
qed

interpretation wk: invariant_system worker_step empty_workers worker_inv
  by unfold_locales (simp_all add: worker_inv_empty worker_inv_step)

definition live_workers :: "worker_registry \<Rightarrow> (string \<times> time) set" where
  "live_workers s = {(w, d). \<exists>r. map_of s w = Some r \<and> is_active r \<and> wr_lease_expires_at r = d}"

interpretation wk_leases: expiring_store "\<lambda>now s. snd (expire_workers now s)" live_workers worker_inv
proof
  fix s t
  assume inv: "worker_inv s"
  have e: "snd (expire_workers t s) = sweep_workers t s"
    using expire_workers_eq [OF worker_inv_wf [OF inv], of t] by auto
  show "worker_inv (snd (expire_workers t s))" using inv by (simp add: e worker_inv_sweep)
  show "live_workers (snd (expire_workers t s)) = {p \<in> live_workers s. t < snd p}"
  proof (rule set_eqI, clarify)
    fix w d
    show "(w, d) \<in> live_workers (snd (expire_workers t s)) \<longleftrightarrow> (w, d) \<in> {p \<in> live_workers s. t < snd p}"
      unfolding e live_workers_def
      by (cases "map_of s w") (auto simp: sweep_workers_lookup worker_overdue_def simp del: map_of_eq_Some_iff)
  qed
qed

subsection \<open>Properties\<close>

fun worker_event_now :: "worker_event \<Rightarrow> time" where
  "worker_event_now (Register w caps md ttl now) = now"
| "worker_event_now (WorkerHeartbeat w ttl now) = now"
| "worker_event_now (Drain w reason now) = now"
| "worker_event_now (MarkOffline w reason now) = now"
| "worker_event_now (ExpireWorkers now) = now"

fun registers :: "string \<Rightarrow> worker_event \<Rightarrow> bool" where
  "registers w (Register w' caps md ttl now) = (w' = w)"
| "registers w _ = False"

text \<open>A worker that is out at time \<open>t\<close>: not online, and if lost, with a lapsed lease.\<close>

definition worker_out :: "time \<Rightarrow> string \<Rightarrow> worker_registry \<Rightarrow> bool" where
  "worker_out t w s \<longleftrightarrow> (\<exists>r. map_of s w = Some r \<and> wr_status r \<noteq> Online
     \<and> (wr_status r = Lost \<longrightarrow> wr_lease_expires_at r \<le> t))"

lemma worker_out_mono: "worker_out t w s \<Longrightarrow> t \<le> t' \<Longrightarrow> worker_out t' w s"
  by (fastforce simp: worker_out_def)

lemma worker_out_sweep:
  assumes "worker_out t w s" and "t \<le> now"
  shows "worker_out now w (sweep_workers now s)"
  using assms by (cases "map_of s w")
    (auto simp: worker_out_def sweep_workers_lookup worker_overdue_def simp del: map_of_eq_Some_iff)

lemma worker_out_step:
  assumes inv: "worker_inv s" and out: "worker_out t w s" and now: "t \<le> worker_event_now e"
    and e: "\<not> registers w e"
  shows "worker_out (worker_event_now e) w (worker_step s e)"
proof (cases e)
  case (Register w' caps md ttl now')
  with e have "w' \<noteq> w" by simp
  then have "map_of (worker_step s e) w = map_of s w"
    by (cases rule: register_worker_cases [of w' caps md ttl now' s])
      (simp_all add: Register Let_def map_of_update)
  with worker_out_mono [OF out now] show ?thesis by (simp add: worker_out_def)
next
  case (WorkerHeartbeat w' ttl now')
  from worker_inv_wf [OF inv] show ?thesis
  proof (cases rule: heartbeat_worker_cases [of s w' now' ttl])
    case (renewed r)
    then show ?thesis using out now WorkerHeartbeat
      by (auto simp: worker_out_def Let_def map_of_update simp del: map_of_eq_Some_iff)
  next
    case (lapsed r)
    then show ?thesis using worker_out_sweep [OF out now] WorkerHeartbeat by simp
  next
    case (refused m)
    then show ?thesis using worker_out_mono [OF out now] WorkerHeartbeat by simp
  qed
next
  case (Drain w' reason now')
  then show ?thesis using worker_out_mono [OF out now]
    by (cases rule: drain_worker_cases [of s w' reason now'])
      (auto simp: worker_out_def Let_def map_of_update simp del: map_of_eq_Some_iff)
next
  case (MarkOffline w' reason now')
  then show ?thesis using worker_out_mono [OF out now]
    by (cases rule: mark_offline_cases [of s w' reason now'])
      (auto simp: worker_out_def Let_def map_of_update simp del: map_of_eq_Some_iff)
next
  case (ExpireWorkers now')
  then show ?thesis
    using expire_workers_eq [OF worker_inv_wf [OF inv], of now'] worker_out_sweep [OF out now] by auto
qed

lemma worker_out_run:
  assumes "worker_inv s" and "worker_out t w s" and "sorted (t # map worker_event_now es)"
    and "\<forall>e \<in> set es. \<not> registers w e"
  shows "\<exists>t'. worker_out t' w (run_events worker_step s es)"
  using assms
proof (induction es arbitrary: s t)
  case Nil
  then show ?case by auto
next
  case (Cons e es)
  have "worker_out (worker_event_now e) w (worker_step s e)"
    using Cons.prems by (intro worker_out_step [OF Cons.prems(1,2)]) auto
  then show ?case using Cons.IH [of "worker_step s e" "worker_event_now e"] Cons.prems
    by (simp add: worker_inv_step)
qed

text \<open>A worker that is draining, offline or lost comes back only by registering: over any run
  of operations at non-decreasing times (none before the record's last heartbeat) that does not
  register the worker, its status never becomes online, whatever heartbeats, drains, offline
  marks and sweeps do. In particular the branch of \<open>heartbeat\<close> that turns a lost worker online
  is never taken with a clock that does not run backwards.\<close>

theorem worker_out_until_registered:
  assumes inv: "worker_inv s" and r: "map_of s w = Some r" "wr_status r \<noteq> Online"
    and times: "sorted (wr_heartbeat_at r # map worker_event_now es)"
    and es: "\<forall>e \<in> set es. \<not> registers w e"
  shows "\<exists>r'. map_of (run_events worker_step s es) w = Some r' \<and> wr_status r' \<noteq> Online"
proof -
  have "worker_out (wr_heartbeat_at r) w s"
    using r worker_inv_record [OF inv r(1)] by (auto simp: worker_out_def simp del: map_of_eq_Some_iff)
  from worker_out_run [OF inv this times es] show ?thesis by (auto simp: worker_out_def simp del: map_of_eq_Some_iff)
qed

definition workers_a :: worker_registry where
  "workers_a = run_events worker_step empty_workers
     [Register ''A'' [''task''] [] 30 0, ExpireWorkers 40000000]"

lemma workers_a_inv: "worker_inv workers_a"
  unfolding workers_a_def by (rule wk.inv_run_init)

theorem worker_out_until_registered_witness:
  "wr_status (the (map_of workers_a ''A'')) = Lost \<and>
   (\<exists>r. map_of (run_events worker_step workers_a [WorkerHeartbeat ''A'' 30 50000000,
      Drain ''A'' ''bye'' 60000000, WorkerHeartbeat ''A'' 30 70000000]) ''A'' = Some r \<and> wr_status r \<noteq> Online)"
proof -
  have 1: "map_of workers_a ''A'' = Some (the (map_of workers_a ''A''))"
    by (rule some_the) code_simp
  have 2: "wr_status (the (map_of workers_a ''A'')) = Lost"
    "wr_heartbeat_at (the (map_of workers_a ''A'')) = 40000000" by code_simp+
  show ?thesis
    using worker_out_until_registered [OF workers_a_inv 1, of "[WorkerHeartbeat ''A'' 30 50000000,
      Drain ''A'' ''bye'' 60000000, WorkerHeartbeat ''A'' 30 70000000]"] by (simp add: 2)
qed

text \<open>The worker sweep is exact: it does not raise, it marks lost precisely the online and
  draining workers whose deadline is at or before \<open>now\<close>, changes no other record, and keeps the
  registration time and the lease of the ones it marks.\<close>

theorem expire_workers_exact:
  assumes inv: "worker_inv s"
  shows "\<not> isl (fst (expire_workers now s))
    \<and> map_of (snd (expire_workers now s)) w = (case map_of s w of None \<Rightarrow> None
      | Some r \<Rightarrow> Some (if wr_status r \<in> {Online, Draining} \<and> wr_lease_expires_at r \<le> now
                       then r\<lparr>wr_status := Lost, wr_heartbeat_at := now,
                              wr_last_error := Some (''worker heartbeat expired: '' @ w)\<rparr> else r))"
  using expire_workers_eq [OF worker_inv_wf [OF inv], of now]
  by (auto simp: sweep_workers_lookup worker_overdue_def is_active_def lost_record_def split: option.splits)

theorem expire_workers_exact_witness:
  "worker_inv workers_a \<and> \<not> isl (fst (expire_workers 50000000 workers_a))"
  using expire_workers_exact [OF workers_a_inv] workers_a_inv by blast

text \<open>Draining does not look at the status it replaces: draining a worker that was lost or
  offline puts it back among the active workers, although its lease has lapsed.\<close>

theorem drain_revives_lost_worker:
  assumes "map_of s w = Some r" and "\<not> blank w" and "\<not> blank reason"
  shows "\<exists>r'. drain_worker w reason now s = (Inr r', AList.update w r' s) \<and> is_active r'
    \<and> wr_lease_expires_at r' = wr_lease_expires_at r"
  using assms by (simp add: drain_worker_def parse_defs get_worker_def require_worker_id_def is_active_def Let_def
    del: map_of_eq_Some_iff)

theorem drain_revives_lost_worker_witness:
  "wr_status (the (map_of workers_a ''A'')) = Lost \<and> active_workers workers_a = [] \<and>
   (\<exists>r'. drain_worker ''A'' ''bye'' 50000000 workers_a = (Inr r', AList.update ''A'' r' workers_a)
      \<and> is_active r')"
proof -
  have 1: "map_of workers_a ''A'' = Some (the (map_of workers_a ''A''))"
    by (rule some_the) code_simp
  have 2: "wr_status (the (map_of workers_a ''A'')) = Lost" "active_workers workers_a = []"
    "\<not> blank ''A''" "\<not> blank ''bye''" by code_simp+
  show ?thesis using drain_revives_lost_worker [OF 1 2(3,4), of 50000000] 2(1,2) by blast
qed

end
