(* ===== verification/Dist_Health.thy ===== *)
theory Dist_Health
  imports Queue_Submit Lock_Safety Worker_Registry
begin

text \<open>
  The read-only projections of the distributed runtime: \<open>distributed/snapshot.py\<close> and
  \<open>distributed/health.py\<close>, with what the health report's verdict means. A number of seconds
  is an exact rational, so \<open>round(x, 3)\<close> is rounding to the nearest millisecond with ties to
  even; on a tie a double may round the other way.
\<close>

subsection \<open>snapshot.py\<close>

record work_item_snapshot =
  ws_work_item_id :: string
  ws_kind :: string
  ws_status :: work_item_status
  ws_session_id :: "string option"
  ws_task_id :: "string option"
  ws_action_id :: "string option"
  ws_priority :: int
  ws_attempts :: int
  ws_max_attempts :: int
  ws_available_at :: time
  ws_worker_id :: "string option"
  ws_lease_expires_at :: "time option"
  ws_fencing_token :: "int option"
  ws_last_error :: "string option"

record queue_snapshot =
  qs_total_count :: nat
  qs_queued_count :: nat
  qs_leased_count :: nat
  qs_completed_count :: nat
  qs_failed_count :: nat
  qs_cancelled_count :: nat
  qs_items :: "work_item_snapshot list"

record lock_snapshot =
  ls_lock_key :: string
  ls_owner_id :: string
  ls_lease_id :: string
  ls_acquired_at :: time
  ls_heartbeat_at :: time
  ls_lease_expires_at :: time
  ls_fencing_token :: int
  ls_metadata :: json_mapping

record worker_snapshot =
  ks_worker_id :: string
  ks_status :: worker_status
  ks_registered_at :: time
  ks_heartbeat_at :: time
  ks_lease_expires_at :: time
  ks_capabilities :: "string list"
  ks_metadata :: json_mapping
  ks_last_error :: "string option"

record registry_snapshot =
  rs_total_count :: nat
  rs_online_count :: nat
  rs_draining_count :: nat
  rs_offline_count :: nat
  rs_lost_count :: nat
  rs_workers :: "worker_snapshot list"

record runtime_snapshot =
  rt_work_queue :: queue_snapshot
  rt_locks :: "lock_snapshot list"
  rt_workers :: registry_snapshot

definition snapshot_item :: "work_item \<Rightarrow> work_item_snapshot" where
  "snapshot_item i = \<lparr>ws_work_item_id = wi_work_item_id i, ws_kind = wi_kind i,
     ws_status = wi_status i, ws_session_id = wi_session_id i, ws_task_id = wi_task_id i,
     ws_action_id = wi_action_id i, ws_priority = wi_priority i, ws_attempts = wi_attempts i,
     ws_max_attempts = wi_max_attempts i, ws_available_at = wi_available_at i,
     ws_worker_id = map_option wl_worker_id (wi_lease i),
     ws_lease_expires_at = map_option wl_lease_expires_at (wi_lease i),
     ws_fencing_token = map_option wl_fencing_token (wi_lease i),
     ws_last_error = wi_last_error i\<rparr>"

definition snapshot_lock :: "lock_lease \<Rightarrow> lock_snapshot" where
  "snapshot_lock l = \<lparr>ls_lock_key = dl_lock_key l, ls_owner_id = dl_owner_id l,
     ls_lease_id = dl_lease_id l, ls_acquired_at = dl_acquired_at l,
     ls_heartbeat_at = dl_heartbeat_at l, ls_lease_expires_at = dl_lease_expires_at l,
     ls_fencing_token = dl_fencing_token l, ls_metadata = dl_metadata l\<rparr>"

definition snapshot_worker :: "worker_record \<Rightarrow> worker_snapshot" where
  "snapshot_worker r = \<lparr>ks_worker_id = wr_worker_id r, ks_status = wr_status r,
     ks_registered_at = wr_registered_at r, ks_heartbeat_at = wr_heartbeat_at r,
     ks_lease_expires_at = wr_lease_expires_at r, ks_capabilities = wr_capabilities r,
     ks_metadata = wr_metadata r, ks_last_error = wr_last_error r\<rparr>"

definition work_count :: "work_item_snapshot list \<Rightarrow> work_item_status \<Rightarrow> nat" where
  "work_count items st = length (filter (\<lambda>i. ws_status i = st) items)"

definition worker_count :: "worker_snapshot list \<Rightarrow> worker_status \<Rightarrow> nat" where
  "worker_count workers st = length (filter (\<lambda>w. ks_status w = st) workers)"

definition build_snapshot :: "work_queue \<Rightarrow> lock_registry option \<Rightarrow> worker_registry option
    \<Rightarrow> runtime_snapshot" where
  "build_snapshot q locks workers =
     (let items = map snapshot_item (list_items None q);
          ws = map snapshot_worker (case workers of None \<Rightarrow> [] | Some s \<Rightarrow> list_workers None s)
      in \<lparr>rt_work_queue = \<lparr>qs_total_count = length items, qs_queued_count = work_count items WQueued,
            qs_leased_count = work_count items WLeased,
            qs_completed_count = work_count items WCompleted,
            qs_failed_count = work_count items WFailed,
            qs_cancelled_count = work_count items WCancelled, qs_items = items\<rparr>,
          rt_locks = map snapshot_lock (case locks of None \<Rightarrow> [] | Some s \<Rightarrow> active_locks s),
          rt_workers = \<lparr>rs_total_count = length ws, rs_online_count = worker_count ws Online,
            rs_draining_count = worker_count ws Draining,
            rs_offline_count = worker_count ws Offline,
            rs_lost_count = worker_count ws Lost, rs_workers = ws\<rparr>\<rparr>)"

subsection \<open>health.py: values\<close>

datatype health_status = HOk | HWarn | HError

instantiation health_status :: linorder
begin

fun health_rank :: "health_status \<Rightarrow> nat" where
  "health_rank HOk = 0"
| "health_rank HWarn = 1"
| "health_rank HError = 2"

definition less_eq_health_status :: "health_status \<Rightarrow> health_status \<Rightarrow> bool" where
  "less_eq_health_status a b \<longleftrightarrow> health_rank a \<le> health_rank b"

definition less_health_status :: "health_status \<Rightarrow> health_status \<Rightarrow> bool" where
  "less_health_status a b \<longleftrightarrow> health_rank a < health_rank b"

instance
proof
  fix x y :: health_status
  show "x \<le> y \<Longrightarrow> y \<le> x \<Longrightarrow> x = y" by (cases x; cases y) (simp_all add: less_eq_health_status_def)
qed (auto simp: less_eq_health_status_def less_health_status_def)

end

record health_check =
  hc_name :: string
  hc_status :: health_status
  hc_message :: string

record capacity_gap =
  cg_kind :: string
  cg_queued_count :: nat
  cg_capable_online_workers :: nat

record expiring_lease =
  el_lease_type :: string
  el_key :: string
  el_owner_id :: "string option"
  el_lease_expires_at :: time
  el_seconds_remaining :: rat

record health_recommendation =
  hr_code :: string
  hr_severity :: health_status
  hr_target :: "string option"
  hr_message :: string

record health_report =
  hp_status :: health_status
  hp_checks :: "health_check list"
  hp_capacity_gaps :: "capacity_gap list"
  hp_expiring_leases :: "expiring_lease list"
  hp_recommendations :: "health_recommendation list"

subsection \<open>health.py: checks\<close>

definition worker_pool_check :: "runtime_snapshot \<Rightarrow> int \<Rightarrow> health_check" where
  "worker_pool_check s required =
     (let active_work = qs_queued_count (rt_work_queue s) + qs_leased_count (rt_work_queue s);
          online = rs_online_count (rt_workers s)
      in if active_work \<noteq> 0 \<and> int online < required
         then \<lparr>hc_name = ''worker_pool'', hc_status = HError,
               hc_message = ''online workers below required capacity: online='' @ show_nat online
                 @ '' required='' @ show_int required @ '' active_work='' @ show_nat active_work\<rparr>
         else \<lparr>hc_name = ''worker_pool'', hc_status = HOk,
               hc_message = ''online workers='' @ show_nat online
                 @ '' required='' @ show_int required\<rparr>)"

definition queue_backlog_check :: "runtime_snapshot \<Rightarrow> int \<Rightarrow> health_check" where
  "queue_backlog_check s threshold =
     (let queued = qs_queued_count (rt_work_queue s)
      in if int queued > threshold
         then \<lparr>hc_name = ''queue_backlog'', hc_status = HWarn,
               hc_message = ''queued work exceeds threshold: queued='' @ show_nat queued
                 @ '' threshold='' @ show_int threshold\<rparr>
         else \<lparr>hc_name = ''queue_backlog'', hc_status = HOk,
               hc_message = ''queued work='' @ show_nat queued
                 @ '' threshold='' @ show_int threshold\<rparr>)"

definition capacity_check :: "capacity_gap list \<Rightarrow> health_check" where
  "capacity_check gaps =
     (if gaps = []
      then \<lparr>hc_name = ''capacity'', hc_status = HOk,
            hc_message = ''queued work kinds have online capable workers''\<rparr>
      else \<lparr>hc_name = ''capacity'', hc_status = HError,
            hc_message = ''queued work has no online capable worker: ''
              @ join_str '','' (map cg_kind gaps)\<rparr>)"

definition expired_count :: "expiring_lease list \<Rightarrow> nat" where
  "expired_count leases = length (filter (\<lambda>l. el_seconds_remaining l \<le> 0) leases)"

definition lease_freshness_check :: "expiring_lease list \<Rightarrow> health_check" where
  "lease_freshness_check leases =
     (if expired_count leases \<noteq> 0
      then \<lparr>hc_name = ''lease_freshness'', hc_status = HError,
            hc_message = ''expired leases visible in snapshot: '' @ show_nat (expired_count leases)\<rparr>
      else if leases \<noteq> []
      then \<lparr>hc_name = ''lease_freshness'', hc_status = HWarn,
            hc_message = ''leases expiring soon: '' @ show_nat (length leases)\<rparr>
      else \<lparr>hc_name = ''lease_freshness'', hc_status = HOk,
            hc_message = ''no leases are expired or close to expiry''\<rparr>)"

text \<open>The dictionary \<open>worker_by_id\<close>: a later worker of the same id replaces an earlier one.\<close>

definition worker_by_id :: "runtime_snapshot \<Rightarrow> string \<Rightarrow> worker_snapshot option" where
  "worker_by_id s = map_of (rev (map (\<lambda>w. (ks_worker_id w, w)) (rs_workers (rt_workers s))))"

definition item_orphaned :: "runtime_snapshot \<Rightarrow> work_item_snapshot \<Rightarrow> bool" where
  "item_orphaned s i \<longleftrightarrow> ws_status i = WLeased \<and>
     (case ws_worker_id i of None \<Rightarrow> True
      | Some w \<Rightarrow> (case worker_by_id s w of None \<Rightarrow> True
          | Some r \<Rightarrow> ks_status r \<in> {Offline, Lost}))"

definition item_draining :: "runtime_snapshot \<Rightarrow> work_item_snapshot \<Rightarrow> bool" where
  "item_draining s i \<longleftrightarrow> ws_status i = WLeased \<and>
     (case ws_worker_id i of None \<Rightarrow> False
      | Some w \<Rightarrow> (case worker_by_id s w of None \<Rightarrow> False | Some r \<Rightarrow> ks_status r = Draining))"

definition leased_work_owner_check :: "runtime_snapshot \<Rightarrow> health_check" where
  "leased_work_owner_check s =
     (let items = qs_items (rt_work_queue s);
          orphaned = map ws_work_item_id (filter (item_orphaned s) items);
          draining = map ws_work_item_id (filter (item_draining s) items)
      in if orphaned \<noteq> []
         then \<lparr>hc_name = ''leased_work_owners'', hc_status = HError,
               hc_message = ''leased work has missing/offline/lost owners: ''
                 @ join_str '','' (sort orphaned)\<rparr>
         else if draining \<noteq> []
         then \<lparr>hc_name = ''leased_work_owners'', hc_status = HWarn,
               hc_message = ''leased work is still owned by draining workers: ''
                 @ join_str '','' (sort draining)\<rparr>
         else \<lparr>hc_name = ''leased_work_owners'', hc_status = HOk,
               hc_message = ''leased work owners are online''\<rparr>)"

definition worker_registry_check :: "runtime_snapshot \<Rightarrow> health_check" where
  "worker_registry_check s =
     (let lost = rs_lost_count (rt_workers s); offline = rs_offline_count (rt_workers s);
          draining = rs_draining_count (rt_workers s)
      in if lost \<noteq> 0
         then \<lparr>hc_name = ''worker_registry'', hc_status = HWarn,
               hc_message = ''lost workers observed: lost='' @ show_nat lost
                 @ '' offline='' @ show_nat offline @ '' draining='' @ show_nat draining\<rparr>
         else if offline \<noteq> 0 \<or> draining \<noteq> 0
         then \<lparr>hc_name = ''worker_registry'', hc_status = HWarn,
               hc_message = ''inactive workers observed: offline='' @ show_nat offline
                 @ '' draining='' @ show_nat draining\<rparr>
         else \<lparr>hc_name = ''worker_registry'', hc_status = HOk,
               hc_message = ''workers registered='' @ show_nat (rs_total_count (rt_workers s))\<rparr>)"

subsection \<open>health.py: gaps and leases\<close>

definition capable_worker_count :: "worker_snapshot list \<Rightarrow> string \<Rightarrow> nat" where
  "capable_worker_count workers kind = length (filter (\<lambda>w. kind \<in> set (ks_capabilities w)) workers)"

definition capacity_gaps :: "runtime_snapshot \<Rightarrow> capacity_gap list" where
  "capacity_gaps s =
     (let queued = map ws_kind (filter (\<lambda>i. ws_status i = WQueued) (qs_items (rt_work_queue s)));
          online = filter (\<lambda>w. ks_status w = Online) (rs_workers (rt_workers s))
      in map (\<lambda>kind. \<lparr>cg_kind = kind, cg_queued_count = length (filter (\<lambda>k. k = kind) queued),
                     cg_capable_online_workers = capable_worker_count online kind\<rparr>)
           (filter (\<lambda>kind. capable_worker_count online kind = 0) (sort (remdups queued))))"

definition seconds_remaining :: "time \<Rightarrow> time \<Rightarrow> rat" where
  "seconds_remaining deadline now = of_int (round_half_even (of_int (deadline - now) / 1000)) / 1000"

definition work_leases :: "work_item_snapshot list \<Rightarrow> time \<Rightarrow> expiring_lease list" where
  "work_leases items now =
     map (\<lambda>i. \<lparr>el_lease_type = ''work_item'', el_key = ws_work_item_id i, el_owner_id = ws_worker_id i,
              el_lease_expires_at = the (ws_lease_expires_at i),
              el_seconds_remaining = seconds_remaining (the (ws_lease_expires_at i)) now\<rparr>)
       (filter (\<lambda>i. ws_status i = WLeased \<and> ws_lease_expires_at i \<noteq> None) items)"

definition lock_leases :: "lock_snapshot list \<Rightarrow> time \<Rightarrow> expiring_lease list" where
  "lock_leases locks now =
     map (\<lambda>l. \<lparr>el_lease_type = ''distributed_lock'', el_key = ls_lock_key l,
              el_owner_id = Some (ls_owner_id l), el_lease_expires_at = ls_lease_expires_at l,
              el_seconds_remaining = seconds_remaining (ls_lease_expires_at l) now\<rparr>) locks"

definition worker_leases :: "worker_snapshot list \<Rightarrow> time \<Rightarrow> expiring_lease list" where
  "worker_leases workers now =
     map (\<lambda>w. \<lparr>el_lease_type = ''worker'', el_key = ks_worker_id w,
              el_owner_id = Some (ks_worker_id w), el_lease_expires_at = ks_lease_expires_at w,
              el_seconds_remaining = seconds_remaining (ks_lease_expires_at w) now\<rparr>)
       (filter (\<lambda>w. ks_status w \<in> {Online, Draining}) workers)"

definition all_leases :: "runtime_snapshot \<Rightarrow> time \<Rightarrow> expiring_lease list" where
  "all_leases s now = work_leases (qs_items (rt_work_queue s)) now @ lock_leases (rt_locks s) now
     @ worker_leases (rs_workers (rt_workers s)) now"

definition expiring_leases :: "runtime_snapshot \<Rightarrow> time \<Rightarrow> rat \<Rightarrow> expiring_lease list" where
  "expiring_leases s now warn =
     sort_key (\<lambda>l. (el_seconds_remaining l, el_lease_type l, el_key l))
       (filter (\<lambda>l. el_seconds_remaining l \<le> warn) (all_leases s now))"

subsection \<open>health.py: the report\<close>

definition aggregate_status :: "health_check list \<Rightarrow> health_status" where
  "aggregate_status checks =
     (if list_ex (\<lambda>c. hc_status c = HError) checks then HError
      else if list_ex (\<lambda>c. hc_status c = HWarn) checks then HWarn else HOk)"

text \<open>\<open>check_by_name[name]\<close>; the report passes all six checks, each under its own name.\<close>

definition status_of_check :: "health_check list \<Rightarrow> string \<Rightarrow> health_status" where
  "status_of_check checks name =
     hc_status (the (map_of (rev (map (\<lambda>c. (hc_name c, c)) checks)) name))"

definition recommend :: "bool \<Rightarrow> string \<Rightarrow> health_status \<Rightarrow> string option \<Rightarrow> string
    \<Rightarrow> health_recommendation list" where
  "recommend b code severity target message =
     (if b then [\<lparr>hr_code = code, hr_severity = severity, hr_target = target, hr_message = message\<rparr>]
      else [])"

definition recommendations :: "health_check list \<Rightarrow> capacity_gap list \<Rightarrow> expiring_lease list
    \<Rightarrow> health_recommendation list" where
  "recommendations checks gaps leases =
     recommend (status_of_check checks ''worker_pool'' = HError) ''start_worker_pool'' HError None
       ''register at least one online worker before processing active work''
     @ recommend (status_of_check checks ''queue_backlog'' = HWarn) ''drain_queue_backlog'' HWarn None
         ''run capable workers or raise worker capacity to reduce queued backlog''
     @ concat (map (\<lambda>g. recommend True ''start_capable_worker'' HError (Some (cg_kind g))
         (''start or register an online worker that handles '' @ cg_kind g)) gaps)
     @ (if expired_count leases \<noteq> 0
        then recommend True ''run_expiry_sweep'' HError None
          ''run distributed expire to reconcile expired work, lock and worker leases''
        else recommend (leases \<noteq> []) ''renew_expiring_leases'' HWarn None
          ''heartbeat active leases or run distributed expire before leases lapse'')
     @ (let st = status_of_check checks ''leased_work_owners''
        in recommend (st \<noteq> HOk) ''inspect_leased_work_owners'' st None
          ''inspect leased work owners before retrying or cancelling affected work'')
     @ (let st = status_of_check checks ''worker_registry''
        in recommend (st \<noteq> HOk) ''inspect_worker_registry'' st None
          ''inspect lost, offline or draining workers and restart or mark them offline'')"

definition build_report :: "runtime_snapshot \<Rightarrow> time \<Rightarrow> int \<Rightarrow> rat \<Rightarrow> int \<Rightarrow> health_report" where
  "build_report s now threshold warn required =
     (let gaps = capacity_gaps s; leases = expiring_leases s now warn;
          checks = [worker_pool_check s required, queue_backlog_check s threshold,
            capacity_check gaps, lease_freshness_check leases, leased_work_owner_check s,
            worker_registry_check s]
      in \<lparr>hp_status = aggregate_status checks, hp_checks = checks, hp_capacity_gaps = gaps,
          hp_expiring_leases = leases, hp_recommendations = recommendations checks gaps leases\<rparr>)"

definition health_report_of :: "runtime_snapshot \<Rightarrow> time \<Rightarrow> int \<Rightarrow> rat \<Rightarrow> int \<Rightarrow> string + health_report" where
  "health_report_of s now threshold warn required =
     (case parse_non_negative_int threshold ''queued_backlog_warn_threshold'' of Inl m \<Rightarrow> Inl m | Inr _ \<Rightarrow>
      case parse_non_negative_float warn ''lease_expiry_warn_seconds'' of Inl m \<Rightarrow> Inl m | Inr _ \<Rightarrow>
      case parse_non_negative_int required ''min_online_workers'' of Inl m \<Rightarrow> Inl m | Inr _ \<Rightarrow>
        Inr (build_report s now threshold warn required))"

subsection \<open>What the verdict means\<close>

lemma map_of_key: "k \<in> fst ` set xs \<Longrightarrow> \<exists>v. map_of xs k = Some v"
  by (metis map_of_eq_None_iff option.exhaust)

lemma count_0_iff: "length (filter P xs) = 0 \<longleftrightarrow> (\<forall>x \<in> set xs. \<not> P x)"
  by (auto simp: filter_empty_conv)

lemma aggregate_status_HOk: "aggregate_status cs = HOk \<longleftrightarrow> (\<forall>c \<in> set cs. hc_status c = HOk)"
proof -
  have "hc_status c = HOk \<longleftrightarrow> hc_status c \<noteq> HError \<and> hc_status c \<noteq> HWarn" for c :: health_check
    by (cases "hc_status c") simp_all
  then show ?thesis by (auto simp: aggregate_status_def list_ex_iff)
qed

lemma aggregate_status_worst:
  assumes "cs \<noteq> []"
  shows "aggregate_status cs = Max (hc_status ` set cs)"
proof (rule Max_eqI [symmetric])
  fix st
  assume "st \<in> hc_status ` set cs"
  then show "st \<le> aggregate_status cs"
    by (cases st) (auto 0 3 simp: aggregate_status_def list_ex_iff less_eq_health_status_def
      intro: sym dest: sym)
next
  obtain c where c: "c \<in> set cs" using assms by (cases cs) auto
  show "aggregate_status cs \<in> hc_status ` set cs"
  proof (cases "aggregate_status cs = HOk")
    case True
    then have "hc_status c = HOk" using c by (simp add: aggregate_status_HOk)
    then show ?thesis using True c by (metis image_eqI)
  next
    case False
    then show ?thesis
      by (auto simp: aggregate_status_def list_ex_iff image_iff eq_commute split: if_splits)
  qed
qed simp

lemma check_ok_iff:
  "hc_status (worker_pool_check s req) = HOk \<longleftrightarrow>
     (qs_queued_count (rt_work_queue s) + qs_leased_count (rt_work_queue s) \<noteq> 0
       \<longrightarrow> req \<le> int (rs_online_count (rt_workers s)))"
  "hc_status (queue_backlog_check s thr) = HOk \<longleftrightarrow> int (qs_queued_count (rt_work_queue s)) \<le> thr"
  "hc_status (capacity_check gaps) = HOk \<longleftrightarrow> gaps = []"
  "hc_status (lease_freshness_check ls) = HOk \<longleftrightarrow> ls = []"
  "hc_status (leased_work_owner_check s) = HOk \<longleftrightarrow>
     (\<forall>i \<in> set (qs_items (rt_work_queue s)). \<not> item_orphaned s i \<and> \<not> item_draining s i)"
  "hc_status (worker_registry_check s) = HOk \<longleftrightarrow> rs_lost_count (rt_workers s) = 0
     \<and> rs_offline_count (rt_workers s) = 0 \<and> rs_draining_count (rt_workers s) = 0"
  by (auto simp: worker_pool_check_def queue_backlog_check_def capacity_check_def lease_freshness_check_def
    leased_work_owner_check_def worker_registry_check_def Let_def expired_count_def filter_empty_conv)

lemma report_ok_iff:
  "hp_status (build_report s now thr warn req) = HOk \<longleftrightarrow>
     (qs_queued_count (rt_work_queue s) + qs_leased_count (rt_work_queue s) \<noteq> 0
       \<longrightarrow> req \<le> int (rs_online_count (rt_workers s)))
   \<and> int (qs_queued_count (rt_work_queue s)) \<le> thr \<and> capacity_gaps s = []
   \<and> expiring_leases s now warn = []
   \<and> (\<forall>i \<in> set (qs_items (rt_work_queue s)). \<not> item_orphaned s i \<and> \<not> item_draining s i)
   \<and> rs_lost_count (rt_workers s) = 0 \<and> rs_offline_count (rt_workers s) = 0
   \<and> rs_draining_count (rt_workers s) = 0"
  unfolding build_report_def Let_def health_report.select_convs aggregate_status_HOk
  by (simp add: check_ok_iff)

lemma capacity_gaps_Nil: "capacity_gaps s = [] \<longleftrightarrow>
    (\<forall>i \<in> set (qs_items (rt_work_queue s)). ws_status i = WQueued \<longrightarrow>
       (\<exists>w \<in> set (rs_workers (rt_workers s)). ks_status w = Online \<and> ws_kind i \<in> set (ks_capabilities w)))"
  by (auto simp: capacity_gaps_def Let_def capable_worker_count_def filter_empty_conv image_iff)

lemma expiring_leases_Nil: "expiring_leases s now warn = [] \<longleftrightarrow>
    (\<forall>l \<in> set (all_leases s now). warn < el_seconds_remaining l)"
proof -
  have "expiring_leases s now warn = [] \<longleftrightarrow> set (expiring_leases s now warn) = {}" by simp
  then show ?thesis by (auto simp: expiring_leases_def not_le)
qed

text \<open>The same, read off the queue and the registries.\<close>

lemma snapshot_lists [simp]:
  "set (qs_items (rt_work_queue (build_snapshot q ls ws))) = snapshot_item ` set (dict_values (wq_items q))"
  "set (rs_workers (rt_workers (build_snapshot q ls (Some s)))) = snapshot_worker ` set (dict_values s)"
  by (simp_all add: build_snapshot_def Let_def list_items_def list_workers_def)

lemma snapshot_fields [simp]:
  "ws_status (snapshot_item i) = wi_status i" "ws_kind (snapshot_item i) = wi_kind i"
  "ws_worker_id (snapshot_item i) = map_option wl_worker_id (wi_lease i)"
  "ws_lease_expires_at (snapshot_item i) = map_option wl_lease_expires_at (wi_lease i)"
  "ks_status (snapshot_worker r) = wr_status r" "ks_worker_id (snapshot_worker r) = wr_worker_id r"
  "ks_capabilities (snapshot_worker r) = wr_capabilities r"
  "ks_lease_expires_at (snapshot_worker r) = wr_lease_expires_at r"
  by (simp_all add: snapshot_item_def snapshot_worker_def)

lemma length_filter_sort: "length (filter P (sort_key f xs)) = length (filter P xs)"
  by (metis filter_sort length_sort)

lemma snapshot_counts:
  "qs_queued_count (rt_work_queue (build_snapshot q ls ws)) = length (filter (\<lambda>i. wi_status i = WQueued) (dict_values (wq_items q)))"
  "qs_leased_count (rt_work_queue (build_snapshot q ls ws)) = length (filter (\<lambda>i. wi_status i = WLeased) (dict_values (wq_items q)))"
  "rs_online_count (rt_workers (build_snapshot q ls (Some s))) = length (filter (\<lambda>r. wr_status r = Online) (dict_values s))"
  "rs_draining_count (rt_workers (build_snapshot q ls (Some s))) = length (filter (\<lambda>r. wr_status r = Draining) (dict_values s))"
  "rs_offline_count (rt_workers (build_snapshot q ls (Some s))) = length (filter (\<lambda>r. wr_status r = Offline) (dict_values s))"
  "rs_lost_count (rt_workers (build_snapshot q ls (Some s))) = length (filter (\<lambda>r. wr_status r = Lost) (dict_values s))"
  unfolding build_snapshot_def Let_def list_items_def list_workers_def work_count_def worker_count_def
  by (simp_all only: runtime_snapshot.select_convs queue_snapshot.select_convs registry_snapshot.select_convs
    filter_map length_map o_def snapshot_fields option.case length_filter_sort)

lemma all_leases_snapshot:
  "(\<forall>l \<in> set (all_leases (build_snapshot q (Some ls) (Some s)) now). P (el_lease_expires_at l) (el_seconds_remaining l)) \<longleftrightarrow>
   (\<forall>d \<in> {d. \<exists>i l. i \<in> set (dict_values (wq_items q)) \<and> wi_status i = WLeased \<and> wi_lease i = Some l \<and> d = wl_lease_expires_at l}
      \<union> dl_lease_expires_at ` set (active_locks ls)
      \<union> wr_lease_expires_at ` {r \<in> set (dict_values s). is_active r}. P d (seconds_remaining d now))"
proof -
  have w: "set (work_leases xs now) = (\<lambda>i. \<lparr>el_lease_type = ''work_item'', el_key = ws_work_item_id i, el_owner_id = ws_worker_id i,
              el_lease_expires_at = the (ws_lease_expires_at i),
              el_seconds_remaining = seconds_remaining (the (ws_lease_expires_at i)) now\<rparr>) `
       {i \<in> set xs. ws_status i = WLeased \<and> ws_lease_expires_at i \<noteq> None}" for xs
    by (simp add: work_leases_def)
  have k: "rt_locks (build_snapshot q (Some ls) (Some s)) = map snapshot_lock (active_locks ls)"
    by (simp add: build_snapshot_def Let_def)
  show ?thesis
    unfolding all_leases_def set_append w k snapshot_lists
    by (simp add: lock_leases_def worker_leases_def snapshot_lock_def ball_Un is_active_def image_iff)
      (fastforce simp: ball_Un)
qed

lemma active_locks_set: "set (active_locks ls) = (\<lambda>k. the (map_of (lr_leases ls) k)) ` set (dict_keys (lr_leases ls))"
  by (simp add: active_locks_def)

text \<open>The report says OK exactly when nothing is wrong: for the snapshot of a queue, the locks
  and the workers, the verdict is OK if and only if there are enough online workers for any
  active work, the backlog is within its threshold, every queued item has an online worker with
  its kind among the capabilities, every worker is online, every leased item belongs to a
  registered worker, and no lease of an item, a lock or a worker is within the warning time.\<close>

theorem health_ok_iff:
  assumes q: "queue_inv q"
    and r: "health_report_of (build_snapshot q (Some ls) (Some ws)) now thr warn req = Inr r"
  shows "hp_status r = HOk \<longleftrightarrow>
     ((\<exists>i \<in> set (dict_values (wq_items q)). wi_status i \<in> {WQueued, WLeased})
        \<longrightarrow> req \<le> int (length (filter (\<lambda>r. wr_status r = Online) (dict_values ws))))
   \<and> int (length (filter (\<lambda>i. wi_status i = WQueued) (dict_values (wq_items q)))) \<le> thr
   \<and> (\<forall>i \<in> set (dict_values (wq_items q)). wi_status i = WQueued \<longrightarrow>
        (\<exists>r \<in> set (dict_values ws). wr_status r = Online \<and> wi_kind i \<in> set (wr_capabilities r)))
   \<and> (\<forall>r \<in> set (dict_values ws). wr_status r = Online)
   \<and> (\<forall>i l. i \<in> set (dict_values (wq_items q)) \<longrightarrow> wi_lease i = Some l \<longrightarrow>
        (\<exists>r \<in> set (dict_values ws). wr_worker_id r = wl_worker_id l))
   \<and> (\<forall>d \<in> {d. \<exists>i l. i \<in> set (dict_values (wq_items q)) \<and> wi_status i = WLeased \<and> wi_lease i = Some l
             \<and> d = wl_lease_expires_at l}
      \<union> dl_lease_expires_at ` set (active_locks ls)
      \<union> wr_lease_expires_at ` {r \<in> set (dict_values ws). is_active r}. warn < seconds_remaining d now)"
proof -
  let ?s = "build_snapshot q (Some ls) (Some ws)"
  let ?Q = "set (dict_values (wq_items q))" and ?W = "set (dict_values ws)"
  have r': "r = build_report ?s now thr warn req"
    using r by (auto simp: health_report_of_def split: sum.splits)
  have leased: "wi_status i = WLeased \<longleftrightarrow> wi_lease i \<noteq> None" if "i \<in> ?Q" for i
  proof -
    obtain k where "map_of (wq_items q) k = Some i" using \<open>i \<in> ?Q\<close> queue_inv_wf(1) [OF q] by auto
    from queue_inv_item [OF q this] show ?thesis by (simp add: item_ok_def work_item_problem_None)
  qed
  have status: "wr_status r = Online \<longleftrightarrow> wr_status r \<noteq> Lost \<and> wr_status r \<noteq> Offline \<and> wr_status r \<noteq> Draining" for r
    by (cases "wr_status r") simp_all
  have online: "rs_lost_count (rt_workers ?s) = 0 \<and> rs_offline_count (rt_workers ?s) = 0
      \<and> rs_draining_count (rt_workers ?s) = 0 \<longleftrightarrow> (\<forall>r \<in> ?W. wr_status r = Online)"
    unfolding snapshot_counts count_0_iff status by blast
  let ?M = "(\<lambda>r. (wr_worker_id r, snapshot_worker r)) ` ?W"
  have mem: "set (rev (map (\<lambda>w. (ks_worker_id w, w)) (rs_workers (rt_workers ?s)))) = ?M"
    unfolding set_rev set_map snapshot_lists image_image by simp
  have found: "(\<exists>r. worker_by_id ?s w = Some r \<and> ks_status r = Online) \<longleftrightarrow> (\<exists>r \<in> ?W. wr_worker_id r = w)"
    if all: "\<forall>r \<in> ?W. wr_status r = Online" for w
  proof
    assume "\<exists>r. worker_by_id ?s w = Some r \<and> ks_status r = Online"
    then obtain r where "worker_by_id ?s w = Some r" by blast
    then have "(w, r) \<in> ?M" unfolding worker_by_id_def mem [symmetric] by (rule map_of_SomeD)
    then show "\<exists>r \<in> ?W. wr_worker_id r = w" by blast
  next
    assume "\<exists>r \<in> ?W. wr_worker_id r = w"
    then obtain r0 where "r0 \<in> ?W" "wr_worker_id r0 = w" by blast
    then have "w \<in> (\<lambda>r. fst (wr_worker_id r, snapshot_worker r)) ` ?W"
      by (intro image_eqI [of w _ r0]) simp_all
    then have "w \<in> fst ` ?M" unfolding image_image .
    from map_of_key [OF this [folded mem]]
    obtain r where r: "worker_by_id ?s w = Some r" unfolding worker_by_id_def ..
    then have "(w, r) \<in> ?M" unfolding worker_by_id_def mem [symmetric] by (rule map_of_SomeD)
    then have "ks_status r = Online" using all by auto
    with r show "\<exists>r. worker_by_id ?s w = Some r \<and> ks_status r = Online" by blast
  qed
  have owner: "(\<forall>i \<in> set (qs_items (rt_work_queue ?s)). \<not> item_orphaned ?s i \<and> \<not> item_draining ?s i) \<longleftrightarrow>
      (\<forall>i l. i \<in> ?Q \<longrightarrow> wi_lease i = Some l \<longrightarrow> (\<exists>r \<in> ?W. wr_worker_id r = wl_worker_id l))"
    if all: "\<forall>r \<in> ?W. wr_status r = Online"
  proof -
    have st: "ks_status r = Online \<longleftrightarrow> ks_status r \<noteq> Lost \<and> ks_status r \<noteq> Offline \<and> ks_status r \<noteq> Draining" for r
      by (cases "ks_status r") simp_all
    have "\<not> item_orphaned ?s (snapshot_item i) \<and> \<not> item_draining ?s (snapshot_item i) \<longleftrightarrow>
        (\<forall>l. wi_lease i = Some l \<longrightarrow> (\<exists>r \<in> ?W. wr_worker_id r = wl_worker_id l))" if i: "i \<in> ?Q" for i
      unfolding found [OF all, symmetric] st using leased [OF i]
      by (cases "wi_lease i") (auto simp: item_orphaned_def item_draining_def split: option.splits)
    then show ?thesis unfolding snapshot_lists by blast
  qed
  have active: "qs_queued_count (rt_work_queue ?s) + qs_leased_count (rt_work_queue ?s) \<noteq> 0 \<longleftrightarrow>
      (\<exists>i \<in> ?Q. wi_status i \<in> {WQueued, WLeased})"
    unfolding snapshot_counts add_is_0 count_0_iff by blast
  have gaps: "capacity_gaps ?s = [] \<longleftrightarrow> (\<forall>i \<in> ?Q. wi_status i = WQueued \<longrightarrow>
      (\<exists>r \<in> ?W. wr_status r = Online \<and> wi_kind i \<in> set (wr_capabilities r)))"
    by (simp only: capacity_gaps_Nil snapshot_lists ball_simps bex_simps snapshot_fields)
  show ?thesis
    unfolding r' report_ok_iff active gaps online expiring_leases_Nil
      all_leases_snapshot [where P = "\<lambda>_ x. warn < x"]
    using owner unfolding snapshot_counts by blast
qed

theorem health_ok_iff_witness:
  "\<exists>r. health_report_of (build_snapshot queue_a (Some empty_locks) (Some empty_workers)) 0 100 10 1 = Inr r
    \<and> hp_status r \<noteq> HOk"
proof -
  let ?s = "build_snapshot queue_a (Some empty_locks) (Some empty_workers)"
  have 1: "health_report_of ?s 0 100 10 1 = Inr (build_report ?s 0 100 10 1)"
    by (simp add: health_report_of_def parse_defs)
  have 2: "dict_values (wq_items queue_a) \<noteq> []" and 3: "list_all (\<lambda>i. wi_status i = WQueued) (dict_values (wq_items queue_a))"
    by code_simp+
  then have "\<exists>i \<in> set (dict_values (wq_items queue_a)). wi_status i = WQueued"
    unfolding list_all_iff by (metis last_in_set)
  then have "hp_status (build_report ?s 0 100 10 1) \<noteq> HOk"
    using health_ok_iff [OF queue_a_inv 1] by (auto simp: empty_workers_def)
  with 1 show ?thesis by blast
qed

end
