(* ===== verification/Coordinator.thy ===== *)
theory Coordinator
  imports Scheduler Dist_Health
begin

text \<open>
  \<open>DistributedRuntimeCoordinator\<close> of \<open>distributed/coordinator.py\<close>: the boundary over queue,
  scheduler, locks and workers. Each operation performs the operation of one component, then
  takes a snapshot and builds a health report from it; \<open>now\<close> is its resolved time stamp, \<open>clk\<close>
  what the queue's own \<open>utc_now()\<close> returns.
\<close>

subsection \<open>State, results, errors\<close>

record coordinator =
  dc_queue :: work_queue
  dc_locks :: lock_registry
  dc_workers :: worker_registry

datatype coordinator_error =
    CQueue queue_error
  | CLock lock_error
  | CWorker worker_error
  | CValue string

type_synonym 'a coordinator_outcome = "(coordinator, coordinator_error, 'a) outcome"

text \<open>The results of \<open>coordinator.py\<close> all consist of the component's answer, the snapshot and the
  report; those of the maintenance operations also hold when they ran.\<close>

record 'a coordinator_result =
  co_value :: 'a
  co_snapshot :: runtime_snapshot
  co_health :: health_report

record maintenance =
  mt_ran_at :: time
  mt_expired_work_items :: "work_item list"
  mt_expired_locks :: "lock_lease list"
  mt_expired_workers :: "worker_record list"

record pruning =
  pn_ran_at :: time
  pn_pruned_work_items :: "work_item list"
  pn_before :: "time option"

text \<open>The health parameters every operation accepts, with their defaults.\<close>

record health_options =
  ho_queued_backlog_warn_threshold :: int
  ho_lease_expiry_warn_seconds :: rat
  ho_min_online_workers :: int

definition default_health :: health_options where
  "default_health = \<lparr>ho_queued_backlog_warn_threshold = 100, ho_lease_expiry_warn_seconds = 10,
     ho_min_online_workers = 1\<rparr>"

definition empty_coordinator :: coordinator where
  "empty_coordinator = \<lparr>dc_queue = empty_queue, dc_locks = empty_locks, dc_workers = empty_workers\<rparr>"

definition coordinator_snapshot :: "coordinator \<Rightarrow> runtime_snapshot" where
  "coordinator_snapshot s = build_snapshot (dc_queue s) (Some (dc_locks s)) (Some (dc_workers s))"

definition report_on :: "runtime_snapshot \<Rightarrow> health_options \<Rightarrow> time \<Rightarrow> coordinator_error + health_report" where
  "report_on snapshot h now = map_error CValue (health_report_of snapshot now
     (ho_queued_backlog_warn_threshold h) (ho_lease_expiry_warn_seconds h) (ho_min_online_workers h))"

definition coordinator_health :: "health_options \<Rightarrow> time \<Rightarrow> coordinator
    \<Rightarrow> coordinator_error + health_report" where
  "coordinator_health h now s = report_on (coordinator_snapshot s) h now"

text \<open>The tail that all operations share: snapshot, report, result.\<close>

definition answer :: "health_options \<Rightarrow> time \<Rightarrow> 'a \<Rightarrow> coordinator
    \<Rightarrow> 'a coordinator_result coordinator_outcome" where
  "answer h now v s =
     (let snapshot = coordinator_snapshot s
      in check_op (report_on snapshot h now) s (\<lambda>report.
           (Inr \<lparr>co_value = v, co_snapshot = snapshot, co_health = report\<rparr>, s)))"

text \<open>An operation of a component, performed on the coordinator that owns it.\<close>

definition on_queue :: "(work_queue \<Rightarrow> 'a queue_outcome) \<Rightarrow> coordinator \<Rightarrow> 'a coordinator_outcome" where
  "on_queue f s = (let (r, q) = f (dc_queue s) in (map_error CQueue r, s\<lparr>dc_queue := q\<rparr>))"

definition on_locks :: "(lock_registry \<Rightarrow> 'a lock_outcome) \<Rightarrow> coordinator \<Rightarrow> 'a coordinator_outcome" where
  "on_locks f s = (let (r, l) = f (dc_locks s) in (map_error CLock r, s\<lparr>dc_locks := l\<rparr>))"

definition on_workers :: "(worker_registry \<Rightarrow> 'a worker_outcome) \<Rightarrow> coordinator \<Rightarrow> 'a coordinator_outcome" where
  "on_workers f s = (let (r, w) = f (dc_workers s) in (map_error CWorker r, s\<lparr>dc_workers := w\<rparr>))"

subsection \<open>Operations\<close>

definition co_schedule_session where
  "co_schedule_session sid o1 clk h now s =
     bind_op (on_queue (schedule_session sid o1 clk) s) (answer h now)"

definition co_schedule_goal where
  "co_schedule_goal key o1 clk h now s =
     bind_op (on_queue (schedule_goal key o1 clk) s) (answer h now)"

definition co_schedule_task where
  "co_schedule_task sid tid o1 clk h now s =
     bind_op (on_queue (schedule_task sid tid o1 clk) s) (answer h now)"

definition co_schedule_action where
  "co_schedule_action sid tid aid o1 clk h now s =
     bind_op (on_queue (schedule_action sid tid aid o1 clk) s) (answer h now)"

definition co_register_worker where
  "co_register_worker w caps md ttl h now s =
     bind_op (on_workers (register_worker w caps md ttl now) s) (answer h now)"

definition co_heartbeat_worker where
  "co_heartbeat_worker w ttl h now s =
     bind_op (on_workers (heartbeat_worker w ttl now) s) (answer h now)"

definition co_drain_worker where
  "co_drain_worker w reason h now s =
     bind_op (on_workers (drain_worker w reason now) s) (answer h now)"

definition co_mark_worker_offline where
  "co_mark_worker_offline w reason h now s =
     bind_op (on_workers (mark_offline w reason now) s) (answer h now)"

definition co_acquire_lock where
  "co_acquire_lock key owner ttl md h now s =
     bind_op (on_locks (acquire key owner ttl md now) s) (answer h now)"

definition co_heartbeat_lock where
  "co_heartbeat_lock lid owner ttl h now s =
     bind_op (on_locks (heartbeat_lock lid owner ttl now) s) (answer h now)"

definition co_release_lock where
  "co_release_lock lid owner h now s =
     bind_op (on_locks (release lid owner now) s) (answer h now)"

definition co_expire :: "health_options \<Rightarrow> time \<Rightarrow> coordinator
    \<Rightarrow> maintenance coordinator_result coordinator_outcome" where
  "co_expire h now s =
     bind_op (on_queue (expire now) s) (\<lambda>items s1.
       bind_op (on_locks (expire_locks now) s1) (\<lambda>locks s2.
         bind_op (on_workers (expire_workers now) s2) (\<lambda>workers s3.
           answer h now \<lparr>mt_ran_at = now, mt_expired_work_items = items,
             mt_expired_locks = locks, mt_expired_workers = workers\<rparr> s3)))"

definition co_prune_terminal_work_items :: "time option \<Rightarrow> health_options \<Rightarrow> time \<Rightarrow> coordinator
    \<Rightarrow> pruning coordinator_result coordinator_outcome" where
  "co_prune_terminal_work_items before h now s =
     bind_op (on_queue (prune_terminal before) s) (\<lambda>items.
       answer h now \<lparr>pn_ran_at = now, pn_pruned_work_items = items, pn_before = before\<rparr>)"

definition co_cancel_work_item where
  "co_cancel_work_item k reason h now s =
     bind_op (on_queue (cancel_work k reason now) s) (answer h now)"

text \<open>Every operation as an event, beside the events of clients that use the components
  directly (the workers of the queue do).\<close>

datatype coordinator_event =
    CoScheduleSession string schedule_options time health_options time
  | CoScheduleGoal string schedule_options time health_options time
  | CoScheduleTask string string schedule_options time health_options time
  | CoScheduleAction string string string schedule_options time health_options time
  | CoRegister string "string list" json_mapping rat health_options time
  | CoHeartbeatWorker string rat health_options time
  | CoDrain string string health_options time
  | CoMarkOffline string string health_options time
  | CoAcquire string string rat json_mapping health_options time
  | CoHeartbeatLock string string rat health_options time
  | CoRelease string string health_options time
  | CoExpire health_options time
  | CoPrune "time option" health_options time
  | CoCancel string string health_options time
  | OnQueue queue_event
  | OnLocks lock_event
  | OnWorkers worker_event

fun coordinator_step :: "coordinator \<Rightarrow> coordinator_event \<Rightarrow> coordinator" where
  "coordinator_step s (CoScheduleSession sid o1 clk h now) = snd (co_schedule_session sid o1 clk h now s)"
| "coordinator_step s (CoScheduleGoal key o1 clk h now) = snd (co_schedule_goal key o1 clk h now s)"
| "coordinator_step s (CoScheduleTask sid tid o1 clk h now) = snd (co_schedule_task sid tid o1 clk h now s)"
| "coordinator_step s (CoScheduleAction sid tid aid o1 clk h now) =
     snd (co_schedule_action sid tid aid o1 clk h now s)"
| "coordinator_step s (CoRegister w caps md ttl h now) = snd (co_register_worker w caps md ttl h now s)"
| "coordinator_step s (CoHeartbeatWorker w ttl h now) = snd (co_heartbeat_worker w ttl h now s)"
| "coordinator_step s (CoDrain w reason h now) = snd (co_drain_worker w reason h now s)"
| "coordinator_step s (CoMarkOffline w reason h now) = snd (co_mark_worker_offline w reason h now s)"
| "coordinator_step s (CoAcquire key owner ttl md h now) = snd (co_acquire_lock key owner ttl md h now s)"
| "coordinator_step s (CoHeartbeatLock lid owner ttl h now) = snd (co_heartbeat_lock lid owner ttl h now s)"
| "coordinator_step s (CoRelease lid owner h now) = snd (co_release_lock lid owner h now s)"
| "coordinator_step s (CoExpire h now) = snd (co_expire h now s)"
| "coordinator_step s (CoPrune before h now) = snd (co_prune_terminal_work_items before h now s)"
| "coordinator_step s (CoCancel k reason h now) = snd (co_cancel_work_item k reason h now s)"
| "coordinator_step s (OnQueue e) = s\<lparr>dc_queue := queue_step (dc_queue s) e\<rparr>"
| "coordinator_step s (OnLocks e) = s\<lparr>dc_locks := lock_step (dc_locks s) e\<rparr>"
| "coordinator_step s (OnWorkers e) = s\<lparr>dc_workers := worker_step (dc_workers s) e\<rparr>"

lemmas co_op_defs = co_schedule_session_def co_schedule_goal_def co_schedule_task_def
  co_schedule_action_def co_register_worker_def co_heartbeat_worker_def co_drain_worker_def
  co_mark_worker_offline_def co_acquire_lock_def co_heartbeat_lock_def co_release_lock_def
  co_prune_terminal_work_items_def co_cancel_work_item_def

subsection \<open>The operations change exactly their component\<close>

lemma answer_state [simp]: "snd (answer h now v s) = s"
  by (simp add: answer_def check_op_def Let_def split: sum.splits)

lemma bind_answer_state: "snd (bind_op r (\<lambda>v. answer h now (f v))) = snd r"
  by (cases r; cases "fst r") auto

lemma bind_answer_state' [simp]: "snd (bind_op r (answer h now)) = snd r"
  using bind_answer_state [of r h now "\<lambda>v. v"] by simp

lemma on_component_state [simp]:
  "snd (on_queue f s) = s\<lparr>dc_queue := snd (f (dc_queue s))\<rparr>"
  "snd (on_locks g s) = s\<lparr>dc_locks := snd (g (dc_locks s))\<rparr>"
  "snd (on_workers k s) = s\<lparr>dc_workers := snd (k (dc_workers s))\<rparr>"
  by (simp_all add: on_queue_def on_locks_def on_workers_def split_beta)

definition coordinator_inv :: "coordinator \<Rightarrow> bool" where
  "coordinator_inv s \<longleftrightarrow> queue_inv (dc_queue s) \<and> lock_inv (dc_locks s) \<and> worker_inv (dc_workers s)"

lemma queue_inv_schedule:
  assumes "queue_inv q"
  shows "queue_inv (snd (schedule_session sid o1 clk q))" "queue_inv (snd (schedule_goal key o1 clk q))"
    "queue_inv (snd (schedule_task sid tid o1 clk q))" "queue_inv (snd (schedule_action sid tid aid o1 clk q))"
  using assms by (auto simp: schedule_session_def schedule_goal_def schedule_task_def schedule_action_def
    check_op_def queue_inv_enqueue split: sum.splits)

lemma coordinator_write: "s\<lparr>dc_queue := a, dc_locks := b, dc_workers := c\<rparr>
    = \<lparr>dc_queue = a, dc_locks = b, dc_workers = c\<rparr>"
  by (cases s) simp

lemma co_expire_eq:
  assumes inv: "coordinator_inv s"
  shows "\<exists>items locks workers. co_expire h now s = answer h now
      \<lparr>mt_ran_at = now, mt_expired_work_items = items, mt_expired_locks = locks, mt_expired_workers = workers\<rparr>
      \<lparr>dc_queue = sweep_queue now (dc_queue s), dc_locks = sweep_locks now (dc_locks s),
       dc_workers = sweep_workers now (dc_workers s)\<rparr>"
proof -
  from inv have i: "queue_inv (dc_queue s)" "lock_inv (dc_locks s)" "worker_inv (dc_workers s)"
    by (simp_all add: coordinator_inv_def)
  obtain rs where "expire_workers now (dc_workers s) = (Inr rs, sweep_workers now (dc_workers s))"
    using expire_workers_eq [OF worker_inv_wf [OF i(3)]] by blast
  then show ?thesis
    by (auto simp: co_expire_def on_queue_def on_locks_def on_workers_def coordinator_write
      expire_eq [OF i(1)] expire_locks_eq [OF i(2)])
qed

lemma queue_inv_prune_terminal: "queue_inv q \<Longrightarrow> queue_inv (snd (prune_terminal b q))"
  using queue_inv_step [of q "Prune b"] by simp

lemma lock_inv_ops:
  assumes "lock_inv l"
  shows "lock_inv (snd (acquire key owner ttl md now l))" "lock_inv (snd (heartbeat_lock lid owner ttl now l))"
    "lock_inv (snd (release lid owner now l))"
  using assms by (simp_all add: lock_inv_acquire lock_inv_heartbeat lock_inv_release)

lemma worker_inv_ops:
  assumes "worker_inv w"
  shows "worker_inv (snd (register_worker x caps md ttl now w))" "worker_inv (snd (heartbeat_worker x ttl now w))"
    "worker_inv (snd (drain_worker x reason now w))" "worker_inv (snd (mark_offline x reason now w))"
  using worker_inv_step [OF assms, of "Register x caps md ttl now"]
    worker_inv_step [OF assms, of "WorkerHeartbeat x ttl now"]
    worker_inv_step [OF assms, of "Drain x reason now"]
    worker_inv_step [OF assms, of "MarkOffline x reason now"] by simp_all

lemma coordinator_inv_step:
  assumes inv: "coordinator_inv s"
  shows "coordinator_inv (coordinator_step s e)"
proof (cases e)
  case (CoExpire h now)
  from co_expire_eq [OF inv, of h now] show ?thesis
    using inv by (auto simp: CoExpire coordinator_inv_def queue_inv_sweep lock_inv_sweep worker_inv_sweep)
qed (use inv in \<open>simp_all add: coordinator_inv_def co_op_defs queue_inv_schedule lock_inv_ops worker_inv_ops
  queue_inv_cancel queue_inv_prune_terminal bind_answer_state queue_inv_step lock_inv_step worker_inv_step\<close>)

interpretation co: invariant_system coordinator_step empty_coordinator coordinator_inv
proof
  show "coordinator_inv empty_coordinator"
    by (simp add: coordinator_inv_def empty_coordinator_def queue_inv_empty lock_inv_empty worker_inv_empty)
qed (rule coordinator_inv_step)

subsection \<open>Properties\<close>

lemma dict_value_key: "dict_wf d \<Longrightarrow> v \<in> set (dict_values d) \<Longrightarrow> \<exists>k. map_of d k = Some v"
  by auto

text \<open>The sweep of the coordinator is complete: in every reachable state, \<open>expire\<close> at \<open>now\<close> with
  valid health parameters succeeds, and the snapshot it returns shows no lease of an item, a
  lock or an active worker whose deadline is at or before \<open>now\<close>; a lease after \<open>now\<close> is kept.\<close>

theorem coordinator_expire_complete:
  assumes "reachable_from coordinator_step empty_coordinator s"
    and h: "0 \<le> ho_queued_backlog_warn_threshold h" "0 \<le> ho_lease_expiry_warn_seconds h"
      "0 \<le> ho_min_online_workers h"
  shows "\<exists>r s'. co_expire h now s = (Inr r, s')
    \<and> (\<forall>l \<in> set (all_leases (co_snapshot r) now). now < el_lease_expires_at l)
    \<and> live_leases (dc_queue s') = {p \<in> live_leases (dc_queue s). now < snd p}
    \<and> live_locks (dc_locks s') = {p \<in> live_locks (dc_locks s). now < snd p}
    \<and> live_workers (dc_workers s') = {p \<in> live_workers (dc_workers s). now < snd p}"
proof -
  have inv: "coordinator_inv s" using assms(1) by (rule co.inv_reachable)
  then have i: "queue_inv (dc_queue s)" "lock_inv (dc_locks s)" "worker_inv (dc_workers s)"
    by (simp_all add: coordinator_inv_def)
  let ?s = "\<lparr>dc_queue = sweep_queue now (dc_queue s), dc_locks = sweep_locks now (dc_locks s),
       dc_workers = sweep_workers now (dc_workers s)\<rparr>"
  have live: "live_leases (dc_queue ?s) = {p \<in> live_leases (dc_queue s). now < snd p}"
    "live_locks (dc_locks ?s) = {p \<in> live_locks (dc_locks s). now < snd p}"
    "live_workers (dc_workers ?s) = {p \<in> live_workers (dc_workers s). now < snd p}"
    using wq_leases.live_sweep [OF i(1), of now] lk_leases.live_sweep [OF i(2), of now]
      wk_leases.live_sweep [OF i(3), of now] expire_eq [OF i(1), of now] expire_locks_eq [OF i(2), of now]
      expire_workers_eq [OF worker_inv_wf [OF i(3)], of now] by auto
  have inv': "queue_inv (dc_queue ?s)" "lock_inv (dc_locks ?s)" "worker_inv (dc_workers ?s)"
    using i by (simp_all add: queue_inv_sweep lock_inv_sweep worker_inv_sweep)
  obtain v where "co_expire h now s = answer h now v ?s" using co_expire_eq [OF inv] by metis
  moreover obtain rep where "report_on (coordinator_snapshot ?s) h now = Inr rep"
    using h by (simp add: report_on_def health_report_of_def parse_defs)
  ultimately have e: "co_expire h now s =
      (Inr \<lparr>co_value = v, co_snapshot = coordinator_snapshot ?s, co_health = rep\<rparr>, ?s)"
    by (simp add: answer_def)
  have item: "now < wl_lease_expires_at l"
    if i: "i \<in> set (dict_values (wq_items (dc_queue ?s)))" "wi_status i = WLeased" "wi_lease i = Some l" for i l
  proof -
    obtain k where "map_of (wq_items (dc_queue ?s)) k = Some i"
      using dict_value_key [OF queue_inv_wf(1) [OF inv'(1)] i(1)] by blast
    with i(2,3) have "(k, wl_lease_expires_at l) \<in> live_leases (dc_queue ?s)"
      unfolding live_leases_def by blast
    then show ?thesis unfolding live by simp
  qed
  have lock: "now < dl_lease_expires_at l" if l: "l \<in> set (active_locks (dc_locks ?s))" for l
  proof -
    obtain k where "map_of (lr_leases (dc_locks ?s)) k = Some l"
      using l map_of_key [of _ "lr_leases (dc_locks ?s)"] unfolding active_locks_set by fastforce
    then have "(k, dl_lease_expires_at l) \<in> live_locks (dc_locks ?s)" unfolding live_locks_def by blast
    then show ?thesis unfolding live by simp
  qed
  have worker: "now < wr_lease_expires_at r"
    if r: "r \<in> set (dict_values (dc_workers ?s))" "is_active r" for r
  proof -
    obtain k where "map_of (dc_workers ?s) k = Some r"
      using dict_value_key [OF worker_inv_wf [OF inv'(3)] r(1)] by blast
    with r(2) have "(k, wr_lease_expires_at r) \<in> live_workers (dc_workers ?s)"
      unfolding live_workers_def by blast
    then show ?thesis unfolding live by simp
  qed
  have "\<forall>l \<in> set (all_leases (coordinator_snapshot ?s) now). now < el_lease_expires_at l"
    unfolding coordinator_snapshot_def all_leases_snapshot [where P = "\<lambda>d _. now < d"]
    using item lock worker by blast
  with e live show ?thesis by simp
qed

theorem coordinator_expire_complete_witness:
  "\<exists>r s'. co_expire default_health 50000000 (run_events coordinator_step empty_coordinator
      [CoAcquire ''db'' ''A'' 30 [] default_health 0]) = (Inr r, s')
    \<and> live_locks (dc_locks s') = {p \<in> live_locks (dc_locks (run_events coordinator_step empty_coordinator
      [CoAcquire ''db'' ''A'' 30 [] default_health 0])). 50000000 < snd p}"
proof -
  have 1: "reachable_from coordinator_step empty_coordinator (run_events coordinator_step empty_coordinator
      [CoAcquire ''db'' ''A'' 30 [] default_health 0])"
    by (intro reachable_run reachable_from.start)
  show ?thesis using coordinator_expire_complete [OF 1, of default_health 50000000]
    by (force simp: default_health_def)
qed

lemma seconds_remaining_small:
  assumes "now < d" and "d < now + 500"
  shows "seconds_remaining d now = 0"
proof -
  have r: "0 \<le> rat_of_int (d - now)" "rat_of_int (d - now) < 500"
    using assms by (simp_all del: of_int_diff)
  then have "\<lfloor>rat_of_int (d - now) / 1000\<rfloor> = 0" by (simp add: floor_eq_iff del: of_int_diff)
  then have "round_half_even (rat_of_int (d - now) / 1000) = 0"
    using r by (simp add: round_half_even_def Let_def del: of_int_diff)
  then show ?thesis by (simp add: seconds_remaining_def del: of_int_diff)
qed

lemma expired_lease_reported:
  assumes "l \<in> set (all_leases s now)" and "el_seconds_remaining l \<le> 0" and "0 \<le> warn"
  shows "hp_status (build_report s now thr warn req) = HError
    \<and> (\<exists>x \<in> set (hp_recommendations (build_report s now thr warn req)). hr_code x = ''run_expiry_sweep'')"
proof -
  let ?ls = "expiring_leases s now warn"
  have "l \<in> set ?ls" using assms by (simp add: expiring_leases_def)
  then have "expired_count ?ls \<noteq> 0" using assms(2) by (auto simp: expired_count_def filter_empty_conv)
  moreover from this have "hc_status (lease_freshness_check ?ls) = HError" by (simp add: lease_freshness_check_def)
  ultimately show ?thesis
    by (simp add: build_report_def Let_def aggregate_status_def recommendations_def recommend_def)
qed

text \<open>The report may still ask for a sweep right after one: the remaining time is rounded to
  milliseconds before it is compared with zero, so a lock whose lease has less than half a
  millisecond left at \<open>now\<close> is kept by \<open>expire\<close> at \<open>now\<close> (rightly, it has not lapsed), and yet the
  report of that same call says ERROR and recommends to run the sweep.\<close>

theorem sweep_recommended_after_sweep:
  assumes inv: "coordinator_inv s" and l: "map_of (lr_leases (dc_locks s)) k = Some l"
    and now: "now < dl_lease_expires_at l" "dl_lease_expires_at l < now + 500"
    and res: "co_expire h now s = (Inr r, s')"
  shows "map_of (lr_leases (dc_locks s')) k = Some l \<and> hp_status (co_health r) = HError
    \<and> (\<exists>x \<in> set (hp_recommendations (co_health r)). hr_code x = ''run_expiry_sweep'')"
proof -
  have li: "lock_inv (dc_locks s)" using inv by (simp add: coordinator_inv_def)
  obtain v where "co_expire h now s = answer h now v \<lparr>dc_queue = sweep_queue now (dc_queue s),
      dc_locks = sweep_locks now (dc_locks s), dc_workers = sweep_workers now (dc_workers s)\<rparr>"
    using co_expire_eq [OF inv] by metis
  with res have a: "answer h now v s' = (Inr r, s')" and s': "dc_locks s' = sweep_locks now (dc_locks s)"
    using answer_state [of h now v] by (metis snd_conv, metis snd_conv coordinator.select_convs(2))
  have k: "map_of (lr_leases (dc_locks s')) k = Some l"
    unfolding s' sweep_locks_lookup [OF li] using l now by blast
  from a have rep: "report_on (coordinator_snapshot s') h now = Inr (co_health r)"
    by (auto simp: answer_def Let_def check_op_def split: sum.splits)
  then have w: "0 \<le> ho_lease_expiry_warn_seconds h" and r: "co_health r = build_report (coordinator_snapshot s') now
      (ho_queued_backlog_warn_threshold h) (ho_lease_expiry_warn_seconds h) (ho_min_online_workers h)"
    by (auto simp: report_on_def health_report_of_def parse_defs split: if_splits)
  have "k \<in> set (dict_keys (lr_leases (dc_locks s')))" using map_of_SomeD [OF k] by force
  then have "l \<in> set (active_locks (dc_locks s'))" unfolding active_locks_set using k by (metis image_eqI option.sel)
  then have d: "dl_lease_expires_at l \<in> dl_lease_expires_at ` set (active_locks (dc_locks s'))" by (rule imageI)
  have "\<exists>x \<in> set (all_leases (coordinator_snapshot s') now). el_seconds_remaining x \<le> 0"
  proof (rule ccontr)
    assume "\<not> (\<exists>x \<in> set (all_leases (coordinator_snapshot s') now). el_seconds_remaining x \<le> 0)"
    then have "\<forall>x \<in> set (all_leases (coordinator_snapshot s') now). \<not> el_seconds_remaining x \<le> 0" by blast
    from this [unfolded coordinator_snapshot_def all_leases_snapshot [where P = "\<lambda>_ x. \<not> x \<le> 0"]]
    have "\<not> seconds_remaining (dl_lease_expires_at l) now \<le> 0" using d by blast
    then show False using seconds_remaining_small [OF now] by simp
  qed
  then show ?thesis using expired_lease_reported w k unfolding r by blast
qed

definition co_a :: coordinator where
  "co_a = snd (co_acquire_lock ''db'' ''A'' 30 [] default_health 0 empty_coordinator)"

theorem sweep_recommended_after_sweep_witness:
  "\<exists>r s'. co_expire default_health 29999600 co_a = (Inr r, s') \<and> lr_leases (dc_locks s') \<noteq> []
    \<and> hp_status (co_health r) = HError"
proof -
  have 0: "coordinator_inv co_a"
    using co.inv_step [OF co.inv_init, of "CoAcquire ''db'' ''A'' 30 [] default_health 0"] by (simp add: co_a_def)
  have d: "dc_locks co_a = locks_a"
    by (simp add: co_a_def co_acquire_lock_def locks_a_def empty_coordinator_def)
  have 1: "map_of (lr_leases (dc_locks co_a)) ''db'' = Some (the (map_of (lr_leases (dc_locks co_a)) ''db''))"
    unfolding d by (rule some_the) code_simp
  have 2: "dl_lease_expires_at (the (map_of (lr_leases (dc_locks co_a)) ''db'')) = 30000000"
    unfolding d by code_simp
  obtain v s1 where "co_expire default_health 29999600 co_a = answer default_health 29999600 v s1"
    using co_expire_eq [OF 0] by metis
  then have "\<exists>r s'. co_expire default_health 29999600 co_a = (Inr r, s')"
    by (simp add: answer_def Let_def report_on_def health_report_of_def parse_defs default_health_def)
  then obtain r s' where 3: "co_expire default_health 29999600 co_a = (Inr r, s')" by blast
  show ?thesis using sweep_recommended_after_sweep [OF 0 1 _ _ 3] 3 by (force simp: 2)
qed

text \<open>A rejected report does not undo the operation: with an invalid health parameter an
  operation of the coordinator raises, but only after its component has changed. Acquiring a
  lock with a negative backlog threshold raises and leaves the lock held.\<close>

theorem invalid_threshold_keeps_effect:
  assumes "acquire key owner ttl md now (dc_locks s) = (Inr l, locks')"
    and "ho_queued_backlog_warn_threshold h < 0"
  shows "co_acquire_lock key owner ttl md h now s =
    (Inl (CValue ''queued_backlog_warn_threshold must be non-negative''), s\<lparr>dc_locks := locks'\<rparr>)"
  using assms by (simp add: co_acquire_lock_def on_locks_def answer_def report_on_def health_report_of_def
    parse_defs Let_def)

theorem invalid_threshold_keeps_effect_witness:
  "\<exists>s. co_acquire_lock ''db'' ''A'' 30 [] (default_health\<lparr>ho_queued_backlog_warn_threshold := -1\<rparr>) 0
      empty_coordinator = (Inl (CValue ''queued_backlog_warn_threshold must be non-negative''), s)
    \<and> lr_leases (dc_locks s) \<noteq> []"
proof -
  have 1: "acquire ''db'' ''A'' 30 [] 0 (dc_locks empty_coordinator)
      = (Inr (value_of (acquire ''db'' ''A'' 30 [] 0 (dc_locks empty_coordinator))), locks_a)"
    unfolding locks_a_def empty_coordinator_def coordinator.select_convs by (rule outcome_ok) code_simp
  have 2: "lr_leases locks_a \<noteq> []" by code_simp
  show ?thesis using invalid_threshold_keeps_effect [OF 1, of "default_health\<lparr>ho_queued_backlog_warn_threshold := -1\<rparr>"]
    by (simp add: 2)
qed

end
