(* ===== verification/Recovery.thy ===== *)
theory Recovery
  imports Core_Models
begin

text \<open>
  Recovery from failures: \<open>recovery/models.py\<close>, \<open>recovery/manager.py\<close>, \<open>recovery/rules.py\<close>. A
  decision is made from the failure and the attempts already spent; the runtime then records
  the attempt under the key of the decision (\<open>runtime/recovery_planning.py\<close>).
\<close>

subsection \<open>models.py\<close>

datatype failure_category = FcTimeout | FcTransient | FcPermissionDenied | FcValidation
  | FcDependencyMissing | FcToolFailure | FcEvaluationFailed | FcUserRequired | FcUnknown

datatype recovery_strategy = RetryAction | Reobserve | ExpandDiagnosisTask | AlternativeCapability
  | AskUserStrategy | StopStrategy | Rollback

fun failure_category_value :: "failure_category \<Rightarrow> string" where
  "failure_category_value FcTimeout = ''timeout''"
| "failure_category_value FcTransient = ''transient''"
| "failure_category_value FcPermissionDenied = ''permission_denied''"
| "failure_category_value FcValidation = ''validation''"
| "failure_category_value FcDependencyMissing = ''dependency_missing''"
| "failure_category_value FcToolFailure = ''tool_failure''"
| "failure_category_value FcEvaluationFailed = ''evaluation_failed''"
| "failure_category_value FcUserRequired = ''user_required''"
| "failure_category_value FcUnknown = ''unknown''"

record failure =
  fl_task_id :: string
  fl_error_code :: error_code
  fl_category :: failure_category
  fl_reason :: string
  fl_capability :: "string option"
  fl_arguments :: json_mapping
  fl_target :: "string option"

record recovery_rule =
  rr_name :: string
  rr_categories :: "failure_category list"
  rr_strategy :: recovery_strategy
  rr_max_attempts :: int
  rr_capability :: "string option"
  rr_priority :: int
  rr_match_capabilities :: "string list"

record recovery_decision =
  rd_strategy :: recovery_strategy
  rd_rule_name :: string
  rd_attempt :: nat
  rd_exhausted :: bool
  rd_capability :: "string option"

text \<open>\<open>RecoveryRule.__post_init__\<close>: the message of the \<open>ValueError\<close>.\<close>

definition rule_problem :: "recovery_rule \<Rightarrow> string option" where
  "rule_problem r =
     (if rr_max_attempts r < 0 then Some ''recovery max_attempts cannot be negative''
      else if rr_strategy r = AlternativeCapability
          \<and> blank (case rr_capability r of None \<Rightarrow> [] | Some c \<Rightarrow> c)
        then Some ''alternative capability recovery requires a capability''
      else if rr_strategy r = Rollback then Some ''rollback execution is outside P2''
      else None)"

subsection \<open>manager.py\<close>

fun classify_failure :: "error_code \<Rightarrow> failure_category" where
  "classify_failure TIMEOUT = FcTimeout"
| "classify_failure TRANSIENT = FcTransient"
| "classify_failure RESOURCE_CONFLICT = FcTransient"
| "classify_failure POLICY_DENIED = FcPermissionDenied"
| "classify_failure CONFIRMATION_REJECTED = FcPermissionDenied"
| "classify_failure PERMISSION_DENIED = FcPermissionDenied"
| "classify_failure USER_REQUIRED = FcUserRequired"
| "classify_failure DEPENDENCY_MISSING = FcDependencyMissing"
| "classify_failure VALIDATION_ERROR = FcValidation"
| "classify_failure INVALID_STATE = FcValidation"
| "classify_failure UNKNOWN_CAPABILITY = FcValidation"
| "classify_failure UNKNOWN_TOOL = FcValidation"
| "classify_failure NO_CAPABILITY_TOOL = FcDependencyMissing"
| "classify_failure EVALUATION_FAILED = FcEvaluationFailed"
| "classify_failure TOOL_FAILURE = FcToolFailure"
| "classify_failure UNKNOWN_EXECUTION = FcUnknown"
| "classify_failure _ = FcUnknown"

text \<open>\<open>RecoveryManager.__init__\<close> sorts the rules by priority and name.\<close>

definition sorted_rules :: "recovery_rule list \<Rightarrow> recovery_rule list" where
  "sorted_rules rules = sort_key (\<lambda>r. (rr_priority r, rr_name r)) rules"

definition rule_matches :: "failure \<Rightarrow> recovery_rule \<Rightarrow> bool" where
  "rule_matches f r \<longleftrightarrow> fl_category f \<in> set (rr_categories r)
     \<and> (rr_match_capabilities r = []
        \<or> (case fl_capability f of None \<Rightarrow> False | Some c \<Rightarrow> c \<in> set (rr_match_capabilities r)))"

definition attempt_key :: "string \<Rightarrow> failure_category \<Rightarrow> string \<Rightarrow> string" where
  "attempt_key task cat rule = task @ CHR '':'' # failure_category_value cat @ CHR '':'' # rule"

definition decide :: "recovery_rule list \<Rightarrow> failure \<Rightarrow> (string, nat) dict \<Rightarrow> recovery_decision \<times> string" where
  "decide rules f attempts =
     (case find (rule_matches f) (sorted_rules rules) of
        None \<Rightarrow> (\<lparr>rd_strategy = StopStrategy, rd_rule_name = ''default-stop'', rd_attempt = 0,
                  rd_exhausted = False, rd_capability = None\<rparr>, '''')
      | Some r \<Rightarrow>
          let key = attempt_key (fl_task_id f) (fl_category f) (rr_name r);
              attempt = dict_get attempts key 0 + 1;
              exhausted = int attempt > rr_max_attempts r
          in (\<lparr>rd_strategy = (if exhausted then StopStrategy else rr_strategy r),
               rd_rule_name = rr_name r, rd_attempt = attempt, rd_exhausted = exhausted,
               rd_capability = rr_capability r\<rparr>, key))"

text \<open>\<open>if key: state.recovery_attempts[key] = recovery.attempt\<close>\<close>

definition note_attempt :: "recovery_decision \<times> string \<Rightarrow> (string, nat) dict \<Rightarrow> (string, nat) dict" where
  "note_attempt d attempts =
     (if snd d = [] then attempts else AList.update (snd d) (rd_attempt (fst d)) attempts)"

subsection \<open>rules.py\<close>

definition plain_rule :: "string \<Rightarrow> failure_category list \<Rightarrow> recovery_strategy \<Rightarrow> int \<Rightarrow> int \<Rightarrow> recovery_rule" where
  "plain_rule name cats strategy maxa priority =
     \<lparr>rr_name = name, rr_categories = cats, rr_strategy = strategy, rr_max_attempts = maxa,
      rr_capability = None, rr_priority = priority, rr_match_capabilities = []\<rparr>"

definition retry_transient_rule :: recovery_rule where
  "retry_transient_rule = plain_rule ''retry-transient'' [FcTransient, FcTimeout] RetryAction 3 25"

definition retry_tool_failure_rule :: recovery_rule where
  "retry_tool_failure_rule = plain_rule ''retry-tool-failure'' [FcToolFailure] RetryAction 2 20"

definition alternative_capability_rule :: "string \<Rightarrow> recovery_rule" where
  "alternative_capability_rule c =
     (plain_rule ''alternative-capability'' [FcToolFailure, FcDependencyMissing] AlternativeCapability 1 30)
       \<lparr>rr_capability := Some c\<rparr>"

definition diagnose_health_rule :: recovery_rule where
  "diagnose_health_rule =
     plain_rule ''diagnose-health'' [FcEvaluationFailed, FcValidation] ExpandDiagnosisTask 1 40"

definition stop_on_policy_denied_rule :: recovery_rule where
  "stop_on_policy_denied_rule = plain_rule ''stop-on-policy-denied'' [FcPermissionDenied] StopStrategy 0 10"

definition user_required_rule :: recovery_rule where
  "user_required_rule = plain_rule ''ask-user-required'' [FcUserRequired] AskUserStrategy 1 45"

definition ask_user_rule :: recovery_rule where
  "ask_user_rule = plain_rule ''ask-user'' [FcUnknown] AskUserStrategy 1 50"

definition default_recovery_rules :: "recovery_rule list" where
  "default_recovery_rules =
     [stop_on_policy_denied_rule, retry_tool_failure_rule, retry_transient_rule,
      alternative_capability_rule ''escalate_to_user'', diagnose_health_rule, user_required_rule,
      ask_user_rule]"

subsection \<open>Attempts are bounded\<close>

lemma attempt_key_ne [simp]: "attempt_key t c r \<noteq> []"
  by (simp add: attempt_key_def)

lemma decide_cases:
  obtains (none) "decide rules f a = (\<lparr>rd_strategy = StopStrategy, rd_rule_name = ''default-stop'',
      rd_attempt = 0, rd_exhausted = False, rd_capability = None\<rparr>, '''')"
      and "\<forall>r \<in> set rules. \<not> rule_matches f r"
  | (rule) r where "r \<in> set rules" and "rule_matches f r"
      and "\<And>r'. r' \<in> set rules \<Longrightarrow> rule_matches f r' \<Longrightarrow> (rr_priority r, rr_name r) \<le> (rr_priority r', rr_name r')"
      and "snd (decide rules f a) = attempt_key (fl_task_id f) (fl_category f) (rr_name r)"
      and "rd_attempt (fst (decide rules f a)) = dict_get a (snd (decide rules f a)) 0 + 1"
      and "rd_strategy (fst (decide rules f a)) =
        (if int (rd_attempt (fst (decide rules f a))) > rr_max_attempts r then StopStrategy else rr_strategy r)"
      and "rd_rule_name (fst (decide rules f a)) = rr_name r"
proof (cases "find (rule_matches f) (sorted_rules rules)")
  case None
  then have "decide rules f a = (\<lparr>rd_strategy = StopStrategy, rd_rule_name = ''default-stop'',
      rd_attempt = 0, rd_exhausted = False, rd_capability = None\<rparr>, '''')" by (simp add: decide_def)
  moreover have "\<forall>r \<in> set rules. \<not> rule_matches f r"
    using None by (simp add: find_None_iff sorted_rules_def)
  ultimately show ?thesis by (rule none)
next
  case (Some r)
  let ?xs = "sorted_rules rules" and ?key = "\<lambda>r. (rr_priority r, rr_name r)"
  from Some obtain n where n: "n < length ?xs" "r = ?xs ! n" "rule_matches f r"
      "\<forall>m < n. \<not> rule_matches f (?xs ! m)"
    unfolding find_Some_iff by blast
  have least: "?key r \<le> ?key r'" if r': "r' \<in> set rules" "rule_matches f r'" for r'
  proof -
    have "r' \<in> set ?xs" using r' by (simp add: sorted_rules_def)
    then obtain m where m: "m < length ?xs" "r' = ?xs ! m" by (metis in_set_conv_nth)
    then have "n \<le> m" using n(4) r'(2) by (metis not_less)
    moreover have "sorted (map ?key ?xs)" unfolding sorted_rules_def by (rule sorted_sort_key)
    ultimately have "map ?key ?xs ! n \<le> map ?key ?xs ! m"
      using m(1) by (intro sorted_nth_mono) simp_all
    then show ?thesis unfolding nth_map [OF n(1)] nth_map [OF m(1)] n(2) m(2) .
  qed
  have "decide rules f a = (\<lparr>rd_strategy =
        (if int (dict_get a (attempt_key (fl_task_id f) (fl_category f) (rr_name r)) 0 + 1) > rr_max_attempts r
         then StopStrategy else rr_strategy r),
      rd_rule_name = rr_name r,
      rd_attempt = dict_get a (attempt_key (fl_task_id f) (fl_category f) (rr_name r)) 0 + 1,
      rd_exhausted = int (dict_get a (attempt_key (fl_task_id f) (fl_category f) (rr_name r)) 0 + 1) > rr_max_attempts r,
      rd_capability = rr_capability r\<rparr>, attempt_key (fl_task_id f) (fl_category f) (rr_name r))"
    unfolding decide_def Some by (simp add: Let_def)
  note e = this
  show ?thesis
  proof (rule rule [of r])
    show "r \<in> set rules" unfolding n(2) using nth_mem [OF n(1)] by (simp add: sorted_rules_def)
    show "rule_matches f r" by (rule n(3))
    show "(rr_priority r, rr_name r) \<le> (rr_priority r', rr_name r')"
      if "r' \<in> set rules" "rule_matches f r'" for r' using that by (rule least)
  qed (simp_all add: e)
qed

text \<open>A run of failures: the decisions, each made with the attempts that the earlier ones spent.\<close>

fun recovery_run :: "recovery_rule list \<Rightarrow> failure list \<Rightarrow> (string, nat) dict
    \<Rightarrow> (recovery_decision \<times> string) list" where
  "recovery_run rules [] a = []"
| "recovery_run rules (f # fs) a =
     (let d = decide rules f a in d # recovery_run rules fs (note_attempt d a))"

lemma recovery_spent:
  "length (filter (\<lambda>d. snd d = key \<and> snd d \<noteq> [] \<and> int (rd_attempt (fst d)) \<le> n) (recovery_run rules fs a))
     \<le> nat n - dict_get a key 0"
proof (induction fs arbitrary: a)
  case Nil
  then show ?case by simp
next
  case (Cons f fs)
  let ?d = "decide rules f a" and ?a = "note_attempt (decide rules f a) a"
  have IH: "length (filter (\<lambda>d. snd d = key \<and> snd d \<noteq> [] \<and> int (rd_attempt (fst d)) \<le> n)
      (recovery_run rules fs ?a)) \<le> nat n - dict_get ?a key 0" by (rule Cons.IH)
  show ?case
  proof (cases rule: decide_cases [of rules f a])
    case none
    then show ?thesis using IH by (simp add: Let_def note_attempt_def)
  next
    case (rule r)
    then have "dict_get ?a key 0 = (if snd ?d = key then dict_get a key 0 + 1 else dict_get a key 0)"
      by (auto simp: note_attempt_def dict_get_update)
    moreover have "rd_attempt (fst ?d) = dict_get a (snd ?d) 0 + 1" by (rule rule(5))
    moreover define L where "L = length (filter (\<lambda>d. snd d = key \<and> snd d \<noteq> [] \<and> int (rd_attempt (fst d)) \<le> n)
      (recovery_run rules fs ?a))"
    moreover have "length (filter (\<lambda>d. snd d = key \<and> snd d \<noteq> [] \<and> int (rd_attempt (fst d)) \<le> n)
        (recovery_run rules (f # fs) a))
      = (if snd ?d = key \<and> snd ?d \<noteq> [] \<and> int (rd_attempt (fst ?d)) \<le> n then 1 else 0) + L"
      by (simp add: Let_def L_def)
    ultimately show ?thesis using IH by (cases "snd ?d = key") (auto split: if_splits)
  qed
qed

lemma length_filter_conj: "length (filter (\<lambda>x. P x \<and> Q x) xs) \<le> length (filter P xs)"
  by (induction xs) auto


definition tool_failure :: failure where
  "tool_failure = \<lparr>fl_task_id = ''t'', fl_error_code = TOOL_FAILURE, fl_category = FcToolFailure,
     fl_reason = ''boom'', fl_capability = Some ''restart'', fl_arguments = [], fl_target = None\<rparr>"


subsection \<open>The default rules\<close>

lemma default_sorted: "sorted_rules default_recovery_rules =
    [stop_on_policy_denied_rule, retry_tool_failure_rule, retry_transient_rule,
     alternative_capability_rule ''escalate_to_user'', diagnose_health_rule, user_required_rule,
     ask_user_rule]"
  by code_simp

lemmas default_rule_defs = stop_on_policy_denied_rule_def retry_tool_failure_rule_def
  retry_transient_rule_def alternative_capability_rule_def diagnose_health_rule_def
  user_required_rule_def ask_user_rule_def plain_rule_def rule_matches_def

text \<open>The rule that the default set applies to a category.\<close>

fun default_rule :: "failure_category \<Rightarrow> recovery_rule" where
  "default_rule FcPermissionDenied = stop_on_policy_denied_rule"
| "default_rule FcToolFailure = retry_tool_failure_rule"
| "default_rule FcTransient = retry_transient_rule"
| "default_rule FcTimeout = retry_transient_rule"
| "default_rule FcDependencyMissing = alternative_capability_rule ''escalate_to_user''"
| "default_rule FcEvaluationFailed = diagnose_health_rule"
| "default_rule FcValidation = diagnose_health_rule"
| "default_rule FcUserRequired = user_required_rule"
| "default_rule FcUnknown = ask_user_rule"

text \<open>The default rules cover every error code, each with one rule: a failure classified from any
  error code is decided by the rule of its category, never by the implicit stop; permission
  failures always stop at once. The second rule listed for tool failures is never reached: once
  the retries are spent the decision is to stop, not to try the alternative capability.\<close>

theorem default_rules_decide:
  assumes "fl_category f = classify_failure (fl_error_code f)"
  shows "rd_rule_name (fst (decide default_recovery_rules f a)) = rr_name (default_rule (fl_category f))
    \<and> rd_strategy (fst (decide default_recovery_rules f a)) \<in> {rr_strategy (default_rule (fl_category f)), StopStrategy}
    \<and> (fl_category f = FcPermissionDenied \<longrightarrow> rd_strategy (fst (decide default_recovery_rules f a)) = StopStrategy)
    \<and> (fl_error_code f = TOOL_FAILURE \<longrightarrow>
         rd_strategy (fst (decide default_recovery_rules f a)) \<noteq> AlternativeCapability)"
proof -
  have e: "find (rule_matches f) (sorted_rules default_recovery_rules) = Some (default_rule (fl_category f))"
    unfolding default_sorted by (cases "fl_category f") (simp_all add: default_rule_defs)
  have "rr_strategy (default_rule FcPermissionDenied) = StopStrategy"
    "rr_strategy (default_rule FcToolFailure) = RetryAction" by code_simp+
  with assms show ?thesis by (auto simp: decide_def e Let_def)
qed

theorem default_rules_decide_witness:
  "rd_strategy (fst (decide default_recovery_rules tool_failure
     [(attempt_key ''t'' FcToolFailure ''retry-tool-failure'', 2)])) \<noteq> AlternativeCapability \<and>
   rule_matches tool_failure (alternative_capability_rule ''escalate_to_user'')"
proof -
  have 1: "fl_category tool_failure = classify_failure (fl_error_code tool_failure)" by code_simp
  have 2: "rule_matches tool_failure (alternative_capability_rule ''escalate_to_user'')" by code_simp
  have 3: "fl_error_code tool_failure = TOOL_FAILURE" by code_simp
  show ?thesis using default_rules_decide [OF 1] 2 3 by blast
qed

end
