(* ===== verification/Task_Graph.thy ===== *)
theory Task_Graph
  imports Core_Models
begin

text \<open>
  The task graph: \<open>tasks/models.py\<close>, \<open>tasks/manager.py\<close> and \<open>goals/compiler.py\<close>. \<open>TaskManager\<close> owns
  the tasks, their keys and dependencies, the order of creation and the current task. The
  tasks are mutable objects in the source; here the manager's table holds them, and a status
  change is an update of the table. \<open>graphlib.TopologicalSorter(d).prepare()\<close> is modelled by
  its documented effect, to raise when the graph has a cycle.
\<close>

subsection \<open>models.py\<close>

record task_spec =
  ts_key :: string
  ts_description :: string
  ts_required_criteria :: "string list"
  ts_depends_on :: "string list"
  ts_task_id :: "string option"

record task_node =
  tn_key :: string
  tn_task :: task
  tn_depends_on :: "string list"

record task_graph =
  tg_nodes :: "task_node list"
  tg_current_task_id :: string

subsection \<open>manager.py: state\<close>

record task_manager =
  tm_tasks :: "(string, task) dict"
  tm_keys :: "(string, string) dict"
  tm_dependencies :: "(string, string list) dict"
  tm_order :: "string list"
  tm_current_id :: string

text \<open>\<open>ValueError\<close> of the manager, and the \<open>KeyError\<close> of a look-up that fails.\<close>

datatype task_error = TaskValueErr string | TaskKeyErr string

type_synonym 'a task_outcome = "(task_manager, task_error, 'a) outcome"

definition new_manager :: "task \<Rightarrow> task_manager" where
  "new_manager t = \<lparr>tm_tasks = [(t_id t, t)], tm_keys = [(''root'', t_id t)],
     tm_dependencies = [(t_id t, [])], tm_order = [t_id t], tm_current_id = t_id t\<rparr>"

definition get_task :: "task_manager \<Rightarrow> string \<Rightarrow> task_error + task" where
  "get_task m k = (case map_of (tm_tasks m) k of None \<Rightarrow> Inl (TaskKeyErr k) | Some t \<Rightarrow> Inr t)"

definition current_task :: "task_manager \<Rightarrow> task_error + task" where
  "current_task m = get_task m (tm_current_id m)"

definition set_status :: "string \<Rightarrow> task_status \<Rightarrow> task_manager \<Rightarrow> task_manager" where
  "set_status k st m = m\<lparr>tm_tasks :=
     (case map_of (tm_tasks m) k of None \<Rightarrow> tm_tasks m
      | Some t \<Rightarrow> AList.update k (t\<lparr>t_status := st\<rparr>) (tm_tasks m))\<rparr>"

subsection \<open>Cycles\<close>

text \<open>
  The nodes of the sorter are the keys and everything they depend on; a node that is no key
  has no predecessor. Peeling off the nodes whose predecessors are all gone empties an
  acyclic graph.
\<close>

definition peelable :: "(string \<times> string list) list \<Rightarrow> string \<times> string list \<Rightarrow> bool" where
  "peelable todo n \<longleftrightarrow> (\<forall>d \<in> set (snd n). d \<notin> set (map fst todo))"

function peel :: "(string \<times> string list) list \<Rightarrow> bool" where
  "peel todo =
     (if todo = [] then True
      else let rest = filter (\<lambda>n. \<not> peelable todo n) todo
           in if length rest = length todo then False else peel rest)"
  by auto
termination
proof (relation "measure length")
  fix todo rest :: "(string \<times> string list) list"
  assume "rest = filter (\<lambda>n. \<not> peelable todo n) todo" "length rest \<noteq> length todo"
  then show "(rest, todo) \<in> measure length"
    using length_filter_le [of "\<lambda>n. \<not> peelable todo n" todo] by (simp add: le_neq_implies_less)
qed simp

declare peel.simps [simp del]

text \<open>\<open>_validate_acyclic\<close>\<close>

definition validate_acyclic :: "(string, string list) dict \<Rightarrow> task_error + unit" where
  "validate_acyclic deps =
     (if peel deps then Inr () else Inl (TaskValueErr ''task graph contains a dependency cycle''))"

definition depends :: "(string, string list) dict \<Rightarrow> (string \<times> string) set" where
  "depends deps = {(d, k). \<exists>ds. (k, ds) \<in> set deps \<and> d \<in> set ds}"

subsection \<open>manager.py: operations\<close>

definition spec_id :: "task_spec \<Rightarrow> string" where
  "spec_id s = (case ts_task_id s of Some i \<Rightarrow> i | None \<Rightarrow> ''task:'' @ ts_key s)"

definition task_of_spec :: "task_spec \<Rightarrow> time \<Rightarrow> task" where
  "task_of_spec s clk = \<lparr>t_description = ts_description s, t_required_criteria = ts_required_criteria s,
     t_id = spec_id s, t_status = TaskPending, t_created_at = clk\<rparr>"

definition spec_ok :: "task_spec \<Rightarrow> bool" where
  "spec_ok s \<longleftrightarrow> ts_key s \<noteq> [] \<and> ts_description s \<noteq> []"

definition add_task :: "task_spec \<Rightarrow> task \<Rightarrow> task_manager \<Rightarrow> task_manager" where
  "add_task s t m = m\<lparr>tm_tasks := AList.update (t_id t) t (tm_tasks m),
     tm_keys := AList.update (ts_key s) (t_id t) (tm_keys m),
     tm_dependencies := AList.update (t_id t) (ts_depends_on s) (tm_dependencies m),
     tm_order := tm_order m @ [t_id t]\<rparr>"

fun expand_loop :: "time \<Rightarrow> task_spec list \<Rightarrow> task_manager \<Rightarrow> task list task_outcome" where
  "expand_loop clk [] m = (Inr [], m)"
| "expand_loop clk (s # ss) m =
     (if \<not> spec_ok s then (Inl (TaskValueErr ''task key and description are required''), m)
      else if map_of (tm_keys m) (ts_key s) \<noteq> None then expand_loop clk ss m
      else if \<not> set (ts_depends_on s) \<subseteq> set (dict_keys (tm_tasks m)) then
        (Inl (TaskValueErr ''task dependencies must reference existing tasks''), m)
      else let t = task_of_spec s clk in
        if map_of (tm_tasks m) (t_id t) \<noteq> None then
          (Inl (TaskValueErr (''duplicate task id: '' @ t_id t)), m)
        else bind_op (expand_loop clk ss (add_task s t m)) (\<lambda>ts m'. (Inr (t # ts), m')))"

definition expand :: "time \<Rightarrow> task_spec list \<Rightarrow> task_manager \<Rightarrow> task list task_outcome" where
  "expand clk specs m =
     bind_op (expand_loop clk specs m) (\<lambda>created m'.
       check_op (validate_acyclic (tm_dependencies m')) m' (\<lambda>_. (Inr created, m')))"

text \<open>\<open>from_specs\<close>; there is no manager before the root is accepted.\<close>

definition from_specs :: "time \<Rightarrow> task_spec list \<Rightarrow> task_error + task_manager" where
  "from_specs clk specs =
     (case specs of
        [] \<Rightarrow> Inl (TaskValueErr ''task specs must contain at least one task'')
      | r # rest \<Rightarrow>
          if \<not> spec_ok r then Inl (TaskValueErr ''task key and description are required'')
          else
            let t = task_of_spec r clk;
                m = new_manager t;
                m1 = (if ts_key r \<noteq> ''root'' then m\<lparr>tm_keys := [(ts_key r, t_id t)]\<rparr> else m)
            in (case expand clk rest m1 of (Inl e, _) \<Rightarrow> Inl e | (Inr _, m2) \<Rightarrow> Inr m2))"

fun load_nodes :: "task_node list \<Rightarrow> task_manager \<Rightarrow> task_error + task_manager" where
  "load_nodes [] m = Inr m"
| "load_nodes (n # ns) m =
     (if map_of (tm_keys m) (tn_key n) \<noteq> None then
        Inl (TaskValueErr (''duplicate task key: '' @ tn_key n))
      else if map_of (tm_tasks m) (t_id (tn_task n)) \<noteq> None then
        Inl (TaskValueErr (''duplicate task id: '' @ t_id (tn_task n)))
      else load_nodes ns (m\<lparr>tm_keys := AList.update (tn_key n) (t_id (tn_task n)) (tm_keys m),
             tm_tasks := AList.update (t_id (tn_task n)) (tn_task n) (tm_tasks m),
             tm_dependencies := AList.update (t_id (tn_task n)) (tn_depends_on n) (tm_dependencies m),
             tm_order := tm_order m @ [t_id (tn_task n)]\<rparr>))"

definition from_snapshot :: "task_graph \<Rightarrow> task_error + task_manager" where
  "from_snapshot g =
     (case tg_nodes g of
        [] \<Rightarrow> Inl (TaskValueErr ''task graph must contain at least one task'')
      | n # _ \<Rightarrow>
          let m0 = (new_manager (tn_task n))\<lparr>tm_tasks := [], tm_keys := [], tm_dependencies := [],
                      tm_order := []\<rparr>
          in case load_nodes (tg_nodes g) m0 of Inl e \<Rightarrow> Inl e | Inr m \<Rightarrow>
            if map_of (tm_tasks m) (tg_current_task_id g) = None then
              Inl (TaskValueErr ''task graph current task does not exist'')
            else (case find (\<lambda>(k, ds). \<not> set ds \<subseteq> set (dict_keys (tm_tasks m))) (tm_dependencies m) of
              Some (k, _) \<Rightarrow> Inl (TaskValueErr (''task '' @ k @ '' references unknown dependencies''))
            | None \<Rightarrow> (case validate_acyclic (tm_dependencies m) of Inl e \<Rightarrow> Inl e
                | Inr _ \<Rightarrow> Inr (m\<lparr>tm_current_id := tg_current_task_id g\<rparr>))))"

text \<open>\<open>snapshot\<close>: the dictionary \<open>keys_by_id\<close> inverts the keys, a later key wins.\<close>

definition task_snapshot :: "task_manager \<Rightarrow> task_graph option" where
  "task_snapshot m =
     (let key_of = map_of (rev (map (\<lambda>(k, i). (i, k)) (tm_keys m)));
          nodes = map (\<lambda>i. case (key_of i, map_of (tm_tasks m) i, map_of (tm_dependencies m) i) of
                     (Some k, Some t, Some ds) \<Rightarrow> Some \<lparr>tn_key = k, tn_task = t, tn_depends_on = ds\<rparr>
                   | _ \<Rightarrow> None) (tm_order m)
      in if None \<in> set nodes then None
         else Some \<lparr>tg_nodes = map the nodes, tg_current_task_id = tm_current_id m\<rparr>)"

definition all_tasks :: "task_manager \<Rightarrow> task list" where
  "all_tasks m = List.map_filter (map_of (tm_tasks m)) (tm_order m)"

definition set_current :: "string \<Rightarrow> task_manager \<Rightarrow> unit task_outcome" where
  "set_current k m =
     (if map_of (tm_tasks m) k = None then (Inl (TaskValueErr (''task does not exist: '' @ k)), m)
      else (Inr (), m\<lparr>tm_current_id := k\<rparr>))"

definition complete_current :: "task_manager \<Rightarrow> task_manager" where
  "complete_current m = set_status (tm_current_id m) TaskCompleted m"

definition task_done :: "task_manager \<Rightarrow> string \<Rightarrow> bool" where
  "task_done m k = (case map_of (tm_tasks m) k of None \<Rightarrow> False | Some t \<Rightarrow> t_status t = TaskCompleted)"

definition startable :: "task_manager \<Rightarrow> string \<Rightarrow> bool" where
  "startable m k \<longleftrightarrow> (case map_of (tm_tasks m) k of None \<Rightarrow> False
     | Some t \<Rightarrow> t_status t = TaskPending \<and> (\<forall>d \<in> set (dict_get (tm_dependencies m) k []). task_done m d))"

text \<open>\<open>start_next\<close>: the first startable task in the order of creation.\<close>

definition start_next :: "task_manager \<Rightarrow> task option \<times> task_manager" where
  "start_next m =
     (case find (startable m) (tm_order m) of
        None \<Rightarrow> (None, m)
      | Some k \<Rightarrow> (let m' = set_status k TaskRunning (m\<lparr>tm_current_id := k\<rparr>)
                   in (map_of (tm_tasks m') k, m')))"

definition complete_all :: "task_manager \<Rightarrow> task_manager" where
  "complete_all m = m\<lparr>tm_tasks := map_ran (\<lambda>_ t. if task_terminal (t_status t) then t
     else t\<lparr>t_status := TaskCompleted\<rparr>) (tm_tasks m)\<rparr>"

definition has_unfinished :: "task_manager \<Rightarrow> bool" where
  "has_unfinished m \<longleftrightarrow> list_ex (\<lambda>t. \<not> task_terminal (t_status t)) (dict_values (tm_tasks m))"

subsection \<open>Peeling decides acyclicity\<close>

lemma peel_sound: "peel todo \<Longrightarrow> acyclic (depends todo \<inter> (set (map fst todo) \<times> UNIV))"
proof (induction todo rule: peel.induct)
  case (1 todo)
  let ?rest = "filter (\<lambda>n. \<not> peelable todo n) todo"
  show ?case
  proof (cases "todo = []")
    case True
    then show ?thesis by (simp add: acyclic_def)
  next
    case False
    with 1(2) have len: "length ?rest \<noteq> length todo" and rest: "peel ?rest"
      by (subst (asm) peel.simps; auto simp: Let_def split: if_splits)+
    let ?R = "depends todo \<inter> (set (map fst todo) \<times> UNIV)"
    let ?S = "depends ?rest \<inter> (set (map fst ?rest) \<times> UNIV)"
    have IH: "acyclic ?S" using 1(1) [OF False refl len rest] .
    show ?thesis
    proof (rule acyclicI, rule allI, rule notI)
      fix x
      assume cyc: "(x, x) \<in> ?R\<^sup>+"
      text \<open>A node with a predecessor among the keys is not peelable, so a cycle lies in the rest.\<close>
      have tgt: "y \<in> set (map fst ?rest)" if "(z, y) \<in> ?R" for z y
        using that by (force simp: depends_def peelable_def)
      have tgt_plus: "(z, y) \<in> ?R\<^sup>+ \<Longrightarrow> y \<in> set (map fst ?rest)" for z y
        by (erule tranclE) (rule tgt, assumption)+
      have "(a, b) \<in> ?R\<^sup>+ \<Longrightarrow> a \<in> set (map fst ?rest) \<Longrightarrow> (a, b) \<in> ?S\<^sup>+" for a b
      proof (induction rule: trancl_induct)
        case (base y)
        then have "(a, y) \<in> ?S" by (force simp: depends_def peelable_def)
        then show ?case by blast
      next
        case (step y z)
        have "y \<in> set (map fst ?rest)" using step(1) by (rule tgt_plus)
        then have "(y, z) \<in> ?S" using step(2) by (force simp: depends_def peelable_def)
        with step.IH [OF step.prems] show ?case by (rule trancl.trancl_into_trancl)
      qed
      moreover have "x \<in> set (map fst ?rest)" using cyc by (rule tgt_plus)
      ultimately have "(x, x) \<in> ?S\<^sup>+" using cyc by blast
      with IH show False by (simp add: acyclic_def)
    qed
  qed
qed

lemma peel_complete:
  assumes "acyclic (depends todo \<inter> (set (map fst todo) \<times> UNIV))"
  shows "peel todo"
  using assms
proof (induction todo rule: peel.induct)
  case (1 todo)
  let ?rest = "filter (\<lambda>n. \<not> peelable todo n) todo"
  let ?R = "depends todo \<inter> (set (map fst todo) \<times> UNIV)"
  show ?case
  proof (cases "todo = []")
    case True
    then show ?thesis by (simp add: peel.simps)
  next
    case False
    have fin: "finite ?R"
    proof -
      have "depends todo \<subseteq> (\<Union>(k, ds) \<in> set todo. set ds \<times> {k})" by (auto simp: depends_def)
      moreover have "finite (\<Union>(k, ds) \<in> set todo. set ds \<times> {k})" by auto
      ultimately show ?thesis by (meson finite_Int finite_subset)
    qed
    have len: "length ?rest \<noteq> length todo"
    proof
      assume "length ?rest = length todo"
      then have np: "\<forall>n \<in> set todo. \<not> peelable todo n" by (metis length_filter_less less_irrefl)
      have "wf ?R" using fin 1(2) by (rule finite_acyclic_wf)
      moreover have "set (map fst todo) \<noteq> {}" using False by simp
      ultimately obtain z where z: "z \<in> set (map fst todo)" "\<And>y. (y, z) \<in> ?R \<Longrightarrow> y \<notin> set (map fst todo)"
        by (rule wfE_min') blast+
      then obtain ds' where "(z, ds') \<in> set todo" by auto
      moreover from this np obtain d where "d \<in> set ds'" "d \<in> set (map fst todo)"
        unfolding peelable_def by fastforce
      ultimately have "(d, z) \<in> ?R" by (auto simp: depends_def)
      with z(2) \<open>d \<in> set (map fst todo)\<close> show False by blast
    qed
    have "depends ?rest \<inter> (set (map fst ?rest) \<times> UNIV) \<subseteq> ?R"
      by (auto simp: depends_def)
    then have "acyclic (depends ?rest \<inter> (set (map fst ?rest) \<times> UNIV))"
      using 1(2) acyclic_subset by blast
    with 1(1) [OF False refl len] have "peel ?rest" .
    with False len show ?thesis by (subst peel.simps) (simp add: Let_def)
  qed
qed

lemma depends_keys:
  assumes "\<forall>(k, ds) \<in> set deps. set ds \<subseteq> set (map fst deps)"
  shows "depends deps \<inter> (set (map fst deps) \<times> UNIV) = depends deps"
  using assms by (fastforce simp: depends_def)

lemma validate_acyclic_iff:
  assumes "\<forall>(k, ds) \<in> set deps. set ds \<subseteq> set (map fst deps)"
  shows "validate_acyclic deps = Inr () \<longleftrightarrow> acyclic (depends deps)"
  using peel_sound [of deps] peel_complete [of deps] unfolding depends_keys [OF assms]
  by (auto simp: validate_acyclic_def)

subsection \<open>The invariant of the graph\<close>

text \<open>
  The three tables and the order list the same tasks in the same order, the keys name them
  uniquely, each task depends on tasks of the graph, without cycles, and one is current.
\<close>

definition graph_wf :: "task_manager \<Rightarrow> bool" where
  "graph_wf m \<longleftrightarrow> dict_keys (tm_tasks m) = tm_order m \<and> dict_keys (tm_dependencies m) = tm_order m
     \<and> dict_values (tm_keys m) = tm_order m \<and> distinct (tm_order m) \<and> dict_wf (tm_keys m)
     \<and> (\<forall>(k, t) \<in> set (tm_tasks m). t_id t = k)
     \<and> (\<forall>(k, ds) \<in> set (tm_dependencies m). set ds \<subseteq> set (tm_order m))
     \<and> acyclic (depends (tm_dependencies m))"

lemma graph_wf_sets:
  assumes "graph_wf m"
  shows "set (dict_keys (tm_tasks m)) = set (tm_order m)"
    and "set (dict_keys (tm_dependencies m)) = set (tm_order m)"
    and "distinct (tm_order m)" and "dict_wf (tm_tasks m)" and "dict_wf (tm_dependencies m)"
  using assms unfolding graph_wf_def by metis+

lemma update_fresh: "k \<notin> set (dict_keys d) \<Longrightarrow> AList.update k v d = d @ [(k, v)]"
  by (induction d) auto

lemma not_key: "map_of d k = None \<longleftrightarrow> k \<notin> set (dict_keys d)"
  by (simp add: map_of_eq_None_iff)

lemma depends_append: "depends (d @ [(k, ds)]) = depends d \<union> set ds \<times> {k}"
  by (auto simp: depends_def)

lemma acyclic_sink:
  assumes "finite D" "acyclic R" "t \<notin> Domain R" "t \<notin> D"
  shows "acyclic (R \<union> D \<times> {t})"
  using assms(1,4)
proof (induction D rule: finite_induct)
  case empty
  then show ?case using assms(2) by simp
next
  case (insert d D)
  have "R \<union> insert d D \<times> {t} = insert (d, t) (R \<union> D \<times> {t})" by auto
  moreover have "(t, d) \<notin> (R \<union> D \<times> {t})\<^sup>*"
    using insert assms(3) by (subst Not_Domain_rtrancl) auto
  ultimately show ?case using insert by (simp only: acyclic_insert) auto
qed

lemma graph_wf_new: "graph_wf (new_manager t)"
  by (auto simp: graph_wf_def new_manager_def depends_def acyclic_def)

lemma graph_wf_add:
  assumes m: "graph_wf m" and "map_of (tm_keys m) (ts_key s) = None" and "map_of (tm_tasks m) (t_id t) = None"
    and dep: "set (ts_depends_on s) \<subseteq> set (dict_keys (tm_tasks m))"
  shows "graph_wf (add_task s t m)"
    and "tm_tasks (add_task s t m) = tm_tasks m @ [(t_id t, t)]"
    and "tm_dependencies (add_task s t m) = tm_dependencies m @ [(t_id t, ts_depends_on s)]"
proof -
  have fresh: "t_id t \<notin> set (tm_order m)" "ts_key s \<notin> set (dict_keys (tm_keys m))"
    using assms(2,3) m unfolding not_key graph_wf_def by metis+
  have tabs: "tm_tasks (add_task s t m) = tm_tasks m @ [(t_id t, t)]"
    "tm_dependencies (add_task s t m) = tm_dependencies m @ [(t_id t, ts_depends_on s)]"
    "tm_keys (add_task s t m) = tm_keys m @ [(ts_key s, t_id t)]"
    using fresh m by (simp_all add: add_task_def graph_wf_def update_fresh)
  have "t_id t \<notin> Domain (depends (tm_dependencies m))"
    using fresh(1) m by (force simp: depends_def graph_wf_def)
  moreover have "t_id t \<notin> set (ts_depends_on s)" using dep fresh(1) graph_wf_sets(1) [OF m] by auto
  ultimately have "acyclic (depends (tm_dependencies (add_task s t m)))"
    using m unfolding tabs depends_append by (intro acyclic_sink) (auto simp: graph_wf_def)
  with tabs fresh m dep show "graph_wf (add_task s t m)"
    unfolding graph_wf_def by (auto simp: add_task_def)
  show "tm_tasks (add_task s t m) = tm_tasks m @ [(t_id t, t)]"
    and "tm_dependencies (add_task s t m) = tm_dependencies m @ [(t_id t, ts_depends_on s)]"
    using tabs by auto
qed

text \<open>What an expansion leaves behind, whether it raised or not.\<close>

definition grown :: "task_manager \<Rightarrow> task_manager \<Rightarrow> task list \<Rightarrow> bool" where
  "grown m m' ts \<longleftrightarrow> tm_tasks m' = tm_tasks m @ map (\<lambda>t. (t_id t, t)) ts
     \<and> take (length (tm_dependencies m)) (tm_dependencies m') = tm_dependencies m
     \<and> tm_current_id m' = tm_current_id m \<and> (\<forall>t \<in> set ts. t_status t = TaskPending)"

lemma grown_add:
  assumes "grown (add_task s t m) m' ts" and "t_status t = TaskPending"
    and "tm_tasks (add_task s t m) = tm_tasks m @ [(t_id t, t)]"
    and "tm_dependencies (add_task s t m) = tm_dependencies m @ [(t_id t, ds)]"
  shows "grown m m' (t # ts)"
proof -
  let ?n = "length (tm_dependencies m)"
  have "take ?n (tm_dependencies m') = take ?n (take (length (tm_dependencies m @ [(t_id t, ds)])) (tm_dependencies m'))"
    by (simp add: min_def)
  also have "\<dots> = tm_dependencies m" using assms(1) unfolding grown_def assms(4) by simp
  finally show ?thesis using assms by (simp add: grown_def add_task_def)
qed

lemma expand_loop_grown:
  assumes "expand_loop clk specs m = (r, m')" and "graph_wf m"
  shows "graph_wf m' \<and> (case r of Inr ts \<Rightarrow> grown m m' ts | Inl e \<Rightarrow> \<exists>ts. grown m m' ts)"
  using assms
proof (induction clk specs m arbitrary: r m' rule: expand_loop.induct)
  case (1 clk m)
  then show ?case by (auto simp: grown_def)
next
  case (2 clk s ss m)
  let ?t = "task_of_spec s clk"
  let ?m = "add_task s ?t m"
  have self: "grown m m []" by (simp add: grown_def)
  show ?case
  proof (cases "spec_ok s \<and> map_of (tm_keys m) (ts_key s) = None
      \<and> set (ts_depends_on s) \<subseteq> set (dict_keys (tm_tasks m)) \<and> map_of (tm_tasks m) (t_id ?t) = None")
    case False
    then show ?thesis
      using 2(1) 2(3,4) self by (auto simp: Let_def split: if_splits)
  next
    case True
    then have add: "graph_wf ?m" "tm_tasks ?m = tm_tasks m @ [(t_id ?t, ?t)]"
      "tm_dependencies ?m = tm_dependencies m @ [(t_id ?t, ts_depends_on s)]"
      using graph_wf_add [OF 2(4), of s ?t] by auto
    obtain r1 m1 where r1: "expand_loop clk ss ?m = (r1, m1)" by fastforce
    from True have IH: "graph_wf m1 \<and> (case r1 of Inr ts \<Rightarrow> grown ?m m1 ts | Inl e \<Rightarrow> \<exists>ts. grown ?m m1 ts)"
      using 2(2) [OF _ _ _ refl _ r1 add(1)] by auto
    have up: "grown ?m m1 ts \<Longrightarrow> grown m m1 (?t # ts)" for ts
      using add(2,3) by (rule grown_add [rotated 2]) (simp_all add: task_of_spec_def)
    have "(r, m') = (case r1 of Inl e \<Rightarrow> (Inl e, m1) | Inr ts \<Rightarrow> (Inr (?t # ts), m1))"
      using 2(3) True r1 by (cases r1) (auto simp: Let_def)
    with IH up show ?thesis by (cases r1) auto
  qed
qed

lemma expand_loop_no_cycle_error:
  "expand_loop clk specs m = (r, m') \<Longrightarrow> r \<noteq> Inl (TaskValueErr ''task graph contains a dependency cycle'')"
  by (induction clk specs m arbitrary: r m' rule: expand_loop.induct)
    (auto simp: Let_def bind_op_def split: if_splits sum.splits prod.splits)

lemma expand_loop_ok:
  assumes "graph_wf m" and "expand_loop clk specs m = (r, m1)"
  shows "expand clk specs m = (r, m1)"
proof -
  have "graph_wf m1" using expand_loop_grown [OF assms(2,1)] by simp
  then have "validate_acyclic (tm_dependencies m1) = Inr ()"
    by (subst validate_acyclic_iff) (auto simp: graph_wf_def)
  then show ?thesis using assms(2) by (cases r) (auto simp: expand_def)
qed

lemma expand_grown:
  assumes "graph_wf m" and "expand clk specs m = (r, m')"
  shows "graph_wf m' \<and> (\<exists>ts. grown m m' ts \<and> (\<forall>created. r = Inr created \<longrightarrow> created = ts))"
proof -
  obtain r1 m1 where r1: "expand_loop clk specs m = (r1, m1)" by fastforce
  then have "(r, m') = (r1, m1)" using expand_loop_ok [OF assms(1)] assms(2) by simp
  then show ?thesis using expand_loop_grown [OF r1 assms(1)] by (cases r1) auto
qed

text \<open>Expanding a well-formed graph, with any list of specifications, keeps the graph
  well-formed on every path, also when it raises part of the way through: no task is lost or
  changed, the dependencies of existing tasks stay, the current task stays, new tasks are
  appended as pending. Because a new task may depend on existing tasks only, the final cycle
  check never fires; on success exactly the returned tasks have been appended.\<close>

theorem expand_keeps_graph:
  assumes "graph_wf m" and "expand clk specs m = (r, m')"
  shows "graph_wf m' \<and> (\<exists>ts. grown m m' ts \<and> (\<forall>created. r = Inr created \<longrightarrow> created = ts))
    \<and> r \<noteq> Inl (TaskValueErr ''task graph contains a dependency cycle'')"
proof -
  obtain r1 m1 where r1: "expand_loop clk specs m = (r1, m1)" by fastforce
  then have "r = r1" using expand_loop_ok [OF assms(1)] assms(2) by simp
  then show ?thesis using expand_grown [OF assms] expand_loop_no_cycle_error [OF r1] by simp
qed

definition sample_root :: task where
  "sample_root = \<lparr>t_description = ''d'', t_required_criteria = [], t_id = ''r'',
     t_status = TaskRunning, t_created_at = 0\<rparr>"

definition sample_spec :: "string \<Rightarrow> string list \<Rightarrow> task_spec" where
  "sample_spec k ds = \<lparr>ts_key = k, ts_description = ''x'', ts_required_criteria = [],
     ts_depends_on = ds, ts_task_id = None\<rparr>"

lemmas sample_simps = sample_root_def sample_spec_def spec_ok_def new_manager_def task_of_spec_def
  spec_id_def add_task_def

lemma expand_keeps_graph_witness:
  "let (r, m) = expand 1 [sample_spec ''a'' [''r''], sample_spec ''b'' [''task:a'', ''r''], sample_spec ''c'' [''z'']]
         (new_manager sample_root)
   in graph_wf m \<and> tm_order m = [''r'', ''task:a'', ''task:b'']
      \<and> r \<noteq> Inl (TaskValueErr ''task graph contains a dependency cycle'')"
  using expand_keeps_graph [where m = "new_manager sample_root" and clk = 1 and
      specs = "[sample_spec ''a'' [''r''], sample_spec ''b'' [''task:a'', ''r''], sample_spec ''c'' [''z'']]",
      OF graph_wf_new surjective_pairing]
  by (simp add: expand_def sample_simps)

subsection \<open>Status changes\<close>

lemma update_exist: "map_of d k = Some w \<Longrightarrow> dict_keys (AList.update k v d) = dict_keys d"
  by (induction d) (auto split: if_splits)

lemma set_status_keys [simp]:
  "dict_keys (tm_tasks (set_status k st m)) = dict_keys (tm_tasks m)"
  by (auto simp: set_status_def update_exist weak_map_of_SomeI split: option.splits dest: map_of_SomeD)

lemma set_status_fields [simp]:
  "tm_keys (set_status k st m) = tm_keys m" "tm_dependencies (set_status k st m) = tm_dependencies m"
  "tm_order (set_status k st m) = tm_order m" "tm_current_id (set_status k st m) = tm_current_id m"
  by (simp_all add: set_status_def)

lemma set_status_lookup [dict_simps]:
  "map_of (tm_tasks (set_status k st m)) k' =
     (if k' = k then map_option (\<lambda>t. t\<lparr>t_status := st\<rparr>) (map_of (tm_tasks m) k)
      else map_of (tm_tasks m) k')"
  by (auto simp: set_status_def dict_simps split: option.splits)

lemma graph_wf_tasks:
  assumes "graph_wf m" and "dict_keys (tm_tasks m') = dict_keys (tm_tasks m)"
    and "tm_keys m' = tm_keys m" "tm_dependencies m' = tm_dependencies m" "tm_order m' = tm_order m"
    and "\<forall>(k, t) \<in> set (tm_tasks m'). t_id t = k"
  shows "graph_wf m'"
  using assms unfolding graph_wf_def by simp

lemma graph_wf_set_status:
  assumes "graph_wf m"
  shows "graph_wf (set_status k st m)"
proof (rule graph_wf_tasks [OF assms])
  have wf: "dict_wf (tm_tasks (set_status k st m))" using graph_wf_sets(4) [OF assms] by simp
  have ids: "t_id t = i" if "map_of (tm_tasks m) i = Some t" for i t
    using assms map_of_SomeD [OF that] by (auto simp: graph_wf_def)
  show "\<forall>(i, t) \<in> set (tm_tasks (set_status k st m)). t_id t = i"
  proof clarify
    fix i t
    assume "(i, t) \<in> set (tm_tasks (set_status k st m))"
    then have "map_of (tm_tasks (set_status k st m)) i = Some t" using wf by (simp only: in_set_dict)
    then show "t_id t = i" unfolding set_status_lookup by (auto split: if_splits dest: ids)
  qed
qed simp_all

subsection \<open>Starting the next task\<close>

lemma start_next_cases:
  obtains (none) "start_next m = (None, m)" "\<forall>k \<in> set (tm_order m). \<not> startable m k"
  | (some) k t where "k \<in> set (tm_order m)" "startable m k" "map_of (tm_tasks m) k = Some t"
      "start_next m = (Some (t\<lparr>t_status := TaskRunning\<rparr>), set_status k TaskRunning (m\<lparr>tm_current_id := k\<rparr>))"
proof (cases "find (startable m) (tm_order m)")
  case None
  then have "start_next m = (None, m)" by (simp add: start_next_def)
  moreover from None have "\<forall>k \<in> set (tm_order m). \<not> startable m k" by (simp add: find_None_iff)
  ultimately show thesis by (rule none)
next
  case (Some k)
  then have k: "k \<in> set (tm_order m)" "startable m k" by (auto simp: find_Some_iff)
  then obtain t where "map_of (tm_tasks m) k = Some t" by (auto simp: startable_def split: option.splits)
  with k Some show thesis by (intro some [of k t]) (simp_all add: start_next_def dict_simps)
qed

lemma graph_wf_start_next: "graph_wf m \<Longrightarrow> graph_wf (snd (start_next m))"
proof (cases rule: start_next_cases [of m])
  case (some k t)
  assume "graph_wf m"
  then have "graph_wf (m\<lparr>tm_current_id := k\<rparr>)" by (simp add: graph_wf_def)
  with some show ?thesis by (simp add: graph_wf_set_status)
qed simp

lemma graph_wf_complete_current: "graph_wf m \<Longrightarrow> graph_wf (complete_current m)"
  by (simp add: complete_current_def graph_wf_set_status)

text \<open>Every task is waiting for its turn or done.\<close>

definition only_pending :: "task_manager \<Rightarrow> bool" where
  "only_pending m \<longleftrightarrow> list_all (\<lambda>t. t_status t \<in> {TaskPending, TaskCompleted}) (dict_values (tm_tasks m))"

definition unfinished :: "task_manager \<Rightarrow> nat" where
  "unfinished m = length (filter (\<lambda>t. \<not> task_terminal (t_status t)) (dict_values (tm_tasks m)))"

lemma only_pending_lookup:
  "only_pending m \<Longrightarrow> map_of (tm_tasks m) k = Some t \<Longrightarrow> t_status t = TaskPending \<or> t_status t = TaskCompleted"
  by (drule map_of_SomeD) (force simp: only_pending_def list_all_iff)

text \<open>Acyclicity gives a pending task all of whose dependencies are done.\<close>

lemma exists_startable:
  assumes "graph_wf m" and "only_pending m" and "has_unfinished m"
  shows "\<exists>k \<in> set (tm_order m). startable m k"
proof -
  let ?R = "depends (tm_dependencies m)"
  let ?P = "{k \<in> set (tm_order m). \<not> task_done m k}"
  note sets = graph_wf_sets [OF assms(1)]
  have "?R \<subseteq> set (tm_order m) \<times> set (tm_order m)"
  proof clarify
    fix d k
    assume "(d, k) \<in> ?R"
    then obtain ds where "(k, ds) \<in> set (tm_dependencies m)" "d \<in> set ds" by (auto simp: depends_def)
    moreover from this have "k \<in> set (dict_keys (tm_dependencies m))" by force
    ultimately show "d \<in> set (tm_order m) \<and> k \<in> set (tm_order m)"
      using assms(1) unfolding sets(2) by (auto simp: graph_wf_def)
  qed
  then have "finite ?R" by (rule finite_subset) simp
  then have wf: "wf ?R" using assms(1) by (auto simp: graph_wf_def intro: finite_acyclic_wf)
  obtain k t where kt: "(k, t) \<in> set (tm_tasks m)" "\<not> task_terminal (t_status t)"
    using assms(3) by (auto simp: has_unfinished_def list_ex_iff)
  then have "map_of (tm_tasks m) k = Some t" using sets(4) by (simp only: in_set_dict)
  moreover have "k \<in> set (tm_order m)" using kt(1) unfolding sets(1) [symmetric] by force
  ultimately have "?P \<noteq> {}" using kt(2) by (auto simp: task_done_def task_terminal_def)
  then obtain p where p: "p \<in> ?P" "\<And>d. (d, p) \<in> ?R \<Longrightarrow> d \<notin> ?P"
    by (rule wfE_min' [OF wf]) blast
  then have "map_of (tm_tasks m) p \<noteq> None" using sets(1) by (simp add: not_key del: set_map)
  then obtain u where u: "map_of (tm_tasks m) p = Some u" by auto
  have "task_done m d" if "d \<in> set (dict_get (tm_dependencies m) p [])" for d
  proof -
    from that obtain ds where ds: "map_of (tm_dependencies m) p = Some ds" "d \<in> set ds"
      by (cases "map_of (tm_dependencies m) p") (auto simp: dict_get_def)
    then have "(p, ds) \<in> set (tm_dependencies m)" by (simp add: map_of_SomeD)
    then have "(d, p) \<in> ?R" and "d \<in> set (tm_order m)"
      using ds(2) assms(1) by (auto simp: depends_def graph_wf_def)
    then show ?thesis using p(2) by blast
  qed
  moreover have "t_status u = TaskPending"
    using only_pending_lookup [OF assms(2) u] p(1) u by (auto simp: task_done_def)
  ultimately have "startable m p" using u by (simp add: startable_def)
  then show ?thesis using p(1) by blast
qed

subsection \<open>Working the graph off\<close>

text \<open>What a finished turn does: the current task is completed and the next one started.\<close>

definition turn :: "task_manager \<Rightarrow> task_manager" where
  "turn m = snd (start_next (complete_current m))"

lemma update_twice [simp]: "AList.update k v (AList.update k w d) = AList.update k v d"
  by (induction d) auto

lemma set_status_twice [simp]: "set_status k a (set_status k b m) = set_status k a m"
  by (cases "map_of (tm_tasks m) k") (simp_all add: set_status_def dict_simps)

lemma values_update: "set (dict_values (AList.update k v d)) \<subseteq> insert v (set (dict_values d))"
  by (induction d) auto

lemma only_pending_completed: "only_pending m \<Longrightarrow> only_pending (set_status k TaskCompleted m)"
proof (cases "map_of (tm_tasks m) k")
  case (Some t)
  assume "only_pending m"
  with Some show ?thesis
    using values_update [of k "t\<lparr>t_status := TaskCompleted\<rparr>" "tm_tasks m"]
    by (auto simp: only_pending_def list_all_iff set_status_def simp del: set_map)
qed (simp add: set_status_def)

definition open_tasks :: "task_manager \<Rightarrow> string set" where
  "open_tasks m = {k \<in> set (tm_order m). \<not> task_done m k}"

lemma open_tasks_complete:
  "map_of (tm_tasks m) k \<noteq> None \<Longrightarrow> open_tasks (set_status k TaskCompleted m) = open_tasks m - {k}"
  by (auto simp: open_tasks_def task_done_def dict_simps split: option.splits if_splits)

lemma open_tasks_empty:
  assumes "graph_wf m" and "only_pending m"
  shows "open_tasks m = {} \<longleftrightarrow> \<not> has_unfinished m"
proof
  assume "open_tasks m = {}"
  show "\<not> has_unfinished m"
  proof
    assume "has_unfinished m"
    then obtain k where "k \<in> set (tm_order m)" "startable m k" using exists_startable [OF assms] by blast
    then have "k \<in> open_tasks m" by (auto simp: open_tasks_def startable_def task_done_def split: option.splits)
    with \<open>open_tasks m = {}\<close> show False by simp
  qed
next
  assume none: "\<not> has_unfinished m"
  have "task_done m k" if "k \<in> set (tm_order m)" for k
  proof -
    from that have "k \<in> set (dict_keys (tm_tasks m))" unfolding graph_wf_sets(1) [OF assms(1)] .
    then obtain t where t: "(k, t) \<in> set (tm_tasks m)" by auto
    then have "task_terminal (t_status t)" "t_status t \<in> {TaskPending, TaskCompleted}"
      using none assms(2) by (force simp: has_unfinished_def list_ex_iff only_pending_def list_all_iff)+
    moreover have "map_of (tm_tasks m) k = Some t"
      using t graph_wf_sets(4) [OF assms(1)] by (simp only: in_set_dict)
    ultimately show ?thesis by (auto simp: task_done_def task_terminal_def)
  qed
  then show "open_tasks m = {}" by (auto simp: open_tasks_def)
qed

lemma turn_progress:
  assumes "graph_wf m" and "only_pending (complete_current m)"
  shows "graph_wf (turn m) \<and> only_pending (complete_current (turn m))
    \<and> card (open_tasks (complete_current (turn m))) \<le> card (open_tasks (complete_current m)) - 1"
proof -
  let ?c = "complete_current m"
  have wf: "graph_wf ?c" using assms(1) by (rule graph_wf_complete_current)
  have fin: "finite (open_tasks ?c)" by (simp add: open_tasks_def)
  show ?thesis
  proof (cases rule: start_next_cases [of ?c])
    case none
    then have "\<not> has_unfinished ?c" using exists_startable [OF wf assms(2)] by blast
    then have "open_tasks ?c = {}" using open_tasks_empty [OF wf assms(2)] by simp
    moreover have "turn m = ?c" using none by (simp add: turn_def)
    ultimately show ?thesis
      using wf assms(2) by (simp add: complete_current_def)
  next
    case (some k t)
    let ?d = "?c\<lparr>tm_current_id := k\<rparr>"
    have "complete_current (turn m) = set_status k TaskCompleted ?d"
      using some by (simp add: turn_def complete_current_def)
    moreover have "only_pending ?d" using assms(2) by (simp add: only_pending_def)
    moreover have "open_tasks (set_status k TaskCompleted ?d) = open_tasks ?c - {k}"
      using open_tasks_complete [of ?d k] some by (simp add: open_tasks_def task_done_def)
    moreover have "k \<in> open_tasks ?c"
      using some by (auto simp: open_tasks_def startable_def task_done_def split: option.splits)
    moreover have "graph_wf (turn m)" using graph_wf_start_next [OF wf] by (simp add: turn_def)
    ultimately show ?thesis using fin by (simp add: only_pending_completed card_Diff_singleton)
  qed
qed

lemma turns_progress:
  assumes "graph_wf m" and "only_pending (complete_current m)"
  shows "graph_wf ((turn ^^ n) m) \<and> only_pending (complete_current ((turn ^^ n) m))
    \<and> card (open_tasks (complete_current ((turn ^^ n) m))) \<le> card (open_tasks (complete_current m)) - n"
proof (induction n)
  case (Suc n)
  then show ?case using turn_progress [of "(turn ^^ n) m"] by fastforce
qed (simp add: assms)

lemma worked_off:
  assumes "graph_wf m" and "only_pending (complete_current m)" and "length (tm_order m) \<le> n"
  shows "\<not> has_unfinished (complete_current ((turn ^^ n) m))"
proof -
  note P = turns_progress [OF assms(1,2), of n]
  have "card (open_tasks (complete_current m)) \<le> card (set (tm_order (complete_current m)))"
    unfolding open_tasks_def by (rule card_mono) auto
  also have "\<dots> \<le> n" using assms(3) card_length [of "tm_order m"] by (simp add: complete_current_def)
  finally have "card (open_tasks (complete_current ((turn ^^ n) m))) = 0" using P by simp
  then have "open_tasks (complete_current ((turn ^^ n) m)) = {}" by (simp add: open_tasks_def)
  then show ?thesis using open_tasks_empty graph_wf_complete_current P by blast
qed


text \<open>What \<open>from_specs\<close> accepts.\<close>

lemma from_specs_ok:
  assumes "from_specs clk specs = Inr m"
  shows "graph_wf m \<and> only_pending m \<and> (\<exists>r. tm_order m \<noteq> [] \<and> tm_current_id m = hd (tm_order m))"
proof -
  from assms obtain r rest where specs: "specs = r # rest" by (cases specs) (auto simp: from_specs_def)
  let ?t = "task_of_spec r clk"
  let ?m = "(new_manager ?t)\<lparr>tm_keys := [(ts_key r, t_id ?t)]\<rparr>"
  have m1: "(if ts_key r \<noteq> ''root'' then ?m else new_manager ?t) = ?m"
    by (simp add: new_manager_def)
  obtain v m2 where e: "expand clk rest ?m = (v, m2)" by fastforce
  with assms have "m = m2"
    by (auto simp: from_specs_def specs Let_def m1 split: if_splits sum.splits)
  moreover have "graph_wf ?m"
    by (auto simp: graph_wf_def new_manager_def depends_def acyclic_def)
  ultimately obtain ts where wf: "graph_wf m" and g: "grown ?m m ts"
    using expand_grown [OF _ e] by blast
  from g have tasks: "tm_tasks m = (t_id ?t, ?t) # map (\<lambda>t. (t_id t, t)) ts"
    by (simp add: grown_def new_manager_def)
  moreover have "tm_order m = dict_keys (tm_tasks m)" using wf by (simp add: graph_wf_def)
  ultimately show ?thesis
    using wf g by (auto simp: only_pending_def list_all_iff task_of_spec_def grown_def new_manager_def)
qed

definition sample_specs :: "task_spec list" where
  "sample_specs = [sample_spec ''r'' [], sample_spec ''a'' [''task:r''], sample_spec ''b'' [''task:a'', ''task:r'']]"


subsection \<open>Snapshots\<close>

definition loaded :: "task_node list \<Rightarrow> task_manager \<Rightarrow> task_manager" where
  "loaded ns m = m\<lparr>tm_tasks := tm_tasks m @ map (\<lambda>n. (t_id (tn_task n), tn_task n)) ns,
     tm_keys := tm_keys m @ map (\<lambda>n. (tn_key n, t_id (tn_task n))) ns,
     tm_dependencies := tm_dependencies m @ map (\<lambda>n. (t_id (tn_task n), tn_depends_on n)) ns,
     tm_order := tm_order m @ map (\<lambda>n. t_id (tn_task n)) ns\<rparr>"

lemma load_nodes_iff:
  assumes "dict_wf (tm_tasks m)" "dict_wf (tm_keys m)" "dict_keys (tm_dependencies m) = dict_keys (tm_tasks m)"
  shows "load_nodes ns m = Inr m' \<longleftrightarrow> distinct (dict_keys (tm_keys m) @ map tn_key ns)
    \<and> distinct (dict_keys (tm_tasks m) @ map (\<lambda>n. t_id (tn_task n)) ns) \<and> m' = loaded ns m"
  using assms
proof (induction ns arbitrary: m)
  case Nil
  then show ?case by (auto simp: loaded_def)
next
  case (Cons n ns)
  let ?i = "t_id (tn_task n)"
  let ?m = "loaded [n] m"
  show ?case
  proof (cases "tn_key n \<in> set (dict_keys (tm_keys m)) \<or> ?i \<in> set (dict_keys (tm_tasks m))")
    case True
    then show ?thesis by (auto simp: not_key simp del: set_map)
  next
    case False
    then have fresh: "tn_key n \<notin> set (dict_keys (tm_keys m))" "?i \<notin> set (dict_keys (tm_tasks m))"
      "?i \<notin> set (dict_keys (tm_dependencies m))" using Cons.prems(3) by metis+
    then have "load_nodes (n # ns) m = load_nodes ns ?m"
      by (cases m) (simp add: not_key update_fresh loaded_def del: set_map)
    also have "\<dots> = Inr m' \<longleftrightarrow> distinct (dict_keys (tm_keys ?m) @ map tn_key ns)
        \<and> distinct (dict_keys (tm_tasks ?m) @ map (\<lambda>n. t_id (tn_task n)) ns) \<and> m' = loaded ns ?m"
      using Cons.prems fresh by (intro Cons.IH) (simp_all add: loaded_def)
    finally show ?thesis using fresh by (auto simp: loaded_def)
  qed
qed

lemma from_snapshot_iff:
  "from_snapshot g = Inr m \<longleftrightarrow>
     tg_nodes g \<noteq> [] \<and> distinct (map tn_key (tg_nodes g))
     \<and> m = loaded (tg_nodes g) \<lparr>tm_tasks = [], tm_keys = [], tm_dependencies = [], tm_order = [],
             tm_current_id = tg_current_task_id g\<rparr>
     \<and> tg_current_task_id g \<in> set (tm_order m) \<and> graph_wf m"
  (is "_ \<longleftrightarrow> ?R")
proof (cases "tg_nodes g")
  case (Cons n ns)
  let ?start = "(new_manager (tn_task n))\<lparr>tm_tasks := [], tm_keys := [], tm_dependencies := [], tm_order := []\<rparr>"
  let ?l = "loaded (tg_nodes g) ?start"
  let ?m = "?l\<lparr>tm_current_id := tg_current_task_id g\<rparr>"
  let ?D = "distinct (map tn_key (tg_nodes g)) \<and> distinct (map (\<lambda>n. t_id (tn_task n)) (tg_nodes g))"
  have m: "loaded (tg_nodes g) \<lparr>tm_tasks = [], tm_keys = [], tm_dependencies = [], tm_order = [],
             tm_current_id = tg_current_task_id g\<rparr> = ?m"
    by (simp add: loaded_def new_manager_def)
  have load: "load_nodes (tg_nodes g) ?start = Inr x \<longleftrightarrow> ?D \<and> x = ?l" for x
    using load_nodes_iff [of ?start "tg_nodes g" x] by simp
  have order: "tm_order ?l = dict_keys (tm_tasks ?l)" "dict_keys (tm_dependencies ?l) = tm_order ?l"
    "dict_values (tm_keys ?l) = tm_order ?l" "dict_keys (tm_keys ?l) = map tn_key (tg_nodes g)"
    "tm_order ?l = map (\<lambda>n. t_id (tn_task n)) (tg_nodes g)"
    by (simp_all add: loaded_def comp_def)
  let ?K = "\<forall>(k, ds) \<in> set (tm_dependencies ?l). set ds \<subseteq> set (tm_order ?l)"
  have wf: "graph_wf ?m \<longleftrightarrow> distinct (tm_order ?l) \<and> distinct (map tn_key (tg_nodes g)) \<and> ?K
      \<and> acyclic (depends (tm_dependencies ?l))"
    using order unfolding graph_wf_def by (auto simp: loaded_def comp_def)
  have known: "find (\<lambda>(k, ds). \<not> set ds \<subseteq> set (dict_keys (tm_tasks ?l))) (tm_dependencies ?l) = None \<longleftrightarrow> ?K"
    unfolding order(1) [symmetric] by (auto simp: find_None_iff)
  have acyc: "?K \<Longrightarrow> validate_acyclic (tm_dependencies ?l) = Inr () \<longleftrightarrow> acyclic (depends (tm_dependencies ?l))"
    by (subst validate_acyclic_iff) (simp_all only: order(2))
  show ?thesis
  proof (cases "?D \<and> tg_current_task_id g \<in> set (tm_order ?l) \<and> ?K")
    case True
    then have l: "load_nodes (n # ns) ?start = Inr ?l" using load by (simp only: Cons)
    have c: "map_of (tm_tasks ?l) (tg_current_task_id g) \<noteq> None"
      using True unfolding not_key order(1) by blast
    have f: "find (\<lambda>(k, ds). \<not> set ds \<subseteq> set (dict_keys (tm_tasks ?l))) (tm_dependencies ?l) = None"
      using True known by blast
    have "from_snapshot g = (case validate_acyclic (tm_dependencies ?l) of Inl e \<Rightarrow> Inl e | Inr _ \<Rightarrow> Inr ?m)"
      using c by (simp only: from_snapshot_def Cons Let_def list.case l [unfolded Cons] sum.case
          f [unfolded Cons] option.case if_False)
    then show ?thesis using True acyc wf order(5) unfolding m
      by (cases "validate_acyclic (tm_dependencies ?l)") (auto simp: Cons)
  next
    case False
    have "\<not> ?R" using False wf order(5) unfolding m by auto
    moreover have "from_snapshot g \<noteq> Inr m"
    proof
      assume ok: "from_snapshot g = Inr m"
      then obtain x where x: "load_nodes (tg_nodes g) ?start = Inr x"
        by (cases "load_nodes (tg_nodes g) ?start") (auto simp: from_snapshot_def Cons Let_def)
      then have D: "?D" and [simp]: "x = ?l" using load by auto
      have "map_of (tm_tasks ?l) (tg_current_task_id g) \<noteq> None"
        "find (\<lambda>(k, ds). \<not> set ds \<subseteq> set (dict_keys (tm_tasks ?l))) (tm_dependencies ?l) = None"
        using ok x by (auto simp: from_snapshot_def Cons Let_def split: if_splits option.splits)
      then show False using False D known order(1) by (simp add: not_key)
    qed
    ultimately show ?thesis by blast
  qed
qed (simp add: from_snapshot_def)

lemma map_lookup: "dict_wf d \<Longrightarrow> map (\<lambda>k. (k, the (map_of d k))) (dict_keys d) = d"
proof -
  assume "dict_wf d"
  then have "map_of d k = Some v" if "(k, v) \<in> set d" for k v using that by (simp only: in_set_dict)
  then show ?thesis by (auto intro!: map_idI)
qed

text \<open>The key of a task: with distinct keys and distinct tasks the inversion is exact.\<close>

lemma key_of_id:
  assumes "distinct (dict_values d)" and "(k, i) \<in> set d"
  shows "map_of (rev (map (\<lambda>(k, i). (i, k)) d)) i = Some k"
proof -
  have "dict_wf (rev (map (\<lambda>(k, i). (i, k)) d))"
    using assms(1) by (simp add: rev_map [symmetric] case_prod_beta comp_def)
  moreover have "(i, k) \<in> set (rev (map (\<lambda>(k, i). (i, k)) d))" using assms(2) by force
  ultimately show ?thesis by (simp only: in_set_dict)
qed

definition node_at :: "task_manager \<Rightarrow> (string \<times> string) \<Rightarrow> task_node" where
  "node_at m = (\<lambda>(k, i). \<lparr>tn_key = k, tn_task = the (map_of (tm_tasks m) i),
     tn_depends_on = the (map_of (tm_dependencies m) i)\<rparr>)"

lemma map_dict_values:
  "(\<And>k i. (k, i) \<in> set d \<Longrightarrow> f i = g (k, i)) \<Longrightarrow> map f (dict_values d) = map g d"
  by (induction d) auto

lemma task_snapshot_eq:
  assumes "graph_wf m"
  shows "task_snapshot m = Some \<lparr>tg_nodes = map (node_at m) (tm_keys m), tg_current_task_id = tm_current_id m\<rparr>"
proof -
  let ?key = "map_of (rev (map (\<lambda>(k, i). (i, k)) (tm_keys m)))"
  let ?nodes = "map (\<lambda>i. case (?key i, map_of (tm_tasks m) i, map_of (tm_dependencies m) i) of
                     (Some k, Some t, Some ds) \<Rightarrow> Some \<lparr>tn_key = k, tn_task = t, tn_depends_on = ds\<rparr>
                   | _ \<Rightarrow> None) (tm_order m)"
  have keys: "tm_order m = dict_values (tm_keys m)" "distinct (dict_values (tm_keys m))"
    using assms by (simp_all add: graph_wf_def)
  have "(case (?key i, map_of (tm_tasks m) i, map_of (tm_dependencies m) i) of
           (Some k, Some t, Some ds) \<Rightarrow> Some \<lparr>tn_key = k, tn_task = t, tn_depends_on = ds\<rparr>
         | _ \<Rightarrow> None) = Some (node_at m (k, i))" if "(k, i) \<in> set (tm_keys m)" for k i
  proof -
    have "i \<in> set (tm_order m)" using that keys(1) by force
    then have "i \<in> set (dict_keys (tm_tasks m))" "i \<in> set (dict_keys (tm_dependencies m))"
      unfolding graph_wf_sets(1,2) [OF assms] by auto
    then obtain t ds where "map_of (tm_tasks m) i = Some t" "map_of (tm_dependencies m) i = Some ds"
      using not_key by (metis not_None_eq)
    with key_of_id [OF keys(2) that] show ?thesis by (simp add: node_at_def)
  qed
  then have nodes: "?nodes = map (\<lambda>p. Some (node_at m p)) (tm_keys m)"
    unfolding keys(1) by (rule map_dict_values)
  then have "None \<notin> set ?nodes" by auto
  moreover have "map the ?nodes = map (node_at m) (tm_keys m)" unfolding nodes by (simp add: comp_def)
  ultimately show ?thesis unfolding task_snapshot_def Let_def by (simp only: if_False)
qed

lemma nodes_of_wf:
  assumes "graph_wf m"
  shows "map (\<lambda>n. t_id (tn_task n)) (map (node_at m) (tm_keys m)) = tm_order m"
    and "loaded (map (node_at m) (tm_keys m)) \<lparr>tm_tasks = [], tm_keys = [], tm_dependencies = [],
           tm_order = [], tm_current_id = tm_current_id m\<rparr> = m"
proof -
  have keys: "dict_values (tm_keys m) = tm_order m" using assms by (simp add: graph_wf_def)
  have ids: "t_id (the (map_of (tm_tasks m) i)) = i" if "i \<in> set (tm_order m)" for i
  proof -
    from that obtain t where "map_of (tm_tasks m) i = Some t"
      using graph_wf_sets(1) [OF assms] not_key by (metis not_None_eq)
    moreover from this have "(i, t) \<in> set (tm_tasks m)" by (rule map_of_SomeD)
    ultimately show ?thesis using assms by (auto simp: graph_wf_def)
  qed
  have vk: "i \<in> set (tm_order m)" if "(k, i) \<in> set (tm_keys m)" for k i
    using that by (simp only: keys [symmetric]) force
  show a: "map (\<lambda>n. t_id (tn_task n)) (map (node_at m) (tm_keys m)) = tm_order m"
    unfolding keys [symmetric] by (auto simp: node_at_def ids vk)
  have tabs: "map (\<lambda>n. (t_id (tn_task n), tn_task n)) (map (node_at m) (tm_keys m)) = tm_tasks m"
    "map (\<lambda>n. (t_id (tn_task n), tn_depends_on n)) (map (node_at m) (tm_keys m)) = tm_dependencies m"
  proof -
    have "map (\<lambda>n. (t_id (tn_task n), tn_task n)) (map (node_at m) (tm_keys m))
        = map (\<lambda>i. (i, the (map_of (tm_tasks m) i))) (dict_values (tm_keys m))"
      by (auto simp: node_at_def ids vk)
    also have "\<dots> = map (\<lambda>i. (i, the (map_of (tm_tasks m) i))) (dict_keys (tm_tasks m))"
      using assms by (simp only: graph_wf_def)
    finally show "map (\<lambda>n. (t_id (tn_task n), tn_task n)) (map (node_at m) (tm_keys m)) = tm_tasks m"
      using map_lookup [OF graph_wf_sets(4) [OF assms]] by simp
    have "map (\<lambda>n. (t_id (tn_task n), tn_depends_on n)) (map (node_at m) (tm_keys m))
        = map (\<lambda>i. (i, the (map_of (tm_dependencies m) i))) (dict_values (tm_keys m))"
      by (auto simp: node_at_def ids vk)
    also have "\<dots> = map (\<lambda>i. (i, the (map_of (tm_dependencies m) i))) (dict_keys (tm_dependencies m))"
      using assms by (simp only: graph_wf_def)
    finally show "map (\<lambda>n. (t_id (tn_task n), tn_depends_on n)) (map (node_at m) (tm_keys m)) = tm_dependencies m"
      using map_lookup [OF graph_wf_sets(5) [OF assms]] by simp
  qed
  have "map (\<lambda>n. (tn_key n, t_id (tn_task n))) (map (node_at m) (tm_keys m)) = tm_keys m"
    by (auto simp: node_at_def ids vk intro!: map_idI)
  then show "loaded (map (node_at m) (tm_keys m)) \<lparr>tm_tasks = [], tm_keys = [], tm_dependencies = [],
           tm_order = [], tm_current_id = tm_current_id m\<rparr> = m"
    unfolding loaded_def tabs a by (cases m) (simp add: a tabs)
qed

lemma snapshot_loads:
  assumes "graph_wf m" and "tm_current_id m \<in> set (tm_order m)"
  shows "from_snapshot \<lparr>tg_nodes = map (node_at m) (tm_keys m), tg_current_task_id = tm_current_id m\<rparr> = Inr m"
proof -
  have "tm_keys m \<noteq> []" using assms by (auto simp: graph_wf_def)
  moreover have "map tn_key (map (node_at m) (tm_keys m)) = dict_keys (tm_keys m)"
    by (simp add: node_at_def case_prod_beta comp_def)
  ultimately show ?thesis
    unfolding from_snapshot_iff using assms nodes_of_wf(2) [OF assms(1)]
    by (simp add: graph_wf_def del: map_map)
qed

text \<open>Persisting a well-formed graph and loading it again gives the graph back: \<open>snapshot\<close>
  never fails on it, \<open>from_snapshot\<close> accepts the result and rebuilds the same tables, order
  and current task. And whatever \<open>from_snapshot\<close> accepts is a well-formed graph, so a session
  resumed from any stored snapshot has unique keys, known dependencies and no cycle.\<close>

theorem task_snapshot_round_trip:
  "(graph_wf m \<and> tm_current_id m \<in> set (tm_order m) \<longrightarrow>
      (\<exists>g. task_snapshot m = Some g \<and> from_snapshot g = Inr m))
   \<and> (from_snapshot g = Inr m' \<longrightarrow> graph_wf m' \<and> tm_current_id m' \<in> set (tm_order m'))"
proof (intro conjI impI; (elim conjE)?)
  assume m: "graph_wf m" "tm_current_id m \<in> set (tm_order m)"
  from task_snapshot_eq [OF m(1)] snapshot_loads [OF m]
  show "\<exists>g. task_snapshot m = Some g \<and> from_snapshot g = Inr m" by blast
next
  assume "from_snapshot g = Inr m'"
  then show "graph_wf m'" "tm_current_id m' \<in> set (tm_order m')"
    unfolding from_snapshot_iff by (auto simp: loaded_def)
qed

lemma task_snapshot_round_trip_witness:
  "case from_specs 0 sample_specs of Inl _ \<Rightarrow> False
   | Inr m \<Rightarrow> (case task_snapshot m of None \<Rightarrow> False
      | Some g \<Rightarrow> length (tg_nodes g) = 3 \<and> from_snapshot g = Inr m \<and> graph_wf m)"
proof -
  obtain m where m: "from_specs 0 sample_specs = Inr m" "length (tm_order m) = 3"
    by (simp add: from_specs_def sample_specs_def sample_simps Let_def expand_def validate_acyclic_def
        peel.simps peelable_def)
  then have wf: "graph_wf m" "tm_current_id m \<in> set (tm_order m)"
    using from_specs_ok [OF m(1)] by auto
  with task_snapshot_round_trip [of m] obtain g where g: "task_snapshot m = Some g" "from_snapshot g = Inr m" by blast
  moreover have "graph_wf m" using task_snapshot_round_trip g(2) by blast
  moreover have "length (tg_nodes g) = 3"
    using g(1) task_snapshot_eq [OF wf(1)] m(2) wf(1) by (metis graph_wf_def length_map option.inject task_graph.select_convs(1))
  ultimately show ?thesis using m by simp
qed

end
