(* ===== verification/Goal_Compiler.thy ===== *)
theory Goal_Compiler
  imports Task_Graph
begin

text \<open>
  \<open>goals/compiler.py\<close>: \<open>DefaultGoalCompiler\<close> turns a goal into the specifications of a task
  graph, a root for the goal and, when steps are split, one task for each non-blank line of
  its description. \<open>str.splitlines\<close> is spelled out for the line boundaries below code point 256.
\<close>

subsection \<open>\<open>str.splitlines\<close>\<close>

definition line_break :: "char \<Rightarrow> bool" where
  "line_break c = (let n = of_char c :: nat in (10 \<le> n \<and> n \<le> 13) \<or> (28 \<le> n \<and> n \<le> 30) \<or> n = 133)"

fun split_rows :: "string \<Rightarrow> string \<Rightarrow> string list" where
  "split_rows cur [] = (if cur = [] then [] else [rev cur])"
| "split_rows cur [c] = (if line_break c then [rev cur] else [rev (c # cur)])"
| "split_rows cur (c # d # cs) =
     (if of_char c = (13 :: nat) \<and> of_char d = (10 :: nat) then rev cur # split_rows [] cs
      else if line_break c then rev cur # split_rows [] (d # cs)
      else split_rows (c # cur) (d # cs))"

definition py_splitlines :: "string \<Rightarrow> string list" where
  "py_splitlines s = split_rows [] s"

text \<open>\<open>_split_lines\<close>\<close>

definition split_lines :: "string \<Rightarrow> string list" where
  "split_lines s = filter (\<lambda>l. l \<noteq> []) (map py_strip (py_splitlines s))"

subsection \<open>The compiler\<close>

record goal_compilation =
  gc_initial_tasks :: "task_spec list"
  gc_constraints :: "success_criterion list"
  gc_notes :: string

definition root_task_id :: "goal \<Rightarrow> string" where
  "root_task_id g = ''goal:'' @ g_id g @ '':root''"

definition step_key :: "nat \<Rightarrow> string" where
  "step_key i = ''root:step:'' @ show_nat i"

definition step_specs :: "string \<Rightarrow> nat \<Rightarrow> string list \<Rightarrow> task_spec list" where
  "step_specs rid i ls = map (\<lambda>(j, l). \<lparr>ts_key = step_key j, ts_description = l, ts_required_criteria = [],
     ts_depends_on = [rid], ts_task_id = None\<rparr>) (enumerate i ls)"

definition goal_compile :: "bool \<Rightarrow> goal \<Rightarrow> goal_compilation" where
  "goal_compile split_steps g =
     (let rid = root_task_id g;
          r = \<lparr>ts_key = ''root'', ts_description = g_description g,
               ts_required_criteria = (if split_steps then [] else map sc_key (g_success_criteria g)),
               ts_depends_on = [], ts_task_id = Some rid\<rparr>
      in \<lparr>gc_initial_tasks = r # (if split_steps then step_specs rid 0 (split_lines (g_description g)) else []),
          gc_constraints = g_success_criteria g, gc_notes = []\<rparr>)"

subsection \<open>The compiled graph is accepted and worked off\<close>

lemma step_key_inject [simp]: "step_key i = step_key j \<longleftrightarrow> i = j"
  by (simp add: step_key_def)

lemma step_key_root: "step_key i \<noteq> ''root''"
  by (simp add: step_key_def)

lemma step_key_Nil: "step_key i \<noteq> []"
  by (simp add: step_key_def)

lemma step_specs_Cons:
  "step_specs rid i (l # ls) = \<lparr>ts_key = step_key i, ts_description = l, ts_required_criteria = [],
     ts_depends_on = [rid], ts_task_id = None\<rparr> # step_specs rid (Suc i) ls"
  by (simp add: step_specs_def)

text \<open>The tables when the steps below \<open>i\<close> have been added.\<close>

definition steps_below :: "string \<Rightarrow> nat \<Rightarrow> task_manager \<Rightarrow> bool" where
  "steps_below rid i m \<longleftrightarrow> rid \<in> set (dict_keys (tm_tasks m))
     \<and> set (dict_keys (tm_tasks m)) \<subseteq> {rid} \<union> (\<lambda>j. ''task:'' @ step_key j) ` {..<i}
     \<and> set (dict_keys (tm_keys m)) \<subseteq> {''root''} \<union> step_key ` {..<i}"

lemma expand_steps:
  assumes "steps_below rid i m" and "list_all (\<lambda>l. l \<noteq> []) ls" and "\<forall>j. rid \<noteq> ''task:'' @ step_key j"
  shows "\<exists>ts m'. expand_loop clk (step_specs rid i ls) m = (Inr ts, m') \<and> map t_description ts = ls
    \<and> length (tm_order m') = length (tm_order m) + length ls"
  using assms(1,2)
proof (induction ls arbitrary: i m)
  case Nil
  then show ?case by (simp add: step_specs_def)
next
  case (Cons l ls)
  let ?s = "\<lparr>ts_key = step_key i, ts_description = l, ts_required_criteria = [],
     ts_depends_on = [rid], ts_task_id = None\<rparr>"
  let ?t = "task_of_spec ?s clk"
  have id: "t_id ?t = ''task:'' @ step_key i" by (simp add: task_of_spec_def spec_id_def)
  have below: "set (dict_keys (tm_tasks m)) \<subseteq> {rid} \<union> (\<lambda>j. ''task:'' @ step_key j) ` {..<i}"
    "set (dict_keys (tm_keys m)) \<subseteq> {''root''} \<union> step_key ` {..<i}"
    using Cons.prems(1) unfolding steps_below_def by blast+
  have "step_key i \<notin> {''root''} \<union> step_key ` {..<i}"
    "''task:'' @ step_key i \<notin> {rid} \<union> (\<lambda>j. ''task:'' @ step_key j) ` {..<i}"
    using assms(3) by (auto simp: step_key_root)
  with below have fresh: "step_key i \<notin> set (dict_keys (tm_keys m))"
    "''task:'' @ step_key i \<notin> set (dict_keys (tm_tasks m))" by blast+
  have "tm_tasks (add_task ?s ?t m) = tm_tasks m @ [(''task:'' @ step_key i, ?t)]"
    "tm_keys (add_task ?s ?t m) = tm_keys m @ [(step_key i, ''task:'' @ step_key i)]"
    using fresh by (simp_all add: add_task_def id update_fresh del: set_map)
  then have "steps_below rid (Suc i) (add_task ?s ?t m)"
    using Cons.prems(1) below by (simp only: steps_below_def) (auto simp: lessThan_Suc)
  then obtain ts m' where ih: "expand_loop clk (step_specs rid (Suc i) ls) (add_task ?s ?t m) = (Inr ts, m')"
    "map t_description ts = ls" "length (tm_order m') = length (tm_order (add_task ?s ?t m)) + length ls"
    using Cons.IH Cons.prems(2) by fastforce
  have "expand_loop clk (step_specs rid i (l # ls)) m = (Inr (?t # ts), m')"
    using fresh Cons.prems ih(1)
    by (simp add: step_specs_Cons spec_ok_def not_key Let_def id steps_below_def step_key_Nil del: set_map)
  then show ?case using ih by (simp add: task_of_spec_def add_task_def)
qed

lemma split_lines_ok: "list_all (\<lambda>l. l \<noteq> []) (split_lines s)"
  by (simp add: split_lines_def list_all_iff)

text \<open>Every goal with a description compiles to a graph the task manager accepts: the root
  first and current, then one pending task per non-blank line of the description when steps
  are split, whatever the identifier of the goal. It is rejected exactly when the description is empty. And the graph is
  worked off in as many turns as it has tasks.\<close>

theorem compiled_goal_accepted:
  "case from_specs clk (gc_initial_tasks (goal_compile split_steps g)) of
     Inl e \<Rightarrow> g_description g = [] \<and> e = TaskValueErr ''task key and description are required''
   | Inr m \<Rightarrow> g_description g \<noteq> [] \<and> graph_wf m \<and> only_pending m \<and> tm_current_id m = root_task_id g
       \<and> map t_description (dict_values (tm_tasks m))
           = g_description g # (if split_steps then split_lines (g_description g) else [])
       \<and> \<not> has_unfinished (complete_current ((turn ^^ length (tm_order m)) m))"
proof -
  let ?specs = "gc_initial_tasks (goal_compile split_steps g)"
  let ?rid = "root_task_id g"
  let ?ls = "if split_steps then split_lines (g_description g) else []"
  obtain r where r: "?specs = r # step_specs ?rid 0 ?ls" "ts_key r = ''root''" "spec_id r = ?rid"
    "ts_description r = g_description g"
    by (simp add: goal_compile_def Let_def spec_id_def step_specs_def)
  let ?m = "new_manager (task_of_spec r clk)"
  have tid: "t_id (task_of_spec r clk) = ?rid" by (simp add: task_of_spec_def r(3))
  show ?thesis
  proof (cases "g_description g = []")
    case True
    then show ?thesis by (simp add: r(1) from_specs_def spec_ok_def r(4))
  next
    case False
    have "steps_below ?rid 0 ?m" by (simp add: steps_below_def new_manager_def tid r(2))
    moreover have "list_all (\<lambda>l. l \<noteq> []) ?ls" by (simp add: split_lines_ok)
    moreover have "\<forall>j. ?rid \<noteq> ''task:'' @ step_key j" by (simp add: root_task_id_def)
    ultimately obtain ts m' where e: "expand_loop clk (step_specs ?rid 0 ?ls) ?m = (Inr ts, m')"
      "map t_description ts = ?ls"
      using expand_steps [of ?rid 0 ?m ?ls clk] by (auto simp: new_manager_def)
    then have "expand clk (step_specs ?rid 0 ?ls) ?m = (Inr ts, m')"
      using expand_loop_ok [OF graph_wf_new] by blast
    then have ok: "from_specs clk ?specs = Inr m'"
      using False by (simp add: r from_specs_def spec_ok_def)
    note wf = from_specs_ok [OF ok]
    have g: "grown ?m m' ts" using expand_loop_grown [OF e(1) graph_wf_new] by simp
    then have cur: "tm_current_id m' = ?rid" by (simp add: grown_def new_manager_def tid)
    have "map t_description (dict_values (tm_tasks m')) = g_description g # map t_description ts"
      using g by (simp add: grown_def new_manager_def task_of_spec_def r(4) comp_def)
    then have descr: "map t_description (dict_values (tm_tasks m')) = g_description g # ?ls"
      by (simp only: e(2))
    have "\<not> has_unfinished (complete_current ((turn ^^ length (tm_order m')) m'))"
      using wf by (intro worked_off) (simp_all add: complete_current_def only_pending_completed)
    with ok wf cur descr False show ?thesis by simp
  qed
qed

end
