(* ===== verification/Evidence.thy ===== *)
theory Evidence
  imports Core_Models
begin

text \<open>
  \<open>evidence/models.py\<close> and \<open>evidence/store.py\<close>: evidence, the extractor that turns an
  observation into evidence, and the in-memory store that all sessions of a runtime share.
  The identifier of a new piece of evidence (a random one in the source) is a parameter.
\<close>

record evidence =
  ev_session_id :: string
  ev_task_id :: string
  ev_action_id :: string
  ev_observation_id :: string
  ev_subject :: string
  ev_claim :: string
  ev_value :: json
  ev_source :: string
  ev_confidence :: rat
  ev_id :: string
  ev_observed_at :: time
  ev_domain_name :: string
  ev_domain_version :: string

text \<open>\<open>Evidence.__post_init__\<close>: \<open>None\<close>, or the message of the \<open>ValueError\<close>.\<close>

definition evidence_problem :: "evidence \<Rightarrow> string option" where
  "evidence_problem e =
     (if ev_confidence e < 0 \<or> 1 < ev_confidence e
      then Some ''evidence confidence must be between zero and one''
      else if blank (ev_subject e) \<or> blank (ev_claim e)
      then Some ''evidence subject and claim are required'' else None)"

record evidence_query =
  evq_session :: string
  evq_task :: "string option"
  evq_subject :: "string option"
  evq_claim :: "string option"
  evq_limit :: "int option"

text \<open>\<open>StructuredEvidenceExtractor.extract\<close>, with one new identifier per key.\<close>

fun structured_loop :: "string \<Rightarrow> task \<Rightarrow> observation \<Rightarrow> (string \<Rightarrow> string) \<Rightarrow> json_mapping
    \<Rightarrow> string + evidence list" where
  "structured_loop sid t ob new_id [] = Inr []"
| "structured_loop sid t ob new_id ((k, v) # kvs) =
     (let e = \<lparr>ev_session_id = sid, ev_task_id = t_id t, ev_action_id = ob_action_id ob,
            ev_observation_id = ob_id ob, ev_subject = ob_source ob, ev_claim = k, ev_value = v,
            ev_source = ob_source ob, ev_confidence = 1, ev_id = new_id k,
            ev_observed_at = ob_observed_at ob, ev_domain_name = [], ev_domain_version = []\<rparr>
      in case evidence_problem e of Some m \<Rightarrow> Inl m | None \<Rightarrow>
        (case structured_loop sid t ob new_id kvs of Inl m \<Rightarrow> Inl m | Inr es \<Rightarrow> Inr (e # es)))"

definition structured_extract :: "string \<Rightarrow> task \<Rightarrow> (string \<Rightarrow> string) \<Rightarrow> observation \<Rightarrow> string + evidence list" where
  "structured_extract sid t new_id ob =
     (if ob_status ob \<noteq> ObsSucceeded then Inr [] else structured_loop sid t ob new_id (ob_data ob))"

subsection \<open>The store\<close>

type_synonym evidence_store = "(string, evidence) dict"

definition evidence_key :: "evidence \<Rightarrow> time \<times> string" where
  "evidence_key e = (ev_observed_at e, ev_id e)"

definition add_evidence :: "evidence \<Rightarrow> evidence_store \<Rightarrow> bool \<times> evidence_store" where
  "add_evidence e st = (if map_of st (ev_id e) \<noteq> None then (False, st)
     else (True, AList.update (ev_id e) e st))"

definition export_evidence :: "string \<Rightarrow> evidence_store \<Rightarrow> evidence list" where
  "export_evidence sid st = sort_key evidence_key (filter (\<lambda>e. ev_session_id e = sid) (dict_values st))"

definition put_evidence :: "evidence \<Rightarrow> evidence_store \<Rightarrow> evidence_store" where
  "put_evidence e st = AList.update (ev_id e) e st"

definition replace_evidence :: "string \<Rightarrow> evidence list \<Rightarrow> evidence_store \<Rightarrow> evidence_store" where
  "replace_evidence sid es st =
     fold put_evidence es (filter (\<lambda>(_, e). ev_session_id e \<noteq> sid) st)"

text \<open>\<open>xs[:n]\<close>, also for a negative \<open>n\<close>.\<close>

definition slice_to :: "int \<Rightarrow> 'a list \<Rightarrow> 'a list" where
  "slice_to n xs = (if 0 \<le> n then take (nat n) xs else take (length xs - nat (- n)) xs)"

text \<open>\<open>sort(key=..., reverse=True)\<close> keeps equal elements in their order.\<close>

definition sort_reverse :: "('a \<Rightarrow> 'b::linorder) \<Rightarrow> 'a list \<Rightarrow> 'a list" where
  "sort_reverse f xs = rev (sort_key f (rev xs))"

definition query_evidence :: "evidence_query \<Rightarrow> evidence_store \<Rightarrow> evidence list" where
  "query_evidence q st =
     (let matches = sort_reverse evidence_key (filter (\<lambda>e. ev_session_id e = evq_session q
            \<and> (evq_task q = None \<or> Some (ev_task_id e) = evq_task q)
            \<and> (evq_subject q = None \<or> Some (ev_subject e) = evq_subject q)
            \<and> (evq_claim q = None \<or> Some (ev_claim e) = evq_claim q)) (dict_values st))
      in case evq_limit q of None \<Rightarrow> matches | Some n \<Rightarrow> slice_to n matches)"

subsection \<open>What the store keeps\<close>

definition evidence_wf :: "evidence_store \<Rightarrow> bool" where
  "evidence_wf st \<longleftrightarrow> dict_wf st \<and> (\<forall>(k, e) \<in> set st. ev_id e = k)"

lemma evidence_wf_put: "evidence_wf st \<Longrightarrow> evidence_wf (put_evidence e st)"
  by (auto simp: evidence_wf_def put_evidence_def dict_simps)

lemma evidence_wf_add: "evidence_wf st \<Longrightarrow> evidence_wf (snd (add_evidence e st))"
  using evidence_wf_put [of st e] by (simp add: add_evidence_def put_evidence_def)

lemma evidence_wf_filter: "evidence_wf st \<Longrightarrow> evidence_wf (filter P st)"
  by (auto simp: evidence_wf_def distinct_map_filter)

lemma evidence_wf_fold: "evidence_wf st \<Longrightarrow> evidence_wf (fold put_evidence es st)"
  by (induction es arbitrary: st) (auto intro: evidence_wf_put)

lemma evidence_wf_replace: "evidence_wf st \<Longrightarrow> evidence_wf (replace_evidence sid es st)"
  unfolding replace_evidence_def by (intro evidence_wf_fold evidence_wf_filter)

text \<open>Filling a dictionary under new keys appends to it.\<close>

lemma fold_update_fresh:
  assumes "distinct (map f xs)" and "\<forall>x \<in> set xs. map_of d (f x) = None"
  shows "fold (\<lambda>x. AList.update (f x) (g x)) xs d = d @ map (\<lambda>x. (f x, g x)) xs"
  using assms
proof (induction xs arbitrary: d)
  case (Cons x xs)
  have "map_of d k = None \<Longrightarrow> AList.update k v d = d @ [(k, v)]" for k v
    by (induction d) (auto split: if_splits)
  moreover have "fold (\<lambda>x. AList.update (f x) (g x)) xs (d @ [(f x, g x)]) = (d @ [(f x, g x)]) @ map (\<lambda>x. (f x, g x)) xs"
    using Cons.prems by (intro Cons.IH) (auto simp: map_add_Some_iff image_iff split: option.splits if_splits)
  ultimately show ?case using Cons.prems by simp
qed simp

lemma fold_put_fresh:
  "distinct (map ev_id es) \<Longrightarrow> \<forall>e \<in> set es. map_of st (ev_id e) = None
    \<Longrightarrow> fold put_evidence es st = st @ map (\<lambda>e. (ev_id e, e)) es"
  using fold_update_fresh [of ev_id es st "\<lambda>e. e"] by (simp add: put_evidence_def [abs_def])

lemma map_of_filter_None: "map_of xs k = None \<Longrightarrow> map_of (filter P xs) k = None"
  by (auto simp: map_of_eq_None_iff)

text \<open>Evidence is restored exactly. When the stored evidence of a session is put back into any store
  in which no other session uses one of its identifiers (as \<open>hydrate_session\<close> does), the store
  exports exactly this evidence for the session, in the same order, and what it exports for every
  other session is unchanged.\<close>

theorem evidence_restored:
  assumes "evidence_wf st" and "evidence_wf other"
    and "\<forall>e \<in> set (export_evidence sid st). \<forall>e'. map_of other (ev_id e) = Some e' \<longrightarrow> ev_session_id e' = sid"
  shows "export_evidence s (replace_evidence sid (export_evidence sid st) other) =
    (if s = sid then export_evidence sid st else export_evidence s other)"
proof -
  let ?es = "export_evidence sid st"
  let ?rest = "filter (\<lambda>(_, e). ev_session_id e \<noteq> sid) other"
  have mem: "e \<in> set ?es \<longleftrightarrow> e \<in> set (dict_values st) \<and> ev_session_id e = sid" for e
    by (auto simp: export_evidence_def)
  have ids: "map ev_id (dict_values st) = dict_keys st"
    using assms(1) by (auto simp: evidence_wf_def)
  have "distinct (map ev_id (dict_values st))" using assms(1) unfolding ids by (simp add: evidence_wf_def)
  then have "distinct (map ev_id (filter (\<lambda>e. ev_session_id e = sid) (dict_values st)))"
    by (rule distinct_map_filter)
  then have dist: "distinct (map ev_id ?es)"
    by (simp add: export_evidence_def distinct_map [of ev_id] del: map_map)
  have fresh: "\<forall>e \<in> set ?es. map_of ?rest (ev_id e) = None"
  proof
    fix e assume e: "e \<in> set ?es"
    have "(ev_id e, e') \<notin> set ?rest" for e'
      using assms(2,3) e by (auto simp: evidence_wf_def)
    then show "map_of ?rest (ev_id e) = None" by (metis map_of_SomeD not_Some_eq)
  qed
  have "dict_values (replace_evidence sid ?es other) = dict_values ?rest @ ?es"
    unfolding replace_evidence_def fold_put_fresh [OF dist fresh] by (simp add: comp_def)
  moreover have "filter (\<lambda>e. ev_session_id e = s) (dict_values ?rest) =
      (if s = sid then [] else filter (\<lambda>e. ev_session_id e = s) (dict_values other))"
    by (auto simp: filter_map comp_def case_prod_beta intro!: filter_cong arg_cong [where f = "map snd"])
  moreover have "filter (\<lambda>e. ev_session_id e = s) ?es = (if s = sid then ?es else [])"
    using mem by (auto simp: filter_id_conv filter_empty_conv)
  moreover have "sort_key evidence_key ?es = ?es"
    unfolding export_evidence_def by (rule sort_key_id_if_sorted) simp
  ultimately show ?thesis by (simp add: export_evidence_def [of s])
qed


definition sample_evidence :: "string \<Rightarrow> string \<Rightarrow> string \<Rightarrow> json \<Rightarrow> time \<Rightarrow> evidence" where
  "sample_evidence sid i claim v t = \<lparr>ev_session_id = sid, ev_task_id = ''t'', ev_action_id = ''a'',
     ev_observation_id = ''o'', ev_subject = ''pod'', ev_claim = claim, ev_value = v, ev_source = ''tool'',
     ev_confidence = 1, ev_id = i, ev_observed_at = t, ev_domain_name = [], ev_domain_version = []\<rparr>"

theorem evidence_restored_witness:
  "map ev_id (export_evidence ''s'' (replace_evidence ''s'' (export_evidence ''s''
     (fold put_evidence [sample_evidence ''s'' ''e2'' ''up'' JNull 9, sample_evidence ''s'' ''e1'' ''up'' JNull 5] []))
     [(''x'', sample_evidence ''r'' ''x'' ''up'' JNull 1)])) = [''e1'', ''e2'']"
proof -
  let ?st = "fold put_evidence [sample_evidence ''s'' ''e2'' ''up'' JNull 9, sample_evidence ''s'' ''e1'' ''up'' JNull 5] []"
  let ?other = "[(''x'', sample_evidence ''r'' ''x'' ''up'' JNull 1)]"
  have "evidence_wf ?st" by (intro evidence_wf_fold) (simp add: evidence_wf_def)
  moreover have "evidence_wf ?other" by (simp add: evidence_wf_def sample_evidence_def)
  moreover have "map ev_id (export_evidence ''s'' ?st) = [''e1'', ''e2'']" by code_simp
  moreover from this have "ev_id ` set (export_evidence ''s'' ?st) = {''e1'', ''e2''}"
    by (metis image_set list.simps(15) set_empty empty_set)
  then have "ev_id e \<in> {''e1'', ''e2''}" if "e \<in> set (export_evidence ''s'' ?st)" for e
    using that by (metis imageI)
  then have "\<forall>e \<in> set (export_evidence ''s'' ?st). \<forall>e'. map_of ?other (ev_id e) = Some e' \<longrightarrow> ev_session_id e' = ''s''"
    by fastforce
  ultimately show ?thesis
    using evidence_restored [of ?st ?other "''s''" "''s''"] by (simp only: if_True simp_thms)
qed

end
