(* ===== verification/World_Model.thy ===== *)
theory World_Model
  imports Evidence
begin

text \<open>
  \<open>world/model.py\<close> and the queries of \<open>world/models.py\<close>: the in-memory world model that is
  derived from evidence. Facts are arbitrated among the evidence of one subject and claim, whose
  number is kept within a bound; entities and relations are merged; a snapshot is cached until
  the session changes.

  The canonical rendering of a JSON value (\<open>dumps_json\<close>) is a parameter. The claims of a subject
  are a Python set, here a list without repetition, so that the keys of the attributes
  have an order; Python compares mappings without regard to it, as \<open>same_mapping\<close> does. The time
  a snapshot was captured at is left out.
\<close>

subsection \<open>Data\<close>

record world_fact =
  fa_subject :: string
  fa_claim :: string
  fa_value :: json
  fa_confidence :: rat
  fa_observed_at :: time
  fa_evidence_ids :: "string list"

record fact_evidence =
  fe_evidence_id :: string
  fe_value :: json
  fe_confidence :: rat
  fe_observed_at :: time
  fe_source :: string

record fact_history =
  fh_subject :: string
  fh_claim :: string
  fh_current :: world_fact
  fh_candidates :: "fact_evidence list"
  fh_conflicting :: bool

record world_entity =
  we_id :: string
  we_kind :: string
  we_attributes :: json_mapping
  we_evidence_ids :: "string list"

record world_relation =
  wr_source :: string
  wr_relation :: string
  wr_target :: string
  wr_evidence_ids :: "string list"

record world_snapshot =
  wo_session_id :: string
  wo_facts :: "world_fact list"
  wo_fact_histories :: "fact_history list"
  wo_entities :: "world_entity list"
  wo_relations :: "world_relation list"

record world_model =
  wm_cap :: nat
  wm_facts :: "(string \<times> string \<times> string, evidence list) dict"
  wm_subject_claims :: "(string \<times> string, string list) dict"
  wm_entities :: "(string \<times> string, world_entity) dict"
  wm_relations :: "(string \<times> string \<times> string \<times> string, world_relation) dict"
  wm_cache :: "(string, world_snapshot) dict"

definition new_world :: "int \<Rightarrow> string + world_model" where
  "new_world cap = (if cap < 1 then Inl ''max_evidence_per_fact must be positive''
     else Inr \<lparr>wm_cap = nat cap, wm_facts = [], wm_subject_claims = [], wm_entities = [],
       wm_relations = [], wm_cache = []\<rparr>)"

subsection \<open>Values\<close>

definition merge_mappings :: "json_mapping list \<Rightarrow> json_mapping" where
  "merge_mappings ms = fold (\<lambda>m acc. fold (\<lambda>(k, v). AList.update k v) m acc) ms []"

definition same_mapping :: "json_mapping \<Rightarrow> json_mapping \<Rightarrow> bool" where
  "same_mapping a b \<longleftrightarrow> list_all (\<lambda>k. map_of a k = map_of b k) (dict_keys a @ dict_keys b)"

definition same_entity :: "world_entity \<Rightarrow> world_entity \<Rightarrow> bool" where
  "same_entity a b \<longleftrightarrow> we_id a = we_id b \<and> we_kind a = we_kind b
     \<and> same_mapping (we_attributes a) (we_attributes b) \<and> we_evidence_ids a = we_evidence_ids b"

text \<open>\<open>tuple(dict.fromkeys(xs))\<close>: the first of equal elements stays.\<close>

definition dedupe :: "'a list \<Rightarrow> 'a list" where
  "dedupe xs = rev (remdups (rev xs))"

text \<open>\<open>max(xs, key=...)\<close>: the first of the greatest elements.\<close>

fun max_by :: "('a \<Rightarrow> 'b::linorder) \<Rightarrow> 'a \<Rightarrow> 'a list \<Rightarrow> 'a" where
  "max_by f b [] = b"
| "max_by f b (x # xs) = max_by f (if f b < f x then x else b) xs"

definition arbitration_key :: "evidence \<Rightarrow> rat \<times> time \<times> string" where
  "arbitration_key e = (ev_confidence e, ev_observed_at e, ev_id e)"

definition current_fact :: "evidence list \<Rightarrow> evidence" where
  "current_fact es = max_by arbitration_key (hd es) (tl es)"

definition has_conflicting_values :: "(json \<Rightarrow> string) \<Rightarrow> evidence list \<Rightarrow> bool" where
  "has_conflicting_values dumps es = (1 < length (remdups (map (\<lambda>e. dumps (ev_value e)) es)))"

definition relation_prefix :: string where
  "relation_prefix = ''relation:''"

definition relation_claim :: "string \<Rightarrow> bool" where
  "relation_claim c \<longleftrightarrow> take (length relation_prefix) c = relation_prefix"

subsection \<open>The bound on the evidence of a fact\<close>

text \<open>\<open>_trim_fact_bucket\<close>: the identifiers that stay, then the refilling up to the bound.\<close>

fun newest_per_value :: "(json \<Rightarrow> string) \<Rightarrow> evidence list \<Rightarrow> string list \<Rightarrow> string list" where
  "newest_per_value dumps [] seen = []"
| "newest_per_value dumps (e # es) seen =
     (if dumps (ev_value e) \<in> set seen then newest_per_value dumps es seen
      else ev_id e # newest_per_value dumps es (dumps (ev_value e) # seen))"

fun fill_up :: "nat \<Rightarrow> evidence list \<Rightarrow> evidence list \<Rightarrow> string list \<Rightarrow> evidence list" where
  "fill_up cap [] kept ids = kept"
| "fill_up cap (e # es) kept ids =
     (if cap \<le> length kept then kept
      else if ev_id e \<notin> set ids then fill_up cap es (kept @ [e]) (ev_id e # ids)
      else fill_up cap es kept ids)"

definition trim_bucket :: "(json \<Rightarrow> string) \<Rightarrow> nat \<Rightarrow> evidence list \<Rightarrow> evidence list" where
  "trim_bucket dumps cap values =
     (if length values \<le> cap then values
      else let newest_first = sort_reverse evidence_key values;
               ids = ev_id (current_fact values) # newest_per_value dumps newest_first [];
               kept = filter (\<lambda>e. ev_id e \<in> set ids) values
           in fill_up cap newest_first kept ids)"

definition add_to_bucket :: "(json \<Rightarrow> string) \<Rightarrow> nat \<Rightarrow> evidence \<Rightarrow> evidence list \<Rightarrow> evidence list" where
  "add_to_bucket dumps cap e values =
     (if ev_id e \<in> ev_id ` set values then values else trim_bucket dumps cap (values @ [e]))"

subsection \<open>Facts, entities, relations\<close>

definition bucket :: "world_model \<Rightarrow> string \<Rightarrow> string \<Rightarrow> string \<Rightarrow> evidence list" where
  "bucket w sid subject claim = dict_get (wm_facts w) (sid, subject, claim) []"

definition fact_attributes :: "world_model \<Rightarrow> string \<Rightarrow> string \<Rightarrow> json_mapping" where
  "fact_attributes w sid eid =
     fold (\<lambda>claim attrs. if claim = ''kind'' \<or> relation_claim claim then attrs
         else if bucket w sid eid claim = [] then attrs
         else AList.update claim (ev_value (current_fact (bucket w sid eid claim))) attrs)
       (dict_get (wm_subject_claims w) (sid, eid) []) []"

definition kind_for_subject :: "world_model \<Rightarrow> string \<Rightarrow> string \<Rightarrow> string option" where
  "kind_for_subject w sid eid =
     (if bucket w sid eid ''kind'' = [] then None
      else case ev_value (current_fact (bucket w sid eid ''kind'')) of
        JStr s \<Rightarrow> if blank s then None else Some (py_strip s) | _ \<Rightarrow> None)"

definition refresh_entity_attributes :: "string \<Rightarrow> string \<Rightarrow> world_model \<Rightarrow> world_model" where
  "refresh_entity_attributes sid eid w =
     (case map_of (wm_entities w) (sid, eid) of None \<Rightarrow> w
      | Some old \<Rightarrow>
          let new = \<lparr>we_id = eid, we_kind = we_kind old,
                we_attributes = merge_mappings [fact_attributes w sid eid, we_attributes old],
                we_evidence_ids = we_evidence_ids old\<rparr>
          in if same_entity new old then w
             else w\<lparr>wm_entities := AList.update (sid, eid) new (wm_entities w)\<rparr>)"

definition uncache :: "string \<Rightarrow> world_model \<Rightarrow> world_model" where
  "uncache sid w = w\<lparr>wm_cache := AList.delete sid (wm_cache w)\<rparr>"

definition apply_fact :: "(json \<Rightarrow> string) \<Rightarrow> evidence \<Rightarrow> world_model \<Rightarrow> bool \<times> world_model" where
  "apply_fact dumps e w =
     (let sid = ev_session_id e; values = bucket w sid (ev_subject e) (ev_claim e) in
      if ev_id e \<in> ev_id ` set values then (False, w)
      else let claims = dict_get (wm_subject_claims w) (sid, ev_subject e) [];
               w1 = w\<lparr>wm_facts := AList.update (sid, ev_subject e, ev_claim e)
                        (trim_bucket dumps (wm_cap w) (values @ [e])) (wm_facts w),
                      wm_subject_claims := AList.update (sid, ev_subject e)
                        (List.insert (ev_claim e) claims) (wm_subject_claims w)\<rparr>
           in (True, uncache sid (refresh_entity_attributes sid (ev_subject e) w1)))"

definition apply_entity :: "string \<Rightarrow> world_entity \<Rightarrow> world_model \<Rightarrow> (world_model, string, bool) outcome" where
  "apply_entity sid n w =
     check_op (parse_non_empty_string (we_kind n) ''world entity kind'') w (\<lambda>_.
       let old = map_of (wm_entities w) (sid, we_id n);
           merged = \<lparr>we_id = we_id n,
             we_kind = (case kind_for_subject w sid (we_id n) of None \<Rightarrow> we_kind n | Some k \<Rightarrow> k),
             we_attributes = merge_mappings [fact_attributes w sid (we_id n),
               case old of None \<Rightarrow> [] | Some o1 \<Rightarrow> we_attributes o1, we_attributes n],
             we_evidence_ids = dedupe ((case old of None \<Rightarrow> [] | Some o1 \<Rightarrow> we_evidence_ids o1)
               @ we_evidence_ids n)\<rparr>
       in if (case old of None \<Rightarrow> False | Some o1 \<Rightarrow> same_entity o1 merged) then (Inr False, w)
          else (Inr True, uncache sid
            (w\<lparr>wm_entities := AList.update (sid, we_id n) merged (wm_entities w)\<rparr>)))"

definition apply_relation :: "string \<Rightarrow> world_relation \<Rightarrow> world_model \<Rightarrow> (world_model, string, bool) outcome" where
  "apply_relation sid r w =
     check_op (parse_non_empty_string (wr_relation r) ''world relation'') w (\<lambda>_.
       let key = (sid, wr_source r, wr_relation r, wr_target r) in
       case map_of (wm_relations w) key of
         None \<Rightarrow> (Inr True, uncache sid (w\<lparr>wm_relations := AList.update key r (wm_relations w)\<rparr>))
       | Some old \<Rightarrow>
           let merged = \<lparr>wr_source = wr_source r, wr_relation = wr_relation r, wr_target = wr_target r,
                 wr_evidence_ids = dedupe (wr_evidence_ids old @ wr_evidence_ids r)\<rparr>
           in if old = merged then (Inr False, w)
              else (Inr True, uncache sid (w\<lparr>wm_relations := AList.update key merged (wm_relations w)\<rparr>)))"

definition forget_session :: "string \<Rightarrow> world_model \<Rightarrow> world_model" where
  "forget_session sid w = uncache sid
     (w\<lparr>wm_facts := filter (\<lambda>(k, _). fst k \<noteq> sid) (wm_facts w),
        wm_entities := filter (\<lambda>(k, _). fst k \<noteq> sid) (wm_entities w),
        wm_relations := filter (\<lambda>(k, _). fst k \<noteq> sid) (wm_relations w)\<rparr>)"

subsection \<open>The updater for facts\<close>

definition entity_from_evidence :: "evidence \<Rightarrow> world_entity option" where
  "entity_from_evidence e =
     (if ev_claim e \<noteq> ''kind'' then None
      else case ev_value e of
        JStr s \<Rightarrow> if blank s then None
          else Some \<lparr>we_id = ev_subject e, we_kind = py_strip s, we_attributes = [], we_evidence_ids = [ev_id e]\<rparr>
      | _ \<Rightarrow> None)"

definition relation_targets :: "json \<Rightarrow> string list" where
  "relation_targets v = (case v of
     JStr s \<Rightarrow> if blank s then [] else [py_strip s]
   | JList vs \<Rightarrow> List.map_filter (\<lambda>x. case x of JStr s \<Rightarrow> if blank s then None else Some (py_strip s)
       | _ \<Rightarrow> None) vs
   | _ \<Rightarrow> [])"

definition relations_from_evidence :: "evidence \<Rightarrow> world_relation list" where
  "relations_from_evidence e =
     (if \<not> relation_claim (ev_claim e) then []
      else let relation = py_strip (drop (length relation_prefix) (ev_claim e)) in
        if relation = [] then []
        else map (\<lambda>t. \<lparr>wr_source = ev_subject e, wr_relation = relation, wr_target = t,
               wr_evidence_ids = [ev_id e]\<rparr>) (relation_targets (ev_value e)))"

fun apply_relations :: "string \<Rightarrow> world_relation list \<Rightarrow> bool \<Rightarrow> world_model \<Rightarrow> (world_model, string, bool) outcome" where
  "apply_relations sid [] changed w = (Inr changed, w)"
| "apply_relations sid (r # rs) changed w =
     bind_op (apply_relation sid r w) (\<lambda>c w1. apply_relations sid rs (c \<or> changed) w1)"

text \<open>\<open>FactWorldUpdater.apply\<close>\<close>

definition fact_world_updater :: "(json \<Rightarrow> string) \<Rightarrow> evidence \<Rightarrow> world_model \<Rightarrow> (world_model, string, bool) outcome" where
  "fact_world_updater dumps e w =
     (case apply_fact dumps e w of (c, w1) \<Rightarrow>
       bind_op (case entity_from_evidence e of None \<Rightarrow> (Inr c, w1)
                | Some n \<Rightarrow> bind_op (apply_entity (ev_session_id e) n w1) (\<lambda>c' w'. (Inr (c' \<or> c), w')))
         (\<lambda>c' w'. apply_relations (ev_session_id e) (relations_from_evidence e) c' w'))"

type_synonym world_updater = "evidence \<Rightarrow> world_model \<Rightarrow> (world_model, string, bool) outcome"

text \<open>The nested loop \<open>for item in ordered: for updater in updaters\<close>.\<close>

fun apply_updaters :: "world_updater list \<Rightarrow> evidence \<Rightarrow> world_model \<Rightarrow> (world_model, string, unit) outcome" where
  "apply_updaters [] e w = (Inr (), w)"
| "apply_updaters (u # us) e w = bind_op (u e w) (\<lambda>_ w1. apply_updaters us e w1)"

fun replay_evidence :: "(evidence \<Rightarrow> world_updater list) \<Rightarrow> evidence list \<Rightarrow> world_model
    \<Rightarrow> (world_model, string, unit) outcome" where
  "replay_evidence us [] w = (Inr (), w)"
| "replay_evidence us (e # es) w = bind_op (apply_updaters (us e) e w) (\<lambda>_ w1. replay_evidence us es w1)"

definition ordered_evidence :: "string \<Rightarrow> evidence list \<Rightarrow> evidence list" where
  "ordered_evidence sid es = sort_key evidence_key (filter (\<lambda>e. ev_session_id e = sid) es)"

definition rebuild_world :: "string \<Rightarrow> evidence list \<Rightarrow> world_updater list \<Rightarrow> world_model
    \<Rightarrow> (world_model, string, unit) outcome" where
  "rebuild_world sid es us w =
     (if us = [] then (Inl ''world rebuild requires at least one updater'', w)
      else replay_evidence (\<lambda>_. us) (ordered_evidence sid es) (forget_session sid w))"

subsection \<open>Snapshots\<close>

definition fact_of :: "string \<Rightarrow> string \<Rightarrow> evidence list \<Rightarrow> world_fact" where
  "fact_of subject claim es =
     (let current = current_fact es in
      \<lparr>fa_subject = subject, fa_claim = claim, fa_value = ev_value current, fa_confidence = ev_confidence current,
       fa_observed_at = ev_observed_at current, fa_evidence_ids = map ev_id (sort_key evidence_key es)\<rparr>)"

definition history_of :: "(json \<Rightarrow> string) \<Rightarrow> string \<Rightarrow> string \<Rightarrow> evidence list \<Rightarrow> fact_history" where
  "history_of dumps subject claim es =
     \<lparr>fh_subject = subject, fh_claim = claim, fh_current = fact_of subject claim es,
      fh_candidates = map (\<lambda>e. \<lparr>fe_evidence_id = ev_id e, fe_value = ev_value e,
        fe_confidence = ev_confidence e, fe_observed_at = ev_observed_at e, fe_source = ev_source e\<rparr>)
        (sort_key evidence_key es),
      fh_conflicting = has_conflicting_values dumps (sort_key evidence_key es)\<rparr>"

definition compute_snapshot :: "(json \<Rightarrow> string) \<Rightarrow> string \<Rightarrow> string list \<Rightarrow> string list \<Rightarrow> world_model
    \<Rightarrow> world_snapshot" where
  "compute_snapshot dumps sid subjects claims w =
     (let buckets = filter (\<lambda>((s, subject, claim), _). s = sid \<and> (subjects = [] \<or> subject \<in> set subjects)
            \<and> (claims = [] \<or> claim \<in> set claims)) (wm_facts w)
      in \<lparr>wo_session_id = sid,
          wo_facts = sort_key (\<lambda>f. (fa_subject f, fa_claim f))
            (map (\<lambda>((_, subject, claim), es). fact_of subject claim es) buckets),
          wo_fact_histories = sort_key (\<lambda>h. (fh_subject h, fh_claim h))
            (map (\<lambda>((_, subject, claim), es). history_of dumps subject claim es) buckets),
          wo_entities = sort_key we_id (map snd (filter (\<lambda>((s, _), n). s = sid
            \<and> (subjects = [] \<or> we_id n \<in> set subjects)) (wm_entities w))),
          wo_relations = sort_key (\<lambda>r. (wr_source r, wr_relation r, wr_target r))
            (map snd (filter (\<lambda>((s, _, _, _), r). s = sid
              \<and> (subjects = [] \<or> wr_source r \<in> set subjects)) (wm_relations w)))\<rparr>)"

definition take_snapshot :: "(json \<Rightarrow> string) \<Rightarrow> string \<Rightarrow> string list \<Rightarrow> string list \<Rightarrow> world_model
    \<Rightarrow> world_snapshot \<times> world_model" where
  "take_snapshot dumps sid subjects claims w =
     (case (if subjects = [] \<and> claims = [] then map_of (wm_cache w) sid else None) of
        Some cached \<Rightarrow> (cached, w)
      | None \<Rightarrow>
          let r = compute_snapshot dumps sid subjects claims w in
          (r, if subjects = [] \<and> claims = [] then w\<lparr>wm_cache := AList.update sid r (wm_cache w)\<rparr> else w))"

end
