(* ===== verification/Session_Runtime.thy ===== *)
theory Session_Runtime
  imports Task_Graph World_Model
begin

text \<open>
  The state of a running session and the transitions that end or suspend it:
  \<open>runtime/session.py\<close>,
  \<open>runtime/transitions.py\<close>, \<open>runtime/controls.py\<close> and \<open>runtime/decision.py\<close>.

  In the source the current task and the tasks of the agent state are the very objects of the
  task manager; here they are copies, and \<open>sync_current_task\<close> takes the copies anew. The one
  place where the source relies on the sharing without a call of it (\<open>finish\<close> of a
  continuation) takes them explicitly. A look-up of the current task cannot fail: the current
  id is one of the order in every manager the code builds.
\<close>

subsection \<open>Session state\<close>

record session =
  ss_state :: agent_state
  ss_tasks :: task_manager
  ss_domain_name :: string
  ss_domain_version :: string
  ss_domain_identities :: "domain_identity list"
  ss_version :: nat

definition sync_current_task :: "session \<Rightarrow> session" where
  "sync_current_task s = s\<lparr>ss_state := (ss_state s)
     \<lparr>as_current_task := (case current_task (ss_tasks s) of
         Inl _ \<Rightarrow> as_current_task (ss_state s) | Inr t \<Rightarrow> t),
      as_tasks := all_tasks (ss_tasks s)\<rparr>\<rparr>"

definition complete_current_task :: "session \<Rightarrow> session" where
  "complete_current_task s = sync_current_task (s\<lparr>ss_tasks := complete_current (ss_tasks s)\<rparr>)"

definition start_next_task :: "session \<Rightarrow> session" where
  "start_next_task s = sync_current_task (s\<lparr>ss_tasks := snd (start_next (ss_tasks s))\<rparr>)"

definition mark_current_task :: "task_status \<Rightarrow> session \<Rightarrow> session" where
  "mark_current_task st s =
     sync_current_task (s\<lparr>ss_tasks := set_status (tm_current_id (ss_tasks s)) st (ss_tasks s)\<rparr>)"

definition update_state :: "(agent_state \<Rightarrow> agent_state) \<Rightarrow> session \<Rightarrow> session" where
  "update_state f s = s\<lparr>ss_state := f (ss_state s)\<rparr>"

definition set_goal_status :: "goal_status \<Rightarrow> agent_state \<Rightarrow> agent_state" where
  "set_goal_status g st = st\<lparr>as_goal := (as_goal st)\<lparr>g_status := g\<rparr>\<rparr>"

subsection \<open>Domains of a stored session\<close>

record session_snapshot =
  sn_state :: agent_state
  sn_task_graph :: task_graph
  sn_evidence :: "evidence list"
  sn_domain_name :: string
  sn_domain_version :: string
  sn_domain_identities :: "domain_identity list"
  sn_version :: nat

definition snapshot_domains :: "session_snapshot \<Rightarrow> domain_identity list" where
  "snapshot_domains sn =
     (if sn_domain_identities sn \<noteq> [] then sn_domain_identities sn
      else if sn_domain_name sn \<noteq> [] \<and> sn_domain_version sn \<noteq> []
        then [\<lparr>dom_name = sn_domain_name sn, dom_version = sn_domain_version sn\<rparr>] else [])"

definition format_domains :: "domain_identity list \<Rightarrow> string" where
  "format_domains ids = (let s = join_str '', '' (map (\<lambda>d. dom_name d @ ''@'' @ dom_version d) ids)
     in if s = [] then ''<none>'' else s)"

text \<open>\<open>_validate_snapshot_domains\<close>: \<open>None\<close>, or the message of the \<open>DomainMismatchError\<close>.\<close>

definition domain_mismatch :: "session_snapshot \<Rightarrow> domain_identity list \<Rightarrow> string \<Rightarrow> string \<Rightarrow> string option" where
  "domain_mismatch sn expected pname pversion =
     (let recorded = snapshot_domains sn in
      if recorded \<noteq> [] then
        (if recorded \<noteq> expected then Some (''session domains '' @ format_domains recorded
            @ '' do not match '' @ format_domains expected) else None)
      else if sn_domain_name sn \<noteq> [] \<and> sn_domain_name sn \<noteq> pname then
        Some (''session domain '' @ sn_domain_name sn @ '' does not match '' @ pname)
      else if sn_domain_version sn \<noteq> [] \<and> sn_domain_version sn \<noteq> pversion then
        Some (''session domain version '' @ sn_domain_version sn @ '' does not match '' @ pversion)
      else None)"

definition task_error_text :: "task_error \<Rightarrow> string" where
  "task_error_text e = (case e of TaskValueErr m \<Rightarrow> m | TaskKeyErr k \<Rightarrow> k)"

text \<open>
  \<open>hydrate_session\<close>: first the part on domains and tasks, then the shared stores. The evidence of
  the session is put back and the world is replayed from it by the updaters that are
  responsible for each piece of evidence; an updater may raise.
\<close>

definition hydrate_session :: "session_snapshot \<Rightarrow> domain_identity list \<Rightarrow> string \<Rightarrow> string \<Rightarrow> string + session" where
  "hydrate_session sn expected pname pversion =
     (case domain_mismatch sn expected pname pversion of Some e \<Rightarrow> Inl e | None \<Rightarrow>
      (case from_snapshot (sn_task_graph sn) of
         Inl e \<Rightarrow> Inl (''invalid session snapshot task graph: '' @ task_error_text e)
       | Inr m \<Rightarrow> Inr (sync_current_task \<lparr>ss_state = sn_state sn, ss_tasks = m, ss_domain_name = pname,
           ss_domain_version = pversion, ss_domain_identities = expected, ss_version = sn_version sn\<rparr>)))"

definition hydrate_stores :: "(evidence \<Rightarrow> world_updater list) \<Rightarrow> session_snapshot
    \<Rightarrow> evidence_store \<times> world_model \<Rightarrow> (evidence_store \<times> world_model, string, unit) outcome" where
  "hydrate_stores updaters sn st =
     (let sid = as_session_id (sn_state sn);
          store = replace_evidence sid (sn_evidence sn) (fst st);
          (r, w) = replay_evidence updaters (ordered_evidence sid (sn_evidence sn)) (forget_session sid (snd st))
      in (r, (store, w)))"

text \<open>\<open>start_session\<close>\<close>

definition start_session :: "agent_state \<Rightarrow> task_manager option \<Rightarrow> string \<Rightarrow> string \<Rightarrow> domain_identity list
    \<Rightarrow> evidence_store \<times> world_model \<Rightarrow> session \<times> evidence_store \<times> world_model" where
  "start_session state tasks pname pversion identities st =
     (\<lparr>ss_state = state, ss_tasks = (case tasks of Some m \<Rightarrow> m | None \<Rightarrow> new_manager (as_current_task state)),
       ss_domain_name = pname, ss_domain_version = pversion, ss_domain_identities = identities, ss_version = 0\<rparr>,
      replace_evidence (as_session_id state) [] (fst st), forget_session (as_session_id state) (snd st))"

text \<open>\<open>SessionRuntimeState.snapshot\<close>\<close>

definition session_to_snapshot :: "evidence_store \<Rightarrow> session \<Rightarrow> session_snapshot option" where
  "session_to_snapshot store s =
     (let s' = sync_current_task s in
      map_option (\<lambda>g. \<lparr>sn_state = ss_state s', sn_task_graph = g,
        sn_evidence = export_evidence (as_session_id (ss_state s')) store, sn_domain_name = ss_domain_name s',
        sn_domain_version = ss_domain_version s', sn_domain_identities = ss_domain_identities s',
        sn_version = ss_version s'\<rparr>) (task_snapshot (ss_tasks s')))"

subsection \<open>transitions.py\<close>

record transition =
  tr_result :: execution_result
  tr_event_type :: string
  tr_event_data :: json_mapping
  tr_action_id :: "string option"

fun error_code_value :: "error_code \<Rightarrow> string" where
  "error_code_value VALIDATION_ERROR = ''validation_error''"
| "error_code_value UNKNOWN_CAPABILITY = ''unknown_capability''"
| "error_code_value NO_CAPABILITY_TOOL = ''no_capability_tool''"
| "error_code_value UNKNOWN_TOOL = ''unknown_tool''"
| "error_code_value TOOL_FAILURE = ''tool_failure''"
| "error_code_value UNKNOWN_EXECUTION = ''unknown_execution''"
| "error_code_value TIMEOUT = ''timeout''"
| "error_code_value INVALID_STATE = ''invalid_state''"
| "error_code_value ITERATION_LIMIT = ''iteration_limit''"
| "error_code_value MODEL_FAILURE = ''model_failure''"
| "error_code_value POLICY_DENIED = ''policy_denied''"
| "error_code_value CONFIRMATION_REJECTED = ''confirmation_rejected''"
| "error_code_value EVALUATION_FAILED = ''evaluation_failed''"
| "error_code_value DOMAIN_VALIDATION_FAILED = ''domain_validation_failed''"
| "error_code_value RESOURCE_CONFLICT = ''resource_conflict''"
| "error_code_value COST_LIMIT_EXCEEDED = ''cost_limit_exceeded''"
| "error_code_value TRANSIENT = ''transient''"
| "error_code_value PERMISSION_DENIED = ''permission_denied''"
| "error_code_value DEPENDENCY_MISSING = ''dependency_missing''"
| "error_code_value USER_REQUIRED = ''user_required''"

definition build_result :: "agent_state \<Rightarrow> execution_status \<Rightarrow> string \<Rightarrow> error_code option
    \<Rightarrow> string option \<Rightarrow> execution_result" where
  "build_result st status reason code msg =
     \<lparr>xr_status = status, xr_session_id = as_session_id st, xr_goal_id = g_id (as_goal st),
      xr_task_id = t_id (as_current_task st), xr_iterations = as_iteration st, xr_reason = reason,
      xr_error_code = code, xr_user_message = msg\<rparr>"

definition pause :: "string \<Rightarrow> string option \<Rightarrow> string \<Rightarrow> string option \<Rightarrow> session \<Rightarrow> transition \<times> session" where
  "pause reason msg event action s =
     (let s1 = mark_current_task TaskWaiting (update_state (set_goal_status GoalWaiting) s);
          s2 = update_state (\<lambda>st. st\<lparr>as_termination_reason := Some reason\<rparr>) s1
      in (\<lparr>tr_result = build_result (ss_state s2) ExecWaiting reason None msg, tr_event_type = event,
           tr_event_data = [(''reason'', JStr reason)], tr_action_id = action\<rparr>, s2))"

definition fail_session :: "error_code \<Rightarrow> string \<Rightarrow> session \<Rightarrow> transition \<times> session" where
  "fail_session code reason s =
     (let s1 = mark_current_task TaskFailed (update_state (set_goal_status GoalFailed) s);
          s2 = update_state (\<lambda>st. st\<lparr>as_termination_reason := Some reason, as_error_code := Some code\<rparr>) s1
      in (\<lparr>tr_result = build_result (ss_state s2) ExecFailed reason (Some code) None,
           tr_event_type = ''GoalFailed'',
           tr_event_data = [(''error_code'', JStr (error_code_value code)), (''reason'', JStr reason)],
           tr_action_id = None\<rparr>, s2))"

text \<open>The loop of \<open>cancel\<close> over all tasks.\<close>

definition cancel_open :: "task_manager \<Rightarrow> task_manager" where
  "cancel_open m = m\<lparr>tm_tasks := map_ran (\<lambda>_ t. if task_terminal (t_status t) then t
     else t\<lparr>t_status := TaskCancelled\<rparr>) (tm_tasks m)\<rparr>"

definition cancel_session_run :: "string \<Rightarrow> session \<Rightarrow> transition \<times> session" where
  "cancel_session_run reason s =
     (let s1 = update_state (\<lambda>st. (set_goal_status GoalCancelled st)
            \<lparr>as_pending_action := None, as_error_code := None, as_termination_reason := Some reason\<rparr>) s;
          s2 = sync_current_task (s1\<lparr>ss_tasks := cancel_open (ss_tasks s1)\<rparr>)
      in (\<lparr>tr_result = build_result (ss_state s2) ExecCancelled reason None None,
           tr_event_type = ''GoalCancelled'', tr_event_data = [(''reason'', JStr reason)],
           tr_action_id = None\<rparr>, s2))"

definition continuation_reason :: string where
  "continuation_reason = ''session continued; model finished the turn''"

definition finish_rejected :: string where
  "finish_rejected = ''finish rejected because evaluator has not completed the task and goal''"

definition finish :: "session \<Rightarrow> transition \<times> session" where
  "finish s =
     (let st = ss_state s in
      if as_is_continuation st then
        (let s1 = complete_current_task s;
             s2 = update_state (\<lambda>st. (set_goal_status GoalCompleted st)
                \<lparr>as_termination_reason := Some continuation_reason\<rparr>) s1
         in (\<lparr>tr_result = build_result (ss_state s2) ExecCompleted continuation_reason None None,
              tr_event_type = ''GoalCompleted'', tr_event_data = [], tr_action_id = None\<rparr>, s2))
      else
        (case as_latest_evaluation st of
           None \<Rightarrow> fail_session INVALID_STATE finish_rejected s
         | Some ev \<Rightarrow>
             if has_unfinished (ss_tasks s) \<or> t_status (as_current_task st) \<noteq> TaskCompleted
                \<or> er_status ev \<noteq> EvalCompleted \<or> \<not> er_task_completed ev \<or> \<not> er_goal_completed ev
             then fail_session INVALID_STATE finish_rejected s
             else (let s1 = update_state (\<lambda>st. (set_goal_status GoalCompleted st)
                      \<lparr>as_termination_reason := Some (er_reason ev)\<rparr>) s
                   in (\<lparr>tr_result = build_result (ss_state s1) ExecCompleted (er_reason ev) None None,
                        tr_event_type = ''GoalCompleted'', tr_event_data = [], tr_action_id = None\<rparr>, s1))))"

subsection \<open>controls.py\<close>

definition constrain_capability_context :: "agent_state \<Rightarrow> capability_definition list
    \<Rightarrow> capability_input_contract list \<Rightarrow> capability_definition list \<times> capability_input_contract list" where
  "constrain_capability_context st caps contracts =
     (if \<not> as_read_only st then (caps, contracts)
      else let allowed = map cap_name (filter (\<lambda>c. cap_category c \<noteq> CatMutation) caps)
           in (filter (\<lambda>c. cap_name c \<in> set allowed) caps,
               filter (\<lambda>c. cic_capability c \<in> set allowed) contracts))"

text \<open>\<open>x or ""\<close> on an optional string.\<close>

definition or_empty :: "string option \<Rightarrow> string" where
  "or_empty x = (case x of None \<Rightarrow> [] | Some s \<Rightarrow> s)"

definition validate_session_constraints :: "agent_state \<Rightarrow> decision \<Rightarrow> capability_definition list
    \<Rightarrow> (error_code \<times> string) option" where
  "validate_session_constraints st d caps =
     (if \<not> as_read_only st \<or> d_type d \<noteq> Execute then None
      else (case find (\<lambda>c. cap_name c = or_empty (d_capability d)) caps of
              None \<Rightarrow> None
            | Some c \<Rightarrow> if cap_category c \<noteq> CatMutation then None
                else Some (POLICY_DENIED, ''read-only session cannot execute mutation capability: '' @ cap_name c)))"

subsection \<open>decision.py\<close>

definition normalize_runtime_decision :: "decision \<Rightarrow> decision" where
  "normalize_runtime_decision d =
     (if d_type d \<noteq> Finish then d
      else if d_capability d = None \<and> d_target d = None \<and> d_arguments d = [] then d
      else d\<lparr>d_capability := None, d_target := None, d_arguments := [], d_expected_observations := []\<rparr>)"

text \<open>\<open>ModelBackedDecisionEngine.decide\<close> on what the model answered, or raised.\<close>

definition model_backed_decide :: "string + decision \<Rightarrow> string + decision" where
  "model_backed_decide answer =
     (case answer of Inl e \<Rightarrow> Inl (''model failed to produce a decision: '' @ e)
      | Inr d \<Rightarrow> let d' = normalize_runtime_decision d in
          (case decision_validate d' of Some e \<Rightarrow> Inl (''model produced an invalid decision: '' @ e)
           | None \<Rightarrow> Inr d'))"

text \<open>\<open>RuleBasedDecisionEngine.decide\<close>: the rules in order, then the fallback engine.\<close>

fun rule_based_decide :: "('c \<Rightarrow> decision option) list \<Rightarrow> ('c \<Rightarrow> string + decision) option \<Rightarrow> 'c
    \<Rightarrow> string + decision" where
  "rule_based_decide [] fallback c =
     (case fallback of Some f \<Rightarrow> f c | None \<Rightarrow> Inl ''no rule matched the decision context'')"
| "rule_based_decide (r # rs) fallback c =
     (case r c of None \<Rightarrow> rule_based_decide rs fallback c
      | Some d \<Rightarrow> let d' = normalize_runtime_decision d in
          (case decision_validate d' of Some e \<Rightarrow> Inl (''rule produced an invalid decision: '' @ e)
           | None \<Rightarrow> Inr d'))"

definition ask_user_when_no_capability :: "'c list \<Rightarrow> decision option" where
  "ask_user_when_no_capability caps =
     (if caps \<noteq> [] then None
      else Some \<lparr>d_type = AskUser, d_reason = ''no capabilities available to act on the current task'',
        d_capability = None, d_target = None, d_arguments = [], d_expected_observations = [],
        d_message = Some ''current task requires a capability that is not available''\<rparr>)"

definition recover_when_no_capability :: "'c list \<Rightarrow> decision option" where
  "recover_when_no_capability caps =
     (if caps \<noteq> [] then None
      else Some \<lparr>d_type = Finish, d_reason = ''no capabilities available to act on the current task'',
        d_capability = None, d_target = None, d_arguments = [], d_expected_observations = [],
        d_message = None\<rparr>)"

end
