(* ===== verification/Session_Safety.thy ===== *)
theory Session_Safety
  imports Session_Runtime
begin

text \<open>
  What the transitions of a session guarantee: the agent state keeps showing the tasks of the
  task manager, a goal ends as completed only with the evaluator's authority (or as the turn of
  a continuation), cancelling ends every task, and a read-only session executes no mutation.
\<close>

subsection \<open>The agent state shows the task graph\<close>

definition session_consistent :: "session \<Rightarrow> bool" where
  "session_consistent s \<longleftrightarrow> graph_wf (ss_tasks s) \<and> tm_current_id (ss_tasks s) \<in> set (tm_order (ss_tasks s))
     \<and> current_task (ss_tasks s) = Inr (as_current_task (ss_state s))
     \<and> as_tasks (ss_state s) = all_tasks (ss_tasks s)"

definition graph_ok :: "task_manager \<Rightarrow> bool" where
  "graph_ok m \<longleftrightarrow> graph_wf m \<and> tm_current_id m \<in> set (tm_order m)"

lemma consistent_graph: "session_consistent s \<Longrightarrow> graph_ok (ss_tasks s)"
  by (simp add: session_consistent_def graph_ok_def)

lemma current_task_ok:
  assumes "graph_ok m"
  shows "\<exists>t. current_task m = Inr t \<and> map_of (tm_tasks m) (tm_current_id m) = Some t \<and> t_id t = tm_current_id m"
proof -
  have "tm_current_id m \<in> set (dict_keys (tm_tasks m))"
    using assms graph_wf_sets(1) unfolding graph_ok_def by metis
  then obtain t where t: "map_of (tm_tasks m) (tm_current_id m) = Some t"
    using not_key by (metis not_None_eq)
  moreover have "t_id t = tm_current_id m"
    using assms map_of_SomeD [OF t] by (auto simp: graph_ok_def graph_wf_def)
  ultimately show ?thesis by (simp add: current_task_def get_task_def)
qed

lemma sync_tasks [simp]: "ss_tasks (sync_current_task s) = ss_tasks s"
  by (simp add: sync_current_task_def)

lemma sync_consistent: "graph_ok (ss_tasks s) \<Longrightarrow> session_consistent (sync_current_task s)"
  using current_task_ok [of "ss_tasks s"]
  by (auto simp: session_consistent_def graph_ok_def sync_current_task_def)

lemma graph_ok_set_status: "graph_ok m \<Longrightarrow> graph_ok (set_status k st m)"
  by (simp add: graph_ok_def graph_wf_set_status)

lemma graph_ok_complete_current: "graph_ok m \<Longrightarrow> graph_ok (complete_current m)"
  by (simp add: complete_current_def graph_ok_set_status)

lemma graph_ok_start_next: "graph_ok m \<Longrightarrow> graph_ok (snd (start_next m))"
  by (cases rule: start_next_cases [of m]) (auto simp: graph_ok_def intro: graph_wf_set_status
      dest: graph_wf_start_next)

lemma map_ran_tasks:
  assumes "graph_ok m" and "\<And>t. t_id (f t) = t_id t"
  shows "graph_ok (m\<lparr>tm_tasks := map_ran (\<lambda>_. f) (tm_tasks m)\<rparr>)"
proof -
  have "dict_keys (map_ran (\<lambda>_. f) (tm_tasks m)) = dict_keys (tm_tasks m)"
    by (simp add: map_ran_def case_prod_beta comp_def)
  moreover have "\<forall>(k, t) \<in> set (map_ran (\<lambda>_. f) (tm_tasks m)). t_id t = k"
    using assms by (fastforce simp: map_ran_def graph_ok_def graph_wf_def)
  ultimately show ?thesis
    using assms(1) graph_wf_tasks [of m "m\<lparr>tm_tasks := map_ran (\<lambda>_. f) (tm_tasks m)\<rparr>"]
    by (simp add: graph_ok_def)
qed

lemma graph_ok_cancel_open: "graph_ok m \<Longrightarrow> graph_ok (cancel_open m)"
  unfolding cancel_open_def by (rule map_ran_tasks) simp_all

lemma graph_ok_complete_all: "graph_ok m \<Longrightarrow> graph_ok (complete_all m)"
  unfolding complete_all_def by (rule map_ran_tasks) simp_all

lemmas graph_ok_intros = graph_ok_set_status graph_ok_complete_current graph_ok_start_next
  graph_ok_cancel_open graph_ok_complete_all

lemma update_state_simps [simp]:
  "ss_tasks (update_state f s) = ss_tasks s" "ss_state (update_state f s) = f (ss_state s)"
  by (simp_all add: update_state_def)

lemma update_state_consistent:
  assumes "session_consistent s" and "as_current_task (f (ss_state s)) = as_current_task (ss_state s)"
    and "as_tasks (f (ss_state s)) = as_tasks (ss_state s)"
  shows "session_consistent (update_state f s)"
  using assms by (simp add: session_consistent_def)

lemma set_goal_status_simps [simp]:
  "as_current_task (set_goal_status g st) = as_current_task st" "as_tasks (set_goal_status g st) = as_tasks st"
  "g_status (as_goal (set_goal_status g st)) = g"
  by (simp_all add: set_goal_status_def)

lemma mark_consistent: "graph_ok (ss_tasks s) \<Longrightarrow> session_consistent (mark_current_task st s)"
  unfolding mark_current_task_def by (rule sync_consistent) (simp add: graph_ok_set_status)

text \<open>The transitions as events of a session.\<close>

datatype session_event = EvPause string "string option" string "string option" | EvFail error_code string
  | EvCancel string | EvFinish | EvCompleteCurrent | EvStartNext | EvMark task_status

fun session_step :: "session \<Rightarrow> session_event \<Rightarrow> session" where
  "session_step s (EvPause r m e a) = snd (pause r m e a s)"
| "session_step s (EvFail c r) = snd (fail_session c r s)"
| "session_step s (EvCancel r) = snd (cancel_session_run r s)"
| "session_step s EvFinish = snd (finish s)"
| "session_step s EvCompleteCurrent = complete_current_task s"
| "session_step s EvStartNext = start_next_task s"
| "session_step s (EvMark st) = mark_current_task st s"

lemma fail_consistent: "graph_ok (ss_tasks s) \<Longrightarrow> session_consistent (snd (fail_session c r s))"
  by (auto simp: fail_session_def Let_def intro!: update_state_consistent mark_consistent)

lemma step_consistent:
  assumes "session_consistent s"
  shows "session_consistent (session_step s e)"
proof -
  have ok: "graph_ok (ss_tasks s)" using assms by (rule consistent_graph)
  show ?thesis
  proof (cases e)
    case (EvPause r m ev a)
    then show ?thesis using ok
      by (auto simp: pause_def Let_def intro!: update_state_consistent mark_consistent)
  next
    case (EvFail c r)
    then show ?thesis using ok by (simp add: fail_consistent)
  next
    case (EvCancel r)
    then show ?thesis using ok
      by (auto simp: cancel_session_run_def Let_def intro!: sync_consistent graph_ok_cancel_open)
  next
    case EvFinish
    have "session_consistent (complete_current_task s)"
      unfolding complete_current_task_def using ok by (intro sync_consistent) (simp add: graph_ok_intros)
    with EvFinish assms ok show ?thesis
      by (auto simp: finish_def Let_def fail_consistent intro!: update_state_consistent split: option.splits)
  next
    case EvCompleteCurrent
    then show ?thesis using ok
      by (auto simp: complete_current_task_def intro!: sync_consistent graph_ok_intros)
  next
    case EvStartNext
    then show ?thesis using ok
      by (auto simp: start_next_task_def intro!: sync_consistent graph_ok_intros)
  next
    case (EvMark st)
    then show ?thesis using ok by (simp add: mark_consistent)
  qed
qed

text \<open>A session as it is created for the tasks of a goal.\<close>

definition fresh_state :: "string \<Rightarrow> goal \<Rightarrow> task \<Rightarrow> bool \<Rightarrow> agent_state" where
  "fresh_state sid g t ro = \<lparr>as_session_id = sid, as_goal = g, as_current_task = t, as_read_only = ro,
     as_iteration = 0, as_satisfied_criteria = [], as_observations = [], as_latest_evaluation = None,
     as_pending_action = None, as_approved_fingerprints = [], as_tasks = [], as_recovery_attempts = [],
     as_termination_reason = None, as_error_code = None, as_tenant_id = None,
     as_cumulative_cost_micros = 0, as_cumulative_tokens = 0, as_is_continuation = False\<rparr>"

definition fresh_session :: "string \<Rightarrow> goal \<Rightarrow> task \<Rightarrow> session" where
  "fresh_session sid g t = sync_current_task \<lparr>ss_state = fresh_state sid g t False, ss_tasks = new_manager t,
     ss_domain_name = [], ss_domain_version = [], ss_domain_identities = [], ss_version = 0\<rparr>"

lemma fresh_consistent: "session_consistent (fresh_session sid g t)"
  unfolding fresh_session_def
  by (rule sync_consistent) (simp add: graph_ok_def graph_wf_new, simp add: new_manager_def)

interpretation sess: invariant_system session_step "fresh_session sid g t" session_consistent
  by unfold_locales (auto intro: fresh_consistent step_consistent)

lemma hydrate_consistent:
  assumes "hydrate_session sn expected pname pversion = Inr s"
  shows "session_consistent s \<and> domain_mismatch sn expected pname pversion = None"
proof -
  from assms obtain m where m: "from_snapshot (sn_task_graph sn) = Inr m"
    "domain_mismatch sn expected pname pversion = None"
    "s = sync_current_task \<lparr>ss_state = sn_state sn, ss_tasks = m, ss_domain_name = pname,
           ss_domain_version = pversion, ss_domain_identities = expected, ss_version = sn_version sn\<rparr>"
    by (auto simp: hydrate_session_def split: option.splits sum.splits)
  from m(1) have "graph_ok m" by (auto simp: from_snapshot_iff graph_ok_def loaded_def)
  with m show ?thesis by (simp add: sync_consistent)
qed

text \<open>A session that was loaded from a snapshot of matching domains, or created for a new goal,
  and then went through any sequence of transitions (pause, fail, cancel, finish, completing and
  starting tasks), still has a well-formed task graph with a current task, and its agent state
  shows exactly the tasks of that graph.\<close>

theorem session_stays_consistent:
  assumes "hydrate_session sn expected pname pversion = Inr s \<or> s = fresh_session sid g t"
  shows "session_consistent (run_events session_step s es)"
proof (rule sess.inv_run)
  show "session_consistent s"
    using assms hydrate_consistent fresh_consistent by blast
qed

definition sample_goal :: goal where
  "sample_goal = \<lparr>g_description = ''d'', g_success_criteria = [], g_id = ''g'', g_status = GoalRunning,
     g_created_at = 0\<rparr>"

theorem session_stays_consistent_witness:
  "session_consistent (run_events session_step (fresh_session ''s'' sample_goal sample_root)
     [EvCompleteCurrent, EvStartNext, EvFinish, EvCancel ''stop''])"
  by (rule session_stays_consistent [of undefined undefined undefined undefined _ "''s''" sample_goal sample_root])
    simp

subsection \<open>Ending a goal\<close>

definition evaluator_authorised :: "session \<Rightarrow> bool" where
  "evaluator_authorised s \<longleftrightarrow> \<not> has_unfinished (ss_tasks s)
     \<and> t_status (as_current_task (ss_state s)) = TaskCompleted
     \<and> (case as_latest_evaluation (ss_state s) of None \<Rightarrow> False
        | Some ev \<Rightarrow> er_status ev = EvalCompleted \<and> er_task_completed ev \<and> er_goal_completed ev)"

lemma finish_authorised:
  "evaluator_authorised s \<Longrightarrow> xr_status (tr_result (fst (finish s))) = ExecCompleted"
  by (cases "as_latest_evaluation (ss_state s)")
    (auto simp: finish_def Let_def build_result_def evaluator_authorised_def)


subsection \<open>Cancelling\<close>

lemma map_of_map_ran: "map_of (map_ran (\<lambda>_. f) d) k = map_option f (map_of d k)"
  by (induction d) auto

text \<open>Cancelling a session ends everything: the goal is cancelled, no action is left pending,
  and no task is unfinished. Tasks that had already ended keep their status, all others become
  cancelled; nothing is added to the graph or removed from it.\<close>

theorem cancel_ends_everything:
  "let (tr, s') = cancel_session_run reason s in
     xr_status (tr_result tr) = ExecCancelled
     \<and> g_status (as_goal (ss_state s')) = GoalCancelled \<and> as_pending_action (ss_state s') = None
     \<and> \<not> has_unfinished (ss_tasks s')
     \<and> map_of (tm_tasks (ss_tasks s')) k = map_option (\<lambda>t. if task_terminal (t_status t) then t
          else t\<lparr>t_status := TaskCancelled\<rparr>) (map_of (tm_tasks (ss_tasks s)) k)
     \<and> tm_dependencies (ss_tasks s') = tm_dependencies (ss_tasks s) \<and> tm_order (ss_tasks s') = tm_order (ss_tasks s)"
proof -
  have "\<not> has_unfinished (cancel_open m)" for m
    by (auto simp: has_unfinished_def cancel_open_def list_ex_iff map_ran_def task_terminal_def
        split: if_splits)
  then show ?thesis
    by (simp add: cancel_session_run_def Let_def build_result_def sync_current_task_def set_goal_status_def)
      (simp add: cancel_open_def map_of_map_ran)
qed

subsection \<open>Read-only sessions\<close>

text \<open>A read-only session is offered no mutation and executes none: with capability names
  unique, as the registry keeps them, the list offered to the model has no mutation capability,
  every input contract offered belongs to an offered capability, and an execute decision that
  names a mutation is refused as denied by policy, whether it was offered or not.\<close>

theorem read_only_session_mutates_nothing:
  assumes "as_read_only st" and "distinct (map cap_name caps)"
    and "c \<in> set caps" and "cap_category c = CatMutation"
    and "d_type d = Execute" and "d_capability d = Some (cap_name c)"
  shows "(let (offered, ks) = constrain_capability_context st caps contracts in
      (\<forall>x \<in> set offered. cap_category x \<noteq> CatMutation) \<and> cap_name c \<notin> cap_name ` set offered
      \<and> cic_capability ` set ks \<subseteq> cap_name ` set offered)
    \<and> validate_session_constraints st d caps =
        Some (POLICY_DENIED, ''read-only session cannot execute mutation capability: '' @ cap_name c)"
proof -
  have inj: "x = y" if "x \<in> set caps" "y \<in> set caps" "cap_name x = cap_name y" for x y
    using assms(2) that by (auto simp: distinct_map inj_on_def)
  have "find (\<lambda>x. cap_name x = cap_name c) caps = Some c"
  proof (cases "find (\<lambda>x. cap_name x = cap_name c) caps")
    case None
    then show ?thesis using assms(3) by (auto simp: find_None_iff)
  next
    case (Some y)
    then have "y \<in> set caps" "cap_name y = cap_name c" by (auto simp: find_Some_iff)
    with Some inj assms(3) show ?thesis by blast
  qed
  then have "validate_session_constraints st d caps =
      Some (POLICY_DENIED, ''read-only session cannot execute mutation capability: '' @ cap_name c)"
    using assms by (simp add: validate_session_constraints_def or_empty_def)
  moreover have "\<forall>x \<in> set (fst (constrain_capability_context st caps contracts)). cap_category x \<noteq> CatMutation"
    using assms(1) inj by (auto simp: constrain_capability_context_def Let_def)
  moreover have "cic_capability ` set (snd (constrain_capability_context st caps contracts))
      \<subseteq> cap_name ` set (fst (constrain_capability_context st caps contracts))"
    using assms(1) by (force simp: constrain_capability_context_def Let_def)
  moreover have "cap_name c \<notin> cap_name ` set (fst (constrain_capability_context st caps contracts))"
    using assms(1,3,4) inj by (fastforce simp: constrain_capability_context_def Let_def)
  ultimately show ?thesis by (simp add: case_prod_beta)
qed

definition sample_caps :: "capability_definition list" where
  "sample_caps =
     [\<lparr>cap_name = ''look'', cap_description = '''', cap_category = CatObservation, cap_risk = RiskLow\<rparr>,
      \<lparr>cap_name = ''drop'', cap_description = '''', cap_category = CatMutation, cap_risk = RiskHigh\<rparr>]"

definition sample_decision :: decision where
  "sample_decision = \<lparr>d_type = Execute, d_reason = ''r'', d_capability = Some ''drop'', d_target = None,
     d_arguments = [], d_expected_observations = [''o''], d_message = None\<rparr>"

definition read_only_state :: agent_state where
  "read_only_state = fresh_state ''s'' sample_goal sample_root True"

theorem read_only_session_mutates_nothing_witness:
  "map cap_name (fst (constrain_capability_context read_only_state sample_caps [])) = [''look'']
   \<and> validate_session_constraints read_only_state sample_decision sample_caps =
      Some (POLICY_DENIED, ''read-only session cannot execute mutation capability: drop'')"
  using read_only_session_mutates_nothing [of read_only_state sample_caps
      "\<lparr>cap_name = ''drop'', cap_description = '''', cap_category = CatMutation, cap_risk = RiskHigh\<rparr>"
      sample_decision "[]"]
  by (simp add: read_only_state_def fresh_state_def sample_caps_def sample_decision_def
      constrain_capability_context_def)

subsection \<open>Decisions\<close>

lemma normalize_simps:
  "d_type (normalize_runtime_decision d) = d_type d" "d_reason (normalize_runtime_decision d) = d_reason d"
  "d_message (normalize_runtime_decision d) = d_message d"
  "d_type d \<noteq> Finish \<Longrightarrow> normalize_runtime_decision d = d"
  "d_type d = Finish \<Longrightarrow> decision_validate (normalize_runtime_decision d) = None \<longleftrightarrow> \<not> blank (d_reason d)"
  "normalize_runtime_decision (normalize_runtime_decision d) = normalize_runtime_decision d"
  by (auto simp: normalize_runtime_decision_def decision_validate_def)

text \<open>C25. What a decision engine returns is always a valid decision, whatever the model or the rules
  answer: an answer is passed on unchanged if it is valid; a finish decision loses the action
  fields it echoes and is then valid exactly when it has a reason; anything else raises. The
  rule engine answers with the first rule that has an opinion.\<close>

theorem decision_engines_return_valid:
  "(case model_backed_decide answer of
      Inl _ \<Rightarrow> isl answer \<or> (\<exists>d. answer = Inr d \<and> decision_validate (normalize_runtime_decision d) \<noteq> None)
    | Inr d' \<Rightarrow> decision_validate d' = None \<and> (\<exists>d. answer = Inr d \<and> d_type d' = d_type d \<and> d_reason d' = d_reason d
        \<and> (if d_type d = Finish then d_capability d' = None \<and> d_target d' = None \<and> d_arguments d' = [] else d' = d)))
   \<and> rule_based_decide (map (\<lambda>r. \<lambda>_::unit. r) rules) (Some (\<lambda>_. model_backed_decide answer)) () =
      (case List.map_filter id rules of [] \<Rightarrow> model_backed_decide answer
       | d # _ \<Rightarrow> (case decision_validate (normalize_runtime_decision d) of
            Some e \<Rightarrow> Inl (''rule produced an invalid decision: '' @ e)
          | None \<Rightarrow> Inr (normalize_runtime_decision d)))"
  (is "?A \<and> ?B")
proof
  show ?A
    by (auto simp: model_backed_decide_def Let_def normalize_simps normalize_runtime_decision_def
        split: sum.splits option.splits)
  show ?B by (induction rules) (auto simp: map_filter_simps Let_def split: option.splits)
qed

end
