(* ===== verification/Capabilities.thy ===== *)
theory Capabilities
  imports Session_Safety
begin

text \<open>
  Which capability a decision may name and which tool carries it out: \<open>tools/runtime.py\<close>,
  \<open>capability/registry.py\<close> and \<open>runtime/capabilities.py\<close>. What a tool does when it runs is
  the domain's; a tool is its definition and a function from arguments to an outcome. The
  JSON-schema check (\<open>jsonschema\<close>, behind \<open>core/arguments.py\<close>) and the resolution of secrets
  are parameters.
\<close>

subsection \<open>Tools\<close>

text \<open>How awaiting \<open>tool.execute\<close> under its timeout ends.\<close>

datatype tool_run = Returned json_mapping | RunTimeout | RunUncertain string
  | RunPermission string | RunRaised string

record tool =
  tl_definition :: tool_definition
  tl_execute :: "json_mapping \<Rightarrow> tool_run"

record tool_registration =
  tg_tool :: tool
  tg_domain :: "domain_identity option"

type_synonym tool_registry = "(string, tool_registration) dict"

datatype registry_error = RegValueErr string | DuplicateErr string | UnknownToolErr string
  | UnknownCapabilityErr string | CapabilityUnavailableErr string

definition register_tool :: "tool \<Rightarrow> domain_identity option \<Rightarrow> tool_registry
    \<Rightarrow> (tool_registry, registry_error, unit) outcome" where
  "register_tool t owner r =
     (let name = tool_name (tl_definition t) in
      check_op (map_error RegValueErr (parse_non_empty_string name ''tool name'')) r (\<lambda>_.
        if tool_capabilities (tl_definition t) = [] then
          (Inl (RegValueErr (''tool must implement at least one capability: '' @ name)), r)
        else if map_of r name \<noteq> None then (Inl (DuplicateErr (''tool already registered: '' @ name)), r)
        else (Inr (), AList.update name \<lparr>tg_tool = t, tg_domain = owner\<rparr> r)))"

definition resolve_tool :: "tool_registry \<Rightarrow> string \<Rightarrow> registry_error + tool_registration" where
  "resolve_tool r name = (case map_of r name of
     None \<Rightarrow> Inl (UnknownToolErr (''unknown tool: '' @ name)) | Some x \<Rightarrow> Inr x)"

definition tools_for_capability :: "tool_registry \<Rightarrow> string \<Rightarrow> tool_registration list" where
  "tools_for_capability r c =
     filter (\<lambda>x. c \<in> set (tool_capabilities (tl_definition (tg_tool x)))) (dict_values r)"

definition list_tools :: "tool_registry \<Rightarrow> tool list" where
  "list_tools r = map tg_tool (sort_key (\<lambda>x. tool_name (tl_definition (tg_tool x))) (dict_values r))"

subsection \<open>Argument contracts\<close>

text \<open>\<open>validate_argument_contract\<close>: the required names, then the schema when there is one.\<close>

definition validate_argument_contract :: "(json_mapping \<Rightarrow> json_mapping \<Rightarrow> string option)
    \<Rightarrow> string list \<Rightarrow> json_mapping \<Rightarrow> json_mapping \<Rightarrow> string option" where
  "validate_argument_contract schema_error required schema args =
     (let missing = filter (\<lambda>n. n \<notin> set (dict_keys args)) required in
      if missing \<noteq> [] then Some (''missing required arguments: '' @ join_str '', '' missing)
      else if schema = [] then None else schema_error schema args)"

definition failed_result :: "string \<Rightarrow> error_code \<Rightarrow> tool_result" where
  "failed_result e c = \<lparr>tr_status = ObsFailed, tr_output = [], tr_error = Some e, tr_error_code = Some c\<rparr>"

definition domain_text :: "domain_identity \<Rightarrow> string" where
  "domain_text d = dom_name d @ ''@'' @ dom_version d"

text \<open>
  \<open>ToolRuntime.execute\<close>: the checks before the tool runs, which give the result of a refusal or
  the tool with its resolved arguments, and what is made of the way the run ends.
\<close>

definition tool_gate :: "(json_mapping \<Rightarrow> json_mapping \<Rightarrow> string option)
    \<Rightarrow> (json_mapping \<Rightarrow> string + json_mapping) \<Rightarrow> tool_registry \<Rightarrow> tool_call
    \<Rightarrow> tool_result + tool \<times> json_mapping" where
  "tool_gate schema_error secrets r call =
     (case resolve_tool r (tc_tool_name call) of
        Inl _ \<Rightarrow> Inl (failed_result (''unknown tool: '' @ tc_tool_name call) UNKNOWN_TOOL)
      | Inr reg \<Rightarrow>
          let t = tg_tool reg; d = tl_definition t in
          if (case tg_domain reg of None \<Rightarrow> False | Some i \<Rightarrow>
                (tc_domain_name call \<noteq> [] \<or> tc_domain_version call \<noteq> [])
                \<and> (tc_domain_name call \<noteq> dom_name i \<or> tc_domain_version call \<noteq> dom_version i))
          then Inl (failed_result (''tool domain mismatch: '' @ tc_domain_name call @ ''@'' @ tc_domain_version call
                 @ '' != '' @ domain_text (the (tg_domain reg))) VALIDATION_ERROR)
          else if tc_capability call \<notin> set (tool_capabilities d) then
            Inl (failed_result (''tool does not implement capability: '' @ tc_capability call) VALIDATION_ERROR)
          else (case secrets (tc_arguments call) of
            Inl e \<Rightarrow> Inl (failed_result e VALIDATION_ERROR)
          | Inr args \<Rightarrow>
              (case validate_argument_contract schema_error (tool_required_arguments d) (tool_argument_schema d) args of
                 Some e \<Rightarrow> Inl (failed_result e VALIDATION_ERROR)
               | None \<Rightarrow> Inr (t, args))))"

definition run_result :: "tool_call \<Rightarrow> tool_run \<Rightarrow> tool_result" where
  "run_result call ending = (case ending of
     RunTimeout \<Rightarrow> \<lparr>tr_status = ObsTimedOut, tr_output = [],
       tr_error = Some (''tool timed out: '' @ tc_tool_name call), tr_error_code = Some TIMEOUT\<rparr>
   | RunUncertain m \<Rightarrow> \<lparr>tr_status = ObsUnknown, tr_output = [],
       tr_error = Some (''tool outcome unknown: '' @ m), tr_error_code = Some UNKNOWN_EXECUTION\<rparr>
   | RunPermission m \<Rightarrow> failed_result (''tool denied: '' @ m) PERMISSION_DENIED
   | RunRaised m \<Rightarrow> failed_result (''tool failed: '' @ m) TOOL_FAILURE
   | Returned out \<Rightarrow> \<lparr>tr_status = ObsSucceeded, tr_output = out, tr_error = None, tr_error_code = None\<rparr>)"

definition tool_runtime_execute :: "(json_mapping \<Rightarrow> json_mapping \<Rightarrow> string option)
    \<Rightarrow> (json_mapping \<Rightarrow> string + json_mapping) \<Rightarrow> tool_registry \<Rightarrow> tool_call \<Rightarrow> tool_result" where
  "tool_runtime_execute schema_error secrets r call =
     (case tool_gate schema_error secrets r call of
        Inl refused \<Rightarrow> refused | Inr (t, args) \<Rightarrow> run_result call (tl_execute t args))"

subsection \<open>Capabilities\<close>

record capability_registration =
  cr_definition :: capability_definition
  cr_domain :: "domain_identity option"

type_synonym capability_registry = "(string, capability_registration) dict"

record capability_resolution =
  rs_capability :: capability_definition
  rs_tool :: tool
  rs_capability_domain :: "domain_identity option"
  rs_tool_domain :: "domain_identity option"

definition register_capability :: "capability_definition \<Rightarrow> domain_identity option \<Rightarrow> capability_registry
    \<Rightarrow> (capability_registry, registry_error, unit) outcome" where
  "register_capability c owner r =
     check_op (map_error RegValueErr (parse_non_empty_string (cap_name c) ''capability name'')) r (\<lambda>_.
       if map_of r (cap_name c) \<noteq> None then
         (Inl (DuplicateErr (''capability already registered: '' @ cap_name c)), r)
       else (Inr (), AList.update (cap_name c) \<lparr>cr_definition = c, cr_domain = owner\<rparr> r))"

definition resolve_capability :: "capability_registry \<Rightarrow> string \<Rightarrow> registry_error + capability_registration" where
  "resolve_capability r name = (case map_of r name of
     None \<Rightarrow> Inl (UnknownCapabilityErr (''unknown capability: '' @ name)) | Some x \<Rightarrow> Inr x)"

definition list_capabilities :: "capability_registry \<Rightarrow> capability_definition list" where
  "list_capabilities r = map cr_definition (sort_key (\<lambda>x. cap_name (cr_definition x)) (dict_values r))"

definition tool_rank :: "tool_registration \<Rightarrow> int \<times> string" where
  "tool_rank x = (tool_priority (tl_definition (tg_tool x)), tool_name (tl_definition (tg_tool x)))"

text \<open>\<open>min(candidates, key=...)\<close>: the first of the least ones, as the head of the stable sort.\<close>

definition best_tool :: "tool_registration list \<Rightarrow> tool_registration" where
  "best_tool xs = hd (sort_key tool_rank xs)"

definition domains_match :: "capability_registration \<Rightarrow> tool_registration \<Rightarrow> bool" where
  "domains_match c t \<longleftrightarrow> cr_domain c = None \<or> tg_domain t = None \<or> cr_domain c = tg_domain t"

definition resolve_registration :: "capability_registry \<Rightarrow> tool_registry \<Rightarrow> string
    \<Rightarrow> registry_error + capability_resolution" where
  "resolve_registration caps tools name =
     (case resolve_capability caps name of Inl e \<Rightarrow> Inl e | Inr c \<Rightarrow>
        let candidates = tools_for_capability tools name in
        if candidates = [] then Inl (CapabilityUnavailableErr (''no tool implements capability: '' @ name))
        else let t = best_tool candidates in
          if \<not> domains_match c t then
            Inl (CapabilityUnavailableErr (''capability tool domain mismatch: '' @ cap_name (cr_definition c)
              @ '' belongs to '' @ domain_text (the (cr_domain c)) @ '', but tool ''
              @ tool_name (tl_definition (tg_tool t)) @ '' belongs to '' @ domain_text (the (tg_domain t))))
          else Inr \<lparr>rs_capability = cr_definition c, rs_tool = tg_tool t,
                     rs_capability_domain = cr_domain c, rs_tool_domain = tg_domain t\<rparr>)"

subsection \<open>The advisor\<close>

definition capability_context :: "capability_registry \<Rightarrow> tool_registry
    \<Rightarrow> capability_definition list \<times> capability_input_contract list" where
  "capability_context caps tools =
     (let ok = List.map_filter (\<lambda>c. case resolve_registration caps tools (cap_name c) of
                 Inl _ \<Rightarrow> None | Inr r \<Rightarrow> Some (c, tl_definition (rs_tool r))) (list_capabilities caps)
      in (map fst ok, map (\<lambda>(c, d). \<lparr>cic_capability = cap_name c,
            cic_required_arguments = tool_required_arguments d,
            cic_argument_schema = tool_argument_schema d\<rparr>) ok))"

text \<open>\<open>validate_decision_context\<close>: the dictionary of contracts keeps the last one of a name.\<close>

definition validate_decision_context :: "(json_mapping \<Rightarrow> json_mapping \<Rightarrow> string option)
    \<Rightarrow> capability_registry \<Rightarrow> decision \<Rightarrow> capability_definition list \<Rightarrow> capability_input_contract list
    \<Rightarrow> (error_code \<times> string) option" where
  "validate_decision_context schema_error caps d offered contracts =
     (if d_type d \<noteq> Execute then None
      else let c = or_empty (d_capability d) in
        if c \<in> set (map cap_name offered) then
          (case map_of (rev (map (\<lambda>k. (cic_capability k, k)) contracts)) c of
             None \<Rightarrow> None
           | Some k \<Rightarrow>
               map_option (\<lambda>e. (VALIDATION_ERROR, ''invalid decision arguments for capability '' @ c @ '': '' @ e))
                 (validate_argument_contract schema_error (cic_required_arguments k) (cic_argument_schema k)
                    (d_arguments d)))
        else (case resolve_capability caps c of
                Inl _ \<Rightarrow> Some (UNKNOWN_CAPABILITY, ''unknown capability: '' @ c)
              | Inr _ \<Rightarrow> Some (NO_CAPABILITY_TOOL,
                  ''capability is not executable in current context: '' @ c)))"

subsection \<open>The registries\<close>

definition tools_wf :: "tool_registry \<Rightarrow> bool" where
  "tools_wf r \<longleftrightarrow> dict_wf r \<and> (\<forall>(n, x) \<in> set r. tool_name (tl_definition (tg_tool x)) = n \<and> n \<noteq> [])"

definition caps_wf :: "capability_registry \<Rightarrow> bool" where
  "caps_wf r \<longleftrightarrow> dict_wf r \<and> (\<forall>(n, x) \<in> set r. cap_name (cr_definition x) = n \<and> n \<noteq> [])"

lemma tools_wf_register: "tools_wf r \<Longrightarrow> tools_wf (snd (register_tool t owner r))"
  by (auto simp: register_tool_def Let_def tools_wf_def dict_simps parse_non_empty_string_def
      check_op_def map_error_def)

lemma caps_wf_register: "caps_wf r \<Longrightarrow> caps_wf (snd (register_capability c owner r))"
  by (auto simp: register_capability_def caps_wf_def dict_simps parse_non_empty_string_def
      check_op_def map_error_def)

lemma caps_wf_name: "caps_wf r \<Longrightarrow> map_of r n = Some x \<Longrightarrow> cap_name (cr_definition x) = n"
  by (drule map_of_SomeD) (auto simp: caps_wf_def)

lemma caps_wf_names:
  assumes "caps_wf r"
  shows "distinct (map cap_name (list_capabilities r))"
    and "set (map cap_name (list_capabilities r)) = set (dict_keys r)"
proof -
  let ?name = "\<lambda>x. cap_name (cr_definition x)"
  have keys: "map ?name (dict_values r) = dict_keys r" using assms by (auto simp: caps_wf_def)
  have "distinct (map ?name (dict_values r))" using assms unfolding keys by (simp add: caps_wf_def)
  then have "distinct (dict_values r)" "inj_on ?name (set (dict_values r))"
    using distinct_map [of ?name "dict_values r"] by blast+
  then have "distinct (map ?name (sort_key ?name (dict_values r)))"
    by (simp add: distinct_map)
  then show "distinct (map cap_name (list_capabilities r))"
    by (simp add: list_capabilities_def comp_def)
  show "set (map cap_name (list_capabilities r)) = set (dict_keys r)"
    unfolding keys [symmetric] by (simp add: list_capabilities_def image_image del: map_map)
qed

lemma list_capabilities_set:
  "c \<in> set (list_capabilities r) \<longleftrightarrow> (\<exists>x \<in> set (dict_values r). cr_definition x = c)"
  by (auto simp: list_capabilities_def)

text \<open>The resolver answers with the tool of least priority number, then least name, among those
  that implement the capability, and only when capability and tool do not belong to different
  domains. It refuses exactly when the capability is not registered, no tool implements it, or
  that tool is of another domain; it never falls back to a worse tool.\<close>

theorem resolver_picks_best_tool:
  assumes "caps_wf caps" and "tools_wf tools"
  shows "case resolve_registration caps tools name of
      Inr r \<Rightarrow> cap_name (rs_capability r) = name \<and> name \<in> set (tool_capabilities (tl_definition (rs_tool r)))
        \<and> (\<exists>x. map_of tools (tool_name (tl_definition (rs_tool r))) = Some x \<and> tg_tool x = rs_tool r
             \<and> tg_domain x = rs_tool_domain r
             \<and> (\<forall>y \<in> set (tools_for_capability tools name). tool_rank x \<le> tool_rank y))
        \<and> (rs_capability_domain r = None \<or> rs_tool_domain r = None \<or> rs_capability_domain r = rs_tool_domain r)
    | Inl e \<Rightarrow> (case e of
          UnknownCapabilityErr _ \<Rightarrow> map_of caps name = None
        | CapabilityUnavailableErr _ \<Rightarrow> tools_for_capability tools name = []
            \<or> (\<exists>c. map_of caps name = Some c \<and> \<not> domains_match c (best_tool (tools_for_capability tools name)))
        | _ \<Rightarrow> False)"
proof (cases "map_of caps name")
  case None
  then show ?thesis by (simp add: resolve_registration_def resolve_capability_def)
next
  case (Some c)
  let ?xs = "tools_for_capability tools name"
  let ?t = "best_tool ?xs"
  show ?thesis
  proof (cases "?xs = [] \<or> \<not> domains_match c ?t")
    case True
    then show ?thesis using Some by (auto simp: resolve_registration_def resolve_capability_def Let_def)
  next
    case False
    then have t: "?t \<in> set ?xs" and least: "\<And>y. y \<in> set ?xs \<Longrightarrow> tool_rank ?t \<le> tool_rank y"
      unfolding best_tool_def by (auto simp: hd_sort_key)
    have "?t \<in> set (dict_values tools)" using t by (auto simp: tools_for_capability_def)
    then obtain n where "(n, ?t) \<in> set tools" by auto
    then have "map_of tools (tool_name (tl_definition (tg_tool ?t))) = Some ?t"
      using assms(2) by (auto simp: tools_wf_def)
    moreover have "name \<in> set (tool_capabilities (tl_definition (tg_tool ?t)))"
      using t by (simp add: tools_for_capability_def)
    moreover have "cap_name (cr_definition c) = name" using caps_wf_name [OF assms(1) Some] .
    ultimately show ?thesis using False Some least
      by (auto simp: resolve_registration_def resolve_capability_def Let_def domains_match_def)
  qed
qed

definition echo_tool :: "string \<Rightarrow> string list \<Rightarrow> int \<Rightarrow> side_effect \<Rightarrow> tool" where
  "echo_tool name caps prio eff = \<lparr>tl_definition = \<lparr>tool_name = name, tool_description = [],
     tool_capabilities = caps, tool_required_arguments = [''x''], tool_side_effect = eff,
     tool_risk = RiskLow, tool_timeout_seconds = 30, tool_priority = prio, tool_argument_schema = []\<rparr>,
     tl_execute = Returned\<rparr>"

definition sample_tools :: tool_registry where
  "sample_tools = snd (register_tool (echo_tool ''b'' [''look''] 1 EffNone) None
     (snd (register_tool (echo_tool ''a'' [''look'', ''drop''] 2 EffDestructive) None [])))"

definition sample_registry :: capability_registry where
  "sample_registry = snd (register_capability (sample_caps ! 1) None
     (snd (register_capability (sample_caps ! 0) None [])))"

lemma sample_tools_wf: "tools_wf sample_tools"
  unfolding sample_tools_def by (intro tools_wf_register) (simp add: tools_wf_def)

lemma sample_registry_wf: "caps_wf sample_registry"
  unfolding sample_registry_def by (intro caps_wf_register) (simp add: caps_wf_def)

theorem resolver_picks_best_tool_witness:
  "case resolve_registration sample_registry sample_tools ''look'' of Inl _ \<Rightarrow> False
   | Inr r \<Rightarrow> tool_name (tl_definition (rs_tool r)) = ''b'' \<and> cap_name (rs_capability r) = ''look''"
proof -
  have 1: "\<not> isl (resolve_registration sample_registry sample_tools ''look'')"
    and 2: "tool_name (tl_definition (rs_tool (projr (resolve_registration sample_registry sample_tools ''look'')))) = ''b''"
    by code_simp+
  from 1 obtain r where "resolve_registration sample_registry sample_tools ''look'' = Inr r"
    by (cases "resolve_registration sample_registry sample_tools ''look''") auto
  then show ?thesis
    using 2 resolver_picks_best_tool [OF sample_registry_wf sample_tools_wf, of "''look''"] by simp
qed

subsection \<open>What is offered can be executed\<close>

lemma set_map_filter: "y \<in> set (List.map_filter f xs) \<longleftrightarrow> (\<exists>x \<in> set xs. f x = Some y)"
  by (force simp: List.map_filter_def)

definition executable_pairs :: "capability_registry \<Rightarrow> tool_registry
    \<Rightarrow> (capability_definition \<times> tool_definition) list" where
  "executable_pairs caps tools =
     List.map_filter (\<lambda>c. case resolve_registration caps tools (cap_name c) of
                 Inl _ \<Rightarrow> None | Inr r \<Rightarrow> Some (c, tl_definition (rs_tool r))) (list_capabilities caps)"

lemma executable_pairs_iff:
  "(c, d) \<in> set (executable_pairs caps tools) \<longleftrightarrow> c \<in> set (list_capabilities caps)
     \<and> (\<exists>r. resolve_registration caps tools (cap_name c) = Inr r \<and> d = tl_definition (rs_tool r))"
proof -
  have "(case resolve_registration caps tools (cap_name x) of
            Inl _ \<Rightarrow> None | Inr r \<Rightarrow> Some (x, tl_definition (rs_tool r))) = Some (c, d) \<longleftrightarrow>
      x = c \<and> (\<exists>r. resolve_registration caps tools (cap_name c) = Inr r \<and> d = tl_definition (rs_tool r))" for x
    by (cases "resolve_registration caps tools (cap_name x)") auto
  then show ?thesis unfolding executable_pairs_def set_map_filter by (simp only:) blast
qed

definition contract_of :: "capability_definition \<times> tool_definition \<Rightarrow> capability_input_contract" where
  "contract_of p = \<lparr>cic_capability = cap_name (fst p), cic_required_arguments = tool_required_arguments (snd p),
     cic_argument_schema = tool_argument_schema (snd p)\<rparr>"

lemma capability_context_eq:
  "capability_context caps tools =
     (map fst (executable_pairs caps tools), map contract_of (executable_pairs caps tools))"
  by (simp add: capability_context_def executable_pairs_def Let_def contract_of_def case_prod_beta)

text \<open>What the advisor offers can be carried out, and what it lets pass fits the tool. An execute
  decision that passes the context gate, against the capabilities and contracts as constrained
  for the session, names a capability that the resolver resolves, and its arguments satisfy the
  contract of the very tool it resolves to: every required argument is given and a schema, if
  there is one, accepts them.\<close>

theorem validated_decision_is_executable:
  assumes "caps_wf caps" and "tools_wf tools"
    and "constrain_capability_context st (fst (capability_context caps tools))
           (snd (capability_context caps tools)) = (offered, contracts)"
    and "d_type d = Execute"
    and "validate_decision_context schema_error caps d offered contracts = None"
  shows "\<exists>r. resolve_registration caps tools (or_empty (d_capability d)) = Inr r
    \<and> set (tool_required_arguments (tl_definition (rs_tool r))) \<subseteq> set (dict_keys (d_arguments d))
    \<and> (tool_argument_schema (tl_definition (rs_tool r)) = []
       \<or> schema_error (tool_argument_schema (tl_definition (rs_tool r))) (d_arguments d) = None)"
proof -
  let ?c = "or_empty (d_capability d)"
  let ?all = "capability_context caps tools"
  have "?c \<in> set (map cap_name offered)"
    using assms(4,5) by (auto simp: validate_decision_context_def Let_def split: sum.splits if_splits)
  then obtain c where c: "c \<in> set offered" "cap_name c = ?c" by auto
  have sub: "set offered \<subseteq> set (fst ?all)" "set contracts \<subseteq> set (snd ?all)"
    "\<And>k. k \<in> set (snd ?all) \<Longrightarrow> cic_capability k \<in> cap_name ` set offered \<Longrightarrow> k \<in> set contracts"
    using assms(3) by (auto simp: constrain_capability_context_def Let_def split: if_splits)
  let ?ps = "executable_pairs caps tools"
  from c sub(1) obtain e where "(c, e) \<in> set ?ps" by (auto simp: capability_context_eq)
  then obtain r where r: "resolve_registration caps tools ?c = Inr r" and cr: "(c, tl_definition (rs_tool r)) \<in> set ?ps"
    using c(2) by (auto simp: executable_pairs_iff)
  let ?k = "contract_of (c, tl_definition (rs_tool r))"
  have "?k \<in> set (snd ?all)" using cr by (force simp: capability_context_eq)
  then have mem: "?k \<in> set contracts" using sub(3) c(1) by (simp add: contract_of_def)
  have only: "k = ?k" if "k \<in> set contracts" "cic_capability k = ?c" for k
  proof -
    from that sub(2) obtain c' d' where k: "(c', d') \<in> set ?ps" "k = contract_of (c', d')"
      by (auto simp: capability_context_eq)
    then show ?thesis using that(2) r c(2) by (auto simp: executable_pairs_iff contract_of_def)
  qed
  have "?c \<in> set (dict_keys (rev (map (\<lambda>k. (cic_capability k, k)) contracts)))"
    using imageI [OF mem, of cic_capability] c(2) by (simp add: contract_of_def image_image)
  then obtain k where k: "map_of (rev (map (\<lambda>k. (cic_capability k, k)) contracts)) ?c = Some k"
    using not_key by (metis not_None_eq)
  then have "k = ?k" using only map_of_SomeD [OF k] by auto
  moreover have "?c \<in> cap_name ` set offered" using c by force
  ultimately have "validate_argument_contract schema_error (cic_required_arguments ?k)
      (cic_argument_schema ?k) (d_arguments d) = None"
    using k assms(4,5) by (simp add: validate_decision_context_def Let_def)
  then have "set (tool_required_arguments (tl_definition (rs_tool r))) \<subseteq> set (dict_keys (d_arguments d))"
    "tool_argument_schema (tl_definition (rs_tool r)) = []
     \<or> schema_error (tool_argument_schema (tl_definition (rs_tool r))) (d_arguments d) = None"
    by (auto simp: contract_of_def validate_argument_contract_def Let_def filter_empty_conv split: if_splits)
  with r show ?thesis by blast
qed

theorem validated_decision_is_executable_witness:
  "let d = sample_decision\<lparr>d_arguments := [(''x'', JInt 1)]\<rparr> in
   \<exists>r. resolve_registration sample_registry sample_tools ''drop'' = Inr r
     \<and> set (tool_required_arguments (tl_definition (rs_tool r))) \<subseteq> {''x''}"
proof -
  let ?st = "read_only_state\<lparr>as_read_only := False\<rparr>"
  let ?d = "sample_decision\<lparr>d_arguments := [(''x'', JInt 1)]\<rparr>"
  have 1: "constrain_capability_context ?st (fst (capability_context sample_registry sample_tools))
      (snd (capability_context sample_registry sample_tools)) =
      (fst (capability_context sample_registry sample_tools), snd (capability_context sample_registry sample_tools))"
    by (simp add: constrain_capability_context_def)
  have 2: "validate_decision_context (\<lambda>_ _. None) sample_registry ?d
      (fst (capability_context sample_registry sample_tools))
      (snd (capability_context sample_registry sample_tools)) = None"
    by code_simp
  show ?thesis
    using validated_decision_is_executable [OF sample_registry_wf sample_tools_wf 1 _ 2]
    by (simp add: sample_decision_def or_empty_def)
qed

end
