(* ===== verification/Policy.thy ===== *)
theory Policy
  imports Core_Models
begin

text \<open>
  The policy engine, \<open>policy/engine.py\<close>. A policy is anything with a name and an evaluation
  (a \<open>Protocol\<close>): the record \<open>policy\<close> with its function; \<open>PolicyRule\<close> is the one the source
  defines.
\<close>

record policy =
  po_name :: string
  po_evaluate :: "policy_context \<Rightarrow> policy_result option"

record policy_rule =
  pl_name :: string
  pl_effect :: policy_effect
  pl_reason :: string
  pl_capabilities :: "string list"
  pl_categories :: "capability_category list"
  pl_risks :: "risk_level list"

definition rule_evaluate :: "policy_rule \<Rightarrow> policy_context \<Rightarrow> policy_result option" where
  "rule_evaluate r c =
     (if pl_capabilities r \<noteq> [] \<and> cap_name (pc_capability c) \<notin> set (pl_capabilities r) then None
      else if pl_categories r \<noteq> [] \<and> cap_category (pc_capability c) \<notin> set (pl_categories r) then None
      else if pl_risks r \<noteq> [] \<and> tool_risk (pc_tool c) \<notin> set (pl_risks r) then None
      else Some \<lparr>pr_effect = pl_effect r, pr_reason = pl_reason r, pr_policy_name = pl_name r\<rparr>)"

definition rule_policy :: "policy_rule \<Rightarrow> policy" where
  "rule_policy r = \<lparr>po_name = pl_name r, po_evaluate = rule_evaluate r\<rparr>"

definition policy_summary :: "policy list \<Rightarrow> string list" where
  "policy_summary ps = map po_name ps"

definition policy_results :: "policy list \<Rightarrow> policy_context \<Rightarrow> policy_result list" where
  "policy_results ps c = List.map_filter (\<lambda>p. po_evaluate p c) ps"

definition first_effect :: "policy_effect \<Rightarrow> policy_result list \<Rightarrow> policy_result option" where
  "first_effect e rs = find (\<lambda>r. pr_effect r = e) rs"

text \<open>\<open>PolicyEngine.check\<close>\<close>

definition policy_check :: "policy list \<Rightarrow> policy_context \<Rightarrow> policy_result" where
  "policy_check ps c =
     (let results = policy_results ps c in
      case first_effect Deny results of Some d \<Rightarrow> d | None \<Rightarrow>
      case first_effect RequireConfirmation results of
        Some r \<Rightarrow>
          if \<not> pc_confirmed c then r
          else \<lparr>pr_effect = Allow, pr_reason = ''user confirmation satisfied'',
                pr_policy_name = pr_policy_name r\<rparr>
      | None \<Rightarrow>
      case first_effect Allow results of Some r \<Rightarrow> r | None \<Rightarrow>
        if cap_category (pc_capability c) = CatMutation
        then \<lparr>pr_effect = Deny, pr_reason = ''mutation capability has no explicit allow policy'',
              pr_policy_name = ''mutation-default-deny''\<rparr>
        else \<lparr>pr_effect = Allow, pr_reason = ''read-only capability allowed'',
              pr_policy_name = ''read-only-default''\<rparr>)"

subsection \<open>The abstract decision\<close>

text \<open>What some policy says about a context, and the order in which opinions count.\<close>

definition says :: "policy list \<Rightarrow> policy_context \<Rightarrow> policy_effect \<Rightarrow> bool" where
  "says ps c e \<longleftrightarrow> (\<exists>p \<in> set ps. \<exists>r. po_evaluate p c = Some r \<and> pr_effect r = e)"

definition abstract_effect :: "(policy_effect \<Rightarrow> bool) \<Rightarrow> bool \<Rightarrow> capability_category \<Rightarrow> policy_effect" where
  "abstract_effect said confirmed category =
     (if said Deny then Deny
      else if said RequireConfirmation then (if confirmed then Allow else RequireConfirmation)
      else if said Allow \<or> category \<noteq> CatMutation then Allow else Deny)"

lemma set_policy_results:
  "set (policy_results ps c) = {r. \<exists>p \<in> set ps. po_evaluate p c = Some r}"
  by (induction ps) (auto simp: policy_results_def map_filter_simps split: option.splits)

lemma first_effect_None: "first_effect e (policy_results ps c) = None \<longleftrightarrow> \<not> says ps c e"
  by (auto simp: first_effect_def find_None_iff says_def set_policy_results)

lemma first_effect_Some: "first_effect e (policy_results ps c) = Some r \<Longrightarrow>
    pr_effect r = e \<and> says ps c e \<and> (\<exists>p \<in> set ps. po_evaluate p c = Some r)"
  using nth_mem [of _ "policy_results ps c"]
  by (fastforce simp: first_effect_def find_Some_iff says_def set_policy_results)

lemma says_append: "says (ps @ qs) c e \<longleftrightarrow> says ps c e \<or> says qs c e"
  by (auto simp: says_def)

lemma says_rules: "says (map rule_policy rs) c e \<longleftrightarrow>
    (\<exists>r \<in> set rs. pl_effect r = e \<and> rule_evaluate r c \<noteq> None)"
  by (force simp: says_def rule_policy_def rule_evaluate_def split: if_splits)

lemma policy_check_effect:
  "pr_effect (policy_check ps c) =
     abstract_effect (says ps c) (pc_confirmed c) (cap_category (pc_capability c))"
proof -
  let ?f = "\<lambda>e. first_effect e (policy_results ps c)"
  have none: "\<not> says ps c e" if "?f e = None" for e using that by (simp add: first_effect_None)
  show ?thesis
  proof (cases "?f Deny")
    case (Some d)
    then show ?thesis using first_effect_Some [OF Some] by (simp add: policy_check_def abstract_effect_def)
  next
    case d: None
    show ?thesis
    proof (cases "?f RequireConfirmation")
      case (Some r)
      then show ?thesis using first_effect_Some [OF Some] none [OF d] d
        by (simp add: policy_check_def abstract_effect_def)
    next
      case r: None
      show ?thesis
      proof (cases "?f Allow")
        case (Some x)
        then show ?thesis using first_effect_Some [OF Some] none [OF d] none [OF r] d r
          by (simp add: policy_check_def abstract_effect_def)
      next
        case None
        then show ?thesis using none [OF None] none [OF d] none [OF r] d r
          by (simp add: policy_check_def abstract_effect_def)
      qed
    qed
  qed
qed

text \<open>C10. The engine implements the abstract decision: the effect of \<open>check\<close> depends only on which
  effects some policy gives for the context, not on their order: a denial wins over everything;
  otherwise a confirmation is required until the user has confirmed; otherwise an allowance
  allows; and with no opinion an observation is allowed and a mutation denied.\<close>

theorem policy_check_refines:
  "pr_effect (policy_check ps c) =
     abstract_effect (says ps c) (pc_confirmed c) (cap_category (pc_capability c))"
  by (rule policy_check_effect)

text \<open>No mutation without permission: if \<open>check\<close> allows a mutation, then no policy denies it, and
  either some policy allows it, or a policy asks for confirmation and the user has confirmed;
  and adding policies can take this permission away only by denying or by asking.\<close>

theorem mutation_needs_permission:
  assumes "cap_category (pc_capability c) = CatMutation"
    and "pr_effect (policy_check ps c) = Allow"
  shows "\<not> says ps c Deny \<and> (says ps c Allow \<or> says ps c RequireConfirmation \<and> pc_confirmed c)
    \<and> (pr_effect (policy_check (ps @ qs) c) = Allow
        \<longleftrightarrow> \<not> says qs c Deny \<and> (says qs c RequireConfirmation \<longrightarrow> pc_confirmed c))"
  using assms by (auto simp: policy_check_effect abstract_effect_def says_append split: if_splits)

definition sample_context :: "capability_category \<Rightarrow> bool \<Rightarrow> policy_context" where
  "sample_context cat confirmed =
     \<lparr>pc_session_id = ''s'', pc_goal_id = ''g'', pc_task_id = ''t'', pc_action_id = ''a'',
      pc_capability = \<lparr>cap_name = ''restart'', cap_description = [], cap_category = cat,
        cap_risk = RiskHigh\<rparr>,
      pc_tool = \<lparr>tool_name = ''kubectl'', tool_description = [], tool_capabilities = [''restart''],
        tool_required_arguments = [], tool_side_effect = EffReversible, tool_risk = RiskHigh,
        tool_timeout_seconds = 30, tool_priority = 100, tool_argument_schema = []\<rparr>,
      pc_target = None, pc_arguments = [], pc_environment = [], pc_confirmed = confirmed,
      pc_goal_success_criteria = [], pc_task_required_criteria = []\<rparr>"

definition confirm_high :: policy_rule where
  "confirm_high = \<lparr>pl_name = ''confirm-high'', pl_effect = RequireConfirmation, pl_reason = ''risky'',
     pl_capabilities = [], pl_categories = [], pl_risks = [RiskHigh]\<rparr>"

theorem mutation_needs_permission_witness:
  "pr_effect (policy_check [rule_policy confirm_high] (sample_context CatMutation True)) = Allow \<and>
   pr_effect (policy_check [rule_policy confirm_high] (sample_context CatMutation False)) = RequireConfirmation \<and>
   says [rule_policy confirm_high] (sample_context CatMutation True) RequireConfirmation"
proof -
  let ?ps = "[rule_policy confirm_high]"
  have 1: "cap_category (pc_capability (sample_context CatMutation True)) = CatMutation" by code_simp
  have 2: "pr_effect (policy_check ?ps (sample_context CatMutation True)) = Allow" by code_simp
  have 3: "pr_effect (policy_check ?ps (sample_context CatMutation False)) = RequireConfirmation"
    by code_simp
  have "\<not> says ?ps (sample_context CatMutation True) Allow"
    by (simp add: says_def rule_policy_def rule_evaluate_def confirm_high_def)
  with mutation_needs_permission [OF 1 2] 2 3 show ?thesis by blast
qed

end
