(* ===== verification/Resource_Locks.thy ===== *)
theory Resource_Locks
  imports Core_Models
begin

text \<open>
  The coordination of side-effecting actions inside one process: \<open>coordination/locks.py\<close>, the
  table of resource locks and the view of resource versions, and the idempotency record of
  \<open>runtime/idempotency.py\<close> (a set of keys, here a list without repetitions).
\<close>

subsection \<open>locks.py: resource locks\<close>

record resource_lock =
  rl_resource_key :: string
  rl_action_id :: string
  rl_session_id :: string
  rl_task_id :: string

type_synonym resource_locks = "(string, resource_lock) dict"

datatype resource_error = ResourceValueErr string | ResourceConflict string | ResourceVersionConflict string

definition acquire_resource :: "resource_lock \<Rightarrow> resource_locks
    \<Rightarrow> (resource_locks, resource_error, resource_lock) outcome" where
  "acquire_resource l r =
     check_op (map_error ResourceValueErr (parse_non_empty_string (rl_resource_key l) ''resource_key'')) r (\<lambda>_.
       case map_of r (rl_resource_key l) of
         None \<Rightarrow> (Inr l, AList.update (rl_resource_key l) l r)
       | Some e \<Rightarrow>
           if e = l then (Inr e, r)
           else (Inl (ResourceConflict (''resource is locked: '' @ rl_resource_key l @ '' by action ''
                   @ rl_action_id e @ '' in session '' @ rl_session_id e)), r))"

definition resource_owned_by :: "resource_lock \<Rightarrow> resource_locks \<Rightarrow> bool" where
  "resource_owned_by l r \<longleftrightarrow> map_of r (rl_resource_key l) = Some l"

definition release_resource :: "resource_lock \<Rightarrow> resource_locks \<Rightarrow> resource_locks" where
  "release_resource l r =
     (if map_of r (rl_resource_key l) = Some l then AList.delete (rl_resource_key l) r else r)"

definition active_resources :: "resource_locks \<Rightarrow> resource_lock list" where
  "active_resources r = List.map_filter (map_of r) (sort (dict_keys r))"

subsection \<open>locks.py: resource versions\<close>

type_synonym resource_versions = "(string, string) dict"

record version_check =
  vc_resource_key :: string
  vc_expected :: "string option"
  vc_current :: "string option"
  vc_matched :: bool

definition opt_text :: "string option \<Rightarrow> string" where
  "opt_text x = (case x of None \<Rightarrow> ''None'' | Some s \<Rightarrow> s)"

definition version_reason :: "version_check \<Rightarrow> string" where
  "version_reason c =
     (if vc_matched c then
        (if vc_expected c = None then ''no expected resource version supplied''
         else if vc_current c = None then ''current resource version is unknown''
         else ''resource version matched'')
      else ''resource version conflict: '' @ vc_resource_key c @ '' expected '' @ opt_text (vc_expected c)
        @ '', current '' @ opt_text (vc_current c))"

definition set_current_version :: "string \<Rightarrow> string \<Rightarrow> resource_versions
    \<Rightarrow> (resource_versions, resource_error, unit) outcome" where
  "set_current_version k v r =
     check_op (map_error ResourceValueErr (parse_non_empty_string k ''resource_key'')) r (\<lambda>k.
     check_op (map_error ResourceValueErr (parse_non_empty_string v ''resource version'')) r (\<lambda>v.
       (Inr (), AList.update (py_strip k) (py_strip v) r)))"

definition current_version :: "string \<Rightarrow> resource_versions \<Rightarrow> string option" where
  "current_version k r = map_of r k"

definition forget_version :: "string \<Rightarrow> resource_versions \<Rightarrow> resource_versions" where
  "forget_version k r = AList.delete k r"

definition verify_version :: "string \<Rightarrow> string option \<Rightarrow> resource_versions \<Rightarrow> resource_error + version_check" where
  "verify_version k expected r =
     (case parse_non_empty_string k ''resource_key'' of Inl e \<Rightarrow> Inl (ResourceValueErr e) | Inr _ \<Rightarrow>
        let current = current_version k r;
            matched = (expected = None \<or> current = None \<or> expected = current);
            c = \<lparr>vc_resource_key = k, vc_expected = expected, vc_current = current, vc_matched = matched\<rparr>
        in if matched then Inr c else Inl (ResourceVersionConflict (version_reason c)))"

subsection \<open>idempotency.py\<close>

type_synonym idempotency_store = "string list"

definition record_key :: "string \<Rightarrow> idempotency_store \<Rightarrow> bool \<times> idempotency_store" where
  "record_key k s = (if k \<in> set s then (False, s) else (True, s @ [k]))"

definition key_seen :: "string \<Rightarrow> idempotency_store \<Rightarrow> bool" where
  "key_seen k s \<longleftrightarrow> k \<in> set s"

definition forget_key :: "string \<Rightarrow> idempotency_store \<Rightarrow> idempotency_store" where
  "forget_key k s = removeAll k s"

definition clear_keys :: "idempotency_store \<Rightarrow> idempotency_store" where
  "clear_keys s = []"

subsection \<open>Laws\<close>

lemma acquire_resource_cases:
  "\<not> blank (rl_resource_key l) \<Longrightarrow> acquire_resource l r =
     (case map_of r (rl_resource_key l) of
         None \<Rightarrow> (Inr l, AList.update (rl_resource_key l) l r)
       | Some e \<Rightarrow> if e = l then (Inr l, r)
           else (Inl (ResourceConflict (''resource is locked: '' @ rl_resource_key l @ '' by action ''
                   @ rl_action_id e @ '' in session '' @ rl_session_id e)), r))"
  by (auto simp: acquire_resource_def parse_non_empty_string_def split: option.splits)

lemma acquire_free:
  "\<not> blank (rl_resource_key l) \<Longrightarrow> map_of r (rl_resource_key l) = None \<Longrightarrow>
     acquire_resource l r = (Inr l, AList.update (rl_resource_key l) l r)"
  by (simp add: acquire_resource_cases)

lemma acquire_lookup [dict_simps]:
  "map_of (snd (acquire_resource l r)) k =
     (if k = rl_resource_key l \<and> \<not> blank k \<and> map_of r k = None then Some l else map_of r k)"
  by (auto simp: acquire_resource_def parse_non_empty_string_def dict_simps split: option.splits)

lemma release_lookup [dict_simps]:
  "map_of (release_resource l r) k =
     (if k = rl_resource_key l \<and> map_of r k = Some l then None else map_of r k)"
  by (auto simp: release_resource_def dict_simps)

lemma acquire_ok_owned: "acquire_resource l r = (Inr l', r') \<Longrightarrow>
    l' = l \<and> resource_owned_by l r' \<and> \<not> blank (rl_resource_key l)
    \<and> (map_of r (rl_resource_key l) = None \<or> resource_owned_by l r)"
  by (auto simp: acquire_resource_def parse_non_empty_string_def resource_owned_by_def dict_simps
      split: option.splits if_splits)

lemma acquire_error_same: "acquire_resource l r = (Inl e, r') \<Longrightarrow> r' = r"
  by (auto simp: acquire_resource_def parse_non_empty_string_def split: option.splits if_splits)

datatype resource_event = AcquireRes resource_lock | ReleaseRes resource_lock

fun resource_step :: "resource_locks \<Rightarrow> resource_event \<Rightarrow> resource_locks" where
  "resource_step r (AcquireRes l) = snd (acquire_resource l r)"
| "resource_step r (ReleaseRes l) = release_resource l r"

text \<open>A lock is filed under its own resource, once.\<close>

definition resource_wf :: "resource_locks \<Rightarrow> bool" where
  "resource_wf r \<longleftrightarrow> dict_wf r \<and> (\<forall>(k, l) \<in> set r. rl_resource_key l = k \<and> \<not> blank k)"

lemma resource_wf_step: "resource_wf r \<Longrightarrow> resource_wf (resource_step r e)"
proof (cases e)
  case (AcquireRes l)
  assume "resource_wf r"
  with AcquireRes show ?thesis
    by (auto simp: resource_wf_def acquire_resource_def parse_non_empty_string_def set_update_dict
        split: option.splits)
next
  case (ReleaseRes l)
  assume "resource_wf r"
  with ReleaseRes show ?thesis
    by (auto simp: resource_wf_def release_resource_def set_delete_dict)
qed

interpretation res: invariant_system resource_step "[]" resource_wf
  by unfold_locales (simp_all add: resource_wf_step, simp add: resource_wf_def)

text \<open>A resource belongs to one action until that action gives it back: once an action holds the
  lock of a resource, no sequence of acquisitions and releases by other owners takes it away,
  every other owner that asks for it is refused, and the holder itself may ask again freely.\<close>

theorem resource_lock_is_exclusive:
  assumes "resource_owned_by l r" and "\<not> blank (rl_resource_key l)" and "ReleaseRes l \<notin> set es"
  shows "resource_owned_by l (run_events resource_step r es)
    \<and> (\<forall>l'. rl_resource_key l' = rl_resource_key l \<longrightarrow>
        (\<exists>e. fst (acquire_resource l' (run_events resource_step r es)) = Inl (ResourceConflict e)) = (l' \<noteq> l))"
proof
  from assms(1,3) show own: "resource_owned_by l (run_events resource_step r es)"
  proof (induction es arbitrary: r)
    case (Cons e es)
    then have "resource_owned_by l (resource_step r e)"
      by (cases e) (auto simp: resource_owned_by_def dict_simps)
    with Cons show ?case by simp
  qed simp
  then show "\<forall>l'. rl_resource_key l' = rl_resource_key l \<longrightarrow>
        (\<exists>e. fst (acquire_resource l' (run_events resource_step r es)) = Inl (ResourceConflict e)) = (l' \<noteq> l)"
    using assms(2) by (auto simp: acquire_resource_cases resource_owned_by_def)
qed

definition sample_lock :: "string \<Rightarrow> resource_lock" where
  "sample_lock a = \<lparr>rl_resource_key = ''db'', rl_action_id = a, rl_session_id = ''s'', rl_task_id = ''t''\<rparr>"

theorem resource_lock_is_exclusive_witness:
  "resource_owned_by (sample_lock ''1'') (run_events resource_step
      (snd (acquire_resource (sample_lock ''1'') [])) [AcquireRes (sample_lock ''2''), ReleaseRes (sample_lock ''2'')])"
proof -
  have "resource_owned_by (sample_lock ''1'') (snd (acquire_resource (sample_lock ''1'') []))"
    "\<not> blank (rl_resource_key (sample_lock ''1''))"
    "ReleaseRes (sample_lock ''1'') \<notin> set [AcquireRes (sample_lock ''2''), ReleaseRes (sample_lock ''2'')]"
    by code_simp+
  from resource_lock_is_exclusive [OF this] show ?thesis by simp
qed

end
