(* ===== verification/Action_Executor.thy ===== *)
theory Action_Executor
  imports Capabilities Policy Resource_Locks
begin

text \<open>
  \<open>runtime/actions.py\<close>: how a decision becomes an observation. \<open>ActionExecutor\<close> resolves the
  capability, asks the policy, the sandbox, the idempotency record and the resource versions,
  takes the lock of the resource, runs the tool, and gives everything back that has to be given
  back on each of its exits.

  The components that the executor only calls are a record \<open>exec_env\<close>: the registries and
  policies, the checks of schemas and secrets, the sandbox, the domain's argument providers and
  reconcilers, JSON rendering, hashing and redaction, new identifiers and the clock. Its last
  field says whether the asyncio task is cancelled while the tool runs, the one place of a
  cancellation that is modelled. The state carries, beside the session and the tables, two
  histories: the emitted events (type and action), and the runs of tools with the side effect of
  the tool and how the run ended.
\<close>

subsection \<open>Parameters and state\<close>

datatype sandbox_answer = SandboxAnswer bool string | SandboxViolated string

datatype reconcile_answer = ReconcileNone | ReconcileRaised string | ReconcileResult tool_result

record reconciler =
  rc_name :: string
  rc_capabilities :: "string list"
  rc_reconcile :: "session \<Rightarrow> pending_action \<Rightarrow> capability_definition \<Rightarrow> tool_definition
    \<Rightarrow> string option \<Rightarrow> reconcile_answer"

record argument_provider =
  ap_name :: string
  ap_capabilities :: "string list"
  ap_provide :: "session \<Rightarrow> decision \<Rightarrow> capability_definition \<Rightarrow> tool_definition \<Rightarrow> json_mapping"

record exec_env =
  en_capabilities :: capability_registry
  en_tools :: tool_registry
  en_policies :: "policy list"
  en_environment :: json_mapping
  en_schema_error :: "json_mapping \<Rightarrow> json_mapping \<Rightarrow> string option"
  en_secrets :: "json_mapping \<Rightarrow> string + json_mapping"
  en_sandbox :: "(tool_definition \<Rightarrow> pending_action \<Rightarrow> sandbox_answer) option"
  en_providers :: "domain_identity option \<Rightarrow> argument_provider list"
  en_reconcilers :: "domain_identity option \<Rightarrow> reconciler list"
  en_dumps :: "json \<Rightarrow> string"
  en_sha256 :: "string \<Rightarrow> string"
  en_redact :: "json_mapping \<Rightarrow> json_mapping"
  en_redact_text :: "string \<Rightarrow> string"
  en_action_id :: string
  en_observation_id :: string
  en_now :: time
  en_cancelled :: bool

record executor =
  xe_session :: session
  xe_locks :: resource_locks
  xe_versions :: resource_versions
  xe_seen :: idempotency_store
  xe_events :: "(string \<times> string) list"
  xe_runs :: "(tool_call \<times> side_effect \<times> observation_status option) list"

datatype action_outcome =
    ActionRejected error_code string
  | ConfirmationRequired pending_action string
  | ActionObserved pending_action observation

text \<open>The exceptions that leave the executor.\<close>

datatype exec_error = ExecRaised string | ExecCancelledError

type_synonym exec_result = "(executor, exec_error, action_outcome) outcome"

definition emit :: "string \<Rightarrow> string \<Rightarrow> executor \<Rightarrow> executor" where
  "emit e aid x = x\<lparr>xe_events := xe_events x @ [(e, aid)]\<rparr>"

definition on_state :: "(agent_state \<Rightarrow> agent_state) \<Rightarrow> executor \<Rightarrow> executor" where
  "on_state f x = x\<lparr>xe_session := update_state f (xe_session x)\<rparr>"

definition exec_state :: "executor \<Rightarrow> agent_state" where
  "exec_state x = ss_state (xe_session x)"

definition set_pending :: "pending_action option \<Rightarrow> executor \<Rightarrow> executor" where
  "set_pending p = on_state (\<lambda>st. st\<lparr>as_pending_action := p\<rparr>)"

subsection \<open>The identity of a resource\<close>

definition text_arg :: "json_mapping \<Rightarrow> string \<Rightarrow> string option" where
  "text_arg args k = (case map_of args k of
     Some (JStr s) \<Rightarrow> if blank s then None else Some (py_strip s) | _ \<Rightarrow> None)"

definition resource_key_of :: "string \<Rightarrow> string option \<Rightarrow> json_mapping \<Rightarrow> string" where
  "resource_key_of capability target args =
     (if target \<noteq> None \<and> \<not> blank (or_empty target) then py_strip (or_empty target)
      else case List.map_filter (text_arg args) [''resource_key'', ''resource'', ''target'', ''id''] of
        v # _ \<Rightarrow> v
      | [] \<Rightarrow> (case text_arg args ''name'' of
          None \<Rightarrow> []
        | Some n \<Rightarrow> (case text_arg args ''namespace'' of
            Some ns \<Rightarrow> ns @ ''/'' @ n | None \<Rightarrow> capability @ '':'' @ n)))"

definition version_arg :: "json_mapping \<Rightarrow> string \<Rightarrow> string option" where
  "version_arg args k = (case map_of args k of
     Some (JStr s) \<Rightarrow> if blank s then None else Some (py_strip s)
   | Some (JInt i) \<Rightarrow> Some (show_int i) | _ \<Rightarrow> None)"

definition resource_version_of :: "json_mapping \<Rightarrow> string option" where
  "resource_version_of args =
     (case List.map_filter (version_arg args) [''resource_version'', ''resourceVersion'', ''version'', ''revision''] of
        v # _ \<Rightarrow> Some v | [] \<Rightarrow> None)"

definition resource_metadata :: "side_effect \<Rightarrow> string \<Rightarrow> string option \<Rightarrow> json_mapping
    \<Rightarrow> string \<times> string option" where
  "resource_metadata eff capability target args =
     (if eff = EffNone then ([], None)
      else (resource_key_of capability target args, resource_version_of args))"

definition ensure_resource_metadata :: "pending_action \<Rightarrow> side_effect \<Rightarrow> pending_action" where
  "ensure_resource_metadata p eff =
     (if eff = EffNone \<or> pa_resource_key p \<noteq> [] then p
      else let (k, v) = resource_metadata eff (pa_capability p) (pa_target p) (pa_arguments p)
           in if k = [] \<and> v = None then p else p\<lparr>pa_resource_key := k, pa_resource_version := v\<rparr>)"

subsection \<open>Identities of actions and approvals\<close>

definition tool_call_of :: "pending_action \<Rightarrow> tool_call" where
  "tool_call_of p = \<lparr>tc_action_id = pa_action_id p, tc_tool_name = pa_tool_name p,
     tc_capability = pa_capability p, tc_arguments = pa_arguments p, tc_target = pa_target p,
     tc_domain_name = pa_domain_name p, tc_domain_version = pa_domain_version p,
     tc_idempotency_key = pa_idempotency_key p, tc_parameters_hash = pa_parameters_hash p,
     tc_attempt = pa_attempt p, tc_resource_key = pa_resource_key p,
     tc_resource_version = pa_resource_version p\<rparr>"

definition pending_domain :: "pending_action \<Rightarrow> domain_identity option" where
  "pending_domain p = (if pa_domain_name p \<noteq> [] \<and> pa_domain_version p \<noteq> []
     then Some \<lparr>dom_name = pa_domain_name p, dom_version = pa_domain_version p\<rparr> else None)"

definition opt_json :: "string option \<Rightarrow> json" where
  "opt_json x = (case x of None \<Rightarrow> JNull | Some s \<Rightarrow> JStr s)"

definition parameters_hash :: "exec_env \<Rightarrow> decision \<Rightarrow> string" where
  "parameters_hash env d = en_sha256 env (en_dumps env (JObj [(''arguments'', JObj (d_arguments d)),
     (''capability'', opt_json (d_capability d)), (''target'', opt_json (d_target d))]))"

definition idempotency_key_of :: "string \<Rightarrow> string \<Rightarrow> string \<Rightarrow> string" where
  "idempotency_key_of sid tid h = sid @ '':'' @ tid @ '':'' @ take 16 h"

definition action_fingerprint :: "exec_env \<Rightarrow> pending_action \<Rightarrow> string" where
  "action_fingerprint env p =
     pa_capability p @ ''|'' @ or_empty (pa_target p) @ ''|'' @ en_dumps env (JObj (pa_arguments p))"

definition approved_fingerprint_limit :: nat where
  "approved_fingerprint_limit = 32"

text \<open>\<open>_remember_approval\<close>: \<open>approved[-32:]\<close> keeps the last ones.\<close>

definition remember_approval :: "string \<Rightarrow> agent_state \<Rightarrow> agent_state" where
  "remember_approval f st =
     (let approved = filter (\<lambda>i. i \<noteq> f) (as_approved_fingerprints st) @ [f]
      in st\<lparr>as_approved_fingerprints := drop (length approved - approved_fingerprint_limit) approved\<rparr>)"

definition read_only_policy_result :: "agent_state \<Rightarrow> capability_definition \<Rightarrow> tool_definition
    \<Rightarrow> policy_result option" where
  "read_only_policy_result st c d =
     (if \<not> as_read_only st then None
      else if cap_category c \<noteq> CatMutation \<and> tool_side_effect d = EffNone then None
      else Some \<lparr>pr_effect = Deny, pr_reason = ''read-only session cannot execute side-effecting capability: ''
             @ cap_name c, pr_policy_name = ''runtime-read-only''\<rparr>)"

subsection \<open>Locks, versions, sandbox\<close>

definition pending_lock :: "executor \<Rightarrow> pending_action \<Rightarrow> resource_lock" where
  "pending_lock x p = \<lparr>rl_resource_key = pa_resource_key p, rl_action_id = pa_action_id p,
     rl_session_id = as_session_id (exec_state x), rl_task_id = t_id (as_current_task (exec_state x))\<rparr>"

datatype lock_answer = LockRaised string | LockRejected string | LockHeld "resource_lock option"

definition acquire_lock :: "pending_action \<Rightarrow> executor \<Rightarrow> lock_answer \<times> executor" where
  "acquire_lock p x =
     (if pa_resource_key p = [] then (LockHeld None, x)
      else let l = pending_lock x p; owned = resource_owned_by l (xe_locks x) in
        (case acquire_resource l (xe_locks x) of
           (Inr l', ls) \<Rightarrow> (LockHeld (Some l'),
              if owned then x\<lparr>xe_locks := ls\<rparr>
              else emit ''ResourceLockAcquired'' (pa_action_id p) (x\<lparr>xe_locks := ls\<rparr>))
         | (Inl (ResourceValueErr e), _) \<Rightarrow> (LockRaised e, x)
         | (Inl (ResourceConflict e), _) \<Rightarrow> (LockRejected e, emit ''ResourceConflictDetected'' (pa_action_id p) x)
         | (Inl (ResourceVersionConflict e), _) \<Rightarrow>
             (LockRejected e, emit ''ResourceConflictDetected'' (pa_action_id p) x)))"

definition release_lock :: "resource_lock option \<Rightarrow> executor \<Rightarrow> executor" where
  "release_lock l x = (case l of None \<Rightarrow> x
     | Some k \<Rightarrow> emit ''ResourceLockReleased'' (rl_action_id k) (x\<lparr>xe_locks := release_resource k (xe_locks x)\<rparr>))"

definition release_pending_resource :: "pending_action \<Rightarrow> executor \<Rightarrow> executor" where
  "release_pending_resource p x =
     (if pa_resource_key p = [] then x else release_lock (Some (pending_lock x p)) x)"

text \<open>\<open>_check_resource_version\<close>: \<open>Some\<close> is a rejection or a raised error.\<close>

definition check_resource_version :: "pending_action \<Rightarrow> executor
    \<Rightarrow> (exec_error + action_outcome) option \<times> executor" where
  "check_resource_version p x =
     (if pa_resource_key p = [] then (None, x)
      else case verify_version (pa_resource_key p) (pa_resource_version p) (xe_versions x) of
        Inr _ \<Rightarrow> (None, emit ''ResourceVersionChecked'' (pa_action_id p) x)
      | Inl (ResourceVersionConflict e) \<Rightarrow>
          (Some (Inr (ActionRejected RESOURCE_CONFLICT e)),
           emit ''ResourceConflictDetected'' (pa_action_id p) (emit ''ResourceVersionChecked'' (pa_action_id p) x))
      | Inl (ResourceConflict e) \<Rightarrow> (Some (Inl (ExecRaised e)), x)
      | Inl (ResourceValueErr e) \<Rightarrow> (Some (Inl (ExecRaised e)), x))"

definition update_resource_version :: "pending_action \<Rightarrow> json_mapping \<Rightarrow> executor \<Rightarrow> executor" where
  "update_resource_version p out x =
     (if pa_resource_key p = [] then x
      else case resource_version_of out of None \<Rightarrow> x
      | Some v \<Rightarrow> emit ''ResourceVersionUpdated'' (pa_action_id p)
          (x\<lparr>xe_versions := snd (set_current_version (pa_resource_key p) v (xe_versions x))\<rparr>))"

definition check_sandbox :: "exec_env \<Rightarrow> tool_definition \<Rightarrow> pending_action \<Rightarrow> executor
    \<Rightarrow> action_outcome option \<times> executor" where
  "check_sandbox env d p x =
     (case en_sandbox env of None \<Rightarrow> (None, x)
      | Some guard \<Rightarrow> (case guard d p of
          SandboxViolated e \<Rightarrow> (Some (ActionRejected POLICY_DENIED e), emit ''SandboxDenied'' (pa_action_id p) x)
        | SandboxAnswer ok reason \<Rightarrow>
            (if ok then None else Some (ActionRejected POLICY_DENIED reason),
             emit ''SandboxChecked'' (pa_action_id p) x)))"

subsection \<open>Observing a result\<close>

text \<open>\<open>ObservationFactory.from_tool_result\<close>, appended to the observations of the state.\<close>

definition observation_of :: "exec_env \<Rightarrow> string \<Rightarrow> tool_call \<Rightarrow> tool_result \<Rightarrow> observation" where
  "observation_of env task call r = \<lparr>ob_id = en_observation_id env, ob_action_id = tc_action_id call,
     ob_task_id = task, ob_source = tc_capability call @ '':'' @ tc_tool_name call, ob_status = tr_status r,
     ob_data = en_redact env (tr_output r), ob_observed_at = en_now env,
     ob_error = map_option (en_redact_text env) (tr_error r), ob_error_code = tr_error_code r\<rparr>"

definition observe :: "exec_env \<Rightarrow> pending_action \<Rightarrow> tool_result \<Rightarrow> executor \<Rightarrow> observation \<times> executor" where
  "observe env p r x =
     (let ob = observation_of env (t_id (as_current_task (exec_state x))) (tool_call_of p) r in
      (ob, emit ''ObservationReceived'' (pa_action_id p)
             (on_state (\<lambda>st. st\<lparr>as_observations := as_observations st @ [ob]\<rparr>) x)))"

text \<open>
  \<open>_invoke\<close>: \<open>None\<close> when the task is cancelled while the tool runs. A call that the tool runtime
  refuses does not run the tool.
\<close>

definition invoke :: "exec_env \<Rightarrow> pending_action \<Rightarrow> executor \<Rightarrow> observation option \<times> executor" where
  "invoke env p x =
     (let call = tool_call_of p;
          x1 = emit ''ActionStarted'' (pa_action_id p) x;
          note = (\<lambda>st y. case tool_gate (en_schema_error env) (en_secrets env) (en_tools env) call of
             Inl _ \<Rightarrow> y
           | Inr (t, _) \<Rightarrow> y\<lparr>xe_runs := xe_runs y @ [(call, tool_side_effect (tl_definition t), st)]\<rparr>)
      in if \<not> isl (tool_gate (en_schema_error env) (en_secrets env) (en_tools env) call) \<and> en_cancelled env
         then (None, note None x1)
         else
           let r = tool_runtime_execute (en_schema_error env) (en_secrets env) (en_tools env) call;
               x2 = emit ''ActionCompleted'' (pa_action_id p) (note (Some (tr_status r)) x1);
               x3 = (if tr_status r = ObsSucceeded then update_resource_version p (tr_output r) x2 else x2);
               (ob, x4) = observe env p r x3
           in (Some ob, x4))"

fun reconcile_loop :: "exec_env \<Rightarrow> reconciler list \<Rightarrow> pending_action \<Rightarrow> capability_definition
    \<Rightarrow> tool_definition \<Rightarrow> string option \<Rightarrow> executor \<Rightarrow> observation option \<times> executor" where
  "reconcile_loop env [] p c d v x = (None, x)"
| "reconcile_loop env (r # rs) p c d v x =
     (if rc_capabilities r \<noteq> [] \<and> pa_capability p \<notin> set (rc_capabilities r)
      then reconcile_loop env rs p c d v x
      else case rc_reconcile r (xe_session x) p c d v of
        ReconcileRaised _ \<Rightarrow> reconcile_loop env rs p c d v (emit ''ActionReconcileFailed'' (pa_action_id p) x)
      | ReconcileNone \<Rightarrow> reconcile_loop env rs p c d v x
      | ReconcileResult res \<Rightarrow>
          (let x1 = emit ''ActionReconciled'' (pa_action_id p) x;
               x2 = (if tr_status res = ObsSucceeded then update_resource_version p (tr_output res) x1 else x1);
               (ob, x3) = observe env p res x2
           in (Some ob, x3)))"

definition reconcile_action :: "exec_env \<Rightarrow> pending_action \<Rightarrow> capability_definition \<Rightarrow> tool_definition
    \<Rightarrow> executor \<Rightarrow> observation option \<times> executor" where
  "reconcile_action env p c d x =
     reconcile_loop env (en_reconcilers env (pending_domain p)) p c d
       (if pa_resource_key p = [] then None else current_version (pa_resource_key p) (xe_versions x)) x"

definition reconcile_result :: "pending_action \<Rightarrow> tool_result" where
  "reconcile_result p = \<lparr>tr_status = ObsUnknown,
     tr_output = [(''reconcile_required'', JBool True), (''idempotency_key'', JStr (pa_idempotency_key p)),
       (''parameters_hash'', JStr (pa_parameters_hash p)), (''resource_key'', JStr (pa_resource_key p))],
     tr_error = Some (''side-effecting action already has an execution record; ''
       @ ''reconcile action outcome before retry''),
     tr_error_code = Some RESOURCE_CONFLICT\<rparr>"

definition reconcile_required :: "exec_env \<Rightarrow> pending_action \<Rightarrow> capability_definition \<Rightarrow> tool_definition
    \<Rightarrow> executor \<Rightarrow> observation \<times> executor" where
  "reconcile_required env p c d x =
     (case reconcile_action env p c d x of
        (Some ob, x1) \<Rightarrow> (ob, x1)
      | (None, x1) \<Rightarrow> observe env p (reconcile_result p) (emit ''ActionReconcileRequired'' (pa_action_id p) x1))"

subsection \<open>\<open>execute\<close>\<close>

text \<open>A side-effecting action whose key has been recorded: it is reconciled, not run again.\<close>

definition execute_duplicate :: "exec_env \<Rightarrow> pending_action \<Rightarrow> capability_definition \<Rightarrow> tool_definition
    \<Rightarrow> executor \<Rightarrow> exec_result" where
  "execute_duplicate env p c d x =
     (case acquire_lock p (set_pending None x) of
        (LockRaised e, x1) \<Rightarrow> (Inl (ExecRaised e), x1)
      | (LockRejected e, x1) \<Rightarrow> (Inr (ActionRejected RESOURCE_CONFLICT e), x1)
      | (LockHeld l, x1) \<Rightarrow>
          (let (ob, x2) = reconcile_required env p c d (emit ''IdempotencyChecked'' (pa_action_id p) x1)
           in (Inr (ActionObserved p ob), release_lock l x2)))"

text \<open>The run proper, with the lock held: record, run, forget unless it succeeded, remember.\<close>

definition run_locked :: "exec_env \<Rightarrow> pending_action \<Rightarrow> capability_definition \<Rightarrow> tool_definition
    \<Rightarrow> bool \<Rightarrow> executor \<Rightarrow> exec_result" where
  "run_locked env p c d approved x =
     (let sided = (tool_side_effect d \<noteq> EffNone);
          key = pa_idempotency_key p;
          recorded = (sided \<and> fst (record_key key (xe_seen x)));
          x1 = (if sided then emit ''IdempotencyChecked'' (pa_action_id p)
                  (x\<lparr>xe_seen := snd (record_key key (xe_seen x))\<rparr>) else x)
      in if sided \<and> \<not> recorded then
           (let (ob, x2) = reconcile_required env p c d x1 in (Inr (ActionObserved p ob), x2))
         else case invoke env p x1 of
           (None, x2) \<Rightarrow> (Inl ExecCancelledError,
             if recorded then x2\<lparr>xe_seen := forget_key key (xe_seen x2)\<rparr> else x2)
         | (Some ob, x2) \<Rightarrow>
             (let x3 = (if recorded \<and> ob_status ob \<noteq> ObsSucceeded
                        then x2\<lparr>xe_seen := forget_key key (xe_seen x2)\<rparr> else x2);
                  x4 = (if approved \<and> ob_status ob = ObsSucceeded
                        then on_state (remember_approval (action_fingerprint env p)) x3 else x3)
              in (Inr (ActionObserved p ob), x4)))"

definition execute_fresh :: "exec_env \<Rightarrow> pending_action \<Rightarrow> capability_definition \<Rightarrow> tool_definition
    \<Rightarrow> bool \<Rightarrow> executor \<Rightarrow> exec_result" where
  "execute_fresh env p c d approved x =
     (case acquire_lock p (set_pending None x) of
        (LockRaised e, x1) \<Rightarrow> (Inl (ExecRaised e), x1)
      | (LockRejected e, x1) \<Rightarrow> (Inr (ActionRejected RESOURCE_CONFLICT e), x1)
      | (LockHeld l, x1) \<Rightarrow> (case run_locked env p c d approved x1 of (r, x2) \<Rightarrow> (r, release_lock l x2)))"

definition execute_confirm :: "pending_action \<Rightarrow> string \<Rightarrow> executor \<Rightarrow> exec_result" where
  "execute_confirm p reason x =
     (case acquire_lock p x of
        (LockRaised e, x1) \<Rightarrow> (Inl (ExecRaised e), x1)
      | (LockRejected e, x1) \<Rightarrow> (Inr (ActionRejected RESOURCE_CONFLICT e), x1)
      | (LockHeld _, x1) \<Rightarrow> (Inr (ConfirmationRequired p reason), set_pending (Some p) x1))"

definition policy_context_of :: "exec_env \<Rightarrow> agent_state \<Rightarrow> pending_action \<Rightarrow> capability_definition
    \<Rightarrow> tool_definition \<Rightarrow> bool \<Rightarrow> policy_context" where
  "policy_context_of env st p c d confirmed = \<lparr>pc_session_id = as_session_id st, pc_goal_id = g_id (as_goal st),
     pc_task_id = t_id (as_current_task st), pc_action_id = pa_action_id p, pc_capability = c, pc_tool = d,
     pc_target = pa_target p, pc_arguments = pa_arguments p, pc_environment = en_environment env,
     pc_confirmed = confirmed, pc_goal_success_criteria = g_success_criteria (as_goal st),
     pc_task_required_criteria = t_required_criteria (as_current_task st)\<rparr>"

text \<open>\<open>read_only_result or policy_engine.check(...)\<close>\<close>

definition action_policy :: "exec_env \<Rightarrow> agent_state \<Rightarrow> pending_action \<Rightarrow> capability_definition
    \<Rightarrow> tool_definition \<Rightarrow> bool \<Rightarrow> policy_result" where
  "action_policy env st p c d confirmed =
     (case read_only_policy_result st c d of Some r \<Rightarrow> r
      | None \<Rightarrow> policy_check (en_policies env) (policy_context_of env st p c d confirmed))"

text \<open>Confirmed now, or an identical action was approved before.\<close>

definition confirmed_effective :: "exec_env \<Rightarrow> pending_action \<Rightarrow> bool \<Rightarrow> executor \<Rightarrow> bool" where
  "confirmed_effective env p confirmed x \<longleftrightarrow>
     confirmed \<or> action_fingerprint env p \<in> set (as_approved_fingerprints (exec_state x))"

definition execute_checked :: "exec_env \<Rightarrow> pending_action \<Rightarrow> capability_definition \<Rightarrow> tool_definition
    \<Rightarrow> bool \<Rightarrow> executor \<Rightarrow> exec_result" where
  "execute_checked env p c d confirmed x =
     (let st = exec_state x;
          approved = confirmed_effective env p confirmed x;
          pol = action_policy env st p c d approved;
          x1 = emit ''PolicyChecked'' (pa_action_id p) x
      in if pr_effect pol = Deny then (Inr (ActionRejected POLICY_DENIED (pr_reason pol)), x1)
         else case check_sandbox env d p x1 of
           (Some rejected, x2) \<Rightarrow> (Inr rejected, x2)
         | (None, x2) \<Rightarrow>
             if tool_side_effect d \<noteq> EffNone \<and> key_seen (pa_idempotency_key p) (xe_seen x2)
             then execute_duplicate env p c d x2
             else (case check_resource_version p x2 of
               (Some r, x3) \<Rightarrow> (r, x3)
             | (None, x3) \<Rightarrow>
                 if pr_effect pol = RequireConfirmation then execute_confirm p (pr_reason pol) x3
                 else execute_fresh env p c d (approved \<and> read_only_policy_result st c d = None) x3))"

definition registry_error_text :: "registry_error \<Rightarrow> string" where
  "registry_error_text e = (case e of RegValueErr m \<Rightarrow> m | DuplicateErr m \<Rightarrow> m | UnknownToolErr m \<Rightarrow> m
     | UnknownCapabilityErr m \<Rightarrow> m | CapabilityUnavailableErr m \<Rightarrow> m)"

text \<open>The whole of \<open>execute\<close>; its parameter \<open>remember\<close> is accepted and not used.\<close>

definition execute :: "exec_env \<Rightarrow> pending_action \<Rightarrow> bool \<Rightarrow> bool \<Rightarrow> executor \<Rightarrow> exec_result" where
  "execute env pending confirmed remember x =
     (case resolve_registration (en_capabilities env) (en_tools env) (pa_capability pending) of
        Inl e \<Rightarrow> (Inr (ActionRejected INVALID_STATE (registry_error_text e)), x)
      | Inr r \<Rightarrow>
          let d = tl_definition (rs_tool r);
              p = ensure_resource_metadata pending (tool_side_effect d)
          in if tool_name d \<noteq> pa_tool_name pending then
               (Inr (ActionRejected INVALID_STATE ''pending action tool resolution changed''), x)
             else if (case rs_capability_domain r of None \<Rightarrow> False | Some dm \<Rightarrow>
                 pa_domain_name pending \<noteq> dom_name dm \<or> pa_domain_version pending \<noteq> dom_version dm) then
               (Inr (ActionRejected INVALID_STATE ''pending action domain resolution changed''), x)
             else if tool_side_effect d \<noteq> EffNone \<and> pa_resource_key p = [] then
               (Inr (ActionRejected VALIDATION_ERROR ''side-effecting action requires a resource identity''), x)
             else execute_checked env p (rs_capability r) d confirmed x)"

subsection \<open>\<open>prepare\<close>\<close>

fun add_provided :: "json_mapping \<Rightarrow> json_mapping \<Rightarrow> string list \<Rightarrow> json_mapping \<times> string list" where
  "add_provided [] args added = (args, added)"
| "add_provided ((k, v) # kvs) args added =
     (if map_of args k \<noteq> None then add_provided kvs args added
      else add_provided kvs (AList.update k v args) (added @ [k]))"

fun enrich_loop :: "argument_provider list \<Rightarrow> session \<Rightarrow> decision \<Rightarrow> capability_definition
    \<Rightarrow> tool_definition \<Rightarrow> json_mapping \<Rightarrow> string list \<Rightarrow> json_mapping \<times> string list" where
  "enrich_loop [] s dc c d args added = (args, added)"
| "enrich_loop (a # as) s dc c d args added =
     (if ap_capabilities a \<noteq> [] \<and> d_capability dc \<notin> Some ` set (ap_capabilities a)
      then enrich_loop as s dc c d args added
      else case add_provided (ap_provide a s (dc\<lparr>d_arguments := args\<rparr>) c d) args added of
        (args', added') \<Rightarrow> enrich_loop as s dc c d args' added')"

definition enrich_decision_arguments :: "exec_env \<Rightarrow> session \<Rightarrow> decision \<Rightarrow> capability_definition
    \<Rightarrow> tool_definition \<Rightarrow> domain_identity option \<Rightarrow> decision \<times> string list" where
  "enrich_decision_arguments env s dc c d domain =
     (case enrich_loop (en_providers env domain) s dc c d (d_arguments dc) [] of
        (args, added) \<Rightarrow> if added = [] then (dc, []) else (dc\<lparr>d_arguments := args\<rparr>, added))"

definition prepare :: "exec_env \<Rightarrow> decision \<Rightarrow> executor \<Rightarrow> exec_result" where
  "prepare env decision x =
     (case resolve_registration (en_capabilities env) (en_tools env) (or_empty (d_capability decision)) of
        Inl (CapabilityUnavailableErr m) \<Rightarrow> (Inr (ActionRejected NO_CAPABILITY_TOOL m), x)
      | Inl e \<Rightarrow> (Inr (ActionRejected UNKNOWN_CAPABILITY (registry_error_text e)), x)
      | Inr r \<Rightarrow>
          let c = rs_capability r; d = tl_definition (rs_tool r);
              dname = (case rs_capability_domain r of None \<Rightarrow> [] | Some i \<Rightarrow> dom_name i);
              dversion = (case rs_capability_domain r of None \<Rightarrow> [] | Some i \<Rightarrow> dom_version i);
              (dc, added) = enrich_decision_arguments env (xe_session x) decision c d (rs_capability_domain r);
              h = parameters_hash env dc;
              (rkey, rversion) = resource_metadata (tool_side_effect d) (cap_name c) (d_target dc) (d_arguments dc)
          in if tool_side_effect d \<noteq> EffNone \<and> rkey = [] then
               (Inr (ActionRejected VALIDATION_ERROR ''side-effecting action requires a resource identity''), x)
             else
               let p = \<lparr>pa_action_id = en_action_id env, pa_capability = cap_name c, pa_tool_name = tool_name d,
                     pa_target = d_target dc, pa_arguments = d_arguments dc, pa_domain_name = dname,
                     pa_domain_version = dversion,
                     pa_idempotency_key = idempotency_key_of (as_session_id (exec_state x))
                       (t_id (as_current_task (exec_state x))) h,
                     pa_parameters_hash = h, pa_attempt = 1, pa_resource_key = rkey,
                     pa_resource_version = rversion\<rparr>;
                   x1 = (if added = [] then x else emit ''ActionArgumentsEnriched'' (en_action_id env) x)
               in execute env p False False (emit ''CapabilityResolved'' (en_action_id env) x1))"

end
