(* ===== verification/Action_Safety.thy ===== *)
theory Action_Safety
  imports Action_Executor
begin

text \<open>
  What \<open>ActionExecutor.execute\<close> guarantees: a tool runs only when everything has cleared it, the
  lock of the resource comes back on every exit, and a side-effecting action succeeds at most
  once under its idempotency key.
\<close>

subsection \<open>What the small steps leave alone\<close>

named_theorems exec_simps "the fields of the executor after its small steps"

lemma emit_fields [exec_simps]:
  "xe_session (emit e a x) = xe_session x" "xe_locks (emit e a x) = xe_locks x"
  "xe_versions (emit e a x) = xe_versions x" "xe_seen (emit e a x) = xe_seen x"
  "xe_runs (emit e a x) = xe_runs x" "exec_state (emit e a x) = exec_state x"
  by (simp_all add: emit_def exec_state_def)

lemma on_state_fields [exec_simps]:
  "xe_locks (on_state f x) = xe_locks x" "xe_versions (on_state f x) = xe_versions x"
  "xe_seen (on_state f x) = xe_seen x" "xe_runs (on_state f x) = xe_runs x"
  "exec_state (on_state f x) = f (exec_state x)"
  by (simp_all add: on_state_def exec_state_def)

lemma set_pending_fields [exec_simps]:
  "xe_locks (set_pending p x) = xe_locks x" "xe_versions (set_pending p x) = xe_versions x"
  "xe_seen (set_pending p x) = xe_seen x" "xe_runs (set_pending p x) = xe_runs x"
  "as_session_id (exec_state (set_pending p x)) = as_session_id (exec_state x)"
  "as_current_task (exec_state (set_pending p x)) = as_current_task (exec_state x)"
  "as_approved_fingerprints (exec_state (set_pending p x)) = as_approved_fingerprints (exec_state x)"
  by (simp_all add: set_pending_def exec_simps)

lemma update_version_fields [exec_simps]:
  "xe_session (update_resource_version p out x) = xe_session x"
  "xe_locks (update_resource_version p out x) = xe_locks x"
  "xe_seen (update_resource_version p out x) = xe_seen x" "xe_runs (update_resource_version p out x) = xe_runs x"
  "exec_state (update_resource_version p out x) = exec_state x"
  by (auto simp: update_resource_version_def exec_simps exec_state_def emit_def split: option.splits)

text \<open>The fields that identify the holder of a lock.\<close>

definition holder :: "executor \<Rightarrow> string \<times> string" where
  "holder x = (as_session_id (exec_state x), t_id (as_current_task (exec_state x)))"

lemma pending_lock_holder: "holder x = holder y \<Longrightarrow> pending_lock x p = pending_lock y p"
  by (simp add: pending_lock_def holder_def)

lemma holder_steps [exec_simps]:
  "holder (emit e a x) = holder x" "holder (set_pending q x) = holder x"
  "holder (update_resource_version p out x) = holder x"
  by (simp_all add: holder_def exec_simps)

lemma observe_fields:
  assumes "observe env p r x = (ob, y)"
  shows "xe_locks y = xe_locks x \<and> xe_seen y = xe_seen x \<and> xe_runs y = xe_runs x \<and> holder y = holder x
    \<and> ob_status ob = tr_status r
    \<and> as_approved_fingerprints (exec_state y) = as_approved_fingerprints (exec_state x)"
  using assms by (auto simp: observe_def Let_def exec_simps holder_def observation_of_def)

lemma reconcile_loop_fields:
  assumes "reconcile_loop env rs p c d v x = (ob, y)"
  shows "xe_locks y = xe_locks x \<and> xe_seen y = xe_seen x \<and> xe_runs y = xe_runs x \<and> holder y = holder x
    \<and> as_approved_fingerprints (exec_state y) = as_approved_fingerprints (exec_state x)"
  using assms
proof (induction env rs p c d v x rule: reconcile_loop.induct)
  case (2 env r rs p c d v x)
  show ?case
  proof (cases "rc_capabilities r \<noteq> [] \<and> pa_capability p \<notin> set (rc_capabilities r)")
    case True
    then show ?thesis using 2(1,4) by simp
  next
    case False
    show ?thesis
    proof (cases "rc_reconcile r (xe_session x) p c d v")
      case (ReconcileResult res)
      obtain ob1 z where z: "observe env p res (if tr_status res = ObsSucceeded
          then update_resource_version p (tr_output res) (emit ''ActionReconciled'' (pa_action_id p) x)
          else emit ''ActionReconciled'' (pa_action_id p) x) = (ob1, z)" by fastforce
      then have "y = z" using 2(4) False ReconcileResult by (simp add: Let_def)
      then show ?thesis using observe_fields [OF z] by (auto simp: exec_simps split: if_splits)
    qed (use 2 False in \<open>auto simp: exec_simps\<close>)
  qed
qed simp

lemma reconcile_required_fields:
  assumes "reconcile_required env p c d x = (ob, y)"
  shows "xe_locks y = xe_locks x \<and> xe_seen y = xe_seen x \<and> xe_runs y = xe_runs x \<and> holder y = holder x
    \<and> as_approved_fingerprints (exec_state y) = as_approved_fingerprints (exec_state x)"
proof -
  obtain o1 z where z: "reconcile_action env p c d x = (o1, z)" by fastforce
  note f = reconcile_loop_fields [OF z [unfolded reconcile_action_def]]
  show ?thesis
  proof (cases o1)
    case None
    then have "observe env p (reconcile_result p) (emit ''ActionReconcileRequired'' (pa_action_id p) z) = (ob, y)"
      using assms z by (simp add: reconcile_required_def)
    from observe_fields [OF this] f show ?thesis by (simp add: exec_simps)
  next
    case (Some o2)
    then show ?thesis using assms z f by (simp add: reconcile_required_def)
  qed
qed

lemma acquire_lock_cases:
  assumes "acquire_lock p x = (a, y)"
  shows "xe_session y = xe_session x \<and> xe_seen y = xe_seen x \<and> xe_runs y = xe_runs x \<and> exec_state y = exec_state x
    \<and> (case a of LockHeld None \<Rightarrow> pa_resource_key p = [] \<and> xe_locks y = xe_locks x
       | LockHeld (Some l) \<Rightarrow> pa_resource_key p \<noteq> [] \<and> l = pending_lock x p
           \<and> xe_locks y = snd (acquire_resource l (xe_locks x)) \<and> resource_owned_by l (xe_locks y)
           \<and> (map_of (xe_locks x) (pa_resource_key p) = None \<or> resource_owned_by l (xe_locks x))
       | _ \<Rightarrow> xe_locks y = xe_locks x)"
proof (cases "pa_resource_key p = []")
  case True
  then show ?thesis using assms by (auto simp: acquire_lock_def)
next
  case False
  let ?l = "pending_lock x p"
  obtain r ls where r: "acquire_resource ?l (xe_locks x) = (r, ls)" by fastforce
  show ?thesis
  proof (cases r)
    case (Inl e)
    then show ?thesis using assms False r
      by (cases e) (auto simp: acquire_lock_def Let_def exec_simps)
  next
    case (Inr l')
    then have "acquire_resource ?l (xe_locks x) = (Inr l', ls)" using r by simp
    from acquire_ok_owned [OF this] show ?thesis
      using assms False r Inr
      by (auto simp: acquire_lock_def Let_def exec_simps exec_state_def pending_lock_def split: if_splits)
  qed
qed

lemma release_lock_fields [exec_simps]:
  "xe_session (release_lock l x) = xe_session x" "xe_seen (release_lock l x) = xe_seen x"
  "xe_runs (release_lock l x) = xe_runs x" "exec_state (release_lock l x) = exec_state x"
  "holder (release_lock l x) = holder x"
  by (auto simp: release_lock_def emit_def exec_state_def holder_def split: option.splits)

text \<open>The whole course of taking a lock and giving it back.\<close>

lemma lock_given_back:
  assumes "acquire_lock p x = (LockHeld l, y)" and "xe_locks z = xe_locks y"
  shows "map_of (xe_locks (release_lock l z)) k =
    (if k = pa_resource_key p \<and> k \<noteq> [] \<and> map_of (xe_locks x) k = Some (pending_lock x p) then None
     else map_of (xe_locks x) k)"
proof (cases l)
  case None
  then show ?thesis using acquire_lock_cases [OF assms(1)] assms(2) by (auto simp: release_lock_def)
next
  case (Some lk)
  have lk: "pa_resource_key p \<noteq> []" "lk = pending_lock x p" "xe_locks y = snd (acquire_resource lk (xe_locks x))"
    "map_of (xe_locks y) (pa_resource_key p) = Some lk"
    "map_of (xe_locks x) (pa_resource_key p) = None \<or> map_of (xe_locks x) (pa_resource_key p) = Some lk"
    using acquire_lock_cases [OF assms(1)] Some by (auto simp: resource_owned_by_def pending_lock_def)
  have key: "rl_resource_key lk = pa_resource_key p" by (simp add: lk(2) pending_lock_def)
  have other: "map_of (xe_locks y) k = map_of (xe_locks x) k" if "k \<noteq> pa_resource_key p"
    using that by (simp add: lk(3) acquire_lookup key)
  have "map_of (xe_locks (release_lock l z)) k =
      (if k = pa_resource_key p then None else map_of (xe_locks x) k)"
    using lk(4) other by (simp add: Some release_lock_def exec_simps assms(2) release_lookup key)
  then show ?thesis using lk by auto
qed

subsection \<open>One run of the tool\<close>

lemma invoke_cases:
  assumes "invoke env p x = (ob, y)"
  shows "xe_locks y = xe_locks x \<and> xe_seen y = xe_seen x \<and> holder y = holder x
    \<and> as_approved_fingerprints (exec_state y) = as_approved_fingerprints (exec_state x)
    \<and> (case tool_gate (en_schema_error env) (en_secrets env) (en_tools env) (tool_call_of p) of
         Inl r \<Rightarrow> xe_runs y = xe_runs x \<and> (\<exists>b. ob = Some b \<and> ob_status b = tr_status r)
       | Inr (t, _) \<Rightarrow> xe_runs y = xe_runs x @ [(tool_call_of p, tool_side_effect (tl_definition t), map_option ob_status ob)])"
proof -
  let ?gate = "tool_gate (en_schema_error env) (en_secrets env) (en_tools env) (tool_call_of p)"
  let ?r = "tool_runtime_execute (en_schema_error env) (en_secrets env) (en_tools env) (tool_call_of p)"
  let ?note = "\<lambda>st y. case ?gate of Inl _ \<Rightarrow> y
           | Inr (t, _) \<Rightarrow> y\<lparr>xe_runs := xe_runs y @ [(tool_call_of p, tool_side_effect (tl_definition t), st)]\<rparr>"
  show ?thesis
  proof (cases "\<not> isl ?gate \<and> en_cancelled env")
    case True
    then obtain t args where g: "?gate = Inr (t, args)" by (cases ?gate) auto
    with True assms have "ob = None" "y = ?note None (emit ''ActionStarted'' (pa_action_id p) x)"
      by (auto simp: invoke_def Let_def)
    then show ?thesis by (simp add: g exec_simps holder_def exec_state_def emit_def)
  next
    case False
    let ?x2 = "emit ''ActionCompleted'' (pa_action_id p) (?note (Some (tr_status ?r)) (emit ''ActionStarted'' (pa_action_id p) x))"
    obtain o1 z where z: "observe env p ?r (if tr_status ?r = ObsSucceeded
        then update_resource_version p (tr_output ?r) ?x2 else ?x2) = (o1, z)" by fastforce
    with False assms have ob: "ob = Some o1" "y = z" by (auto simp: invoke_def Let_def)
    have x2: "xe_locks ?x2 = xe_locks x" "xe_seen ?x2 = xe_seen x" "holder ?x2 = holder x"
      "exec_state ?x2 = exec_state x"
      by (auto simp: holder_def exec_state_def emit_def split: sum.splits prod.splits)
    have runs: "xe_runs ?x2 = (case ?gate of Inl _ \<Rightarrow> xe_runs x
       | Inr (t, _) \<Rightarrow> xe_runs x @ [(tool_call_of p, tool_side_effect (tl_definition t), Some (tr_status ?r))])"
      by (auto simp: emit_def split: sum.splits prod.splits)
    from observe_fields [OF z] x2 have "xe_locks z = xe_locks x \<and> xe_seen z = xe_seen x \<and> holder z = holder x
      \<and> xe_runs z = xe_runs ?x2 \<and> ob_status o1 = tr_status ?r
      \<and> as_approved_fingerprints (exec_state z) = as_approved_fingerprints (exec_state x)"
      by (auto simp: exec_simps split: if_splits)
    then show ?thesis unfolding ob runs
      by (cases ?gate) (auto simp: tool_runtime_execute_def)
  qed
qed

definition succeeded :: "exec_error + action_outcome \<Rightarrow> bool" where
  "succeeded r = (case r of Inr (ActionObserved _ ob) \<Rightarrow> ob_status ob = ObsSucceeded | _ \<Rightarrow> False)"

definition approvals :: "executor \<Rightarrow> string list" where
  "approvals x = as_approved_fingerprints (exec_state x)"

lemma remember_member: "f \<in> set (as_approved_fingerprints (remember_approval f st))"
  by (simp add: remember_approval_def Let_def approved_fingerprint_limit_def Suc_diff_le)

lemma remember_approval_other:
  "as_session_id (remember_approval f st) = as_session_id st"
  "as_current_task (remember_approval f st) = as_current_task st"
  by (simp_all add: remember_approval_def Let_def)

text \<open>What the histories say after a stage: at most one run, of a tool that the gate let pass, and
  the key of a side-effecting action recorded exactly when the run succeeded.\<close>

definition ran :: "exec_env \<Rightarrow> pending_action \<Rightarrow> executor \<Rightarrow> exec_error + action_outcome \<Rightarrow> executor \<Rightarrow> bool" where
  "ran env p x r y \<longleftrightarrow> (\<exists>t args st.
     tool_gate (en_schema_error env) (en_secrets env) (en_tools env) (tool_call_of p) = Inr (t, args)
     \<and> xe_runs y = xe_runs x @ [(tool_call_of p, tool_side_effect (tl_definition t), st)]
     \<and> (st = Some ObsSucceeded) = succeeded r)"

lemma run_locked_cases:
  assumes "run_locked env p c d approved x = (r, y)"
  shows "xe_locks y = xe_locks x \<and> holder y = holder x
    \<and> (xe_runs y = xe_runs x \<or> ran env p x r y \<and> (tool_side_effect d \<noteq> EffNone \<longrightarrow> pa_idempotency_key p \<notin> set (xe_seen x)))
    \<and> xe_seen y = (if tool_side_effect d \<noteq> EffNone \<and> pa_idempotency_key p \<notin> set (xe_seen x) \<and> succeeded r
        then xe_seen x @ [pa_idempotency_key p] else xe_seen x)
    \<and> (approved \<and> succeeded r \<and> (tool_side_effect d \<noteq> EffNone \<longrightarrow> pa_idempotency_key p \<notin> set (xe_seen x))
        \<longrightarrow> action_fingerprint env p \<in> set (approvals y))"
proof -
  let ?key = "pa_idempotency_key p"
  let ?sided = "tool_side_effect d \<noteq> EffNone"
  let ?x1 = "if ?sided then emit ''IdempotencyChecked'' (pa_action_id p)
                  (x\<lparr>xe_seen := snd (record_key ?key (xe_seen x))\<rparr>) else x"
  have x1: "xe_locks ?x1 = xe_locks x" "holder ?x1 = holder x" "xe_runs ?x1 = xe_runs x"
    by (simp_all add: exec_simps) (simp_all add: holder_def exec_state_def emit_def)
  have seen1: "xe_seen ?x1 = (if ?sided \<and> ?key \<notin> set (xe_seen x) then xe_seen x @ [?key] else xe_seen x)"
    by (simp add: record_key_def exec_simps)
  show ?thesis
  proof (cases "?sided \<and> ?key \<in> set (xe_seen x)")
    case True
    obtain ob z where z: "reconcile_required env p c d ?x1 = (ob, z)" by fastforce
    with assms True have "y = z" "r = Inr (ActionObserved p ob)"
      by (auto simp: run_locked_def Let_def record_key_def)
    with reconcile_required_fields [OF z] x1 seen1 True show ?thesis by simp
  next
    case False
    obtain o1 z where z: "invoke env p ?x1 = (o1, z)" by fastforce
    note inv = invoke_cases [OF z]
    have rec: "(?sided \<and> \<not> (?sided \<and> fst (record_key ?key (xe_seen x)))) = False"
      using False by (auto simp: record_key_def)
    have forget: "forget_key ?key (xe_seen z) = xe_seen x" if ?sided
      using that False inv seen1 by (auto simp: forget_key_def)
    show ?thesis
    proof (cases o1)
      case None
      then have ry: "r = Inl ExecCancelledError" "y = (if ?sided then z\<lparr>xe_seen := forget_key ?key (xe_seen z)\<rparr> else z)"
        using assms False z unfolding run_locked_def Let_def rec by (auto simp: record_key_def)
      have "xe_runs y = xe_runs x \<or> ran env p x r y"
        using inv None x1 ry by (auto simp: ran_def succeeded_def split: sum.splits prod.splits)
      moreover have "xe_seen y = xe_seen x" using ry forget inv seen1 False by auto
      moreover have "xe_locks y = xe_locks x \<and> holder y = holder x"
        using ry inv x1 by (simp add: holder_def exec_state_def)
      moreover have "\<not> succeeded r" by (simp add: ry succeeded_def)
      ultimately show ?thesis using False by auto
    next
      case (Some ob)
      let ?x3 = "if ?sided \<and> ob_status ob \<noteq> ObsSucceeded then z\<lparr>xe_seen := forget_key ?key (xe_seen z)\<rparr> else z"
      have ry: "r = Inr (ActionObserved p ob)"
        "y = (if approved \<and> ob_status ob = ObsSucceeded
              then on_state (remember_approval (action_fingerprint env p)) ?x3 else ?x3)"
        using assms False z Some unfolding run_locked_def Let_def rec by (auto simp: record_key_def)
      have su: "succeeded r = (ob_status ob = ObsSucceeded)" by (simp add: ry succeeded_def)
      have y: "xe_runs y = xe_runs z" "xe_locks y = xe_locks z" "holder y = holder z" "xe_seen y = xe_seen ?x3"
        by (simp_all add: ry exec_simps holder_def remember_approval_other) (simp_all add: exec_state_def)
      have "xe_runs y = xe_runs x \<or> ran env p x r y"
        using inv Some x1 y su by (auto simp: ran_def split: sum.splits prod.splits)
      moreover have "xe_seen y = (if ?sided \<and> ?key \<notin> set (xe_seen x) \<and> succeeded r
        then xe_seen x @ [?key] else xe_seen x)"
        using y(4) forget inv seen1 False su by auto
      moreover have "approved \<and> succeeded r \<longrightarrow> action_fingerprint env p \<in> set (approvals y)"
        by (simp add: ry succeeded_def approvals_def exec_simps remember_member)
      ultimately show ?thesis using False y inv x1 by auto
    qed
  qed
qed

subsection \<open>The stages of an execution\<close>

definition lock_available :: "pending_action \<Rightarrow> executor \<Rightarrow> bool" where
  "lock_available p x \<longleftrightarrow> pa_resource_key p = [] \<or> map_of (xe_locks x) (pa_resource_key p) = None
     \<or> resource_owned_by (pending_lock x p) (xe_locks x)"

text \<open>The locks are as they were, or the action has given back the lock that it owned.\<close>

definition locks_returned :: "pending_action \<Rightarrow> executor \<Rightarrow> executor \<Rightarrow> bool" where
  "locks_returned p x y \<longleftrightarrow> (\<forall>k. map_of (xe_locks y) k = map_of (xe_locks x) k
     \<or> k = pa_resource_key p \<and> map_of (xe_locks x) k = Some (pending_lock x p) \<and> map_of (xe_locks y) k = None)"

definition stage_ok :: "exec_env \<Rightarrow> pending_action \<Rightarrow> tool_definition \<Rightarrow> bool \<Rightarrow> executor
    \<Rightarrow> exec_error + action_outcome \<Rightarrow> executor \<Rightarrow> bool" where
  "stage_ok env p d approved x r y \<longleftrightarrow> locks_returned p x y
     \<and> (xe_runs y = xe_runs x \<or> ran env p x r y \<and> lock_available p x
          \<and> (tool_side_effect d \<noteq> EffNone \<longrightarrow> pa_idempotency_key p \<notin> set (xe_seen x)))
     \<and> xe_seen y = (if tool_side_effect d \<noteq> EffNone \<and> pa_idempotency_key p \<notin> set (xe_seen x) \<and> succeeded r
        then xe_seen x @ [pa_idempotency_key p] else xe_seen x)
     \<and> (approved \<and> succeeded r \<and> (tool_side_effect d \<noteq> EffNone \<longrightarrow> pa_idempotency_key p \<notin> set (xe_seen x))
        \<longrightarrow> action_fingerprint env p \<in> set (approvals y))"

lemma pending_lock_set: "pending_lock (set_pending q x) p = pending_lock x p"
  by (rule pending_lock_holder) (simp add: exec_simps)

lemma acquire_pending_cases:
  assumes "acquire_lock p (set_pending None x) = (a, y)"
  shows "xe_seen y = xe_seen x \<and> xe_runs y = xe_runs x \<and> (\<forall>l. a = LockHeld l \<longrightarrow> lock_available p x)
    \<and> ((\<forall>l. a \<noteq> LockHeld l) \<longrightarrow> xe_locks y = xe_locks x)"
  using acquire_lock_cases [OF assms]
  by (cases a) (auto simp: exec_simps pending_lock_set lock_available_def split: option.splits)

lemma returned_after_hold:
  assumes "acquire_lock p (set_pending None x) = (LockHeld l, y)" and "xe_locks z = xe_locks y"
  shows "locks_returned p x (release_lock l z)"
  using lock_given_back [OF assms] unfolding locks_returned_def pending_lock_set
  by (auto simp: exec_simps)

lemma execute_fresh_stage:
  assumes "execute_fresh env p c d approved x = (r, y)"
  shows "stage_ok env p d approved x r y"
proof -
  obtain a x1 where a: "acquire_lock p (set_pending None x) = (a, x1)" by fastforce
  note acq = acquire_pending_cases [OF a]
  show ?thesis
  proof (cases a)
    case (LockHeld l)
    obtain r2 x2 where r2: "run_locked env p c d approved x1 = (r2, x2)" by fastforce
    note run = run_locked_cases [OF r2]
    have ry: "r = r2" "y = release_lock l x2"
      using assms a LockHeld r2 by (simp_all add: execute_fresh_def)
    have "locks_returned p x y" unfolding ry(2)
      using returned_after_hold [OF a [unfolded LockHeld]] run by blast
    moreover have "xe_runs y = xe_runs x2" "xe_seen y = xe_seen x2" "approvals y = approvals x2"
      by (simp_all add: ry exec_simps approvals_def)
    ultimately show ?thesis using run acq LockHeld ry(1) unfolding stage_ok_def ran_def by auto
  qed (use assms a acq in \<open>auto simp: execute_fresh_def stage_ok_def locks_returned_def succeeded_def\<close>)
qed

lemma execute_duplicate_stage:
  assumes "execute_duplicate env p c d x = (r, y)"
  shows "locks_returned p x y \<and> xe_runs y = xe_runs x \<and> xe_seen y = xe_seen x"
proof -
  obtain a x1 where a: "acquire_lock p (set_pending None x) = (a, x1)" by fastforce
  note acq = acquire_pending_cases [OF a]
  show ?thesis
  proof (cases a)
    case (LockHeld l)
    obtain ob x2 where r2: "reconcile_required env p c d (emit ''IdempotencyChecked'' (pa_action_id p) x1) = (ob, x2)"
      by fastforce
    note run = reconcile_required_fields [OF r2]
    have ry: "y = release_lock l x2"
      using assms a LockHeld r2 by (simp add: execute_duplicate_def)
    have "locks_returned p x y" unfolding ry
      using returned_after_hold [OF a [unfolded LockHeld]] run by (simp add: exec_simps)
    then show ?thesis using run acq by (simp add: ry exec_simps)
  qed (use assms a acq in \<open>auto simp: execute_duplicate_def locks_returned_def\<close>)
qed

lemma execute_confirm_stage:
  assumes "execute_confirm p reason x = (r, y)"
  shows "xe_runs y = xe_runs x \<and> xe_seen y = xe_seen x
    \<and> (case r of Inr (ConfirmationRequired q m) \<Rightarrow> q = p \<and> m = reason \<and> as_pending_action (exec_state y) = Some p
          \<and> lock_available p x
          \<and> (\<forall>k. map_of (xe_locks y) k = (if k = pa_resource_key p \<and> k \<noteq> [] then Some (pending_lock x p)
               else map_of (xe_locks x) k))
       | Inr (ActionObserved _ _) \<Rightarrow> False | _ \<Rightarrow> xe_locks y = xe_locks x)"
proof -
  obtain a x1 where a: "acquire_lock p x = (a, x1)" by fastforce
  note acq = acquire_lock_cases [OF a]
  show ?thesis
  proof (cases a)
    case (LockHeld l)
    then have ry: "r = Inr (ConfirmationRequired p reason)" "y = set_pending (Some p) x1"
      using assms a by (simp_all add: execute_confirm_def)
    have "lock_available p x" using acq LockHeld by (auto simp: lock_available_def split: option.splits)
    moreover have "map_of (xe_locks x1) k = (if k = pa_resource_key p \<and> k \<noteq> [] then Some (pending_lock x p)
               else map_of (xe_locks x) k)" for k
      using acq LockHeld
      by (auto simp: resource_owned_by_def pending_lock_def acquire_lookup split: option.splits)
    moreover have "as_pending_action (exec_state y) = Some p"
      by (simp add: ry set_pending_def exec_simps)
    ultimately show ?thesis using acq by (simp add: ry exec_simps)
  qed (use assms a acq in \<open>auto simp: execute_confirm_def\<close>)
qed

subsection \<open>Execution\<close>

definition sandbox_clear :: "exec_env \<Rightarrow> tool_definition \<Rightarrow> pending_action \<Rightarrow> bool" where
  "sandbox_clear env d p \<longleftrightarrow> (case en_sandbox env of None \<Rightarrow> True
     | Some guard \<Rightarrow> (case guard d p of SandboxAnswer ok _ \<Rightarrow> ok | SandboxViolated _ \<Rightarrow> False))"

definition version_clear :: "pending_action \<Rightarrow> executor \<Rightarrow> bool" where
  "version_clear p x \<longleftrightarrow> pa_resource_key p = [] \<or> pa_resource_version p = None
     \<or> current_version (pa_resource_key p) (xe_versions x) = None
     \<or> pa_resource_version p = current_version (pa_resource_key p) (xe_versions x)"

text \<open>The action that \<open>execute\<close> works on, when the resolution still agrees with what is pending.\<close>

definition executable_action :: "exec_env \<Rightarrow> pending_action
    \<Rightarrow> (pending_action \<times> capability_definition \<times> tool_definition) option" where
  "executable_action env pending =
     (case resolve_registration (en_capabilities env) (en_tools env) (pa_capability pending) of
        Inl _ \<Rightarrow> None
      | Inr r \<Rightarrow>
          let d = tl_definition (rs_tool r); p = ensure_resource_metadata pending (tool_side_effect d)
          in if tool_name d \<noteq> pa_tool_name pending
               \<or> (case rs_capability_domain r of None \<Rightarrow> False | Some dm \<Rightarrow>
                    pa_domain_name pending \<noteq> dom_name dm \<or> pa_domain_version pending \<noteq> dom_version dm)
               \<or> tool_side_effect d \<noteq> EffNone \<and> pa_resource_key p = []
             then None else Some (p, rs_capability r, d))"

lemma execute_eq:
  "execute env pending confirmed remember x = (case executable_action env pending of
     Some (p, c, d) \<Rightarrow> execute_checked env p c d confirmed x
   | None \<Rightarrow> (fst (execute env pending confirmed remember x), x))"
  by (auto simp: execute_def executable_action_def Let_def split: sum.splits option.splits)

lemma execute_none: "executable_action env pending = None \<Longrightarrow>
    \<exists>c m. fst (execute env pending confirmed remember x) = Inr (ActionRejected c m)"
  by (auto simp: execute_def executable_action_def Let_def split: sum.splits option.splits if_splits)

lemma check_sandbox_cases:
  "check_sandbox env d p x = (o1, y) \<Longrightarrow> xe_session y = xe_session x \<and> xe_locks y = xe_locks x
     \<and> xe_versions y = xe_versions x \<and> xe_seen y = xe_seen x \<and> xe_runs y = xe_runs x
     \<and> (o1 = None) = sandbox_clear env d p \<and> (o1 \<noteq> None \<longrightarrow> (\<exists>c m. o1 = Some (ActionRejected c m)))"
  by (auto simp: check_sandbox_def sandbox_clear_def exec_simps split: option.splits sandbox_answer.splits if_splits)

lemma check_version_cases:
  "check_resource_version p x = (o1, y) \<Longrightarrow> xe_session y = xe_session x \<and> xe_locks y = xe_locks x
     \<and> xe_versions y = xe_versions x \<and> xe_seen y = xe_seen x \<and> xe_runs y = xe_runs x
     \<and> (o1 = None \<longrightarrow> version_clear p x)
     \<and> (\<forall>r. o1 = Some r \<longrightarrow> (\<exists>c m. r = Inr (ActionRejected c m)) \<or> (\<exists>e. r = Inl e))"
  by (auto simp: check_resource_version_def verify_version_def version_clear_def exec_simps Let_def
      split: option.splits sum.splits resource_error.splits if_splits)

text \<open>How \<open>execute_checked\<close> ends: refused without a trace in the tables, or through one of the stages.\<close>

lemma execute_checked_cases:
  assumes "execute_checked env p c d confirmed x = (r, y)"
  obtains (refused) "xe_locks y = xe_locks x" "xe_runs y = xe_runs x" "xe_seen y = xe_seen x"
      "(\<exists>code m. r = Inr (ActionRejected code m)) \<or> (\<exists>e. r = Inl e)"
  | (duplicate) x2 where "execute_duplicate env p c d x2 = (r, y)" "xe_session x2 = xe_session x"
      "xe_locks x2 = xe_locks x" "xe_runs x2 = xe_runs x" "xe_seen x2 = xe_seen x"
      "pa_idempotency_key p \<in> set (xe_seen x)" "tool_side_effect d \<noteq> EffNone"
  | (confirm) x2 m where "execute_confirm p m x2 = (r, y)" "xe_session x2 = xe_session x"
      "xe_locks x2 = xe_locks x" "xe_runs x2 = xe_runs x" "xe_seen x2 = xe_seen x"
  | (fresh) x2 where
      "execute_fresh env p c d (confirmed_effective env p confirmed x) x2 = (r, y)" "xe_session x2 = xe_session x"
      "xe_locks x2 = xe_locks x" "xe_runs x2 = xe_runs x" "xe_seen x2 = xe_seen x"
      "pr_effect (action_policy env (exec_state x) p c d (confirmed_effective env p confirmed x)) = Allow"
      "sandbox_clear env d p" "version_clear p x"
      "tool_side_effect d \<noteq> EffNone \<longrightarrow> pa_idempotency_key p \<notin> set (xe_seen x)"
      "read_only_policy_result (exec_state x) c d = None"
proof -
  let ?app = "confirmed_effective env p confirmed x"
  let ?pol = "action_policy env (exec_state x) p c d ?app"
  let ?x1 = "emit ''PolicyChecked'' (pa_action_id p) x"
  obtain o1 x2 where s: "check_sandbox env d p ?x1 = (o1, x2)" by fastforce
  note sb = check_sandbox_cases [OF s, simplified exec_simps]
  obtain o2 x3 where v: "check_resource_version p x2 = (o2, x3)" by fastforce
  note vc = check_version_cases [OF v]
  have vclear: "version_clear p x2 = version_clear p x" using sb by (simp add: version_clear_def exec_simps emit_def)
  show thesis
  proof (cases "pr_effect ?pol = Deny")
    case True
    then show thesis using assms by (intro refused) (auto simp: execute_checked_def Let_def exec_simps)
  next
    case nd: False
    show thesis
    proof (cases o1)
      case (Some rej)
      then show thesis using assms nd s sb by (intro refused) (auto simp: execute_checked_def Let_def)
    next
      case None
      show thesis
      proof (cases "tool_side_effect d \<noteq> EffNone \<and> key_seen (pa_idempotency_key p) (xe_seen x2)")
        case True
        then show thesis using assms nd s None sb
          by (intro duplicate [of x2]) (auto simp: execute_checked_def Let_def key_seen_def)
      next
        case unseen: False
        show thesis
        proof (cases o2)
          case (Some r')
          then show thesis using assms nd s None sb unseen v vc
            by (intro refused) (auto simp: execute_checked_def Let_def)
        next
          case vn: None
          have app: "(?app \<and> read_only_policy_result (exec_state x) c d = None) = ?app"
            if "pr_effect ?pol = Allow"
            using that by (auto simp: action_policy_def read_only_policy_result_def split: option.splits if_splits)
          have ro: "read_only_policy_result (exec_state x) c d = None" if "pr_effect ?pol \<noteq> Deny"
            using that by (auto simp: action_policy_def read_only_policy_result_def split: option.splits if_splits)
          show thesis
          proof (cases "pr_effect ?pol")
            case RequireConfirmation
            then show thesis using assms s None sb unseen v vc vn
              by (intro confirm [of _ x3]) (auto simp: execute_checked_def Let_def)
          next
            case Allow
            have e: "execute_fresh env p c d (?app \<and> read_only_policy_result (exec_state x) c d = None) x3 = (r, y)"
              using assms nd s None unseen v vn Allow by (auto simp: execute_checked_def Let_def)
            show thesis
              by (rule fresh [of x3])
                (use e [unfolded app [OF Allow]] sb vc None vn unseen Allow vclear ro in \<open>auto simp: key_seen_def\<close>)
          qed (use nd in simp)
        qed
      qed
    qed
  qed
qed

lemma same_session:
  "xe_session x2 = xe_session x \<Longrightarrow> pending_lock x2 p = pending_lock x p"
  "xe_session x2 = xe_session x \<Longrightarrow> xe_locks x2 = xe_locks x \<Longrightarrow> lock_available p x2 = lock_available p x"
  "xe_session x2 = xe_session x \<Longrightarrow> xe_locks x2 = xe_locks x \<Longrightarrow> locks_returned p x2 y = locks_returned p x y"
  by (simp_all add: pending_lock_def exec_state_def lock_available_def locks_returned_def)

lemma ran_same: "xe_runs x2 = xe_runs x \<Longrightarrow> ran env p x2 r y = ran env p x r y"
  by (simp add: ran_def)

lemma fresh_summary:
  assumes "execute_fresh env p c d a x2 = (r, y)" "xe_session x2 = xe_session x"
    "xe_locks x2 = xe_locks x" "xe_runs x2 = xe_runs x" "xe_seen x2 = xe_seen x"
  shows "stage_ok env p d a x r y"
  using execute_fresh_stage [OF assms(1)] unfolding stage_ok_def
  by (simp add: same_session [OF assms(2)] assms ran_same [OF assms(4)])

text \<open>C17. A tool runs only when every gate has cleared its action. If an execution runs a tool at all,
  it runs it once, for the action as resolved now: the capability still resolves to the tool and
  domain of the pending action, the policy allows it (with a confirmation given now or
  remembered for an identical action, where one is required), the sandbox permits it, the known
  version of the resource is the expected one, the lock of the resource was free or its own, and
  a side-effecting action names its resource and has no recorded execution under its key.\<close>

theorem tool_runs_only_when_cleared:
  assumes "execute env pending confirmed remember x = (r, y)" and "xe_runs y \<noteq> xe_runs x"
  shows "\<exists>p c d. executable_action env pending = Some (p, c, d) \<and> ran env p x r y
    \<and> pr_effect (action_policy env (exec_state x) p c d (confirmed_effective env p confirmed x)) = Allow
    \<and> sandbox_clear env d p \<and> version_clear p x \<and> lock_available p x
    \<and> (tool_side_effect d = EffNone
       \<or> \<not> as_read_only (exec_state x) \<and> pa_resource_key p \<noteq> [] \<and> pa_idempotency_key p \<notin> set (xe_seen x))"
proof (cases "executable_action env pending")
  case None
  then show ?thesis using assms execute_eq [of env pending confirmed remember x] by simp
next
  case (Some pcd)
  then obtain p c d where pcd: "executable_action env pending = Some (p, c, d)" by (cases pcd) auto
  then have e: "execute_checked env p c d confirmed x = (r, y)"
    using assms(1) execute_eq [of env pending confirmed remember x] by simp
  from e show ?thesis
  proof (cases rule: execute_checked_cases)
    case refused
    then show ?thesis using assms(2) by simp
  next
    case (duplicate x2)
    then show ?thesis using assms(2) execute_duplicate_stage by metis
  next
    case (confirm x2 m)
    then show ?thesis using assms(2) execute_confirm_stage by metis
  next
    case (fresh x2)
    from fresh_summary [OF fresh(1-5)] have "ran env p x r y" "lock_available p x"
      using assms(2) by (simp_all add: stage_ok_def)
    moreover have "tool_side_effect d \<noteq> EffNone \<longrightarrow> pa_resource_key p \<noteq> []"
      using pcd by (auto simp: executable_action_def Let_def split: sum.splits if_splits)
    moreover have "tool_side_effect d \<noteq> EffNone \<longrightarrow> \<not> as_read_only (exec_state x)"
      using fresh(10) by (auto simp: read_only_policy_result_def split: if_splits)
    ultimately show ?thesis using fresh pcd by blast
  qed
qed


subsection \<open>A side effect succeeds at most once\<close>

lemma resolved_tool_registered:
  assumes "tools_wf tools" and "resolve_registration caps tools name = Inr r"
  shows "\<exists>x. map_of tools (tool_name (tl_definition (rs_tool r))) = Some x \<and> tg_tool x = rs_tool r"
proof -
  let ?t = "best_tool (tools_for_capability tools name)"
  from assms(2) have ne: "tools_for_capability tools name \<noteq> []" and r: "rs_tool r = tg_tool ?t"
    by (auto simp: resolve_registration_def Let_def split: sum.splits if_splits)
  then have "?t \<in> set (tools_for_capability tools name)"
    unfolding best_tool_def by (intro hd_sort_key)
  then have "?t \<in> set (dict_values tools)" by (auto simp: tools_for_capability_def)
  then obtain n where "(n, ?t) \<in> set tools" by auto
  then have "map_of tools (tool_name (tl_definition (tg_tool ?t))) = Some ?t"
    using assms(1) by (auto simp: tools_wf_def)
  then show ?thesis using r by auto
qed

lemma executable_action_tool:
  assumes "tools_wf (en_tools env)" and "executable_action env pending = Some (p, c, d)"
    and "tool_gate (en_schema_error env) (en_secrets env) (en_tools env) (tool_call_of p) = Inr (t, args)"
  shows "tl_definition t = d"
proof -
  from assms(2) obtain r where r: "resolve_registration (en_capabilities env) (en_tools env) (pa_capability pending) = Inr r"
    "d = tl_definition (rs_tool r)" "tool_name d = pa_tool_name pending"
    "p = ensure_resource_metadata pending (tool_side_effect d)"
    by (auto simp: executable_action_def Let_def split: sum.splits if_splits)
  then have "tc_tool_name (tool_call_of p) = tool_name d"
    by (auto simp: tool_call_of_def ensure_resource_metadata_def Let_def split: prod.splits)
  moreover from resolved_tool_registered [OF assms(1) r(1)]
  obtain x where "map_of (en_tools env) (tool_name d) = Some x" "tg_tool x = rs_tool r" using r(2) by auto
  ultimately show ?thesis using assms(3) r(2)
    by (auto simp: tool_gate_def resolve_tool_def Let_def split: sum.splits if_splits option.splits)
qed

definition successes :: "string \<Rightarrow> executor \<Rightarrow> nat" where
  "successes k x = length (filter (\<lambda>(call, eff, st). eff \<noteq> EffNone \<and> st = Some ObsSucceeded
     \<and> tc_idempotency_key call = k) (xe_runs x))"

definition once_inv :: "executor \<Rightarrow> bool" where
  "once_inv x \<longleftrightarrow> (\<forall>k. successes k x \<le> (if k \<in> set (xe_seen x) then 1 else 0))"

lemma once_inv_same: "xe_runs y = xe_runs x \<Longrightarrow> xe_seen y = xe_seen x \<Longrightarrow> once_inv y = once_inv x"
  by (simp add: once_inv_def successes_def)

lemma once_inv_execute:
  assumes wf: "tools_wf (en_tools env)" and inv: "once_inv x"
    and e: "execute env pending confirmed remember x = (r, y)"
  shows "once_inv y"
proof (cases "executable_action env pending")
  case None
  then show ?thesis using e inv execute_eq [of env pending confirmed remember x] by simp
next
  case (Some pcd)
  then obtain p c d where pcd: "executable_action env pending = Some (p, c, d)" by (cases pcd) auto
  then have "execute_checked env p c d confirmed x = (r, y)"
    using e execute_eq [of env pending confirmed remember x] by simp
  then show ?thesis
  proof (cases rule: execute_checked_cases)
    case refused
    then show ?thesis using inv once_inv_same by blast
  next
    case (duplicate x2)
    then show ?thesis using execute_duplicate_stage [OF duplicate(1)] inv once_inv_same [of y x] by simp
  next
    case (confirm x2 m)
    then show ?thesis using execute_confirm_stage [OF confirm(1)] inv once_inv_same [of y x] by simp
  next
    case (fresh x2)
    let ?key = "pa_idempotency_key p" and ?sided = "tool_side_effect d \<noteq> EffNone"
    from fresh_summary [OF fresh(1-5)] have seen: "xe_seen y = (if ?sided \<and> ?key \<notin> set (xe_seen x) \<and> succeeded r
        then xe_seen x @ [?key] else xe_seen x)"
      and runs: "xe_runs y = xe_runs x \<or> ran env p x r y" by (auto simp: stage_ok_def)
    have bound: "successes k x \<le> (if k \<in> set (xe_seen x) then 1 else 0)" for k
      using inv by (simp add: once_inv_def)
    show ?thesis
    proof (cases "xe_runs y = xe_runs x")
      case True
      then have eq: "successes k y = successes k x" for k by (simp add: successes_def)
      have "set (xe_seen x) \<subseteq> set (xe_seen y)" using seen by auto
      then have "successes k y \<le> (if k \<in> set (xe_seen y) then 1 else 0)" for k
        using bound [of k] eq [of k] by (auto split: if_splits)
      then show ?thesis by (simp add: once_inv_def)
    next
      case False
      then obtain t args st where t: "tool_gate (en_schema_error env) (en_secrets env) (en_tools env) (tool_call_of p) = Inr (t, args)"
        "xe_runs y = xe_runs x @ [(tool_call_of p, tool_side_effect (tl_definition t), st)]"
        "(st = Some ObsSucceeded) = succeeded r" using runs by (auto simp: ran_def)
      have "tl_definition t = d" using executable_action_tool [OF wf pcd t(1)] .
      then have eq: "successes k y = successes k x + (if ?sided \<and> succeeded r \<and> k = ?key then 1 else 0)" for k
        using t(2,3) by (auto simp: successes_def tool_call_of_def)
      have "successes k y \<le> (if k \<in> set (xe_seen y) then 1 else 0)" for k
        using bound [of k] eq [of k] seen fresh(9) by (auto split: if_splits)
      then show ?thesis by (simp add: once_inv_def)
    qed
  qed
qed

lemma prepare_cases:
  assumes "prepare env decision x = (r, y)"
  shows "y = x \<or> (\<exists>p x1. execute env p False False x1 = (r, y) \<and> xe_runs x1 = xe_runs x \<and> xe_seen x1 = xe_seen x
      \<and> xe_session x1 = xe_session x \<and> xe_locks x1 = xe_locks x)"
proof (cases "resolve_registration (en_capabilities env) (en_tools env) (or_empty (d_capability decision))")
  case (Inl e)
  then show ?thesis using assms by (cases e) (auto simp: prepare_def)
next
  case (Inr rs)
  let ?c = "rs_capability rs" and ?d = "tl_definition (rs_tool rs)"
  obtain dc added where e: "enrich_decision_arguments env (xe_session x) decision ?c ?d (rs_capability_domain rs) = (dc, added)"
    by fastforce
  obtain rkey rversion where m: "resource_metadata (tool_side_effect ?d) (cap_name ?c) (d_target dc) (d_arguments dc) = (rkey, rversion)"
    by fastforce
  show ?thesis
  proof (cases "tool_side_effect ?d \<noteq> EffNone \<and> rkey = []")
    case True
    then show ?thesis using assms Inr e m by (simp add: prepare_def Let_def)
  next
    case False
    then show ?thesis using assms unfolding prepare_def Inr Let_def sum.case e m prod.case if_not_P [OF False]
      by (intro disjI2) (rule exI, rule exI, rule conjI, assumption, simp add: exec_simps)
  qed
qed

text \<open>The life of an executor (with registries as \<open>register_tool\<close> builds them): executions and preparations with any environments, the release of a
  pending lock, and whatever the rest of the runtime does to the session in between.\<close>

datatype exec_event = EvExecute exec_env pending_action bool bool | EvPrepare exec_env decision
  | EvReleasePending pending_action | EvSession "session \<Rightarrow> session"

fun exec_step :: "executor \<Rightarrow> exec_event \<Rightarrow> executor" where
  "exec_step x (EvExecute env p confirmed remember) =
     (if tools_wf (en_tools env) then snd (execute env p confirmed remember x) else x)"
| "exec_step x (EvPrepare env d) = (if tools_wf (en_tools env) then snd (prepare env d x) else x)"
| "exec_step x (EvReleasePending p) = release_pending_resource p x"
| "exec_step x (EvSession f) = x\<lparr>xe_session := f (xe_session x)\<rparr>"

definition new_executor :: "session \<Rightarrow> executor" where
  "new_executor s = \<lparr>xe_session = s, xe_locks = [], xe_versions = [], xe_seen = [], xe_events = [], xe_runs = []\<rparr>"

lemma once_inv_step: "once_inv x \<Longrightarrow> once_inv (exec_step x e)"
proof (cases e)
  case (EvExecute env p c rm)
  assume "once_inv x"
  with EvExecute show ?thesis
    using once_inv_execute [of env x p c rm "fst (execute env p c rm x)" "snd (execute env p c rm x)"] by simp
next
  case (EvPrepare env d)
  assume inv: "once_inv x"
  obtain r y where y: "prepare env d x = (r, y)" by fastforce
  have "once_inv y" if "tools_wf (en_tools env)"
    using prepare_cases [OF y]
  proof (elim disjE exE conjE)
    fix p x1
    assume x1: "execute env p False False x1 = (r, y)" "xe_runs x1 = xe_runs x" "xe_seen x1 = xe_seen x"
    then have "once_inv x1" using inv once_inv_same by blast
    then show "once_inv y" using once_inv_execute [OF that _ x1(1)] by blast
  qed (simp add: inv)
  with EvPrepare inv y show ?thesis by simp
next
  case (EvReleasePending p)
  assume "once_inv x"
  with EvReleasePending show ?thesis
    using once_inv_same [of "release_pending_resource p x" x]
    by (simp add: release_pending_resource_def exec_simps)
next
  case (EvSession f)
  assume "once_inv x"
  with EvSession show ?thesis using once_inv_same [of "x\<lparr>xe_session := f (xe_session x)\<rparr>" x] by simp
qed

interpretation ex: invariant_system exec_step "new_executor s" once_inv
  by unfold_locales (simp add: once_inv_def new_executor_def successes_def, rule once_inv_step)

text \<open>A side effect succeeds at most once. Over any life of an executor (executions of any pending
  actions with any tools, policies and confirmations, cancellations in the middle of a run,
  changes of the session in between), among all runs of side-effecting tools under one
  idempotency key at most one succeeded, and when one did, its key stays recorded.\<close>

theorem side_effect_succeeds_once:
  "successes k (run_events exec_step (new_executor s) es) \<le> 1
   \<and> (successes k (run_events exec_step (new_executor s) es) = 0
      \<or> k \<in> set (xe_seen (run_events exec_step (new_executor s) es)))"
  using ex.inv_run_init [of s es] by (auto simp: once_inv_def dest: spec [of _ k] split: if_splits)


subsection \<open>What a run leaves behind\<close>

lemma run_summary:
  assumes "execute env pending confirmed remember x = (r, y)" and "xe_runs y \<noteq> xe_runs x"
  obtains p c d where "executable_action env pending = Some (p, c, d)"
    "stage_ok env p d (confirmed_effective env p confirmed x) x r y"
    "tool_side_effect d \<noteq> EffNone \<longrightarrow> pa_idempotency_key p \<notin> set (xe_seen x)"
proof (cases "executable_action env pending")
  case None
  then show thesis using assms execute_eq [of env pending confirmed remember x] by simp
next
  case (Some pcd)
  then obtain p c d where pcd: "executable_action env pending = Some (p, c, d)" by (cases pcd) auto
  then have "execute_checked env p c d confirmed x = (r, y)"
    using assms(1) execute_eq [of env pending confirmed remember x] by simp
  then show thesis
  proof (cases rule: execute_checked_cases)
    case refused
    then show thesis using assms(2) by simp
  next
    case (duplicate x2)
    then show thesis using assms(2) execute_duplicate_stage by metis
  next
    case (confirm x2 m)
    then show thesis using assms(2) execute_confirm_stage by metis
  next
    case (fresh x2)
    from fresh_summary [OF fresh(1-5)] that [OF pcd] fresh(9) show thesis by blast
  qed
qed

text \<open>A confirmed run that succeeds is remembered as an approval, also when the caller asks not to
  remember it: after \<open>execute\<close> with \<open>confirmed\<close> set and \<open>remember\<close> unset, every action with the same
  capability, target and arguments counts as confirmed without being asked for again.\<close>

theorem approval_remembered_unasked:
  assumes "execute env pending True False x = (r, y)" and "xe_runs y \<noteq> xe_runs x" and "succeeded r"
    and "executable_action env pending = Some (p, c, d)"
    and "action_fingerprint env q = action_fingerprint env p"
  shows "confirmed_effective env q False y"
  using assms(1,2)
proof (rule run_summary)
  fix p' c' d'
  assume a: "executable_action env pending = Some (p', c', d')"
    "stage_ok env p' d' (confirmed_effective env p' True x) x r y"
    "tool_side_effect d' \<noteq> EffNone \<longrightarrow> pa_idempotency_key p' \<notin> set (xe_seen x)"
  then have "action_fingerprint env p' \<in> set (approvals y)"
    using assms(3) unfolding stage_ok_def by (simp add: confirmed_effective_def)
  then show ?thesis using a(1) assms(4,5) by (simp add: confirmed_effective_def approvals_def)
qed

text \<open>Only a success leaves a record. A run that fails, times out, ends with an unknown outcome or is
  cancelled in the middle leaves the idempotency record exactly as it was, so that the record
  does not stop the same side effect from being run again.\<close>

theorem unsuccessful_run_leaves_no_record:
  assumes "execute env pending confirmed remember x = (r, y)" and "xe_runs y \<noteq> xe_runs x"
    and "\<not> succeeded r"
  shows "xe_seen y = xe_seen x"
  using assms(1,2) by (rule run_summary) (simp add: stage_ok_def assms(3))

subsection \<open>A sample environment\<close>

definition confirm_all :: policy_rule where
  "confirm_all = \<lparr>pl_name = ''confirm-all'', pl_effect = RequireConfirmation, pl_reason = ''risky'',
     pl_capabilities = [], pl_categories = [], pl_risks = []\<rparr>"

definition sample_env :: "(json_mapping \<Rightarrow> tool_run) \<Rightarrow> exec_env" where
  "sample_env run = \<lparr>en_capabilities = sample_registry,
     en_tools = snd (register_tool ((echo_tool ''a'' [''drop''] 2 EffDestructive)\<lparr>tl_execute := run\<rparr>) None []),
     en_policies = [rule_policy confirm_all], en_environment = [], en_schema_error = (\<lambda>_ _. None),
     en_secrets = Inr, en_sandbox = None, en_providers = (\<lambda>_. []), en_reconcilers = (\<lambda>_. []),
     en_dumps = (\<lambda>_. ''json''), en_sha256 = id, en_redact = id, en_redact_text = id,
     en_action_id = ''act'', en_observation_id = ''obs'', en_now = 0, en_cancelled = False\<rparr>"

definition sample_pending :: pending_action where
  "sample_pending = \<lparr>pa_action_id = ''act'', pa_capability = ''drop'', pa_tool_name = ''a'',
     pa_target = Some ''db'', pa_arguments = [(''x'', JInt 1)], pa_domain_name = [], pa_domain_version = [],
     pa_idempotency_key = ''key'', pa_parameters_hash = ''h'', pa_attempt = 1, pa_resource_key = ''db'',
     pa_resource_version = None\<rparr>"

definition sample_executor :: executor where
  "sample_executor = new_executor (fresh_session ''s'' sample_goal sample_root)"

definition sample_run :: "(json_mapping \<Rightarrow> tool_run) \<Rightarrow> bool \<Rightarrow> (exec_error + action_outcome) \<times> executor" where
  "sample_run run confirmed = execute (sample_env run) sample_pending confirmed False sample_executor"

lemma sample_pair: "execute (sample_env run) sample_pending b False sample_executor
    = (fst (sample_run run b), snd (sample_run run b))"
  by (simp add: sample_run_def)

lemma sample_action: "executable_action (sample_env run) sample_pending =
    Some (sample_pending, sample_caps ! 1, tl_definition (echo_tool ''a'' [''drop''] 2 EffDestructive))"
  by code_simp

lemma sample_confirmed: "xe_runs (snd (sample_run Returned True)) \<noteq> xe_runs sample_executor"
    "succeeded (fst (sample_run Returned True))"
  by code_simp+

theorem tool_runs_only_when_cleared_witness:
  "pr_effect (action_policy (sample_env Returned) (exec_state sample_executor) sample_pending (sample_caps ! 1)
     (tl_definition (echo_tool ''a'' [''drop''] 2 EffDestructive)) True) = Allow
   \<and> lock_available sample_pending sample_executor"
  using tool_runs_only_when_cleared [OF sample_pair sample_confirmed(1)]
  by (simp add: sample_action confirmed_effective_def)


theorem approval_remembered_unasked_witness:
  "confirmed_effective (sample_env Returned) (sample_pending\<lparr>pa_action_id := ''later''\<rparr>) False
     (snd (sample_run Returned True))"
  by (rule approval_remembered_unasked [OF sample_pair sample_confirmed sample_action])
    (simp add: action_fingerprint_def)

theorem unsuccessful_run_leaves_no_record_witness:
  "xe_seen (snd (sample_run (\<lambda>_. RunTimeout) True)) = []
   \<and> length (xe_runs (snd (sample_run (\<lambda>_. RunTimeout) True))) = 1
   \<and> length (xe_runs (snd (execute (sample_env (\<lambda>_. RunTimeout)) sample_pending True False
       (snd (sample_run (\<lambda>_. RunTimeout) True))))) = 2"
proof -
  have 1: "xe_runs (snd (sample_run (\<lambda>_. RunTimeout) True)) \<noteq> xe_runs sample_executor"
    "\<not> succeeded (fst (sample_run (\<lambda>_. RunTimeout) True))" by code_simp+
  have 2: "length (xe_runs (snd (sample_run (\<lambda>_. RunTimeout) True))) = 1"
    "length (xe_runs (snd (execute (sample_env (\<lambda>_. RunTimeout)) sample_pending True False
       (snd (sample_run (\<lambda>_. RunTimeout) True))))) = 2" by code_simp+
  have "xe_seen sample_executor = []" by (simp add: sample_executor_def new_executor_def)
  with unsuccessful_run_leaves_no_record [OF sample_pair 1] 2 show ?thesis by simp
qed

end
