(* ===== verification/World_Safety.thy ===== *)
theory World_Safety
  imports World_Model
begin

text \<open>
  The world model against its reference: the bounded bucket of a fact answers as the unbounded
  list of all evidence would, the cache never answers with a stale snapshot, and a session never
  sees what happens in another one.
\<close>

subsection \<open>Arbitration\<close>

lemma max_by_in: "max_by f b xs \<in> insert b (set xs)"
  by (induction xs arbitrary: b) (auto split: if_splits)

lemma max_by_ge:
  fixes f :: "'a \<Rightarrow> 'b::linorder"
  shows "y \<in> insert b (set xs) \<Longrightarrow> f y \<le> f (max_by f b xs)"
proof (induction xs arbitrary: b y)
  case (Cons x xs)
  have le: "f z \<le> f (max_by f (if f b < f x then x else b) xs)"
    if "z \<in> insert (if f b < f x then x else b) (set xs)" for z
    using Cons.IH that .
  show ?case
  proof (cases "y = b \<or> y = x")
    case True
    then have "f y \<le> f (if f b < f x then x else b)" by auto
    then show ?thesis using le [of "if f b < f x then x else b"] by simp
  next
    case False
    then show ?thesis using le [of y] Cons.prems by simp
  qed
qed simp

lemma current_fact_in: "es \<noteq> [] \<Longrightarrow> current_fact es \<in> set es"
  using max_by_in [of arbitration_key "hd es" "tl es"] by (cases es) (auto simp: current_fact_def)

lemma current_fact_ge: "e \<in> set es \<Longrightarrow> arbitration_key e \<le> arbitration_key (current_fact es)"
  using max_by_ge [of e "hd es" "tl es" arbitration_key] by (cases es) (auto simp: current_fact_def)

text \<open>Among evidence with different identifiers the winner is determined by being greatest.\<close>

lemma current_fact_unique:
  assumes "inj_on ev_id (set es)" and "e \<in> set es" and "\<And>x. x \<in> set es \<Longrightarrow> arbitration_key x \<le> arbitration_key e"
  shows "current_fact es = e"
proof -
  have ne: "es \<noteq> []" using assms(2) by auto
  have "arbitration_key (current_fact es) = arbitration_key e"
    using assms(3) [OF current_fact_in [OF ne]] current_fact_ge [OF assms(2)] by (rule order_antisym)
  then have "ev_id (current_fact es) = ev_id e" by (simp add: arbitration_key_def)
  then show ?thesis using assms(1,2) current_fact_in [OF ne] by (meson inj_onD)
qed

lemma conflicting_iff:
  "has_conflicting_values dumps es = (1 < card ((\<lambda>e. dumps (ev_value e)) ` set es))"
  by (simp add: has_conflicting_values_def card_set [symmetric] flip: set_map)

subsection \<open>Trimming\<close>

lemma in_set_not_Nil: "x \<in> set xs \<Longrightarrow> xs \<noteq> []"
  by auto

lemma newest_per_value_sub: "set (newest_per_value dumps es seen) \<subseteq> ev_id ` set es"
  by (induction dumps es seen rule: newest_per_value.induct) auto

lemma newest_per_value_length:
  "length (newest_per_value dumps es seen) = card ((\<lambda>e. dumps (ev_value e)) ` set es - set seen)"
proof (induction dumps es seen rule: newest_per_value.induct)
  case (2 dumps e es seen)
  let ?f = "\<lambda>e. dumps (ev_value e)"
  show ?case
  proof (cases "?f e \<in> set seen")
    case True
    then show ?thesis using 2(1) by (simp add: insert_Diff_if)
  next
    case False
    have "insert (?f e) (?f ` set es) - set seen = insert (?f e) (?f ` set es - insert (?f e) (set seen))"
      using False by auto
    then show ?thesis using 2(2) False by simp
  qed
qed simp

lemma newest_per_value_covers:
  "e \<in> set es \<Longrightarrow> dumps (ev_value e) \<in> set seen
    \<or> (\<exists>x \<in> set es. dumps (ev_value x) = dumps (ev_value e) \<and> ev_id x \<in> set (newest_per_value dumps es seen))"
  by (induction dumps es seen rule: newest_per_value.induct) auto

lemma fill_up_sub: "set kept \<subseteq> set (fill_up cap es kept ids) \<and> set (fill_up cap es kept ids) \<subseteq> set kept \<union> set es"
  by (induction cap es kept ids rule: fill_up.induct) auto

lemma fill_up_length: "length (fill_up cap es kept ids) \<le> max cap (length kept)"
  by (induction cap es kept ids rule: fill_up.induct) (auto simp: max_def split: if_splits)

lemma fill_up_distinct:
  "distinct (map ev_id kept) \<Longrightarrow> ev_id ` set kept \<subseteq> set ids \<Longrightarrow> distinct (map ev_id (fill_up cap es kept ids))"
  by (induction cap es kept ids rule: fill_up.induct) auto

lemma set_sort_reverse [simp]: "set (sort_reverse f xs) = set xs"
  by (simp add: sort_reverse_def)

text \<open>What a bucket has in common with the full list of the evidence that went into it.\<close>

definition represents :: "(json \<Rightarrow> string) \<Rightarrow> nat \<Rightarrow> evidence list \<Rightarrow> evidence list \<Rightarrow> bool" where
  "represents dumps cap b es \<longleftrightarrow> set b \<subseteq> set es \<and> distinct (map ev_id b) \<and> (es \<noteq> [] \<longrightarrow> b \<noteq> [])
     \<and> (es \<noteq> [] \<longrightarrow> current_fact es \<in> set b)
     \<and> (\<lambda>e. dumps (ev_value e)) ` set b = (\<lambda>e. dumps (ev_value e)) ` set es
     \<and> length b \<le> max cap (Suc (card ((\<lambda>e. dumps (ev_value e)) ` set es)))"

lemma trim_represents:
  assumes "distinct (map ev_id b)" and "b \<noteq> []"
  shows "represents dumps cap (trim_bucket dumps cap b) b"
proof (cases "length b \<le> cap")
  case True
  then show ?thesis using assms current_fact_in [of b] by (simp add: represents_def trim_bucket_def)
next
  case False
  let ?f = "\<lambda>e. dumps (ev_value e)"
  let ?new = "newest_per_value dumps (sort_reverse evidence_key b) []"
  let ?ids = "ev_id (current_fact b) # ?new"
  let ?kept = "filter (\<lambda>e. ev_id e \<in> set ?ids) b"
  have t: "trim_bucket dumps cap b = fill_up cap (sort_reverse evidence_key b) ?kept ?ids"
    using False by (simp add: trim_bucket_def Let_def)
  have sub: "set ?kept \<subseteq> set (trim_bucket dumps cap b)" "set (trim_bucket dumps cap b) \<subseteq> set b"
    unfolding t using fill_up_sub [of ?kept cap "sort_reverse evidence_key b" ?ids] by auto
  have cur: "current_fact b \<in> set ?kept" using current_fact_in [OF assms(2)] by simp
  have dist: "distinct (map ev_id (trim_bucket dumps cap b))"
    unfolding t by (intro fill_up_distinct distinct_map_filter assms(1)) auto
  have "?f ` set b \<subseteq> ?f ` set ?kept"
  proof
    fix v assume "v \<in> ?f ` set b"
    then obtain e where "e \<in> set b" "v = ?f e" by auto
    with newest_per_value_covers [of e "sort_reverse evidence_key b" dumps "[]"]
    obtain x where "x \<in> set b" "?f x = v" "ev_id x \<in> set ?new" by auto
    then show "v \<in> ?f ` set ?kept" by force
  qed
  then have vals: "?f ` set (trim_bucket dumps cap b) = ?f ` set b"
    using image_mono [OF sub(1), of ?f] image_mono [OF sub(2), of ?f] by order
  have "length ?kept = card (ev_id ` set ?kept)"
    using distinct_map_filter [OF assms(1)] by (metis distinct_card length_map set_map)
  also have "\<dots> \<le> card (set ?ids)" by (intro card_mono) auto
  also have "\<dots> \<le> length ?ids" by (rule card_length)
  also have "\<dots> = Suc (card (?f ` set b))" by (simp add: newest_per_value_length)
  finally have kept: "length ?kept \<le> Suc (card (?f ` set b))" .
  have "length (trim_bucket dumps cap b) \<le> max cap (length ?kept)"
    unfolding t by (rule fill_up_length)
  also have "\<dots> \<le> max cap (Suc (card (?f ` set b)))" by (rule max.mono [OF order_refl kept])
  finally have len: "length (trim_bucket dumps cap b) \<le> max cap (Suc (card (?f ` set b)))" .
  have best: "current_fact b \<in> set (trim_bucket dumps cap b)" using sub(1) cur by (rule subsetD)
  then have "trim_bucket dumps cap b \<noteq> []" by (rule in_set_not_Nil)
  then show ?thesis unfolding represents_def using sub(2) dist best vals len by (intro conjI impI)
qed

lemma represents_add:
  assumes b: "represents dumps cap b es" and new: "ev_id e \<notin> ev_id ` set es" and d: "distinct (map ev_id es)"
  shows "represents dumps cap (add_to_bucket dumps cap e b) (es @ [e])"
proof -
  let ?f = "\<lambda>e. dumps (ev_value e)"
  have sub: "set b \<subseteq> set es" and db: "distinct (map ev_id b)" and vals: "?f ` set b = ?f ` set es"
    using b by (auto simp: represents_def)
  have fresh: "ev_id e \<notin> ev_id ` set b" using new sub by auto
  then have add: "add_to_bucket dumps cap e b = trim_bucket dumps cap (b @ [e])"
    by (simp add: add_to_bucket_def)
  have "distinct (map ev_id (b @ [e]))" using db fresh by auto
  then have t: "represents dumps cap (trim_bucket dumps cap (b @ [e])) (b @ [e])"
    by (rule trim_represents) simp
  have "distinct (map ev_id (es @ [e]))" using d new by auto
  then have inj: "inj_on ev_id (set (es @ [e]))" by (simp only: distinct_map)
  have "current_fact (es @ [e]) = current_fact (b @ [e])"
  proof (rule current_fact_unique [OF inj])
    show "current_fact (b @ [e]) \<in> set (es @ [e])" by (rule subsetD [OF _ current_fact_in]) (use sub in auto)
    fix x assume x: "x \<in> set (es @ [e])"
    show "arbitration_key x \<le> arbitration_key (current_fact (b @ [e]))"
    proof (cases "x \<in> set es")
      case True
      then have "arbitration_key x \<le> arbitration_key (current_fact es)" by (rule current_fact_ge)
      moreover have "current_fact es \<in> set (b @ [e])" using b True by (auto simp: represents_def)
      then have "arbitration_key (current_fact es) \<le> arbitration_key (current_fact (b @ [e]))"
        by (rule current_fact_ge)
      ultimately show ?thesis by (rule order_trans)
    next
      case False
      then have "x \<in> set (b @ [e])" using x by simp
      then show ?thesis by (rule current_fact_ge)
    qed
  qed
  moreover have "?f ` set (b @ [e]) = ?f ` set (es @ [e])" using vals by simp
  moreover have "set (b @ [e]) \<subseteq> set (es @ [e])" using sub by auto
  ultimately show ?thesis using t unfolding add represents_def
    by (metis (no_types, lifting) Nil_is_append_conv not_Cons_self2 order_trans)
qed

lemma represents_fold:
  assumes "distinct (map ev_id es)"
  shows "represents dumps cap (fold (add_to_bucket dumps cap) es []) es"
  using assms
proof (induction es rule: rev_induct)
  case Nil
  show ?case by (simp add: represents_def)
next
  case (snoc e es)
  then show ?case by (auto intro: represents_add)
qed

subsection \<open>The buckets of the model\<close>

definition fact_key :: "evidence \<Rightarrow> string \<times> string \<times> string" where
  "fact_key e = (ev_session_id e, ev_subject e, ev_claim e)"

lemma refresh_facts [simp]:
  "wm_facts (refresh_entity_attributes sid eid w) = wm_facts w"
  "wm_cap (refresh_entity_attributes sid eid w) = wm_cap w"
  "wm_relations (refresh_entity_attributes sid eid w) = wm_relations w"
  "wm_cache (refresh_entity_attributes sid eid w) = wm_cache w"
  by (auto simp: refresh_entity_attributes_def Let_def split: option.splits)

lemma uncache_simps [simp]:
  "wm_facts (uncache sid w) = wm_facts w" "wm_cap (uncache sid w) = wm_cap w"
  "wm_entities (uncache sid w) = wm_entities w" "wm_relations (uncache sid w) = wm_relations w"
  "wm_cache (uncache sid w) = AList.delete sid (wm_cache w)"
  by (simp_all add: uncache_def)

lemma apply_fact_cap [simp]: "wm_cap (snd (apply_fact dumps e w)) = wm_cap w"
  by (simp add: apply_fact_def Let_def)

lemma bucket_apply_fact:
  "bucket (snd (apply_fact dumps e w)) sid s c =
    (if fact_key e = (sid, s, c) then add_to_bucket dumps (wm_cap w) e (bucket w sid s c) else bucket w sid s c)"
  by (auto simp: apply_fact_def bucket_def Let_def fact_key_def add_to_bucket_def dict_simps)

lemma bucket_apply_facts:
  "bucket (fold (\<lambda>e w. snd (apply_fact dumps e w)) es w) sid s c =
    fold (add_to_bucket dumps (wm_cap w)) (filter (\<lambda>e. fact_key e = (sid, s, c)) es) (bucket w sid s c)"
  by (induction es arbitrary: w) (simp_all add: bucket_apply_fact)

text \<open>C29. The bound on the evidence of a fact changes no answer. After any evidence (with different
  identifiers, of any sessions, subjects and claims) was applied to a new world model, the
  bucket of each fact has the same winner of the arbitration and the same conflict flag as the
  full list of all evidence for that fact would have, and it holds at most the bound or one more
  than the number of different values, whichever is larger.\<close>

theorem bounded_bucket_is_exact:
  assumes "distinct (map ev_id es)" and "new_world cap = Inr w"
    and "mine = filter (\<lambda>e. fact_key e = (sid, s, c)) es" and "mine \<noteq> []"
    and "b = bucket (fold (\<lambda>e w. snd (apply_fact dumps e w)) es w) sid s c"
  shows "current_fact b = current_fact mine
    \<and> has_conflicting_values dumps b = has_conflicting_values dumps mine
    \<and> length b \<le> max (nat cap) (Suc (card ((\<lambda>e. dumps (ev_value e)) ` set mine)))"
proof -
  have w: "bucket w sid s c = []" "wm_cap w = nat cap"
    using assms(2) by (auto simp: new_world_def bucket_def dict_get_def split: if_splits)
  have d: "distinct (map ev_id mine)" unfolding assms(3) by (rule distinct_map_filter [OF assms(1)])
  have r: "represents dumps (nat cap) b mine"
    unfolding assms(5) bucket_apply_facts w assms(3)
    using represents_fold [OF d [unfolded assms(3)]] by simp
  have "current_fact b = current_fact mine"
  proof (rule current_fact_unique)
    show "inj_on ev_id (set b)" using r by (simp add: represents_def distinct_map)
    show "current_fact mine \<in> set b" using r assms(4) by (simp add: represents_def)
    show "arbitration_key x \<le> arbitration_key (current_fact mine)" if "x \<in> set b" for x
      using r that current_fact_ge [of x mine] by (auto simp: represents_def)
  qed
  then show ?thesis using r by (simp add: represents_def conflicting_iff)
qed


definition sample_up :: "evidence list" where
  "sample_up = [sample_evidence ''s'' ''e1'' ''up'' (JBool True) 1, sample_evidence ''s'' ''e2'' ''up'' (JBool True) 3,
     sample_evidence ''s'' ''e3'' ''up'' (JBool False) 2]"

definition up_text :: "json \<Rightarrow> string" where
  "up_text v = (if v = JBool True then ''true'' else ''false'')"

definition sample_bucket :: "evidence list" where
  "sample_bucket = bucket (fold (\<lambda>e w. snd (apply_fact up_text e w)) sample_up (projr (new_world 1))) ''s'' ''pod'' ''up''"

theorem bounded_bucket_is_exact_witness:
  "ev_id (current_fact sample_bucket) = ''e2'' \<and> has_conflicting_values up_text sample_bucket
   \<and> length sample_bucket \<le> 3"
proof -
  let ?mine = "filter (\<lambda>e. fact_key e = (''s'', ''pod'', ''up'')) sample_up"
  have mine: "?mine = sample_up" by (simp add: sample_up_def sample_evidence_def fact_key_def)
  have 1: "distinct (map ev_id sample_up)" "new_world 1 = Inr (projr (new_world 1))" "?mine \<noteq> []"
    unfolding mine by (simp_all add: sample_up_def sample_evidence_def new_world_def)
  have 2: "ev_id (current_fact ?mine) = ''e2''" "has_conflicting_values up_text ?mine"
    unfolding mine by (simp_all add: sample_up_def sample_evidence_def current_fact_def arbitration_key_def
        has_conflicting_values_def up_text_def)
  have "card ((\<lambda>e. up_text (ev_value e)) ` set ?mine) \<le> 2"
    unfolding mine by (simp add: sample_up_def sample_evidence_def up_text_def)
  then have le: "max (nat 1) (Suc (card ((\<lambda>e. up_text (ev_value e)) ` set ?mine))) \<le> 3" by simp
  note exact = bounded_bucket_is_exact [OF 1(1,2) refl 1(3) refl, of up_text, folded sample_bucket_def]
  show ?thesis
    using conjunct1 [OF exact] conjunct1 [OF conjunct2 [OF exact]]
      order_trans [OF conjunct2 [OF conjunct2 [OF exact]] le] 2 by (simp only: simp_thms)
qed

subsection \<open>The cache\<close>

definition of_session :: "string \<Rightarrow> (string \<times> 'k, 'v) dict \<Rightarrow> (string \<times> 'k, 'v) dict" where
  "of_session sid d = filter (\<lambda>(k, _). fst k = sid) d"

lemma of_session_update [simp]: "fst k \<noteq> s \<Longrightarrow> of_session s (AList.update k v d) = of_session s d"
  by (induction d) (auto simp: of_session_def)

lemma of_session_filter [simp]:
  "sid \<noteq> s \<Longrightarrow> of_session s (filter (\<lambda>(k, _). fst k \<noteq> sid) d) = of_session s d"
  by (auto simp: of_session_def intro!: filter_cong)

definition same_for :: "string \<Rightarrow> world_model \<Rightarrow> world_model \<Rightarrow> bool" where
  "same_for s w w' \<longleftrightarrow> of_session s (wm_facts w') = of_session s (wm_facts w)
     \<and> of_session s (wm_entities w') = of_session s (wm_entities w)
     \<and> of_session s (wm_relations w') = of_session s (wm_relations w)"

lemma filter_of_session:
  "of_session s d' = of_session s d \<Longrightarrow> filter (\<lambda>p. fst (fst p) = s \<and> Q p) d' = filter (\<lambda>p. fst (fst p) = s \<and> Q p) d"
proof -
  have "filter (\<lambda>p. fst (fst p) = s \<and> Q p) x = filter Q (of_session s x)" for x
    by (auto simp: of_session_def intro!: filter_cong)
  then show "of_session s d' = of_session s d \<Longrightarrow> ?thesis" by simp
qed

lemma compute_snapshot_same:
  assumes "same_for s w w'"
  shows "compute_snapshot dumps s subjects claims w' = compute_snapshot dumps s subjects claims w"
proof -
  note same = assms [unfolded same_for_def]
  show ?thesis
    unfolding compute_snapshot_def Let_def case_prod_unfold
    by (simp only: filter_of_session [OF conjunct1 [OF same]] filter_of_session [OF conjunct1 [OF conjunct2 [OF same]]]
        filter_of_session [OF conjunct2 [OF conjunct2 [OF same]]])
qed

text \<open>A change that concerns one session: the others keep their entries and their cached snapshots.\<close>

definition only_session :: "string \<Rightarrow> world_model \<Rightarrow> world_model \<Rightarrow> bool" where
  "only_session sid w w' \<longleftrightarrow> (\<forall>s. s \<noteq> sid \<longrightarrow> same_for s w w' \<and> map_of (wm_cache w') s = map_of (wm_cache w) s)
     \<and> (w' = w \<or> map_of (wm_cache w') sid = None)"

definition cache_coherent :: "(json \<Rightarrow> string) \<Rightarrow> world_model \<Rightarrow> bool" where
  "cache_coherent dumps w \<longleftrightarrow> (\<forall>s r. map_of (wm_cache w) s = Some r \<longrightarrow> r = compute_snapshot dumps s [] [] w)"

lemma coherent_only_session: "only_session sid w w' \<Longrightarrow> cache_coherent dumps w \<Longrightarrow> cache_coherent dumps w'"
  unfolding only_session_def cache_coherent_def by (metis compute_snapshot_same option.distinct(1))

lemma only_session_refl [simp]: "only_session sid w w"
  by (simp add: only_session_def same_for_def)

lemma only_session_trans: "only_session sid w w1 \<Longrightarrow> only_session sid w1 w2 \<Longrightarrow> only_session sid w w2"
  unfolding only_session_def same_for_def by metis

lemma refresh_same_for: "s \<noteq> sid \<Longrightarrow> same_for s w (refresh_entity_attributes sid eid w)"
  by (auto simp: refresh_entity_attributes_def same_for_def Let_def split: option.splits)

lemma only_apply_fact: "only_session (ev_session_id e) w (snd (apply_fact dumps e w))"
proof -
  have "same_for s w1 (refresh_entity_attributes (ev_session_id e) (ev_subject e) w1)"
    if "s \<noteq> ev_session_id e" for s w1 using refresh_same_for [OF that] .
  then show ?thesis
    by (auto simp: apply_fact_def only_session_def Let_def dict_simps same_for_def)
qed

lemma only_apply_entity: "only_session sid w (snd (apply_entity sid n w))"
  by (auto simp: apply_entity_def only_session_def same_for_def Let_def dict_simps check_op_def
      split: sum.splits option.splits)

lemma only_apply_relation: "only_session sid w (snd (apply_relation sid r w))"
  by (auto simp: apply_relation_def only_session_def same_for_def Let_def dict_simps check_op_def
      split: sum.splits option.splits)

lemma only_forget: "only_session sid w (forget_session sid w)"
  by (simp add: forget_session_def only_session_def same_for_def dict_simps)

lemma only_apply_relations: "only_session sid w (snd (apply_relations sid rs c w))"
proof (induction sid rs c w rule: apply_relations.induct)
  case (2 sid r rs c w)
  obtain a w1 where a: "apply_relation sid r w = (a, w1)" by fastforce
  then have "only_session sid w w1" using only_apply_relation [of sid w r] by simp
  then show ?case using 2 a by (cases a) (auto intro: only_session_trans)
qed simp

lemma only_fact_world_updater: "only_session (ev_session_id e) w (snd (fact_world_updater dumps e w))"
proof -
  obtain c w1 where a: "apply_fact dumps e w = (c, w1)" by fastforce
  then have 1: "only_session (ev_session_id e) w w1" using only_apply_fact [of e w dumps] by simp
  show ?thesis
  proof (cases "entity_from_evidence e")
    case None
    then show ?thesis using a only_session_trans [OF 1 only_apply_relations] by (simp add: fact_world_updater_def)
  next
    case (Some n)
    obtain b w2 where b: "apply_entity (ev_session_id e) n w1 = (b, w2)" by fastforce
    then have "only_session (ev_session_id e) w w2"
      using only_session_trans [OF 1 only_apply_entity [of _ w1 n]] by simp
    then show ?thesis using Some a b only_session_trans [OF _ only_apply_relations]
      by (cases b) (simp_all add: fact_world_updater_def)
  qed
qed

subsection \<open>The world model as a system\<close>

datatype world_event =
    WFact evidence | WEntity string world_entity | WRelation string world_relation
  | WUpdate evidence | WForget string | WSnapshot string "string list" "string list"

fun world_step :: "(json \<Rightarrow> string) \<Rightarrow> world_model \<Rightarrow> world_event \<Rightarrow> world_model" where
  "world_step dumps w (WFact e) = snd (apply_fact dumps e w)"
| "world_step dumps w (WEntity sid n) = snd (apply_entity sid n w)"
| "world_step dumps w (WRelation sid r) = snd (apply_relation sid r w)"
| "world_step dumps w (WUpdate e) = snd (fact_world_updater dumps e w)"
| "world_step dumps w (WForget sid) = forget_session sid w"
| "world_step dumps w (WSnapshot sid ss cs) = snd (take_snapshot dumps sid ss cs w)"

fun event_session :: "world_event \<Rightarrow> string" where
  "event_session (WFact e) = ev_session_id e"
| "event_session (WEntity sid n) = sid"
| "event_session (WRelation sid r) = sid"
| "event_session (WUpdate e) = ev_session_id e"
| "event_session (WForget sid) = sid"
| "event_session (WSnapshot sid ss cs) = sid"

definition empty_world :: "nat \<Rightarrow> world_model" where
  "empty_world cap = \<lparr>wm_cap = cap, wm_facts = [], wm_subject_claims = [], wm_entities = [],
     wm_relations = [], wm_cache = []\<rparr>"

lemma compute_snapshot_cache [simp]:
  "compute_snapshot dumps s ss cs (w\<lparr>wm_cache := c\<rparr>) = compute_snapshot dumps s ss cs w"
  by (simp add: compute_snapshot_def)

lemma snapshot_coherent: "cache_coherent dumps w \<Longrightarrow> cache_coherent dumps (snd (take_snapshot dumps s ss cs w))"
  by (auto simp: take_snapshot_def cache_coherent_def Let_def dict_simps split: option.splits)

lemma coherent_step: "cache_coherent dumps w \<Longrightarrow> cache_coherent dumps (world_step dumps w e)"
  by (cases e) (simp_all add: snapshot_coherent coherent_only_session [OF only_apply_fact]
      coherent_only_session [OF only_apply_entity] coherent_only_session [OF only_apply_relation]
      coherent_only_session [OF only_fact_world_updater] coherent_only_session [OF only_forget])

interpretation wm: invariant_system "world_step dumps" "empty_world cap" "cache_coherent dumps"
  by unfold_locales (simp add: cache_coherent_def empty_world_def, rule coherent_step)

lemma snapshot_value: "cache_coherent dumps w \<Longrightarrow>
    fst (take_snapshot dumps s ss cs w) = compute_snapshot dumps s ss cs w"
  by (auto simp: take_snapshot_def cache_coherent_def Let_def split: option.splits)


lemma step_other_session:
  "s \<noteq> event_session e \<Longrightarrow> compute_snapshot dumps s ss cs (world_step dumps w e) = compute_snapshot dumps s ss cs w"
proof (cases e)
  case (WSnapshot sid ss' cs')
  then show ?thesis by (auto simp: take_snapshot_def Let_def split: option.splits)
next
  case (WFact x)
  then show "s \<noteq> event_session e \<Longrightarrow> ?thesis"
    using only_apply_fact [of x w dumps] by (auto simp: only_session_def intro!: compute_snapshot_same)
next
  case (WEntity sid n)
  then show "s \<noteq> event_session e \<Longrightarrow> ?thesis"
    using only_apply_entity [of sid w n] by (auto simp: only_session_def intro!: compute_snapshot_same)
next
  case (WRelation sid r)
  then show "s \<noteq> event_session e \<Longrightarrow> ?thesis"
    using only_apply_relation [of sid w r] by (auto simp: only_session_def intro!: compute_snapshot_same)
next
  case (WUpdate x)
  then show "s \<noteq> event_session e \<Longrightarrow> ?thesis"
    using only_fact_world_updater [of x w dumps] by (auto simp: only_session_def intro!: compute_snapshot_same)
next
  case (WForget sid)
  then show "s \<noteq> event_session e \<Longrightarrow> ?thesis"
    using only_forget [of sid w] by (auto simp: only_session_def intro!: compute_snapshot_same)
qed

text \<open>Sessions are isolated. The world model is shared by all sessions of a runtime, but whatever
  operations concern other sessions, also when they are forgotten, the snapshot of a session does
  not change.\<close>

theorem world_sessions_isolated:
  assumes "\<forall>e \<in> set es. event_session e \<noteq> sid"
  shows "fst (take_snapshot dumps sid ss cs (run_events (world_step dumps)
        (run_events (world_step dumps) (empty_world cap) before) es)) =
     fst (take_snapshot dumps sid ss cs (run_events (world_step dumps) (empty_world cap) before))"
proof -
  have "compute_snapshot dumps sid ss cs (run_events (world_step dumps) w es) = compute_snapshot dumps sid ss cs w" for w
    using assms by (induction es arbitrary: w) (auto simp: step_other_session)
  then show ?thesis using wm.inv_run_init [of dumps cap before]
    by (simp add: snapshot_value wm.inv_run)
qed

theorem world_sessions_isolated_witness:
  "let w = run_events (world_step (\<lambda>_. ''v'')) (empty_world 2) [WUpdate (sample_evidence ''s'' ''e1'' ''up'' JNull 1)] in
     length (wo_facts (fst (take_snapshot (\<lambda>_. ''v'') ''s'' [] []
       (run_events (world_step (\<lambda>_. ''v'')) w [WUpdate (sample_evidence ''r'' ''e2'' ''up'' JNull 2), WForget ''r''])))) = 1"
proof -
  let ?d = "\<lambda>_. ''v''" and ?b = "[WUpdate (sample_evidence ''s'' ''e1'' ''up'' JNull 1)]"
  have "length (wo_facts (fst (take_snapshot ?d ''s'' [] [] (run_events (world_step ?d) (empty_world 2) ?b)))) = 1"
    by code_simp
  moreover have "\<forall>e \<in> set [WUpdate (sample_evidence ''r'' ''e2'' ''up'' JNull 2), WForget ''r'']. event_session e \<noteq> ''s''"
    by (simp add: sample_evidence_def)
  ultimately show ?thesis unfolding Let_def by (simp only: world_sessions_isolated)
qed


subsection \<open>Attributes of an entity\<close>

lemma map_of_fold_update: "dict_wf m \<Longrightarrow> map_of (fold (\<lambda>(k, v). AList.update k v) m acc) k =
    (case map_of m k of Some v \<Rightarrow> Some v | None \<Rightarrow> map_of acc k)"
proof (induction m arbitrary: acc)
  case (Cons p m)
  obtain a b where p: "p = (a, b)" by (cases p)
  have "map_of m a = None" using Cons.prems p by (simp add: map_of_eq_None_iff)
  then show ?case using Cons by (auto simp: p dict_simps split: option.splits)
qed simp

lemma merge_mappings_later:
  "dict_wf b \<Longrightarrow> map_of b k = Some v \<Longrightarrow> map_of (merge_mappings [a, b]) k = Some v"
  by (simp add: merge_mappings_def map_of_fold_update)

text \<open>An attribute of an entity never follows its fact. Once an entity has an attribute, no evidence
  applied later changes it, whatever the fact of the same name then says: the refreshing of
  attributes lets the old value win over the newly arbitrated one.\<close>

theorem entity_attribute_sticks:
  assumes "map_of (wm_entities w) (sid, eid) = Some n" and "dict_wf (we_attributes n)"
    and "map_of (we_attributes n) claim = Some v"
  shows "\<exists>n'. map_of (wm_entities (snd (apply_fact dumps e w))) (sid, eid) = Some n'
    \<and> map_of (we_attributes n') claim = Some v"
proof -
  have "\<exists>n'. map_of (wm_entities (refresh_entity_attributes sid' eid' w1)) (sid, eid) = Some n'
      \<and> map_of (we_attributes n') claim = Some v"
    if "wm_entities w1 = wm_entities w" for w1 sid' eid'
    using assms that
    by (auto simp: refresh_entity_attributes_def Let_def dict_simps merge_mappings_later split: option.splits)
  then show ?thesis using assms by (auto simp: apply_fact_def Let_def)
qed

definition sample_world :: world_model where
  "sample_world = run_events (world_step up_text) (empty_world 2)
     [WUpdate (sample_evidence ''s'' ''e1'' ''healthy'' (JBool True) 1),
      WUpdate (sample_evidence ''s'' ''e2'' ''kind'' (JStr ''pod'') 2)]"

definition bad_news :: evidence where
  "bad_news = sample_evidence ''s'' ''e3'' ''healthy'' (JBool False) 3"

theorem entity_attribute_sticks_witness:
  "map fa_value (filter (\<lambda>f. fa_claim f = ''healthy'') (wo_facts (compute_snapshot up_text ''s'' [] []
     (snd (apply_fact up_text bad_news sample_world))))) = [JBool False]
   \<and> (\<exists>n. map_of (wm_entities (snd (apply_fact up_text bad_news sample_world))) (''s'', ''pod'') = Some n
        \<and> map_of (we_attributes n) ''healthy'' = Some (JBool True))"
proof -
  have 0: "\<not> Option.is_none (map_of (wm_entities sample_world) (''s'', ''pod''))" by code_simp
  have 1: "dict_wf (we_attributes (the (map_of (wm_entities sample_world) (''s'', ''pod''))))" by code_simp
  have 2: "map_of (we_attributes (the (map_of (wm_entities sample_world) (''s'', ''pod'')))) ''healthy'' = Some (JBool True)"
    by code_simp
  have 3: "map fa_value (filter (\<lambda>f. fa_claim f = ''healthy'') (wo_facts (compute_snapshot up_text ''s'' [] []
     (snd (apply_fact up_text bad_news sample_world))))) = [JBool False]" by code_simp
  show ?thesis using 3 entity_attribute_sticks [OF some_the [OF 0] 1 2] by blast
qed

end
