(* ===== verification/World_Query.thy ===== *)
theory World_Query
  imports World_Safety
begin

text \<open>
  The queries of \<open>WorldSnapshot\<close> in \<open>world/models.py\<close>: look-ups of facts, histories, entities and
  relations, the neighbourhood of an entity, and the breadth-first search over relations with
  its filters, proved to find exactly the entities within the given distance. Where the code
  answers \<open>None\<close> for a missing value, which is also JSON's null, the model answers \<open>JNull\<close>.
\<close>

definition value_for :: "string \<Rightarrow> string option \<Rightarrow> world_snapshot \<Rightarrow> json" where
  "value_for claim subject s =
     (case find (\<lambda>f. fa_claim f = claim \<and> (subject = None \<or> Some (fa_subject f) = subject)) (wo_facts s) of
        None \<Rightarrow> JNull | Some f \<Rightarrow> fa_value f)"

definition entity_for :: "string \<Rightarrow> world_snapshot \<Rightarrow> world_entity option" where
  "entity_for eid s = find (\<lambda>n. we_id n = eid) (wo_entities s)"

definition facts_for :: "string \<Rightarrow> string list \<Rightarrow> world_snapshot \<Rightarrow> world_fact list" where
  "facts_for subject claims s =
     filter (\<lambda>f. fa_subject f = subject \<and> (claims = [] \<or> fa_claim f \<in> set claims)) (wo_facts s)"

definition fact_history_for :: "string \<Rightarrow> string \<Rightarrow> world_snapshot \<Rightarrow> fact_history option" where
  "fact_history_for subject claim s =
     find (\<lambda>h. fh_subject h = subject \<and> fh_claim h = claim) (wo_fact_histories s)"

definition conflicting_facts :: "string option \<Rightarrow> string option \<Rightarrow> world_snapshot \<Rightarrow> fact_history list" where
  "conflicting_facts subject claim s =
     filter (\<lambda>h. fh_conflicting h \<and> (subject = None \<or> Some (fh_subject h) = subject)
       \<and> (claim = None \<or> Some (fh_claim h) = claim)) (wo_fact_histories s)"

definition relations_for :: "string option \<Rightarrow> string option \<Rightarrow> string option \<Rightarrow> world_snapshot \<Rightarrow> world_relation list" where
  "relations_for source relation target s =
     filter (\<lambda>r. (source = None \<or> Some (wr_source r) = source) \<and> (relation = None \<or> Some (wr_relation r) = relation)
       \<and> (target = None \<or> Some (wr_target r) = target)) (wo_relations s)"

record neighborhood =
  nb_root :: "world_entity option"
  nb_facts :: "world_fact list"
  nb_outgoing :: "world_relation list"
  nb_incoming :: "world_relation list"
  nb_related :: "world_entity list"

definition neighborhood_for :: "string \<Rightarrow> string option \<Rightarrow> world_snapshot \<Rightarrow> neighborhood" where
  "neighborhood_for eid relation s =
     (let out = relations_for (Some eid) relation None s;
          inc = relations_for None relation (Some eid) s;
          ids = dedupe (map wr_target out @ map wr_source inc)
      in \<lparr>nb_root = entity_for eid s, nb_facts = facts_for eid [] s, nb_outgoing = out, nb_incoming = inc,
          nb_related = List.map_filter (\<lambda>i. entity_for i s) ids\<rparr>)"

subsection \<open>The search\<close>

datatype direction = DirOutgoing | DirIncoming | DirBoth

definition parse_direction :: "string \<Rightarrow> string + direction" where
  "parse_direction v =
     (if v = ''outgoing'' then Inr DirOutgoing else if v = ''incoming'' then Inr DirIncoming
      else if v = ''both'' then Inr DirBoth
      else Inl ''world relation graph direction must be one of: outgoing, incoming, both'')"

record graph_query =
  gq_max_depth :: int
  gq_relations :: "string list"
  gq_direction :: string
  gq_entity_kinds :: "string list"
  gq_required_facts :: json_mapping

record graph_node =
  gn_entity_id :: string
  gn_depth :: nat
  gn_entity :: "world_entity option"

record world_graph =
  wg_root :: "world_entity option"
  wg_nodes :: "graph_node list"
  wg_relations :: "world_relation list"
  wg_entities :: "world_entity list"

definition graph_relations_for :: "string list \<Rightarrow> direction \<Rightarrow> world_snapshot \<Rightarrow> string \<Rightarrow> world_relation list" where
  "graph_relations_for wanted dir s eid =
     filter (\<lambda>r. wanted = [] \<or> wr_relation r \<in> set wanted)
       ((if dir \<in> {DirOutgoing, DirBoth} then relations_for (Some eid) None None s else [])
        @ (if dir \<in> {DirIncoming, DirBoth} then relations_for None None (Some eid) s else []))"

definition graph_node_matches :: "graph_query \<Rightarrow> world_snapshot \<Rightarrow> graph_node \<Rightarrow> bool" where
  "graph_node_matches q s n =
     (if gq_entity_kinds q = [] \<and> gq_required_facts q = [] then True
      else case gn_entity n of None \<Rightarrow> False
      | Some e \<Rightarrow> (gq_entity_kinds q = [] \<or> we_kind e \<in> set (gq_entity_kinds q))
          \<and> list_all (\<lambda>(claim, expected). value_for claim (Some (gn_entity_id n)) s = expected) (gq_required_facts q))"

record search =
  se_depths :: "(string, nat) dict"
  se_next :: "string list"
  se_traversed :: "(string \<times> string \<times> string, world_relation) dict"

definition relation_key :: "world_relation \<Rightarrow> string \<times> string \<times> string" where
  "relation_key r = (wr_source r, wr_relation r, wr_target r)"

definition other_end :: "string \<Rightarrow> world_relation \<Rightarrow> string" where
  "other_end current r = (if wr_source r = current then wr_target r else wr_source r)"

definition setdefault :: "'k \<Rightarrow> 'v \<Rightarrow> ('k, 'v) dict \<Rightarrow> ('k, 'v) dict" where
  "setdefault k v d = (if map_of d k = None then AList.update k v d else d)"

text \<open>The two inner loops: over the relations of one entity, and over the frontier.\<close>

fun visit_relations :: "nat \<Rightarrow> string \<Rightarrow> world_relation list \<Rightarrow> search \<Rightarrow> search" where
  "visit_relations depth current [] st = st"
| "visit_relations depth current (r # rs) st =
     (let st1 = st\<lparr>se_traversed := setdefault (relation_key r) r (se_traversed st)\<rparr>;
          other = other_end current r
      in if map_of (se_depths st1) other \<noteq> None then visit_relations depth current rs st1
         else visit_relations depth current rs
           (st1\<lparr>se_depths := AList.update other (depth + 1) (se_depths st1), se_next := se_next st1 @ [other]\<rparr>))"

fun visit_frontier :: "(string \<Rightarrow> world_relation list) \<Rightarrow> nat \<Rightarrow> string list \<Rightarrow> search \<Rightarrow> search" where
  "visit_frontier rels depth [] st = st"
| "visit_frontier rels depth (c # cs) st = visit_frontier rels depth cs (visit_relations depth c (rels c) st)"

text \<open>The loop over depths; the first argument counts the rounds left.\<close>

fun search_levels :: "(string \<Rightarrow> world_relation list) \<Rightarrow> nat \<Rightarrow> nat \<Rightarrow> string list \<Rightarrow> search \<Rightarrow> search" where
  "search_levels rels 0 depth frontier st = st"
| "search_levels rels (Suc n) depth frontier st =
     (let st1 = visit_frontier rels depth frontier (st\<lparr>se_next := []\<rparr>);
          frontier' = dedupe (se_next st1)
      in if frontier' = [] then st1 else search_levels rels n (depth + 1) frontier' st1)"

definition relation_graph_for :: "string \<Rightarrow> graph_query \<Rightarrow> world_snapshot \<Rightarrow> string + world_graph" where
  "relation_graph_for eid q s =
     (if gq_max_depth q < 0 then Inl ''world relation graph max_depth must be >= 0''
      else case parse_direction (gq_direction q) of Inl e \<Rightarrow> Inl e | Inr dir \<Rightarrow>
        (case entity_for eid s of
           None \<Rightarrow> Inr \<lparr>wg_root = None, wg_nodes = [], wg_relations = [], wg_entities = []\<rparr>
         | Some root_entity \<Rightarrow>
             let st = search_levels (graph_relations_for (gq_relations q) dir s) (nat (gq_max_depth q)) 0 [eid]
                   \<lparr>se_depths = [(eid, 0)], se_next = [], se_traversed = []\<rparr>;
                 candidates = map (\<lambda>(i, d). \<lparr>gn_entity_id = i, gn_depth = d, gn_entity = entity_for i s\<rparr>)
                   (sort_key (\<lambda>(i, d). (d, i)) (se_depths st));
                 nodes = filter (\<lambda>n. gn_entity_id n = eid \<or> graph_node_matches q s n) candidates;
                 included = map gn_entity_id nodes
             in Inr \<lparr>wg_root = Some root_entity, wg_nodes = nodes,
                  wg_relations = filter (\<lambda>r. wr_source r \<in> set included \<and> wr_target r \<in> set included)
                    (sort_key relation_key (dict_values (se_traversed st))),
                  wg_entities = List.map_filter gn_entity nodes\<rparr>))"

subsection \<open>The search finds what is within the distance\<close>

definition step_to :: "(string \<Rightarrow> world_relation list) \<Rightarrow> string \<Rightarrow> string \<Rightarrow> bool" where
  "step_to rels x y \<longleftrightarrow> y \<in> other_end x ` set (rels x)"

text \<open>The entities whose shortest path from the root has the given length.\<close>

definition at_distance :: "(string \<Rightarrow> world_relation list) \<Rightarrow> string \<Rightarrow> nat \<Rightarrow> string \<Rightarrow> bool" where
  "at_distance rels x k y \<longleftrightarrow> (step_to rels ^^ k) x y \<and> (\<forall>j < k. \<not> (step_to rels ^^ j) x y)"

lemma at_distance_unique: "at_distance rels x k y \<Longrightarrow> at_distance rels x j y \<Longrightarrow> k = j"
  unfolding at_distance_def by (meson linorder_less_linear)

lemma at_distance_0 [simp]: "at_distance rels x 0 y \<longleftrightarrow> x = y"
  by (auto simp: at_distance_def)

lemma at_distance_Suc:
  "at_distance rels x (Suc k) y \<longleftrightarrow> (\<exists>z. at_distance rels x k z \<and> step_to rels z y)
     \<and> (\<forall>j \<le> k. \<not> at_distance rels x j y)"
proof -
  have least: "\<exists>i \<le> j. at_distance rels x i z" if "(step_to rels ^^ j) x z" for j z
  proof (intro exI conjI)
    show "(LEAST i. (step_to rels ^^ i) x z) \<le> j" by (rule Least_le) (rule that)
    show "at_distance rels x (LEAST i. (step_to rels ^^ i) x z) z"
      using LeastI [of "\<lambda>i. (step_to rels ^^ i) x z", OF that] not_less_Least
      unfolding at_distance_def by blast
  qed
  show ?thesis
  proof
    assume a: "at_distance rels x (Suc k) y"
    then obtain z where z: "(step_to rels ^^ k) x z" "step_to rels z y"
      by (auto simp: at_distance_def)
    have "\<not> (step_to rels ^^ j) x z" if "j < k" for j
    proof
      assume "(step_to rels ^^ j) x z"
      then have "(step_to rels ^^ Suc j) x y" using z(2) by auto
      moreover have "\<not> (step_to rels ^^ Suc j) x y"
        using a that unfolding at_distance_def by (metis Suc_less_eq)
      ultimately show False by blast
    qed
    with z have "at_distance rels x k z" by (simp add: at_distance_def)
    moreover have "\<forall>j \<le> k. \<not> at_distance rels x j y" using a by (auto simp: at_distance_def)
    ultimately show "(\<exists>z. at_distance rels x k z \<and> step_to rels z y) \<and> (\<forall>j \<le> k. \<not> at_distance rels x j y)"
      using z(2) by blast
  next
    assume a: "(\<exists>z. at_distance rels x k z \<and> step_to rels z y) \<and> (\<forall>j \<le> k. \<not> at_distance rels x j y)"
    then have "(step_to rels ^^ Suc k) x y" by (auto simp: at_distance_def)
    moreover have "\<not> (step_to rels ^^ j) x y" if "j < Suc k" for j
      using a least [of j y] that by (meson less_Suc_eq_le order_trans)
    ultimately show "at_distance rels x (Suc k) y" by (simp add: at_distance_def)
  qed
qed

lemma visit_relations_spec:
  "map_of (se_depths (visit_relations d c rs st)) y =
     (if map_of (se_depths st) y = None \<and> y \<in> other_end c ` set rs then Some (d + 1) else map_of (se_depths st) y)
   \<and> set (se_next (visit_relations d c rs st)) =
     set (se_next st) \<union> {y \<in> other_end c ` set rs. map_of (se_depths st) y = None}
   \<and> (dict_wf (se_depths st) \<longrightarrow> dict_wf (se_depths (visit_relations d c rs st)))"
proof (induction d c rs st rule: visit_relations.induct)
  case (2 d c r rs st)
  let ?st1 = "st\<lparr>se_traversed := setdefault (relation_key r) r (se_traversed st)\<rparr>"
  show ?case
  proof (cases "map_of (se_depths st) (other_end c r) = None")
    case True
    then show ?thesis using 2(2) [OF refl refl] by (auto simp: Let_def dict_simps)
  next
    case False
    then show ?thesis using 2(1) [OF refl refl] by (auto simp: Let_def)
  qed
qed simp

lemma visit_frontier_spec:
  "map_of (se_depths (visit_frontier rels d cs st)) y =
     (if map_of (se_depths st) y = None \<and> (\<exists>c \<in> set cs. step_to rels c y) then Some (d + 1) else map_of (se_depths st) y)
   \<and> set (se_next (visit_frontier rels d cs st)) =
     set (se_next st) \<union> {y. (\<exists>c \<in> set cs. step_to rels c y) \<and> map_of (se_depths st) y = None}
   \<and> (dict_wf (se_depths st) \<longrightarrow> dict_wf (se_depths (visit_frontier rels d cs st)))"
proof (induction rels d cs st arbitrary: y rule: visit_frontier.induct)
  case (2 rels d c cs st)
  let ?st1 = "visit_relations d c (rels c) st"
  note one = visit_relations_spec [of d c "rels c" st]
  have ends: "other_end c ` set (rels c) = {z. step_to rels c z}" by (auto simp: step_to_def)
  have 1: "map_of (se_depths ?st1) z = (if map_of (se_depths st) z = None \<and> step_to rels c z then Some (d + 1)
      else map_of (se_depths st) z)" for z
    using conjunct1 [OF one [of z]] unfolding ends by simp
  have 2: "set (se_next ?st1) = set (se_next st) \<union> {z. step_to rels c z \<and> map_of (se_depths st) z = None}"
    using conjunct1 [OF conjunct2 [OF one]] unfolding ends by simp
  show ?case
  proof (intro conjI)
    show "map_of (se_depths (visit_frontier rels d (c # cs) st)) y =
        (if map_of (se_depths st) y = None \<and> (\<exists>c \<in> set (c # cs). step_to rels c y) then Some (d + 1)
         else map_of (se_depths st) y)"
      using conjunct1 [OF "2.IH" [of y]] 1 [of y] by (simp split: if_splits)
    have "set (se_next (visit_frontier rels d (c # cs) st)) =
        set (se_next ?st1) \<union> {y. (\<exists>c \<in> set cs. step_to rels c y) \<and> map_of (se_depths ?st1) y = None}"
      using conjunct1 [OF conjunct2 [OF "2.IH"]] by simp
    also have "\<dots> = set (se_next st) \<union> {y. (\<exists>c \<in> set (c # cs). step_to rels c y) \<and> map_of (se_depths st) y = None}"
      unfolding 2 1 by auto
    finally show "set (se_next (visit_frontier rels d (c # cs) st)) =
        set (se_next st) \<union> {y. (\<exists>c \<in> set (c # cs). step_to rels c y) \<and> map_of (se_depths st) y = None}" .
    show "dict_wf (se_depths st) \<longrightarrow> dict_wf (se_depths (visit_frontier rels d (c # cs) st))"
      using conjunct2 [OF conjunct2 [OF "2.IH"]] conjunct2 [OF conjunct2 [OF one]]
      by (simp only: visit_frontier.simps) blast
  qed
qed simp

lemma dedupe_set [simp]: "set (dedupe xs) = set xs" "dedupe xs = [] \<longleftrightarrow> xs = []"
  by (simp_all add: dedupe_def)

text \<open>After the rounds for the depths below \<open>d\<close> the search has met what is within distance \<open>d\<close>.\<close>

definition searched :: "(string \<Rightarrow> world_relation list) \<Rightarrow> string \<Rightarrow> nat \<Rightarrow> search \<Rightarrow> bool" where
  "searched rels x d st \<longleftrightarrow> dict_wf (se_depths st)
     \<and> (\<forall>y k. map_of (se_depths st) y = Some k \<longleftrightarrow> k \<le> d \<and> at_distance rels x k y)"

lemma search_levels_spec:
  "searched rels x d st \<Longrightarrow> set frontier = {y. at_distance rels x d y}
    \<Longrightarrow> searched rels x (d + n) (search_levels rels n d frontier st)"
proof (induction rels n d frontier st rule: search_levels.induct)
  case (2 rels n d frontier st)
  let ?st1 = "visit_frontier rels d frontier (st\<lparr>se_next := []\<rparr>)"
  note vf = visit_frontier_spec [of rels d frontier "st\<lparr>se_next := []\<rparr>"]
  have none: "map_of (se_depths st) y = None \<longleftrightarrow> (\<forall>j \<le> d. \<not> at_distance rels x j y)" for y
    using 2(2) unfolding searched_def by (metis not_None_eq)
  have new: "map_of (se_depths st) y = None \<and> (\<exists>c \<in> set frontier. step_to rels c y) \<longleftrightarrow> at_distance rels x (Suc d) y" for y
    using 2(3) none [of y] by (auto simp: at_distance_Suc)
  have next': "set (se_next ?st1) = {y. at_distance rels x (Suc d) y}"
    using vf [of undefined] new by auto
  have s1: "searched rels x (Suc d) ?st1"
    unfolding searched_def
  proof (intro conjI allI)
    show "dict_wf (se_depths ?st1)" using vf 2(2) by (simp add: searched_def)
    fix y k
    have "map_of (se_depths ?st1) y = (if at_distance rels x (Suc d) y then Some (Suc d) else map_of (se_depths st) y)"
      using vf [of y] new [of y] by simp
    then show "map_of (se_depths ?st1) y = Some k \<longleftrightarrow> k \<le> Suc d \<and> at_distance rels x k y"
      using 2(2) at_distance_unique [of rels x _ y] unfolding searched_def
      by (metis le_Suc_eq option.inject)
  qed
  show ?case
  proof (cases "se_next ?st1 = []")
    case True
    then have e: "\<not> at_distance rels x (Suc d) y" for y using next' by auto
    have "\<not> at_distance rels x (Suc d + j) y" for j y
      using e by (induction j arbitrary: y) (auto simp: at_distance_Suc)
    then have far: "at_distance rels x k y \<Longrightarrow> k \<le> d" for k y
      by (metis add_Suc_right less_eqE not_less_eq_eq plus_nat.simps(2))
    have "searched rels x (d + Suc n) ?st1"
      using s1 far unfolding searched_def by (meson le_add1 le_SucI order_trans)
    then show ?thesis using True by (simp add: Let_def)
  next
    case False
    then show ?thesis using 2(1) [OF refl refl] s1 next' by (simp add: Let_def)
  qed
qed simp

text \<open>C31. The relation graph of an entity is what lies within the given distance. For a known entity, a
  depth that is not negative and a legal direction, the nodes are exactly the entities that
  match the query (or are the root) and whose shortest path over the selected relations has at
  most that length, each with the length of its shortest path, and no entity occurs twice.\<close>

theorem relation_graph_exact:
  assumes "0 \<le> gq_max_depth q" and "parse_direction (gq_direction q) = Inr dir"
    and "entity_for eid s = Some root_entity"
  shows "\<exists>g. relation_graph_for eid q s = Inr g
    \<and> distinct (map gn_entity_id (wg_nodes g))
    \<and> (\<forall>i d. (\<exists>n \<in> set (wg_nodes g). gn_entity_id n = i \<and> gn_depth n = d) \<longleftrightarrow>
         int d \<le> gq_max_depth q \<and> at_distance (graph_relations_for (gq_relations q) dir s) eid d i
         \<and> (i = eid \<or> graph_node_matches q s \<lparr>gn_entity_id = i, gn_depth = d, gn_entity = entity_for i s\<rparr>))"
proof -
  let ?rels = "graph_relations_for (gq_relations q) dir s"
  let ?st = "search_levels ?rels (nat (gq_max_depth q)) 0 [eid] \<lparr>se_depths = [(eid, 0)], se_next = [], se_traversed = []\<rparr>"
  let ?node = "\<lambda>(i, d). \<lparr>gn_entity_id = i, gn_depth = d, gn_entity = entity_for i s\<rparr>"
  have "searched ?rels eid (0 + nat (gq_max_depth q)) ?st"
    by (rule search_levels_spec) (auto simp: searched_def)
  then have wf: "dict_wf (se_depths ?st)"
    and found: "map_of (se_depths ?st) y = Some k \<longleftrightarrow> int k \<le> gq_max_depth q \<and> at_distance ?rels eid k y" for y k
    using assms(1) by (auto simp: searched_def nat_le_iff le_nat_iff)
  let ?cand = "map ?node (sort_key (\<lambda>(i, d). (d, i)) (se_depths ?st))"
  have ids: "map gn_entity_id ?cand = map fst (sort_key (\<lambda>(i, d). (d, i)) (se_depths ?st))"
    by (simp add: comp_def case_prod_beta)
  have "distinct (map gn_entity_id ?cand)"
    unfolding ids using wf by (simp add: distinct_map)
  then have "distinct (map gn_entity_id (filter (\<lambda>n. gn_entity_id n = eid \<or> graph_node_matches q s n) ?cand))"
    by (rule distinct_map_filter)
  moreover obtain g where g: "relation_graph_for eid q s = Inr g"
    "wg_nodes g = filter (\<lambda>n. gn_entity_id n = eid \<or> graph_node_matches q s n) ?cand"
    using assms by (auto simp: relation_graph_for_def Let_def)
  moreover have "(\<exists>n \<in> set (wg_nodes g). gn_entity_id n = i \<and> gn_depth n = d) \<longleftrightarrow>
      int d \<le> gq_max_depth q \<and> at_distance ?rels eid d i \<and> (i = eid \<or> graph_node_matches q s (?node (i, d)))" for i d
  proof -
    have "(\<exists>n \<in> set (wg_nodes g). gn_entity_id n = i \<and> gn_depth n = d) \<longleftrightarrow>
        (\<exists>(j, k) \<in> set (se_depths ?st). j = i \<and> k = d \<and> (j = eid \<or> graph_node_matches q s (?node (j, k))))"
      unfolding g(2) by (force simp: case_prod_beta)
    also have "\<dots> \<longleftrightarrow> (i, d) \<in> set (se_depths ?st) \<and> (i = eid \<or> graph_node_matches q s (?node (i, d)))"
      by blast
    finally show ?thesis by (simp only: in_set_dict [OF wf] found simp_thms conj_assoc)
  qed
  ultimately show ?thesis by auto
qed


definition sample_snapshot :: world_snapshot where
  "sample_snapshot = (let ent = (\<lambda>i. \<lparr>we_id = i, we_kind = ''pod'', we_attributes = [], we_evidence_ids = []\<rparr>);
       rel = (\<lambda>a b. \<lparr>wr_source = a, wr_relation = ''uses'', wr_target = b, wr_evidence_ids = []\<rparr>)
     in \<lparr>wo_session_id = ''s'', wo_facts = [], wo_fact_histories = [], wo_entities = [ent ''a'', ent ''b'', ent ''c''],
         wo_relations = [rel ''a'' ''b'', rel ''b'' ''a'', rel ''b'' ''c'']\<rparr>)"

definition sample_query :: graph_query where
  "sample_query = \<lparr>gq_max_depth = 1, gq_relations = [], gq_direction = ''outgoing'', gq_entity_kinds = [],
     gq_required_facts = []\<rparr>"

theorem relation_graph_exact_witness:
  "case relation_graph_for ''a'' sample_query sample_snapshot of Inl _ \<Rightarrow> False
   | Inr g \<Rightarrow> distinct (map gn_entity_id (wg_nodes g))
       \<and> map (\<lambda>n. (gn_entity_id n, gn_depth n)) (wg_nodes g) = [(''a'', 0), (''b'', 1)]"
proof -
  have 1: "0 \<le> gq_max_depth sample_query" "parse_direction (gq_direction sample_query) = Inr DirOutgoing"
    by code_simp+
  have 2: "\<not> Option.is_none (entity_for ''a'' sample_snapshot)" by code_simp
  have "map (\<lambda>n. (gn_entity_id n, gn_depth n)) (wg_nodes (projr (relation_graph_for ''a'' sample_query sample_snapshot)))
      = [(''a'', 0), (''b'', 1)]" by code_simp
  with relation_graph_exact [OF 1 some_the [OF 2]] show ?thesis by auto
qed

end
