(* ===== verification/Session_Store.thy ===== *)
theory Session_Store
  imports Session_Safety
begin

text \<open>
  How sessions are stored: the copies and conversions of \<open>state/session.py\<close>, the in-memory store
  of \<open>state/store.py\<close> with its version check and pagination, and the event journal of
  \<open>state/event_store.py\<close> from which a session is rebuilt when the store does not have it. The
  decoding of a snapshot from JSON (\<open>persistence/codec.py\<close>) is a parameter. Copies of immutable
  values are the values; what is modelled of the copying is which fields it takes over, and that
  the tasks of the state become the tasks of the graph with the same id.
\<close>

subsection \<open>Copies\<close>

definition primary_domain :: "string \<Rightarrow> string \<Rightarrow> domain_identity list" where
  "primary_domain n v = (if n \<noteq> [] \<and> v \<noteq> [] then [\<lparr>dom_name = n, dom_version = v\<rparr>] else [])"

definition session_from_state :: "agent_state \<Rightarrow> string \<Rightarrow> string \<Rightarrow> domain_identity list \<Rightarrow> session_snapshot" where
  "session_from_state st n v ids =
     \<lparr>sn_state = st,
      sn_task_graph = \<lparr>tg_nodes = [\<lparr>tn_key = ''root'', tn_task = as_current_task st, tn_depends_on = []\<rparr>],
        tg_current_task_id = t_id (as_current_task st)\<rparr>,
      sn_evidence = [], sn_domain_name = n, sn_domain_version = v,
      sn_domain_identities = (if ids \<noteq> [] then ids else primary_domain n v), sn_version = 0\<rparr>"

definition with_state :: "session_snapshot \<Rightarrow> agent_state \<Rightarrow> session_snapshot" where
  "with_state sn st =
     (let current = as_current_task st;
          nodes = map (\<lambda>n. if t_id (tn_task n) = t_id current then n\<lparr>tn_task := current\<rparr> else n)
            (tg_nodes (sn_task_graph sn));
          nodes' = (if t_id current \<in> set (map (\<lambda>n. t_id (tn_task n)) nodes) then nodes
            else nodes @ [\<lparr>tn_key = t_id current, tn_task = current, tn_depends_on = []\<rparr>])
      in sn\<lparr>sn_state := st,
            sn_task_graph := \<lparr>tg_nodes = nodes', tg_current_task_id = t_id current\<rparr>,
            sn_domain_identities := snapshot_domains sn\<rparr>)"

text \<open>\<open>_resolve_task\<close>: the dictionary of the copied tasks grows with the tasks it does not have.\<close>

definition resolve_task :: "task \<Rightarrow> (string, task) dict \<Rightarrow> task \<times> (string, task) dict" where
  "resolve_task t tasks = (case map_of tasks (t_id t) of Some t' \<Rightarrow> (t', tasks)
     | None \<Rightarrow> (t, AList.update (t_id t) t tasks))"

fun resolve_tasks :: "task list \<Rightarrow> (string, task) dict \<Rightarrow> task list" where
  "resolve_tasks [] tasks = []"
| "resolve_tasks (t # ts) tasks =
     (case resolve_task t tasks of (t', tasks') \<Rightarrow> t' # resolve_tasks ts tasks')"

text \<open>\<open>_copy_state\<close>: the fields it does not name get their defaults.\<close>

definition copy_state :: "agent_state \<Rightarrow> (string, task) dict \<Rightarrow> agent_state" where
  "copy_state st tasks =
     (case resolve_task (as_current_task st) tasks of (current, tasks') \<Rightarrow>
       \<lparr>as_session_id = as_session_id st, as_goal = as_goal st, as_current_task = current,
        as_read_only = as_read_only st, as_iteration = as_iteration st,
        as_satisfied_criteria = as_satisfied_criteria st, as_observations = as_observations st,
        as_latest_evaluation = as_latest_evaluation st, as_pending_action = as_pending_action st,
        as_approved_fingerprints = as_approved_fingerprints st,
        as_tasks = resolve_tasks (as_tasks st) tasks', as_recovery_attempts = as_recovery_attempts st,
        as_termination_reason = as_termination_reason st, as_error_code = as_error_code st,
        as_tenant_id = as_tenant_id st, as_cumulative_cost_micros = 0, as_cumulative_tokens = 0,
        as_is_continuation = False\<rparr>)"

definition graph_tasks :: "task_graph \<Rightarrow> (string, task) dict" where
  "graph_tasks g = fold (\<lambda>n. AList.update (t_id (tn_task n)) (tn_task n)) (tg_nodes g) []"

definition copy_session :: "session_snapshot \<Rightarrow> session_snapshot" where
  "copy_session sn =
     (let tasks = graph_tasks (sn_task_graph sn);
          nodes = map (\<lambda>n. n\<lparr>tn_task := the (map_of tasks (t_id (tn_task n)))\<rparr>) (tg_nodes (sn_task_graph sn))
      in sn\<lparr>sn_state := copy_state (sn_state sn) tasks, sn_task_graph := (sn_task_graph sn)\<lparr>tg_nodes := nodes\<rparr>,
            sn_domain_identities := snapshot_domains sn\<rparr>)"

subsection \<open>The store\<close>

datatype store_error = StoreValueErr string | StateNotFound string | VersionConflict string

type_synonym session_store = "(string, session_snapshot) dict"

definition snapshot_id :: "session_snapshot \<Rightarrow> string" where
  "snapshot_id sn = as_session_id (sn_state sn)"

text \<open>\<open>create_session\<close> and \<open>save_session\<close> return the version that the caller's snapshot gets.\<close>

definition create_session :: "session_snapshot \<Rightarrow> session_store \<Rightarrow> (session_store, store_error, nat) outcome" where
  "create_session sn st =
     (if map_of st (snapshot_id sn) \<noteq> None
      then (Inl (StoreValueErr (''session already exists: '' @ snapshot_id sn)), st)
      else (Inr 0, AList.update (snapshot_id sn) ((copy_session sn)\<lparr>sn_version := 0\<rparr>) st))"

definition load_session :: "string \<Rightarrow> session_store \<Rightarrow> store_error + session_snapshot" where
  "load_session sid st = (case map_of st sid of
     None \<Rightarrow> Inl (StateNotFound (''session not found: '' @ sid)) | Some sn \<Rightarrow> Inr (copy_session sn))"

definition save_session :: "session_snapshot \<Rightarrow> session_store \<Rightarrow> (session_store, store_error, nat) outcome" where
  "save_session sn st =
     (case map_of st (snapshot_id sn) of
        None \<Rightarrow> (Inl (StateNotFound (''session not found: '' @ snapshot_id sn)), st)
      | Some stored \<Rightarrow>
          if sn_version sn \<noteq> sn_version stored then
            (Inl (VersionConflict (''session version conflict: '' @ snapshot_id sn @ '' expected ''
               @ show_nat (sn_version stored) @ '', got '' @ show_nat (sn_version sn))), st)
          else (Inr (sn_version stored + 1),
            AList.update (snapshot_id sn) ((copy_session sn)\<lparr>sn_version := sn_version stored + 1\<rparr>) st))"

fun page_loop :: "string option \<Rightarrow> int option \<Rightarrow> session_snapshot list \<Rightarrow> bool \<Rightarrow> bool
    \<Rightarrow> session_snapshot list \<Rightarrow> session_snapshot list \<times> bool" where
  "page_loop after limit [] cursor_seen in_scope selected = (selected, in_scope)"
| "page_loop after limit (sn # sns) cursor_seen in_scope selected =
     (let hit = (after \<noteq> None \<and> Some (snapshot_id sn) = after); in_scope' = (in_scope \<or> hit) in
      if \<not> cursor_seen then page_loop after limit sns hit in_scope' selected
      else let selected' = selected @ [sn] in
        if (case limit of None \<Rightarrow> False | Some n \<Rightarrow> n \<le> int (length selected')) then (selected', in_scope')
        else page_loop after limit sns cursor_seen in_scope' selected')"

definition paginate :: "session_snapshot list \<Rightarrow> string option \<Rightarrow> int option
    \<Rightarrow> store_error + session_snapshot list" where
  "paginate sns after limit =
     (if (case limit of None \<Rightarrow> False | Some n \<Rightarrow> n < 1)
      then Inl (StoreValueErr ''session list limit must be positive'')
      else case page_loop after limit sns (after = None) False [] of (selected, in_scope) \<Rightarrow>
        if after \<noteq> None \<and> \<not> in_scope
        then Inl (StoreValueErr (''session cursor not found: '' @ the after)) else Inr selected)"

definition list_sessions :: "string option \<Rightarrow> int option \<Rightarrow> session_store
    \<Rightarrow> store_error + session_snapshot list" where
  "list_sessions after limit st =
     paginate (sort_reverse (\<lambda>sn. (g_created_at (as_goal (sn_state sn)), snapshot_id sn))
       (map copy_session (dict_values st))) after limit"

definition create_state :: "agent_state \<Rightarrow> session_store \<Rightarrow> (session_store, store_error, nat) outcome" where
  "create_state a st = create_session (session_from_state a [] [] []) st"

definition load_state :: "string \<Rightarrow> session_store \<Rightarrow> store_error + agent_state" where
  "load_state sid st = (case load_session sid st of Inl e \<Rightarrow> Inl e | Inr sn \<Rightarrow> Inr (sn_state sn))"

definition save_state :: "agent_state \<Rightarrow> session_store \<Rightarrow> (session_store, store_error, nat) outcome" where
  "save_state a st =
     (case map_of st (as_session_id a) of
        None \<Rightarrow> (Inl (StateNotFound (''session not found: '' @ as_session_id a)), st)
      | Some stored \<Rightarrow> save_session (with_state stored a) st)"

subsection \<open>The journal\<close>

record runtime_event =
  re_id :: string
  re_type :: string
  re_session_id :: string
  re_goal_id :: string
  re_task_id :: string
  re_action_id :: "string option"
  re_data :: json_mapping

record event_journal =
  ej_events :: "runtime_event list"
  ej_event_ids :: "string list"
  ej_by_session :: "(string, runtime_event list) dict"

definition empty_journal :: event_journal where
  "empty_journal = \<lparr>ej_events = [], ej_event_ids = [], ej_by_session = []\<rparr>"

definition append_event :: "runtime_event \<Rightarrow> event_journal \<Rightarrow> event_journal" where
  "append_event e j =
     (if re_id e \<in> set (ej_event_ids j) then j
      else \<lparr>ej_events = ej_events j @ [e], ej_event_ids = re_id e # ej_event_ids j,
            ej_by_session = AList.update (re_session_id e)
              (dict_get (ej_by_session j) (re_session_id e) [] @ [e]) (ej_by_session j)\<rparr>)"

definition events_for :: "string \<Rightarrow> event_journal \<Rightarrow> runtime_event list" where
  "events_for sid j = dict_get (ej_by_session j) sid []"

definition session_state_event :: string where
  "session_state_event = ''SessionStateCommitted''"

text \<open>\<open>rebuild_session_snapshot\<close>: the last decodable state, if there is one and none fails.\<close>

fun rebuild_loop :: "(json \<Rightarrow> string + session_snapshot) \<Rightarrow> runtime_event list \<Rightarrow> session_snapshot option
    \<Rightarrow> string + session_snapshot option" where
  "rebuild_loop decode [] candidate = Inr candidate"
| "rebuild_loop decode (e # es) candidate =
     (if re_type e \<noteq> session_state_event then rebuild_loop decode es candidate
      else case map_of (re_data e) ''snapshot'' of
        None \<Rightarrow> rebuild_loop decode es candidate
      | Some payload \<Rightarrow>
          if payload = JNull then rebuild_loop decode es candidate
          else (case decode payload of
            Inl m \<Rightarrow> Inl (''failed to decode session state event '' @ re_id e @ '': '' @ m)
          | Inr sn \<Rightarrow> rebuild_loop decode es (Some sn)))"

definition rebuild_session_snapshot :: "(json \<Rightarrow> string + session_snapshot) \<Rightarrow> string \<Rightarrow> event_journal
    \<Rightarrow> string + session_snapshot" where
  "rebuild_session_snapshot decode sid j =
     (case rebuild_loop decode (events_for sid j) None of
        Inl e \<Rightarrow> Inl e
      | Inr None \<Rightarrow> Inl (''no session state events for '' @ sid)
      | Inr (Some sn) \<Rightarrow> Inr sn)"

text \<open>\<open>rebuild_session\<close>: a reducer over all events; what it raises becomes a replay error.\<close>

fun reduce_events :: "(runtime_event \<Rightarrow> session_snapshot \<Rightarrow> string + session_snapshot) \<Rightarrow> runtime_event list
    \<Rightarrow> session_snapshot \<Rightarrow> string + session_snapshot" where
  "reduce_events reducer [] sn = Inr sn"
| "reduce_events reducer (e # es) sn =
     (case reducer e sn of Inl m \<Rightarrow> Inl m | Inr sn' \<Rightarrow> reduce_events reducer es sn')"

text \<open>\<open>EventSourcedSessionStore.load_session\<close>: a session that is missing is rebuilt and created.\<close>

definition load_or_rebuild :: "(json \<Rightarrow> string + session_snapshot) \<Rightarrow> event_journal \<Rightarrow> string
    \<Rightarrow> session_store \<Rightarrow> (session_store, store_error, session_snapshot) outcome" where
  "load_or_rebuild decode j sid st =
     (case load_session sid st of
        Inr sn \<Rightarrow> (Inr sn, st)
      | Inl (StateNotFound _) \<Rightarrow>
          check_op (map_error StoreValueErr (rebuild_session_snapshot decode sid j)) st (\<lambda>sn.
            bind_op (create_session sn st) (\<lambda>v st'. (Inr (sn\<lparr>sn_version := v\<rparr>), st')))
      | Inl e \<Rightarrow> (Inl e, st))"

end
