(* ===== verification/Store_Safety.thy ===== *)
theory Store_Safety
  imports Session_Store
begin

text \<open>
  What the session store guarantees: no writer overwrites a change it has not seen, and a session
  that is saved, loaded and hydrated is the session it was, except for the three fields that the
  copying of the state does not take over.
\<close>

subsection \<open>Copies\<close>

lemma copy_session_simps [simp]:
  "snapshot_id (copy_session sn) = snapshot_id sn" "sn_version (copy_session sn) = sn_version sn"
  "sn_evidence (copy_session sn) = sn_evidence sn" "sn_domain_name (copy_session sn) = sn_domain_name sn"
  "sn_domain_version (copy_session sn) = sn_domain_version sn"
  by (simp_all add: copy_session_def copy_state_def snapshot_id_def Let_def split: prod.splits)

lemma snapshot_id_with_state [simp]: "snapshot_id (with_state sn st) = as_session_id st"
  by (simp add: with_state_def snapshot_id_def Let_def)

lemma version_with_state [simp]: "sn_version (with_state sn st) = sn_version sn"
  by (simp add: with_state_def Let_def)

definition forget_budget :: "agent_state \<Rightarrow> agent_state" where
  "forget_budget st = st\<lparr>as_cumulative_cost_micros := 0, as_cumulative_tokens := 0, as_is_continuation := False\<rparr>"

lemma resolve_known: "map_of tasks (t_id t) = Some t \<Longrightarrow> resolve_task t tasks = (t, tasks)"
  by (simp add: resolve_task_def)

lemma resolve_all_known: "\<forall>t \<in> set ts. map_of tasks (t_id t) = Some t \<Longrightarrow> resolve_tasks ts tasks = ts"
  by (induction ts) (auto simp: resolve_known)

lemma copy_state_known:
  assumes "map_of tasks (t_id (as_current_task st)) = Some (as_current_task st)"
    and "\<forall>t \<in> set (as_tasks st). map_of tasks (t_id t) = Some t"
  shows "copy_state st tasks = forget_budget st"
  by (cases st) (use assms in \<open>simp add: copy_state_def resolve_known resolve_all_known forget_budget_def\<close>)

lemma all_tasks_known:
  assumes "graph_wf m" and "t \<in> set (all_tasks m)"
  shows "map_of (tm_tasks m) (t_id t) = Some t"
proof -
  from assms(2) obtain i where i: "map_of (tm_tasks m) i = Some t"
    by (auto simp: all_tasks_def List.map_filter_def split: option.splits)
  moreover from i have "t_id t = i" using assms(1) map_of_SomeD [OF i] by (auto simp: graph_wf_def)
  ultimately show ?thesis by simp
qed

lemma graph_tasks_of_wf:
  assumes "graph_wf m"
  shows "graph_tasks \<lparr>tg_nodes = map (node_at m) (tm_keys m), tg_current_task_id = c\<rparr> = tm_tasks m"
proof -
  let ?ns = "map (node_at m) (tm_keys m)"
  have "distinct (map (\<lambda>n. t_id (tn_task n)) ?ns)"
    unfolding nodes_of_wf(1) [OF assms] using assms by (simp add: graph_wf_def)
  from fold_update_fresh [OF this, of "[]" tn_task]
  have "graph_tasks \<lparr>tg_nodes = ?ns, tg_current_task_id = c\<rparr> = map (\<lambda>n. (t_id (tn_task n), tn_task n)) ?ns"
    by (simp add: graph_tasks_def)
  also have "\<dots> = tm_tasks m"
    using arg_cong [OF nodes_of_wf(2) [OF assms], of tm_tasks] by (simp add: loaded_def)
  finally show ?thesis .
qed

lemma consistent_sync: "session_consistent s \<Longrightarrow> sync_current_task s = s"
  by (cases s; cases "ss_state s") (simp add: sync_current_task_def session_consistent_def)

definition plain_snapshot :: "evidence_store \<Rightarrow> session \<Rightarrow> session_snapshot" where
  "plain_snapshot store s = \<lparr>sn_state = ss_state s,
     sn_task_graph = \<lparr>tg_nodes = map (node_at (ss_tasks s)) (tm_keys (ss_tasks s)),
       tg_current_task_id = tm_current_id (ss_tasks s)\<rparr>,
     sn_evidence = export_evidence (as_session_id (ss_state s)) store, sn_domain_name = ss_domain_name s,
     sn_domain_version = ss_domain_version s, sn_domain_identities = ss_domain_identities s,
     sn_version = ss_version s\<rparr>"

lemma snapshot_of_consistent:
  "session_consistent s \<Longrightarrow> session_to_snapshot store s = Some (plain_snapshot store s)"
  using task_snapshot_eq [of "ss_tasks s"]
  by (simp add: session_to_snapshot_def consistent_sync session_consistent_def plain_snapshot_def)

lemma plain_snapshot_simps [simp]:
  "snapshot_id (plain_snapshot store s) = as_session_id (ss_state s)"
  "sn_state (plain_snapshot store s) = ss_state s" "sn_version (plain_snapshot store s) = ss_version s"
  "ss_domain_identities s \<noteq> [] \<Longrightarrow> snapshot_domains (plain_snapshot store s) = ss_domain_identities s"
  by (simp_all add: plain_snapshot_def snapshot_id_def snapshot_domains_def)

lemma copy_of_consistent:
  assumes "session_consistent s" and "ss_domain_identities s \<noteq> []"
  shows "copy_session (plain_snapshot store s) = plain_snapshot store (s\<lparr>ss_state := forget_budget (ss_state s)\<rparr>)"
proof -
  let ?m = "ss_tasks s" and ?sn = "plain_snapshot store s"
  have wf: "graph_wf ?m" using assms(1) by (simp add: session_consistent_def)
  have sn: "sn_task_graph ?sn = \<lparr>tg_nodes = map (node_at ?m) (tm_keys ?m), tg_current_task_id = tm_current_id ?m\<rparr>"
    by (simp add: plain_snapshot_def)
  have gt: "graph_tasks (sn_task_graph ?sn) = tm_tasks ?m" unfolding sn by (rule graph_tasks_of_wf [OF wf])
  have "n\<lparr>tn_task := the (map_of (tm_tasks ?m) (t_id (tn_task n)))\<rparr> = n"
    if n: "n \<in> set (map (node_at ?m) (tm_keys ?m))" for n
  proof -
    from n obtain p where "p \<in> set (tm_keys ?m)" "n = node_at ?m p" unfolding set_map by blast
    then have "(fst p, snd p) \<in> set (tm_keys ?m)" "n = node_at ?m (fst p, snd p)" by simp_all
    then obtain k i where ki: "(k, i) \<in> set (tm_keys ?m)" "n = node_at ?m (k, i)" by blast
    have "dict_values (tm_keys ?m) = tm_order ?m" using wf by (simp add: graph_wf_def)
    moreover have "i \<in> set (dict_values (tm_keys ?m))" using imageI [OF ki(1), of snd] by simp
    ultimately have "i \<in> set (tm_order ?m)" by (simp only:)
    then obtain t where t: "map_of (tm_tasks ?m) i = Some t"
      using graph_wf_sets(1) [OF wf] not_key by (metis not_None_eq)
    then have "t_id t = i" using wf map_of_SomeD [OF t] by (auto simp: graph_wf_def)
    then show ?thesis using t ki(2) by (simp add: node_at_def)
  qed
  then have nodes: "map (\<lambda>n. n\<lparr>tn_task := the (map_of (tm_tasks ?m) (t_id (tn_task n)))\<rparr>)
      (map (node_at ?m) (tm_keys ?m)) = map (node_at ?m) (tm_keys ?m)" by (intro map_idI) blast
  have cur: "map_of (tm_tasks ?m) (t_id (as_current_task (ss_state s))) = Some (as_current_task (ss_state s))"
    using current_task_ok [OF consistent_graph [OF assms(1)]] assms(1) by (auto simp: session_consistent_def)
  have "\<forall>t \<in> set (as_tasks (ss_state s)). map_of (tm_tasks ?m) (t_id t) = Some t"
    using all_tasks_known [OF wf] assms(1) by (simp add: session_consistent_def)
  with cur have "copy_state (ss_state s) (tm_tasks ?m) = forget_budget (ss_state s)" by (rule copy_state_known)
  then have st: "copy_state (sn_state ?sn) (tm_tasks ?m) = forget_budget (ss_state s)" by simp
  have "copy_session ?sn = ?sn\<lparr>sn_state := forget_budget (ss_state s),
      sn_task_graph := \<lparr>tg_nodes = map (node_at ?m) (tm_keys ?m), tg_current_task_id = tm_current_id ?m\<rparr>,
      sn_domain_identities := ss_domain_identities s\<rparr>"
    unfolding copy_session_def Let_def gt st unfolding sn
    by (simp only: task_graph.simps nodes plain_snapshot_simps(4) [OF assms(2)])
  then show ?thesis by (simp add: plain_snapshot_def forget_budget_def)
qed

text \<open>C26. A session survives being stored. When a consistent session is saved, loaded and hydrated
  against its own domains, the result is the session itself (task graph, current task, goal,
  observations, pending action, approvals, recovery attempts) with the new version, except that
  its cost and token budgets start again at zero and that it is no longer a continuation: these
  three fields are not copied. Its evidence comes back with it.\<close>

theorem session_survives_store:
  assumes "session_consistent s" and "ss_domain_identities s \<noteq> []"
    and "session_to_snapshot store s = Some sn" and "save_session sn st = (Inr v, st')"
  shows "\<exists>sn'. load_session (as_session_id (ss_state s)) st' = Inr sn'
    \<and> hydrate_session sn' (ss_domain_identities s) (ss_domain_name s) (ss_domain_version s)
        = Inr (s\<lparr>ss_version := v, ss_state := forget_budget (ss_state s)\<rparr>)
    \<and> sn_evidence sn' = export_evidence (as_session_id (ss_state s)) store"
proof -
  let ?m = "ss_tasks s" and ?sid = "as_session_id (ss_state s)"
  let ?s' = "s\<lparr>ss_version := v, ss_state := forget_budget (ss_state s)\<rparr>"
  let ?P = "plain_snapshot store ?s'"
  have sn: "sn = plain_snapshot store s" using assms(3) snapshot_of_consistent [OF assms(1)] by simp
  have cons: "session_consistent ?s'" using assms(1) by (simp add: session_consistent_def forget_budget_def)
  have ids: "ss_domain_identities ?s' \<noteq> []" using assms(2) by simp
  have "(copy_session sn)\<lparr>sn_version := v\<rparr> = ?P"
    unfolding sn copy_of_consistent [OF assms(1,2)] by (simp add: plain_snapshot_def)
  with assms(4) have "map_of st' ?sid = Some ?P"
    by (auto simp: save_session_def sn dict_simps split: option.splits if_splits)
  moreover have "copy_session ?P = ?P"
    unfolding copy_of_consistent [OF cons ids] by (simp add: forget_budget_def)
  ultimately have "load_session ?sid st' = Inr ?P" by (simp add: load_session_def)
  moreover have "hydrate_session ?P (ss_domain_identities s) (ss_domain_name s) (ss_domain_version s) = Inr ?s'"
  proof -
    have "from_snapshot (sn_task_graph ?P) = Inr ?m"
      using snapshot_loads [of ?m] assms(1) by (simp add: session_consistent_def plain_snapshot_def)
    moreover have "domain_mismatch ?P (ss_domain_identities s) (ss_domain_name s) (ss_domain_version s) = None"
      using assms(2) by (simp add: domain_mismatch_def)
    ultimately have "hydrate_session ?P (ss_domain_identities s) (ss_domain_name s) (ss_domain_version s)
        = Inr (sync_current_task ?s')"
      by (cases s) (simp add: hydrate_session_def)
    then show ?thesis by (simp only: consistent_sync [OF cons])
  qed
  moreover have "sn_evidence ?P = export_evidence ?sid store" by (simp add: plain_snapshot_def forget_budget_def)
  ultimately show ?thesis by blast
qed


definition stored_session :: session where
  "stored_session = (fresh_session ''s'' sample_goal sample_root)
     \<lparr>ss_domain_identities := [\<lparr>dom_name = ''d'', dom_version = ''1''\<rparr>]\<rparr>"

definition first_store :: session_store where
  "first_store = snd (create_session (the (session_to_snapshot [] stored_session)) [])"

definition second_store :: "(session_store, store_error, nat) outcome" where
  "second_store = save_session (the (session_to_snapshot [] stored_session)) first_store"

theorem session_survives_store_witness:
  "\<exists>sn'. load_session ''s'' (snd second_store) = Inr sn'
    \<and> hydrate_session sn' [\<lparr>dom_name = ''d'', dom_version = ''1''\<rparr>] [] [] = Inr (stored_session\<lparr>ss_version := 1\<rparr>)"
proof -
  have 1: "session_consistent stored_session"
    using fresh_consistent [of "''s''" sample_goal sample_root]
    by (simp add: stored_session_def session_consistent_def)
  have 2: "session_to_snapshot [] stored_session = Some (the (session_to_snapshot [] stored_session))"
    using snapshot_of_consistent [OF 1] by simp
  have "fst second_store = Inr 1" by code_simp
  then have 3: "save_session (the (session_to_snapshot [] stored_session)) first_store = (Inr 1, snd second_store)"
    by (metis prod.collapse second_store_def)
  have 4: "forget_budget (ss_state stored_session) = ss_state stored_session"
    "as_session_id (ss_state stored_session) = ''s''"
    "ss_domain_identities stored_session = [\<lparr>dom_name = ''d'', dom_version = ''1''\<rparr>]"
    "ss_domain_name stored_session = []" "ss_domain_version stored_session = []"
    by (simp_all add: stored_session_def fresh_session_def fresh_state_def forget_budget_def sync_current_task_def)
  have 5: "ss_domain_identities stored_session \<noteq> []" by (simp add: 4)
  from session_survives_store [OF 1 5 2 3] show ?thesis
    unfolding 4 by (cases "stored_session") auto
qed

subsection \<open>Concurrent writers\<close>

datatype store_event = SvCreate session_snapshot | SvSave session_snapshot | SvSaveState agent_state

fun store_step :: "session_store \<Rightarrow> store_event \<Rightarrow> session_store" where
  "store_step st (SvCreate sn) = snd (create_session sn st)"
| "store_step st (SvSave sn) = snd (save_session sn st)"
| "store_step st (SvSaveState a) = snd (save_state a st)"

lemma store_step_version:
  assumes "map_of st sid = Some old"
  shows "\<exists>new. map_of (store_step st e) sid = Some new \<and> (new = old \<or> sn_version old < sn_version new)"
proof -
  have save: "\<exists>new. map_of (snd (save_session sn st)) sid = Some new \<and> (new = old \<or> sn_version old < sn_version new)" for sn
    using assms by (auto simp: save_session_def dict_simps split: option.splits)
  show ?thesis
  proof (cases e)
    case (SvCreate sn)
    then show ?thesis using assms by (auto simp: create_session_def dict_simps)
  next
    case (SvSaveState a)
    then show ?thesis using assms save by (auto simp: save_state_def split: option.splits)
  qed (simp add: save)
qed

lemma store_run_version:
  assumes "map_of st sid = Some old"
  shows "\<exists>new. map_of (run_events store_step st es) sid = Some new \<and> (new = old \<or> sn_version old < sn_version new)"
  using assms
proof (induction es arbitrary: st old)
  case (Cons e es)
  from store_step_version [OF Cons.prems, of e] obtain mid
    where mid: "map_of (store_step st e) sid = Some mid" "mid = old \<or> sn_version old < sn_version mid" by blast
  from Cons.IH [OF mid(1)] mid(2) show ?case by auto
qed simp

text \<open>C27. No update is lost. Take a snapshot as it was loaded from the store, change it in any way, and
  save it after any other operations on the store (of other writers, on any sessions): the save
  succeeds exactly when nobody has stored anything for the session in between, and then it
  raises the version by one; otherwise it fails with a version conflict and the store stays as
  it is.\<close>

theorem no_lost_update:
  assumes "load_session sid st = Inr theirs" and "st' = run_events store_step st es"
    and "snapshot_id sn = sid" and "sn_version sn = sn_version theirs"
  shows "if map_of st' sid = map_of st sid
    then save_session sn st' = (Inr (sn_version theirs + 1),
      AList.update sid ((copy_session sn)\<lparr>sn_version := sn_version theirs + 1\<rparr>) st')
    else \<exists>m. save_session sn st' = (Inl (VersionConflict m), st')"
proof -
  from assms(1) obtain old where old: "map_of st sid = Some old" "theirs = copy_session old"
    by (auto simp: load_session_def split: option.splits)
  from store_run_version [OF old(1), of es] obtain new where
    new: "map_of st' sid = Some new" "new = old \<or> sn_version old < sn_version new"
    unfolding assms(2) by blast
  then show ?thesis using assms(3,4) old by (auto simp: save_session_def)
qed

theorem no_lost_update_witness:
  "\<exists>m. save_session (the (session_to_snapshot [] stored_session))
     (run_events store_step first_store [SvSave (the (session_to_snapshot [] stored_session))])
     = (Inl (VersionConflict m), run_events store_step first_store [SvSave (the (session_to_snapshot [] stored_session))])"
proof -
  let ?sn = "the (session_to_snapshot [] stored_session)"
  let ?st = "run_events store_step first_store [SvSave ?sn]"
  have l: "\<not> isl (load_session ''s'' first_store)" "sn_version (projr (load_session ''s'' first_store)) = 0" by code_simp+
  then have 1: "load_session ''s'' first_store = Inr (projr (load_session ''s'' first_store))"
    by (metis sum.collapse(2))
  have 2: "snapshot_id ?sn = ''s''" "sn_version ?sn = 0" by code_simp+
  have "map_option sn_version (map_of ?st ''s'') \<noteq> map_option sn_version (map_of first_store ''s'')" by code_simp
  then have "map_of ?st ''s'' \<noteq> map_of first_store ''s''" by metis
  with no_lost_update [OF 1 refl 2(1), of "[SvSave ?sn]"] l(2) 2(2) show ?thesis by simp
qed

subsection \<open>Pages\<close>

lemma page_loop_from:
  "page_loop after limit sns True sc sel =
     (sel @ (case limit of None \<Rightarrow> sns | Some n \<Rightarrow> take (max 1 (nat (n - int (length sel)))) sns),
      snd (page_loop after limit sns True sc sel))"
proof (induction sns arbitrary: sel sc)
  case (Cons sn sns)
  let ?hit = "after \<noteq> None \<and> Some (snapshot_id sn) = after"
  show ?case
  proof (cases limit)
    case None
    then show ?thesis using Cons.IH [of "sc \<or> ?hit" "sel @ [sn]"] by (simp add: Let_def)
  next
    case (Some n)
    show ?thesis
    proof (cases "n \<le> int (length sel) + 1")
      case True
      then have "max 1 (nat (n - int (length sel))) = 1" by linarith
      then show ?thesis using True Some by (simp add: Let_def)
    next
      case False
      then have "max 1 (nat (n - int (length sel))) = Suc (max 1 (nat (n - int (length (sel @ [sn])))))" by auto
      then show ?thesis using False Some Cons.IH [of "sc \<or> ?hit" "sel @ [sn]"] by (simp add: Let_def)
    qed
  qed
qed (simp split: option.splits)

lemma page_loop_scope: "snd (page_loop after limit sns True True sel)"
  by (induction sns arbitrary: sel) (auto simp: Let_def split: option.splits)

lemma page_loop_skip:
  "snapshot_id y = a \<Longrightarrow> a \<notin> snapshot_id ` set xs \<Longrightarrow>
     page_loop (Some a) limit (xs @ y # ys) False sc sel = page_loop (Some a) limit ys True True sel"
  by (induction xs arbitrary: sc) (auto simp: Let_def)

text \<open>The page after a session of the list holds the next sessions, the first page the first ones.\<close>

lemma pages_tile:
  assumes "distinct (map snapshot_id xs)" and "k < length xs" and "1 \<le> n"
  shows "paginate xs None (Some (int n)) = Inr (take n xs)
    \<and> paginate xs (Some (snapshot_id (xs ! k))) (Some (int n)) = Inr (take n (drop (Suc k) xs))"
proof
  have m: "max 1 (nat (int n - int (length []))) = n" using assms(3) by simp
  show "paginate xs None (Some (int n)) = Inr (take n xs)"
    using assms(3) page_loop_from [of None "Some (int n)" xs False "[]"]
    by (auto simp: paginate_def m split: prod.splits)
  let ?a = "snapshot_id (xs ! k)"
  have xs: "xs = take k xs @ xs ! k # drop (Suc k) xs" using assms(2) by (rule id_take_nth_drop)
  have "?a \<notin> snapshot_id ` set (take k xs)"
    using assms(1) by (subst (asm) xs) (auto simp del: append_take_drop_id)
  from page_loop_skip [OF refl this, of "Some (int n)" "drop (Suc k) xs" False "[]"]
  have "page_loop (Some ?a) (Some (int n)) xs False False [] =
      page_loop (Some ?a) (Some (int n)) (drop (Suc k) xs) True True []" using xs by simp
  then show "paginate xs (Some ?a) (Some (int n)) = Inr (take n (drop (Suc k) xs))"
    using assms(3) page_loop_from [of "Some ?a" "Some (int n)" "drop (Suc k) xs" True "[]"]
      page_loop_scope [of "Some ?a" "Some (int n)" "drop (Suc k) xs" "[]"]
    by (auto simp: paginate_def m split: prod.splits)
qed

subsection \<open>The journal\<close>

lemma events_for_append:
  "re_id e \<notin> set (ej_event_ids j) \<Longrightarrow>
     events_for s (append_event e j) = (if s = re_session_id e then events_for s j @ [e] else events_for s j)"
  by (simp add: append_event_def events_for_def dict_simps)

lemma rebuild_loop_append:
  "rebuild_loop decode (es @ fs) c = (case rebuild_loop decode es c of Inl m \<Rightarrow> Inl m | Inr c' \<Rightarrow> rebuild_loop decode fs c')"
  by (induction es arbitrary: c) (auto split: option.splits sum.splits)

text \<open>A session state that is appended under a new event id is what the session is rebuilt to, until
  the next state of this session; events of other types or sessions do not matter.\<close>

lemma rebuild_latest:
  assumes "re_id e \<notin> set (ej_event_ids j)" and "re_type e = session_state_event"
    and "map_of (re_data e) ''snapshot'' = Some p" and "p \<noteq> JNull" and "decode p = Inr sn"
    and "rebuild_loop decode (events_for (re_session_id e) j) None = Inr c"
  shows "rebuild_session_snapshot decode (re_session_id e) (append_event e j) = Inr sn"
  using assms by (simp add: rebuild_session_snapshot_def events_for_append rebuild_loop_append)

end
