(* ===== verification/Memory.thy ===== *)
theory Memory
  imports Session_Safety
begin

text \<open>
  What past sessions leave for later ones: \<open>memory/models.py\<close>, \<open>memory/store.py\<close>,
  \<open>memory/retrieval.py\<close> and \<open>runtime/memory.py\<close>. The scores of \<open>rapidfuzz\<close> are parameters:
  \<open>extract\<close> stands for \<open>process.extract\<close> with the scorer and processor the code passes (query,
  choices and cutoff to scores out of 100 with the index of the choice), \<open>wratio\<close> for
  \<open>fuzz.WRatio\<close>. New identifiers and the clock are parameters too.
\<close>

subsection \<open>Records and the store\<close>

datatype memory_kind = Episodic | Semantic | Procedural | Preference

record memory_record =
  mr_kind :: memory_kind
  mr_subject :: string
  mr_content :: string
  mr_scope :: string
  mr_confidence :: rat
  mr_source_session_id :: "string option"
  mr_id :: string
  mr_created_at :: time
  mr_version :: int
  mr_tags :: "string list"
  mr_source :: string
  mr_metadata :: json_mapping

text \<open>\<open>MemoryRecord.__post_init__\<close>: \<open>None\<close>, or the message of the \<open>ValueError\<close>.\<close>

definition memory_problem :: "memory_record \<Rightarrow> string option" where
  "memory_problem r =
     (if mr_confidence r < 0 \<or> 1 < mr_confidence r then Some ''memory confidence must be between zero and one''
      else if blank (mr_subject r) \<or> blank (mr_content r) then Some ''memory subject and content are required''
      else None)"

record memory_query =
  mq_kinds :: "memory_kind list"
  mq_subjects :: "string list"
  mq_scope :: "string option"
  mq_limit :: "int option"

type_synonym memory_store = "(string, memory_record) dict"

definition add_memory :: "memory_record \<Rightarrow> memory_store \<Rightarrow> bool \<times> memory_store" where
  "add_memory r st = (if map_of st (mr_id r) \<noteq> None then (False, st)
     else (True, AList.update (mr_id r) r st))"

definition get_memory :: "string \<Rightarrow> memory_store \<Rightarrow> memory_record option" where
  "get_memory k st = map_of st k"

definition delete_memory :: "string \<Rightarrow> memory_store \<Rightarrow> bool \<times> memory_store" where
  "delete_memory k st = (map_of st k \<noteq> None, AList.delete k st)"

definition memory_order :: "memory_record \<Rightarrow> time \<times> string" where
  "memory_order r = (mr_created_at r, mr_id r)"

definition export_memory :: "memory_store \<Rightarrow> memory_record list" where
  "export_memory st = sort_key memory_order (dict_values st)"

definition memory_matches :: "memory_query \<Rightarrow> memory_record \<Rightarrow> bool" where
  "memory_matches q r \<longleftrightarrow> (mq_kinds q = [] \<or> mr_kind r \<in> set (mq_kinds q))
     \<and> (mq_subjects q = [] \<or> mr_subject r \<in> set (mq_subjects q))
     \<and> (mq_scope q = None \<or> Some (mr_scope r) = mq_scope q \<or> mr_scope r = [])"

definition query_memory :: "memory_query \<Rightarrow> memory_store \<Rightarrow> memory_record list" where
  "query_memory q st =
     (let matches = filter (memory_matches q) (dict_values st) in
      case mq_limit q of None \<Rightarrow> sort_key memory_order matches
      | Some n \<Rightarrow> slice_to n (sort_reverse memory_order matches))"

subsection \<open>Retrieval\<close>

record retrieval_request =
  rq_goal :: string
  rq_task :: string
  rq_subjects :: "string list"
  rq_scope :: "string option"

definition recall_limit :: int where
  "recall_limit = 32"

definition retrieve :: "retrieval_request \<Rightarrow> memory_store \<Rightarrow> memory_record list" where
  "retrieve rq st = query_memory \<lparr>mq_kinds = [], mq_subjects = [], mq_scope = rq_scope rq,
     mq_limit = Some recall_limit\<rparr> st"

definition query_text :: "retrieval_request \<Rightarrow> string" where
  "query_text rq = join_str '' '' (map py_strip
     (filter (\<lambda>p. \<not> blank p) (rq_goal rq # rq_task rq # rq_subjects rq)))"

definition record_text :: "memory_record \<Rightarrow> string" where
  "record_text r = mr_subject r @ '' '' @ mr_content r"

type_synonym extractor_of_matches = "string \<Rightarrow> (nat \<times> string) list \<Rightarrow> rat \<Rightarrow> (rat \<times> nat) list"

definition choices_of :: "memory_record list \<Rightarrow> (nat \<times> string) list" where
  "choices_of rs = filter (\<lambda>(_, t). t \<noteq> [])
     (map (\<lambda>i. (i, py_strip (record_text (rs ! i)))) [0..<length rs])"

text \<open>\<open>KeywordRelevanceFilter.filter\<close> with its threshold and limit.\<close>

definition keyword_filter :: "extractor_of_matches \<Rightarrow> rat \<Rightarrow> int \<Rightarrow> memory_record list
    \<Rightarrow> retrieval_request \<Rightarrow> memory_record list" where
  "keyword_filter extract threshold limit rs rq =
     (let query = query_text rq; choices = choices_of rs in
      if blank query \<or> choices = [] then []
      else let scored = filter (\<lambda>(score, _). threshold \<le> score)
             (map (\<lambda>(raw, i). (raw / 100 * mr_confidence (rs ! i), rs ! i))
               (extract query choices (threshold * 100)))
           in map snd (slice_to limit (sort_reverse (\<lambda>(score, r). (score, mr_created_at r)) scored)))"

definition similarity_score :: "(string \<Rightarrow> string \<Rightarrow> rat) \<Rightarrow> string \<Rightarrow> string \<Rightarrow> rat" where
  "similarity_score wratio query t = (if blank query \<or> blank t then 0 else wratio query t / 100)"

subsection \<open>\<open>MemoryConsultant\<close>\<close>

record consultant =
  mc_scope :: "string option"
  mc_filter :: "memory_record list \<Rightarrow> retrieval_request \<Rightarrow> memory_record list"
  mc_wratio :: "string \<Rightarrow> string \<Rightarrow> rat"
  mc_max_episodic :: int
  mc_threshold :: rat

text \<open>\<open>round(x, 3)\<close>\<close>

definition round3 :: "rat \<Rightarrow> rat" where
  "round3 x = of_int (round_half_even (x * 1000)) / 1000"

definition tag_episode :: "rat \<Rightarrow> memory_record \<Rightarrow> memory_record" where
  "tag_episode score r = r\<lparr>mr_metadata := AList.update ''goal_similarity'' (JFloat (round3 score))
     (AList.update ''recall_channel'' (JStr ''cross_session_episodic'') (mr_metadata r))\<rparr>"

definition recall_query :: "agent_state \<Rightarrow> string" where
  "recall_query st = py_strip (g_description (as_goal st) @ '' '' @ t_description (as_current_task st))"

definition scored_episodes :: "consultant \<Rightarrow> agent_state \<Rightarrow> memory_store \<Rightarrow> (rat \<times> memory_record) list" where
  "scored_episodes c st store =
     filter (\<lambda>(score, _). mc_threshold c \<le> score)
       (map (\<lambda>r. (similarity_score (mc_wratio c) (recall_query st) (record_text r), r))
         (filter (\<lambda>r. mr_kind r = Episodic \<and> mr_source_session_id r \<noteq> Some (as_session_id st))
           (query_memory \<lparr>mq_kinds = [], mq_subjects = [], mq_scope = mc_scope c,
              mq_limit = Some (mc_max_episodic c * 4)\<rparr> store)))"

text \<open>\<open>_recall_episodic_others\<close>; \<open>recall_episodic\<close> has the same body.\<close>

definition recall_episodic :: "consultant \<Rightarrow> agent_state \<Rightarrow> memory_store \<Rightarrow> memory_record list" where
  "recall_episodic c st store =
     (if recall_query st = [] then []
      else map (\<lambda>(score, r). tag_episode score r) (slice_to (mc_max_episodic c)
        (sort_reverse (\<lambda>(score, r). (score, mr_created_at r)) (scored_episodes c st store))))"

definition request_of :: "consultant \<Rightarrow> agent_state \<Rightarrow> world_snapshot \<Rightarrow> retrieval_request" where
  "request_of c st w = \<lparr>rq_goal = g_description (as_goal st), rq_task = t_description (as_current_task st),
     rq_subjects = map fa_subject (wo_facts w), rq_scope = mc_scope c\<rparr>"

definition recall :: "consultant \<Rightarrow> agent_state \<Rightarrow> world_snapshot \<Rightarrow> memory_store \<Rightarrow> memory_record list" where
  "recall c st w store =
     (let rq = request_of c st w;
          filtered = mc_filter c (retrieve rq store) rq;
          episodic_ids = map mr_id (filter (\<lambda>r. mr_kind r = Episodic) filtered);
          general = filter (\<lambda>r. mr_kind r \<noteq> Episodic) filtered
      in general @ filter (\<lambda>r. mr_id r \<notin> set episodic_ids) (recall_episodic c st store))"

fun execution_status_value :: "execution_status \<Rightarrow> string" where
  "execution_status_value ExecCompleted = ''completed''"
| "execution_status_value ExecWaiting = ''waiting''"
| "execution_status_value ExecCancelled = ''cancelled''"
| "execution_status_value ExecFailed = ''failed''"

text \<open>\<open>record_episodic\<close>: the record it builds, then the store that gets it.\<close>

definition episode_of :: "consultant \<Rightarrow> string \<Rightarrow> time \<Rightarrow> agent_state \<Rightarrow> execution_status \<Rightarrow> string \<Rightarrow> memory_record" where
  "episode_of c new_id now st status reason = \<lparr>mr_kind = Episodic, mr_subject = ''session '' @ as_session_id st,
     mr_content = ''Goal '' @ CHR 0x27 # g_description (as_goal st) @ CHR 0x27 # '' ended as ''
       @ execution_status_value status @ '': '' @ reason,
     mr_scope = (case mc_scope c of None \<Rightarrow> [] | Some s \<Rightarrow> s), mr_confidence = 1,
     mr_source_session_id = Some (as_session_id st), mr_id = new_id, mr_created_at = now, mr_version = 1,
     mr_tags = [], mr_source = [], mr_metadata = []\<rparr>"

definition record_episodic :: "consultant \<Rightarrow> string \<Rightarrow> time \<Rightarrow> agent_state \<Rightarrow> execution_status \<Rightarrow> string
    \<Rightarrow> memory_store \<Rightarrow> memory_store" where
  "record_episodic c new_id now st status reason store =
     (if status = ExecWaiting then store
      else snd (add_memory (episode_of c new_id now st status reason) store))"

subsection \<open>What is recalled\<close>

definition memory_wf :: "memory_store \<Rightarrow> bool" where
  "memory_wf st \<longleftrightarrow> dict_wf st \<and> (\<forall>(k, r) \<in> set st. mr_id r = k)"

lemma memory_wf_add: "memory_wf st \<Longrightarrow> memory_wf (snd (add_memory r st))"
  by (auto simp: memory_wf_def add_memory_def dict_simps)

lemma memory_wf_delete: "memory_wf st \<Longrightarrow> memory_wf (snd (delete_memory k st))"
  by (auto simp: memory_wf_def delete_memory_def dict_simps)

lemma memory_wf_record: "memory_wf st \<Longrightarrow> memory_wf (record_episodic c i now s status reason st)"
  by (simp add: record_episodic_def memory_wf_add)

lemma episode_valid: "memory_problem (episode_of c i now st status reason) = None"
  by (simp add: memory_problem_def episode_of_def blank_def py_isspace_def)

lemma memory_ids:
  assumes "memory_wf st" and "r \<in> set (dict_values st)" and "r' \<in> set (dict_values st)" and "mr_id r = mr_id r'"
  shows "r = r'"
proof -
  obtain k k' where k: "(k, r) \<in> set st" "(k', r') \<in> set st" using assms(2,3) by auto
  have wf: "dict_wf st" and ids: "\<forall>(k, r) \<in> set st. mr_id r = k" using assms(1) by (simp_all add: memory_wf_def)
  have "k = k'" using bspec [OF ids k(1)] bspec [OF ids k(2)] assms(4) by simp
  then show ?thesis using k eq_key_imp_eq_value [OF wf, of k r r'] by simp
qed

lemma set_slice_to: "set (slice_to n xs) \<subseteq> set xs"
  by (simp add: slice_to_def set_take_subset)

lemma sort_reverse_set [simp]: "set (sort_reverse f xs) = set xs"
  by (simp add: sort_reverse_def)

lemma length_slice_to: "0 \<le> n \<Longrightarrow> length (slice_to n xs) \<le> nat n"
  by (simp add: slice_to_def)

lemma query_memory_sound:
  "r \<in> set (query_memory q st) \<Longrightarrow> r \<in> set (dict_values st) \<and> memory_matches q r"
  using set_slice_to [of _ "sort_reverse memory_order (filter (memory_matches q) (dict_values st))"]
  by (auto simp: query_memory_def Let_def split: option.splits)

lemma recall_episodic_sound:
  assumes "r \<in> set (recall_episodic c st store)"
  obtains r0 score where "r = tag_episode score r0" "r0 \<in> set (dict_values store)" "mr_kind r0 = Episodic"
    "mr_source_session_id r0 \<noteq> Some (as_session_id st)" "mc_threshold c \<le> score"
    "mc_scope c = None \<or> Some (mr_scope r0) = mc_scope c \<or> mr_scope r0 = []"
proof -
  obtain p where p: "r = tag_episode (fst p) (snd p)" "p \<in> set (scored_episodes c st store)"
    using assms set_slice_to [of "mc_max_episodic c" "sort_reverse (\<lambda>(score, r). (score, mr_created_at r)) (scored_episodes c st store)"]
    by (auto simp: recall_episodic_def split: if_splits)
  then show ?thesis using that [of "fst p" "snd p"] query_memory_sound
    by (fastforce simp: scored_episodes_def memory_matches_def)
qed

lemma tag_episode_simps [simp]:
  "mr_id (tag_episode s r) = mr_id r" "mr_kind (tag_episode s r) = mr_kind r"
  "mr_source_session_id (tag_episode s r) = mr_source_session_id r" "mr_scope (tag_episode s r) = mr_scope r"
  by (simp_all add: tag_episode_def)

text \<open>The filter keeps candidates, when \<open>extract\<close> answers with indices of the choices.\<close>

lemma keyword_filter_sound:
  assumes "\<And>q cs k. snd ` set (extract q cs k) \<subseteq> fst ` set cs"
  shows "set (keyword_filter extract threshold limit rs rq) \<subseteq> set rs"
proof
  fix r assume "r \<in> set (keyword_filter extract threshold limit rs rq)"
  then obtain p where "p \<in> set (extract (query_text rq) (choices_of rs) (threshold * 100))" "r = rs ! snd p"
    using set_slice_to [of limit "sort_reverse (\<lambda>(score, r). (score, mr_created_at r))
      (filter (\<lambda>(score, _). threshold \<le> score) (map (\<lambda>(raw, i). (raw / 100 * mr_confidence (rs ! i), rs ! i))
               (extract (query_text rq) (choices_of rs) (threshold * 100))))"]
    by (auto simp: keyword_filter_def Let_def split: if_splits)
  moreover then have "snd p \<in> fst ` set (choices_of rs)"
    using assms [of "query_text rq" "choices_of rs" "threshold * 100"] by blast
  ultimately show "r \<in> set rs" by (auto simp: choices_of_def)
qed

text \<open>Recall stays within its bounds. Whatever is recalled for a session is a record of the
  store from the scope of the runtime or from no scope; an episode among it comes from another
  session than the one that asks, and there are at most as many episodes as the consultant allows.\<close>

theorem recall_stays_in_bounds:
  assumes "\<forall>rs rq. set (mc_filter c rs rq) \<subseteq> set rs" and "0 \<le> mc_max_episodic c"
  shows "(\<forall>r \<in> set (recall c st w store). \<exists>r0 \<in> set (dict_values store). mr_id r = mr_id r0 \<and> mr_kind r = mr_kind r0
      \<and> (mc_scope c = None \<or> Some (mr_scope r0) = mc_scope c \<or> mr_scope r0 = [])
      \<and> (mr_kind r = Episodic \<longrightarrow> mr_source_session_id r0 \<noteq> Some (as_session_id st)))
    \<and> length (filter (\<lambda>r. mr_kind r = Episodic) (recall c st w store)) \<le> nat (mc_max_episodic c)"
proof (rule conjI)
  let ?rq = "request_of c st w"
  let ?F = "mc_filter c (retrieve ?rq store) ?rq" and ?E = "recall_episodic c st store"
  show "\<forall>r \<in> set (recall c st w store). \<exists>r0 \<in> set (dict_values store). mr_id r = mr_id r0 \<and> mr_kind r = mr_kind r0
      \<and> (mc_scope c = None \<or> Some (mr_scope r0) = mc_scope c \<or> mr_scope r0 = [])
      \<and> (mr_kind r = Episodic \<longrightarrow> mr_source_session_id r0 \<noteq> Some (as_session_id st))"
  proof
    fix r assume "r \<in> set (recall c st w store)"
    then consider "r \<in> set ?F" "mr_kind r \<noteq> Episodic" | "r \<in> set ?E"
      by (auto simp: recall_def Let_def)
    then show "\<exists>r0 \<in> set (dict_values store). mr_id r = mr_id r0 \<and> mr_kind r = mr_kind r0
      \<and> (mc_scope c = None \<or> Some (mr_scope r0) = mc_scope c \<or> mr_scope r0 = [])
      \<and> (mr_kind r = Episodic \<longrightarrow> mr_source_session_id r0 \<noteq> Some (as_session_id st))"
    proof cases
      case 1
      then have "r \<in> set (retrieve ?rq store)" using assms(1) by blast
      then have "r \<in> set (dict_values store) \<and> (mc_scope c = None \<or> Some (mr_scope r) = mc_scope c \<or> mr_scope r = [])"
        using query_memory_sound by (fastforce simp: retrieve_def memory_matches_def request_of_def)
      then show ?thesis using 1(2) by blast
    next
      case 2
      then show ?thesis by (rule recall_episodic_sound) force
    qed
  qed
  have "length ?E \<le> nat (mc_max_episodic c)"
    using assms(2) by (auto simp: recall_episodic_def intro: length_slice_to)
  then show "length (filter (\<lambda>r. mr_kind r = Episodic) (recall c st w store)) \<le> nat (mc_max_episodic c)"
    by (auto simp: recall_def Let_def filter_empty_conv
        intro!: order_trans [OF length_filter_le] order_trans [OF length_filter_le])
qed

text \<open>The most relevant episodes are lost. An episode of another session that the relevance
  filter keeps is never recalled: the general channel drops it as an episode, and the channel of
  the episodes drops it as one that the general channel has.\<close>

theorem relevant_episode_lost:
  assumes "memory_wf store" and "\<forall>rs rq. set (mc_filter c rs rq) \<subseteq> set rs"
    and "r \<in> set (mc_filter c (retrieve (request_of c st w) store) (request_of c st w))"
    and "mr_kind r = Episodic"
  shows "mr_id r \<notin> mr_id ` set (recall c st w store)"
proof
  let ?F = "mc_filter c (retrieve (request_of c st w) store) (request_of c st w)"
  have F: "set ?F \<subseteq> set (dict_values store)"
    using assms(2) query_memory_sound unfolding retrieve_def by blast
  assume "mr_id r \<in> mr_id ` set (recall c st w store)"
  then obtain r' where r': "r' \<in> set ?F" "mr_kind r' \<noteq> Episodic" "mr_id r = mr_id r'"
    using assms(3,4) unfolding recall_def Let_def set_append set_filter image_Un set_map by (auto simp: image_iff)
  then show False using memory_ids [OF assms(1), of r r'] F assms(3,4) by auto
qed

definition sample_consultant :: "rat \<Rightarrow> consultant" where
  "sample_consultant raw = \<lparr>mc_scope = None,
     mc_filter = keyword_filter (\<lambda>q cs cut. if cut \<le> raw then map (\<lambda>(i, _). (raw, i)) cs else []) (9 / 20) 8,
     mc_wratio = (\<lambda>q t. 90), mc_max_episodic = 3, mc_threshold = 2 / 5\<rparr>"

definition sample_episode :: memory_record where
  "sample_episode = \<lparr>mr_kind = Episodic, mr_subject = ''session s1'', mr_content = ''ended'', mr_scope = [],
     mr_confidence = 1, mr_source_session_id = Some ''s1'', mr_id = ''m1'', mr_created_at = 5, mr_version = 1,
     mr_tags = [], mr_source = [], mr_metadata = []\<rparr>"

definition asking_state :: agent_state where
  "asking_state = fresh_state ''s2'' sample_goal sample_root False"

definition empty_snapshot :: world_snapshot where
  "empty_snapshot = \<lparr>wo_session_id = ''s2'', wo_facts = [], wo_fact_histories = [], wo_entities = [], wo_relations = []\<rparr>"

lemma sample_filter_sound: "\<forall>rs rq. set (mc_filter (sample_consultant raw) rs rq) \<subseteq> set rs"
  unfolding sample_consultant_def consultant.simps by (intro allI keyword_filter_sound) force

lemmas recall_sample_defs = recall_def retrieve_def request_of_def query_memory_def memory_matches_def
  sample_consultant_def keyword_filter_def choices_of_def query_text_def record_text_def recall_limit_def
  recall_query_def recall_episodic_def scored_episodes_def similarity_score_def sample_episode_def
  asking_state_def empty_snapshot_def fresh_state_def sample_goal_def sample_root_def slice_to_def
  sort_reverse_def blank_def py_strip_def py_isspace_def Let_def

text \<open>The same episode is recalled when the filter does not keep it.\<close>

theorem recall_stays_in_bounds_witness:
  "map mr_id (recall (sample_consultant 10) asking_state empty_snapshot [(''m1'', sample_episode)]) = [''m1'']
   \<and> length (filter (\<lambda>r. mr_kind r = Episodic)
        (recall (sample_consultant 10) asking_state empty_snapshot [(''m1'', sample_episode)])) \<le> 3"
proof (rule conjI)
  show "map mr_id (recall (sample_consultant 10) asking_state empty_snapshot [(''m1'', sample_episode)]) = [''m1'']"
    by (simp add: recall_sample_defs)
  show "length (filter (\<lambda>r. mr_kind r = Episodic)
        (recall (sample_consultant 10) asking_state empty_snapshot [(''m1'', sample_episode)])) \<le> 3"
    using recall_stays_in_bounds [OF sample_filter_sound, of 10 asking_state empty_snapshot "[(''m1'', sample_episode)]"]
    by (simp add: sample_consultant_def)
qed

theorem relevant_episode_lost_witness:
  "''m1'' \<notin> mr_id ` set (recall (sample_consultant 90) asking_state empty_snapshot [(''m1'', sample_episode)])"
proof -
  have "memory_wf [(''m1'', sample_episode)]" by (simp add: memory_wf_def sample_episode_def)
  moreover have "sample_episode \<in> set (mc_filter (sample_consultant 90)
      (retrieve (request_of (sample_consultant 90) asking_state empty_snapshot) [(''m1'', sample_episode)])
      (request_of (sample_consultant 90) asking_state empty_snapshot))"
    by (simp add: recall_sample_defs)
  moreover have "mr_kind sample_episode = Episodic" "mr_id sample_episode = ''m1''"
    by (simp_all add: sample_episode_def)
  ultimately show ?thesis
    using relevant_episode_lost [OF _ sample_filter_sound, of "[(''m1'', sample_episode)]" sample_episode] by metis
qed

end
