(* ===== verification/Evaluation.thy ===== *)
theory Evaluation
  imports World_Model
begin

text \<open>
  \<open>evaluation/evaluator.py\<close>: what an evaluator is given, the evaluator that compares criteria
  with expected values, and the registry of evaluators. An evaluator of a domain is a function
  that may raise.
\<close>

subsection \<open>Equality of values\<close>

text \<open>
  Python's \<open>==\<close> on JSON values: booleans are the numbers 0 and 1, an integer equals the
  float of the same value, and the order of the keys of a dictionary does not matter.
\<close>

fun json_number :: "json \<Rightarrow> rat option" where
  "json_number (JBool b) = Some (if b then 1 else 0)"
| "json_number (JInt i) = Some (of_int i)"
| "json_number (JFloat x) = Some x"
| "json_number _ = None"

function json_equal :: "json \<Rightarrow> json \<Rightarrow> bool" where
  "json_equal v w = (case v of
     JNull \<Rightarrow> w = JNull
   | JStr s \<Rightarrow> w = JStr s
   | JList vs \<Rightarrow> (case w of JList ws \<Rightarrow> length vs = length ws \<and> (\<forall>p \<in> set (zip vs ws). json_equal (fst p) (snd p)) | _ \<Rightarrow> False)
   | JObj kvs \<Rightarrow> (case w of JObj kws \<Rightarrow> length kvs = length kws
       \<and> (\<forall>p \<in> set kvs. case map_of kws (fst p) of None \<Rightarrow> False | Some x \<Rightarrow> json_equal (snd p) x) | _ \<Rightarrow> False)
   | _ \<Rightarrow> json_number w = json_number v)"
  by pat_completeness auto

lemma size_of_member: "v \<in> set vs \<Longrightarrow> size v < size (JList vs)"
  by (induction vs) auto

lemma size_of_entry: "p \<in> set kvs \<Longrightarrow> size (snd p) < size (JObj kvs)"
  by (induction kvs) (auto simp: size_prod_def)

termination json_equal
  by (relation "measure (\<lambda>(v, _). size v)")
    (auto dest!: set_zip_leftD simp del: json.size intro: size_of_member size_of_entry)

declare json_equal.simps [simp del]

lemma json_equal_refl_scalar:
  "json_equal JNull JNull" "json_equal (JBool b) (JBool b)" "json_equal (JInt i) (JInt i)"
  "json_equal (JFloat x) (JFloat x)" "json_equal (JStr s) (JStr s)"
  by (simp_all add: json_equal.simps)

subsection \<open>Evaluators\<close>

record evaluation_context =
  ec_goal :: goal
  ec_task :: task
  ec_observation :: observation
  ec_satisfied_criteria :: json_mapping
  ec_evidence :: "evidence list"
  ec_world :: world_snapshot

record evaluator =
  evl_name :: string
  evl_evaluate :: "evaluation_context \<Rightarrow> string + evaluation_result"

definition expected_values :: "goal \<Rightarrow> json_mapping" where
  "expected_values g = fold (\<lambda>c. AList.update (sc_key c) (sc_expected c)) (g_success_criteria g) []"

definition matched_criteria :: "evaluation_context \<Rightarrow> json_mapping" where
  "matched_criteria c = filter (\<lambda>(k, v). case map_of (expected_values (ec_goal c)) k of
     None \<Rightarrow> False | Some e \<Rightarrow> json_equal v e) (ec_satisfied_criteria c)"

definition criteria_evaluate :: "evaluation_context \<Rightarrow> evaluation_result" where
  "criteria_evaluate c =
     (let matched = matched_criteria c;
          task_complete = list_all (\<lambda>k. k \<in> set (dict_keys matched)) (t_required_criteria (ec_task c));
          goal_complete = list_all (\<lambda>k. k \<in> set (dict_keys matched)) (dict_keys (expected_values (ec_goal c)))
      in if task_complete \<and> goal_complete
         then \<lparr>er_status = EvalCompleted, er_reason = ''task and goal criteria satisfied'',
           er_evaluator_name = ''criteria'', er_matched_criteria = matched, er_task_completed = True,
           er_goal_completed = True\<rparr>
         else \<lparr>er_status = EvalIncomplete, er_reason = ''required criteria are not yet satisfied'',
           er_evaluator_name = ''criteria'', er_matched_criteria = matched,
           er_task_completed = task_complete, er_goal_completed = goal_complete\<rparr>)"

definition criteria_evaluator :: evaluator where
  "criteria_evaluator = \<lparr>evl_name = ''criteria'', evl_evaluate = (\<lambda>c. Inr (criteria_evaluate c))\<rparr>"

type_synonym evaluator_registry = "(string, evaluator) dict"

definition register_evaluator :: "evaluator \<Rightarrow> evaluator_registry \<Rightarrow> (evaluator_registry, string, unit) outcome" where
  "register_evaluator e r =
     (if map_of r (evl_name e) \<noteq> None then (Inl (''evaluator already registered: '' @ evl_name e), r)
      else (Inr (), AList.update (evl_name e) e r))"

definition resolve_evaluator :: "string \<Rightarrow> evaluator_registry \<Rightarrow> string + evaluator" where
  "resolve_evaluator n r = (case map_of r n of None \<Rightarrow> Inl (''unknown evaluator: '' @ n) | Some e \<Rightarrow> Inr e)"

subsection \<open>What the criteria evaluator decides\<close>

lemma lookup_fold_update:
  "map_of (fold (\<lambda>c. AList.update (f c) (g c)) cs d) k =
     (case find (\<lambda>c. f c = k) (rev cs) of Some c \<Rightarrow> Some (g c) | None \<Rightarrow> map_of d k)"
proof (induction cs rule: rev_induct)
  case (snoc c cs)
  then show ?case by (simp add: dict_simps)
qed simp

lemma expected_values_lookup:
  "map_of (expected_values g) k =
     map_option sc_expected (find (\<lambda>c. sc_key c = k) (rev (g_success_criteria g)))"
  unfolding expected_values_def lookup_fold_update by (cases "find (\<lambda>c. sc_key c = k) (rev (g_success_criteria g))") simp_all

lemma expected_values_keys: "k \<in> set (dict_keys (expected_values g)) \<longleftrightarrow> k \<in> sc_key ` set (g_success_criteria g)"
proof -
  have "k \<notin> set (dict_keys (expected_values g)) \<longleftrightarrow> k \<notin> sc_key ` set (g_success_criteria g)"
    unfolding map_of_eq_None_iff [symmetric, unfolded set_map [symmetric]] expected_values_lookup
    by (auto simp: find_None_iff)
  then show ?thesis by blast
qed

lemma matched_keys:
  assumes "dict_wf (ec_satisfied_criteria c)"
  shows "k \<in> set (dict_keys (matched_criteria c)) \<longleftrightarrow>
    (\<exists>v e. map_of (ec_satisfied_criteria c) k = Some v \<and> map_of (expected_values (ec_goal c)) k = Some e \<and> json_equal v e)"
proof
  assume "k \<in> set (dict_keys (matched_criteria c))"
  then obtain v where "(k, v) \<in> set (ec_satisfied_criteria c)"
      "case map_of (expected_values (ec_goal c)) k of None \<Rightarrow> False | Some e \<Rightarrow> json_equal v e"
    by (auto simp: matched_criteria_def)
  then show "\<exists>v e. map_of (ec_satisfied_criteria c) k = Some v \<and> map_of (expected_values (ec_goal c)) k = Some e \<and> json_equal v e"
    using assms by (auto intro: map_of_is_SomeI split: option.splits)
next
  assume "\<exists>v e. map_of (ec_satisfied_criteria c) k = Some v \<and> map_of (expected_values (ec_goal c)) k = Some e \<and> json_equal v e"
  then obtain v e where v: "(k, v) \<in> set (ec_satisfied_criteria c)" "map_of (expected_values (ec_goal c)) k = Some e"
      "json_equal v e" by (auto dest: map_of_SomeD)
  then show "k \<in> set (dict_keys (matched_criteria c))" by (auto simp: matched_criteria_def intro!: image_eqI [of _ _ "(k, v)"])
qed

definition criterion_met :: "evaluation_context \<Rightarrow> string \<Rightarrow> bool" where
  "criterion_met c k \<longleftrightarrow> (case (find (\<lambda>cr. sc_key cr = k) (rev (g_success_criteria (ec_goal c))),
        map_of (ec_satisfied_criteria c) k) of
      (Some cr, Some v) \<Rightarrow> json_equal v (sc_expected cr) | _ \<Rightarrow> False)"

lemma matched_met:
  "dict_wf (ec_satisfied_criteria c) \<Longrightarrow> k \<in> set (dict_keys (matched_criteria c)) \<longleftrightarrow> criterion_met c k"
  unfolding matched_keys expected_values_lookup criterion_met_def
  by (cases "map_of (ec_satisfied_criteria c) k";
      cases "find (\<lambda>cr. sc_key cr = k) (rev (g_success_criteria (ec_goal c)))") (simp_all del: map_of_eq_Some_iff)

text \<open>The criteria evaluator completes exactly what is met. A criterion is met when the current value
  of its claim equals the expected value of the last success criterion of the goal with that key.
  The goal is complete when all its criteria are met, the task when all its required criteria are,
  and the evaluation when both are; so a task that requires a criterion the goal does not have is
  never completed.\<close>

theorem criteria_evaluator_exact:
  assumes "dict_wf (ec_satisfied_criteria c)"
  shows "(er_goal_completed (criteria_evaluate c) \<longleftrightarrow>
        (\<forall>cr \<in> set (g_success_criteria (ec_goal c)). criterion_met c (sc_key cr)))
    \<and> (er_task_completed (criteria_evaluate c) \<longleftrightarrow>
        (\<forall>k \<in> set (t_required_criteria (ec_task c)). criterion_met c k))
    \<and> (er_status (criteria_evaluate c) = EvalCompleted \<longleftrightarrow>
        er_goal_completed (criteria_evaluate c) \<and> er_task_completed (criteria_evaluate c))
    \<and> (\<forall>k \<in> set (t_required_criteria (ec_task c)). k \<notin> sc_key ` set (g_success_criteria (ec_goal c))
        \<longrightarrow> \<not> er_task_completed (criteria_evaluate c))"
proof (intro conjI ballI impI)
  note met = matched_met [OF assms]
  have goal: "list_all (\<lambda>k. k \<in> set (dict_keys (matched_criteria c))) (dict_keys (expected_values (ec_goal c)))
      \<longleftrightarrow> (\<forall>cr \<in> set (g_success_criteria (ec_goal c)). criterion_met c (sc_key cr))"
    unfolding list_all_iff met Ball_def expected_values_keys by blast
  have task: "list_all (\<lambda>k. k \<in> set (dict_keys (matched_criteria c))) (t_required_criteria (ec_task c))
      \<longleftrightarrow> (\<forall>k \<in> set (t_required_criteria (ec_task c)). criterion_met c k)"
    unfolding list_all_iff met ..
  show g: "er_goal_completed (criteria_evaluate c) \<longleftrightarrow>
      (\<forall>cr \<in> set (g_success_criteria (ec_goal c)). criterion_met c (sc_key cr))"
    unfolding criteria_evaluate_def Let_def goal by simp
  show t: "er_task_completed (criteria_evaluate c) \<longleftrightarrow>
      (\<forall>k \<in> set (t_required_criteria (ec_task c)). criterion_met c k)"
    unfolding criteria_evaluate_def Let_def task by simp
  show "er_status (criteria_evaluate c) = EvalCompleted \<longleftrightarrow>
      er_goal_completed (criteria_evaluate c) \<and> er_task_completed (criteria_evaluate c)"
    unfolding criteria_evaluate_def Let_def by auto
  fix k assume k: "k \<in> set (t_required_criteria (ec_task c))" "k \<notin> sc_key ` set (g_success_criteria (ec_goal c))"
  then have "\<not> criterion_met c k"
    by (auto simp: criterion_met_def find_Some_iff image_iff rev_nth split: option.splits)
  then show "\<not> er_task_completed (criteria_evaluate c)" using t k(1) by blast
qed

definition criteria_context :: "json \<Rightarrow> evaluation_context" where
  "criteria_context v = \<lparr>ec_goal = \<lparr>g_description = ''scale'', g_success_criteria =
        [\<lparr>sc_key = ''replicas'', sc_expected = JInt 3\<rparr>], g_id = ''g'', g_status = GoalRunning, g_created_at = 0\<rparr>,
     ec_task = \<lparr>t_description = ''t'', t_required_criteria = [''replicas''], t_id = ''t'', t_status = TaskRunning,
        t_created_at = 0\<rparr>,
     ec_observation = \<lparr>ob_id = ''o'', ob_action_id = ''a'', ob_task_id = ''t'', ob_source = ''s'',
        ob_status = ObsSucceeded, ob_data = [], ob_observed_at = 0, ob_error = None, ob_error_code = None\<rparr>,
     ec_satisfied_criteria = [(''replicas'', v)], ec_evidence = [],
     ec_world = \<lparr>wo_session_id = ''s'', wo_facts = [], wo_fact_histories = [], wo_entities = [], wo_relations = []\<rparr>\<rparr>"

theorem criteria_evaluator_exact_witness:
  "er_status (criteria_evaluate (criteria_context (JFloat 3))) = EvalCompleted
   \<and> er_status (criteria_evaluate (criteria_context (JInt 2))) \<noteq> EvalCompleted"
proof -
  have "dict_wf (ec_satisfied_criteria (criteria_context v))" for v by (simp add: criteria_context_def)
  moreover have "criterion_met (criteria_context (JFloat 3)) ''replicas''" "\<not> criterion_met (criteria_context (JInt 2)) ''replicas''"
    by (simp_all add: criterion_met_def criteria_context_def json_equal.simps)
  ultimately show ?thesis
    using criteria_evaluator_exact [of "criteria_context (JFloat 3)"] criteria_evaluator_exact [of "criteria_context (JInt 2)"]
    by (simp add: criteria_context_def)
qed

end
