(* ===== verification/Domain_Runtime.thy ===== *)
theory Domain_Runtime
  imports Action_Executor Recovery Memory Evaluation
begin

text \<open>
  How the domains of an agent become the components of its runtime: \<open>domain/runtime.py\<close>
  (active domains, their validation and composition, the declarative specification),
  \<open>domain/manager.py\<close> (registration and activation) and \<open>domain/builder.py\<close> (the registries
  and the look-ups by domain). The objects a domain contributes are records of their name and
  their functions; every error of this part is a \<open>DomainValidationError\<close> or a \<open>ValueError\<close> and
  is given by its text.
\<close>

subsection \<open>What a domain contributes\<close>

record domain_metadata =
  md_name :: string
  md_version :: string
  md_description :: string

record domain_manifest =
  dm_api_version :: string
  dm_kind :: string
  dm_metadata :: domain_metadata
  dm_ontology :: "string list"
  dm_capability_names :: "string list"
  dm_evaluator_names :: "string list"

record context_fragment =
  cf_key :: string
  cf_content :: string
  cf_priority :: int

record context_provider =
  cp_name :: string
  cp_provide :: "agent_state \<Rightarrow> context_fragment list"

record evidence_extractor =
  xt_name :: string
  xt_extract :: "string \<Rightarrow> task \<Rightarrow> observation \<Rightarrow> string + evidence list"

record domain_updater =
  du_name :: string
  du_apply :: world_updater

record task_expander =
  te_name :: string
  te_capabilities :: "string list"
  te_expand :: "task \<Rightarrow> evidence list \<Rightarrow> world_snapshot \<Rightarrow> string + task_spec list"

record active_domain =
  ad_manifest :: domain_manifest
  ad_capabilities :: "capability_definition list"
  ad_tools :: "tool list"
  ad_policies :: "policy list"
  ad_evaluators :: "evaluator list"
  ad_context_providers :: "context_provider list"
  ad_evidence_extractors :: "evidence_extractor list"
  ad_world_updaters :: "domain_updater list"
  ad_task_expanders :: "task_expander list"
  ad_recovery_rules :: "recovery_rule list"
  ad_argument_providers :: "argument_provider list"
  ad_reconcilers :: "reconciler list"
  ad_memories :: "memory_record list"

definition domain_identity_of :: "active_domain \<Rightarrow> domain_identity" where
  "domain_identity_of d = \<lparr>dom_name = md_name (dm_metadata (ad_manifest d)),
     dom_version = md_version (dm_metadata (ad_manifest d))\<rparr>"

subsection \<open>\<open>DomainLoader\<close>\<close>

text \<open>\<open>", ".join(sorted(set(names) - known))\<close>, when that is not empty.\<close>

definition unknown_names :: "string list \<Rightarrow> string list \<Rightarrow> string option" where
  "unknown_names known names =
     (let unknown = sort (remdups (filter (\<lambda>n. n \<notin> set known) names))
      in if unknown = [] then None else Some (join_str '', '' unknown))"

fun first_unknown :: "string \<Rightarrow> string list \<Rightarrow> (string \<times> string list) list \<Rightarrow> string option" where
  "first_unknown what known [] = None"
| "first_unknown what known ((name, names) # rest) =
     (case unknown_names known names of
        Some u \<Rightarrow> Some (what @ '' '' @ name @ '' references unknown capabilities: '' @ u)
      | None \<Rightarrow> first_unknown what known rest)"

definition bad_rule :: "string list \<Rightarrow> recovery_rule list \<Rightarrow> string option" where
  "bad_rule known rules =
     map_option (\<lambda>r. ''recovery rule '' @ rr_name r @ '' references unknown capability: ''
         @ (case rr_capability r of None \<Rightarrow> ''None'' | Some c \<Rightarrow> c))
       (find (\<lambda>r. rr_strategy r = AlternativeCapability
          \<and> (case rr_capability r of None \<Rightarrow> True | Some c \<Rightarrow> c \<notin> set known)) rules)"

text \<open>The first of some verdicts that complains.\<close>

fun first_problem :: "string option list \<Rightarrow> string option" where
  "first_problem [] = None"
| "first_problem (None # ps) = first_problem ps"
| "first_problem (Some e # ps) = Some e"

definition require :: "bool \<Rightarrow> string \<Rightarrow> string option" where
  "require ok e = (if ok then None else Some e)"

definition reference_problem :: "active_domain \<Rightarrow> string option" where
  "reference_problem d =
     (let known = map cap_name (ad_capabilities d) in first_problem
      [first_unknown ''tool'' known (map (\<lambda>t. (tool_name (tl_definition t), tool_capabilities (tl_definition t))) (ad_tools d)),
       first_unknown ''task expander'' known (map (\<lambda>x. (te_name x, te_capabilities x)) (ad_task_expanders d)),
       first_unknown ''action argument provider'' known
         (map (\<lambda>x. (ap_name x, ap_capabilities x)) (ad_argument_providers d)),
       first_unknown ''action reconciler'' known (map (\<lambda>x. (rc_name x, rc_capabilities x)) (ad_reconcilers d)),
       bad_rule known (ad_recovery_rules d),
       require (\<forall>m \<in> set (ad_memories d). mr_kind m \<noteq> Episodic)
         (''domain may not declare episodic memory; episodic records are ''
          @ ''written only by the runtime at a terminal transition'')])"

definition same_names :: "string list \<Rightarrow> string list \<Rightarrow> bool" where
  "same_names xs ys \<longleftrightarrow> set xs = set ys"

text \<open>\<open>DomainLoader._validate\<close>\<close>

definition domain_problem :: "active_domain \<Rightarrow> string option" where
  "domain_problem d =
     (let m = ad_manifest d; caps = map cap_name (ad_capabilities d); evs = map evl_name (ad_evaluators d)
      in first_problem
      [require (dm_api_version m = ''agent.nantian.dev/v1alpha1'' \<and> dm_kind m = ''Domain'')
         ''unsupported domain apiVersion or kind'',
       require (md_name (dm_metadata m) \<noteq> [] \<and> md_version (dm_metadata m) \<noteq> [])
         ''domain name and version are required'',
       require (distinct caps) ''domain contains duplicate capabilities'',
       require (same_names caps (dm_capability_names m)) ''manifest capability references do not match registrations'',
       require (evs \<noteq> []) ''domain requires at least one evaluator'',
       require (dm_evaluator_names m \<noteq> []) ''domain manifest requires at least one evaluator'',
       require (same_names evs (dm_evaluator_names m)) ''manifest evaluator references do not match registrations'',
       reference_problem d])"

definition load_domain :: "active_domain \<Rightarrow> string + active_domain" where
  "load_domain d = (case domain_problem d of Some e \<Rightarrow> Inl e | None \<Rightarrow> Inr d)"

subsection \<open>\<open>DomainComposition\<close>\<close>

text \<open>\<open>duplicate_values\<close> of \<open>core/config_validation.py\<close>\<close>

definition duplicate_values :: "string list \<Rightarrow> string list" where
  "duplicate_values vs = sort (remdups (filter (\<lambda>v. 1 < count_list vs v) vs))"

text \<open>The loop over the names of all domains: the last owner of each name, and the conflicts.\<close>

definition conflict_text :: "string \<Rightarrow> domain_identity \<Rightarrow> domain_identity \<Rightarrow> string" where
  "conflict_text name owner other = name @ '' ('' @ domain_text owner @ '', '' @ domain_text other @ '')''"

fun owner_loop :: "(string \<times> domain_identity) list \<Rightarrow> (string, domain_identity) dict \<Rightarrow> string list \<Rightarrow> string list" where
  "owner_loop [] owners conflicts = conflicts"
| "owner_loop ((name, d) # rest) owners conflicts =
     owner_loop rest (AList.update name d owners)
       (case map_of owners name of None \<Rightarrow> conflicts | Some owner \<Rightarrow> conflicts @ [conflict_text name owner d])"

type_synonym composition = "active_domain list"

definition identities_of :: "composition \<Rightarrow> domain_identity list" where
  "identities_of ds = map domain_identity_of ds"

definition owned :: "(active_domain \<Rightarrow> string list) \<Rightarrow> composition \<Rightarrow> (string \<times> domain_identity) list" where
  "owned f ds = concat (map (\<lambda>d. map (\<lambda>n. (n, domain_identity_of d)) (f d)) ds)"

definition domain_capability_names :: "active_domain \<Rightarrow> string list" where
  "domain_capability_names d = map cap_name (ad_capabilities d)"

definition domain_tool_names :: "active_domain \<Rightarrow> string list" where
  "domain_tool_names d = map (\<lambda>t. tool_name (tl_definition t)) (ad_tools d)"

definition unique_problem :: "string \<Rightarrow> string list \<Rightarrow> string option" where
  "unique_problem what conflicts =
     require (conflicts = []) (''domain composition contains duplicate '' @ what @ '': '' @ join_str '', '' (sort conflicts))"

text \<open>\<open>DomainComposition.__post_init__\<close>\<close>

definition composition_problem :: "composition \<Rightarrow> string option" where
  "composition_problem ds = first_problem
     [require (ds \<noteq> []) ''domain composition requires at least one domain'',
      require (duplicate_values (map domain_text (identities_of ds)) = [])
        (''duplicate domain identities: '' @ join_str '', '' (duplicate_values (map domain_text (identities_of ds)))),
      unique_problem ''capabilities'' (owner_loop (owned domain_capability_names ds) [] []),
      unique_problem ''tools'' (owner_loop (owned domain_tool_names ds) [] [])]"

definition compose_domains :: "active_domain list \<Rightarrow> string + composition" where
  "compose_domains ds = (case composition_problem ds of Some e \<Rightarrow> Inl e | None \<Rightarrow> Inr ds)"

definition composition_scope :: "composition \<Rightarrow> string option" where
  "composition_scope ds = (if length ds = 1 then Some (md_name (dm_metadata (ad_manifest (hd ds)))) else None)"

definition collect :: "(active_domain \<Rightarrow> 'a list) \<Rightarrow> composition \<Rightarrow> 'a list" where
  "collect f ds = concat (map f ds)"

definition domain_for :: "domain_identity \<Rightarrow> composition \<Rightarrow> active_domain option" where
  "domain_for i ds = find (\<lambda>d. domain_identity_of d = i) ds"

text \<open>The \<open>..._for\<close> look-ups: nothing for an unknown domain.\<close>

definition collect_for :: "(active_domain \<Rightarrow> 'a list) \<Rightarrow> domain_identity \<Rightarrow> composition \<Rightarrow> 'a list" where
  "collect_for f i ds = (case domain_for i ds of None \<Rightarrow> [] | Some d \<Rightarrow> f d)"

definition domain_evaluator_names :: "active_domain \<Rightarrow> string list" where
  "domain_evaluator_names d = dm_evaluator_names (ad_manifest d)"

definition namespaced_provider :: "domain_identity \<Rightarrow> context_provider \<Rightarrow> context_provider" where
  "namespaced_provider i p = \<lparr>cp_name = dom_name i @ ''.'' @ cp_name p,
     cp_provide = (\<lambda>st. map (\<lambda>f. f\<lparr>cf_key := dom_name i @ ''.'' @ cf_key f\<rparr>) (cp_provide p st))\<rparr>"

definition namespaced_providers :: "active_domain \<Rightarrow> context_provider list" where
  "namespaced_providers d = map (namespaced_provider (domain_identity_of d)) (ad_context_providers d)"

subsection \<open>\<open>DomainManager\<close>\<close>

type_synonym domain_manager = "(domain_identity, active_domain) dict"

datatype domain_error = DomainInvalid string | DomainNotFound string | AmbiguousDomain string

definition register_domain :: "active_domain \<Rightarrow> domain_manager \<Rightarrow> (domain_manager, domain_error, active_domain) outcome" where
  "register_domain d m =
     check_op (map_error DomainInvalid (load_domain d)) m (\<lambda>a.
       if map_of m (domain_identity_of a) \<noteq> None
       then (Inl (DomainInvalid (''domain already registered: '' @ domain_text (domain_identity_of a))), m)
       else (Inr a, AList.update (domain_identity_of a) a m))"

definition get_domain :: "domain_identity \<Rightarrow> domain_manager \<Rightarrow> domain_error + active_domain" where
  "get_domain i m = (case map_of m i of
     None \<Rightarrow> Inl (DomainNotFound (''domain not registered: '' @ domain_text i)) | Some d \<Rightarrow> Inr d)"

fun all_ok :: "('e + 'a) list \<Rightarrow> 'e + 'a list" where
  "all_ok [] = Inr []"
| "all_ok (Inl e # rs) = Inl e"
| "all_ok (Inr a # rs) = (case all_ok rs of Inl e \<Rightarrow> Inl e | Inr as \<Rightarrow> Inr (a # as))"

definition activate_domains :: "domain_identity list option \<Rightarrow> domain_manager \<Rightarrow> domain_error + composition" where
  "activate_domains ids m =
     (case (case ids of None \<Rightarrow> Inr (dict_values m) | Some is \<Rightarrow> all_ok (map (\<lambda>i. get_domain i m) is)) of
        Inl e \<Rightarrow> Inl e | Inr ds \<Rightarrow> map_error DomainInvalid (compose_domains ds))"

definition identity_for_name :: "string \<Rightarrow> domain_manager \<Rightarrow> domain_error + domain_identity" where
  "identity_for_name name m =
     (case filter (\<lambda>i. dom_name i = name) (dict_keys m) of
        [] \<Rightarrow> Inl (DomainNotFound (''domain not registered: '' @ name))
      | [i] \<Rightarrow> Inr i
      | is \<Rightarrow> Inl (AmbiguousDomain (''domain '' @ name @ '' has multiple registered versions: ''
          @ join_str '', '' (sort (map dom_version is)))))"

definition activate_by_name :: "string list \<Rightarrow> domain_manager \<Rightarrow> domain_error + composition" where
  "activate_by_name names m =
     (case all_ok (map (\<lambda>n. identity_for_name n m) names) of Inl e \<Rightarrow> Inl e
      | Inr is \<Rightarrow> activate_domains (Some is) m)"

subsection \<open>\<open>RuntimeBuilder\<close>\<close>

text \<open>
  The components that depend on the domains. The stores, locks and versions of a fresh runtime
  are part of the state of the model, not of this record.
\<close>

record runtime_components =
  rt_registry :: capability_registry
  rt_tools :: tool_registry
  rt_policies :: "policy list"
  rt_evaluators :: evaluator_registry
  rt_world_updaters :: "world_updater list"
  rt_default_extractors :: "evidence_extractor list"
  rt_default_updaters :: "world_updater list"
  rt_recovery_rules :: "recovery_rule list"
  rt_composition :: composition
  rt_context_providers :: "context_provider list"
  rt_extractors :: "evidence_extractor list"
  rt_expanders :: "task_expander list"
  rt_providers :: "argument_provider list"
  rt_reconcilers :: "reconciler list"
  rt_evaluator_names :: "string list"
  rt_memory_scope :: "string option"

definition extractors_for :: "runtime_components \<Rightarrow> domain_identity option \<Rightarrow> evidence_extractor list" where
  "extractors_for c i =
     (let xs = (case i of None \<Rightarrow> rt_extractors c | Some d \<Rightarrow> collect_for ad_evidence_extractors d (rt_composition c))
      in if xs = [] then rt_default_extractors c else xs)"

definition updaters_for :: "runtime_components \<Rightarrow> domain_identity option \<Rightarrow> world_updater list" where
  "updaters_for c i = (case i of None \<Rightarrow> rt_world_updaters c
     | Some d \<Rightarrow> let us = map du_apply (collect_for ad_world_updaters d (rt_composition c))
         in if us = [] then rt_default_updaters c else us)"

definition updaters_for_evidence :: "runtime_components \<Rightarrow> evidence \<Rightarrow> world_updater list" where
  "updaters_for_evidence c e =
     (if ev_domain_name e \<noteq> [] \<and> ev_domain_version e \<noteq> []
      then updaters_for c (Some \<lparr>dom_name = ev_domain_name e, dom_version = ev_domain_version e\<rparr>)
      else rt_world_updaters c)"

definition expanders_for :: "runtime_components \<Rightarrow> domain_identity option \<Rightarrow> task_expander list" where
  "expanders_for c i = (case i of None \<Rightarrow> rt_expanders c | Some d \<Rightarrow> collect_for ad_task_expanders d (rt_composition c))"

definition providers_for :: "runtime_components \<Rightarrow> domain_identity option \<Rightarrow> argument_provider list" where
  "providers_for c i = (case i of None \<Rightarrow> rt_providers c | Some d \<Rightarrow> collect_for ad_argument_providers d (rt_composition c))"

definition reconcilers_for :: "runtime_components \<Rightarrow> domain_identity option \<Rightarrow> reconciler list" where
  "reconcilers_for c i = (case i of None \<Rightarrow> rt_reconcilers c | Some d \<Rightarrow> collect_for ad_reconcilers d (rt_composition c))"

text \<open>Registering one thing after the other, until one is refused.\<close>

fun register_each :: "('a \<Rightarrow> 'r \<Rightarrow> ('r, 'e, unit) outcome) \<Rightarrow> 'a list \<Rightarrow> 'r \<Rightarrow> 'e + 'r" where
  "register_each reg [] r = Inr r"
| "register_each reg (a # as) r = (case reg a r of (Inl e, _) \<Rightarrow> Inl e | (Inr _, r') \<Rightarrow> register_each reg as r')"

definition owned_items :: "(active_domain \<Rightarrow> 'a list) \<Rightarrow> composition \<Rightarrow> ('a \<times> domain_identity) list" where
  "owned_items f ds = concat (map (\<lambda>d. map (\<lambda>x. (x, domain_identity_of d)) (f d)) ds)"

definition memory_key :: "memory_record \<Rightarrow> memory_kind \<times> string \<times> string \<times> string \<times> rat \<times> string option" where
  "memory_key r = (mr_kind r, mr_subject r, mr_content r, mr_scope r, mr_confidence r, mr_source_session_id r)"

text \<open>The domains' memories join those of the store, each content once.\<close>

fun seed_memories :: "memory_record list \<Rightarrow> (memory_kind \<times> string \<times> string \<times> string \<times> rat \<times> string option) list
    \<Rightarrow> memory_store \<Rightarrow> memory_store" where
  "seed_memories [] existing st = st"
| "seed_memories (r # rs) existing st =
     (if memory_key r \<in> set existing then seed_memories rs existing st
      else seed_memories rs (memory_key r # existing) (snd (add_memory r st)))"

definition build_memory :: "composition \<Rightarrow> memory_store \<Rightarrow> memory_store" where
  "build_memory ds st = seed_memories (collect ad_memories ds) (map memory_key (export_memory st)) st"

text \<open>
  \<open>RuntimeBuilder.build\<close>: \<open>dumps\<close> renders the values that the default updater compares, \<open>extractor\<close>
  is the structured extractor with its new identifiers.
\<close>

definition build_runtime :: "(json \<Rightarrow> string) \<Rightarrow> evidence_extractor \<Rightarrow> policy list \<Rightarrow> composition
    \<Rightarrow> string + runtime_components" where
  "build_runtime dumps extractor extra ds =
     (case register_each (\<lambda>(c, i). register_capability c (Some i)) (owned_items ad_capabilities ds) [] of
        Inl e \<Rightarrow> Inl (registry_error_text e)
      | Inr caps \<Rightarrow> (case register_each (\<lambda>(t, i). register_tool t (Some i)) (owned_items ad_tools ds) [] of
          Inl e \<Rightarrow> Inl (registry_error_text e)
        | Inr tools \<Rightarrow> (case register_each register_evaluator (criteria_evaluator #
              filter (\<lambda>e. evl_name e \<noteq> evl_name criteria_evaluator) (collect ad_evaluators ds)) [] of
            Inl e \<Rightarrow> Inl e
          | Inr evs \<Rightarrow>
              (let updaters = map du_apply (collect ad_world_updaters ds) in
               Inr \<lparr>rt_registry = caps, rt_tools = tools, rt_policies = collect ad_policies ds @ extra,
                 rt_evaluators = evs,
                 rt_world_updaters = (if updaters = [] then [fact_world_updater dumps] else updaters),
                 rt_default_extractors = [extractor], rt_default_updaters = [fact_world_updater dumps],
                 rt_recovery_rules = collect ad_recovery_rules ds, rt_composition = ds,
                 rt_context_providers = collect namespaced_providers ds,
                 rt_extractors = collect ad_evidence_extractors ds, rt_expanders = collect ad_task_expanders ds,
                 rt_providers = collect ad_argument_providers ds, rt_reconcilers = collect ad_reconcilers ds,
                 rt_evaluator_names = collect domain_evaluator_names ds,
                 rt_memory_scope = composition_scope ds\<rparr>))))"

subsection \<open>Declarative domains\<close>

record domain_spec =
  sp_name :: string
  sp_version :: string
  sp_description :: string
  sp_capabilities :: "capability_definition list"
  sp_tools :: "tool list"
  sp_evaluators :: "evaluator list"
  sp_api_version :: string
  sp_kind :: string
  sp_ontology :: "string list"
  sp_policies :: "policy list"
  sp_context_providers :: "context_provider list"
  sp_evidence_extractors :: "evidence_extractor list"
  sp_world_updaters :: "domain_updater list"
  sp_task_expanders :: "task_expander list"
  sp_recovery_rules :: "recovery_rule list"
  sp_argument_providers :: "argument_provider list"
  sp_reconcilers :: "reconciler list"
  sp_memories :: "memory_record list"

definition spec_value :: "string \<Rightarrow> string \<Rightarrow> string option" where
  "spec_value v field = (case parse_non_empty_string v (''domain runtime spec '' @ field) of
     Inl e \<Rightarrow> Some e | Inr _ \<Rightarrow> None)"

definition spec_items :: "string \<Rightarrow> 'a list \<Rightarrow> string option" where
  "spec_items label xs = require (xs \<noteq> []) (''domain runtime spec requires at least one '' @ label @ '' declaration'')"

definition unique_spec_names :: "string \<Rightarrow> string list \<Rightarrow> string option" where
  "unique_spec_names label names = require (duplicate_values names = [])
     (''domain runtime spec contains duplicate '' @ label @ '': '' @ join_str '', '' (duplicate_values names))"

definition spec_names :: "string \<Rightarrow> string list \<Rightarrow> string option" where
  "spec_names label names =
     (if \<exists>n \<in> set names. blank n then Some (''domain runtime spec '' @ label @ '' must not include empty names'')
      else unique_spec_names label names)"

definition spec_problem :: "domain_spec \<Rightarrow> string option" where
  "spec_problem sp = first_problem
     [spec_value (sp_name sp) ''name'', spec_value (sp_version sp) ''version'',
      spec_value (sp_description sp) ''description'', spec_value (sp_api_version sp) ''api_version'',
      spec_value (sp_kind sp) ''kind'', spec_names ''ontology'' (sp_ontology sp),
      spec_items ''capabilities'' (sp_capabilities sp), spec_items ''tools'' (sp_tools sp),
      spec_items ''evaluators'' (sp_evaluators sp),
      unique_spec_names ''capabilities'' (map cap_name (sp_capabilities sp)),
      unique_spec_names ''tools'' (map (\<lambda>t. tool_name (tl_definition t)) (sp_tools sp)),
      unique_spec_names ''evaluators'' (map evl_name (sp_evaluators sp)),
      spec_names ''policies'' (map po_name (sp_policies sp)),
      spec_names ''context_providers'' (map cp_name (sp_context_providers sp)),
      spec_names ''evidence_extractors'' (map xt_name (sp_evidence_extractors sp)),
      spec_names ''world_updaters'' (map du_name (sp_world_updaters sp)),
      spec_names ''task_expanders'' (map te_name (sp_task_expanders sp)),
      spec_names ''recovery_rules'' (map rr_name (sp_recovery_rules sp)),
      spec_names ''action_argument_providers'' (map ap_name (sp_argument_providers sp)),
      spec_names ''action_reconcilers'' (map rc_name (sp_reconcilers sp)),
      spec_names ''memories'' (map mr_subject (sp_memories sp))]"

definition spec_manifest :: "domain_spec \<Rightarrow> domain_manifest" where
  "spec_manifest sp = \<lparr>dm_api_version = sp_api_version sp, dm_kind = sp_kind sp,
     dm_metadata = \<lparr>md_name = sp_name sp, md_version = sp_version sp, md_description = sp_description sp\<rparr>,
     dm_ontology = sp_ontology sp, dm_capability_names = map cap_name (sp_capabilities sp),
     dm_evaluator_names = map evl_name (sp_evaluators sp)\<rparr>"

text \<open>\<open>DeclarativeDomainRuntime\<close>, as the loader sees it.\<close>

definition spec_domain :: "domain_spec \<Rightarrow> active_domain" where
  "spec_domain sp = \<lparr>ad_manifest = spec_manifest sp, ad_capabilities = sp_capabilities sp, ad_tools = sp_tools sp,
     ad_policies = sp_policies sp, ad_evaluators = sp_evaluators sp,
     ad_context_providers = sp_context_providers sp, ad_evidence_extractors = sp_evidence_extractors sp,
     ad_world_updaters = sp_world_updaters sp, ad_task_expanders = sp_task_expanders sp,
     ad_recovery_rules = sp_recovery_rules sp, ad_argument_providers = sp_argument_providers sp,
     ad_reconcilers = sp_reconcilers sp, ad_memories = sp_memories sp\<rparr>"

end
