(* ===== verification/Domain_Safety.thy ===== *)
theory Domain_Safety
  imports Domain_Runtime
begin

text \<open>
  What the validation of the domains is worth to the runtime built from them: every name that
  the resolver answers belongs to one domain with its tool, a composition that was accepted can
  still fail to build, and a declarative domain is only refused for what it refers to.
\<close>

subsection \<open>Verdicts\<close>

lemma first_problem_None: "first_problem ps = None \<longleftrightarrow> (\<forall>p \<in> set ps. p = None)"
  by (induction ps rule: first_problem.induct) auto

lemma require_None [simp]: "require ok e = None \<longleftrightarrow> ok"
  by (simp add: require_def)

lemma sorted_names_Nil: "sort (remdups (filter P xs)) = [] \<longleftrightarrow> (\<forall>x \<in> set xs. \<not> P x)"
proof -
  have "sort ys = [] \<longleftrightarrow> ys = []" for ys :: "'a list" by (metis length_0_conv length_sort)
  then show ?thesis by (simp add: remdups_eq_nil_iff filter_empty_conv)
qed

lemma unknown_names_None: "unknown_names known names = None \<longleftrightarrow> set names \<subseteq> set known"
  by (auto simp: unknown_names_def Let_def sorted_names_Nil)

lemma first_unknown_None:
  "first_unknown what known xs = None \<longleftrightarrow> (\<forall>x \<in> set xs. set (snd x) \<subseteq> set known)"
  by (induction xs) (auto simp: unknown_names_None split: option.splits)

lemma loaded_domain:
  assumes "domain_problem d = None"
  shows "distinct (domain_capability_names d)"
    and "\<And>t. t \<in> set (ad_tools d) \<Longrightarrow> set (tool_capabilities (tl_definition t)) \<subseteq> set (domain_capability_names d)"
  using assms by (auto simp: domain_problem_def Let_def first_problem_None reference_problem_def
      first_unknown_None domain_capability_names_def)

lemma duplicate_values_Nil: "duplicate_values vs = [] \<longleftrightarrow> distinct vs"
proof -
  have "duplicate_values vs = [] \<longleftrightarrow> (\<forall>v \<in> set vs. \<not> 1 < count_list vs v)"
    unfolding duplicate_values_def sorted_names_Nil ..
  also have "\<dots> \<longleftrightarrow> distinct vs"
    by (induction vs) (auto simp: count_list_0_iff split: if_splits)
  finally show ?thesis .
qed

subsection \<open>Registering one after the other\<close>

lemma update_new: "map_of d k = None \<Longrightarrow> AList.update k v d = d @ [(k, v)]"
  by (induction d) (auto split: if_splits)

text \<open>A registry that refuses taken keys, and unfit things, and appends what it accepts.\<close>

locale registering =
  fixes reg :: "'a \<Rightarrow> ('k, 'v) dict \<Rightarrow> (('k, 'v) dict, 'e, unit) outcome"
    and key :: "'a \<Rightarrow> 'k" and val :: "'a \<Rightarrow> 'v" and fit :: "'a \<Rightarrow> bool"
  assumes accepts: "fit a \<Longrightarrow> map_of d (key a) = None \<Longrightarrow> reg a d = (Inr (), d @ [(key a, val a)])"
    and refuses: "\<not> fit a \<or> map_of d (key a) \<noteq> None \<Longrightarrow> isl (fst (reg a d))"
begin

lemma register_each_iff:
  "register_each reg as d = Inr r \<longleftrightarrow> r = d @ map (\<lambda>a. (key a, val a)) as \<and> (\<forall>a \<in> set as. fit a)
     \<and> distinct (map key as) \<and> set (map key as) \<inter> set (dict_keys d) = {}"
proof (induction as arbitrary: d)
  case (Cons a as)
  show ?case
  proof (cases "fit a \<and> map_of d (key a) = None")
    case True
    then show ?thesis using Cons.IH [of "d @ [(key a, val a)]"]
      by (simp add: accepts map_of_eq_None_iff) blast
  next
    case False
    then obtain e where "fst (reg a d) = Inl e" using refuses [of a d] by (auto simp: isl_def)
    moreover then obtain d' where "reg a d = (Inl e, d')" by (cases "reg a d") auto
    ultimately show ?thesis using False by (auto simp: map_of_eq_None_iff)
  qed
qed auto

lemma register_each_ok:
  "isl (register_each reg as d) \<longleftrightarrow> \<not> ((\<forall>a \<in> set as. fit a) \<and> distinct (map key as)
     \<and> set (map key as) \<inter> set (dict_keys d) = {})"
  using register_each_iff [of as d] by (cases "register_each reg as d") auto

end

interpretation caps_reg: registering "\<lambda>(c, i). register_capability c (Some i)" "\<lambda>(c, i). cap_name c"
  "\<lambda>(c, i). \<lparr>cr_definition = c, cr_domain = Some i\<rparr>" "\<lambda>(c, i). \<not> blank (cap_name c)"
  by unfold_locales (auto simp: register_capability_def parse_non_empty_string_def check_op_def map_error_def update_new
      split: sum.splits if_splits)

interpretation tools_reg: registering "\<lambda>(t, i). register_tool t (Some i)" "\<lambda>(t, i). tool_name (tl_definition t)"
  "\<lambda>(t, i). \<lparr>tg_tool = t, tg_domain = Some i\<rparr>"
  "\<lambda>(t, i). \<not> blank (tool_name (tl_definition t)) \<and> tool_capabilities (tl_definition t) \<noteq> []"
  by unfold_locales (auto simp: register_tool_def Let_def parse_non_empty_string_def check_op_def map_error_def update_new
      split: sum.splits if_splits)

interpretation evs_reg: registering register_evaluator evl_name "\<lambda>e. e" "\<lambda>e. True"
  by unfold_locales (auto simp: register_evaluator_def update_new)

subsection \<open>The runtime that is built\<close>

lemma in_owned_items: "(x, i) \<in> set (owned_items f ds) \<longleftrightarrow> (\<exists>d \<in> set ds. x \<in> set (f d) \<and> i = domain_identity_of d)"
  by (auto simp: owned_items_def)

lemma build_runtime_registries:
  assumes "build_runtime dumps x extra ds = Inr rt"
  shows "rt_registry rt = map (\<lambda>(c, i). (cap_name c, \<lparr>cr_definition = c, cr_domain = Some i\<rparr>)) (owned_items ad_capabilities ds)"
    and "caps_wf (rt_registry rt)"
    and "rt_tools rt = map (\<lambda>(t, i). (tool_name (tl_definition t), \<lparr>tg_tool = t, tg_domain = Some i\<rparr>)) (owned_items ad_tools ds)"
    and "tools_wf (rt_tools rt)"
    and "rt_evaluators rt = map (\<lambda>e. (evl_name e, e)) (criteria_evaluator #
          filter (\<lambda>e. evl_name e \<noteq> evl_name criteria_evaluator) (collect ad_evaluators ds))"
    and "rt_composition rt = ds"
proof -
  obtain caps tools evs where
      caps: "register_each (\<lambda>(c, i). register_capability c (Some i)) (owned_items ad_capabilities ds) [] = Inr caps"
    and tools: "register_each (\<lambda>(t, i). register_tool t (Some i)) (owned_items ad_tools ds) [] = Inr tools"
    and evs: "register_each register_evaluator (criteria_evaluator #
          filter (\<lambda>e. evl_name e \<noteq> evl_name criteria_evaluator) (collect ad_evaluators ds)) [] = Inr evs"
    and rt: "rt_registry rt = caps" "rt_tools rt = tools" "rt_evaluators rt = evs" "rt_composition rt = ds"
    using assms by (auto simp: build_runtime_def Let_def split: sum.splits)
  note c = caps [unfolded caps_reg.register_each_iff] and t = tools [unfolded tools_reg.register_each_iff]
  show "rt_registry rt = map (\<lambda>(c, i). (cap_name c, \<lparr>cr_definition = c, cr_domain = Some i\<rparr>)) (owned_items ad_capabilities ds)"
    using c rt by (simp add: case_prod_unfold)
  show "caps_wf (rt_registry rt)"
    using c rt by (auto simp: caps_wf_def case_prod_unfold comp_def)
  show "rt_tools rt = map (\<lambda>(t, i). (tool_name (tl_definition t), \<lparr>tg_tool = t, tg_domain = Some i\<rparr>)) (owned_items ad_tools ds)"
    using t rt by (simp add: case_prod_unfold)
  show "tools_wf (rt_tools rt)"
    using t rt by (auto simp: tools_wf_def case_prod_unfold comp_def)
  show "rt_evaluators rt = map (\<lambda>e. (evl_name e, e)) (criteria_evaluator #
          filter (\<lambda>e. evl_name e \<noteq> evl_name criteria_evaluator) (collect ad_evaluators ds))"
    using evs [unfolded evs_reg.register_each_iff] rt by simp
  show "rt_composition rt = ds" by (rule rt(4))
qed

lemma built_capability:
  assumes "build_runtime dumps x extra ds = Inr rt"
  shows "map_of (rt_registry rt) name = Some c \<longleftrightarrow>
      (\<exists>d \<in> set ds. cr_definition c \<in> set (ad_capabilities d) \<and> cap_name (cr_definition c) = name
        \<and> cr_domain c = Some (domain_identity_of d))"
proof -
  note built = build_runtime_registries [OF assms]
  have "map_of (rt_registry rt) name = Some c \<longleftrightarrow> (name, c) \<in> set (rt_registry rt)"
    using built(2) by (simp add: caps_wf_def)
  also have "\<dots> \<longleftrightarrow> (\<exists>a i. (a, i) \<in> set (owned_items ad_capabilities ds) \<and> cap_name a = name
      \<and> c = \<lparr>cr_definition = a, cr_domain = Some i\<rparr>)"
    unfolding built(1) by force
  also have "\<dots> \<longleftrightarrow> (\<exists>d \<in> set ds. cr_definition c \<in> set (ad_capabilities d) \<and> cap_name (cr_definition c) = name
      \<and> cr_domain c = Some (domain_identity_of d))"
    unfolding in_owned_items by (cases c) auto
  finally show ?thesis .
qed

lemma declared_capability:
  assumes "build_runtime dumps x extra ds = Inr rt" and "d \<in> set ds" and "name \<in> set (domain_capability_names d)"
  shows "\<exists>a \<in> set (ad_capabilities d). cap_name a = name
    \<and> map_of (rt_registry rt) name = Some \<lparr>cr_definition = a, cr_domain = Some (domain_identity_of d)\<rparr>"
proof -
  obtain a where a: "a \<in> set (ad_capabilities d)" "cap_name a = name"
    using assms(3) by (auto simp: domain_capability_names_def)
  then have "map_of (rt_registry rt) name = Some \<lparr>cr_definition = a, cr_domain = Some (domain_identity_of d)\<rparr>"
    unfolding built_capability [OF assms(1)] using assms(2) by (intro bexI [of _ d]) simp_all
  with a show ?thesis by blast
qed

lemma built_tool:
  assumes "build_runtime dumps x extra ds = Inr rt"
  shows "t \<in> set (dict_values (rt_tools rt)) \<longleftrightarrow>
      (\<exists>d \<in> set ds. tg_tool t \<in> set (ad_tools d) \<and> tg_domain t = Some (domain_identity_of d))"
proof -
  have "t \<in> set (dict_values (rt_tools rt)) \<longleftrightarrow> (\<exists>a i. (a, i) \<in> set (owned_items ad_tools ds)
      \<and> t = \<lparr>tg_tool = a, tg_domain = Some i\<rparr>)"
    unfolding build_runtime_registries(3) [OF assms] by force
  then show ?thesis unfolding in_owned_items by (cases t) auto
qed

text \<open>A tool that carries out a capability belongs to the domain that declares it.\<close>

lemma tool_owner:
  assumes "\<forall>d \<in> set ds. domain_problem d = None" and "build_runtime dumps x extra ds = Inr rt"
    and "t \<in> set (tools_for_capability (rt_tools rt) name)"
  obtains d a where "d \<in> set ds" "tg_tool t \<in> set (ad_tools d)" "tg_domain t = Some (domain_identity_of d)"
    "a \<in> set (ad_capabilities d)" "cap_name a = name"
    "map_of (rt_registry rt) name = Some \<lparr>cr_definition = a, cr_domain = Some (domain_identity_of d)\<rparr>"
proof -
  have t: "t \<in> set (dict_values (rt_tools rt))" "name \<in> set (tool_capabilities (tl_definition (tg_tool t)))"
    using assms(3) by (auto simp: tools_for_capability_def)
  obtain d where d: "d \<in> set ds" "tg_tool t \<in> set (ad_tools d)" "tg_domain t = Some (domain_identity_of d)"
    using t(1) unfolding built_tool [OF assms(2)] by blast
  then have "name \<in> set (domain_capability_names d)" using loaded_domain(2) assms(1) t(2) by blast
  then show ?thesis using declared_capability [OF assms(2) d(1)] d that by blast
qed

text \<open>What a runtime resolves belongs together. In a runtime built from domains that the loader
  accepted, a capability resolves to a tool of the very domain that declares it; the resolver
  refuses a name only when no domain declares it, or when no tool of the domains carries it out,
  and never because capability and tool belong to different domains.\<close>

theorem built_runtime_resolves:
  assumes "\<forall>d \<in> set ds. domain_problem d = None" and "build_runtime dumps x extra ds = Inr rt"
  shows "case resolve_registration (rt_registry rt) (rt_tools rt) name of
      Inr r \<Rightarrow> \<exists>d \<in> set ds. rs_capability r \<in> set (ad_capabilities d) \<and> rs_tool r \<in> set (ad_tools d)
        \<and> cap_name (rs_capability r) = name \<and> name \<in> set (tool_capabilities (tl_definition (rs_tool r)))
        \<and> rs_capability_domain r = Some (domain_identity_of d) \<and> rs_tool_domain r = Some (domain_identity_of d)
    | Inl e \<Rightarrow> (case e of
          UnknownCapabilityErr _ \<Rightarrow> \<forall>d \<in> set ds. name \<notin> set (domain_capability_names d)
        | CapabilityUnavailableErr _ \<Rightarrow>
            \<forall>d \<in> set ds. \<forall>t \<in> set (ad_tools d). name \<notin> set (tool_capabilities (tl_definition t))
        | _ \<Rightarrow> False)"
proof (cases "map_of (rt_registry rt) name")
  case None
  then have "\<forall>d \<in> set ds. name \<notin> set (domain_capability_names d)"
    using declared_capability [OF assms(2)] by (metis option.distinct(1))
  then show ?thesis using None by (simp add: resolve_registration_def resolve_capability_def)
next
  case (Some c)
  let ?xs = "tools_for_capability (rt_tools rt) name"
  show ?thesis
  proof (cases "?xs = []")
    case True
    have "name \<notin> set (tool_capabilities (tl_definition t))" if dt: "d \<in> set ds" "t \<in> set (ad_tools d)" for d t
    proof
      let ?reg = "\<lparr>tg_tool = t, tg_domain = Some (domain_identity_of d)\<rparr>"
      assume "name \<in> set (tool_capabilities (tl_definition t))"
      moreover have "?reg \<in> set (dict_values (rt_tools rt))"
        unfolding built_tool [OF assms(2)] using dt by (intro bexI [of _ d]) simp_all
      ultimately have "?reg \<in> set ?xs" by (simp add: tools_for_capability_def)
      then show False using True by simp
    qed
    then show ?thesis using Some True by (simp add: resolve_registration_def resolve_capability_def)
  next
    case False
    then have t: "best_tool ?xs \<in> set ?xs" unfolding best_tool_def by (simp add: hd_sort_key)
    obtain d a where "d \<in> set ds" "tg_tool (best_tool ?xs) \<in> set (ad_tools d)"
        "tg_domain (best_tool ?xs) = Some (domain_identity_of d)" "a \<in> set (ad_capabilities d)" "cap_name a = name"
        "map_of (rt_registry rt) name = Some \<lparr>cr_definition = a, cr_domain = Some (domain_identity_of d)\<rparr>"
      by (rule tool_owner [OF assms t])
    moreover have "name \<in> set (tool_capabilities (tl_definition (tg_tool (best_tool ?xs))))"
      using t by (simp add: tools_for_capability_def)
    ultimately show ?thesis using Some False
      by (auto simp: resolve_registration_def resolve_capability_def Let_def domains_match_def intro!: bexI [of _ d])
  qed
qed

subsection \<open>What a validated composition does not promise\<close>

lemma owner_loop_Nil:
  "owner_loop xs owners cs = [] \<longleftrightarrow> cs = [] \<and> distinct (map fst xs) \<and> set (map fst xs) \<inter> set (dict_keys owners) = {}"
proof (induction xs arbitrary: owners cs)
  case (Cons x xs)
  obtain name d where x: "x = (name, d)" by (cases x)
  have keys: "set (dict_keys (AList.update name d owners)) = insert name (set (dict_keys owners))"
    by (simp add: dom_update)
  show ?case unfolding x owner_loop.simps Cons.IH keys
    using map_of_eq_None_iff [of owners name] by (cases "map_of owners name") (simp_all del: map_of_eq_Some_iff, blast)
qed simp

lemma sorted_join_Nil [simp]: "unique_problem what cs = None \<longleftrightarrow> cs = []"
  by (simp add: unique_problem_def)

lemma composed_names:
  assumes "composition_problem ds = None"
  shows "distinct (map (\<lambda>(c, i). cap_name c) (owned_items ad_capabilities ds))"
    and "distinct (map (\<lambda>(t, i). tool_name (tl_definition t)) (owned_items ad_tools ds))"
proof -
  have "map (\<lambda>(c, i). cap_name c) (owned_items ad_capabilities ds) = map fst (owned domain_capability_names ds)"
    "map (\<lambda>(t, i). tool_name (tl_definition t)) (owned_items ad_tools ds) = map fst (owned domain_tool_names ds)"
    by (simp_all add: owned_items_def owned_def map_concat comp_def domain_capability_names_def domain_tool_names_def)
  then show "distinct (map (\<lambda>(c, i). cap_name c) (owned_items ad_capabilities ds))"
    "distinct (map (\<lambda>(t, i). tool_name (tl_definition t)) (owned_items ad_tools ds))"
    using assms by (simp_all add: composition_problem_def first_problem_None owner_loop_Nil)
qed

lemma ball_owned: "(\<forall>p \<in> set (owned_items f ds). P (fst p)) \<longleftrightarrow> (\<forall>d \<in> set ds. \<forall>x \<in> set (f d). P x)"
  by (auto simp: owned_items_def)

text \<open>When a validated composition builds. A composition that was accepted builds exactly when no
  capability and no tool has a blank name, every tool carries out some capability, and no two
  evaluators share a name, those called \<open>criteria\<close> apart; these are replaced by the built-in one.
  The validation of the composition checks none of this, so building can still raise.\<close>

theorem composition_builds_iff:
  assumes "composition_problem ds = None"
  shows "(isl (build_runtime dumps x extra ds) \<longleftrightarrow>
      \<not> ((\<forall>d \<in> set ds. \<forall>c \<in> set (ad_capabilities d). \<not> blank (cap_name c))
        \<and> (\<forall>d \<in> set ds. \<forall>t \<in> set (ad_tools d). \<not> blank (tool_name (tl_definition t)) \<and> tool_capabilities (tl_definition t) \<noteq> [])
        \<and> distinct (filter (\<lambda>n. n \<noteq> ''criteria'') (map evl_name (collect ad_evaluators ds)))))
    \<and> (\<forall>rt. build_runtime dumps x extra ds = Inr rt \<longrightarrow>
        resolve_evaluator ''criteria'' (rt_evaluators rt) = Inr criteria_evaluator)"
proof (intro conjI allI impI)
  let ?caps = "register_each (\<lambda>(c, i). register_capability c (Some i)) (owned_items ad_capabilities ds) []"
  let ?tools = "register_each (\<lambda>(t, i). register_tool t (Some i)) (owned_items ad_tools ds) []"
  let ?evs = "register_each register_evaluator (criteria_evaluator #
          filter (\<lambda>e. evl_name e \<noteq> evl_name criteria_evaluator) (collect ad_evaluators ds)) []"
  have name: "evl_name criteria_evaluator = ''criteria''" by (simp add: criteria_evaluator_def)
  have "isl (build_runtime dumps x extra ds) \<longleftrightarrow> isl ?caps \<or> isl ?tools \<or> isl ?evs"
    by (auto simp: build_runtime_def Let_def split: sum.splits)
  moreover have "isl ?caps \<longleftrightarrow> \<not> (\<forall>d \<in> set ds. \<forall>c \<in> set (ad_capabilities d). \<not> blank (cap_name c))"
    unfolding caps_reg.register_each_ok using composed_names(1) [OF assms]
    by (simp add: split_def ball_owned [where P = "\<lambda>c. \<not> blank (cap_name c)"])
  moreover have "isl ?tools \<longleftrightarrow> \<not> (\<forall>d \<in> set ds. \<forall>t \<in> set (ad_tools d).
      \<not> blank (tool_name (tl_definition t)) \<and> tool_capabilities (tl_definition t) \<noteq> [])"
    unfolding tools_reg.register_each_ok using composed_names(2) [OF assms]
    by (simp add: split_def
        ball_owned [where P = "\<lambda>t. \<not> blank (tool_name (tl_definition t)) \<and> tool_capabilities (tl_definition t) \<noteq> []"])
  moreover have "isl ?evs \<longleftrightarrow> \<not> distinct (filter (\<lambda>n. n \<noteq> ''criteria'') (map evl_name (collect ad_evaluators ds)))"
    unfolding evs_reg.register_each_ok by (auto simp: name filter_map comp_def)
  ultimately show "isl (build_runtime dumps x extra ds) \<longleftrightarrow>
      \<not> ((\<forall>d \<in> set ds. \<forall>c \<in> set (ad_capabilities d). \<not> blank (cap_name c))
        \<and> (\<forall>d \<in> set ds. \<forall>t \<in> set (ad_tools d). \<not> blank (tool_name (tl_definition t)) \<and> tool_capabilities (tl_definition t) \<noteq> [])
        \<and> distinct (filter (\<lambda>n. n \<noteq> ''criteria'') (map evl_name (collect ad_evaluators ds))))"
    by blast
  show "resolve_evaluator ''criteria'' (rt_evaluators rt) = Inr criteria_evaluator"
    if "build_runtime dumps x extra ds = Inr rt" for rt
    unfolding build_runtime_registries(5) [OF that] by (simp add: resolve_evaluator_def name)
qed

text \<open>A declared domain is refused only for what it refers to. When a declarative specification
  is valid and has the supported version and kind, the manifest derived from it always agrees with
  its registrations: the loader's verdict is its verdict on the references alone.\<close>

theorem declared_domain_loads:
  assumes "spec_problem sp = None" and "sp_api_version sp = ''agent.nantian.dev/v1alpha1''" and "sp_kind sp = ''Domain''"
  shows "domain_problem (spec_domain sp) = reference_problem (spec_domain sp)"
proof -
  have ok: "sp_capabilities sp \<noteq> []" "sp_evaluators sp \<noteq> []" "\<not> blank (sp_name sp)" "\<not> blank (sp_version sp)"
      "distinct (map cap_name (sp_capabilities sp))"
    using assms(1) by (auto simp: spec_problem_def first_problem_None spec_items_def spec_value_def
        parse_non_empty_string_def unique_spec_names_def duplicate_values_Nil split: if_splits)
  then have "sp_name sp \<noteq> []" "sp_version sp \<noteq> []" by auto
  then show ?thesis using assms(2,3) ok
    by (simp add: domain_problem_def Let_def require_def spec_domain_def spec_manifest_def same_names_def)
       (cases "reference_problem (spec_domain sp)"; simp add: spec_domain_def spec_manifest_def)
qed

subsection \<open>A sample domain\<close>

definition sample_evaluator :: "string \<Rightarrow> evaluator" where
  "sample_evaluator n = criteria_evaluator\<lparr>evl_name := n\<rparr>"

definition sample_domain_spec :: "string \<Rightarrow> string \<Rightarrow> string \<Rightarrow> domain_spec" where
  "sample_domain_spec name capability ev = \<lparr>sp_name = name, sp_version = ''1'', sp_description = ''sample'',
     sp_capabilities = [\<lparr>cap_name = capability, cap_description = [], cap_category = CatObservation, cap_risk = RiskLow\<rparr>],
     sp_tools = [echo_tool (capability @ ''-tool'') [capability] 1 EffNone], sp_evaluators = [sample_evaluator ev],
     sp_api_version = ''agent.nantian.dev/v1alpha1'', sp_kind = ''Domain'', sp_ontology = [], sp_policies = [],
     sp_context_providers = [], sp_evidence_extractors = [], sp_world_updaters = [], sp_task_expanders = [],
     sp_recovery_rules = [], sp_argument_providers = [], sp_reconcilers = [], sp_memories = []\<rparr>"

definition sample_domain :: "string \<Rightarrow> string \<Rightarrow> string \<Rightarrow> active_domain" where
  "sample_domain name capability ev = spec_domain (sample_domain_spec name capability ev)"

definition sample_extractor :: evidence_extractor where
  "sample_extractor = \<lparr>xt_name = ''structured'', xt_extract = (\<lambda>s t. structured_extract s t (\<lambda>k. k))\<rparr>"

lemmas sample_domain_defs = sample_domain_def spec_domain_def spec_manifest_def sample_domain_spec_def
  sample_evaluator_def criteria_evaluator_def

theorem declared_domain_loads_witness:
  "domain_problem (spec_domain (sample_domain_spec ''k8s'' ''look'' ''health'')) = None"
proof -
  let ?sp = "sample_domain_spec ''k8s'' ''look'' ''health''"
  have "Option.is_none (spec_problem ?sp)" and "Option.is_none (reference_problem (spec_domain ?sp))" by code_simp+
  then have "spec_problem ?sp = None" "reference_problem (spec_domain ?sp) = None" by (simp_all add: is_none_simps Option.is_none_def split: option.splits)
  moreover have "sp_api_version ?sp = ''agent.nantian.dev/v1alpha1''" "sp_kind ?sp = ''Domain''"
    by (simp_all add: sample_domain_spec_def)
  ultimately show ?thesis using declared_domain_loads [of ?sp] by simp
qed

lemma sample_loads:
  "domain_problem (sample_domain ''k8s'' ''look'' ''health'') = None"
  "domain_problem (sample_domain ''git'' ''list'' ''health'') = None"
proof -
  have "Option.is_none (domain_problem (sample_domain ''k8s'' ''look'' ''health''))"
    "Option.is_none (domain_problem (sample_domain ''git'' ''list'' ''health''))" by code_simp+
  then show "domain_problem (sample_domain ''k8s'' ''look'' ''health'') = None"
    "domain_problem (sample_domain ''git'' ''list'' ''health'') = None"
    by (simp_all add: Option.is_none_def split: option.splits)
qed

theorem composition_builds_iff_witness:
  "isl (build_runtime (\<lambda>_. []) sample_extractor []
     [sample_domain ''k8s'' ''look'' ''health'', sample_domain ''git'' ''list'' ''health''])"
proof -
  let ?ds = "[sample_domain ''k8s'' ''look'' ''health'', sample_domain ''git'' ''list'' ''health'']"
  have "Option.is_none (composition_problem ?ds)" by code_simp
  then have "composition_problem ?ds = None" by (simp add: Option.is_none_def split: option.splits)
  moreover have "\<not> distinct (filter (\<lambda>n. n \<noteq> ''criteria'') (map evl_name (collect ad_evaluators ?ds)))"
    by (simp add: collect_def sample_domain_defs)
  ultimately show ?thesis using composition_builds_iff [of ?ds] by blast
qed

theorem built_runtime_resolves_witness:
  "\<exists>rt r. build_runtime (\<lambda>_. []) sample_extractor [] [sample_domain ''k8s'' ''look'' ''health''] = Inr rt
     \<and> resolve_registration (rt_registry rt) (rt_tools rt) ''look'' = Inr r
     \<and> rs_tool_domain r = Some \<lparr>dom_name = ''k8s'', dom_version = ''1''\<rparr>"
proof -
  let ?ds = "[sample_domain ''k8s'' ''look'' ''health'']"
  let ?b = "build_runtime (\<lambda>_. []) sample_extractor [] ?ds"
  have "\<not> isl ?b \<and> \<not> isl (resolve_registration (rt_registry (projr ?b)) (rt_tools (projr ?b)) ''look'')"
    by code_simp
  then obtain rt r where rt: "?b = Inr rt" and r: "resolve_registration (rt_registry rt) (rt_tools rt) ''look'' = Inr r"
    by (cases ?b; cases "resolve_registration (rt_registry (projr ?b)) (rt_tools (projr ?b)) ''look''") auto
  have "\<forall>d \<in> set ?ds. domain_problem d = None" using sample_loads by simp
  from built_runtime_resolves [OF this rt, of "''look''"] r
  have "rs_tool_domain r = Some (domain_identity_of (sample_domain ''k8s'' ''look'' ''health''))" by simp
  then show ?thesis using rt r by (simp add: domain_identity_of_def sample_domain_defs)
qed

end
