(* ===== verification/Observation_Processing.thy ===== *)
theory Observation_Processing
  imports Domain_Runtime Session_Store
begin

text \<open>
  \<open>runtime/processing.py\<close>: what becomes of a successful observation. The domain of the action
  extracts evidence from it, the evidence enters the shared store and the world model, the
  domain's expanders add tasks, its evaluator judges the task and the goal, and a completed task
  is followed by the next one. Also \<open>runtime/initial_state.py\<close>, the evidence and entities a
  session may start with.

  \<open>PRouting\<close> is an \<open>ObservationRoutingError\<close> or an \<open>EvaluationRoutingError\<close>, which the loop turns
  into a failed session; every other exception (of a domain's function, of the task manager, of
  a look-up) is \<open>PRaised\<close>.
\<close>

datatype process_error = PRouting string | PRaised string

record process_state =
  ps_session :: session
  ps_evidence :: evidence_store
  ps_world :: world_model

record processing_result =
  pg_evidence :: "evidence list"
  pg_evaluation :: "evaluation_result option"
  pg_created :: "task list"
  pg_next :: "task option"

subsection \<open>Evidence\<close>

definition action_domain :: "pending_action option \<Rightarrow> domain_identity option" where
  "action_domain a = (case a of None \<Rightarrow> None | Some p \<Rightarrow> pending_domain p)"

definition stamp_owner :: "domain_identity option \<Rightarrow> evidence \<Rightarrow> process_error + evidence" where
  "stamp_owner i e = (case i of None \<Rightarrow> Inr e
     | Some d \<Rightarrow>
         if ev_domain_name e = dom_name d \<and> ev_domain_version e = dom_version d then Inr e
         else if ev_domain_name e \<noteq> [] \<or> ev_domain_version e \<noteq> [] then
           Inl (PRouting (''evidence owner does not match action domain: '' @ ev_domain_name e @ ''@''
             @ ev_domain_version e @ '' != '' @ domain_text d))
         else Inr (e\<lparr>ev_domain_name := dom_name d, ev_domain_version := dom_version d\<rparr>))"

fun stamp_all :: "domain_identity option \<Rightarrow> evidence list \<Rightarrow> process_error + evidence list" where
  "stamp_all i [] = Inr []"
| "stamp_all i (e # es) = (case stamp_owner i e of Inl x \<Rightarrow> Inl x
     | Inr e' \<Rightarrow> (case stamp_all i es of Inl x \<Rightarrow> Inl x | Inr es' \<Rightarrow> Inr (e' # es')))"

fun extract_all :: "domain_identity option \<Rightarrow> evidence_extractor list \<Rightarrow> string \<Rightarrow> task \<Rightarrow> observation
    \<Rightarrow> process_error + evidence list" where
  "extract_all i [] sid t ob = Inr []"
| "extract_all i (x # xs) sid t ob =
     (case xt_extract x sid t ob of Inl e \<Rightarrow> Inl (PRaised e)
      | Inr es \<Rightarrow> (case stamp_all i es of Inl e \<Rightarrow> Inl e
         | Inr es' \<Rightarrow> (case extract_all i xs sid t ob of Inl e \<Rightarrow> Inl e | Inr fs \<Rightarrow> Inr (es' @ fs))))"

text \<open>\<open>session.record\<close> and \<open>session.apply\<close> over the extracted evidence: what the store already has is skipped.\<close>

fun record_all :: "runtime_components \<Rightarrow> evidence list \<Rightarrow> evidence_store \<times> world_model
    \<Rightarrow> (evidence_store \<times> world_model, process_error, unit) outcome" where
  "record_all rt [] st = (Inr (), st)"
| "record_all rt (e # es) st =
     (case add_evidence e (fst st) of
        (False, _) \<Rightarrow> record_all rt es st
      | (True, store) \<Rightarrow>
          (case apply_updaters (updaters_for_evidence rt e) e (snd st) of
             (Inl x, w) \<Rightarrow> (Inl (PRaised x), (store, w))
           | (Inr _, w) \<Rightarrow> record_all rt es (store, w)))"

fun expand_specs :: "task_expander list \<Rightarrow> task \<Rightarrow> evidence list \<Rightarrow> world_snapshot \<Rightarrow> process_error + task_spec list" where
  "expand_specs [] t es w = Inr []"
| "expand_specs (x # xs) t es w =
     (case te_expand x t es w of Inl e \<Rightarrow> Inl (PRaised e)
      | Inr specs \<Rightarrow> (case expand_specs xs t es w of Inl e \<Rightarrow> Inl e | Inr later \<Rightarrow> Inr (specs @ later)))"

subsection \<open>Evaluation\<close>

definition select_evaluator_name :: "runtime_components \<Rightarrow> domain_identity option \<Rightarrow> process_error + string" where
  "select_evaluator_name rt i = (case i of
     None \<Rightarrow> (case rt_evaluator_names rt of [] \<Rightarrow> Inl (PRaised ''tuple index out of range'') | n # _ \<Rightarrow> Inr n)
   | Some d \<Rightarrow> (case collect_for domain_evaluator_names d (rt_composition rt) of
       [] \<Rightarrow> Inl (PRouting (''no evaluator registered for action domain: '' @ domain_text d))
     | n # _ \<Rightarrow> Inr n))"

text \<open>The facts that count as criteria, by their claim; of several subjects the last one stays.\<close>

definition criteria_of :: "agent_state \<Rightarrow> world_snapshot \<Rightarrow> json_mapping" where
  "criteria_of st w = fold (\<lambda>f. AList.update (fa_claim f) (fa_value f))
     (filter (\<lambda>f. fa_claim f \<in> set (map sc_key (g_success_criteria (as_goal st)))
        \<or> fa_claim f \<in> set (t_required_criteria (as_current_task st))) (wo_facts w)) []"

definition update_mapping :: "json_mapping \<Rightarrow> json_mapping \<Rightarrow> json_mapping" where
  "update_mapping new old = fold (\<lambda>(k, v). AList.update k v) new old"

text \<open>What follows the evaluation: the task is completed, and the goal or the next task with it.\<close>

definition advance :: "evaluation_result \<Rightarrow> session \<Rightarrow> task option \<times> session" where
  "advance ev s =
     (if \<not> er_task_completed ev then (None, sync_current_task s)
      else let previous = tm_current_id (ss_tasks s);
               s1 = complete_current_task s
           in if er_goal_completed ev then (None, sync_current_task (s1\<lparr>ss_tasks := complete_all (ss_tasks s1)\<rparr>))
              else let s2 = start_next_task s1
                   in (if tm_current_id (ss_tasks s2) \<noteq> previous
                       then (case current_task (ss_tasks s2) of Inl _ \<Rightarrow> None | Inr t \<Rightarrow> Some t) else None,
                       sync_current_task s2))"

definition evaluate_observation :: "runtime_components \<Rightarrow> domain_identity option \<Rightarrow> observation \<Rightarrow> evidence list
    \<Rightarrow> world_snapshot \<Rightarrow> session \<Rightarrow> process_error + evaluation_result" where
  "evaluate_observation rt i ob es w s =
     (case select_evaluator_name rt i of Inl e \<Rightarrow> Inl e
      | Inr n \<Rightarrow> (case resolve_evaluator n (rt_evaluators rt) of Inl e \<Rightarrow> Inl (PRaised e)
        | Inr evl \<Rightarrow> map_error PRaised (evl_evaluate evl \<lparr>ec_goal = as_goal (ss_state s),
             ec_task = as_current_task (ss_state s), ec_observation = ob,
             ec_satisfied_criteria = criteria_of (ss_state s) w, ec_evidence = es, ec_world = w\<rparr>)))"

definition note_evaluation :: "evaluation_result \<Rightarrow> agent_state \<Rightarrow> agent_state" where
  "note_evaluation ev st = st\<lparr>as_latest_evaluation := Some ev,
     as_satisfied_criteria := update_mapping (er_matched_criteria ev) (as_satisfied_criteria st)\<rparr>"

subsection \<open>\<open>process\<close>\<close>

text \<open>After the evidence: the tasks grow, the evaluator judges, the session advances.\<close>

definition judge :: "runtime_components \<Rightarrow> (json \<Rightarrow> string) \<Rightarrow> time \<Rightarrow> domain_identity option \<Rightarrow> observation
    \<Rightarrow> evidence list \<Rightarrow> process_state \<Rightarrow> (process_state, process_error, processing_result) outcome" where
  "judge rt dumps now i ob extracted ps =
     (let s = ps_session ps; st = ss_state s;
          accumulated = query_evidence \<lparr>evq_session = as_session_id st, evq_task = Some (t_id (as_current_task st)),
            evq_subject = None, evq_claim = None, evq_limit = None\<rparr> (ps_evidence ps);
          (w, world) = take_snapshot dumps (as_session_id st) [] [] (ps_world ps);
          ps1 = ps\<lparr>ps_world := world\<rparr>
      in case expand_specs (expanders_for rt i) (as_current_task st) accumulated w of
        Inl e \<Rightarrow> (Inl e, ps1)
      | Inr specs \<Rightarrow>
          (case expand now specs (ss_tasks s) of
             (Inl e, m) \<Rightarrow> (Inl (PRaised (task_error_text e)), ps1\<lparr>ps_session := s\<lparr>ss_tasks := m\<rparr>\<rparr>)
           | (Inr created, m) \<Rightarrow>
               let s1 = s\<lparr>ss_tasks := m\<rparr> in
               (case evaluate_observation rt i ob accumulated w s1 of
                  Inl e \<Rightarrow> (Inl e, ps1\<lparr>ps_session := s1\<rparr>)
                | Inr ev \<Rightarrow>
                    (case advance ev (update_state (note_evaluation ev) s1) of (next_task, s2) \<Rightarrow>
                      (Inr \<lparr>pg_evidence = extracted, pg_evaluation = Some ev, pg_created = created, pg_next = next_task\<rparr>,
                       ps1\<lparr>ps_session := s2\<rparr>)))))"

definition process :: "runtime_components \<Rightarrow> (json \<Rightarrow> string) \<Rightarrow> time \<Rightarrow> observation \<Rightarrow> pending_action option
    \<Rightarrow> process_state \<Rightarrow> (process_state, process_error, processing_result) outcome" where
  "process rt dumps now ob action ps =
     (let i = action_domain action; st = ss_state (ps_session ps) in
      if i \<noteq> None \<and> domain_for (the i) (rt_composition rt) = None then
        (Inl (PRouting (''no domain registered for action domain: '' @ domain_text (the i))), ps)
      else case extract_all i (extractors_for rt i) (as_session_id st) (as_current_task st) ob of
        Inl e \<Rightarrow> (Inl e, ps)
      | Inr extracted \<Rightarrow>
          (case record_all rt extracted (ps_evidence ps, ps_world ps) of
             (Inl e, (store, w)) \<Rightarrow> (Inl e, ps\<lparr>ps_evidence := store, ps_world := w\<rparr>)
           | (Inr _, (store, w)) \<Rightarrow> judge rt dumps now i ob extracted (ps\<lparr>ps_evidence := store, ps_world := w\<rparr>)))"

subsection \<open>Seeding the initial state\<close>

text \<open>
  \<open>seed_initial_state\<close>, on entries whose fields have the declared types: a fact has a subject, a
  claim, a value and a confidence (1 when missing), an entity an identifier, a kind and
  attributes. \<open>session.evidence_store.add\<close> may refuse the evidence, the world takes the fact anyway.
\<close>

record seed_fact =
  sf_subject :: string
  sf_claim :: string
  sf_value :: json
  sf_confidence :: rat

record seed_entity =
  se_entity_id :: string
  se_kind :: string
  se_attributes :: json_mapping

definition seed_evidence :: "string \<Rightarrow> time \<Rightarrow> seed_fact \<Rightarrow> evidence" where
  "seed_evidence sid now f = \<lparr>ev_session_id = sid, ev_task_id = [], ev_action_id = [], ev_observation_id = [],
     ev_subject = sf_subject f, ev_claim = sf_claim f, ev_value = sf_value f, ev_source = ''initial_state'',
     ev_confidence = sf_confidence f, ev_id = ''init-'' @ sf_subject f @ ''-'' @ sf_claim f,
     ev_observed_at = now, ev_domain_name = [], ev_domain_version = []\<rparr>"

fun seed_facts :: "(json \<Rightarrow> string) \<Rightarrow> string \<Rightarrow> time \<Rightarrow> seed_fact list \<Rightarrow> evidence_store \<times> world_model
    \<Rightarrow> (evidence_store \<times> world_model, string, unit) outcome" where
  "seed_facts dumps sid now [] st = (Inr (), st)"
| "seed_facts dumps sid now (f # fs) st =
     (if sf_subject f = [] \<or> sf_claim f = [] then seed_facts dumps sid now fs st
      else let e = seed_evidence sid now f in
        case evidence_problem e of Some x \<Rightarrow> (Inl x, st)
        | None \<Rightarrow> seed_facts dumps sid now fs (snd (add_evidence e (fst st)), snd (apply_fact dumps e (snd st))))"

fun seed_entities :: "string \<Rightarrow> seed_entity list \<Rightarrow> world_model \<Rightarrow> (world_model, string, unit) outcome" where
  "seed_entities sid [] w = (Inr (), w)"
| "seed_entities sid (x # xs) w =
     (if se_entity_id x = [] \<or> se_kind x = [] then seed_entities sid xs w
      else case apply_entity sid \<lparr>we_id = se_entity_id x, we_kind = se_kind x, we_attributes = se_attributes x,
             we_evidence_ids = []\<rparr> w of
        (Inl e, w') \<Rightarrow> (Inl e, w') | (Inr _, w') \<Rightarrow> seed_entities sid xs w')"

definition seed_initial_state :: "(json \<Rightarrow> string) \<Rightarrow> string \<Rightarrow> time \<Rightarrow> seed_fact list \<Rightarrow> seed_entity list
    \<Rightarrow> evidence_store \<times> world_model \<Rightarrow> (evidence_store \<times> world_model, string, unit) outcome" where
  "seed_initial_state dumps sid now facts entities st =
     (case seed_facts dumps sid now facts st of
        (Inl e, st') \<Rightarrow> (Inl e, st')
      | (Inr _, (store, w)) \<Rightarrow> (case seed_entities sid entities w of (r, w') \<Rightarrow> (r, (store, w'))))"

end
