(* ===== verification/Agent_Loop.thy ===== *)
theory Agent_Loop
  imports Observation_Processing
begin

text \<open>
  The heart of the runtime: \<open>runtime/agent.py\<close> with \<open>runtime/recovery_planning.py\<close> and
  \<open>runtime/emission.py\<close>. A bounded loop asks the model for a decision, passes it through the
  gates, lets the executor act, has the observation processed, plans recovery from failures, and
  settles the session in one of its final or waiting states; every step is saved.

  The state is that of one \<open>AgentRuntime\<close> with its in-memory session store: the executor (with the
  session at work), the shared evidence, world and memory, the session store, and the states that
  a separate event store has recorded, if there is one. The environment holds the components and
  the parameters: the model behind its context compiler, clocks, identifiers, and the requests of
  other callers to cancel or pause. What the environment answers may depend on the tick, the
  number of events emitted so far. Events carry their type and action; their data is left out.
\<close>

subsection \<open>Environment and state\<close>

record decision_inputs =
  di_state :: agent_state
  di_capabilities :: "capability_definition list"
  di_policies :: "string list"
  di_world :: world_snapshot
  di_evidence :: "evidence list"
  di_tasks :: task_manager
  di_memories :: "memory_record list"
  di_contracts :: "capability_input_contract list"

record model_usage =
  mu_input_tokens :: nat
  mu_output_tokens :: nat
  mu_cost_micros :: nat

text \<open>One attempt of \<open>_decide\<close>: a decision with the usage of the adapter that made it, a transient
  provider error, or any other exception.\<close>

datatype decide_answer = Decided decision "model_usage option" | TransientError string | DecideError string

datatype control_request = NoRequest | CancelRequest "string option" | PauseRequest "string option"

record loop_env =
  le_components :: runtime_components
  le_exec :: "nat \<Rightarrow> exec_env"
  le_dumps :: "json \<Rightarrow> string"
  le_decide :: "nat \<Rightarrow> nat \<Rightarrow> decision_inputs \<Rightarrow> decide_answer"
  le_clock :: "nat \<Rightarrow> rat"
  le_control :: "nat \<Rightarrow> control_request"
  le_consultant :: consultant
  le_memory_id :: "nat \<Rightarrow> string"
  le_max_iterations :: nat
  le_max_recovery_steps :: nat
  le_max_model_retries :: nat
  le_max_cost :: "int option"
  le_max_tokens :: "int option"

record runtime_state =
  rs_exec :: executor
  rs_evidence :: evidence_store
  rs_world :: world_model
  rs_memory :: memory_store
  rs_sessions :: session_store
  rs_states :: "session_snapshot list option"

datatype loop_error = LoopRaised string | LoopCancelled

type_synonym 'a run = "(runtime_state, loop_error, 'a) outcome"

text \<open>The constructor of \<open>AgentRuntime\<close> refuses other limits.\<close>

definition limits_problem :: "int \<Rightarrow> int \<Rightarrow> int \<Rightarrow> string option" where
  "limits_problem iterations recovery retries =
     (if iterations < 1 then Some ''max_iterations must be positive''
      else if recovery < 1 then Some ''max_recovery_steps must be positive''
      else if retries < 0 then Some ''max_model_retries must not be negative'' else None)"

definition tick :: "runtime_state \<Rightarrow> nat" where
  "tick st = length (xe_events (rs_exec st))"

definition the_session :: "runtime_state \<Rightarrow> session" where
  "the_session st = xe_session (rs_exec st)"

definition the_state :: "runtime_state \<Rightarrow> agent_state" where
  "the_state st = ss_state (the_session st)"

definition set_session :: "session \<Rightarrow> runtime_state \<Rightarrow> runtime_state" where
  "set_session s st = st\<lparr>rs_exec := (rs_exec st)\<lparr>xe_session := s\<rparr>\<rparr>"

definition set_state :: "(agent_state \<Rightarrow> agent_state) \<Rightarrow> runtime_state \<Rightarrow> runtime_state" where
  "set_state f st = set_session (update_state f (the_session st)) st"

definition emit_event :: "string \<Rightarrow> string \<Rightarrow> runtime_state \<Rightarrow> runtime_state" where
  "emit_event e aid st = st\<lparr>rs_exec := emit e aid (rs_exec st)\<rparr>"

text \<open>The executor sees the registries of the components.\<close>

definition exec_env_at :: "loop_env \<Rightarrow> nat \<Rightarrow> exec_env" where
  "exec_env_at le n = (le_exec le n)\<lparr>en_capabilities := rt_registry (le_components le),
     en_tools := rt_tools (le_components le), en_policies := rt_policies (le_components le),
     en_providers := providers_for (le_components le), en_reconcilers := reconcilers_for (le_components le)\<rparr>"

subsection \<open>Saving and emitting\<close>

definition store_error_text :: "store_error \<Rightarrow> string" where
  "store_error_text e = (case e of StoreValueErr m \<Rightarrow> m | StateNotFound m \<Rightarrow> m | VersionConflict m \<Rightarrow> m)"

definition set_version :: "nat \<Rightarrow> session \<Rightarrow> session" where
  "set_version v s = s\<lparr>ss_version := v\<rparr>"

text \<open>\<open>snapshot\<close> takes the copies of the tasks anew, then the store may refuse the version.\<close>

definition save_snapshot :: "bool \<Rightarrow> runtime_state \<Rightarrow> unit run" where
  "save_snapshot recorded st =
     (let s = sync_current_task (the_session st); st1 = set_session s st in
      case session_to_snapshot (rs_evidence st) (the_session st) of
        None \<Rightarrow> (Inl (LoopRaised ''KeyError''), st1)
      | Some sn \<Rightarrow>
          (let st2 = (if recorded then st1\<lparr>rs_states := map_option (\<lambda>l. l @ [sn]) (rs_states st1)\<rparr> else st1)
           in case save_session sn (rs_sessions st2) of
             (Inl e, sessions) \<Rightarrow> (Inl (LoopRaised (store_error_text e)), st2\<lparr>rs_sessions := sessions\<rparr>)
           | (Inr v, sessions) \<Rightarrow> (Inr (), set_session (set_version v s) (st2\<lparr>rs_sessions := sessions\<rparr>))))"

definition save :: "runtime_state \<Rightarrow> unit run" where
  "save st = save_snapshot False st"

text \<open>\<open>commit_session_event\<close> of a store without a committer: the state goes to the event store first.\<close>

definition commit :: "string \<Rightarrow> string \<Rightarrow> runtime_state \<Rightarrow> unit run" where
  "commit e aid st = bind_op (save_snapshot True st) (\<lambda>_ st'. (Inr (), emit_event e aid st'))"

subsection \<open>Settling\<close>

definition ending_status :: "execution_status \<Rightarrow> bool" where
  "ending_status s \<longleftrightarrow> s \<in> {ExecCompleted, ExecFailed, ExecCancelled}"

text \<open>A session that ends gives back the lock of the action it was waiting for.\<close>

definition release_waiting :: "transition \<Rightarrow> runtime_state \<Rightarrow> runtime_state" where
  "release_waiting tr st =
     (case as_pending_action (the_state st) of
        Some p \<Rightarrow> if ending_status (xr_status (tr_result tr))
          then (let st1 = set_state (\<lambda>s. s\<lparr>as_pending_action := None\<rparr>) st
                in st1\<lparr>rs_exec := release_pending_resource p (rs_exec st1)\<rparr>)
          else st
      | None \<Rightarrow> st)"

definition settle :: "loop_env \<Rightarrow> transition \<Rightarrow> runtime_state \<Rightarrow> execution_result run" where
  "settle le tr st =
     (let st1 = release_waiting tr st;
          st2 = st1\<lparr>rs_memory := record_episodic (le_consultant le) (le_memory_id le (tick st1))
                  (en_now (le_exec le (tick st1))) (the_state st1) (xr_status (tr_result tr))
                  (xr_reason (tr_result tr)) (rs_memory st1)\<rparr>
      in bind_op (commit (tr_event_type tr) (or_empty (tr_action_id tr)) st2) (\<lambda>_ st'. (Inr (tr_result tr), st')))"

definition settle_with :: "loop_env \<Rightarrow> (session \<Rightarrow> transition \<times> session) \<Rightarrow> runtime_state \<Rightarrow> execution_result run" where
  "settle_with le f st = (case f (the_session st) of (tr, s) \<Rightarrow> settle le tr (set_session s st))"

text \<open>\<open>_requested_control_transition\<close>\<close>

definition requested :: "loop_env \<Rightarrow> runtime_state \<Rightarrow> execution_result option run" where
  "requested le st = (case le_control le (tick st) of
     NoRequest \<Rightarrow> (Inr None, st)
   | CancelRequest r \<Rightarrow> bind_op (settle_with le (cancel_session_run
       (if truthy r then the r else ''session cancelled'')) st) (\<lambda>x st'. (Inr (Some x), st'))
   | PauseRequest r \<Rightarrow> bind_op (settle_with le (pause (if truthy r then the r else ''session paused'') None
       ''SessionPaused'' None) st) (\<lambda>x st'. (Inr (Some x), st')))"

definition budget_reason :: string where
  "budget_reason = ''wall-clock budget expired; session paused at runtime boundary''"

definition pause_if_expired :: "loop_env \<Rightarrow> rat option \<Rightarrow> runtime_state \<Rightarrow> execution_result option run" where
  "pause_if_expired le deadline st =
     (case deadline of None \<Rightarrow> (Inr None, st)
      | Some d \<Rightarrow> if le_clock le (tick st) < d then (Inr None, st)
          else bind_op (settle_with le (pause budget_reason None ''SessionPaused'' None) st)
            (\<lambda>x st'. (Inr (Some x), st')))"

subsection \<open>Recovery\<close>

datatype step = StepResult execution_result | StepDecision decision | StepContinue

fun strategy_value :: "recovery_strategy \<Rightarrow> string" where
  "strategy_value RetryAction = ''retry_action''"
| "strategy_value Reobserve = ''reobserve''"
| "strategy_value ExpandDiagnosisTask = ''expand_diagnosis_task''"
| "strategy_value AlternativeCapability = ''alternative_capability''"
| "strategy_value AskUserStrategy = ''ask_user''"
| "strategy_value StopStrategy = ''stop''"
| "strategy_value Rollback = ''rollback''"

definition recovery_action :: "recovery_decision \<Rightarrow> pending_action \<Rightarrow> decision" where
  "recovery_action rd p = \<lparr>d_type = Execute, d_reason = ''recovery via '' @ strategy_value (rd_strategy rd),
     d_capability = Some (if truthy (rd_capability rd) then the (rd_capability rd) else pa_capability p),
     d_target = pa_target p, d_arguments = pa_arguments p, d_expected_observations = [''recovery''], d_message = None\<rparr>"

text \<open>\<open>plan_recovery_for_pending\<close>: the attempt is recorded and saved before it is made.\<close>

definition plan_recovery :: "loop_env \<Rightarrow> pending_action \<Rightarrow> failure \<Rightarrow> runtime_state \<Rightarrow> step run" where
  "plan_recovery le p f st =
     (let d = decide (rt_recovery_rules (le_components le)) f (as_recovery_attempts (the_state st));
          rd = fst d;
          st1 = set_state (\<lambda>s. s\<lparr>as_recovery_attempts := note_attempt d (as_recovery_attempts s)\<rparr>) st
      in bind_op (commit (if rd_exhausted rd then ''RecoveryExhausted'' else ''RecoveryPlanned'') (pa_action_id p) st1)
        (\<lambda>_ st2.
          if rd_strategy rd \<in> {RetryAction, Reobserve, AlternativeCapability}
          then (Inr (StepDecision (recovery_action rd p)), st2)
          else if rd_strategy rd = AskUserStrategy
          then bind_op (settle_with le (pause (fl_reason f) (Some (''Recovery requires user input: '' @ fl_reason f))
                 ''GoalWaiting'' None) st2) (\<lambda>x st'. (Inr (StepResult x), st'))
          else bind_op (settle_with le (fail_session (fl_error_code f) (fl_reason f)) st2)
                 (\<lambda>x st'. (Inr (StepResult x), st'))))"

definition failure_of :: "runtime_state \<Rightarrow> pending_action \<Rightarrow> error_code \<Rightarrow> string \<Rightarrow> failure" where
  "failure_of st p code reason = \<lparr>fl_task_id = t_id (as_current_task (the_state st)), fl_error_code = code,
     fl_category = classify_failure code, fl_reason = reason, fl_capability = Some (pa_capability p),
     fl_arguments = pa_arguments p, fl_target = pa_target p\<rparr>"

subsection \<open>Observing\<close>

definition processing_view :: "runtime_state \<Rightarrow> process_state" where
  "processing_view st = \<lparr>ps_session = the_session st, ps_evidence = rs_evidence st, ps_world = rs_world st\<rparr>"

definition put_processing :: "process_state \<Rightarrow> runtime_state \<Rightarrow> runtime_state" where
  "put_processing ps st = set_session (ps_session ps) (st\<lparr>rs_evidence := ps_evidence ps, rs_world := ps_world ps\<rparr>)"

text \<open>The events about what was processed.\<close>

definition report_processing :: "processing_result \<Rightarrow> string \<Rightarrow> runtime_state \<Rightarrow> runtime_state" where
  "report_processing g aid st =
     (let st1 = fold (\<lambda>_. emit_event ''EvidenceRecorded'' aid) (pg_evidence g) st;
          st2 = (if pg_evidence g = [] then st1 else emit_event ''WorldModelUpdated'' aid st1)
      in fold (\<lambda>_. emit_event ''TaskCreated'' []) (pg_created g) st2)"

text \<open>\<open>_observe\<close> after a successful observation has been processed.\<close>

definition after_processing :: "loop_env \<Rightarrow> pending_action \<Rightarrow> observation \<Rightarrow> processing_result \<Rightarrow> runtime_state \<Rightarrow> step run" where
  "after_processing le p ob g st =
     (let st1 = report_processing g (ob_action_id ob) st in
      case pg_evaluation g of
        None \<Rightarrow> bind_op (settle_with le (fail_session EVALUATION_FAILED
            ''observation processing did not produce an evaluation'') st1) (\<lambda>x st'. (Inr (StepResult x), st'))
      | Some ev \<Rightarrow>
          (let st2 = emit_event ''EvaluationCompleted'' (ob_action_id ob) st1 in
           if er_status ev = EvalFailed
           then plan_recovery le p (failure_of st2 p EVALUATION_FAILED (er_reason ev)) st2
           else let st3 = (if pg_next g = None then st2 else emit_event ''TaskStarted'' [] st2)
                in bind_op (commit ''StateUpdated'' (ob_action_id ob) st3) (\<lambda>_ st'. (Inr StepContinue, st'))))"

definition observe_outcome :: "loop_env \<Rightarrow> pending_action \<Rightarrow> observation \<Rightarrow> runtime_state \<Rightarrow> step run" where
  "observe_outcome le p ob st =
     (if ob_status ob \<noteq> ObsSucceeded then
        plan_recovery le p (failure_of st p (case ob_error_code ob of None \<Rightarrow> TOOL_FAILURE | Some c \<Rightarrow> c)
          (if truthy (ob_error ob) then the (ob_error ob) else ''tool execution failed'')) st
      else case process (le_components le) (le_dumps le) (en_now (le_exec le (tick st))) ob (Some p) (processing_view st) of
        (Inl (PRouting e), ps) \<Rightarrow> bind_op (settle_with le (fail_session EVALUATION_FAILED e) (put_processing ps st))
            (\<lambda>x st'. (Inr (StepResult x), st'))
      | (Inl (PRaised e), ps) \<Rightarrow> (Inl (LoopRaised e), put_processing ps st)
      | (Inr g, ps) \<Rightarrow> after_processing le p ob g (put_processing ps st))"

subsection \<open>Driving one action and its recoveries\<close>

text \<open>The executor, on a pending action that was confirmed, or on a decision.\<close>

definition act :: "loop_env \<Rightarrow> decision option \<Rightarrow> pending_action option \<Rightarrow> bool \<Rightarrow> runtime_state \<Rightarrow> action_outcome run" where
  "act le decision pending remember st =
     (case (case pending of
         Some p \<Rightarrow> execute (exec_env_at le (tick st)) p True remember (rs_exec st)
       | None \<Rightarrow> (case decision of
           None \<Rightarrow> (Inl (ExecRaised ''AssertionError''), rs_exec st)
         | Some d \<Rightarrow> prepare (exec_env_at le (tick st)) d (rs_exec st))) of
       (Inl (ExecRaised e), x) \<Rightarrow> (Inl (LoopRaised e), st\<lparr>rs_exec := x\<rparr>)
     | (Inl ExecCancelledError, x) \<Rightarrow> (Inl LoopCancelled, st\<lparr>rs_exec := x\<rparr>)
     | (Inr a, x) \<Rightarrow> (Inr a, st\<lparr>rs_exec := x\<rparr>))"

definition follow_outcome :: "loop_env \<Rightarrow> action_outcome \<Rightarrow> runtime_state \<Rightarrow> step run" where
  "follow_outcome le a st =
     (case a of
        ActionRejected code reason \<Rightarrow> bind_op (settle_with le (fail_session code reason) st)
          (\<lambda>x st'. (Inr (StepResult x), st'))
      | ConfirmationRequired p reason \<Rightarrow> bind_op (settle_with le (pause reason
            (Some (''Confirm capability '' @ pa_capability p @ '' on ''
              @ (if truthy (pa_target p) then the (pa_target p) else ''target'')))
            ''ConfirmationRequired'' (Some (pa_action_id p))) st) (\<lambda>x st'. (Inr (StepResult x), st'))
      | ActionObserved p ob \<Rightarrow> observe_outcome le p ob st)"

fun drive :: "loop_env \<Rightarrow> nat \<Rightarrow> decision option \<Rightarrow> pending_action option \<Rightarrow> bool \<Rightarrow> runtime_state
    \<Rightarrow> execution_result option run" where
  "drive le 0 decision pending remember st =
     bind_op (settle_with le (fail_session ITERATION_LIMIT
       (''maximum recovery steps reached: '' @ show_nat (le_max_recovery_steps le))) st) (\<lambda>x st'. (Inr (Some x), st'))"
| "drive le (Suc n) decision pending remember st =
     bind_op (requested le st) (\<lambda>r st1. case r of Some x \<Rightarrow> (Inr (Some x), st1)
       | None \<Rightarrow> bind_op (act le decision pending remember st1) (\<lambda>a st2.
           bind_op (follow_outcome le a st2) (\<lambda>s st3. case s of
             StepResult x \<Rightarrow> (Inr (Some x), st3)
           | StepContinue \<Rightarrow> (Inr None, st3)
           | StepDecision d \<Rightarrow> drive le n (Some d) None remember st3)))"

subsection \<open>Deciding\<close>

text \<open>\<open>_decide_with_transient_retry\<close>: the first argument counts the attempts that are left.\<close>

fun decide_with_retry :: "loop_env \<Rightarrow> nat \<Rightarrow> nat \<Rightarrow> nat \<Rightarrow> decision_inputs \<Rightarrow> string + decision \<times> model_usage option" where
  "decide_with_retry le n 0 attempt inp = Inl ''unreachable''"
| "decide_with_retry le n (Suc left) attempt inp =
     (case le_decide le n attempt inp of
        Decided d u \<Rightarrow> Inr (d, u)
      | DecideError e \<Rightarrow> Inl e
      | TransientError e \<Rightarrow> if left = 0 then Inl e else decide_with_retry le n left (Suc attempt) inp)"

definition add_usage :: "model_usage \<Rightarrow> agent_state \<Rightarrow> agent_state" where
  "add_usage u s = s\<lparr>as_cumulative_cost_micros := as_cumulative_cost_micros s + int (mu_cost_micros u),
     as_cumulative_tokens := as_cumulative_tokens s + int (mu_input_tokens u + mu_output_tokens u)\<rparr>"

definition limit_reached :: "string \<Rightarrow> int option \<Rightarrow> int \<Rightarrow> string option" where
  "limit_reached what limit current = (case limit of None \<Rightarrow> None
     | Some m \<Rightarrow> if m \<le> current then Some (what @ '' limit reached: '' @ show_int current @ '' >= '' @ show_int m) else None)"

definition budget_exceeded :: "loop_env \<Rightarrow> agent_state \<Rightarrow> string option" where
  "budget_exceeded le s = first_problem [limit_reached ''cost'' (le_max_cost le) (as_cumulative_cost_micros s),
     limit_reached ''token'' (le_max_tokens le) (as_cumulative_tokens s)]"

definition record_usage :: "loop_env \<Rightarrow> model_usage option \<Rightarrow> runtime_state \<Rightarrow> execution_result option run" where
  "record_usage le usage st = (case usage of None \<Rightarrow> (Inr None, st)
     | Some u \<Rightarrow>
         (let st1 = emit_event ''LLMCallRecorded'' [] (emit_event ''ModelUsageRecorded'' [] st);
              st2 = set_state (add_usage u) st1
          in case budget_exceeded le (the_state st2) of
             None \<Rightarrow> (Inr None, st2)
           | Some e \<Rightarrow> bind_op (settle_with le (fail_session COST_LIMIT_EXCEEDED e) st2) (\<lambda>x st'. (Inr (Some x), st'))))"

text \<open>The three gates, in their order: the verdict of the first that refuses.\<close>

definition decision_verdict :: "loop_env \<Rightarrow> nat \<Rightarrow> agent_state \<Rightarrow> decision \<Rightarrow> capability_definition list
    \<Rightarrow> capability_input_contract list \<Rightarrow> capability_definition list \<Rightarrow> (error_code \<times> string) option" where
  "decision_verdict le n s d caps contracts all_caps =
     (case decision_validate d of
        Some e \<Rightarrow> Some (VALIDATION_ERROR, ''invalid decision: '' @ e)
      | None \<Rightarrow> (case validate_session_constraints s d all_caps of
          Some v \<Rightarrow> Some v
        | None \<Rightarrow> validate_decision_context (en_schema_error (le_exec le n)) (rt_registry (le_components le)) d caps contracts))"

definition validate_decision :: "loop_env \<Rightarrow> decision \<Rightarrow> capability_definition list \<Rightarrow> capability_input_contract list
    \<Rightarrow> capability_definition list \<Rightarrow> runtime_state \<Rightarrow> execution_result option run" where
  "validate_decision le d caps contracts all_caps st =
     (case decision_verdict le (tick st) (the_state st) d caps contracts all_caps of
        Some (code, reason) \<Rightarrow> bind_op (settle_with le (fail_session code reason) (emit_event ''DecisionRejected'' [] st))
          (\<lambda>x st'. (Inr (Some x), st'))
      | None \<Rightarrow> (Inr None, emit_event ''DecisionValidated'' [] st))"

definition apply_decision :: "loop_env \<Rightarrow> decision \<Rightarrow> runtime_state \<Rightarrow> execution_result option run" where
  "apply_decision le d st =
     (let stop = (\<lambda>f. bind_op (settle_with le f st) (\<lambda>x st'. (Inr (Some x), st'))) in
      case d_type d of
        Execute \<Rightarrow> drive le (le_max_recovery_steps le) (Some d) None False st
      | Finish \<Rightarrow> stop finish
      | Wait \<Rightarrow> stop (pause ''runtime paused by wait decision'' None ''GoalWaiting'' None)
      | AskUser \<Rightarrow> stop (pause ''runtime paused for user input'' (d_message d) ''GoalWaiting'' None))"

subsection \<open>One iteration\<close>

text \<open>What the context compiler is given; reading the world fills its cache.\<close>

definition decision_inputs_of :: "loop_env \<Rightarrow> capability_definition list \<Rightarrow> capability_input_contract list
    \<Rightarrow> runtime_state \<Rightarrow> decision_inputs \<times> runtime_state" where
  "decision_inputs_of le caps contracts st =
     (let s = the_state st; (w, world) = take_snapshot (le_dumps le) (as_session_id s) [] [] (rs_world st)
      in (\<lparr>di_state = s, di_capabilities = caps, di_policies = policy_summary (rt_policies (le_components le)),
           di_world = w, di_evidence = query_evidence \<lparr>evq_session = as_session_id s,
             evq_task = Some (t_id (as_current_task s)), evq_subject = None, evq_claim = None, evq_limit = Some 8\<rparr>
             (rs_evidence st),
           di_tasks = ss_tasks (the_session st), di_memories = recall (le_consultant le) s w (rs_memory st),
           di_contracts = contracts\<rparr>, st\<lparr>rs_world := world\<rparr>))"

text \<open>From the answer of the model to the end of the iteration.\<close>

definition use_decision :: "loop_env \<Rightarrow> rat option \<Rightarrow> decision \<Rightarrow> model_usage option \<Rightarrow> capability_definition list
    \<Rightarrow> capability_input_contract list \<Rightarrow> capability_definition list \<Rightarrow> runtime_state \<Rightarrow> execution_result option run" where
  "use_decision le deadline d0 usage caps contracts all_caps st =
     bind_op (record_usage le usage (emit_event ''DecisionGenerated'' [] st)) (\<lambda>r1 st1. case r1 of Some x \<Rightarrow> (Inr (Some x), st1)
       | None \<Rightarrow> bind_op (pause_if_expired le deadline st1) (\<lambda>r2 st2. case r2 of Some x \<Rightarrow> (Inr (Some x), st2)
       | None \<Rightarrow> (let d = normalize_runtime_decision d0 in
           bind_op (validate_decision le d caps contracts all_caps st2) (\<lambda>r3 st3. case r3 of Some x \<Rightarrow> (Inr (Some x), st3)
           | None \<Rightarrow> apply_decision le d st3))))"

definition begin_iteration :: "runtime_state \<Rightarrow> unit run" where
  "begin_iteration st = bind_op (save (set_state (\<lambda>s. s\<lparr>as_iteration := as_iteration s + 1\<rparr>) st))
     (\<lambda>_ st'. (Inr (), emit_event ''IterationStarted'' [] st'))"

text \<open>The model decides on what the session may do, and the decision is used.\<close>

definition decide_iteration :: "loop_env \<Rightarrow> rat option \<Rightarrow> runtime_state \<Rightarrow> execution_result option run" where
  "decide_iteration le deadline st =
     (let (all_caps, all_contracts) = capability_context (rt_registry (le_components le)) (rt_tools (le_components le));
          (caps, contracts) = constrain_capability_context (the_state st) all_caps all_contracts;
          (inp, st1) = decision_inputs_of le caps contracts st
      in case decide_with_retry le (tick st1) (le_max_model_retries le + 1) 0 inp of
           Inl e \<Rightarrow> bind_op (settle_with le (fail_session MODEL_FAILURE (''model failed: '' @ e)) st1)
             (\<lambda>x st'. (Inr (Some x), st'))
         | Inr (d, usage) \<Rightarrow> use_decision le deadline d usage caps contracts all_caps st1)"

definition iteration :: "loop_env \<Rightarrow> rat option \<Rightarrow> runtime_state \<Rightarrow> execution_result option run" where
  "iteration le deadline st =
     bind_op (pause_if_expired le deadline st) (\<lambda>r1 st1. case r1 of Some x \<Rightarrow> (Inr (Some x), st1)
       | None \<Rightarrow> bind_op (requested le st1) (\<lambda>r2 st2. case r2 of Some x \<Rightarrow> (Inr (Some x), st2)
       | None \<Rightarrow> bind_op (begin_iteration st2) (\<lambda>_ st3. decide_iteration le deadline st3)))"

end
