(* ===== verification/Processing_Safety.thy ===== *)
theory Processing_Safety
  imports Observation_Processing Domain_Safety World_Safety Store_Safety Action_Safety
begin

text \<open>
  What processing an observation leaves behind: sessions whose task graph is sound on every exit,
  a goal that can be finished once it is judged complete, evidence that belongs to the domain of
  the action; and what seeding the same facts in a second session loses.
\<close>

subsection \<open>Task graphs\<close>

lemma graph_ok_expand:
  assumes "graph_ok m" and "expand now specs m = (r, m')"
  shows "graph_ok m'"
proof -
  have "graph_wf m" "tm_current_id m \<in> set (tm_order m)" using assms(1) by (simp_all add: graph_ok_def)
  then obtain ts where "graph_wf m'" "grown m m' ts" using expand_grown [OF _ assms(2)] by blast
  moreover then have "set (tm_order m) \<subseteq> set (tm_order m')"
    using graph_wf_sets(1) [OF \<open>graph_wf m\<close>] graph_wf_sets(1) [OF \<open>graph_wf m'\<close>]
    by (auto simp: grown_def)
  ultimately show ?thesis using \<open>tm_current_id m \<in> set (tm_order m)\<close> by (auto simp: graph_ok_def grown_def)
qed

lemma sync_state_fields [simp]:
  "as_latest_evaluation (ss_state (sync_current_task s)) = as_latest_evaluation (ss_state s)"
  "as_is_continuation (ss_state (sync_current_task s)) = as_is_continuation (ss_state s)"
  "as_session_id (ss_state (sync_current_task s)) = as_session_id (ss_state s)"
  "as_goal (ss_state (sync_current_task s)) = as_goal (ss_state s)"
  by (simp_all add: sync_current_task_def)

lemma complete_all_done: "\<not> has_unfinished (complete_all m)"
  by (auto simp: has_unfinished_def complete_all_def map_ran_def list_ex_iff task_terminal_def split: if_splits)

lemma current_completed:
  assumes "graph_ok m"
  shows "\<exists>t. current_task (complete_all (complete_current m)) = Inr t \<and> t_status t = TaskCompleted"
proof -
  obtain t where t: "map_of (tm_tasks m) (tm_current_id m) = Some t" using current_task_ok [OF assms] by blast
  then have "map_of (tm_tasks (complete_current m)) (tm_current_id m) = Some (t\<lparr>t_status := TaskCompleted\<rparr>)"
    by (simp add: complete_current_def set_status_lookup)
  moreover have "tm_current_id (complete_all (complete_current m)) = tm_current_id m"
    by (simp add: complete_all_def complete_current_def)
  ultimately show ?thesis
    by (simp add: current_task_def get_task_def complete_all_def map_of_map_ran task_terminal_def)
qed

definition goal_reached :: "evaluation_result \<Rightarrow> bool" where
  "goal_reached ev \<longleftrightarrow> er_task_completed ev \<and> er_goal_completed ev"

lemma advance_session:
  assumes "graph_ok (ss_tasks s)" and "advance ev s = (n, s')"
  shows "session_consistent s' \<and> as_latest_evaluation (ss_state s') = as_latest_evaluation (ss_state s)
    \<and> (goal_reached ev \<longrightarrow> \<not> has_unfinished (ss_tasks s') \<and> t_status (as_current_task (ss_state s')) = TaskCompleted)"
proof (cases "goal_reached ev")
  case True
  let ?m = "complete_all (complete_current (ss_tasks s))"
  have s': "s' = sync_current_task ((complete_current_task s)\<lparr>ss_tasks := ?m\<rparr>)"
    using assms(2) True by (simp add: advance_def goal_reached_def Let_def complete_current_task_def)
  have ok: "graph_ok ?m" using assms(1) by (intro graph_ok_intros)
  obtain t where t: "current_task ?m = Inr t" "t_status t = TaskCompleted" using current_completed [OF assms(1)] by blast
  have "session_consistent s'" unfolding s' by (rule sync_consistent) (simp add: ok)
  moreover have "as_current_task (ss_state s') = t" unfolding s' by (simp add: sync_current_task_def t(1))
  moreover have "as_latest_evaluation (ss_state s') = as_latest_evaluation (ss_state s)"
    by (simp add: s' complete_current_task_def)
  moreover have "\<not> has_unfinished (ss_tasks s')" by (simp add: s' complete_all_done)
  ultimately show ?thesis using t(2) by simp
next
  case False
  have "graph_ok (complete_current (ss_tasks s))" "graph_ok (snd (start_next (complete_current (ss_tasks s))))"
    using assms(1) by (simp_all add: graph_ok_intros)
  moreover have "er_task_completed ev \<longrightarrow> \<not> er_goal_completed ev" using False by (simp add: goal_reached_def)
  ultimately show ?thesis using False assms
    by (auto simp: advance_def Let_def complete_current_task_def start_next_task_def intro!: sync_consistent split: if_splits)
qed

subsection \<open>Every exit of the processing\<close>

lemma judge_session:
  assumes "graph_ok (ss_tasks (ps_session ps))" and "judge rt dumps now i ob es ps = (r, ps')"
  shows "graph_ok (ss_tasks (ps_session ps'))
    \<and> (\<forall>g. r = Inr g \<longrightarrow> session_consistent (ps_session ps')
        \<and> (\<exists>ev. pg_evaluation g = Some ev \<and> as_latest_evaluation (ss_state (ps_session ps')) = Some ev
             \<and> (goal_reached ev \<longrightarrow> \<not> has_unfinished (ss_tasks (ps_session ps'))
                  \<and> t_status (as_current_task (ss_state (ps_session ps'))) = TaskCompleted)))"
proof -
  let ?s = "ps_session ps"
  obtain w world where snap: "take_snapshot dumps (as_session_id (ss_state ?s)) [] [] (ps_world ps) = (w, world)" by fastforce
  define acc where "acc = query_evidence \<lparr>evq_session = as_session_id (ss_state ?s),
      evq_task = Some (t_id (as_current_task (ss_state ?s))), evq_subject = None, evq_claim = None, evq_limit = None\<rparr> (ps_evidence ps)"
  note step = assms(2) [unfolded judge_def Let_def snap prod.case acc_def [symmetric]]
  show ?thesis
  proof (cases "expand_specs (expanders_for rt i) (as_current_task (ss_state ?s)) acc w")
    case (Inl e)
    then show ?thesis using step assms(1) by auto
  next
    case (Inr specs)
    obtain r1 m where ex: "expand now specs (ss_tasks ?s) = (r1, m)" by fastforce
    have ok: "graph_ok m" by (rule graph_ok_expand [OF assms(1) ex])
    show ?thesis
    proof (cases r1)
      case (Inl e)
      then show ?thesis using step Inr ex ok by auto
    next
      case created: (Inr created)
      show ?thesis
      proof (cases "evaluate_observation rt i ob acc w (?s\<lparr>ss_tasks := m\<rparr>)")
        case (Inl e)
        then show ?thesis using step Inr ex created ok by auto
      next
        case ev: (Inr ev)
        let ?s1 = "update_state (note_evaluation ev) (?s\<lparr>ss_tasks := m\<rparr>)"
        obtain n s2 where adv: "advance ev ?s1 = (n, s2)" by fastforce
        have s1: "graph_ok (ss_tasks ?s1)" using ok by simp
        note moved = advance_session [OF s1 adv]
        have "as_latest_evaluation (ss_state ?s1) = Some ev" by (simp add: note_evaluation_def)
        then show ?thesis using step Inr ex created ev adv moved consistent_graph by auto
      qed
    qed
  qed
qed

lemma process_session:
  assumes "graph_ok (ss_tasks (ps_session ps))" and "process rt dumps now ob action ps = (r, ps')"
  shows "graph_ok (ss_tasks (ps_session ps'))
    \<and> (\<forall>g. r = Inr g \<longrightarrow> session_consistent (ps_session ps')
        \<and> (\<exists>ev. pg_evaluation g = Some ev \<and> as_latest_evaluation (ss_state (ps_session ps')) = Some ev
             \<and> (goal_reached ev \<longrightarrow> \<not> has_unfinished (ss_tasks (ps_session ps'))
                  \<and> t_status (as_current_task (ss_state (ps_session ps'))) = TaskCompleted)))"
proof -
  have early: ?thesis if "r = Inl e" "ps_session ps' = ps_session ps" for e using that assms(1) by simp
  show ?thesis
    using assms early judge_session [of "ps\<lparr>ps_evidence := store, ps_world := w\<rparr>" for store w]
    by (auto simp: process_def Let_def split: if_splits sum.splits prod.splits)
qed

text \<open>A goal that is judged complete can be finished. When the evaluation of an observation is
  complete for task and goal, every task is resolved, also the ones that were planned for later,
  the session is consistent, and a finish decision of the model then completes the goal instead
  of being trapped by unfinished tasks. On every exit, also when something raises, the task graph
  stays sound.\<close>

theorem judged_goal_can_finish:
  assumes "graph_ok (ss_tasks (ps_session ps))" and "process rt dumps now ob action ps = (r, ps')"
  shows "graph_ok (ss_tasks (ps_session ps'))
    \<and> (case r of Inl _ \<Rightarrow> True
       | Inr g \<Rightarrow> session_consistent (ps_session ps')
         \<and> (case pg_evaluation g of None \<Rightarrow> False
            | Some ev \<Rightarrow> goal_reached ev \<and> er_status ev = EvalCompleted
                \<longrightarrow> xr_status (tr_result (fst (finish (ps_session ps')))) = ExecCompleted))"
proof -
  note p = process_session [OF assms]
  have fin: "xr_status (tr_result (fst (finish s))) = ExecCompleted"
    if "\<not> has_unfinished (ss_tasks s)" "t_status (as_current_task (ss_state s)) = TaskCompleted"
      "as_latest_evaluation (ss_state s) = Some ev" "er_status ev = EvalCompleted" "goal_reached ev" for s ev
    using that by (intro finish_authorised) (simp add: evaluator_authorised_def goal_reached_def)
  show ?thesis
  proof (cases r)
    case (Inl e)
    then show ?thesis using p by simp
  next
    case (Inr g)
    then obtain ev where ev: "pg_evaluation g = Some ev" "as_latest_evaluation (ss_state (ps_session ps')) = Some ev"
        "goal_reached ev \<longrightarrow> \<not> has_unfinished (ss_tasks (ps_session ps'))
           \<and> t_status (as_current_task (ss_state (ps_session ps'))) = TaskCompleted"
        "session_consistent (ps_session ps')" "graph_ok (ss_tasks (ps_session ps'))"
      using p by blast
    then show ?thesis using Inr fin by auto
  qed
qed

subsection \<open>Evidence belongs to the domain of the action\<close>

lemma stamp_all_owner:
  "stamp_all (Some d) es = Inr es' \<Longrightarrow> \<forall>e \<in> set es'. ev_domain_name e = dom_name d \<and> ev_domain_version e = dom_version d"
  by (induction es arbitrary: es') (auto simp: stamp_owner_def split: sum.splits if_splits)

lemma extract_all_owner:
  "extract_all (Some d) xs sid t ob = Inr es \<Longrightarrow> \<forall>e \<in> set es. ev_domain_name e = dom_name d \<and> ev_domain_version e = dom_version d"
  by (induction xs arbitrary: es) (auto split: sum.splits dest!: stamp_all_owner)

lemma add_evidence_known: "map_of (snd (add_evidence e st)) (ev_id e) \<noteq> None"
  by (simp add: add_evidence_def dict_simps)

lemma add_evidence_keeps: "map_of st k \<noteq> None \<Longrightarrow> map_of (snd (add_evidence e st)) k \<noteq> None"
  by (auto simp: add_evidence_def dict_simps)

lemma record_all_mono:
  assumes "record_all rt es st = (r, st')" and "map_of (fst st) k \<noteq> None"
  shows "map_of (fst st') k \<noteq> None"
  using assms
proof (induction es arbitrary: st)
  case (Cons e es)
  obtain b store where add: "add_evidence e (fst st) = (b, store)" by fastforce
  then have "map_of store k \<noteq> None" using add_evidence_keeps [OF Cons.prems(2), of e] by simp
  then show ?case using Cons add
    by (auto simp del: map_of_eq_Some_iff split: bool.splits prod.splits sum.splits)
qed simp

lemma record_all_known:
  assumes "record_all rt es st = (r, st')"
  shows "\<not> isl r \<longrightarrow> (\<forall>e \<in> set es. map_of (fst st') (ev_id e) \<noteq> None)"
  using assms
proof (induction es arbitrary: st)
  case (Cons e es)
  obtain b store where add: "add_evidence e (fst st) = (b, store)" by fastforce
  have store: "map_of store (ev_id e) \<noteq> None"
    using add_evidence_known [of e "fst st"] add by simp
  show ?case
  proof (cases b)
    case False
    then have "store = fst st" using add by (auto simp: add_evidence_def split: if_splits)
    moreover have "record_all rt es st = (r, st')" using Cons.prems add False by simp
    ultimately show ?thesis using Cons.IH [of st] store(1) record_all_mono [of rt es st r st'] by auto
  next
    case True
    obtain q w where upd: "apply_updaters (updaters_for_evidence rt e) e (snd st) = (q, w)" by fastforce
    show ?thesis
    proof (cases q)
      case (Inl x)
      then show ?thesis using Cons.prems add True upd by auto
    next
      case (Inr u)
      then have "record_all rt es (store, w) = (r, st')" using Cons.prems add True upd by simp
      then show ?thesis using Cons.IH [of "(store, w)"] store record_all_mono [of rt es "(store, w)" r st'] by auto
    qed
  qed
qed simp

lemma judge_evidence:
  assumes "judge rt dumps now i ob es ps = (Inr g, ps')"
  shows "pg_evidence g = es \<and> ps_evidence ps' = ps_evidence ps"
  using assms by (auto simp: judge_def Let_def split: prod.splits sum.splits)

text \<open>Evidence belongs to the domain of the action. When the observation of an action of some
  domain has been processed, the domain is one of the runtime's, every piece of evidence it gave
  is stamped with that domain, and all of it is in the store that the session is saved from.\<close>

theorem processed_evidence_owned:
  assumes "process rt dumps now ob action ps = (Inr g, ps')" and "action_domain action = Some d"
  shows "domain_for d (rt_composition rt) \<noteq> None
    \<and> (\<forall>e \<in> set (pg_evidence g). ev_domain_name e = dom_name d \<and> ev_domain_version e = dom_version d
         \<and> map_of (ps_evidence ps') (ev_id e) \<noteq> None)"
proof -
  let ?st = "ss_state (ps_session ps)"
  have dom: "domain_for d (rt_composition rt) \<noteq> None"
    using assms by (auto simp: process_def Let_def split: if_splits)
  then obtain es where es: "extract_all (Some d) (extractors_for rt (Some d)) (as_session_id ?st) (as_current_task ?st) ob = Inr es"
    using assms by (auto simp: process_def Let_def split: sum.splits)
  obtain r store w where rec: "record_all rt es (ps_evidence ps, ps_world ps) = (r, (store, w))" by (metis prod.exhaust)
  then have r: "\<not> isl r" and j: "judge rt dumps now (Some d) ob es (ps\<lparr>ps_evidence := store, ps_world := w\<rparr>) = (Inr g, ps')"
    using assms dom es by (auto simp: process_def Let_def split: sum.splits)
  have "pg_evidence g = es" "ps_evidence ps' = store" using judge_evidence [OF j] by simp_all
  then show ?thesis using dom extract_all_owner [OF es] record_all_known [OF rec] r by simp
qed

subsection \<open>Seeding twice\<close>

lemma bucket_forget: "bucket (forget_session sid w) sid subject claim = []"
proof -
  have "map_of (filter (\<lambda>(k, _). fst k \<noteq> sid) d) (sid, subject, claim) = None" for d :: "(string \<times> string \<times> string, 'a) dict"
    by (auto simp: map_of_eq_None_iff)
  from this [of "wm_facts w"] show ?thesis
    by (simp add: bucket_def forget_session_def uncache_def dict_get_def del: map_of_eq_None_iff)
qed

text \<open>A second session loses its initial facts. The identifier of a seeded fact is made from its
  subject and claim only. When another session of the runtime has seeded the same fact, the shared
  store refuses the evidence of the new session, while the world model takes the fact: the session
  works with a fact that is in none of its snapshots, and after its next hydration the fact is gone.\<close>

theorem second_seed_not_stored:
  assumes "sf_subject f \<noteq> []" and "sf_claim f \<noteq> []" and "evidence_problem (seed_evidence sid now f) = None"
    and "map_of store (ev_id (seed_evidence sid now f)) \<noteq> None" and "export_evidence sid store = []"
    and "bucket w sid (sf_subject f) (sf_claim f) = []" and "1 \<le> wm_cap w"
    and "as_session_id (sn_state sn) = sid" and "sn_evidence sn = export_evidence sid (fst (snd (seed_facts dumps sid now [f] (store, w))))"
  shows "(let (r, (store', w')) = seed_facts dumps sid now [f] (store, w) in
      r = Inr () \<and> export_evidence sid store' = []
      \<and> bucket w' sid (sf_subject f) (sf_claim f) = [seed_evidence sid now f]
      \<and> bucket (snd (snd (hydrate_stores updaters sn (store', w')))) sid (sf_subject f) (sf_claim f) = [])"
proof -
  let ?e = "seed_evidence sid now f"
  have seeded: "seed_facts dumps sid now [f] (store, w) = (Inr (), (store, snd (apply_fact dumps ?e w)))"
    using assms(1-4) by (auto simp: Let_def add_evidence_def simp del: map_of_eq_Some_iff)
  have e: "ev_session_id ?e = sid" "ev_subject ?e = sf_subject f" "ev_claim ?e = sf_claim f"
    by (simp_all add: seed_evidence_def)
  have "bucket (snd (apply_fact dumps ?e w)) sid (sf_subject f) (sf_claim f) = trim_bucket dumps (wm_cap w) [?e]"
    using assms(6) by (simp add: bucket_apply_fact e fact_key_def add_to_bucket_def)
  also have "\<dots> = [?e]" using assms(7) by (simp add: trim_bucket_def)
  finally have "bucket (snd (apply_fact dumps ?e w)) sid (sf_subject f) (sf_claim f) = [?e]" .
  moreover have "sn_evidence sn = []" using assms(5,9) unfolding seeded by simp
  then have "snd (snd (hydrate_stores updaters sn (store, snd (apply_fact dumps ?e w)))) = forget_session sid (snd (apply_fact dumps ?e w))"
    using assms(8) by (simp add: hydrate_stores_def Let_def ordered_evidence_def)
  ultimately show ?thesis unfolding seeded Let_def prod.case using assms(5) by (simp add: bucket_forget)
qed

definition sample_seed :: seed_fact where
  "sample_seed = \<lparr>sf_subject = ''web'', sf_claim = ''replicas'', sf_value = JInt 3, sf_confidence = 1\<rparr>"

definition seeded_once :: "evidence_store \<times> world_model" where
  "seeded_once = snd (seed_facts (\<lambda>_. []) ''s1'' 1 [sample_seed] ([], empty_world 5))"

definition resumed_snapshot :: session_snapshot where
  "resumed_snapshot = session_from_state (fresh_state ''s2'' sample_goal sample_root False) [] [] []"

theorem second_seed_not_stored_witness:
  "let (r, (store', w')) = seed_facts (\<lambda>_. []) ''s2'' 2 [sample_seed] seeded_once in
     r = Inr () \<and> export_evidence ''s2'' store' = []
     \<and> bucket w' ''s2'' ''web'' ''replicas'' = [seed_evidence ''s2'' 2 sample_seed]
     \<and> bucket (snd (snd (hydrate_stores (\<lambda>_. []) resumed_snapshot (store', w')))) ''s2'' ''web'' ''replicas'' = []"
proof -
  have once: "seeded_once = ([(''init-web-replicas'', seed_evidence ''s1'' 1 sample_seed)],
      snd (apply_fact (\<lambda>_. []) (seed_evidence ''s1'' 1 sample_seed) (empty_world 5)))"
    by (simp add: seeded_once_def sample_seed_def seed_evidence_def Let_def add_evidence_def evidence_problem_def blank_def py_isspace_def)
  have ok: "evidence_problem (seed_evidence ''s2'' 2 sample_seed) = None"
    by (simp add: evidence_problem_def seed_evidence_def sample_seed_def blank_def py_isspace_def)
  have "seed_facts (\<lambda>_. []) ''s2'' 2 [sample_seed] seeded_once
      = (Inr (), (fst seeded_once, snd (apply_fact (\<lambda>_. []) (seed_evidence ''s2'' 2 sample_seed) (snd seeded_once))))"
    using ok by (simp add: once sample_seed_def add_evidence_def seed_evidence_def Let_def)
  moreover have "export_evidence ''s2'' (fst seeded_once) = []"
    by (simp add: once export_evidence_def seed_evidence_def)
  ultimately have "sn_evidence resumed_snapshot = export_evidence ''s2'' (fst (snd (seed_facts (\<lambda>_. []) ''s2'' 2 [sample_seed]
      (fst seeded_once, snd seeded_once))))"
    by (simp add: resumed_snapshot_def session_from_state_def)
  moreover have "as_session_id (sn_state resumed_snapshot) = ''s2''"
    by (simp add: resumed_snapshot_def session_from_state_def fresh_state_def)
  moreover have "map_of (fst seeded_once) (ev_id (seed_evidence ''s2'' 2 sample_seed)) \<noteq> None"
    by (simp add: once seed_evidence_def sample_seed_def)
  moreover have "bucket (snd seeded_once) ''s2'' (sf_subject sample_seed) (sf_claim sample_seed) = []" "1 \<le> wm_cap (snd seeded_once)"
    by (simp_all add: once apply_fact_def seed_evidence_def sample_seed_def empty_world_def bucket_def dict_get_def
        uncache_def refresh_entity_attributes_def Let_def)
  moreover note \<open>export_evidence ''s2'' (fst seeded_once) = []\<close>
  ultimately show ?thesis
    using second_seed_not_stored [OF _ _ ok, of "fst seeded_once" "snd seeded_once" resumed_snapshot "\<lambda>_. []" "\<lambda>_. []"]
    by (simp add: sample_seed_def del: seed_facts.simps)
qed

subsection \<open>A sample run\<close>

definition sample_runtime :: runtime_components where
  "sample_runtime = projr (build_runtime (\<lambda>_. []) sample_extractor [] [sample_domain ''k8s'' ''look'' ''health''])"

definition domain_action :: pending_action where
  "domain_action = sample_pending\<lparr>pa_domain_name := ''k8s'', pa_domain_version := ''1''\<rparr>"

definition good_observation :: observation where
  "good_observation = \<lparr>ob_id = ''o'', ob_action_id = ''a'', ob_task_id = ''r'', ob_source = ''look:look-tool'',
     ob_status = ObsSucceeded, ob_data = [(''replicas'', JInt 3)], ob_observed_at = 7, ob_error = None, ob_error_code = None\<rparr>"

definition start_of_processing :: process_state where
  "start_of_processing = \<lparr>ps_session = fresh_session ''s'' sample_goal sample_root, ps_evidence = [], ps_world = empty_world 5\<rparr>"

definition sample_processed :: "(process_state, process_error, processing_result) outcome" where
  "sample_processed = process sample_runtime (\<lambda>_. []) 9 good_observation (Some domain_action) start_of_processing"

lemma sample_processed_ok:
  "\<not> isl (fst sample_processed) \<and> length (pg_evidence (projr (fst sample_processed))) = 1"
  by code_simp

lemma sample_processed_eq:
  obtains g ps' where "process sample_runtime (\<lambda>_. []) 9 good_observation (Some domain_action) start_of_processing = (Inr g, ps')"
    "length (pg_evidence g) = 1" "sample_processed = (Inr g, ps')"
  using sample_processed_ok by (cases sample_processed; cases "fst sample_processed") (auto simp: sample_processed_def)

theorem processed_evidence_owned_witness:
  "\<exists>e. pg_evidence (projr (fst sample_processed)) = [e] \<and> ev_domain_name e = ''k8s''
     \<and> map_of (ps_evidence (snd sample_processed)) (ev_id e) \<noteq> None"
proof (rule sample_processed_eq)
  fix g ps' assume p: "process sample_runtime (\<lambda>_. []) 9 good_observation (Some domain_action) start_of_processing = (Inr g, ps')"
    "length (pg_evidence g) = 1" "sample_processed = (Inr g, ps')"
  have "action_domain (Some domain_action) = Some \<lparr>dom_name = ''k8s'', dom_version = ''1''\<rparr>"
    by (simp add: action_domain_def pending_domain_def domain_action_def)
  from processed_evidence_owned [OF p(1) this] p(2) show ?thesis unfolding p(3) by (auto simp: length_Suc_conv)
qed

theorem judged_goal_can_finish_witness:
  "xr_status (tr_result (fst (finish (ps_session (snd sample_processed))))) = ExecCompleted"
proof (rule sample_processed_eq)
  fix g ps' assume p: "process sample_runtime (\<lambda>_. []) 9 good_observation (Some domain_action) start_of_processing = (Inr g, ps')"
    "sample_processed = (Inr g, ps')"
  have "graph_ok (ss_tasks (ps_session start_of_processing))"
    using consistent_graph [OF fresh_consistent] by (simp add: start_of_processing_def)
  moreover have "case pg_evaluation (projr (fst sample_processed)) of None \<Rightarrow> False
      | Some ev \<Rightarrow> goal_reached ev \<and> er_status ev = EvalCompleted"
    by code_simp
  then obtain ev where "pg_evaluation g = Some ev" "goal_reached ev" "er_status ev = EvalCompleted"
    unfolding p(2) by (auto split: option.splits)
  ultimately show ?thesis using judged_goal_can_finish [OF _ p(1)] unfolding p(2) by simp
qed

end
