(* ===== verification/Loop_Frame.thy ===== *)
theory Loop_Frame
  imports Agent_Loop Processing_Safety
begin

text \<open>
  What the steps of the loop leave alone. A predicate of the runtime state that the small steps
  keep (emitting, saving, the transitions, the executor, the processing of an observation) is
  kept by everything that is composed of them. The locales say so once: \<open>quiet_invariant\<close> for what
  goes on beside the executor, \<open>step_invariant\<close> with the executor; the invariants of the runtime
  are their interpretations.
\<close>

locale quiet_invariant =
  fixes le :: loop_env and I :: "runtime_state \<Rightarrow> bool"
  assumes emitted: "I st \<Longrightarrow> I (emit_event e a st)"
    and paused: "I st \<Longrightarrow> I (set_session (snd (pause r m e aid (the_session st))) st)"
    and failed: "I st \<Longrightarrow> I (set_session (snd (fail_session c r (the_session st))) st)"
    and finished: "I st \<Longrightarrow> I (set_session (snd (finish (the_session st))) st)"
    and cancelled: "I st \<Longrightarrow> I (set_session (snd (cancel_session_run r (the_session st))) st)"
    and saved: "I st \<Longrightarrow> I (snd (save_snapshot b st))"
    and released: "I st \<Longrightarrow> I (release_waiting tr st)"
    and remembered: "I st \<Longrightarrow> I (st\<lparr>rs_memory := mem\<rparr>)"
    and noted: "I st \<Longrightarrow> I (set_state (\<lambda>s. s\<lparr>as_recovery_attempts := f s\<rparr>) st)"
    and spent: "I st \<Longrightarrow> I (set_state (add_usage u) st)"
    and looked: "I st \<Longrightarrow> I (st\<lparr>rs_world := snd (take_snapshot dumps sid [] [] (rs_world st))\<rparr>)"
    and processed: "I st \<Longrightarrow> I (put_processing (snd (process (le_components le) dumps now ob p (processing_view st))) st)"
begin

lemma bound: "I (snd r) \<Longrightarrow> (\<And>a st. I st \<Longrightarrow> I (snd (f a st))) \<Longrightarrow> I (snd (bind_op r f))"
  by (cases r; cases "fst r") (auto simp: bind_op_def)

lemma ended: "I (snd (r, st)) = I st"
  by simp

lemma committed: "I st \<Longrightarrow> I (snd (commit e a st))"
  unfolding commit_def by (rule bound, rule saved, assumption, unfold ended, rule emitted)

lemma settled: "I st \<Longrightarrow> I (snd (settle le tr st))"
  unfolding settle_def Let_def
  by (rule bound, rule committed, rule remembered, rule released, assumption, unfold ended)

lemma settled_pause: "I st \<Longrightarrow> I (snd (settle_with le (pause r m e aid) st))"
  using settled [OF paused] by (simp add: settle_with_def split_def)

lemma settled_fail: "I st \<Longrightarrow> I (snd (settle_with le (fail_session c r) st))"
  using settled [OF failed] by (simp add: settle_with_def split_def)

lemma settled_finish: "I st \<Longrightarrow> I (snd (settle_with le finish st))"
  using settled [OF finished] by (simp add: settle_with_def split_def)

lemma settled_cancel: "I st \<Longrightarrow> I (snd (settle_with le (cancel_session_run r) st))"
  using settled [OF cancelled] by (simp add: settle_with_def split_def)

lemmas settles = settled_pause settled_fail settled_finish settled_cancel

lemma controlled: "I st \<Longrightarrow> I (snd (requested le st))"
  unfolding requested_def by (cases "le_control le (tick st)") (auto intro!: bound settles)

lemma expired: "I st \<Longrightarrow> I (snd (pause_if_expired le deadline st))"
  unfolding pause_if_expired_def by (cases deadline) (auto intro!: bound settles)

lemma recovered: "I st \<Longrightarrow> I (snd (plan_recovery le p f st))"
  unfolding plan_recovery_def Let_def by (auto intro!: bound settles committed noted)

lemma reported: "I st \<Longrightarrow> I (report_processing g aid st)"
proof -
  have fold: "I st \<Longrightarrow> I (fold (\<lambda>_. emit_event e a) xs st)" for e a and xs :: "'b list" and st
    by (induction xs arbitrary: st) (auto intro: emitted)
  show "I st \<Longrightarrow> I (report_processing g aid st)"
    unfolding report_processing_def Let_def by (auto intro!: fold emitted)
qed

lemma followed_processing: "I st \<Longrightarrow> I (snd (after_processing le p ob g st))"
  unfolding after_processing_def Let_def
  by (cases "pg_evaluation g") (auto intro!: bound settles committed recovered reported emitted)

lemma observed: "I st \<Longrightarrow> I (snd (observe_outcome le p ob st))"
proof -
  assume I: "I st"
  obtain r ps where pr: "process (le_components le) (le_dumps le) (en_now (le_exec le (tick st))) ob (Some p) (processing_view st) = (r, ps)"
    by fastforce
  then have "I (put_processing ps st)" using processed [OF I] by (metis snd_conv)
  then show ?thesis unfolding observe_outcome_def pr
    by (auto intro!: bound settles I recovered followed_processing split: sum.splits process_error.splits)
qed

lemma followed: "I st \<Longrightarrow> I (snd (follow_outcome le a st))"
  unfolding follow_outcome_def by (cases a) (auto intro!: bound settles observed)

lemma validated: "I st \<Longrightarrow> I (snd (validate_decision le d caps contracts all st))"
  unfolding validate_decision_def
  by (auto intro!: bound settles emitted split: option.splits)

lemma usage_recorded: "I st \<Longrightarrow> I (snd (record_usage le u st))"
  unfolding record_usage_def Let_def
  by (auto intro!: bound settles emitted spent split: option.splits)

lemma gathered: "I st \<Longrightarrow> I (snd (decision_inputs_of le caps contracts st))"
  using looked [of st "le_dumps le" "as_session_id (the_state st)"]
  by (auto simp: decision_inputs_of_def Let_def split: prod.splits)

end

locale step_invariant = quiet_invariant +
  assumes acted: "I st \<Longrightarrow> I (snd (act le d pending remember st))"
begin

lemma driven: "I st \<Longrightarrow> I (snd (drive le n d p rem st))"
proof (induction n arbitrary: d p rem st)
  case 0
  then show ?case by (auto intro!: bound settles)
next
  case (Suc n)
  then show ?case
    by (auto intro!: bound controlled acted followed split: option.splits step.splits)
qed

lemma applied: "I st \<Longrightarrow> I (snd (apply_decision le d st))"
  unfolding apply_decision_def Let_def by (cases "d_type d") (auto intro!: bound settles driven)

lemma used: "I st \<Longrightarrow> I (snd (use_decision le deadline d u caps contracts all st))"
  unfolding use_decision_def Let_def
  by (auto intro!: bound usage_recorded emitted expired validated applied split: option.splits)

lemma decided: "I st \<Longrightarrow> I (snd (decide_iteration le deadline st))"
proof -
  assume I: "I st"
  obtain all_caps all_contracts where c: "capability_context (rt_registry (le_components le)) (rt_tools (le_components le)) = (all_caps, all_contracts)"
    by fastforce
  obtain caps contracts where k: "constrain_capability_context (the_state st) all_caps all_contracts = (caps, contracts)"
    by fastforce
  obtain inp st1 where i: "decision_inputs_of le caps contracts st = (inp, st1)" by fastforce
  have "I st1" using gathered [OF I, of caps contracts] i by simp
  then show "I (snd (decide_iteration le deadline st))"
    unfolding decide_iteration_def c k i Let_def prod.case
    by (auto intro!: bound settles used simp del: decide_with_retry.simps split: sum.split)
qed

end

subsection \<open>What the executor does to a session\<close>

text \<open>The part of a session that no execution touches.\<close>

definition core :: "session \<Rightarrow> session" where
  "core = update_state (\<lambda>s. s\<lparr>as_observations := [], as_pending_action := None, as_approved_fingerprints := []\<rparr>)"

lemma core_on_state:
  "(\<And>s. f s\<lparr>as_observations := [], as_pending_action := None, as_approved_fingerprints := []\<rparr>
      = s\<lparr>as_observations := [], as_pending_action := None, as_approved_fingerprints := []\<rparr>)
    \<Longrightarrow> core (xe_session (on_state f x)) = core (xe_session x)"
  by (simp add: core_def on_state_def update_state_def)

lemma core_set_pending: "core (xe_session (set_pending p x)) = core (xe_session x)"
  unfolding set_pending_def by (rule core_on_state) simp

lemma core_observe: "core (xe_session (snd (observe env p r x))) = core (xe_session x)"
  unfolding observe_def Let_def by (simp add: exec_simps) (rule core_on_state, simp)

lemma core_remember: "core (xe_session (on_state (remember_approval k) x)) = core (xe_session x)"
  by (rule core_on_state) (simp add: remember_approval_def Let_def)

lemma core_reconcile_loop: "core (xe_session (snd (reconcile_loop env rs p c d v x))) = core (xe_session x)"
proof (induction rs arbitrary: x)
  case (Cons r rs)
  show ?case
    by (auto simp: Let_def split_def core_observe exec_simps Cons.IH split: reconcile_answer.splits)
qed simp

lemma core_reconcile_required: "core (xe_session (snd (reconcile_required env p c d x))) = core (xe_session x)"
proof -
  have "core (xe_session (snd (reconcile_action env p c d x))) = core (xe_session x)"
    unfolding reconcile_action_def by (rule core_reconcile_loop)
  then show ?thesis
    by (auto simp: reconcile_required_def core_observe exec_simps split: prod.splits option.splits)
qed

lemma core_release: "core (xe_session (release_lock l x)) = core (xe_session x)"
  by (simp add: release_lock_def exec_simps split: option.splits)

lemma core_acquire: "core (xe_session (snd (acquire_lock p x))) = core (xe_session x)"
  using acquire_lock_cases [of p x "fst (acquire_lock p x)" "snd (acquire_lock p x)"] by simp

lemma core_invoke: "core (xe_session (snd (invoke env p x))) = core (xe_session x)"
  by (auto simp: invoke_def Let_def split_def core_observe exec_simps split: sum.splits)

lemma core_run_locked: "core (xe_session (snd (run_locked env p c d a x))) = core (xe_session x)"
  by (auto simp: run_locked_def Let_def core_reconcile_required split_def core_remember core_invoke exec_simps
      split: option.splits)

lemmas core_steps = core_set_pending core_reconcile_required core_release core_run_locked

lemma core_acquired: "acquire_lock p x = (a, y) \<Longrightarrow> core (xe_session y) = core (xe_session x)"
  using core_acquire [of p x] by simp

lemma core_stages:
  "core (xe_session (snd (execute_fresh env p c d a x))) = core (xe_session x)"
  "core (xe_session (snd (execute_duplicate env p c d x))) = core (xe_session x)"
  "core (xe_session (snd (execute_confirm p m x))) = core (xe_session x)"
proof -
  obtain b y where y: "acquire_lock p (set_pending None x) = (b, y)" by fastforce
  then have cy: "core (xe_session y) = core (xe_session x)" using core_acquired core_set_pending by metis
  show "core (xe_session (snd (execute_fresh env p c d a x))) = core (xe_session x)"
    unfolding execute_fresh_def y using cy by (cases b) (simp_all add: split_def core_steps)
  show "core (xe_session (snd (execute_duplicate env p c d x))) = core (xe_session x)"
    unfolding execute_duplicate_def y using cy by (cases b) (simp_all add: split_def core_steps exec_simps Let_def)
  obtain b' z where z: "acquire_lock p x = (b', z)" by fastforce
  show "core (xe_session (snd (execute_confirm p m x))) = core (xe_session x)"
    unfolding execute_confirm_def z using core_acquired [OF z] by (cases b') (simp_all add: core_steps)
qed

lemma core_refused:
  "check_sandbox env d p x = (o1, y) \<Longrightarrow> core (xe_session y) = core (xe_session x)"
  "check_resource_version p x = (o2, y) \<Longrightarrow> core (xe_session y) = core (xe_session x)"
  using check_sandbox_cases check_version_cases by (metis, metis)

lemma core_execute_checked: "core (xe_session (snd (execute_checked env p c d confirmed x))) = core (xe_session x)"
proof -
  let ?x = "emit ''PolicyChecked'' (pa_action_id p) x"
  obtain o1 y where y: "check_sandbox env d p ?x = (o1, y)" by fastforce
  obtain o2 z where z: "check_resource_version p y = (o2, z)" by fastforce
  have x: "core (xe_session ?x) = core (xe_session x)" by (simp add: exec_simps)
  note same = x core_refused(1) [OF y] core_refused(2) [OF z]
  show ?thesis unfolding execute_checked_def Let_def y
    by (cases o1; cases o2) (simp_all add: z core_stages same)
qed

lemma core_execute: "core (xe_session (snd (execute env p confirmed remember x))) = core (xe_session x)"
proof (cases "executable_action env p")
  case None
  show ?thesis by (subst execute_eq) (simp add: None)
next
  case (Some a)
  show ?thesis by (subst execute_eq) (simp add: Some core_execute_checked split: prod.split)
qed

lemma core_prepare: "core (xe_session (snd (prepare env d x))) = core (xe_session x)"
proof -
  obtain r y where y: "prepare env d x = (r, y)" by fastforce
  from prepare_cases [OF this] show ?thesis
  proof (elim disjE exE conjE)
    fix p x1 assume "execute env p False False x1 = (r, y)" "xe_session x1 = xe_session x"
    then show ?thesis using core_execute [of env p False False x1] y by simp
  qed (simp add: y)
qed

lemma core_act: "core (the_session (snd (act le d p rem st))) = core (the_session st)"
proof -
  have "core (xe_session (snd (case p of Some q \<Rightarrow> execute (exec_env_at le (tick st)) q True rem (rs_exec st)
      | None \<Rightarrow> (case d of None \<Rightarrow> (Inl (ExecRaised ''AssertionError''), rs_exec st)
         | Some e \<Rightarrow> prepare (exec_env_at le (tick st)) e (rs_exec st))))) = core (xe_session (rs_exec st))"
    by (auto simp: core_execute core_prepare split: option.splits)
  then show ?thesis
    by (auto simp: act_def the_session_def split_def split: sum.splits exec_error.splits)
qed

subsection \<open>What no step changes\<close>

text \<open>Who the session is and which iteration it is in.\<close>

definition fixed :: "agent_state \<Rightarrow> string \<times> nat \<times> bool \<times> bool \<times> string option" where
  "fixed st = (as_session_id st, as_iteration st, as_read_only st, as_is_continuation st, as_tenant_id st)"

lemma fixed_sync [simp]: "fixed (ss_state (sync_current_task s)) = fixed (ss_state s)"
  by (simp add: sync_current_task_def fixed_def)

lemma fixed_goal [simp]: "fixed (set_goal_status g st) = fixed st"
  by (simp add: set_goal_status_def fixed_def)

lemma fixed_mark [simp]: "fixed (ss_state (mark_current_task st s)) = fixed (ss_state s)"
  by (simp add: mark_current_task_def)

lemma fixed_complete [simp]: "fixed (ss_state (complete_current_task s)) = fixed (ss_state s)"
  by (simp add: complete_current_task_def)

lemma fixed_fields [simp]:
  "fixed (st\<lparr>as_termination_reason := a\<rparr>) = fixed st" "fixed (st\<lparr>as_error_code := b\<rparr>) = fixed st"
  "fixed (st\<lparr>as_pending_action := c\<rparr>) = fixed st" "fixed (st\<lparr>as_recovery_attempts := d\<rparr>) = fixed st"
  "fixed (add_usage u st) = fixed st" "fixed (note_evaluation ev st) = fixed st"
  by (simp_all add: fixed_def add_usage_def note_evaluation_def)

lemma fixed_fail: "fixed (ss_state (snd (fail_session c r s))) = fixed (ss_state s)"
  by (simp add: fail_session_def Let_def)

lemma fixed_transitions:
  "fixed (ss_state (snd (pause r m e a s))) = fixed (ss_state s)"
  "fixed (ss_state (snd (fail_session c r s))) = fixed (ss_state s)"
  "fixed (ss_state (snd (cancel_session_run r s))) = fixed (ss_state s)"
  "fixed (ss_state (snd (finish s))) = fixed (ss_state s)"
  by (simp_all add: pause_def cancel_session_run_def finish_def Let_def fixed_fail split: option.split)

lemma fixed_advance: "fixed (ss_state (snd (advance ev s))) = fixed (ss_state s)"
  by (simp add: advance_def Let_def start_next_task_def)

lemma fixed_judge: "fixed (ss_state (ps_session (snd (judge rt dumps now i ob es ps)))) = fixed (ss_state (ps_session ps))"
  by (simp add: judge_def Let_def split_def fixed_advance split: sum.split)

lemma fixed_process: "fixed (ss_state (ps_session (snd (process rt dumps now ob p ps)))) = fixed (ss_state (ps_session ps))"
  by (auto simp: process_def Let_def fixed_judge split: prod.split sum.split)

lemma core_parts: "fixed (ss_state (core s)) = fixed (ss_state s)" "ss_tasks (core s) = ss_tasks s"
  by (simp_all add: core_def fixed_def)

lemma core_same: "core s = core s' \<Longrightarrow> fixed (ss_state s) = fixed (ss_state s') \<and> ss_tasks s = ss_tasks s'"
  by (metis core_parts)

lemma session_views [simp]:
  "the_session (set_session s st) = s" "the_session (set_state f st) = update_state f (the_session st)"
  "the_session (emit_event e a st) = the_session st" "the_session (st\<lparr>rs_memory := mem\<rparr>) = the_session st"
  "the_session (st\<lparr>rs_world := w\<rparr>) = the_session st" "the_session (st\<lparr>rs_evidence := ev\<rparr>) = the_session st" "the_session (st\<lparr>rs_sessions := b\<rparr>) = the_session st"
  "the_session (st\<lparr>rs_states := l\<rparr>) = the_session st" "the_session (put_processing ps st) = ps_session ps"
  "ps_session (processing_view st) = the_session st"
  by (simp_all add: the_session_def set_session_def the_state_def set_state_def emit_event_def put_processing_def
      processing_view_def exec_simps)

lemma saved_session: "\<exists>v. the_session (snd (save_snapshot b st)) = (sync_current_task (the_session st))\<lparr>ss_version := v\<rparr>"
proof -
  have "\<exists>v. sync_current_task (the_session st) = (sync_current_task (the_session st))\<lparr>ss_version := v\<rparr>"
    by (rule exI [of _ "ss_version (sync_current_task (the_session st))"]) simp
  then show ?thesis
    by (auto simp: save_snapshot_def Let_def set_version_def split: option.split sum.split prod.split)
qed

lemma released_session: "the_session (release_waiting tr st) = the_session st
    \<or> the_session (release_waiting tr st) = update_state (\<lambda>s. s\<lparr>as_pending_action := None\<rparr>) (the_session st)"
  by (auto simp: release_waiting_def Let_def the_session_def set_state_def set_session_def release_pending_resource_def
      exec_simps split: option.split)

text \<open>The first interpretation: no step of the loop touches those fields.\<close>

interpretation fixing: step_invariant le "\<lambda>st. fixed (ss_state (the_session st)) = f" for le f
proof unfold_locales
  fix b st assume "fixed (ss_state (the_session st)) = f"
  then show "fixed (ss_state (the_session (snd (save_snapshot b st)))) = f"
    using saved_session [of b st] by auto
next
  fix tr st assume "fixed (ss_state (the_session st)) = f"
  then show "fixed (ss_state (the_session (release_waiting tr st))) = f"
    using released_session [of tr st] by auto
next
  fix d p rem st assume "fixed (ss_state (the_session st)) = f"
  then show "fixed (ss_state (the_session (snd (act le d p rem st)))) = f"
    using core_same [OF core_act [of le d p rem st]] by simp
qed (simp_all add: fixed_transitions fixed_process)

end
