(* ===== verification/Agent_Run.thy ===== *)
theory Agent_Run
  imports Loop_Frame Goal_Compiler
begin

text \<open>
  The operations of \<open>AgentRuntime\<close> on whole sessions (\<open>runtime/agent.py\<close>, \<open>reject_session\<close> of
  \<open>runtime/emission.py\<close>): the loop, starting a run, resuming, continuing, pausing and cancelling.

  One operation runs at a time. What other callers want from a running session reaches it through
  \<open>le_control\<close>; \<open>pause\<close> and \<open>cancel\<close> are given for a session that is not running, which is when
  they act themselves. A cancellation of the task is met while a tool runs (\<open>LoopCancelled\<close>).
  Identifiers of sessions are arguments, time limits are seconds on the monotonic clock.
\<close>

subsection \<open>The loop\<close>

definition iteration_of :: "runtime_state \<Rightarrow> nat" where
  "iteration_of st = as_iteration (the_state st)"

lemma iteration_of_fixed: "iteration_of st = fst (snd (fixed (ss_state (the_session st))))"
  by (simp add: iteration_of_def the_state_def fixed_def)

lemma begin_counts:
  assumes "begin_iteration st = (r, st')"
  shows "iteration_of st' = Suc (iteration_of st)"
proof -
  let ?st = "set_state (\<lambda>s. s\<lparr>as_iteration := as_iteration s + 1\<rparr>) st"
  have "iteration_of (snd (save_snapshot False ?st)) = Suc (iteration_of st)"
    using saved_session [of False ?st] by (auto simp: iteration_of_def the_state_def sync_current_task_def)
  then show ?thesis using assms
    by (auto simp: begin_iteration_def save_def bind_op_def iteration_of_def the_state_def split: prod.splits sum.splits)
qed

text \<open>What comes before and after the count is one of the steps that do not touch it.\<close>

lemma counts_same: "fixed (ss_state (the_session st)) = fixed (ss_state (the_session st')) \<Longrightarrow> iteration_of st = iteration_of st'"
  by (simp add: iteration_of_fixed)

lemma iteration_counts:
  assumes "iteration le deadline st = (Inr None, st')"
  shows "iteration_of st' = Suc (iteration_of st)"
proof -
  from assms obtain st1 where 1: "pause_if_expired le deadline st = (Inr None, st1)"
    by (auto simp: iteration_def bind_op_def split: prod.splits sum.splits option.splits)
  with assms obtain st2 where 2: "requested le st1 = (Inr None, st2)"
    by (auto simp: iteration_def bind_op_def split: prod.splits sum.splits option.splits)
  with assms 1 obtain st3 where 3: "begin_iteration st2 = (Inr (), st3)"
    by (auto simp: iteration_def bind_op_def split: prod.splits sum.splits option.splits)
  with assms 1 2 have 4: "decide_iteration le deadline st3 = (Inr None, st')"
    by (simp add: iteration_def)
  have "iteration_of st1 = iteration_of st"
    using fixing.expired [OF refl, of le deadline st] 1 by (intro counts_same) simp
  moreover have "iteration_of st2 = iteration_of st1"
    using fixing.controlled [OF refl, of le st1] 2 by (intro counts_same) simp
  moreover have "iteration_of st' = iteration_of st3"
    using fixing.decided [OF refl, of le deadline st3] 4 by (intro counts_same) simp
  ultimately show ?thesis using begin_counts [OF 3] by simp
qed

function loop :: "loop_env \<Rightarrow> rat option \<Rightarrow> runtime_state \<Rightarrow> execution_result run" where
  "loop le deadline st =
     (if iteration_of st < le_max_iterations le
      then (case iteration le deadline st of
          (Inl e, st') \<Rightarrow> (Inl e, st')
        | (Inr (Some x), st') \<Rightarrow> (Inr x, st')
        | (Inr None, st') \<Rightarrow> loop le deadline st')
      else settle_with le (fail_session ITERATION_LIMIT
        (''maximum iterations reached: '' @ show_nat (le_max_iterations le))) st)"
  by auto
termination
  by (relation "measure (\<lambda>(le, deadline, st). le_max_iterations le - iteration_of st)") (auto dest: iteration_counts [OF sym])

declare loop.simps [simp del]

text \<open>\<open>_continue_controlled\<close>, with the handler of the cancellation.\<close>

definition drive_and_loop :: "loop_env \<Rightarrow> rat option \<Rightarrow> decision option \<Rightarrow> pending_action option \<Rightarrow> bool
    \<Rightarrow> runtime_state \<Rightarrow> execution_result run" where
  "drive_and_loop le deadline decision pending remember st =
     bind_op (requested le st) (\<lambda>r st1. case r of Some x \<Rightarrow> (Inr x, st1)
       | None \<Rightarrow>
           if pending \<noteq> None \<or> decision \<noteq> None
           then bind_op (drive le (le_max_recovery_steps le) decision pending remember st1)
             (\<lambda>r' st2. case r' of Some x \<Rightarrow> (Inr x, st2) | None \<Rightarrow> loop le deadline st2)
           else loop le deadline st1)"

definition on_cancellation :: "loop_env \<Rightarrow> execution_result run \<Rightarrow> execution_result run" where
  "on_cancellation le r = (case r of
     (Inl LoopCancelled, st) \<Rightarrow> (case le_control le (tick st) of
         CancelRequest reason \<Rightarrow> settle_with le (cancel_session_run
           (if truthy reason then the reason else ''session cancelled'')) st
       | _ \<Rightarrow> r)
   | _ \<Rightarrow> r)"

definition continue_controlled :: "loop_env \<Rightarrow> rat option \<Rightarrow> decision option \<Rightarrow> pending_action option \<Rightarrow> bool
    \<Rightarrow> runtime_state \<Rightarrow> execution_result run" where
  "continue_controlled le deadline decision pending remember st =
     on_cancellation le (drive_and_loop le deadline decision pending remember st)"

subsection \<open>Starting a run\<close>

definition deadline_at :: "loop_env \<Rightarrow> rat option \<Rightarrow> runtime_state \<Rightarrow> rat option" where
  "deadline_at le timeout st = map_option (\<lambda>t. le_clock le (tick st) + t) timeout"

text \<open>The goal and its current task start to run.\<close>

definition set_running :: "runtime_state \<Rightarrow> runtime_state" where
  "set_running st = set_session (mark_current_task TaskRunning (update_state (set_goal_status GoalRunning) (the_session st))) st"

definition primary_metadata :: "loop_env \<Rightarrow> domain_metadata" where
  "primary_metadata le = dm_metadata (ad_manifest (hd (rt_composition (le_components le))))"

record run_request =
  rr_session_id :: string
  rr_facts :: "seed_fact list"
  rr_entities :: "seed_entity list"
  rr_read_only :: bool
  rr_timeout :: "rat option"
  rr_tenant_id :: "string option"

definition first_state :: "run_request \<Rightarrow> goal \<Rightarrow> task \<Rightarrow> task_manager option \<Rightarrow> agent_state" where
  "first_state rq g t tasks = (fresh_state (rr_session_id rq) g t (rr_read_only rq))
     \<lparr>as_tenant_id := rr_tenant_id rq, as_tasks := (case tasks of Some m \<Rightarrow> all_tasks m | None \<Rightarrow> [t])\<rparr>"

text \<open>The session is set up and stored.\<close>

definition create_run :: "loop_env \<Rightarrow> run_request \<Rightarrow> goal \<Rightarrow> task \<Rightarrow> task_manager option \<Rightarrow> runtime_state \<Rightarrow> unit run" where
  "create_run le rq g t tasks st =
     (let md = primary_metadata le;
          (s, stores) = start_session (first_state rq g t tasks) tasks (md_name md) (md_version md)
            (identities_of (rt_composition (le_components le))) (rs_evidence st, rs_world st);
          st1 = set_session (sync_current_task s) (st\<lparr>rs_evidence := fst stores, rs_world := snd stores\<rparr>)
      in case session_to_snapshot (rs_evidence st1) s of
           None \<Rightarrow> (Inl (LoopRaised ''KeyError''), st1)
         | Some sn \<Rightarrow> (case create_session sn (rs_sessions st1) of
             (Inl e, sessions) \<Rightarrow> (Inl (LoopRaised (store_error_text e)), st1\<lparr>rs_sessions := sessions\<rparr>)
           | (Inr v, sessions) \<Rightarrow> (Inr (), st1\<lparr>rs_sessions := sessions\<rparr>)))"

definition seed_run :: "loop_env \<Rightarrow> run_request \<Rightarrow> runtime_state \<Rightarrow> unit run" where
  "seed_run le rq st =
     (case seed_initial_state (le_dumps le) (as_session_id (the_state st)) (en_now (le_exec le (tick st)))
         (rr_facts rq) (rr_entities rq) (rs_evidence st, rs_world st) of
        (r, (store, w)) \<Rightarrow> (map_error LoopRaised r, st\<lparr>rs_evidence := store, rs_world := w\<rparr>))"

definition announce_run :: "bool \<Rightarrow> runtime_state \<Rightarrow> runtime_state" where
  "announce_run compiled st =
     (let st1 = emit_event ''DomainActivated'' [] st;
          st2 = (if compiled then emit_event ''GoalCompiled'' [] st1 else st1);
          st3 = emit_event ''GoalCreated'' [] st2
      in fold (\<lambda>_. emit_event ''TaskCreated'' []) (all_tasks (ss_tasks (the_session st3))) st3)"

definition start_run :: "loop_env \<Rightarrow> run_request \<Rightarrow> goal \<Rightarrow> task \<Rightarrow> task_manager option \<Rightarrow> bool \<Rightarrow> runtime_state
    \<Rightarrow> execution_result run" where
  "start_run le rq g t tasks compiled st =
     bind_op (create_run le rq g t tasks st) (\<lambda>_ st1.
     bind_op (seed_run le rq st1) (\<lambda>_ st2.
     bind_op (commit ''StateUpdated'' [] (set_running (announce_run compiled st2))) (\<lambda>_ st3.
       continue_controlled le (deadline_at le (rr_timeout rq) st3) None None False st3)))"

text \<open>\<open>_run_compilation\<close>, and \<open>run_compiled\<close> with the default compiler.\<close>

definition run_compilation :: "loop_env \<Rightarrow> run_request \<Rightarrow> goal \<Rightarrow> goal_compilation \<Rightarrow> runtime_state \<Rightarrow> execution_result run" where
  "run_compilation le rq g c st =
     (case from_specs (en_now (le_exec le (tick st))) (gc_initial_tasks c) of
        Inl e \<Rightarrow> (Inl (LoopRaised (task_error_text e)), st)
      | Inr m \<Rightarrow> (case current_task m of
          Inl e \<Rightarrow> (Inl (LoopRaised (task_error_text e)), st)
        | Inr t \<Rightarrow> start_run le rq g t (Some m) True st))"

definition run_compiled :: "loop_env \<Rightarrow> run_request \<Rightarrow> goal \<Rightarrow> runtime_state \<Rightarrow> execution_result run" where
  "run_compiled le rq g st = run_compilation le rq g (goal_compile True g) st"

subsection \<open>Opening a stored session\<close>

definition load :: "string \<Rightarrow> runtime_state \<Rightarrow> session_snapshot run" where
  "load sid st =
     (case load_session sid (rs_sessions st) of
        Inr sn \<Rightarrow> (Inr sn, st)
      | Inl e \<Rightarrow> (case filter (\<lambda>sn. snapshot_id sn = sid) (case rs_states st of None \<Rightarrow> [] | Some l \<Rightarrow> l) of
          [] \<Rightarrow> (Inl (LoopRaised (store_error_text e)), st)
        | sns \<Rightarrow> (Inr (last sns), st)))"

text \<open>\<open>hydrate_session\<close> on the stores of the runtime; \<open>Inl\<close> is a \<open>SessionHydrationError\<close>.\<close>

definition hydrate :: "loop_env \<Rightarrow> session_snapshot \<Rightarrow> runtime_state \<Rightarrow> (string + unit) run" where
  "hydrate le sn st =
     (let rt = le_components le; md = primary_metadata le in
      case hydrate_session sn (identities_of (rt_composition rt)) (md_name md) (md_version md) of
        Inl e \<Rightarrow> (Inr (Inl e), st)
      | Inr s \<Rightarrow> (case hydrate_stores (updaters_for_evidence rt) sn (rs_evidence st, rs_world st) of
          (Inl e, (store, w)) \<Rightarrow> (Inl (LoopRaised e), st\<lparr>rs_evidence := store, rs_world := w\<rparr>)
        | (Inr _, (store, w)) \<Rightarrow> (Inr (Inr ()), set_session s (st\<lparr>rs_evidence := store, rs_world := w\<rparr>))))"

text \<open>\<open>reject_session\<close>: the session is failed in the store, without evidence and with a single task.\<close>

definition rejected_snapshot :: "string \<Rightarrow> session_snapshot \<Rightarrow> session_snapshot" where
  "rejected_snapshot reason sn =
     (let a = sn_state sn; t = (as_current_task a)\<lparr>t_status := TaskFailed\<rparr>;
          a' = (set_goal_status GoalFailed a)\<lparr>as_current_task := t, as_tasks := [t],
            as_termination_reason := Some reason, as_error_code := Some INVALID_STATE\<rparr>
      in (session_from_state a' (sn_domain_name sn) (sn_domain_version sn) (snapshot_domains sn))
           \<lparr>sn_version := sn_version sn\<rparr>)"

definition reject_session :: "string \<Rightarrow> session_snapshot \<Rightarrow> runtime_state \<Rightarrow> execution_result run" where
  "reject_session reason sn st =
     (let failed = rejected_snapshot reason sn in
      case save_session failed (rs_sessions st) of
        (Inl e, sessions) \<Rightarrow> (Inl (LoopRaised (store_error_text e)), st\<lparr>rs_sessions := sessions\<rparr>)
      | (Inr v, sessions) \<Rightarrow> (Inr (build_result (sn_state failed) ExecFailed reason (Some INVALID_STATE) None),
          emit_event ''GoalFailed'' [] (st\<lparr>rs_sessions := sessions\<rparr>)))"

definition with_session :: "loop_env \<Rightarrow> string \<Rightarrow> (runtime_state \<Rightarrow> execution_result run) \<Rightarrow> runtime_state \<Rightarrow> execution_result run" where
  "with_session le sid f st =
     bind_op (load sid st) (\<lambda>sn st1. bind_op (hydrate le sn st1) (\<lambda>r st2. case r of
        Inl reason \<Rightarrow> reject_session reason sn st2
      | Inr _ \<Rightarrow> f st2))"

definition refuse :: "string \<Rightarrow> runtime_state \<Rightarrow> execution_result run" where
  "refuse reason st = (Inr (build_result (the_state st) ExecFailed reason (Some INVALID_STATE) None), st)"

definition the_goal_status :: "runtime_state \<Rightarrow> goal_status" where
  "the_goal_status st = g_status (as_goal (the_state st))"

definition clear_reason :: "runtime_state \<Rightarrow> runtime_state" where
  "clear_reason st = set_state (\<lambda>s. s\<lparr>as_termination_reason := None\<rparr>) st"

subsection \<open>\<open>resume\<close>\<close>

text \<open>The user has rejected the pending action: its lock is given back and recovery is planned.\<close>

definition resume_rejected :: "loop_env \<Rightarrow> pending_action \<Rightarrow> runtime_state \<Rightarrow> execution_result run" where
  "resume_rejected le p st =
     (let st1 = set_state (\<lambda>s. s\<lparr>as_pending_action := None\<rparr>) (clear_reason (set_running st));
          st2 = st1\<lparr>rs_exec := release_pending_resource p (rs_exec st1)\<rparr>
      in bind_op (plan_recovery le p (failure_of st2 p CONFIRMATION_REJECTED ''user rejected pending action'') st2)
           (\<lambda>r st3. case r of
              StepDecision d \<Rightarrow> continue_controlled le None (Some d) None False st3
            | StepResult x \<Rightarrow> (Inr x, st3)
            | StepContinue \<Rightarrow> (Inl (LoopRaised ''unreachable''), st3)))"

definition resume_open :: "loop_env \<Rightarrow> bool option \<Rightarrow> bool \<Rightarrow> runtime_state \<Rightarrow> execution_result run" where
  "resume_open le confirmed remember st =
     (let pending = as_pending_action (the_state st) in
      if the_goal_status st \<noteq> GoalWaiting then refuse ''session is not waiting'' st
      else if pending = None \<and> confirmed \<noteq> None then
        refuse ''no pending action to confirm; session is waiting for user input, not for action confirmation'' st
      else if pending \<noteq> None \<and> confirmed = None then
        settle_with le (fail_session INVALID_STATE ''resume requires confirmation for pending action'') st
      else if pending \<noteq> None \<and> confirmed = Some False then resume_rejected le (the pending) st
      else bind_op (commit ''SessionResumed'' [] (clear_reason (set_running st)))
        (\<lambda>_ st1. continue_controlled le None None pending remember st1))"

definition resume :: "loop_env \<Rightarrow> string \<Rightarrow> bool option \<Rightarrow> bool \<Rightarrow> runtime_state \<Rightarrow> execution_result run" where
  "resume le sid confirmed remember st = with_session le sid (resume_open le confirmed remember) st"

subsection \<open>\<open>continue_session\<close>\<close>

definition followup_spec :: "string \<Rightarrow> task_manager \<Rightarrow> task_spec" where
  "followup_spec message m = \<lparr>ts_key = ''user-followup-'' @ show_nat (length (all_tasks m) + 1), ts_description = message,
     ts_required_criteria = [], ts_depends_on = [], ts_task_id = None\<rparr>"

text \<open>The session as it is when the follow-up task has become the current one.\<close>

definition continued_state :: "task \<Rightarrow> agent_state \<Rightarrow> agent_state" where
  "continued_state t s = (set_goal_status GoalRunning s)\<lparr>as_current_task := t, as_iteration := 0,
     as_termination_reason := None, as_error_code := None, as_is_continuation := True\<rparr>"

definition continue_open :: "loop_env \<Rightarrow> string \<Rightarrow> rat option \<Rightarrow> runtime_state \<Rightarrow> execution_result run" where
  "continue_open le message timeout st =
     (if the_goal_status st = GoalRunning then refuse ''session is already running'' st
      else if the_goal_status st = GoalWaiting then refuse ''session is waiting for confirmation; use resume'' st
      else case parse_non_empty_string message ''message'' of
        Inl e \<Rightarrow> (Inl (LoopRaised e), st)
      | Inr text \<Rightarrow> (let s = the_session st in
          case expand (en_now (le_exec le (tick st))) [followup_spec text (ss_tasks s)] (ss_tasks s) of
            (Inl e, m) \<Rightarrow> (Inl (LoopRaised (task_error_text e)), set_session (s\<lparr>ss_tasks := m\<rparr>) st)
          | (Inr [], m) \<Rightarrow> (Inl (LoopRaised ''IndexError''), set_session (s\<lparr>ss_tasks := m\<rparr>) st)
          | (Inr (t # _), m) \<Rightarrow>
              (case set_current (t_id t) m of
                 (Inl e, m') \<Rightarrow> (Inl (LoopRaised (task_error_text e)), set_session (s\<lparr>ss_tasks := m'\<rparr>) st)
               | (Inr _, m') \<Rightarrow>
                   (let st1 = set_session (mark_current_task TaskRunning
                          (update_state (continued_state t) (s\<lparr>ss_tasks := m'\<rparr>))) st
                    in bind_op (commit ''SessionContinued'' [] st1)
                      (\<lambda>_ st2. continue_controlled le (deadline_at le timeout st2) None None False st2)))))"

definition continue_session :: "loop_env \<Rightarrow> string \<Rightarrow> string \<Rightarrow> rat option \<Rightarrow> runtime_state \<Rightarrow> execution_result run" where
  "continue_session le sid message timeout st = with_session le sid (continue_open le message timeout) st"

subsection \<open>\<open>pause\<close> and \<open>cancel\<close>\<close>

definition session_ended :: "runtime_state \<Rightarrow> bool" where
  "session_ended st \<longleftrightarrow> the_goal_status st \<in> {GoalCompleted, GoalFailed, GoalCancelled}"

definition pause_session :: "loop_env \<Rightarrow> string \<Rightarrow> string \<Rightarrow> runtime_state \<Rightarrow> execution_result run" where
  "pause_session le sid reason st = with_session le sid (\<lambda>st1.
     if session_ended st1 then refuse ''cannot pause a terminal session'' st1
     else settle_with le (pause reason None ''SessionPaused'' None) st1) st"

definition cancel_stored_session :: "loop_env \<Rightarrow> string \<Rightarrow> string \<Rightarrow> runtime_state \<Rightarrow> execution_result run" where
  "cancel_stored_session le sid reason st = with_session le sid (\<lambda>st1.
     if session_ended st1 then refuse ''cannot cancel a terminal session'' st1
     else settle_with le (cancel_session_run reason) st1) st"

end
