(* ===== verification/Run_Safety.thy ===== *)
theory Run_Safety
  imports Agent_Run
begin

text \<open>
  What holds over whole runs. A predicate of the runtime state that every step of the loop keeps, and
  that survives the few other things the operations do to a session, is kept by every operation,
  however it ends; \<open>run_invariant\<close> says so of runs, \<open>runtime_invariant\<close> of all operations, and the invariants interpret it. The operations of
  callers are the events of a runtime, so the invariants hold over any sequence of them.
\<close>

subsection \<open>Operations keep what the steps keep\<close>

text \<open>The operations callers have.\<close>

datatype runtime_op = OpRun run_request goal task | OpRunCompilation run_request goal goal_compilation
  | OpResume string "bool option" bool | OpContinue string string "rat option" | OpPause string string | OpCancel string string

fun perform :: "loop_env \<Rightarrow> runtime_op \<Rightarrow> runtime_state \<Rightarrow> execution_result run" where
  "perform le (OpRun rq g t) st = start_run le rq g t None False st"
| "perform le (OpRunCompilation rq g c) st = run_compilation le rq g c st"
| "perform le (OpResume sid confirmed remember) st = resume le sid confirmed remember st"
| "perform le (OpContinue sid message timeout) st = continue_session le sid message timeout st"
| "perform le (OpPause sid reason) st = pause_session le sid reason st"
| "perform le (OpCancel sid reason) st = cancel_stored_session le sid reason st"

locale run_invariant = step_invariant +
  assumes counted: "I st \<Longrightarrow> I (set_state (\<lambda>s. s\<lparr>as_iteration := f s\<rparr>) st)"
    and started: "I st \<Longrightarrow> I (set_running st)"
    and created: "I st \<Longrightarrow> (\<forall>m. tasks = Some m \<longrightarrow> graph_ok m) \<Longrightarrow> I (snd (create_run le rq g t tasks st))"
    and seeded: "I st \<Longrightarrow> I (snd (seed_run le rq st))"
begin

lemma iterated: "I st \<Longrightarrow> I (snd (iteration le deadline st))"
  unfolding iteration_def begin_iteration_def save_def
  by (auto intro!: bound expired controlled saved counted emitted decided split: option.splits)

lemma looped: "I st \<Longrightarrow> I (snd (loop le deadline st))"
proof (induction "le_max_iterations le - iteration_of st" arbitrary: st rule: less_induct)
  case less
  show ?case
  proof (cases "iteration_of st < le_max_iterations le")
    case False
    then show ?thesis using less.prems by (subst loop.simps) (simp add: settles)
  next
    case True
    obtain r st' where it: "iteration le deadline st = (r, st')" by fastforce
    have I': "I st'" using iterated [OF less.prems, of deadline] it by simp
    show ?thesis
    proof (cases "r = Inr None")
      case True
      then have "iteration_of st' = Suc (iteration_of st)" using it by (intro iteration_counts) simp
      then have "I (snd (loop le deadline st'))" using \<open>iteration_of st < le_max_iterations le\<close> I'
        by (intro less.hyps) auto
      then show ?thesis using it True \<open>iteration_of st < le_max_iterations le\<close> by (subst loop.simps) simp
    next
      case False
      then show ?thesis using it I' \<open>iteration_of st < le_max_iterations le\<close>
        by (subst loop.simps) (auto split: sum.split option.split)
    qed
  qed
qed

lemma driven_and_looped: "I st \<Longrightarrow> I (snd (drive_and_loop le deadline decision pending remember st))"
  unfolding drive_and_loop_def by (auto intro!: bound controlled driven looped split: option.splits)

lemma under_control: "I st \<Longrightarrow> I (snd (continue_controlled le deadline decision pending remember st))"
  using driven_and_looped [of st deadline decision pending remember]
  by (auto simp: continue_controlled_def on_cancellation_def intro!: settles
      split: prod.splits sum.splits loop_error.splits control_request.splits)

lemma announced: "I st \<Longrightarrow> I (announce_run c st)"
proof -
  have fold: "I st \<Longrightarrow> I (fold (\<lambda>_. emit_event e a) xs st)" for e a and xs :: "task list" and st
    by (induction xs arbitrary: st) (auto intro: emitted)
  show "I st \<Longrightarrow> I (announce_run c st)"
    unfolding announce_run_def Let_def by (auto intro!: fold emitted)
qed

lemma run_started: "I st \<Longrightarrow> (\<forall>m. tasks = Some m \<longrightarrow> graph_ok m) \<Longrightarrow> I (snd (start_run le rq g t tasks c st))"
  unfolding start_run_def by (auto intro!: bound created seeded committed started announced under_control)

lemma compiled: "I st \<Longrightarrow> I (snd (run_compilation le rq g c st))"
  unfolding run_compilation_def using from_specs_ok
  by (auto intro!: run_started simp: graph_ok_def split: sum.split)

end

locale runtime_invariant = run_invariant +
  assumes cleared: "I st \<Longrightarrow> I (set_state (\<lambda>s. s\<lparr>as_termination_reason := None\<rparr>) st)"
    and withdrawn: "I st \<Longrightarrow> I (set_state (\<lambda>s. s\<lparr>as_pending_action := None\<rparr>) st)"
    and returned: "I st \<Longrightarrow> I (st\<lparr>rs_exec := release_pending_resource p (rs_exec st)\<rparr>)"
    and hydrated: "I st \<Longrightarrow> I (snd (hydrate le sn st))"
    and rejected: "I st \<Longrightarrow> I (snd (reject_session reason sn st))"
    and grown: "I st \<Longrightarrow> expand now specs (ss_tasks (the_session st)) = (r, m) \<Longrightarrow> set_current k m = (r', m')
      \<Longrightarrow> I (set_session ((the_session st)\<lparr>ss_tasks := m\<rparr>) st) \<and> I (set_session ((the_session st)\<lparr>ss_tasks := m'\<rparr>) st)
        \<and> I (set_session (mark_current_task TaskRunning (update_state (continued_state t') ((the_session st)\<lparr>ss_tasks := m'\<rparr>))) st)"
begin

lemma loaded_same: "snd (load sid st) = st"
  by (auto simp: load_def split: sum.split list.split)

lemma opened:
  assumes "I st" and f: "\<And>st. I st \<Longrightarrow> I (snd (f st))"
  shows "I (snd (with_session le sid f st))"
  unfolding with_session_def
proof (rule bound)
  show "I (snd (load sid st))" using assms(1) by (simp add: loaded_same)
  fix sn st1 assume "I st1"
  then show "I (snd (bind_op (hydrate le sn st1) (\<lambda>r st2. case r of Inl reason \<Rightarrow> reject_session reason sn st2 | Inr _ \<Rightarrow> f st2)))"
    by (rule bound [OF hydrated]) (simp split: sum.split add: rejected f)
qed

lemma refused_same: "I st \<Longrightarrow> I (snd (refuse reason st))"
  by (simp add: refuse_def)

lemma resumed: "I st \<Longrightarrow> I (snd (resume_open le confirmed remember st))"
  unfolding resume_open_def resume_rejected_def clear_reason_def Let_def
  by (auto intro!: bound refused_same settles recovered committed started cleared withdrawn returned under_control
      split: step.splits)

lemma grown_only:
  assumes "I st" and "expand now specs (ss_tasks (the_session st)) = (r, m)"
  shows "I (set_session ((the_session st)\<lparr>ss_tasks := m\<rparr>) st)"
  using grown [OF assms, of "[]" "fst (set_current [] m)" "snd (set_current [] m)"] by simp

lemma continued: "I st \<Longrightarrow> I (snd (continue_open le message timeout st))"
  unfolding continue_open_def Let_def
  by (auto intro!: bound refused_same committed under_control simp: grown grown_only
      split: sum.splits prod.splits list.splits)

lemma performed: "I st \<Longrightarrow> I (snd (perform le op st))"
  by (cases op) (auto simp: resume_def continue_session_def pause_session_def cancel_stored_session_def
      intro!: run_started compiled opened resumed continued refused_same settles)

end

subsection \<open>Interpretations\<close>

text \<open>What the executor remembers of the tools that ran; only an action adds to it.\<close>

definition trail :: "runtime_state \<Rightarrow> (tool_call \<times> side_effect \<times> observation_status option) list \<times> idempotency_store" where
  "trail st = (xe_runs (rs_exec st), xe_seen (rs_exec st))"

lemma trail_steps [simp]:
  "trail (set_session s st) = trail st" "trail (set_state f st) = trail st" "trail (emit_event e a st) = trail st"
  "trail (st\<lparr>rs_memory := mem\<rparr>) = trail st" "trail (st\<lparr>rs_world := w\<rparr>) = trail st"
  "trail (st\<lparr>rs_sessions := b\<rparr>) = trail st" "trail (st\<lparr>rs_states := l\<rparr>) = trail st"
  "trail (st\<lparr>rs_evidence := ev\<rparr>) = trail st" "trail (put_processing ps st) = trail st"
  "trail (st\<lparr>rs_exec := release_pending_resource p (rs_exec st)\<rparr>) = trail st"
  "trail (set_running st) = trail st"
  by (simp_all add: trail_def set_session_def set_state_def emit_event_def put_processing_def set_running_def
      release_pending_resource_def exec_simps)

lemma trail_saved [simp]: "trail (snd (save_snapshot b st)) = trail st"
  by (auto simp: save_snapshot_def Let_def split: option.split sum.split prod.split)

lemma trail_released [simp]: "trail (release_waiting tr st) = trail st"
proof (cases "as_pending_action (the_state st)")
  case (Some p)
  let ?st = "set_state (\<lambda>s. s\<lparr>as_pending_action := None\<rparr>) st"
  have "trail (?st\<lparr>rs_exec := release_pending_resource p (rs_exec ?st)\<rparr>) = trail st" by simp
  with Some show ?thesis by (simp add: release_waiting_def Let_def)
qed (simp add: release_waiting_def)

lemma trail_opened [simp]:
  "trail (snd (hydrate le sn st)) = trail st" "trail (snd (reject_session reason sn st)) = trail st"
  "trail (snd (create_run le rq g t tasks st)) = trail st" "trail (snd (seed_run le rq st)) = trail st"
  by (auto simp: hydrate_def reject_session_def create_run_def seed_run_def Let_def split: sum.split option.split prod.split)

interpretation trailing: quiet_invariant le "\<lambda>st. trail st = t" for le t
  by unfold_locales simp_all

text \<open>At most one success of a side effect under each idempotency key.\<close>

lemma once_trail: "trail st = trail st' \<Longrightarrow> once_inv (rs_exec st) = once_inv (rs_exec st')"
  by (rule once_inv_same) (simp_all add: trail_def)

lemmas once_steps = trail_steps [THEN once_trail] trail_saved [THEN once_trail] trail_released [THEN once_trail]
  trail_opened [THEN once_trail]

lemma once_act:
  assumes "tools_wf (rt_tools (le_components le))" and "once_inv (rs_exec st)"
  shows "once_inv (rs_exec (snd (act le d p rem st)))"
proof -
  have "once_inv (snd (execute (exec_env_at le (tick st)) q True rem (rs_exec st)))" for q
    using once_inv_step [of "rs_exec st" "EvExecute (exec_env_at le (tick st)) q True rem"] assms
    by (simp add: exec_env_at_def)
  moreover have "once_inv (snd (prepare (exec_env_at le (tick st)) e (rs_exec st)))" for e
    using once_inv_step [of "rs_exec st" "EvPrepare (exec_env_at le (tick st)) e"] assms
    by (simp add: exec_env_at_def)
  ultimately show ?thesis using assms(2)
    by (auto simp: act_def split_def split: option.splits sum.splits exec_error.splits)
qed

interpretation once: runtime_invariant le "\<lambda>st. tools_wf (rt_tools (le_components le)) \<longrightarrow> once_inv (rs_exec st)" for le
proof unfold_locales
  fix d p rem and st :: runtime_state
  assume "tools_wf (rt_tools (le_components le)) \<longrightarrow> once_inv (rs_exec st)"
  then show "tools_wf (rt_tools (le_components le)) \<longrightarrow> once_inv (rs_exec (snd (act le d p rem st)))"
    using once_act by blast
qed (simp_all add: once_steps once_steps(10) [simplified])

text \<open>The task graph of the session at work stays well-formed.\<close>

lemma graph_ok_transitions:
  assumes "graph_ok (ss_tasks s)"
  shows "graph_ok (ss_tasks (snd (pause r m e a s)))" "graph_ok (ss_tasks (snd (fail_session c r s)))"
    "graph_ok (ss_tasks (snd (cancel_session_run r s)))" "graph_ok (ss_tasks (snd (finish s)))"
    "graph_ok (ss_tasks (mark_current_task ts s))"
  using assms by (auto simp: pause_def cancel_session_run_def finish_def Let_def complete_current_task_def
      fail_consistent [THEN consistent_graph] mark_consistent [THEN consistent_graph] graph_ok_intros split: option.split)

lemma graph_ok_new: "graph_ok (new_manager t)"
  using fresh_consistent [of "[]" undefined t, THEN consistent_graph] by (simp add: fresh_session_def)

lemma graph_ok_set_current: "graph_ok m \<Longrightarrow> set_current k m = (r, m') \<Longrightarrow> graph_ok m'"
proof -
  assume m: "graph_ok m" "set_current k m = (r, m')"
  have "graph_wf (m\<lparr>tm_current_id := k\<rparr>) = graph_wf m" by (simp add: graph_wf_def)
  then have "graph_wf m'" using m by (auto simp: set_current_def graph_ok_def split: if_splits)
  moreover have "k \<in> set (tm_order m)" if "map_of (tm_tasks m) k \<noteq> None"
  proof -
    have "k \<in> set (dict_keys (tm_tasks m))" using that by (metis list.set_map map_of_eq_None_iff)
    moreover have "dict_keys (tm_tasks m) = tm_order m" using m(1) by (simp add: graph_ok_def graph_wf_def)
    ultimately show ?thesis by (rule back_subst [where P = "\<lambda>ks. k \<in> set ks"])
  qed
  ultimately show "graph_ok m'" using m by (auto simp: set_current_def graph_ok_def split: if_splits)
qed

lemma returned_session: "the_session (st\<lparr>rs_exec := release_pending_resource p (rs_exec st)\<rparr>) = the_session st"
  by (simp add: the_session_def release_pending_resource_def exec_simps)

interpretation sound: runtime_invariant le "\<lambda>st. graph_ok (ss_tasks (the_session st))" for le
proof unfold_locales
  fix b and st :: runtime_state assume "graph_ok (ss_tasks (the_session st))"
  then show "graph_ok (ss_tasks (the_session (snd (save_snapshot b st))))"
    using saved_session [of b st] by auto
next
  fix tr and st :: runtime_state assume "graph_ok (ss_tasks (the_session st))"
  then show "graph_ok (ss_tasks (the_session (release_waiting tr st)))"
    using released_session [of tr st] by auto
next
  fix d p rem and st :: runtime_state assume "graph_ok (ss_tasks (the_session st))"
  then show "graph_ok (ss_tasks (the_session (snd (act le d p rem st))))"
    using core_same [OF core_act [of le d p rem st]] by simp
next
  fix dumps now ob p and st :: runtime_state assume "graph_ok (ss_tasks (the_session st))"
  then show "graph_ok (ss_tasks (the_session (put_processing
      (snd (process (le_components le) dumps now ob p (processing_view st))) st)))"
    using process_session [of "processing_view st" "le_components le" dumps now ob p] by (simp add: prod_eq_iff)
next
  fix sn and st :: runtime_state assume "graph_ok (ss_tasks (the_session st))"
  then show "graph_ok (ss_tasks (the_session (snd (hydrate le sn st))))"
    by (auto simp: hydrate_def Let_def dest: hydrate_consistent [THEN conjunct1, THEN consistent_graph]
        split: sum.split prod.split)
next
  fix now specs k r m r' m' t' and st :: runtime_state
  assume a: "graph_ok (ss_tasks (the_session st))" "expand now specs (ss_tasks (the_session st)) = (r, m)"
    "set_current k m = (r', m')"
  have "graph_ok m" "graph_ok m'" using graph_ok_expand [OF a(1,2)] graph_ok_set_current [OF _ a(3)] by simp_all
  then show "graph_ok (ss_tasks (the_session (set_session ((the_session st)\<lparr>ss_tasks := m\<rparr>) st)))
      \<and> graph_ok (ss_tasks (the_session (set_session ((the_session st)\<lparr>ss_tasks := m'\<rparr>) st)))
      \<and> graph_ok (ss_tasks (the_session (set_session (mark_current_task TaskRunning
          (update_state (continued_state t') ((the_session st)\<lparr>ss_tasks := m'\<rparr>))) st)))"
    by (simp add: graph_ok_transitions)
qed (auto simp: graph_ok_transitions set_running_def reject_session_def create_run_def seed_run_def start_session_def
    graph_ok_new returned_session Let_def split: sum.split prod.split option.split)

subsection \<open>Over all operations of a runtime\<close>

text \<open>Any sequence of operations, each in an environment of its own.\<close>

definition perform_all :: "(loop_env \<times> runtime_op) list \<Rightarrow> runtime_state \<Rightarrow> runtime_state" where
  "perform_all = fold (\<lambda>(le, op) st. snd (perform le op st))"

lemma once_over_runs:
  assumes "\<forall>p \<in> set ops. tools_wf (rt_tools (le_components (fst p)))" and "once_inv (rs_exec st)"
  shows "once_inv (rs_exec (perform_all ops st))"
  using assms
proof (induction ops arbitrary: st)
  case (Cons p ops)
  obtain le op where p: "p = (le, op)" by (cases p)
  have "once_inv (rs_exec (snd (perform le op st)))"
    using once.performed [of le st op] Cons.prems by (simp add: p)
  then show ?case using Cons.IH Cons.prems(1) by (simp add: perform_all_def p)
qed (simp add: perform_all_def)

text \<open>C37. A side effect succeeds at most once over the life of a runtime. Over any sequence of runs, resumptions,
  continuations, pauses and cancellations of any sessions, with any models, policies and tools, and
  however each of them ends, at most one run of a side-effecting tool ever succeeds under one
  idempotency key, on a runtime that has not run a tool before.\<close>

theorem side_effects_once_over_runs:
  assumes "\<forall>p \<in> set ops. \<exists>dumps x extra ds. build_runtime dumps x extra ds = Inr (le_components (fst p))"
    and "xe_runs (rs_exec st) = []"
  shows "successes k (rs_exec (perform_all ops st)) \<le> 1"
proof -
  have "\<forall>p \<in> set ops. tools_wf (rt_tools (le_components (fst p)))"
    using assms(1) build_runtime_registries(4) by fast
  moreover have "once_inv (rs_exec st)" using assms(2) by (simp add: once_inv_def successes_def)
  ultimately have "once_inv (rs_exec (perform_all ops st))" by (rule once_over_runs)
  then show ?thesis by (auto simp: once_inv_def dest: spec [of _ k] split: if_splits)
qed

text \<open>C38. The task graph of a session is sound in every run. Whatever operation is performed and however it
  ends, also when the model, a tool, an evaluator or the store raises, the session at work has a
  well-formed acyclic task graph whose current task is one of its tasks.\<close>

theorem task_graph_sound_over_runs:
  assumes "graph_ok (ss_tasks (the_session st))"
  shows "graph_ok (ss_tasks (the_session (perform_all ops st)))"
  using assms
proof (induction ops arbitrary: st)
  case (Cons p ops)
  then show ?case using sound.performed [of st "fst p" "snd p"] by (cases p) (simp add: perform_all_def)
qed (simp add: perform_all_def)

subsection \<open>A sample runtime\<close>

definition sample_loop :: loop_env where
  "sample_loop = \<lparr>le_components = sample_runtime, le_exec = (\<lambda>_. sample_env Returned), le_dumps = (\<lambda>_. []),
     le_decide = (\<lambda>_ _ _. DecideError ''no model''), le_clock = (\<lambda>_. 0), le_control = (\<lambda>_. NoRequest),
     le_consultant = sample_consultant 0, le_memory_id = (\<lambda>_. ''m''), le_max_iterations = 3,
     le_max_recovery_steps = 2, le_max_model_retries = 1, le_max_cost = None, le_max_tokens = None\<rparr>"

definition runtime_of :: "session \<Rightarrow> session_store \<Rightarrow> session_snapshot list option \<Rightarrow> runtime_state" where
  "runtime_of s sessions states = \<lparr>rs_exec = new_executor s, rs_evidence = [], rs_world = empty_world 5,
     rs_memory = [], rs_sessions = sessions, rs_states = states\<rparr>"

definition sample_request :: run_request where
  "sample_request = \<lparr>rr_session_id = ''s'', rr_facts = [], rr_entities = [], rr_read_only = False, rr_timeout = None,
     rr_tenant_id = None\<rparr>"

lemma sample_runtime_built: "build_runtime (\<lambda>_. []) sample_extractor [] [sample_domain ''k8s'' ''look'' ''health''] = Inr sample_runtime"
proof -
  have "\<not> isl (build_runtime (\<lambda>_. []) sample_extractor [] [sample_domain ''k8s'' ''look'' ''health''])" by code_simp
  then show ?thesis by (cases "build_runtime (\<lambda>_. []) sample_extractor [] [sample_domain ''k8s'' ''look'' ''health'']")
    (simp_all add: sample_runtime_def)
qed

theorem side_effects_once_over_runs_witness:
  "successes ''key'' (rs_exec (perform_all [(sample_loop, OpRun sample_request sample_goal sample_root),
     (sample_loop, OpContinue ''s'' ''more'' None)] (runtime_of (fresh_session ''s'' sample_goal sample_root) [] None))) \<le> 1"
proof -
  have "le_components sample_loop = sample_runtime" by (simp add: sample_loop_def)
  then show ?thesis
    by (intro side_effects_once_over_runs) (use sample_runtime_built in \<open>auto simp: runtime_of_def new_executor_def\<close>)
qed

theorem task_graph_sound_over_runs_witness:
  "graph_ok (ss_tasks (the_session (perform_all [(sample_loop, OpRun sample_request sample_goal sample_root)]
     (runtime_of (fresh_session ''s'' sample_goal sample_root) [] None))))"
  by (rule task_graph_sound_over_runs)
    (use consistent_graph [OF fresh_consistent] in \<open>simp add: runtime_of_def new_executor_def the_session_def\<close>)

end
