(* ===== verification/Run_Bounds.thy ===== *)
theory Run_Bounds
  imports Run_Safety
begin

text \<open>
  How far a run goes: the loop ends after \<open>max_iterations\<close> iterations, each iteration runs a tool at
  most \<open>max_recovery_steps\<close> times, a decision is asked for at most \<open>max_model_retries + 1\<close> times, and
  a tool runs only for a decision that has passed every gate of the loop.
\<close>

subsection \<open>Tool runs are counted\<close>

definition runs_of :: "runtime_state \<Rightarrow> nat" where
  "runs_of st = length (xe_runs (rs_exec st))"

lemma runs_trail: "trail st = trail st' \<Longrightarrow> runs_of st = runs_of st'"
  by (simp add: runs_of_def trail_def)

lemma execute_runs: "length (xe_runs (snd (execute env p confirmed rem x))) \<le> Suc (length (xe_runs x))"
proof (cases "xe_runs (snd (execute env p confirmed rem x)) = xe_runs x")
  case False
  obtain r y where y: "execute env p confirmed rem x = (r, y)" by fastforce
  with False have "xe_runs y \<noteq> xe_runs x" by simp
  from run_summary [OF y this] obtain q d where "stage_ok env q d (confirmed_effective env q confirmed x) x r y"
    by (metis executable_action_def)
  then show ?thesis using y False by (auto simp: stage_ok_def ran_def)
qed simp

lemma prepare_runs: "length (xe_runs (snd (prepare env d x))) \<le> Suc (length (xe_runs x))"
proof -
  obtain r y where y: "prepare env d x = (r, y)" by fastforce
  from prepare_cases [OF this] show ?thesis
  proof (elim disjE exE conjE)
    fix p x1 assume "execute env p False False x1 = (r, y)" "xe_runs x1 = xe_runs x"
    then show ?thesis using execute_runs [of env p False False x1] y by simp
  qed (simp add: y)
qed

lemma act_runs: "runs_of (snd (act le d p rem st)) \<le> Suc (runs_of st)"
proof -
  have "length (xe_runs (snd (case p of Some q \<Rightarrow> execute (exec_env_at le (tick st)) q True rem (rs_exec st)
      | None \<Rightarrow> (case d of None \<Rightarrow> (Inl (ExecRaised ''AssertionError''), rs_exec st)
         | Some e \<Rightarrow> prepare (exec_env_at le (tick st)) e (rs_exec st))))) \<le> Suc (length (xe_runs (rs_exec st)))"
    by (auto simp: execute_runs prepare_runs split: option.splits)
  then show ?thesis by (auto simp: act_def runs_of_def split_def split: sum.splits exec_error.splits)
qed

text \<open>What goes on beside the executor runs no tool.\<close>

lemmas quiet_runs = trailing.controlled [OF refl, THEN runs_trail] trailing.followed [OF refl, THEN runs_trail]
  trailing.settles [OF refl, THEN runs_trail] trailing.expired [OF refl, THEN runs_trail]
  trailing.validated [OF refl, THEN runs_trail] trailing.usage_recorded [OF refl, THEN runs_trail]
  trailing.gathered [OF refl, THEN runs_trail]

lemma bind_bound:
  fixes size_of :: "runtime_state \<Rightarrow> nat"
  assumes "size_of (snd r) \<le> m" and "\<And>a st. r = (Inr a, st) \<Longrightarrow> size_of (snd (f a st)) \<le> size_of st + k"
  shows "size_of (snd (bind_op r f)) \<le> m + k"
  using assms(1) assms(2) [of _ "snd r"]
  by (cases r; cases "fst r") (auto simp: bind_op_def intro: order_trans)

text \<open>The shape of the gates: a result ends the iteration, otherwise it goes on.\<close>

lemma gate_bound:
  fixes size_of :: "runtime_state \<Rightarrow> nat"
  assumes "size_of (snd r) \<le> m" and "\<And>st. size_of (snd (f st)) \<le> size_of st + k"
  shows "size_of (snd (bind_op r (\<lambda>x st. case x of None \<Rightarrow> f st | Some y \<Rightarrow> (Inr (Some y), st)))) \<le> m + k"
proof (rule bind_bound [where size_of = size_of, OF assms(1)])
  fix a st
  show "size_of (snd (case a of None \<Rightarrow> f st | Some y \<Rightarrow> (Inr (Some y), st))) \<le> size_of st + k"
    by (cases a) (simp_all add: assms(2))
qed

lemmas bind_runs = bind_bound [where size_of = runs_of] and gate_runs = gate_bound [where size_of = runs_of]

lemma bind_quiet: "runs_of (snd r) = m \<Longrightarrow> (\<And>a st. runs_of (snd (f a st)) = runs_of st) \<Longrightarrow> runs_of (snd (bind_op r f)) = m"
  by (cases r; cases "fst r") (auto simp: bind_op_def)

lemma drive_runs: "runs_of (snd (drive le n d p rem st)) \<le> runs_of st + n"
proof (induction n arbitrary: d p rem st)
  case 0
  then show ?case by (simp add: bind_quiet [OF quiet_runs(4)])
next
  case (Suc n)
  have follow: "runs_of (snd (bind_op (follow_outcome le a st2) (\<lambda>s st3. case s of StepResult x \<Rightarrow> (Inr (Some x), st3)
      | StepContinue \<Rightarrow> (Inr None, st3) | StepDecision d \<Rightarrow> drive le n (Some d) None rem st3))) \<le> runs_of st2 + n" for a st2
    by (rule bind_runs) (auto simp: quiet_runs Suc.IH split: step.split)
  have acting: "runs_of (snd (bind_op (act le d p rem st1) (\<lambda>a st2. bind_op (follow_outcome le a st2)
      (\<lambda>s st3. case s of StepResult x \<Rightarrow> (Inr (Some x), st3) | StepContinue \<Rightarrow> (Inr None, st3)
        | StepDecision d \<Rightarrow> drive le n (Some d) None rem st3)))) \<le> Suc (runs_of st1) + n" for st1
    by (rule bind_runs [OF act_runs follow])
  show ?case
    unfolding drive.simps by (rule bind_runs) (auto simp: quiet_runs acting [simplified] split: option.split)
qed

lemma apply_runs: "runs_of (snd (apply_decision le d st)) \<le> runs_of st + le_max_recovery_steps le"
  by (cases "d_type d") (auto simp: apply_decision_def Let_def drive_runs bind_quiet [OF quiet_runs(3)]
      bind_quiet [OF quiet_runs(5)] bind_quiet [OF quiet_runs(6)] intro: order_trans [OF eq_refl])

lemma use_runs: "runs_of (snd (use_decision le deadline d u caps contracts all st)) \<le> runs_of st + le_max_recovery_steps le"
proof -
  have emit: "runs_of (emit_event e a st) = runs_of st" for e a by (rule runs_trail) simp
  show ?thesis unfolding use_decision_def Let_def
    by (intro gate_runs apply_runs) (simp_all add: quiet_runs emit)
qed

lemma begin_runs: "runs_of (snd (begin_iteration st)) = runs_of st"
proof -
  let ?st = "set_state (\<lambda>s. s\<lparr>as_iteration := as_iteration s + 1\<rparr>) st"
  have "runs_of (snd (save_snapshot False ?st)) = runs_of st" by (rule runs_trail) simp
  then show ?thesis unfolding begin_iteration_def save_def
    by (rule bind_quiet) (simp add: runs_trail [OF trail_steps(3)])
qed

lemma decide_runs: "runs_of (snd (decide_iteration le deadline st)) \<le> runs_of st + le_max_recovery_steps le"
proof -
  obtain all_caps all_contracts where c: "capability_context (rt_registry (le_components le)) (rt_tools (le_components le)) = (all_caps, all_contracts)"
    by fastforce
  obtain caps contracts where k: "constrain_capability_context (the_state st) all_caps all_contracts = (caps, contracts)"
    by fastforce
  obtain inp st1 where i: "decision_inputs_of le caps contracts st = (inp, st1)" by fastforce
  have "runs_of st1 = runs_of st" using quiet_runs(10) [of le caps contracts st] i by simp
  then show ?thesis
    unfolding decide_iteration_def c k i Let_def prod.case using use_runs [where st = st1]
    by (auto simp: bind_quiet [OF quiet_runs(4)] simp del: decide_with_retry.simps split: sum.split)
qed

lemma iteration_runs: "runs_of (snd (iteration le deadline st)) \<le> runs_of st + le_max_recovery_steps le"
  unfolding iteration_def
  by (intro gate_runs bind_runs decide_runs) (simp_all add: quiet_runs begin_runs)

subsection \<open>The loop ends\<close>

text \<open>The \<open>while\<close> loop with a bound on its rounds: \<open>None\<close> when the bound is too small.\<close>

fun loop_fuel :: "nat \<Rightarrow> loop_env \<Rightarrow> rat option \<Rightarrow> runtime_state \<Rightarrow> execution_result run option" where
  "loop_fuel 0 le deadline st = None"
| "loop_fuel (Suc n) le deadline st =
     (if iteration_of st < le_max_iterations le
      then (case iteration le deadline st of
          (Inl e, st') \<Rightarrow> Some (Inl e, st')
        | (Inr (Some x), st') \<Rightarrow> Some (Inr x, st')
        | (Inr None, st') \<Rightarrow> loop_fuel n le deadline st')
      else Some (settle_with le (fail_session ITERATION_LIMIT
        (''maximum iterations reached: '' @ show_nat (le_max_iterations le))) st))"

text \<open>Whatever the result of an iteration, it has counted at most once.\<close>

lemma iteration_count: "iteration_of (snd (iteration le deadline st)) \<le> Suc (iteration_of st)"
proof -
  note same = fixing.controlled [OF refl, THEN counts_same] fixing.expired [OF refl, THEN counts_same]
    fixing.decided [OF refl, THEN counts_same]
  have "iteration_of (snd (begin_iteration st)) \<le> Suc (iteration_of st)" for st
    using begin_counts [of st "fst (begin_iteration st)" "snd (begin_iteration st)"] by simp
  then have "iteration_of (snd (bind_op (begin_iteration st) (\<lambda>_ st3. decide_iteration le deadline st3)))
      \<le> iteration_of st + 1" for st
    using bind_bound [of iteration_of "begin_iteration st" "Suc (iteration_of st)" "\<lambda>_ st3. decide_iteration le deadline st3" 0]
    by (simp add: same)
  then show ?thesis unfolding iteration_def Suc_eq_plus1
    by (intro gate_bound [where size_of = iteration_of]) (simp_all add: same)
qed

text \<open>C35. The loop ends, and within its bounds. Written as a \<open>while\<close> loop with fuel, as many rounds as there
  are iterations left, and one to see that there are none, are always enough, whatever model,
  tools, policies and evaluators do. The loop never counts beyond \<open>max_iterations\<close>, and all its
  iterations together run tools at most \<open>max_recovery_steps\<close> times as often.\<close>

theorem loop_is_bounded:
  "loop_fuel (Suc (le_max_iterations le - iteration_of st)) le deadline st = Some (loop le deadline st)
    \<and> iteration_of (snd (loop le deadline st)) \<le> max (iteration_of st) (le_max_iterations le)
    \<and> runs_of (snd (loop le deadline st))
        \<le> runs_of st + (le_max_iterations le - iteration_of st) * le_max_recovery_steps le"
proof (induction "le_max_iterations le - iteration_of st" arbitrary: st)
  case 0
  have "iteration_of (snd (settle_with le (fail_session ITERATION_LIMIT m) st)) = iteration_of st" for m
    by (rule counts_same) (rule fixing.settles(2) [OF refl])
  then show ?case using 0 by (subst (1 2 3) loop.simps) (simp add: quiet_runs)
next
  case (Suc n)
  then have more: "iteration_of st < le_max_iterations le" by simp
  obtain r st' where it: "iteration le deadline st = (r, st')" by fastforce
  have once: "iteration_of st' \<le> Suc (iteration_of st)" "runs_of st' \<le> runs_of st + le_max_recovery_steps le"
    using iteration_count [of le deadline st] iteration_runs [of le deadline st] it by simp_all
  have left: "le_max_iterations le - iteration_of st = Suc n" using Suc.hyps(2) by simp
  show ?case
  proof (cases "r = Inr None")
    case True
    then have "iteration_of st' = Suc (iteration_of st)" using it by (intro iteration_counts) simp
    then have n: "n = le_max_iterations le - iteration_of st'" using left by simp
    note IH = Suc.hyps(1) [OF n, folded n]
    have "loop le deadline st = loop le deadline st'" using more it True by (subst loop.simps) simp
    then show ?thesis using IH more it True once n \<open>iteration_of st' = Suc (iteration_of st)\<close> unfolding left by auto
  next
    case False
    then have "snd (loop le deadline st) = st'"
      using more it by (subst loop.simps) (auto split: sum.split option.split)
    moreover have "loop_fuel (Suc (Suc n)) le deadline st = Some (loop le deadline st)"
      using False more it by (subst loop.simps) (auto split: sum.split option.split)
    ultimately show ?thesis using once more unfolding left by auto
  qed
qed

subsection \<open>The gates before an action\<close>

lemma expired_passed:
  assumes "pause_if_expired le deadline st = (Inr None, st')"
  shows "st' = st \<and> (case deadline of None \<Rightarrow> True | Some t \<Rightarrow> le_clock le (tick st) < t)"
  using assms by (auto simp: pause_if_expired_def bind_op_def split: option.splits if_splits prod.splits sum.splits)

lemma requested_passed: "requested le st = (Inr None, st') \<Longrightarrow> st' = st \<and> le_control le (tick st) = NoRequest"
  by (auto simp: requested_def bind_op_def split: control_request.splits prod.splits sum.splits)

lemma usage_passed:
  assumes "record_usage le usage st = (Inr None, st')"
  shows "the_state st' = (case usage of None \<Rightarrow> the_state st | Some u \<Rightarrow> add_usage u (the_state st)) \<and> trail st' = trail st
    \<and> (case usage of None \<Rightarrow> True | Some u \<Rightarrow> budget_exceeded le (add_usage u (the_state st)) = None)"
  using assms by (auto simp: record_usage_def Let_def bind_op_def the_state_def update_state_def
      split: option.splits prod.splits sum.splits)

lemma decision_passed:
  assumes "validate_decision le d caps contracts all st = (Inr None, st')"
  shows "decision_verdict le (tick st) (the_state st) d caps contracts all = None \<and> trail st' = trail st"
  using assms by (auto simp: validate_decision_def bind_op_def split: option.splits prod.splits sum.splits)

lemma begun_state:
  assumes "begin_iteration st = (Inr (), st')"
  shows "as_read_only (the_state st') = as_read_only (the_state st)
    \<and> as_cumulative_cost_micros (the_state st') = as_cumulative_cost_micros (the_state st)
    \<and> as_cumulative_tokens (the_state st') = as_cumulative_tokens (the_state st) \<and> trail st' = trail st"
proof -
  let ?st = "set_state (\<lambda>s. s\<lparr>as_iteration := as_iteration s + 1\<rparr>) st"
  obtain st1 where st1: "save_snapshot False ?st = (Inr (), st1)" "st' = emit_event ''IterationStarted'' [] st1"
    using assms by (auto simp: begin_iteration_def save_def bind_op_def split: prod.splits sum.splits)
  then show ?thesis using saved_session [of False ?st] trail_saved [of False ?st]
    by (auto simp: the_state_def sync_current_task_def update_state_def)
qed

lemma gate_split:
  "bind_op r (\<lambda>x st. case x of None \<Rightarrow> f st | Some y \<Rightarrow> (Inr (Some y), st)) =
     (case r of (Inr None, st) \<Rightarrow> f st | _ \<Rightarrow> r)"
  by (auto simp: bind_op_def split: prod.split sum.split option.split)

text \<open>What a decision has passed when a tool runs for it.\<close>

definition gates_passed :: "loop_env \<Rightarrow> agent_state \<Rightarrow> decision \<Rightarrow> model_usage option \<Rightarrow> bool" where
  "gates_passed le s d usage \<longleftrightarrow>
     (let (all_caps, all_contracts) = capability_context (rt_registry (le_components le)) (rt_tools (le_components le));
          (caps, contracts) = constrain_capability_context s all_caps all_contracts
      in d_type d = Execute \<and> decision_validate d = None \<and> validate_session_constraints s d all_caps = None
        \<and> (\<exists>n. validate_decision_context (en_schema_error (le_exec le n)) (rt_registry (le_components le)) d caps contracts = None)
        \<and> (case usage of None \<Rightarrow> True | Some u \<Rightarrow> budget_exceeded le (add_usage u s) = None))"

lemma applied_trail: "d_type d \<noteq> Execute \<Longrightarrow> trail (snd (apply_decision le d st)) = trail st"
  by (cases "d_type d") (auto simp: apply_decision_def Let_def intro!: trailing.bound trailing.settles)

lemma constraints_read_only:
  "as_read_only s' = as_read_only s \<Longrightarrow> validate_session_constraints s' d caps = validate_session_constraints s d caps"
  by (simp add: validate_session_constraints_def)

lemma used_gates:
  assumes "trail (snd (use_decision le deadline d0 usage caps contracts all st)) \<noteq> trail st"
  shows "d_type d0 = Execute \<and> decision_validate d0 = None \<and> validate_session_constraints (the_state st) d0 all = None
    \<and> (\<exists>n. validate_decision_context (en_schema_error (le_exec le n)) (rt_registry (le_components le)) d0 caps contracts = None)
    \<and> (case usage of None \<Rightarrow> True | Some u \<Rightarrow> budget_exceeded le (add_usage u (the_state st)) = None)"
proof -
  let ?st = "emit_event ''DecisionGenerated'' [] st" and ?d = "normalize_runtime_decision d0"
  have emit: "trail ?st = trail st" "the_state ?st = the_state st" by (simp_all add: the_state_def)
  obtain r1 st1 where 1: "record_usage le usage ?st = (r1, st1)" by fastforce
  have t1: "trail st1 = trail st" using trailing.usage_recorded [OF emit(1), of le usage] 1 by simp
  have r1: "r1 = Inr None" using assms t1 1 by (auto simp: use_decision_def gate_split split: sum.splits option.splits)
  obtain r2 st2 where 2: "pause_if_expired le deadline st1 = (r2, st2)" by fastforce
  have t2: "trail st2 = trail st" using trailing.expired [OF t1, of le deadline] 2 by simp
  have r2: "r2 = Inr None" using assms t2 1 r1 2 by (auto simp: use_decision_def gate_split split: sum.splits option.splits)
  obtain r3 st3 where 3: "validate_decision le ?d caps contracts all st2 = (r3, st3)" by fastforce
  have t3: "trail st3 = trail st" using trailing.validated [OF t2, of le ?d caps contracts all] 3 by simp
  have r3: "r3 = Inr None"
    using assms t3 1 r1 2 r2 3 by (auto simp: use_decision_def gate_split Let_def split: sum.splits option.splits)
  have "trail (snd (apply_decision le ?d st3)) \<noteq> trail st3"
    using assms t3 1 r1 2 r2 3 r3 by (simp add: use_decision_def gate_split Let_def)
  then have exec: "d_type ?d = Execute" using applied_trail by blast
  then have d: "?d = d0" "d_type d0 = Execute" by (simp_all add: normalize_simps)
  note u = usage_passed [OF 1 [unfolded r1]]
  have "st2 = st1" using expired_passed 2 r2 by blast
  then have "as_read_only (the_state st2) = as_read_only (the_state st)"
    using u emit(2) by (auto simp: add_usage_def split: option.splits)
  then show ?thesis using decision_passed [OF 3 [unfolded r3]] u d emit(2)
    by (auto simp: decision_verdict_def constraints_read_only [of "the_state st2" "the_state st"] split: option.splits)
qed

lemma gathered_state:
  "decision_inputs_of le caps contracts st = (inp, st') \<Longrightarrow>
     the_state st' = the_state st \<and> trail st' = trail st \<and> di_state inp = the_state st"
  by (auto simp: decision_inputs_of_def Let_def the_state_def split: prod.splits)

lemma decided_gates:
  assumes "trail (snd (decide_iteration le deadline st)) \<noteq> trail st"
  shows "\<exists>n inp d usage. decide_with_retry le n (le_max_model_retries le + 1) 0 inp = Inr (d, usage)
    \<and> di_state inp = the_state st \<and> gates_passed le (the_state st) d usage"
proof -
  obtain all_caps all_contracts where c: "capability_context (rt_registry (le_components le)) (rt_tools (le_components le)) = (all_caps, all_contracts)"
    by fastforce
  obtain caps contracts where k: "constrain_capability_context (the_state st) all_caps all_contracts = (caps, contracts)"
    by fastforce
  obtain inp st1 where i: "decision_inputs_of le caps contracts st = (inp, st1)" by fastforce
  note st1 = gathered_state [OF i]
  define answer where "answer = decide_with_retry le (tick st1) (le_max_model_retries le + 1) 0 inp"
  have run: "decide_iteration le deadline st = (case answer of
      Inl e \<Rightarrow> bind_op (settle_with le (fail_session MODEL_FAILURE (''model failed: '' @ e)) st1) (\<lambda>x st'. (Inr (Some x), st'))
    | Inr (d, usage) \<Rightarrow> use_decision le deadline d usage caps contracts all_caps st1)"
    unfolding decide_iteration_def c k i Let_def prod.case answer_def ..
  have "trail (snd (bind_op (settle_with le (fail_session MODEL_FAILURE m) st1) (\<lambda>x st'. (Inr (Some x), st')))) = trail st" for m
    using st1 by (intro trailing.bound trailing.settles) simp_all
  then obtain d usage where a: "answer = Inr (d, usage)" using assms unfolding run by (cases answer) auto
  then have "trail (snd (use_decision le deadline d usage caps contracts all_caps st1)) \<noteq> trail st1"
    using assms st1 unfolding run by simp
  from used_gates [OF this] have "gates_passed le (the_state st) d usage"
    unfolding gates_passed_def c k Let_def prod.case using st1 by (cases usage) auto
  then show ?thesis using a st1 unfolding answer_def by blast
qed

lemma gates_passed_same:
  assumes "as_read_only s' = as_read_only s" "as_cumulative_cost_micros s' = as_cumulative_cost_micros s"
    "as_cumulative_tokens s' = as_cumulative_tokens s" and "gates_passed le s' d usage"
  shows "gates_passed le s d usage"
proof -
  have "constrain_capability_context s' = constrain_capability_context s"
    by (intro ext) (simp add: constrain_capability_context_def assms(1))
  moreover have "budget_exceeded le (add_usage u s') = budget_exceeded le (add_usage u s)" for u
    by (simp add: budget_exceeded_def add_usage_def assms(2,3))
  ultimately show ?thesis
    using assms(4) unfolding gates_passed_def by (cases usage) (simp_all add: constraints_read_only [OF assms(1)])
qed

lemma iteration_gates:
  assumes changed: "trail (snd (iteration le deadline st)) \<noteq> trail st"
  shows "(\<exists>n inp d usage. decide_with_retry le n (le_max_model_retries le + 1) 0 inp = Inr (d, usage)
        \<and> as_read_only (di_state inp) = as_read_only (the_state st) \<and> gates_passed le (the_state st) d usage)
    \<and> le_control le (tick st) = NoRequest \<and> (case deadline of None \<Rightarrow> True | Some t \<Rightarrow> le_clock le (tick st) < t)"
proof -
  obtain r1 st1 where 1: "pause_if_expired le deadline st = (r1, st1)" by fastforce
  have "trail st1 = trail st" using trailing.expired [OF refl, of le deadline st] 1 by simp
  then have "r1 = Inr None" using changed 1 by (auto simp: iteration_def gate_split split: sum.splits option.splits)
  note p1 = expired_passed [OF 1 [unfolded this]] and e1 = 1 [unfolded this]
  obtain r2 st2 where 2: "requested le st = (r2, st2)" by fastforce
  have "trail st2 = trail st" using trailing.controlled [OF refl, of le st] 2 by simp
  then have "r2 = Inr None" using changed e1 p1 2 by (auto simp: iteration_def gate_split split: sum.splits option.splits)
  note p2 = requested_passed [OF 2 [unfolded this]] and e2 = 2 [unfolded this]
  obtain r3 st3 where 3: "begin_iteration st = (r3, st3)" by fastforce
  have "trail (snd (begin_iteration st)) = trail st"
    unfolding begin_iteration_def save_def by (rule trailing.bound) simp_all
  then have "trail st3 = trail st" using 3 by simp
  then have r3: "r3 = Inr ()" using changed e1 p1 e2 p2 3
    by (cases r3) (auto simp: iteration_def gate_split)
  note b = begun_state [OF 3 [unfolded r3]]
  have "trail (snd (decide_iteration le deadline st3)) \<noteq> trail st3"
    using changed e1 p1 e2 p2 3 r3 b by (simp add: iteration_def gate_split)
  from decided_gates [OF this] obtain n inp d usage where d:
    "decide_with_retry le n (le_max_model_retries le + 1) 0 inp = Inr (d, usage)"
    "di_state inp = the_state st3" "gates_passed le (the_state st3) d usage" by blast
  have "gates_passed le (the_state st) d usage" using b by (intro gates_passed_same [OF _ _ _ d(3)]) simp_all
  then show ?thesis using d(1,2) b p1 p2 by (simp del: decide_with_retry.simps) metis
qed


subsection \<open>Retries\<close>

definition transient :: "decide_answer \<Rightarrow> bool" where
  "transient a \<longleftrightarrow> (case a of TransientError _ \<Rightarrow> True | _ \<Rightarrow> False)"

definition answer_text :: "decide_answer \<Rightarrow> string + decision \<times> model_usage option" where
  "answer_text a = (case a of Decided d u \<Rightarrow> Inr (d, u) | TransientError e \<Rightarrow> Inl e | DecideError e \<Rightarrow> Inl e)"

text \<open>The retries of a decision are those of the taxonomy. With \<open>k\<close> retries the answer is that of the first
  of the attempts 0 to \<open>k\<close> that is no transient provider error, and the error of the last attempt when
  all are; so a permanent error is final at once, and no attempt is made after a decision.\<close>

theorem retries_take_first_final_answer:
  "decide_with_retry le n (Suc k) 0 inp =
     (case find (\<lambda>a. \<not> transient a) (map (\<lambda>i. le_decide le n i inp) [0..<Suc k]) of
        Some a \<Rightarrow> answer_text a
      | None \<Rightarrow> answer_text (le_decide le n k inp))"
proof -
  have "decide_with_retry le n (Suc k) i inp =
     (case find (\<lambda>a. \<not> transient a) (map (\<lambda>i. le_decide le n i inp) [i..<Suc (i + k)]) of
        Some a \<Rightarrow> answer_text a | None \<Rightarrow> answer_text (le_decide le n (i + k) inp))" for i
  proof (induction k arbitrary: i)
    case 0
    then show ?case by (simp add: transient_def answer_text_def split: decide_answer.split)
  next
    case (Suc k)
    let ?a = "le_decide le n i inp"
    have range: "[i..<Suc (i + Suc k)] = i # [Suc i..<Suc (Suc i + k)]" by (simp add: upt_rec)
    have step: "decide_with_retry le n (Suc (Suc k)) i inp
        = (if transient ?a then decide_with_retry le n (Suc k) (Suc i) inp else answer_text ?a)"
      by (subst decide_with_retry.simps) (auto simp: transient_def answer_text_def simp del: decide_with_retry.simps
          split: decide_answer.split)
    have last: "i + Suc k = Suc i + k" by simp
    show ?case unfolding range step Suc.IH list.map find.simps unfolding last by (cases "transient ?a") simp_all
  qed
  from this [of 0] show ?thesis unfolding add_0 .
qed

end
