(* ===== verification/Run_Results.thy ===== *)
theory Run_Results
  imports Run_Safety
begin

text \<open>
  What the results of the operations mean: a result of a run is what the store holds, an operation
  that is refused changes nothing, and what becomes of sessions that cannot be opened or saved.
\<close>

subsection \<open>Every result of a run comes from settling\<close>

lemma bind_Inr: "bind_op r f = (Inr y, st') \<longleftrightarrow> (\<exists>a s. r = (Inr a, s) \<and> f a s = (Inr y, st'))"
  by (auto simp: bind_op_def split: prod.splits sum.splits)

lemma bind_result: "bind_op r (\<lambda>x st'. (Inr (Some x), st')) = (Inr (Some y), st) \<longleftrightarrow> r = (Inr y, st)"
  "bind_op r (\<lambda>x st'. (Inr (StepResult x), st')) = (Inr s, st) \<longleftrightarrow> (\<exists>y. s = StepResult y \<and> r = (Inr y, st))"
  by (auto simp: bind_Inr)

locale settled_law =
  fixes le :: loop_env and Q :: "execution_result \<Rightarrow> runtime_state \<Rightarrow> bool"
  assumes paused: "settle_with le (pause r m e a) st = (Inr x, st') \<Longrightarrow> Q x st'"
    and failed: "settle_with le (fail_session c r) st = (Inr x, st') \<Longrightarrow> Q x st'"
    and finished: "settle_with le finish st = (Inr x, st') \<Longrightarrow> Q x st'"
    and cancelled: "settle_with le (cancel_session_run r) st = (Inr x, st') \<Longrightarrow> Q x st'"
begin

lemmas laws = paused failed finished cancelled

lemma on_request: "requested le st = (Inr (Some x), st') \<Longrightarrow> Q x st'"
  unfolding requested_def by (auto simp: bind_result dest: laws split: control_request.splits)

lemma on_expiry: "pause_if_expired le deadline st = (Inr (Some x), st') \<Longrightarrow> Q x st'"
  unfolding pause_if_expired_def by (auto simp: bind_result dest: laws split: option.splits if_splits)

lemma on_recovery: "plan_recovery le p f st = (Inr (StepResult x), st') \<Longrightarrow> Q x st'"
  unfolding plan_recovery_def Let_def by (auto simp: bind_Inr dest: laws split: if_splits)

lemma on_processing: "after_processing le p ob g st = (Inr (StepResult x), st') \<Longrightarrow> Q x st'"
  unfolding after_processing_def Let_def
  by (auto simp: bind_Inr dest: laws on_recovery split: option.splits if_splits)

lemma on_observation: "observe_outcome le p ob st = (Inr (StepResult x), st') \<Longrightarrow> Q x st'"
  unfolding observe_outcome_def
  by (auto simp: bind_Inr dest: laws on_recovery on_processing split: if_splits prod.splits sum.splits process_error.splits)

lemma on_outcome: "follow_outcome le a st = (Inr (StepResult x), st') \<Longrightarrow> Q x st'"
  unfolding follow_outcome_def by (auto simp: bind_Inr dest: laws on_observation split: action_outcome.splits)

lemma on_drive: "drive le n d p rem st = (Inr (Some x), st') \<Longrightarrow> Q x st'"
proof (induction n arbitrary: d p rem st)
  case 0
  then show ?case by (auto simp: bind_result dest: laws)
next
  case (Suc n)
  let ?rest = "\<lambda>st1. bind_op (act le d p rem st1) (\<lambda>a st2. bind_op (follow_outcome le a st2) (\<lambda>s st3. case s of
      StepResult x \<Rightarrow> (Inr (Some x), st3) | StepContinue \<Rightarrow> (Inr None, st3)
    | StepDecision d \<Rightarrow> drive le n (Some d) None rem st3))"
  from Suc.prems obtain o1 st1 where 1: "requested le st = (Inr o1, st1)"
    "(case o1 of Some x \<Rightarrow> (Inr (Some x), st1) | None \<Rightarrow> ?rest st1) = (Inr (Some x), st')"
    unfolding drive.simps bind_Inr [of "requested le st"] by blast
  show ?case
  proof (cases o1)
    case None
    with 1(2) have "?rest st1 = (Inr (Some x), st')" by simp
    then obtain a st2 s st3 where "follow_outcome le a st2 = (Inr s, st3)" "(case s of
        StepResult x \<Rightarrow> (Inr (Some x), st3) | StepContinue \<Rightarrow> (Inr None, st3)
      | StepDecision d \<Rightarrow> drive le n (Some d) None rem st3) = (Inr (Some x), st')"
      unfolding bind_Inr by blast
    then show ?thesis by (cases s) (auto dest: on_outcome Suc.IH)
  next
    case (Some y)
    then show ?thesis using 1 on_request by simp
  qed
qed

lemma on_usage: "record_usage le u st = (Inr (Some x), st') \<Longrightarrow> Q x st'"
  unfolding record_usage_def Let_def by (auto simp: bind_result dest: laws split: option.splits)

lemma on_validation: "validate_decision le d caps contracts all st = (Inr (Some x), st') \<Longrightarrow> Q x st'"
  unfolding validate_decision_def by (auto simp: bind_result dest: laws split: option.splits)

lemma on_apply: "apply_decision le d st = (Inr (Some x), st') \<Longrightarrow> Q x st'"
  unfolding apply_decision_def Let_def by (auto simp: bind_result dest: laws on_drive split: decision_type.splits)

lemma on_use: "use_decision le deadline d u caps contracts all st = (Inr (Some x), st') \<Longrightarrow> Q x st'"
  unfolding use_decision_def Let_def
  by (auto simp: bind_Inr dest: on_usage on_validation on_apply on_expiry split: option.splits)

lemma on_decide: "decide_iteration le deadline st = (Inr (Some x), st') \<Longrightarrow> Q x st'"
  unfolding decide_iteration_def Let_def
  by (auto simp: bind_Inr simp del: decide_with_retry.simps dest: laws on_use split: prod.splits sum.splits)

lemma on_iteration: "iteration le deadline st = (Inr (Some x), st') \<Longrightarrow> Q x st'"
  unfolding iteration_def by (auto simp: bind_Inr dest: on_expiry on_request on_decide split: option.splits)

lemma on_loop: "loop le deadline st = (Inr x, st') \<Longrightarrow> Q x st'"
proof (induction "le_max_iterations le - iteration_of st" arbitrary: st rule: less_induct)
  case less
  show ?case
  proof (cases "iteration_of st < le_max_iterations le")
    case True
    obtain r st1 where it: "iteration le deadline st = (r, st1)" by fastforce
    show ?thesis
    proof (cases "r = Inr None")
      case r: True
      then have "iteration_of st1 = Suc (iteration_of st)" using it by (intro iteration_counts) simp
      moreover have "loop le deadline st1 = (Inr x, st')"
        using less.prems it r True by (subst (asm) loop.simps) simp
      ultimately show ?thesis using True by (intro less.hyps [of st1]) auto
    next
      case False
      then have "iteration le deadline st = (Inr (Some x), st')"
        using less.prems it True by (subst (asm) loop.simps) (auto split: sum.splits option.splits)
      then show ?thesis by (rule on_iteration)
    qed
  next
    case False
    then show ?thesis using less.prems by (subst (asm) loop.simps) (auto dest: laws)
  qed
qed

lemma on_control: "continue_controlled le deadline d p rem st = (Inr x, st') \<Longrightarrow> Q x st'"
  unfolding continue_controlled_def on_cancellation_def drive_and_loop_def
  by (auto simp: bind_Inr dest: laws on_request on_drive on_loop
      split: prod.splits sum.splits loop_error.splits control_request.splits option.splits if_splits)

end

subsection \<open>What is returned is what is stored\<close>

fun goal_of :: "execution_status \<Rightarrow> goal_status" where
  "goal_of ExecCompleted = GoalCompleted"
| "goal_of ExecWaiting = GoalWaiting"
| "goal_of ExecFailed = GoalFailed"
| "goal_of ExecCancelled = GoalCancelled"

text \<open>The result tells the outcome that the session has.\<close>

definition agrees :: "execution_result \<Rightarrow> agent_state \<Rightarrow> bool" where
  "agrees x s \<longleftrightarrow> g_status (as_goal s) = goal_of (xr_status x) \<and> as_termination_reason s = Some (xr_reason x)
     \<and> as_session_id s = xr_session_id x \<and> (ending_status (xr_status x) \<longrightarrow> as_pending_action s = None)"

definition stored_result :: "execution_result \<Rightarrow> runtime_state \<Rightarrow> bool" where
  "stored_result x st \<longleftrightarrow> agrees x (the_state st)
     \<and> (\<exists>sn. load_session (xr_session_id x) (rs_sessions st) = Inr sn \<and> agrees x (sn_state sn)
          \<and> sn_version sn = ss_version (the_session st))"

lemma agrees_copy [simp]: "agrees x (sn_state (copy_session sn)) = agrees x (sn_state sn)"
  by (simp add: copy_session_def copy_state_def agrees_def Let_def split: prod.split)

lemma agrees_sync [simp]: "agrees x (ss_state (sync_current_task s)) = agrees x (ss_state s)"
  by (simp add: sync_current_task_def agrees_def)

lemma saved_result:
  assumes "save_snapshot b st = (Inr (), st')" and "agrees x (the_state st)"
  shows "stored_result x st'"
proof -
  let ?s = "sync_current_task (the_session st)"
  obtain sn v sessions where sn: "session_to_snapshot (rs_evidence st) (the_session st) = Some sn"
      "save_session sn (rs_sessions st) = (Inr v, sessions)"
    and st': "the_session st' = set_version v ?s" "rs_sessions st' = sessions"
    using assms(1) by (auto simp: save_snapshot_def Let_def set_session_def the_session_def
        split: option.splits prod.splits sum.splits if_splits)
  have state: "sn_state sn = ss_state ?s"
    using sn(1) by (auto simp: session_to_snapshot_def Let_def)
  have a: "agrees x (sn_state sn)" using assms(2) by (simp add: state the_state_def)
  have "snapshot_id sn = xr_session_id x" using a by (simp add: snapshot_id_def agrees_def)
  then have "load_session (xr_session_id x) sessions = Inr (copy_session ((copy_session sn)\<lparr>sn_version := v\<rparr>))"
    using sn(2) by (auto simp: save_session_def load_session_def dict_simps split: option.splits if_splits)
  moreover have "agrees x (sn_state ((copy_session sn)\<lparr>sn_version := v\<rparr>))" using a by simp
  moreover have "agrees x (the_state st')" using assms(2) st'(1) by (simp add: the_state_def set_version_def)
  ultimately show ?thesis using st' by (auto simp: stored_result_def set_version_def)
qed

lemma settle_commits:
  "\<exists>mem. settle le tr st = bind_op (commit (tr_event_type tr) (or_empty (tr_action_id tr))
     ((release_waiting tr st)\<lparr>rs_memory := mem\<rparr>)) (\<lambda>_ st'. (Inr (tr_result tr), st'))"
  by (simp add: settle_def Let_def) blast

definition tells :: "transition \<Rightarrow> agent_state \<Rightarrow> bool" where
  "tells tr s \<longleftrightarrow> g_status (as_goal s) = goal_of (xr_status (tr_result tr))
     \<and> as_termination_reason s = Some (xr_reason (tr_result tr)) \<and> as_session_id s = xr_session_id (tr_result tr)"

lemma sessions_kept [simp]:
  "rs_sessions (emit_event e a st) = rs_sessions st" "rs_sessions (set_session s st) = rs_sessions st"
  "rs_sessions (set_state f st) = rs_sessions st" "rs_sessions (set_running st) = rs_sessions st"
  by (simp_all add: emit_event_def set_session_def set_state_def set_running_def)

lemma settle_saves:
  assumes "settle le tr st = (Inr x, st')"
  obtains mem st1 where "save_snapshot True ((release_waiting tr st)\<lparr>rs_memory := mem\<rparr>) = (Inr (), st1)" "x = tr_result tr"
      "st' = emit_event (tr_event_type tr) (or_empty (tr_action_id tr)) st1"
proof -
  obtain mem where "bind_op (commit (tr_event_type tr) (or_empty (tr_action_id tr)) ((release_waiting tr st)\<lparr>rs_memory := mem\<rparr>))
      (\<lambda>_ st'. (Inr (tr_result tr), st')) = (Inr x, st')"
    using settle_commits [of le tr st] assms by auto
  then show thesis using that unfolding commit_def bind_Inr by auto
qed

lemma settled_result:
  assumes "settle le tr st = (Inr x, st')" and "tells tr (the_state st)"
  shows "stored_result x st'"
proof -
  let ?r = "release_waiting tr st"
  from assms(1) obtain mem st1 where st1: "save_snapshot True (?r\<lparr>rs_memory := mem\<rparr>) = (Inr (), st1)" "x = tr_result tr"
      "st' = emit_event (tr_event_type tr) (or_empty (tr_action_id tr)) st1"
    by (rule settle_saves)
  have "agrees (tr_result tr) (the_state ?r)"
  proof (cases "as_pending_action (the_state st)")
    case None
    then show ?thesis using assms(2) by (simp add: release_waiting_def agrees_def tells_def)
  next
    case (Some p)
    have "the_state (st\<lparr>rs_exec := release_pending_resource p (rs_exec st)\<rparr>) = the_state st" for st :: runtime_state
      by (simp add: the_state_def the_session_def release_pending_resource_def exec_simps)
    then show ?thesis using assms(2) Some
      by (auto simp: release_waiting_def Let_def agrees_def tells_def the_state_def)
  qed
  then have "agrees x (the_state (?r\<lparr>rs_memory := mem\<rparr>))" by (simp add: st1(2) the_state_def)
  from saved_result [OF st1(1) this] show ?thesis
    by (simp add: st1(3) stored_result_def the_state_def)
qed

lemma transitions_tell:
  "tells (fst (pause r m e a s)) (ss_state (snd (pause r m e a s)))"
  "tells (fst (fail_session c r s)) (ss_state (snd (fail_session c r s)))"
  "tells (fst (cancel_session_run r s)) (ss_state (snd (cancel_session_run r s)))"
  "tells (fst (finish s)) (ss_state (snd (finish s)))"
proof -
  show f: "tells (fst (fail_session c r s)) (ss_state (snd (fail_session c r s)))" for c r
    by (simp add: fail_session_def Let_def tells_def build_result_def mark_current_task_def sync_current_task_def set_goal_status_def)
  show "tells (fst (pause r m e a s)) (ss_state (snd (pause r m e a s)))"
    by (simp add: pause_def Let_def tells_def build_result_def mark_current_task_def sync_current_task_def set_goal_status_def)
  show "tells (fst (cancel_session_run r s)) (ss_state (snd (cancel_session_run r s)))"
    by (simp add: cancel_session_run_def Let_def tells_def build_result_def sync_current_task_def set_goal_status_def)
  show "tells (fst (finish s)) (ss_state (snd (finish s)))"
    using f by (auto simp: finish_def Let_def tells_def build_result_def set_goal_status_def split: option.split)
qed

interpretation stored: settled_law le stored_result for le
proof unfold_locales
  fix x and st st' :: runtime_state
  have settle: "stored_result x st'" if "settle_with le f st = (Inr x, st')"
    "tells (fst (f (the_session st))) (ss_state (snd (f (the_session st))))" for f
    using that settled_result [of le "fst (f (the_session st))" "set_session (snd (f (the_session st))) st" x st']
    by (simp add: settle_with_def split_def the_state_def)
  show "settle_with le (pause r m e a) st = (Inr x, st') \<Longrightarrow> stored_result x st'" for r m e a
    by (rule settle, assumption, rule transitions_tell)
  show "settle_with le (fail_session c r) st = (Inr x, st') \<Longrightarrow> stored_result x st'" for c r
    by (rule settle, assumption, rule transitions_tell)
  show "settle_with le finish st = (Inr x, st') \<Longrightarrow> stored_result x st'"
    by (rule settle, assumption, rule transitions_tell)
  show "settle_with le (cancel_session_run r) st = (Inr x, st') \<Longrightarrow> stored_result x st'" for r
    by (rule settle, assumption, rule transitions_tell)
qed

text \<open>C39. What a run returns is what the store holds. When the loop of a session returns a result (completed,
  failed, waiting or cancelled), the session in memory and the session as any client now loads it have
  that outcome as the status of their goal and its reason as their reason, the version in memory is the
  stored one, and a session that has ended keeps no action pending.\<close>

theorem run_result_is_stored:
  "case continue_controlled le deadline decision pending remember st of
     (Inl e, st') \<Rightarrow> True | (Inr x, st') \<Rightarrow> stored_result x st'"
  using stored.on_control [of le deadline decision pending remember st]
  by (auto split: prod.split sum.split)

subsection \<open>The lock of a cancelled session\<close>

definition locks :: "runtime_state \<Rightarrow> resource_locks" where
  "locks st = xe_locks (rs_exec st)"

lemma locks_kept [simp]:
  "locks (set_session s st) = locks st" "locks (emit_event e a st) = locks st" "locks (st\<lparr>rs_memory := mem\<rparr>) = locks st"
  "locks (st\<lparr>rs_sessions := b\<rparr>) = locks st" "locks (st\<lparr>rs_states := l\<rparr>) = locks st" "locks (st\<lparr>rs_evidence := ev\<rparr>) = locks st"
  "locks (st\<lparr>rs_world := w\<rparr>) = locks st" "locks (set_state f st) = locks st"
  by (simp_all add: locks_def set_session_def emit_event_def set_state_def exec_simps)

lemma locks_saved [simp]: "locks (snd (save_snapshot b st)) = locks st"
  by (auto simp: save_snapshot_def Let_def split: option.split sum.split prod.split)

lemma locks_opened [simp]:
  "locks (snd (hydrate le sn st)) = locks st" "locks (snd (reject_session reason sn st)) = locks st"
  "snd (load sid st) = st"
  by (auto simp: hydrate_def reject_session_def load_def Let_def split: sum.split prod.split list.split)

lemma bind_locks: "locks (snd r) = m \<Longrightarrow> (\<And>a st. r = (Inr a, st) \<Longrightarrow> locks (snd (f a st)) = locks st) \<Longrightarrow> locks (snd (bind_op r f)) = m"
  by (cases r; cases "fst r") (auto simp: bind_op_def)

lemma settled_locks: "locks (snd (settle le tr st)) = locks (release_waiting tr st)"
  unfolding settle_def commit_def Let_def by (rule bind_locks, rule bind_locks) simp_all

lemma cancelled_locks: "locks (snd (settle_with le (cancel_session_run r) st)) = locks st"
  by (simp add: settle_with_def settled_locks release_waiting_def cancel_session_run_def Let_def the_state_def
      sync_current_task_def)

lemma opened_locks: "(\<And>st. locks (snd (f st)) = locks st) \<Longrightarrow> locks (snd (with_session le sid f st)) = locks st"
  unfolding with_session_def by (intro bind_locks) (simp_all split: sum.split)

lemma marked_task_id:
  assumes "session_consistent s"
  shows "t_id (as_current_task (ss_state (mark_current_task ts s))) = t_id (as_current_task (ss_state s))"
proof -
  have id: "t_id (as_current_task (ss_state s)) = tm_current_id (ss_tasks s)" if "session_consistent s" for s
    using current_task_ok [OF consistent_graph [OF that]] that by (auto simp: session_consistent_def)
  have "session_consistent (mark_current_task ts s)" using assms by (intro mark_consistent consistent_graph)
  then show ?thesis using id assms by (simp add: mark_current_task_def)
qed

lemma failed_session_holder:
  assumes "session_consistent s"
  shows "as_session_id (ss_state (snd (fail_session c m s))) = as_session_id (ss_state s)
    \<and> t_id (as_current_task (ss_state (snd (fail_session c m s)))) = t_id (as_current_task (ss_state s))
    \<and> as_pending_action (ss_state (snd (fail_session c m s))) = as_pending_action (ss_state s)"
proof -
  let ?s = "update_state (set_goal_status GoalFailed) s"
  have "session_consistent ?s" using assms by (rule update_state_consistent) simp_all
  from marked_task_id [OF this, of TaskFailed] show ?thesis
    by (simp add: fail_session_def Let_def) (simp add: set_goal_status_def mark_current_task_def sync_current_task_def update_state_def)
qed

text \<open>Cancelling leaks the lock of the pending action. A session that waits for the confirmation of an
  action holds the lock of its resource. When the session fails, the lock is given back; when it is
  cancelled, by a request to its loop or through \<open>cancel\<close>, the action has already been forgotten
  when the session is settled, no lock is released, and every other action on that resource
  is refused from then on.\<close>

theorem cancelling_leaks_the_lock:
  assumes "session_consistent (the_session st)" and "as_pending_action (the_state st) = Some p"
    and "\<not> blank (pa_resource_key p)" and "map_of (locks st) (pa_resource_key p) = Some (pending_lock (rs_exec st) p)"
    and "rl_resource_key l = pa_resource_key p" and "rl_action_id l \<noteq> pa_action_id p"
  shows "map_of (locks (snd (settle_with le (fail_session c m) st))) (pa_resource_key p) = None
    \<and> locks (snd (settle_with le (cancel_session_run r) st)) = locks st
    \<and> locks (snd (cancel_stored_session le sid r st)) = locks st
    \<and> (\<exists>msg. fst (acquire_resource l (locks st)) = Inl (ResourceConflict msg))"
proof (intro conjI)
  let ?st = "set_session (snd (fail_session c m (the_session st))) st"
  let ?st2 = "set_state (\<lambda>s. s\<lparr>as_pending_action := None\<rparr>) ?st"
  have key: "pa_resource_key p \<noteq> []" "py_strip (pa_resource_key p) \<noteq> []" using assms(3) by auto
  note h = failed_session_holder [OF assms(1), of c m]
  have pend: "as_pending_action (the_state ?st) = Some p" using h assms(2) by (simp add: the_state_def)
  have lock: "pending_lock (rs_exec ?st2) p = pending_lock (rs_exec st) p"
    using h by (simp add: pending_lock_def exec_state_def set_state_def set_session_def the_session_def update_state_def)
  have "xr_status (tr_result (fst (fail_session c m (the_session st)))) = ExecFailed"
    by (simp add: fail_session_def Let_def build_result_def)
  then have waiting: "release_waiting (fst (fail_session c m (the_session st))) ?st
      = ?st2\<lparr>rs_exec := release_pending_resource p (rs_exec ?st2)\<rparr>"
    using pend by (simp add: release_waiting_def Let_def ending_status_def)
  have "xe_locks (rs_exec ?st2) = locks st" using locks_kept by (simp add: locks_def)
  then have "locks (release_waiting (fst (fail_session c m (the_session st))) ?st) = AList.delete (pa_resource_key p) (locks st)"
    unfolding waiting using key lock assms(4)
    by (simp add: locks_def release_pending_resource_def release_lock_def release_resource_def exec_simps)
       (simp add: pending_lock_def)
  then have "locks (snd (settle_with le (fail_session c m) st)) = AList.delete (pa_resource_key p) (locks st)"
    by (simp add: settle_with_def split_def settled_locks)
  then show "map_of (locks (snd (settle_with le (fail_session c m) st))) (pa_resource_key p) = None"
    by (simp add: AList.delete_conv)
  show "locks (snd (settle_with le (cancel_session_run r) st)) = locks st" by (rule cancelled_locks)
  show "locks (snd (cancel_stored_session le sid r st)) = locks st"
    unfolding cancel_stored_session_def by (rule opened_locks) (simp add: cancelled_locks refuse_def)
  have "pending_lock (rs_exec st) p \<noteq> l" using assms(6) by (auto simp: pending_lock_def)
  then show "\<exists>msg. fst (acquire_resource l (locks st)) = Inl (ResourceConflict msg)"
    using assms(4,5) key by (simp add: acquire_resource_def parse_non_empty_string_def check_op_def)
qed

subsection \<open>A sample runtime\<close>

text \<open>A session that waits for the confirmation of an action on \<open>db\<close>.\<close>

definition waiting_runtime :: runtime_state where
  "waiting_runtime = (let st = runtime_of (update_state (\<lambda>s. s\<lparr>as_pending_action := Some sample_pending\<rparr>)
       (fresh_session ''s'' sample_goal sample_root)) [] None
     in st\<lparr>rs_exec := (rs_exec st)\<lparr>xe_locks := [(''db'', pending_lock (rs_exec st) sample_pending)]\<rparr>\<rparr>)"

theorem cancelling_leaks_the_lock_witness:
  "map_of (locks (snd (settle_with sample_loop (fail_session TIMEOUT ''late'') waiting_runtime))) ''db'' = None
    \<and> map_of (locks (snd (settle_with sample_loop (cancel_session_run ''stop'') waiting_runtime))) ''db'' \<noteq> None"
proof -
  have 1: "session_consistent (the_session waiting_runtime)"
    unfolding waiting_runtime_def Let_def
    by (simp add: the_session_def runtime_of_def new_executor_def) (intro update_state_consistent fresh_consistent; simp)
  have 2: "as_pending_action (the_state waiting_runtime) = Some sample_pending"
    by (simp add: waiting_runtime_def the_state_def the_session_def runtime_of_def new_executor_def Let_def)
  have 3: "pa_resource_key sample_pending = ''db''" "\<not> blank (pa_resource_key sample_pending)"
    by (simp_all add: sample_pending_def blank_def py_isspace_def)
  have 4: "map_of (locks waiting_runtime) (pa_resource_key sample_pending) = Some (pending_lock (rs_exec waiting_runtime) sample_pending)"
    by (simp add: waiting_runtime_def locks_def 3(1) Let_def) (simp add: pending_lock_def exec_state_def)
  have "rl_resource_key \<lparr>rl_resource_key = ''db'', rl_action_id = ''b'', rl_session_id = ''t'', rl_task_id = ''u''\<rparr> = pa_resource_key sample_pending"
    "rl_action_id \<lparr>rl_resource_key = ''db'', rl_action_id = ''b'', rl_session_id = ''t'', rl_task_id = ''u''\<rparr> \<noteq> pa_action_id sample_pending"
    by (simp_all add: sample_pending_def)
  from cancelling_leaks_the_lock [OF 1 2 3(2) 4 this, of sample_loop] show ?thesis
    using 4 by (simp add: 3(1))
qed

subsection \<open>Refusals and sessions that cannot be opened\<close>

text \<open>The operations on a stored session, and when its status forbids them.\<close>

definition opens :: "string \<Rightarrow> runtime_op \<Rightarrow> bool" where
  "opens sid op \<longleftrightarrow> (case op of OpRun _ _ _ \<Rightarrow> False | OpRunCompilation _ _ _ \<Rightarrow> False | OpResume s _ _ \<Rightarrow> s = sid
     | OpContinue s _ _ \<Rightarrow> s = sid | OpPause s _ \<Rightarrow> s = sid | OpCancel s _ \<Rightarrow> s = sid)"

definition forbidden :: "runtime_op \<Rightarrow> agent_state \<Rightarrow> bool" where
  "forbidden op s \<longleftrightarrow> (let g = g_status (as_goal s) in case op of
       OpResume _ c _ \<Rightarrow> g \<noteq> GoalWaiting \<or> as_pending_action s = None \<and> c \<noteq> None
     | OpContinue _ _ _ \<Rightarrow> g \<in> {GoalRunning, GoalWaiting}
     | OpPause _ _ \<Rightarrow> g \<in> {GoalCompleted, GoalFailed, GoalCancelled}
     | OpCancel _ _ \<Rightarrow> g \<in> {GoalCompleted, GoalFailed, GoalCancelled}
     | _ \<Rightarrow> False)"

definition body :: "loop_env \<Rightarrow> runtime_op \<Rightarrow> runtime_state \<Rightarrow> execution_result run" where
  "body le op = (case op of
       OpResume _ confirmed remember \<Rightarrow> resume_open le confirmed remember
     | OpContinue _ message timeout \<Rightarrow> continue_open le message timeout
     | OpPause _ reason \<Rightarrow> (\<lambda>st. if session_ended st then refuse ''cannot pause a terminal session'' st
         else settle_with le (pause reason None ''SessionPaused'' None) st)
     | OpCancel _ reason \<Rightarrow> (\<lambda>st. if session_ended st then refuse ''cannot cancel a terminal session'' st
         else settle_with le (cancel_session_run reason) st)
     | _ \<Rightarrow> refuse [])"

lemma perform_opens: "opens sid op \<Longrightarrow> perform le op st = with_session le sid (body le op) st"
  by (cases op) (simp_all add: opens_def resume_def continue_session_def pause_session_def cancel_stored_session_def body_def)

lemma forbidden_refused: "opens sid op \<Longrightarrow> forbidden op (the_state st) \<Longrightarrow> \<exists>m. body le op st = refuse m st"
  by (cases op) (auto simp: opens_def forbidden_def body_def resume_open_def continue_open_def the_goal_status_def
      session_ended_def Let_def)


text \<open>Nothing that is missing in the store can be saved.\<close>

definition missing :: "runtime_state \<Rightarrow> bool" where
  "missing st \<longleftrightarrow> map_of (rs_sessions st) (as_session_id (the_state st)) = None"

lemma missing_not_saved:
  assumes "missing st"
  shows "\<exists>e st'. save_snapshot b st = (Inl (LoopRaised e), st') \<and> rs_sessions st' = rs_sessions st"
proof (cases "session_to_snapshot (rs_evidence st) (the_session st)")
  case None
  then show ?thesis by (simp add: save_snapshot_def Let_def)
next
  case (Some sn)
  then have "snapshot_id sn = as_session_id (the_state st)"
    by (auto simp: session_to_snapshot_def Let_def snapshot_id_def the_state_def sync_current_task_def)
  then have "map_of (rs_sessions st) (snapshot_id sn) = None" using assms by (simp add: missing_def)
  then show ?thesis using Some by (simp add: save_snapshot_def Let_def save_session_def)
qed

lemma missing_not_committed: "missing st \<Longrightarrow> \<exists>x st'. commit e a st = (Inl (LoopRaised x), st') \<and> rs_sessions st' = rs_sessions st"
  using missing_not_saved [of st True] by (auto simp: commit_def)

lemma missing_not_settled:
  assumes "missing (set_session (snd (f (the_session st))) st)"
  shows "\<exists>e st'. settle_with le f st = (Inl (LoopRaised e), st') \<and> rs_sessions st' = rs_sessions st"
proof -
  let ?st = "set_session (snd (f (the_session st))) st" and ?tr = "fst (f (the_session st))"
  have same: "rs_sessions (release_waiting ?tr ?st) = rs_sessions st"
    "as_session_id (the_state (release_waiting ?tr ?st)) = as_session_id (the_state ?st)"
    using released_session [of ?tr ?st] by (auto simp: release_waiting_def Let_def the_state_def split: option.split)
  then have "missing ((release_waiting ?tr ?st)\<lparr>rs_memory := mem\<rparr>)" for mem
    using assms by (simp add: missing_def the_state_def)
  then have m: "missing ((release_waiting ?tr ?st)\<lparr>rs_memory := mem\<rparr>)" for mem .
  obtain mem where "settle le ?tr ?st = bind_op (commit (tr_event_type ?tr) (or_empty (tr_action_id ?tr))
      ((release_waiting ?tr ?st)\<lparr>rs_memory := mem\<rparr>)) (\<lambda>_ st'. (Inr (tr_result ?tr), st'))"
    using settle_commits by blast
  moreover obtain e st' where "commit (tr_event_type ?tr) (or_empty (tr_action_id ?tr))
      ((release_waiting ?tr ?st)\<lparr>rs_memory := mem\<rparr>) = (Inl (LoopRaised e), st')" "rs_sessions st' = rs_sessions st"
    using missing_not_committed [OF m] same(1) by fastforce
  ultimately show ?thesis by (simp add: settle_with_def split_def)
qed

text \<open>An operation that cannot save: it is refused or it raises, and the store is as before.\<close>

definition stuck :: "runtime_state \<Rightarrow> execution_result run \<Rightarrow> bool" where
  "stuck st r \<longleftrightarrow> rs_sessions (snd r) = rs_sessions st
     \<and> (case fst r of Inl _ \<Rightarrow> True | Inr x \<Rightarrow> xr_status x = ExecFailed \<and> xr_error_code x = Some INVALID_STATE)"

lemma stuck_refused: "stuck st (refuse m st)"
  by (simp add: stuck_def refuse_def build_result_def)

lemma stuck_settled: "missing (set_session (snd (f (the_session st))) st) \<Longrightarrow> stuck st (settle_with le f st)"
  using missing_not_settled [of f st le] by (auto simp: stuck_def)

lemma stuck_committed: "missing st1 \<Longrightarrow> rs_sessions st1 = rs_sessions st \<Longrightarrow> stuck st (bind_op (commit e a st1) f)"
  using missing_not_committed [of st1 e a] by (auto simp: stuck_def)

lemma missing_bound:
  "missing st1 \<Longrightarrow> rs_sessions st1 = rs_sessions st \<Longrightarrow>
     \<exists>x st'. bind_op (commit e a st1) f = (Inl (LoopRaised x), st') \<and> rs_sessions st' = rs_sessions st"
  using missing_not_committed [of st1 e a] by auto

lemma fixed_id: "fixed s = fixed s' \<Longrightarrow> as_session_id s = as_session_id s'"
  by (simp add: fixed_def)

lemmas fixed_ids = fixed_transitions [THEN fixed_id] fixed_mark [THEN fixed_id] fixed_goal [THEN fixed_id]

lemma missing_steps:
  "missing (set_running st) = missing st" "missing (set_state (\<lambda>s. s\<lparr>as_termination_reason := t\<rparr>) st) = missing st"
  "missing (set_state (\<lambda>s. s\<lparr>as_pending_action := q\<rparr>) st) = missing st"
  "missing (set_state (\<lambda>s. s\<lparr>as_recovery_attempts := d s\<rparr>) st) = missing st"
  "missing (st\<lparr>rs_exec := release_pending_resource p (rs_exec st)\<rparr>) = missing st"
  "missing (set_session (snd (pause r m e a (the_session st))) st) = missing st"
  "missing (set_session (snd (fail_session c r (the_session st))) st) = missing st"
  "missing (set_session (snd (cancel_session_run r (the_session st))) st) = missing st"
  by (simp_all add: missing_def the_state_def set_running_def returned_session fixed_ids)

lemma resume_stuck: "missing st \<Longrightarrow> stuck st (resume_open le c rem st)"
proof -
  assume m: "missing st"
  have "stuck st (resume_rejected le p st)" for p
  proof -
    let ?st1 = "set_state (\<lambda>s. s\<lparr>as_pending_action := None\<rparr>) (clear_reason (set_running st))"
    let ?st2 = "?st1\<lparr>rs_exec := release_pending_resource p (rs_exec ?st1)\<rparr>"
    have st2: "missing ?st2" "rs_sessions ?st2 = rs_sessions st"
      using m by (simp_all add: clear_reason_def missing_steps)
    let ?f = "failure_of ?st2 p CONFIRMATION_REJECTED ''user rejected pending action''"
    let ?d = "decide (rt_recovery_rules (le_components le)) ?f (as_recovery_attempts (the_state ?st2))"
    let ?st3 = "set_state (\<lambda>s. s\<lparr>as_recovery_attempts := note_attempt ?d (as_recovery_attempts s)\<rparr>) ?st2"
    have st3: "missing ?st3" "rs_sessions ?st3 = rs_sessions st" using st2 by (simp_all only: missing_steps sessions_kept)
    have "\<exists>x st'. plan_recovery le p ?f ?st2 = (Inl (LoopRaised x), st') \<and> rs_sessions st' = rs_sessions st"
      unfolding plan_recovery_def Let_def by (rule missing_bound [OF st3])
    then show ?thesis by (auto simp: resume_rejected_def Let_def stuck_def)
  qed
  then show ?thesis using m
    by (auto simp: resume_open_def Let_def stuck_refused missing_steps clear_reason_def
        intro!: stuck_settled stuck_committed)
qed

lemma continue_stuck: "missing st \<Longrightarrow> stuck st (continue_open le message timeout st)"
proof -
  assume m: "missing st"
  have raised: "stuck st (Inl e, set_session s st)" for e s by (simp add: stuck_def)
  have "missing (set_session (mark_current_task TaskRunning (update_state (continued_state t) ((the_session st)\<lparr>ss_tasks := m'\<rparr>))) st)" for t m'
    using m by (simp add: missing_def the_state_def fixed_ids continued_state_def)
  then show ?thesis using m
    by (auto simp: continue_open_def Let_def stuck_refused raised intro!: stuck_committed
        split: sum.split prod.split list.split) (simp_all add: stuck_def)
qed

lemma body_stuck: "opens sid op \<Longrightarrow> missing st \<Longrightarrow> stuck st (body le op st)"
  by (cases op) (auto simp: opens_def body_def stuck_refused missing_steps intro!: resume_stuck continue_stuck stuck_settled)

lemma journal_id:
  assumes "load sid st = (Inr sn, st)" and "map_of (rs_sessions st) sid = None"
  shows "snapshot_id sn = sid"
proof -
  let ?xs = "filter (\<lambda>sn. snapshot_id sn = sid) (case rs_states st of None \<Rightarrow> [] | Some l \<Rightarrow> l)"
  have "?xs \<noteq> [] \<and> sn = last ?xs"
    using assms by (auto simp: load_def load_session_def simp del: filter_empty_conv split: list.splits)
  then have "sn \<in> set ?xs" using last_in_set by blast
  then show ?thesis by simp
qed

lemma rejected_id [simp]: "snapshot_id (rejected_snapshot reason sn) = snapshot_id sn"
  by (simp add: rejected_snapshot_def session_from_state_def snapshot_id_def set_goal_status_def Let_def)

text \<open>A session that is rebuilt from the journal cannot run. When the store does not have a session, the
  runtime takes its last recorded state from the event store, but does not create it in the store: whatever
  the caller then asks for, resuming, continuing, pausing or cancelling, is refused or raises at the first
  save, and the store stays without the session.\<close>

theorem rebuilt_session_cannot_run:
  assumes "opens sid op" and "map_of (rs_sessions st) sid = None"
  shows "case perform le op st of (r, st') \<Rightarrow> rs_sessions st' = rs_sessions st
    \<and> (case r of Inl _ \<Rightarrow> True | Inr x \<Rightarrow> xr_status x = ExecFailed \<and> xr_error_code x = Some INVALID_STATE)"
proof -
  have "stuck st (with_session le sid (body le op) st)"
  proof (cases "fst (load sid st)")
    case (Inl e)
    then show ?thesis by (cases "load sid st") (auto simp: with_session_def stuck_def load_def split: sum.splits list.splits)
  next
    case (Inr sn)
    have l: "load sid st = (Inr sn, st)" using Inr locks_opened(3) [of sid st] by (cases "load sid st") simp
    have sid: "snapshot_id sn = sid" by (rule journal_id [OF l assms(2)])
    obtain r st1 where h: "hydrate le sn st = (r, st1)" by fastforce
    have same: "rs_sessions st1 = rs_sessions st" using h by (auto simp: hydrate_def Let_def split: sum.splits prod.splits)
    show ?thesis
    proof (cases "\<exists>u. r = Inr (Inr u)")
      case True
      then have "as_session_id (the_state st1) = snapshot_id sn" using h
        by (auto simp: hydrate_def Let_def the_state_def snapshot_id_def hydrate_session_def sync_current_task_def
            split: sum.splits prod.splits option.splits)
      then have "missing st1" using assms(2) same sid by (simp add: missing_def)
      from body_stuck [OF assms(1) this, of le] show ?thesis using True same l h by (auto simp: with_session_def stuck_def)
    next
      case False
      have rej: "stuck st (reject_session reason sn st1)" for reason
        using same assms(2) sid by (simp add: stuck_def reject_session_def Let_def save_session_def)
      show ?thesis
      proof (cases r)
        case (Inl e)
        then show ?thesis using l h same by (simp add: with_session_def stuck_def)
      next
        case (Inr q)
        then obtain reason where "q = Inl reason" using False by (cases q) auto
        then show ?thesis using l h Inr rej [of reason] by (simp add: with_session_def)
      qed
    qed
  qed
  then show ?thesis by (auto simp: perform_opens [OF assms(1)] stuck_def split: prod.split)
qed

text \<open>Opening a session with other domains destroys it. Any operation on a session whose recorded domains
  are not those of the runtime, also one that only meant to look or to pause, fails the session in the
  store: its evidence and its task graph are gone, only the current task is left, as failed.\<close>

theorem mismatch_destroys_session:
  assumes "opens sid op" and "map_of (rs_sessions st) sid = Some sn" and "snapshot_id sn = sid"
    and "domain_mismatch (copy_session sn) (identities_of (rt_composition (le_components le)))
      (md_name (primary_metadata le)) (md_version (primary_metadata le)) = Some reason"
  shows "\<exists>x st' sn'. perform le op st = (Inr x, st') \<and> xr_status x = ExecFailed \<and> xr_reason x = reason
    \<and> load_session sid (rs_sessions st') = Inr sn' \<and> sn_evidence sn' = [] \<and> length (tg_nodes (sn_task_graph sn')) = 1
    \<and> g_status (as_goal (sn_state sn')) = GoalFailed \<and> locks st' = locks st"
proof -
  let ?sn = "copy_session sn" and ?f = "rejected_snapshot reason (copy_session sn)"
  have "load_session sid (rs_sessions st) = Inr ?sn" using assms(2) by (simp add: load_session_def)
  moreover have h: "hydrate le ?sn st = (Inr (Inl reason), st)"
    using assms(4) by (simp add: hydrate_def Let_def hydrate_session_def)
  ultimately have run: "perform le op st = reject_session reason ?sn st"
    by (simp add: perform_opens [OF assms(1)] with_session_def load_def)
  have f: "snapshot_id ?f = sid" "sn_version ?f = sn_version sn" "sn_evidence ?f = []"
      "length (tg_nodes (sn_task_graph ?f)) = 1" "g_status (as_goal (sn_state ?f)) = GoalFailed"
    using assms(3) by (simp_all, simp_all add: rejected_snapshot_def session_from_state_def Let_def set_goal_status_def)
  define sessions where "sessions = AList.update sid ((copy_session ?f)\<lparr>sn_version := sn_version sn + 1\<rparr>) (rs_sessions st)"
  have "save_session ?f (rs_sessions st) = (Inr (sn_version sn + 1), sessions)"
    using assms(2) f(1,2) by (simp add: save_session_def sessions_def)
  then have "perform le op st = (Inr (build_result (sn_state ?f) ExecFailed reason (Some INVALID_STATE) None),
      emit_event ''GoalFailed'' [] (st\<lparr>rs_sessions := sessions\<rparr>))"
    by (simp add: run reject_session_def Let_def)
  moreover have "load_session sid sessions = Inr (copy_session ((copy_session ?f)\<lparr>sn_version := sn_version sn + 1\<rparr>))"
    by (simp add: load_session_def sessions_def dict_simps)
  moreover have copy: "length (tg_nodes (sn_task_graph (copy_session s))) = length (tg_nodes (sn_task_graph s))"
      "as_goal (sn_state (copy_session s)) = as_goal (sn_state s)" for s
    by (simp_all add: copy_session_def copy_state_def Let_def split: prod.split)
  ultimately show ?thesis using f by (auto simp: build_result_def)
qed

text \<open>A finished session of the domain of the sample runtime, and one of another domain.\<close>

definition stored_of :: "string \<Rightarrow> session_snapshot" where
  "stored_of d = session_from_state (fresh_state ''s'' (sample_goal\<lparr>g_status := GoalCompleted\<rparr>) sample_root False) d ''1'' []"


theorem rebuilt_session_cannot_run_witness:
  "rs_sessions (snd (perform sample_loop (OpResume ''s'' None False)
     (runtime_of (fresh_session ''s'' sample_goal sample_root) [] (Some [stored_of ''k8s''])))) = []"
  using rebuilt_session_cannot_run [of "''s''" "OpResume ''s'' None False"
      "runtime_of (fresh_session ''s'' sample_goal sample_root) [] (Some [stored_of ''k8s''])" sample_loop]
  by (auto simp: opens_def runtime_of_def split: prod.splits)

theorem mismatch_destroys_session_witness:
  "\<exists>st' sn'. snd (perform sample_loop (OpPause ''s'' ''r'') (runtime_of (fresh_session ''s'' sample_goal sample_root)
       [(''s'', stored_of ''git'')] None)) = st'
     \<and> load_session ''s'' (rs_sessions st') = Inr sn' \<and> g_status (as_goal (sn_state sn')) = GoalFailed"
proof -
  let ?st = "runtime_of (fresh_session ''s'' sample_goal sample_root) [(''s'', stored_of ''git'')] None"
  have m: "map_of (rs_sessions ?st) ''s'' = Some (stored_of ''git'')" by (simp add: runtime_of_def)
  have i: "snapshot_id (stored_of ''git'') = ''s''"
    by (simp add: snapshot_id_def stored_of_def session_from_state_def fresh_state_def)
  have "\<not> Option.is_none (domain_mismatch (copy_session (stored_of ''git'')) (identities_of (rt_composition (le_components sample_loop)))
      (md_name (primary_metadata sample_loop)) (md_version (primary_metadata sample_loop)))" by code_simp
  then obtain reason where "domain_mismatch (copy_session (stored_of ''git'')) (identities_of (rt_composition (le_components sample_loop)))
      (md_name (primary_metadata sample_loop)) (md_version (primary_metadata sample_loop)) = Some reason"
    by (auto simp: Option.is_none_def split: option.splits)
  from mismatch_destroys_session [OF _ m i this, of "OpPause ''s'' ''r''"] show ?thesis by (auto simp: opens_def)
qed

end
