(* ===== verification/Queue_Worker.thy ===== *)
theory Queue_Worker
  imports Queue_Submit Worker_Registry
begin

text \<open>
  \<open>WorkQueueWorker\<close> of \<open>distributed/worker.py\<close>: it leases an item, calls the handler for its
  kind, renews the lease while the handler runs, and writes the handler's result back.

  A handler is code of the user. All that the worker sees of a call is a \<open>handler_run\<close>: what
  other users of the queue and of the registry did up to each time-out of the wait (with the clock
  then), what they did up to the end, how the call ended and what the clock said then; and, for
  the case that the worker stops the handler, what happened until it had stopped and the exception
  it stopped with, if that was not its cancellation. A handler that returns without waiting is one
  without time-outs. \<open>HandlerCancelled\<close> is the cancellation of the worker itself.
\<close>

subsection \<open>Results\<close>

datatype work_handler_status = HandlerCompleted | HandlerFailed | HandlerCancel

datatype worker_run_status = RunCompleted | RunRetrying | RunFailed | RunCancelled | RunNoWork
  | RunLeaseLost | RunWorkerInactive

record work_handler_result =
  hres_status :: work_handler_status
  hres_reason :: string
  hres_retry :: bool

definition handler_result_checked :: "work_handler_result \<Rightarrow> string + work_handler_result" where
  "handler_result_checked r =
     (if hres_status r \<noteq> HandlerCompleted \<and> py_strip (hres_reason r) = []
      then Inl ''non-completed handler result requires a reason'' else Inr r)"

definition result_completed :: "string \<Rightarrow> string + work_handler_result" where
  "result_completed reason = handler_result_checked
     \<lparr>hres_status = HandlerCompleted, hres_reason = reason, hres_retry = False\<rparr>"

definition result_failed :: "string \<Rightarrow> bool \<Rightarrow> string + work_handler_result" where
  "result_failed reason retry = handler_result_checked
     \<lparr>hres_status = HandlerFailed, hres_reason = reason, hres_retry = retry\<rparr>"

definition result_cancelled :: "string \<Rightarrow> string + work_handler_result" where
  "result_cancelled reason = handler_result_checked
     \<lparr>hres_status = HandlerCancel, hres_reason = reason, hres_retry = False\<rparr>"

record worker_run_result =
  wrr_status :: worker_run_status
  wrr_worker_id :: string
  wrr_work_item :: "work_item option"
  wrr_lease_id :: "string option"
  wrr_reason :: string

subsection \<open>The worker and what it shares with others\<close>

record worker_pool =
  wp_queue :: work_queue
  wp_registry :: "worker_registry option"

datatype pool_event = OnQueue queue_event | OnRegistry worker_event

fun pool_step :: "worker_pool \<Rightarrow> pool_event \<Rightarrow> worker_pool" where
  "pool_step p (OnQueue e) = p\<lparr>wp_queue := queue_step (wp_queue p) e\<rparr>"
| "pool_step p (OnRegistry e) =
     p\<lparr>wp_registry := (case wp_registry p of None \<Rightarrow> None | Some s \<Rightarrow> Some (worker_step s e))\<rparr>"

abbreviation others :: "pool_event list \<Rightarrow> worker_pool \<Rightarrow> worker_pool" where
  "others es p \<equiv> run_events pool_step p es"

datatype handler_end = HandlerReturned work_handler_result | HandlerLeaseLost string
  | HandlerRaised string | HandlerCancelled

record handler_run =
  hr_ticks :: "(pool_event list \<times> time) list"
  hr_meanwhile :: "pool_event list"
  hr_end :: handler_end
  hr_ended_at :: time
  hr_winding_down :: "pool_event list"
  hr_stopped_with :: "handler_end option"

text \<open>The handlers are a dictionary, in the order in which it was built.\<close>

record queue_worker =
  qw_worker_id :: string
  qw_handlers :: "(string, work_item \<Rightarrow> handler_run) dict"
  qw_lease_ttl_seconds :: rat
  qw_worker_ttl_seconds :: rat
  qw_worker_capabilities :: "string list"
  qw_heartbeat_interval_seconds :: rat

definition queue_worker_checked :: "string \<Rightarrow> (string, work_item \<Rightarrow> handler_run) dict \<Rightarrow> rat \<Rightarrow> rat
    \<Rightarrow> string list option \<Rightarrow> rat option \<Rightarrow> string + queue_worker" where
  "queue_worker_checked w hs lttl wttl caps interval =
     (case parse_non_empty_string w ''worker_id'' of Inl m \<Rightarrow> Inl m | Inr _ \<Rightarrow>
      case parse_positive_float lttl ''lease_ttl_seconds'' of Inl m \<Rightarrow> Inl m | Inr _ \<Rightarrow>
      case parse_positive_float wttl ''worker_ttl_seconds'' of Inl m \<Rightarrow> Inl m | Inr _ \<Rightarrow>
      case (case interval of None \<Rightarrow> Inr None
            | Some x \<Rightarrow> map_sum id Some (parse_positive_float x ''heartbeat_interval_seconds''))
      of Inl m \<Rightarrow> Inl m | Inr _ \<Rightarrow>
      Inr \<lparr>qw_worker_id = w, qw_handlers = hs, qw_lease_ttl_seconds = lttl,
        qw_worker_ttl_seconds = wttl,
        qw_worker_capabilities = (case caps of None \<Rightarrow> sort (map fst hs) | Some cs \<Rightarrow> cs),
        qw_heartbeat_interval_seconds = (case interval of None \<Rightarrow> lttl / 2 | Some x \<Rightarrow> x)\<rparr>)"

text \<open>
  Exceptions: a \<open>LeaseLostError\<close> and any other exception of the handler, which \<open>run_once\<close> both
  catches; its own cancellation and the errors of queue and registry, which leave it.
\<close>

datatype worker_exit = ExitLeaseLost string | ExitRaised string | ExitCancelled
  | ExitQueue queue_error | ExitRegistry worker_error

type_synonym 'a pool_outcome = "(worker_pool, worker_exit, 'a) outcome"

definition queue_exit :: "queue_error \<Rightarrow> worker_exit" where
  "queue_exit e = (case e of LeaseLost m \<Rightarrow> ExitLeaseLost m | _ \<Rightarrow> ExitQueue e)"

definition with_queue :: "(work_queue \<Rightarrow> 'a queue_outcome) \<Rightarrow> worker_pool \<Rightarrow> 'a pool_outcome" where
  "with_queue f p = (case f (wp_queue p) of (r, q) \<Rightarrow> (map_error queue_exit r, p\<lparr>wp_queue := q\<rparr>))"

definition with_registry :: "worker_registry \<Rightarrow> (worker_registry \<Rightarrow> 'a worker_outcome) \<Rightarrow> worker_pool
    \<Rightarrow> (worker_pool, worker_error, 'a) outcome" where
  "with_registry s f p = (case f s of (r, s') \<Rightarrow> (r, p\<lparr>wp_registry := Some s'\<rparr>))"

definition worker_result :: "queue_worker \<Rightarrow> worker_run_status \<Rightarrow> work_item option \<Rightarrow> string option \<Rightarrow> string
    \<Rightarrow> worker_run_result" where
  "worker_result w s i lid reason = \<lparr>wrr_status = s, wrr_worker_id = qw_worker_id w,
     wrr_work_item = i, wrr_lease_id = lid, wrr_reason = reason\<rparr>"

subsection \<open>Writing the result back\<close>

text \<open>
  The \<open>except LeaseLostError\<close> of three places: the result names the item as it is in the queue
  by now; \<open>get\<close> raises when it was pruned.
\<close>

definition on_lease_lost :: "queue_worker \<Rightarrow> work_item \<Rightarrow> string \<Rightarrow> worker_run_result pool_outcome
    \<Rightarrow> worker_run_result pool_outcome" where
  "on_lease_lost w i lid r = (case r of
     (Inl (ExitLeaseLost m), p) \<Rightarrow>
       check_op (map_error ExitQueue (get_item (wi_work_item_id i) (wp_queue p))) p (\<lambda>cur.
         (Inr (worker_result w RunLeaseLost (Some cur) (Some lid) m), p))
   | _ \<Rightarrow> r)"

definition result_from_failed_item :: "queue_worker \<Rightarrow> string \<Rightarrow> work_item \<Rightarrow> worker_run_result" where
  "result_from_failed_item w lid i =
     worker_result w (if wi_status i = WQueued then RunRetrying else RunFailed) (Some i) (Some lid)
       (case wi_last_error i of None \<Rightarrow> [] | Some m \<Rightarrow> m)"

definition fail_leased_item :: "queue_worker \<Rightarrow> work_item \<Rightarrow> string \<Rightarrow> string \<Rightarrow> bool \<Rightarrow> time
    \<Rightarrow> worker_pool \<Rightarrow> worker_run_result pool_outcome" where
  "fail_leased_item w i lid reason retry now p =
     on_lease_lost w i lid
       (bind_op (with_queue (fail_work lid (qw_worker_id w) reason retry now) p)
          (\<lambda>failed p'. (Inr (result_from_failed_item w lid failed), p')))"

definition apply_handler_result :: "queue_worker \<Rightarrow> work_item \<Rightarrow> string \<Rightarrow> work_handler_result \<Rightarrow> time
    \<Rightarrow> worker_pool \<Rightarrow> worker_run_result pool_outcome" where
  "apply_handler_result w i lid r now p =
     on_lease_lost w i lid
       (case hres_status r of
          HandlerCompleted \<Rightarrow> bind_op (with_queue (complete_work lid (qw_worker_id w) now) p)
            (\<lambda>j p'. (Inr (worker_result w RunCompleted (Some j) (Some lid) (hres_reason r)), p'))
        | HandlerCancel \<Rightarrow> bind_op (with_queue (cancel_work (wi_work_item_id i) (hres_reason r) now) p)
            (\<lambda>j p'. (Inr (worker_result w RunCancelled (Some j) (Some lid) (hres_reason r)), p'))
        | HandlerFailed \<Rightarrow>
            bind_op (with_queue (fail_work lid (qw_worker_id w) (hres_reason r) (hres_retry r) now) p)
              (\<lambda>j p'. (Inr (result_from_failed_item w lid j), p')))"

subsection \<open>Preparing the worker\<close>

definition register_self :: "queue_worker \<Rightarrow> time \<Rightarrow> worker_registry \<Rightarrow> worker_pool
    \<Rightarrow> worker_run_result option pool_outcome" where
  "register_self w now s p =
     (case with_registry s (register_worker (qw_worker_id w) (qw_worker_capabilities w) []
             (qw_worker_ttl_seconds w) now) p of
        (Inl e, p') \<Rightarrow> (Inl (ExitRegistry e), p') | (Inr _, p') \<Rightarrow> (Inr None, p'))"

definition inactive :: "queue_worker \<Rightarrow> string \<Rightarrow> worker_run_result option" where
  "inactive w reason = Some (worker_result w RunWorkerInactive None None reason)"

fun worker_status_value :: "worker_status \<Rightarrow> string" where
  "worker_status_value Online = ''online''"
| "worker_status_value Draining = ''draining''"
| "worker_status_value Offline = ''offline''"
| "worker_status_value Lost = ''lost''"

text \<open>The heartbeat of \<open>_prepare_worker\<close> and what follows when the worker is not found alive.\<close>

definition renew_self :: "queue_worker \<Rightarrow> time \<Rightarrow> worker_registry \<Rightarrow> worker_pool
    \<Rightarrow> worker_run_result option pool_outcome" where
  "renew_self w now s p =
     (case with_registry s (heartbeat_worker (qw_worker_id w) (qw_worker_ttl_seconds w) now) p of
        (Inr _, p1) \<Rightarrow> (Inr None, p1)
      | (Inl (WorkerValueErr m), p1) \<Rightarrow> (Inl (ExitRegistry (WorkerValueErr m)), p1)
      | (Inl (WorkerNotFound m), p1) \<Rightarrow>
          (let s1 = (case wp_registry p1 of None \<Rightarrow> s | Some s1 \<Rightarrow> s1)
           in case get_worker (qw_worker_id w) s1 of
             Inl (WorkerValueErr m') \<Rightarrow> (Inl (ExitRegistry (WorkerValueErr m')), p1)
           | Inl (WorkerNotFound _) \<Rightarrow> (Inr (inactive w m), p1)
           | Inr r \<Rightarrow> if wr_status r = Lost then register_self w now s1 p1
                      else (Inr (inactive w m), p1)))"

definition prepare_worker :: "queue_worker \<Rightarrow> time \<Rightarrow> worker_pool \<Rightarrow> worker_run_result option pool_outcome" where
  "prepare_worker w now p =
     (case wp_registry p of None \<Rightarrow> (Inr None, p)
      | Some s \<Rightarrow>
        (case get_worker (qw_worker_id w) s of
           Inl (WorkerValueErr m) \<Rightarrow> (Inl (ExitRegistry (WorkerValueErr m)), p)
         | Inl (WorkerNotFound _) \<Rightarrow> register_self w now s p
         | Inr r \<Rightarrow>
             if wr_status r = Lost then register_self w now s p
             else if wr_status r \<in> {Draining, Offline}
             then (Inr (inactive w (''worker is '' @ worker_status_value (wr_status r))), p)
             else renew_self w now s p))"

subsection \<open>Calling the handler\<close>

definition heartbeat_active_lease :: "queue_worker \<Rightarrow> string \<Rightarrow> time \<Rightarrow> worker_pool \<Rightarrow> unit pool_outcome" where
  "heartbeat_active_lease w lid now p =
     bind_op (with_queue (heartbeat lid (qw_worker_id w) (qw_lease_ttl_seconds w) now) p) (\<lambda>_ p1.
       case wp_registry p1 of None \<Rightarrow> (Inr (), p1)
       | Some s \<Rightarrow>
         (case with_registry s (heartbeat_worker (qw_worker_id w) (qw_worker_ttl_seconds w) now) p1 of
            (Inr _, p2) \<Rightarrow> (Inr (), p2)
          | (Inl (WorkerValueErr m), p2) \<Rightarrow> (Inl (ExitRegistry (WorkerValueErr m)), p2)
          | (Inl (WorkerNotFound m), p2) \<Rightarrow>
              (case with_queue (fail_work lid (qw_worker_id w) (''worker heartbeat failed: '' @ m) True now) p2 of
                 (Inl e, p3) \<Rightarrow> (Inl (case e of ExitLeaseLost _ \<Rightarrow>
                     ExitLeaseLost (''worker heartbeat failed: '' @ m) | _ \<Rightarrow> e), p3)
               | (Inr _, p3) \<Rightarrow> (Inl (ExitLeaseLost (''worker heartbeat failed: '' @ m)), p3))))"

fun end_result :: "handler_end \<Rightarrow> worker_exit + work_handler_result" where
  "end_result (HandlerReturned r) = Inr r"
| "end_result (HandlerLeaseLost m) = Inl (ExitLeaseLost m)"
| "end_result (HandlerRaised m) = Inl (ExitRaised m)"
| "end_result HandlerCancelled = Inl ExitCancelled"

text \<open>The handler is stopped: an exception it stops with replaces the one it was stopped for.\<close>

definition stop_handler :: "handler_run \<Rightarrow> worker_exit \<Rightarrow> worker_pool \<Rightarrow> work_handler_result pool_outcome" where
  "stop_handler h e p = (Inl (case hr_stopped_with h of None \<Rightarrow> e
       | Some x \<Rightarrow> (case end_result x of Inl ExitCancelled \<Rightarrow> e | Inl e' \<Rightarrow> e' | Inr _ \<Rightarrow> e)),
     others (hr_winding_down h) p)"

fun wait_for :: "queue_worker \<Rightarrow> string \<Rightarrow> handler_run \<Rightarrow> (pool_event list \<times> time) list \<Rightarrow> worker_pool
    \<Rightarrow> work_handler_result pool_outcome" where
  "wait_for w lid h [] p = (let p' = others (hr_meanwhile h) p
     in case end_result (hr_end h) of Inl ExitCancelled \<Rightarrow> stop_handler h ExitCancelled p' | r \<Rightarrow> (r, p'))"
| "wait_for w lid h ((es, now) # ticks) p =
     (case heartbeat_active_lease w lid now (others es p) of
        (Inl e, p') \<Rightarrow> stop_handler h e p'
      | (Inr _, p') \<Rightarrow> wait_for w lid h ticks p')"

definition call_handler :: "queue_worker \<Rightarrow> string \<Rightarrow> handler_run \<Rightarrow> worker_pool \<Rightarrow> work_handler_result pool_outcome" where
  "call_handler w lid h p = wait_for w lid h (hr_ticks h) p"

subsection \<open>\<open>run_once\<close>, \<open>run_until_idle\<close>\<close>

text \<open>\<open>str(exc)\<close> of what \<open>except Exception\<close> catches there.\<close>

fun exit_text :: "worker_exit \<Rightarrow> string" where
  "exit_text (ExitQueue (ValueErr m)) = m"
| "exit_text (ExitQueue (NoWorkAvailable m)) = m"
| "exit_text (ExitQueue (WorkItemNotFound m)) = m"
| "exit_text (ExitQueue (LeaseLost m)) = m"
| "exit_text (ExitRegistry (WorkerValueErr m)) = m"
| "exit_text (ExitRegistry (WorkerNotFound m)) = m"
| "exit_text (ExitRaised m) = m"
| "exit_text (ExitLeaseLost m) = m"
| "exit_text ExitCancelled = []"

definition handle_item :: "queue_worker \<Rightarrow> work_item \<Rightarrow> string \<Rightarrow> handler_run \<Rightarrow> worker_pool
    \<Rightarrow> worker_run_result pool_outcome" where
  "handle_item w i lid h p =
     (case call_handler w lid h p of
        (Inl (ExitLeaseLost m), p') \<Rightarrow> on_lease_lost w i lid (Inl (ExitLeaseLost m), p')
      | (Inl ExitCancelled, p') \<Rightarrow> (Inl ExitCancelled, p')
      | (Inl e, p') \<Rightarrow> fail_leased_item w i lid (''handler failed: '' @ exit_text e)
          True (hr_ended_at h) p'
      | (Inr r, p') \<Rightarrow> apply_handler_result w i lid r (hr_ended_at h) p')"

text \<open>\<open>now\<close> is the clock at the start, \<open>later\<close> the clock when an item without a handler is failed.\<close>

definition run_leased :: "queue_worker \<Rightarrow> time \<Rightarrow> work_item \<Rightarrow> worker_pool \<Rightarrow> worker_run_result pool_outcome" where
  "run_leased w later i p =
     (case wi_lease i of
        None \<Rightarrow> (Inr (worker_result w RunLeaseLost (Some i) None
                  ''leased work item did not include lease metadata''), p)
      | Some l \<Rightarrow>
        (case map_of (qw_handlers w) (wi_kind i) of
           None \<Rightarrow> fail_leased_item w i (wl_lease_id l)
                     (''no handler registered for work kind: '' @ wi_kind i) False later p
         | Some h \<Rightarrow> handle_item w i (wl_lease_id l) (h i) p))"

definition run_once :: "queue_worker \<Rightarrow> time \<Rightarrow> time \<Rightarrow> worker_pool \<Rightarrow> worker_run_result pool_outcome" where
  "run_once w now later p =
     bind_op (prepare_worker w now p) (\<lambda>inactive p1.
       case inactive of Some r \<Rightarrow> (Inr r, p1)
       | None \<Rightarrow>
         (case with_queue (lease (qw_worker_id w) (qw_lease_ttl_seconds w) now
                  (Some (qw_worker_capabilities w))) p1 of
            (Inl (ExitQueue (NoWorkAvailable _)), p2) \<Rightarrow>
              (Inr (worker_result w RunNoWork None None ''no work available''), p2)
          | (Inl e, p2) \<Rightarrow> (Inl e, p2)
          | (Inr i, p2) \<Rightarrow> run_leased w later i p2))"

text \<open>Each round comes with what others do before it and with its two times.\<close>

fun run_rounds :: "queue_worker \<Rightarrow> nat \<Rightarrow> (nat \<Rightarrow> pool_event list \<times> time \<times> time) \<Rightarrow> worker_pool
    \<Rightarrow> worker_run_result list pool_outcome" where
  "run_rounds w 0 rounds p = (Inr [], p)"
| "run_rounds w (Suc n) rounds p =
     (case rounds 0 of (es, now, later) \<Rightarrow>
        bind_op (run_once w now later (others es p)) (\<lambda>r p1.
          if wrr_status r = RunNoWork then (Inr [r], p1)
          else bind_op (run_rounds w n (\<lambda>k. rounds (Suc k)) p1) (\<lambda>rs p2. (Inr (r # rs), p2))))"

definition run_until_idle :: "queue_worker \<Rightarrow> int \<Rightarrow> (nat \<Rightarrow> pool_event list \<times> time \<times> time) \<Rightarrow> worker_pool
    \<Rightarrow> worker_run_result list pool_outcome" where
  "run_until_idle w max_items rounds p =
     (case parse_positive_int max_items ''max_items'' of
        Inl m \<Rightarrow> (Inl (ExitQueue (ValueErr m)), p)
      | Inr _ \<Rightarrow> run_rounds w (nat max_items) rounds p)"

end
