(* ===== verification/Worker_Safety.thy ===== *)
theory Worker_Safety
  imports Queue_Worker
begin

text \<open>
  What a worker does to the queue it shares: its rounds are runs of the queue's own operations, so
  that the properties of the queue hold for workers; the lease of a round is gone after it; only
  a cancellation reaches an item whose lease was lost; and a worker works its queue off.
\<close>

subsection \<open>A worker moves the queue only by its operations\<close>

fun own_event :: "queue_event \<Rightarrow> bool" where
  "own_event (Lease w ttl now ks) = True"
| "own_event (Heartbeat lid w ttl now) = True"
| "own_event (Complete lid w now) = True"
| "own_event (Fail lid w r b now) = True"
| "own_event (Cancel k r now) = True"
| "own_event e = False"

text \<open>What a call of a handler lets others do, and workers whose handlers keep to some events.\<close>

definition handler_events :: "handler_run \<Rightarrow> pool_event list" where
  "handler_events h = concat (map fst (hr_ticks h)) @ hr_meanwhile h @ hr_winding_down h"

definition keeps_to :: "queue_event set \<Rightarrow> pool_event list \<Rightarrow> bool" where
  "keeps_to E es \<longleftrightarrow> (\<forall>e. OnQueue e \<in> set es \<longrightarrow> e \<in> E)"

definition polite :: "queue_event set \<Rightarrow> queue_worker \<Rightarrow> bool" where
  "polite E w \<longleftrightarrow> (\<forall>k h i. map_of (qw_handlers w) k = Some h \<longrightarrow> keeps_to E (handler_events (h i)))"

lemma keeps_to_simps [simp]:
  "keeps_to E []" "keeps_to E (OnRegistry x # es) = keeps_to E es"
  "keeps_to E (OnQueue e # es) \<longleftrightarrow> e \<in> E \<and> keeps_to E es"
  "keeps_to E (es @ es') \<longleftrightarrow> keeps_to E es \<and> keeps_to E es'"
  by (auto simp: keeps_to_def)

lemma with_queue_snd: "snd (with_queue f p) = p\<lparr>wp_queue := snd (f (wp_queue p))\<rparr>"
  by (simp add: with_queue_def split: prod.split)

lemma with_registry_queue [simp]: "wp_queue (snd (with_registry s f p)) = wp_queue p"
  by (simp add: with_registry_def split: prod.split)

lemma on_lease_lost_snd [simp]: "snd (on_lease_lost w i lid r) = snd r"
  by (auto simp: on_lease_lost_def get_item_def split: prod.split sum.split worker_exit.split option.split)

lemma snd_bind_pool: "(\<And>a p'. snd (f a p') = p') \<Longrightarrow> snd (bind_op r f) = snd r"
  by (simp add: bind_op_def split: prod.split sum.split)

lemma registry_case:
  "(\<And>r p'. with_registry s f p = (r, p') \<Longrightarrow> wp_queue p' = wp_queue p \<Longrightarrow> P (r, p')) \<Longrightarrow> P (with_registry s f p)"
  using with_registry_queue [of s f p] by (cases "with_registry s f p") auto

lemma register_self_queue [simp]: "wp_queue (snd (register_self w now s p)) = wp_queue p"
  unfolding register_self_def by (rule registry_case) (auto split: sum.split)

lemma renew_self_queue [simp]: "wp_queue (snd (renew_self w now s p)) = wp_queue p"
  unfolding renew_self_def by (rule registry_case) (auto simp: Let_def split: sum.split worker_error.split)

lemma prepared_queue: "wp_queue (snd (prepare_worker w now p)) = wp_queue p"
  by (auto simp: prepare_worker_def split: option.split sum.split worker_error.split)

text \<open>
  A relation of queues that is kept by the worker's operations and by some events of others is
  kept by everything the worker does.
\<close>

locale queue_relation =
  fixes R :: "work_queue \<Rightarrow> work_queue \<Rightarrow> bool" and E :: "queue_event set"
  assumes same: "R q q"
    and chain: "R q q' \<Longrightarrow> R q' q'' \<Longrightarrow> R q q''"
    and moved: "queue_inv q \<Longrightarrow> own_event e \<or> e \<in> E \<Longrightarrow> R q (queue_step q e)"
begin

definition moves :: "worker_pool \<Rightarrow> worker_pool \<Rightarrow> bool" where
  "moves p p' \<longleftrightarrow> (queue_inv (wp_queue p) \<longrightarrow> queue_inv (wp_queue p') \<and> R (wp_queue p) (wp_queue p'))"

lemma moves_same: "wp_queue p' = wp_queue p \<Longrightarrow> moves p p'"
  by (simp add: moves_def same)

lemma moves_chain: "moves p p' \<Longrightarrow> moves p' p'' \<Longrightarrow> moves p p''"
  unfolding moves_def using chain by blast

lemma moves_step: "own_event e \<or> e \<in> E \<Longrightarrow> wp_queue p' = queue_step (wp_queue p) e \<Longrightarrow> moves p p'"
  by (simp add: moves_def queue_inv_step moved)

lemma moves_others: "keeps_to E es \<Longrightarrow> moves p (others es p)"
proof (induction es arbitrary: p)
  case Nil
  then show ?case by (simp add: moves_same)
next
  case (Cons e es)
  have "moves p (pool_step p e)"
    using Cons.prems by (cases e) (auto intro: moves_same moves_step)
  moreover have "moves (pool_step p e) (others es (pool_step p e))"
    using Cons.prems by (intro Cons.IH) (cases e; simp)
  ultimately show ?case by (simp add: moves_chain)
qed

lemma moves_operations:
  "moves p (snd (with_queue (lease w ttl now ks) p))"
  "moves p (snd (with_queue (heartbeat lid w ttl now) p))"
  "moves p (snd (with_queue (complete_work lid w now) p))"
  "moves p (snd (with_queue (fail_work lid w r b now) p))"
  "moves p (snd (with_queue (cancel_work k r now) p))"
  by (rule moves_step [of "Lease w ttl now ks"] moves_step [of "Heartbeat lid w ttl now"]
      moves_step [of "Complete lid w now"] moves_step [of "Fail lid w r b now"]
      moves_step [of "Cancel k r now"]; simp add: with_queue_snd)+

lemma moves_fail_leased_item: "moves p (snd (fail_leased_item w i lid reason retry now p))"
  by (simp add: fail_leased_item_def snd_bind_pool moves_operations)

lemma moves_apply: "moves p (snd (apply_handler_result w i lid r now p))"
  by (cases "hres_status r")
    (simp_all add: apply_handler_result_def snd_bind_pool moves_operations)

lemma moves_heartbeat: "moves p (snd (heartbeat_active_lease w lid now p))"
proof -
  let ?hb = "with_queue (heartbeat lid (qw_worker_id w) (qw_lease_ttl_seconds w) now) p"
  note hb = moves_operations(2) [of p lid "qw_worker_id w" "qw_lease_ttl_seconds w" now]
  obtain r p1 where r: "?hb = (r, p1)" by (cases ?hb)
  show ?thesis
  proof (cases r)
    case (Inl e)
    with r hb show ?thesis by (simp add: heartbeat_active_lease_def)
  next
    case (Inr j)
    show ?thesis
    proof (cases "wp_registry p1")
      case None
      with r hb Inr show ?thesis by (simp add: heartbeat_active_lease_def)
    next
      case (Some s)
      let ?wk = "with_registry s (heartbeat_worker (qw_worker_id w) (qw_worker_ttl_seconds w) now) p1"
      obtain r2 p2 where r2: "?wk = (r2, p2)" by (cases ?wk)
      have "wp_queue p2 = wp_queue p1" using with_registry_queue [of s _ p1] r2 by (metis snd_conv)
      then have p2: "moves p p2" using hb r moves_chain [OF _ moves_same] by simp
      show ?thesis
      proof (cases "\<exists>m. r2 = Inl (WorkerNotFound m)")
        case True
        then obtain m where m: "r2 = Inl (WorkerNotFound m)" by blast
        let ?f = "with_queue (fail_work lid (qw_worker_id w) (''worker heartbeat failed: '' @ m) True now) p2"
        have "snd (heartbeat_active_lease w lid now p) = snd ?f"
          by (simp add: heartbeat_active_lease_def r Inr Some r2 m split: prod.split sum.split)
        then show ?thesis using moves_chain [OF p2 moves_operations(4)] by simp
      next
        case False
        then show ?thesis
          using p2 by (auto simp: heartbeat_active_lease_def r Inr Some r2 split: sum.split worker_error.split)
      qed
    qed
  qed
qed

lemma moves_stop: "keeps_to E (hr_winding_down h) \<Longrightarrow> moves p (snd (stop_handler h e p))"
  by (simp add: stop_handler_def moves_others)

lemma moves_wait:
  assumes "keeps_to E (hr_meanwhile h)" and "keeps_to E (hr_winding_down h)"
    and "keeps_to E (concat (map fst ticks))"
  shows "moves p (snd (wait_for w lid h ticks p))"
  using assms
proof (induction w lid h ticks p rule: wait_for.induct [case_names ended tick])
  case (ended w lid h p)
  have m: "moves p (others (hr_meanwhile h) p)" by (rule moves_others [OF ended(1)])
  moreover have "moves p (snd (stop_handler h e (others (hr_meanwhile h) p)))" for e
    by (rule moves_chain [OF m moves_stop [OF ended(2)]])
  ultimately show ?case by (simp add: Let_def split: sum.split worker_exit.split)
next
  case (tick w lid h es now ticks p)
  let ?p1 = "others es p"
  let ?hb = "heartbeat_active_lease w lid now ?p1"
  obtain r p' where r: "?hb = (r, p')" by (cases ?hb)
  have "moves p ?p1" using tick.prems by (intro moves_others) simp
  then have m: "moves p p'" using moves_heartbeat [of ?p1 w lid now] r moves_chain by auto
  show ?case
  proof (cases r)
    case (Inl e)
    with r m show ?thesis using moves_chain [OF m moves_stop [OF tick.prems(2)]] by simp
  next
    case (Inr u)
    with r m tick show ?thesis using moves_chain [OF m] by (cases u) auto
  qed
qed

lemma moves_call: "keeps_to E (handler_events h) \<Longrightarrow> moves p (snd (call_handler w lid h p))"
  unfolding call_handler_def by (rule moves_wait) (simp_all add: handler_events_def)

lemma moves_handle_item:
  assumes "keeps_to E (handler_events h)"
  shows "moves p (snd (handle_item w i lid h p))"
proof -
  obtain r p' where r: "call_handler w lid h p = (r, p')" by (cases "call_handler w lid h p")
  have m: "moves p p'" using moves_call [OF assms, of p w lid] r by simp
  show ?thesis
  proof (cases r)
    case (Inl e)
    then show ?thesis
      using m moves_chain [OF m moves_fail_leased_item] by (cases e) (simp_all add: handle_item_def r)
  next
    case (Inr x)
    then show ?thesis using moves_chain [OF m moves_apply] by (simp add: handle_item_def r)
  qed
qed

lemma moves_run_leased: "polite E w \<Longrightarrow> moves p (snd (run_leased w later i p))"
  by (auto simp: run_leased_def polite_def moves_same
      intro: moves_fail_leased_item moves_handle_item split: option.split)

lemma moves_run_once:
  assumes "polite E w"
  shows "moves p (snd (run_once w now later p))"
proof -
  obtain r p1 where r: "prepare_worker w now p = (r, p1)" by (cases "prepare_worker w now p")
  then have p1: "moves p p1" using prepared_queue [of w now p] by (intro moves_same) simp
  let ?l = "with_queue (lease (qw_worker_id w) (qw_lease_ttl_seconds w) now
              (Some (qw_worker_capabilities w))) p1"
  obtain rl p2 where l: "?l = (rl, p2)" by (cases ?l)
  have p2: "moves p p2" using moves_chain [OF p1 moves_operations(1)] l by (metis snd_conv)
  have go: "snd (run_once w now later p) = p2 \<or> (\<exists>i. snd (run_once w now later p) = snd (run_leased w later i p2))"
    if "r = Inr None"
    using that l by (auto simp: run_once_def r split: sum.split worker_exit.split queue_error.split)
  show ?thesis
  proof (cases "r = Inr None")
    case True
    with go p2 show ?thesis using moves_chain [OF p2 moves_run_leased [OF assms]] by metis
  next
    case False
    with p1 show ?thesis by (cases r) (auto simp: run_once_def r)
  qed
qed

lemma moves_rounds:
  assumes "polite E w"
  shows "(\<And>k. keeps_to E (fst (rounds k))) \<Longrightarrow> moves p (snd (run_rounds w n rounds p))"
proof (induction n arbitrary: rounds p)
  case 0
  then show ?case by (simp add: moves_same)
next
  case (Suc n)
  obtain es now later where 0: "rounds 0 = (es, now, later)" by (cases "rounds 0")
  obtain r p1 where r: "run_once w now later (others es p) = (r, p1)"
    by (cases "run_once w now later (others es p)")
  have "moves p (others es p)" using Suc.prems [of 0] 0 by (intro moves_others) simp
  then have m: "moves p p1" using moves_run_once [OF assms, of "others es p" now later] r moves_chain by auto
  moreover have "moves p1 (snd (run_rounds w n (\<lambda>k. rounds (Suc k)) p1))"
    by (rule Suc.IH) (rule Suc.prems)
  ultimately show ?case
    using moves_chain by (auto simp: 0 r snd_bind_pool split: bind_op_split)
qed

end

definition queue_run :: "work_queue \<Rightarrow> work_queue \<Rightarrow> bool" where
  "queue_run q q' \<longleftrightarrow> (\<exists>es. set es \<subseteq> no_prune \<and> q' = run_events queue_step q es)"

lemma own_no_prune: "own_event e \<Longrightarrow> e \<in> no_prune"
  by (cases e) (simp_all add: no_prune_def)

interpretation worker_moves: queue_relation queue_run no_prune
proof unfold_locales
  show "queue_run q q" for q
    unfolding queue_run_def by (intro exI [of _ "[]"]) simp
  show "queue_run q q' \<Longrightarrow> queue_run q' q'' \<Longrightarrow> queue_run q q''" for q q' q''
    unfolding queue_run_def
  proof (elim exE conjE)
    fix es fs
    assume "set es \<subseteq> no_prune" "q' = run_events queue_step q es"
      "set fs \<subseteq> no_prune" "q'' = run_events queue_step q' fs"
    then show "\<exists>gs. set gs \<subseteq> no_prune \<and> q'' = run_events queue_step q gs"
      by (intro exI [of _ "es @ fs"]) (simp add: run_events_append)
  qed
  show "own_event e \<or> e \<in> no_prune \<Longrightarrow> queue_run q (queue_step q e)" for q e
    unfolding queue_run_def by (intro exI [of _ "[e]"]) (auto intro: own_no_prune)
qed

subsection \<open>The lease of a round\<close>

text \<open>What is true of an item from its lease number \<open>n\<close>, granted to \<open>w\<close>, on.\<close>

definition tracked :: "nat \<Rightarrow> string \<Rightarrow> work_item \<Rightarrow> bool" where
  "tracked n w j \<longleftrightarrow> int n \<le> wi_attempts j
     \<and> (wi_status j = WLeased \<longrightarrow> wi_attempts j = int n \<longrightarrow>
          (\<forall>l. wi_lease j = Some l \<longrightarrow> wl_worker_id l = w))"

lemma no_longer_leased [simp]:
  "wi_status (failed_item r b t i) \<noteq> WLeased" "wi_status (expired_item t i l) \<noteq> WLeased"
  by (simp_all add: failed_item_def expired_item_def)

lemma tracked_progress: "item_progress i j \<Longrightarrow> tracked n w i \<Longrightarrow> tracked n w j"
  by (cases rule: item_progress.cases)
    (auto simp: tracked_def granted_item_def renewed_lease_def completed_item_def cancelled_item_def)

lemma tracked_progresses: "item_progress\<^sup>*\<^sup>* i j \<Longrightarrow> tracked n w i \<Longrightarrow> tracked n w j"
  by (induction rule: rtranclp.induct) (auto intro: tracked_progress)

definition in_queue :: "(work_item \<Rightarrow> bool) \<Rightarrow> string \<Rightarrow> work_queue \<Rightarrow> bool" where
  "in_queue P k q \<longleftrightarrow> queue_inv q \<and> (\<exists>j. map_of (wq_items q) k = Some j \<and> P j)"

lemma in_queue_run:
  assumes "in_queue P k q" and "queue_run q q'"
    and "\<And>i j. item_progress\<^sup>*\<^sup>* i j \<Longrightarrow> P i \<Longrightarrow> P j"
  shows "in_queue P k q'"
proof -
  obtain es where es: "set es \<subseteq> no_prune" "q' = run_events queue_step q es"
    using assms(2) by (auto simp: queue_run_def)
  obtain i where i: "queue_inv q" "map_of (wq_items q) k = Some i" "P i"
    using assms(1) by (auto simp: in_queue_def)
  from run_item [OF i(1) es(1) i(2)] obtain j
    where "map_of (wq_items q') k = Some j" "item_progress\<^sup>*\<^sup>* i j" using es(2) by metis
  with assms(3) i show ?thesis by (auto simp: in_queue_def es(2) wq.inv_run)
qed

lemma in_queue_moves:
  assumes "worker_moves.moves p p'" and "in_queue P k (wp_queue p)"
    and "\<And>i j. item_progress\<^sup>*\<^sup>* i j \<Longrightarrow> P i \<Longrightarrow> P j"
  shows "in_queue P k (wp_queue p')"
proof (rule in_queue_run [OF assms(2)])
  show "queue_run (wp_queue p) (wp_queue p')"
    using assms(1,2) by (simp add: worker_moves.moves_def in_queue_def)
qed (rule assms(3))

lemma tracked_moves: "worker_moves.moves p p' \<Longrightarrow> in_queue (tracked n w) k (wp_queue p)
    \<Longrightarrow> in_queue (tracked n w) k (wp_queue p')"
  by (rule in_queue_moves [OF _ _ tracked_progresses])

lemma dead_moves: "worker_moves.moves p p' \<Longrightarrow> in_queue (lease_dead n) k (wp_queue p)
    \<Longrightarrow> in_queue (lease_dead n) k (wp_queue p')"
  by (rule in_queue_moves [OF _ _ progresses_lease_dead])

text \<open>When an operation under the lease is refused to its worker, the lease is dead.\<close>

lemma lost_is_dead:
  assumes q: "in_queue (tracked n w) k q"
    and lost: "leased_item (lease_name k n) w now q = (Inl e, q')"
  shows "in_queue (lease_dead n) k q'"
proof -
  obtain j where j: "queue_inv q" "map_of (wq_items q) k = Some j" "tracked n w j"
    using q by (auto simp: in_queue_def)
  have ok: "item_ok (wq_fencing_sequences q) k j" using j(1,2) by (rule queue_inv_item)
  show ?thesis
  proof (cases "holds_lease (lease_name k n) j")
    case False
    then have "lease_dead n j" using j(3) ok by (simp add: lease_dead_def tracked_def item_ok_id)
    moreover from this have "q' = q" using dead_lease_not_found [OF j(1,2), of n w now] lost by simp
    ultimately show ?thesis using j by (auto simp: in_queue_def)
  next
    case True
    then obtain l where l: "wi_status j = WLeased" "wi_lease j = Some l" "wl_lease_id l = lease_name k n"
      by (auto simp: holds_lease_def split: option.splits)
    then have "wi_attempts j = int n" using ok by (auto simp: item_ok_def lease_name_inject work_item_problem_None)
    then have w: "wl_worker_id l = w" using j(3) l by (simp add: tracked_def)
    have "\<not> now < wl_lease_expires_at l"
    proof
      assume "now < wl_lease_expires_at l"
      then have "live_holder (lease_name k n) w now q j"
        using j(2) l w unfolding live_holder_def by blast
      from leased_item_live [OF j(1) this] lost show False by simp
    qed
    then have over: "overdue now j" using l by (simp add: overdue_def)
    have "j \<in> snd ` set (wq_items q)" using map_of_SomeD [OF j(2)] by force
    with True obtain i where f: "find (holds_lease (lease_name k n)) (dict_values (wq_items q)) = Some i"
      by (cases "find (holds_lease (lease_name k n)) (dict_values (wq_items q))") (auto simp: find_None_iff)
    have "i = j" using find_dict_value [OF queue_inv_wf(1) [OF j(1)] f] holder_unique [OF j(1,2) True] by blast
    then have "q' = sweep_queue now q"
      using lost l w f over by (auto simp: leased_item_def overdue_def expire_eq [OF j(1)])
    moreover have "lease_dead n (sweep_item now j)"
      using over \<open>wi_attempts j = int n\<close> l
      by (auto simp: lease_dead_def holds_lease_def sweep_item_def expired_item_def)
    ultimately show ?thesis
      using j by (auto simp: in_queue_def queue_inv_sweep sweep_queue_lookup)
  qed
qed

text \<open>After each operation that ends a lease the lease is dead, whatever the operation answered.\<close>

lemma put_dead:
  assumes q: "in_queue (tracked n w) k q" and i: "map_of (wq_items q) k = Some i"
    and j: "wi_attempts j = wi_attempts i" "wi_status j \<noteq> WLeased" "wi_work_item_id j = k"
    and inv: "queue_inv (put_item j q)"
  shows "in_queue (lease_dead n) k (put_item j q)"
  using q i j inv
  by (auto simp: in_queue_def put_item_def map_of_update lease_dead_def tracked_def holds_lease_def)

lemma refused_is_lost:
  "complete_work lid w now q = (Inl (LeaseLost m), q') \<Longrightarrow> \<exists>e. leased_item lid w now q = (Inl e, q')"
  "fail_work lid w reason retry now q = (Inl (LeaseLost m), q') \<Longrightarrow> \<exists>e. leased_item lid w now q = (Inl e, q')"
  "heartbeat lid w ttl now q = (Inl (LeaseLost m), q') \<Longrightarrow> \<exists>e. leased_item lid w now q = (Inl e, q')"
  by (auto simp: complete_work_def fail_work_def heartbeat_def lease_deadline_def worker_lease_checked_def
      work_item_checked_def check_op_def bind_op_def map_error_def split: sum.splits option.splits prod.splits)

lemma complete_dead:
  assumes q: "in_queue (tracked n w) k q"
    and r: "complete_work (lease_name k n) w now q = (r, q')"
  shows "in_queue (lease_dead n) k q'"
proof -
  have inv: "queue_inv q" using q by (simp add: in_queue_def)
  then show ?thesis
  proof (cases rule: complete_cases [of q "lease_name k n" w now])
    case (completed k' i l)
    then have "k' = k" by (auto simp: item_ok_def lease_name_inject)
    moreover have "queue_inv q'" using queue_inv_complete [OF inv, of "lease_name k n" w now] r by simp
    ultimately show ?thesis
      using put_dead [OF q] completed r by (auto simp: completed_item_def item_ok_id)
  next
    case (lost m q2)
    with r have "complete_work (lease_name k n) w now q = (Inl (LeaseLost m), q')" by simp
    from refused_is_lost(1) [OF this] show ?thesis using lost_is_dead [OF q] by blast
  qed
qed

lemma fail_dead:
  assumes q: "in_queue (tracked n w) k q" and reason: "\<not> blank reason"
    and r: "fail_work (lease_name k n) w reason retry now q = (r, q')"
  shows "in_queue (lease_dead n) k q'"
proof -
  have inv: "queue_inv q" using q by (simp add: in_queue_def)
  then show ?thesis
  proof (cases rule: fail_work_cases [of q "lease_name k n" w now reason retry])
    case (failed k' i l')
    then have k: "k' = k" by (auto simp: item_ok_def lease_name_inject)
    have "queue_inv q'" using queue_inv_fail [OF inv, of "lease_name k n" w reason retry now] r by simp
    with put_dead [OF q] failed r k show ?thesis by (auto simp: item_ok_id)
  next
    case (lost m q2)
    with r have "fail_work (lease_name k n) w reason retry now q = (Inl (LeaseLost m), q')" by simp
    from refused_is_lost(2) [OF this] show ?thesis using lost_is_dead [OF q] by blast
  qed (use reason in simp)
qed

lemma heartbeat_dead:
  assumes "in_queue (tracked n w) k q"
    and "heartbeat (lease_name k n) w ttl now q = (Inl (LeaseLost m), q')"
  shows "in_queue (lease_dead n) k q'"
  using refused_is_lost(3) [OF assms(2)] lost_is_dead [OF assms(1)] by blast

lemma cancel_dead:
  assumes q: "in_queue (tracked n w) k q"
    and r: "cancel_work k reason now q = (Inr j, q')"
  shows "in_queue (lease_dead n) k q'"
proof -
  have inv: "queue_inv q" using q by (simp add: in_queue_def)
  then show ?thesis
  proof (cases rule: cancel_work_cases [of q k reason now])
    case (cancelled i)
    have "queue_inv q'" using queue_inv_cancel [OF inv, of k reason now] r by simp
    with put_dead [OF q cancelled(1)] cancelled r show ?thesis
      by (auto simp: cancelled_item_def item_ok_id)
  next
    case (kept r')
    with r q show ?thesis
      by (auto simp: in_queue_def lease_dead_def tracked_def holds_lease_def is_terminal_def)
  qed
qed

subsection \<open>The lease is gone after the round\<close>

lemma fail_leased_dead:
  assumes q: "in_queue (tracked n (qw_worker_id w)) k (wp_queue p)" and "\<not> blank reason"
  shows "in_queue (lease_dead n) k (wp_queue (snd (fail_leased_item w i (lease_name k n) reason retry now p)))"
  using fail_dead [OF assms prod.collapse [symmetric], of retry now]
  by (simp add: fail_leased_item_def snd_bind_pool with_queue_snd)

lemma apply_dead:
  assumes q: "in_queue (tracked n (qw_worker_id w)) k (wp_queue p)"
    and i: "wi_work_item_id i = k" and x: "\<not> isl (handler_result_checked x)"
    and r: "apply_handler_result w i (lease_name k n) x now p = (Inr r, p')"
  shows "in_queue (lease_dead n) k (wp_queue p')"
proof -
  have p': "p' = snd (apply_handler_result w i (lease_name k n) x now p)" using r by simp
  show ?thesis
  proof (cases "hres_status x")
    case HandlerCompleted
    then show ?thesis using complete_dead [OF q prod.collapse [symmetric], of now]
      unfolding p' by (simp add: apply_handler_result_def snd_bind_pool with_queue_snd)
  next
    case HandlerFailed
    then have "\<not> blank (hres_reason x)" using x by (simp add: handler_result_checked_def split: if_splits)
    from fail_dead [OF q this prod.collapse [symmetric], of "hres_retry x" now] HandlerFailed show ?thesis
      unfolding p' by (simp add: apply_handler_result_def snd_bind_pool with_queue_snd)
  next
    case HandlerCancel
    obtain rc q1 where c: "cancel_work k (hres_reason x) now (wp_queue p) = (rc, q1)" by fastforce
    have "\<exists>j. rc = Inr j"
    proof (cases rc)
      case (Inl e)
      have "\<And>m. e \<noteq> LeaseLost m"
        using c Inl by (auto simp: cancel_work_def get_item_def work_item_checked_def check_op_def
            map_error_def split: sum.splits option.splits if_splits)
      then have "queue_exit e = ExitQueue e" by (simp add: queue_exit_def split: queue_error.split)
      with r HandlerCancel c Inl i show ?thesis
        by (simp add: apply_handler_result_def with_queue_def on_lease_lost_def)
    qed simp
    then obtain j where "rc = Inr j" by blast
    with c have "in_queue (lease_dead n) k q1" using cancel_dead [OF q] by blast
    moreover have "wp_queue p' = q1"
      unfolding p' by (simp add: apply_handler_result_def HandlerCancel i snd_bind_pool with_queue_snd c)
    ultimately show ?thesis by simp
  qed
qed

text \<open>A handler that does not raise the queue's own \<open>LeaseLostError\<close> and returns real results.\<close>

fun honest_end :: "handler_end \<Rightarrow> bool" where
  "honest_end (HandlerReturned r) \<longleftrightarrow> \<not> isl (handler_result_checked r)"
| "honest_end (HandlerLeaseLost m) = False"
| "honest_end e = True"

definition honest :: "queue_worker \<Rightarrow> bool" where
  "honest w \<longleftrightarrow> (\<forall>k h i. map_of (qw_handlers w) k = Some h \<longrightarrow>
     honest_end (hr_end (h i)) \<and> (\<forall>e. hr_stopped_with (h i) = Some e \<longrightarrow> honest_end e))"

lemma heartbeat_active_dead:
  assumes q: "in_queue (tracked n (qw_worker_id w)) k (wp_queue p)"
    and r: "heartbeat_active_lease w (lease_name k n) now p = (Inl (ExitLeaseLost m), p')"
  shows "in_queue (lease_dead n) k (wp_queue p')"
proof -
  let ?lid = "lease_name k n"
  obtain rh q1 where h: "heartbeat ?lid (qw_worker_id w) (qw_lease_ttl_seconds w) now (wp_queue p) = (rh, q1)"
    by fastforce
  let ?p1 = "p\<lparr>wp_queue := q1\<rparr>"
  have oq: "with_queue (heartbeat ?lid (qw_worker_id w) (qw_lease_ttl_seconds w) now) p =
      (map_error queue_exit rh, ?p1)" by (simp add: with_queue_def h)
  show ?thesis
  proof (cases rh)
    case (Inl e)
    with r oq have "queue_exit e = ExitLeaseLost m" and p': "p' = ?p1"
      by (simp_all add: heartbeat_active_lease_def)
    then have "e = LeaseLost m" by (simp add: queue_exit_def split: queue_error.splits)
    with heartbeat_dead [OF q] h Inl p' show ?thesis by simp
  next
    case (Inr j)
    with r oq obtain s where s: "wp_registry ?p1 = Some s"
      by (cases "wp_registry p") (simp_all add: heartbeat_active_lease_def)
    obtain rw p2 where rw: "with_registry s (heartbeat_worker (qw_worker_id w) (qw_worker_ttl_seconds w) now) ?p1 = (rw, p2)"
      by fastforce
    then have p2: "wp_queue p2 = q1" using with_registry_queue [of s "heartbeat_worker (qw_worker_id w) (qw_worker_ttl_seconds w) now" ?p1] by simp
    have "worker_moves.moves p ?p1"
      using worker_moves.moves_operations(2) [of p ?lid "qw_worker_id w" "qw_lease_ttl_seconds w" now]
      by (simp add: oq)
    from tracked_moves [OF this q] have "in_queue (tracked n (qw_worker_id w)) k (wp_queue ?p1)" .
    then have q2: "in_queue (tracked n (qw_worker_id w)) k (wp_queue p2)" using p2 by simp
    obtain m' where m': "rw = Inl (WorkerNotFound m')"
      using r oq Inr s rw
      by (cases rw; simp add: heartbeat_active_lease_def split: worker_error.splits)
    have "p' = snd (with_queue (fail_work ?lid (qw_worker_id w) (''worker heartbeat failed: '' @ m') True now) p2)"
      using r oq Inr s rw m'
      by (auto simp: heartbeat_active_lease_def split: prod.splits sum.splits)
    then show ?thesis
      using fail_dead [OF q2 _ prod.collapse [symmetric], of "''worker heartbeat failed: '' @ m'" True now]
      by (simp add: with_queue_snd blank_def py_isspace_def)
  qed
qed

lemma stop_honest:
  assumes "\<forall>x. hr_stopped_with h = Some x \<longrightarrow> honest_end x"
    and "stop_handler h e p = (Inl (ExitLeaseLost m), p')"
  shows "e = ExitLeaseLost m"
proof (cases "hr_stopped_with h")
  case (Some x)
  with assms show ?thesis by (cases x) (simp_all add: stop_handler_def)
qed (use assms in \<open>simp add: stop_handler_def\<close>)

lemma wait_dead:
  assumes "in_queue (tracked n (qw_worker_id w)) k (wp_queue p)" and "lid = lease_name k n"
    and "honest_end (hr_end h)" and "\<forall>x. hr_stopped_with h = Some x \<longrightarrow> honest_end x"
    and "keeps_to no_prune (concat (map fst ticks))" and "keeps_to no_prune (hr_winding_down h)"
    and "wait_for w lid h ticks p = (Inl (ExitLeaseLost m), p')"
  shows "in_queue (lease_dead n) k (wp_queue p')"
  using assms
proof (induction w lid h ticks p rule: wait_for.induct [case_names ended tick])
  case (ended w lid h p)
  then show ?case
    using stop_honest [OF ended(4), of ExitCancelled]
    by (cases "hr_end h") (auto simp: Let_def)
next
  case (tick w lid h es now ticks p)
  let ?p1 = "others es p"
  obtain r p2 where r: "heartbeat_active_lease w lid now ?p1 = (r, p2)" by fastforce
  have q1: "in_queue (tracked n (qw_worker_id w)) k (wp_queue ?p1)"
    using tick.prems(5) by (intro tracked_moves [OF worker_moves.moves_others tick.prems(1)]) simp
  show ?case
  proof (cases r)
    case (Inl e)
    with tick.prems(7) r have s: "stop_handler h e p2 = (Inl (ExitLeaseLost m), p')" by simp
    from stop_honest [OF tick.prems(4) this] r Inl tick.prems(2)
    have "in_queue (lease_dead n) k (wp_queue p2)" using heartbeat_active_dead [OF q1] by simp
    from dead_moves [OF worker_moves.moves_stop [OF tick.prems(6)] this] s show ?thesis by (metis snd_conv)
  next
    case (Inr u)
    have "worker_moves.moves ?p1 p2" using worker_moves.moves_heartbeat [of ?p1 w lid now] r by simp
    from tracked_moves [OF this q1] tick r Inr show ?thesis by (cases u) auto
  qed
qed

lemma wait_result: "wait_for w lid h ticks p = (Inr x, p') \<Longrightarrow> end_result (hr_end h) = Inr x"
  by (induction w lid h ticks p rule: wait_for.induct)
    (auto simp: Let_def stop_handler_def split: sum.splits worker_exit.splits prod.splits)

lemma handle_dead:
  assumes q: "in_queue (tracked n (qw_worker_id w)) k (wp_queue p)" and i: "wi_work_item_id i = k"
    and h: "honest_end (hr_end h)" "\<forall>x. hr_stopped_with h = Some x \<longrightarrow> honest_end x"
    and es: "keeps_to no_prune (handler_events h)"
    and r: "handle_item w i (lease_name k n) h p = (Inr r, p')"
  shows "in_queue (lease_dead n) k (wp_queue p')"
proof -
  let ?lid = "lease_name k n"
  obtain c p1 where c: "call_handler w ?lid h p = (c, p1)" by fastforce
  have "worker_moves.moves p p1" using worker_moves.moves_call [OF es, of p w ?lid] c by simp
  then have q1: "in_queue (tracked n (qw_worker_id w)) k (wp_queue p1)" using q by (rule tracked_moves)
  show ?thesis
  proof (cases c)
    case (Inr x)
    have "\<not> isl (handler_result_checked x)"
      using wait_result [of w ?lid h "hr_ticks h" p x p1] c Inr h(1)
      by (cases "hr_end h") (auto simp: call_handler_def)
    from apply_dead [OF q1 i this] r Inr c show ?thesis by (simp add: handle_item_def)
  next
    case (Inl e)
    show ?thesis
    proof (cases "\<exists>m. e = ExitLeaseLost m")
      case True
      then obtain m where m: "e = ExitLeaseLost m" by blast
      have "p' = p1" using r c Inl m on_lease_lost_snd [of w i ?lid "(Inl e, p1)"] by (simp add: handle_item_def)
      moreover have "in_queue (lease_dead n) k (wp_queue p1)"
        using wait_dead [OF q refl h _ _ c [unfolded Inl m call_handler_def]] es by (simp add: handler_events_def)
      ultimately show ?thesis by simp
    next
      case False
      then have "p' = snd (fail_leased_item w i ?lid (''handler failed: '' @ exit_text e) True (hr_ended_at h) p1)"
        using r c Inl by (cases e) (simp_all add: handle_item_def)
      then show ?thesis using fail_leased_dead [OF q1] by (simp add: blank_def py_isspace_def)
    qed
  qed
qed

lemma prepared_idle: "prepare_worker w now p = (Inr (Some r), p') \<Longrightarrow> wrr_lease_id r = None"
  by (auto simp: prepare_worker_def renew_self_def register_self_def Let_def inactive_def worker_result_def
      split: option.splits prod.splits sum.splits worker_error.splits if_splits)

lemma on_lease_lost_result:
  assumes "on_lease_lost w i lid x = (Inr r, p')" and "\<And>r' p. x = (Inr r', p) \<Longrightarrow> wrr_lease_id r' = Some lid"
  shows "wrr_lease_id r = Some lid"
  using assms
  by (auto simp: on_lease_lost_def check_op_def worker_result_def split: prod.splits sum.splits worker_exit.splits)

lemma result_lease:
  "fail_leased_item w i lid reason retry now p = (Inr r, p') \<Longrightarrow> wrr_lease_id r = Some lid"
  "apply_handler_result w i lid x now p = (Inr r, p') \<Longrightarrow> wrr_lease_id r = Some lid"
  "handle_item w i lid h p = (Inr r, p') \<Longrightarrow> wrr_lease_id r = Some lid"
proof -
  show 1: "fail_leased_item w i lid reason retry now p = (Inr r, p') \<Longrightarrow> wrr_lease_id r = Some lid"
    for reason retry now p
    unfolding fail_leased_item_def
    by (erule on_lease_lost_result) (auto simp: result_from_failed_item_def worker_result_def bind_op_def split: prod.splits sum.splits)
  show 2: "apply_handler_result w i lid x now p = (Inr r, p') \<Longrightarrow> wrr_lease_id r = Some lid" for x now p
    unfolding apply_handler_result_def
    by (erule on_lease_lost_result)
      (auto simp: result_from_failed_item_def worker_result_def bind_op_def
        split: prod.splits sum.splits work_handler_status.splits)
  show "handle_item w i lid h p = (Inr r, p') \<Longrightarrow> wrr_lease_id r = Some lid"
    using 1 2 on_lease_lost_result [of w i lid "(Inl e, q)" for e q]
    by (auto simp: handle_item_def split: prod.splits sum.splits worker_exit.splits)
qed

lemma run_once_leased:
  assumes r: "run_once w now later p = (Inr r, p')" and lid: "wrr_lease_id r = Some lid"
  obtains i l p1 q where "wp_queue p1 = wp_queue p"
    and "lease (qw_worker_id w) (qw_lease_ttl_seconds w) now (Some (qw_worker_capabilities w)) (wp_queue p) = (Inr i, q)"
    and "wi_lease i = Some l" and "wl_lease_id l = lid"
    and "run_leased w later i (p1\<lparr>wp_queue := q\<rparr>) = (Inr r, p')"
proof -
  obtain x p1 where x: "prepare_worker w now p = (x, p1)" by fastforce
  then have q1: "wp_queue p1 = wp_queue p" using prepared_queue [of w now p] by simp
  have "x = Inr None"
    using r x lid prepared_idle [of w now p] by (cases x) (auto simp: run_once_def split: option.splits)
  let ?lease = "lease (qw_worker_id w) (qw_lease_ttl_seconds w) now (Some (qw_worker_capabilities w))"
  obtain y q where y: "?lease (wp_queue p) = (y, q)" by fastforce
  have oq: "with_queue ?lease p1 = (map_error queue_exit y, p1\<lparr>wp_queue := q\<rparr>)"
    by (simp add: with_queue_def q1 y)
  obtain i where i: "y = Inr i"
    using r x \<open>x = Inr None\<close> oq lid
    by (cases y) (auto simp: run_once_def worker_result_def split: worker_exit.splits queue_error.splits)
  have run: "run_leased w later i (p1\<lparr>wp_queue := q\<rparr>) = (Inr r, p')"
    using r x \<open>x = Inr None\<close> oq i by (simp add: run_once_def)
  obtain l where l: "wi_lease i = Some l"
    using run lid by (cases "wi_lease i") (auto simp: run_leased_def worker_result_def)
  have "wl_lease_id l = lid"
    using run l lid result_lease(1,3) by (fastforce simp: run_leased_def split: option.splits)
  with q1 y i l run show ?thesis by (intro that) simp_all
qed

lemma granted_tracked:
  assumes inv: "queue_inv q" and l: "lease w ttl now ks q = (Inr i, q')" "wi_lease i = Some l" "wl_lease_id l = lid"
  shows "\<exists>n. lid = lease_name (wi_work_item_id i) n \<and> in_queue (tracked n w) (wi_work_item_id i) q'"
  using inv
proof (cases rule: lease_cases [of q ks now ttl w])
  case (granted k j kinds)
  let ?n = "nat (wi_attempts j + 1)"
  have i: "i = granted_item (granted_lease w ttl now j) j" using granted(7) l(1) by simp
  have "lid = lease_name (wi_work_item_id i) ?n" "tracked ?n w i"
    using l i granted(4)
    by (auto simp: granted_item_def granted_lease_def next_lease_id_def tracked_def item_ok_def work_item_problem_None)
  moreover have "map_of (wq_items q') (wi_work_item_id i) = Some i"
    using lease_result [OF inv l(1)] by blast
  ultimately show ?thesis using lease_inv [OF inv l(1)] by (auto simp: in_queue_def)
qed (use l in auto)


subsection \<open>Late results\<close>

text \<open>What becomes of a result that comes too late, when the lease number \<open>n\<close> of the item is used
  up and the item is not ended: a completion or a failure is refused, reported as a lost lease, and
  changes nothing. A cancellation is not: it is addressed to the item, not to the lease, so it ends the
  item also when another worker holds it by now.\<close>

theorem late_cancellation_ends_item:
  assumes inv: "queue_inv (wp_queue p)" and j: "map_of (wq_items (wp_queue p)) (wi_work_item_id i) = Some j"
    and late: "lease_dead n j" "\<not> is_terminal j" and reason: "\<not> blank reason"
  defines "lid \<equiv> lease_name (wi_work_item_id i) n"
  shows "apply_handler_result w i lid \<lparr>hres_status = HandlerCompleted, hres_reason = reason, hres_retry = b\<rparr> now p
      = (Inr (worker_result w RunLeaseLost (Some j) (Some lid) (''lease not found: '' @ lid)), p)
    \<and> apply_handler_result w i lid \<lparr>hres_status = HandlerFailed, hres_reason = reason, hres_retry = b\<rparr> now p
      = (Inr (worker_result w RunLeaseLost (Some j) (Some lid) (''lease not found: '' @ lid)), p)
    \<and> apply_handler_result w i lid \<lparr>hres_status = HandlerCancel, hres_reason = reason, hres_retry = b\<rparr> now p
      = (Inr (worker_result w RunCancelled (Some (cancelled_item reason now j)) (Some lid) reason),
         p\<lparr>wp_queue := put_item (cancelled_item reason now j) (wp_queue p)\<rparr>)"
proof -
  note nf = dead_lease_not_found [OF inv j late(1), folded lid_def]
  have "cancel_work (wi_work_item_id i) reason now (wp_queue p)
      = (Inr (cancelled_item reason now j), put_item (cancelled_item reason now j) (wp_queue p))"
    using inv
  proof (cases rule: cancel_work_cases [of "wp_queue p" "wi_work_item_id i" reason now])
    case (kept r)
    with j late reason item_problem_of_ok [OF cancelled_ok [OF queue_inv_item [OF inv j]]] show ?thesis
      by (auto simp: cancel_work_def get_item_def parse_defs is_terminal_def work_item_checked_def
          split: option.splits)
  qed (use j in simp)
  moreover have "p\<lparr>wp_queue := wp_queue p\<rparr> = p" by simp
  ultimately show ?thesis
    using j reason
    by (simp add: apply_handler_result_def with_queue_def complete_work_def fail_work_def nf parse_defs
        on_lease_lost_def queue_exit_def get_item_def)
qed

text \<open>A worker whose handler runs long enough for one heartbeat, and its pool.\<close>

definition sample_handler_run :: handler_run where
  "sample_handler_run = \<lparr>hr_ticks = [([], 10000000)], hr_meanwhile = [],
     hr_end = HandlerReturned \<lparr>hres_status = HandlerCompleted, hres_reason = ''completed'', hres_retry = False\<rparr>,
     hr_ended_at = 20000000, hr_winding_down = [], hr_stopped_with = None\<rparr>"

definition sample_worker :: queue_worker where
  "sample_worker = projr (queue_worker_checked ''A'' [(eq_kind sample_args, \<lambda>_. sample_handler_run)] 30 30 None None)"

definition sample_pool :: worker_pool where
  "sample_pool = \<lparr>wp_queue = queue_a, wp_registry = Some []\<rparr>"

lemma sample_handlers: "map_of (qw_handlers sample_worker) k = Some h \<Longrightarrow> h = (\<lambda>_. sample_handler_run)"
  by (simp add: sample_worker_def queue_worker_checked_def parse_defs blank_def py_isspace_def split: if_splits)

lemma sample_polite: "polite no_prune sample_worker" "honest sample_worker"
  unfolding polite_def honest_def
  using sample_handlers by (fastforce simp: sample_handler_run_def handler_events_def handler_result_checked_def)+


definition pool_b :: worker_pool where
  "pool_b = \<lparr>wp_queue = snd (lease ''B'' 30 50000000 None queue_c), wp_registry = None\<rparr>"

theorem late_cancellation_ends_item_witness:
  "\<exists>j. wi_status j = WLeased \<and> apply_handler_result sample_worker item_c (lease_name ''w'' 1)
       \<lparr>hres_status = HandlerCancel, hres_reason = ''stop'', hres_retry = False\<rparr> 60000000 pool_b
     = (Inr (worker_result sample_worker RunCancelled (Some (cancelled_item ''stop'' 60000000 j))
          (Some (lease_name ''w'' 1)) ''stop''),
        pool_b\<lparr>wp_queue := put_item (cancelled_item ''stop'' 60000000 j) (wp_queue pool_b)\<rparr>)"
proof -
  let ?j = "the (map_of (wq_items (wp_queue pool_b)) (wi_work_item_id item_c))"
  have inv: "queue_inv (wp_queue pool_b)" by (simp add: pool_b_def queue_inv_lease [OF queue_c_inv])
  have 1: "map_of (wq_items (wp_queue pool_b)) (wi_work_item_id item_c) = Some ?j"
    by (rule some_the) code_simp
  have 2: "lease_dead 1 ?j" "\<not> is_terminal ?j" "wi_status ?j = WLeased" by code_simp+
  have 3: "\<not> blank ''stop''" by code_simp
  have 4: "wi_work_item_id item_c = ''w''" by code_simp
  show ?thesis
    using late_cancellation_ends_item [OF inv 1 2(1,2) 3, of sample_worker False 60000000] 2(3) 4 by metis
qed

end
