(* ===== verification/Worker_Drain.thy ===== *)
theory Worker_Drain
  imports Worker_Safety
begin

text \<open>
  Liveness of a worker: with handlers that complete, a worker that runs until it is idle completes
  every item it may lease, and reports each of them.
\<close>

subsection \<open>What a worker may still lease\<close>

definition pending :: "time \<Rightarrow> string list \<Rightarrow> work_queue \<Rightarrow> string set" where
  "pending now kinds q = {k. \<exists>i. map_of (wq_items (sweep_queue now q)) k = Some i \<and> leaseable now (Some kinds) i}"

lemma pending_finite [simp]: "finite (pending now kinds q)"
proof (rule finite_subset)
  show "pending now kinds q \<subseteq> dom (map_of (wq_items (sweep_queue now q)))"
    by (auto simp: pending_def)
qed (rule finite_dom_map_of)

lemma sweep_item_idem [simp]: "sweep_item now (sweep_item now i) = sweep_item now i"
  by (simp add: sweep_item_def overdue_def expired_item_def)

lemma sweep_not_leased: "wi_status i \<noteq> WLeased \<Longrightarrow> sweep_item now i = i"
  by (simp add: sweep_item_def overdue_def)

lemma pending_write:
  assumes "wi_status j = WCompleted"
    and "\<And>k'. map_of (wq_items q') k' = (if k' = k then Some j else map_of (wq_items (sweep_queue now q)) k')"
  shows "pending now kinds q' = pending now kinds q - {k}"
  using assms by (auto simp: pending_def sweep_queue_lookup leaseable_def sweep_not_leased)

subsection \<open>One round\<close>

lemma timedelta_positive: "1 \<le> s \<Longrightarrow> 0 < timedelta s"
proof -
  assume "1 \<le> s"
  then have "(1000000 :: int) \<le> \<lfloor>s * 1000000\<rfloor>" by (simp add: le_floor_iff)
  then show ?thesis unfolding timedelta_def round_half_even_def by (auto simp: Let_def)
qed

text \<open>A worker that is alone: no registry, and handlers that complete at once for all its kinds.\<close>

definition prompt :: "time \<Rightarrow> queue_worker \<Rightarrow> bool" where
  "prompt now w \<longleftrightarrow> 1 \<le> qw_lease_ttl_seconds w
     \<and> (\<forall>c \<in> set (qw_worker_capabilities w). \<not> blank c)
     \<and> (\<forall>c \<in> set (qw_worker_capabilities w). map_of (qw_handlers w) (py_strip c) \<noteq> None)
     \<and> (\<forall>k h i. map_of (qw_handlers w) k = Some h \<longrightarrow> hr_ticks (h i) = [] \<and> hr_meanwhile (h i) = []
          \<and> hr_ended_at (h i) = now
          \<and> (\<exists>x. hr_end (h i) = HandlerReturned x \<and> hres_status x = HandlerCompleted))"

definition kinds_of :: "queue_worker \<Rightarrow> string list" where
  "kinds_of w = map py_strip (qw_worker_capabilities w)"

lemma prompt_kinds: "prompt now w \<Longrightarrow>
    normalize_accepted_kinds (Some (qw_worker_capabilities w)) = Inr (Some (kinds_of w))"
  by (auto simp: prompt_def kinds_of_def normalize_accepted_kinds_def list_ex_iff)

lemma run_once_alone:
  assumes "wp_registry p = None"
  shows "run_once w now later p =
    (case with_queue (lease (qw_worker_id w) (qw_lease_ttl_seconds w) now (Some (qw_worker_capabilities w))) p of
       (Inl (ExitQueue (NoWorkAvailable _)), p2) \<Rightarrow> (Inr (worker_result w RunNoWork None None ''no work available''), p2)
     | (Inl e, p2) \<Rightarrow> (Inl e, p2)
     | (Inr i, p2) \<Rightarrow> run_leased w later i p2)"
  by (simp add: run_once_def prepare_worker_def assms)

lemma leased_is_completed:
  assumes w: "prompt now w" and inv: "queue_inv q"
    and i: "map_of (wq_items q) k = Some i" "wi_status i = WLeased" "wi_lease i = Some l"
      "wl_worker_id l = qw_worker_id w" "now < wl_lease_expires_at l" "wi_kind i \<in> set (kinds_of w)"
    and p: "wp_queue p = q"
  shows "\<exists>r. run_leased w later i p = (Inr r, p\<lparr>wp_queue := put_item (completed_item now i) q\<rparr>)
    \<and> wrr_status r = RunCompleted \<and> wrr_work_item r = Some (completed_item now i)"
proof -
  have "map_of (qw_handlers w) (wi_kind i) \<noteq> None"
    using w i(6) unfolding kinds_of_def prompt_def by auto
  then obtain h where h: "map_of (qw_handlers w) (wi_kind i) = Some h" by blast
  then obtain x where x: "hr_ticks (h i) = []" "hr_meanwhile (h i) = []" "hr_ended_at (h i) = now"
      "hr_end (h i) = HandlerReturned x" "hres_status x = HandlerCompleted"
    using w unfolding prompt_def by metis
  have "live_holder (wl_lease_id l) (qw_worker_id w) now q i" using i unfolding live_holder_def by blast
  from leased_item_live [OF inv this] have "leased_item (wl_lease_id l) (qw_worker_id w) now q = (Inr (i, l), q)"
    using i by simp
  then have "complete_work (wl_lease_id l) (qw_worker_id w) now q =
      (Inr (completed_item now i), put_item (completed_item now i) q)"
    by (simp add: complete_work_def work_item_checked_ok
        item_problem_of_ok [OF completed_ok [OF queue_inv_item [OF inv i(1)]]])
  then show ?thesis
    using i h x p by (simp add: run_leased_def handle_item_def call_handler_def apply_handler_result_def
        with_queue_def on_lease_lost_def worker_result_def)
qed

lemma lease_positive:
  assumes inv: "queue_inv q" and "0 < ttl" and "normalize_accepted_kinds ks = Inr kinds"
  shows "lease w ttl now ks q \<noteq> (Inl (ValueErr m), q')"
proof (cases "next_leaseable now kinds (sweep_queue now q)")
  case None
  then show ?thesis using assms by (simp add: lease_def expire_eq [OF inv])
next
  case (Some i)
  have inv': "queue_inv (sweep_queue now q)" using inv by (rule queue_inv_sweep)
  note nl = next_leaseable_Some(1,2) [OF queue_inv_wf(1) [OF inv'] Some]
  then obtain k where "item_ok (wq_fencing_sequences (sweep_queue now q)) k i"
    using queue_inv_item [OF inv'] by blast
  from lease_item_eq [OF this _ assms(2)] nl(2) show ?thesis
    using assms Some by (simp add: lease_def expire_eq [OF inv] leaseable_def)
qed

lemma prompt_round:
  assumes w: "prompt now w" and inv: "queue_inv (wp_queue p)" and alone: "wp_registry p = None"
  shows "\<exists>r p'. run_once w now later p = (Inr r, p') \<and> queue_inv (wp_queue p') \<and> wp_registry p' = None \<and>
    (if pending now (kinds_of w) (wp_queue p) = {}
     then wrr_status r = RunNoWork \<and> pending now (kinds_of w) (wp_queue p') = {}
     else wrr_status r = RunCompleted \<and> (\<exists>k \<in> pending now (kinds_of w) (wp_queue p).
            pending now (kinds_of w) (wp_queue p') = pending now (kinds_of w) (wp_queue p) - {k}))"
  using inv
proof (cases rule: lease_cases [of "wp_queue p" "Some (qw_worker_capabilities w)" now
      "qw_lease_ttl_seconds w" "qw_worker_id w"])
  case (no_work kinds)
  then have "pending now (kinds_of w) (wp_queue p) = {}"
    using prompt_kinds [OF w] by (auto simp: pending_def)
  moreover have "pending now (kinds_of w) (sweep_queue now (wp_queue p)) = pending now (kinds_of w) (wp_queue p)"
    by (auto simp: pending_def sweep_queue_lookup)
  ultimately show ?thesis
    using no_work alone by (simp add: run_once_alone with_queue_def queue_exit_def worker_result_def queue_inv_sweep [OF inv])
next
  case (rejected m q')
  have "0 < qw_lease_ttl_seconds w" using w by (simp add: prompt_def)
  with rejected prompt_kinds [OF w] show ?thesis
    using lease_positive [OF inv] by metis
next
  case (granted k i kinds)
  let ?l = "granted_lease (qw_worker_id w) (qw_lease_ttl_seconds w) now i"
  let ?q = "grant ?l i (sweep_queue now (wp_queue p))"
  let ?p = "p\<lparr>wp_queue := ?q\<rparr>"
  have kinds: "kinds = Some (kinds_of w)" using granted(1) prompt_kinds [OF w] by simp
  have k: "wi_work_item_id i = k" using granted(4) by (rule item_ok_id)
  have q: "queue_inv ?q" using lease_inv [OF inv granted(7)] .
  have up: "map_of (wq_items ?q) k = Some (granted_item ?l i)" by (simp add: grant_def k map_of_update)
  have "0 < timedelta (qw_lease_ttl_seconds w)" using w by (simp add: prompt_def timedelta_positive)
  then obtain r where r: "run_leased w later (granted_item ?l i) ?p
        = (Inr r, ?p\<lparr>wp_queue := put_item (completed_item now (granted_item ?l i)) ?q\<rparr>)"
      "wrr_status r = RunCompleted"
    using leased_is_completed [OF w q up, of ?l ?p later] granted(3) kinds
    by (auto simp: granted_item_def granted_lease_def leaseable_def)
  let ?q' = "put_item (completed_item now (granted_item ?l i)) ?q"
  have "queue_inv ?q'"
    using completed_ok [OF queue_inv_item [OF q up]] by (intro queue_inv_put [OF q up]) (simp_all add: is_terminal_def completed_item_def granted_item_def)
  moreover have "pending now (kinds_of w) ?q' = pending now (kinds_of w) (wp_queue p) - {k}"
    by (rule pending_write [of "completed_item now (granted_item ?l i)"])
      (simp_all add: completed_item_def granted_item_def put_item_def grant_def k map_of_update)
  moreover have "k \<in> pending now (kinds_of w) (wp_queue p)"
    using granted(2,3) kinds by (auto simp: pending_def)
  ultimately show ?thesis
    using r alone granted(7) by (auto simp: run_once_alone with_queue_def)
qed


subsection \<open>All rounds\<close>

lemma prompt_rounds:
  assumes w: "prompt now w" and rounds: "\<And>k. fst (rounds k) = [] \<and> fst (snd (rounds k)) = now"
  shows "queue_inv (wp_queue p) \<Longrightarrow> wp_registry p = None
    \<Longrightarrow> card (pending now (kinds_of w) (wp_queue p)) < n
    \<Longrightarrow> \<exists>rs p'. run_rounds w n rounds p = (Inr rs, p') \<and> pending now (kinds_of w) (wp_queue p') = {}
      \<and> map wrr_status rs = replicate (card (pending now (kinds_of w) (wp_queue p))) RunCompleted @ [RunNoWork]"
  using rounds
proof (induction n arbitrary: p rounds)
  case (Suc n)
  let ?P = "\<lambda>p. pending now (kinds_of w) (wp_queue p)"
  obtain later where 0: "rounds 0 = ([], now, later)" using Suc.prems(4) [of 0] by (metis prod.collapse)
  from prompt_round [OF w Suc.prems(1,2), of later] obtain r p' where
    r: "run_once w now later p = (Inr r, p')" "queue_inv (wp_queue p')" "wp_registry p' = None"
      "if ?P p = {} then wrr_status r = RunNoWork \<and> ?P p' = {}
       else wrr_status r = RunCompleted \<and> (\<exists>k \<in> ?P p. ?P p' = ?P p - {k})" by blast
  show ?case
  proof (cases "?P p = {}")
    case True
    with r 0 show ?thesis by simp
  next
    case False
    with r(4) obtain k where k: "k \<in> ?P p" "?P p' = ?P p - {k}" and st: "wrr_status r = RunCompleted" by auto
    then have card: "card (?P p) = Suc (card (?P p'))" by (metis card.remove pending_finite)
    with Suc.prems(3) have "card (?P p') < n" by simp
    from Suc.IH [OF r(2,3) this, of "\<lambda>k. rounds (Suc k)"] Suc.prems(4) obtain rs p2 where
      "run_rounds w n (\<lambda>k. rounds (Suc k)) p' = (Inr rs, p2)" "?P p2 = {}"
      "map wrr_status rs = replicate (card (?P p')) RunCompleted @ [RunNoWork]" by blast
    with r 0 st card show ?thesis by simp
  qed
qed simp


definition quick_worker :: queue_worker where
  "quick_worker = sample_worker\<lparr>qw_handlers := [(''task'', \<lambda>_. sample_handler_run\<lparr>hr_ticks := [], hr_ended_at := 0\<rparr>)],
     qw_worker_capabilities := [''task'']\<rparr>"


end
