(* ===== verification/Agent_Tasks.thy ===== *)
theory Agent_Tasks
  imports Domain_Safety
begin

text \<open>
  The contracts of delegated work and the registry of agents: \<open>multi_agent/contracts.py\<close> (requests,
  constraints, usage, results) and \<open>multi_agent/registry.py\<close> (profiles, instances, eligibility).
  A \<open>__post_init__\<close> is the text of the \<open>ValueError\<close> it raises, if any; the JSON codecs on
  \<open>pydantic\<close> models are left out.
\<close>

subsection \<open>Strings\<close>

text \<open>\<open>str.lower\<close> and \<open>str.split\<close> for code points below 256.\<close>

definition lower_char :: "char \<Rightarrow> char" where
  "lower_char c = (let n = of_char c :: nat in
     if (65 \<le> n \<and> n \<le> 90) \<or> (192 \<le> n \<and> n \<le> 222 \<and> n \<noteq> 215) then char_of (n + 32) else c)"

definition py_lower :: "string \<Rightarrow> string" where
  "py_lower s = map lower_char s"

fun split_words :: "string \<Rightarrow> string \<Rightarrow> string list" where
  "split_words w [] = (if w = [] then [] else [rev w])"
| "split_words w (c # cs) =
     (if py_isspace c then (if w = [] then split_words [] cs else rev w # split_words [] cs)
      else split_words (c # w) cs)"

definition py_split :: "string \<Rightarrow> string list" where
  "py_split s = split_words [] s"

definition starts_with :: "string \<Rightarrow> string \<Rightarrow> bool" where
  "starts_with p s \<longleftrightarrow> take (length p) s = p"

text \<open>\<open>parse_non_empty_string_sequence\<close>: the first blank item, named by its index.\<close>

fun blank_item :: "nat \<Rightarrow> string list \<Rightarrow> nat option" where
  "blank_item n [] = None"
| "blank_item n (x # xs) = (if blank x then Some n else blank_item (n + 1) xs)"

definition empty_item :: "string \<Rightarrow> string list \<Rightarrow> string option" where
  "empty_item field xs = (case blank_item 0 xs of None \<Rightarrow> None
     | Some i \<Rightarrow> Some (field @ ''['' @ show_nat i @ ''] must not be empty''))"

definition problem_of :: "string + 'a \<Rightarrow> string option" where
  "problem_of r = (case r of Inl m \<Rightarrow> Some m | Inr _ \<Rightarrow> None)"

subsection \<open>contracts.py\<close>

definition AGENT_TASK_API_VERSION :: string where
  "AGENT_TASK_API_VERSION = ''agent.nantian.dev/v1''"

datatype agent_task_result_status = AtCompleted | AtFailed | AtCancelled | AtRejected | AtWaiting

fun agent_task_status_value :: "agent_task_result_status \<Rightarrow> string" where
  "agent_task_status_value AtCompleted = ''completed''"
| "agent_task_status_value AtFailed = ''failed''"
| "agent_task_status_value AtCancelled = ''cancelled''"
| "agent_task_status_value AtRejected = ''rejected''"
| "agent_task_status_value AtWaiting = ''waiting''"

record agent_task_constraints =
  ac_read_only :: bool
  ac_max_depth :: int
  ac_max_children :: int
  ac_max_duration_seconds :: "rat option"
  ac_max_cost :: "rat option"
  ac_allowed_profiles :: "string list"
  ac_required_permissions :: "string list"

definition default_constraints :: agent_task_constraints where
  "default_constraints = \<lparr>ac_read_only = False, ac_max_depth = 1, ac_max_children = 1,
     ac_max_duration_seconds = None, ac_max_cost = None, ac_allowed_profiles = [],
     ac_required_permissions = []\<rparr>"

definition constraints_problem :: "agent_task_constraints \<Rightarrow> string option" where
  "constraints_problem c = first_problem
     [problem_of (parse_non_negative_int (ac_max_depth c) ''agent task max_depth''),
      problem_of (parse_positive_int (ac_max_children c) ''agent task max_children''),
      (case ac_max_duration_seconds c of None \<Rightarrow> None
       | Some x \<Rightarrow> problem_of (parse_positive_float x ''agent task max_duration_seconds'')),
      (case ac_max_cost c of None \<Rightarrow> None
       | Some x \<Rightarrow> problem_of (parse_non_negative_float x ''agent task max_cost'')),
      empty_item ''agent task allowed_profiles'' (ac_allowed_profiles c),
      empty_item ''agent task required_permissions'' (ac_required_permissions c)]"

record agent_expected_output =
  ao_type :: string
  ao_schema :: json_mapping

record agent_task_request =
  ar_goal :: string
  ar_expected_output :: agent_expected_output
  ar_input :: json_mapping
  ar_constraints :: agent_task_constraints
  ar_api_version :: string
  ar_task_id :: string
  ar_parent_task_id :: "string option"
  ar_parent_session_id :: "string option"
  ar_parent_goal_id :: "string option"
  ar_parent_kernel_task_id :: "string option"
  ar_delegation_depth :: int

text \<open>\<open>_agent_task_id\<close>; \<open>stamp\<close> is the clock, formatted with its microseconds.\<close>

definition agent_task_id :: "string \<Rightarrow> string \<Rightarrow> string" where
  "agent_task_id stamp goal =
     (let n = take 40 (join_str ''-'' (py_split (py_lower goal)))
      in ''agent-task-'' @ (if n = [] then ''task'' else n) @ ''-'' @ stamp)"

definition request_problem :: "agent_task_request \<Rightarrow> string option" where
  "request_problem r = first_problem
     [require (ar_api_version r = AGENT_TASK_API_VERSION)
        (''unsupported agent task api version: '' @ ar_api_version r),
      problem_of (parse_non_empty_string (ar_goal r) ''agent task goal''),
      problem_of (parse_non_negative_int (ar_delegation_depth r) ''agent task delegation_depth''),
      require (ar_delegation_depth r \<le> ac_max_depth (ar_constraints r))
        ''agent task delegation_depth exceeds max_depth'']"

definition request_checked :: "string \<Rightarrow> agent_task_request \<Rightarrow> string + agent_task_request" where
  "request_checked stamp r =
     (case request_problem r of Some m \<Rightarrow> Inl m
      | None \<Rightarrow> Inr (if blank (ar_task_id r)
                     then r\<lparr>ar_task_id := agent_task_id stamp (ar_goal r)\<rparr> else r))"

record agent_task_usage =
  au_model_call_count :: int
  au_input_tokens :: int
  au_output_tokens :: int
  au_estimated_cost :: rat
  au_currency :: string

definition no_usage :: agent_task_usage where
  "no_usage = \<lparr>au_model_call_count = 0, au_input_tokens = 0, au_output_tokens = 0,
     au_estimated_cost = 0, au_currency = ''USD''\<rparr>"

definition total_tokens :: "agent_task_usage \<Rightarrow> int" where
  "total_tokens u = au_input_tokens u + au_output_tokens u"

record agent_task_result =
  at_task_id :: string
  at_status :: agent_task_result_status
  at_result :: json_mapping
  at_evidence_ids :: "string list"
  at_reason :: string
  at_session_id :: "string option"
  at_error_code :: "error_code option"
  at_api_version :: string
  at_usage :: agent_task_usage

definition result_problem :: "agent_task_result \<Rightarrow> string option" where
  "result_problem r = first_problem
     [require (at_api_version r = AGENT_TASK_API_VERSION)
        (''unsupported agent task result api version: '' @ at_api_version r),
      problem_of (parse_non_empty_string (at_task_id r) ''agent task result task_id''),
      require (\<not> (at_status r = AtCompleted \<and> at_error_code r \<noteq> None))
        ''completed agent task result cannot include error_code'',
      require (at_status r = AtCompleted \<or> \<not> blank (at_reason r))
        ''non-completed agent task result requires reason'']"

definition result_checked :: "agent_task_result \<Rightarrow> string + agent_task_result" where
  "result_checked r = (case result_problem r of Some m \<Rightarrow> Inl m | None \<Rightarrow> Inr r)"

text \<open>The constructor with the defaults of the dataclass.\<close>

definition task_result :: "string \<Rightarrow> agent_task_result_status \<Rightarrow> string \<Rightarrow> error_code option \<Rightarrow> agent_task_result" where
  "task_result tid s reason code = \<lparr>at_task_id = tid, at_status = s, at_result = [],
     at_evidence_ids = [], at_reason = reason, at_session_id = None, at_error_code = code,
     at_api_version = AGENT_TASK_API_VERSION, at_usage = no_usage\<rparr>"

subsection \<open>registry.py\<close>

datatype agent_registry_error = RegistryError string | ProfileNotRegistered string
  | InstanceNotRegistered string

datatype agent_instance_status = InstReady | InstBusy | InstOffline | InstDraining

record agent_profile =
  ap_profile_name :: string
  ap_profile_version :: string
  ap_domains :: "domain_identity list"
  ap_permissions :: "string list"
  ap_capabilities :: "string list"
  ap_description :: string

record agent_instance =
  ai_agent_id :: string
  ai_profile_name :: string
  ai_profile_version :: string
  ai_status :: agent_instance_status
  ai_session_id :: "string option"
  ai_endpoint :: "string option"

definition profile_problem :: "agent_profile \<Rightarrow> string option" where
  "profile_problem p = first_problem
     [problem_of (parse_non_empty_string (ap_profile_name p) ''agent profile name''),
      problem_of (parse_non_empty_string (ap_profile_version p) ''agent profile version''),
      require (ap_domains p \<noteq> []) ''agent profile domains must not be empty'',
      empty_item ''agent profile permissions'' (ap_permissions p),
      empty_item ''agent profile capabilities'' (ap_capabilities p)]"

definition instance_problem :: "agent_instance \<Rightarrow> string option" where
  "instance_problem i = first_problem
     [problem_of (parse_non_empty_string (ai_agent_id i) ''agent instance id''),
      problem_of (parse_non_empty_string (ai_profile_name i) ''agent instance profile_name''),
      problem_of (parse_non_empty_string (ai_profile_version i) ''agent instance profile_version''),
      (case ai_endpoint i of None \<Rightarrow> None
       | Some e \<Rightarrow> problem_of (parse_non_empty_string e ''agent instance endpoint''))]"

definition profile_identity :: "agent_profile \<Rightarrow> string \<times> string" where
  "profile_identity p = (ap_profile_name p, ap_profile_version p)"

definition instance_profile :: "agent_instance \<Rightarrow> string \<times> string" where
  "instance_profile i = (ai_profile_name i, ai_profile_version i)"

record agent_registry =
  rg_profiles :: "(string \<times> string, agent_profile) dict"
  rg_instances :: "(string, agent_instance) dict"

definition empty_registry :: agent_registry where
  "empty_registry = \<lparr>rg_profiles = [], rg_instances = []\<rparr>"

definition versioned :: "string \<times> string \<Rightarrow> string" where
  "versioned k = fst k @ ''@'' @ snd k"

definition register_profile :: "agent_profile \<Rightarrow> agent_registry \<Rightarrow> agent_registry_error + agent_registry" where
  "register_profile p g =
     (if map_of (rg_profiles g) (profile_identity p) \<noteq> None
      then Inl (RegistryError (''duplicate agent profile: '' @ versioned (profile_identity p)))
      else Inr (g\<lparr>rg_profiles := AList.update (profile_identity p) p (rg_profiles g)\<rparr>))"

definition register_instance :: "agent_instance \<Rightarrow> agent_registry \<Rightarrow> agent_registry_error + agent_registry" where
  "register_instance i g =
     (if map_of (rg_instances g) (ai_agent_id i) \<noteq> None
      then Inl (RegistryError (''duplicate agent instance: '' @ ai_agent_id i))
      else if map_of (rg_profiles g) (instance_profile i) = None
      then Inl (ProfileNotRegistered (''agent instance profile not registered: '' @ versioned (instance_profile i)))
      else Inr (g\<lparr>rg_instances := AList.update (ai_agent_id i) i (rg_instances g)\<rparr>))"

text \<open>\<open>AgentRegistry.__init__\<close> registers in order.\<close>

fun register_all :: "('a \<Rightarrow> agent_registry \<Rightarrow> agent_registry_error + agent_registry) \<Rightarrow> 'a list
    \<Rightarrow> agent_registry \<Rightarrow> agent_registry_error + agent_registry" where
  "register_all f [] g = Inr g"
| "register_all f (x # xs) g = (case f x g of Inl e \<Rightarrow> Inl e | Inr g' \<Rightarrow> register_all f xs g')"

definition new_registry :: "agent_profile list \<Rightarrow> agent_instance list \<Rightarrow> agent_registry_error + agent_registry" where
  "new_registry ps is = (case register_all register_profile ps empty_registry of Inl e \<Rightarrow> Inl e
     | Inr g \<Rightarrow> register_all register_instance is g)"

definition find_profile :: "string \<times> string \<Rightarrow> agent_registry \<Rightarrow> agent_registry_error + agent_profile" where
  "find_profile k g = (case map_of (rg_profiles g) k of
     None \<Rightarrow> Inl (ProfileNotRegistered (''agent profile not registered: '' @ versioned k))
   | Some p \<Rightarrow> Inr p)"

definition find_instance :: "string \<Rightarrow> agent_registry \<Rightarrow> agent_registry_error + agent_instance" where
  "find_instance a g = (case map_of (rg_instances g) a of
     None \<Rightarrow> Inl (InstanceNotRegistered (''agent instance not registered: '' @ a)) | Some i \<Rightarrow> Inr i)"

definition update_instance_status :: "string \<Rightarrow> agent_instance_status \<Rightarrow> agent_registry
    \<Rightarrow> (agent_registry, agent_registry_error, agent_instance) outcome" where
  "update_instance_status a s g = check_op (find_instance a g) g (\<lambda>i.
     let i' = i\<lparr>ai_status := s\<rparr>
     in (Inr i', g\<lparr>rg_instances := AList.update a i' (rg_instances g)\<rparr>))"

definition all_profiles :: "agent_registry \<Rightarrow> agent_profile list" where
  "all_profiles g = sort_key profile_identity (dict_values (rg_profiles g))"

definition all_instances :: "agent_registry \<Rightarrow> agent_instance list" where
  "all_instances g = sort_key ai_agent_id (dict_values (rg_instances g))"

text \<open>\<open>value.strip().lower().replace("-", "_")\<close>\<close>

definition normalized_name :: "string \<Rightarrow> string" where
  "normalized_name v = map (\<lambda>c. if c = CHR ''-'' then CHR ''_'' else c) (py_lower (py_strip v))"

definition mutating_permission_prefixes :: "string list" where
  "mutating_permission_prefixes = [''admin'', ''apply'', ''create'', ''delete'', ''destructive'',
     ''execute'', ''mutat'', ''patch'', ''restart'', ''rollout'', ''scale'', ''update'', ''write'']"

definition mutating_capability_prefixes :: "string list" where
  "mutating_capability_prefixes = [''apply_'', ''create_'', ''delete_'', ''mutate_'', ''patch_'',
     ''restart_'', ''rollout_'', ''scale_'', ''update_'', ''write_'']"

definition looks_mutating_permission :: "string \<Rightarrow> bool" where
  "looks_mutating_permission v = (if normalized_name v = ''read_only'' then False
     else list_ex (\<lambda>p. starts_with p (normalized_name v)) mutating_permission_prefixes)"

definition looks_mutating_capability :: "string \<Rightarrow> bool" where
  "looks_mutating_capability v = list_ex (\<lambda>p. starts_with p (normalized_name v)) mutating_capability_prefixes"

definition profile_grants_mutation :: "agent_profile \<Rightarrow> bool" where
  "profile_grants_mutation p \<longleftrightarrow> list_ex looks_mutating_permission (ap_permissions p)
     \<or> list_ex looks_mutating_capability (ap_capabilities p)"

definition profile_eligible :: "agent_profile \<Rightarrow> agent_task_request \<Rightarrow> bool" where
  "profile_eligible p r = (let c = ar_constraints r in
     if ac_allowed_profiles c \<noteq> [] \<and> ap_profile_name p \<notin> set (ac_allowed_profiles c) then False
     else if ac_read_only c \<and> ''read_only'' \<notin> set (ap_permissions p) then False
     else if ac_read_only c \<and> profile_grants_mutation p then False
     else set (ac_required_permissions c) \<subseteq> set (ap_permissions p))"

text \<open>The generator looks up the profile of each ready instance and stops when one is missing.\<close>

fun eligible_among :: "agent_instance list \<Rightarrow> agent_task_request \<Rightarrow> agent_registry
    \<Rightarrow> agent_registry_error + agent_instance list" where
  "eligible_among [] r g = Inr []"
| "eligible_among (i # is) r g =
     (if ai_status i \<noteq> InstReady then eligible_among is r g
      else case find_profile (instance_profile i) g of Inl e \<Rightarrow> Inl e
        | Inr p \<Rightarrow> (case eligible_among is r g of Inl e \<Rightarrow> Inl e
            | Inr js \<Rightarrow> Inr (if profile_eligible p r then i # js else js)))"

definition eligible_instances :: "agent_task_request \<Rightarrow> agent_registry
    \<Rightarrow> agent_registry_error + agent_instance list" where
  "eligible_instances r g = eligible_among (all_instances g) r g"

record agent_registry_snapshot =
  sn_profiles :: "agent_profile list"
  sn_instances :: "agent_instance list"

definition registry_snapshot_of :: "agent_registry \<Rightarrow> agent_registry_snapshot" where
  "registry_snapshot_of g = \<lparr>sn_profiles = all_profiles g, sn_instances = all_instances g\<rparr>"

definition registry_from_snapshot :: "agent_registry_snapshot \<Rightarrow> agent_registry_error + agent_registry" where
  "registry_from_snapshot s = new_registry (sn_profiles s) (sn_instances s)"

end
