(* ===== verification/Delegation.thy ===== *)
theory Delegation
  imports Agent_Tasks
begin

text \<open>
  \<open>multi_agent/delegation.py\<close> and the in-memory ledger of \<open>multi_agent/ledger.py\<close>: the life of a
  delegated task and the journal of its changes. What a call takes from outside (the clock at its
  two uses, a new event id) is the record \<open>stamps\<close>; the id of a new delegation is an argument.
\<close>

subsection \<open>The ledger\<close>

record delegation_event =
  de_event_type :: string
  de_delegation_id :: string
  de_task_id :: string
  de_from_agent :: string
  de_to_agent :: string
  de_status :: string
  de_data :: json_mapping
  de_event_id :: string
  de_occurred_at :: time

definition event_problem :: "delegation_event \<Rightarrow> string option" where
  "event_problem e = first_problem
     [problem_of (parse_non_empty_string (de_event_type e) ''delegation event type''),
      problem_of (parse_non_empty_string (de_delegation_id e) ''delegation event delegation_id''),
      problem_of (parse_non_empty_string (de_task_id e) ''delegation event task_id''),
      problem_of (parse_non_empty_string (de_from_agent e) ''delegation event from_agent''),
      problem_of (parse_non_empty_string (de_to_agent e) ''delegation event to_agent''),
      problem_of (parse_non_empty_string (de_status e) ''delegation event status'')]"

text \<open>The set of the known ids is a list.\<close>

record delegation_ledger =
  dl_events :: "delegation_event list"
  dl_ids :: "string list"

definition empty_ledger :: delegation_ledger where
  "empty_ledger = \<lparr>dl_events = [], dl_ids = []\<rparr>"

definition append_to_ledger :: "delegation_event \<Rightarrow> delegation_ledger \<Rightarrow> delegation_ledger" where
  "append_to_ledger e l = (if de_event_id e \<in> set (dl_ids l) then l
     else \<lparr>dl_events = dl_events l @ [e], dl_ids = de_event_id e # dl_ids l\<rparr>)"

definition filter_events :: "string option \<Rightarrow> string option \<Rightarrow> delegation_event list \<Rightarrow> delegation_event list" where
  "filter_events did tid es = filter (\<lambda>e. (did = None \<or> did = Some (de_delegation_id e))
     \<and> (tid = None \<or> tid = Some (de_task_id e))) es"

definition list_ledger :: "string option \<Rightarrow> string option \<Rightarrow> delegation_ledger \<Rightarrow> delegation_event list" where
  "list_ledger did tid l = filter_events did tid (dl_events l)"

subsection \<open>Delegations\<close>

datatype delegation_status = DelPending | DelRunning | DelCompleted | DelFailed | DelRevoked

fun delegation_status_value :: "delegation_status \<Rightarrow> string" where
  "delegation_status_value DelPending = ''pending''"
| "delegation_status_value DelRunning = ''running''"
| "delegation_status_value DelCompleted = ''completed''"
| "delegation_status_value DelFailed = ''failed''"
| "delegation_status_value DelRevoked = ''revoked''"

fun allowed_transitions :: "delegation_status \<Rightarrow> delegation_status set" where
  "allowed_transitions DelPending = {DelRunning, DelFailed, DelRevoked}"
| "allowed_transitions DelRunning = {DelCompleted, DelFailed, DelRevoked}"
| "allowed_transitions DelCompleted = {}"
| "allowed_transitions DelFailed = {}"
| "allowed_transitions DelRevoked = {}"

record delegation =
  dg_delegation_id :: string
  dg_task_id :: string
  dg_from_agent :: string
  dg_to_agent :: string
  dg_contract :: agent_task_request
  dg_status :: delegation_status
  dg_result :: "agent_task_result option"
  dg_created_at :: time
  dg_updated_at :: time
  dg_fallback_agent :: "string option"

datatype delegation_error = DelegationNotFound string | InvalidDelegationTransition string
  | DelegationValueErr string

record delegation_manager =
  mg_delegations :: "(string, delegation) dict"
  mg_ledger :: delegation_ledger

type_synonym 'a delegation_outcome = "(delegation_manager, delegation_error, 'a) outcome"

record stamps =
  st_now :: time
  st_event_id :: string
  st_event_at :: time

definition no_delegations :: delegation_manager where
  "no_delegations = \<lparr>mg_delegations = [], mg_ledger = empty_ledger\<rparr>"

definition event_data :: "agent_task_result option \<Rightarrow> json_mapping" where
  "event_data r = (case r of None \<Rightarrow> []
     | Some x \<Rightarrow> [(''result_status'', JStr (agent_task_status_value (at_status x))),
                  (''reason'', JStr (at_reason x))]
         @ (case at_session_id x of None \<Rightarrow> [] | Some s \<Rightarrow> [(''session_id'', JStr s)]))"

definition event_of :: "stamps \<Rightarrow> string \<Rightarrow> delegation \<Rightarrow> delegation_event" where
  "event_of t ty d = \<lparr>de_event_type = ty, de_delegation_id = dg_delegation_id d,
     de_task_id = dg_task_id d, de_from_agent = dg_from_agent d, de_to_agent = dg_to_agent d,
     de_status = delegation_status_value (dg_status d), de_data = event_data (dg_result d),
     de_event_id = st_event_id t, de_occurred_at = st_event_at t\<rparr>"

text \<open>
  \<open>self._delegations[...] = d\<close>, then \<open>_record\<close>: when the event is refused the delegation
  has been changed already.
\<close>

definition store_and_record :: "stamps \<Rightarrow> string \<Rightarrow> delegation \<Rightarrow> delegation_manager \<Rightarrow> delegation delegation_outcome" where
  "store_and_record t ty d m =
     (let m1 = m\<lparr>mg_delegations := AList.update (dg_delegation_id d) d (mg_delegations m)\<rparr>
      in case event_problem (event_of t ty d) of Some e \<Rightarrow> (Inl (DelegationValueErr e), m1)
         | None \<Rightarrow> (Inr d, m1\<lparr>mg_ledger := append_to_ledger (event_of t ty d) (mg_ledger m1)\<rparr>))"

definition create_delegation :: "stamps \<Rightarrow> string \<Rightarrow> string \<Rightarrow> string \<Rightarrow> agent_task_request \<Rightarrow> string option
    \<Rightarrow> delegation_manager \<Rightarrow> delegation delegation_outcome" where
  "create_delegation t did from to contract fallback m =
     store_and_record t ''DelegationCreated''
       \<lparr>dg_delegation_id = did, dg_task_id = ar_task_id contract, dg_from_agent = from,
        dg_to_agent = to, dg_contract = contract, dg_status = DelPending, dg_result = None,
        dg_created_at = st_now t, dg_updated_at = st_now t, dg_fallback_agent = fallback\<rparr> m"

definition get_delegation :: "string \<Rightarrow> delegation_manager \<Rightarrow> delegation_error + delegation" where
  "get_delegation did m = (case map_of (mg_delegations m) did of
     None \<Rightarrow> Inl (DelegationNotFound (''delegation not found: '' @ did)) | Some d \<Rightarrow> Inr d)"

fun event_type_for_status :: "delegation_status \<Rightarrow> string" where
  "event_type_for_status DelRunning = ''DelegationStarted''"
| "event_type_for_status DelCompleted = ''DelegationCompleted''"
| "event_type_for_status DelFailed = ''DelegationFailed''"
| "event_type_for_status DelRevoked = ''DelegationRevoked''"
| "event_type_for_status DelPending = ''DelegationPending''"

definition transition_delegation :: "stamps \<Rightarrow> string \<Rightarrow> delegation_status \<Rightarrow> delegation_manager
    \<Rightarrow> delegation delegation_outcome" where
  "transition_delegation t did target m = check_op (get_delegation did m) m (\<lambda>d.
     if target \<notin> allowed_transitions (dg_status d)
     then (Inl (InvalidDelegationTransition (''cannot transition delegation from ''
            @ delegation_status_value (dg_status d) @ '' to '' @ delegation_status_value target)), m)
     else store_and_record t (event_type_for_status target)
            (d\<lparr>dg_status := target, dg_updated_at := st_now t\<rparr>) m)"

definition start_delegation :: "stamps \<Rightarrow> string \<Rightarrow> delegation_manager \<Rightarrow> delegation delegation_outcome" where
  "start_delegation t did m = transition_delegation t did DelRunning m"

definition revoke_delegation :: "stamps \<Rightarrow> string \<Rightarrow> delegation_manager \<Rightarrow> delegation delegation_outcome" where
  "revoke_delegation t did m = transition_delegation t did DelRevoked m"

definition complete_delegation :: "stamps \<Rightarrow> string \<Rightarrow> agent_task_result \<Rightarrow> delegation_manager
    \<Rightarrow> delegation delegation_outcome" where
  "complete_delegation t did r m = check_op (get_delegation did m) m (\<lambda>d.
     if DelCompleted \<notin> allowed_transitions (dg_status d)
     then (Inl (InvalidDelegationTransition (''cannot complete delegation in status ''
            @ delegation_status_value (dg_status d))), m)
     else if at_task_id r \<noteq> dg_task_id d
     then (Inl (InvalidDelegationTransition (''result task_id '' @ at_task_id r
            @ '' does not match delegation task_id '' @ dg_task_id d)), m)
     else store_and_record t ''DelegationCompleted''
            (d\<lparr>dg_status := DelCompleted, dg_result := Some r, dg_updated_at := st_now t\<rparr>) m)"

definition fail_delegation :: "stamps \<Rightarrow> string \<Rightarrow> string \<Rightarrow> delegation_manager \<Rightarrow> delegation delegation_outcome" where
  "fail_delegation t did error m = check_op (get_delegation did m) m (\<lambda>d.
     if DelFailed \<notin> allowed_transitions (dg_status d)
     then (Inl (InvalidDelegationTransition (''cannot fail delegation in status ''
            @ delegation_status_value (dg_status d))), m)
     else check_op (map_error DelegationValueErr (result_checked (task_result (dg_task_id d) AtFailed error None))) m
       (\<lambda>r. case dg_fallback_agent d of
          Some a \<Rightarrow> store_and_record t ''DelegationFallbackQueued''
            (d\<lparr>dg_to_agent := a, dg_status := DelPending, dg_result := Some r, dg_updated_at := st_now t\<rparr>) m
        | None \<Rightarrow> store_and_record t ''DelegationFailed''
            (d\<lparr>dg_status := DelFailed, dg_result := Some r, dg_updated_at := st_now t\<rparr>) m))"

definition active_delegations :: "delegation_manager \<Rightarrow> delegation list" where
  "active_delegations m = filter (\<lambda>d. dg_status d \<in> {DelPending, DelRunning}) (dict_values (mg_delegations m))"

definition delegations_by_task :: "string \<Rightarrow> delegation_manager \<Rightarrow> delegation list" where
  "delegations_by_task tid m = filter (\<lambda>d. dg_task_id d = tid) (dict_values (mg_delegations m))"

subsection \<open>The manager as a system\<close>

datatype delegation_op = DCreate stamps string string string agent_task_request "string option"
  | DStart stamps string | DComplete stamps string agent_task_result | DFail stamps string string
  | DRevoke stamps string

fun delegation_do :: "delegation_op \<Rightarrow> delegation_manager \<Rightarrow> delegation delegation_outcome" where
  "delegation_do (DCreate t did a b c f) m = create_delegation t did a b c f m"
| "delegation_do (DStart t did) m = start_delegation t did m"
| "delegation_do (DComplete t did r) m = complete_delegation t did r m"
| "delegation_do (DFail t did e) m = fail_delegation t did e m"
| "delegation_do (DRevoke t did) m = revoke_delegation t did m"

definition delegation_step :: "delegation_manager \<Rightarrow> delegation_op \<Rightarrow> delegation_manager" where
  "delegation_step m e = snd (delegation_do e m)"

subsection \<open>The life of a delegation\<close>

text \<open>
  What may happen to a delegation that is there and is not created anew: the table of the allowed
  transitions, and beside the table the fallback, which puts it back to the start.
\<close>

inductive delegation_life :: "delegation \<Rightarrow> delegation \<Rightarrow> bool" where
  moved: "s \<in> allowed_transitions (dg_status d) \<Longrightarrow> s \<noteq> DelFailed \<or> dg_fallback_agent d = None
    \<Longrightarrow> delegation_life d (d\<lparr>dg_status := s, dg_result := r, dg_updated_at := t\<rparr>)"
| fell_back: "dg_status d \<in> {DelPending, DelRunning} \<Longrightarrow> dg_fallback_agent d = Some a
    \<Longrightarrow> delegation_life d (d\<lparr>dg_to_agent := a, dg_status := DelPending, dg_result := Some r, dg_updated_at := t\<rparr>)"

lemma life_keeps:
  assumes "delegation_life d d'"
  shows "dg_delegation_id d' = dg_delegation_id d" "dg_task_id d' = dg_task_id d"
    "dg_contract d' = dg_contract d" "dg_fallback_agent d' = dg_fallback_agent d"
    "dg_status d \<in> {DelPending, DelRunning}"
    "dg_status d' = DelFailed \<Longrightarrow> dg_fallback_agent d' = None"
  using assms by (cases rule: delegation_life.cases; cases "dg_status d"; auto)+

definition keyed :: "delegation_manager \<Rightarrow> bool" where
  "keyed m \<longleftrightarrow> (\<forall>k d. map_of (mg_delegations m) k = Some d \<longrightarrow> dg_delegation_id d = k)"

fun creates :: "string \<Rightarrow> delegation_op \<Rightarrow> bool" where
  "creates k (DCreate t did a b c f) \<longleftrightarrow> did = k"
| "creates k e = False"

lemma stored_lookup:
  "map_of (mg_delegations (snd (store_and_record t ty d m))) k =
    (if k = dg_delegation_id d then Some d else map_of (mg_delegations m) k)"
  by (simp add: store_and_record_def Let_def map_of_update split: option.split)

text \<open>Each operation leaves a delegation as it is or moves it by one step.\<close>

lemma step_life:
  assumes "keyed m" and "\<not> creates k e" and "map_of (mg_delegations m) k = Some d"
  shows "map_of (mg_delegations (delegation_step m e)) k = Some d
    \<or> (\<exists>d'. map_of (mg_delegations (delegation_step m e)) k = Some d' \<and> delegation_life d d')"
proof -
  have id: "dg_delegation_id d = k" using assms(1,3) by (simp add: keyed_def)
  have other: "dg_delegation_id d' = k' \<Longrightarrow> k \<noteq> k' \<Longrightarrow>
      map_of (mg_delegations (snd (store_and_record t ty d' m))) k = Some d" for d' k' t ty
    using assms(3) by (simp add: stored_lookup)
  show ?thesis
  proof (cases e)
    case (DCreate t did a b c f)
    with assms show ?thesis by (simp add: delegation_step_def create_delegation_def stored_lookup)
  next
    case (DStart t did)
    with assms id show ?thesis
      by (auto simp: delegation_step_def start_delegation_def transition_delegation_def get_delegation_def
          check_op_def stored_lookup keyed_def split: option.split
          intro!: delegation_life.moved [where r = "dg_result d", of DelRunning d, simplified])
  next
    case (DComplete t did r)
    with assms id show ?thesis
      by (auto simp: delegation_step_def complete_delegation_def get_delegation_def
          check_op_def stored_lookup keyed_def split: option.split intro!: delegation_life.moved)
  next
    case (DFail t did x)
    have pending: "DelFailed \<in> allowed_transitions s \<Longrightarrow> s = DelPending \<or> s = DelRunning" for s by (cases s) auto
    from DFail assms id show ?thesis
      by (auto simp: delegation_step_def fail_delegation_def get_delegation_def check_op_def stored_lookup
          keyed_def split: option.split sum.split dest!: pending intro!: delegation_life.intros)
  next
    case (DRevoke t did)
    with assms id show ?thesis
      by (auto simp: delegation_step_def revoke_delegation_def transition_delegation_def get_delegation_def
          check_op_def stored_lookup keyed_def split: option.split
          intro!: delegation_life.moved [where r = "dg_result d", of DelRevoked d, simplified])
  qed
qed

end
