(* ===== verification/Delegation_Safety.thy ===== *)
theory Delegation_Safety
  imports Delegation
begin

text \<open>
  What the delegation manager guarantees: delegations move only along their life, ended ones
  stay, a delegation with a fallback agent never fails, and the ledger tells the present state.
\<close>

subsection \<open>Runs of the manager\<close>

lemma keyed_stored: "keyed m \<Longrightarrow> keyed (snd (store_and_record t ty d m))"
  by (simp add: keyed_def stored_lookup)

lemma keyed_step: "keyed m \<Longrightarrow> keyed (delegation_step m e)"
  by (cases e) (auto simp: delegation_step_def create_delegation_def start_delegation_def
      revoke_delegation_def transition_delegation_def complete_delegation_def fail_delegation_def
      check_op_def keyed_stored Let_def split: sum.split option.split)

lemma keyed_new: "keyed no_delegations"
  by (simp add: keyed_def no_delegations_def)

interpretation delegations: invariant_system delegation_step no_delegations keyed
  by unfold_locales (simp_all add: keyed_new keyed_step)

lemma run_life:
  assumes "keyed m" and "list_all (\<lambda>e. \<not> creates k e) es" and "map_of (mg_delegations m) k = Some d"
  shows "\<exists>d'. map_of (mg_delegations (run_events delegation_step m es)) k = Some d' \<and> delegation_life\<^sup>*\<^sup>* d d'"
  using assms
proof (induction es arbitrary: m d)
  case (Cons e es)
  obtain d1 where d1: "map_of (mg_delegations (delegation_step m e)) k = Some d1" "delegation_life\<^sup>*\<^sup>* d d1"
    using step_life [OF Cons.prems(1) _ Cons.prems(3), of e] Cons.prems(2) by auto
  from Cons.IH [OF keyed_step [OF Cons.prems(1)] _ d1(1)] Cons.prems(2) obtain d' where
    "map_of (mg_delegations (run_events delegation_step (delegation_step m e) es)) k = Some d'"
    "delegation_life\<^sup>*\<^sup>* d1 d'" by auto
  with d1(2) show ?case by (auto intro: rtranclp_trans)
qed auto

lemma lives_keep:
  assumes "delegation_life\<^sup>*\<^sup>* d d'"
  shows "dg_task_id d' = dg_task_id d \<and> dg_contract d' = dg_contract d \<and> dg_fallback_agent d' = dg_fallback_agent d
    \<and> (dg_status d \<in> {DelCompleted, DelFailed, DelRevoked} \<longrightarrow> d' = d)
    \<and> (dg_fallback_agent d \<noteq> None \<longrightarrow> dg_status d \<noteq> DelFailed \<longrightarrow> dg_status d' \<noteq> DelFailed)"
  using assms
proof (induction rule: rtranclp.induct)
  case (rtrancl_into_rtrancl a b c)
  then show ?case using life_keeps [of b c] by auto
qed simp

definition sample_contract :: agent_task_request where
  "sample_contract = \<lparr>ar_goal = ''look'', ar_expected_output = \<lparr>ao_type = ''report'', ao_schema = []\<rparr>,
     ar_input = [], ar_constraints = default_constraints, ar_api_version = AGENT_TASK_API_VERSION,
     ar_task_id = ''t1'', ar_parent_task_id = None, ar_parent_session_id = None, ar_parent_goal_id = None,
     ar_parent_kernel_task_id = None, ar_delegation_depth = 0\<rparr>"

definition stamp :: "nat \<Rightarrow> stamps" where
  "stamp n = \<lparr>st_now = int n, st_event_id = ''e'' @ show_nat n, st_event_at = int n\<rparr>"

definition delegated :: "string option \<Rightarrow> delegation_manager" where
  "delegated fallback = delegation_step no_delegations (DCreate (stamp 0) ''d1'' ''orchestrator'' ''a1'' sample_contract fallback)"

lemma delegated_keyed: "keyed (delegated f)"
  unfolding delegated_def by (rule keyed_step [OF keyed_new])

text \<open>Every run of the delegation manager moves a delegation only along its life: the allowed
  transitions, and the return to the start by a fallback. Its task, contract and fallback agent never
  change, and once it is completed, failed or revoked nothing changes it, whatever calls follow, short
  of creating a delegation under its id again.\<close>

theorem delegation_lives:
  assumes "keyed m" and "list_all (\<lambda>e. \<not> creates k e) es" and "map_of (mg_delegations m) k = Some d"
  shows "\<exists>d'. map_of (mg_delegations (run_events delegation_step m es)) k = Some d'
    \<and> delegation_life\<^sup>*\<^sup>* d d' \<and> dg_task_id d' = dg_task_id d \<and> dg_contract d' = dg_contract d
    \<and> (dg_status d \<in> {DelCompleted, DelFailed, DelRevoked} \<longrightarrow> d' = d)"
  using run_life [OF assms] lives_keep by blast

theorem delegation_lives_witness:
  "\<exists>d'. map_of (mg_delegations (run_events delegation_step (delegated None) [DStart (stamp 1) ''d1'',
      DFail (stamp 2) ''d1'' ''broken'', DRevoke (stamp 3) ''d1''])) ''d1'' = Some d' \<and> dg_task_id d' = ''t1''"
proof -
  let ?d = "the (map_of (mg_delegations (delegated None)) ''d1'')"
  have 1: "map_of (mg_delegations (delegated None)) ''d1'' = Some ?d" by (rule some_the) code_simp
  have 2: "list_all (\<lambda>e. \<not> creates ''d1'' e) [DStart (stamp 1) ''d1'', DFail (stamp 2) ''d1'' ''broken'', DRevoke (stamp 3) ''d1'']"
    by simp
  have 3: "dg_task_id ?d = ''t1''" by code_simp
  show ?thesis using delegation_lives [OF delegated_keyed 2 1] 3 by auto
qed

subsection \<open>Fallback\<close>

text \<open>Start and failure, \<open>n\<close> times.\<close>

fun failures :: "string \<Rightarrow> string \<Rightarrow> nat \<Rightarrow> delegation_op list" where
  "failures k e 0 = []"
| "failures k e (Suc n) = DStart (stamp (2 * n + 1)) k # DFail (stamp (2 * n + 2)) k e # failures k e n"

lemma failure_round:
  assumes "keyed m" and "map_of (mg_delegations m) k = Some d" and "dg_status d = DelPending"
    and "dg_fallback_agent d = Some a" and "\<not> blank e" and "\<not> blank (dg_task_id d)"
  shows "\<exists>d'. map_of (mg_delegations (delegation_step (delegation_step m (DStart t k)) (DFail t' k e))) k = Some d'
    \<and> dg_status d' = DelPending \<and> dg_to_agent d' = a \<and> dg_fallback_agent d' = Some a \<and> dg_task_id d' = dg_task_id d"
proof -
  have id: "dg_delegation_id d = k" using assms(1,2) by (simp add: keyed_def)
  have ok: "result_problem (task_result (dg_task_id d) AtFailed e None) = None"
    using assms(5,6) by (simp add: result_problem_def task_result_def require_def problem_of_def parse_defs)
  let ?d = "d\<lparr>dg_status := DelRunning, dg_updated_at := st_now t\<rparr>"
  have "map_of (mg_delegations (delegation_step m (DStart t k))) k = Some ?d"
    using assms(2,3) id
    by (simp add: delegation_step_def start_delegation_def transition_delegation_def get_delegation_def stored_lookup)
  then show ?thesis
    using assms(4) id ok
    by (simp add: delegation_step_def fail_delegation_def get_delegation_def result_checked_def stored_lookup)
qed

text \<open>A delegation with a fallback agent never fails. The fallback is not used up: every failure
  hands the task to the fallback agent as a pending delegation again, also the failures of the fallback
  agent itself. So after any run it is not in status FAILED, and after any number of failed attempts
  it is pending once more.\<close>

theorem fallback_never_fails:
  assumes m: "keyed m" and d: "map_of (mg_delegations m) k = Some d" and pending: "dg_status d = DelPending"
    and a: "dg_fallback_agent d = Some a" and said: "\<not> blank e" "\<not> blank (dg_task_id d)"
  shows "(\<forall>es d'. list_all (\<lambda>e. \<not> creates k e) es \<longrightarrow>
      map_of (mg_delegations (run_events delegation_step m es)) k = Some d' \<longrightarrow> dg_status d' \<noteq> DelFailed)
    \<and> (\<exists>d'. map_of (mg_delegations (run_events delegation_step m (failures k e n))) k = Some d' \<and> dg_status d' = DelPending)"
proof
  show "\<forall>es d'. list_all (\<lambda>e. \<not> creates k e) es \<longrightarrow>
      map_of (mg_delegations (run_events delegation_step m es)) k = Some d' \<longrightarrow> dg_status d' \<noteq> DelFailed"
  proof (intro allI impI)
    fix es d'
    assume es: "list_all (\<lambda>e. \<not> creates k e) es"
      and d': "map_of (mg_delegations (run_events delegation_step m es)) k = Some d'"
    have "delegation_life\<^sup>*\<^sup>* d d'" using run_life [OF m es d] d' by auto
    from lives_keep [OF this] pending a show "dg_status d' \<noteq> DelFailed" by simp
  qed
  show "\<exists>d'. map_of (mg_delegations (run_events delegation_step m (failures k e n))) k = Some d' \<and> dg_status d' = DelPending"
    using m d pending a said
  proof (induction n arbitrary: m d)
    case (Suc n)
    let ?m = "delegation_step (delegation_step m (DStart (stamp (2 * n + 1)) k)) (DFail (stamp (2 * n + 2)) k e)"
    obtain d' where d': "map_of (mg_delegations ?m) k = Some d'" "dg_status d' = DelPending"
        "dg_fallback_agent d' = Some a" "dg_task_id d' = dg_task_id d"
      using failure_round [OF Suc.prems] by blast
    have "keyed ?m" by (intro keyed_step Suc.prems(1))
    from Suc.IH [OF this d'(1-3)] Suc.prems(5,6) d'(4) show ?case by simp
  qed auto
qed

theorem fallback_never_fails_witness:
  "\<exists>d'. map_of (mg_delegations (run_events delegation_step (delegated (Some ''a2'')) (failures ''d1'' ''broken'' 7))) ''d1'' = Some d'
     \<and> dg_status d' = DelPending"
proof -
  let ?d = "the (map_of (mg_delegations (delegated (Some ''a2''))) ''d1'')"
  have 1: "map_of (mg_delegations (delegated (Some ''a2''))) ''d1'' = Some ?d" by (rule some_the) code_simp
  have 2: "dg_status ?d = DelPending" "dg_fallback_agent ?d = Some ''a2''" "\<not> blank ''broken''" "\<not> blank (dg_task_id ?d)"
    by code_simp+
  show ?thesis using fallback_never_fails [OF delegated_keyed 1 2] by blast
qed

subsection \<open>The ledger tells the state\<close>

definition last_event :: "string \<Rightarrow> delegation_ledger \<Rightarrow> delegation_event option" where
  "last_event k l = (let es = list_ledger (Some k) None l in if es = [] then None else Some (last es))"

definition told :: "delegation_manager \<Rightarrow> bool" where
  "told m \<longleftrightarrow> keyed m \<and> (\<forall>k d. map_of (mg_delegations m) k = Some d \<longrightarrow>
     (\<exists>e. last_event k (mg_ledger m) = Some e \<and> de_status e = delegation_status_value (dg_status d)
        \<and> de_to_agent e = dg_to_agent d \<and> de_task_id e = dg_task_id d))"

lemma told_stored:
  assumes m: "told m" and fresh: "st_event_id t \<notin> set (dl_ids (mg_ledger m))"
    and ok: "event_problem (event_of t ty d) = None"
  shows "told (snd (store_and_record t ty d m))"
proof -
  have last: "last_event k (mg_ledger (snd (store_and_record t ty d m)))
      = (if k = dg_delegation_id d then Some (event_of t ty d) else last_event k (mg_ledger m))" for k
    using fresh ok
    by (auto simp: store_and_record_def Let_def last_event_def list_ledger_def filter_events_def append_to_ledger_def event_of_def)
  have "\<exists>e. last_event k (mg_ledger (snd (store_and_record t ty d m))) = Some e
      \<and> de_status e = delegation_status_value (dg_status d') \<and> de_to_agent e = dg_to_agent d' \<and> de_task_id e = dg_task_id d'"
    if d': "map_of (mg_delegations (snd (store_and_record t ty d m))) k = Some d'" for k d'
  proof (cases "k = dg_delegation_id d")
    case True
    with d' last show ?thesis by (auto simp: stored_lookup event_of_def)
  next
    case False
    with d' m last show ?thesis by (simp add: stored_lookup told_def)
  qed
  then show ?thesis using m keyed_stored by (simp add: told_def)
qed

fun op_stamps :: "delegation_op \<Rightarrow> stamps" where
  "op_stamps (DCreate t did a b c f) = t"
| "op_stamps (DStart t did) = t"
| "op_stamps (DComplete t did r) = t"
| "op_stamps (DFail t did e) = t"
| "op_stamps (DRevoke t did) = t"

lemma operation_stores:
  "delegation_step m e = m \<or> (\<exists>ty d. delegation_do e m = store_and_record (op_stamps e) ty d m)"
  by (cases e) (auto simp: delegation_step_def create_delegation_def start_delegation_def
      revoke_delegation_def transition_delegation_def complete_delegation_def fail_delegation_def
      check_op_def Let_def split: sum.split option.split)

text \<open>Operations with a new event id that do not end in a \<open>ValueError\<close>.\<close>

fun orderly :: "delegation_manager \<Rightarrow> delegation_op list \<Rightarrow> bool" where
  "orderly m [] = True"
| "orderly m (e # es) \<longleftrightarrow> st_event_id (op_stamps e) \<notin> set (dl_ids (mg_ledger m))
     \<and> (\<forall>x. fst (delegation_do e m) = Inl x \<longrightarrow> (case x of DelegationValueErr _ \<Rightarrow> False | _ \<Rightarrow> True))
     \<and> orderly (delegation_step m e) es"

lemma told_step:
  assumes "told m" and "orderly m [e]"
  shows "told (delegation_step m e)"
proof (cases "delegation_step m e = m")
  case False
  then obtain ty d where s: "delegation_do e m = store_and_record (op_stamps e) ty d m"
    using operation_stores by blast
  then have "event_problem (event_of (op_stamps e) ty d) = None"
    using assms(2) by (auto simp: store_and_record_def Let_def split: option.splits)
  from told_stored [OF assms(1) _ this] assms(2) show ?thesis
    by (simp add: delegation_step_def s)
qed (use assms in simp)

lemma told_run: "told m \<Longrightarrow> orderly m es \<Longrightarrow> told (run_events delegation_step m es)"
proof (induction es arbitrary: m)
  case (Cons e es)
  then have "told (delegation_step m e)" by (intro told_step) simp_all
  with Cons show ?case by simp
qed simp

text \<open>The ledger tells the state of the delegations. After any run of operations that succeed or are
  refused as transitions, each with an event id of its own, the last event in the ledger about a
  delegation names its task, the agent it is with and its status. So the ledger alone says where
  each task is.\<close>

theorem ledger_tells_state:
  assumes "orderly no_delegations es" and "map_of (mg_delegations (run_events delegation_step no_delegations es)) k = Some d"
  shows "\<exists>e. last_event k (mg_ledger (run_events delegation_step no_delegations es)) = Some e
    \<and> de_status e = delegation_status_value (dg_status d) \<and> de_to_agent e = dg_to_agent d \<and> de_task_id e = dg_task_id d"
proof -
  have "told no_delegations" by (simp add: told_def keyed_new) (simp add: no_delegations_def)
  from told_run [OF this assms(1)] assms(2) show ?thesis by (auto simp: told_def)
qed

theorem ledger_tells_state_witness:
  "\<exists>e. last_event ''d1'' (mg_ledger (run_events delegation_step no_delegations
       [DCreate (stamp 0) ''d1'' ''orchestrator'' ''a1'' sample_contract (Some ''a2''), DStart (stamp 1) ''d1'',
        DFail (stamp 2) ''d1'' ''broken''])) = Some e \<and> de_status e = ''pending'' \<and> de_to_agent e = ''a2''"
proof -
  let ?es = "[DCreate (stamp 0) ''d1'' ''orchestrator'' ''a1'' sample_contract (Some ''a2''), DStart (stamp 1) ''d1'',
        DFail (stamp 2) ''d1'' ''broken'']"
  let ?d = "the (map_of (mg_delegations (run_events delegation_step no_delegations ?es)) ''d1'')"
  have ok: "\<not> isl (fst (delegation_do e m)) \<Longrightarrow>
      \<forall>x. fst (delegation_do e m) = Inl x \<longrightarrow> (case x of DelegationValueErr _ \<Rightarrow> False | _ \<Rightarrow> True)" for e m by auto
  have "orderly no_delegations ?es"
    unfolding orderly.simps by (intro conjI ok TrueI; code_simp)
  moreover have "map_of (mg_delegations (run_events delegation_step no_delegations ?es)) ''d1'' = Some ?d"
    by (rule some_the) code_simp
  moreover have "dg_status ?d = DelPending" "dg_to_agent ?d = ''a2''" by code_simp+
  ultimately show ?thesis using ledger_tells_state [of ?es "''d1''" ?d] by auto
qed

end
