(* ===== verification/Agent_Merge.thy ===== *)
theory Agent_Merge
  imports Agent_Tasks
begin

text \<open>
  What is made of the work of several agents: \<open>multi_agent/conflicts.py\<close> (which of several proposed
  actions on one resource is taken), \<open>multi_agent/merge.py\<close> (one report of the child results) and
  \<open>multi_agent/evaluation.py\<close> (its checks). The JSON rendering behind the fingerprint of an action is
  the parameter \<open>dumps\<close>.
\<close>

subsection \<open>conflicts.py\<close>

datatype conflict_status = NoConflict | ConflictSelected | ConflictDenied | ConflictReview

record agent_proposal =
  pp_proposal_id :: string
  pp_agent_id :: string
  pp_task_id :: string
  pp_capability :: string
  pp_resource_key :: string
  pp_target :: "string option"
  pp_arguments :: json_mapping
  pp_evidence_ids :: "string list"
  pp_side_effect :: side_effect
  pp_risk :: risk_level
  pp_policy_effect :: policy_effect
  pp_constraints :: agent_task_constraints
  pp_priority :: int
  pp_reason :: string

definition proposal_problem :: "agent_proposal \<Rightarrow> string option" where
  "proposal_problem p = first_problem
     [problem_of (parse_non_empty_string (pp_proposal_id p) ''agent proposal id''),
      problem_of (parse_non_empty_string (pp_agent_id p) ''agent proposal agent_id''),
      problem_of (parse_non_empty_string (pp_task_id p) ''agent proposal task_id''),
      problem_of (parse_non_empty_string (pp_capability p) ''agent proposal capability''),
      problem_of (parse_non_empty_string (pp_resource_key p) ''agent proposal resource_key'')]"

definition proposal_fingerprint :: "(json \<Rightarrow> string) \<Rightarrow> agent_proposal \<Rightarrow> string" where
  "proposal_fingerprint dumps p = dumps (JObj
     [(''capability'', JStr (pp_capability p)),
      (''target'', case pp_target p of None \<Rightarrow> JNull | Some t \<Rightarrow> JStr t),
      (''arguments'', JObj (pp_arguments p))])"

record conflict_resolution =
  cr_resource_key :: string
  cr_status :: conflict_status
  cr_selected_proposal_id :: "string option"
  cr_rejected_proposal_ids :: "string list"
  cr_review_proposal_ids :: "string list"
  cr_supporting_evidence_ids :: "string list"
  cr_reason :: string

definition requires_review :: "conflict_resolution \<Rightarrow> bool" where
  "requires_review r \<longleftrightarrow> cr_status r = ConflictReview"

fun side_effect_rank :: "side_effect \<Rightarrow> int" where
  "side_effect_rank EffNone = 0"
| "side_effect_rank EffReversible = 1"
| "side_effect_rank EffDestructive = 2"

definition violates_read_only :: "agent_proposal \<Rightarrow> bool" where
  "violates_read_only p \<longleftrightarrow> ac_read_only (pp_constraints p) \<and> pp_side_effect p \<noteq> EffNone"

text \<open>\<open>_partition\<close>: the conditions under which a proposal goes to each of its three lists.\<close>

definition denied_proposal :: "agent_proposal \<Rightarrow> bool" where
  "denied_proposal p \<longleftrightarrow> pp_policy_effect p = Deny \<or> violates_read_only p"

definition review_proposal :: "agent_proposal \<Rightarrow> bool" where
  "review_proposal p \<longleftrightarrow> \<not> denied_proposal p \<and> pp_policy_effect p = RequireConfirmation"

definition allowed_proposal :: "agent_proposal \<Rightarrow> bool" where
  "allowed_proposal p \<longleftrightarrow> \<not> denied_proposal p \<and> \<not> review_proposal p"

definition partition_proposals :: "agent_proposal list
    \<Rightarrow> agent_proposal list \<times> agent_proposal list \<times> agent_proposal list" where
  "partition_proposals ps = (filter denied_proposal ps, filter review_proposal ps, filter allowed_proposal ps)"

definition proposal_rank :: "agent_proposal \<Rightarrow> int \<times> int \<times> int" where
  "proposal_rank p = (side_effect_rank (pp_side_effect p), int (risk_rank (pp_risk p)), - pp_priority p)"

text \<open>\<open>_highest_priority\<close>, of a list that is not empty.\<close>

definition highest_priority :: "agent_proposal list \<Rightarrow> agent_proposal" where
  "highest_priority ps = hd (sort_key (\<lambda>p. (- pp_priority p, pp_proposal_id p)) ps)"

definition without_proposal :: "agent_proposal list \<Rightarrow> agent_proposal \<Rightarrow> agent_proposal list" where
  "without_proposal ps s = filter (\<lambda>p. pp_proposal_id p \<noteq> pp_proposal_id s) ps"

text \<open>The loop with \<open>seen\<close> and \<open>selected\<close>: the first occurrence of each value.\<close>

fun first_seen :: "'a set \<Rightarrow> 'a list \<Rightarrow> 'a list" where
  "first_seen seen [] = []"
| "first_seen seen (x # xs) = (if x \<in> seen then first_seen seen xs else x # first_seen (insert x seen) xs)"

definition proposal_evidence :: "agent_proposal list \<Rightarrow> string list" where
  "proposal_evidence ps = first_seen {} (concat (map pp_evidence_ids ps))"

definition same_action :: "(json \<Rightarrow> string) \<Rightarrow> agent_proposal list \<Rightarrow> bool" where
  "same_action dumps ps \<longleftrightarrow> list_all (\<lambda>p. proposal_fingerprint dumps p = proposal_fingerprint dumps (hd ps)) ps"

definition resolve_conflict :: "(json \<Rightarrow> string) \<Rightarrow> agent_proposal list \<Rightarrow> string + conflict_resolution" where
  "resolve_conflict dumps ps =
     (if ps = [] then Inl ''agent conflict resolution requires proposals''
      else if list_ex (\<lambda>p. pp_resource_key p \<noteq> pp_resource_key (hd ps)) ps
      then Inl ''agent conflict resolution proposals must share one resource_key''
      else let key = pp_resource_key (hd ps); (denied, review, allowed) = partition_proposals ps in
        if review \<noteq> [] then Inr \<lparr>cr_resource_key = key, cr_status = ConflictReview,
          cr_selected_proposal_id = None, cr_rejected_proposal_ids = map pp_proposal_id denied,
          cr_review_proposal_ids = map pp_proposal_id (review @ allowed),
          cr_supporting_evidence_ids = proposal_evidence (review @ allowed),
          cr_reason = ''one or more proposals require confirmation or violate delegation limits''\<rparr>
        else if allowed = [] then Inr \<lparr>cr_resource_key = key, cr_status = ConflictDenied,
          cr_selected_proposal_id = None, cr_rejected_proposal_ids = map pp_proposal_id denied,
          cr_review_proposal_ids = [], cr_supporting_evidence_ids = [],
          cr_reason = ''all proposals were denied by policy or delegation constraints''\<rparr>
        else if same_action dumps allowed then Inr \<lparr>cr_resource_key = key, cr_status = NoConflict,
          cr_selected_proposal_id = Some (pp_proposal_id (highest_priority allowed)),
          cr_rejected_proposal_ids = map pp_proposal_id denied, cr_review_proposal_ids = [],
          cr_supporting_evidence_ids = proposal_evidence allowed,
          cr_reason = ''all allowed proposals agree on the same action''\<rparr>
        else let ranked = sort_key proposal_rank allowed; winner = hd ranked in
          if 1 < length ranked \<and> proposal_rank winner = proposal_rank (ranked ! 1)
          then Inr \<lparr>cr_resource_key = key, cr_status = ConflictReview,
            cr_selected_proposal_id = None, cr_rejected_proposal_ids = map pp_proposal_id denied,
            cr_review_proposal_ids = map pp_proposal_id allowed,
            cr_supporting_evidence_ids = proposal_evidence allowed,
            cr_reason = ''conflicting proposals have equal safety and priority rank''\<rparr>
          else Inr \<lparr>cr_resource_key = key, cr_status = ConflictSelected,
            cr_selected_proposal_id = Some (pp_proposal_id winner),
            cr_rejected_proposal_ids = map pp_proposal_id (denied @ without_proposal allowed winner),
            cr_review_proposal_ids = [], cr_supporting_evidence_ids = proposal_evidence [winner],
            cr_reason = ''selected the safest allowed proposal by side effect, risk and priority''\<rparr>)"

text \<open>The groups keep the order of the proposals; the keys are sorted.\<close>

fun sequence_results :: "('e + 'a) list \<Rightarrow> 'e + 'a list" where
  "sequence_results [] = Inr []"
| "sequence_results (r # rs) = (case r of Inl e \<Rightarrow> Inl e
     | Inr x \<Rightarrow> (case sequence_results rs of Inl e \<Rightarrow> Inl e | Inr xs \<Rightarrow> Inr (x # xs)))"

definition resolve_all_conflicts :: "(json \<Rightarrow> string) \<Rightarrow> agent_proposal list \<Rightarrow> string + conflict_resolution list" where
  "resolve_all_conflicts dumps ps = sequence_results
     (map (\<lambda>k. resolve_conflict dumps (filter (\<lambda>p. pp_resource_key p = k) ps))
        (sort (remdups (map pp_resource_key ps))))"

subsection \<open>merge.py\<close>

datatype merge_status = MergeCompleted | MergePartial | MergeFailed | MergeWaiting | MergeReview

fun merge_status_value :: "merge_status \<Rightarrow> string" where
  "merge_status_value MergeCompleted = ''completed''"
| "merge_status_value MergePartial = ''partial''"
| "merge_status_value MergeFailed = ''failed''"
| "merge_status_value MergeWaiting = ''waiting''"
| "merge_status_value MergeReview = ''requires_review''"

record merge_policy =
  mp_expected_task_ids :: "string list"
  mp_require_all_completed :: bool
  mp_require_evidence_for_completed :: bool
  mp_require_resolved_conflicts :: bool
  mp_fail_on_denied_conflicts :: bool
  mp_allow_waiting :: bool

definition default_merge_policy :: merge_policy where
  "default_merge_policy = \<lparr>mp_expected_task_ids = [], mp_require_all_completed = True,
     mp_require_evidence_for_completed = True, mp_require_resolved_conflicts = True,
     mp_fail_on_denied_conflicts = True, mp_allow_waiting = False\<rparr>"

definition merge_policy_problem :: "merge_policy \<Rightarrow> string option" where
  "merge_policy_problem p = require (duplicate_values (mp_expected_task_ids p) = [])
     (''duplicate expected agent task ids: '' @ join_str '', '' (duplicate_values (mp_expected_task_ids p)))"

record agent_merge =
  am_status :: merge_status
  am_results :: "agent_task_result list"
  am_evidence_ids :: "string list"
  am_completed_task_ids :: "string list"
  am_waiting_task_ids :: "string list"
  am_failed_task_ids :: "string list"
  am_missing_task_ids :: "string list"
  am_missing_evidence_task_ids :: "string list"
  am_conflict_resolutions :: "conflict_resolution list"
  am_reason :: string

definition merge_passed :: "agent_merge \<Rightarrow> bool" where
  "merge_passed m \<longleftrightarrow> am_status m = MergeCompleted"

definition merge_requires_review :: "agent_merge \<Rightarrow> bool" where
  "merge_requires_review m \<longleftrightarrow> am_status m = MergeReview"

definition task_ids_with_status :: "agent_task_result_status set \<Rightarrow> agent_task_result list \<Rightarrow> string list" where
  "task_ids_with_status s rs = map at_task_id (filter (\<lambda>r. at_status r \<in> s) rs)"

definition missing_task_ids :: "string list \<Rightarrow> agent_task_result list \<Rightarrow> string list" where
  "missing_task_ids expected rs = filter (\<lambda>t. t \<notin> set (map at_task_id rs)) expected"

definition merged_evidence_ids :: "agent_task_result list \<Rightarrow> conflict_resolution list \<Rightarrow> string list" where
  "merged_evidence_ids rs cs =
     first_seen {} (concat (map at_evidence_ids rs) @ concat (map cr_supporting_evidence_ids cs))"

definition merge_status_of :: "agent_task_result list \<Rightarrow> conflict_resolution list \<Rightarrow> merge_policy
    \<Rightarrow> string list \<Rightarrow> string list \<Rightarrow> string list \<Rightarrow> string list \<Rightarrow> merge_status \<times> string" where
  "merge_status_of rs cs p missing waiting failed missing_evidence =
     (if mp_require_resolved_conflicts p \<and> filter requires_review cs \<noteq> []
      then (MergeReview, ''one or more multi-agent conflicts require review'')
      else if mp_fail_on_denied_conflicts p \<and> filter (\<lambda>c. cr_status c = ConflictDenied) cs \<noteq> []
      then (MergeFailed, ''one or more multi-agent conflicts were denied'')
      else if missing \<noteq> [] then (MergeWaiting, ''expected child agent results are missing'')
      else if waiting \<noteq> [] \<and> \<not> mp_allow_waiting p
      then (MergeWaiting, ''one or more child agent results are waiting'')
      else if failed \<noteq> [] \<and> mp_require_all_completed p
      then (MergeFailed, ''one or more child agent results failed'')
      else if mp_require_evidence_for_completed p \<and> missing_evidence \<noteq> []
      then (MergePartial, ''one or more completed child agent results lack evidence handoff'')
      else if failed \<noteq> [] then (MergePartial, ''merged completed child results with failures'')
      else if waiting \<noteq> [] then (MergePartial, ''merged completed child results with waiting results'')
      else if list_all (\<lambda>r. at_status r = AtCompleted) rs
      then (MergeCompleted, ''all child agent results completed'')
      else (MergePartial, ''child agent results are partially mergeable''))"

definition merge_results :: "agent_task_result list \<Rightarrow> conflict_resolution list \<Rightarrow> merge_policy \<Rightarrow> string + agent_merge" where
  "merge_results rs cs p =
     (if rs = [] then Inl ''agent result merge requires results''
      else if duplicate_values (map at_task_id rs) \<noteq> []
      then Inl (''duplicate agent task results: '' @ join_str '', '' (duplicate_values (map at_task_id rs)))
      else let completed = task_ids_with_status {AtCompleted} rs;
               waiting = task_ids_with_status {AtWaiting} rs;
               failed = task_ids_with_status {AtFailed, AtCancelled, AtRejected} rs;
               missing = missing_task_ids (mp_expected_task_ids p) rs;
               missing_evidence = map at_task_id (filter (\<lambda>r. at_status r = AtCompleted \<and> at_evidence_ids r = []) rs);
               (status, reason) = merge_status_of rs cs p missing waiting failed missing_evidence
           in Inr \<lparr>am_status = status, am_results = rs, am_evidence_ids = merged_evidence_ids rs cs,
                am_completed_task_ids = completed, am_waiting_task_ids = waiting, am_failed_task_ids = failed,
                am_missing_task_ids = missing, am_missing_evidence_task_ids = missing_evidence,
                am_conflict_resolutions = cs, am_reason = reason\<rparr>)"

subsection \<open>evaluation.py\<close>

record merge_expectations =
  me_expected_status :: merge_status
  me_required_evidence_ids :: "string list"
  me_required_completed_task_ids :: "string list"
  me_forbidden_failed_task_ids :: "string list"
  me_max_missing_task_count :: "int option"
  me_max_waiting_task_count :: "int option"
  me_max_failed_task_count :: "int option"
  me_max_review_conflict_count :: "int option"
  me_min_completed_task_count :: "int option"

definition default_expectations :: merge_expectations where
  "default_expectations = \<lparr>me_expected_status = MergeCompleted, me_required_evidence_ids = [],
     me_required_completed_task_ids = [], me_forbidden_failed_task_ids = [],
     me_max_missing_task_count = Some 0, me_max_waiting_task_count = Some 0,
     me_max_failed_task_count = Some 0, me_max_review_conflict_count = Some 0,
     me_min_completed_task_count = None\<rparr>"

definition optional_count :: "string \<Rightarrow> int option \<Rightarrow> string option" where
  "optional_count name v = (case v of None \<Rightarrow> None | Some x \<Rightarrow> problem_of (parse_non_negative_int x name))"

definition no_duplicates :: "string \<Rightarrow> string list \<Rightarrow> string option" where
  "no_duplicates label vs = require (duplicate_values vs = [])
     (''duplicate '' @ label @ '': '' @ join_str '', '' (duplicate_values vs))"

definition expectations_problem :: "merge_expectations \<Rightarrow> string option" where
  "expectations_problem e = first_problem
     [optional_count ''max_missing_task_count'' (me_max_missing_task_count e),
      optional_count ''max_waiting_task_count'' (me_max_waiting_task_count e),
      optional_count ''max_failed_task_count'' (me_max_failed_task_count e),
      optional_count ''max_review_conflict_count'' (me_max_review_conflict_count e),
      optional_count ''min_completed_task_count'' (me_min_completed_task_count e),
      no_duplicates ''required evidence ids'' (me_required_evidence_ids e),
      no_duplicates ''required completed task ids'' (me_required_completed_task_ids e),
      no_duplicates ''forbidden failed task ids'' (me_forbidden_failed_task_ids e)]"

record evaluation_check =
  ec_name :: string
  ec_passed :: bool
  ec_message :: string

record merge_report =
  mt_merge :: agent_merge
  mt_expectations :: merge_expectations
  mt_checks :: "evaluation_check list"

definition report_passed :: "merge_report \<Rightarrow> bool" where
  "report_passed r \<longleftrightarrow> list_all ec_passed (mt_checks r)"

definition failed_checks :: "merge_report \<Rightarrow> evaluation_check list" where
  "failed_checks r = filter (\<lambda>c. \<not> ec_passed c) (mt_checks r)"

definition status_check :: "agent_merge \<Rightarrow> merge_expectations \<Rightarrow> evaluation_check" where
  "status_check m e = \<lparr>ec_name = ''merge_status'', ec_passed = am_status m = me_expected_status e,
     ec_message = ''expected '' @ merge_status_value (me_expected_status e) @ '', observed ''
       @ merge_status_value (am_status m)\<rparr>"

definition listed_check :: "string \<Rightarrow> string list \<Rightarrow> string \<Rightarrow> string \<Rightarrow> evaluation_check" where
  "listed_check name bad label good = \<lparr>ec_name = name, ec_passed = bad = [],
     ec_message = (if bad \<noteq> [] then label @ join_str '', '' bad else good)\<rparr>"

definition required_evidence_check :: "agent_merge \<Rightarrow> string list \<Rightarrow> evaluation_check" where
  "required_evidence_check m ids = listed_check ''required_evidence_ids''
     (filter (\<lambda>i. i \<notin> set (am_evidence_ids m)) ids) ''missing required evidence ids: ''
     ''all required evidence ids present''"

definition required_completed_check :: "agent_merge \<Rightarrow> string list \<Rightarrow> evaluation_check" where
  "required_completed_check m ids = listed_check ''required_completed_task_ids''
     (filter (\<lambda>i. i \<notin> set (am_completed_task_ids m)) ids) ''missing completed task ids: ''
     ''all required tasks completed''"

definition forbidden_failed_check :: "agent_merge \<Rightarrow> string list \<Rightarrow> evaluation_check" where
  "forbidden_failed_check m ids = listed_check ''forbidden_failed_task_ids''
     (filter (\<lambda>i. i \<in> set (am_failed_task_ids m)) ids) ''forbidden failed task ids present: ''
     ''no forbidden failed tasks present''"

definition max_count_check :: "string \<Rightarrow> int \<Rightarrow> int option \<Rightarrow> evaluation_check" where
  "max_count_check name n bound = (case bound of
     None \<Rightarrow> \<lparr>ec_name = name, ec_passed = True,
       ec_message = ''observed '' @ show_int n @ ''; no maximum configured''\<rparr>
   | Some b \<Rightarrow> \<lparr>ec_name = name, ec_passed = n \<le> b,
       ec_message = ''observed '' @ show_int n @ '', maximum '' @ show_int b\<rparr>)"

definition min_count_check :: "string \<Rightarrow> int \<Rightarrow> int option \<Rightarrow> evaluation_check" where
  "min_count_check name n bound = (case bound of
     None \<Rightarrow> \<lparr>ec_name = name, ec_passed = True,
       ec_message = ''observed '' @ show_int n @ ''; no minimum configured''\<rparr>
   | Some b \<Rightarrow> \<lparr>ec_name = name, ec_passed = n \<ge> b,
       ec_message = ''observed '' @ show_int n @ '', minimum '' @ show_int b\<rparr>)"

definition review_conflict_count :: "agent_merge \<Rightarrow> int" where
  "review_conflict_count m = int (length (filter requires_review (am_conflict_resolutions m)))"

definition evaluate_merge :: "agent_merge \<Rightarrow> merge_expectations \<Rightarrow> merge_report" where
  "evaluate_merge m e = \<lparr>mt_merge = m, mt_expectations = e, mt_checks =
     [status_check m e,
      required_evidence_check m (me_required_evidence_ids e),
      required_completed_check m (me_required_completed_task_ids e),
      forbidden_failed_check m (me_forbidden_failed_task_ids e),
      max_count_check ''missing_task_count'' (int (length (am_missing_task_ids m))) (me_max_missing_task_count e),
      max_count_check ''waiting_task_count'' (int (length (am_waiting_task_ids m))) (me_max_waiting_task_count e),
      max_count_check ''failed_task_count'' (int (length (am_failed_task_ids m))) (me_max_failed_task_count e),
      max_count_check ''review_conflict_count'' (review_conflict_count m) (me_max_review_conflict_count e),
      min_count_check ''completed_task_count'' (int (length (am_completed_task_ids m))) (me_min_completed_task_count e)]\<rparr>"

end
