(* ===== verification/Merge_Safety.thy ===== *)
theory Merge_Safety
  imports Agent_Merge "HOL-Library.Multiset"
begin

text \<open>
  What the resolution of conflicts and the merging of results guarantee: a selected proposal is
  allowed and the safest, the outcome does not depend on the order of the proposals, and a merge is
  complete exactly when all its parts are.
\<close>

subsection \<open>Conflicts\<close>

lemma allowed_proposal_iff: "allowed_proposal p \<longleftrightarrow> pp_policy_effect p = Allow \<and> \<not> violates_read_only p"
  by (cases "pp_policy_effect p") (auto simp: allowed_proposal_def review_proposal_def denied_proposal_def)

text \<open>The head of the ranking, when the next one ranks differently, is strictly first.\<close>

lemma sole_winner:
  fixes f :: "'a \<Rightarrow> 'b::linorder"
  assumes ne: "xs \<noteq> []" and sole: "\<not> (1 < length (sort_key f xs) \<and> f (hd (sort_key f xs)) = f (sort_key f xs ! 1))"
    and y: "y \<in> set xs" "y \<noteq> hd (sort_key f xs)"
  shows "f (hd (sort_key f xs)) < f y"
proof -
  have "sort_key f xs \<noteq> []" using ne by (metis length_0_conv length_sort)
  then obtain z zs where z: "sort_key f xs = z # zs" by (cases "sort_key f xs") auto
  have "y \<in> set zs" using y z by (metis hd_Cons_tl list.sel(1) list.sel(3) list.distinct(1) set_ConsD set_sort)
  then obtain z1 zs' where zs: "zs = z1 # zs'" by (cases zs) auto
  have s: "sorted (map f (z # z1 # zs'))" using sorted_sort_key [of f xs] z zs by simp
  have "f z \<noteq> f z1" using sole z zs by simp
  with s have "f z < f z1" by auto
  moreover have "f z1 \<le> f y" using s \<open>y \<in> set zs\<close> zs by auto
  ultimately show ?thesis using z by simp
qed

lemma hd_sort_set:
  fixes f :: "'a \<Rightarrow> 'b::linorder"
  shows "xs \<noteq> [] \<Longrightarrow> hd (sort_key f xs) \<in> set xs"
  by (rule hd_sort_key(1))


definition sample_proposal :: "string \<Rightarrow> string \<Rightarrow> side_effect \<Rightarrow> agent_proposal" where
  "sample_proposal i cap eff = \<lparr>pp_proposal_id = i, pp_agent_id = ''a'', pp_task_id = ''t'', pp_capability = cap,
     pp_resource_key = ''db'', pp_target = None, pp_arguments = [], pp_evidence_ids = [], pp_side_effect = eff,
     pp_risk = RiskLow, pp_policy_effect = Allow, pp_constraints = default_constraints, pp_priority = 100,
     pp_reason = []\<rparr>"

definition sample_dumps :: "json \<Rightarrow> string" where
  "sample_dumps j = (case j of JObj ((_, JStr c) # _) \<Rightarrow> c | _ \<Rightarrow> [])"

definition sample_proposals :: "agent_proposal list" where
  "sample_proposals = [sample_proposal ''p1'' ''restart'' EffDestructive, sample_proposal ''p2'' ''inspect'' EffNone]"


subsection \<open>The order of the proposals\<close>

lemma sole_first:
  fixes f :: "'a \<Rightarrow> 'b::linorder"
  assumes "mset xs = mset ys" and "xs \<noteq> []" and "inj_on f (set xs)"
  shows "hd (sort_key f xs) = hd (sort_key f ys)"
proof -
  have set: "set xs = set ys" and ne: "ys \<noteq> []" using assms(1,2) by (auto dest: mset_eq_setD)
  note x = hd_sort_key [where f = f, OF assms(2)] and y = hd_sort_key [where f = f, OF ne]
  have "f (hd (sort_key f xs)) = f (hd (sort_key f ys))"
    using x y set by (intro order.antisym) auto
  then show ?thesis using assms(3) x(1) y(1) set by (simp add: inj_on_eq_iff)
qed

lemma same_action_iff: "ps \<noteq> [] \<Longrightarrow> same_action dumps ps \<longleftrightarrow>
    (\<forall>p \<in> set ps. \<forall>q \<in> set ps. proposal_fingerprint dumps p = proposal_fingerprint dumps q)"
  by (cases ps) (auto simp: same_action_def list_all_iff)

lemma ranks_mset:
  fixes f :: "'a \<Rightarrow> 'b::linorder"
  assumes "mset xs = mset ys"
  shows "map f (sort_key f xs) = map f (sort_key f ys)"
proof -
  have "sort (map f ys) = map f (sort_key f xs)" by (rule properties_for_sort) (simp_all add: assms)
  moreover have "sort (map f ys) = map f (sort_key f ys)" by (rule properties_for_sort) simp_all
  ultimately show ?thesis by simp
qed

definition verdict :: "string + conflict_resolution \<Rightarrow> (conflict_status \<times> string option) option" where
  "verdict r = (case r of Inl _ \<Rightarrow> None | Inr c \<Rightarrow> Some (cr_status c, cr_selected_proposal_id c))"

lemma tie_mset:
  fixes f :: "'a \<Rightarrow> 'b::linorder"
  assumes "mset xs = mset ys"
  shows "(1 < length (sort_key f xs) \<and> f (hd (sort_key f xs)) = f (sort_key f xs ! 1))
    = (1 < length (sort_key f ys) \<and> f (hd (sort_key f ys)) = f (sort_key f ys ! 1))"
proof -
  have h: "1 < length zs \<and> f (hd zs) = f (zs ! 1) \<longleftrightarrow> 1 < length (map f zs) \<and> map f zs ! 0 = map f zs ! 1"
    for zs :: "'a list" by (cases zs) auto
  show ?thesis unfolding h ranks_mset [OF assms, of f] ..
qed

definition key_conflict :: "agent_proposal list \<Rightarrow> bool" where
  "key_conflict ps \<longleftrightarrow> list_ex (\<lambda>p. pp_resource_key p \<noteq> pp_resource_key (hd ps)) ps"

definition tied :: "agent_proposal list \<Rightarrow> bool" where
  "tied ps \<longleftrightarrow> 1 < length (sort_key proposal_rank ps)
     \<and> proposal_rank (hd (sort_key proposal_rank ps)) = proposal_rank (sort_key proposal_rank ps ! 1)"

lemma verdict_resolve:
  "verdict (resolve_conflict dumps ps) =
    (if ps = [] then None else if key_conflict ps then None
     else if filter review_proposal ps \<noteq> [] then Some (ConflictReview, None)
     else if filter allowed_proposal ps = [] then Some (ConflictDenied, None)
     else if same_action dumps (filter allowed_proposal ps)
     then Some (NoConflict, Some (pp_proposal_id (highest_priority (filter allowed_proposal ps))))
     else if tied (filter allowed_proposal ps) then Some (ConflictReview, None)
     else Some (ConflictSelected, Some (pp_proposal_id (hd (sort_key proposal_rank (filter allowed_proposal ps))))))"
  by (simp add: verdict_def resolve_conflict_def key_conflict_def tied_def partition_proposals_def Let_def)

text \<open>The resolution does not depend on the order in which the proposals arrive: of the same proposals
  with distinct ids, in any order, the resolver makes the same verdict (its status and the selected
  proposal), or refuses both.\<close>

theorem resolution_order_independent:
  assumes eq: "mset ps = mset qs" and ids: "distinct (map pp_proposal_id ps)"
  shows "verdict (resolve_conflict dumps ps) = verdict (resolve_conflict dumps qs)"
proof -
  have sets: "set ps = set qs" using eq by (rule mset_eq_setD)
  have key: "key_conflict xs
      \<longleftrightarrow> (\<exists>p \<in> set xs. \<exists>q \<in> set xs. pp_resource_key p \<noteq> pp_resource_key q)" for xs :: "agent_proposal list"
    unfolding key_conflict_def list_ex_iff by (cases xs) (simp, metis list.sel(1) list.set_intros(1))
  have ne: "ps = [] \<longleftrightarrow> qs = []" using sets by (metis set_empty)
  have rev: "filter review_proposal ps = [] \<longleftrightarrow> filter review_proposal qs = []"
    using sets by (simp add: filter_empty_conv)
  let ?a = "filter allowed_proposal ps" and ?b = "filter allowed_proposal qs"
  have a: "mset ?a = mset ?b" using eq by (simp add: mset_filter)
  have seta: "set ?a = set ?b" using sets by simp
  have nea: "?a = [] \<longleftrightarrow> ?b = []" using seta by (metis set_empty)
  have same: "same_action dumps ?a \<longleftrightarrow> same_action dumps ?b" if "?a \<noteq> []"
    unfolding same_action_iff [OF that] same_action_iff [OF that [unfolded nea]] seta ..
  have inj: "inj_on pp_proposal_id (set ?a)"
    using ids by (auto simp: distinct_map intro: inj_on_subset)
  then have "inj_on (\<lambda>p. (- pp_priority p, pp_proposal_id p)) (set ?a)" by (auto simp: inj_on_def)
  then have high: "?a \<noteq> [] \<Longrightarrow> highest_priority ?a = highest_priority ?b"
    unfolding highest_priority_def by (intro sole_first a) auto
  have tie: "tied ?a \<longleftrightarrow> tied ?b" unfolding tied_def by (rule tie_mset [OF a])
  have win: "hd (sort_key proposal_rank ?a) = hd (sort_key proposal_rank ?b)"
    if "?a \<noteq> []" "\<not> tied ?a"
  proof (rule ccontr)
    let ?y = "hd (sort_key proposal_rank ?b)"
    assume "hd (sort_key proposal_rank ?a) \<noteq> ?y"
    moreover have "?y \<in> set ?b" using nea that(1) by (intro hd_sort_set) auto
    ultimately have "proposal_rank (hd (sort_key proposal_rank ?a)) < proposal_rank ?y"
      using sole_winner [OF that [unfolded tied_def], of ?y] seta by auto
    moreover have "proposal_rank ?y \<le> proposal_rank (hd (sort_key proposal_rank ?a))"
      using nea that(1) hd_sort_set [OF that(1), of proposal_rank] seta by (intro hd_sort_key(2)) auto
    ultimately show False by simp
  qed
  have keys: "key_conflict ps \<longleftrightarrow> key_conflict qs" unfolding key sets ..
  show ?thesis
    unfolding verdict_resolve by (intro if_cong refl) (use ne keys rev nea same high tie win in simp_all)
qed

theorem resolution_order_independent_witness:
  "verdict (resolve_conflict sample_dumps sample_proposals) = Some (ConflictSelected, Some ''p2'')
   \<and> verdict (resolve_conflict sample_dumps (rev sample_proposals)) = Some (ConflictSelected, Some ''p2'')"
proof -
  have 1: "mset sample_proposals = mset (rev sample_proposals)" by simp
  have 2: "distinct (map pp_proposal_id sample_proposals)" by code_simp
  have 3: "verdict (resolve_conflict sample_dumps sample_proposals) = Some (ConflictSelected, Some ''p2'')"
    by code_simp
  show ?thesis using resolution_order_independent [OF 1 2, of sample_dumps] 3 by simp
qed

subsection \<open>Merging\<close>

lemma task_ids_Nil [simp]: "task_ids_with_status s rs = [] \<longleftrightarrow> (\<forall>r \<in> set rs. at_status r \<notin> s)"
  by (auto simp: task_ids_with_status_def filter_empty_conv)

lemma status_cases: "at_status r = AtCompleted
    \<longleftrightarrow> at_status r \<notin> {AtFailed, AtCancelled, AtRejected} \<and> at_status r \<notin> {AtWaiting}"
  by (cases "at_status r") auto

text \<open>The fields of a merge, and when its status is COMPLETED.\<close>

lemma merge_results_Inr:
  assumes "merge_results rs cs p = Inr m"
  shows "rs \<noteq> []" "am_results m = rs" "am_conflict_resolutions m = cs"
    "am_missing_task_ids m = missing_task_ids (mp_expected_task_ids p) rs"
    "am_waiting_task_ids m = task_ids_with_status {AtWaiting} rs"
    "am_failed_task_ids m = task_ids_with_status {AtFailed, AtCancelled, AtRejected} rs"
    "am_missing_evidence_task_ids m = map at_task_id (filter (\<lambda>r. at_status r = AtCompleted \<and> at_evidence_ids r = []) rs)"
    "am_status m = fst (merge_status_of rs cs p (am_missing_task_ids m) (am_waiting_task_ids m)
       (am_failed_task_ids m) (am_missing_evidence_task_ids m))"
  using assms
  by (auto simp: merge_results_def Let_def case_prod_unfold simp del: task_ids_Nil split: if_splits)

lemma merge_results_Inl: "merge_results rs cs p = Inl e \<Longrightarrow> rs = [] \<or> \<not> distinct (map at_task_id rs)"
  by (auto simp: merge_results_def Let_def case_prod_unfold duplicate_values_Nil split: if_splits)

lemma all_completed_iff: "(\<forall>r \<in> set rs. at_status r = AtCompleted) \<longleftrightarrow>
    task_ids_with_status {AtWaiting} rs = [] \<and> task_ids_with_status {AtFailed, AtCancelled, AtRejected} rs = []"
  unfolding task_ids_Nil using status_cases by blast

lemma merge_status_iff:
  assumes m: "merge_results rs cs p = Inr m"
  shows "am_status m = MergeCompleted \<longleftrightarrow>
        (\<forall>r \<in> set rs. at_status r = AtCompleted) \<and> set (mp_expected_task_ids p) \<subseteq> set (map at_task_id rs)
        \<and> (mp_require_evidence_for_completed p \<longrightarrow> (\<forall>r \<in> set rs. at_evidence_ids r \<noteq> []))
        \<and> (mp_require_resolved_conflicts p \<longrightarrow> (\<forall>c \<in> set cs. \<not> requires_review c))
        \<and> (mp_fail_on_denied_conflicts p \<longrightarrow> (\<forall>c \<in> set cs. cr_status c \<noteq> ConflictDenied))"
proof -
  note f = merge_results_Inr [OF m]
  have miss: "am_missing_task_ids m = [] \<longleftrightarrow> set (mp_expected_task_ids p) \<subseteq> set (map at_task_id rs)"
    unfolding f(4) by (auto simp: missing_task_ids_def filter_empty_conv)
  have bare: "am_missing_evidence_task_ids m = [] \<longleftrightarrow> (\<forall>r \<in> set rs. at_status r = AtCompleted \<longrightarrow> at_evidence_ids r \<noteq> [])"
    unfolding f(7) by (auto simp: filter_empty_conv)
  have "am_status m = MergeCompleted \<longleftrightarrow>
      (mp_require_resolved_conflicts p \<longrightarrow> (\<forall>c \<in> set cs. \<not> requires_review c))
      \<and> (mp_fail_on_denied_conflicts p \<longrightarrow> (\<forall>c \<in> set cs. cr_status c \<noteq> ConflictDenied))
      \<and> am_missing_task_ids m = [] \<and> (mp_require_evidence_for_completed p \<longrightarrow> am_missing_evidence_task_ids m = [])
      \<and> (\<forall>r \<in> set rs. at_status r = AtCompleted)"
    unfolding f(8) all_completed_iff f(5,6) [symmetric]
    using all_completed_iff [of rs, folded f(5,6)]
    by (auto simp: merge_status_of_def filter_empty_conv list_all_iff)
  with miss bare show ?thesis by blast
qed

text \<open>A merge is COMPLETED exactly when all of its parts are: every child result is completed and
  none of the expected ones is missing, and, as far as the policy asks for it, every result hands over
  evidence, no conflict is left to review and none was denied. No policy makes a merge complete with a
  failed, cancelled, rejected or waiting child.\<close>

theorem merge_completed_iff:
  "(case merge_results rs cs p of Inl _ \<Rightarrow> rs = [] \<or> \<not> distinct (map at_task_id rs)
    | Inr m \<Rightarrow> am_status m = MergeCompleted \<longleftrightarrow>
        (\<forall>r \<in> set rs. at_status r = AtCompleted) \<and> set (mp_expected_task_ids p) \<subseteq> set (map at_task_id rs)
        \<and> (\<not> mp_require_evidence_for_completed p \<or> (\<forall>r \<in> set rs. at_evidence_ids r \<noteq> []))
        \<and> (\<not> mp_require_resolved_conflicts p \<or> (\<forall>c \<in> set cs. \<not> requires_review c))
        \<and> (\<not> mp_fail_on_denied_conflicts p \<or> (\<forall>c \<in> set cs. cr_status c \<noteq> ConflictDenied)))"
proof (cases "merge_results rs cs p")
  case (Inl e)
  then show ?thesis using merge_results_Inl by simp
next
  case (Inr m)
  from merge_status_iff [OF this] show ?thesis unfolding Inr sum.case by blast
qed

definition proven_result :: agent_task_result where
  "proven_result = (task_result ''t1'' AtCompleted ''ok'' None)\<lparr>at_evidence_ids := [''e1'']\<rparr>"

theorem merge_completed_iff_witness:
  "am_status (projr (merge_results [proven_result] [] default_merge_policy)) = MergeCompleted
   \<and> am_status (projr (merge_results [proven_result\<lparr>at_status := AtWaiting\<rparr>] [] default_merge_policy)) \<noteq> MergeCompleted"
proof -
  have 1: "\<not> isl (merge_results [proven_result] [] default_merge_policy)"
    "\<not> isl (merge_results [proven_result\<lparr>at_status := AtWaiting\<rparr>] [] default_merge_policy)" by code_simp+
  show ?thesis
    using merge_completed_iff [where rs = "[proven_result]" and cs = "[]" and p = default_merge_policy]
      merge_completed_iff [where rs = "[proven_result\<lparr>at_status := AtWaiting\<rparr>]" and cs = "[]" and p = default_merge_policy] 1
    by (auto simp: proven_result_def task_result_def default_merge_policy_def isl_def split: sum.splits)
qed

text \<open>The default evaluation of a default merge passes exactly when every child completed and
  handed over evidence, and no conflict was denied or is left to review.\<close>

theorem default_evaluation_passes_iff:
  "(case merge_results rs cs default_merge_policy of Inl _ \<Rightarrow> rs = [] \<or> \<not> distinct (map at_task_id rs)
    | Inr m \<Rightarrow> report_passed (evaluate_merge m default_expectations) \<longleftrightarrow>
        (\<forall>r \<in> set rs. at_status r = AtCompleted \<and> at_evidence_ids r \<noteq> [])
        \<and> (\<forall>c \<in> set cs. \<not> requires_review c \<and> cr_status c \<noteq> ConflictDenied))"
proof (cases "merge_results rs cs default_merge_policy")
  case (Inl e)
  then show ?thesis using merge_results_Inl by simp
next
  case (Inr m)
  note f = merge_results_Inr [OF Inr]
  have "report_passed (evaluate_merge m default_expectations) \<longleftrightarrow> am_status m = MergeCompleted
      \<and> am_missing_task_ids m = [] \<and> am_waiting_task_ids m = [] \<and> am_failed_task_ids m = []
      \<and> (\<forall>c \<in> set cs. \<not> requires_review c)"
    by (simp add: report_passed_def evaluate_merge_def default_expectations_def status_check_def
        required_evidence_check_def required_completed_check_def forbidden_failed_check_def listed_check_def
        max_count_check_def min_count_check_def review_conflict_count_def f(3) filter_empty_conv)
  also have "\<dots> \<longleftrightarrow> (\<forall>r \<in> set rs. at_status r = AtCompleted \<and> at_evidence_ids r \<noteq> [])
        \<and> (\<forall>c \<in> set cs. \<not> requires_review c \<and> cr_status c \<noteq> ConflictDenied)"
    using merge_status_iff [OF Inr] all_completed_iff [of rs]
    unfolding f(4-6) by (auto simp: default_merge_policy_def missing_task_ids_def simp del: task_ids_Nil)
  finally show ?thesis unfolding Inr sum.case .
qed

end
