(* ===== verification/Multi_Agent.thy ===== *)
theory Multi_Agent
  imports Delegation Agent_Merge
begin

text \<open>
  \<open>AgentOrchestrator\<close> of \<open>multi_agent/orchestrator.py\<close>, with the data of
  \<open>multi_agent/delegation_state.py\<close>: one task is delegated to an agent, a batch of tasks is delegated
  in the order of its dependencies, and the results are merged.

  An executor is foreign code that runs between two parts of \<open>delegate\<close>, \<open>begin_delegation\<close> up to the
  call and \<open>end_delegation\<close> after it. The tasks of a wave run concurrently: a \<open>wave_event\<close> is the start of one
  of them, its end with what the executor did, or a change of an instance's status by others; the
  schedule of a wave is a parameter. \<open>graphlib.TopologicalSorter\<close> is spelled out as the library
  has it. A cancellation of the orchestrator itself is left out. \<open>show\<close> is how a number is formatted.
\<close>

subsection \<open>delegation_state.py\<close>

datatype batch_status = BatchCompleted | BatchPartial | BatchFailed

record delegation_spec =
  ds_request :: agent_task_request
  ds_agent_id :: "string option"
  ds_depends_on :: "string list"

definition spec_task_id :: "delegation_spec \<Rightarrow> string" where
  "spec_task_id s = ar_task_id (ds_request s)"

definition delegation_spec_problem :: "delegation_spec \<Rightarrow> string option" where
  "delegation_spec_problem s = require (spec_task_id s \<notin> set (ds_depends_on s))
     ''agent delegation spec cannot depend on itself''"

record batch_result =
  br_status :: batch_status
  br_results :: "agent_task_result list"
  br_skipped_task_ids :: "string list"
  br_reason :: string

definition batch_completed :: "batch_result \<Rightarrow> bool" where
  "batch_completed b \<longleftrightarrow> br_status b = BatchCompleted"

record delegation_task_state =
  dt_task_id :: string
  dt_child_count :: int
  dt_delegation_depth :: "int option"

definition task_state_problem :: "delegation_task_state \<Rightarrow> string option" where
  "task_state_problem t = first_problem
     [require (\<not> blank (dt_task_id t)) ''agent delegation task state task_id must not be empty'',
      require (0 \<le> dt_child_count t) ''agent delegation task state child_count must be non-negative'',
      require (case dt_delegation_depth t of None \<Rightarrow> True | Some d \<Rightarrow> 0 \<le> d)
        ''agent delegation task state delegation_depth must be non-negative'']"

definition delegation_state_checked :: "delegation_task_state list \<Rightarrow> string + delegation_task_state list" where
  "delegation_state_checked ts = (let d = duplicate_values (map dt_task_id ts) in
     if d \<noteq> [] then Inl (''duplicate agent delegation state task ids: '' @ join_str '', '' d) else Inr ts)"

subsection \<open>State and errors\<close>

datatype orchestrator_error = OrNoEligible string | OrNoExecutor string | OrLimit string
  | OrDependency string | OrRegistry agent_registry_error | OrDelegation delegation_error
  | OrValueErr string | OrRaised string string

text \<open>The executors are known by the agents they are registered for.\<close>

record orchestrator =
  or_registry :: agent_registry
  or_executors :: "string list"
  or_child_counts :: "(string, int) dict"
  or_task_depths :: "(string, int) dict"
  or_manager :: delegation_manager

type_synonym 'a orch_outcome = "(orchestrator, orchestrator_error, 'a) outcome"

definition restore_task :: "delegation_task_state \<Rightarrow> orchestrator \<Rightarrow> orchestrator" where
  "restore_task t st =
     (let st1 = (if dt_child_count t \<noteq> 0
        then st\<lparr>or_child_counts := AList.update (dt_task_id t) (dt_child_count t) (or_child_counts st)\<rparr> else st)
      in case dt_delegation_depth t of None \<Rightarrow> st1
         | Some d \<Rightarrow> st1\<lparr>or_task_depths := AList.update (dt_task_id t) d (or_task_depths st1)\<rparr>)"

definition new_orchestrator :: "agent_registry \<Rightarrow> string list \<Rightarrow> delegation_task_state list \<Rightarrow> delegation_manager \<Rightarrow> orchestrator" where
  "new_orchestrator g xs ts m = fold restore_task ts
     \<lparr>or_registry = g, or_executors = xs, or_child_counts = [], or_task_depths = [], or_manager = m\<rparr>"

definition register_executor :: "string \<Rightarrow> orchestrator \<Rightarrow> unit orch_outcome" where
  "register_executor a st = check_op (map_error OrRegistry (find_instance a (or_registry st))) st
     (\<lambda>_. (Inr (), st\<lparr>or_executors := List.insert a (or_executors st)\<rparr>))"

definition orchestrator_snapshot :: "orchestrator \<Rightarrow> delegation_task_state list" where
  "orchestrator_snapshot st = map (\<lambda>t. \<lparr>dt_task_id = t, dt_child_count = dict_get (or_child_counts st) t 0,
       dt_delegation_depth = map_of (or_task_depths st) t\<rparr>)
     (sort (remdups (dict_keys (or_child_counts st) @ dict_keys (or_task_depths st))))"

subsection \<open>Selection and limits\<close>

definition select_instance :: "agent_task_request \<Rightarrow> string option \<Rightarrow> agent_registry \<Rightarrow> orchestrator_error + agent_instance" where
  "select_instance r agent g = (case agent of
     Some a \<Rightarrow> (case find_instance a g of Inl e \<Rightarrow> Inl (OrRegistry e)
       | Inr i \<Rightarrow> if ai_status i \<noteq> InstReady then Inl (OrNoEligible (''agent instance is not ready: '' @ a))
           else (case find_profile (instance_profile i) g of Inl e \<Rightarrow> Inl (OrRegistry e)
             | Inr p \<Rightarrow> if \<not> profile_eligible p r
                 then Inl (OrNoEligible (''agent instance is not eligible: '' @ a)) else Inr i))
   | None \<Rightarrow> (case eligible_instances r g of Inl e \<Rightarrow> Inl (OrRegistry e)
       | Inr [] \<Rightarrow> Inl (OrNoEligible ''no eligible agent instance'') | Inr (i # _) \<Rightarrow> Inr i))"

definition depth_problem :: "agent_task_request \<Rightarrow> orchestrator \<Rightarrow> string option" where
  "depth_problem r st = (case ar_parent_task_id r of
     None \<Rightarrow> require (ar_delegation_depth r = 0) ''root agent task delegation_depth must be 0''
   | Some p \<Rightarrow> (case map_of (or_task_depths st) p of
       None \<Rightarrow> Some (''agent task unknown parent_task_id: '' @ p)
     | Some d \<Rightarrow> require (ar_delegation_depth r = d + 1)
         (''agent task delegation_depth must be '' @ show_int (d + 1) @ '' for parent '' @ p)))"

definition reserve_delegation :: "agent_task_request \<Rightarrow> orchestrator \<Rightarrow> unit orch_outcome" where
  "reserve_delegation r st = (case depth_problem r st of Some m \<Rightarrow> (Inl (OrLimit m), st)
     | None \<Rightarrow>
       let deep = (\<lambda>st. st\<lparr>or_task_depths := AList.update (ar_task_id r) (ar_delegation_depth r) (or_task_depths st)\<rparr>)
       in case ar_parent_task_id r of None \<Rightarrow> (Inr (), deep st)
          | Some p \<Rightarrow> let n = dict_get (or_child_counts st) p 0;
                st1 = st\<lparr>or_child_counts := AList.update p n (or_child_counts st)\<rparr>
              in if ac_max_children (ar_constraints r) \<le> n
                 then (Inl (OrLimit (''agent task max_children exceeded for parent '' @ p)), st1)
                 else (Inr (), deep (st1\<lparr>or_child_counts := AList.update p (n + 1) (or_child_counts st1)\<rparr>)))"

subsection \<open>delegate\<close>

text \<open>\<open>str(exc)\<close>; the text of a \<open>KeyError\<close> is the representation of its argument.\<close>

fun delegation_error_text :: "delegation_error \<Rightarrow> string" where
  "delegation_error_text (DelegationNotFound m) = [CHR 0x27] @ m @ [CHR 0x27]"
| "delegation_error_text (InvalidDelegationTransition m) = m"
| "delegation_error_text (DelegationValueErr m) = m"

fun agent_registry_text :: "agent_registry_error \<Rightarrow> string" where
  "agent_registry_text (RegistryError m) = m"
| "agent_registry_text (ProfileNotRegistered m) = m"
| "agent_registry_text (InstanceNotRegistered m) = m"

fun error_text :: "orchestrator_error \<Rightarrow> string" where
  "error_text (OrNoEligible m) = m"
| "error_text (OrNoExecutor m) = m"
| "error_text (OrLimit m) = m"
| "error_text (OrDependency m) = m"
| "error_text (OrRegistry e) = agent_registry_text e"
| "error_text (OrDelegation e) = delegation_error_text e"
| "error_text (OrValueErr m) = m"
| "error_text (OrRaised ty m) = m"

definition on_manager :: "(delegation_manager \<Rightarrow> 'a delegation_outcome) \<Rightarrow> orchestrator \<Rightarrow> 'a orch_outcome" where
  "on_manager f st = (case f (or_manager st) of (r, m) \<Rightarrow> (map_error OrDelegation r, st\<lparr>or_manager := m\<rparr>))"

definition set_instance :: "string \<Rightarrow> agent_instance_status \<Rightarrow> orchestrator \<Rightarrow> unit orch_outcome" where
  "set_instance a s st = (case update_instance_status a s (or_registry st) of
     (r, g) \<Rightarrow> (map_error OrRegistry (map_sum id (\<lambda>_. ()) r), st\<lparr>or_registry := g\<rparr>))"

text \<open>\<open>except Exception as exc: fail(...); raise\<close>\<close>

definition fail_and_raise :: "stamps \<Rightarrow> string \<Rightarrow> orchestrator_error \<Rightarrow> orchestrator \<Rightarrow> 'a orch_outcome" where
  "fail_and_raise t did e st = bind_op (on_manager (fail_delegation t did (error_text e)) st) (\<lambda>_ st'. (Inl e, st'))"

record delegation_stamps =
  sp_id :: string
  sp_create :: stamps
  sp_start :: stamps
  sp_end :: stamps
  sp_fail :: stamps

text \<open>Up to the call of the executor: the instance and the id of the delegation.\<close>

definition begin_delegation :: "delegation_stamps \<Rightarrow> agent_task_request \<Rightarrow> string option \<Rightarrow> orchestrator
    \<Rightarrow> string orch_outcome" where
  "begin_delegation t r agent st =
     check_op (select_instance r agent (or_registry st)) st (\<lambda>i.
       let a = ai_agent_id i in
       if a \<notin> set (or_executors st) then (Inl (OrNoExecutor (''agent executor not registered: '' @ a)), st)
       else bind_op (reserve_delegation r st) (\<lambda>_ st1.
         bind_op (on_manager (create_delegation (sp_create t) (sp_id t) ''orchestrator'' a r None) st1) (\<lambda>_ st2.
           bind_op (on_manager (start_delegation (sp_start t) (sp_id t)) st2) (\<lambda>_ st3.
             case set_instance a InstBusy st3 of
               (Inl e, st4) \<Rightarrow> fail_and_raise (sp_fail t) (sp_id t) e st4
             | (Inr _, st4) \<Rightarrow> (Inr a, st4)))))"

datatype executor_outcome = ExecutorReturned agent_task_result | ExecutorTimedOut | ExecutorRaised string string

definition show_optional :: "(rat \<Rightarrow> string) \<Rightarrow> rat option \<Rightarrow> string" where
  "show_optional show x = (case x of None \<Rightarrow> ''None'' | Some q \<Rightarrow> show q)"

text \<open>\<open>_execute_agent_task\<close>: a \<open>TimeoutError\<close> becomes a result, other exceptions pass.\<close>

definition executed :: "(rat \<Rightarrow> string) \<Rightarrow> agent_task_request \<Rightarrow> executor_outcome \<Rightarrow> orchestrator_error + agent_task_result" where
  "executed show r x = (case x of ExecutorReturned res \<Rightarrow> Inr res
     | ExecutorTimedOut \<Rightarrow> Inr (task_result (ar_task_id r) AtFailed
         (''agent task exceeded max_duration_seconds=''
            @ show_optional show (ac_max_duration_seconds (ar_constraints r))) (Some TIMEOUT))
     | ExecutorRaised ty m \<Rightarrow> Inl (OrRaised ty m))"

definition enforce_cost_limit :: "(rat \<Rightarrow> string) \<Rightarrow> agent_task_request \<Rightarrow> agent_task_result \<Rightarrow> agent_task_result" where
  "enforce_cost_limit show r x = (case ac_max_cost (ar_constraints r) of None \<Rightarrow> x
     | Some m \<Rightarrow> if at_status x \<noteq> AtCompleted \<or> au_estimated_cost (at_usage x) \<le> m then x
         else x\<lparr>at_status := AtFailed,
                at_reason := ''agent task exceeded max_cost='' @ show m @ '' observed=''
                  @ show (au_estimated_cost (at_usage x)) @ '' '' @ au_currency (at_usage x),
                at_error_code := Some INVALID_STATE, at_api_version := AGENT_TASK_API_VERSION\<rparr>)"

text \<open>
  After the call: \<open>finally\<close> sets the instance READY, whatever its status is by now; then the delegation
  is completed or failed, and failed (again) when that raises.
\<close>

definition end_delegation :: "(rat \<Rightarrow> string) \<Rightarrow> delegation_stamps \<Rightarrow> agent_task_request \<Rightarrow> string
    \<Rightarrow> executor_outcome \<Rightarrow> orchestrator \<Rightarrow> agent_task_result orch_outcome" where
  "end_delegation show t r a x st =
     (case set_instance a InstReady st of
        (Inl e, st1) \<Rightarrow> fail_and_raise (sp_end t) (sp_id t) e st1
      | (Inr _, st1) \<Rightarrow>
        (case map_sum id (enforce_cost_limit show r) (executed show r x) of
           Inl e \<Rightarrow> fail_and_raise (sp_end t) (sp_id t) e st1
         | Inr res \<Rightarrow>
             (case (if at_status res = AtCompleted
                    then on_manager (complete_delegation (sp_end t) (sp_id t) res) st1
                    else on_manager (fail_delegation (sp_end t) (sp_id t) (at_reason res)) st1) of
                (Inl e, st2) \<Rightarrow> fail_and_raise (sp_fail t) (sp_id t) e st2
              | (Inr _, st2) \<Rightarrow> (Inr res, st2))))"

text \<open>One delegation; \<open>meanwhile\<close> is what others do while the executor runs.\<close>

definition delegate :: "(rat \<Rightarrow> string) \<Rightarrow> delegation_stamps \<Rightarrow> agent_task_request \<Rightarrow> string option
    \<Rightarrow> (orchestrator \<Rightarrow> orchestrator) \<Rightarrow> executor_outcome \<Rightarrow> orchestrator \<Rightarrow> agent_task_result orch_outcome" where
  "delegate show t r agent meanwhile x st =
     bind_op (begin_delegation t r agent st) (\<lambda>a st1. end_delegation show t r a x (meanwhile st1))"

end
