(* ===== verification/Delegation_Batch.thy ===== *)
theory Delegation_Batch
  imports Multi_Agent
begin

text \<open>
  \<open>delegate_many\<close> and \<open>delegate_and_merge\<close> of \<open>multi_agent/orchestrator.py\<close>: the topological sorter,
  the waves of tasks whose dependencies are done, and the batch result.
\<close>

subsection \<open>\<open>graphlib.TopologicalSorter\<close>\<close>

type_synonym dependency_graph = "(string \<times> string list) list"

text \<open>The nodes in the order of \<open>_node2info\<close>, and the successors of a node, once for each edge.\<close>

definition node_order :: "dependency_graph \<Rightarrow> string list" where
  "node_order g = first_seen {} (concat (map (\<lambda>(n, ds). n # ds) g))"

definition successors :: "dependency_graph \<Rightarrow> string \<Rightarrow> string list" where
  "successors g p = concat (map (\<lambda>(n, ds). replicate (count_list ds p) n) g)"

definition predecessors :: "dependency_graph \<Rightarrow> string \<Rightarrow> string list" where
  "predecessors g n = (case map_of g n of None \<Rightarrow> [] | Some ds \<Rightarrow> ds)"

record sorter =
  so_open :: "(string, nat) dict"
  so_ready :: "string list"

definition cyclic :: "dependency_graph \<Rightarrow> bool" where
  "cyclic g \<longleftrightarrow> (\<exists>(n, ds) \<in> set g. (n, n) \<in> (set (concat (map (\<lambda>(n, ds). map (Pair n) ds) g)))\<^sup>+)"

definition prepare_sorter :: "dependency_graph \<Rightarrow> sorter" where
  "prepare_sorter g = \<lparr>so_open = map (\<lambda>n. (n, length (predecessors g n))) (node_order g),
     so_ready = filter (\<lambda>n. predecessors g n = []) (node_order g)\<rparr>"

text \<open>\<open>done\<close> of one node: each edge to a successor counts it down, the last one makes it ready.\<close>

fun count_down :: "string list \<Rightarrow> sorter \<Rightarrow> sorter" where
  "count_down [] s = s"
| "count_down (n # ns) s =
     (let k = dict_get (so_open s) n 0 - 1 in
      count_down ns \<lparr>so_open = AList.update n k (so_open s),
        so_ready = (if k = 0 then so_ready s @ [n] else so_ready s)\<rparr>)"

text \<open>\<open>get_ready\<close> empties the list, \<open>done(*nodes)\<close> takes the nodes in order.\<close>

definition finish_nodes :: "dependency_graph \<Rightarrow> string list \<Rightarrow> sorter \<Rightarrow> sorter" where
  "finish_nodes g ns s = fold (\<lambda>n. count_down (successors g n)) ns (s\<lparr>so_ready := []\<rparr>)"

definition graph_of :: "delegation_spec list \<Rightarrow> dependency_graph" where
  "graph_of specs = map (\<lambda>s. (spec_task_id s, ds_depends_on s)) specs"

definition delegation_sorter :: "delegation_spec list \<Rightarrow> orchestrator_error + sorter" where
  "delegation_sorter specs =
     (let ids = map spec_task_id specs; dups = duplicate_values ids;
          missing = filter (\<lambda>d. d \<notin> set ids) (concat (map ds_depends_on specs))
      in if dups \<noteq> [] then Inl (OrValueErr (''duplicate agent delegation task ids: '' @ join_str '', '' dups))
         else if missing \<noteq> [] then Inl (OrValueErr (''unknown agent delegation dependencies: '' @ join_str '', '' missing))
         else if cyclic (graph_of specs) then Inl (OrDependency ''agent delegation dependencies contain a cycle'')
         else Inr (prepare_sorter (graph_of specs)))"

subsection \<open>One wave\<close>

definition rejected_result :: "agent_task_request \<Rightarrow> string \<Rightarrow> error_code \<Rightarrow> agent_task_result" where
  "rejected_result r reason code = task_result (ar_task_id r) AtRejected reason (Some code)"

text \<open>\<open>type(exc).__name__\<close>\<close>

fun error_type :: "orchestrator_error \<Rightarrow> string" where
  "error_type (OrRegistry (RegistryError m)) = ''AgentRegistryError''"
| "error_type (OrRegistry (ProfileNotRegistered m)) = ''AgentProfileNotRegisteredError''"
| "error_type (OrRegistry (InstanceNotRegistered m)) = ''AgentInstanceNotRegisteredError''"
| "error_type (OrDelegation (DelegationNotFound m)) = ''KeyError''"
| "error_type (OrDelegation (InvalidDelegationTransition m)) = ''InvalidDelegationTransition''"
| "error_type (OrDelegation (DelegationValueErr m)) = ''ValueError''"
| "error_type (OrRaised ty m) = ty"
| "error_type (OrValueErr m) = ''ValueError''"
| "error_type (OrNoEligible m) = ''NoEligibleAgentError''"
| "error_type (OrNoExecutor m) = ''AgentExecutorNotRegisteredError''"
| "error_type (OrLimit m) = ''AgentDelegationLimitError''"
| "error_type (OrDependency m) = ''AgentDelegationDependencyError''"

text \<open>The two \<open>except\<close> clauses of \<open>_delegate_spec\<close>: a refusal of the orchestrator, or a failure.\<close>

definition error_result :: "agent_task_request \<Rightarrow> orchestrator_error \<Rightarrow> agent_task_result" where
  "error_result r e = (case e of
     OrNoEligible m \<Rightarrow> rejected_result r m INVALID_STATE | OrNoExecutor m \<Rightarrow> rejected_result r m INVALID_STATE
   | OrLimit m \<Rightarrow> rejected_result r m INVALID_STATE | OrDependency m \<Rightarrow> rejected_result r m INVALID_STATE
   | _ \<Rightarrow> task_result (ar_task_id r) AtFailed
            (''agent executor failed: '' @ error_type e @ '': '' @ error_text e) (Some UNKNOWN_EXECUTION))"

datatype wave_event = BeginTask nat delegation_stamps | EndTask nat executor_outcome
  | OtherStatus string agent_instance_status

record wave =
  wv_orchestrator :: orchestrator
  wv_running :: "(nat \<times> string \<times> delegation_stamps) list"
  wv_results :: "(nat \<times> agent_task_result) list"

definition wave_step :: "(rat \<Rightarrow> string) \<Rightarrow> delegation_spec list \<Rightarrow> wave_event \<Rightarrow> wave \<Rightarrow> wave" where
  "wave_step show ss e w = (case e of
     BeginTask i t \<Rightarrow>
       if length ss \<le> i \<or> map_of (wv_running w) i \<noteq> None \<or> map_of (wv_results w) i \<noteq> None then w
       else (let r = ds_request (ss ! i) in
         case begin_delegation t r (ds_agent_id (ss ! i)) (wv_orchestrator w) of
           (Inl x, st) \<Rightarrow> w\<lparr>wv_orchestrator := st, wv_results := (i, error_result r x) # wv_results w\<rparr>
         | (Inr a, st) \<Rightarrow> w\<lparr>wv_orchestrator := st, wv_running := (i, a, t) # wv_running w\<rparr>)
   | EndTask i x \<Rightarrow>
       if map_of (wv_results w) i \<noteq> None then w
       else (case map_of (wv_running w) i of None \<Rightarrow> w
         | Some (a, t) \<Rightarrow> (let r = ds_request (ss ! i) in
             case end_delegation show t r a x (wv_orchestrator w) of (res, st) \<Rightarrow>
               w\<lparr>wv_orchestrator := st,
                 wv_results := (i, case res of Inl y \<Rightarrow> error_result r y | Inr z \<Rightarrow> z) # wv_results w\<rparr>))
   | OtherStatus a s \<Rightarrow> w\<lparr>wv_orchestrator := snd (set_instance a s (wv_orchestrator w))\<rparr>)"

text \<open>\<open>gather\<close> returns when every task has its result; until then there is none.\<close>

definition run_wave :: "(rat \<Rightarrow> string) \<Rightarrow> wave_event list \<Rightarrow> delegation_spec list \<Rightarrow> orchestrator
    \<Rightarrow> (agent_task_result list \<times> orchestrator) option" where
  "run_wave show es ss st =
     (let w = fold (wave_step show ss) es \<lparr>wv_orchestrator = st, wv_running = [], wv_results = []\<rparr>;
          rs = map (\<lambda>i. map_of (wv_results w) i) [0..<length ss]
      in if None \<in> set rs then None else Some (map the rs, wv_orchestrator w))"

subsection \<open>delegate_many\<close>

type_synonym task_results = "(string, agent_task_result) dict"

definition failed_dependencies :: "delegation_spec \<Rightarrow> task_results \<Rightarrow> string list" where
  "failed_dependencies s rs = filter (\<lambda>d. case map_of rs d of None \<Rightarrow> False
     | Some r \<Rightarrow> at_status r \<noteq> AtCompleted) (ds_depends_on s)"

definition has_failed_dependency :: "delegation_spec \<Rightarrow> task_results \<Rightarrow> bool" where
  "has_failed_dependency s rs \<longleftrightarrow> failed_dependencies s rs \<noteq> []"

text \<open>A spec by its id; the ids of a batch are distinct.\<close>

definition spec_by_id :: "delegation_spec list \<Rightarrow> string \<Rightarrow> delegation_spec" where
  "spec_by_id specs k = the (find (\<lambda>s. spec_task_id s = k) specs)"

definition skip_specs :: "delegation_spec list \<Rightarrow> task_results \<Rightarrow> task_results" where
  "skip_specs ss rs = fold (\<lambda>s acc. AList.update (spec_task_id s) (rejected_result (ds_request s)
     (''dependency did not complete: '' @ join_str '', '' (failed_dependencies s acc)) INVALID_STATE) acc) ss rs"

definition put_results :: "delegation_spec list \<Rightarrow> agent_task_result list \<Rightarrow> task_results \<Rightarrow> task_results" where
  "put_results ss xs rs = fold (\<lambda>(s, x). AList.update (spec_task_id s) x) (zip ss xs) rs"

text \<open>
  The \<open>while\<close> loop. Everything passed out is finished within its round, so the sorter is active exactly
  while something is ready. \<open>None\<close>: the fuel is used up or a wave does not end.
\<close>

fun batch_loop :: "(rat \<Rightarrow> string) \<Rightarrow> delegation_spec list \<Rightarrow> nat \<Rightarrow> (nat \<Rightarrow> wave_event list) \<Rightarrow> sorter
    \<Rightarrow> task_results \<Rightarrow> string list \<Rightarrow> orchestrator \<Rightarrow> (task_results \<times> string list \<times> orchestrator) option" where
  "batch_loop show specs fuel schedules s rs skipped st =
     (if so_ready s = [] then Some (rs, skipped, st)
      else case fuel of 0 \<Rightarrow> None
      | Suc n \<Rightarrow>
        (let ready = map (spec_by_id specs) (so_ready s);
             delegated = filter (\<lambda>x. \<not> has_failed_dependency x rs) ready;
             skip = filter (\<lambda>x. has_failed_dependency x rs) ready;
             rs1 = skip_specs skip rs
         in case run_wave show (schedules 0) delegated st of None \<Rightarrow> None
            | Some (xs, st1) \<Rightarrow>
                batch_loop show specs n (\<lambda>k. schedules (Suc k)) (finish_nodes (graph_of specs) (so_ready s) s)
                  (put_results delegated xs rs1) (skipped @ map spec_task_id skip) st1))"

declare batch_loop.simps [simp del]

definition batch_status_of :: "agent_task_result list \<Rightarrow> batch_status" where
  "batch_status_of rs = (let n = length (filter (\<lambda>r. at_status r = AtCompleted) rs) in
     if n = length rs then BatchCompleted else if 0 < n then BatchPartial else BatchFailed)"

fun batch_reason :: "batch_status \<Rightarrow> string" where
  "batch_reason BatchCompleted = ''all delegated agent tasks completed''"
| "batch_reason BatchPartial = ''some delegated agent tasks did not complete''"
| "batch_reason BatchFailed = ''no delegated agent tasks completed''"

text \<open>\<open>results[...]\<close> of a spec without a result would be a \<open>KeyError\<close>.\<close>

definition delegate_many :: "(rat \<Rightarrow> string) \<Rightarrow> (nat \<Rightarrow> wave_event list) \<Rightarrow> delegation_spec list \<Rightarrow> orchestrator
    \<Rightarrow> batch_result orch_outcome option" where
  "delegate_many show schedules specs st =
     (if specs = [] then Some (Inl (OrValueErr ''agent delegation batch requires specs''), st)
      else case delegation_sorter specs of Inl e \<Rightarrow> Some (Inl e, st)
      | Inr s \<Rightarrow>
        (case batch_loop show specs (length specs) schedules s [] [] st of None \<Rightarrow> None
         | Some (rs, skipped, st') \<Rightarrow>
             if \<exists>x \<in> set specs. map_of rs (spec_task_id x) = None then Some (Inl (OrRaised ''KeyError'' []), st')
             else let ordered = map (\<lambda>x. the (map_of rs (spec_task_id x))) specs; status = batch_status_of ordered
               in Some (Inr \<lparr>br_status = status, br_results = ordered, br_skipped_task_ids = skipped,
                    br_reason = batch_reason status\<rparr>, st')))"

definition delegate_and_merge :: "(rat \<Rightarrow> string) \<Rightarrow> (nat \<Rightarrow> wave_event list) \<Rightarrow> delegation_spec list \<Rightarrow> orchestrator
    \<Rightarrow> agent_merge orch_outcome option" where
  "delegate_and_merge show schedules specs st =
     (case delegate_many show schedules specs st of None \<Rightarrow> None
      | Some (Inl e, st') \<Rightarrow> Some (Inl e, st')
      | Some (Inr b, st') \<Rightarrow>
          Some (map_error OrValueErr (merge_results (br_results b) [] default_merge_policy), st'))"

end
