(* ===== verification/Batch_Safety.thy ===== *)
theory Batch_Safety
  imports Delegation_Batch Delegation_Safety
begin

text \<open>
  A batch of delegations is answered in full: the sorter passes every task out, each after its
  dependencies, and a task is delegated exactly when its dependencies completed.
\<close>

subsection \<open>The sorter\<close>

lemma first_seen_set [simp]: "set (first_seen S xs) = set xs - S"
  by (induction S xs rule: first_seen.induct) auto

lemma first_seen_distinct [simp]: "distinct (first_seen S xs)"
  by (induction S xs rule: first_seen.induct) auto

text \<open>A batch that passes the checks of \<open>_delegation_sorter\<close>.\<close>

definition nodes :: "dependency_graph \<Rightarrow> string set" where
  "nodes g = fst ` set g"

definition sound_graph :: "dependency_graph \<Rightarrow> bool" where
  "sound_graph g \<longleftrightarrow> distinct (map fst g) \<and> (\<forall>(n, ds) \<in> set g. set ds \<subseteq> nodes g) \<and> \<not> cyclic g"

lemma sound_predecessors: "sound_graph g \<Longrightarrow> (n, ds) \<in> set g \<Longrightarrow> predecessors g n = ds"
  by (auto simp: sound_graph_def predecessors_def)

lemma sound_nodes: "sound_graph g \<Longrightarrow> set (node_order g) = nodes g"
  unfolding node_order_def first_seen_set sound_graph_def nodes_def by (auto simp: image_iff) (force+)?

text \<open>The dependencies of a node that are not finished, counted with repetition.\<close>

definition unmet :: "dependency_graph \<Rightarrow> string set \<Rightarrow> string \<Rightarrow> nat" where
  "unmet g D n = length (filter (\<lambda>d. d \<notin> D) (predecessors g n))"

lemma unmet_insert: "v \<notin> D \<Longrightarrow> unmet g D n = unmet g (insert v D) n + count_list (predecessors g n) v"
proof -
  assume v: "v \<notin> D"
  have "length (filter (\<lambda>d. d \<notin> D) xs) = length (filter (\<lambda>d. d \<notin> insert v D) xs) + count_list xs v" for xs
    using v by (induction xs) auto
  then show ?thesis by (simp add: unmet_def)
qed

lemma unmet_mono: "D \<subseteq> D' \<Longrightarrow> unmet g D' n \<le> unmet g D n"
proof -
  assume "D \<subseteq> D'"
  then have "length (filter (\<lambda>d. d \<notin> D') xs) \<le> length (filter (\<lambda>d. d \<notin> D) xs)" for xs
    by (induction xs) auto
  then show ?thesis by (simp add: unmet_def)
qed

lemma unmet_zero: "unmet g D n = 0 \<longleftrightarrow> set (predecessors g n) \<subseteq> D"
  by (auto simp: unmet_def filter_empty_conv)

lemma count_successors:
  assumes "sound_graph g" and "n \<in> nodes g"
  shows "count_list (successors g v) n = count_list (predecessors g n) v"
proof -
  have rep: "count_list (replicate k m) n = (if m = n then k else 0)" for k and m :: string
    by (induction k) auto
  have "count_list (successors h v) n = (case map_of h n of None \<Rightarrow> 0 | Some ds \<Rightarrow> count_list ds v)"
    if "distinct (map fst h)" for h
    using that
  proof (induction h)
    case (Cons p h)
    obtain m ds where p: "p = (m, ds)" by (cases p)
    have "m = n \<Longrightarrow> map_of h n = None" using Cons.prems p by (simp add: map_of_eq_None_iff)
    with Cons p rep show ?case by (auto simp: successors_def split: option.splits)
  qed (simp add: successors_def)
  then show ?thesis using assms by (simp add: sound_graph_def predecessors_def split: option.split)
qed

lemma successors_set: "set (successors g v) \<subseteq> nodes g"
  by (auto simp: successors_def nodes_def image_iff split: if_splits) force

lemma count_down_open:
  "dict_get (so_open (count_down ns s)) n 0 = dict_get (so_open s) n 0 - count_list ns n"
proof (induction ns arbitrary: s)
  case (Cons m ns)
  show ?case by (simp add: Cons.IH Let_def dict_simps)
qed simp

lemma count_down_ready:
  assumes "\<And>n. count_list ns n \<le> dict_get (so_open s) n 0"
    and "distinct (so_ready s)" and "\<And>n. n \<in> set (so_ready s) \<Longrightarrow> dict_get (so_open s) n 0 = 0"
  shows "set (so_ready (count_down ns s)) = set (so_ready s) \<union> {n \<in> set ns. dict_get (so_open s) n 0 = count_list ns n}
    \<and> distinct (so_ready (count_down ns s))"
  using assms
proof (induction ns arbitrary: s)
  case (Cons m ns)
  let ?k = "dict_get (so_open s) m 0 - 1"
  let ?s = "\<lparr>so_open = AList.update m ?k (so_open s), so_ready = (if ?k = 0 then so_ready s @ [m] else so_ready s)\<rparr>"
  have m: "dict_get (so_open s) m 0 \<ge> 1 + count_list ns m" using Cons.prems(1) [of m] by simp
  have fresh: "m \<notin> set (so_ready s)" using Cons.prems(3) m by force
  have 1: "count_list ns n \<le> dict_get (so_open ?s) n 0" for n
    using Cons.prems(1) [of n] by (auto simp: dict_simps)
  have 2: "distinct (so_ready ?s)" using Cons.prems(2) fresh by simp
  have 3: "n \<in> set (so_ready ?s) \<Longrightarrow> dict_get (so_open ?s) n 0 = 0" for n
    using Cons.prems(3) fresh by (auto simp: dict_simps split: if_splits)
  have "set (so_ready ?s) \<union> {n \<in> set ns. dict_get (so_open ?s) n 0 = count_list ns n}
      = set (so_ready s) \<union> {n \<in> set (m # ns). dict_get (so_open s) n 0 = count_list (m # ns) n}"
    using m by (auto simp: dict_simps count_list_0_iff split: if_splits)
  then show ?case using Cons.IH [of ?s, OF 1 2 3] by (simp add: Let_def)
qed simp


text \<open>The nodes \<open>P\<close> were passed out and the nodes \<open>F\<close> of them are finished.\<close>

definition passed :: "dependency_graph \<Rightarrow> string set \<Rightarrow> string set \<Rightarrow> sorter \<Rightarrow> bool" where
  "passed g P F s \<longleftrightarrow> F \<subseteq> P \<and> P \<subseteq> nodes g \<and> (\<forall>n \<in> P. unmet g F n = 0)
     \<and> (\<forall>n \<in> nodes g. dict_get (so_open s) n 0 = unmet g F n) \<and> distinct (so_ready s)
     \<and> set (so_ready s) = {n \<in> nodes g. n \<notin> P \<and> unmet g F n = 0}"

lemma passed_parts:
  assumes "passed g P F s"
  shows "P \<subseteq> nodes g" "set (so_ready s) \<inter> P = {}" "set (so_ready s) \<subseteq> nodes g" "distinct (so_ready s)"
  using assms unfolding passed_def by auto

lemma passed_prepare:
  assumes "sound_graph g"
  shows "passed g {} {} (prepare_sorter g)"
proof -
  have "dict_get (map (\<lambda>n. (n, f n)) ns) n 0 = (if n \<in> set ns then f n else 0)" for f :: "string \<Rightarrow> nat" and ns n
    by (induction ns) (auto simp: dict_get_def)
  then show ?thesis
    using sound_nodes [OF assms] by (auto simp: passed_def prepare_sorter_def unmet_def) (simp add: node_order_def)
qed

lemma passed_out:
  "passed g D D s \<Longrightarrow> passed g (D \<union> set (so_ready s)) D (s\<lparr>so_ready := []\<rparr>)"
  by (auto simp: passed_def)

lemma passed_finish:
  assumes g: "sound_graph g" and p: "passed g P F s" and v: "v \<in> P" "v \<notin> F"
  shows "passed g P (insert v F) (count_down (successors g v) s)"
proof -
  let ?c = "count_list (successors g v)"
  have split: "unmet g F n = unmet g (insert v F) n + count_list (predecessors g n) v" for n
    using v by (simp add: unmet_insert)
  have c: "n \<in> nodes g \<Longrightarrow> ?c n = count_list (predecessors g n) v" for n
    using g by (rule count_successors)
  have opened: "n \<in> nodes g \<Longrightarrow> dict_get (so_open s) n 0 = unmet g F n" for n
    using p by (simp add: passed_def)
  have le: "?c n \<le> dict_get (so_open s) n 0" for n
    using successors_set [of g v] c [of n] opened [of n] split [of n] count_list_0_iff [of "successors g v" n]
    by (cases "n \<in> nodes g") auto
  have done0: "n \<in> P \<Longrightarrow> n \<notin> set (successors g v) \<and> unmet g (insert v F) n = 0" for n
    using p split [of n] c [of n] by (auto simp: passed_def count_list_0_iff subset_iff)
  have new: "n \<in> nodes g \<Longrightarrow> unmet g (insert v F) n = 0 \<Longrightarrow> unmet g F n = 0 \<or> n \<in> set (successors g v)" for n
    using split [of n] c [of n] count_list_0_iff [of "successors g v" n] by (cases "n \<in> set (successors g v)") auto
  have ready: "set (so_ready (count_down (successors g v) s))
      = set (so_ready s) \<union> {n \<in> set (successors g v). dict_get (so_open s) n 0 = ?c n}
    \<and> distinct (so_ready (count_down (successors g v) s))"
    using p by (intro count_down_ready le) (auto simp: passed_def)
  have "set (so_ready s) \<union> {n \<in> set (successors g v). dict_get (so_open s) n 0 = ?c n}
      = {n \<in> nodes g. n \<notin> P \<and> unmet g (insert v F) n = 0}" (is "?l = ?r")
  proof (intro set_eqI iffI)
    fix n assume n: "n \<in> ?l"
    then have N: "n \<in> nodes g" using p successors_set [of g v] by (auto simp: passed_def)
    with n show "n \<in> ?r" using p split [of n] c [OF N] opened [OF N] done0 [of n] by (auto simp: passed_def)
  next
    fix n assume "n \<in> ?r"
    then show "n \<in> ?l" using p split [of n] c [of n] opened [of n] new [of n] by (auto simp: passed_def)
  qed
  then show ?thesis
    using p ready v done0 by (simp add: passed_def count_down_open c split)
qed

lemma passed_finish_nodes:
  assumes "sound_graph g" and "passed g D D s"
  shows "passed g (D \<union> set (so_ready s)) (D \<union> set (so_ready s)) (finish_nodes g (so_ready s) s)"
proof -
  have "passed g P (F \<union> set ns) (fold (\<lambda>n. count_down (successors g n)) ns t)"
    if "passed g P F t" and "distinct ns" and "set ns \<subseteq> P - F" for P F ns t
    using that
  proof (induction ns arbitrary: F t)
    case (Cons v ns)
    have "passed g P (insert v F) (count_down (successors g v) t)"
      using Cons.prems by (intro passed_finish assms(1)) auto
    from Cons.IH [OF this] Cons.prems show ?case by auto
  qed simp
  note all = this
  show ?thesis
    unfolding finish_nodes_def using assms(2) by (intro all passed_out) (auto simp: passed_def)
qed

text \<open>Without a cycle there is always something ready, until all nodes are passed out.\<close>

definition edges :: "dependency_graph \<Rightarrow> (string \<times> string) set" where
  "edges g = set (concat (map (\<lambda>(n, ds). map (Pair n) ds) g))"

lemma edge_iff: "(a, b) \<in> edges g \<longleftrightarrow> (\<exists>ds. (a, ds) \<in> set g \<and> b \<in> set ds)"
  by (force simp: edges_def)

lemma finite_edges: "finite (edges g)"
  unfolding edges_def by (rule finite_set)

lemma edge_source: "(a, b) \<in> (edges g)\<^sup>+ \<Longrightarrow> \<exists>ds. (a, ds) \<in> set g"
  by (erule converse_tranclE) (auto simp: edge_iff)

lemma cyclic_iff: "cyclic g \<longleftrightarrow> \<not> acyclic (edges g)"
  unfolding cyclic_def acyclic_def edges_def [symmetric] using edge_source by blast

lemma nothing_ready:
  assumes g: "sound_graph g" and p: "passed g D D s" and none: "so_ready s = []"
  shows "D = nodes g"
proof (rule ccontr)
  let ?Q = "nodes g - D"
  assume "D \<noteq> nodes g"
  then have Q: "?Q \<noteq> {}" using p by (auto simp: passed_def)
  have "acyclic (edges g)" using g unfolding sound_graph_def cyclic_iff by blast
  then have wf: "wf ((edges g)\<inverse>)" by (rule finite_acyclic_wf_converse [OF finite_edges])
  obtain z where z: "z \<in> ?Q" and low: "\<forall>y. (y, z) \<in> (edges g)\<inverse> \<longrightarrow> y \<notin> ?Q"
    by (rule wfE_min' [OF wf Q]) blast
  from z obtain ds where ds: "(z, ds) \<in> set g" by (auto simp: nodes_def)
  have "unmet g D z \<noteq> 0" using p none z by (auto simp: passed_def)
  then obtain d where d: "d \<in> set ds" "d \<notin> D"
    using sound_predecessors [OF g ds] by (auto simp: unmet_zero)
  moreover have "d \<in> nodes g" using g ds d(1) by (auto simp: sound_graph_def)
  moreover have "(z, d) \<in> edges g" using ds d(1) by (auto simp: edge_iff)
  ultimately show False using low by blast
qed

subsection \<open>A wave ends\<close>

text \<open>The schedule starts the task and lets it end afterwards.\<close>

fun runs_task :: "nat \<Rightarrow> bool \<Rightarrow> wave_event list \<Rightarrow> bool" where
  "runs_task i b [] = False"
| "runs_task i b (BeginTask j t # es) = runs_task i (b \<or> j = i) es"
| "runs_task i b (EndTask j x # es) = (b \<and> j = i \<or> runs_task i b es)"
| "runs_task i b (OtherStatus a s # es) = runs_task i b es"

definition covers :: "nat \<Rightarrow> wave_event list \<Rightarrow> bool" where
  "covers n es \<longleftrightarrow> list_all (\<lambda>i. runs_task i False es) [0..<n]"

lemma wave_step_keeps:
  "map_of (wv_results w) i \<noteq> None \<Longrightarrow> map_of (wv_results (wave_step show ss e w)) i \<noteq> None"
  by (cases e) (auto simp: wave_step_def Let_def split: prod.splits sum.splits option.splits)

lemma wave_keeps:
  "map_of (wv_results w) i \<noteq> None \<Longrightarrow> map_of (wv_results (fold (wave_step show ss) es w)) i \<noteq> None"
proof (induction es arbitrary: w)
  case (Cons e es)
  from Cons.IH [OF wave_step_keeps [OF Cons.prems]] show ?case by simp
qed simp

definition begun :: "nat \<Rightarrow> wave \<Rightarrow> bool" where
  "begun i w \<longleftrightarrow> map_of (wv_running w) i \<noteq> None \<or> map_of (wv_results w) i \<noteq> None"

lemma wave_step_begun: "begun i w \<Longrightarrow> begun i (wave_step show ss e w)"
  by (cases e) (auto simp: begun_def wave_step_def Let_def split: prod.splits sum.splits option.splits)

lemma begin_begun: "i < length ss \<Longrightarrow> begun i (wave_step show ss (BeginTask i t) w)"
  by (auto simp: begun_def wave_step_def Let_def split: prod.splits sum.splits)

lemma task_end_result: "begun i w \<Longrightarrow> map_of (wv_results (wave_step show ss (EndTask i x) w)) i \<noteq> None"
  by (auto simp: begun_def wave_step_def Let_def split: prod.splits sum.splits)

lemma task_ends:
  "runs_task i b es \<Longrightarrow> i < length ss \<Longrightarrow> (b \<Longrightarrow> begun i w)
    \<Longrightarrow> map_of (wv_results (fold (wave_step show ss) es w)) i \<noteq> None"
proof (induction i b es arbitrary: w rule: runs_task.induct)
  case (2 i b j t es)
  then show ?case using begin_begun [of i ss "show" t w] wave_step_begun [of i w "show" ss] by auto
next
  case (3 i b j x es)
  then show ?case using task_end_result [of i w "show" ss x] wave_step_begun [of i w "show" ss] wave_keeps by auto
next
  case (4 i b a s es)
  then show ?case using wave_step_begun [of i w "show" ss] by auto
qed simp

lemma wave_ends:
  assumes "covers n es" and "length ss \<le> n"
  shows "\<exists>xs st'. run_wave show es ss st = Some (xs, st') \<and> length xs = length ss"
proof -
  let ?w = "fold (wave_step show ss) es \<lparr>wv_orchestrator = st, wv_running = [], wv_results = []\<rparr>"
  have "i < length ss \<Longrightarrow> map_of (wv_results ?w) i \<noteq> None" for i
    using assms by (intro task_ends [where b = False]) (auto simp: covers_def list_all_iff)
  then have "None \<notin> set (map (\<lambda>i. map_of (wv_results ?w) i) [0..<length ss])"
    by (auto simp del: map_of_eq_None_iff) (metis not_None_eq)
  then show ?thesis by (simp add: run_wave_def Let_def)
qed

subsection \<open>The results\<close>

lemma put_results_lookup:
  "length xs = length ss \<Longrightarrow> map_of (put_results ss xs rs) k = None \<longleftrightarrow> k \<notin> spec_task_id ` set ss \<and> map_of rs k = None"
  "k \<notin> spec_task_id ` set ss \<Longrightarrow> map_of (put_results ss xs rs) k = map_of rs k"
proof -
  show "length xs = length ss \<Longrightarrow> map_of (put_results ss xs rs) k = None \<longleftrightarrow> k \<notin> spec_task_id ` set ss \<and> map_of rs k = None"
    unfolding put_results_def
    by (induction xs ss arbitrary: rs rule: list_induct2) (auto simp: dict_simps simp del: map_of_eq_None_iff)
  show "k \<notin> spec_task_id ` set ss \<Longrightarrow> map_of (put_results ss xs rs) k = map_of rs k"
    unfolding put_results_def
  proof (induction ss arbitrary: xs rs)
    case (Cons s ss)
    then show ?case by (cases xs) (auto simp: dict_simps)
  qed simp
qed

lemma skip_specs_lookup:
  "k \<notin> spec_task_id ` set ss \<Longrightarrow> map_of (skip_specs ss rs) k = map_of rs k"
  "k \<in> spec_task_id ` set ss \<Longrightarrow> \<exists>r. map_of (skip_specs ss rs) k = Some r \<and> at_status r = AtRejected"
proof -
  show other: "k \<notin> spec_task_id ` set ss \<Longrightarrow> map_of (skip_specs ss rs) k = map_of rs k" for ss rs
    unfolding skip_specs_def by (induction ss arbitrary: rs) (auto simp: dict_simps)
  show "k \<in> spec_task_id ` set ss \<Longrightarrow> \<exists>r. map_of (skip_specs ss rs) k = Some r \<and> at_status r = AtRejected"
  proof (induction ss arbitrary: rs)
    case (Cons s ss)
    show ?case
    proof (cases "k \<in> spec_task_id ` set ss")
      case True
      then show ?thesis using Cons.IH by (simp add: skip_specs_def)
    next
      case False
      then show ?thesis
        using Cons.prems other [OF False]
        by (auto simp: skip_specs_def dict_simps rejected_result_def task_result_def)
    qed
  qed simp
qed

text \<open>
  What is answered when the tasks in \<open>D\<close> are: each has a result, and a task is skipped, with a
  rejection, exactly when a dependency of it did not complete.
\<close>

definition dependency_failed :: "delegation_spec \<Rightarrow> task_results \<Rightarrow> bool" where
  "dependency_failed x rs \<longleftrightarrow> (\<exists>d \<in> set (ds_depends_on x). \<exists>r. map_of rs d = Some r \<and> at_status r \<noteq> AtCompleted)"

lemma has_failed_dependency_iff: "has_failed_dependency x rs \<longleftrightarrow> dependency_failed x rs"
  by (auto simp: has_failed_dependency_def failed_dependencies_def dependency_failed_def filter_empty_conv
      split: option.splits)

definition answered :: "delegation_spec list \<Rightarrow> string set \<Rightarrow> task_results \<Rightarrow> string list \<Rightarrow> bool" where
  "answered specs D rs sk \<longleftrightarrow> (\<forall>k. map_of rs k \<noteq> None \<longleftrightarrow> k \<in> D) \<and> set sk \<subseteq> D
     \<and> (\<forall>x \<in> set specs. spec_task_id x \<in> D \<longrightarrow> set (ds_depends_on x) \<subseteq> D
         \<and> (spec_task_id x \<in> set sk \<longleftrightarrow> dependency_failed x rs)
         \<and> (spec_task_id x \<in> set sk \<longrightarrow> at_status (the (map_of rs (spec_task_id x))) = AtRejected))"

definition sound_batch :: "delegation_spec list \<Rightarrow> bool" where
  "sound_batch specs \<longleftrightarrow> distinct (map spec_task_id specs)
     \<and> (\<forall>x \<in> set specs. set (ds_depends_on x) \<subseteq> spec_task_id ` set specs) \<and> \<not> cyclic (graph_of specs)"

lemma batch_graph:
  assumes "sound_batch specs"
  shows "sound_graph (graph_of specs)" and "nodes (graph_of specs) = spec_task_id ` set specs"
    and "x \<in> set specs \<Longrightarrow> predecessors (graph_of specs) (spec_task_id x) = ds_depends_on x"
    and "x \<in> set specs \<Longrightarrow> spec_by_id specs (spec_task_id x) = x"
proof -
  show 1: "nodes (graph_of specs) = spec_task_id ` set specs"
    by (force simp: nodes_def graph_of_def)
  have keys: "map fst (graph_of specs) = map spec_task_id specs" by (simp add: graph_of_def)
  show 2: "sound_graph (graph_of specs)"
    using assms unfolding sound_graph_def sound_batch_def 1 keys by (auto simp: graph_of_def)
  show "x \<in> set specs \<Longrightarrow> predecessors (graph_of specs) (spec_task_id x) = ds_depends_on x"
    using 2 by (rule sound_predecessors) (simp add: graph_of_def)
  have "distinct (map spec_task_id specs)" using assms by (simp add: sound_batch_def)
  then show "x \<in> set specs \<Longrightarrow> spec_by_id specs (spec_task_id x) = x"
    by (induction specs) (auto simp: spec_by_id_def)
qed

text \<open>One round: the specs that are ready.\<close>

lemma ready_specs:
  assumes b: "sound_batch specs" and p: "passed (graph_of specs) D D s"
  defines "ready \<equiv> map (spec_by_id specs) (so_ready s)"
  shows "spec_task_id ` set ready = set (so_ready s)" and "set ready \<subseteq> set specs"
    and "x \<in> set specs \<Longrightarrow> x \<in> set ready \<longleftrightarrow> spec_task_id x \<in> set (so_ready s)"
    and "inj_on spec_task_id (set ready)"
    and "x \<in> set specs \<Longrightarrow> spec_task_id x \<in> set (so_ready s) \<Longrightarrow> set (ds_depends_on x) \<subseteq> D"
    and "set (so_ready s) \<inter> D = {}"
proof -
  note g = batch_graph [OF b]
  have ids: "k \<in> set (so_ready s) \<Longrightarrow> \<exists>x \<in> set specs. k = spec_task_id x \<and> spec_by_id specs k = x" for k
    using p g(2) g(4) by (auto simp: passed_def)
  show "spec_task_id ` set ready = set (so_ready s)" and sub: "set ready \<subseteq> set specs"
    using ids by (force simp: ready_def)+
  show "x \<in> set specs \<Longrightarrow> x \<in> set ready \<longleftrightarrow> spec_task_id x \<in> set (so_ready s)"
    using ids g(4) by (force simp: ready_def)
  show "inj_on spec_task_id (set ready)"
    using sub g(4) by (metis inj_onI subsetD)
  show "x \<in> set specs \<Longrightarrow> spec_task_id x \<in> set (so_ready s) \<Longrightarrow> set (ds_depends_on x) \<subseteq> D"
    using p g(3) [of x] unmet_zero [of "graph_of specs" D "spec_task_id x"] by (auto simp: passed_def)
  show "set (so_ready s) \<inter> D = {}" using p by (auto simp: passed_def)
qed

text \<open>The results after the round.\<close>

definition round_results :: "delegation_spec list \<Rightarrow> task_results \<Rightarrow> agent_task_result list \<Rightarrow> task_results" where
  "round_results ready rs xs = put_results (filter (\<lambda>x. \<not> has_failed_dependency x rs) ready) xs
     (skip_specs (filter (\<lambda>x. has_failed_dependency x rs) ready) rs)"

lemma round_lookup:
  assumes xs: "length xs = length (filter (\<lambda>x. \<not> has_failed_dependency x rs) ready)"
    and inj: "inj_on spec_task_id (set ready)"
  shows "k \<notin> spec_task_id ` set ready \<Longrightarrow> map_of (round_results ready rs xs) k = map_of rs k"
    and "k \<in> spec_task_id ` set ready \<Longrightarrow> map_of (round_results ready rs xs) k \<noteq> None"
    and "x \<in> set ready \<Longrightarrow> dependency_failed x rs
      \<Longrightarrow> at_status (the (map_of (round_results ready rs xs) (spec_task_id x))) = AtRejected"
proof -
  let ?d = "filter (\<lambda>x. \<not> has_failed_dependency x rs) ready" and ?s = "filter (\<lambda>x. has_failed_dependency x rs) ready"
  show "k \<notin> spec_task_id ` set ready \<Longrightarrow> map_of (round_results ready rs xs) k = map_of rs k"
  proof -
    assume "k \<notin> spec_task_id ` set ready"
    then have "k \<notin> spec_task_id ` set ?d" "k \<notin> spec_task_id ` set ?s" by auto
    then show ?thesis unfolding round_results_def by (rule trans [OF put_results_lookup(2) skip_specs_lookup(1)])
  qed
  show "k \<in> spec_task_id ` set ready \<Longrightarrow> map_of (round_results ready rs xs) k \<noteq> None"
  proof -
    assume "k \<in> spec_task_id ` set ready"
    then have "k \<in> spec_task_id ` set ?d \<or> k \<in> spec_task_id ` set ?s" by auto
    then show ?thesis
      unfolding round_results_def put_results_lookup(1) [OF xs] using skip_specs_lookup(2) [of k ?s rs] by auto
  qed
  assume x: "x \<in> set ready" "dependency_failed x rs"
  then have "spec_task_id x \<notin> spec_task_id ` set ?d" using inj_onD [OF inj] by (auto simp: has_failed_dependency_iff)
  moreover have "spec_task_id x \<in> spec_task_id ` set ?s" using x by (simp add: has_failed_dependency_iff)
  then obtain r where "map_of (skip_specs ?s rs) (spec_task_id x) = Some r" "at_status r = AtRejected"
    using skip_specs_lookup(2) by blast
  ultimately show "at_status (the (map_of (round_results ready rs xs) (spec_task_id x))) = AtRejected"
    unfolding round_results_def by (simp only: put_results_lookup(2) not_False_eq_True option.sel)
qed

lemma round_answers:
  assumes b: "sound_batch specs" and p: "passed (graph_of specs) D D s" and a: "answered specs D rs sk"
  defines "ready \<equiv> map (spec_by_id specs) (so_ready s)"
  assumes xs: "length xs = length (filter (\<lambda>x. \<not> has_failed_dependency x rs) ready)"
  shows "answered specs (D \<union> set (so_ready s)) (round_results ready rs xs)
    (sk @ map spec_task_id (filter (\<lambda>x. has_failed_dependency x rs) ready))"
proof -
  let ?rs = "round_results ready rs xs"
  let ?skip = "map spec_task_id (filter (\<lambda>x. has_failed_dependency x rs) ready)"
  note r = ready_specs [OF b p, folded ready_def]
  note look = round_lookup [OF xs r(4), unfolded r(1)]
  have failed: "set (ds_depends_on x) \<subseteq> D \<Longrightarrow> dependency_failed x ?rs = dependency_failed x rs" for x
    using r(6) look(1) by (fastforce simp: dependency_failed_def)
  have new: "x \<in> set ready \<Longrightarrow> spec_task_id x \<in> set ?skip \<longleftrightarrow> dependency_failed x rs" for x
    using inj_onD [OF r(4)] by (auto simp: has_failed_dependency_iff)
  have skipped: "set ?skip \<subseteq> set (so_ready s)" using r(1) by auto
  have fresh: "k \<in> D \<Longrightarrow> k \<notin> set (so_ready s)" for k using r(6) by auto
  have old: "map_of rs k \<noteq> None \<longleftrightarrow> k \<in> D" "set sk \<subseteq> D"
    "x \<in> set specs \<Longrightarrow> spec_task_id x \<in> D \<Longrightarrow> set (ds_depends_on x) \<subseteq> D"
    "x \<in> set specs \<Longrightarrow> spec_task_id x \<in> D \<Longrightarrow> spec_task_id x \<in> set sk \<longleftrightarrow> dependency_failed x rs"
    "x \<in> set specs \<Longrightarrow> spec_task_id x \<in> D \<Longrightarrow> spec_task_id x \<in> set sk
      \<Longrightarrow> at_status (the (map_of rs (spec_task_id x))) = AtRejected" for k x
    using a unfolding answered_def by blast+
  show ?thesis
    unfolding answered_def
  proof (intro conjI ballI impI allI)
    show "map_of ?rs k \<noteq> None \<longleftrightarrow> k \<in> D \<union> set (so_ready s)" for k
    proof (cases "k \<in> set (so_ready s)")
      case True
      then show ?thesis using look(2) by blast
    next
      case False
      then show ?thesis unfolding look(1) [OF False] using old(1) by blast
    qed
    show "set (sk @ ?skip) \<subseteq> D \<union> set (so_ready s)" unfolding set_append using old(2) skipped by blast
    fix x assume x: "x \<in> set specs" "spec_task_id x \<in> D \<union> set (so_ready s)"
    have deps: "set (ds_depends_on x) \<subseteq> D" using x old(3) r(5) by blast
    then show "set (ds_depends_on x) \<subseteq> D \<union> set (so_ready s)" by blast
    show iff: "spec_task_id x \<in> set (sk @ ?skip) \<longleftrightarrow> dependency_failed x ?rs"
      unfolding failed [OF deps] set_append using x old(2,4) fresh skipped new r(3) [OF x(1)] by blast
    assume "spec_task_id x \<in> set (sk @ ?skip)"
    then have df: "dependency_failed x rs" unfolding iff failed [OF deps] .
    show "at_status (the (map_of ?rs (spec_task_id x))) = AtRejected"
    proof (cases "spec_task_id x \<in> D")
      case True
      then show ?thesis unfolding look(1) [OF fresh [OF True]] using old(4,5) x(1) df by blast
    next
      case False
      then have "x \<in> set ready" using x r(3) by blast
      then show ?thesis using df by (rule look(3))
    qed
  qed
qed

subsection \<open>The batch\<close>

lemma ready_bound:
  assumes b: "sound_batch specs" and p: "passed (graph_of specs) D D s"
  shows "length (filter P (map (spec_by_id specs) (so_ready s))) \<le> length specs"
proof -
  from distinct_card [OF passed_parts(4) [OF p]] have "length (so_ready s) = card (set (so_ready s))" by simp
  also have "\<dots> \<le> card (spec_task_id ` set specs)"
    using passed_parts(3) [OF p] batch_graph(2) [OF b] by (intro card_mono) simp_all
  also have "\<dots> \<le> length specs" using card_image_le [of "set specs"] card_length [of specs] by (meson finite_set le_trans)
  finally show ?thesis by (intro le_trans [OF length_filter_le]) simp
qed

lemma fewer_left:
  assumes "A \<noteq> {}" "A \<subseteq> N" "A \<inter> D = {}" "finite N"
  shows "card (N - (D \<union> A)) < card (N - D)"
proof -
  from assms(1) obtain a where "a \<in> A" by blast
  then have "a \<in> N - D" "a \<notin> N - (D \<union> A)" using assms(2,3) by auto
  then have "N - (D \<union> A) \<subset> N - D" by auto
  then show ?thesis using assms(4) by (intro psubset_card_mono) auto
qed

lemma loop_answers:
  assumes b: "sound_batch specs"
  shows "(\<And>k. covers (length specs) (schedules k)) \<Longrightarrow> passed (graph_of specs) D D s \<Longrightarrow> answered specs D rs sk
    \<Longrightarrow> card (nodes (graph_of specs) - D) \<le> fuel
    \<Longrightarrow> \<exists>rs' sk' st'. batch_loop show specs fuel schedules s rs sk st = Some (rs', sk', st')
        \<and> answered specs (nodes (graph_of specs)) rs' sk'"
proof (induction fuel arbitrary: schedules D s rs sk st)
  case 0
  have "finite (nodes (graph_of specs))" by (simp add: nodes_def)
  with 0 have "nodes (graph_of specs) \<subseteq> D" by simp
  then have "so_ready s = []" using passed_parts [OF 0(2)] by (cases "so_ready s") auto
  moreover have "nodes (graph_of specs) = D" using \<open>nodes (graph_of specs) \<subseteq> D\<close> passed_parts(1) [OF 0(2)] by (rule subset_antisym)
  ultimately show ?case using 0(3) by (simp add: batch_loop.simps)
next
  case (Suc n)
  let ?g = "graph_of specs" and ?ready = "map (spec_by_id specs) (so_ready s)"
  let ?go = "filter (\<lambda>x. \<not> has_failed_dependency x rs) ?ready"
  note g = batch_graph [OF b]
  show ?case
  proof (cases "so_ready s = []")
    case True
    from nothing_ready [OF g(1) Suc.prems(2) True] Suc.prems(3) True show ?thesis by (simp add: batch_loop.simps)
  next
    case False
    obtain xs st1 where w: "run_wave show (schedules 0) ?go st = Some (xs, st1)" and xs: "length xs = length ?go"
      using wave_ends [OF Suc.prems(1) ready_bound [OF b Suc.prems(2)]] by blast
    have "card (nodes ?g - (D \<union> set (so_ready s))) < card (nodes ?g - D)"
      using False passed_parts [OF Suc.prems(2)] by (intro fewer_left) (simp_all add: nodes_def)
    then have fuel: "card (nodes ?g - (D \<union> set (so_ready s))) \<le> n" using Suc.prems(4) by simp
    have later: "covers (length specs) (schedules (Suc k))" for k by (rule Suc.prems(1))
    let ?skip = "map spec_task_id (filter (\<lambda>x. has_failed_dependency x rs) ?ready)"
    have "\<exists>rs' sk' st'. batch_loop show specs n (\<lambda>k. schedules (Suc k)) (finish_nodes ?g (so_ready s) s)
        (round_results ?ready rs xs) (sk @ ?skip) st1 = Some (rs', sk', st') \<and> answered specs (nodes ?g) rs' sk'"
      by (rule Suc.IH [OF later passed_finish_nodes [OF g(1) Suc.prems(2)] round_answers [OF b Suc.prems(2,3) xs] fuel])
    then show ?thesis using False w by (subst batch_loop.simps) (simp add: Let_def round_results_def)
  qed
qed

lemma sorter_checks:
  "delegation_sorter specs = Inr s \<longleftrightarrow> sound_batch specs \<and> s = prepare_sorter (graph_of specs)"
  by (auto simp: delegation_sorter_def Let_def duplicate_values_Nil sound_batch_def filter_empty_conv)

lemma answered_skips:
  assumes b: "sound_batch specs" and a: "answered specs (spec_task_id ` set specs) rs sk" and i: "i < length specs"
  shows "spec_task_id (specs ! i) \<in> set sk \<longleftrightarrow> (\<exists>j < length specs. spec_task_id (specs ! j) \<in> set (ds_depends_on (specs ! i))
      \<and> at_status (the (map_of rs (spec_task_id (specs ! j)))) \<noteq> AtCompleted)"
proof -
  have x: "specs ! i \<in> set specs" using i by simp
  have "spec_task_id (specs ! i) \<in> set sk \<longleftrightarrow> dependency_failed (specs ! i) rs"
    using a x unfolding answered_def by blast
  also have "\<dots> \<longleftrightarrow> (\<exists>y \<in> set specs. spec_task_id y \<in> set (ds_depends_on (specs ! i))
      \<and> at_status (the (map_of rs (spec_task_id y))) \<noteq> AtCompleted)" (is "_ \<longleftrightarrow> ?r")
  proof
    assume "dependency_failed (specs ! i) rs"
    then obtain d r where d: "d \<in> set (ds_depends_on (specs ! i))" "map_of rs d = Some r" "at_status r \<noteq> AtCompleted"
      unfolding dependency_failed_def by blast
    then obtain y where "y \<in> set specs" "d = spec_task_id y" using b x unfolding sound_batch_def by blast
    with d show ?r by auto
  next
    assume ?r
    then obtain y where y: "y \<in> set specs" "spec_task_id y \<in> set (ds_depends_on (specs ! i))"
      "at_status (the (map_of rs (spec_task_id y))) \<noteq> AtCompleted" by blast
    moreover have "map_of rs (spec_task_id y) \<noteq> None" using a y(1) unfolding answered_def by blast
    ultimately show "dependency_failed (specs ! i) rs" unfolding dependency_failed_def by force
  qed
  also have "\<dots> \<longleftrightarrow> (\<exists>j < length specs. spec_task_id (specs ! j) \<in> set (ds_depends_on (specs ! i))
      \<and> at_status (the (map_of rs (spec_task_id (specs ! j)))) \<noteq> AtCompleted)"
    by (metis in_set_conv_nth)
  finally show ?thesis .
qed

lemma batch_status_iff: "batch_status_of rs = BatchCompleted \<longleftrightarrow> (\<forall>r \<in> set rs. at_status r = AtCompleted)"
proof -
  have "length (filter P xs) = length xs \<longleftrightarrow> (\<forall>x \<in> set xs. P x)" for P :: "agent_task_result \<Rightarrow> bool" and xs
    by (induction xs) (auto simp: le_imp_less_Suc less_imp_neq)
  then show ?thesis by (simp add: batch_status_of_def Let_def)
qed

text \<open>C12. A batch of delegations is answered in full or refused as a whole. When no task id is
  given twice, every dependency is in the batch and there is no cycle, then under every schedule that
  starts and ends each task of a wave, whatever the executors do and others do to the agents:
  \<open>delegate_many\<close> returns, with one result for each spec in the order of the specs; a task is skipped,
  and rejected, exactly when one of its dependencies did not complete; and the batch is COMPLETED exactly
  when all results are. Otherwise the batch is refused before anything is delegated.\<close>

theorem batch_answered:
  assumes schedules: "\<And>k. covers (length specs) (schedules k)"
  shows "if specs = [] \<or> \<not> sound_batch specs then \<exists>e. delegate_many show schedules specs st = Some (Inl e, st)
    else \<exists>b st'. delegate_many show schedules specs st = Some (Inr b, st') \<and> length (br_results b) = length specs
      \<and> (\<forall>i < length specs. (spec_task_id (specs ! i) \<in> set (br_skipped_task_ids b) \<longleftrightarrow>
            (\<exists>j < length specs. spec_task_id (specs ! j) \<in> set (ds_depends_on (specs ! i))
               \<and> at_status (br_results b ! j) \<noteq> AtCompleted))
          \<and> (spec_task_id (specs ! i) \<in> set (br_skipped_task_ids b) \<longrightarrow> at_status (br_results b ! i) = AtRejected))
      \<and> (br_status b = BatchCompleted \<longleftrightarrow> (\<forall>r \<in> set (br_results b). at_status r = AtCompleted))"
proof (cases "specs = [] \<or> \<not> sound_batch specs")
  case True
  then have "specs = [] \<or> isl (delegation_sorter specs)"
    using sorter_checks [of specs] by (cases "delegation_sorter specs") auto
  then show ?thesis using True by (auto simp: delegate_many_def isl_def)
next
  case False
  then have b: "sound_batch specs" by blast
  note g = batch_graph [OF b]
  have start: "answered specs {} [] []" by (simp add: answered_def)
  have fuel: "card (nodes (graph_of specs) - {}) \<le> length specs"
    unfolding g(2) using card_image_le [of "set specs" spec_task_id] card_length [of specs] by simp
  have "\<exists>rs sk st'. batch_loop show specs (length specs) schedules (prepare_sorter (graph_of specs)) [] [] st
      = Some (rs, sk, st') \<and> answered specs (nodes (graph_of specs)) rs sk"
    by (rule loop_answers [OF b schedules passed_prepare [OF g(1)] start fuel])
  then obtain rs sk st' where loop: "batch_loop show specs (length specs) schedules (prepare_sorter (graph_of specs)) [] [] st
      = Some (rs, sk, st')" and a: "answered specs (spec_task_id ` set specs) rs sk"
    unfolding g(2) by blast
  let ?res = "\<lambda>x. the (map_of rs (spec_task_id x))"
  have sorter: "delegation_sorter specs = Inr (prepare_sorter (graph_of specs))" using b by (simp add: sorter_checks)
  have all: "\<not> (\<exists>x \<in> set specs. map_of rs (spec_task_id x) = None)" using a unfolding answered_def by blast
  have some: "specs \<noteq> []" using False by blast
  let ?b = "\<lparr>br_status = batch_status_of (map ?res specs), br_results = map ?res specs, br_skipped_task_ids = sk,
    br_reason = batch_reason (batch_status_of (map ?res specs))\<rparr>"
  have sel: "br_results ?b = map ?res specs" "br_skipped_task_ids ?b = sk" "br_status ?b = batch_status_of (map ?res specs)"
    by simp_all
  show ?thesis
    unfolding if_not_P [OF False]
  proof (rule exI [of _ ?b], rule exI [of _ st'], unfold sel, intro conjI allI impI)
    show "delegate_many show schedules specs st = Some (Inr ?b, st')"
      unfolding delegate_many_def sorter sum.case loop option.case prod.case Let_def if_not_P [OF all] if_not_P [OF some] ..
    show "length (map ?res specs) = length specs" by simp
    show "batch_status_of (map ?res specs) = BatchCompleted \<longleftrightarrow> (\<forall>r \<in> set (map ?res specs). at_status r = AtCompleted)"
      by (rule batch_status_iff)
    fix i assume i: "i < length specs"
    show "spec_task_id (specs ! i) \<in> set sk \<longleftrightarrow> (\<exists>j < length specs. spec_task_id (specs ! j) \<in> set (ds_depends_on (specs ! i))
        \<and> at_status (map ?res specs ! j) \<noteq> AtCompleted)"
      unfolding answered_skips [OF b a i] by (metis nth_map)
    show "spec_task_id (specs ! i) \<in> set sk \<Longrightarrow> at_status (map ?res specs ! i) = AtRejected"
      using a i unfolding answered_def by simp
  qed
qed

text \<open>Two tasks, the second depends on the first, whose executor raises.\<close>

definition batch_specs :: "delegation_spec list" where
  "batch_specs = [\<lparr>ds_request = sample_contract, ds_agent_id = None, ds_depends_on = []\<rparr>,
     \<lparr>ds_request = sample_contract\<lparr>ar_task_id := ''t2''\<rparr>, ds_agent_id = None, ds_depends_on = [''t1'']\<rparr>]"

definition batch_schedule :: "nat \<Rightarrow> wave_event list" where
  "batch_schedule k = concat (map (\<lambda>i. [BeginTask i \<lparr>sp_id = ''d'' @ show_nat (10 * k + i), sp_create = stamp (40 * k + 4 * i),
       sp_start = stamp (40 * k + 4 * i + 1), sp_end = stamp (40 * k + 4 * i + 2), sp_fail = stamp (40 * k + 4 * i + 3)\<rparr>,
     EndTask i (ExecutorRaised ''RuntimeError'' ''broken'')]) [0..<2])"

definition batch_orchestrator :: orchestrator where
  "batch_orchestrator = new_orchestrator
     (projr (new_registry [\<lparr>ap_profile_name = ''p'', ap_profile_version = ''1'', ap_domains = [], ap_permissions = [],
          ap_capabilities = [], ap_description = []\<rparr>]
        [\<lparr>ai_agent_id = ''a1'', ai_profile_name = ''p'', ai_profile_version = ''1'', ai_status = InstReady,
          ai_session_id = None, ai_endpoint = None\<rparr>])) [''a1''] [] no_delegations"

theorem batch_answered_witness:
  "\<exists>b st'. delegate_many (\<lambda>_. []) batch_schedule batch_specs batch_orchestrator = Some (Inr b, st')
     \<and> length (br_results b) = 2 \<and> (''t2'' \<in> set (br_skipped_task_ids b) \<longleftrightarrow> at_status (br_results b ! 0) \<noteq> AtCompleted)"
proof -
  have "edges (graph_of batch_specs) = {(''t2'', ''t1'')}"
    by (simp add: edges_def graph_of_def batch_specs_def spec_task_id_def sample_contract_def)
  then have "\<not> cyclic (graph_of batch_specs)" unfolding cyclic_iff by (simp only: acyclic_insert) (simp add: acyclic_def)
  then have 1: "\<not> (batch_specs = [] \<or> \<not> sound_batch batch_specs)"
    unfolding sound_batch_def by (auto simp: batch_specs_def spec_task_id_def sample_contract_def)
  have 2: "covers (length batch_specs) (batch_schedule k)" for k
    by (simp add: covers_def batch_specs_def batch_schedule_def upt_conv_Cons)
  have 3: "length batch_specs = 2" "spec_task_id (batch_specs ! 1) = ''t2''" "spec_task_id (batch_specs ! 0) = ''t1''"
    "ds_depends_on (batch_specs ! 1) = [''t1'']"
    by (simp_all add: batch_specs_def spec_task_id_def sample_contract_def)
  have less2: "(\<exists>j < 2. P j) \<longleftrightarrow> P 0 \<or> P 1" for P :: "nat \<Rightarrow> bool" by (auto simp: less_2_cases_iff)
  from batch_answered [of batch_specs batch_schedule "\<lambda>_. []" batch_orchestrator, OF 2, unfolded if_not_P [OF 1]]
  obtain b st' where "delegate_many (\<lambda>_. []) batch_schedule batch_specs batch_orchestrator = Some (Inr b, st')"
    "length (br_results b) = 2"
    and all: "\<forall>i < 2. spec_task_id (batch_specs ! i) \<in> set (br_skipped_task_ids b) \<longleftrightarrow>
      (\<exists>j < 2. spec_task_id (batch_specs ! j) \<in> set (ds_depends_on (batch_specs ! i)) \<and> at_status (br_results b ! j) \<noteq> AtCompleted)"
    unfolding 3(1) by blast
  moreover have "''t2'' \<in> set (br_skipped_task_ids b) \<longleftrightarrow> at_status (br_results b ! 0) \<noteq> AtCompleted"
    using all [rule_format, of 1] unfolding less2 3 by simp
  ultimately show ?thesis by blast
qed

end
