(* ===== verification/World_Merge.thy ===== *)
theory World_Merge
  imports World_Query
begin

text \<open>
  \<open>world/cross_domain.py\<close>: the views that several domains have of one world are merged. Entities that
  some domain calls the same are identified (a union-find over the identity relations), the facts
  about one subject and claim are brought down to one, and the disagreements are reported and resolved.

  The loops of the union-find are partial functions: \<open>None\<close> is a loop that does not end or a missing
  key. Facts of different views are different objects; \<open>captured_at\<close> is left out.
\<close>

subsection \<open>Data\<close>

record domain_view =
  dv_domain :: string
  dv_snapshot :: world_snapshot

record domain_conflict =
  dc_subject :: string
  dc_claim :: string
  dc_values :: "json list"
  dc_domains :: "string list"

record fact_source =
  fs_subject :: string
  fs_claim :: string
  fs_domains :: "string list"

record identity_mapping =
  im_canonical_id :: string
  im_aliases :: "string list"
  im_evidence_ids :: "string list"

record fact_entry =
  fn_domain :: string
  fn_subject :: string
  fn_fact :: world_fact

datatype merge_strategy = ConfidenceThenRecency | RecencyThenConfidence

fun merge_strategy_value :: "merge_strategy \<Rightarrow> string" where
  "merge_strategy_value ConfidenceThenRecency = ''confidence_then_recency''"
| "merge_strategy_value RecencyThenConfidence = ''recency_then_confidence''"

datatype resolution_strategy = SelectedFact | RequireReview | PreferDomain

datatype resolution_status = ResResolved | ResReviewRequired

record world_resolution =
  wx_subject :: string
  wx_claim :: string
  wx_status :: resolution_status
  wx_selected_value :: json
  wx_selected_domains :: "string list"
  wx_selected_evidence_ids :: "string list"
  wx_reason :: string

record world_merge_policy =
  wp_identity_relations :: "string list"
  wp_fact_strategy :: merge_strategy
  wp_conflict_strategy :: resolution_strategy
  wp_domain_priority :: "string list"

record merged_world =
  mw_snapshot :: world_snapshot
  mw_conflicts :: "domain_conflict list"
  mw_fact_sources :: "fact_source list"
  mw_identity_mappings :: "identity_mapping list"
  mw_resolutions :: "world_resolution list"

definition world_policy :: "string list \<Rightarrow> world_merge_policy" where
  "world_policy names = \<lparr>wp_identity_relations = names, wp_fact_strategy = ConfidenceThenRecency,
     wp_conflict_strategy = SelectedFact, wp_domain_priority = []\<rparr>"

definition resolve_merge_policy :: "world_merge_policy option \<Rightarrow> string list \<Rightarrow> world_merge_policy" where
  "resolve_merge_policy p names = (case p of Some q \<Rightarrow> q | None \<Rightarrow> world_policy names)"

text \<open>\<open>defaultdict(list)\<close>: \<open>d[k].append(v)\<close>; \<open>tuple(sorted(set(xs)))\<close>.\<close>

definition append_at :: "'k \<Rightarrow> 'v \<Rightarrow> ('k, 'v list) dict \<Rightarrow> ('k, 'v list) dict" where
  "append_at k v d = AList.update k (dict_get d k [] @ [v]) d"

definition sorted_set :: "string list \<Rightarrow> string list" where
  "sorted_set xs = sort (remdups xs)"

subsection \<open>Identities\<close>

type_synonym parents = "(string, string) dict"

text \<open>\<open>while parent[current] != current: current = parent[current]\<close>\<close>

partial_function (option) find_root :: "parents \<Rightarrow> string \<Rightarrow> string option" where
  [code]: "find_root p x = (case map_of p x of None \<Rightarrow> None
     | Some y \<Rightarrow> if y = x then Some x else find_root p y)"

text \<open>The second loop points everything on the way to the root.\<close>

partial_function (option) compress :: "string \<Rightarrow> string \<Rightarrow> parents \<Rightarrow> parents option" where
  [code]: "compress r x p = (case map_of p x of None \<Rightarrow> None
     | Some y \<Rightarrow> if y = x then Some p else compress r y (AList.update x r p))"

definition find_entity :: "string \<Rightarrow> parents \<Rightarrow> (string \<times> parents) option" where
  "find_entity x p = (let p1 = setdefault x x p in
     case find_root p1 x of None \<Rightarrow> None
     | Some r \<Rightarrow> (case compress r x p1 of None \<Rightarrow> None | Some p2 \<Rightarrow> Some (r, p2)))"

definition union_entities :: "string \<Rightarrow> string \<Rightarrow> parents \<Rightarrow> parents option" where
  "union_entities l r p = (case find_entity l p of None \<Rightarrow> None
     | Some (a, p1) \<Rightarrow> (case find_entity r p1 of None \<Rightarrow> None
     | Some (b, p2) \<Rightarrow> if a = b then Some p2
         else let c = min a b; other = (if c = a then b else a) in Some (AList.update other c p2)))"

fun union_all :: "world_relation list \<Rightarrow> parents \<Rightarrow> parents option" where
  "union_all [] p = Some p"
| "union_all (r # rs) p = (case union_entities (wr_source r) (wr_target r) p of None \<Rightarrow> None
     | Some p1 \<Rightarrow> union_all rs p1)"

fun group_entities :: "string list \<Rightarrow> (string, string list) dict \<Rightarrow> parents
    \<Rightarrow> ((string, string list) dict \<times> parents) option" where
  "group_entities [] g p = Some (g, p)"
| "group_entities (x # xs) g p = (case find_entity x p of None \<Rightarrow> None
     | Some (c, p1) \<Rightarrow> group_entities xs (append_at c x g) p1)"

text \<open>The relations whose source is found under the canonical id.\<close>

fun relations_under :: "string \<Rightarrow> world_relation list \<Rightarrow> parents \<Rightarrow> (world_relation list \<times> parents) option" where
  "relations_under c [] p = Some ([], p)"
| "relations_under c (r # rs) p = (case find_entity (wr_source r) p of None \<Rightarrow> None
     | Some (a, p1) \<Rightarrow> (case relations_under c rs p1 of None \<Rightarrow> None
         | Some (rest, p2) \<Rightarrow> Some (if a = c then r # rest else rest, p2)))"

fun mappings_of :: "world_relation list \<Rightarrow> (string, string list) dict \<Rightarrow> parents
    \<Rightarrow> identity_mapping list option" where
  "mappings_of ids [] p = Some []"
| "mappings_of ids ((c, xs) # g) p =
     (let aliases = sorted_set xs in
      if length aliases < 2 then mappings_of ids g p
      else case relations_under c ids p of None \<Rightarrow> None
        | Some (rs, p1) \<Rightarrow> (case mappings_of ids g p1 of None \<Rightarrow> None
            | Some ms \<Rightarrow> Some (\<lparr>im_canonical_id = c, im_aliases = aliases,
                im_evidence_ids = dedupe (concat (map wr_evidence_ids rs))\<rparr> # ms)))"

definition build_identity_mappings :: "world_relation list \<Rightarrow> string list \<Rightarrow> identity_mapping list option" where
  "build_identity_mappings rels names =
     (let ids = filter (\<lambda>r. wr_relation r \<in> set names) rels in
      case union_all ids [] of None \<Rightarrow> None
      | Some p \<Rightarrow> (case group_entities (dict_keys p) [] p of None \<Rightarrow> None
          | Some (g, p1) \<Rightarrow> map_option (sort_key im_canonical_id) (mappings_of ids g p1)))"

definition all_relations :: "domain_view list \<Rightarrow> world_relation list" where
  "all_relations views = concat (map (\<lambda>v. wo_relations (dv_snapshot v)) views)"

definition canonical_id_mapping :: "identity_mapping list \<Rightarrow> (string, string) dict" where
  "canonical_id_mapping ms = fold (\<lambda>m d. fold (\<lambda>a. AList.update a (im_canonical_id m)) (im_aliases m) d) ms []"

definition canonical_entity_id :: "string \<Rightarrow> (string, string) dict \<Rightarrow> string" where
  "canonical_entity_id x canon = dict_get canon x x"

subsection \<open>Choosing a fact\<close>

definition choose_fact :: "world_fact \<Rightarrow> world_fact \<Rightarrow> merge_strategy \<Rightarrow> bool" where
  "choose_fact existing incoming s = (case s of
     RecencyThenConfidence \<Rightarrow> (fa_observed_at existing, fa_confidence existing) < (fa_observed_at incoming, fa_confidence incoming)
   | ConfidenceThenRecency \<Rightarrow> (fa_confidence existing, fa_observed_at existing) < (fa_confidence incoming, fa_observed_at incoming))"

text \<open>\<open>xs.index(x)\<close>\<close>

fun index_of :: "'a \<Rightarrow> 'a list \<Rightarrow> nat option" where
  "index_of x [] = None"
| "index_of x (y # ys) = (if x = y then Some 0 else map_option Suc (index_of x ys))"

definition domain_priority_rank :: "string \<Rightarrow> string list \<Rightarrow> nat" where
  "domain_priority_rank d ds = (case index_of d ds of None \<Rightarrow> 0 | Some i \<Rightarrow> length ds - i)"

definition fact_rank :: "world_fact \<Rightarrow> merge_strategy \<Rightarrow> rat \<times> rat" where
  "fact_rank f s = (case s of
     RecencyThenConfidence \<Rightarrow> (of_int (fa_observed_at f), fa_confidence f)
   | ConfidenceThenRecency \<Rightarrow> (fa_confidence f, of_int (fa_observed_at f)))"

definition prefers_domain :: "world_merge_policy \<Rightarrow> bool" where
  "prefers_domain pol \<longleftrightarrow> wp_conflict_strategy pol = PreferDomain \<and> wp_domain_priority pol \<noteq> []"

definition choose_fact_entry :: "fact_entry list \<Rightarrow> world_merge_policy \<Rightarrow> fact_entry" where
  "choose_fact_entry es pol =
     (if prefers_domain pol
      then max_by (\<lambda>e. (domain_priority_rank (fn_domain e) (wp_domain_priority pol),
             fact_rank (fn_fact e) (wp_fact_strategy pol))) (hd es) (tl es)
      else fold (\<lambda>e chosen. if choose_fact (fn_fact chosen) (fn_fact e) (wp_fact_strategy pol) then e else chosen)
             (tl es) (hd es))"

definition conflict_reason :: "world_merge_policy \<Rightarrow> fact_entry \<Rightarrow> string" where
  "conflict_reason pol chosen =
     (if wp_conflict_strategy pol = RequireReview
      then ''conflicting values require review; snapshot retains a deterministic ''
        @ merge_strategy_value (wp_fact_strategy pol) @ '' selection from '' @ fn_domain chosen
      else if prefers_domain pol
      then if fn_domain chosen \<in> set (wp_domain_priority pol)
        then ''selected by domain priority from '' @ fn_domain chosen
        else ''no preferred domain observed the claim; selected by fact strategy ''
          @ merge_strategy_value (wp_fact_strategy pol) @ '' from '' @ fn_domain chosen
      else ''selected by fact strategy '' @ merge_strategy_value (wp_fact_strategy pol) @ '' from '' @ fn_domain chosen)"

subsection \<open>Conflicts\<close>

text \<open>The facts of all views, in order, each under its canonical subject.\<close>

definition fact_entries :: "domain_view list \<Rightarrow> (string, string) dict \<Rightarrow> fact_entry list" where
  "fact_entries views canon = concat (map (\<lambda>v. map (\<lambda>f. \<lparr>fn_domain = dv_domain v,
     fn_subject = canonical_entity_id (fa_subject f) canon, fn_fact = f\<rparr>) (wo_facts (dv_snapshot v))) views)"

type_synonym entry_groups = "(string \<times> string, fact_entry list) dict"

definition entry_key :: "fact_entry \<Rightarrow> string \<times> string" where
  "entry_key e = (fn_subject e, fa_claim (fn_fact e))"

definition grouped_entries :: "fact_entry list \<Rightarrow> entry_groups" where
  "grouped_entries es = fold (\<lambda>e. append_at (entry_key e) e) es []"

definition distinct_values :: "(json \<Rightarrow> string) \<Rightarrow> fact_entry list \<Rightarrow> json list" where
  "distinct_values dumps es = dict_values
     (fold (\<lambda>e. setdefault (dumps (fa_value (fn_fact e))) (fa_value (fn_fact e))) es [])"

definition conflicts_of :: "(json \<Rightarrow> string) \<Rightarrow> entry_groups \<Rightarrow> domain_conflict list" where
  "conflicts_of dumps g = sort_key (\<lambda>c. (dc_subject c, dc_claim c))
     (map (\<lambda>((s, c), es). \<lparr>dc_subject = s, dc_claim = c, dc_values = distinct_values dumps es,
        dc_domains = sorted_set (map fn_domain es)\<rparr>)
       (filter (\<lambda>(_, es). 1 < length (distinct_values dumps es)) g))"

definition detect_conflicts :: "(json \<Rightarrow> string) \<Rightarrow> domain_view list \<Rightarrow> world_merge_policy option \<Rightarrow> string list
    \<Rightarrow> domain_conflict list option" where
  "detect_conflicts dumps views policy names =
     (case build_identity_mappings (all_relations views) (wp_identity_relations (resolve_merge_policy policy names)) of
        None \<Rightarrow> None
      | Some ms \<Rightarrow> Some (conflicts_of dumps (grouped_entries (fact_entries views (canonical_id_mapping ms)))))"

definition resolve_domain_conflict :: "(json \<Rightarrow> string) \<Rightarrow> entry_groups \<Rightarrow> world_merge_policy \<Rightarrow> domain_conflict
    \<Rightarrow> world_resolution" where
  "resolve_domain_conflict dumps g pol c =
     (case dict_get g (dc_subject c, dc_claim c) [] of
        [] \<Rightarrow> \<lparr>wx_subject = dc_subject c, wx_claim = dc_claim c, wx_status = ResReviewRequired,
          wx_selected_value = JNull, wx_selected_domains = dc_domains c, wx_selected_evidence_ids = [],
          wx_reason = ''no fact entries available for conflicting claim''\<rparr>
      | e # es \<Rightarrow>
          (let chosen = choose_fact_entry (e # es) pol;
               agreeing = filter (\<lambda>x. dumps (fa_value (fn_fact x)) = dumps (fa_value (fn_fact chosen))) (e # es)
           in \<lparr>wx_subject = dc_subject c, wx_claim = dc_claim c,
               wx_status = (if wp_conflict_strategy pol = RequireReview then ResReviewRequired else ResResolved),
               wx_selected_value = fa_value (fn_fact chosen),
               wx_selected_domains = sorted_set (map fn_domain agreeing),
               wx_selected_evidence_ids = dedupe (concat (map (\<lambda>x. fa_evidence_ids (fn_fact x)) agreeing)),
               wx_reason = conflict_reason pol chosen\<rparr>))"

subsection \<open>The merge\<close>

definition merged_fact :: "world_merge_policy \<Rightarrow> (string \<times> string) \<times> fact_entry list \<Rightarrow> world_fact" where
  "merged_fact pol = (\<lambda>((s, c), es). let chosen = fn_fact (choose_fact_entry es pol) in
     \<lparr>fa_subject = s, fa_claim = c, fa_value = fa_value chosen, fa_confidence = fa_confidence chosen,
      fa_observed_at = fa_observed_at chosen,
      fa_evidence_ids = dedupe (concat (map (\<lambda>e. fa_evidence_ids (fn_fact e)) es))\<rparr>)"

definition merge_entity_kind :: "string \<Rightarrow> string \<Rightarrow> string" where
  "merge_entity_kind existing incoming =
     (if existing = ''unknown'' \<and> incoming \<noteq> ''unknown'' then incoming
      else if existing = [] then incoming else existing)"

definition merge_entity :: "(string, string) dict \<Rightarrow> world_entity \<Rightarrow> (string, world_entity) dict \<Rightarrow> (string, world_entity) dict" where
  "merge_entity canon e d = (let k = canonical_entity_id (we_id e) canon in
     AList.update k (case map_of d k of
         None \<Rightarrow> \<lparr>we_id = k, we_kind = we_kind e, we_attributes = we_attributes e, we_evidence_ids = we_evidence_ids e\<rparr>
       | Some x \<Rightarrow> \<lparr>we_id = k, we_kind = merge_entity_kind (we_kind x) (we_kind e),
           we_attributes = merge_mappings [we_attributes x, we_attributes e],
           we_evidence_ids = dedupe (we_evidence_ids x @ we_evidence_ids e)\<rparr>) d)"

definition merge_relation :: "world_merge_policy \<Rightarrow> (string, string) dict \<Rightarrow> world_relation
    \<Rightarrow> (string \<times> string \<times> string, world_relation) dict \<Rightarrow> (string \<times> string \<times> string, world_relation) dict" where
  "merge_relation pol canon r d =
     (if wr_relation r \<in> set (wp_identity_relations pol) then d
      else let s = canonical_entity_id (wr_source r) canon; t = canonical_entity_id (wr_target r) canon in
        if s = t then d
        else AList.update (s, wr_relation r, t)
          \<lparr>wr_source = s, wr_relation = wr_relation r, wr_target = t,
           wr_evidence_ids = (case map_of d (s, wr_relation r, t) of None \<Rightarrow> wr_evidence_ids r
             | Some x \<Rightarrow> dedupe (wr_evidence_ids x @ wr_evidence_ids r))\<rparr> d)"

definition merge_world_views :: "(json \<Rightarrow> string) \<Rightarrow> domain_view list \<Rightarrow> string option \<Rightarrow> string list
    \<Rightarrow> world_merge_policy option \<Rightarrow> merged_world option" where
  "merge_world_views dumps views sid names policy =
     (let pol = resolve_merge_policy policy names in
      case build_identity_mappings (all_relations views) (wp_identity_relations pol) of None \<Rightarrow> None
      | Some ms \<Rightarrow> (case detect_conflicts dumps views (Some pol) [''same_as''] of None \<Rightarrow> None
      | Some conflicts \<Rightarrow>
          (let canon = canonical_id_mapping ms;
               g = grouped_entries (fact_entries views canon);
               entities = fold (merge_entity canon) (concat (map (\<lambda>v. wo_entities (dv_snapshot v)) views)) [];
               relations = fold (merge_relation pol canon) (all_relations views) []
           in Some \<lparr>mw_snapshot = \<lparr>wo_session_id = (case sid of None \<Rightarrow> ''cross-domain-merged'' | Some s \<Rightarrow> s),
                 wo_facts = sort_key (\<lambda>f. (fa_subject f, fa_claim f)) (map (merged_fact pol) g),
                 wo_fact_histories = [],
                 wo_entities = sort_key we_id (dict_values entities),
                 wo_relations = sort_key relation_key (dict_values relations)\<rparr>,
               mw_conflicts = conflicts,
               mw_fact_sources = map (\<lambda>((s, c), es). \<lparr>fs_subject = s, fs_claim = c,
                 fs_domains = sorted_set (map fn_domain es)\<rparr>) g,
               mw_identity_mappings = ms,
               mw_resolutions = map (resolve_domain_conflict dumps g pol) conflicts\<rparr>)))"

end
