(* ===== verification/Identity_Safety.thy ===== *)
theory Identity_Safety
  imports World_Merge
begin

text \<open>
  The identity mappings of \<open>build_entity_identity_mappings\<close> against their reference: two entities get
  the same canonical id exactly when a chain of identity relations connects them, and the canonical
  id is the least id of its class. The loops of the union-find end.
\<close>

subsection \<open>The forest of parents\<close>

text \<open>Every parent is an entity of the forest and not greater than its child.\<close>

definition forest :: "parents \<Rightarrow> bool" where
  "forest p \<longleftrightarrow> (\<forall>x y. map_of p x = Some y \<longrightarrow> y \<in> fst ` set p \<and> y \<le> x)"

text \<open>The representative; an entity outside the forest is its own.\<close>

definition rep :: "parents \<Rightarrow> string \<Rightarrow> string" where
  "rep p x = (case find_root p x of None \<Rightarrow> x | Some r \<Rightarrow> r)"

lemma not_in_forest: "x \<notin> fst ` set p \<Longrightarrow> find_root p x = None"
proof -
  assume "x \<notin> fst ` set p"
  then have "map_of p x = None" by (metis map_of_eq_None_iff)
  then show ?thesis by (subst find_root.simps) simp
qed

lemma forest_parent:
  assumes "forest p" and "x \<in> fst ` set p"
  obtains y where "map_of p x = Some y" "y \<in> fst ` set p" "y \<le> x"
proof -
  from assms(2) obtain y where y: "map_of p x = Some y" by (metis map_of_eq_None_iff not_None_eq)
  with assms(1) show ?thesis using that unfolding forest_def by blast
qed

text \<open>Induction along the parents.\<close>

lemma forest_induct [consumes 2, case_names root step]:
  assumes f: "forest p" and x: "x \<in> fst ` set p"
    and root: "\<And>x. x \<in> fst ` set p \<Longrightarrow> map_of p x = Some x \<Longrightarrow> P x"
    and step: "\<And>x y. x \<in> fst ` set p \<Longrightarrow> map_of p x = Some y \<Longrightarrow> y \<noteq> x \<Longrightarrow> y \<in> fst ` set p \<Longrightarrow> P y \<Longrightarrow> P x"
  shows "P x"
  using x
proof (induction "card {k \<in> fst ` set p. k < x}" arbitrary: x rule: less_induct)
  case less
  obtain y where y: "map_of p x = Some y" "y \<in> fst ` set p" "y \<le> x" by (rule forest_parent [OF f less.prems])
  show ?case
  proof (cases "y = x")
    case True
    with less.prems y(1) root show ?thesis by simp
  next
    case False
    with y(3) have "y < x" by simp
    then have "{k \<in> fst ` set p. k < y} \<subset> {k \<in> fst ` set p. k < x}" using y(2) by fastforce
    then have "card {k \<in> fst ` set p. k < y} < card {k \<in> fst ` set p. k < x}" by (intro psubset_card_mono) simp_all
    from less.hyps [OF this y(2)] show ?thesis using step [OF less.prems y(1) False y(2)] by simp
  qed
qed

lemma find_root_root: "map_of p x = Some x \<Longrightarrow> find_root p x = Some x"
  by (subst find_root.simps) simp

lemma find_root_step: "map_of p x = Some y \<Longrightarrow> y \<noteq> x \<Longrightarrow> find_root p x = find_root p y"
  by (subst find_root.simps) simp

lemma root_found:
  assumes "forest p" and "x \<in> fst ` set p"
  shows "find_root p x = Some (rep p x) \<and> map_of p (rep p x) = Some (rep p x) \<and> rep p x \<le> x"
  using assms
proof (induction rule: forest_induct)
  case (root x)
  then show ?case by (simp add: rep_def find_root_root)
next
  case (step x y)
  then have "find_root p x = Some (rep p y)" by (simp add: find_root_step)
  then have "rep p x = rep p y" by (simp add: rep_def)
  moreover have "y \<le> x" using assms(1) step.hyps(2) unfolding forest_def by blast
  ultimately show ?case using step by (auto simp: find_root_step intro: order_trans)
qed

lemma rep_step:
  assumes "forest p" and "map_of p x = Some y"
  shows "rep p x = rep p y"
proof (cases "y = x")
  case False
  have "y \<in> fst ` set p" using assms unfolding forest_def by blast
  with assms False have "find_root p x = Some (rep p y)" by (simp add: find_root_step root_found)
  then show ?thesis by (simp add: rep_def)
qed simp

lemma rep_root: "map_of p x = Some x \<Longrightarrow> rep p x = x"
  by (simp add: rep_def find_root_root)

lemma rep_outside: "x \<notin> fst ` set p \<Longrightarrow> rep p x = x"
  by (simp add: rep_def not_in_forest)

lemma rep_rep: "forest p \<Longrightarrow> rep p (rep p x) = rep p x"
  by (cases "x \<in> fst ` set p") (simp_all add: root_found rep_root rep_outside)

lemma rep_le: "forest p \<Longrightarrow> rep p x \<le> x"
  by (cases "x \<in> fst ` set p") (simp_all add: root_found rep_outside)

lemma rep_in: "forest p \<Longrightarrow> x \<in> fst ` set p \<Longrightarrow> rep p x \<in> fst ` set p"
  using root_found [of p x] by (metis map_of_eq_None_iff option.distinct(1))

subsection \<open>What the operations do to representatives\<close>

lemma keys_update: "fst ` set (AList.update k v p) = insert k (fst ` set p)"
  by (simp add: dom_update)

text \<open>A new parent of an entity: everything above it moves along.\<close>

lemma rep_update:
  assumes f: "forest p" and x: "x \<in> fst ` set p" and r: "r \<le> x" "map_of p r = Some r"
    and same: "rep p x = r \<or> rep p x = x"
  shows "forest (AList.update x r p)"
    and "rep (AList.update x r p) z = (if rep p z = rep p x then r else rep p z)"
proof -
  let ?q = "AList.update x r p"
  have R: "r \<in> fst ` set p" using r(2) by (metis map_of_eq_None_iff option.distinct(1))
  then show q: "forest ?q" using f r(1) x by (auto simp: forest_def keys_update dict_simps)
  have dom: "fst ` set ?q = fst ` set p" using x by (auto simp: keys_update)
  have top: "rep ?q r = r" using r(2) by (intro rep_root) (auto simp: dict_simps)
  show "rep ?q z = (if rep p z = rep p x then r else rep p z)"
  proof (cases "z \<in> fst ` set p")
    case True
    with f show ?thesis
    proof (induction rule: forest_induct)
      case (root z)
      have z: "rep p z = z" using root(2) by (rule rep_root)
      show ?case
      proof (cases "z = x")
        case True
        then show ?thesis using rep_step [OF q, of x r] top by (simp add: dict_simps)
      next
        case False
        then have "rep ?q z = z" using root(2) by (intro rep_root) (simp add: dict_simps)
        then show ?thesis using z same False by auto
      qed
    next
      case (step z y)
      have z: "rep p z = rep p y" using f step(2) by (rule rep_step)
      show ?case
      proof (cases "z = x")
        case True
        then show ?thesis using rep_step [OF q, of x r] top by (simp add: dict_simps)
      next
        case False
        then have "rep ?q z = rep ?q y" using step(2) by (intro rep_step q) (simp add: dict_simps)
        then show ?thesis using step.IH z by simp
      qed
    qed
  next
    case False
    then have "rep ?q z = z" "rep p z = z" "z \<noteq> rep p x"
      using dom x rep_in [OF f x] by (auto simp: rep_outside)
    then show ?thesis by simp
  qed
qed

text \<open>Path compression changes no representative.\<close>

lemma compressed:
  assumes f: "forest p" and x: "x \<in> fst ` set p"
  shows "\<exists>q. compress (rep p x) x p = Some q \<and> forest q \<and> rep q = rep p \<and> dict_keys q = dict_keys p"
proof -
  have "forest q \<and> rep q = rep p \<and> dict_keys q = dict_keys p \<and> (\<forall>k \<le> x. map_of q k = map_of p k)
    \<longrightarrow> (\<exists>q'. compress (rep p x) x q = Some q' \<and> forest q' \<and> rep q' = rep p \<and> dict_keys q' = dict_keys p)" for q
    using f x
  proof (induction arbitrary: q rule: forest_induct)
    case (root x)
    then show ?case by (auto simp: compress.simps)
  next
    case (step x y)
    have y: "y \<le> x" using f step.hyps(2) unfolding forest_def by blast
    have same: "rep p x = rep p y" using f step.hyps(2) by (rule rep_step)
    show ?case
    proof
      assume q: "forest q \<and> rep q = rep p \<and> dict_keys q = dict_keys p \<and> (\<forall>k \<le> x. map_of q k = map_of p k)"
      let ?r = "rep p x" and ?q = "AList.update x (rep p x) q"
      have keys: "fst ` set q = fst ` set p" using q by (metis list.set_map)
      have x1: "map_of q x = Some y" using q step.hyps(2) by simp
      have x2: "x \<in> fst ` set q" unfolding keys by (rule step.hyps(1))
      note x = x1 x2
      have r: "?r \<le> x" "map_of p ?r = Some ?r" using root_found [OF f step.hyps(1)] by simp_all
      with q have r': "map_of q ?r = Some ?r" by simp
      note up = rep_update [OF conjunct1 [OF q] x(2) r(1) r']
      have "forest ?q" "rep ?q = rep p" using up q by (auto simp: fun_eq_iff)
      moreover have "dict_keys ?q = dict_keys p" using q step.hyps(1) by (simp add: update_keys)
      moreover have "\<forall>k \<le> y. map_of ?q k = map_of p k" using q y step.hyps(3) by (auto simp: dict_simps)
      ultimately show "\<exists>q'. compress ?r x q = Some q' \<and> forest q' \<and> rep q' = rep p \<and> dict_keys q' = dict_keys p"
        using step.IH [of ?q] x(1) step.hyps(3) same by (subst compress.simps) simp
    qed
  qed
  from this [of p] f show ?thesis by simp
qed

text \<open>\<open>find\<close> and \<open>union\<close>.\<close>

lemma found:
  assumes f: "forest p"
  shows "\<exists>q. find_entity x p = Some (rep p x, q) \<and> forest q \<and> rep q = rep p
    \<and> dict_keys q = dict_keys (setdefault x x p)"
proof -
  let ?p = "setdefault x x p"
  have 1: "forest ?p \<and> rep ?p = rep p \<and> x \<in> fst ` set ?p"
  proof (cases "x \<in> fst ` set p")
    case True
    then have "?p = p" by (metis map_of_eq_None_iff setdefault_def)
    then show ?thesis using f True by simp
  next
    case False
    then have p: "?p = AList.update x x p" by (metis map_of_eq_None_iff setdefault_def)
    have q: "forest ?p" using f False unfolding p by (auto simp: forest_def keys_update dict_simps)
    have "rep ?p z = rep p z" for z
    proof (cases "z \<in> fst ` set p")
      case True
      with f show ?thesis
      proof (induction rule: forest_induct)
        case (root z)
        then have "map_of ?p z = Some z" using False unfolding p by (auto simp: dict_simps)
        then show ?case using root(2) by (simp add: rep_root)
      next
        case (step z y)
        then have "map_of ?p z = Some y" using False unfolding p by (auto simp: dict_simps)
        then show ?case using rep_step [OF q] rep_step [OF f step(2)] step.IH by simp
      qed
    next
      case no: False
      show ?thesis
      proof (cases "z = x")
        case True
        then have "map_of ?p z = Some z" unfolding p by (simp add: dict_simps)
        then show ?thesis using no by (simp add: rep_root rep_outside)
      next
        case False
        then have "z \<notin> fst ` set ?p" using no unfolding p keys_update by simp
        then show ?thesis using no by (simp add: rep_outside)
      qed
    qed
    then show ?thesis using q by (auto simp: p keys_update fun_eq_iff)
  qed
  then have "find_root ?p x = Some (rep p x)" using root_found [of ?p x] by simp
  then show ?thesis using 1 compressed [of ?p x] by (auto simp: find_entity_def Let_def)
qed

definition joined :: "(string \<Rightarrow> string) \<Rightarrow> string \<Rightarrow> string \<Rightarrow> string \<Rightarrow> string" where
  "joined f l r z = (if f z = f l \<or> f z = f r then min (f l) (f r) else f z)"

lemma setdefault_keys: "fst ` set (setdefault k v p) = insert k (fst ` set p)"
proof (cases "map_of p k = None")
  case False
  then have "k \<in> fst ` set p" by (metis map_of_eq_None_iff)
  with False show ?thesis by (auto simp: setdefault_def)
qed (simp add: setdefault_def keys_update)

lemma united:
  assumes f: "forest p"
  shows "\<exists>q. union_entities l r p = Some q \<and> forest q \<and> rep q = joined (rep p) l r
    \<and> fst ` set q = fst ` set p \<union> {l, r}"
proof -
  obtain p1 where 1: "find_entity l p = Some (rep p l, p1)" "forest p1" "rep p1 = rep p" "dict_keys p1 = dict_keys (setdefault l l p)"
    using found [OF f] by blast
  obtain p2 where 2: "find_entity r p1 = Some (rep p r, p2)" "forest p2" "rep p2 = rep p" "dict_keys p2 = dict_keys (setdefault r r p1)"
    using found [OF 1(2), of r] 1(3) by auto
  have "fst ` set p1 = insert l (fst ` set p)" using 1(4) setdefault_keys by (metis list.set_map)
  then have keys: "fst ` set p2 = fst ` set p \<union> {l, r}" using 2(4) setdefault_keys [of r r p1] by (metis insert_is_Un list.set_map sup_assoc sup_commute)
  let ?a = "rep p l" and ?b = "rep p r"
  show ?thesis
  proof (cases "?a = ?b")
    case True
    then show ?thesis using 1(1) 2 keys by (auto simp: union_entities_def joined_def fun_eq_iff)
  next
    case False
    let ?c = "min ?a ?b" and ?o = "if min ?a ?b = ?a then ?b else ?a"
    have roots: "map_of p2 (rep p2 z) = Some (rep p2 z)" if "z \<in> fst ` set p2" for z using root_found [OF 2(2) that] by simp
    have ab: "map_of p2 ?a = Some ?a" "map_of p2 ?b = Some ?b" using roots [of l] roots [of r] keys 2(3) by auto
    have o: "?o \<in> fst ` set p2" using ab by (auto simp: map_of_eq_Some_iff) (metis map_of_eq_None_iff option.distinct(1))+
    have c: "?c \<le> ?o" "map_of p2 ?c = Some ?c" "rep p2 ?o = ?o" using ab by (auto simp: min_def rep_root)
    note up = rep_update [OF 2(2) o c(1,2)]
    have "rep (AList.update ?o ?c p2) = joined (rep p) l r"
      using up(2) c(3) False 2(3) by (auto simp: fun_eq_iff joined_def min_def)
    moreover have "forest (AList.update ?o ?c p2)" using up(1) c(3) by simp
    moreover have "fst ` set (AList.update ?o ?c p2) = fst ` set p \<union> {l, r}" unfolding keys_update insert_absorb [OF o] by (rule keys)
    ultimately show ?thesis using 1(1) 2(1) False by (simp add: union_entities_def Let_def)
  qed
qed

subsection \<open>The classes\<close>

definition linked :: "world_relation list \<Rightarrow> (string \<times> string) set" where
  "linked rs = (let E = set (map (\<lambda>r. (wr_source r, wr_target r)) rs) in (E \<union> E\<inverse>)\<^sup>*)"

lemma joined_classes:
  assumes f: "\<And>a b. f a = f b \<longleftrightarrow> (a, b) \<in> (E \<union> E\<inverse>)\<^sup>*"
  shows "joined f l r a = joined f l r b \<longleftrightarrow> (a, b) \<in> (insert (l, r) E \<union> (insert (l, r) E)\<inverse>)\<^sup>*" (is "_ \<longleftrightarrow> _ \<in> ?C")
proof
  have sub: "(x, y) \<in> (E \<union> E\<inverse>)\<^sup>* \<Longrightarrow> (x, y) \<in> ?C" for x y
    by (erule rtrancl_mono [THEN subsetD, rotated]) blast
  have link: "(l, r) \<in> ?C" "(r, l) \<in> ?C" by (auto intro: r_into_rtrancl)
  assume "joined f l r a = joined f l r b"
  then have "f a = f b \<or> f a = f l \<and> f b = f r \<or> f a = f r \<and> f b = f l"
    by (auto simp: joined_def min_def split: if_splits)
  then consider "(a, b) \<in> ?C" | "(a, l) \<in> ?C" "(r, b) \<in> ?C" | "(a, r) \<in> ?C" "(l, b) \<in> ?C"
    using f sub by metis
  then show "(a, b) \<in> ?C" using link by cases (blast intro: rtrancl_trans)+
next
  assume "(a, b) \<in> ?C"
  then show "joined f l r a = joined f l r b"
  proof (induction rule: rtrancl_induct)
    case (step b c)
    have "f b = f c \<or> {b, c} = {l, r}" using step.hyps(2) f [of b c] by auto
    then have "joined f l r b = joined f l r c" by (auto simp: joined_def doubleton_eq_iff)
    then show ?case using step.IH by simp
  qed simp
qed

lemma united_all:
  assumes "forest p" and "\<And>a b. rep p a = rep p b \<longleftrightarrow> (a, b) \<in> (E \<union> E\<inverse>)\<^sup>*"
  shows "\<exists>q. union_all rs p = Some q \<and> forest q \<and> (\<forall>a b. rep q a = rep q b \<longleftrightarrow>
      (a, b) \<in> ((set (map (\<lambda>r. (wr_source r, wr_target r)) rs) \<union> E) \<union> (set (map (\<lambda>r. (wr_source r, wr_target r)) rs) \<union> E)\<inverse>)\<^sup>*)"
  using assms
proof (induction rs arbitrary: p E)
  case (Cons r rs)
  let ?l = "wr_source r" and ?t = "wr_target r"
  obtain q where q: "union_entities ?l ?t p = Some q" "forest q" "rep q = joined (rep p) ?l ?t"
    using united [OF Cons.prems(1)] by blast
  have "rep q a = rep q b \<longleftrightarrow> (a, b) \<in> (insert (?l, ?t) E \<union> (insert (?l, ?t) E)\<inverse>)\<^sup>*" for a b
    unfolding q(3) by (rule joined_classes [OF Cons.prems(2)])
  from Cons.IH [OF q(2) this] q(1) show ?case by simp
qed simp

lemma linked_all:
  "\<exists>p. union_all rs [] = Some p \<and> forest p \<and> (\<forall>a b. rep p a = rep p b \<longleftrightarrow> (a, b) \<in> linked rs)"
proof -
  have "forest []" by (simp add: forest_def)
  moreover have "rep [] a = rep [] b \<longleftrightarrow> (a, b) \<in> ({} \<union> {}\<inverse>)\<^sup>*" for a b by (simp add: rep_outside)
  ultimately show ?thesis using united_all [of "[]" "{}" rs] by (simp add: linked_def Let_def)
qed

subsection \<open>The mappings\<close>

lemma find_known:
  assumes "forest p" and "x \<in> fst ` set p"
  shows "\<exists>q. find_entity x p = Some (rep p x, q) \<and> forest q \<and> rep q = rep p \<and> fst ` set q = fst ` set p"
proof -
  have "fst ` set (setdefault x x p) = fst ` set p" unfolding setdefault_keys using assms(2) by (rule insert_absorb)
  then show ?thesis using found [OF assms(1), of x] by (metis list.set_map)
qed

lemma grouped_classes:
  assumes "forest p" and "set xs \<subseteq> fst ` set p"
  shows "\<exists>h q. group_entities xs g p = Some (h, q) \<and> forest q \<and> rep q = rep p
    \<and> (\<forall>c. dict_get h c [] = dict_get g c [] @ filter (\<lambda>x. rep p x = c) xs)
    \<and> fst ` set h = fst ` set g \<union> rep p ` set xs \<and> (dict_wf g \<longrightarrow> dict_wf h)"
  using assms
proof (induction xs arbitrary: g p)
  case (Cons x xs)
  obtain q where q: "find_entity x p = Some (rep p x, q)" "forest q" "rep q = rep p" "fst ` set q = fst ` set p"
    using find_known [OF Cons.prems(1), of x] Cons.prems(2) by auto
  have sub: "set xs \<subseteq> fst ` set q" using Cons.prems(2) q(4) by simp
  let ?g = "append_at (rep p x) x g"
  obtain h q' where h: "group_entities xs ?g q = Some (h, q')" "forest q'" "rep q' = rep p"
    "\<forall>c. dict_get h c [] = dict_get ?g c [] @ filter (\<lambda>x. rep p x = c) xs"
    "fst ` set h = fst ` set ?g \<union> rep p ` set xs" "dict_wf ?g \<longrightarrow> dict_wf h"
    using Cons.IH [OF q(2) sub, of ?g] q(3) by auto
  have "\<forall>c. dict_get h c [] = dict_get g c [] @ filter (\<lambda>x. rep p x = c) (x # xs)"
    using h(4) by (auto simp: append_at_def dict_simps)
  moreover have "fst ` set h = fst ` set g \<union> rep p ` set (x # xs)"
    unfolding h(5) by (simp add: append_at_def keys_update)
  moreover have "dict_wf g \<longrightarrow> dict_wf h" using h(6) by (simp add: append_at_def)
  ultimately show ?case using h(1-3) q(1) by simp
qed simp

lemma under_class:
  assumes "forest p"
  shows "\<exists>q. relations_under c rs p = Some (filter (\<lambda>r. rep p (wr_source r) = c) rs, q) \<and> forest q \<and> rep q = rep p"
  using assms
proof (induction rs arbitrary: p)
  case (Cons r rs)
  obtain q where q: "find_entity (wr_source r) p = Some (rep p (wr_source r), q)" "forest q" "rep q = rep p"
    using found [OF Cons.prems] by blast
  from Cons.IH [OF q(2)] q show ?case by auto
qed simp

definition class_mapping :: "world_relation list \<Rightarrow> parents \<Rightarrow> string \<times> string list \<Rightarrow> identity_mapping" where
  "class_mapping ids p = (\<lambda>(c, xs). \<lparr>im_canonical_id = c, im_aliases = sorted_set xs,
     im_evidence_ids = dedupe (concat (map wr_evidence_ids (filter (\<lambda>r. rep p (wr_source r) = c) ids)))\<rparr>)"

lemma mapped_classes:
  assumes "forest p"
  shows "mappings_of ids g p = Some (map (class_mapping ids p) (filter (\<lambda>(c, xs). 2 \<le> length (sorted_set xs)) g))"
  using assms
proof (induction g arbitrary: p)
  case (Cons a g)
  obtain c xs where a: "a = (c, xs)" by (cases a)
  obtain q where q: "relations_under c ids p = Some (filter (\<lambda>r. rep p (wr_source r) = c) ids, q)" "forest q" "rep q = rep p"
    using under_class [OF Cons.prems] by blast
  have "class_mapping ids q = class_mapping ids p" using q(3) by (simp add: class_mapping_def)
  then show ?case using Cons.IH [OF q(2)] Cons.IH [OF Cons.prems] q(1) by (simp add: a Let_def class_mapping_def)
qed simp

text \<open>What was built: the representatives of a forest, and one mapping for each class of two or more.\<close>

lemma sorted_set_set [simp]: "set (sorted_set xs) = set xs"
  by (simp add: sorted_set_def)

lemma sorted_set_length: "2 \<le> length (sorted_set xs) \<longleftrightarrow> (\<exists>a \<in> set xs. \<exists>b \<in> set xs. a \<noteq> b)"
proof -
  have "length (sorted_set xs) = card (set xs)" by (simp add: sorted_set_def length_remdups_card_conv)
  moreover have "2 \<le> card (set xs) \<longleftrightarrow> (\<exists>a \<in> set xs. \<exists>b \<in> set xs. a \<noteq> b)"
    using card_le_Suc0_iff_eq [of "set xs"] by (auto simp: not_le [symmetric] numeral_2_eq_2 simp flip: not_less_eq_eq)
  ultimately show ?thesis by simp
qed

lemma built_mappings:
  "\<exists>p ms. build_identity_mappings rels names = Some ms \<and> forest p
    \<and> (\<forall>a b. rep p a = rep p b \<longleftrightarrow> (a, b) \<in> linked (filter (\<lambda>r. wr_relation r \<in> set names) rels))
    \<and> (\<forall>m \<in> set ms. im_canonical_id m \<in> rep p ` fst ` set p
        \<and> set (im_aliases m) = {x \<in> fst ` set p. rep p x = im_canonical_id m})
    \<and> (\<forall>x \<in> fst ` set p. rep p x \<noteq> x \<longrightarrow> (\<exists>m \<in> set ms. im_canonical_id m = rep p x))"
proof -
  let ?ids = "filter (\<lambda>r. wr_relation r \<in> set names) rels"
  obtain p where p: "union_all ?ids [] = Some p" "forest p" "\<forall>a b. rep p a = rep p b \<longleftrightarrow> (a, b) \<in> linked ?ids"
    using linked_all by blast
  obtain h q where h: "group_entities (dict_keys p) [] p = Some (h, q)" "forest q" "rep q = rep p"
    "\<forall>c. dict_get h c [] = dict_get [] c [] @ filter (\<lambda>x. rep p x = c) (dict_keys p)"
    "fst ` set h = rep p ` set (dict_keys p)" "dict_wf h"
    using grouped_classes [OF p(2), of "dict_keys p" "[]"] by auto
  have class_eq: "(c, xs) \<in> set h \<Longrightarrow> xs = filter (\<lambda>x. rep p x = c) (dict_keys p)" for c xs
    using h(4,6) by (metis append_Nil dict_get_def in_set_dict list.distinct(1) map_of.simps(1) option.simps(4,5))
  let ?big = "filter (\<lambda>(c, xs). 2 \<le> length (sorted_set xs)) h"
  let ?ms = "sort_key im_canonical_id (map (class_mapping ?ids q) ?big)"
  have "build_identity_mappings rels names = Some ?ms"
    using p(1) h(1) mapped_classes [OF h(2)] by (simp add: build_identity_mappings_def Let_def)
  moreover have "im_canonical_id m \<in> rep p ` fst ` set p \<and> set (im_aliases m) = {x \<in> fst ` set p. rep p x = im_canonical_id m}"
    if m: "m \<in> set ?ms" for m
  proof -
    from m obtain c xs where c: "(c, xs) \<in> set h" "m = class_mapping ?ids q (c, xs)" by auto
    then have "c \<in> fst ` set h" by force
    then have "c \<in> rep p ` fst ` set p" unfolding h(5) by simp
    then show ?thesis using c class_eq [OF c(1)] by (auto simp: class_mapping_def)
  qed
  moreover have "\<exists>m \<in> set ?ms. im_canonical_id m = rep p x" if x: "x \<in> fst ` set p" "rep p x \<noteq> x" for x
  proof -
    have "rep p x \<in> fst ` set h" unfolding h(5) using x(1) by simp
    then obtain xs where xs: "(rep p x, xs) \<in> set h" by force
    have "x \<in> set xs" "rep p x \<in> set xs"
      unfolding class_eq [OF xs] using x(1) rep_in [OF p(2) x(1)] rep_rep [OF p(2)] by auto
    then have "2 \<le> length (sorted_set xs)" using x(2) by (auto simp: sorted_set_length)
    then have "class_mapping ?ids q (rep p x, xs) \<in> set ?ms" using xs by force
    then show ?thesis by (rule bexI [rotated]) (simp add: class_mapping_def)
  qed
  ultimately show ?thesis using p(2,3) by blast
qed

subsection \<open>Canonical ids\<close>

lemma canonical_lookup:
  assumes "\<And>m. m \<in> set ms \<Longrightarrow> x \<in> set (im_aliases m) \<Longrightarrow> im_canonical_id m = c"
  shows "map_of (canonical_id_mapping ms) x = (if \<exists>m \<in> set ms. x \<in> set (im_aliases m) then Some c else None)"
proof -
  have inner: "map_of (fold (\<lambda>a. AList.update a v) xs d) x = (if x \<in> set xs then Some v else map_of d x)" for v :: string and xs d
    by (induction xs arbitrary: d) (auto simp: dict_simps)
  have "map_of (fold (\<lambda>m d. fold (\<lambda>a. AList.update a (im_canonical_id m)) (im_aliases m) d) ns d) x
      = (if \<exists>m \<in> set ns. x \<in> set (im_aliases m) then Some c else map_of d x)" if "set ns \<subseteq> set ms" for ns d
    using that
  proof (induction ns arbitrary: d)
    case (Cons m ns)
    then show ?case using assms [of m] by (auto simp: inner)
  qed simp
  then show ?thesis by (simp add: canonical_id_mapping_def)
qed

lemma canonical_is_rep:
  assumes f: "forest p"
    and ms: "\<forall>m \<in> set ms. im_canonical_id m \<in> rep p ` fst ` set p
        \<and> set (im_aliases m) = {x \<in> fst ` set p. rep p x = im_canonical_id m}"
      "\<forall>x \<in> fst ` set p. rep p x \<noteq> x \<longrightarrow> (\<exists>m \<in> set ms. im_canonical_id m = rep p x)"
  shows "canonical_entity_id x (canonical_id_mapping ms) = rep p x"
proof -
  have look: "map_of (canonical_id_mapping ms) x = (if \<exists>m \<in> set ms. x \<in> set (im_aliases m) then Some (rep p x) else None)"
    using ms(1) by (intro canonical_lookup) auto
  show ?thesis
  proof (cases "\<exists>m \<in> set ms. x \<in> set (im_aliases m)")
    case True
    then show ?thesis using look by (simp add: canonical_entity_id_def dict_get_def)
  next
    case False
    have "rep p x = x"
    proof (rule ccontr)
      assume ne: "rep p x \<noteq> x"
      then have x: "x \<in> fst ` set p" using rep_outside by blast
      with ms(2) ne obtain m where "m \<in> set ms" "im_canonical_id m = rep p x" by blast
      with ms(1) x False show False by auto
    qed
    then show ?thesis using False look by (simp add: canonical_entity_id_def dict_get_def)
  qed
qed

text \<open>C32. The identity mappings are exact. Whatever relations the domains report, the loops of
  the union-find end; two entities get the same canonical id exactly when a chain of identity relations, in
  either direction, connects them; the canonical id is one of its class and its least id; and each
  mapping lists its whole class.\<close>

theorem identity_mappings_exact:
  "case build_identity_mappings rels names of None \<Rightarrow> False
   | Some ms \<Rightarrow> (let canon = (\<lambda>x. canonical_entity_id x (canonical_id_mapping ms));
         same = linked (filter (\<lambda>r. wr_relation r \<in> set names) rels) in
       (\<forall>a b. canon a = canon b \<longleftrightarrow> (a, b) \<in> same) \<and> (\<forall>a. (a, canon a) \<in> same \<and> canon a \<le> a)
       \<and> list_all (\<lambda>m. set (im_aliases m) = {a. (im_canonical_id m, a) \<in> same} \<and> canon (im_canonical_id m) = im_canonical_id m) ms)"
proof -
  obtain p ms where b: "build_identity_mappings rels names = Some ms" and f: "forest p"
    and same: "\<forall>a b. rep p a = rep p b \<longleftrightarrow> (a, b) \<in> linked (filter (\<lambda>r. wr_relation r \<in> set names) rels)"
    and ms: "\<forall>m \<in> set ms. im_canonical_id m \<in> rep p ` fst ` set p
        \<and> set (im_aliases m) = {x \<in> fst ` set p. rep p x = im_canonical_id m}"
      "\<forall>x \<in> fst ` set p. rep p x \<noteq> x \<longrightarrow> (\<exists>m \<in> set ms. im_canonical_id m = rep p x)"
    using built_mappings [of rels names] by blast
  have canon: "canonical_entity_id x (canonical_id_mapping ms) = rep p x" for x by (rule canonical_is_rep [OF f ms])
  have class_of: "set (im_aliases m) = {a. rep p (im_canonical_id m) = rep p a} \<and> rep p (im_canonical_id m) = im_canonical_id m"
    if m: "m \<in> set ms" for m
  proof -
    from ms(1) m obtain y where y: "y \<in> fst ` set p" "im_canonical_id m = rep p y" by blast
    then have top: "rep p (im_canonical_id m) = im_canonical_id m" using rep_rep [OF f] by simp
    have "a \<in> fst ` set p" if "rep p a = rep p y" for a
      using that rep_outside [of a p] rep_in [OF f y(1)] by (cases "a \<in> fst ` set p") auto
    then show ?thesis using ms(1) m top y(2) by auto
  qed
  have "list_all (\<lambda>m. set (im_aliases m) = {a. rep p (im_canonical_id m) = rep p a} \<and> rep p (im_canonical_id m) = im_canonical_id m) ms"
    unfolding list_all_iff using class_of by blast
  then show ?thesis
    unfolding b option.case Let_def canon same [rule_format, symmetric] using rep_rep [OF f] rep_le [OF f] by simp
qed

end
