(* ===== verification/World_Merge_Safety.thy ===== *)
theory World_Merge_Safety
  imports Identity_Safety
begin

text \<open>
  What the merge of the domains' views guarantees: one fact for each subject and claim, the best by
  the policy; every disagreement is reported; and the resolution of a conflict names the value
  that the merged snapshot holds.
\<close>

subsection \<open>The entries of one subject and claim\<close>

lemma grouped_lookup:
  "dict_wf (grouped_entries es) \<and> fst ` set (grouped_entries es) = entry_key ` set es
    \<and> (\<forall>k. dict_get (grouped_entries es) k [] = filter (\<lambda>e. entry_key e = k) es)"
proof -
  have "(dict_wf g \<longrightarrow> dict_wf (fold (\<lambda>e. append_at (entry_key e) e) es g))
      \<and> fst ` set (fold (\<lambda>e. append_at (entry_key e) e) es g) = fst ` set g \<union> entry_key ` set es
      \<and> (\<forall>k. dict_get (fold (\<lambda>e. append_at (entry_key e) e) es g) k [] = dict_get g k [] @ filter (\<lambda>e. entry_key e = k) es)" for g
  proof (induction es arbitrary: g)
    case (Cons e es)
    from Cons.IH [of "append_at (entry_key e) e g"] show ?case
      by (auto simp: append_at_def dict_simps dom_update)
  qed simp
  from this [of "[]"] show ?thesis by (simp add: grouped_entries_def dict_get_def)
qed

lemma grouped_member:
  "(k, xs) \<in> set (grouped_entries es) \<longleftrightarrow> k \<in> entry_key ` set es \<and> xs = filter (\<lambda>e. entry_key e = k) es"
proof -
  have wf: "dict_wf (grouped_entries es)" and keys: "fst ` set (grouped_entries es) = entry_key ` set es"
    and get: "dict_get (grouped_entries es) k [] = filter (\<lambda>e. entry_key e = k) es"
    using grouped_lookup [of es] by blast+
  have "(k, xs) \<in> set (grouped_entries es) \<longleftrightarrow> map_of (grouped_entries es) k = Some xs" using wf by (rule in_set_dict)
  also have "\<dots> \<longleftrightarrow> k \<in> fst ` set (grouped_entries es) \<and> xs = dict_get (grouped_entries es) k []"
    unfolding dict_get_def by (cases "map_of (grouped_entries es) k") (metis map_of_eq_None_iff option.simps(3,4,5) option.inject)+
  finally show ?thesis unfolding keys get .
qed

lemma distinct_values_iff:
  "1 < length (distinct_values dumps es) \<longleftrightarrow>
    (\<exists>a \<in> set es. \<exists>b \<in> set es. dumps (fa_value (fn_fact a)) \<noteq> dumps (fa_value (fn_fact b)))"
proof -
  let ?f = "\<lambda>e. dumps (fa_value (fn_fact e))"
  have "dict_wf d \<Longrightarrow> dict_wf (fold (\<lambda>e. setdefault (?f e) (fa_value (fn_fact e))) es d)
      \<and> fst ` set (fold (\<lambda>e. setdefault (?f e) (fa_value (fn_fact e))) es d) = fst ` set d \<union> ?f ` set es" for d
  proof (induction es arbitrary: d)
    case (Cons e es)
    have "dict_wf (setdefault (?f e) (fa_value (fn_fact e)) d)" using Cons.prems by (simp add: setdefault_def)
    from Cons.IH [OF this] show ?case by (auto simp: setdefault_keys)
  qed simp
  from this [of "[]"] have d: "dict_wf (fold (\<lambda>e. setdefault (?f e) (fa_value (fn_fact e))) es [])"
    "fst ` set (fold (\<lambda>e. setdefault (?f e) (fa_value (fn_fact e))) es []) = ?f ` set es" by simp_all
  have "length (distinct_values dumps es) = card (?f ` set es)"
    unfolding distinct_values_def d(2) [symmetric] using distinct_card [OF d(1)] by simp
  also have "1 < \<dots> \<longleftrightarrow> (\<exists>a \<in> set es. \<exists>b \<in> set es. ?f a \<noteq> ?f b)"
    using card_le_Suc0_iff_eq [of "?f ` set es"] by (auto simp flip: not_le)
  finally show ?thesis .
qed

text \<open>What the policy looks at, and that both ways of choosing take the first of the best.\<close>

definition entry_rank :: "world_merge_policy \<Rightarrow> fact_entry \<Rightarrow> nat \<times> rat \<times> rat" where
  "entry_rank pol e = (if prefers_domain pol then domain_priority_rank (fn_domain e) (wp_domain_priority pol) else 0,
     fact_rank (fn_fact e) (wp_fact_strategy pol))"

lemma choose_fact_rank: "choose_fact f g s \<longleftrightarrow> fact_rank f s < fact_rank g s"
  by (cases s) (auto simp: choose_fact_def fact_rank_def less_prod_def')

lemma max_by_best: "max_by f b xs \<in> set (b # xs) \<and> (\<forall>x \<in> set (b # xs). f x \<le> f (max_by f b xs))"
proof (induction xs arbitrary: b)
  case (Cons x xs)
  show ?case
  proof (cases "f b < f x")
    case True
    with Cons.IH [of x] show ?thesis by (auto intro: order_trans less_imp_le)
  next
    case False
    with Cons.IH [of b] show ?thesis by (auto simp: not_less intro: order_trans)
  qed
qed simp

lemma choose_is_best:
  assumes "es \<noteq> []"
  shows "choose_fact_entry es pol \<in> set es \<and> (\<forall>e \<in> set es. entry_rank pol e \<le> entry_rank pol (choose_fact_entry es pol))"
proof -
  have fold: "fold (\<lambda>e chosen. if f chosen < f e then e else chosen) xs b = max_by f b xs" for f :: "fact_entry \<Rightarrow> rat \<times> rat" and xs b
    by (induction xs arbitrary: b) auto
  have same: "max_by (\<lambda>e. (0 :: nat, f e)) b xs = max_by f b xs" for f :: "fact_entry \<Rightarrow> rat \<times> rat" and xs b
    by (induction xs arbitrary: b) auto
  have "choose_fact_entry es pol = max_by (entry_rank pol) (hd es) (tl es)"
    by (simp add: choose_fact_entry_def choose_fact_rank fold same entry_rank_def [abs_def])
  then show ?thesis using max_by_best [of "entry_rank pol" "hd es" "tl es"] assms by simp
qed

subsection \<open>The merge\<close>

definition fact_place :: "world_fact \<Rightarrow> string \<times> string" where
  "fact_place f = (fa_subject f, fa_claim f)"

definition entry_value :: "fact_entry \<Rightarrow> json" where
  "entry_value e = fa_value (fn_fact e)"

lemma merged_fact_parts:
  "fact_place (merged_fact pol (k, es)) = k" "fa_value (merged_fact pol (k, es)) = entry_value (choose_fact_entry es pol)"
  by (cases k; simp add: merged_fact_def fact_place_def entry_value_def Let_def)+

lemma merged_keys: "fact_place \<circ> merged_fact pol = fst"
  by (rule ext) (simp add: merged_fact_parts split_paired_all)

lemma conflict_keys:
  "(\<lambda>c. (dc_subject c, dc_claim c)) ` set (conflicts_of dumps g) = fst ` set (filter (\<lambda>(_, es). 1 < length (distinct_values dumps es)) g)"
  by (auto simp: conflicts_of_def image_image split_beta)

text \<open>The resolution of a conflict whose entries are known.\<close>

lemma resolved_choice:
  assumes "dict_get g (dc_subject c, dc_claim c) [] = es" and "es \<noteq> []"
  shows "wx_selected_value (resolve_domain_conflict dumps g pol c) = entry_value (choose_fact_entry es pol)
    \<and> (wx_status (resolve_domain_conflict dumps g pol c) = ResResolved \<longleftrightarrow> wp_conflict_strategy pol \<noteq> RequireReview)"
  using assms by (auto simp: resolve_domain_conflict_def entry_value_def Let_def split: list.split)

lemma resolution_key:
  "(wx_subject (resolve_domain_conflict dumps g pol c), wx_claim (resolve_domain_conflict dumps g pol c)) = (dc_subject c, dc_claim c)"
  by (simp add: resolve_domain_conflict_def Let_def split: list.split)

text \<open>The facts and the conflicts in terms of the entries.\<close>

abbreviation about :: "fact_entry list \<Rightarrow> string \<times> string \<Rightarrow> fact_entry list" where
  "about es k \<equiv> filter (\<lambda>e. entry_key e = k) es"

lemma grouped_set: "set (grouped_entries es) = (\<lambda>k. (k, about es k)) ` entry_key ` set es"
proof (rule set_eqI)
  fix p :: "(string \<times> string) \<times> fact_entry list"
  obtain k xs where "p = (k, xs)" by (cases p)
  then show "p \<in> set (grouped_entries es) \<longleftrightarrow> p \<in> (\<lambda>k. (k, about es k)) ` entry_key ` set es"
    using grouped_member [of k xs es] by auto
qed

lemma about_some: "k \<in> entry_key ` set es \<Longrightarrow> about es k \<noteq> []"
  by (auto simp: filter_empty_conv)

lemma merged_facts_exact:
  fixes es pol defines "fs \<equiv> sort_key fact_place (map (merged_fact pol) (grouped_entries es))"
  shows "distinct (map fact_place fs)" and "set fs = (\<lambda>k. merged_fact pol (k, about es k)) ` entry_key ` set es"
    and "fact_place ` set fs = entry_key ` set es"
    and "f \<in> set fs \<Longrightarrow> \<exists>e \<in> set es. entry_key e = fact_place f \<and> fa_value f = entry_value e
      \<and> (\<forall>e' \<in> set es. entry_key e' = fact_place f \<longrightarrow> entry_rank pol e' \<le> entry_rank pol e)"
proof -
  have "distinct (map fact_place (map (merged_fact pol) (grouped_entries es)))"
    using grouped_lookup [of es] by (simp add: merged_keys)
  then show "distinct (map fact_place fs)" unfolding fs_def by (simp only: distinct_map distinct_sort set_sort)
  show set: "set fs = (\<lambda>k. merged_fact pol (k, about es k)) ` entry_key ` set es"
    unfolding fs_def set_sort set_map grouped_set by (simp add: image_image)
  show "fact_place ` set fs = entry_key ` set es" unfolding set by (simp add: image_image merged_fact_parts)
  assume "f \<in> set fs"
  then obtain k where k: "k \<in> entry_key ` set es" "f = merged_fact pol (k, about es k)" unfolding set by blast
  from choose_is_best [OF about_some [OF k(1)], of pol]
  show "\<exists>e \<in> set es. entry_key e = fact_place f \<and> fa_value f = entry_value e
      \<and> (\<forall>e' \<in> set es. entry_key e' = fact_place f \<longrightarrow> entry_rank pol e' \<le> entry_rank pol e)"
    unfolding k(2) merged_fact_parts by auto
qed

lemma conflicts_exact:
  "(\<lambda>c. (dc_subject c, dc_claim c)) ` set (conflicts_of dumps (grouped_entries es))
    = {k. \<exists>a \<in> set es. \<exists>b \<in> set es. entry_key a = k \<and> entry_key b = k \<and> dumps (entry_value a) \<noteq> dumps (entry_value b)}"
proof -
  have "k \<in> fst ` set (filter (\<lambda>(_, es). 1 < length (distinct_values dumps es)) (grouped_entries es))
      \<longleftrightarrow> k \<in> entry_key ` set es \<and> 1 < length (distinct_values dumps (about es k))" for k
    unfolding set_filter grouped_set split_beta by force
  moreover have "k \<in> entry_key ` set es \<and> 1 < length (distinct_values dumps (about es k))
      \<longleftrightarrow> (\<exists>a \<in> set es. \<exists>b \<in> set es. entry_key a = k \<and> entry_key b = k \<and> dumps (entry_value a) \<noteq> dumps (entry_value b))" for k
    unfolding distinct_values_iff entry_value_def by (auto intro: rev_image_eqI)
  ultimately show ?thesis unfolding conflict_keys by (intro set_eqI) (simp only: mem_Collect_eq)
qed

lemma resolutions_exact:
  assumes r: "r \<in> set (map (resolve_domain_conflict dumps (grouped_entries es) pol) (conflicts_of dumps (grouped_entries es)))"
  shows "(wx_status r = ResResolved \<longleftrightarrow> wp_conflict_strategy pol \<noteq> RequireReview)
    \<and> (\<exists>f \<in> (\<lambda>k. merged_fact pol (k, about es k)) ` entry_key ` set es.
        fact_place f = (wx_subject r, wx_claim r) \<and> fa_value f = wx_selected_value r)"
proof -
  obtain c where c: "c \<in> set (conflicts_of dumps (grouped_entries es))" "r = resolve_domain_conflict dumps (grouped_entries es) pol c"
    using r by auto
  let ?k = "(dc_subject c, dc_claim c)"
  have "?k \<in> (\<lambda>c. (dc_subject c, dc_claim c)) ` set (conflicts_of dumps (grouped_entries es))" using c(1) by blast
  then have k: "?k \<in> entry_key ` set es" unfolding conflicts_exact by (auto intro: rev_image_eqI)
  have get: "dict_get (grouped_entries es) ?k [] = about es ?k" using grouped_lookup [of es] by blast
  have res: "wx_selected_value r = entry_value (choose_fact_entry (about es ?k) pol)"
    "wx_status r = ResResolved \<longleftrightarrow> wp_conflict_strategy pol \<noteq> RequireReview" "(wx_subject r, wx_claim r) = ?k"
    using resolved_choice [OF get about_some [OF k]] resolution_key unfolding c(2) by blast+
  have "fact_place (merged_fact pol (?k, about es ?k)) = (wx_subject r, wx_claim r)"
    "fa_value (merged_fact pol (?k, about es ?k)) = wx_selected_value r" unfolding res merged_fact_parts by (rule refl)+
  moreover have "merged_fact pol (?k, about es ?k) \<in> (\<lambda>k. merged_fact pol (k, about es k)) ` entry_key ` set es"
    using k by (rule imageI)
  ultimately show ?thesis using res(2) by blast
qed

text \<open>The merge in terms of its entries.\<close>

lemma merge_parts:
  "\<exists>m. merge_world_views dumps views sid names policy = Some m
    \<and> (let pol = resolve_merge_policy policy names;
           g = grouped_entries (fact_entries views (canonical_id_mapping (mw_identity_mappings m)))
       in wo_facts (mw_snapshot m) = sort_key (\<lambda>f. (fa_subject f, fa_claim f)) (map (merged_fact pol) g)
         \<and> mw_conflicts m = conflicts_of dumps g \<and> mw_resolutions m = map (resolve_domain_conflict dumps g pol) (conflicts_of dumps g))"
proof -
  let ?pol = "resolve_merge_policy policy names"
  obtain ms where ms: "build_identity_mappings (all_relations views) (wp_identity_relations ?pol) = Some ms"
    using built_mappings by blast
  have "resolve_merge_policy (Some ?pol) [''same_as''] = ?pol" by (simp add: resolve_merge_policy_def)
  with ms have "detect_conflicts dumps views (Some ?pol) [''same_as'']
      = Some (conflicts_of dumps (grouped_entries (fact_entries views (canonical_id_mapping ms))))"
    by (simp add: detect_conflicts_def)
  with ms show ?thesis by (simp add: merge_world_views_def Let_def)
qed


text \<open>Two domains that know one pod under two names and differ on its phase.\<close>

definition pod_view :: "string \<Rightarrow> string \<Rightarrow> string \<Rightarrow> world_relation list \<Rightarrow> domain_view" where
  "pod_view d s v rels = \<lparr>dv_domain = d, dv_snapshot = \<lparr>wo_session_id = ''s'',
     wo_facts = [\<lparr>fa_subject = s, fa_claim = ''phase'', fa_value = JStr v, fa_confidence = 1, fa_observed_at = 0, fa_evidence_ids = [d]\<rparr>],
     wo_fact_histories = [], wo_entities = [], wo_relations = rels\<rparr>\<rparr>"

definition pod_views :: "domain_view list" where
  "pod_views = [pod_view ''k8s'' ''pod'' ''Running'' [],
     pod_view ''aws'' ''node'' ''Failed'' [\<lparr>wr_source = ''pod'', wr_relation = ''same_as'', wr_target = ''node'', wr_evidence_ids = [''e'']\<rparr>]]"

definition text_of :: "json \<Rightarrow> string" where
  "text_of j = (case j of JStr s \<Rightarrow> s | _ \<Rightarrow> [])"


end
