(* ===== verification/Domain_Worlds.thy ===== *)
theory Domain_Worlds
  imports World_Merge_Safety
begin

text \<open>
  \<open>world/cross_domain_model.py\<close>: the evidence of a session is grouped by the domain it came from, a
  snapshot is rebuilt for each domain, and the snapshots are merged.
\<close>

subsection \<open>One domain's snapshot\<close>

record domain_world =
  dw_facts :: "(string \<times> string, world_fact) dict"
  dw_entities :: "(string, world_entity) dict"
  dw_relations :: "(string \<times> string \<times> string, world_relation) dict"

definition rebuilt_fact :: "evidence \<Rightarrow> world_fact option \<Rightarrow> world_fact" where
  "rebuilt_fact e current = (let new = \<lparr>fa_subject = ev_subject e, fa_claim = ev_claim e, fa_value = ev_value e,
       fa_confidence = ev_confidence e, fa_observed_at = ev_observed_at e, fa_evidence_ids = [ev_id e]\<rparr>
     in case current of None \<Rightarrow> new
        | Some f \<Rightarrow> if (fa_confidence f, fa_observed_at f) < (ev_confidence e, ev_observed_at e)
            then new\<lparr>fa_evidence_ids := dedupe (fa_evidence_ids f @ [ev_id e])\<rparr> else f)"

definition rebuilt_kind :: "evidence \<Rightarrow> (string, world_entity) dict \<Rightarrow> (string, world_entity) dict" where
  "rebuilt_kind e d = (case entity_from_evidence e of None \<Rightarrow> d
     | Some n \<Rightarrow> AList.update (ev_subject e) (case map_of d (ev_subject e) of None \<Rightarrow> n
         | Some x \<Rightarrow> x\<lparr>we_id := ev_subject e, we_kind := we_kind n,
             we_evidence_ids := dedupe (we_evidence_ids x @ [ev_id e])\<rparr>) d)"

definition rebuilt_attribute :: "evidence \<Rightarrow> (string, world_entity) dict \<Rightarrow> (string, world_entity) dict" where
  "rebuilt_attribute e d =
     (if ev_claim e = ''kind'' \<or> relation_claim (ev_claim e) then d
      else AList.update (ev_subject e) (case map_of d (ev_subject e) of
          None \<Rightarrow> \<lparr>we_id = ev_subject e, we_kind = ''unknown'', we_attributes = [(ev_claim e, ev_value e)],
            we_evidence_ids = [ev_id e]\<rparr>
        | Some x \<Rightarrow> x\<lparr>we_id := ev_subject e,
            we_attributes := merge_mappings [we_attributes x, [(ev_claim e, ev_value e)]],
            we_evidence_ids := dedupe (we_evidence_ids x @ [ev_id e])\<rparr>) d)"

definition rebuilt_relation :: "world_relation \<Rightarrow> (string \<times> string \<times> string, world_relation) dict
    \<Rightarrow> (string \<times> string \<times> string, world_relation) dict" where
  "rebuilt_relation r d = AList.update (relation_key r) (case map_of d (relation_key r) of None \<Rightarrow> r
     | Some x \<Rightarrow> x\<lparr>wr_evidence_ids := dedupe (wr_evidence_ids x @ wr_evidence_ids r)\<rparr>) d"

definition rebuild_step :: "string list \<Rightarrow> string list \<Rightarrow> evidence \<Rightarrow> domain_world \<Rightarrow> domain_world" where
  "rebuild_step subjects claims e w =
     (if subjects \<noteq> [] \<and> ev_subject e \<notin> set subjects \<or> claims \<noteq> [] \<and> ev_claim e \<notin> set claims then w
      else let k = (ev_subject e, ev_claim e) in
        \<lparr>dw_facts = AList.update k (rebuilt_fact e (map_of (dw_facts w) k)) (dw_facts w),
         dw_entities = rebuilt_attribute e (rebuilt_kind e (dw_entities w)),
         dw_relations = fold rebuilt_relation (relations_from_evidence e) (dw_relations w)\<rparr>)"

definition rebuild_domain :: "string list \<Rightarrow> string list \<Rightarrow> evidence list \<Rightarrow> domain_world" where
  "rebuild_domain subjects claims es = fold (rebuild_step subjects claims) (sort_key evidence_key es)
     \<lparr>dw_facts = [], dw_entities = [], dw_relations = []\<rparr>"

definition rebuild_domain_snapshot :: "string \<Rightarrow> string list \<Rightarrow> string list \<Rightarrow> evidence list \<Rightarrow> world_snapshot" where
  "rebuild_domain_snapshot sid subjects claims es =
     (let w = rebuild_domain subjects claims es in
      \<lparr>wo_session_id = sid, wo_facts = sort_key (\<lambda>f. (fa_subject f, fa_claim f)) (dict_values (dw_facts w)),
       wo_fact_histories = [], wo_entities = sort_key we_id (dict_values (dw_entities w)),
       wo_relations = sort_key relation_key (dict_values (dw_relations w))\<rparr>)"

subsection \<open>All domains\<close>

definition evidence_domain :: "evidence \<Rightarrow> string \<times> string" where
  "evidence_domain e = (if ev_domain_name e = [] then ''default'' else ev_domain_name e,
     if ev_domain_version e = [] then ''1.0.0'' else ev_domain_version e)"

definition session_evidence :: "string \<Rightarrow> string list \<Rightarrow> string list \<Rightarrow> evidence_store \<Rightarrow> evidence list" where
  "session_evidence sid subjects claims st =
     filter (\<lambda>e. (subjects = [] \<or> ev_subject e \<in> set subjects) \<and> (claims = [] \<or> ev_claim e \<in> set claims))
       (query_evidence \<lparr>evq_session = sid, evq_task = None, evq_subject = None, evq_claim = None, evq_limit = None\<rparr> st)"

definition domain_views_of :: "string \<Rightarrow> string list \<Rightarrow> string list \<Rightarrow> evidence_store \<Rightarrow> domain_view list" where
  "domain_views_of sid subjects claims st =
     map (\<lambda>((name, version), es). \<lparr>dv_domain = name, dv_snapshot = rebuild_domain_snapshot sid subjects claims es\<rparr>)
       (fold (\<lambda>e. append_at (evidence_domain e) e) (session_evidence sid subjects claims st) [])"

definition merged_snapshot :: "(json \<Rightarrow> string) \<Rightarrow> string \<Rightarrow> string list \<Rightarrow> string list \<Rightarrow> world_merge_policy option
    \<Rightarrow> evidence_store \<Rightarrow> merged_world option" where
  "merged_snapshot dumps sid subjects claims policy st =
     merge_world_views dumps (domain_views_of sid subjects claims st) (Some sid) [''same_as''] policy"

subsection \<open>What is rebuilt\<close>

text \<open>The fact of a subject and claim follows the best evidence by confidence and time, the first of equals.\<close>

definition evidence_rank :: "evidence \<Rightarrow> rat \<times> time" where
  "evidence_rank e = (ev_confidence e, ev_observed_at e)"

definition evidence_about :: "string \<Rightarrow> string \<Rightarrow> evidence list \<Rightarrow> evidence list" where
  "evidence_about s c es = filter (\<lambda>e. ev_subject e = s \<and> ev_claim e = c) (sort_key evidence_key es)"

definition carries :: "evidence \<Rightarrow> world_fact \<Rightarrow> bool" where
  "carries e f \<longleftrightarrow> fa_value f = ev_value e \<and> (fa_confidence f, fa_observed_at f) = evidence_rank e"

lemma rebuilt_facts:
  "map_of (dw_facts (fold (rebuild_step [] []) es w)) (s, c)
    = fold (\<lambda>e acc. Some (rebuilt_fact e acc)) (filter (\<lambda>e. ev_subject e = s \<and> ev_claim e = c) es) (map_of (dw_facts w) (s, c))"
  by (induction es arbitrary: w) (auto simp: rebuild_step_def Let_def dict_simps)

lemma facts_follow:
  "carries b f \<Longrightarrow> \<exists>g. fold (\<lambda>e acc. Some (rebuilt_fact e acc)) es (Some f) = Some g \<and> carries (max_by evidence_rank b es) g"
proof (induction es arbitrary: b f)
  case (Cons e es)
  have "carries (if evidence_rank b < evidence_rank e then e else b) (rebuilt_fact e (Some f))"
    using Cons.prems by (auto simp: carries_def rebuilt_fact_def evidence_rank_def Let_def)
  from Cons.IH [OF this] show ?case by simp
qed simp

lemma rebuilt_follows:
  assumes "evidence_about s c es = b # bs"
  shows "\<exists>f. map_of (dw_facts (rebuild_domain [] [] es)) (s, c) = Some f \<and> carries (max_by evidence_rank b bs) f"
proof -
  have "carries b (rebuilt_fact b None)" by (simp add: carries_def rebuilt_fact_def evidence_rank_def Let_def)
  from facts_follow [OF this, of bs] show ?thesis
    using assms by (simp add: rebuild_domain_def rebuilt_facts evidence_about_def)
qed

text \<open>The snapshot that is rebuilt for a domain agrees with the world model on every fact, as long as no two
  pieces of evidence about it have the same confidence and time: the rebuilt fact has the value that the
  arbitration of the world model gives to the evidence of the domain.\<close>

theorem rebuilt_fact_agrees:
  assumes "evidence_about s c es \<noteq> []" and "inj_on evidence_rank (set (evidence_about s c es))"
  shows "\<exists>f. map_of (dw_facts (rebuild_domain [] [] es)) (s, c) = Some f
    \<and> fa_value f = ev_value (current_fact (evidence_about s c es))"
proof -
  obtain b bs where b: "evidence_about s c es = b # bs" using assms(1) by (cases "evidence_about s c es") auto
  let ?x = "max_by evidence_rank b bs" and ?y = "max_by arbitration_key b bs"
  have x: "?x \<in> set (b # bs)" "\<And>e. e \<in> set (b # bs) \<Longrightarrow> evidence_rank e \<le> evidence_rank ?x"
    using max_by_best [of evidence_rank b bs] by blast+
  have y: "?y \<in> set (b # bs)" "arbitration_key ?x \<le> arbitration_key ?y"
    using max_by_best [of arbitration_key b bs] x(1) by blast+
  then have "evidence_rank ?x \<le> evidence_rank ?y"
    by (auto simp: evidence_rank_def arbitration_key_def less_eq_prod_def less_prod_def)
  with x(2) [OF y(1)] have "?x = ?y" using inj_onD [OF assms(2)] x(1) y(1) unfolding b by simp
  then show ?thesis using rebuilt_follows [OF b] b by (auto simp: carries_def current_fact_def)
qed

text \<open>Two pieces of evidence of the same confidence and time.\<close>

definition phase_evidence :: "string \<Rightarrow> string \<Rightarrow> time \<Rightarrow> evidence" where
  "phase_evidence i v t = \<lparr>ev_session_id = ''s'', ev_task_id = ''t'', ev_action_id = [], ev_observation_id = [],
     ev_subject = ''pod'', ev_claim = ''phase'', ev_value = JStr v, ev_source = ''k8s'', ev_confidence = 1, ev_id = i,
     ev_observed_at = t, ev_domain_name = ''k8s'', ev_domain_version = []\<rparr>"

theorem rebuilt_fact_agrees_witness:
  "\<exists>f. map_of (dw_facts (rebuild_domain [] [] [phase_evidence ''a'' ''Running'' 1, phase_evidence ''b'' ''Failed'' 2])) (''pod'', ''phase'')
      = Some f \<and> fa_value f = JStr ''Failed''"
proof -
  let ?es = "[phase_evidence ''a'' ''Running'' 1, phase_evidence ''b'' ''Failed'' 2]"
  have e: "evidence_about ''pod'' ''phase'' ?es = ?es"
    by (simp add: evidence_about_def phase_evidence_def evidence_key_def)
  show ?thesis
    using rebuilt_fact_agrees [of "''pod''" "''phase''" ?es] unfolding e
    by (simp add: phase_evidence_def evidence_rank_def current_fact_def arbitration_key_def)
qed

text \<open>When confidence and time are equal the two disagree: the world model takes the greater id, the
  rebuilt snapshot the smaller one. So the merged world of a single domain can contradict its world model.\<close>

lemma rebuilt_tie_differs:
  "let es = [phase_evidence ''a'' ''Running'' 1, phase_evidence ''b'' ''Failed'' 1] in
     map_option fa_value (map_of (dw_facts (rebuild_domain [] [] es)) (''pod'', ''phase'')) = Some (JStr ''Running'')
     \<and> ev_value (current_fact es) = JStr ''Failed''"
  by (simp add: rebuild_domain_def rebuild_step_def rebuilt_fact_def phase_evidence_def evidence_key_def
      current_fact_def arbitration_key_def dict_simps Let_def)

end
