(* ===== verification/Context_Compiler.thy ===== *)
theory Context_Compiler
  imports Domain_Runtime Agent_Tasks
begin

text \<open>
  \<open>context/compiler.py\<close>: \<open>BasicContextCompiler\<close> makes the context of a decision out of the state of the
  session, the world, the evidence, the tasks and the memories, each cut down to a budget.

  Parameters: \<open>loads\<close> and \<open>dumps\<close> are \<open>json.loads\<close> and \<open>dumps_json\<close>, \<open>py_repr\<close> is \<open>repr\<close> of a JSON value, \<open>show2\<close>
  the format with two digits, \<open>dots\<close> the ellipsis character U+2026. \<open>Inl\<close> is the \<open>TypeError\<close> of adding
  one to a value that is no number.
\<close>

subsection \<open>Data\<close>

record text_format =
  tx_loads :: "string \<Rightarrow> json option"
  tx_dumps :: "json \<Rightarrow> string"
  tx_repr :: "json \<Rightarrow> string"
  tx_show2 :: "rat \<Rightarrow> string"
  tx_dots :: char

record context_compiler =
  cc_max_fragments :: int
  cc_max_characters :: int
  cc_max_memory_fragments :: int
  cc_max_memory_characters :: int
  cc_max_fragment_characters :: int
  cc_relevance_ranking :: bool
  cc_compression :: bool
  cc_dedup :: bool
  cc_stall_repeats :: int

definition default_compiler :: context_compiler where
  "default_compiler = \<lparr>cc_max_fragments = 8, cc_max_characters = 4000, cc_max_memory_fragments = 4,
     cc_max_memory_characters = 1200, cc_max_fragment_characters = 2000, cc_relevance_ranking = True,
     cc_compression = True, cc_dedup = False, cc_stall_repeats = 3\<rparr>"

record capability_summary =
  cs_name :: string
  cs_description :: string
  cs_category :: capability_category
  cs_risk :: risk_level
  cs_required_arguments :: "string list"
  cs_argument_schema :: json_mapping

record decision_context =
  dx_session_id :: string
  dx_goal_id :: string
  dx_goal_description :: string
  dx_task_id :: string
  dx_task_description :: string
  dx_iteration :: nat
  dx_satisfied_criteria :: json_mapping
  dx_latest_observation :: "observation option"
  dx_capabilities :: "capability_summary list"
  dx_goal_success_criteria :: "success_criterion list"
  dx_task_required_criteria :: "string list"
  dx_domain_context :: "context_fragment list"
  dx_world_context :: "context_fragment list"
  dx_evidence_context :: "context_fragment list"
  dx_task_context :: "context_fragment list"
  dx_memory_context :: "context_fragment list"
  dx_policy_summary :: "string list"

fun task_status_value :: "task_status \<Rightarrow> string" where
  "task_status_value TaskPending = ''pending''"
| "task_status_value TaskRunning = ''running''"
| "task_status_value TaskWaiting = ''waiting''"
| "task_status_value TaskCompleted = ''completed''"
| "task_status_value TaskFailed = ''failed''"
| "task_status_value TaskCancelled = ''cancelled''"

subsection \<open>Relevance\<close>

text \<open>\<open>re.findall("[a-z0-9_]+", text.lower())\<close>\<close>

definition token_char :: "char \<Rightarrow> bool" where
  "token_char c \<longleftrightarrow> (let n = of_char c :: nat in 97 \<le> n \<and> n \<le> 122 \<or> 48 \<le> n \<and> n \<le> 57 \<or> n = 95)"

fun find_tokens :: "string \<Rightarrow> string \<Rightarrow> string list" where
  "find_tokens w [] = (if w = [] then [] else [rev w])"
| "find_tokens w (c # cs) =
     (if token_char c then find_tokens (c # w) cs
      else if w = [] then find_tokens [] cs else rev w # find_tokens [] cs)"

definition tokens :: "string \<Rightarrow> string list" where
  "tokens s = remdups (find_tokens [] (py_lower s))"

definition compute_state_tokens :: "agent_state \<Rightarrow> string list" where
  "compute_state_tokens s = remdups (tokens (g_description (as_goal s)) @ tokens (t_description (as_current_task s))
     @ map py_lower (t_required_criteria (as_current_task s)) @ map py_lower (dict_keys (as_satisfied_criteria s)))"

definition relevance :: "context_fragment \<Rightarrow> string list \<Rightarrow> rat" where
  "relevance f ts = (if ts = [] then 0
     else of_nat (length (filter (\<lambda>t. t \<in> set (tokens (cf_content f)) \<or> t \<in> set (tokens (cf_key f))) ts))
       / of_nat (length ts))"

subsection \<open>Compression\<close>

definition truncated_keys :: string where
  "truncated_keys = ''__truncated_keys__''"

text \<open>\<open>_cap_json_collections\<close> with its \<open>max_items\<close> of 6.\<close>

fun cap_json :: "json \<Rightarrow> json" where
  "cap_json (JObj kvs) = (let trimmed = map (\<lambda>(k, v). (k, cap_json v)) kvs in
     if 6 < length trimmed
     then JObj (AList.update truncated_keys (JInt (int (length trimmed) - 6)) (take 6 trimmed))
     else JObj trimmed)"
| "cap_json (JList vs) = (let trimmed = map cap_json vs in
     if 6 < length trimmed
     then JList (take 6 trimmed @ [JObj [(''__truncated_items__'', JInt (int (length trimmed) - 6))]])
     else JList trimmed)"
| "cap_json j = j"

text \<open>\<open>value + 1\<close>; \<open>True\<close> counts as one.\<close>

definition plus_one :: "json \<Rightarrow> string + json" where
  "plus_one j = (case j of JInt n \<Rightarrow> Inr (JInt (n + 1)) | JFloat q \<Rightarrow> Inr (JFloat (q + 1))
     | JBool b \<Rightarrow> Inr (JInt (if b then 2 else 1)) | _ \<Rightarrow> Inl ''unsupported operand type(s) for +'')"

definition real_keys :: "json_mapping \<Rightarrow> string list" where
  "real_keys kvs = filter (\<lambda>k. k \<noteq> truncated_keys) (dict_keys kvs)"

lemma real_keys_update: "real_keys (AList.update truncated_keys v d) = real_keys d"
  unfolding real_keys_def by (induction d) auto

lemma real_keys_delete:
  assumes "k \<in> set (dict_keys d)" and "k \<noteq> truncated_keys"
  shows "length (real_keys (AList.delete k d)) < length (real_keys d)"
proof -
  have le: "length (real_keys (AList.delete k d)) \<le> length (real_keys d)" for d
    unfolding real_keys_def by (induction d) auto
  show ?thesis
    using assms
  proof (induction d)
    case (Cons p d)
    show ?case
    proof (cases "fst p = k")
      case True
      then show ?thesis using Cons.prems(2) le [of d] by (simp add: real_keys_def)
    next
      case False
      then show ?thesis using Cons by (simp add: real_keys_def)
    qed
  qed simp
qed

lemma drop_last_key:
  assumes "real_keys kvs \<noteq> []"
  shows "length (real_keys (AList.delete (last (real_keys kvs)) kvs)) < length (real_keys kvs)"
proof -
  have "last (real_keys kvs) \<in> set (real_keys kvs)" using assms by (rule last_in_set)
  then show ?thesis by (intro real_keys_delete) (auto simp: real_keys_def)
qed

fun json_size :: "json \<Rightarrow> nat" where
  "json_size (JObj kvs) = length (real_keys kvs)"
| "json_size j = 0"

text \<open>The \<open>while\<close> loop drops the last real key until the rendering fits.\<close>

function shrink_json :: "(json \<Rightarrow> string) \<Rightarrow> int \<Rightarrow> json \<Rightarrow> string + string option" where
  "shrink_json dumps limit data =
     (if int (length (dumps data)) \<le> limit then Inr (Some (dumps data))
      else case data of
        JObj kvs \<Rightarrow>
          (let real = real_keys kvs in
           if real = [] then Inr None
           else let remaining = AList.delete (last real) kvs in
             if remaining = [] then shrink_json dumps limit (JObj [])
             else case plus_one (dict_get remaining truncated_keys (JInt 0)) of Inl e \<Rightarrow> Inl e
               | Inr n \<Rightarrow> shrink_json dumps limit (JObj (AList.update truncated_keys n remaining)))
      | _ \<Rightarrow> Inr None)"
  by pat_completeness auto

termination
  by (relation "measure (\<lambda>(dumps, limit, data). json_size data)")
    (simp_all add: real_keys_update drop_last_key, simp add: real_keys_def [of "[]"])

declare shrink_json.simps [simp del]

text \<open>\<open>_compress_json\<close>; \<open>None\<close> lets the caller cut the text.\<close>

definition compress_json :: "text_format \<Rightarrow> string \<Rightarrow> int \<Rightarrow> string + string option" where
  "compress_json x content limit = (case tx_loads x content of None \<Rightarrow> Inr None
     | Some data \<Rightarrow> shrink_json (tx_dumps x) limit (cap_json data))"

definition looks_like_json :: "string \<Rightarrow> bool" where
  "looks_like_json s = (case dropWhile py_isspace s of [] \<Rightarrow> False | c # _ \<Rightarrow> c = CHR ''{'' \<or> c = CHR ''['')"

text \<open>\<open>s[-n:]\<close> for a positive \<open>n\<close>.\<close>

definition last_chars :: "int \<Rightarrow> 'a list \<Rightarrow> 'a list" where
  "last_chars n s = drop (length s - nat n) s"

definition compress_text :: "text_format \<Rightarrow> context_compiler \<Rightarrow> string \<Rightarrow> int \<Rightarrow> string + string" where
  "compress_text x cc content limit =
     (if int (length content) \<le> limit then Inr content
      else if limit \<le> 3 then Inr (slice_to limit content)
      else case (if cc_compression cc \<and> looks_like_json content then compress_json x content limit else Inr None) of
        Inl e \<Rightarrow> Inl e
      | Inr (Some s) \<Rightarrow> Inr s
      | Inr None \<Rightarrow>
          (let head = limit div 2; tail = limit - head - 1 in
           if tail \<le> 0 then Inr (slice_to limit content)
           else Inr (slice_to head content @ [tx_dots x] @ last_chars tail content)))"

subsection \<open>The budget\<close>

definition normalize_text :: "string \<Rightarrow> string" where
  "normalize_text s = py_lower (py_strip s)"

definition rank_fragments :: "string list \<Rightarrow> context_fragment list \<Rightarrow> context_fragment list" where
  "rank_fragments ts fs = (if ts \<noteq> [] then sort_key (\<lambda>f. (cf_priority f, - relevance f ts, cf_key f)) fs
     else sort_key (\<lambda>f. (cf_priority f, cf_key f)) fs)"

fun budget_loop :: "text_format \<Rightarrow> context_compiler \<Rightarrow> int \<Rightarrow> int \<Rightarrow> context_fragment list \<Rightarrow> string list
    \<Rightarrow> context_fragment list \<Rightarrow> int \<Rightarrow> string + context_fragment list" where
  "budget_loop x cc count chars [] seen selected used = Inr selected"
| "budget_loop x cc count chars (f # fs) seen selected used =
     (if count \<le> int (length selected) then Inr selected
      else let norm = normalize_text (cf_content f) in
        if cc_dedup cc \<and> norm \<in> set seen then budget_loop x cc count chars fs seen selected used
        else if chars - used \<le> 0 then Inr selected
        else case (if cc_compression cc \<and> cc_max_fragment_characters cc < int (length (cf_content f))
                   then compress_text x cc (cf_content f) (cc_max_fragment_characters cc)
                   else Inr (cf_content f)) of Inl e \<Rightarrow> Inl e
          | Inr content \<Rightarrow>
              (let cut = slice_to (chars - used) content in
               budget_loop x cc count chars fs (norm # seen) (selected @ [f\<lparr>cf_content := cut\<rparr>])
                 (used + int (length cut))))"

definition budget_fragments :: "text_format \<Rightarrow> context_compiler \<Rightarrow> string list \<Rightarrow> int \<Rightarrow> int \<Rightarrow> bool
    \<Rightarrow> context_fragment list \<Rightarrow> string + context_fragment list" where
  "budget_fragments x cc ts count chars pre_sorted fs =
     budget_loop x cc count chars (if pre_sorted then fs else rank_fragments ts fs) [] [] 0"

subsection \<open>The parts of the context\<close>

definition unique_fragments :: "agent_state \<Rightarrow> context_provider list \<Rightarrow> context_fragment list" where
  "unique_fragments s ps = dict_values (fold (\<lambda>f d. case map_of d (cf_key f) of None \<Rightarrow> AList.update (cf_key f) f d
       | Some g \<Rightarrow> if cf_priority f < cf_priority g then AList.update (cf_key f) f d else d)
     (concat (map (\<lambda>p. cp_provide p s) ps)) [])"

definition fragment :: "string \<Rightarrow> string \<Rightarrow> int \<Rightarrow> context_fragment" where
  "fragment k c p = \<lparr>cf_key = k, cf_content = c, cf_priority = p\<rparr>"

definition conflict_note :: "world_fact \<Rightarrow> (string \<times> string) list \<Rightarrow> string" where
  "conflict_note f ks = (if (fa_subject f, fa_claim f) \<notin> set ks then []
     else '' CONFLICTING('' @ show_nat (length (fa_evidence_ids f)) @ '' observations disagree on this value)'')"

definition world_fragments :: "text_format \<Rightarrow> world_snapshot \<Rightarrow> context_fragment list" where
  "world_fragments x w =
     (let ks = map (\<lambda>h. (fh_subject h, fh_claim h)) (filter fh_conflicting (wo_fact_histories w)) in
      map (\<lambda>f. fragment (''world.'' @ fa_subject f @ ''.'' @ fa_claim f)
          (fa_subject f @ '' '' @ fa_claim f @ ''='' @ tx_repr x (fa_value f) @ '' confidence=''
             @ tx_show2 x (fa_confidence f) @ conflict_note f ks) 20) (wo_facts w)
      @ map (\<lambda>e. fragment (''world.entity.'' @ we_id e)
          (we_id e @ '' kind='' @ we_kind e @ '' attributes='' @ tx_repr x (JObj (we_attributes e))) 21) (wo_entities w)
      @ map (\<lambda>r. fragment (''world.relation.'' @ wr_source r @ ''.'' @ wr_relation r @ ''.'' @ wr_target r)
          (wr_source r @ '' -['' @ wr_relation r @ '']-> '' @ wr_target r) 22) (wo_relations w))"

text \<open>\<open>source.split(":", 1)[0]\<close>\<close>

definition source_capability :: "evidence \<Rightarrow> string" where
  "source_capability e = takeWhile (\<lambda>c. c \<noteq> CHR '':'') (ev_source e)"

definition stall_advisory :: "text_format \<Rightarrow> context_compiler \<Rightarrow> evidence list \<Rightarrow> context_fragment list" where
  "stall_advisory x cc es =
     (if cc_stall_repeats cc < 1 then []
      else let recent = last_chars (cc_stall_repeats cc) (sort_key evidence_key es);
               sources = map source_capability recent;
               facts = remdups (map (\<lambda>e. (ev_subject e, ev_claim e, tx_dumps x (ev_value e))) recent)
        in if int (length sources) < cc_stall_repeats cc \<or> length (remdups sources) \<noteq> 1 \<or> 1 < length facts then []
           else [fragment ''runtime.stall_advisory''
             (''Decision stall detected: '' @ show_int (cc_stall_repeats cc) @ '' consecutive observations from '' @ [CHR 0x27]
                @ hd sources @ [CHR 0x27] @ '' produced no new facts. Repeating this inspection cannot satisfy the goal. Change approach: use a different capability (for example a remediation action), or finish with an explicit report of the findings and why the goal cannot be completed.'') 1])"

definition evidence_fragments :: "text_format \<Rightarrow> context_compiler \<Rightarrow> evidence list \<Rightarrow> context_fragment list" where
  "evidence_fragments x cc es = map (\<lambda>e. fragment (''evidence.'' @ ev_id e)
       (ev_subject e @ '' '' @ ev_claim e @ ''='' @ tx_repr x (ev_value e) @ '' source='' @ ev_source e) 30)
     (take (nat (cc_max_fragments cc)) (sort_reverse (\<lambda>e. (ev_confidence e, ev_observed_at e, ev_id e)) es))"

definition task_fragments :: "task_manager \<Rightarrow> context_fragment list" where
  "task_fragments m = map (\<lambda>t. fragment (''task.'' @ t_id t)
     (t_description t @ '' status='' @ task_status_value (t_status t)) 10) (all_tasks m)"

fun memory_kind_value :: "memory_kind \<Rightarrow> string" where
  "memory_kind_value Episodic = ''episodic''"
| "memory_kind_value Semantic = ''semantic''"
| "memory_kind_value Procedural = ''procedural''"
| "memory_kind_value Preference = ''preference''"

definition memory_fragment :: "memory_record \<Rightarrow> context_fragment" where
  "memory_fragment r = fragment (''memory.'' @ mr_id r)
     (memory_kind_value (mr_kind r) @ '' '' @ mr_subject r @ '': '' @ mr_content r) 40"

definition memory_fragments :: "memory_record list \<Rightarrow> context_fragment list" where
  "memory_fragments rs = map memory_fragment
     (sort_reverse (\<lambda>r. (mr_confidence r, mr_created_at r, mr_id r)) rs)"

definition capability_summary_of :: "capability_definition \<Rightarrow> capability_input_contract option \<Rightarrow> capability_summary" where
  "capability_summary_of c k = \<lparr>cs_name = cap_name c, cs_description = cap_description c, cs_category = cap_category c,
     cs_risk = cap_risk c, cs_required_arguments = (case k of None \<Rightarrow> [] | Some d \<Rightarrow> cic_required_arguments d),
     cs_argument_schema = (case k of None \<Rightarrow> [] | Some d \<Rightarrow> cic_argument_schema d)\<rparr>"

definition select_fragments :: "text_format \<Rightarrow> context_compiler \<Rightarrow> string list \<Rightarrow> agent_state \<Rightarrow> context_provider list
    \<Rightarrow> string + context_fragment list" where
  "select_fragments x cc ts s ps =
     budget_fragments x cc ts (cc_max_fragments cc) (cc_max_characters cc) False (unique_fragments s ps)"

definition world_context :: "text_format \<Rightarrow> context_compiler \<Rightarrow> string list \<Rightarrow> world_snapshot option \<Rightarrow> string + context_fragment list" where
  "world_context x cc ts w = (case w of None \<Rightarrow> Inr [] | Some v \<Rightarrow>
     budget_fragments x cc ts (cc_max_fragments cc) (cc_max_characters cc) False (world_fragments x v))"

definition evidence_context :: "text_format \<Rightarrow> context_compiler \<Rightarrow> string list \<Rightarrow> evidence list \<Rightarrow> string + context_fragment list" where
  "evidence_context x cc ts es =
     budget_fragments x cc ts (cc_max_fragments cc) (cc_max_characters cc) True (evidence_fragments x cc es)"

definition task_context :: "text_format \<Rightarrow> context_compiler \<Rightarrow> string list \<Rightarrow> task_manager option \<Rightarrow> string + context_fragment list" where
  "task_context x cc ts m = (case m of None \<Rightarrow> Inr [] | Some v \<Rightarrow>
     budget_fragments x cc ts (cc_max_fragments cc) (cc_max_characters cc) False (task_fragments v))"

definition memory_context :: "text_format \<Rightarrow> context_compiler \<Rightarrow> string list \<Rightarrow> memory_record list \<Rightarrow> string + context_fragment list" where
  "memory_context x cc ts rs =
     budget_fragments x cc ts (cc_max_memory_fragments cc) (cc_max_memory_characters cc) False (memory_fragments rs)"

text \<open>\<open>compile\<close>: the parts are made in the order of the arguments of \<open>DecisionContext\<close>.\<close>

record compile_input =
  ci_state :: agent_state
  ci_capabilities :: "capability_definition list"
  ci_policy_summary :: "string list"
  ci_providers :: "context_provider list"
  ci_world :: "world_snapshot option"
  ci_evidence :: "evidence list"
  ci_tasks :: "task_manager option"
  ci_memories :: "memory_record list"
  ci_contracts :: "capability_input_contract list"

definition context_of :: "text_format \<Rightarrow> context_compiler \<Rightarrow> compile_input \<Rightarrow> context_fragment list \<Rightarrow> context_fragment list
    \<Rightarrow> context_fragment list \<Rightarrow> context_fragment list \<Rightarrow> context_fragment list \<Rightarrow> decision_context" where
  "context_of x cc i domains worlds evidences tasks memories =
     (let s = ci_state i; contracts = fold (\<lambda>c. AList.update (cic_capability c) c) (ci_contracts i) [] in
      \<lparr>dx_session_id = as_session_id s, dx_goal_id = g_id (as_goal s), dx_goal_description = g_description (as_goal s),
       dx_task_id = t_id (as_current_task s), dx_task_description = t_description (as_current_task s),
       dx_iteration = as_iteration s, dx_satisfied_criteria = as_satisfied_criteria s,
       dx_latest_observation = latest_observation s,
       dx_capabilities = map (\<lambda>c. capability_summary_of c (map_of contracts (cap_name c))) (ci_capabilities i),
       dx_goal_success_criteria = g_success_criteria (as_goal s),
       dx_task_required_criteria = t_required_criteria (as_current_task s),
       dx_domain_context = domains @ stall_advisory x cc (ci_evidence i), dx_world_context = worlds,
       dx_evidence_context = evidences, dx_task_context = tasks, dx_memory_context = memories,
       dx_policy_summary = ci_policy_summary i\<rparr>)"

definition compile_context :: "text_format \<Rightarrow> context_compiler \<Rightarrow> compile_input \<Rightarrow> string + decision_context" where
  "compile_context x cc i =
     (let ts = (if cc_relevance_ranking cc then compute_state_tokens (ci_state i) else []) in
      case select_fragments x cc ts (ci_state i) (ci_providers i) of Inl e \<Rightarrow> Inl e
      | Inr domains \<Rightarrow> (case world_context x cc ts (ci_world i) of Inl e \<Rightarrow> Inl e
      | Inr worlds \<Rightarrow> (case evidence_context x cc ts (ci_evidence i) of Inl e \<Rightarrow> Inl e
      | Inr evidences \<Rightarrow> (case task_context x cc ts (ci_tasks i) of Inl e \<Rightarrow> Inl e
      | Inr tasks \<Rightarrow> (case memory_context x cc ts (ci_memories i) of Inl e \<Rightarrow> Inl e
      | Inr memories \<Rightarrow> Inr (context_of x cc i domains worlds evidences tasks memories))))))"

end
