(* ===== verification/Context_Safety.thy ===== *)
theory Context_Safety
  imports Context_Compiler "HOL-Library.Multiset"
begin

text \<open>
  What the compiler of contexts guarantees: every part stays in its budget, what is kept is the first of
  the ranking and comes from its source, and the memories are ranked without regard to their confidence.
\<close>

subsection \<open>The budget\<close>

definition characters :: "context_fragment list \<Rightarrow> int" where
  "characters fs = (\<Sum>f\<leftarrow>fs. int (length (cf_content f)))"

definition tags :: "context_fragment list \<Rightarrow> (string \<times> int) list" where
  "tags fs = map (\<lambda>f. (cf_key f, cf_priority f)) fs"

lemma characters_simps [simp]: "characters [] = 0" "characters (f # fs) = int (length (cf_content f)) + characters fs"
  "characters (fs @ gs) = characters fs + characters gs"
  by (simp_all add: characters_def)

lemma slice_to_pos: "0 < n \<Longrightarrow> int (length (slice_to n xs)) \<le> n"
  by (simp add: slice_to_def)

lemma budget_loop_kept:
  assumes "budget_loop x cc most room fs seen selected used = Inr r" and "used = characters selected"
    and "characters selected \<le> max 0 room" and "int (length selected) \<le> max 0 most"
  shows "characters r \<le> max 0 room \<and> int (length r) \<le> max 0 most
    \<and> (\<exists>gs. tags r = tags selected @ tags gs \<and> set gs \<subseteq> set fs \<and> (\<not> cc_dedup cc \<longrightarrow> (\<exists>n. gs = take n fs)))"
  using assms
proof (induction fs arbitrary: seen selected used)
  case Nil
  then show ?case by (auto simp: tags_def)
next
  case (Cons f fs)
  let ?skip = "cc_dedup cc \<and> normalize_text (cf_content f) \<in> set seen"
  show ?case
  proof (cases "most \<le> int (length selected) \<or> \<not> ?skip \<and> room - used \<le> 0")
    case True
    then have "r = selected" using Cons.prems(1) by (auto simp: Let_def split: if_splits)
    then show ?thesis using Cons.prems(3,4) by (intro conjI exI [of _ "[]"]) (auto simp: tags_def intro: exI [of _ 0])
  next
    case False
    show ?thesis
    proof (cases ?skip)
      case True
      then have "budget_loop x cc most room fs seen selected used = Inr r" using Cons.prems(1) False by (simp add: Let_def)
      from Cons.IH [OF this Cons.prems(2-4)] True show ?thesis by auto
    next
      case no: False
      obtain content where c: "budget_loop x cc most room fs (normalize_text (cf_content f) # seen)
          (selected @ [f\<lparr>cf_content := slice_to (room - used) content\<rparr>]) (used + int (length (slice_to (room - used) content))) = Inr r"
        using Cons.prems(1) False no by (auto simp: Let_def split: sum.splits if_splits)
      have pos: "0 < room - used" and most: "int (length selected) < most" using False no by auto
      have "int (length (slice_to (room - used) content)) \<le> room - used" using pos by (rule slice_to_pos)
      then have p: "used + int (length (slice_to (room - used) content)) = characters (selected @ [f\<lparr>cf_content := slice_to (room - used) content\<rparr>])"
        "characters (selected @ [f\<lparr>cf_content := slice_to (room - used) content\<rparr>]) \<le> max 0 room"
        "int (length (selected @ [f\<lparr>cf_content := slice_to (room - used) content\<rparr>])) \<le> max 0 most"
        using Cons.prems(2) most pos by simp_all
      from Cons.IH [OF c p] obtain gs where gs: "characters r \<le> max 0 room" "int (length r) \<le> max 0 most"
        "tags r = tags (selected @ [f\<lparr>cf_content := slice_to (room - used) content\<rparr>]) @ tags gs" "set gs \<subseteq> set fs"
        "\<not> cc_dedup cc \<longrightarrow> (\<exists>n. gs = take n fs)" by blast
      have "tags r = tags selected @ tags (f # gs)" using gs(3) by (simp add: tags_def)
      moreover have "\<not> cc_dedup cc \<longrightarrow> (\<exists>n. f # gs = take n (f # fs))" using gs(5) by (metis take_Suc_Cons)
      ultimately show ?thesis using gs(1,2,4) by (intro conjI exI [of _ "f # gs"]) auto
    qed
  qed
qed

text \<open>What is kept of a ranking: within the budget, and the first of them unless duplicates are dropped.\<close>

definition kept :: "context_compiler \<Rightarrow> int \<Rightarrow> int \<Rightarrow> context_fragment list \<Rightarrow> context_fragment list \<Rightarrow> bool" where
  "kept cc most room ranked fs \<longleftrightarrow> int (length fs) \<le> max 0 most \<and> characters fs \<le> max 0 room
     \<and> set (tags fs) \<subseteq> set (tags ranked) \<and> (cc_dedup cc \<or> (\<exists>n. tags fs = take n (tags ranked)))"

lemma budget_kept:
  assumes "budget_fragments x cc ts most room pre fs = Inr r"
  shows "kept cc most room (if pre then fs else rank_fragments ts fs) r"
proof -
  let ?ranked = "if pre then fs else rank_fragments ts fs"
  obtain gs where gs: "characters r \<le> max 0 room" "int (length r) \<le> max 0 most" "tags r = tags gs" "set gs \<subseteq> set ?ranked"
    "\<not> cc_dedup cc \<longrightarrow> (\<exists>n. gs = take n ?ranked)"
    using budget_loop_kept [OF assms [unfolded budget_fragments_def]] by (auto simp: tags_def)
  have "set (tags gs) \<subseteq> set (tags ?ranked)" using gs(4) unfolding tags_def set_map by (rule image_mono)
  moreover have "\<not> cc_dedup cc \<longrightarrow> (\<exists>n. tags gs = take n (tags ?ranked))" using gs(5) by (metis tags_def take_map)
  ultimately show ?thesis using gs(1-3) by (auto simp: kept_def)
qed


text \<open>A state without providers, with one memory whose text is longer than the room for it.\<close>

definition plain_format :: text_format where
  "plain_format = \<lparr>tx_loads = (\<lambda>_. None), tx_dumps = (\<lambda>_. []), tx_repr = (\<lambda>_. []), tx_show2 = (\<lambda>_. []), tx_dots = CHR ''~''\<rparr>"

definition small_input :: compile_input where
  "small_input = \<lparr>ci_state = asking_state, ci_capabilities = [], ci_policy_summary = [], ci_providers = [], ci_world = None,
     ci_evidence = [], ci_tasks = None, ci_memories = [sample_episode], ci_contracts = []\<rparr>"

definition small_compiler :: context_compiler where
  "small_compiler = default_compiler\<lparr>cc_max_memory_characters := 9, cc_relevance_ranking := False\<rparr>"


subsection \<open>The ranking of memories\<close>

lemma rank_unique:
  assumes "mset fs = mset gs" and "inj_on cf_key (set fs)"
  shows "rank_fragments ts fs = rank_fragments ts gs"
proof -
  have set: "set gs = set fs" using assms(1) by (metis set_mset_mset)
  have inj: "inj_on (\<lambda>f. (cf_priority f, - relevance f ts, cf_key f)) (set fs)" "inj_on (\<lambda>f. (cf_priority f, cf_key f)) (set fs)"
    using assms(2) by (auto simp: inj_on_def)
  have "sort_key f fs = sort_key f gs" if "inj_on f (set fs)" for f :: "context_fragment \<Rightarrow> 'b::linorder"
    using assms(1) that by (intro sort_key_inj_key_eq) simp_all
  from this [OF inj(1)] this [OF inj(2)] show ?thesis by (simp add: rank_fragments_def)
qed

lemma memory_fragments_mset: "mset (memory_fragments rs) = mset (map memory_fragment rs)"
  by (simp add: memory_fragments_def sort_reverse_def)

text \<open>The confidence of memories does not matter. \<open>_memory_fragments\<close> puts the most confident first, but all
  memories have one priority, so that \<open>_budget_fragments\<close> sorts them again by relevance and id: whatever
  confidences the memories had, the same of them are kept, in the same order.\<close>

theorem memory_confidence_ignored:
  assumes "distinct (map mr_id rs)"
  shows "memory_context x cc ts (map (\<lambda>r. r\<lparr>mr_confidence := conf r\<rparr>) rs) = memory_context x cc ts rs"
proof -
  let ?rs = "map (\<lambda>r. r\<lparr>mr_confidence := conf r\<rparr>) rs"
  have same: "map memory_fragment ?rs = map memory_fragment rs" by (simp add: memory_fragment_def)
  have "inj_on mr_id (set rs)" using assms by (simp add: distinct_map)
  then have "inj_on cf_key (memory_fragment ` set rs)" by (auto simp: inj_on_def memory_fragment_def fragment_def)
  then have inj: "inj_on cf_key (set (memory_fragments ?rs))"
    using same by (metis list.set_map memory_fragments_mset set_mset_mset)
  have "mset (memory_fragments ?rs) = mset (memory_fragments rs)" unfolding memory_fragments_mset same ..
  from rank_unique [OF this inj] show ?thesis by (simp add: memory_context_def budget_fragments_def)
qed

theorem memory_confidence_ignored_witness:
  "memory_context plain_format default_compiler [] [sample_episode\<lparr>mr_confidence := 0\<rparr>, sample_episode\<lparr>mr_id := ''m2'', mr_confidence := 0\<rparr>]
    = memory_context plain_format default_compiler [] [sample_episode, sample_episode\<lparr>mr_id := ''m2''\<rparr>]"
  using memory_confidence_ignored [of "[sample_episode, sample_episode\<lparr>mr_id := ''m2''\<rparr>]" plain_format default_compiler "[]" "\<lambda>_. 0"]
  by (simp add: sample_episode_def)

end
