(* ===== verification/Memory_Upkeep.thy ===== *)
theory Memory_Upkeep
  imports Memory Agent_Tasks World_Merge
begin

text \<open>
  What keeps the memories in order: \<open>memory/consolidator.py\<close>, and the stores of \<open>memory/preference.py\<close> and
  \<open>memory/procedural.py\<close>.

  Parameters of the consolidator: \<open>rapidfuzz\<close>'s \<open>extract\<close> (query, choices and cutoff to scores with the index
  of the choice, at most five), the format with two digits, the order in which a set of tags is listed, the new
  identifiers, the clock with its ISO text, and the same date one year ago, which \<open>None\<close> says does not exist.
  The records come out of the store, so the checks of \<open>MemoryRecord\<close> pass for what is made of them. The ids
  and times of the actions are left out.
\<close>

subsection \<open>The consolidator\<close>

record memory_keeper =
  mk_threshold :: rat
  mk_extract :: "string \<Rightarrow> string list \<Rightarrow> rat \<Rightarrow> (rat \<times> nat) list"
  mk_show2 :: "rat \<Rightarrow> string"
  mk_tags :: "string list \<Rightarrow> string list"
  mk_new_id :: "nat \<Rightarrow> string"
  mk_now :: time
  mk_now_text :: string
  mk_year_ago :: "time option"

record upkeep_action =
  ua_type :: string
  ua_target_ids :: "string list"
  ua_reason :: string
  ua_metadata :: json_mapping

record upkeep_result =
  ur_actions_applied :: nat
  ur_records_merged :: nat
  ur_records_archived :: nat
  ur_conflicts_resolved :: nat
  ur_actions :: "upkeep_action list"

text \<open>The store, the number of ids drawn, and the actions of the present stage.\<close>

record upkeep =
  up_store :: memory_store
  up_drawn :: nat
  up_actions :: "upkeep_action list"

text \<open>A new record under a new id, and the action that reports it.\<close>

definition keep_record :: "memory_keeper \<Rightarrow> memory_record \<Rightarrow> upkeep_action \<Rightarrow> upkeep \<Rightarrow> upkeep" where
  "keep_record k r a u = \<lparr>up_store = snd (add_memory r (up_store u)), up_drawn = up_drawn u + 1,
     up_actions = up_actions u @ [a]\<rparr>"

definition merge_records :: "memory_keeper \<Rightarrow> nat \<Rightarrow> memory_record \<Rightarrow> memory_record \<Rightarrow> memory_record" where
  "merge_records k n a b =
     (let (primary, secondary) = (if mr_confidence a < mr_confidence b then (b, a) else (a, b)) in
      \<lparr>mr_kind = mr_kind primary, mr_subject = mr_subject primary, mr_content = mr_content primary,
       mr_scope = mr_scope primary, mr_confidence = max (mr_confidence a) (mr_confidence b),
       mr_source_session_id = mr_source_session_id primary, mr_id = mk_new_id k n, mr_created_at = mk_now k,
       mr_version = max (mr_version a) (mr_version b) + 1, mr_tags = mk_tags k (mr_tags a @ mr_tags b),
       mr_source = ''consolidator'',
       mr_metadata = merge_mappings [mr_metadata a, mr_metadata b,
         [(''merged_from'', JStr (mr_id secondary)), (''merge_timestamp'', JStr (mk_now_text k))]]\<rparr>)"

definition memory_text :: "memory_record \<Rightarrow> string \<times> string" where
  "memory_text r = (mr_subject r, mr_content r)"

fun deduplicate_exact :: "memory_keeper \<Rightarrow> memory_record list \<Rightarrow> (string \<times> string, memory_record) dict \<Rightarrow> upkeep \<Rightarrow> upkeep" where
  "deduplicate_exact k [] seen u = u"
| "deduplicate_exact k (r # rs) seen u = (case map_of seen (memory_text r) of
     None \<Rightarrow> deduplicate_exact k rs (AList.update (memory_text r) r seen) u
   | Some e \<Rightarrow> deduplicate_exact k rs seen (keep_record k (merge_records k (up_drawn u) e r)
       \<lparr>ua_type = ''deduplicate_exact'', ua_target_ids = [mr_id e, mr_id r],
        ua_reason = ''Exact duplicate merged: '' @ mr_subject r, ua_metadata = []\<rparr> u))"

text \<open>The matches of one record, then the loop over the records.\<close>

fun merge_matches :: "memory_keeper \<Rightarrow> memory_record \<Rightarrow> memory_record list \<Rightarrow> (rat \<times> nat) list \<Rightarrow> string list \<times> upkeep
    \<Rightarrow> string list \<times> upkeep" where
  "merge_matches k r candidates [] p = p"
| "merge_matches k r candidates ((score, i) # ms) (processed, u) =
     (let c = candidates ! i in
      if mr_id c \<in> set processed then merge_matches k r candidates ms (processed, u)
      else merge_matches k r candidates ms (mr_id c # processed, keep_record k (merge_records k (up_drawn u) r c)
        \<lparr>ua_type = ''deduplicate_fuzzy'', ua_target_ids = [mr_id r, mr_id c],
         ua_reason = ''Fuzzy duplicate merged (score: '' @ mk_show2 k (score / 100) @ ''): '' @ mr_subject r,
         ua_metadata = [(''similarity_score'', JFloat (score / 100))]\<rparr> u))"

fun deduplicate_fuzzy :: "memory_keeper \<Rightarrow> memory_record list \<Rightarrow> string list \<times> upkeep \<Rightarrow> string list \<times> upkeep" where
  "deduplicate_fuzzy k [] p = p"
| "deduplicate_fuzzy k (r # rs) p =
     (if mr_id r \<in> set (fst p) then deduplicate_fuzzy k rs p
      else let candidates = filter (\<lambda>c. mr_id c \<notin> set (fst p) \<and> mr_kind c = mr_kind r \<and> mr_subject c = mr_subject r
             \<and> mr_content c \<noteq> mr_content r) rs in
        if candidates = [] then deduplicate_fuzzy k rs p
        else deduplicate_fuzzy k rs (merge_matches k r candidates
               (mk_extract k (mr_content r) (map mr_content candidates) (mk_threshold k * 100)) p))"

fun merge_group :: "memory_keeper \<Rightarrow> string \<Rightarrow> nat \<Rightarrow> memory_record \<Rightarrow> memory_record list \<Rightarrow> upkeep \<Rightarrow> upkeep" where
  "merge_group k subject n primary [] u = u"
| "merge_group k subject n primary (s # ss) u =
     (if mr_confidence s < 3 / 10 \<or> mr_content s = mr_content primary then merge_group k subject n primary ss u
      else let merged = merge_records k (up_drawn u) primary s in
        merge_group k subject n merged ss (keep_record k merged
          \<lparr>ua_type = ''merge_related'', ua_target_ids = [mr_id merged],
           ua_reason = ''Merged related claims for '' @ subject, ua_metadata = [(''merged_count'', JInt (int n))]\<rparr> u))"

definition merge_related :: "memory_keeper \<Rightarrow> memory_record list \<Rightarrow> upkeep \<Rightarrow> upkeep" where
  "merge_related k rs u = fold (\<lambda>(subject, group) u.
     (case sort_reverse mr_confidence group of primary # ss \<Rightarrow>
        if ss = [] then u else merge_group k subject (length group) primary ss u
      | [] \<Rightarrow> u)) (fold (\<lambda>r. append_at (mr_subject r) r) rs []) u"

text \<open>A copy of a record that is marked as archived.\<close>

definition archived_copy :: "memory_keeper \<Rightarrow> nat \<Rightarrow> memory_record \<Rightarrow> int \<Rightarrow> json_mapping \<Rightarrow> memory_record" where
  "archived_copy k n r version extra = r\<lparr>mr_id := mk_new_id k n, mr_created_at := mk_now k, mr_version := version,
     mr_tags := mr_tags r @ [''archived''], mr_source := ''consolidator'', mr_metadata := merge_mappings [mr_metadata r, extra]\<rparr>"

definition resolve_version_conflicts :: "memory_keeper \<Rightarrow> memory_record list \<Rightarrow> upkeep \<Rightarrow> upkeep" where
  "resolve_version_conflicts k rs u = fold (\<lambda>(_, group) u.
     (case sort_reverse mr_version group of latest # olds \<Rightarrow>
        fold (\<lambda>old u. if mr_version latest \<le> mr_version old then u
          else keep_record k (archived_copy k (up_drawn u) old (mr_version old)
              [(''archived'', JBool True), (''archived_reason'', JStr ''version_conflict_resolved''), (''replaced_by'', JStr (mr_id latest))])
            \<lparr>ua_type = ''archive_version'', ua_target_ids = [mr_id old],
             ua_reason = ''Archived old version of '' @ mr_subject old, ua_metadata = []\<rparr> u) olds u
      | [] \<Rightarrow> u)) (fold (\<lambda>r. append_at (memory_text r) r) rs []) u"

definition archive_old :: "memory_keeper \<Rightarrow> time \<Rightarrow> memory_record list \<Rightarrow> upkeep \<Rightarrow> upkeep" where
  "archive_old k cutoff rs u = fold (\<lambda>r u.
     if mr_created_at r < cutoff \<and> mr_confidence r < 1 / 2
     then keep_record k (archived_copy k (up_drawn u) r (mr_version r + 1)
         [(''archived'', JBool True), (''archived_reason'', JStr ''old_low_confidence''), (''archived_at'', JStr (mk_now_text k))])
       \<lparr>ua_type = ''archive'', ua_target_ids = [mr_id r],
        ua_reason = ''Archived old low-confidence record: '' @ mr_subject r, ua_metadata = []\<rparr> u
     else u) rs u"

definition records_in_scope :: "string \<Rightarrow> memory_store \<Rightarrow> memory_record list" where
  "records_in_scope scope st = (if scope = [] then export_memory st
     else filter (\<lambda>r. mr_scope r = scope \<or> mr_scope r = []) (export_memory st))"

definition after_dedup :: "memory_keeper \<Rightarrow> memory_record list \<Rightarrow> memory_store \<Rightarrow> nat \<Rightarrow> upkeep" where
  "after_dedup k rs st n = deduplicate_exact k rs [] \<lparr>up_store = st, up_drawn = n, up_actions = []\<rparr>"

text \<open>\<open>consolidate\<close>; the error is that of \<open>datetime.replace\<close> on a 29th of February.\<close>

definition consolidate :: "memory_keeper \<Rightarrow> string \<Rightarrow> memory_store \<Rightarrow> nat \<Rightarrow> (memory_store \<times> nat, string, upkeep_result) outcome" where
  "consolidate k scope st n =
     (let rs = records_in_scope scope st;
          u1 = after_dedup k rs st n;
          u2 = snd (deduplicate_fuzzy k rs ([], u1\<lparr>up_actions := []\<rparr>));
          u3 = merge_related k rs (u2\<lparr>up_actions := []\<rparr>);
          u4 = resolve_version_conflicts k rs (u3\<lparr>up_actions := []\<rparr>)
      in case mk_year_ago k of None \<Rightarrow> (Inl ''day is out of range for month'', up_store u4, up_drawn u4)
         | Some cutoff \<Rightarrow>
             (let u5 = archive_old k cutoff rs (u4\<lparr>up_actions := []\<rparr>);
                  actions = up_actions u1 @ up_actions u2 @ up_actions u3 @ up_actions u4 @ up_actions u5
              in (Inr \<lparr>ur_actions_applied = length actions,
                    ur_records_merged = length (up_actions u1) + length (up_actions u2) + length (up_actions u3),
                    ur_records_archived = length (up_actions u5), ur_conflicts_resolved = length (up_actions u4),
                    ur_actions = actions\<rparr>, up_store u5, up_drawn u5)))"

subsection \<open>Preferences\<close>

record user_preference =
  pf_id :: string
  pf_key :: string
  pf_value :: json_mapping
  pf_domain :: string
  pf_confidence :: rat
  pf_confirmations :: nat
  pf_updated_at :: time
  pf_source :: string
  pf_tags :: "string list"
  pf_metadata :: json_mapping
  pf_created_at :: time

record preference_memory =
  pm_preferences :: "(string, user_preference) dict"
  pm_key_index :: "(string, string) dict"

definition new_preferences :: preference_memory where
  "new_preferences = \<lparr>pm_preferences = [], pm_key_index = []\<rparr>"

definition index_key :: "string \<Rightarrow> string \<Rightarrow> string" where
  "index_key domain key = domain @ '':'' @ key"

record preference_args =
  pg_confidence :: rat
  pg_source :: string
  pg_tags :: "string list"
  pg_metadata :: "json_mapping option"

definition set_preference :: "string \<Rightarrow> time \<Rightarrow> string \<Rightarrow> json_mapping \<Rightarrow> string \<Rightarrow> preference_args \<Rightarrow> preference_memory
    \<Rightarrow> user_preference \<times> preference_memory" where
  "set_preference new_id now key value domain args m =
     (let extra = (case pg_metadata args of None \<Rightarrow> [] | Some d \<Rightarrow> d) in
      case (case map_of (pm_key_index m) (index_key domain key) of None \<Rightarrow> None
            | Some i \<Rightarrow> if i = [] then None else map_of (pm_preferences m) i) of
        Some e \<Rightarrow>
          (let p = e\<lparr>pf_value := value, pf_confidence := min 1 (pf_confidence e + 1 / 20),
                 pf_confirmations := pf_confirmations e + 1, pf_updated_at := now, pf_source := pg_source args,
                 pf_metadata := merge_mappings [pf_metadata e, extra]\<rparr>
           in (p, m\<lparr>pm_preferences := AList.update (the (map_of (pm_key_index m) (index_key domain key))) p (pm_preferences m)\<rparr>))
      | None \<Rightarrow>
          (let p = \<lparr>pf_id = new_id, pf_key = key, pf_value = value, pf_domain = domain, pf_confidence = pg_confidence args,
                 pf_confirmations = 0, pf_updated_at = now, pf_source = pg_source args, pf_tags = pg_tags args,
                 pf_metadata = extra, pf_created_at = now\<rparr>
           in (p, \<lparr>pm_preferences = AList.update new_id p (pm_preferences m),
                   pm_key_index = AList.update (index_key domain key) new_id (pm_key_index m)\<rparr>)))"

definition get_preference :: "string \<Rightarrow> string \<Rightarrow> preference_memory \<Rightarrow> user_preference option" where
  "get_preference key domain m = (case map_of (pm_key_index m) (index_key domain key) of None \<Rightarrow> None
     | Some i \<Rightarrow> if i = [] then None else map_of (pm_preferences m) i)"

definition all_preferences :: "string \<Rightarrow> preference_memory \<Rightarrow> user_preference list" where
  "all_preferences domain m = filter (\<lambda>p. domain = [] \<or> pf_domain p = domain) (dict_values (pm_preferences m))"

definition delete_preference :: "string \<Rightarrow> string \<Rightarrow> preference_memory \<Rightarrow> bool \<times> preference_memory" where
  "delete_preference key domain m =
     (let found = map_of (pm_key_index m) (index_key domain key);
          m1 = m\<lparr>pm_key_index := AList.delete (index_key domain key) (pm_key_index m)\<rparr>
      in case found of None \<Rightarrow> (False, m1)
         | Some i \<Rightarrow> if i \<noteq> [] \<and> map_of (pm_preferences m) i \<noteq> None
             then (True, m1\<lparr>pm_preferences := AList.delete i (pm_preferences m1)\<rparr>) else (False, m1))"

definition preferences_by_tag :: "string \<Rightarrow> string \<Rightarrow> preference_memory \<Rightarrow> user_preference list" where
  "preferences_by_tag tag domain m = filter (\<lambda>p. tag \<in> set (pf_tags p) \<and> (domain = [] \<or> pf_domain p = domain))
     (dict_values (pm_preferences m))"

subsection \<open>Procedures\<close>

record procedural_pattern =
  pn_id :: string
  pn_name :: string
  pn_description :: string
  pn_goal_pattern :: string
  pn_steps :: "string list"
  pn_step_arguments :: "(string, json_mapping) dict"
  pn_domain :: string
  pn_capabilities :: "string list"
  pn_success_rate :: rat
  pn_execution_count :: int
  pn_last_executed_at :: "time option"
  pn_tags :: "string list"
  pn_domain_name :: string
  pn_domain_version :: string
  pn_metadata :: json_mapping
  pn_created_at :: time
  pn_updated_at :: time

type_synonym procedural_memory = "(string, procedural_pattern) dict"

definition add_pattern :: "procedural_pattern \<Rightarrow> procedural_memory \<Rightarrow> bool \<times> procedural_memory" where
  "add_pattern p m = (if map_of m (pn_id p) \<noteq> None then (False, m) else (True, AList.update (pn_id p) p m))"

definition update_pattern :: "time \<Rightarrow> procedural_pattern \<Rightarrow> procedural_memory \<Rightarrow> bool \<times> procedural_memory" where
  "update_pattern now p m = (case map_of m (pn_id p) of None \<Rightarrow> (False, m)
     | Some old \<Rightarrow> (True, AList.update (pn_id p) (p\<lparr>pn_created_at := pn_created_at old, pn_updated_at := now\<rparr>) m))"

definition record_success :: "time \<Rightarrow> string \<Rightarrow> procedural_memory \<Rightarrow> bool \<times> procedural_memory" where
  "record_success now i m = (case map_of m i of None \<Rightarrow> (False, m)
     | Some p \<Rightarrow> (True, AList.update i (p\<lparr>pn_success_rate := min 1 (pn_success_rate p + 1 / 100),
         pn_execution_count := pn_execution_count p + 1, pn_last_executed_at := Some now, pn_updated_at := now\<rparr>) m))"

text \<open>\<open>a in b\<close> for strings.\<close>

definition contains_text :: "string \<Rightarrow> string \<Rightarrow> bool" where
  "contains_text a b \<longleftrightarrow> list_ex (\<lambda>i. starts_with a (drop i b)) [0..<length b + 1]"

definition pattern_matches :: "string \<Rightarrow> string list \<Rightarrow> string \<Rightarrow> rat \<Rightarrow> procedural_pattern \<Rightarrow> bool" where
  "pattern_matches goal caps domain min_rate p \<longleftrightarrow>
     (domain = [] \<or> pn_domain_name p = domain) \<and> min_rate \<le> pn_success_rate p
     \<and> (caps = [] \<or> list_ex (\<lambda>c. c \<in> set (pn_capabilities p)) caps)
     \<and> (goal = [] \<or> contains_text (py_lower goal) (py_lower (pn_goal_pattern p)))"

definition pattern_score :: "procedural_pattern \<Rightarrow> rat" where
  "pattern_score p = pn_success_rate p * (1 + of_int (pn_execution_count p) / 10)"

definition find_patterns :: "string \<Rightarrow> string list \<Rightarrow> string \<Rightarrow> rat \<Rightarrow> int \<Rightarrow> procedural_memory \<Rightarrow> procedural_pattern list" where
  "find_patterns goal caps domain min_rate limit m =
     slice_to limit (sort_reverse pattern_score (filter (pattern_matches goal caps domain min_rate) (dict_values m)))"

definition get_pattern :: "string \<Rightarrow> procedural_memory \<Rightarrow> procedural_pattern option" where
  "get_pattern i m = map_of m i"

definition all_patterns :: "procedural_memory \<Rightarrow> procedural_pattern list" where
  "all_patterns m = dict_values m"

end
