(* ===== verification/Upkeep_Safety.thy ===== *)
theory Upkeep_Safety
  imports Memory_Upkeep
begin

text \<open>
  What the upkeep of memories does and does not: a consolidation only adds records, so that it multiplies
  the duplicates it is to remove; and preferences of different domains are kept apart as long as the
  names of the domains have no colon.
\<close>

subsection \<open>A consolidation only adds\<close>

definition grown_by :: "upkeep \<Rightarrow> upkeep \<Rightarrow> bool" where
  "grown_by u v \<longleftrightarrow> (\<exists>new. up_store v = up_store u @ new)"

lemma update_absent: "map_of d k = None \<Longrightarrow> AList.update k v d = d @ [(k, v)]"
  by (induction d) (auto split: if_splits)

lemma grown_refl [intro]: "grown_by u u"
  by (simp add: grown_by_def)

lemma grown_trans: "grown_by u v \<Longrightarrow> grown_by v w \<Longrightarrow> grown_by u w"
  by (auto simp: grown_by_def)

lemma grown_actions [simp]: "grown_by (u\<lparr>up_actions := as\<rparr>) v = grown_by u v"
  by (simp add: grown_by_def)

lemma grown_keep: "grown_by u (keep_record k r a u)"
  by (simp add: grown_by_def keep_record_def add_memory_def update_absent)

lemma grown_fold: "(\<And>x u. grown_by u (f x u)) \<Longrightarrow> grown_by u (fold f xs u)"
  by (induction xs arbitrary: u) (auto intro: grown_trans)

lemma grown_exact: "grown_by u (deduplicate_exact k rs seen u)"
proof (induction k rs seen u rule: deduplicate_exact.induct)
  case (2 k r rs seen u)
  then show ?case by (auto split: option.split intro: grown_trans [OF grown_keep])
qed auto

lemma grown_matches: "grown_by (snd p) (snd (merge_matches k r cs ms p))"
proof (induction k r cs ms p rule: merge_matches.induct)
  case (2 k r cs score i ms processed u)
  then show ?case by (auto simp: Let_def intro: grown_trans [OF grown_keep])
qed auto

lemma grown_fuzzy: "grown_by (snd p) (snd (deduplicate_fuzzy k rs p))"
proof (induction k rs p rule: deduplicate_fuzzy.induct)
  case (2 k r rs p)
  then show ?case by (auto simp: Let_def intro: grown_trans [OF grown_matches])
qed auto

lemma grown_group: "grown_by u (merge_group k s n p rs u)"
proof (induction k s n p rs u rule: merge_group.induct)
  case (2 k subject n primary s ss u)
  then show ?case by (auto simp: Let_def intro: grown_trans [OF grown_keep])
qed auto

lemma grown_related: "grown_by u (merge_related k rs u)"
  unfolding merge_related_def by (rule grown_fold) (auto split: list.split prod.split intro: grown_group)

lemma grown_versions: "grown_by u (resolve_version_conflicts k rs u)"
  unfolding resolve_version_conflicts_def
  by (rule grown_fold) (auto split: list.split prod.split intro!: grown_fold grown_keep)

lemma grown_archive: "grown_by u (archive_old k cutoff rs u)"
  unfolding archive_old_def by (rule grown_fold) (auto intro: grown_keep)

text \<open>All that follows the first stage.\<close>

lemma consolidate_grows:
  "\<exists>new. fst (snd (consolidate k scope st n)) = up_store (after_dedup k (records_in_scope scope st) st n) @ new"
proof -
  let ?rs = "records_in_scope scope st"
  define u1 where "u1 = after_dedup k ?rs st n"
  define u2 where "u2 = snd (deduplicate_fuzzy k ?rs ([], u1\<lparr>up_actions := []\<rparr>))"
  define u3 where "u3 = merge_related k ?rs (u2\<lparr>up_actions := []\<rparr>)"
  define u4 where "u4 = resolve_version_conflicts k ?rs (u3\<lparr>up_actions := []\<rparr>)"
  have "grown_by u1 u2" using grown_fuzzy [of "([], u1\<lparr>up_actions := []\<rparr>)" k ?rs] by (simp add: u2_def)
  moreover have "grown_by u2 u3" using grown_related [of "u2\<lparr>up_actions := []\<rparr>" k ?rs] by (simp add: u3_def)
  moreover have "grown_by u3 u4" using grown_versions [of "u3\<lparr>up_actions := []\<rparr>" k ?rs] by (simp add: u4_def)
  ultimately have 4: "grown_by u1 u4" by (blast intro: grown_trans)
  show ?thesis
  proof (cases "mk_year_ago k")
    case None
    then have "fst (snd (consolidate k scope st n)) = up_store u4" by (simp add: consolidate_def Let_def u1_def u2_def u3_def u4_def)
    then show ?thesis using 4 by (simp add: grown_by_def u1_def)
  next
    case (Some cutoff)
    then have c: "fst (snd (consolidate k scope st n)) = up_store (archive_old k cutoff ?rs (u4\<lparr>up_actions := []\<rparr>))"
      by (simp add: consolidate_def Let_def u1_def u2_def u3_def u4_def)
    have "grown_by u1 (archive_old k cutoff ?rs (u4\<lparr>up_actions := []\<rparr>))"
      using grown_trans [OF 4, of "archive_old k cutoff ?rs (u4\<lparr>up_actions := []\<rparr>)"] grown_archive [of "u4\<lparr>up_actions := []\<rparr>" k cutoff ?rs] by simp
    then show ?thesis by (simp add: c grown_by_def u1_def)
  qed
qed

subsection \<open>Duplicates\<close>

definition copies :: "string \<times> string \<Rightarrow> memory_record list \<Rightarrow> nat" where
  "copies t rs = length (filter (\<lambda>r. memory_text r = t) rs)"

lemma copies_simps [simp]: "copies t [] = 0" "copies t (rs @ ss) = copies t rs + copies t ss"
  "copies t (r # rs) = (if memory_text r = t then 1 else 0) + copies t rs"
  by (simp_all add: copies_def)

definition unused_ids :: "memory_keeper \<Rightarrow> upkeep \<Rightarrow> bool" where
  "unused_ids k u \<longleftrightarrow> (\<forall>i \<ge> up_drawn u. mk_new_id k i \<notin> set (dict_keys (up_store u)))"

lemma merged_text: "memory_text a = t \<Longrightarrow> memory_text b = t \<Longrightarrow> memory_text (merge_records k n a b) = t"
  by (auto simp: merge_records_def memory_text_def)

lemma merged_id: "mr_id (merge_records k n a b) = mk_new_id k n"
  by (simp add: merge_records_def Let_def split: prod.split)

lemma exact_copies:
  assumes "inj (mk_new_id k)" and "unused_ids k u" and "\<And>t e. map_of seen t = Some e \<Longrightarrow> memory_text e = t"
  shows "copies t (dict_values (up_store (deduplicate_exact k rs seen u)))
    = copies t (dict_values (up_store u)) + (copies t rs - (if map_of seen t = None then 1 else 0))"
  using assms(2,3)
proof (induction rs arbitrary: seen u)
  case (Cons r rs)
  show ?case
  proof (cases "map_of seen (memory_text r)")
    case None
    have "copies t (dict_values (up_store (deduplicate_exact k rs (AList.update (memory_text r) r seen) u)))
      = copies t (dict_values (up_store u)) + (copies t rs - (if map_of (AList.update (memory_text r) r seen) t = None then 1 else 0))"
      using Cons.prems by (intro Cons.IH) (auto simp: dict_simps split: if_splits)
    then show ?thesis using None by (auto simp: dict_simps simp del: map_of_eq_None_iff)
  next
    case (Some e)
    let ?m = "merge_records k (up_drawn u) e r"
    let ?u = "keep_record k ?m \<lparr>ua_type = ''deduplicate_exact'', ua_target_ids = [mr_id e, mr_id r],
        ua_reason = ''Exact duplicate merged: '' @ mr_subject r, ua_metadata = []\<rparr> u"
    have "map_of (up_store u) (mk_new_id k (up_drawn u)) = None"
      using Cons.prems(1) by (simp add: unused_ids_def map_of_eq_None_iff)
    then have st: "up_store ?u = up_store u @ [(mk_new_id k (up_drawn u), ?m)]"
      by (simp add: keep_record_def add_memory_def merged_id update_absent)
    have unused: "unused_ids k ?u"
      using Cons.prems(1) unfolding unused_ids_def st by (auto simp: keep_record_def inj_eq [OF assms(1)])
    have same_text: "memory_text ?m = memory_text r" using merged_text [OF Cons.prems(2) [OF Some]] by blast
    from Cons.IH [OF unused Cons.prems(2)] show ?thesis using Some st same_text by auto
  qed
qed simp

text \<open>Consolidating removes nothing and multiplies what it is to deduplicate. Every record that was in the
  store stays in it as it was, in front of what is new; and of a text that has \<open>c\<close> records in the
  scope there are at least \<open>c - 1\<close> more after the consolidation, a merged copy for each duplicate, since
  the originals are never deleted.\<close>

theorem consolidation_multiplies_duplicates:
  assumes "inj (mk_new_id k)" and "\<forall>i \<ge> n. mk_new_id k i \<notin> set (dict_keys st)"
  shows "(\<exists>new. fst (snd (consolidate k scope st n)) = st @ new)
    \<and> copies t (dict_values st) + (copies t (records_in_scope scope st) - 1) \<le> copies t (dict_values (fst (snd (consolidate k scope st n))))"
proof -
  let ?rs = "records_in_scope scope st" and ?u = "\<lparr>up_store = st, up_drawn = n, up_actions = []\<rparr>"
  obtain new where new: "fst (snd (consolidate k scope st n)) = up_store (after_dedup k ?rs st n) @ new"
    using consolidate_grows by blast
  have first: "grown_by ?u (after_dedup k ?rs st n)" unfolding after_dedup_def by (rule grown_exact)
  have "unused_ids k ?u" using assms(2) by (simp add: unused_ids_def)
  from exact_copies [OF assms(1) this, of "[]" t ?rs]
  have "copies t (dict_values (up_store (after_dedup k ?rs st n))) = copies t (dict_values st) + (copies t ?rs - 1)"
    by (simp add: after_dedup_def)
  then show ?thesis using new first by (auto simp: grown_by_def)
qed

definition sample_keeper :: memory_keeper where
  "sample_keeper = \<lparr>mk_threshold = 9 / 10, mk_extract = \<lambda>q cs c. [], mk_show2 = \<lambda>r. [], mk_tags = \<lambda>ts. ts,
     mk_new_id = \<lambda>i. ''new '' @ replicate i CHR ''i'', mk_now = 9, mk_now_text = [], mk_year_ago = Some 0\<rparr>"

definition sample_memory :: "string \<Rightarrow> memory_record" where
  "sample_memory i = \<lparr>mr_kind = Semantic, mr_subject = ''s'', mr_content = ''c'', mr_scope = [], mr_confidence = 1,
     mr_source_session_id = None, mr_id = i, mr_created_at = 1, mr_version = 1, mr_tags = [], mr_source = [], mr_metadata = []\<rparr>"

theorem consolidation_multiplies_duplicates_witness:
  "3 \<le> copies (''s'', ''c'') (dict_values (fst (snd (consolidate sample_keeper []
     [(''a'', sample_memory ''a''), (''b'', sample_memory ''b'')] 0))))"
proof -
  let ?st = "[(''a'', sample_memory ''a''), (''b'', sample_memory ''b'')]"
  have "inj (mk_new_id sample_keeper)" by (auto simp: sample_keeper_def inj_on_def)
  moreover have "\<forall>i \<ge> 0. mk_new_id sample_keeper i \<notin> set (dict_keys ?st)" by (simp add: sample_keeper_def)
  ultimately have "copies (''s'', ''c'') (dict_values ?st) + (copies (''s'', ''c'') (records_in_scope [] ?st) - 1)
    \<le> copies (''s'', ''c'') (dict_values (fst (snd (consolidate sample_keeper [] ?st 0))))"
    by (rule consolidation_multiplies_duplicates [THEN conjunct2])
  then show ?thesis
    by (simp add: records_in_scope_def export_memory_def memory_order_def memory_text_def sample_memory_def)
qed

subsection \<open>Preferences\<close>

definition preferences_ok :: "preference_memory \<Rightarrow> bool" where
  "preferences_ok m \<longleftrightarrow> (\<forall>a b i. map_of (pm_key_index m) a = Some i \<longrightarrow> map_of (pm_key_index m) b = Some i \<longrightarrow> a = b)"

lemma index_key_inject:
  "CHR '':'' \<notin> set d \<Longrightarrow> CHR '':'' \<notin> set d' \<Longrightarrow> index_key d k = index_key d' k' \<longleftrightarrow> d = d' \<and> k = k'"
  by (auto simp: index_key_def dest: split_first_sep)

text \<open>A preference that is set is what is got, and only that. With ids that are new, setting a
  preference makes \<open>get_preference\<close> answer it for its key and domain with the value that was set, and changes the
  answer for no other key or domain, as long as the names of the domains have no colon.\<close>

theorem preference_set_get:
  assumes "preferences_ok m" and "new_id \<noteq> []" and "new_id \<notin> set (dict_keys (pm_preferences m)) \<union> set (dict_values (pm_key_index m))"
    and "CHR '':'' \<notin> set d" and "CHR '':'' \<notin> set d'"
  shows "map_option pf_value (get_preference k' d' (snd (set_preference new_id now k v d args m)))
      = (if k' = k \<and> d' = d then Some v else map_option pf_value (get_preference k' d' m))
    \<and> preferences_ok (snd (set_preference new_id now k v d args m))"
proof -
  have inject: "index_key d' k' = index_key d k \<longleftrightarrow> d' = d \<and> k' = k" using assms(4,5) by (intro index_key_inject)
  have unused: "map_of (pm_preferences m) new_id = None" "\<And>a. map_of (pm_key_index m) a \<noteq> Some new_id"
    using assms(3) by (auto simp: map_of_eq_None_iff dest!: map_of_SomeD intro: rev_image_eqI)
  show ?thesis
  proof (cases "case map_of (pm_key_index m) (index_key d k) of None \<Rightarrow> None
            | Some i \<Rightarrow> if i = [] then None else map_of (pm_preferences m) i")
    case None
    have "preferences_ok (snd (set_preference new_id now k v d args m))"
      unfolding set_preference_def None Let_def option.case using assms(1) unused(2)
      by (auto simp: preferences_ok_def dict_simps split: if_splits)
    moreover have "map_option pf_value (get_preference k' d' (snd (set_preference new_id now k v d args m)))
      = (if k' = k \<and> d' = d then Some v else map_option pf_value (get_preference k' d' m))"
      unfolding set_preference_def None Let_def option.case using inject assms(2) unused(2)
      by (auto simp: get_preference_def dict_simps split: option.split)
    ultimately show ?thesis by blast
  next
    case (Some e)
    then obtain i where i: "map_of (pm_key_index m) (index_key d k) = Some i" "i \<noteq> []" "map_of (pm_preferences m) i = Some e"
      by (auto split: option.splits if_splits)
    have "preferences_ok (snd (set_preference new_id now k v d args m))"
      unfolding set_preference_def Some Let_def option.case using assms(1) by (simp add: preferences_ok_def)
    moreover have other: "a \<noteq> index_key d k \<Longrightarrow> map_of (pm_key_index m) a \<noteq> Some i" for a
      using assms(1) i(1) unfolding preferences_ok_def by blast
    moreover have "map_option pf_value (get_preference k' d' (snd (set_preference new_id now k v d args m)))
      = (if k' = k \<and> d' = d then Some v else map_option pf_value (get_preference k' d' m))"
      unfolding set_preference_def Some Let_def option.case using inject i other [of "index_key d' k'"]
      by (auto simp: get_preference_def dict_simps split: option.split)
    ultimately show ?thesis by blast
  qed
qed

theorem preference_set_get_witness:
  "map_option pf_value (get_preference ''k'' ''d'' (snd (set_preference ''i'' 1 ''k'' [(''v'', JNull)] ''d''
     \<lparr>pg_confidence = 1, pg_source = [], pg_tags = [], pg_metadata = None\<rparr> new_preferences))) = Some [(''v'', JNull)]"
  using preference_set_get [of new_preferences "''i''" "''d''" "''d''" "''k''" 1 "''k''" "[(''v'', JNull)]"
      "\<lparr>pg_confidence = 1, pg_source = [], pg_tags = [], pg_metadata = None\<rparr>"]
  by (simp add: preferences_ok_def new_preferences_def)

text \<open>With a colon in the name of a domain two preferences share an index key: the second is written over the
  first, and is answered for the first.\<close>

lemma preferences_collide:
  "map_option pf_value (get_preference ''b:c'' ''a'' (snd (set_preference i2 t2 ''c'' v2 ''a:b'' args
     (snd (set_preference (x # i1) t1 ''b:c'' v1 ''a'' args new_preferences))))) = Some v2"
  by (simp add: set_preference_def get_preference_def new_preferences_def index_key_def Let_def)

end
