(* ===== verification/Access.thy ===== *)
theory Access
  imports Core_Models
begin

text \<open>
  Who may ask for what: \<open>security/principal.py\<close>, \<open>credentials.py\<close>, \<open>authorization.py\<close>, \<open>oidc.py\<close>, \<open>audit.py\<close>.

  Parameters: the hash of a token, the tokens and ids that \<open>secrets\<close> draws, and the clock. The
  file recorder of audit events is left out.
\<close>

subsection \<open>Principals\<close>

datatype tenant_status = TenantActive | TenantDisabled

datatype account_status = AccountActive | AccountDisabled

datatype user_role = RoleAdmin | RoleOperator | RoleReadOnly

datatype request_scope = ScopeReadWrite | ScopeReadOnly

fun role_value :: "user_role \<Rightarrow> string" where
  "role_value RoleAdmin = ''admin''"
| "role_value RoleOperator = ''operator''"
| "role_value RoleReadOnly = ''read_only''"

fun scope_value :: "request_scope \<Rightarrow> string" where
  "scope_value ScopeReadWrite = ''read_write''"
| "scope_value ScopeReadOnly = ''read_only''"

text \<open>\<open>Role(value)\<close>; \<open>None\<close> is the \<open>ValueError\<close>.\<close>

definition parse_role :: "string \<Rightarrow> user_role option" where
  "parse_role s = find (\<lambda>r. role_value r = s) [RoleAdmin, RoleOperator, RoleReadOnly]"

record tenant =
  tn_id :: string
  tn_name :: string
  tn_status :: tenant_status

record user_principal =
  up_user_id :: string
  up_display_name :: "string option"
  up_status :: account_status

record role_binding =
  rb_tenant_id :: string
  rb_user_id :: string
  rb_role :: user_role

record request_principal =
  rp_user :: user_principal
  rp_tenant :: tenant
  rp_role :: user_role
  rp_scope :: request_scope

definition tenant_checked :: "tenant \<Rightarrow> string + tenant" where
  "tenant_checked t = (case parse_non_empty_string (tn_id t) ''tenant_id'' of Inl e \<Rightarrow> Inl e
     | Inr _ \<Rightarrow> (case parse_non_empty_string (tn_name t) ''tenant name'' of Inl e \<Rightarrow> Inl e | Inr _ \<Rightarrow> Inr t))"

definition user_checked :: "user_principal \<Rightarrow> string + user_principal" where
  "user_checked u = (case parse_non_empty_string (up_user_id u) ''user_id'' of Inl e \<Rightarrow> Inl e
     | Inr _ \<Rightarrow> (case up_display_name u of None \<Rightarrow> Inr u
       | Some d \<Rightarrow> (case parse_non_empty_string d ''display_name'' of Inl e \<Rightarrow> Inl e | Inr _ \<Rightarrow> Inr u)))"

definition rp_subject :: "request_principal \<Rightarrow> string" where
  "rp_subject p = up_user_id (rp_user p)"

definition rp_tenant_id :: "request_principal \<Rightarrow> string" where
  "rp_tenant_id p = tn_id (rp_tenant p)"

subsection \<open>Authorization\<close>

record authorization_decision =
  az_allowed :: bool
  az_reason :: "string option"
  az_message :: "string option"

definition py_upper :: "string \<Rightarrow> string" where
  "py_upper s = map (\<lambda>c. let n = of_char c :: nat in if 97 \<le> n \<and> n \<le> 122 then char_of (n - 32) else c) s"

definition method_is_read :: "string \<Rightarrow> bool" where
  "method_is_read m \<longleftrightarrow> py_upper m \<in> set [''GET'', ''HEAD'', ''OPTIONS'']"

definition role_scope :: "user_role \<Rightarrow> request_scope" where
  "role_scope r = (if r \<in> set [RoleAdmin, RoleOperator] then ScopeReadWrite else ScopeReadOnly)"

definition authorize_request :: "request_principal \<Rightarrow> string \<Rightarrow> authorization_decision" where
  "authorize_request p m =
     (if method_is_read m then \<lparr>az_allowed = True, az_reason = None, az_message = None\<rparr>
      else if rp_scope p = ScopeReadWrite then \<lparr>az_allowed = True, az_reason = None, az_message = None\<rparr>
      else \<lparr>az_allowed = False, az_reason = Some ''rbac'',
        az_message = Some (''subject '' @ rp_subject p @ '' has '' @ scope_value (rp_scope p)
          @ '' scope; mutating operations require read_write'')\<rparr>)"

definition authorize_tenant :: "request_principal \<Rightarrow> string \<Rightarrow> authorization_decision" where
  "authorize_tenant p t =
     (if rp_tenant_id p = t then \<lparr>az_allowed = True, az_reason = None, az_message = None\<rparr>
      else \<lparr>az_allowed = False, az_reason = Some ''cross_tenant'',
        az_message = Some (''subject '' @ rp_subject p @ '' belongs to tenant '' @ rp_tenant_id p
          @ '', not the request tenant '' @ t)\<rparr>)"

subsection \<open>Credentials\<close>

datatype access_error = PrincipalAlreadyExists string | PrincipalNotFound string | InvalidPrincipal string

record user_account =
  ac_user_id :: string
  ac_email :: string
  ac_display_name :: "string option"
  ac_status :: account_status
  ac_created_at :: "time option"

record credential =
  cr_id :: string
  cr_tenant_id :: string
  cr_user_id :: string
  cr_token_hash :: string
  cr_scope :: request_scope
  cr_role :: user_role
  cr_revoked_at :: "time option"

record credential_store =
  cd_users :: "(string, user_principal) dict"
  cd_emails :: "(string, string) dict"
  cd_email_by_user :: "(string, string) dict"
  cd_user_created :: "(string, time) dict"
  cd_tenants :: "(string, tenant) dict"
  cd_memberships :: "(string \<times> string, user_role) dict"
  cd_by_hash :: "(string, credential) dict"
  cd_by_id :: "(string, credential) dict"

definition empty_credentials :: credential_store where
  "empty_credentials = \<lparr>cd_users = [], cd_emails = [], cd_email_by_user = [], cd_user_created = [], cd_tenants = [],
     cd_memberships = [], cd_by_hash = [], cd_by_id = []\<rparr>"

type_synonym 'a access = "(credential_store, access_error, 'a) outcome"

definition require_principals :: "string \<Rightarrow> string \<Rightarrow> credential_store \<Rightarrow> access_error option" where
  "require_principals t u s =
     (if map_of (cd_tenants s) t = None then Some (PrincipalNotFound (''tenant not found: '' @ t))
      else if map_of (cd_users s) u = None then Some (PrincipalNotFound (''user not found: '' @ u)) else None)"

definition create_tenant :: "string \<Rightarrow> string \<Rightarrow> credential_store \<Rightarrow> tenant access" where
  "create_tenant t name s =
     (if map_of (cd_tenants s) t \<noteq> None then (Inl (PrincipalAlreadyExists (''tenant already exists: '' @ t)), s)
      else case tenant_checked \<lparr>tn_id = t, tn_name = name, tn_status = TenantActive\<rparr> of
        Inl e \<Rightarrow> (Inl (InvalidPrincipal e), s)
      | Inr v \<Rightarrow> (Inr v, s\<lparr>cd_tenants := AList.update t v (cd_tenants s)\<rparr>))"

definition create_user :: "time \<Rightarrow> string \<Rightarrow> string \<Rightarrow> string option \<Rightarrow> credential_store \<Rightarrow> user_principal access" where
  "create_user now u email display s =
     (if map_of (cd_users s) u \<noteq> None then (Inl (PrincipalAlreadyExists (''user already exists: '' @ u)), s)
      else if map_of (cd_emails s) email \<noteq> None then (Inl (PrincipalAlreadyExists (''user email already exists: '' @ email)), s)
      else case user_checked \<lparr>up_user_id = u, up_display_name = display, up_status = AccountActive\<rparr> of
        Inl e \<Rightarrow> (Inl (InvalidPrincipal e), s)
      | Inr v \<Rightarrow> (Inr v, s\<lparr>cd_users := AList.update u v (cd_users s), cd_emails := AList.update email u (cd_emails s),
            cd_email_by_user := AList.update u email (cd_email_by_user s),
            cd_user_created := AList.update u now (cd_user_created s)\<rparr>))"

definition set_role :: "string \<Rightarrow> string \<Rightarrow> user_role \<Rightarrow> credential_store \<Rightarrow> unit access" where
  "set_role t u r s = (case require_principals t u s of Some e \<Rightarrow> (Inl e, s)
     | None \<Rightarrow> (Inr (), s\<lparr>cd_memberships := AList.update (t, u) r (cd_memberships s)\<rparr>))"

definition ensure_user :: "string \<Rightarrow> string option \<Rightarrow> credential_store \<Rightarrow> user_principal access" where
  "ensure_user u display s = (case map_of (cd_users s) u of Some v \<Rightarrow> (Inr v, s)
     | None \<Rightarrow> (case user_checked \<lparr>up_user_id = u, up_display_name = display, up_status = AccountActive\<rparr> of
         Inl e \<Rightarrow> (Inl (InvalidPrincipal e), s)
       | Inr v \<Rightarrow> (Inr v, s\<lparr>cd_users := AList.update u v (cd_users s)\<rparr>)))"

definition ensure_tenant :: "string \<Rightarrow> string option \<Rightarrow> credential_store \<Rightarrow> tenant access" where
  "ensure_tenant t name s = (case map_of (cd_tenants s) t of Some v \<Rightarrow> (Inr v, s)
     | None \<Rightarrow> (case tenant_checked \<lparr>tn_id = t,
           tn_name = (case name of None \<Rightarrow> t | Some n \<Rightarrow> if n = [] then t else n), tn_status = TenantActive\<rparr> of
         Inl e \<Rightarrow> (Inl (InvalidPrincipal e), s)
       | Inr v \<Rightarrow> (Inr v, s\<lparr>cd_tenants := AList.update t v (cd_tenants s)\<rparr>)))"

definition register_user :: "user_principal \<Rightarrow> credential_store \<Rightarrow> credential_store" where
  "register_user p s = s\<lparr>cd_users := AList.update (up_user_id p) p (cd_users s)\<rparr>"

definition register_tenant :: "tenant \<Rightarrow> credential_store \<Rightarrow> credential_store" where
  "register_tenant t s = s\<lparr>cd_tenants := AList.update (tn_id t) t (cd_tenants s)\<rparr>"

text \<open>What \<open>secrets\<close> draws for a credential: the raw token and the id.\<close>

record drawn_credential =
  dr_token :: string
  dr_id :: string

record issue_request =
  ir_user_id :: string
  ir_tenant_id :: string
  ir_role :: user_role
  ir_scope :: "request_scope option"
  ir_display_name :: "string option"
  ir_tenant_name :: "string option"

definition new_credential :: "(string \<Rightarrow> string) \<Rightarrow> drawn_credential \<Rightarrow> issue_request \<Rightarrow> credential" where
  "new_credential hash d q = \<lparr>cr_id = dr_id d, cr_tenant_id = ir_tenant_id q, cr_user_id = ir_user_id q,
     cr_token_hash = hash (dr_token d),
     cr_scope = (case ir_scope q of Some c \<Rightarrow> c | None \<Rightarrow> role_scope (ir_role q)), cr_role = ir_role q, cr_revoked_at = None\<rparr>"

definition issue :: "(string \<Rightarrow> string) \<Rightarrow> drawn_credential \<Rightarrow> issue_request \<Rightarrow> credential_store \<Rightarrow> (string \<times> credential) access" where
  "issue hash d q s =
     bind_op (ensure_user (ir_user_id q) (ir_display_name q) s) (\<lambda>_ s1.
     bind_op (ensure_tenant (ir_tenant_id q) (ir_tenant_name q) s1) (\<lambda>_ s2.
       (let c = new_credential hash d q in
        (Inr (dr_token d, c), s2\<lparr>cd_by_hash := AList.update (cr_token_hash c) c (cd_by_hash s2),
           cd_by_id := AList.update (cr_id c) c (cd_by_id s2),
           cd_memberships := AList.update (ir_tenant_id q, ir_user_id q) (ir_role q) (cd_memberships s2)\<rparr>))))"

definition issue_credential :: "(string \<Rightarrow> string) \<Rightarrow> drawn_credential \<Rightarrow> string \<Rightarrow> string \<Rightarrow> user_role \<Rightarrow> credential_store
    \<Rightarrow> (string \<times> credential) access" where
  "issue_credential hash d u t r s = (case require_principals t u s of Some e \<Rightarrow> (Inl e, s)
     | None \<Rightarrow> issue hash d \<lparr>ir_user_id = u, ir_tenant_id = t, ir_role = r, ir_scope = None, ir_display_name = None,
         ir_tenant_name = None\<rparr> s)"

definition revoke :: "time \<Rightarrow> string \<Rightarrow> credential_store \<Rightarrow> bool \<times> credential_store" where
  "revoke now cid s = (case map_of (cd_by_id s) cid of None \<Rightarrow> (False, s)
     | Some c \<Rightarrow> (let r = c\<lparr>cr_revoked_at := Some now\<rparr> in
         (True, s\<lparr>cd_by_id := AList.update cid r (cd_by_id s),
            cd_by_hash := AList.update (cr_token_hash c) r (cd_by_hash s)\<rparr>)))"

definition account_of :: "string \<Rightarrow> user_principal \<Rightarrow> account_status \<Rightarrow> credential_store \<Rightarrow> user_account" where
  "account_of u p st s = \<lparr>ac_user_id = u, ac_email = dict_get (cd_email_by_user s) u [], ac_display_name = up_display_name p,
     ac_status = st, ac_created_at = map_of (cd_user_created s) u\<rparr>"

definition set_user_status :: "string \<Rightarrow> account_status \<Rightarrow> credential_store \<Rightarrow> user_account access" where
  "set_user_status u st s = (case map_of (cd_users s) u of
       None \<Rightarrow> (Inl (PrincipalNotFound (''user not found: '' @ u)), s)
     | Some p \<Rightarrow> (case user_checked \<lparr>up_user_id = u, up_display_name = up_display_name p, up_status = st\<rparr> of
         Inl e \<Rightarrow> (Inl (InvalidPrincipal e), s)
       | Inr v \<Rightarrow> (Inr (account_of u p st s), s\<lparr>cd_users := AList.update u v (cd_users s)\<rparr>)))"

definition set_tenant_status :: "string \<Rightarrow> tenant_status \<Rightarrow> credential_store \<Rightarrow> tenant access" where
  "set_tenant_status t st s = (case map_of (cd_tenants s) t of
       None \<Rightarrow> (Inl (PrincipalNotFound (''tenant not found: '' @ t)), s)
     | Some v \<Rightarrow> (case tenant_checked \<lparr>tn_id = t, tn_name = tn_name v, tn_status = st\<rparr> of
         Inl e \<Rightarrow> (Inl (InvalidPrincipal e), s)
       | Inr w \<Rightarrow> (Inr w, s\<lparr>cd_tenants := AList.update t w (cd_tenants s)\<rparr>)))"

definition remove_member :: "string \<Rightarrow> string \<Rightarrow> credential_store \<Rightarrow> bool access" where
  "remove_member t u s = (case require_principals t u s of Some e \<Rightarrow> (Inl e, s)
     | None \<Rightarrow> (Inr (map_of (cd_memberships s) (t, u) \<noteq> None),
         s\<lparr>cd_memberships := AList.delete (t, u) (cd_memberships s)\<rparr>))"

definition list_members :: "string \<Rightarrow> credential_store \<Rightarrow> access_error + role_binding list" where
  "list_members t s = (if map_of (cd_tenants s) t = None then Inl (PrincipalNotFound (''tenant not found: '' @ t))
     else Inr (map (\<lambda>((t', u), r). \<lparr>rb_tenant_id = t', rb_user_id = u, rb_role = r\<rparr>)
       (filter (\<lambda>((t', u), r). t' = t) (sort_key fst (cd_memberships s)))))"

definition list_users :: "credential_store \<Rightarrow> user_account list" where
  "list_users s = map (\<lambda>(u, p). account_of u p (up_status p) s) (sort_key fst (cd_users s))"

definition list_tenants :: "credential_store \<Rightarrow> tenant list" where
  "list_tenants s = map snd (sort_key fst (cd_tenants s))"

definition list_credentials :: "string option \<Rightarrow> string option \<Rightarrow> credential_store \<Rightarrow> credential list" where
  "list_credentials u t s = sort_key cr_id (filter (\<lambda>c. (u = None \<or> u = Some (cr_user_id c)) \<and> (t = None \<or> t = Some (cr_tenant_id c)))
     (dict_values (cd_by_id s)))"

definition has_any_admin :: "credential_store \<Rightarrow> bool" where
  "has_any_admin s \<longleftrightarrow> list_ex (\<lambda>r. r = RoleAdmin) (dict_values (cd_memberships s))"

definition has_any_credential :: "credential_store \<Rightarrow> bool" where
  "has_any_credential s \<longleftrightarrow> cd_by_id s \<noteq> []"

definition resolve_token :: "(string \<Rightarrow> string) \<Rightarrow> time \<Rightarrow> string \<Rightarrow> credential_store \<Rightarrow> request_principal option" where
  "resolve_token hash now tok s = (case map_of (cd_by_hash s) (hash tok) of None \<Rightarrow> None
     | Some c \<Rightarrow> if cr_revoked_at c \<noteq> None then None
       else if (case cr_revoked_at c of None \<Rightarrow> False | Some t \<Rightarrow> t \<le> now) then None
       else case map_of (cd_users s) (cr_user_id c) of None \<Rightarrow> None
         | Some u \<Rightarrow> if up_status u = AccountDisabled then None
           else case map_of (cd_tenants s) (cr_tenant_id c) of None \<Rightarrow> None
             | Some t \<Rightarrow> if tn_status t = TenantDisabled then None
               else case map_of (cd_memberships s) (cr_tenant_id c, cr_user_id c) of None \<Rightarrow> None
                 | Some r \<Rightarrow> Some \<lparr>rp_user = u, rp_tenant = t, rp_role = r, rp_scope = role_scope r\<rparr>)"

subsection \<open>Claims of an identity provider\<close>

definition claim_text :: "string \<Rightarrow> json_mapping \<Rightarrow> string option" where
  "claim_text k claims = (case map_of claims k of Some (JStr s) \<Rightarrow> if s = [] then None else Some s | _ \<Rightarrow> None)"

definition role_from_claims :: "user_role \<Rightarrow> json_mapping \<Rightarrow> user_role" where
  "role_from_claims fallback claims = (case map_of claims ''roles'' of
       Some (JList xs) \<Rightarrow> (case List.map_filter (\<lambda>x. case x of JStr s \<Rightarrow> parse_role s | _ \<Rightarrow> None) xs of
           [] \<Rightarrow> fallback | r # _ \<Rightarrow> r)
     | _ \<Rightarrow> fallback)"

definition claims_display_name :: "json_mapping \<Rightarrow> string option" where
  "claims_display_name claims =
     (case List.map_filter (\<lambda>k. claim_text k claims) [''preferred_username'', ''email'', ''name''] of
        [] \<Rightarrow> None | d # _ \<Rightarrow> Some d)"

definition map_claims :: "user_role \<Rightarrow> json_mapping \<Rightarrow> string + request_principal option" where
  "map_claims fallback claims = (case claim_text ''sub'' claims of None \<Rightarrow> Inr None
     | Some subject \<Rightarrow> (case claim_text ''tenant'' claims of None \<Rightarrow> Inr None
     | Some t \<Rightarrow>
         (let role = role_from_claims fallback claims;
              name = (case claim_text ''tenant_name'' claims of None \<Rightarrow> t | Some n \<Rightarrow> n) in
          case user_checked \<lparr>up_user_id = subject, up_display_name = claims_display_name claims, up_status = AccountActive\<rparr> of
            Inl e \<Rightarrow> Inl e
          | Inr u \<Rightarrow> (case tenant_checked \<lparr>tn_id = t, tn_name = name, tn_status = TenantActive\<rparr> of Inl e \<Rightarrow> Inl e
              | Inr v \<Rightarrow> Inr (Some \<lparr>rp_user = u, rp_tenant = v, rp_role = role,
                  rp_scope = (if role \<noteq> RoleReadOnly then ScopeReadWrite else ScopeReadOnly)\<rparr>)))))"

subsection \<open>Audit\<close>

record audit_event =
  au_event :: string
  au_actor :: string
  au_reason :: "string option"
  au_tenant_id :: "string option"
  au_resource :: "string option"
  au_details :: json_mapping
  au_occurred_at :: string

definition audit_to_json :: "audit_event \<Rightarrow> json_mapping" where
  "audit_to_json e = [(''event'', JStr (au_event e)), (''actor'', JStr (au_actor e)), (''occurred_at'', JStr (au_occurred_at e))]
     @ (case au_reason e of None \<Rightarrow> [] | Some r \<Rightarrow> [(''reason'', JStr r)])
     @ (case au_tenant_id e of None \<Rightarrow> [] | Some r \<Rightarrow> [(''tenant_id'', JStr r)])
     @ (case au_resource e of None \<Rightarrow> [] | Some r \<Rightarrow> [(''resource'', JStr r)])
     @ (if au_details e = [] then [] else [(''details'', JObj (au_details e))])"

text \<open>A \<open>deque\<close> with a maximal length, and \<open>xs[-n:]\<close>, which is all of it for \<open>n = 0\<close>.\<close>

definition record_audit :: "nat \<Rightarrow> audit_event \<Rightarrow> audit_event list \<Rightarrow> audit_event list" where
  "record_audit capacity e es = (let xs = es @ [e] in drop (length xs - capacity) xs)"

definition audit_events :: "int option \<Rightarrow> audit_event list \<Rightarrow> audit_event list" where
  "audit_events limit es = (case limit of None \<Rightarrow> es
     | Some n \<Rightarrow> if n < 0 \<or> n = 0 then es else drop (length es - nat n) es)"

end
