(* ===== verification/Access_Safety.thy ===== *)
theory Access_Safety
  imports Access
begin

text \<open>
  What holds over runs of the credential store: a token speaks for the tenant and the user it was issued for
  and for nobody else, and who is shut out stays out until somebody opens again.
\<close>

subsection \<open>Runs of the store\<close>

datatype access_op =
    CreateTenant string string
  | CreateUser time string string "string option"
  | SetRole string string user_role
  | IssueCredential drawn_credential string string user_role
  | Issue drawn_credential issue_request
  | Revoke time string
  | SetUserStatus string account_status
  | SetTenantStatus string tenant_status
  | RemoveMember string string
  | RegisterUser user_principal
  | RegisterTenant tenant

fun perform_access :: "(string \<Rightarrow> string) \<Rightarrow> access_op \<Rightarrow> credential_store \<Rightarrow> credential_store" where
  "perform_access hash (CreateTenant t n) s = snd (create_tenant t n s)"
| "perform_access hash (CreateUser now u e d) s = snd (create_user now u e d s)"
| "perform_access hash (SetRole t u r) s = snd (set_role t u r s)"
| "perform_access hash (IssueCredential d u t r) s = snd (issue_credential hash d u t r s)"
| "perform_access hash (Issue d q) s = snd (issue hash d q s)"
| "perform_access hash (Revoke now cid) s = snd (revoke now cid s)"
| "perform_access hash (SetUserStatus u st) s = snd (set_user_status u st s)"
| "perform_access hash (SetTenantStatus t st) s = snd (set_tenant_status t st s)"
| "perform_access hash (RemoveMember t u) s = snd (remove_member t u s)"
| "perform_access hash (RegisterUser p) s = register_user p s"
| "perform_access hash (RegisterTenant t) s = register_tenant t s"

text \<open>What \<open>secrets\<close> draws is new: a step that would draw what is in the store does not happen.\<close>

fun drawn_by :: "access_op \<Rightarrow> drawn_credential option" where
  "drawn_by (IssueCredential d u t r) = Some d"
| "drawn_by (Issue d q) = Some d"
| "drawn_by op = None"

definition draws_new :: "(string \<Rightarrow> string) \<Rightarrow> credential_store \<Rightarrow> access_op \<Rightarrow> bool" where
  "draws_new hash s op \<longleftrightarrow> (case drawn_by op of None \<Rightarrow> True
     | Some d \<Rightarrow> map_of (cd_by_id s) (dr_id d) = None \<and> map_of (cd_by_hash s) (hash (dr_token d)) = None)"

definition access_step :: "(string \<Rightarrow> string) \<Rightarrow> credential_store \<Rightarrow> access_op \<Rightarrow> credential_store" where
  "access_step hash s op = (if draws_new hash s op then perform_access hash op s else s)"

text \<open>The two indices of the credentials agree, and users and tenants are filed under their ids.\<close>

definition indexed :: "(string \<Rightarrow> credential option) \<Rightarrow> (string \<Rightarrow> credential option) \<Rightarrow> bool" where
  "indexed h i \<longleftrightarrow> (\<forall>k c. h k = Some c \<longrightarrow> cr_token_hash c = k \<and> i (cr_id c) = Some c)
     \<and> (\<forall>k c. i k = Some c \<longrightarrow> cr_id c = k \<and> h (cr_token_hash c) = Some c)"

lemma indexed_update:
  assumes "indexed h i" and "\<And>c'. i (cr_id c) = Some c' \<Longrightarrow> cr_token_hash c' = cr_token_hash c"
    and "\<And>c'. h (cr_token_hash c) = Some c' \<Longrightarrow> cr_id c' = cr_id c"
  shows "indexed (h(cr_token_hash c \<mapsto> c)) (i(cr_id c \<mapsto> c))"
  unfolding indexed_def
proof (intro conjI allI impI)
  fix k c' assume k: "(h(cr_token_hash c \<mapsto> c)) k = Some c'"
  show "cr_token_hash c' = k" using k assms(1) by (cases "k = cr_token_hash c") (auto simp: indexed_def)
  show "(i(cr_id c \<mapsto> c)) (cr_id c') = Some c'"
  proof (cases "k = cr_token_hash c")
    case False
    with k assms(1) have c': "cr_token_hash c' = k" "i (cr_id c') = Some c'" by (auto simp: indexed_def)
    have "cr_id c' \<noteq> cr_id c" using False c' assms(2) [of c'] by auto
    then show ?thesis using c'(2) by simp
  qed (use k in auto)
next
  fix k c' assume k: "(i(cr_id c \<mapsto> c)) k = Some c'"
  show "cr_id c' = k" using k assms(1) by (cases "k = cr_id c") (auto simp: indexed_def)
  show "(h(cr_token_hash c \<mapsto> c)) (cr_token_hash c') = Some c'"
  proof (cases "k = cr_id c")
    case False
    with k assms(1) have c': "cr_id c' = k" "h (cr_token_hash c') = Some c'" by (auto simp: indexed_def)
    have "cr_token_hash c' \<noteq> cr_token_hash c" using False c' assms(3) [of c'] by auto
    then show ?thesis using c'(2) by simp
  qed (use k in auto)
qed

definition access_inv :: "credential_store \<Rightarrow> bool" where
  "access_inv s \<longleftrightarrow>
     indexed (map_of (cd_by_hash s)) (map_of (cd_by_id s))
   \<and> (\<forall>u p. map_of (cd_users s) u = Some p \<longrightarrow> up_user_id p = u)
   \<and> (\<forall>t v. map_of (cd_tenants s) t = Some v \<longrightarrow> tn_id v = t)"

lemma checked_same: "user_checked u = Inr v \<Longrightarrow> v = u" "tenant_checked t = Inr w \<Longrightarrow> w = t"
  by (auto simp: user_checked_def tenant_checked_def split: sum.splits option.splits)

text \<open>What each operation does to the four tables that count.\<close>

definition only_at :: "'k \<Rightarrow> ('k \<Rightarrow> 'v \<Rightarrow> bool) \<Rightarrow> ('k, 'v) dict \<Rightarrow> ('k, 'v) dict \<Rightarrow> bool" where
  "only_at k P d d' \<longleftrightarrow> (\<forall>x. x \<noteq> k \<longrightarrow> map_of d' x = map_of d x)
     \<and> (\<forall>v. map_of d' k = Some v \<longrightarrow> map_of d k = Some v \<or> P k v)"

lemma only_at_intros [intro, simp]: "only_at k P d d" "P k v \<Longrightarrow> only_at k P d (AList.update k v d)"
  by (simp_all add: only_at_def dict_simps)

lemma only_at_filed:
  "only_at k P d d' \<Longrightarrow> \<forall>x v. map_of d x = Some v \<longrightarrow> P x v \<Longrightarrow> \<forall>x v. map_of d' x = Some v \<longrightarrow> P x v"
  unfolding only_at_def by metis

definition only_users :: "string \<Rightarrow> credential_store \<Rightarrow> credential_store \<Rightarrow> bool" where
  "only_users u s s' \<longleftrightarrow> cd_tenants s' = cd_tenants s \<and> cd_memberships s' = cd_memberships s \<and> cd_by_hash s' = cd_by_hash s
     \<and> cd_by_id s' = cd_by_id s \<and> only_at u (\<lambda>x p. up_user_id p = x) (cd_users s) (cd_users s')"

definition only_tenants :: "string \<Rightarrow> credential_store \<Rightarrow> credential_store \<Rightarrow> bool" where
  "only_tenants t s s' \<longleftrightarrow> cd_users s' = cd_users s \<and> cd_memberships s' = cd_memberships s \<and> cd_by_hash s' = cd_by_hash s
     \<and> cd_by_id s' = cd_by_id s \<and> only_at t (\<lambda>x v. tn_id v = x) (cd_tenants s) (cd_tenants s')"

lemma user_operations:
  "only_users u s (snd (create_user now u e d s))" "only_users u s (snd (set_user_status u st s))"
  "only_users u s (snd (ensure_user u d s))" "only_users (up_user_id p) s (register_user p s)"
  by (auto simp: only_users_def create_user_def set_user_status_def ensure_user_def register_user_def
      split: sum.split option.split dest!: checked_same)

lemma tenant_operations:
  "only_tenants t s (snd (create_tenant t n s))" "only_tenants t s (snd (set_tenant_status t ts s))"
  "only_tenants t s (snd (ensure_tenant t m s))" "only_tenants (tn_id v) s (register_tenant v s)"
  by (auto simp: only_tenants_def create_tenant_def set_tenant_status_def ensure_tenant_def register_tenant_def
      split: sum.split option.split dest!: checked_same)

lemma only_users_inv: "access_inv s \<Longrightarrow> only_users u s s' \<Longrightarrow> access_inv s'"
  unfolding only_users_def access_inv_def
  using only_at_filed [of u "\<lambda>x p. up_user_id p = x" "cd_users s" "cd_users s'"] by presburger

lemma only_tenants_inv: "access_inv s \<Longrightarrow> only_tenants t s s' \<Longrightarrow> access_inv s'"
  unfolding only_tenants_def access_inv_def
  using only_at_filed [of t "\<lambda>x v. tn_id v = x" "cd_tenants s" "cd_tenants s'"] by presburger

definition with_credential :: "credential \<Rightarrow> credential_store \<Rightarrow> credential_store" where
  "with_credential c s = s\<lparr>cd_by_hash := AList.update (cr_token_hash c) c (cd_by_hash s),
     cd_by_id := AList.update (cr_id c) c (cd_by_id s)\<rparr>"

lemma memberships_inv [simp]: "access_inv (s\<lparr>cd_memberships := m\<rparr>) = access_inv s"
  by (simp add: access_inv_def)

lemma with_credential_inv:
  assumes "access_inv s" and "\<And>c'. map_of (cd_by_id s) (cr_id c) = Some c' \<Longrightarrow> cr_token_hash c' = cr_token_hash c"
    and "\<And>c'. map_of (cd_by_hash s) (cr_token_hash c) = Some c' \<Longrightarrow> cr_id c' = cr_id c"
  shows "access_inv (with_credential c s)"
proof -
  have "indexed (map_of (AList.update (cr_token_hash c) c (cd_by_hash s))) (map_of (AList.update (cr_id c) c (cd_by_id s)))"
    unfolding update_conv' using assms(1) by (intro indexed_update assms(2,3)) (simp_all add: access_inv_def)
  then show ?thesis using assms(1) by (simp add: access_inv_def with_credential_def)
qed

text \<open>An operation that issues, seen through its parts.\<close>

lemma issue_parts:
  obtains s1 s2 where "only_users (ir_user_id q) s s1" "only_tenants (ir_tenant_id q) s1 s2"
    "s1 = snd (ensure_user (ir_user_id q) (ir_display_name q) s)" "s2 = snd (ensure_tenant (ir_tenant_id q) (ir_tenant_name q) s1)"
    "snd (issue hash d q s) = s1 \<or> snd (issue hash d q s) = s2
     \<or> snd (issue hash d q s) = (with_credential (new_credential hash d q) s2)
         \<lparr>cd_memberships := AList.update (ir_tenant_id q, ir_user_id q) (ir_role q) (cd_memberships s2)\<rparr>"
proof -
  define s1 where "s1 = snd (ensure_user (ir_user_id q) (ir_display_name q) s)"
  define s2 where "s2 = snd (ensure_tenant (ir_tenant_id q) (ir_tenant_name q) s1)"
  show ?thesis
  proof (rule that [of s1 s2])
    show "only_users (ir_user_id q) s s1" "only_tenants (ir_tenant_id q) s1 s2"
      unfolding s1_def s2_def by (rule user_operations tenant_operations)+
    show "s1 = snd (ensure_user (ir_user_id q) (ir_display_name q) s)" by (rule s1_def)
    show "s2 = snd (ensure_tenant (ir_tenant_id q) (ir_tenant_name q) s1)" by (rule s2_def)
    show "snd (issue hash d q s) = s1 \<or> snd (issue hash d q s) = s2
     \<or> snd (issue hash d q s) = (with_credential (new_credential hash d q) s2)
         \<lparr>cd_memberships := AList.update (ir_tenant_id q, ir_user_id q) (ir_role q) (cd_memberships s2)\<rparr>"
      unfolding issue_def s1_def s2_def with_credential_def
      by (cases "ensure_user (ir_user_id q) (ir_display_name q) s"; cases "fst (ensure_user (ir_user_id q) (ir_display_name q) s)";
          cases "ensure_tenant (ir_tenant_id q) (ir_tenant_name q) (snd (ensure_user (ir_user_id q) (ir_display_name q) s))";
          cases "fst (ensure_tenant (ir_tenant_id q) (ir_tenant_name q) (snd (ensure_user (ir_user_id q) (ir_display_name q) s)))")
        (simp_all add: Let_def)
  qed
qed

lemma issue_inv:
  assumes "access_inv s" and "map_of (cd_by_id s) (dr_id d) = None" and "map_of (cd_by_hash s) (hash (dr_token d)) = None"
  shows "access_inv (snd (issue hash d q s))"
proof -
  obtain s1 s2 where 1: "only_users (ir_user_id q) s s1" and 2: "only_tenants (ir_tenant_id q) s1 s2"
    and 3: "snd (issue hash d q s) = s1 \<or> snd (issue hash d q s) = s2
     \<or> snd (issue hash d q s) = (with_credential (new_credential hash d q) s2)
         \<lparr>cd_memberships := AList.update (ir_tenant_id q, ir_user_id q) (ir_role q) (cd_memberships s2)\<rparr>"
    by (rule issue_parts)
  have "access_inv s1" using assms(1) 1 by (rule only_users_inv)
  moreover from this have "access_inv s2" using 2 by (rule only_tenants_inv)
  moreover from this have "access_inv (with_credential (new_credential hash d q) s2)"
    using 1 2 assms(2,3) by (intro with_credential_inv) (auto simp: new_credential_def only_users_def only_tenants_def)
  ultimately show ?thesis using 3 by auto
qed

lemma revoke_as_credential:
  assumes "access_inv s" and "map_of (cd_by_id s) cid = Some c"
  shows "snd (revoke now cid s) = with_credential (c\<lparr>cr_revoked_at := Some now\<rparr>) s"
  using assms by (auto simp: revoke_def with_credential_def Let_def access_inv_def indexed_def)

lemma revoke_inv:
  assumes "access_inv s"
  shows "access_inv (snd (revoke now cid s))"
proof (cases "map_of (cd_by_id s) cid")
  case None
  then show ?thesis using assms by (simp add: revoke_def)
next
  case (Some c)
  have "access_inv (with_credential (c\<lparr>cr_revoked_at := Some now\<rparr>) s)"
    using assms Some by (intro with_credential_inv) (auto simp: access_inv_def indexed_def)
  then show ?thesis using revoke_as_credential [OF assms Some] by simp
qed

lemma membership_operations:
  "snd (set_role t u r s) = s \<or> snd (set_role t u r s) = s\<lparr>cd_memberships := AList.update (t, u) r (cd_memberships s)\<rparr>"
  "snd (remove_member t u s) = s \<or> snd (remove_member t u s) = s\<lparr>cd_memberships := AList.delete (t, u) (cd_memberships s)\<rparr>"
  by (auto simp: set_role_def remove_member_def split: option.split)

lemma issue_credential_cases:
  "snd (issue_credential hash d u t r s) = s \<or> (\<exists>q. ir_user_id q = u \<and> ir_tenant_id q = t
     \<and> snd (issue_credential hash d u t r s) = snd (issue hash d q s))"
proof (cases "require_principals t u s")
  case None
  show ?thesis unfolding issue_credential_def None option.case
    by (intro disjI2, rule exI [of _ "\<lparr>ir_user_id = u, ir_tenant_id = t, ir_role = r, ir_scope = None,
      ir_display_name = None, ir_tenant_name = None\<rparr>"]) simp
qed (simp add: issue_credential_def)

lemma access_step_inv:
  assumes "access_inv s"
  shows "access_inv (access_step hash s op)"
proof (cases "draws_new hash s op")
  case True
  have "access_inv (perform_access hash op s)"
  proof (cases op)
    case (SetRole t u r)
    then show ?thesis using assms membership_operations(1) [of t u r s] by auto
  next
    case (RemoveMember t u)
    then show ?thesis using assms membership_operations(2) [of t u s] by auto
  next
    case (IssueCredential d u t r)
    then have "map_of (cd_by_id s) (dr_id d) = None" "map_of (cd_by_hash s) (hash (dr_token d)) = None"
      using True by (simp_all add: draws_new_def)
    then show ?thesis
      using IssueCredential assms issue_inv [OF assms] issue_credential_cases [of hash d u t r s] by auto
  next
    case (Issue d q)
    then show ?thesis using True issue_inv [OF assms] by (simp add: draws_new_def)
  qed (use assms in \<open>auto intro: revoke_inv only_users_inv [OF assms] only_tenants_inv [OF assms] user_operations tenant_operations\<close>)
  then show ?thesis using True by (simp add: access_step_def)
qed (use assms in \<open>simp add: access_step_def\<close>)

interpretation ac: invariant_system "access_step hash" empty_credentials access_inv for hash
  by unfold_locales (simp add: access_inv_def indexed_def empty_credentials_def, rule access_step_inv)

subsection \<open>What a step leaves alone\<close>

definition same_credential :: "credential \<Rightarrow> credential \<Rightarrow> bool" where
  "same_credential c c' \<longleftrightarrow> cr_id c' = cr_id c \<and> cr_tenant_id c' = cr_tenant_id c \<and> cr_user_id c' = cr_user_id c
     \<and> (cr_revoked_at c \<noteq> None \<longrightarrow> cr_revoked_at c' \<noteq> None)"

definition held_under :: "string \<Rightarrow> credential \<Rightarrow> credential_store \<Rightarrow> bool" where
  "held_under h c s \<longleftrightarrow> (\<exists>c'. map_of (cd_by_hash s) h = Some c' \<and> same_credential c c')"

lemma held_mono: "held_under h c s \<Longrightarrow> cd_by_hash s' = cd_by_hash s \<Longrightarrow> held_under h c s'"
  by (simp add: held_under_def)

lemma held_with_new:
  assumes "held_under h c s" and "map_of (cd_by_hash s) (cr_token_hash n) = None"
  shows "held_under h c (with_credential n s)"
  using assms by (auto simp: held_under_def with_credential_def dict_simps)

lemma held_issue:
  assumes "held_under h c s" and "map_of (cd_by_hash s) (hash (dr_token d)) = None"
  shows "held_under h c (snd (issue hash d q s))"
proof -
  obtain s1 s2 where 1: "only_users (ir_user_id q) s s1" and 2: "only_tenants (ir_tenant_id q) s1 s2"
    and 3: "snd (issue hash d q s) = s1 \<or> snd (issue hash d q s) = s2
     \<or> snd (issue hash d q s) = (with_credential (new_credential hash d q) s2)
         \<lparr>cd_memberships := AList.update (ir_tenant_id q, ir_user_id q) (ir_role q) (cd_memberships s2)\<rparr>"
    by (rule issue_parts)
  have "held_under h c s1" using assms(1) 1 by (simp add: held_under_def only_users_def)
  moreover have s2: "held_under h c s2" using assms(1) 1 2 by (simp add: held_under_def only_users_def only_tenants_def)
  moreover have "held_under h c (with_credential (new_credential hash d q) s2)"
    using assms(2) 1 2 by (intro held_with_new s2) (simp add: new_credential_def only_users_def only_tenants_def)
  ultimately show ?thesis using 3 by (auto simp: held_under_def)
qed

lemma held_revoke:
  assumes "access_inv s" and "held_under h c s"
  shows "held_under h c (snd (revoke now cid s))"
proof (cases "map_of (cd_by_id s) cid")
  case (Some c')
  obtain c1 where c1: "map_of (cd_by_hash s) h = Some c1" "same_credential c c1" using assms(2) by (auto simp: held_under_def)
  have "cr_token_hash c' = h \<Longrightarrow> c' = c1" using assms(1) Some c1(1) by (auto simp: access_inv_def indexed_def)
  then have "held_under h c (with_credential (c'\<lparr>cr_revoked_at := Some now\<rparr>) s)"
    using c1 by (auto simp: held_under_def with_credential_def dict_simps same_credential_def)
  then show ?thesis using revoke_as_credential [OF assms(1) Some] by simp
qed (use assms in \<open>simp add: revoke_def\<close>)

lemma held_step:
  assumes "access_inv s" and "held_under h c s"
  shows "held_under h c (access_step hash s op)"
proof (cases "draws_new hash s op")
  case True
  have "held_under h c (perform_access hash op s)"
  proof (cases op)
    case (IssueCredential d u t r)
    then show ?thesis
      using True assms(2) held_issue [OF assms(2), of hash d] issue_credential_cases [of hash d u t r s]
      by (auto simp: draws_new_def)
  next
    case (Issue d q)
    then show ?thesis using True held_issue [OF assms(2), of hash d] by (simp add: draws_new_def)
  next
    case (Revoke now cid)
    then show ?thesis using held_revoke [OF assms] by simp
  next
    case (SetRole t u r)
    then show ?thesis using assms(2) membership_operations(1) [of t u r s] by (auto simp: held_under_def)
  next
    case (RemoveMember t u)
    then show ?thesis using assms(2) membership_operations(2) [of t u s] by (auto simp: held_under_def)
  qed (use assms(2) user_operations [unfolded only_users_def] tenant_operations [unfolded only_tenants_def] in
      \<open>auto intro: held_mono\<close>)
  then show ?thesis using True by (simp add: access_step_def)
qed (use assms in \<open>simp add: access_step_def\<close>)

subsection \<open>Who is shut out\<close>

definition user_disabled :: "string \<Rightarrow> credential_store \<Rightarrow> bool" where
  "user_disabled u s \<longleftrightarrow> (case map_of (cd_users s) u of None \<Rightarrow> False | Some p \<Rightarrow> up_status p = AccountDisabled)"

definition tenant_disabled :: "string \<Rightarrow> credential_store \<Rightarrow> bool" where
  "tenant_disabled t s \<longleftrightarrow> (case map_of (cd_tenants s) t of None \<Rightarrow> False | Some v \<Rightarrow> tn_status v = TenantDisabled)"

definition not_member :: "string \<Rightarrow> string \<Rightarrow> credential_store \<Rightarrow> bool" where
  "not_member t u s \<longleftrightarrow> Option.is_none (map_of (cd_memberships s) (t, u))"

fun enables_user :: "string \<Rightarrow> access_op \<Rightarrow> bool" where
  "enables_user u (SetUserStatus u' st) \<longleftrightarrow> u' = u \<and> st = AccountActive"
| "enables_user u (RegisterUser p) \<longleftrightarrow> up_user_id p = u \<and> up_status p = AccountActive"
| "enables_user u op \<longleftrightarrow> False"

fun enables_tenant :: "string \<Rightarrow> access_op \<Rightarrow> bool" where
  "enables_tenant t (SetTenantStatus t' st) \<longleftrightarrow> t' = t \<and> st = TenantActive"
| "enables_tenant t (RegisterTenant v) \<longleftrightarrow> tn_id v = t \<and> tn_status v = TenantActive"
| "enables_tenant t op \<longleftrightarrow> False"

fun enrolls :: "string \<Rightarrow> string \<Rightarrow> access_op \<Rightarrow> bool" where
  "enrolls t u (SetRole t' u' r) \<longleftrightarrow> t' = t \<and> u' = u"
| "enrolls t u (IssueCredential d u' t' r) \<longleftrightarrow> t' = t \<and> u' = u"
| "enrolls t u (Issue d q) \<longleftrightarrow> ir_tenant_id q = t \<and> ir_user_id q = u"
| "enrolls t u op \<longleftrightarrow> False"

lemma disabled_mono: "user_disabled u s \<Longrightarrow> cd_users s' = cd_users s \<Longrightarrow> user_disabled u s'"
  "tenant_disabled t s \<Longrightarrow> cd_tenants s' = cd_tenants s \<Longrightarrow> tenant_disabled t s'"
  "not_member t u s \<Longrightarrow> cd_memberships s' = cd_memberships s \<Longrightarrow> not_member t u s'"
  by (simp_all add: user_disabled_def tenant_disabled_def not_member_def)

lemma disabled_issue:
  "user_disabled u s \<Longrightarrow> user_disabled u (snd (issue hash d q s))"
  "tenant_disabled t s \<Longrightarrow> tenant_disabled t (snd (issue hash d q s))"
proof -
  obtain s1 s2 where parts: "only_users (ir_user_id q) s s1" "only_tenants (ir_tenant_id q) s1 s2"
    and s1: "s1 = snd (ensure_user (ir_user_id q) (ir_display_name q) s)"
    and s2: "s2 = snd (ensure_tenant (ir_tenant_id q) (ir_tenant_name q) s1)"
    and 3: "snd (issue hash d q s) = s1 \<or> snd (issue hash d q s) = s2
     \<or> snd (issue hash d q s) = (with_credential (new_credential hash d q) s2)
         \<lparr>cd_memberships := AList.update (ir_tenant_id q, ir_user_id q) (ir_role q) (cd_memberships s2)\<rparr>"
    by (rule issue_parts)
  have users: "user_disabled u s1 \<Longrightarrow> user_disabled u (snd (issue hash d q s))" for u
    using 3 parts by (auto simp: user_disabled_def with_credential_def only_tenants_def)
  have "user_disabled u s \<Longrightarrow> user_disabled u s1" for u
    unfolding s1 by (auto simp: ensure_user_def user_disabled_def dict_simps split: sum.split option.split)
  then show "user_disabled u s \<Longrightarrow> user_disabled u (snd (issue hash d q s))" by (intro users)
  have first: "tenant_disabled t s \<Longrightarrow> tenant_disabled t s1" using parts(1) by (simp add: tenant_disabled_def only_users_def)
  have second: "tenant_disabled t s1 \<Longrightarrow> tenant_disabled t s2"
    unfolding s2 by (auto simp: ensure_tenant_def tenant_disabled_def dict_simps split: sum.split option.split)
  show "tenant_disabled t (snd (issue hash d q s))" if "tenant_disabled t s"
    using 3 first [OF that] second [OF first [OF that]] by (auto simp: tenant_disabled_def with_credential_def)
qed

lemma not_member_issue:
  assumes "not_member t u s" and "\<not> (ir_tenant_id q = t \<and> ir_user_id q = u)"
  shows "not_member t u (snd (issue hash d q s))"
proof -
  obtain s1 s2 where "only_users (ir_user_id q) s s1" "only_tenants (ir_tenant_id q) s1 s2"
    "snd (issue hash d q s) = s1 \<or> snd (issue hash d q s) = s2
     \<or> snd (issue hash d q s) = (with_credential (new_credential hash d q) s2)
         \<lparr>cd_memberships := AList.update (ir_tenant_id q, ir_user_id q) (ir_role q) (cd_memberships s2)\<rparr>"
    by (rule issue_parts)
  then show ?thesis using assms by (auto simp: not_member_def only_users_def only_tenants_def dict_simps)
qed

lemma revoke_tables:
  "cd_users (snd (revoke now cid s)) = cd_users s" "cd_tenants (snd (revoke now cid s)) = cd_tenants s"
  "cd_memberships (snd (revoke now cid s)) = cd_memberships s"
  by (simp_all add: revoke_def Let_def split: option.split)

lemma membership_tables:
  "cd_users (snd (set_role t u r s)) = cd_users s" "cd_tenants (snd (set_role t u r s)) = cd_tenants s"
  "cd_users (snd (remove_member t u s)) = cd_users s" "cd_tenants (snd (remove_member t u s)) = cd_tenants s"
  by (simp_all add: set_role_def remove_member_def split: option.split)

lemma user_disabled_step:
  assumes "user_disabled u s" and "\<not> enables_user u op"
  shows "user_disabled u (access_step hash s op)"
proof -
  have "user_disabled u (perform_access hash op s)"
  proof (cases op)
    case (CreateUser now u' e d)
    then show ?thesis using assms(1)
      by (auto simp: create_user_def user_disabled_def dict_simps split: sum.split option.splits)
  next
    case (SetUserStatus u' st)
    then show ?thesis using assms
      by (cases st) (auto simp: set_user_status_def user_disabled_def dict_simps split: sum.split option.splits dest!: checked_same)
  next
    case (RegisterUser p)
    then show ?thesis using assms by (cases "up_status p") (auto simp: register_user_def user_disabled_def dict_simps)
  next
    case (IssueCredential d u' t r)
    then show ?thesis using assms(1) disabled_issue(1) issue_credential_cases [of hash d u' t r s] by auto
  qed (use assms(1) tenant_operations [unfolded only_tenants_def] in
      \<open>auto intro: disabled_mono(1) disabled_issue(1) simp: revoke_tables membership_tables\<close>)
  then show ?thesis using assms(1) by (simp add: access_step_def)
qed

lemma tenant_disabled_step:
  assumes "tenant_disabled t s" and "\<not> enables_tenant t op"
  shows "tenant_disabled t (access_step hash s op)"
proof -
  have "tenant_disabled t (perform_access hash op s)"
  proof (cases op)
    case (CreateTenant t' n)
    then show ?thesis using assms(1)
      by (auto simp: create_tenant_def tenant_disabled_def dict_simps split: sum.split option.splits)
  next
    case (SetTenantStatus t' st)
    then show ?thesis using assms
      by (cases st) (auto simp: set_tenant_status_def tenant_disabled_def dict_simps split: sum.split option.splits dest!: checked_same)
  next
    case (RegisterTenant v)
    then show ?thesis using assms by (cases "tn_status v") (auto simp: register_tenant_def tenant_disabled_def dict_simps)
  next
    case (IssueCredential d u' t' r)
    then show ?thesis using assms(1) disabled_issue(2) issue_credential_cases [of hash d u' t' r s] by auto
  qed (use assms(1) user_operations [unfolded only_users_def] in
      \<open>auto intro: disabled_mono(2) disabled_issue(2) simp: revoke_tables membership_tables\<close>)
  then show ?thesis using assms(1) by (simp add: access_step_def)
qed

lemma not_member_step:
  assumes "not_member t u s" and "\<not> enrolls t u op"
  shows "not_member t u (access_step hash s op)"
proof -
  have "not_member t u (perform_access hash op s)"
  proof (cases op)
    case (SetRole t' u' r)
    then show ?thesis using assms membership_operations(1) [of t' u' r s] by (auto simp: not_member_def dict_simps)
  next
    case (RemoveMember t' u')
    then show ?thesis using assms(1) membership_operations(2) [of t' u' s] by (auto simp: not_member_def dict_simps)
  next
    case (IssueCredential d u' t' r)
    then show ?thesis using assms not_member_issue issue_credential_cases [of hash d u' t' r s] by fastforce
  qed (use assms user_operations [unfolded only_users_def] tenant_operations [unfolded only_tenants_def] in
      \<open>auto intro: disabled_mono(3) not_member_issue simp: revoke_tables\<close>)
  then show ?thesis using assms(1) by (simp add: access_step_def)
qed

subsection \<open>Tokens over runs\<close>

definition store_after :: "(string \<Rightarrow> string) \<Rightarrow> access_op list \<Rightarrow> credential_store \<Rightarrow> credential_store" where
  "store_after hash ops s = run_events (access_step hash) s ops"

lemma held_run: "access_inv s \<Longrightarrow> held_under h c s \<Longrightarrow> held_under h c (store_after hash ops s)"
  unfolding store_after_def by (rule ac.run_stable [where E = UNIV and P = "held_under h c"]) (auto intro: held_step)

lemma disabled_run:
  "access_inv s \<Longrightarrow> user_disabled u s \<Longrightarrow> \<not> list_ex (enables_user u) ops \<Longrightarrow> user_disabled u (store_after hash ops s)"
  "access_inv s \<Longrightarrow> tenant_disabled t s \<Longrightarrow> \<not> list_ex (enables_tenant t) ops \<Longrightarrow> tenant_disabled t (store_after hash ops s)"
  "access_inv s \<Longrightarrow> not_member t u s \<Longrightarrow> \<not> list_ex (enrolls t u) ops \<Longrightarrow> not_member t u (store_after hash ops s)"
  unfolding store_after_def
  by (rule ac.run_stable [where E = "{op. \<not> enables_user u op}" and P = "user_disabled u"];
      force intro: user_disabled_step simp: list_ex_iff)
    (rule ac.run_stable [where E = "{op. \<not> enables_tenant t op}" and P = "tenant_disabled t"],
      auto intro: tenant_disabled_step simp: list_ex_iff,
     rule ac.run_stable [where E = "{op. \<not> enrolls t u op}" and P = "not_member t u"],
      auto intro: not_member_step simp: list_ex_iff)

lemma reached_inv: "access_inv (store_after hash ops empty_credentials)"
  unfolding store_after_def by (rule ac.inv_run_init)

lemma held_now: "map_of (cd_by_hash s) h = Some c \<Longrightarrow> held_under h c s"
  by (simp add: held_under_def same_credential_def)


text \<open>C15. A token speaks for the member it was issued for. Whatever has been done to the store since, the principal a
  token resolves to is the user of its credential in the tenant of its credential, with the role that the
  membership has now; so it is let into no other tenant, and may change something exactly when that role is not
  the one that only reads.\<close>

theorem token_speaks_for_its_member:
  assumes "map_of (cd_by_hash (store_after hash ops empty_credentials)) (hash tok) = Some c"
    and "resolve_token hash now tok (store_after hash ops' (store_after hash ops empty_credentials)) = Some p"
  shows "rp_tenant_id p = cr_tenant_id c \<and> rp_subject p = cr_user_id c
    \<and> map_of (cd_memberships (store_after hash ops' (store_after hash ops empty_credentials))) (cr_tenant_id c, cr_user_id c) = Some (rp_role p)
    \<and> (\<forall>t. az_allowed (authorize_tenant p t) = (t = cr_tenant_id c))
    \<and> (\<forall>m. az_allowed (authorize_request p m) = (if rp_role p = RoleReadOnly then method_is_read m else True))"
proof -
  let ?s = "store_after hash ops empty_credentials"
  let ?s' = "store_after hash ops' ?s"
  obtain c' where c': "map_of (cd_by_hash ?s') (hash tok) = Some c'" "same_credential c c'"
    using held_run [OF reached_inv held_now [OF assms(1)]] by (auto simp: held_under_def)
  have "access_inv ?s'" unfolding store_after_def run_events_append [symmetric] by (rule ac.inv_run_init)
  then have filed: "map_of (cd_users ?s') u = Some x \<Longrightarrow> up_user_id x = u"
    "map_of (cd_tenants ?s') t = Some v \<Longrightarrow> tn_id v = t" for u x t v
    by (auto simp: access_inv_def)
  have p: "map_of (cd_users ?s') (cr_user_id c) = Some (rp_user p)" "map_of (cd_tenants ?s') (cr_tenant_id c) = Some (rp_tenant p)"
    "map_of (cd_memberships ?s') (cr_tenant_id c, cr_user_id c) = Some (rp_role p)" "rp_scope p = role_scope (rp_role p)"
    using assms(2) c' unfolding resolve_token_def same_credential_def by (auto split: option.splits if_splits)
  have ids: "rp_tenant_id p = cr_tenant_id c" "rp_subject p = cr_user_id c"
    using p(1,2) by (simp_all add: rp_tenant_id_def rp_subject_def filed)
  have "az_allowed (authorize_request p m) = (if rp_role p = RoleReadOnly then method_is_read m else True)" for m
    using p(4) by (cases "rp_role p") (simp_all add: authorize_request_def role_scope_def)
  then show ?thesis using ids p(3) by (auto simp: authorize_tenant_def)
qed

definition sample_ops :: "access_op list" where
  "sample_ops = [CreateTenant ''acme'' ''Acme'', CreateUser 1 ''ann'' ''ann@acme'' None,
     IssueCredential \<lparr>dr_token = ''tok'', dr_id = ''c1''\<rparr> ''ann'' ''acme'' RoleOperator]"

definition sample_credential :: credential where
  "sample_credential = \<lparr>cr_id = ''c1'', cr_tenant_id = ''acme'', cr_user_id = ''ann'', cr_token_hash = ''tok'',
     cr_scope = ScopeReadWrite, cr_role = RoleOperator, cr_revoked_at = None\<rparr>"


theorem token_speaks_for_its_member_witness:
  "\<exists>p. resolve_token (\<lambda>t. t) 5 ''tok'' (store_after (\<lambda>t. t) [SetRole ''acme'' ''ann'' RoleReadOnly]
       (store_after (\<lambda>t. t) sample_ops empty_credentials)) = Some p
     \<and> rp_tenant_id p = ''acme'' \<and> \<not> az_allowed (authorize_tenant p ''other'')"
proof -
  let ?s' = "store_after (\<lambda>t. t) [SetRole ''acme'' ''ann'' RoleReadOnly] (store_after (\<lambda>t. t) sample_ops empty_credentials)"
  have c: "map_of (cd_by_hash (store_after (\<lambda>t. t) sample_ops empty_credentials)) ''tok'' = Some sample_credential" by code_simp
  have "\<not> Option.is_none (resolve_token (\<lambda>t. t) 5 ''tok'' ?s')" by code_simp
  then obtain p where p: "resolve_token (\<lambda>t. t) 5 ''tok'' ?s' = Some p" by (auto simp: Option.is_none_def)
  from token_speaks_for_its_member [where hash = "\<lambda>t. t", OF c p] p show ?thesis by (simp add: sample_credential_def)
qed

subsection \<open>Authority that is not what it seems\<close>

text \<open>The scope of a credential is stored but not asked for: a token that was issued to read only writes.\<close>

lemma narrow_scope_ignored:
  "map_option rp_scope (resolve_token (\<lambda>t. t) 5 ''tok'' (snd (issue (\<lambda>t. t) \<lparr>dr_token = ''tok'', dr_id = ''c1''\<rparr>
     \<lparr>ir_user_id = ''ann'', ir_tenant_id = ''acme'', ir_role = RoleOperator, ir_scope = Some ScopeReadOnly,
      ir_display_name = None, ir_tenant_name = None\<rparr> empty_credentials))) = Some ScopeReadWrite"
  by code_simp

text \<open>The role of a new credential becomes the role of the membership, and so of all tokens of the member; and a
  credential makes a member of a user who was removed.\<close>

lemma issuing_changes_roles:
  "map_option rp_role (resolve_token (\<lambda>t. t) 5 ''tok'' (store_after (\<lambda>t. t) (sample_ops @
     [IssueCredential \<lparr>dr_token = ''tik'', dr_id = ''c2''\<rparr> ''ann'' ''acme'' RoleAdmin]) empty_credentials)) = Some RoleAdmin"
  "map_option rp_role (resolve_token (\<lambda>t. t) 5 ''tok'' (store_after (\<lambda>t. t) (sample_ops @
     [RemoveMember ''acme'' ''ann'', IssueCredential \<lparr>dr_token = ''tik'', dr_id = ''c2''\<rparr> ''ann'' ''acme'' RoleReadOnly])
     empty_credentials)) = Some RoleReadOnly"
  by code_simp+

text \<open>Claims whose roles are all unknown get the default role, which writes.\<close>

lemma unknown_role_writes:
  "map_claims RoleOperator [(''sub'', JStr ''eve''), (''tenant'', JStr ''acme''), (''roles'', JList [JStr ''viewer''])]
    = Inr (Some \<lparr>rp_user = \<lparr>up_user_id = ''eve'', up_display_name = None, up_status = AccountActive\<rparr>,
        rp_tenant = \<lparr>tn_id = ''acme'', tn_name = ''acme'', tn_status = TenantActive\<rparr>, rp_role = RoleOperator, rp_scope = ScopeReadWrite\<rparr>)"
  by code_simp

text \<open>The scope of mapped claims is that of the role, as the credential store has it.\<close>

lemma claims_scope: "map_claims fallback claims = Inr (Some p) \<Longrightarrow> rp_scope p = role_scope (rp_role p)"
  unfolding map_claims_def Let_def role_scope_def
  by (cases "role_from_claims fallback claims") (auto split: option.splits sum.splits)

lemma audit_bounded: "length es \<le> capacity \<Longrightarrow> length (record_audit capacity e es) \<le> capacity"
  by (simp add: record_audit_def Let_def)

end
