(* ===== verification/Event_Stream.thy ===== *)
theory Event_Stream
  imports Session_Store
begin

text \<open>
  How events reach those who watch a session: \<open>eventstream.py\<close> with the in-memory sink and its watchers, and
  \<open>runtime/event_stream.py\<close>, where a broker wakes the watcher, who reads from a store.

  A watcher is an asynchronous generator. It is modelled as a machine that is either suspended at a
  \<open>yield\<close>, with the events of its batch that are still to come, or waiting. What happens while it is suspended is a
  sequence of steps. Times and the data of events are left out; a heartbeat is an output of its own.
\<close>

subsection \<open>The cursor\<close>

datatype stream_error = BadStreamArgument string | EventCursorError string

fun filter_loop :: "string option \<Rightarrow> string option \<Rightarrow> int option \<Rightarrow> runtime_event list \<Rightarrow> runtime_event list \<Rightarrow> bool \<Rightarrow> bool
    \<Rightarrow> runtime_event list \<times> bool" where
  "filter_loop sid cursor limit [] selected seen in_scope = (selected, in_scope)"
| "filter_loop sid cursor limit (e # es) selected seen in_scope =
     (if sid \<noteq> None \<and> sid \<noteq> Some (re_session_id e) then filter_loop sid cursor limit es selected seen in_scope
      else let in_scope = (in_scope \<or> cursor = Some (re_id e)) in
        if \<not> seen then filter_loop sid cursor limit es selected (cursor = Some (re_id e)) in_scope
        else let selected = selected @ [e] in
          if (case limit of None \<Rightarrow> False | Some n \<Rightarrow> n \<le> int (length selected)) then (selected, in_scope)
          else filter_loop sid cursor limit es selected seen in_scope)"

definition filter_stream :: "string option \<Rightarrow> string option \<Rightarrow> int option \<Rightarrow> runtime_event list \<Rightarrow> stream_error + runtime_event list" where
  "filter_stream sid cursor limit es =
     (case (case limit of None \<Rightarrow> Inr 1 | Some n \<Rightarrow> parse_positive_int n ''event stream limit'') of
        Inl e \<Rightarrow> Inl (BadStreamArgument e)
      | Inr _ \<Rightarrow> (case filter_loop sid cursor limit es [] (cursor = None) False of (selected, in_scope) \<Rightarrow>
          (case cursor of None \<Rightarrow> Inr selected
           | Some c \<Rightarrow> if in_scope then Inr selected else Inl (EventCursorError (''event cursor not found: '' @ c)))))"

subsection \<open>The sink\<close>

record event_sink =
  ks_events :: "runtime_event list"
  ks_event_ids :: "string list"

definition empty_sink :: event_sink where
  "empty_sink = \<lparr>ks_events = [], ks_event_ids = []\<rparr>"

definition append_to_sink :: "runtime_event \<Rightarrow> event_sink \<Rightarrow> event_sink" where
  "append_to_sink e k = (if re_id e \<in> set (ks_event_ids k) then k
     else \<lparr>ks_events = ks_events k @ [e], ks_event_ids = re_id e # ks_event_ids k\<rparr>)"

definition sink_events_for :: "string \<Rightarrow> event_sink \<Rightarrow> runtime_event list" where
  "sink_events_for sid k = filter (\<lambda>e. re_session_id e = sid) (ks_events k)"

definition visible_events :: "event_sink \<Rightarrow> runtime_event list" where
  "visible_events k = filter (\<lambda>e. re_type e \<noteq> session_state_event) (ks_events k)"

definition list_stream :: "string option \<Rightarrow> string option \<Rightarrow> int option \<Rightarrow> event_sink \<Rightarrow> stream_error + runtime_event list" where
  "list_stream sid cursor limit k = filter_stream sid cursor limit (visible_events k)"

definition filter_existing :: "string option \<Rightarrow> string option \<Rightarrow> event_sink \<Rightarrow> stream_error + runtime_event list" where
  "filter_existing sid cursor k = filter_stream sid cursor None (visible_events k)"

subsection \<open>Watching the sink\<close>

text \<open>
  \<open>Yielded es\<close>: suspended at a \<open>yield\<close>, \<open>es\<close> are the rest of the batch. \<open>Waiting\<close>: in \<open>wait_for\<close>. The flag is the
  \<open>asyncio.Event\<close> of the subscriber. The cursor is that after the assignment that follows the \<open>yield\<close>. \<open>Raised\<close> is
  the end by an error of the cursor.
\<close>

datatype watch_phase = Yielded "runtime_event list" | Waiting | Raised stream_error

datatype watch_output = OutEvent runtime_event | OutHeartbeat

record watcher =
  wa_session :: "string option"
  wa_cursor :: "string option"
  wa_phase :: watch_phase
  wa_flag :: bool

text \<open>The start, up to the first event or to the wait.\<close>

definition take_batch :: "stream_error + runtime_event list \<Rightarrow> watcher \<Rightarrow> watch_output list \<times> watcher" where
  "take_batch r w = (case r of Inl e \<Rightarrow> ([], w\<lparr>wa_phase := Raised e\<rparr>)
     | Inr [] \<Rightarrow> ([], w\<lparr>wa_phase := Waiting, wa_flag := False\<rparr>)
     | Inr (e # es) \<Rightarrow> ([OutEvent e], w\<lparr>wa_phase := Yielded es, wa_cursor := Some (re_id e)\<rparr>))"

definition start_watch :: "string option \<Rightarrow> string option \<Rightarrow> event_sink \<Rightarrow> watch_output list \<times> watcher" where
  "start_watch sid cursor k = take_batch (filter_existing sid cursor k)
     \<lparr>wa_session = sid, wa_cursor = cursor, wa_phase = Waiting, wa_flag = False\<rparr>"

text \<open>
  \<open>SinkEmit\<close> is \<open>emit\<close>, \<open>SinkAppend\<close> the bare \<open>append\<close>; \<open>Pull\<close> resumes the generator at its \<open>yield\<close>; \<open>WaitEnds\<close> ends
  the wait, by the flag if it is set and by the timeout otherwise.
\<close>

datatype watch_event = SinkEmit runtime_event | SinkAppend runtime_event | Pull | WaitEnds

record watch_state =
  ws_sink :: event_sink
  ws_watcher :: watcher
  ws_out :: "watch_output list"

fun watch_step :: "watch_state \<Rightarrow> watch_event \<Rightarrow> watch_state" where
  "watch_step s (SinkEmit e) = s\<lparr>ws_sink := append_to_sink e (ws_sink s), ws_watcher := (ws_watcher s)\<lparr>wa_flag := True\<rparr>\<rparr>"
| "watch_step s (SinkAppend e) = s\<lparr>ws_sink := append_to_sink e (ws_sink s)\<rparr>"
| "watch_step s Pull = (case wa_phase (ws_watcher s) of
     Yielded es \<Rightarrow> (case take_batch (Inr es) (ws_watcher s) of (out, w) \<Rightarrow> s\<lparr>ws_watcher := w, ws_out := ws_out s @ out\<rparr>)
   | _ \<Rightarrow> s)"
| "watch_step s WaitEnds = (case wa_phase (ws_watcher s) of
     Waiting \<Rightarrow>
       if wa_flag (ws_watcher s)
       then (case take_batch (filter_existing (wa_session (ws_watcher s)) (wa_cursor (ws_watcher s)) (ws_sink s)) (ws_watcher s) of
               (out, w) \<Rightarrow> s\<lparr>ws_watcher := w, ws_out := ws_out s @ out\<rparr>)
       else s\<lparr>ws_watcher := (ws_watcher s)\<lparr>wa_phase := Yielded []\<rparr>, ws_out := ws_out s @ [OutHeartbeat]\<rparr>
   | _ \<Rightarrow> s)"

definition watch_from :: "string option \<Rightarrow> string option \<Rightarrow> event_sink \<Rightarrow> watch_state" where
  "watch_from sid cursor k = (case start_watch sid cursor k of (out, w) \<Rightarrow> \<lparr>ws_sink = k, ws_watcher = w, ws_out = out\<rparr>)"

definition delivered :: "watch_output list \<Rightarrow> runtime_event list" where
  "delivered out = List.map_filter (\<lambda>x. case x of OutEvent e \<Rightarrow> Some e | OutHeartbeat \<Rightarrow> None) out"

subsection \<open>Polling\<close>

text \<open>
  \<open>poll_event_reader\<close> over the sink: between two outputs the store is read at most twice, before and after the
  sleep, at \<open>k1\<close> and \<open>k2\<close>.
\<close>

record poller =
  po_session :: "string option"
  po_cursor :: "string option"
  po_batch :: "runtime_event list"

definition poll_next :: "event_sink \<Rightarrow> event_sink \<Rightarrow> poller \<Rightarrow> stream_error + watch_output \<times> poller" where
  "poll_next k1 k2 p = (case po_batch p of
     e # es \<Rightarrow> Inr (OutEvent e, p\<lparr>po_cursor := Some (re_id e), po_batch := es\<rparr>)
   | [] \<Rightarrow> (case list_stream (po_session p) (po_cursor p) None k1 of Inl x \<Rightarrow> Inl x
     | Inr (e # es) \<Rightarrow> Inr (OutEvent e, p\<lparr>po_cursor := Some (re_id e), po_batch := es\<rparr>)
     | Inr [] \<Rightarrow> (case list_stream (po_session p) (po_cursor p) None k2 of Inl x \<Rightarrow> Inl x
       | Inr (e # es) \<Rightarrow> Inr (OutEvent e, p\<lparr>po_cursor := Some (re_id e), po_batch := es\<rparr>)
       | Inr [] \<Rightarrow> Inr (OutHeartbeat, p))))"

subsection \<open>The broker\<close>

record event_signal =
  sg_session_id :: string
  sg_event_id :: string

record signal_subscription =
  su_session :: "string option"
  su_queue :: "event_signal list"
  su_maxsize :: nat
  su_dropped :: nat
  su_closed :: bool

record signal_broker =
  sb_subscriptions :: "signal_subscription list"
  sb_dropped :: nat

definition subscribe :: "string option \<Rightarrow> int \<Rightarrow> signal_broker \<Rightarrow> (signal_broker, stream_error, nat) outcome" where
  "subscribe sid max_size b = (case parse_positive_int max_size ''event signal max_buffer_size'' of
       Inl e \<Rightarrow> (Inl (BadStreamArgument e), b)
     | Inr n \<Rightarrow> (Inr (length (sb_subscriptions b)), b\<lparr>sb_subscriptions := sb_subscriptions b @
         [\<lparr>su_session = sid, su_queue = [], su_maxsize = nat n, su_dropped = 0, su_closed = False\<rparr>]\<rparr>))"

definition subscription_accepts :: "string \<Rightarrow> signal_subscription \<Rightarrow> bool" where
  "subscription_accepts sid u \<longleftrightarrow> su_session u = None \<or> su_session u = Some sid"

definition notify_subscription :: "event_signal \<Rightarrow> signal_subscription \<Rightarrow> nat \<times> signal_subscription" where
  "notify_subscription g u = (if su_closed u then (0, u)
     else if su_maxsize u \<le> length (su_queue u) then (1, u\<lparr>su_dropped := su_dropped u + 1\<rparr>)
     else (0, u\<lparr>su_queue := su_queue u @ [g]\<rparr>))"

text \<open>A subscription that is closed is out of the list of the broker; here it stays in its place, marked as closed.\<close>

definition notify_broker :: "runtime_event \<Rightarrow> signal_broker \<Rightarrow> signal_broker" where
  "notify_broker e b =
     (let rs = map (\<lambda>u. if su_closed u \<or> \<not> subscription_accepts (re_session_id e) u then (0, u)
          else notify_subscription \<lparr>sg_session_id = re_session_id e, sg_event_id = re_id e\<rparr> u) (sb_subscriptions b)
      in \<lparr>sb_subscriptions = map snd rs, sb_dropped = sb_dropped b + sum_list (map fst rs)\<rparr>)"

definition close_subscription :: "nat \<Rightarrow> signal_broker \<Rightarrow> signal_broker" where
  "close_subscription i b = b\<lparr>sb_subscriptions := (sb_subscriptions b)[i := (sb_subscriptions b ! i)\<lparr>su_closed := True\<rparr>]\<rparr>"

definition subscriber_count :: "signal_broker \<Rightarrow> nat" where
  "subscriber_count b = length (filter (\<lambda>u. \<not> su_closed u) (sb_subscriptions b))"

text \<open>\<open>BrokerBackedEventStream.watch_events\<close>: the broker has one subscription here, the watcher's own.\<close>

record broker_watch =
  bw_sink :: event_sink
  bw_subscription :: signal_subscription
  bw_session :: "string option"
  bw_cursor :: "string option"
  bw_batch :: "runtime_event list"
  bw_error :: "stream_error option"
  bw_out :: "watch_output list"

text \<open>One output, or the end of one wait by a signal.\<close>

definition broker_turn :: "int \<Rightarrow> broker_watch \<Rightarrow> broker_watch" where
  "broker_turn limit s =
     (if bw_error s \<noteq> None then s
      else case bw_batch s of
        e # es \<Rightarrow> s\<lparr>bw_cursor := Some (re_id e), bw_batch := es, bw_out := bw_out s @ [OutEvent e]\<rparr>
      | [] \<Rightarrow> (case list_stream (bw_session s) (bw_cursor s) (Some limit) (bw_sink s) of
          Inl x \<Rightarrow> s\<lparr>bw_error := Some x\<rparr>
        | Inr (e # es) \<Rightarrow> s\<lparr>bw_cursor := Some (re_id e), bw_batch := es, bw_out := bw_out s @ [OutEvent e]\<rparr>
        | Inr [] \<Rightarrow> (case su_queue (bw_subscription s) of
            g # gs \<Rightarrow> s\<lparr>bw_subscription := (bw_subscription s)\<lparr>su_queue := gs\<rparr>\<rparr>
          | [] \<Rightarrow> s\<lparr>bw_out := bw_out s @ [OutHeartbeat]\<rparr>)))"

text \<open>An event is stored and the broker is notified; a notification may also get lost.\<close>

datatype broker_event = Stored runtime_event bool | Turn

fun broker_step :: "int \<Rightarrow> broker_watch \<Rightarrow> broker_event \<Rightarrow> broker_watch" where
  "broker_step limit s (Stored e lost) = s\<lparr>bw_sink := append_to_sink e (bw_sink s),
     bw_subscription := (if lost \<or> \<not> subscription_accepts (re_session_id e) (bw_subscription s) then bw_subscription s
       else snd (notify_subscription \<lparr>sg_session_id = re_session_id e, sg_event_id = re_id e\<rparr> (bw_subscription s)))\<rparr>"
| "broker_step limit s Turn = broker_turn limit s"

definition broker_watch_from :: "string option \<Rightarrow> string option \<Rightarrow> nat \<Rightarrow> event_sink \<Rightarrow> broker_watch" where
  "broker_watch_from sid cursor buffer k = \<lparr>bw_sink = k, bw_subscription = \<lparr>su_session = sid, su_queue = [], su_maxsize = buffer,
     su_dropped = 0, su_closed = False\<rparr>, bw_session = sid, bw_cursor = cursor, bw_batch = [], bw_error = None, bw_out = []\<rparr>"

end
