(* ===== verification/Stream_Safety.thy ===== *)
theory Stream_Safety
  imports Event_Stream "HOL-Library.Sublist"
begin

text \<open>
  A watcher gets the events of its session in order, none twice and none left out. A watcher that a broker wakes gets
  all of them even if every notification is lost; one of the in-memory sink can be left waiting for an event
  that is there.
\<close>

subsection \<open>What a cursor stands for\<close>

definition in_scope_of :: "string option \<Rightarrow> runtime_event list \<Rightarrow> runtime_event list" where
  "in_scope_of sid es = filter (\<lambda>e. sid = None \<or> sid = Some (re_session_id e)) es"

definition after_cursor :: "string option \<Rightarrow> runtime_event list \<Rightarrow> runtime_event list option" where
  "after_cursor cursor xs = (case cursor of None \<Rightarrow> Some xs
     | Some c \<Rightarrow> if c \<in> re_id ` set xs then Some (tl (dropWhile (\<lambda>e. re_id e \<noteq> c) xs)) else None)"

definition upto_limit :: "int option \<Rightarrow> 'a list \<Rightarrow> 'a list" where
  "upto_limit limit xs = (case limit of None \<Rightarrow> xs | Some n \<Rightarrow> take (nat n) xs)"

definition positive_limit :: "int option \<Rightarrow> bool" where
  "positive_limit limit \<longleftrightarrow> (case limit of None \<Rightarrow> True | Some n \<Rightarrow> 0 < n)"

lemma in_scope_simps [simp]: "in_scope_of sid [] = []"
  "in_scope_of sid (e # es) = (if sid = None \<or> sid = Some (re_session_id e) then e # in_scope_of sid es else in_scope_of sid es)"
  by (simp_all add: in_scope_of_def)

lemma filter_loop_seen:
  assumes "case limit of None \<Rightarrow> True | Some n \<Rightarrow> int (length selected) < n"
  shows "fst (filter_loop sid cursor limit es selected True b)
    = selected @ (case limit of None \<Rightarrow> in_scope_of sid es | Some n \<Rightarrow> take (nat n - length selected) (in_scope_of sid es))"
  using assms
proof (induction es arbitrary: selected b)
  case (Cons e es)
  show ?case
  proof (cases limit)
    case None
    then have "fst (filter_loop sid cursor limit es sel True c) = sel @ in_scope_of sid es" for sel c
      using Cons.IH [of sel c] by simp
    then show ?thesis using None by (auto simp: Let_def)
  next
    case (Some n)
    have less: "int (length selected) < n" using Cons.prems Some by simp
    then have "nat n - length selected = Suc (nat n - Suc (length selected))" by simp
    moreover have "int (length selected) + 1 < n \<Longrightarrow> fst (filter_loop sid cursor limit es (selected @ [e]) True c)
      = selected @ e # take (nat n - Suc (length selected)) (in_scope_of sid es)" for c
      using Cons.IH [of "selected @ [e]" c] Some by simp
    moreover have "\<not> int (length selected) + 1 < n \<Longrightarrow> nat n - Suc (length selected) = 0" by simp
    moreover have "fst (filter_loop sid cursor limit es selected True c)
      = selected @ take (nat n - length selected) (in_scope_of sid es)" for c
      using Cons.IH [of selected c] Cons.prems Some by simp
    ultimately show ?thesis using Some less by (auto simp: Let_def)
  qed
qed (simp split: option.split)

lemma filter_loop_scope:
  "snd (filter_loop sid cursor limit es selected seen True)"
  by (induction sid cursor limit es selected seen True rule: filter_loop.induct) (auto simp: Let_def)

lemma filter_loop_unseen:
  assumes "positive_limit limit"
  shows "c \<in> re_id ` set (in_scope_of sid es) \<Longrightarrow> fst (filter_loop sid (Some c) limit es [] False b)
      = upto_limit limit (tl (dropWhile (\<lambda>e. re_id e \<noteq> c) (in_scope_of sid es))) \<and> snd (filter_loop sid (Some c) limit es [] False b)"
    "c \<notin> re_id ` set (in_scope_of sid es) \<Longrightarrow> snd (filter_loop sid (Some c) limit es [] False b) = b"
proof (induction es arbitrary: b)
  case (Cons e es)
  { case 1
    have "fst (filter_loop sid (Some c) limit es [] True True) = upto_limit limit (in_scope_of sid es)"
      using filter_loop_seen [where limit = limit and selected = "[]" and sid = sid and cursor = "Some c" and es = es and b = True] assms by (cases limit) (simp_all add: upto_limit_def positive_limit_def)
    then show ?case using 1 Cons.IH(1) filter_loop_scope by (auto simp: Let_def)
  next
    case 2
    then show ?case using Cons.IH(2) by (auto simp: Let_def)
  }
qed simp_all

text \<open>\<open>filter_events\<close> returns what is in scope after the cursor, up to the limit.\<close>

lemma filter_stream_exact:
  assumes "positive_limit limit"
  shows "filter_stream sid cursor limit es = (case after_cursor cursor (in_scope_of sid es) of
      None \<Rightarrow> Inl (EventCursorError (''event cursor not found: '' @ the cursor)) | Some ys \<Rightarrow> Inr (upto_limit limit ys))"
proof -
  have lim: "(case limit of None \<Rightarrow> Inr 1 | Some n \<Rightarrow> parse_positive_int n ''event stream limit'')
      = (case limit of None \<Rightarrow> Inr 1 | Some n \<Rightarrow> Inr n)"
    using assms by (cases limit) (simp_all add: parse_positive_int_def positive_limit_def)
  show ?thesis
  proof (cases cursor)
    case None
    have "fst (filter_loop sid None limit es [] True False) = upto_limit limit (in_scope_of sid es)"
      using filter_loop_seen [where limit = limit and selected = "[]" and sid = sid and cursor = None and es = es and b = False] assms by (cases limit) (simp_all add: upto_limit_def positive_limit_def)
    then obtain b where "filter_loop sid None limit es [] True False = (upto_limit limit (in_scope_of sid es), b)"
      by (metis prod.collapse)
    then show ?thesis using None lim by (cases limit) (simp_all add: filter_stream_def after_cursor_def)
  next
    case (Some c)
    obtain ys b where f: "filter_loop sid (Some c) limit es [] False False = (ys, b)" by fastforce
    have "b \<longleftrightarrow> c \<in> re_id ` set (in_scope_of sid es)"
      "b \<Longrightarrow> ys = upto_limit limit (tl (dropWhile (\<lambda>e. re_id e \<noteq> c) (in_scope_of sid es)))"
      using filter_loop_unseen [OF assms, where c = c and sid = sid and es = es and b = False] unfolding f by auto
    then show ?thesis using Some f lim by (cases limit) (auto simp: filter_stream_def after_cursor_def)
  qed
qed

lemma after_cursor_append:
  assumes "after_cursor cursor xs = Some ys"
  shows "after_cursor cursor (xs @ zs) = Some (ys @ zs)"
proof (cases cursor)
  case (Some c)
  then have c: "c \<in> re_id ` set xs" and ys: "ys = tl (dropWhile (\<lambda>e. re_id e \<noteq> c) xs)"
    using assms by (auto simp: after_cursor_def split: if_splits)
  then have "dropWhile (\<lambda>e. re_id e \<noteq> c) (xs @ zs) = dropWhile (\<lambda>e. re_id e \<noteq> c) xs @ zs"
    "dropWhile (\<lambda>e. re_id e \<noteq> c) xs \<noteq> []"
    by (auto simp: dropWhile_append dropWhile_eq_Nil_conv)
  then show ?thesis using Some c ys by (auto simp: after_cursor_def)
qed (use assms in \<open>simp add: after_cursor_def\<close>)

lemma after_cursor_suffix: "after_cursor cursor xs = Some ys \<Longrightarrow> \<exists>pre. xs = pre @ ys"
proof (cases cursor)
  case (Some c)
  assume a: "after_cursor cursor xs = Some ys"
  let ?d = "dropWhile (\<lambda>e. re_id e \<noteq> c) xs"
  have "?d \<noteq> []" "ys = tl ?d" using a Some by (auto simp: after_cursor_def dropWhile_eq_Nil_conv split: if_splits)
  then have "xs = (takeWhile (\<lambda>e. re_id e \<noteq> c) xs @ [hd ?d]) @ ys" by (simp add: takeWhile_dropWhile_id)
  then show ?thesis by blast
qed (simp add: after_cursor_def)

lemma after_cursor_next:
  assumes "after_cursor cursor xs = Some (e # ys)" and "distinct (map re_id xs)"
  shows "after_cursor (Some (re_id e)) xs = Some ys"
proof -
  obtain pre where xs: "xs = pre @ e # ys" using after_cursor_suffix [OF assms(1)] by blast
  have "\<forall>x \<in> set pre. re_id x \<noteq> re_id e" using assms(2) unfolding xs by (auto simp: image_iff)
  then have "dropWhile (\<lambda>x. re_id x \<noteq> re_id e) xs = e # ys" unfolding xs by (subst dropWhile_append2) auto
  then show ?thesis by (simp add: after_cursor_def xs)
qed

subsection \<open>The sink\<close>

definition sink_wf :: "event_sink \<Rightarrow> bool" where
  "sink_wf k \<longleftrightarrow> distinct (map re_id (ks_events k)) \<and> set (ks_event_ids k) = re_id ` set (ks_events k)"

lemma sink_wf_append: "sink_wf k \<Longrightarrow> sink_wf (append_to_sink e k)"
  by (auto simp: sink_wf_def append_to_sink_def)

lemma sink_wf_filled: "sink_wf (fold append_to_sink es empty_sink)"
proof -
  have "sink_wf k \<Longrightarrow> sink_wf (fold append_to_sink es k)" for k
    by (induction es arbitrary: k) (simp_all add: sink_wf_append)
  then show ?thesis by (simp add: sink_wf_def empty_sink_def)
qed

definition stream_of :: "string option \<Rightarrow> event_sink \<Rightarrow> runtime_event list" where
  "stream_of sid k = in_scope_of sid (visible_events k)"

lemma stream_append: "\<exists>zs. stream_of sid (append_to_sink e k) = stream_of sid k @ zs"
  by (simp add: stream_of_def in_scope_of_def visible_events_def append_to_sink_def)

lemma stream_distinct: "sink_wf k \<Longrightarrow> distinct (map re_id (stream_of sid k))"
  by (simp add: sink_wf_def stream_of_def in_scope_of_def visible_events_def distinct_map_filter)

lemma list_stream_exact:
  assumes "positive_limit limit"
  shows "list_stream sid cursor limit k = (case after_cursor cursor (stream_of sid k) of
      None \<Rightarrow> Inl (EventCursorError (''event cursor not found: '' @ the cursor)) | Some ys \<Rightarrow> Inr (upto_limit limit ys))"
  unfolding list_stream_def stream_of_def using assms by (rule filter_stream_exact)

lemma filter_existing_exact:
  "filter_existing sid cursor k = (case after_cursor cursor (stream_of sid k) of
      None \<Rightarrow> Inl (EventCursorError (''event cursor not found: '' @ the cursor)) | Some ys \<Rightarrow> Inr ys)"
  using list_stream_exact [of None sid cursor k, unfolded positive_limit_def] by (simp add: filter_existing_def list_stream_def upto_limit_def split: option.split)

lemma delivered_simps [simp]: "delivered [] = []" "delivered (xs @ ys) = delivered xs @ delivered ys"
  "delivered [OutEvent e] = [e]" "delivered [OutHeartbeat] = []"
  by (simp_all add: delivered_def map_filter_def)

subsection \<open>Watching the sink\<close>

text \<open>What is delivered and what is still to come are together all that comes after the first cursor.\<close>

definition in_order :: "string option \<Rightarrow> string option \<Rightarrow> event_sink \<Rightarrow> string option \<Rightarrow> watch_output list \<Rightarrow> runtime_event list \<Rightarrow> bool" where
  "in_order sid first k cursor out rest \<longleftrightarrow> after_cursor first (stream_of sid k) = Some (delivered out @ rest)
     \<and> after_cursor cursor (stream_of sid k) = Some rest"

lemma in_order_append:
  "in_order sid first k cursor out rest \<Longrightarrow> \<exists>zs. in_order sid first (append_to_sink e k) cursor out (rest @ zs)"
  using stream_append [of sid e k] after_cursor_append unfolding in_order_def by (metis append.assoc)

lemma in_order_next:
  assumes "sink_wf k" and "in_order sid first k cursor out (e # rest)"
  shows "in_order sid first k (Some (re_id e)) (out @ [OutEvent e]) rest"
  using assms(2) after_cursor_next [OF _ stream_distinct [OF assms(1)], of cursor sid e rest] unfolding in_order_def by simp

definition watch_inv :: "string option \<Rightarrow> string option \<Rightarrow> watch_state \<Rightarrow> bool" where
  "watch_inv sid first s \<longleftrightarrow> sink_wf (ws_sink s) \<and> wa_session (ws_watcher s) = sid
     \<and> (case wa_phase (ws_watcher s) of
          Raised x \<Rightarrow> delivered (ws_out s) = []
        | Waiting \<Rightarrow> \<exists>rest. in_order sid first (ws_sink s) (wa_cursor (ws_watcher s)) (ws_out s) rest
        | Yielded es \<Rightarrow> \<exists>later. in_order sid first (ws_sink s) (wa_cursor (ws_watcher s)) (ws_out s) (es @ later))"

lemma watch_inv_grow:
  assumes "watch_inv sid first s" and "w = ws_watcher s \<or> w = (ws_watcher s)\<lparr>wa_flag := True\<rparr>"
  shows "watch_inv sid first (s\<lparr>ws_sink := append_to_sink e (ws_sink s), ws_watcher := w\<rparr>)"
proof (cases "wa_phase (ws_watcher s)")
  case (Yielded es)
  then obtain later where "in_order sid first (ws_sink s) (wa_cursor (ws_watcher s)) (ws_out s) (es @ later)"
    using assms(1) by (auto simp: watch_inv_def)
  from in_order_append [OF this, of e] show ?thesis using assms Yielded sink_wf_append by (auto simp: watch_inv_def)
next
  case Waiting
  then obtain rest where "in_order sid first (ws_sink s) (wa_cursor (ws_watcher s)) (ws_out s) rest"
    using assms(1) by (auto simp: watch_inv_def)
  from in_order_append [OF this, of e] show ?thesis using assms Waiting sink_wf_append by (auto simp: watch_inv_def)
qed (use assms sink_wf_append in \<open>auto simp: watch_inv_def\<close>)

lemma watch_inv_batch:
  assumes "sink_wf (ws_sink s)" and "in_order sid first (ws_sink s) (wa_cursor (ws_watcher s)) (ws_out s) (es @ later)"
    and "wa_session (ws_watcher s) = sid" and "take_batch (Inr es) (ws_watcher s) = (out, w)"
  shows "watch_inv sid first (s\<lparr>ws_watcher := w, ws_out := ws_out s @ out\<rparr>)"
proof (cases es)
  case Nil
  then show ?thesis using assms by (auto simp: take_batch_def watch_inv_def)
next
  case (Cons e es')
  then have "in_order sid first (ws_sink s) (Some (re_id e)) (ws_out s @ [OutEvent e]) (es' @ later)"
    using in_order_next [OF assms(1)] assms(2) by simp
  then show ?thesis using assms Cons by (auto simp: take_batch_def watch_inv_def)
qed

lemma watch_inv_step:
  assumes "watch_inv sid first s"
  shows "watch_inv sid first (watch_step s ev)"
proof (cases ev)
  case (SinkAppend e)
  then show ?thesis using watch_inv_grow [OF assms, of "ws_watcher s" e] by simp
next
  case Pull
  show ?thesis
  proof (cases "wa_phase (ws_watcher s)")
    case (Yielded es)
    obtain out w where t: "take_batch (Inr es) (ws_watcher s) = (out, w)" by fastforce
    obtain later where "in_order sid first (ws_sink s) (wa_cursor (ws_watcher s)) (ws_out s) (es @ later)"
      using assms Yielded by (auto simp: watch_inv_def)
    then show ?thesis using watch_inv_batch [OF _ _ _ t, of sid first later] assms Pull Yielded t by (simp add: watch_inv_def)
  qed (use Pull assms in auto)
next
  case WaitEnds
  show ?thesis
  proof (cases "wa_phase (ws_watcher s)")
    case Waiting
    obtain rest where rest: "in_order sid first (ws_sink s) (wa_cursor (ws_watcher s)) (ws_out s) rest"
      using assms Waiting by (auto simp: watch_inv_def)
    have f: "filter_existing (wa_session (ws_watcher s)) (wa_cursor (ws_watcher s)) (ws_sink s) = Inr rest"
      using rest assms by (simp add: filter_existing_exact in_order_def watch_inv_def)
    obtain out w where t: "take_batch (Inr rest) (ws_watcher s) = (out, w)" by fastforce
    show ?thesis
    proof (cases "wa_flag (ws_watcher s)")
      case True
      then show ?thesis using watch_inv_batch [OF _ _ _ t, of sid first "[]"] rest assms WaitEnds Waiting t f
        by (simp add: watch_inv_def)
    next
      case False
      then show ?thesis using rest assms WaitEnds Waiting by (auto simp: watch_inv_def in_order_def)
    qed
  qed (use WaitEnds assms in auto)
qed (use watch_inv_grow [OF assms] in simp)

lemma watch_inv_start: "sink_wf k \<Longrightarrow> watch_inv sid first (watch_from sid first k)"
proof -
  assume k: "sink_wf k"
  let ?w = "\<lparr>wa_session = sid, wa_cursor = first, wa_phase = Waiting, wa_flag = False\<rparr>"
  show ?thesis
  proof (cases "after_cursor first (stream_of sid k)")
    case None
    then show ?thesis using k by (simp add: watch_from_def start_watch_def filter_existing_exact take_batch_def watch_inv_def)
  next
    case (Some all)
    obtain out w where t: "take_batch (Inr all) ?w = (out, w)" by fastforce
    have "watch_inv sid first (\<lparr>ws_sink = k, ws_watcher = ?w, ws_out = []\<rparr>\<lparr>ws_watcher := w, ws_out := [] @ out\<rparr>)"
      using watch_inv_batch [of "\<lparr>ws_sink = k, ws_watcher = ?w, ws_out = []\<rparr>" sid first all "[]" out w] k t Some
      by (simp add: in_order_def)
    then show ?thesis using t Some by (simp add: watch_from_def start_watch_def filter_existing_exact)
  qed
qed

interpretation watching: invariant_system watch_step "watch_from sid first (fold append_to_sink es empty_sink)" "watch_inv sid first"
  for sid first es
  by unfold_locales (rule watch_inv_start [OF sink_wf_filled], rule watch_inv_step)

text \<open>A watcher of the sink gets every event at most once and in order. However emissions, appends, pulls and the
  ends of waits follow each other, what has been delivered is the beginning of what the sink now has after
  the cursor the watch began at; and a watch ends with an error only before it has delivered anything.\<close>

theorem watch_in_order:
  "let s = run_events watch_step (watch_from sid first (fold append_to_sink es empty_sink)) evs in
    (case wa_phase (ws_watcher s) of Raised x \<Rightarrow> delivered (ws_out s) = []
     | _ \<Rightarrow> \<exists>rest. after_cursor first (stream_of sid (ws_sink s)) = Some (delivered (ws_out s) @ rest))"
proof -
  define s where "s = run_events watch_step (watch_from sid first (fold append_to_sink es empty_sink)) evs"
  have "watch_inv sid first s" unfolding s_def by (rule watching.inv_run_init)
  then show ?thesis unfolding s_def [symmetric] Let_def
    by (cases "wa_phase (ws_watcher s)") (auto simp: watch_inv_def in_order_def)
qed

text \<open>
  An event that is emitted while the consumer handles the last one sets the flag, and the watcher then clears the flag
  without looking: it waits, and gets nothing but heartbeats until something else is emitted.
\<close>

lemma watch_loses_wakeup:
  assumes "re_id a \<noteq> re_id b" and "re_type a \<noteq> session_state_event" and "re_type b \<noteq> session_state_event"
  shows "delivered (ws_out (run_events watch_step (watch_from None None (append_to_sink a empty_sink))
     ([SinkEmit b, Pull] @ concat (replicate n [WaitEnds, Pull])))) = [a]"
proof -
  let ?idle = "\<lambda>s. wa_phase (ws_watcher s) = Waiting \<and> \<not> wa_flag (ws_watcher s) \<and> delivered (ws_out s) = [a]"
  have idle: "?idle (run_events watch_step s (concat (replicate n [WaitEnds, Pull])))" if "?idle s" for s
    using that by (induction n arbitrary: s) (simp_all add: take_batch_def)
  have "?idle (run_events watch_step (watch_from None None (append_to_sink a empty_sink)) [SinkEmit b, Pull])"
    using assms by (simp add: watch_from_def start_watch_def filter_existing_exact after_cursor_def stream_of_def in_scope_of_def
        visible_events_def append_to_sink_def empty_sink_def take_batch_def)
  from idle [OF this] show ?thesis unfolding run_events_append by simp
qed

subsection \<open>Watching through a broker\<close>

definition broker_going :: "string option \<Rightarrow> broker_watch \<Rightarrow> bool" where
  "broker_going first s \<longleftrightarrow> bw_error s = None
     \<and> (\<exists>later. in_order (bw_session s) first (bw_sink s) (bw_cursor s) (bw_out s) (bw_batch s @ later))"

definition broker_silent :: "string option \<Rightarrow> broker_watch \<Rightarrow> bool" where
  "broker_silent first s \<longleftrightarrow> bw_batch s = [] \<and> delivered (bw_out s) = []
     \<and> (bw_error s = None \<longrightarrow> bw_cursor s = first \<and> after_cursor first (stream_of (bw_session s) (bw_sink s)) = None)"

definition broker_inv :: "string option \<Rightarrow> string option \<Rightarrow> broker_watch \<Rightarrow> bool" where
  "broker_inv sid first s \<longleftrightarrow> sink_wf (bw_sink s) \<and> bw_session s = sid \<and> (broker_going first s \<or> broker_silent first s)"

lemma broker_inv_stored:
  assumes "broker_inv sid first s"
  shows "broker_inv sid first (broker_step limit s (Stored e lost))"
proof -
  let ?s = "broker_step limit s (Stored e lost)"
  have same: "bw_sink ?s = append_to_sink e (bw_sink s)" "bw_session ?s = sid" "bw_error ?s = bw_error s"
    "bw_cursor ?s = bw_cursor s" "bw_batch ?s = bw_batch s" "bw_out ?s = bw_out s"
    using assms by (simp_all add: broker_inv_def)
  have wf: "sink_wf (bw_sink ?s)" using assms sink_wf_append unfolding same(1) by (simp add: broker_inv_def)
  from assms consider "broker_going first s" | "broker_silent first s" by (auto simp: broker_inv_def)
  then show ?thesis
  proof cases
    case 1
    then obtain later where "in_order sid first (bw_sink s) (bw_cursor s) (bw_out s) (bw_batch s @ later)" "bw_error s = None"
      using assms by (auto simp: broker_going_def broker_inv_def)
    with in_order_append [OF this(1), of e] have "broker_going first ?s" unfolding broker_going_def same by auto
    then show ?thesis using wf same(2) by (simp add: broker_inv_def)
  next
    case 2
    show ?thesis
    proof (cases "bw_error s = None \<and> after_cursor first (stream_of sid (bw_sink ?s)) \<noteq> None")
      case True
      then obtain all where "after_cursor first (stream_of sid (bw_sink ?s)) = Some all" by auto
      then have "broker_going first ?s" using 2 True unfolding broker_going_def broker_silent_def same by (auto simp: in_order_def same)
      then show ?thesis using wf same(2) by (simp add: broker_inv_def)
    next
      case False
      then have "broker_silent first ?s" using 2 unfolding broker_silent_def same(2-6) by auto
      then show ?thesis using wf same(2) by (simp add: broker_inv_def)
    qed
  qed
qed

text \<open>One turn while the stream is going: the next event, if there is one.\<close>

lemma broker_turn_delivers:
  assumes "0 < limit" and "sink_wf (bw_sink s)" and "bw_error s = None"
    and "in_order (bw_session s) first (bw_sink s) (bw_cursor s) (bw_out s) (bw_batch s @ later)"
  defines "t \<equiv> broker_turn limit s"
  shows "bw_sink t = bw_sink s \<and> bw_session t = bw_session s \<and> bw_error t = None
    \<and> (case bw_batch s @ later of
         [] \<Rightarrow> in_order (bw_session s) first (bw_sink t) (bw_cursor t) (bw_out t) (bw_batch t) \<and> bw_batch t = []
           \<and> delivered (bw_out t) = delivered (bw_out s)
       | e # rest \<Rightarrow> delivered (bw_out t) = delivered (bw_out s) @ [e]
           \<and> (\<exists>later'. rest = bw_batch t @ later' \<and> in_order (bw_session s) first (bw_sink t) (bw_cursor t) (bw_out t) rest))"
proof (cases "bw_batch s")
  case Nil
  have l: "list_stream (bw_session s) (bw_cursor s) (Some limit) (bw_sink s) = Inr (take (nat limit) later)"
    using assms(1,4) Nil by (simp add: list_stream_exact positive_limit_def in_order_def upto_limit_def)
  show ?thesis
  proof (cases later)
    case Nil': Nil
    then show ?thesis using assms(3,4) Nil l unfolding t_def broker_turn_def
      by (cases "su_queue (bw_subscription s)") (auto simp: in_order_def)
  next
    case (Cons e rest)
    have "take (nat limit) later = e # take (nat limit - 1) rest" using assms(1) Cons by (simp add: take_Cons')
    moreover have "in_order (bw_session s) first (bw_sink s) (Some (re_id e)) (bw_out s @ [OutEvent e]) rest"
      using in_order_next [OF assms(2)] assms(4) Nil Cons by simp
    ultimately show ?thesis using assms(3) Nil Cons l unfolding t_def broker_turn_def
      by (auto intro!: exI [of _ "drop (nat limit - 1) rest"])
  qed
next
  case (Cons e es)
  have "in_order (bw_session s) first (bw_sink s) (Some (re_id e)) (bw_out s @ [OutEvent e]) (es @ later)"
    using in_order_next [OF assms(2)] assms(4) Cons by simp
  then show ?thesis using assms(3) Cons unfolding t_def broker_turn_def by auto
qed

lemma broker_going_turn:
  assumes "0 < limit" and "sink_wf (bw_sink s)" and "broker_going first s"
  shows "broker_going first (broker_turn limit s)"
proof -
  obtain later where l: "bw_error s = None" "in_order (bw_session s) first (bw_sink s) (bw_cursor s) (bw_out s) (bw_batch s @ later)"
    using assms(3) by (auto simp: broker_going_def)
  show ?thesis
  proof (cases "bw_batch s @ later")
    case Nil
    then show ?thesis using broker_turn_delivers [OF assms(1,2) l] unfolding broker_going_def Nil list.case
      by (metis append_Nil2)
  next
    case (Cons e rest)
    then show ?thesis using broker_turn_delivers [OF assms(1,2) l] unfolding broker_going_def Cons list.case by metis
  qed
qed

lemma broker_inv_turn:
  assumes "0 < limit" and "broker_inv sid first s"
  shows "broker_inv sid first (broker_turn limit s)"
proof -
  have wf: "sink_wf (bw_sink s)" and sid: "bw_session s = sid" using assms(2) by (simp_all add: broker_inv_def)
  have same: "bw_sink (broker_turn limit s) = bw_sink s" "bw_session (broker_turn limit s) = bw_session s"
    by (simp_all add: broker_turn_def split: list.split sum.split)
  from assms(2) consider "broker_going first s" | "broker_silent first s" by (auto simp: broker_inv_def)
  then show ?thesis
  proof cases
    case 1
    then show ?thesis using broker_going_turn [OF assms(1) wf] same wf sid by (simp add: broker_inv_def)
  next
    case 2
    then have "broker_silent first (broker_turn limit s)"
      using assms(1) by (auto simp: broker_silent_def broker_turn_def list_stream_exact positive_limit_def)
    then show ?thesis using same wf sid by (simp add: broker_inv_def)
  qed
qed

lemma broker_inv_step: "broker_inv sid first s \<Longrightarrow> broker_inv sid first (broker_step (int (Suc m)) s ev)"
  by (cases ev) (auto intro: broker_inv_turn simp del: broker_step.simps(1) intro!: broker_inv_stored)

lemma broker_inv_start: "sink_wf k \<Longrightarrow> broker_inv sid first (broker_watch_from sid first buffer k)"
  by (cases "after_cursor first (stream_of sid k)")
    (auto simp: broker_inv_def broker_watch_from_def broker_going_def broker_silent_def in_order_def)

interpretation brokered: invariant_system "broker_step (int (Suc m))" "broker_watch_from sid first buffer (fold append_to_sink es empty_sink)"
  "broker_inv sid first" for m sid first buffer es
  by unfold_locales (rule broker_inv_start [OF sink_wf_filled], rule broker_inv_step)

lemma turns_deliver:
  assumes "0 < limit" and "sink_wf (bw_sink s)" and "bw_error s = None"
    and "in_order (bw_session s) first (bw_sink s) (bw_cursor s) (bw_out s) (bw_batch s @ later)"
  shows "delivered (bw_out (run_events (broker_step limit) s (replicate n Turn))) = delivered (bw_out s) @ take n (bw_batch s @ later)"
  using assms(2-4)
proof (induction n arbitrary: s later)
  case (Suc n)
  let ?t = "broker_turn limit s"
  note d = broker_turn_delivers [OF assms(1) Suc.prems]
  show ?case
  proof (cases "bw_batch s @ later")
    case Nil
    then have "in_order (bw_session ?t) first (bw_sink ?t) (bw_cursor ?t) (bw_out ?t) (bw_batch ?t @ [])" "bw_batch ?t = []"
      "sink_wf (bw_sink ?t)" "bw_error ?t = None" "delivered (bw_out ?t) = delivered (bw_out s)"
      using d Suc.prems(1) by auto
    from Suc.IH [OF this(3,4,1)] this(2,5) Nil show ?thesis by simp
  next
    case (Cons e rest)
    then obtain later' where later': "rest = bw_batch ?t @ later'"
      "in_order (bw_session ?t) first (bw_sink ?t) (bw_cursor ?t) (bw_out ?t) (bw_batch ?t @ later')"
      "sink_wf (bw_sink ?t)" "bw_error ?t = None" "delivered (bw_out ?t) = delivered (bw_out s) @ [e]"
      using d Suc.prems(1) by auto
    from Suc.IH [OF later'(3,4,2)] later'(1,5) Cons show ?thesis by simp
  qed
qed simp

text \<open>C28. A watcher that a broker wakes loses nothing. Whichever notifications got lost or were dropped by a full
  buffer, what has been delivered is the beginning of what the store has after the cursor, and the
  following turns of the generator deliver what is missing, one event each, whether or not a notification comes.\<close>

theorem broker_stream_delivers:
  "let s = run_events (broker_step (int (Suc m))) (broker_watch_from sid first buffer (fold append_to_sink es empty_sink)) evs in
    (case (bw_error s, after_cursor first (stream_of sid (bw_sink s))) of
       (None, Some all) \<Rightarrow> \<exists>rest. all = delivered (bw_out s) @ rest
         \<and> (\<forall>n. delivered (bw_out (run_events (broker_step (int (Suc m))) s (replicate n Turn))) = delivered (bw_out s) @ take n rest)
     | _ \<Rightarrow> delivered (bw_out s) = [])"
proof -
  define s where "s = run_events (broker_step (int (Suc m))) (broker_watch_from sid first buffer (fold append_to_sink es empty_sink)) evs"
  have inv: "broker_inv sid first s" unfolding s_def by (rule brokered.inv_run_init)
  then consider "broker_going first s" | "broker_silent first s" by (auto simp: broker_inv_def)
  then show ?thesis unfolding s_def [symmetric] Let_def
  proof cases
    case 1
    then obtain later where l: "bw_error s = None"
      "in_order (bw_session s) first (bw_sink s) (bw_cursor s) (bw_out s) (bw_batch s @ later)"
      by (auto simp: broker_going_def)
    have "delivered (bw_out (run_events (broker_step (int (Suc m))) s (replicate n Turn)))
      = delivered (bw_out s) @ take n (bw_batch s @ later)" for n
      using inv by (intro turns_deliver [OF _ _ l]) (simp_all add: broker_inv_def)
    then show "case (bw_error s, after_cursor first (stream_of sid (bw_sink s))) of
       (None, Some all) \<Rightarrow> \<exists>rest. all = delivered (bw_out s) @ rest
         \<and> (\<forall>n. delivered (bw_out (run_events (broker_step (int (Suc m))) s (replicate n Turn))) = delivered (bw_out s) @ take n rest)
     | _ \<Rightarrow> delivered (bw_out s) = []"
      using l inv by (auto simp: in_order_def broker_inv_def)
  next
    case 2
    then show "case (bw_error s, after_cursor first (stream_of sid (bw_sink s))) of
       (None, Some all) \<Rightarrow> \<exists>rest. all = delivered (bw_out s) @ rest
         \<and> (\<forall>n. delivered (bw_out (run_events (broker_step (int (Suc m))) s (replicate n Turn))) = delivered (bw_out s) @ take n rest)
     | _ \<Rightarrow> delivered (bw_out s) = []"
      using inv by (auto simp: broker_silent_def broker_inv_def split: option.splits)
  qed
qed

end
