(* ===== verification/Model_Routing.thy ===== *)
theory Model_Routing
  imports World_Model
begin

text \<open>
  \<open>model/router.py\<close>: which of several models decides, by the risk of what is to be decided and its cost; and
  the boundary of trust for tools, \<open>security/trust.py\<close> with the executors of \<open>security/sandbox.py\<close>.

  Parameters: \<open>repr\<close> of a name and of a tuple of names. An adapter is of any type.
\<close>

subsection \<open>Routing\<close>

record 'a model_candidate =
  mc_name :: string
  mc_adapter :: 'a
  mc_cost :: rat
  mc_risk_tolerance :: risk_level
  mc_weight :: rat

record model_selection =
  ms_risk :: risk_level
  ms_capability_category :: "capability_category option"
  ms_side_effect :: "side_effect option"
  ms_readonly :: bool
  ms_max_cost :: "rat option"
  ms_preferred_adapter :: "string option"

record 'a model_route =
  mo_adapter :: 'a
  mo_reason :: string
  mo_estimated_cost :: "rat option"

fun risk_value :: "risk_level \<Rightarrow> string" where
  "risk_value RiskLow = ''low''"
| "risk_value RiskMedium = ''medium''"
| "risk_value RiskHigh = ''high''"

definition required_tolerance :: "model_selection \<Rightarrow> risk_level" where
  "required_tolerance c =
     (if ms_risk c = RiskHigh \<or> ms_side_effect c = Some EffDestructive then RiskHigh
      else if ms_risk c = RiskMedium \<or> ms_side_effect c = Some EffReversible \<or> ms_capability_category c = Some CatMutation
      then RiskMedium else RiskLow)"

definition within_budget :: "model_selection \<Rightarrow> 'a model_candidate list \<Rightarrow> 'a model_candidate list" where
  "within_budget c ms = (case ms_max_cost c of None \<Rightarrow> ms | Some m \<Rightarrow> filter (\<lambda>x. mc_cost x \<le> m) ms)"

text \<open>\<open>min\<close> with a key: the first of the least ones.\<close>

fun min_by :: "('a \<Rightarrow> 'b::linorder) \<Rightarrow> 'a \<Rightarrow> 'a list \<Rightarrow> 'a" where
  "min_by f b [] = b"
| "min_by f b (x # xs) = min_by f (if f x < f b then x else b) xs"

text \<open>\<open>candidate.cost or None\<close>\<close>

definition route_to :: "'a model_candidate \<Rightarrow> string \<Rightarrow> 'a model_route" where
  "route_to x reason = \<lparr>mo_adapter = mc_adapter x, mo_reason = reason,
     mo_estimated_cost = (if mc_cost x = 0 then None else Some (mc_cost x))\<rparr>"

definition route_capable :: "(string \<Rightarrow> string) \<Rightarrow> risk_level \<Rightarrow> 'a model_candidate \<Rightarrow> 'a model_candidate list \<Rightarrow> 'a model_route" where
  "route_capable py_repr required m ms =
     (if required = RiskHigh
      then let x = max_by (\<lambda>c. (mc_weight c, - mc_cost c)) m ms in
        route_to x (risk_value required @ '' risk context routed to highest-capability adapter '' @ py_repr (mc_name x))
      else let x = min_by (\<lambda>c. (mc_cost c, - mc_weight c)) m ms in
        route_to x (risk_value required @ '' risk context routed to lowest-cost capable adapter '' @ py_repr (mc_name x)))"

definition route_degraded :: "(string \<Rightarrow> string) \<Rightarrow> model_selection \<Rightarrow> risk_level \<Rightarrow> 'a model_candidate list \<Rightarrow> string + 'a model_route" where
  "route_degraded py_repr c required eligible = (case eligible of
     [] \<Rightarrow> Inl (''no model candidate within cost budget for context risk='' @ risk_value (ms_risk c))
   | m # ms \<Rightarrow>
       (let x = max_by (\<lambda>c. (risk_rank (mc_risk_tolerance c), mc_weight c, - mc_cost c)) m ms in
        if int (risk_rank (mc_risk_tolerance x)) < int (risk_rank required) - 1
        then Inl (''no model candidate tolerant of '' @ risk_value required @ '' risk (best available is ''
          @ risk_value (mc_risk_tolerance x) @ '') for context risk='' @ risk_value (ms_risk c))
        else Inr (route_to x (''degraded route to '' @ py_repr (mc_name x) @ '': no candidate meets '' @ risk_value required
          @ '' risk within budget, using closest capable adapter''))))"

definition select_route :: "(string \<Rightarrow> string) \<Rightarrow> 'a model_candidate list \<Rightarrow> model_selection \<Rightarrow> string + 'a model_route" where
  "select_route py_repr candidates c =
     (let eligible = within_budget c candidates;
          required = required_tolerance c;
          meeting = filter (\<lambda>x. risk_rank required \<le> risk_rank (mc_risk_tolerance x)) eligible
      in case (case ms_preferred_adapter c of None \<Rightarrow> None | Some n \<Rightarrow> find (\<lambda>x. mc_name x = n) eligible) of
           Some x \<Rightarrow> Inr (route_to x (''preferred adapter '' @ py_repr (mc_name x) @ '' selected for ''
             @ risk_value (ms_risk c) @ '' risk''))
         | None \<Rightarrow> (case meeting of m # ms \<Rightarrow> Inr (route_capable py_repr required m ms)
             | [] \<Rightarrow> route_degraded py_repr c required eligible))"

subsection \<open>What a route guarantees\<close>

lemma max_by_member: "max_by f b xs \<in> set (b # xs)" and max_by_greatest: "x \<in> set (b # xs) \<Longrightarrow> f x \<le> f (max_by f b xs)"
  by (induction xs arbitrary: b x) (auto, (metis less_le_trans linear not_less order_trans list.set_intros)+)

lemma min_by_member: "min_by f b xs \<in> set (b # xs)"
  by (induction xs arbitrary: b) auto

definition preferred :: "model_selection \<Rightarrow> 'a model_candidate \<Rightarrow> bool" where
  "preferred c x \<longleftrightarrow> ms_preferred_adapter c = Some (mc_name x)"

definition capable :: "model_selection \<Rightarrow> nat \<Rightarrow> 'a model_candidate \<Rightarrow> bool" where
  "capable c slack x \<longleftrightarrow> risk_rank (required_tolerance c) \<le> risk_rank (mc_risk_tolerance x) + slack"

lemma route_capable_from:
  obtains x where "x \<in> set (m # ms)" "route_capable r q m ms = route_to x (mo_reason (route_capable r q m ms))"
proof -
  have "mo_reason (route_to x t) = t" for x :: "'a model_candidate" and t by (simp add: route_to_def)
  then show ?thesis
    using that max_by_member [of "\<lambda>c. (mc_weight c, - mc_cost c)" m ms] min_by_member [of "\<lambda>c. (mc_cost c, - mc_weight c)" m ms]
    unfolding route_capable_def Let_def by (cases "q = RiskHigh") simp_all
qed

lemma route_degraded_cases:
  assumes "filter (capable c 0) eligible = []"
  shows "case route_degraded r c (required_tolerance c) eligible of
      Inl e \<Rightarrow> \<not> list_ex (capable c 1) eligible
    | Inr t \<Rightarrow> \<exists>x. x \<in> set eligible \<and> t = route_to x (mo_reason t) \<and> capable c 1 x"
proof (cases eligible)
  case (Cons m ms)
  let ?key = "\<lambda>x. (risk_rank (mc_risk_tolerance x), mc_weight x, - mc_cost x)"
  let ?x = "max_by ?key m ms"
  have x: "?x \<in> set eligible" using max_by_member [of ?key m ms] Cons by simp
  have best: "risk_rank (mc_risk_tolerance y) \<le> risk_rank (mc_risk_tolerance ?x)" if "y \<in> set eligible" for y
    using max_by_greatest [of y m ms ?key] that Cons by (auto simp: less_eq_prod_def)
  have reason: "mo_reason (route_to x t) = t" for x :: "'a model_candidate" and t by (simp add: route_to_def)
  show ?thesis
  proof (cases "int (risk_rank (mc_risk_tolerance ?x)) < int (risk_rank (required_tolerance c)) - 1")
    case True
    then have "\<not> list_ex (capable c 1) eligible" using best by (fastforce simp: list_ex_iff capable_def)
    then show ?thesis using True Cons by (simp add: route_degraded_def Let_def)
  next
    case False
    then show ?thesis using x Cons by (auto simp: route_degraded_def Let_def reason capable_def)
  qed
qed (simp add: route_degraded_def)

text \<open>A route stays within the budget and near the risk. A candidate that is routed to costs no more than allowed, and is
  the preferred one, or tolerates the risk of the context, or - when no candidate within the budget does - tolerates one
  level less; and routing fails only when no candidate within the budget is preferred or tolerates one
  level less.\<close>

theorem route_within_bounds:
  "case select_route r candidates c of
     Inl e \<Rightarrow> \<not> list_ex (\<lambda>x. preferred c x \<or> capable c 1 x) (within_budget c candidates)
   | Inr t \<Rightarrow> \<exists>x. x \<in> set candidates \<and> t = route_to x (mo_reason t)
       \<and> (case ms_max_cost c of None \<Rightarrow> True | Some m \<Rightarrow> mc_cost x \<le> m)
       \<and> (preferred c x \<or> capable c 0 x \<or> capable c 1 x \<and> \<not> list_ex (capable c 0) (within_budget c candidates))"
proof -
  let ?e = "within_budget c candidates"
  have e: "x \<in> set ?e \<Longrightarrow> x \<in> set candidates \<and> (case ms_max_cost c of None \<Rightarrow> True | Some m \<Rightarrow> mc_cost x \<le> m)" for x
    by (auto simp: within_budget_def split: option.splits)
  have reason: "mo_reason (route_to x t) = t" for x :: "'a model_candidate" and t by (simp add: route_to_def)
  define pick where "pick = (case ms_preferred_adapter c of None \<Rightarrow> None | Some n \<Rightarrow> find (\<lambda>x. mc_name x = n) ?e)"
  define meeting where "meeting = filter (capable c 0) ?e"
  have s: "select_route r candidates c = (case pick of Some x \<Rightarrow> Inr (route_to x (''preferred adapter '' @ r (mc_name x)
        @ '' selected for '' @ risk_value (ms_risk c) @ '' risk''))
      | None \<Rightarrow> (case meeting of m # ms \<Rightarrow> Inr (route_capable r (required_tolerance c) m ms)
         | [] \<Rightarrow> route_degraded r c (required_tolerance c) ?e))"
    unfolding select_route_def Let_def pick_def meeting_def capable_def add_0_right by (rule refl)
  show ?thesis
  proof (cases pick)
    case (Some x)
    then have "x \<in> set ?e" "preferred c x"
      by (auto simp: pick_def preferred_def find_Some_iff split: option.splits)
    then show ?thesis using e Some by (auto simp: s reason)
  next
    case None
    then have none: "\<not> list_ex (preferred c) ?e"
      by (auto simp: pick_def preferred_def find_None_iff list_ex_iff split: option.splits)
    show ?thesis
    proof (cases meeting)
      case Nil
      then have m: "filter (capable c 0) ?e = []" "\<not> list_ex (capable c 0) ?e"
        by (auto simp: meeting_def filter_empty_conv list_ex_iff)
      show ?thesis using route_degraded_cases [OF m(1), of r] none m(2) e unfolding s None Nil option.case list.case
        by (cases "route_degraded r c (required_tolerance c) ?e") (auto simp: list_ex_iff)
    next
      case (Cons m ms)
      obtain x where "x \<in> set (m # ms)" "route_capable r (required_tolerance c) m ms
          = route_to x (mo_reason (route_capable r (required_tolerance c) m ms))"
        by (rule route_capable_from)
      moreover from this have "x \<in> set ?e" "capable c 0 x" unfolding Cons [symmetric] meeting_def by simp_all
      ultimately show ?thesis using e unfolding s None Cons option.case list.case by auto
    qed
  qed
qed

text \<open>The preferred adapter is taken whatever risk it tolerates.\<close>

lemma preferred_ignores_risk:
  "select_route r [\<lparr>mc_name = ''small'', mc_adapter = a, mc_cost = 0, mc_risk_tolerance = RiskLow, mc_weight = 1\<rparr>]
     \<lparr>ms_risk = RiskHigh, ms_capability_category = None, ms_side_effect = Some EffDestructive, ms_readonly = False, ms_max_cost = None,
      ms_preferred_adapter = Some ''small''\<rparr>
   = Inr \<lparr>mo_adapter = a, mo_reason = ''preferred adapter '' @ r ''small'' @ '' selected for high risk'', mo_estimated_cost = None\<rparr>"
  by (simp add: select_route_def within_budget_def route_to_def)

subsection \<open>The boundary of trust\<close>

record trust_boundary =
  tb_allowed_networks :: "string list"
  tb_allowed_paths :: "string list"
  tb_allowed_env :: "string list"
  tb_allow_side_effects :: bool
  tb_deny_risky :: bool

record trust_verdict =
  tv_permitted :: bool
  tv_reasons :: "string list"

record sandbox_action =
  sx_risk :: risk_level
  sx_side_effect :: side_effect
  sx_network :: "string option"
  sx_path :: "string option"
  sx_env :: "string list option"

definition quoted :: "string \<Rightarrow> string" where
  "quoted s = [CHR 0x27] @ s @ [CHR 0x27]"

definition outside :: "string option \<Rightarrow> string list \<Rightarrow> bool" where
  "outside v allowed \<longleftrightarrow> (case v of None \<Rightarrow> False | Some x \<Rightarrow> allowed \<noteq> [] \<and> x \<notin> set allowed)"

definition forbidden_env :: "trust_boundary \<Rightarrow> string list option \<Rightarrow> string list" where
  "forbidden_env b env = (case env of None \<Rightarrow> [] | Some vs \<Rightarrow>
     if tb_allowed_env b = [] then [] else filter (\<lambda>v. v \<notin> set (tb_allowed_env b)) vs)"

definition check_trust :: "(string list \<Rightarrow> string) \<Rightarrow> trust_boundary \<Rightarrow> sandbox_action \<Rightarrow> trust_verdict" where
  "check_trust repr_names b a =
     (let reasons = (if tb_deny_risky b \<and> sx_risk a = RiskHigh then [''high risk action rejected by boundary''] else [])
        @ (if \<not> tb_allow_side_effects b \<and> sx_side_effect a \<noteq> EffNone then [''side effect rejected by boundary''] else [])
        @ (if outside (sx_network a) (tb_allowed_networks b)
           then [''network '' @ quoted (the (sx_network a)) @ '' not in boundary allowlist''] else [])
        @ (if outside (sx_path a) (tb_allowed_paths b)
           then [''path '' @ quoted (the (sx_path a)) @ '' not in boundary allowlist''] else [])
        @ (if forbidden_env b (sx_env a) \<noteq> []
           then [''environment variables '' @ repr_names (forbidden_env b (sx_env a)) @ '' not in boundary allowlist''] else [])
      in \<lparr>tv_permitted = (reasons = []), tv_reasons = reasons\<rparr>)"

record sandbox_result =
  sr_permitted :: bool
  sr_reason :: string
  sr_executed :: bool
  sr_output :: "string option"
  sr_error :: "string option"

text \<open>An executor returns a result, or raises a \<open>SandboxViolation\<close> with a verdict.\<close>

type_synonym sandbox_executor = "sandbox_action \<Rightarrow> trust_boundary \<Rightarrow> trust_verdict + sandbox_result"

definition violation_text :: "trust_verdict \<Rightarrow> string" where
  "violation_text v = (let t = join_str ''; '' (tv_reasons v) in if t = [] then ''sandbox violation'' else t)"

definition noop_sandbox :: sandbox_executor where
  "noop_sandbox a b = Inr \<lparr>sr_permitted = True, sr_reason = ''isolation not enforced'', sr_executed = False, sr_output = None, sr_error = None\<rparr>"

definition deny_sandbox :: sandbox_executor where
  "deny_sandbox a b = Inl \<lparr>tv_permitted = False, tv_reasons = [''sandbox denies all execution'']\<rparr>"

definition local_sandbox :: "(string list \<Rightarrow> string) \<Rightarrow> sandbox_executor" where
  "local_sandbox repr_names a b = (let v = check_trust repr_names b a in
     if \<not> tv_permitted v then Inl v
     else Inr \<lparr>sr_permitted = True, sr_reason = ''executed within trust boundary'', sr_executed = False, sr_output = None, sr_error = None\<rparr>)"

record sandbox =
  sn_boundary :: trust_boundary
  sn_executor :: sandbox_executor

definition sandbox_guard :: "sandbox \<Rightarrow> sandbox_action \<Rightarrow> trust_verdict + sandbox_result" where
  "sandbox_guard s a = sn_executor s a (sn_boundary s)"

text \<open>What a boundary permits, a boundary that allows more permits too.\<close>

definition allows_more :: "string list \<Rightarrow> string list \<Rightarrow> bool" where
  "allows_more xs ys \<longleftrightarrow> ys = [] \<or> xs \<noteq> [] \<and> set xs \<subseteq> set ys"

definition looser :: "trust_boundary \<Rightarrow> trust_boundary \<Rightarrow> bool" where
  "looser b b' \<longleftrightarrow> allows_more (tb_allowed_networks b) (tb_allowed_networks b') \<and> allows_more (tb_allowed_paths b) (tb_allowed_paths b')
     \<and> allows_more (tb_allowed_env b) (tb_allowed_env b') \<and> (tb_allow_side_effects b \<longrightarrow> tb_allow_side_effects b')
     \<and> (tb_deny_risky b' \<longrightarrow> tb_deny_risky b)"

lemma outside_mono: "allows_more xs ys \<Longrightarrow> outside v ys \<Longrightarrow> outside v xs"
  by (auto simp: allows_more_def outside_def split: option.splits)

lemma trust_monotone:
  assumes "looser b b'" and "sandbox_guard \<lparr>sn_boundary = b, sn_executor = local_sandbox r\<rparr> a = Inr x"
  shows "sandbox_guard \<lparr>sn_boundary = b', sn_executor = local_sandbox r\<rparr> a = Inr x"
proof -
  have env: "forbidden_env b' (sx_env a) = []" if "forbidden_env b (sx_env a) = []"
    using that assms(1) by (auto simp: looser_def allows_more_def forbidden_env_def filter_empty_conv split: option.splits if_splits)
  have p: "tv_permitted (check_trust r b a)" and x: "x = \<lparr>sr_permitted = True, sr_reason = ''executed within trust boundary'',
      sr_executed = False, sr_output = None, sr_error = None\<rparr>"
    using assms(2) by (simp_all add: sandbox_guard_def local_sandbox_def Let_def split: if_splits)
  have "tv_permitted (check_trust r b' a)"
    using p assms(1) env outside_mono unfolding check_trust_def looser_def Let_def by (auto split: if_splits)
  then show ?thesis by (simp add: sandbox_guard_def local_sandbox_def x)
qed

end
