(* ===== verification/Kubernetes_Policy.thy ===== *)
theory Kubernetes_Policy
  imports Policy Agent_Tasks
begin

text \<open>
  The guards of the Kubernetes domain, \<open>domains/kubernetes/policy.py\<close>: what the mutations of workloads may be
  applied to. The payloads are pydantic models: their fields are checked in the order of their declaration, and the
  first that fails decides the reason. The regular expression of an image reference is matched by derivatives.
\<close>

subsection \<open>The context of a mutation\<close>

definition text_field :: "string \<Rightarrow> json_mapping \<Rightarrow> string option" where
  "text_field k d = (case map_of d k of Some (JStr s) \<Rightarrow> if blank s then None else Some s | _ \<Rightarrow> None)"

definition int_field :: "string \<Rightarrow> json_mapping \<Rightarrow> int option" where
  "int_field k d = (case map_of d k of Some (JInt n) \<Rightarrow> Some n | _ \<Rightarrow> None)"

definition allowed_environments :: "string list" where
  "allowed_environments = [''development'', ''staging'', ''production'']"

definition protected_environments :: "string list" where
  "protected_environments = [''production'']"

definition environment_name :: "policy_context \<Rightarrow> string option" where
  "environment_name c = map_option py_strip (text_field ''environment'' (pc_environment c))"

text \<open>\<open>s.partition(c)\<close>: what is before the first separator, and what is after it if there is one.\<close>

fun partition_at :: "char \<Rightarrow> string \<Rightarrow> string \<times> string option" where
  "partition_at c [] = ([], None)"
| "partition_at c (x # xs) = (if x = c then ([], Some xs) else (case partition_at c xs of (h, t) \<Rightarrow> (x # h, t)))"

definition deployment :: "string \<Rightarrow> string" where
  "deployment n = ''deployment/'' @ n"

definition workload_target :: "policy_context \<Rightarrow> string option" where
  "workload_target c =
     (let name = (case map_of (pc_arguments c) ''name'' of Some (JStr s) \<Rightarrow> py_strip s | _ \<Rightarrow> []) in
      case (case pc_target c of None \<Rightarrow> None | Some t \<Rightarrow> if blank t then None else Some (py_strip t)) of
        Some normalized \<Rightarrow>
          (case partition_at CHR '':'' normalized of (head, suffix) \<Rightarrow>
           if suffix \<noteq> None \<and> name \<noteq> [] \<and> head = deployment name then Some head
           else case partition_at CHR ''/'' normalized of (ns_head, ns_name) \<Rightarrow>
             (case ns_name of None \<Rightarrow> Some normalized
              | Some n \<Rightarrow>
                  if ns_head \<noteq> ''deployment'' \<and> name \<noteq> [] \<and> py_strip n = name
                     \<and> (case map_of (pc_arguments c) ''namespace'' of Some (JStr s) \<Rightarrow> py_strip ns_head = py_strip s | _ \<Rightarrow> False)
                  then Some (deployment name) else Some normalized))
      | None \<Rightarrow> if name = [] then None
          else if CHR ''/'' \<in> set name then Some name else Some (deployment name))"

definition expected_criterion :: "policy_context \<Rightarrow> string \<Rightarrow> string option" where
  "expected_criterion c k = (case List.map_filter (\<lambda>x. if sc_key x = k
       then (case sc_expected x of JStr s \<Rightarrow> if blank s then None else Some (py_strip s) | _ \<Rightarrow> None) else None)
       (pc_goal_success_criteria c) of [] \<Rightarrow> None | e # _ \<Rightarrow> Some e)"

definition deny :: "string \<Rightarrow> string \<Rightarrow> policy_result" where
  "deny policy reason = \<lparr>pr_effect = Deny, pr_reason = reason, pr_policy_name = policy\<rparr>"

definition outside_scope :: "string option \<Rightarrow> string \<Rightarrow> bool" where
  "outside_scope expected v \<longleftrightarrow> expected \<noteq> None \<and> expected \<noteq> Some v"

text \<open>The last step of all three: production asks for a confirmation.\<close>

definition confirm_or_allow :: "string \<Rightarrow> string \<Rightarrow> string \<Rightarrow> string \<Rightarrow> policy_result" where
  "confirm_or_allow policy environment confirm allow =
     (if environment \<in> set protected_environments
      then \<lparr>pr_effect = RequireConfirmation, pr_reason = confirm, pr_policy_name = policy\<rparr>
      else \<lparr>pr_effect = Allow, pr_reason = allow, pr_policy_name = policy\<rparr>)"

subsection \<open>Scaling\<close>

definition max_replicas :: int where
  "max_replicas = 10"

record scale_arguments =
  sl_name :: string
  sl_namespace :: string
  sl_replicas :: int

definition scale_name :: string where
  "scale_name = ''kubernetes-scale-safety''"

definition scale_workload_arguments :: "policy_context \<Rightarrow> policy_result + scale_arguments" where
  "scale_workload_arguments c =
     (case text_field ''name'' (pc_arguments c) of
        None \<Rightarrow> Inl (deny scale_name ''scale_workload target does not match the workload name'')
      | Some n \<Rightarrow> (case text_field ''namespace'' (pc_arguments c) of
          None \<Rightarrow> Inl (deny scale_name ''scale_workload requires a namespace'')
        | Some s \<Rightarrow> (case int_field ''replicas'' (pc_arguments c) of
            None \<Rightarrow> Inl (deny scale_name ''scale_workload replicas must be an integer'')
          | Some r \<Rightarrow> Inr \<lparr>sl_name = n, sl_namespace = s, sl_replicas = r\<rparr>)))"

definition scale_evaluate :: "policy_context \<Rightarrow> policy_result option" where
  "scale_evaluate c =
     (if cap_name (pc_capability c) \<noteq> ''scale_workload'' then None
      else Some (case environment_name c of
        None \<Rightarrow> deny scale_name ''Kubernetes mutation requires an identified environment''
      | Some env \<Rightarrow>
          if env \<notin> set allowed_environments
          then deny scale_name (''Kubernetes mutation is not allowed in environment: '' @ env)
          else case workload_target c of
            None \<Rightarrow> deny scale_name ''scale_workload requires a deployment target''
          | Some target \<Rightarrow> (case scale_workload_arguments c of Inl r \<Rightarrow> r
            | Inr a \<Rightarrow>
                if target \<noteq> deployment (sl_name a)
                then deny scale_name ''scale_workload target does not match the workload name''
                else if outside_scope (expected_criterion c ''resource'') target
                then deny scale_name ''scale_workload target is outside the requested workload scope''
                else if outside_scope (expected_criterion c ''namespace'') (sl_namespace a)
                then deny scale_name ''scale_workload namespace is outside the requested workload scope''
                else if sl_replicas a < 1 \<or> max_replicas < sl_replicas a
                then deny scale_name ''scale_workload replicas must be between 1 and 10''
                else confirm_or_allow scale_name env ''production workload scaling requires confirmation''
                  ''bounded Kubernetes workload scaling allowed'')))"

subsection \<open>Restarting\<close>

record restart_arguments =
  rs_name :: string
  rs_namespace :: string

definition restart_name :: string where
  "restart_name = ''kubernetes-restart-safety''"

definition restart_workload_arguments :: "policy_context \<Rightarrow> policy_result + restart_arguments" where
  "restart_workload_arguments c =
     (case text_field ''name'' (pc_arguments c) of
        None \<Rightarrow> Inl (deny restart_name ''restart_workload requires a workload name'')
      | Some n \<Rightarrow> (case text_field ''namespace'' (pc_arguments c) of
          None \<Rightarrow> Inl (deny restart_name ''restart_workload requires a namespace'')
        | Some s \<Rightarrow> Inr \<lparr>rs_name = n, rs_namespace = s\<rparr>))"

definition restart_evaluate :: "policy_context \<Rightarrow> policy_result option" where
  "restart_evaluate c =
     (if cap_name (pc_capability c) \<noteq> ''restart_workload'' then None
      else Some (case environment_name c of
        None \<Rightarrow> deny restart_name ''Kubernetes mutation requires an identified environment''
      | Some env \<Rightarrow>
          if env \<notin> set allowed_environments
          then deny restart_name (''Kubernetes mutation is not allowed in environment: '' @ env)
          else case workload_target c of
            None \<Rightarrow> deny restart_name ''restart_workload requires a deployment target''
          | Some target \<Rightarrow> (case restart_workload_arguments c of Inl r \<Rightarrow> r
            | Inr a \<Rightarrow>
                if rs_name a \<noteq> [] \<and> target \<noteq> deployment (rs_name a)
                then deny restart_name ''restart_workload target does not match the workload name''
                else if outside_scope (expected_criterion c ''resource'') target
                then deny restart_name ''restart_workload target is outside the requested workload scope''
                else if outside_scope (expected_criterion c ''namespace'') (rs_namespace a)
                then deny restart_name ''restart_workload namespace is outside the requested workload scope''
                else confirm_or_allow restart_name env ''production workload restart requires confirmation''
                  ''bounded Kubernetes workload restart allowed'')))"

subsection \<open>Regular expressions\<close>

datatype rexp = RNone | REmpty | RChars "char list" | RSeq rexp rexp | RAlt rexp rexp | RStar rexp

fun nullable :: "rexp \<Rightarrow> bool" where
  "nullable RNone = False"
| "nullable REmpty = True"
| "nullable (RChars cs) = False"
| "nullable (RSeq r s) = (nullable r \<and> nullable s)"
| "nullable (RAlt r s) = (nullable r \<or> nullable s)"
| "nullable (RStar r) = True"

fun deriv :: "char \<Rightarrow> rexp \<Rightarrow> rexp" where
  "deriv c RNone = RNone"
| "deriv c REmpty = RNone"
| "deriv c (RChars cs) = (if c \<in> set cs then REmpty else RNone)"
| "deriv c (RSeq r s) = (if nullable r then RAlt (RSeq (deriv c r) s) (deriv c s) else RSeq (deriv c r) s)"
| "deriv c (RAlt r s) = RAlt (deriv c r) (deriv c s)"
| "deriv c (RStar r) = RSeq (deriv c r) (RStar r)"

definition fullmatch :: "rexp \<Rightarrow> string \<Rightarrow> bool" where
  "fullmatch r s = nullable (fold deriv s r)"

definition r_opt :: "rexp \<Rightarrow> rexp" where
  "r_opt r = RAlt REmpty r"

definition r_plus :: "rexp \<Rightarrow> rexp" where
  "r_plus r = RSeq r (RStar r)"

fun r_times :: "nat \<Rightarrow> rexp \<Rightarrow> rexp" where
  "r_times 0 r = REmpty"
| "r_times (Suc n) r = RSeq r (r_times n r)"

fun r_upto :: "nat \<Rightarrow> rexp \<Rightarrow> rexp" where
  "r_upto 0 r = REmpty"
| "r_upto (Suc n) r = r_opt (RSeq r (r_upto n r))"

fun r_text :: "string \<Rightarrow> rexp" where
  "r_text [] = REmpty"
| "r_text (c # cs) = RSeq (RChars [c]) (r_text cs)"

definition lower_chars :: string where
  "lower_chars = ''abcdefghijklmnopqrstuvwxyz''"

definition digit_chars :: string where
  "digit_chars = ''0123456789''"

definition upper_chars :: string where
  "upper_chars = ''ABCDEFGHIJKLMNOPQRSTUVWXYZ''"

text \<open>The four parts of the pattern: host, path, tag and digest.\<close>

definition image_pattern :: rexp where
  "image_pattern =
     (let word = r_plus (RChars (lower_chars @ digit_chars));
          host = RSeq word (RStar (RSeq (RChars ''.:-'') word));
          path = RStar (RSeq (RChars ''/'') (RSeq word (RStar (RSeq (RChars ''.:-_'') word))));
          tag = r_opt (RSeq (RChars '':'') (RSeq (RChars (lower_chars @ upper_chars @ digit_chars @ ''_''))
            (r_upto 127 (RChars (lower_chars @ upper_chars @ digit_chars @ ''_.-'')))));
          digest = r_opt (RSeq (r_text ''@sha256:'') (r_times 64 (RChars (''abcdef'' @ digit_chars))))
      in RSeq host (RSeq path (RSeq tag digest)))"

definition image_reference_is_valid :: "string \<Rightarrow> bool" where
  "image_reference_is_valid s = fullmatch image_pattern (py_strip s)"

subsection \<open>Changing the image\<close>

record set_image_args =
  si_name :: string
  si_namespace :: string
  si_container :: string
  si_image :: string

definition set_image_name :: string where
  "set_image_name = ''kubernetes-set-image-safety''"

definition set_image_arguments :: "policy_context \<Rightarrow> policy_result + set_image_args" where
  "set_image_arguments c =
     (case text_field ''name'' (pc_arguments c) of
        None \<Rightarrow> Inl (deny set_image_name ''set_image requires a workload name'')
      | Some n \<Rightarrow> (case text_field ''namespace'' (pc_arguments c) of
          None \<Rightarrow> Inl (deny set_image_name ''set_image requires a namespace'')
        | Some s \<Rightarrow> (case text_field ''container'' (pc_arguments c) of
            None \<Rightarrow> Inl (deny set_image_name ''set_image requires a container name'')
          | Some k \<Rightarrow> (case text_field ''image'' (pc_arguments c) of
              None \<Rightarrow> Inl (deny set_image_name ''set_image requires an image reference'')
            | Some i \<Rightarrow> Inr \<lparr>si_name = n, si_namespace = s, si_container = k, si_image = i\<rparr>))))"

definition set_image_evaluate :: "policy_context \<Rightarrow> policy_result option" where
  "set_image_evaluate c =
     (if cap_name (pc_capability c) \<noteq> ''set_image'' then None
      else Some (case environment_name c of
        None \<Rightarrow> deny set_image_name ''Kubernetes mutation requires an identified environment''
      | Some env \<Rightarrow>
          if env \<notin> set allowed_environments
          then deny set_image_name (''Kubernetes mutation is not allowed in environment: '' @ env)
          else case workload_target c of
            None \<Rightarrow> deny set_image_name ''set_image requires a deployment target''
          | Some target \<Rightarrow> (case set_image_arguments c of Inl r \<Rightarrow> r
            | Inr a \<Rightarrow>
                if target \<noteq> deployment (si_name a)
                then deny set_image_name ''set_image target does not match the workload name''
                else if outside_scope (expected_criterion c ''resource'') target
                then deny set_image_name ''set_image target is outside the requested workload scope''
                else if outside_scope (expected_criterion c ''namespace'') (si_namespace a)
                then deny set_image_name ''set_image namespace is outside the requested workload scope''
                else if \<not> image_reference_is_valid (si_image a)
                then deny set_image_name ''set_image image must be a fully-qualified container image reference''
                else confirm_or_allow set_image_name env ''production workload image change requires confirmation''
                  ''bounded Kubernetes workload image change allowed'')))"

definition kubernetes_policies :: "policy list" where
  "kubernetes_policies =
     [rule_policy \<lparr>pl_name = ''kubernetes-read-only'', pl_effect = Allow, pl_reason = ''read-only Kubernetes inspection allowed'',
        pl_capabilities = [], pl_categories = [CatObservation], pl_risks = []\<rparr>,
      \<lparr>po_name = scale_name, po_evaluate = scale_evaluate\<rparr>, \<lparr>po_name = restart_name, po_evaluate = restart_evaluate\<rparr>,
      \<lparr>po_name = set_image_name, po_evaluate = set_image_evaluate\<rparr>]"

end
