(* ===== verification/Kubernetes_Safety.thy ===== *)
theory Kubernetes_Safety
  imports Kubernetes_Policy
begin

text \<open>
  What the guards of the Kubernetes domain guarantee together with the policy engine: a mutation that is allowed stays
  within the bounds of the goal and of the environment.
\<close>

subsection \<open>Matching by derivatives\<close>

inductive_set repeats :: "string set \<Rightarrow> string set" for L :: "string set" where
  none: "[] \<in> repeats L"
| again: "u \<in> L \<Longrightarrow> v \<in> repeats L \<Longrightarrow> u @ v \<in> repeats L"

fun lang :: "rexp \<Rightarrow> string set" where
  "lang RNone = {}"
| "lang REmpty = {[]}"
| "lang (RChars cs) = {[c] | c. c \<in> set cs}"
| "lang (RSeq r s) = {u @ v | u v. u \<in> lang r \<and> v \<in> lang s}"
| "lang (RAlt r s) = lang r \<union> lang s"
| "lang (RStar r) = repeats (lang r)"

lemma nullable_lang: "nullable r \<longleftrightarrow> [] \<in> lang r"
  by (induction r) (auto intro: repeats.none)

lemma repeats_first: "w \<in> repeats L \<Longrightarrow> w = c # x \<Longrightarrow> \<exists>u v. x = u @ v \<and> c # u \<in> L \<and> v \<in> repeats L"
proof (induction arbitrary: x rule: repeats.induct)
  case (again u v)
  then show ?case by (cases u) auto
qed simp

lemma deriv_lang: "x \<in> lang (deriv c r) \<longleftrightarrow> c # x \<in> lang r"
proof (induction r arbitrary: x)
  case (RSeq r s)
  have split: "c # x = u @ v \<longleftrightarrow> u = [] \<and> v = c # x \<or> (\<exists>u'. u = c # u' \<and> x = u' @ v)" for u v
    by (cases u) auto
  have "c # x \<in> lang (RSeq r s) \<longleftrightarrow> (\<exists>u v. c # x = u @ v \<and> u \<in> lang r \<and> v \<in> lang s)" by auto
  also have "\<dots> \<longleftrightarrow> [] \<in> lang r \<and> c # x \<in> lang s \<or> (\<exists>u' v. x = u' @ v \<and> c # u' \<in> lang r \<and> v \<in> lang s)"
    unfolding split by blast
  also have "\<dots> \<longleftrightarrow> x \<in> lang (deriv c (RSeq r s))"
    using RSeq.IH by (auto simp: nullable_lang)
  finally show ?case by simp
next
  case (RStar r)
  have "c # x \<in> repeats (lang r) \<longleftrightarrow> (\<exists>u v. x = u @ v \<and> c # u \<in> lang r \<and> v \<in> repeats (lang r))"
    using repeats_first repeats.again by (metis append_Cons)
  then show ?case using RStar.IH by auto
qed auto

lemma fullmatch_exact: "fullmatch r s \<longleftrightarrow> s \<in> lang r"
  unfolding fullmatch_def by (induction s arbitrary: r) (simp_all add: nullable_lang deriv_lang)

text \<open>The characters an expression is made of.\<close>

fun alphabet :: "rexp \<Rightarrow> char set" where
  "alphabet RNone = {}"
| "alphabet REmpty = {}"
| "alphabet (RChars cs) = set cs"
| "alphabet (RSeq r s) = alphabet r \<union> alphabet s"
| "alphabet (RAlt r s) = alphabet r \<union> alphabet s"
| "alphabet (RStar r) = alphabet r"

lemma repeats_chars: "w \<in> repeats L \<Longrightarrow> (\<And>u. u \<in> L \<Longrightarrow> set u \<subseteq> A) \<Longrightarrow> set w \<subseteq> A"
  by (induction rule: repeats.induct) auto

lemma lang_chars: "s \<in> lang r \<Longrightarrow> set s \<subseteq> alphabet r"
proof (induction r arbitrary: s)
  case (RStar r)
  then show ?case using repeats_chars [of s "lang r"] by simp
qed fastforce+

lemma alphabet_abbreviations [simp]: "alphabet (r_opt r) = alphabet r" "alphabet (r_plus r) = alphabet r"
  by (simp_all add: r_opt_def r_plus_def)

lemma alphabet_times: "alphabet (r_times n r) \<subseteq> alphabet r" "alphabet (r_upto n r) \<subseteq> alphabet r"
  by (induction n) auto

lemma alphabet_text: "alphabet (r_text s) = set s"
  by (induction s) auto

definition image_chars :: string where
  "image_chars = lower_chars @ upper_chars @ digit_chars @ ''._-:/@''"

lemma image_alphabet: "alphabet image_pattern \<subseteq> set image_chars"
proof -
  have times: "alphabet (r_times n (RChars cs)) \<subseteq> set image_chars" "alphabet (r_upto n (RChars cs)) \<subseteq> set image_chars"
    if "set cs \<subseteq> set image_chars" for n cs
    using that order_trans [OF alphabet_times(1)] order_trans [OF alphabet_times(2)] by simp_all
  show ?thesis
    unfolding image_pattern_def Let_def alphabet.simps alphabet_abbreviations alphabet_text
    by (intro Un_least times; simp add: image_chars_def lower_chars_def upper_chars_def digit_chars_def)
qed

lemma image_reference_chars: "image_reference_is_valid s \<Longrightarrow> set (py_strip s) \<subseteq> set image_chars"
  unfolding image_reference_is_valid_def fullmatch_exact using lang_chars image_alphabet by blast

subsection \<open>The policy engine with the guards\<close>

lemma check_allows:
  assumes "pr_effect (policy_check ps c) = Allow" and "p \<in> set ps" and "po_evaluate p c = Some r"
  shows "pr_effect r \<noteq> Deny" and "pr_effect r = RequireConfirmation \<Longrightarrow> pc_confirmed c"
proof -
  have said: "says ps c (pr_effect r)" using assms(2,3) by (auto simp: says_def)
  show "pr_effect r \<noteq> Deny"
  proof
    assume "pr_effect r = Deny"
    then obtain d where "first_effect Deny (policy_results ps c) = Some d" using said first_effect_None by fastforce
    moreover from first_effect_Some [OF this] have "pr_effect d = Deny" by blast
    ultimately show False using assms(1) by (simp add: policy_check_def)
  qed
  then have nodeny: "first_effect Deny (policy_results ps c) = None"
    using assms(1) first_effect_Some [of Deny ps c] by (cases "first_effect Deny (policy_results ps c)") (auto simp: policy_check_def)
  assume "pr_effect r = RequireConfirmation"
  then obtain q where "first_effect RequireConfirmation (policy_results ps c) = Some q" using said first_effect_None by fastforce
  moreover from first_effect_Some [OF this] have "pr_effect q = RequireConfirmation" by blast
  ultimately show "pc_confirmed c" using assms(1) nodeny by (auto simp: policy_check_def split: if_splits)
qed

lemma deny_effect [simp]: "pr_effect (deny n r) = Deny"
  by (simp add: deny_def)

lemma confirm_or_allow_effect:
  "pr_effect (confirm_or_allow n e a b) = (if e = ''production'' then RequireConfirmation else Allow)"
  by (simp add: confirm_or_allow_def protected_environments_def)

text \<open>What all three guards ask for.\<close>

definition in_goal_scope :: "policy_context \<Rightarrow> bool" where
  "in_goal_scope c \<longleftrightarrow> (\<exists>env n s. environment_name c = Some env \<and> env \<in> set allowed_environments
     \<and> (env = ''production'' \<longrightarrow> pc_confirmed c)
     \<and> text_field ''name'' (pc_arguments c) = Some n \<and> text_field ''namespace'' (pc_arguments c) = Some s
     \<and> workload_target c = Some (deployment n)
     \<and> \<not> outside_scope (expected_criterion c ''resource'') (deployment n)
     \<and> \<not> outside_scope (expected_criterion c ''namespace'') s)"

lemma text_field_some: "text_field k d = Some s \<Longrightarrow> s \<noteq> []"
  by (auto simp: text_field_def split: option.splits json.splits if_splits)

lemma scale_guards:
  assumes "scale_evaluate c = Some r" and "pr_effect r \<noteq> Deny" and "pr_effect r = RequireConfirmation \<Longrightarrow> pc_confirmed c"
  shows "in_goal_scope c \<and> (\<exists>n. int_field ''replicas'' (pc_arguments c) = Some n \<and> 1 \<le> n \<and> n \<le> 10)"
  using assms unfolding scale_evaluate_def scale_workload_arguments_def in_goal_scope_def max_replicas_def
  by (auto simp: confirm_or_allow_effect split: if_splits option.splits)

lemma restart_guards:
  assumes "restart_evaluate c = Some r" and "pr_effect r \<noteq> Deny" and "pr_effect r = RequireConfirmation \<Longrightarrow> pc_confirmed c"
  shows "in_goal_scope c"
  using assms unfolding restart_evaluate_def restart_workload_arguments_def in_goal_scope_def
  by (auto simp: confirm_or_allow_effect dest: text_field_some split: if_splits option.splits)

lemma set_image_guards:
  assumes "set_image_evaluate c = Some r" and "pr_effect r \<noteq> Deny" and "pr_effect r = RequireConfirmation \<Longrightarrow> pc_confirmed c"
  shows "in_goal_scope c \<and> (\<exists>i. text_field ''image'' (pc_arguments c) = Some i \<and> image_reference_is_valid i)"
  using assms unfolding set_image_evaluate_def set_image_arguments_def in_goal_scope_def
  by (auto simp: confirm_or_allow_effect split: if_splits option.splits)



definition restart_context :: "string \<Rightarrow> bool \<Rightarrow> policy_context" where
  "restart_context environment confirmed = (sample_context CatMutation confirmed)
     \<lparr>pc_capability := \<lparr>cap_name = ''restart_workload'', cap_description = [], cap_category = CatMutation, cap_risk = RiskMedium\<rparr>,
      pc_target := Some ''deployment/web'', pc_arguments := [(''name'', JStr ''web''), (''namespace'', JStr ''shop'')],
      pc_environment := [(''environment'', JStr environment)]\<rparr>"


end
