(* ===== verification/Kubernetes_Workflow.thy ===== *)
theory Kubernetes_Workflow
  imports Kubernetes_Safety Domain_Runtime
begin

text \<open>
  The other parts of the Kubernetes domain that decide something: \<open>domains/kubernetes/diagnosis.py\<close>, \<open>workflow.py\<close> and
  \<open>evidence.py\<close>. Parameters: the new ids of evidence. \<open>Inl\<close> is the \<open>TypeError\<close> of looking up a list in a set, or
  the \<open>ValueError\<close> of a piece of evidence.
\<close>

subsection \<open>Diagnosis\<close>

record workload_diagnosis =
  dg_summary :: string
  dg_confidence :: rat
  dg_evidence_refs :: "string list"
  dg_affected_resources :: "string list"
  dg_root_cause :: "string option"
  dg_healthy :: "bool option"

record remediation_proposal =
  rm_action :: string
  rm_target :: string
  rm_reason :: string
  rm_evidence_refs :: "string list"
  rm_expected_effect :: string
  rm_risk :: string
  rm_arguments :: json_mapping
  rm_requires_confirmation :: "bool option"

definition expected_effects :: "(string, string) dict" where
  "expected_effects =
     [(''crash_loop_back_off'', ''recreate unhealthy pods with a rolling restart''),
      (''containers_not_ready'', ''recreate containers so they restart cleanly''),
      (''create_container_config_error'', ''recreate containers with a fresh configuration read''),
      (''create_container_error'', ''recreate containers to retry container startup''),
      (''err_image_pull'', ''re-pull the image with fresh containers''),
      (''image_pull_back_off'', ''re-pull the image with fresh containers''),
      (''pending'', ''reschedule pods onto schedulable nodes''),
      (''under_replicated'', ''scale the workload back to its desired replica count'')]"

definition pod_level_root_cause :: "string option \<Rightarrow> bool" where
  "pod_level_root_cause r \<longleftrightarrow> (case r of None \<Rightarrow> False | Some c \<Rightarrow> c \<in> set (dict_keys expected_effects) \<and> c \<noteq> ''under_replicated'')"

definition mutation_risks :: "(string, string) dict" where
  "mutation_risks = [(''restart_workload'', ''low''), (''scale_workload'', ''medium'')]"

record diagnosing =
  dz_root_cause :: "string option"
  dz_root_seen :: bool
  dz_healthy :: "bool option"
  dz_supporting :: "evidence list"
  dz_affected :: "string list"

definition supported_by :: "evidence \<Rightarrow> diagnosing \<Rightarrow> diagnosing" where
  "supported_by e z = z\<lparr>dz_supporting := dz_supporting z @ [e],
     dz_affected := (if ev_subject e \<in> set (dz_affected z) then dz_affected z else dz_affected z @ [ev_subject e])\<rparr>"

definition diagnose_step :: "evidence \<Rightarrow> diagnosing \<Rightarrow> diagnosing" where
  "diagnose_step e z = (case (ev_claim e = ''root_cause'' \<and> dz_root_cause z = None, ev_value e) of
     (True, JStr s) \<Rightarrow> supported_by e (z\<lparr>dz_root_cause := (if blank s then None else Some (py_strip s)), dz_root_seen := True\<rparr>)
   | _ \<Rightarrow> (case (ev_claim e = ''healthy'' \<and> dz_healthy z = None, ev_value e) of
       (True, JBool b) \<Rightarrow> supported_by e (z\<lparr>dz_healthy := Some b\<rparr>) | _ \<Rightarrow> z))"

definition diagnosis_summary :: "string \<Rightarrow> string option \<Rightarrow> bool option \<Rightarrow> string" where
  "diagnosis_summary goal cause healthy =
     (let workload = (if blank goal then ''the workload'' else py_strip goal) in
      case cause of Some c \<Rightarrow> workload @ '': unhealthy ('' @ c @ '')''
      | None \<Rightarrow> (case healthy of Some False \<Rightarrow> workload @ '': unhealthy (root cause not yet determined)''
          | Some True \<Rightarrow> workload @ '': healthy'' | None \<Rightarrow> workload @ '': no health evidence collected''))"

text \<open>\<open>round(x, 4)\<close>\<close>

definition round4 :: "rat \<Rightarrow> rat" where
  "round4 x = of_int (round_half_even (x * 10000)) / 10000"

definition diagnosed :: "evidence list \<Rightarrow> diagnosing" where
  "diagnosed es = fold diagnose_step es
     \<lparr>dz_root_cause = None, dz_root_seen = False, dz_healthy = None, dz_supporting = [], dz_affected = []\<rparr>"

definition build_diagnosis :: "evidence list \<Rightarrow> string \<Rightarrow> workload_diagnosis option" where
  "build_diagnosis es goal =
     (if es = [] then None
      else let z = diagnosed es in
        if \<not> dz_root_seen z \<and> dz_healthy z = None then None
        else Some \<lparr>dg_summary = diagnosis_summary goal (dz_root_cause z) (dz_healthy z),
          dg_confidence = round4 (if dz_supporting z = [] then 0
            else sum_list (map ev_confidence (dz_supporting z)) / of_nat (length (dz_supporting z))),
          dg_evidence_refs = map ev_id (dz_supporting z), dg_affected_resources = dz_affected z,
          dg_root_cause = dz_root_cause z, dg_healthy = dz_healthy z\<rparr>)"

definition build_proposal :: "workload_diagnosis option \<Rightarrow> string \<Rightarrow> string \<Rightarrow> string option \<Rightarrow> json_mapping option
    \<Rightarrow> remediation_proposal option" where
  "build_proposal diagnosis action target environment args = (case diagnosis of None \<Rightarrow> None
     | Some d \<Rightarrow>
       if dg_healthy d = Some True \<and> dg_root_cause d = None then None
       else case map_of mutation_risks action of None \<Rightarrow> None
       | Some risk \<Rightarrow> (case map_of expected_effects (case dg_root_cause d of None \<Rightarrow> [] | Some c \<Rightarrow> c) of None \<Rightarrow> None
         | Some effect \<Rightarrow> Some \<lparr>rm_action = action, rm_target = target, rm_reason = dg_summary d,
             rm_evidence_refs = dg_evidence_refs d, rm_expected_effect = effect, rm_risk = risk,
             rm_arguments = (case args of None \<Rightarrow> [] | Some a \<Rightarrow> a),
             rm_requires_confirmation = map_option (\<lambda>e. e \<in> set protected_environments) environment\<rparr>))"

subsection \<open>Remediation\<close>

definition pod_log_root_causes :: "string list" where
  "pod_log_root_causes = [''crash_loop_back_off'', ''containers_not_ready'', ''create_container_config_error'',
     ''create_container_error'', ''err_image_pull'', ''image_pull_back_off'', ''pending'']"

text \<open>\<open>facts.get(claim)\<close> is \<open>None\<close> for a fact that is absent and for one whose value is \<open>None\<close>.\<close>

definition claim_fact :: "world_snapshot \<Rightarrow> string \<Rightarrow> json" where
  "claim_fact w k = dict_get (fold (\<lambda>f. AList.update (fa_claim f) (fa_value f)) (wo_facts w) []) k JNull"

definition owned_pod_name :: "string \<Rightarrow> bool" where
  "owned_pod_name s \<longleftrightarrow> starts_with ''pod/'' s \<and> s \<noteq> ''pod/''"

definition has_owned_pod :: "json \<Rightarrow> bool" where
  "has_owned_pod v = (case v of JStr s \<Rightarrow> owned_pod_name s
     | JList vs \<Rightarrow> list_ex (\<lambda>x. case x of JStr s \<Rightarrow> owned_pod_name s | _ \<Rightarrow> False) vs | _ \<Rightarrow> False)"

definition hashable :: "json \<Rightarrow> bool" where
  "hashable v = (case v of JList _ \<Rightarrow> False | JObj _ \<Rightarrow> False | _ \<Rightarrow> True)"

definition new_spec :: "string \<Rightarrow> string \<Rightarrow> string \<Rightarrow> task \<Rightarrow> task_spec" where
  "new_spec key description criterion t = \<lparr>ts_key = key, ts_description = description, ts_required_criteria = [criterion],
     ts_depends_on = [t_id t], ts_task_id = None\<rparr>"

definition remediation_expand :: "task \<Rightarrow> evidence list \<Rightarrow> world_snapshot \<Rightarrow> string + task_spec list" where
  "remediation_expand t es w =
     (let fact = claim_fact w; criteria = set (t_required_criteria t); cause = fact ''root_cause'' in
      if \<not> hashable cause then Inl ''unhashable type''
      else let pod_cause = (case cause of JStr s \<Rightarrow> s \<in> set pod_log_root_causes | _ \<Rightarrow> False) in
        Inr ((if fact ''healthy'' = JBool False \<and> fact ''resource'' \<noteq> JNull \<and> cause = JNull
              then [new_spec ''diagnose-unhealthy-workload'' ''Diagnose unhealthy Kubernetes workload'' ''root_cause'' t] else [])
          @ (if pod_cause \<and> fact ''pod_diagnostics_observed'' = JNull \<and> has_owned_pod (fact ''relation:owns'')
             then [new_spec ''collect-pod-diagnostics'' ''Collect logs from the failing Kubernetes pod'' ''pod_diagnostics_observed'' t] else [])
          @ (if pod_cause \<and> fact ''pod_diagnostics_observed'' \<noteq> JNull \<and> fact ''mutation_applied'' = JNull \<and> ''healthy'' \<in> criteria
             then [new_spec ''remediate-unhealthy-workload'' ''Rolling-restart the workload to recover failed pods'' ''mutation_applied'' t] else [])
          @ (if cause = JStr ''under_replicated'' \<and> fact ''mutation_applied'' = JNull
             then [new_spec ''remediate-unhealthy-workload'' ''Scale the under-replicated Kubernetes workload'' ''mutation_applied'' t] else [])
          @ (if fact ''mutation_applied'' = JBool True \<and> ''mutation_applied'' \<in> criteria
             then [new_spec ''verify-remediation'' ''Verify Kubernetes workload health after remediation'' ''verification_observed'' t] else [])
          @ (if fact ''verification_observed'' = JBool True \<and> fact ''healthy'' = JBool False \<and> ''verification_observed'' \<in> criteria
             then [new_spec ''diagnose-after-remediation'' ''Diagnose the workload after unsuccessful remediation''
               ''post_remediation_root_cause'' t] else [])))"

definition remediation_expander :: task_expander where
  "remediation_expander = \<lparr>te_name = ''kubernetes-remediation'',
     te_capabilities = [''inspect_workload'', ''inspect_pod'', ''inspect_logs'', ''inspect_events'', ''scale_workload'', ''restart_workload''],
     te_expand = remediation_expand\<rparr>"

subsection \<open>Evidence\<close>

definition valid_resource :: "json \<Rightarrow> string \<Rightarrow> string option" where
  "valid_resource v kind = (case v of JStr s \<Rightarrow>
       (let r = py_strip s; prefix = kind @ ''/'' in if \<not> starts_with prefix r \<or> r = prefix then None else Some r)
     | _ \<Rightarrow> None)"

definition pod_mappings :: "json \<Rightarrow> json_mapping list" where
  "pod_mappings v = (case v of JList vs \<Rightarrow> List.map_filter (\<lambda>x. case x of JObj d \<Rightarrow> Some d | _ \<Rightarrow> None) vs | _ \<Rightarrow> [])"

definition observation_subject :: "observation \<Rightarrow> string" where
  "observation_subject ob = (case map_of (ob_data ob) ''resource'' of Some (JStr s) \<Rightarrow> if blank s then ob_source ob else py_strip s
     | _ \<Rightarrow> ob_source ob)"

type_synonym claim_triple = "string \<times> string \<times> json"

definition pod_claims :: "json_mapping \<Rightarrow> claim_triple list" where
  "pod_claims pod = (case valid_resource (dict_get pod ''resource'' JNull) ''pod'' of None \<Rightarrow> []
     | Some r \<Rightarrow> (r, ''kind'', JStr ''Pod'') # map (\<lambda>(k, v). (r, if k = ''resource'' then ''pod.resource'' else k, v)) pod)"

definition pod_evidence :: "string \<Rightarrow> json \<Rightarrow> claim_triple list" where
  "pod_evidence subject pods =
     (let ps = pod_mappings pods;
          resources = List.map_filter (\<lambda>p. valid_resource (dict_get p ''resource'' JNull) ''pod'') ps
      in concat (map pod_claims ps) @ (if resources = [] then [] else [(subject, ''relation:owns'', JList (map JStr resources))]))"

definition diagnostic_evidence :: "string \<Rightarrow> json_mapping \<Rightarrow> claim_triple list" where
  "diagnostic_evidence subject d =
     (if valid_resource (dict_get d ''resource'' JNull) ''pod'' = None then []
      else if map_of d ''recent_logs'' \<noteq> None then [(subject, ''pod_diagnostics_observed'', JBool True)] else [])"

definition kubernetes_claims :: "observation \<Rightarrow> claim_triple list" where
  "kubernetes_claims ob = (let subject = observation_subject ob in
     map (\<lambda>(k, v). (subject, k, v)) (ob_data ob) @ diagnostic_evidence subject (ob_data ob)
       @ pod_evidence subject (dict_get (ob_data ob) ''pods'' JNull))"

definition kubernetes_evidence :: "(nat \<Rightarrow> string) \<Rightarrow> string \<Rightarrow> task \<Rightarrow> observation \<Rightarrow> nat \<Rightarrow> claim_triple \<Rightarrow> evidence" where
  "kubernetes_evidence new_id sid t ob i = (\<lambda>(subject, claim, v). \<lparr>ev_session_id = sid, ev_task_id = t_id t,
     ev_action_id = ob_action_id ob, ev_observation_id = ob_id ob, ev_subject = subject, ev_claim = claim, ev_value = v,
     ev_source = ob_source ob, ev_confidence = 99 / 100, ev_id = new_id i, ev_observed_at = ob_observed_at ob,
     ev_domain_name = [], ev_domain_version = []\<rparr>)"

definition kubernetes_extract :: "(nat \<Rightarrow> string) \<Rightarrow> string \<Rightarrow> task \<Rightarrow> observation \<Rightarrow> string + evidence list" where
  "kubernetes_extract new_id sid t ob =
     (if ob_status ob \<noteq> ObsSucceeded then Inr []
      else let cs = kubernetes_claims ob; es = map (\<lambda>i. kubernetes_evidence new_id sid t ob i (cs ! i)) [0..<length cs] in
        case List.map_filter evidence_problem es of [] \<Rightarrow> Inr es | e # _ \<Rightarrow> Inl e)"

subsection \<open>What a diagnosis rests on\<close>

definition tells_root :: "evidence \<Rightarrow> bool" where
  "tells_root e \<longleftrightarrow> ev_claim e = ''root_cause'' \<and> (case ev_value e of JStr _ \<Rightarrow> True | _ \<Rightarrow> False)"

definition tells_health :: "evidence \<Rightarrow> bool" where
  "tells_health e \<longleftrightarrow> ev_claim e = ''healthy'' \<and> (case ev_value e of JBool _ \<Rightarrow> True | _ \<Rightarrow> False)"

definition diagnosing_inv :: "evidence list \<Rightarrow> diagnosing \<Rightarrow> bool" where
  "diagnosing_inv es z \<longleftrightarrow>
     set (dz_supporting z) \<subseteq> {e \<in> set es. tells_root e \<or> tells_health e}
   \<and> set (dz_affected z) = ev_subject ` set (dz_supporting z) \<and> distinct (dz_affected z)
   \<and> (dz_root_seen z \<longleftrightarrow> (\<exists>e \<in> set es. tells_root e)) \<and> (dz_healthy z = None \<longleftrightarrow> \<not> (\<exists>e \<in> set es. tells_health e))
   \<and> (dz_supporting z = [] \<longleftrightarrow> \<not> dz_root_seen z \<and> dz_healthy z = None)
   \<and> (\<forall>c. dz_root_cause z = Some c \<longrightarrow> (\<exists>e \<in> set (dz_supporting z). ev_claim e = ''root_cause''
        \<and> (\<exists>s. ev_value e = JStr s \<and> py_strip s = c \<and> \<not> blank s)))
   \<and> (\<forall>b. dz_healthy z = Some b \<longrightarrow> (\<exists>e \<in> set (dz_supporting z). ev_claim e = ''healthy'' \<and> ev_value e = JBool b))
   \<and> (dz_root_cause z \<noteq> None \<longrightarrow> dz_root_seen z)"

lemma diagnosing_step:
  assumes "diagnosing_inv es z"
  shows "diagnosing_inv (es @ [e]) (diagnose_step e z)"
proof -
  consider "ev_claim e = ''root_cause''" | "ev_claim e = ''healthy''" | "ev_claim e \<noteq> ''root_cause''" "ev_claim e \<noteq> ''healthy''" by blast
  then show ?thesis
  proof cases
    case 1
    then show ?thesis using assms
      by (cases "ev_value e"; cases "dz_root_cause z")
        (auto simp: diagnose_step_def supported_by_def diagnosing_inv_def tells_root_def tells_health_def)
  next
    case 2
    then show ?thesis using assms
      by (cases "ev_value e"; cases "dz_healthy z")
        (auto simp: diagnose_step_def supported_by_def diagnosing_inv_def tells_root_def tells_health_def)
  next
    case 3
    then have "diagnose_step e z = z" by (cases "ev_value e") (auto simp: diagnose_step_def)
    then show ?thesis using assms 3 by (auto simp: diagnosing_inv_def tells_root_def tells_health_def)
  qed
qed

lemma diagnosed_inv: "diagnosing_inv es (diagnosed es)"
proof (induction es rule: rev_induct)
  case Nil
  show ?case by (simp add: diagnosed_def diagnosing_inv_def)
next
  case (snoc e es)
  then show ?case using diagnosing_step by (simp add: diagnosed_def)
qed


lemma diagnosed_root_source:
  assumes "dz_root_cause (diagnosed es) = Some c"
  shows "\<exists>e \<in> set es. ev_id e \<in> ev_id ` set (dz_supporting (diagnosed es)) \<and> tells_root e
    \<and> (\<exists>s. ev_value e = JStr s \<and> py_strip s = c \<and> \<not> blank s)"
proof -
  have inv: "diagnosing_inv es (diagnosed es)" by (rule diagnosed_inv)
  then obtain e s where "e \<in> set (dz_supporting (diagnosed es))" "ev_claim e = ''root_cause''" "ev_value e = JStr s"
    "py_strip s = c" "\<not> blank s" using assms unfolding diagnosing_inv_def by blast
  moreover from this(1) have "e \<in> set es" using inv unfolding diagnosing_inv_def by blast
  ultimately show ?thesis by (auto simp: tells_root_def)
qed

lemma diagnosed_health_source:
  assumes "dz_healthy (diagnosed es) = Some b"
  shows "\<exists>e \<in> set es. ev_id e \<in> ev_id ` set (dz_supporting (diagnosed es)) \<and> tells_health e \<and> ev_value e = JBool b"
proof -
  have inv: "diagnosing_inv es (diagnosed es)" by (rule diagnosed_inv)
  then obtain e where "e \<in> set (dz_supporting (diagnosed es))" "ev_claim e = ''healthy''" "ev_value e = JBool b"
    using assms unfolding diagnosing_inv_def by blast
  moreover from this(1) have "e \<in> set es" using inv unfolding diagnosing_inv_def by blast
  ultimately show ?thesis by (auto simp: tells_health_def)
qed

text \<open>A diagnosis says nothing that the evidence does not. There is one exactly when some evidence tells a root cause as a
  text or the health as a boolean; its references are ids of such evidence and there is at least one; the resources it
  names are the subjects of such evidence, each once; the root cause is the stripped value of an evidence it refers to, and so is
  the health.\<close>

theorem diagnosis_grounded:
  "case build_diagnosis es goal of
     None \<Rightarrow> list_all (\<lambda>e. \<not> tells_root e \<and> \<not> tells_health e) es
   | Some d \<Rightarrow> dg_evidence_refs d \<noteq> []
       \<and> list_all (\<lambda>r. list_ex (\<lambda>e. ev_id e = r \<and> (tells_root e \<or> tells_health e)) es) (dg_evidence_refs d)
       \<and> distinct (dg_affected_resources d)
       \<and> list_all (\<lambda>r. list_ex (\<lambda>e. ev_subject e = r \<and> ev_id e \<in> set (dg_evidence_refs d)) es) (dg_affected_resources d)
       \<and> (case dg_root_cause d of None \<Rightarrow> True
          | Some c \<Rightarrow> list_ex (\<lambda>e. ev_id e \<in> set (dg_evidence_refs d) \<and> tells_root e
              \<and> (\<exists>s. ev_value e = JStr s \<and> py_strip s = c \<and> \<not> blank s)) es)
       \<and> (case dg_healthy d of None \<Rightarrow> True
          | Some b \<Rightarrow> list_ex (\<lambda>e. ev_id e \<in> set (dg_evidence_refs d) \<and> tells_health e \<and> ev_value e = JBool b) es)"
proof (cases "build_diagnosis es goal")
  case None
  have "diagnosing_inv es (diagnosed es)" by (rule diagnosed_inv)
  then show ?thesis using None
    by (auto simp: build_diagnosis_def Let_def diagnosing_inv_def list_all_iff split: if_splits)
next
  case (Some d)
  let ?z = "diagnosed es"
  have inv: "diagnosing_inv es ?z" by (rule diagnosed_inv)
  from Some have d: "dg_evidence_refs d = map ev_id (dz_supporting ?z)" "dg_affected_resources d = dz_affected ?z"
    "dg_root_cause d = dz_root_cause ?z" "dg_healthy d = dz_healthy ?z" and "dz_root_seen ?z \<or> dz_healthy ?z \<noteq> None"
    by (auto simp: build_diagnosis_def Let_def split: if_splits)
  then have "dg_evidence_refs d \<noteq> []" using inv by (auto simp: diagnosing_inv_def)
  moreover have "list_all (\<lambda>r. list_ex (\<lambda>e. ev_id e = r \<and> (tells_root e \<or> tells_health e)) es) (dg_evidence_refs d)"
    using inv unfolding d diagnosing_inv_def list_all_iff list_ex_iff by auto
  moreover have "distinct (dg_affected_resources d)" using inv by (simp add: d diagnosing_inv_def)
  moreover have "list_all (\<lambda>r. list_ex (\<lambda>e. ev_subject e = r \<and> ev_id e \<in> set (dg_evidence_refs d)) es) (dg_affected_resources d)"
    using inv unfolding d diagnosing_inv_def list_all_iff list_ex_iff by auto
  moreover have "list_ex (\<lambda>e. ev_id e \<in> set (dg_evidence_refs d) \<and> tells_root e
      \<and> (\<exists>s. ev_value e = JStr s \<and> py_strip s = c \<and> \<not> blank s)) es" if "dg_root_cause d = Some c" for c
    using diagnosed_root_source [of es c] that unfolding d by (auto simp: list_ex_iff)
  moreover have "list_ex (\<lambda>e. ev_id e \<in> set (dg_evidence_refs d) \<and> tells_health e \<and> ev_value e = JBool b) es"
    if "dg_healthy d = Some b" for b
    using diagnosed_health_source [of es b] that unfolding d by (auto simp: list_ex_iff)
  ultimately show ?thesis unfolding Some by (auto split: option.splits)
qed

subsection \<open>Proposals and the guards\<close>

lemma scale_ends:
  assumes "scale_evaluate c = Some r" and "pr_effect r \<noteq> Deny"
  shows "\<exists>env a b. environment_name c = Some env \<and> r = confirm_or_allow scale_name env a b"
  using assms unfolding scale_evaluate_def scale_workload_arguments_def
  by (cases "environment_name c") (auto split: if_splits option.splits)

lemma restart_ends:
  assumes "restart_evaluate c = Some r" and "pr_effect r \<noteq> Deny"
  shows "\<exists>env a b. environment_name c = Some env \<and> r = confirm_or_allow restart_name env a b"
  using assms unfolding restart_evaluate_def restart_workload_arguments_def
  by (cases "environment_name c") (auto split: if_splits option.splits)

lemma guard_effect:
  assumes "scale_evaluate c = Some r \<or> restart_evaluate c = Some r" and "pr_effect r \<noteq> Deny"
  shows "\<exists>env. environment_name c = Some env \<and> pr_effect r = (if env = ''production'' then RequireConfirmation else Allow)"
  using assms scale_ends restart_ends confirm_or_allow_effect by metis

lemma read_only_rule: "po_evaluate (hd kubernetes_policies) c = None \<or> cap_category (pc_capability c) = CatObservation"
  "cap_category (pc_capability c) = CatObservation \<Longrightarrow> map_option pr_effect (po_evaluate (hd kubernetes_policies) c) = Some Allow"
  by (simp_all add: kubernetes_policies_def rule_policy_def rule_evaluate_def)

lemma says_kubernetes:
  "says kubernetes_policies c e \<longleftrightarrow> e = Allow \<and> cap_category (pc_capability c) = CatObservation
     \<or> map_option pr_effect (scale_evaluate c) = Some e \<or> map_option pr_effect (restart_evaluate c) = Some e
     \<or> map_option pr_effect (set_image_evaluate c) = Some e"
proof -
  have "kubernetes_policies = hd kubernetes_policies # tl kubernetes_policies" by (simp add: kubernetes_policies_def)
  then have "says kubernetes_policies c e \<longleftrightarrow> map_option pr_effect (po_evaluate (hd kubernetes_policies) c) = Some e
      \<or> says (tl kubernetes_policies) c e"
    using says_append [of "[hd kubernetes_policies]" "tl kubernetes_policies" c e] by (simp add: says_def)
  moreover have "map_option pr_effect (po_evaluate (hd kubernetes_policies) c) = Some e
      \<longleftrightarrow> e = Allow \<and> cap_category (pc_capability c) = CatObservation"
    using read_only_rule [of c] by auto
  moreover have "says (tl kubernetes_policies) c e \<longleftrightarrow> map_option pr_effect (scale_evaluate c) = Some e
      \<or> map_option pr_effect (restart_evaluate c) = Some e \<or> map_option pr_effect (set_image_evaluate c) = Some e"
    by (auto simp: says_def kubernetes_policies_def)
  ultimately show ?thesis by blast
qed

lemma other_guards_silent:
  assumes "cap_name (pc_capability c) = action" and "action \<in> set (dict_keys mutation_risks)"
  obtains r where "(scale_evaluate c = Some r \<or> restart_evaluate c = Some r)"
    and "\<And>e. says kubernetes_policies c e \<longleftrightarrow> pr_effect r = e
      \<or> e = Allow \<and> cap_category (pc_capability c) = CatObservation"
proof -
  from assms(2) have "action = ''restart_workload'' \<or> action = ''scale_workload''"
    by (auto simp: mutation_risks_def)
  then show thesis
  proof
    assume a: "action = ''restart_workload''"
    then obtain r where r: "restart_evaluate c = Some r" using assms(1) by (auto simp: restart_evaluate_def)
    have "scale_evaluate c = None" "set_image_evaluate c = None"
      using a assms(1) by (simp_all add: scale_evaluate_def set_image_evaluate_def)
    with r show thesis using that [of r] by (simp add: says_kubernetes disj_commute)
  next
    assume a: "action = ''scale_workload''"
    then obtain r where r: "scale_evaluate c = Some r" using assms(1) by (auto simp: scale_evaluate_def)
    have "restart_evaluate c = None" "set_image_evaluate c = None"
      using a assms(1) by (simp_all add: restart_evaluate_def set_image_evaluate_def)
    with r show thesis using that [of r] by (simp add: says_kubernetes disj_commute)
  qed
qed


definition crash_evidence :: evidence where
  "crash_evidence = \<lparr>ev_session_id = ''s'', ev_task_id = ''t'', ev_action_id = ''a'', ev_observation_id = ''o'',
     ev_subject = ''deployment/web'', ev_claim = ''root_cause'', ev_value = JStr ''crash_loop_back_off'', ev_source = ''kubectl'',
     ev_confidence = 99 / 100, ev_id = ''e1'', ev_observed_at = 0, ev_domain_name = [], ev_domain_version = []\<rparr>"

definition crash_proposal :: "string option \<Rightarrow> remediation_proposal option" where
  "crash_proposal environment = build_proposal (build_diagnosis [crash_evidence] ''web'') ''restart_workload''
     ''deployment/web'' environment None"


text \<open>The guards strip the environment, the projection does not: for \<open>'production '\<close> they ask for a confirmation and it
  says that none is needed.\<close>

lemma padded_environment_diverges:
  "pr_effect (policy_check kubernetes_policies (restart_context ''production '' False)) = RequireConfirmation"
  "map_option rm_requires_confirmation (crash_proposal (Some ''production '')) = Some (Some False)"
  by code_simp+

end
