(* ===== verification/Secrets.thy ===== *)
theory Secrets
  imports Agent_Tasks "HOL-Library.Sublist"
begin

text \<open>
  \<open>security/secrets.py\<close>: redaction of what leaves the runtime, the scan for what should not have left it, and the
  resolution of references to secrets. Where secrets are kept (environment, files) is a parameter. The three regular
  expressions are written as the functions that match them: each is deterministic but for the end of the third,
  where the longest end at a word boundary is taken.
\<close>

subsection \<open>Keys\<close>

definition public_token_keys :: "string list" where
  "public_token_keys = [''cached_tokens'', ''input_tokens'', ''model_input_tokens'', ''model_output_tokens'',
     ''model_total_tokens'', ''output_tokens'', ''total_tokens'']"

definition reference_container_keys :: "string list" where
  "reference_container_keys = [''secret_ref'', ''secret_refs'', ''secret_reference'', ''secret_references'', ''secrets'']"

definition sensitive_key_parts :: "string list" where
  "sensitive_key_parts = [''api_key'', ''apikey'', ''access_key'', ''authorization'', ''credential'', ''password'', ''private_key'',
     ''secret'', ''token'']"

definition is_sensitive_key :: "string \<Rightarrow> bool" where
  "is_sensitive_key key =
     (let normalized = map (\<lambda>c. if c = CHR ''-'' then CHR ''_'' else c) (py_lower key) in
      normalized \<notin> set public_token_keys \<and> normalized \<notin> set reference_container_keys
      \<and> list_ex (\<lambda>part. sublist part normalized) sensitive_key_parts)"

subsection \<open>Text\<close>

text \<open>\<open>\w\<close>, and \<open>\b\<close> between two characters, where \<open>None\<close> is an end of the text.\<close>

definition word_char :: "char \<Rightarrow> bool" where
  "word_char c = (let n = of_char c :: nat in
     48 \<le> n \<and> n \<le> 57 \<or> 65 \<le> n \<and> n \<le> 90 \<or> n = 95 \<or> 97 \<le> n \<and> n \<le> 122 \<or> n \<in> set [170, 178, 179, 181, 185, 186, 188, 189, 190]
     \<or> 192 \<le> n \<and> n \<noteq> 215 \<and> n \<noteq> 247)"

definition in_word :: "char option \<Rightarrow> bool" where
  "in_word x = (case x of None \<Rightarrow> False | Some c \<Rightarrow> word_char c)"

definition first_char :: "string \<Rightarrow> char option" where
  "first_char s = (case s of [] \<Rightarrow> None | c # _ \<Rightarrow> Some c)"

definition ascii_alnum :: "char \<Rightarrow> bool" where
  "ascii_alnum c = (let n = of_char c :: nat in 48 \<le> n \<and> n \<le> 57 \<or> 65 \<le> n \<and> n \<le> 90 \<or> 97 \<le> n \<and> n \<le> 122)"

definition bearer_char :: "char \<Rightarrow> bool" where
  "bearer_char c \<longleftrightarrow> ascii_alnum c \<or> c \<in> set ''._~+/-''"

definition jwt_char :: "char \<Rightarrow> bool" where
  "jwt_char c \<longleftrightarrow> ascii_alnum c \<or> c \<in> set ''_-''"

text \<open>
  A match at a place: how many characters of it are kept before the replacement, and how many there are, less one.
  The first argument is the character before.
\<close>

type_synonym matcher = "char option \<Rightarrow> string \<Rightarrow> (nat \<times> nat) option"

text \<open>What is left after a literal, upper and lower case alike.\<close>

fun after_literal :: "string \<Rightarrow> string \<Rightarrow> string option" where
  "after_literal [] s = Some s"
| "after_literal (x # xs) [] = None"
| "after_literal (x # xs) (c # s) = (if lower_char c = x then after_literal xs s else None)"

definition after_scheme :: "string \<Rightarrow> string option" where
  "after_scheme s = (case after_literal ''bearer'' s of Some r \<Rightarrow> Some r | None \<Rightarrow> after_literal ''basic'' s)"

text \<open>What is left after \<open>(?:bearer|basic)\s+\<close>, and after the token that follows.\<close>

definition before_token :: "string \<Rightarrow> string option" where
  "before_token s = (case after_scheme s of None \<Rightarrow> None
     | Some r \<Rightarrow> if r \<noteq> [] \<and> py_isspace (hd r) then Some (dropWhile py_isspace r) else None)"

definition after_token :: "string \<Rightarrow> string option" where
  "after_token s = (if s \<noteq> [] \<and> bearer_char (hd s) then Some (dropWhile (\<lambda>c. c = CHR ''='') (dropWhile bearer_char s)) else None)"

text \<open>The match of a text \<open>s\<close> whose replaced part begins where \<open>r\<close> is left.\<close>

definition token_match :: "string \<Rightarrow> string \<Rightarrow> (nat \<times> nat) option" where
  "token_match s r = (case after_token r of None \<Rightarrow> None
     | Some r' \<Rightarrow> Some (length s - length r, length s - length r' - 1))"

definition bearer_match :: matcher where
  "bearer_match p s = (if in_word p then None
     else case before_token s of None \<Rightarrow> None | Some r \<Rightarrow> token_match s r)"

definition authorization_match :: matcher where
  "authorization_match p s = (if in_word p then None
     else case after_literal ''authorization'' s of None \<Rightarrow> None
     | Some r \<Rightarrow> (case dropWhile py_isspace r of [] \<Rightarrow> None
       | c # r1 \<Rightarrow> if c \<noteq> CHR '':'' \<and> c \<noteq> CHR ''='' then None
           else (case before_token (dropWhile py_isspace r1) of None \<Rightarrow> None | Some r2 \<Rightarrow> token_match s r2)))"

text \<open>\<open>[A-Za-z0-9_-]{8,}\<close> and the dot after it.\<close>

definition after_segment :: "string \<Rightarrow> string option" where
  "after_segment s = (if 8 \<le> length (takeWhile jwt_char s) then
     (case dropWhile jwt_char s of [] \<Rightarrow> None | c # r \<Rightarrow> if c = CHR ''.'' then Some r else None) else None)"

text \<open>The longest end of the last segment that is at a word boundary.\<close>

fun last_boundary :: "nat \<Rightarrow> string \<Rightarrow> nat option" where
  "last_boundary n s = (if n < 8 then None
     else if in_word (Some (s ! (n - 1))) \<noteq> in_word (first_char (drop n s)) then Some n else last_boundary (n - 1) s)"

declare last_boundary.simps [simp del]

definition jwt_match :: matcher where
  "jwt_match p s = (if in_word p \<or> take 3 s \<noteq> ''eyJ'' then None
     else case after_segment (drop 3 s) of None \<Rightarrow> None
     | Some r1 \<Rightarrow> (case after_segment r1 of None \<Rightarrow> None
       | Some r2 \<Rightarrow> (case last_boundary (length (takeWhile jwt_char r2)) r2 of None \<Rightarrow> None
         | Some n \<Rightarrow> Some (0, length s - length r2 + n - 1))))"

text \<open>\<open>Pattern.sub\<close>, from left to right.\<close>

fun re_sub :: "matcher \<Rightarrow> string \<Rightarrow> char option \<Rightarrow> string \<Rightarrow> string" where
  "re_sub m repl p [] = []"
| "re_sub m repl p (c # s) = (case m p (c # s) of None \<Rightarrow> c # re_sub m repl (Some c) s
     | Some (j, k) \<Rightarrow> take j (c # s) @ repl @ re_sub m repl (Some ((c # s) ! k)) (drop k s))"

definition redacted_marker :: string where
  "redacted_marker = ''[REDACTED]''"

definition redact_text :: "string \<Rightarrow> string \<Rightarrow> string" where
  "redact_text repl s = re_sub jwt_match repl None (re_sub bearer_match repl None (re_sub authorization_match repl None s))"

subsection \<open>Values\<close>

lemma enumerate_in: "(i, x) \<in> set (enumerate n xs) \<Longrightarrow> x \<in> set xs"
  by (metis map_snd_enumerate snd_conv set_map imageI)

lemma enumerate_smaller [termination_simp]: "(i, x) \<in> set (enumerate n xs) \<Longrightarrow> size x < Suc (size_list size xs)"
  using size_list_estimation' [OF enumerate_in, of i x n xs "size x" size] by simp

fun redact_value :: "string \<Rightarrow> string \<Rightarrow> json \<Rightarrow> json" where
  "redact_value repl key v = (if is_sensitive_key key then JStr repl else
     (case v of JStr s \<Rightarrow> JStr (redact_text repl s)
      | JObj kvs \<Rightarrow> JObj (map (\<lambda>(k, x). (k, redact_value repl k x)) kvs)
      | JList vs \<Rightarrow> JList (map (redact_value repl key) vs)
      | _ \<Rightarrow> v))"

declare redact_value.simps [simp del]

definition redact_mapping :: "string \<Rightarrow> json_mapping \<Rightarrow> json_mapping" where
  "redact_mapping repl d = map (\<lambda>(k, v). (k, redact_value repl k v)) d"

record secret_finding =
  sf_path :: string
  sf_reason :: string

definition redacted_values :: "string list" where
  "redacted_values = ['''', ''<redacted>'', redacted_marker, ''***'']"

fun unredacted_scalar :: "json \<Rightarrow> bool" where
  "unredacted_scalar JNull = False"
| "unredacted_scalar (JStr s) = (py_strip s \<notin> set redacted_values)"
| "unredacted_scalar (JObj kvs) = list_ex (\<lambda>(k, v). unredacted_scalar v) kvs"
| "unredacted_scalar (JList vs) = list_ex unredacted_scalar vs"
| "unredacted_scalar _ = True"

definition child_path :: "string \<Rightarrow> string \<Rightarrow> string" where
  "child_path path key = (if path = [] then key else path @ ''.'' @ key)"

definition item_path :: "string \<Rightarrow> nat \<Rightarrow> string" where
  "item_path path i = path @ ''['' @ show_nat i @ '']''"

fun scan_value :: "json \<Rightarrow> string \<Rightarrow> secret_finding list" where
  "scan_value (JObj kvs) path = concat (map (\<lambda>(k, v).
     if is_sensitive_key k \<and> unredacted_scalar v
     then [\<lparr>sf_path = child_path path k, sf_reason = ''sensitive key contains unredacted value''\<rparr>]
     else scan_value v (child_path path k)) kvs)"
| "scan_value (JList vs) path = concat (map (\<lambda>(i, v). scan_value v (item_path path i)) (enumerate 0 vs))"
| "scan_value (JStr s) path = (if redact_text redacted_marker s \<noteq> s
     then [\<lparr>sf_path = path, sf_reason = ''text contains unredacted credential''\<rparr>] else [])"
| "scan_value _ path = []"

definition scan_for_secrets :: "json \<Rightarrow> secret_finding list" where
  "scan_for_secrets v = scan_value v ''$''"

subsection \<open>Secrets that are referred to\<close>

datatype secret_status = SecretAvailable | SecretMissingRequired | SecretMissingOptional | SecretUnsupported

record secret_reference =
  se_name :: string
  se_source :: string
  se_key :: string
  se_required :: bool

record secret_resolution = secret_reference +
  se_status :: secret_status

text \<open>Where secrets are kept: what is asked for one of the environment, and the files.\<close>

record secret_sources =
  so_provider :: "string \<Rightarrow> string option"
  so_files :: "string \<Rightarrow> string option"

definition env_secret :: "(string, string) dict \<Rightarrow> string \<Rightarrow> string option" where
  "env_secret values key = (case map_of values key of None \<Rightarrow> None | Some v \<Rightarrow> if blank v then None else Some v)"

definition secret_value :: "secret_sources \<Rightarrow> 'a secret_reference_scheme \<Rightarrow> string option" where
  "secret_value so r = (if se_source r = ''env'' then so_provider so (se_key r)
     else if se_source r = ''file'' then so_files so (se_key r) else None)"

definition resolve_ref :: "secret_sources \<Rightarrow> secret_reference \<Rightarrow> secret_resolution" where
  "resolve_ref so r = \<lparr>se_name = se_name r, se_source = se_source r, se_key = se_key r, se_required = se_required r,
     se_status = (if se_source r \<notin> set [''env'', ''file''] then SecretUnsupported
       else if secret_value so r \<noteq> None then SecretAvailable
       else if se_required r then SecretMissingRequired else SecretMissingOptional)\<rparr>"

definition resolve_refs :: "secret_sources \<Rightarrow> secret_reference list \<Rightarrow> secret_resolution list" where
  "resolve_refs so rs = map (resolve_ref so) rs"

definition blocking :: "secret_resolution \<Rightarrow> bool" where
  "blocking r \<longleftrightarrow> se_required r \<and> se_status r \<noteq> SecretAvailable"

definition secrets_passed :: "secret_resolution list \<Rightarrow> bool" where
  "secrets_passed report \<longleftrightarrow> filter blocking report = []"

definition missing_required_names :: "secret_resolution list \<Rightarrow> string list" where
  "missing_required_names report = map se_name (filter blocking report)"

definition get_resolution :: "secret_resolution list \<Rightarrow> string \<Rightarrow> secret_resolution option" where
  "get_resolution report name = find (\<lambda>r. se_name r = name) report"

text \<open>\<open>SecretResolutionError\<close> with its text.\<close>

definition reference_name :: "json_mapping \<Rightarrow> string \<Rightarrow> string + string option" where
  "reference_name d path =
     (if map_of d ''secret_ref'' = None \<and> map_of d ''secret_reference'' = None then Inr None
      else if length d \<noteq> 1 then Inl (path @ '' secret reference must not include extra fields'')
      else (case dict_get d ''secret_ref'' (dict_get d ''secret_reference'' JNull) of
          JStr s \<Rightarrow> if blank s then Inl (path @ '' secret reference name must be a non-empty string'') else Inr (Some s)
        | _ \<Rightarrow> Inl (path @ '' secret reference name must be a non-empty string'')))"

definition declared_secret :: "secret_sources \<Rightarrow> secret_resolution list option \<Rightarrow> string \<Rightarrow> string \<Rightarrow> string + string" where
  "declared_secret so report name path = (case report of
       None \<Rightarrow> Inl (path @ '' secret reference has no runtime secret registry'')
     | Some rs \<Rightarrow> (case get_resolution rs name of
         None \<Rightarrow> Inl (path @ '' references unknown runtime secret: '' @ name)
       | Some r \<Rightarrow> if se_status r = SecretUnsupported
           then Inl (path @ '' references unsupported secret source: '' @ se_source r)
           else (case secret_value so r of None \<Rightarrow> Inl (path @ '' references unavailable runtime secret: '' @ name)
             | Some v \<Rightarrow> Inr v)))"

text \<open>The first error of a list of results, or all values.\<close>

fun all_right :: "('e + 'a) list \<Rightarrow> 'e + 'a list" where
  "all_right [] = Inr []"
| "all_right (Inl e # rs) = Inl e"
| "all_right (Inr a # rs) = (case all_right rs of Inl e \<Rightarrow> Inl e | Inr as \<Rightarrow> Inr (a # as))"

fun resolve_value :: "secret_sources \<Rightarrow> secret_resolution list option \<Rightarrow> string \<Rightarrow> json \<Rightarrow> string + json" where
  "resolve_value so report path v = (case v of
       JObj kvs \<Rightarrow> (case reference_name kvs path of Inl e \<Rightarrow> Inl e
         | Inr (Some name) \<Rightarrow> (case declared_secret so report name path of Inl e \<Rightarrow> Inl e | Inr s \<Rightarrow> Inr (JStr s))
         | Inr None \<Rightarrow> (case all_right (map (\<lambda>(k, x). resolve_value so report (path @ ''.'' @ k) x) kvs) of
             Inl e \<Rightarrow> Inl e | Inr xs \<Rightarrow> Inr (JObj (zip (map fst kvs) xs))))
     | JList vs \<Rightarrow> (case all_right (map (\<lambda>(i, x). resolve_value so report (item_path path i) x) (enumerate 0 vs)) of
         Inl e \<Rightarrow> Inl e | Inr xs \<Rightarrow> Inr (JList xs))
     | _ \<Rightarrow> Inr v)"

declare resolve_value.simps [simp del]

definition resolve_arguments :: "secret_sources \<Rightarrow> secret_resolution list option \<Rightarrow> json_mapping \<Rightarrow> string + json_mapping" where
  "resolve_arguments so report d = (case all_right (map (\<lambda>(k, x). resolve_value so report (''$.'' @ k) x) d) of
     Inl e \<Rightarrow> Inl e | Inr xs \<Rightarrow> Inr (zip (map fst d) xs))"

end
