(* ===== verification/Secrets_Safety.thy ===== *)
theory Secrets_Safety
  imports Secrets
begin

text \<open>
  What redaction guarantees: a value that has been redacted scans clean, and redacting it again changes nothing; and
  what the resolution of references to secrets guarantees.
\<close>

subsection \<open>Matches\<close>

text \<open>The character before the rest of a text that began after \<open>p\<close>.\<close>

definition last_of :: "char option \<Rightarrow> string \<Rightarrow> char option" where
  "last_of p u = (if u = [] then p else Some (last u))"

lemma last_of_simps [simp]: "last_of p [] = p" "last_of p (c # u) = last_of (Some c) u" "last_of p (u @ [c]) = Some c"
  by (simp_all add: last_of_def)

lemma last_of_append [simp]: "last_of p (u @ v) = last_of (last_of p u) v"
  by (simp add: last_of_def)

fun clean :: "matcher \<Rightarrow> char option \<Rightarrow> string \<Rightarrow> bool" where
  "clean m p [] \<longleftrightarrow> True"
| "clean m p (c # s) \<longleftrightarrow> m p (c # s) = None \<and> clean m (Some c) s"

lemma re_sub_clean: "clean m p s \<Longrightarrow> re_sub m r p s = s"
  by (induction s arbitrary: p) auto

lemma clean_suffix: "clean m p (u @ v) \<Longrightarrow> clean m (last_of p u) v"
  by (induction u arbitrary: p) auto

lemma clean_no_match: "clean m p (u @ v) \<Longrightarrow> v \<noteq> [] \<Longrightarrow> m (last_of p u) v = None"
  using clean_suffix [of m p u v] by (cases v) auto

text \<open>A substitution keeps the text up to the end of what it keeps of the first match.\<close>

definition keeps :: "matcher \<Rightarrow> bool" where
  "keeps m \<longleftrightarrow> (\<forall>p s j k. m p s = Some (j, k) \<longrightarrow> j \<le> k \<and> k < length s)"

lemma re_sub_first:
  assumes "keeps m"
  shows "re_sub m r p s = s \<or> (\<exists>u v j k z. s = u @ v \<and> m (last_of p u) v = Some (j, k) \<and> re_sub m r p s = u @ take j v @ r @ z)"
proof (induction s arbitrary: p)
  case (Cons c s)
  show ?case
  proof (cases "m p (c # s)")
    case None
    then show ?thesis
    proof (cases "re_sub m r (Some c) s = s")
      case False
      then obtain u v j k z where "s = u @ v" "m (last_of (Some c) u) v = Some (j, k)" "re_sub m r (Some c) s = u @ take j v @ r @ z"
        using Cons.IH [of "Some c"] by blast
      then have "c # s = (c # u) @ v \<and> m (last_of p (c # u)) v = Some (j, k) \<and> re_sub m r p (c # s) = (c # u) @ take j v @ r @ z"
        using None by simp
      then show ?thesis by blast
    qed simp
  next
    case (Some jk)
    then obtain j k where m: "m p (c # s) = Some (j, k)" by (cases jk) auto
    then have "c # s = [] @ (c # s) \<and> m (last_of p []) (c # s) = Some (j, k)
        \<and> re_sub m r p (c # s) = [] @ take j (c # s) @ r @ re_sub m r (Some ((c # s) ! k)) (drop k s)"
      by simp
    then show ?thesis by blast
  qed
qed simp

subsection \<open>Characters\<close>

lemma lower_b: "lower_char c = CHR ''b'' \<Longrightarrow> (of_char c :: nat) \<in> {66, 98}"
proof -
  assume "lower_char c = CHR ''b''"
  then have "(of_char (lower_char c) :: nat) = 98" by simp
  moreover have "(of_char c :: nat) < 256" by simp
  ultimately show ?thesis by (auto simp: lower_char_def Let_def split: if_splits)
qed

lemma b_classes: "lower_char c = CHR ''b'' \<Longrightarrow> word_char c \<and> bearer_char c \<and> jwt_char c \<and> \<not> py_isspace c"
proof -
  assume "lower_char c = CHR ''b''"
  then consider "(of_char c :: nat) = 66" | "(of_char c :: nat) = 98" using lower_b by blast
  then have "word_char c \<and> ascii_alnum c \<and> \<not> py_isspace c"
    by cases (simp_all add: word_char_def ascii_alnum_def py_isspace_def)
  then show ?thesis by (simp add: bearer_char_def jwt_char_def)
qed

lemma bearer_char_not_space: "bearer_char c \<Longrightarrow> \<not> py_isspace c"
  by (auto simp: bearer_char_def ascii_alnum_def py_isspace_def Let_def)

lemma open_bracket: "lower_char CHR ''['' = CHR ''[''" "\<not> bearer_char CHR ''[''" "\<not> py_isspace CHR ''[''" "\<not> jwt_char CHR ''[''"
    "\<not> word_char CHR ''[''" "\<not> word_char CHR '']''"
  by code_simp+

subsection \<open>Bearer tokens\<close>

lemma after_literal_iff: "after_literal xs s = Some r \<longleftrightarrow> (\<exists>sc. s = sc @ r \<and> map lower_char sc = xs)"
proof (induction xs s rule: after_literal.induct)
  case (1 s)
  show ?case by auto
next
  case (2 x xs)
  show ?case by auto
next
  case (3 x xs c s)
  show ?case
  proof
    assume "after_literal (x # xs) (c # s) = Some r"
    then obtain sc where "s = sc @ r" "map lower_char sc = xs" "lower_char c = x"
      using 3 by (auto split: if_splits)
    then show "\<exists>sc. c # s = sc @ r \<and> map lower_char sc = x # xs" by (intro exI [of _ "c # sc"]) simp
  next
    assume "\<exists>sc. c # s = sc @ r \<and> map lower_char sc = x # xs"
    then obtain sc where sc: "c # s = sc @ r" "map lower_char sc = x # xs" by (elim exE conjE)
    from sc(2) obtain d sc' where d: "sc = d # sc'" by (cases sc) simp_all
    have "s = sc' @ r" "map lower_char sc' = xs" and c: "lower_char c = x" using sc unfolding d by simp_all
    then have "after_literal xs s = Some r" unfolding 3 [OF c] by (intro exI conjI)
    then show "after_literal (x # xs) (c # s) = Some r" using c by simp
  qed
qed

definition schemes :: "string list" where
  "schemes = [''bearer'', ''basic'']"

lemma after_scheme_iff: "after_scheme s = Some r \<longleftrightarrow> (\<exists>sc. s = sc @ r \<and> map lower_char sc \<in> set schemes)"
proof -
  have start: "take 2 (map lower_char s) = take 2 xs" if "after_literal xs s = Some r'" "2 \<le> length xs" for xs r'
  proof -
    from that(1) obtain sc where "s = sc @ r'" "map lower_char sc = xs" by (auto simp: after_literal_iff)
    then show ?thesis using that(2) by auto
  qed
  have "after_literal ''bearer'' s = None \<or> after_literal ''basic'' s = None"
    using start [of "''bearer''"] start [of "''basic''"]
    by (cases "after_literal ''bearer'' s"; cases "after_literal ''basic'' s") auto
  then have "after_scheme s = Some r \<longleftrightarrow> after_literal ''bearer'' s = Some r \<or> after_literal ''basic'' s = Some r"
    by (auto simp: after_scheme_def split: option.splits)
  then show ?thesis unfolding after_literal_iff by (auto simp: schemes_def)
qed

lemma scheme_chars: "map lower_char sc \<in> set schemes \<Longrightarrow> sc \<noteq> [] \<and> lower_char (hd sc) = CHR ''b'' \<and> CHR ''['' \<notin> set sc
    \<and> (\<forall>c \<in> set (tl sc). lower_char c \<noteq> CHR ''b'')"
proof -
  assume m: "map lower_char sc \<in> set schemes"
  have "CHR ''['' \<notin> set (map lower_char sc)" using m by (auto simp: schemes_def simp del: set_map)
  then have "CHR ''['' \<notin> set sc" using open_bracket(1) by (metis image_eqI set_map)
  moreover have "sc \<noteq> [] \<and> lower_char (hd sc) = CHR ''b'' \<and> (\<forall>c \<in> set (tl sc). lower_char c \<noteq> CHR ''b'')"
    using m by (cases sc) (auto simp: schemes_def map_eq_Cons_conv)
  ultimately show ?thesis by blast
qed

text \<open>What a bearer match looks like.\<close>

definition bearer_shape :: "string \<Rightarrow> string \<Rightarrow> char \<Rightarrow> bool" where
  "bearer_shape sc w t \<longleftrightarrow> map lower_char sc \<in> set schemes \<and> w \<noteq> [] \<and> list_all py_isspace w \<and> bearer_char t"

lemma before_token_iff: "before_token s = Some r \<longleftrightarrow>
    (\<exists>sc w. s = sc @ w @ r \<and> map lower_char sc \<in> set schemes \<and> w \<noteq> [] \<and> list_all py_isspace w \<and> (r = [] \<or> \<not> py_isspace (hd r)))"
proof
  assume "before_token s = Some r"
  then obtain r0 where r0: "after_scheme s = Some r0" "r0 \<noteq> []" "py_isspace (hd r0)" "r = dropWhile py_isspace r0"
    by (auto simp: before_token_def split: option.splits if_splits)
  then obtain sc where "s = sc @ r0" "map lower_char sc \<in> set schemes" by (auto simp: after_scheme_iff)
  moreover have "r0 = takeWhile py_isspace r0 @ r" "takeWhile py_isspace r0 \<noteq> []"
    using r0 by (auto simp: takeWhile_eq_Nil_iff)
  moreover have "list_all py_isspace (takeWhile py_isspace r0)" by (auto simp: list_all_iff dest: set_takeWhileD)
  moreover have "r = [] \<or> \<not> py_isspace (hd r)" using r0(4) hd_dropWhile by blast
  ultimately show "\<exists>sc w. s = sc @ w @ r \<and> map lower_char sc \<in> set schemes \<and> w \<noteq> [] \<and> list_all py_isspace w
      \<and> (r = [] \<or> \<not> py_isspace (hd r))" by metis
next
  assume "\<exists>sc w. s = sc @ w @ r \<and> map lower_char sc \<in> set schemes \<and> w \<noteq> [] \<and> list_all py_isspace w \<and> (r = [] \<or> \<not> py_isspace (hd r))"
  then obtain sc w where w: "s = sc @ w @ r" "map lower_char sc \<in> set schemes" "w \<noteq> []" "list_all py_isspace w"
    "r = [] \<or> \<not> py_isspace (hd r)" by blast
  then have "after_scheme s = Some (w @ r)" by (auto simp: after_scheme_iff)
  moreover have "dropWhile py_isspace (w @ r) = r"
    using w(4,5) by (induction w) (auto, cases r, auto)
  moreover have "w @ r \<noteq> [] \<and> py_isspace (hd (w @ r))" using w(3,4) by (cases w) auto
  ultimately show "before_token s = Some r" by (simp add: before_token_def)
qed

lemma bearer_match_iff: "bearer_match p s \<noteq> None \<longleftrightarrow>
    \<not> in_word p \<and> (\<exists>sc w t z. s = sc @ w @ t # z \<and> bearer_shape sc w t)"
proof
  assume m: "bearer_match p s \<noteq> None"
  then obtain r where r: "\<not> in_word p" "before_token s = Some r" "after_token r \<noteq> None"
    by (auto simp: bearer_match_def token_match_def split: if_splits option.splits)
  then obtain t z where "r = t # z" "bearer_char t" by (cases r) (auto simp: after_token_def split: if_splits)
  with r show "\<not> in_word p \<and> (\<exists>sc w t z. s = sc @ w @ t # z \<and> bearer_shape sc w t)"
    unfolding bearer_shape_def before_token_iff by blast
next
  assume "\<not> in_word p \<and> (\<exists>sc w t z. s = sc @ w @ t # z \<and> bearer_shape sc w t)"
  then obtain sc w t z where w: "\<not> in_word p" "s = sc @ w @ t # z" "bearer_shape sc w t" by blast
  then have "before_token s = Some (t # z)" using bearer_char_not_space by (auto simp: before_token_iff bearer_shape_def)
  moreover have "after_token (t # z) \<noteq> None" using w(3) by (simp add: after_token_def bearer_shape_def)
  ultimately show "bearer_match p s \<noteq> None" using w(1) by (auto simp: bearer_match_def token_match_def)
qed

lemma bearer_same_word: "in_word p = in_word q \<Longrightarrow> bearer_match p s = bearer_match q s"
  by (simp add: bearer_match_def)

lemma bearer_head: "bearer_match p s \<noteq> None \<Longrightarrow> s \<noteq> [] \<and> lower_char (hd s) = CHR ''b'' \<and> \<not> in_word p"
  unfolding bearer_match_iff bearer_shape_def using scheme_chars by fastforce

lemma bearer_keeps: "keeps bearer_match"
  unfolding keeps_def
proof (intro allI impI)
  fix p s j k assume m: "bearer_match p s = Some (j, k)"
  then obtain r r' where r: "before_token s = Some r" "after_token r = Some r'" "j = length s - length r" "k = length s - length r' - 1"
    by (auto simp: bearer_match_def token_match_def split: if_splits option.splits)
  from r(1) obtain u where "s = u @ r" unfolding before_token_iff by (metis append.assoc)
  moreover have "length r' < length r" using r(2)
    by (cases r) (auto simp: after_token_def split: if_splits intro!: le_imp_less_Suc order_trans [OF length_dropWhile_le])
  ultimately show "j \<le> k \<and> k < length s" using r(3,4) by auto
qed

text \<open>What stands before a place where no match can go on decides whether there is one.\<close>

lemma prefix_before_bracket:
  assumes "x @ z = a @ b" and "CHR ''['' \<notin> set x" and "b = [] \<or> hd b = CHR ''[''"
  shows "\<exists>a2. a = x @ a2"
proof -
  from assms(1) consider us where "x = a @ us" "us @ z = b" | us where "x @ us = a" "z = us @ b"
    unfolding append_eq_append_conv2 by blast
  then show ?thesis
  proof cases
    case 1
    then have "us = []" using assms(2,3) by (cases us) auto
    with 1 show ?thesis by simp
  next
    case 2
    then show ?thesis by blast
  qed
qed

lemma bearer_shape_chars: "bearer_shape sc w t \<Longrightarrow> CHR ''['' \<notin> set (sc @ w @ [t])"
  using scheme_chars open_bracket by (auto simp: bearer_shape_def list_all_iff)

lemma bearer_cut:
  assumes "bearer_match p (a @ b) \<noteq> None" and "b = [] \<or> hd b = CHR ''[''"
  shows "bearer_match p (a @ b') \<noteq> None"
proof -
  obtain sc w t z where z: "\<not> in_word p" "a @ b = sc @ w @ t # z" "bearer_shape sc w t"
    using assms(1) unfolding bearer_match_iff by blast
  then have "(sc @ w @ [t]) @ z = a @ b" by simp
  from prefix_before_bracket [OF this bearer_shape_chars [OF z(3)] assms(2)] obtain a2 where "a = (sc @ w @ [t]) @ a2" by blast
  then have "a @ b' = sc @ w @ t # (a2 @ b')" by simp
  with z(1,3) show ?thesis unfolding bearer_match_iff by blast
qed

lemma clean_no_b: "\<forall>c \<in> set x. lower_char c \<noteq> CHR ''b'' \<Longrightarrow> clean bearer_match (last_of p x) y \<Longrightarrow> clean bearer_match p (x @ y)"
proof (induction x arbitrary: p)
  case (Cons c x)
  then have "bearer_match p (c # x @ y) = None" by (intro ccontr [of "_ = None"]) (use bearer_head in force)
  with Cons show ?case by simp
qed simp

lemma marker_chars: "hd redacted_marker = CHR ''[''" "redacted_marker \<noteq> []" "last redacted_marker = CHR '']''"
  "c \<in> set redacted_marker \<Longrightarrow> lower_char c \<noteq> CHR ''b'' \<and> c \<noteq> CHR ''e''"
proof -
  have "list_all (\<lambda>c. lower_char c \<noteq> CHR ''b'' \<and> c \<noteq> CHR ''e'') redacted_marker" by code_simp
  then show "c \<in> set redacted_marker \<Longrightarrow> lower_char c \<noteq> CHR ''b'' \<and> c \<noteq> CHR ''e''" by (simp add: list_all_iff)
qed (simp_all add: redacted_marker_def)

lemma last_of_marker [simp]: "last_of p redacted_marker = Some CHR '']''"
  by (simp add: last_of_def marker_chars)

abbreviation same_start :: "char option \<Rightarrow> char option \<Rightarrow> (char \<Rightarrow> bool) \<Rightarrow> string \<Rightarrow> bool" where
  "same_start p q starts s \<equiv> in_word p = in_word q \<or> s = [] \<or> \<not> starts (hd s)"

text \<open>The end of a token: what follows it begins no scheme, or it ends with a character outside of words.\<close>

lemma after_token_end:
  assumes "after_token r = Some r'"
  shows "\<exists>t. r = t @ r' \<and> t \<noteq> [] \<and> (\<not> word_char (last t) \<or> r' = [] \<or> \<not> bearer_char (hd r'))"
proof -
  let ?t = "takeWhile bearer_char r" and ?r1 = "dropWhile bearer_char r"
  let ?e = "takeWhile (\<lambda>c. c = CHR ''='') ?r1"
  have r: "r \<noteq> []" "bearer_char (hd r)" "r' = dropWhile (\<lambda>c. c = CHR ''='') ?r1"
    using assms by (auto simp: after_token_def split: if_splits)
  have "r = (?t @ ?e) @ r'" unfolding r(3) by (simp add: takeWhile_dropWhile_id)
  moreover have "?t \<noteq> []" using r by (cases r) auto
  moreover have "\<not> word_char (last (?t @ ?e)) \<or> r' = [] \<or> \<not> bearer_char (hd r')"
  proof (cases "?e = []")
    case True
    then have "r' = ?r1" unfolding r(3) by (metis takeWhile_dropWhile_id append_Nil)
    then show ?thesis using hd_dropWhile [of bearer_char r] by auto
  next
    case False
    then have "last ?e \<in> set ?e" by (rule last_in_set)
    then have "last ?e = CHR ''=''" by (drule_tac set_takeWhileD) simp
    with False have "last (?t @ ?e) = CHR ''=''" by simp
    moreover have "\<not> word_char CHR ''=''" by (simp add: word_char_def)
    ultimately show ?thesis by metis
  qed
  ultimately show ?thesis by (metis append_is_Nil_conv)
qed

lemma last_at: "x \<noteq> [] \<Longrightarrow> (x @ r) ! (length x - 1) = last x"
  by (simp add: nth_append last_conv_nth)

text \<open>The parts of a match: scheme, spaces, token, rest.\<close>

lemma bearer_parts:
  assumes "bearer_match p s = Some (j, k)"
  shows "\<exists>sc w t r. s = sc @ w @ t @ r \<and> take j s = sc @ w \<and> drop (Suc k) s = r \<and> s ! k = last t
    \<and> map lower_char sc \<in> set schemes \<and> list_all py_isspace w \<and> w \<noteq> []
    \<and> (\<not> word_char (last t) \<or> r = [] \<or> \<not> bearer_char (hd r))"
proof -
  from assms obtain r1 r where r: "before_token s = Some r1" "after_token r1 = Some r" "j = length s - length r1"
    "k = length s - length r - 1"
    by (auto simp: bearer_match_def token_match_def split: if_splits option.splits)
  from r(1) obtain sc w where sc: "s = sc @ w @ r1" "map lower_char sc \<in> set schemes" "w \<noteq> []" "list_all py_isspace w"
    unfolding before_token_iff by blast
  from after_token_end [OF r(2)] obtain t where t: "r1 = t @ r" "t \<noteq> []"
    "\<not> word_char (last t) \<or> r = [] \<or> \<not> bearer_char (hd r)" by blast
  have "s ! k = last t" using last_at [of "sc @ w @ t" r] t(2) unfolding r(4) sc(1) t(1) by simp
  moreover have "take j s = sc @ w" unfolding r(3) sc(1) by simp
  moreover have "drop (Suc k) s = r" using t(2) unfolding r(4) sc(1) t(1) by (simp add: Suc_diff_Suc)
  ultimately show ?thesis using sc t by blast
qed

lemma bearer_needs_token: "map lower_char sc \<in> set schemes \<Longrightarrow> w \<noteq> [] \<Longrightarrow> list_all py_isspace w \<Longrightarrow> bearer_match p (sc @ w) = None"
proof -
  assume "map lower_char sc \<in> set schemes" "w \<noteq> []" "list_all py_isspace w"
  then have "before_token (sc @ w) = Some []" unfolding before_token_iff by auto
  then show ?thesis by (simp add: bearer_match_def token_match_def after_token_def)
qed

lemma bearer_sub_clean:
  assumes "same_start p q (\<lambda>c. lower_char c = CHR ''b'') s"
  shows "clean bearer_match q (re_sub bearer_match redacted_marker p s)"
  using assms
proof (induction "length s" arbitrary: s p q rule: less_induct)
  case less
  show ?case
  proof (cases s)
    case (Cons c s1)
    let ?sub = "re_sub bearer_match redacted_marker"
    show ?thesis
    proof (cases "bearer_match p s")
      case None
      have "bearer_match q (c # ?sub (Some c) s1) = None"
      proof (rule ccontr)
        assume m: "bearer_match q (c # ?sub (Some c) s1) \<noteq> None"
        from bearer_head [OF m] less.prems Cons have "in_word p = in_word q" by simp
        with m have m': "bearer_match p (c # ?sub (Some c) s1) \<noteq> None" using bearer_same_word by metis
        from re_sub_first [OF bearer_keeps, of redacted_marker "Some c" s1] show False
        proof (elim disjE exE conjE)
          fix u v j k z assume u: "s1 = u @ v" "?sub (Some c) s1 = u @ take j v @ redacted_marker @ z"
          have "bearer_match p ((c # u @ take j v) @ redacted_marker @ z) \<noteq> None" using m' u(2) by simp
          from bearer_cut [OF this, of "drop j v"] show False using None Cons u(1) marker_chars by simp
        qed (use m' None Cons in simp)
      qed
      moreover have "clean bearer_match (Some c) (?sub (Some c) s1)" using less.hyps [of s1 "Some c" "Some c"] Cons by simp
      ultimately show ?thesis using None Cons by simp
    next
      case (Some jk)
      obtain j k where jk: "bearer_match p s = Some (j, k)" using Some by (cases jk) simp
      from bearer_parts [OF jk] obtain sc w t r where pt: "take j s = sc @ w" "drop (Suc k) s = r" "s ! k = last t"
        "map lower_char sc \<in> set schemes" "list_all py_isspace w" "w \<noteq> []" "\<not> word_char (last t) \<or> r = [] \<or> \<not> bearer_char (hd r)" by blast
      from pt(4) scheme_chars obtain d sc' where d: "sc = d # sc'" "\<forall>c \<in> set sc'. lower_char c \<noteq> CHR ''b''" by (cases sc) fastforce+
      have out: "?sub p s = (d # sc' @ w) @ redacted_marker @ ?sub (Some (last t)) r"
        using jk pt(1-3) Cons d(1) by simp
      have "clean bearer_match (Some CHR '']'') (?sub (Some (last t)) r)"
      proof (rule less.hyps)
        show "length r < length s" using pt(2) Cons by auto
        show "same_start (Some (last t)) (Some CHR '']'') (\<lambda>c. lower_char c = CHR ''b'') r"
          using pt(7) open_bracket b_classes [of "hd r"] by (auto simp: in_word_def)
      qed
      moreover have "\<forall>c \<in> set (sc' @ w @ redacted_marker). lower_char c \<noteq> CHR ''b''"
        using d(2) pt(5) b_classes marker_chars(4) by (auto simp: list_all_iff)
      ultimately have "clean bearer_match (Some d) ((sc' @ w @ redacted_marker) @ ?sub (Some (last t)) r)"
        by (intro clean_no_b) simp_all
      moreover have "bearer_match q ((d # sc' @ w) @ redacted_marker @ ?sub (Some (last t)) r) = None"
      proof (rule ccontr)
        assume "bearer_match q ((d # sc' @ w) @ redacted_marker @ ?sub (Some (last t)) r) \<noteq> None"
        from bearer_cut [OF this, of "[]"] show False
          using bearer_needs_token [OF pt(4,6,5), of q] d(1) marker_chars(1,2) by simp
      qed
      ultimately show ?thesis unfolding out by simp
    qed
  qed simp
qed

subsection \<open>JSON web tokens\<close>

lemma jwt_not_dot: "\<not> jwt_char CHR ''.''"
  by (simp add: jwt_char_def ascii_alnum_def)

lemma after_segment_iff: "after_segment s = Some r \<longleftrightarrow> (\<exists>x. s = x @ CHR ''.'' # r \<and> list_all jwt_char x \<and> 8 \<le> length x)"
proof
  assume a: "after_segment s = Some r"
  then have "dropWhile jwt_char s = CHR ''.'' # r" "8 \<le> length (takeWhile jwt_char s)"
    by (auto simp: after_segment_def split: if_splits list.splits)
  moreover have "s = takeWhile jwt_char s @ dropWhile jwt_char s" by simp
  moreover have "list_all jwt_char (takeWhile jwt_char s)" by (auto simp: list_all_iff dest: set_takeWhileD)
  ultimately show "\<exists>x. s = x @ CHR ''.'' # r \<and> list_all jwt_char x \<and> 8 \<le> length x" by metis
next
  assume "\<exists>x. s = x @ CHR ''.'' # r \<and> list_all jwt_char x \<and> 8 \<le> length x"
  then obtain x where x: "s = x @ CHR ''.'' # r" "list_all jwt_char x" "8 \<le> length x" by blast
  then have "takeWhile jwt_char s = x" "dropWhile jwt_char s = CHR ''.'' # r"
    using jwt_not_dot by (simp_all add: list_all_iff takeWhile_append2 dropWhile_append2)
  with x(3) show "after_segment s = Some r" by (simp add: after_segment_def)
qed

definition ends_word :: "nat \<Rightarrow> string \<Rightarrow> bool" where
  "ends_word n s \<longleftrightarrow> 8 \<le> n \<and> word_char (s ! (n - 1)) \<noteq> in_word (first_char (drop n s))"

lemma last_boundary_some: "last_boundary n s = Some m \<Longrightarrow> m \<le> n \<and> ends_word m s"
  by (induction n s rule: last_boundary.induct)
    (subst (asm) (2) last_boundary.simps, auto simp: ends_word_def in_word_def split: if_splits)

lemma last_boundary_none: "last_boundary n s = None \<Longrightarrow> m \<le> n \<Longrightarrow> \<not> ends_word m s"
proof (induction n s rule: last_boundary.induct)
  case (1 n s)
  show ?case
  proof (cases "m = n")
    case True
    then show ?thesis using 1(2) by (subst (asm) last_boundary.simps) (auto simp: ends_word_def in_word_def split: if_splits)
  next
    case False
    show ?thesis
    proof (cases "n < 8")
      case True
      then show ?thesis using 1(3) by (simp add: ends_word_def)
    next
      case 8: False
      then have "\<not> in_word (Some (s ! (n - 1))) \<noteq> in_word (first_char (drop n s))" "last_boundary (n - 1) s = None"
        using 1(2) by (subst (asm) last_boundary.simps, auto split: if_splits)+
      with 1(1) 8 False 1(3) show ?thesis by simp
    qed
  qed
qed

definition jwt_shape :: "string \<Rightarrow> string \<Rightarrow> string \<Rightarrow> bool" where
  "jwt_shape s1 s2 s3 \<longleftrightarrow> list_all (\<lambda>x. list_all jwt_char x \<and> 8 \<le> length x) [s1, s2, s3]"

definition jwt_text :: "string \<Rightarrow> string \<Rightarrow> string \<Rightarrow> string" where
  "jwt_text s1 s2 s3 = ''eyJ'' @ s1 @ ''.'' @ s2 @ ''.'' @ s3"

lemma jwt_parts:
  assumes "jwt_match p s = Some (j, k)"
  shows "\<exists>s1 s2 s3 z. s = jwt_text s1 s2 s3 @ z \<and> jwt_shape s1 s2 s3 \<and> word_char (last s3) \<noteq> in_word (first_char z)
    \<and> j = 0 \<and> k = length (jwt_text s1 s2 s3) - 1 \<and> \<not> in_word p"
proof -
  from assms obtain r1 r2 n where r: "\<not> in_word p" "take 3 s = ''eyJ''" "after_segment (drop 3 s) = Some r1" "after_segment r1 = Some r2"
    "last_boundary (length (takeWhile jwt_char r2)) r2 = Some n" "j = 0" "k = length s - length r2 + n - 1"
    by (auto simp: jwt_match_def split: if_splits option.splits)
  from r(3,4) obtain s1 s2 where s12: "drop 3 s = s1 @ CHR ''.'' # r1" "r1 = s2 @ CHR ''.'' # r2"
    "list_all jwt_char s1" "8 \<le> length s1" "list_all jwt_char s2" "8 \<le> length s2"
    unfolding after_segment_iff by blast
  let ?s3 = "take n r2" and ?z = "drop n r2"
  have n: "n \<le> length (takeWhile jwt_char r2)" "ends_word n r2" using last_boundary_some [OF r(5)] by simp_all
  then have len: "n \<le> length r2" "8 \<le> n" using length_takeWhile_le [of jwt_char r2] by (simp_all add: ends_word_def)
  have "?s3 = take n (takeWhile jwt_char r2)" using n(1) by (metis takeWhile_dropWhile_id take_append append_Nil2 diff_is_0_eq take_0)
  then have "list_all jwt_char ?s3" by (auto simp: list_all_iff dest: in_set_takeD set_takeWhileD)
  moreover have "length ?s3 = n" using len by simp
  ultimately have "jwt_shape s1 s2 ?s3" using s12 len by (simp add: jwt_shape_def)
  moreover have s: "s = jwt_text s1 s2 ?s3 @ ?z"
    using s12(1,2) r(2) append_take_drop_id [of 3 s] by (simp add: jwt_text_def)
  moreover have "last ?s3 = r2 ! (n - 1)" using len by (subst last_conv_nth) auto
  moreover have "k = length (jwt_text s1 s2 ?s3) - 1"
    using len arg_cong [OF s, of length] unfolding r(7) by (simp add: jwt_text_def)
  ultimately show ?thesis using n(2) r(1,6) by (metis ends_word_def)
qed

lemma jwt_text_match:
  assumes "jwt_shape s1 s2 s3" and "word_char (last s3) \<noteq> in_word (first_char z)" and "\<not> in_word p"
  shows "jwt_match p (jwt_text s1 s2 s3 @ z) \<noteq> None"
proof -
  let ?r2 = "s3 @ z"
  have shape: "list_all jwt_char s1" "8 \<le> length s1" "list_all jwt_char s2" "8 \<le> length s2" "list_all jwt_char s3" "8 \<le> length s3"
    using assms(1) by (simp_all add: jwt_shape_def)
  have "after_segment (s1 @ CHR ''.'' # s2 @ CHR ''.'' # ?r2) = Some (s2 @ CHR ''.'' # ?r2)" "after_segment (s2 @ CHR ''.'' # ?r2) = Some ?r2"
    using shape by (auto simp: after_segment_iff)
  moreover have "length s3 \<le> length (takeWhile jwt_char ?r2)" using shape(5) by (simp add: list_all_iff takeWhile_append2)
  moreover have "ends_word (length s3) ?r2"
    using shape(6) assms(2) last_at [of s3 z] by (cases "s3 = []") (simp_all add: ends_word_def)
  ultimately show ?thesis using last_boundary_none [of "length (takeWhile jwt_char ?r2)" ?r2 "length s3"] assms(3)
    by (auto simp: jwt_match_def jwt_text_def split: option.splits)
qed

lemma jwt_head: "jwt_match p s \<noteq> None \<Longrightarrow> s \<noteq> [] \<and> hd s = CHR ''e'' \<and> \<not> in_word p"
  using jwt_parts by (fastforce simp: jwt_text_def)

lemma jwt_same_word: "in_word p = in_word q \<Longrightarrow> jwt_match p s = jwt_match q s"
  by (simp add: jwt_match_def)

lemma jwt_keeps: "keeps jwt_match"
  unfolding keeps_def
proof (intro allI impI)
  fix p s j k assume "jwt_match p s = Some (j, k)"
  from jwt_parts [OF this] obtain s1 s2 s3 z where "s = jwt_text s1 s2 s3 @ z" "j = 0" "k = length (jwt_text s1 s2 s3) - 1" by blast
  moreover have "jwt_text s1 s2 s3 \<noteq> []" by (simp add: jwt_text_def)
  ultimately show "j \<le> k \<and> k < length s" by (cases "jwt_text s1 s2 s3") auto
qed

lemma jwt_cut:
  assumes "jwt_match p (a @ b) \<noteq> None" and "b \<noteq> []" and "hd b = CHR ''[''" and "\<not> in_word (last_of p a)"
  shows "jwt_match p (a @ b') \<noteq> None"
proof -
  obtain s1 s2 s3 z where z: "a @ b = jwt_text s1 s2 s3 @ z" "jwt_shape s1 s2 s3" "word_char (last s3) \<noteq> in_word (first_char z)"
    "\<not> in_word p" using assms(1) jwt_parts [of p "a @ b"] by fastforce
  have "CHR ''['' \<notin> set (jwt_text s1 s2 s3)" using z(2) open_bracket(4) by (auto simp: jwt_text_def jwt_shape_def list_all_iff)
  from prefix_before_bracket [OF z(1) [symmetric] this] assms(3) obtain a2 where a2: "a = jwt_text s1 s2 s3 @ a2" by blast
  have "s3 \<noteq> []" using z(2) by (auto simp: jwt_shape_def)
  then have last: "last (jwt_text s1 s2 s3) = last s3" "jwt_text s1 s2 s3 \<noteq> []" by (simp_all add: jwt_text_def)
  have "a2 \<noteq> []"
  proof
    assume "a2 = []"
    then have "z = b" using z(1) a2 by simp
    then have "\<not> in_word (first_char z)" using assms(2,3) open_bracket(5) by (cases b) (simp_all add: first_char_def in_word_def)
    moreover have "\<not> word_char (last s3)" using assms(4) a2 \<open>a2 = []\<close> last by (simp add: last_of_def in_word_def)
    ultimately show False using z(3) by simp
  qed
  then have "first_char (a2 @ b') = first_char z" using z(1) a2 by (cases a2) (auto simp: first_char_def)
  then show ?thesis using jwt_text_match [OF z(2) _ z(4), of "a2 @ b'"] z(3) a2 by simp
qed

lemma after_jwt:
  assumes "jwt_match p s = Some (j, k)"
  shows "j = 0 \<and> drop (Suc k) s \<noteq> s \<and> Suc k \<le> length s
    \<and> (\<not> word_char (s ! k) \<or> drop (Suc k) s = [] \<or> \<not> word_char (hd (drop (Suc k) s)))"
proof -
  obtain s1 s2 s3 z where z: "s = jwt_text s1 s2 s3 @ z" "jwt_shape s1 s2 s3" "word_char (last s3) \<noteq> in_word (first_char z)"
    "j = 0" "k = length (jwt_text s1 s2 s3) - 1" using jwt_parts [OF assms] by blast
  have ne: "jwt_text s1 s2 s3 \<noteq> []" "last (jwt_text s1 s2 s3) = last s3"
    using z(2) by (auto simp: jwt_text_def jwt_shape_def)
  then have "Suc k = length (jwt_text s1 s2 s3)" unfolding z(5) by simp
  then have "drop (Suc k) s = z" "s ! k = last s3" "Suc k \<le> length s"
    using last_at [OF ne(1), of z] ne(2) unfolding z(1) z(5) by simp_all
  moreover have "z \<noteq> s" using ne z(1) by simp
  ultimately show ?thesis using z(3,4) by (cases z) (simp_all add: first_char_def in_word_def)
qed

lemma no_word_no_e: "\<not> word_char c \<Longrightarrow> c \<noteq> CHR ''e''"
  by (auto simp: word_char_def)

text \<open>Both kinds of matches in what the third pass leaves: \<open>starts\<close> is what a match begins with.\<close>

lemma jwt_sub_clean:
  assumes cut: "\<And>p q a b b'. m q (a @ b) \<noteq> None \<Longrightarrow> b \<noteq> [] \<Longrightarrow> hd b = CHR ''['' \<Longrightarrow> \<not> in_word (last_of q a) \<Longrightarrow> m q (a @ b') \<noteq> None"
    and start: "\<And>p s. m p s \<noteq> None \<Longrightarrow> s \<noteq> [] \<and> starts (hd s)"
    and word: "\<And>p q s. in_word p = in_word q \<Longrightarrow> m p s = m q s"
    and starts: "\<And>c. starts c \<Longrightarrow> word_char c" "\<And>c. c \<in> set redacted_marker \<Longrightarrow> \<not> starts c"
    and still: "\<And>p s. m p s \<noteq> None \<Longrightarrow> jwt_match p s = None \<Longrightarrow> ok p s \<Longrightarrow> False"
    and ok: "\<And>p c s. ok p (c # s) \<Longrightarrow> ok (Some c) s"
  shows "same_start p q starts s \<Longrightarrow> ok p s \<Longrightarrow> clean m q (re_sub jwt_match redacted_marker p s)"
proof (induction "length s" arbitrary: s p q rule: less_induct)
  case less
  let ?sub = "re_sub jwt_match redacted_marker"
  have marker: "clean m p (redacted_marker @ y)" if "clean m (Some CHR '']'') y" for p y
  proof -
    have "clean m r (x @ y)" if "set x \<subseteq> set redacted_marker" "clean m (last_of r x) y" for r x
      using that by (induction x arbitrary: r) (auto, metis option.exhaust start starts(2) list.sel(1))
    from this [of redacted_marker p] that show ?thesis by simp
  qed
  show ?case
  proof (cases s)
    case (Cons c s1)
    show ?thesis
    proof (cases "jwt_match p s")
      case None
      have "m q (c # ?sub (Some c) s1) = None"
      proof (rule ccontr)
        assume m: "m q (c # ?sub (Some c) s1) \<noteq> None"
        from start [OF m] less.prems(1) Cons have "in_word p = in_word q" by simp
        with m have m': "m p (c # ?sub (Some c) s1) \<noteq> None" using word by metis
        from re_sub_first [OF jwt_keeps, of redacted_marker "Some c" s1] have "m p (c # s1) \<noteq> None"
        proof (elim disjE exE conjE)
          fix u v j k z assume u: "s1 = u @ v" "jwt_match (last_of (Some c) u) v = Some (j, k)"
            "?sub (Some c) s1 = u @ take j v @ redacted_marker @ z"
          have "j = 0" "\<not> in_word (last_of p (c # u))" using after_jwt [OF u(2)] jwt_head [of "last_of (Some c) u" v] u(2) by simp_all
          moreover from this(1) have "m p ((c # u) @ redacted_marker @ z) \<noteq> None" using m' u(3) by simp
          ultimately show ?thesis using cut [of p "c # u" "redacted_marker @ z" v] u(1) marker_chars by simp
        qed (use m' in simp)
        from still [OF this] None Cons less.prems(2) show False by simp
      qed
      moreover have "clean m (Some c) (?sub (Some c) s1)"
        using less.hyps [of s1 "Some c" "Some c"] ok less.prems(2) Cons by simp
      ultimately show ?thesis using None Cons by simp
    next
      case (Some jk)
      obtain j k where jk: "jwt_match p s = Some (j, k)" using Some by (cases jk) simp
      let ?r = "drop (Suc k) s"
      have r: "j = 0" "length ?r < length s" "\<not> word_char (s ! k) \<or> ?r = [] \<or> \<not> word_char (hd ?r)"
        using after_jwt [OF jk] Cons by auto
      have "ok (Some (s ! k)) ?r"
      proof -
        have "ok p (x @ y) \<Longrightarrow> ok (last_of p x) y" for p x y
          by (induction x arbitrary: p) (auto dest: ok)
        from this [of p "take (Suc k) s" ?r] less.prems(2) have "ok (last_of p (take (Suc k) s)) ?r" by simp
        moreover have "last_of p (take (Suc k) s) = Some (s ! k)"
          using after_jwt [OF jk] by (simp add: last_of_def take_Suc_conv_app_nth)
        ultimately show ?thesis by simp
      qed
      moreover have "same_start (Some (s ! k)) (Some CHR '']'') starts ?r"
        using r(3) open_bracket starts(1) by (auto simp: in_word_def)
      ultimately have "clean m (Some CHR '']'') (?sub (Some (s ! k)) ?r)" using less.hyps [OF r(2)] by blast
      moreover have "?sub p s = redacted_marker @ ?sub (Some (s ! k)) ?r" using jk r(1) Cons by simp
      ultimately show ?thesis using marker by simp
    qed
  qed simp
qed

lemma jwt_sub_no_bearer:
  assumes "clean bearer_match p s"
  shows "clean bearer_match p (re_sub jwt_match redacted_marker p s)"
proof (rule jwt_sub_clean [where starts = "\<lambda>c. lower_char c = CHR ''b''" and ok = "clean bearer_match" and m = bearer_match and p = p and q = p])
  show "bearer_match q (a @ b) \<noteq> None \<Longrightarrow> b \<noteq> [] \<Longrightarrow> hd b = CHR ''['' \<Longrightarrow> bearer_match q (a @ b') \<noteq> None" for q a b b'
    using bearer_cut by blast
  show "bearer_match p s \<noteq> None \<Longrightarrow> s \<noteq> [] \<and> lower_char (hd s) = CHR ''b''" for p s
    using bearer_head by blast
  show "in_word p = in_word q \<Longrightarrow> bearer_match p s = bearer_match q s" for p q s by (rule bearer_same_word)
  show "lower_char c = CHR ''b'' \<Longrightarrow> word_char c" for c using b_classes by blast
  show "c \<in> set redacted_marker \<Longrightarrow> lower_char c \<noteq> CHR ''b''" for c using marker_chars(4) by blast
  show "bearer_match p s \<noteq> None \<Longrightarrow> jwt_match p s = None \<Longrightarrow> clean bearer_match p s \<Longrightarrow> False" for p s
    using bearer_head [of p s] by (cases s) simp_all
  show "clean bearer_match p (c # s) \<Longrightarrow> clean bearer_match (Some c) s" for p c s by simp
qed (use assms in simp_all)

lemma jwt_sub_no_jwt: "clean jwt_match p (re_sub jwt_match redacted_marker p s)"
proof (rule jwt_sub_clean [where starts = "\<lambda>c. c = CHR ''e''" and ok = "\<lambda>_ _. True" and m = jwt_match and p = p and q = p])
  show "jwt_match q (a @ b) \<noteq> None \<Longrightarrow> b \<noteq> [] \<Longrightarrow> hd b = CHR ''['' \<Longrightarrow> \<not> in_word (last_of q a) \<Longrightarrow> jwt_match q (a @ b') \<noteq> None"
    for q a b b' by (rule jwt_cut)
  show "jwt_match p s \<noteq> None \<Longrightarrow> s \<noteq> [] \<and> hd s = CHR ''e''" for p s using jwt_head by blast
  show "in_word p = in_word q \<Longrightarrow> jwt_match p s = jwt_match q s" for p q s by (rule jwt_same_word)
  show "c = CHR ''e'' \<Longrightarrow> word_char c" for c using no_word_no_e by blast
  show "c \<in> set redacted_marker \<Longrightarrow> c \<noteq> CHR ''e''" for c using marker_chars(4) by blast
qed simp_all

subsection \<open>Authorization headers\<close>

lemma space_no_word: "py_isspace c \<Longrightarrow> \<not> word_char c"
  by (auto simp: py_isspace_def word_char_def Let_def)

lemma last_of_spaces: "list_all py_isspace w \<Longrightarrow> \<not> in_word p \<Longrightarrow> \<not> in_word (last_of p w)"
  using space_no_word [of "last w"] by (auto simp: last_of_def in_word_def list_all_iff)

text \<open>A header with a token contains a token that the second pattern finds too.\<close>

lemma authorization_bearer:
  assumes "authorization_match p s \<noteq> None"
  shows "\<exists>u v. s = u @ v \<and> v \<noteq> [] \<and> bearer_match (last_of p u) v \<noteq> None"
proof -
  from assms obtain r c r1 r2 where r: "after_literal ''authorization'' s = Some r" "dropWhile py_isspace r = c # r1"
    "c = CHR '':'' \<or> c = CHR ''=''" "before_token (dropWhile py_isspace r1) = Some r2" "after_token r2 \<noteq> None"
    by (auto simp: authorization_match_def token_match_def split: if_splits option.splits list.splits)
  from r(1) obtain lit where lit: "s = lit @ r" unfolding after_literal_iff by blast
  let ?w = "takeWhile py_isspace r1" and ?v = "dropWhile py_isspace r1"
  have "r = takeWhile py_isspace r @ c # ?w @ ?v" using r(2) by (metis takeWhile_dropWhile_id)
  then have s: "s = (lit @ takeWhile py_isspace r @ c # ?w) @ ?v" using lit by simp
  have "\<not> word_char c" using r(3) by (auto simp: word_char_def)
  then have "\<not> in_word (last_of (Some c) ?w)"
    by (intro last_of_spaces) (auto simp: list_all_iff in_word_def dest: set_takeWhileD)
  then have "bearer_match (last_of p (lit @ takeWhile py_isspace r @ c # ?w)) ?v \<noteq> None"
    using r(4,5) by (auto simp: bearer_match_def token_match_def)
  then show ?thesis using s bearer_head by blast
qed

lemma clean_authorization: "clean bearer_match p s \<Longrightarrow> clean authorization_match p s"
proof (induction s arbitrary: p)
  case (Cons c s)
  have "authorization_match p (c # s) = None"
  proof (rule ccontr)
    assume "authorization_match p (c # s) \<noteq> None"
    from authorization_bearer [OF this] obtain u v where "c # s = u @ v" "v \<noteq> []" "bearer_match (last_of p u) v \<noteq> None" by blast
    with clean_no_match [of bearer_match p u v] Cons.prems show False by simp
  qed
  with Cons show ?case by simp
qed simp

subsection \<open>Redacted text and values\<close>

lemma redact_text_twice: "redact_text redacted_marker (redact_text redacted_marker s) = redact_text redacted_marker s"
proof -
  let ?b = "re_sub bearer_match redacted_marker None (re_sub authorization_match redacted_marker None s)"
  let ?o = "redact_text redacted_marker s"
  have o: "?o = re_sub jwt_match redacted_marker None ?b" by (simp add: redact_text_def)
  have "clean bearer_match None ?b" by (rule bearer_sub_clean) simp
  then have b: "clean bearer_match None ?o" unfolding o by (rule jwt_sub_no_bearer)
  moreover from b have "clean authorization_match None ?o" by (rule clean_authorization)
  moreover have "clean jwt_match None ?o" unfolding o by (rule jwt_sub_no_jwt)
  ultimately show ?thesis by (subst redact_text_def) (simp add: re_sub_clean)
qed

lemma samples:
  "redact_text redacted_marker ''Authorization: Bearer abc.def== x'' = ''Authorization: Bearer [REDACTED] x''"
  "redact_text redacted_marker ''a basic  dXNlcg==;_bearer xyz bearers'' = ''a basic  [REDACTED];_bearer xyz bearers''"
  "redact_text redacted_marker ''t=eyJabcdefgh.12345678.12345678- z'' = ''t=[REDACTED]- z''"
  by code_simp+


lemma marker_value: "redact_text redacted_marker redacted_marker = redacted_marker" "py_strip redacted_marker = redacted_marker"
  by code_simp+

lemma sensitive_redacted: "is_sensitive_key k \<Longrightarrow> redact_value r k v = JStr r"
  by (simp add: redact_value.simps)

lemma plain_redacted: "\<not> is_sensitive_key k \<Longrightarrow> redact_value r k (JStr s) = JStr (redact_text r s)"
    "\<not> is_sensitive_key k \<Longrightarrow> redact_value r k (JObj kvs) = JObj (redact_mapping r kvs)"
    "\<not> is_sensitive_key k \<Longrightarrow> redact_value r k (JList vs) = JList (map (redact_value r k) vs)"
  by (simp_all add: redact_value.simps redact_mapping_def)

lemma scan_redacted: "scan_value (redact_value redacted_marker k v) path = []"
proof (induction v arbitrary: k path)
  case (JList vs)
  then show ?case
    by (cases "is_sensitive_key k") (auto simp: sensitive_redacted plain_redacted marker_value dest!: enumerate_in)
next
  case (JObj kvs)
  have "scan_value (JObj (redact_mapping redacted_marker kvs)) path = []" for path
    using JObj sensitive_redacted marker_value by (auto simp: redact_mapping_def redacted_values_def)
  then show ?case
    by (cases "is_sensitive_key k") (simp_all add: sensitive_redacted plain_redacted marker_value)
qed (cases "is_sensitive_key k"; simp add: redact_value.simps marker_value redact_text_twice)+

lemma redact_twice: "redact_value redacted_marker k (redact_value redacted_marker k v) = redact_value redacted_marker k v"
proof (induction v arbitrary: k)
  case (JList vs)
  then show ?case
    by (cases "is_sensitive_key k") (simp_all add: sensitive_redacted plain_redacted)
next
  case (JObj kvs)
  have "redact_mapping redacted_marker (redact_mapping redacted_marker kvs) = redact_mapping redacted_marker kvs"
    using JObj by (auto simp: redact_mapping_def)
  then show ?case
    by (cases "is_sensitive_key k") (simp_all add: sensitive_redacted plain_redacted)
qed (cases "is_sensitive_key k"; simp add: redact_value.simps redact_text_twice)+

text \<open>C19. What is redacted has nothing left to redact. A mapping that has been redacted scans without a finding, whatever
  it held, a further redaction does not change it, and its keys are those it had. In particular the passes over a
  text leave none of the three kinds of credentials, though each of them changes what the others see.\<close>

theorem redacted_scans_clean:
  "scan_for_secrets (JObj (redact_mapping redacted_marker d)) = []
   \<and> redact_mapping redacted_marker (redact_mapping redacted_marker d) = redact_mapping redacted_marker d
   \<and> dict_keys (redact_mapping redacted_marker d) = dict_keys d"
proof (intro conjI)
  show "scan_for_secrets (JObj (redact_mapping redacted_marker d)) = []"
    unfolding scan_for_secrets_def using scan_redacted sensitive_redacted marker_value
    by (auto simp: redact_mapping_def redacted_values_def)
  show "redact_mapping redacted_marker (redact_mapping redacted_marker d) = redact_mapping redacted_marker d"
    using redact_twice by (auto simp: redact_mapping_def)
  show "dict_keys (redact_mapping redacted_marker d) = dict_keys d"
    by (auto simp: redact_mapping_def)
qed

subsection \<open>Secrets that are referred to\<close>

definition reference_key :: "string \<Rightarrow> bool" where
  "reference_key k \<longleftrightarrow> k = ''secret_ref'' \<or> k = ''secret_reference''"

text \<open>The secret a value refers to, the names that may be referred to, and a value with its references replaced.\<close>

definition refers_to :: "json_mapping \<Rightarrow> string option" where
  "refers_to d = (case d of [(k, JStr n)] \<Rightarrow> if reference_key k \<and> \<not> blank n then Some n else None | _ \<Rightarrow> None)"

definition required_name :: "secret_reference list \<Rightarrow> string \<Rightarrow> bool" where
  "required_name rs n \<longleftrightarrow> (case find (\<lambda>r. se_name r = n) rs of None \<Rightarrow> False | Some r \<Rightarrow> se_required r)"

definition secret_of :: "secret_sources \<Rightarrow> secret_reference list \<Rightarrow> string \<Rightarrow> string" where
  "secret_of so rs n = (case find (\<lambda>r. se_name r = n) rs of None \<Rightarrow> [] | Some r \<Rightarrow> the (secret_value so r))"

fun well_referenced :: "secret_reference list \<Rightarrow> json \<Rightarrow> bool" where
  "well_referenced rs (JObj kvs) \<longleftrightarrow>
     (if list_ex (\<lambda>(k, x). reference_key k) kvs then (case refers_to kvs of None \<Rightarrow> False | Some n \<Rightarrow> required_name rs n)
      else list_all (\<lambda>(k, x). well_referenced rs x) kvs)"
| "well_referenced rs (JList vs) \<longleftrightarrow> list_all (well_referenced rs) vs"
| "well_referenced rs _ \<longleftrightarrow> True"

fun plug :: "(string \<Rightarrow> string) \<Rightarrow> json \<Rightarrow> json" where
  "plug f (JObj kvs) = (case refers_to kvs of Some n \<Rightarrow> JStr (f n) | None \<Rightarrow> JObj (map (\<lambda>(k, x). (k, plug f x)) kvs))"
| "plug f (JList vs) = JList (map (plug f) vs)"
| "plug f v = v"

lemma resolve_value_simps:
  "resolve_value so report path (JObj kvs) = (case reference_name kvs path of Inl e \<Rightarrow> Inl e
     | Inr (Some name) \<Rightarrow> (case declared_secret so report name path of Inl e \<Rightarrow> Inl e | Inr s \<Rightarrow> Inr (JStr s))
     | Inr None \<Rightarrow> (case all_right (map (\<lambda>(k, x). resolve_value so report (path @ ''.'' @ k) x) kvs) of
         Inl e \<Rightarrow> Inl e | Inr xs \<Rightarrow> Inr (JObj (zip (map fst kvs) xs))))"
  "resolve_value so report path (JList vs) =
     (case all_right (map (\<lambda>(i, x). resolve_value so report (item_path path i) x) (enumerate 0 vs)) of
        Inl e \<Rightarrow> Inl e | Inr xs \<Rightarrow> Inr (JList xs))"
  "resolve_value so report path JNull = Inr JNull" "resolve_value so report path (JBool b) = Inr (JBool b)"
  "resolve_value so report path (JInt n) = Inr (JInt n)" "resolve_value so report path (JFloat q) = Inr (JFloat q)"
  "resolve_value so report path (JStr s) = Inr (JStr s)"
  by (subst resolve_value.simps, simp)+

lemma all_right_map: "list_all (\<lambda>x. f x = Inr (g x)) xs \<Longrightarrow> all_right (map f xs) = Inr (map g xs)"
  by (induction xs) auto

lemma reference_name_none: "\<not> list_ex (\<lambda>(k, x). reference_key k) kvs \<Longrightarrow> reference_name kvs path = Inr None \<and> refers_to kvs = None"
proof -
  assume no: "\<not> list_ex (\<lambda>(k, x). reference_key k) kvs"
  then have "map_of kvs k = None" if "reference_key k" for k
    using that by (auto simp: list_ex_iff map_of_eq_None_iff)
  then have "reference_name kvs path = Inr None" by (simp add: reference_name_def reference_key_def)
  moreover have "refers_to kvs = None"
    using no by (auto simp: refers_to_def list_ex_iff split: list.splits json.splits)
  ultimately show ?thesis by blast
qed

lemma reference_name_some: "refers_to kvs = Some n \<Longrightarrow> reference_name kvs path = Inr (Some n)"
  by (auto simp: refers_to_def reference_name_def reference_key_def dict_get_def split: list.splits json.splits if_splits)

lemma get_resolved: "get_resolution (resolve_refs so rs) n = map_option (resolve_ref so) (find (\<lambda>r. se_name r = n) rs)"
  by (induction rs) (auto simp: get_resolution_def resolve_refs_def resolve_ref_def)

lemma declared_available:
  assumes "secrets_passed (resolve_refs so rs)" and "required_name rs n"
  shows "declared_secret so (Some (resolve_refs so rs)) n path = Inr (secret_of so rs n)"
proof -
  obtain r where r: "find (\<lambda>r. se_name r = n) rs = Some r" "se_required r"
    using assms(2) by (auto simp: required_name_def split: option.splits)
  then have "r \<in> set rs" by (auto simp: find_Some_iff)
  then have "\<not> blocking (resolve_ref so r)"
    using assms(1) by (auto simp: secrets_passed_def resolve_refs_def filter_empty_conv)
  then have st: "se_status (resolve_ref so r) = SecretAvailable" using r(2) by (simp add: blocking_def resolve_ref_def)
  then have "secret_value so r \<noteq> None" by (auto simp: resolve_ref_def split: if_splits)
  moreover have "secret_value so (resolve_ref so r) = secret_value so r" by (simp add: secret_value_def resolve_ref_def)
  ultimately show ?thesis using r(1) st by (auto simp: declared_secret_def get_resolved secret_of_def)
qed

lemma resolve_plugs:
  assumes "secrets_passed (resolve_refs so rs)"
  shows "well_referenced rs v \<Longrightarrow> resolve_value so (Some (resolve_refs so rs)) path v = Inr (plug (secret_of so rs) v)"
proof (induction v arbitrary: path)
  case (JObj kvs)
  show ?case
  proof (cases "list_ex (\<lambda>(k, x). reference_key k) kvs")
    case True
    then obtain n where "refers_to kvs = Some n" "required_name rs n" using JObj.prems by (auto split: option.splits)
    then show ?thesis using reference_name_some declared_available [OF assms] by (simp add: resolve_value_simps)
  next
    case False
    then have "list_all (\<lambda>kx. (\<lambda>(k, x). resolve_value so (Some (resolve_refs so rs)) (path @ ''.'' @ k) x) kx
        = Inr (plug (secret_of so rs) (snd kx))) kvs"
      using JObj by (fastforce simp: list_all_iff)
    from all_right_map [OF this] reference_name_none [OF False, of path] show ?thesis
      by (simp add: resolve_value_simps zip_map_map zip_same_conv_map case_prod_unfold comp_def)
  qed
next
  case (JList vs)
  have "list_all (\<lambda>ix. (\<lambda>(i, x). resolve_value so (Some (resolve_refs so rs)) (item_path path i) x) ix
      = Inr (plug (secret_of so rs) (snd ix))) (enumerate 0 vs)"
    using JList by (auto simp: list_all_iff dest!: enumerate_in)
  from all_right_map [OF this] show ?case
    by (simp add: resolve_value_simps flip: map_map [of "plug (secret_of so rs)" snd, unfolded comp_def])
qed (simp_all add: resolve_value_simps)

text \<open>C21. A report that passed can be relied on. If no declared secret was found to block and the arguments refer only to
  secrets that are declared as required, each by one well-formed reference, then the arguments resolve without an
  error, to the same arguments with each reference replaced by its secret and nothing else changed.\<close>

theorem checked_secrets_resolve:
  assumes "secrets_passed (resolve_refs so rs)" and "list_all (\<lambda>(k, v). well_referenced rs v) d"
  shows "resolve_arguments so (Some (resolve_refs so rs)) d = Inr (map (\<lambda>(k, v). (k, plug (secret_of so rs) v)) d)"
proof -
  have "list_all (\<lambda>kx. (\<lambda>(k, x). resolve_value so (Some (resolve_refs so rs)) (''$.'' @ k) x) kx
      = Inr (plug (secret_of so rs) (snd kx))) d"
    using assms(2) resolve_plugs [OF assms(1)] by (fastforce simp: list_all_iff)
  from all_right_map [OF this] show ?thesis
    by (simp add: resolve_arguments_def zip_map_map zip_same_conv_map case_prod_unfold)
qed

theorem checked_secrets_resolve_witness:
  "resolve_arguments \<lparr>so_provider = map_of [(''DB_PW'', ''pw'')], so_files = (\<lambda>_. None)\<rparr>
     (Some (resolve_refs \<lparr>so_provider = map_of [(''DB_PW'', ''pw'')], so_files = (\<lambda>_. None)\<rparr>
       [\<lparr>se_name = ''db'', se_source = ''env'', se_key = ''DB_PW'', se_required = True\<rparr>]))
     [(''auth'', JObj [(''secret_ref'', JStr ''db'')])] = Inr [(''auth'', JStr ''pw'')]"
proof -
  let ?so = "\<lparr>so_provider = map_of [(''DB_PW'', ''pw'')], so_files = (\<lambda>_. None)\<rparr> :: secret_sources"
  let ?rs = "[\<lparr>se_name = ''db'', se_source = ''env'', se_key = ''DB_PW'', se_required = True\<rparr>]"
  have "secrets_passed (resolve_refs ?so ?rs)" by code_simp
  moreover have "list_all (\<lambda>(k, v). well_referenced ?rs v) [(''auth'', JObj [(''secret_ref'', JStr ''db'')])]" by code_simp
  moreover have "map (\<lambda>(k, v). (k, plug (secret_of ?so ?rs) v)) [(''auth'', JObj [(''secret_ref'', JStr ''db'')])] = [(''auth'', JStr ''pw'')]"
    by code_simp
  ultimately show ?thesis using checked_secrets_resolve by metis
qed

end
