(* ===== verification/Redaction_Safety.thy ===== *)
theory Redaction_Safety
  imports Secrets_Safety Run_Safety
begin

text \<open>
  The executor with the redaction of \<open>security/secrets.py\<close> in its place: what it guarantees of the observations of a run,
  from which evidence, context and the stored session are made.
\<close>

definition clean_observation :: "observation \<Rightarrow> bool" where
  "clean_observation ob \<longleftrightarrow> scan_for_secrets (JObj (ob_data ob)) = []
     \<and> (case ob_error ob of None \<Rightarrow> True | Some e \<Rightarrow> redact_text redacted_marker e = e)"

definition redacts :: "exec_env \<Rightarrow> bool" where
  "redacts env \<longleftrightarrow> en_redact env = redact_mapping redacted_marker \<and> en_redact_text env = redact_text redacted_marker"

lemma scan_redacted_mapping: "scan_for_secrets (JObj (redact_mapping redacted_marker d)) = []"
  unfolding scan_for_secrets_def using scan_redacted sensitive_redacted marker_value
  by (auto simp: redact_mapping_def redacted_values_def)

lemma observation_clean: "redacts env \<Longrightarrow> clean_observation (observation_of env t call r)"
  by (simp add: clean_observation_def observation_of_def redacts_def scan_redacted_mapping redact_text_twice split: option.split)

subsection \<open>The executor\<close>

definition tidy :: "session \<Rightarrow> bool" where
  "tidy s \<longleftrightarrow> list_all clean_observation (as_observations (ss_state s))"

lemma tidy_on_state: "(\<And>s. as_observations (f s) = as_observations s) \<Longrightarrow> tidy (xe_session (on_state f x)) = tidy (xe_session x)"
  by (simp add: tidy_def on_state_def update_state_def)

lemma tidy_set_pending: "tidy (xe_session (set_pending p x)) = tidy (xe_session x)"
  unfolding set_pending_def by (rule tidy_on_state) simp

lemma tidy_remember: "tidy (xe_session (on_state (remember_approval k) x)) = tidy (xe_session x)"
  by (rule tidy_on_state) (simp add: remember_approval_def Let_def)

lemma tidy_observe: "redacts env \<Longrightarrow> tidy (xe_session x) \<Longrightarrow> tidy (xe_session (snd (observe env p r x)))"
  by (simp add: observe_def Let_def exec_simps tidy_def on_state_def update_state_def observation_clean)

lemma tidy_reconcile_loop: "redacts env \<Longrightarrow> tidy (xe_session x) \<Longrightarrow> tidy (xe_session (snd (reconcile_loop env rs p c d v x)))"
proof (induction rs arbitrary: x)
  case (Cons r rs)
  then show ?case
    by (auto simp: Let_def split_def tidy_observe exec_simps split: reconcile_answer.splits)
qed simp

lemma tidy_reconcile_required:
  assumes "redacts env" and "tidy (xe_session x)"
  shows "tidy (xe_session (snd (reconcile_required env p c d x)))"
proof -
  have "tidy (xe_session (snd (reconcile_action env p c d x)))"
    unfolding reconcile_action_def using assms by (rule tidy_reconcile_loop)
  then show ?thesis using assms(1)
    by (auto simp: reconcile_required_def tidy_observe exec_simps split: prod.splits option.splits)
qed

lemma tidy_release: "tidy (xe_session (release_lock l x)) = tidy (xe_session x)"
  by (simp add: exec_simps)

lemma tidy_acquired: "acquire_lock p x = (a, y) \<Longrightarrow> tidy (xe_session y) = tidy (xe_session x)"
  using acquire_lock_cases [of p x a y] by simp

lemma tidy_invoke: "redacts env \<Longrightarrow> tidy (xe_session x) \<Longrightarrow> tidy (xe_session (snd (invoke env p x)))"
  by (auto simp: invoke_def Let_def split_def tidy_observe exec_simps split: sum.splits)

lemma tidy_run_locked: "redacts env \<Longrightarrow> tidy (xe_session x) \<Longrightarrow> tidy (xe_session (snd (run_locked env p c d a x)))"
  by (auto simp: run_locked_def Let_def tidy_reconcile_required split_def tidy_remember tidy_invoke exec_simps
      split: option.splits)

lemmas tidy_steps = tidy_set_pending tidy_reconcile_required tidy_release tidy_run_locked

lemma tidy_stages:
  assumes "redacts env" and "tidy (xe_session x)"
  shows "tidy (xe_session (snd (execute_fresh env p c d a x)))"
    and "tidy (xe_session (snd (execute_duplicate env p c d x)))"
    and "tidy (xe_session (snd (execute_confirm p m x)))"
proof -
  obtain b y where y: "acquire_lock p (set_pending None x) = (b, y)" by fastforce
  then have ty: "tidy (xe_session y)" using tidy_acquired tidy_set_pending assms(2) by metis
  show "tidy (xe_session (snd (execute_fresh env p c d a x)))"
    unfolding execute_fresh_def y using ty assms(1) by (cases b) (simp_all add: split_def tidy_steps)
  show "tidy (xe_session (snd (execute_duplicate env p c d x)))"
    unfolding execute_duplicate_def y using ty assms(1) by (cases b) (simp_all add: split_def tidy_steps exec_simps Let_def)
  obtain b' z where z: "acquire_lock p x = (b', z)" by fastforce
  show "tidy (xe_session (snd (execute_confirm p m x)))"
    unfolding execute_confirm_def z using tidy_acquired [OF z] assms(2) by (cases b') (simp_all add: tidy_steps)
qed

lemma tidy_execute_checked:
  assumes "redacts env" and "tidy (xe_session x)"
  shows "tidy (xe_session (snd (execute_checked env p c d confirmed x)))"
proof -
  let ?x = "emit ''PolicyChecked'' (pa_action_id p) x"
  obtain o1 y where y: "check_sandbox env d p ?x = (o1, y)" by fastforce
  obtain o2 z where z: "check_resource_version p y = (o2, z)" by fastforce
  have "xe_session y = xe_session x" "xe_session z = xe_session y"
    using check_sandbox_cases [OF y] check_version_cases [OF z] by (auto simp: exec_simps)
  then have ty: "tidy (xe_session ?x)" "tidy (xe_session y)" "tidy (xe_session z)" using assms(2) by (simp_all add: exec_simps)
  show ?thesis unfolding execute_checked_def Let_def y
    by (cases o1; cases o2) (simp_all add: z tidy_stages [OF assms(1)] ty)
qed

lemma tidy_execute: "redacts env \<Longrightarrow> tidy (xe_session x) \<Longrightarrow> tidy (xe_session (snd (execute env p confirmed remember x)))"
  by (cases "executable_action env p"; subst execute_eq) (simp_all add: tidy_execute_checked split: prod.split)

lemma tidy_prepare:
  assumes "redacts env" and "tidy (xe_session x)"
  shows "tidy (xe_session (snd (prepare env d x)))"
proof -
  obtain r y where y: "prepare env d x = (r, y)" by fastforce
  from prepare_cases [OF this] show ?thesis
  proof (elim disjE exE conjE)
    fix p x1 assume "execute env p False False x1 = (r, y)" "xe_session x1 = xe_session x"
    then show ?thesis using tidy_execute [of env x1 p False False] assms y by simp
  qed (simp add: y assms)
qed


subsection \<open>Whole runs\<close>

text \<open>An environment whose executor redacts, at every moment.\<close>

definition always_redacts :: "loop_env \<Rightarrow> bool" where
  "always_redacts le \<longleftrightarrow> (\<forall>k. redacts (le_exec le k))"

lemma exec_redacts: "always_redacts le \<Longrightarrow> redacts (exec_env_at le k)"
  by (simp add: always_redacts_def redacts_def exec_env_at_def)

lemma tidy_act:
  assumes "always_redacts le" and "tidy (the_session st)"
  shows "tidy (the_session (snd (act le d p rem st)))"
proof -
  have "tidy (xe_session (snd (case p of Some q \<Rightarrow> execute (exec_env_at le (tick st)) q True rem (rs_exec st)
      | None \<Rightarrow> (case d of None \<Rightarrow> (Inl (ExecRaised ''AssertionError''), rs_exec st)
         | Some e \<Rightarrow> prepare (exec_env_at le (tick st)) e (rs_exec st)))))"
    using assms(2) by (auto simp: tidy_execute tidy_prepare exec_redacts [OF assms(1)] the_session_def split: option.splits)
  then show ?thesis
    by (auto simp: act_def the_session_def split_def split: sum.splits exec_error.splits)
qed

lemma tidy_fields [simp]:
  "tidy (update_state (\<lambda>st. st\<lparr>as_termination_reason := a\<rparr>) s) = tidy s" "tidy (update_state (\<lambda>st. st\<lparr>as_iteration := f st\<rparr>) s) = tidy s"
  "tidy (update_state (\<lambda>st. st\<lparr>as_recovery_attempts := g st\<rparr>) s) = tidy s"
  "tidy (update_state (\<lambda>st. st\<lparr>as_pending_action := q\<rparr>) s) = tidy s" "tidy (update_state (add_usage u) s) = tidy s"
  "tidy (update_state (note_evaluation ev) s) = tidy s" "tidy (update_state (set_goal_status g') s) = tidy s"
  "tidy (s\<lparr>ss_version := v\<rparr>) = tidy s" "tidy (s\<lparr>ss_tasks := m\<rparr>) = tidy s"
  by (simp_all add: tidy_def update_state_def add_usage_def note_evaluation_def set_goal_status_def)

lemma tidy_sync [simp]: "tidy (sync_current_task s) = tidy s"
  by (simp add: sync_current_task_def tidy_def)

lemma tidy_mark [simp]: "tidy (mark_current_task st s) = tidy s"
  by (simp add: mark_current_task_def)

lemma tidy_complete [simp]: "tidy (complete_current_task s) = tidy s"
  by (simp add: complete_current_task_def)

lemma observations_fail: "as_observations (ss_state (snd (fail_session c r s))) = as_observations (ss_state s)"
  by (simp add: fail_session_def Let_def update_state_def set_goal_status_def mark_current_task_def sync_current_task_def)

lemma tidy_fail: "tidy (snd (fail_session c r s)) = tidy s"
  by (simp add: tidy_def observations_fail)

lemma tidy_transitions:
  "tidy (snd (pause r m e a s)) = tidy s" "tidy (snd (cancel_session_run r s)) = tidy s" "tidy (snd (finish s)) = tidy s"
  by (auto simp: pause_def cancel_session_run_def finish_def Let_def observations_fail tidy_def update_state_def set_goal_status_def
      mark_current_task_def complete_current_task_def sync_current_task_def split: option.split)

lemma tidy_advance: "tidy (snd (advance ev s)) = tidy s"
  by (simp add: advance_def Let_def start_next_task_def)

lemma tidy_judge: "tidy (ps_session (snd (judge rt dumps now i ob es ps))) = tidy (ps_session ps)"
  by (simp add: judge_def Let_def split_def tidy_advance split: sum.split)

lemma tidy_process: "tidy (ps_session (snd (process rt dumps now ob p ps))) = tidy (ps_session ps)"
  by (auto simp: process_def Let_def tidy_judge split: prod.split sum.split)

lemma tidy_created: "tidy (the_session st) \<Longrightarrow> tidy (the_session (snd (create_run le rq g t tasks st)))"
  by (auto simp: create_run_def start_session_def first_state_def fresh_state_def tidy_def sync_current_task_def Let_def
      split: sum.split prod.split option.split)

interpretation tidied: run_invariant le "\<lambda>st. always_redacts le \<longrightarrow> tidy (the_session st)" for le
proof unfold_locales
  fix b and st :: runtime_state assume "always_redacts le \<longrightarrow> tidy (the_session st)"
  then show "always_redacts le \<longrightarrow> tidy (the_session (snd (save_snapshot b st)))"
    using saved_session [of b st] by auto
next
  fix tr and st :: runtime_state assume "always_redacts le \<longrightarrow> tidy (the_session st)"
  then show "always_redacts le \<longrightarrow> tidy (the_session (release_waiting tr st))"
    using released_session [of tr st] by auto
next
  fix d p rem and st :: runtime_state assume "always_redacts le \<longrightarrow> tidy (the_session st)"
  then show "always_redacts le \<longrightarrow> tidy (the_session (snd (act le d p rem st)))" using tidy_act by blast
next
  fix rq g t tasks and st :: runtime_state assume "always_redacts le \<longrightarrow> tidy (the_session st)"
  then show "always_redacts le \<longrightarrow> tidy (the_session (snd (create_run le rq g t tasks st)))" using tidy_created by blast
qed (auto simp: tidy_fail tidy_transitions tidy_process set_running_def seed_run_def split: prod.split)

text \<open>C20. No credential that redaction knows reaches the state of a run. If the executor redacts what tools return, then after
  a run of any goal, however it ends and whatever models, tools, reconcilers and policies did, no observation of
  the session at work has a finding in its data, and the text of its error is one that redaction does not change,
  provided the observations that were there before are so.\<close>

theorem observations_redacted:
  assumes "always_redacts le" and "list_all clean_observation (as_observations (the_state st))"
  shows "list_all clean_observation (as_observations (the_state (snd (start_run le rq g t None False st))))"
proof -
  have "tidy (the_session st)" using assms(2) by (simp add: tidy_def the_state_def)
  then have "tidy (the_session (snd (start_run le rq g t None False st)))"
    using tidied.run_started [of le st None rq g t False] assms(1) by simp
  then show ?thesis by (simp add: tidy_def the_state_def)
qed

definition redacting_loop :: loop_env where
  "redacting_loop = sample_loop\<lparr>le_exec := (\<lambda>_. (sample_env Returned)
     \<lparr>en_redact := redact_mapping redacted_marker, en_redact_text := redact_text redacted_marker\<rparr>)\<rparr>"

theorem observations_redacted_witness:
  "list_all clean_observation (as_observations (the_state (snd (start_run redacting_loop sample_request sample_goal sample_root None False
     (runtime_of (fresh_session ''s'' sample_goal sample_root) [] None)))))"
proof (rule observations_redacted)
  show "always_redacts redacting_loop" by (simp add: always_redacts_def redacts_def redacting_loop_def)
  show "list_all clean_observation (as_observations (the_state (runtime_of (fresh_session ''s'' sample_goal sample_root) [] None)))"
    by code_simp
qed

end
