(* ===== verification/Spec2Isabelle.thy ===== *)
theory Spec2Isabelle
  imports Coordinator Recovery Goal_Compiler Action_Safety World_Query Store_Safety Domain_Safety Run_Bounds Run_Results
    Worker_Drain Delegation_Safety Merge_Safety Batch_Safety Domain_Worlds Context_Safety Upkeep_Safety
    Access_Safety Stream_Safety Model_Routing Kubernetes_Workflow Redaction_Safety
begin

text \<open>
  Verification of the core of Universal-Agent (all paths are under \<open>src/src/universal_agent/\<close>).

  \<^bold>\<open>The program.\<close> An agent runtime works on a goal in a session. In a bounded loop it asks a
  model for a decision, validates it against the capabilities and the policy of the domains it was built
  from, runs a tool for it under locks, versions and an idempotency key, turns the observation into
  evidence and facts of a world model, lets evaluators judge task and goal, and saves the session.
  Around it stand memories of earlier sessions, a distributed layer (queue, locks, workers, scheduler)
  that hands sessions to processes, and a layer that delegates tasks to several agents and merges
  their results.

  \<^bold>\<open>The theories.\<close> One theory models a component, another one or two prove what it guarantees.

  \<^item> Shared: \<open>UA_Prelude\<close> (Python strings, dictionaries as association lists in insertion order, rounding
    of \<open>timedelta\<close>, the outcome of an operation as state and error or value), \<open>Core_Models\<close>
    (\<open>core/models.py\<close>, JSON values).
  \<^item> Distributed layer: \<open>Work_Queue\<close> (\<open>distributed/queue_models.py\<close>, \<open>queue_memory.py\<close>) with \<open>Queue_Inv\<close> (its
    invariant), \<open>Queue_Life\<close> (refinement of the abstract life of an item), \<open>Queue_Safety\<close> and \<open>Queue_Submit\<close>
    (runs of the queue: fencing, lost leases, one completion, bounded grants, idempotent submission);
    \<open>Dist_Locks\<close>, \<open>Lock_Safety\<close> (\<open>distributed/locks.py\<close>); \<open>Worker_Registry\<close> (\<open>worker_state.py\<close>);
    \<open>Scheduler\<close> (\<open>scheduler.py\<close>); \<open>Dist_Health\<close> (\<open>snapshot.py\<close>, \<open>health.py\<close>); \<open>Coordinator\<close>
    (\<open>coordinator.py\<close>, which composes all of these); \<open>Queue_Worker\<close> (\<open>worker.py\<close>) with \<open>Worker_Safety\<close>
    and \<open>Worker_Drain\<close>: a worker acts on the queue only through its operations, so what holds for runs of
    the queue holds for workers.
  \<^item> Session and world: \<open>Task_Graph\<close>, \<open>Goal_Compiler\<close> (\<open>tasks/\<close>, \<open>goals/compiler.py\<close>); \<open>Evidence\<close>,
    \<open>World_Model\<close>, \<open>World_Safety\<close>, \<open>World_Query\<close> (\<open>evidence/\<close>, \<open>world/model.py\<close>, \<open>world/models.py\<close>);
    \<open>Session_Runtime\<close>, \<open>Session_Safety\<close> (\<open>runtime/session.py\<close>, \<open>transitions.py\<close>, \<open>controls.py\<close>,
    \<open>decision.py\<close>); \<open>Session_Store\<close>, \<open>Store_Safety\<close> (\<open>state/\<close>).
  \<^item> Acting: \<open>Policy\<close> (\<open>policy/engine.py\<close>), \<open>Capabilities\<close> (\<open>tools/runtime.py\<close>, \<open>capability/registry.py\<close>,
    \<open>runtime/capabilities.py\<close>), \<open>Resource_Locks\<close> (\<open>coordination/locks.py\<close>, \<open>runtime/idempotency.py\<close>),
    \<open>Action_Executor\<close>, \<open>Action_Safety\<close> (\<open>runtime/actions.py\<close>), \<open>Recovery\<close> (\<open>recovery/\<close>).
  \<^item> Domains: \<open>Memory\<close> (\<open>memory/\<close>, \<open>runtime/memory.py\<close>), \<open>Evaluation\<close> (\<open>evaluation/evaluator.py\<close>),
    \<open>Domain_Runtime\<close>, \<open>Domain_Safety\<close> (\<open>domain/runtime.py\<close>, \<open>manager.py\<close>, \<open>builder.py\<close>).
  \<^item> The agent: \<open>Observation_Processing\<close>, \<open>Processing_Safety\<close> (\<open>runtime/processing.py\<close>,
    \<open>initial_state.py\<close>), \<open>Agent_Loop\<close> (the loop, its gates and the drive of \<open>runtime/agent.py\<close>, \<open>emission.py\<close>),
    \<open>Agent_Run\<close> (run, resume, continue, pause, cancel), \<open>Loop_Frame\<close> (what the steps of the loop leave
    alone), \<open>Run_Safety\<close>, \<open>Run_Bounds\<close>, \<open>Run_Results\<close> (what holds over whole runs).
  \<^item> Several agents: \<open>Agent_Tasks\<close> (\<open>multi_agent/contracts.py\<close>, \<open>registry.py\<close>), \<open>Delegation\<close>,
    \<open>Delegation_Safety\<close> (\<open>delegation.py\<close>, \<open>ledger.py\<close>), \<open>Agent_Merge\<close>, \<open>Merge_Safety\<close> (\<open>conflicts.py\<close>, \<open>merge.py\<close>,
    \<open>evaluation.py\<close>), \<open>Multi_Agent\<close>, \<open>Delegation_Batch\<close>, \<open>Batch_Safety\<close> (\<open>orchestrator.py\<close>,
    \<open>delegation_state.py\<close>).
  \<^item> Around the agent: \<open>World_Merge\<close>, \<open>Identity_Safety\<close>, \<open>World_Merge_Safety\<close>, \<open>Domain_Worlds\<close>
    (\<open>world/cross_domain.py\<close>, \<open>cross_domain_model.py\<close>: one world out of the views of several domains);
    \<open>Context_Compiler\<close>, \<open>Context_Safety\<close> (\<open>context/compiler.py\<close>: what the model gets to see, within its budget);
    \<open>Memory_Upkeep\<close>, \<open>Upkeep_Safety\<close> (\<open>memory/consolidator.py\<close>, \<open>preference.py\<close>, \<open>procedural.py\<close>).
  \<^item> At its borders: \<open>Access\<close>, \<open>Access_Safety\<close> (\<open>security/principal.py\<close>, \<open>authorization.py\<close>, \<open>credentials.py\<close>,
    \<open>oidc.py\<close>, \<open>audit.py\<close>: who may ask for what); \<open>Event_Stream\<close>, \<open>Stream_Safety\<close> (\<open>eventstream.py\<close>,
    \<open>runtime/event_stream.py\<close>: how events reach those who watch a session); \<open>Model_Routing\<close> (\<open>model/router.py\<close>,
    \<open>security/trust.py\<close>, \<open>sandbox.py\<close>); \<open>Kubernetes_Policy\<close>, \<open>Kubernetes_Safety\<close>, \<open>Kubernetes_Workflow\<close>
    (\<open>domains/kubernetes/policy.py\<close>, \<open>diagnosis.py\<close>, \<open>workflow.py\<close>, \<open>evidence.py\<close>: what the deciding parts of a domain
    guarantee together with the policy engine).
    \<open>Secrets\<close>, \<open>Secrets_Safety\<close> (\<open>security/secrets.py\<close>: redaction, scan, references to secrets);
    \<open>Redaction_Safety\<close> puts that redaction into the executor, where it is a parameter otherwise.

  \<^bold>\<open>State and operations.\<close> The attributes of a class are a record, its methods are functions from the
  record to an outcome: an error or a value, with the record as it is at that moment, so that a method that
  raises half-way leaves what it has changed. A \<open>dict\<close> is an association list, which keeps its order. The
  definitions keep the names of the code as far as the library allows.

  \<^bold>\<open>Interfaces.\<close> A locale states what a client relies on, and is interpreted where the model provides it.
  \<open>invariant_system\<close> (\<open>UA_Prelude\<close>) is a component whose operations keep an invariant; queue, locks, workers, resource
  locks, executor, world model, session, delegations, coordinator, credential store and the two ways to watch events are
  interpretations. \<open>expiring_store\<close> is a
  store whose leases die at a time. \<open>idempotent_queue\<close> (\<open>Scheduler\<close>) is what the scheduler asks of a queue,
  \<open>registering\<close> (\<open>Domain_Safety\<close>) what the builder asks of a registry, \<open>queue_relation\<close> (\<open>Worker_Safety\<close>) a relation
  of queues that the operations keep, and so the workers. In \<open>Loop_Frame\<close>, \<open>quiet_invariant\<close> is a predicate that what the
  loop does between its actions keeps, \<open>step_invariant\<close> adds the actions, and \<open>run_invariant\<close> and \<open>runtime_invariant\<close> (\<open>Run_Safety\<close>)
  runs and all operations of the runtime; \<open>settled_law\<close> (\<open>Run_Results\<close>) is a law on the results of runs. The properties rest on
  the interpretations.

  \<^bold>\<open>Loops.\<close> Most loops of the code are bounded by their data and are structural recursions or folds. The loop of the
  agent has a measure, \<open>max_iterations\<close> less the iterations counted, and \<open>loop_is_bounded\<close> states
  the bound. The search of the relation graph recurses on the distance that is left. The batch of
  delegations has the number of its tasks as fuel, and \<open>batch_answered\<close> proves that it is never used up: each round
  finishes at least one task. The two loops of the union-find over the identities of entities are partial functions, which
  \<open>identity_mappings_exact\<close> proves to return; the shrinking of JSON in the context drops one key in each round. The sweep for cycles in the task graph peels one layer for each task.

  \<^bold>\<open>The environment.\<close> What the program only calls is a parameter: the model's answers, tools, policies, providers,
  evaluators, handlers of work items, executors of agents, clocks and generated ids, JSON schemas, hashing,
  the text of JSON and the fuzzy ratio of the library. Control requests to a running session are answers of
  the environment at the places where the loop looks for them; what others do while a handler or an executor runs
  is a list of events.

  \<^bold>\<open>Abstractions.\<close> A \<open>datetime\<close> is an integer of microseconds. Floats are rationals, so rounding errors
  of IEEE arithmetic are not seen, and NaN and infinities do not occur. Characters are below 256. Look-ups that the code
  guards are total here. Only one operation runs at a time, except for the waves of a batch and the events of
  others above. The journal is the sequence of recorded states; the data of events and the text of
  metrics is left out where nothing reads it. Cancellation of the task of asyncio is modelled only while a tool runs.

  \<^bold>\<open>Not modelled.\<close> The file, SQLite and PostgreSQL backends, the JSON codecs on pydantic, HTTP service, command
  line, terminal interface and daemon, the adapters of language models, the tools of the domains over external systems
  (kubectl, Git and others), the evaluation harness and its reports, and the packaging of domains: these are
  input and output, text rendering and data, without logic that a kernel could check against a reference. The
  manifest lists each part with its reason.
\<close>

end
